(* ===== verification/Pairing_Prelude.thy ===== *)
theory Pairing_Prelude
  imports Main "HOL-Library.Word" "HOL-Library.List_Lexorder" "HOL-Library.Product_Lexorder"
begin

text \<open>
  Shared vocabulary of the development: the Rust types and library operations the
  components of \<^verbatim>\<open>cbcl-pairing\<close> use.

  \<^item> Octets are 8-bit words, octet strings and fixed arrays are lists of them.
  \<^item> The unsigned integers \<^verbatim>\<open>u8\<close> .. \<^verbatim>\<open>u64\<close> and \<^verbatim>\<open>usize\<close> (64-bit targets) are natural
    numbers; every arithmetic step that can leave the width is written with the checked
    or saturating operation the source calls.
  \<^item> \<^verbatim>\<open>Result\<close> is the type \<open>result\<close>, with a third constructor \<open>Panic\<close> for a failed
    \<^verbatim>\<open>expect\<close>, \<^verbatim>\<open>unreachable\<close> or overflow check.
  \<^item> \<^verbatim>\<open>BTreeMap\<close> and \<^verbatim>\<open>BTreeSet\<close> are strictly sorted lists; the locales \<open>btree_map\<close> and
    \<open>btree_set\<close> state the contract the components rely on.
\<close>

section \<open>Collections of rewrite rules\<close>

named_theorems machine_int
  \<open>the definitions of the checked and saturating operations\<close>

section \<open>Octets and machine integers\<close>

type_synonym byte = "8 word"
type_synonym bytes = "byte list"
type_synonym u8 = nat
type_synonym u16 = nat
type_synonym u32 = nat
type_synonym u64 = nat
type_synonym usize = nat

definition ascii :: "string \<Rightarrow> bytes" where
  "ascii s = map of_char s"

definition u8_max :: nat where
  "u8_max = 255"

definition u16_max :: nat where
  "u16_max = 65535"

definition u32_max :: nat where
  "u32_max = 4294967295"

definition u64_max :: nat where
  "u64_max = 18446744073709551615"

definition checked_add_u64 :: "u64 \<Rightarrow> u64 \<Rightarrow> u64 option" where
  [machine_int]: "checked_add_u64 a b = (if a + b \<le> u64_max then Some (a + b) else None)"

definition checked_sub_u64 :: "u64 \<Rightarrow> u64 \<Rightarrow> u64 option" where
  [machine_int]: "checked_sub_u64 a b = (if b \<le> a then Some (a - b) else None)"

definition saturating_add_u64 :: "u64 \<Rightarrow> u64 \<Rightarrow> u64" where
  [machine_int]: "saturating_add_u64 a b = min (a + b) u64_max"

definition saturating_sub_u64 :: "u64 \<Rightarrow> u64 \<Rightarrow> u64" where
  [machine_int]: "saturating_sub_u64 a b = a - b"

text \<open>\<^verbatim>\<open>try_into\<close> and \<^verbatim>\<open>try_from\<close> to a narrower unsigned type.\<close>

definition try_into :: "nat \<Rightarrow> nat \<Rightarrow> nat option" where
  [machine_int]: "try_into bound v = (if v \<le> bound then Some v else None)"

lemma checked_add_u64_Some:
  "checked_add_u64 a b = Some c \<longleftrightarrow> c = a + b \<and> a + b \<le> u64_max"
  by (auto simp: machine_int)

lemma checked_sub_u64_Some:
  "checked_sub_u64 a b = Some c \<longleftrightarrow> b \<le> a \<and> c = a - b"
  by (auto simp: machine_int)

lemma checked_sub_u64_None: "checked_sub_u64 a b = None \<longleftrightarrow> a < b"
  by (auto simp: machine_int)

lemma replicate_num: "replicate (numeral n) x = x # replicate (pred_numeral n) x"
  by (simp add: numeral_eq_Suc)

section \<open>Results\<close>

datatype ('a, 'e) result = Ok 'a | Err 'e | Panic

text \<open>The question-mark operator, on pure results and on results that carry a state.\<close>

fun bind_result :: "('a, 'e) result \<Rightarrow> ('a \<Rightarrow> ('b, 'e) result) \<Rightarrow> ('b, 'e) result" where
  "bind_result (Ok a) f = f a"
| "bind_result (Err e) f = Err e"
| "bind_result Panic f = Panic"

fun bind_st ::
  "('a, 'e) result \<times> 's \<Rightarrow> ('a \<Rightarrow> 's \<Rightarrow> ('b, 'e) result \<times> 's) \<Rightarrow> ('b, 'e) result \<times> 's" where
  "bind_st (Ok a, s) f = f a s"
| "bind_st (Err e, s) f = (Err e, s)"
| "bind_st (Panic, s) f = (Panic, s)"

fun map_err :: "('e \<Rightarrow> 'f) \<Rightarrow> ('a, 'e) result \<Rightarrow> ('a, 'f) result" where
  "map_err f (Ok a) = Ok a"
| "map_err f (Err e) = Err (f e)"
| "map_err f Panic = Panic"

definition ok_or :: "'e \<Rightarrow> 'a option \<Rightarrow> ('a, 'e) result" where
  "ok_or e x = (case x of None \<Rightarrow> Err e | Some a \<Rightarrow> Ok a)"

definition expect :: "'a option \<Rightarrow> ('a, 'e) result" where
  "expect x = (case x of None \<Rightarrow> Panic | Some a \<Rightarrow> Ok a)"

fun is_ok :: "('a, 'e) result \<Rightarrow> bool" where
  "is_ok (Ok a) = True"
| "is_ok (Err e) = False"
| "is_ok Panic = False"

text \<open>Collecting an iterator of results: the first error stops it.\<close>

fun collect_results :: "('a \<Rightarrow> ('b, 'e) result) \<Rightarrow> 'a list \<Rightarrow> ('b list, 'e) result" where
  "collect_results f [] = Ok []"
| "collect_results f (x # xs) =
     bind_result (f x) (\<lambda>y. bind_result (collect_results f xs) (\<lambda>ys. Ok (y # ys)))"

lemma bind_result_Ok:
  "bind_result r f = Ok b \<longleftrightarrow> (\<exists>a. r = Ok a \<and> f a = Ok b)"
  by (cases r) auto

lemma bind_result_Err:
  "bind_result r f = Err e \<longleftrightarrow> r = Err e \<or> (\<exists>a. r = Ok a \<and> f a = Err e)"
  by (cases r) auto

lemma bind_result_Panic:
  "bind_result r f = Panic \<longleftrightarrow> r = Panic \<or> (\<exists>a. r = Ok a \<and> f a = Panic)"
  by (cases r) auto

lemma bind_result_cong [fundef_cong]:
  assumes "r = r'" and "\<And>a. r' = Ok a \<Longrightarrow> f a = g a"
  shows "bind_result r f = bind_result r' g"
  using assms by (cases r') auto

lemma bind_st_case:
  "bind_st (x, s) f = (case x of Ok a \<Rightarrow> f a s | Err e \<Rightarrow> (Err e, s) | Panic \<Rightarrow> (Panic, s))"
  by (cases x) auto

lemma bind_st_Ok:
  "bind_st x f = (Ok b, s') \<longleftrightarrow> (\<exists>a s. x = (Ok a, s) \<and> f a s = (Ok b, s'))"
  by (cases x; cases "fst x") auto

lemma bind_st_not_Ok:
  "bind_st x f = (r, s') \<Longrightarrow>
     (\<exists>a s. x = (Ok a, s) \<and> f a s = (r, s')) \<or> (\<exists>e. x = (Err e, s') \<and> r = Err e) \<or> (x = (Panic, s') \<and> r = Panic)"
  by (cases x; cases "fst x") auto

lemma ok_or_Ok [simp]: "ok_or e x = Ok a \<longleftrightarrow> x = Some a"
  by (auto simp: ok_or_def split: option.splits)

lemma ok_or_Err [simp]: "ok_or e x = Err e' \<longleftrightarrow> x = None \<and> e' = e"
  by (auto simp: ok_or_def split: option.splits)

lemma ok_or_Panic [simp]: "ok_or e x \<noteq> Panic"
  by (auto simp: ok_or_def split: option.splits)

lemma ok_or_simps [simp]: "ok_or e None = Err e" "ok_or e (Some a) = Ok a"
  by (auto simp: ok_or_def)

lemma expect_simps [simp]: "expect None = Panic" "expect (Some a) = Ok a"
  by (auto simp: expect_def)

lemma map_err_Ok [simp]: "map_err f r = Ok a \<longleftrightarrow> r = Ok a"
  by (cases r) auto

lemma map_err_Panic [simp]: "map_err f r = Panic \<longleftrightarrow> r = Panic"
  by (cases r) auto

lemma collect_results_Ok:
  "collect_results f xs = Ok ys \<longleftrightarrow> list_all2 (\<lambda>x y. f x = Ok y) xs ys"
  by (induction xs arbitrary: ys)
    (auto simp: bind_result_Ok list_all2_Cons1)

lemma collect_results_map:
  "(\<And>x. x \<in> set xs \<Longrightarrow> f (g x) = Ok (h x)) \<Longrightarrow> collect_results f (map g xs) = Ok (map h xs)"
  by (induction xs) auto

lemma in_map_filter: "y \<in> set (List.map_filter f xs) \<longleftrightarrow> (\<exists>x \<in> set xs. f x = Some y)"
  by (induction xs) (auto simp: List.map_filter_simps split: option.splits)

section \<open>Ordered maps\<close>

text \<open>
  \<^verbatim>\<open>BTreeMap\<close>: the entries in ascending key order. Iteration order, \<^verbatim>\<open>len\<close> and the
  smallest element are observable in the source, so the order is kept.
\<close>

type_synonym ('k, 'v) btree = "('k \<times> 'v) list"

definition bt_get :: "('k, 'v) btree \<Rightarrow> 'k \<Rightarrow> 'v option" where
  "bt_get m k = map_of m k"

fun bt_insert :: "'k::linorder \<Rightarrow> 'v \<Rightarrow> ('k, 'v) btree \<Rightarrow> ('k, 'v) btree" where
  "bt_insert k v [] = [(k, v)]"
| "bt_insert k v ((k', v') # m) =
     (if k < k' then (k, v) # (k', v') # m
      else if k = k' then (k, v) # m
      else (k', v') # bt_insert k v m)"

definition bt_remove :: "'k \<Rightarrow> ('k, 'v) btree \<Rightarrow> ('k, 'v) btree" where
  "bt_remove k m = filter (\<lambda>e. fst e \<noteq> k) m"

definition bt_keys :: "('k, 'v) btree \<Rightarrow> 'k list" where
  "bt_keys m = map fst m"

definition bt_wf :: "('k::linorder, 'v) btree \<Rightarrow> bool" where
  "bt_wf m \<longleftrightarrow> sorted_wrt (<) (map fst m)"

definition bt_contains :: "('k, 'v) btree \<Rightarrow> 'k \<Rightarrow> bool" where
  "bt_contains m k \<longleftrightarrow> bt_get m k \<noteq> None"

text \<open>The sum of a measure of the values, for the byte accounts kept beside a map.\<close>

definition bt_sum :: "('v \<Rightarrow> nat) \<Rightarrow> ('k, 'v) btree \<Rightarrow> nat" where
  "bt_sum f m = sum_list (map (\<lambda>e. f (snd e)) m)"

locale btree_map =
  fixes get :: "'m \<Rightarrow> 'k::linorder \<Rightarrow> 'v option"
    and ins :: "'k \<Rightarrow> 'v \<Rightarrow> 'm \<Rightarrow> 'm"
    and rem :: "'k \<Rightarrow> 'm \<Rightarrow> 'm"
    and keys :: "'m \<Rightarrow> 'k list"
    and inv :: "'m \<Rightarrow> bool"
  assumes get_ins: "inv m \<Longrightarrow> get (ins k v m) = (get m)(k \<mapsto> v)"
    and get_rem: "inv m \<Longrightarrow> get (rem k m) = (get m)(k := None)"
    and inv_ins: "inv m \<Longrightarrow> inv (ins k v m)"
    and inv_rem: "inv m \<Longrightarrow> inv (rem k m)"
    and set_keys: "inv m \<Longrightarrow> set (keys m) = dom (get m)"
    and sorted_keys: "inv m \<Longrightarrow> sorted_wrt (<) (keys m)"
begin

lemma distinct_keys: "inv m \<Longrightarrow> distinct (keys m)"
  using sorted_keys strict_sorted_iff by blast

lemma finite_dom_get: "inv m \<Longrightarrow> finite (dom (get m))"
  by (metis List.finite_set set_keys)

lemma length_keys: "inv m \<Longrightarrow> length (keys m) = card (dom (get m))"
  by (metis distinct_card distinct_keys set_keys)

lemma length_keys_ins:
  assumes "inv m"
  shows "length (keys (ins k v m)) = (if get m k = None then Suc (length (keys m)) else length (keys m))"
proof -
  have "length (keys (ins k v m)) = card (insert k (dom (get m)))"
    using assms by (simp add: length_keys inv_ins get_ins)
  then show ?thesis
    using assms finite_dom_get[OF assms]
    by (auto simp: length_keys card_insert_if dom_def)
qed

lemma length_keys_rem_le:
  assumes "inv m"
  shows "length (keys (rem k m)) \<le> length (keys m)"
  using assms finite_dom_get[OF assms]
  by (auto simp: length_keys inv_rem get_rem intro!: card_mono)

lemma length_keys_rem:
  assumes "inv m" and "get m k \<noteq> None"
  shows "Suc (length (keys (rem k m))) = length (keys m)"
proof -
  have "length (keys (rem k m)) = card (dom (get m) - {k})"
    using assms(1) by (simp add: length_keys inv_rem get_rem)
  moreover have "k \<in> dom (get m)" using assms(2) by auto
  moreover have "Suc (card (dom (get m) - {k})) = card (dom (get m))"
    using finite_dom_get[OF assms(1)] calculation(2) by (rule card_Suc_Diff1)
  ultimately show ?thesis
    using assms(1) by (simp only: length_keys)
qed

end

lemma bt_get_insert: "bt_get (bt_insert k v m) = (bt_get m)(k \<mapsto> v)"
  by (induction m) (auto simp: bt_get_def fun_eq_iff)

lemma bt_get_remove: "bt_get (bt_remove k m) = (bt_get m)(k := None)"
  by (induction m) (auto simp: bt_get_def bt_remove_def fun_eq_iff)

lemma set_bt_insert_keys: "fst ` set (bt_insert k v m) = insert k (fst ` set m)"
  by (induction k v m rule: bt_insert.induct) (simp_all add: insert_commute)

lemma bt_wf_Nil [simp]: "bt_wf []"
  by (simp add: bt_wf_def)

lemma bt_wf_Cons: "bt_wf (e # m) \<longleftrightarrow> (\<forall>k \<in> fst ` set m. fst e < k) \<and> bt_wf m"
  by (auto simp: bt_wf_def)

lemma bt_wf_insert: "bt_wf m \<Longrightarrow> bt_wf (bt_insert k v m)"
  by (induction k v m rule: bt_insert.induct)
    (force simp: bt_wf_Cons set_bt_insert_keys intro: order.strict_trans)+

lemma bt_wf_remove: "bt_wf m \<Longrightarrow> bt_wf (bt_remove k m)"
  by (induction m) (auto simp: bt_remove_def bt_wf_Cons)

interpretation bt: btree_map bt_get bt_insert bt_remove bt_keys bt_wf
proof
  fix m :: "('a, 'b) btree" and k :: 'a and v :: 'b
  assume wf: "bt_wf m"
  show "bt_get (bt_insert k v m) = (bt_get m)(k \<mapsto> v)" by (rule bt_get_insert)
  show "bt_get (bt_remove k m) = (bt_get m)(k := None)" by (rule bt_get_remove)
  show "bt_wf (bt_insert k v m)" using wf by (rule bt_wf_insert)
  show "bt_wf (bt_remove k m)" using wf by (rule bt_wf_remove)
  show "set (bt_keys m) = dom (bt_get m)"
    by (auto simp: bt_keys_def bt_get_def[abs_def] dom_map_of_conv_image_fst)
  show "sorted_wrt (<) (bt_keys m)" using wf by (simp add: bt_keys_def bt_wf_def)
qed

lemma bt_get_Nil [simp]: "bt_get [] k = None"
  by (simp add: bt_get_def)

lemma bt_get_SomeD: "bt_get m k = Some v \<Longrightarrow> (k, v) \<in> set m"
  by (auto simp: bt_get_def dest: map_of_SomeD)

lemma bt_get_SomeI: "bt_wf m \<Longrightarrow> (k, v) \<in> set m \<Longrightarrow> bt_get m k = Some v"
  by (metis bt_get_def bt_wf_def map_of_is_SomeI strict_sorted_iff)

lemma bt_get_iff: "bt_wf m \<Longrightarrow> bt_get m k = Some v \<longleftrightarrow> (k, v) \<in> set m"
  using bt_get_SomeD bt_get_SomeI by metis

lemma bt_ext:
  assumes "bt_wf m" and "bt_wf m'" and "bt_get m = bt_get m'"
  shows "m = m'"
proof (rule map_sorted_distinct_set_unique[where f = fst])
  have "e \<in> set m \<longleftrightarrow> e \<in> set m'" for e
    using bt_get_iff[OF assms(1), of "fst e" "snd e"] bt_get_iff[OF assms(2), of "fst e" "snd e"] assms(3)
    by simp
  then show same: "set m = set m'" by blast
  show "inj_on fst (set m \<union> set m')"
  proof (rule inj_onI)
    fix x y assume *: "x \<in> set m \<union> set m'" "y \<in> set m \<union> set m'" "fst x = fst y"
    obtain k v w where xy: "x = (k, v)" "y = (k, w)" using *(3) by (cases x; cases y) auto
    then have "bt_get m k = Some v" "bt_get m k = Some w" using * same bt_get_iff[OF assms(1)] by auto
    then show "x = y" by (simp add: xy)
  qed
qed (use assms in \<open>auto simp: bt_wf_def strict_sorted_iff\<close>)

lemma bt_remove_absent: "bt_get m k = None \<Longrightarrow> bt_remove k m = m"
  by (induction m) (auto simp: bt_remove_def bt_get_def split: if_splits)

lemma bt_sum_insert:
  "bt_wf m \<Longrightarrow>
   bt_sum f (bt_insert k v m) + (case bt_get m k of None \<Rightarrow> 0 | Some w \<Rightarrow> f w) = bt_sum f m + f v"
proof (induction m)
  case Nil
  then show ?case by (simp add: bt_sum_def)
next
  case (Cons e m)
  obtain k' v' where e: "e = (k', v')" by (cases e)
  have wf: "bt_wf m" "\<forall>x \<in> fst ` set m. k' < x"
    using Cons.prems by (auto simp: bt_wf_Cons e)
  have absent: "k < k' \<Longrightarrow> bt_get m k = None"
    using wf(2) by (force simp: bt_get_def map_of_eq_None_iff)
  from Cons.IH[OF wf(1)] absent show ?case
    by (auto simp: bt_sum_def bt_get_def e)
qed

lemma bt_sum_remove:
  "bt_wf m \<Longrightarrow> bt_get m k = Some w \<Longrightarrow> bt_sum f (bt_remove k m) + f w = bt_sum f m"
proof (induction m)
  case Nil
  then show ?case by simp
next
  case (Cons e m)
  obtain k' v' where e: "e = (k', v')" by (cases e)
  have wf: "bt_wf m" "\<forall>x \<in> fst ` set m. k' < x"
    using Cons.prems by (auto simp: bt_wf_Cons e)
  show ?case
  proof (cases "k = k'")
    case True
    with wf(2) have "bt_get m k = None"
      by (force simp: bt_get_def map_of_eq_None_iff)
    then have "bt_remove k m = m" by (rule bt_remove_absent)
    with True Cons.prems(2) show ?thesis
      by (simp add: bt_sum_def bt_remove_def bt_get_def e)
  next
    case False
    with Cons.prems(2) have "bt_get m k = Some w" by (simp add: bt_get_def e)
    from Cons.IH[OF wf(1) this] False show ?thesis
      by (simp add: bt_sum_def bt_remove_def e)
  qed
qed

lemma bt_sum_member_le: "bt_wf m \<Longrightarrow> bt_get m k = Some w \<Longrightarrow> f w \<le> bt_sum f m"
  using bt_sum_remove[of m k w f] by linarith

section \<open>Ordered sets\<close>

text \<open>\<^verbatim>\<open>BTreeSet\<close>: the elements in ascending order.\<close>

fun bs_insert :: "'a::linorder \<Rightarrow> 'a list \<Rightarrow> 'a list" where
  "bs_insert x [] = [x]"
| "bs_insert x (y # ys) =
     (if x < y then x # y # ys else if x = y then y # ys else y # bs_insert x ys)"

definition bs_remove :: "'a \<Rightarrow> 'a list \<Rightarrow> 'a list" where
  "bs_remove x s = filter (\<lambda>y. y \<noteq> x) s"

definition bs_contains :: "'a list \<Rightarrow> 'a \<Rightarrow> bool" where
  "bs_contains s x \<longleftrightarrow> x \<in> set s"

definition bs_first :: "'a list \<Rightarrow> 'a option" where
  "bs_first s = (case s of [] \<Rightarrow> None | x # _ \<Rightarrow> Some x)"

definition bs_wf :: "'a::linorder list \<Rightarrow> bool" where
  "bs_wf s \<longleftrightarrow> sorted_wrt (<) s"

locale btree_set =
  fixes ins :: "'a::linorder \<Rightarrow> 's \<Rightarrow> 's"
    and rem :: "'a \<Rightarrow> 's \<Rightarrow> 's"
    and first :: "'s \<Rightarrow> 'a option"
    and elems :: "'s \<Rightarrow> 'a set"
    and inv :: "'s \<Rightarrow> bool"
  assumes elems_ins: "inv s \<Longrightarrow> elems (ins x s) = insert x (elems s)"
    and elems_rem: "inv s \<Longrightarrow> elems (rem x s) = elems s - {x}"
    and inv_ins: "inv s \<Longrightarrow> inv (ins x s)"
    and inv_rem: "inv s \<Longrightarrow> inv (rem x s)"
    and first_None: "inv s \<Longrightarrow> first s = None \<longleftrightarrow> elems s = {}"
    and first_least: "inv s \<Longrightarrow> first s = Some x \<Longrightarrow> x \<in> elems s \<and> (\<forall>y \<in> elems s. x \<le> y)"
begin

lemma first_greater_none:
  assumes "inv s" and "first s = Some x" and "b < x"
  shows "\<forall>y \<in> elems s. b < y"
  using first_least[OF assms(1,2)] assms(3) by force

end

lemma set_bs_insert: "set (bs_insert x s) = insert x (set s)"
  by (induction s) auto

lemma bs_wf_insert: "bs_wf s \<Longrightarrow> bs_wf (bs_insert x s)"
  by (induction s) (auto simp: bs_wf_def set_bs_insert)

interpretation bs: btree_set bs_insert bs_remove bs_first set bs_wf
proof
  fix s :: "'a list" and x :: 'a
  assume wf: "bs_wf s"
  show "set (bs_insert x s) = insert x (set s)" by (rule set_bs_insert)
  show "set (bs_remove x s) = set s - {x}" by (auto simp: bs_remove_def)
  show "bs_wf (bs_insert x s)" using wf by (rule bs_wf_insert)
  show "bs_wf (bs_remove x s)" using wf by (simp add: bs_wf_def bs_remove_def sorted_wrt_filter)
  show "bs_first s = None \<longleftrightarrow> set s = {}" by (simp add: bs_first_def split: list.splits)
  show "x \<in> set s \<and> (\<forall>y \<in> set s. x \<le> y)" if "bs_first s = Some x"
    using wf that by (auto simp: bs_first_def bs_wf_def split: list.splits)
qed

lemma set_bs_remove [simp]: "set (bs_remove x s) = set s - {x}"
  by (auto simp: bs_remove_def)

lemma bs_wf_Nil [simp]: "bs_wf []"
  by (simp add: bs_wf_def)

lemma length_bs_remove: "bs_wf s \<Longrightarrow> x \<in> set s \<Longrightarrow> length (bs_remove x s) < length s"
  unfolding bs_remove_def by (rule length_filter_less) auto

end
