(* ===== verification/Wire_Types.thy ===== *)
theory Wire_Types
  imports Pairing_Prelude
begin

text \<open>
  The typed protocol values of \<^verbatim>\<open>src/src/wire.rs\<close>: locators, invitations, relay commands
  and replies, channel frames and application messages, one constructor per variant of
  the source. \<open>cbor\<close> is the value tree of the CBOR library the recognisers work on.
  Constructors of different enums that share a name in the source carry a prefix here.
\<close>

section \<open>Value trees\<close>

datatype cbor =
    CInteger int
  | CBytes bytes
  | CFloat "64 word"
  | CText string
  | CBool bool
  | CNull
  | CTag nat cbor
  | CArray "cbor list"
  | CMap "(cbor \<times> cbor) list"

section \<open>Relay-facing values\<close>

definition SUITE_ID :: string where
  "SUITE_ID = ''CPACE25519-SHA512-D21''"

type_synonym claim_token = bytes

text \<open>
  The commitment to a claimant presence token: the domain label with its terminating
  zero octet, the mailbox identifier and the token, hashed. The hash is a parameter.
\<close>

definition claim_commitment :: "(bytes \<Rightarrow> bytes) \<Rightarrow> bytes \<Rightarrow> claim_token \<Rightarrow> bytes" where
  "claim_commitment sha256 mailbox_id claim_token =
     sha256 (ascii ''cbcl-pairing claim-v2 commitment'' @ [0] @ mailbox_id @ claim_token)"

datatype locator = Direct bytes | Nameplate u32

record invitation =
  inv_application :: string
  inv_relay_origin :: string
  inv_locator :: locator
  inv_secret :: bytes
  inv_expected_allocator_key :: "bytes option"
  inv_expected_claimant_key :: "bytes option"

datatype client_message =
    Bind
  | Allocate (locator_mode: u8) (ttl_seconds: "u32 option")
  | Claim locator
  | AllocateV2 (v2_mailbox_id: bytes) (v2_claim_commitment: bytes) (v2_ttl_seconds: "u16 option")
  | ClaimV2 bytes claim_token
  | Open bytes bytes
  | Put u8 bytes
  | Ack u8
  | Close
  | Ping

datatype close_reason = Closed | Crowded | Expired | Conflict

datatype server_message =
    Welcome
  | Allocated bytes bytes "u32 option" u64
  | Claimed bytes bytes u64
  | AllocatedV2 bytes bytes u64
  | ClaimedV2 bytes bytes u64
  | Frame u8 bytes
  | Acknowledged u8
  | MsgClosed close_reason
  | MsgError u16
  | Pong

section \<open>Channel values\<close>

datatype side = SideAllocator | SideClaimant

datatype direction = AllocatorToClaimant | ClaimantToAllocator

record cpace_message =
  cm_side :: side
  cm_share :: bytes
  cm_associated_data :: bytes

datatype channel_frame =
    Cpace side bytes bytes
  | Finished side bytes bytes
  | Sealed direction u64 bytes

record sealed_plaintext =
  sp_control :: bytes
  sp_body :: "bytes option"

record pairing_intent =
  pi_application :: string
  pi_action :: string
  pi_allocator_claim :: bytes
  pi_claimant_claim :: bytes
  pi_authority_summary :: string
  pi_intent_nonce :: bytes

datatype decision = Approve | Decline

record pairing_decision =
  pd_intent_digest :: bytes
  pd_decision :: decision

record application_payload =
  ap_intent_digest :: bytes
  ap_payload_type :: string
  ap_body :: bytes

datatype recognition_error =
    MalformedCbor
  | TrailingBytes
  | NonDeterministic
  | DuplicateKey
  | Schema
  | ApplicationId
  | RelayOrigin
  | TypedValue

end
