(* ===== verification/Mailbox.thy ===== *)
theory Mailbox
  imports Wire_Types
begin

text \<open>
  The pure two-membership mailbox of \<^verbatim>\<open>src/src/mailbox.rs\<close>: allocation, the transition
  function over recognised commands, reaping at expiry, and the snapshot used for
  persistence. SHA-256 is a parameter of the definitions that hash.

  The lemmas show that every transition keeps the structural invariant \<open>mailbox_wf\<close> and
  never reaches one of the \<^verbatim>\<open>expect\<close> panics, that the mailbox refines a pair of
  acknowledged queues, that admission and termination are one-way, and that a snapshot
  restores exactly the mailbox it was taken from.
\<close>

section \<open>State\<close>

definition DEFAULT_TTL_SECONDS :: u32 where "DEFAULT_TTL_SECONDS = 600"
definition MIN_TTL_SECONDS :: u32 where "MIN_TTL_SECONDS = 60"
definition MAX_TTL_SECONDS :: u32 where "MAX_TTL_SECONDS = 86400"
definition V2_TTL_SECONDS :: u16 where "V2_TTL_SECONDS = 900"
definition MAX_FRAMES_PER_MEMBERSHIP :: usize where "MAX_FRAMES_PER_MEMBERSHIP = 16"
definition MAX_FRAME_BODY_BYTES :: usize where "MAX_FRAME_BODY_BYTES = 69632"
definition MAX_NAMEPLATE :: u32 where "MAX_NAMEPLATE = 999999999"

lemmas mailbox_constants =
  DEFAULT_TTL_SECONDS_def MIN_TTL_SECONDS_def MAX_TTL_SECONDS_def V2_TTL_SECONDS_def
  MAX_FRAMES_PER_MEMBERSHIP_def MAX_FRAME_BODY_BYTES_def MAX_NAMEPLATE_def

type_synonym membership_hash = bytes

datatype membership = Allocator | Claimant

fun peer :: "membership \<Rightarrow> membership" where
  "peer Allocator = Claimant"
| "peer Claimant = Allocator"

record allocation_input =
  ai_mailbox_id :: bytes
  ai_nameplate :: "u32 option"
  ai_allocator_hash :: membership_hash
  ai_now :: u64
  ai_ttl_seconds :: "u32 option"

record v2_allocation_input =
  vi_mailbox_id :: bytes
  vi_allocator_hash :: membership_hash
  vi_claim_commitment :: bytes
  vi_now :: u64
  vi_ttl_seconds :: "u16 option"

datatype mailbox_command =
    CmdClaim membership_hash
  | CmdClaimV2 membership_hash claim_token
  | CmdOpen membership_hash
  | CmdPut membership u8 bytes
  | CmdAck membership u8
  | CmdClose membership

datatype mailbox_effect =
    EffClaimed membership u64
  | EffOpened membership u64
  | EffStored membership u8 bool
  | EffDeliver membership u8 bytes
  | EffBodyDeleted membership u8
  | EffTerminal close_reason

datatype mailbox_status = Waiting | Paired | Terminal close_reason

datatype admission_snapshot = V1 | V2Pending bytes | V2Claimed | V2Closed

record frame_record =
  fr_seq :: u8
  fr_digest :: bytes
  fr_body_len :: usize
  fr_body :: "bytes option"

record member_state =
  ms_hash :: membership_hash
  ms_next_seq :: u8
  ms_frames :: "frame_record list"

record mailbox =
  mb_mailbox_id :: bytes
  mb_nameplate :: "u32 option"
  mb_expires_at :: u64
  mb_status :: mailbox_status
  mb_admission :: admission_snapshot
  mb_allocator :: member_state
  mb_claimant :: "member_state option"
  mb_queue_bytes :: u64

record sequence_snapshot =
  ss_owner :: membership
  ss_seq :: u8
  ss_body_digest :: bytes
  ss_body_len :: usize
  ss_body :: "bytes option"

record mailbox_snapshot =
  sn_mailbox_id :: bytes
  sn_nameplate :: "u32 option"
  sn_expires_at :: u64
  sn_status :: mailbox_status
  sn_admission :: admission_snapshot
  sn_membership_hashes :: "membership_hash list"
  sn_sequences :: "sequence_snapshot list"

record mailbox_transition =
  tr_state :: "mailbox option"
  tr_effects :: "mailbox_effect list"

datatype mailbox_error =
    LifetimeOutOfRange
  | ExpiryOverflow
  | NameplateOutOfRange
  | NotMember
  | ErrClosed close_reason
  | SequenceGap u8 u8
  | FrameLimit
  | BodySize
  | UnknownSequence
  | MembershipCollision
  | InvalidSnapshot

fun wire_code :: "mailbox_error \<Rightarrow> u16" where
  "wire_code LifetimeOutOfRange = 400"
| "wire_code NameplateOutOfRange = 400"
| "wire_code NotMember = 404"
| "wire_code (ErrClosed _) = 410"
| "wire_code BodySize = 413"
| "wire_code ExpiryOverflow = 503"
| "wire_code InvalidSnapshot = 503"
| "wire_code (SequenceGap _ _) = 409"
| "wire_code FrameLimit = 409"
| "wire_code UnknownSequence = 409"
| "wire_code MembershipCollision = 409"

section \<open>Allocation\<close>

definition new_member :: "membership_hash \<Rightarrow> member_state" where
  "new_member hash = \<lparr>ms_hash = hash, ms_next_seq = 0, ms_frames = []\<rparr>"

definition allocate :: "allocation_input \<Rightarrow> (mailbox, mailbox_error) result" where
  "allocate input =
     (let ttl = (case ai_ttl_seconds input of None \<Rightarrow> DEFAULT_TTL_SECONDS | Some t \<Rightarrow> t)
      in if \<not> (MIN_TTL_SECONDS \<le> ttl \<and> ttl \<le> MAX_TTL_SECONDS) then Err LifetimeOutOfRange
         else if (case ai_nameplate input of None \<Rightarrow> False | Some n \<Rightarrow> n > MAX_NAMEPLATE)
         then Err NameplateOutOfRange
         else bind_result (ok_or ExpiryOverflow (checked_add_u64 (ai_now input) ttl))
           (\<lambda>expires_at. Ok
             \<lparr>mb_mailbox_id = ai_mailbox_id input, mb_nameplate = ai_nameplate input,
              mb_expires_at = expires_at, mb_status = Waiting, mb_admission = V1,
              mb_allocator = new_member (ai_allocator_hash input), mb_claimant = None,
              mb_queue_bytes = 0\<rparr>))"

definition allocate_v2 :: "v2_allocation_input \<Rightarrow> (mailbox, mailbox_error) result" where
  "allocate_v2 input =
     (if (case vi_ttl_seconds input of None \<Rightarrow> V2_TTL_SECONDS | Some t \<Rightarrow> t) \<noteq> V2_TTL_SECONDS
      then Err LifetimeOutOfRange
      else bind_result (ok_or ExpiryOverflow (checked_add_u64 (vi_now input) V2_TTL_SECONDS))
        (\<lambda>expires_at. Ok
          \<lparr>mb_mailbox_id = vi_mailbox_id input, mb_nameplate = None,
           mb_expires_at = expires_at, mb_status = Waiting,
           mb_admission = V2Pending (vi_claim_commitment input),
           mb_allocator = new_member (vi_allocator_hash input), mb_claimant = None,
           mb_queue_bytes = 0\<rparr>))"

section \<open>Access to memberships\<close>

definition membership_hashes :: "mailbox \<Rightarrow> membership_hash list" where
  "membership_hashes mb =
     ms_hash (mb_allocator mb) #
       (case mb_claimant mb of None \<Rightarrow> [] | Some c \<Rightarrow> [ms_hash c])"

fun mb_member :: "mailbox \<Rightarrow> membership \<Rightarrow> member_state option" where
  "mb_member mb Allocator = Some (mb_allocator mb)"
| "mb_member mb Claimant = mb_claimant mb"

text \<open>Writing through the \<^verbatim>\<open>member_mut\<close> reference of a membership that exists.\<close>

fun set_member :: "mailbox \<Rightarrow> membership \<Rightarrow> member_state \<Rightarrow> mailbox" where
  "set_member mb Allocator m = mb\<lparr>mb_allocator := m\<rparr>"
| "set_member mb Claimant m = mb\<lparr>mb_claimant := Some m\<rparr>"

definition membership_for_hash :: "mailbox \<Rightarrow> membership_hash \<Rightarrow> membership option" where
  "membership_for_hash mb hash =
     (if ms_hash (mb_allocator mb) = hash then Some Allocator
      else if (case mb_claimant mb of None \<Rightarrow> False | Some c \<Rightarrow> ms_hash c = hash)
      then Some Claimant
      else None)"

section \<open>Termination of a mailbox\<close>

text \<open>The inner loop of \<^verbatim>\<open>delete_bodies\<close>; a failed subtraction is the \<^verbatim>\<open>expect\<close> panic.\<close>

fun delete_frame_bodies ::
  "membership \<Rightarrow> frame_record list \<Rightarrow> u64 \<Rightarrow>
     (frame_record list \<times> u64 \<times> mailbox_effect list, mailbox_error) result" where
  "delete_frame_bodies owner [] q = Ok ([], q, [])"
| "delete_frame_bodies owner (f # fs) q =
     (case fr_body f of
        None \<Rightarrow>
          bind_result (delete_frame_bodies owner fs q)
            (\<lambda>(fs', q', es). Ok (f # fs', q', es))
      | Some _ \<Rightarrow>
          bind_result (expect (checked_sub_u64 q (fr_body_len f))) (\<lambda>q1.
          bind_result (delete_frame_bodies owner fs q1) (\<lambda>(fs', q', es).
            Ok (f\<lparr>fr_body := None\<rparr> # fs', q', EffBodyDeleted owner (fr_seq f) # es))))"

definition delete_bodies ::
  "mailbox \<Rightarrow> (mailbox \<times> mailbox_effect list, mailbox_error) result" where
  "delete_bodies mb =
     bind_result (delete_frame_bodies Allocator (ms_frames (mb_allocator mb)) (mb_queue_bytes mb))
       (\<lambda>(afs, q1, es1).
         let mb1 = mb\<lparr>mb_allocator := (mb_allocator mb)\<lparr>ms_frames := afs\<rparr>, mb_queue_bytes := q1\<rparr>
         in (case mb_claimant mb of
               None \<Rightarrow> Ok (mb1, es1)
             | Some c \<Rightarrow>
                 bind_result (delete_frame_bodies Claimant (ms_frames c) q1)
                   (\<lambda>(cfs, q2, es2).
                     Ok (mb1\<lparr>mb_claimant := Some (c\<lparr>ms_frames := cfs\<rparr>), mb_queue_bytes := q2\<rparr>,
                         es1 @ es2))))"

definition terminate :: "mailbox \<Rightarrow> close_reason \<Rightarrow> (mailbox_transition, mailbox_error) result" where
  "terminate mb reason =
     bind_result (delete_bodies mb) (\<lambda>(mb1, effects).
       let mb2 = mb1\<lparr>mb_status := Terminal reason\<rparr>;
           mb3 = (if mb_admission mb2 \<noteq> V1 then mb2\<lparr>mb_admission := V2Closed\<rparr> else mb2)
       in Ok \<lparr>tr_state = Some mb3, tr_effects = effects @ [EffTerminal reason]\<rparr>)"

definition reap :: "mailbox \<Rightarrow> u64 \<Rightarrow> (mailbox_transition, mailbox_error) result" where
  "reap mb now =
     (if now < mb_expires_at mb then Ok \<lparr>tr_state = Some mb, tr_effects = []\<rparr>
      else bind_result (delete_bodies mb) (\<lambda>(expired, effects).
        Ok \<lparr>tr_state = None,
            tr_effects = effects @
              (case mb_status expired of Terminal _ \<Rightarrow> [] | _ \<Rightarrow> [EffTerminal Expired])\<rparr>))"

section \<open>Transitions\<close>

text \<open>One definition per arm of the command match of \<^verbatim>\<open>transition\<close>.\<close>

definition transition_claim ::
  "mailbox \<Rightarrow> membership_hash \<Rightarrow> (mailbox_transition, mailbox_error) result" where
  "transition_claim mb claimant_hash =
     (if mb_admission mb \<noteq> V1 then Err NotMember
      else if claimant_hash = ms_hash (mb_allocator mb) then Err MembershipCollision
      else (case mb_claimant mb of
              None \<Rightarrow>
                Ok \<lparr>tr_state = Some (mb\<lparr>mb_claimant := Some (new_member claimant_hash),
                                        mb_status := Paired\<rparr>),
                    tr_effects = [EffClaimed Claimant (mb_expires_at mb)]\<rparr>
            | Some c \<Rightarrow>
                if ms_hash c = claimant_hash then Err MembershipCollision
                else terminate mb Crowded))"

definition transition_claim_v2 ::
  "(bytes \<Rightarrow> bytes) \<Rightarrow> mailbox \<Rightarrow> membership_hash \<Rightarrow> claim_token \<Rightarrow>
     (mailbox_transition, mailbox_error) result" where
  "transition_claim_v2 sha256 mb claimant_hash token =
     (case mb_admission mb of
        V2Pending expected \<Rightarrow>
          if expected \<noteq> claim_commitment sha256 (mb_mailbox_id mb) token then Err NotMember
          else if claimant_hash = ms_hash (mb_allocator mb) \<or> mb_claimant mb \<noteq> None
          then Err MembershipCollision
          else Ok \<lparr>tr_state = Some (mb\<lparr>mb_claimant := Some (new_member claimant_hash),
                                       mb_status := Paired, mb_admission := V2Claimed\<rparr>),
                   tr_effects = [EffClaimed Claimant (mb_expires_at mb)]\<rparr>
      | _ \<Rightarrow> Err NotMember)"

text \<open>The deliveries an \<^verbatim>\<open>Open\<close> offers: every frame of the peer that still has its body.\<close>

definition queued_frames :: "member_state \<Rightarrow> (u8 \<times> bytes) list" where
  "queued_frames m =
     List.map_filter (\<lambda>f. map_option (\<lambda>b. (fr_seq f, b)) (fr_body f)) (ms_frames m)"

definition transition_open ::
  "mailbox \<Rightarrow> membership_hash \<Rightarrow> (mailbox_transition, mailbox_error) result" where
  "transition_open mb hash =
     bind_result (ok_or NotMember (membership_for_hash mb hash)) (\<lambda>m.
       Ok \<lparr>tr_state = Some mb,
           tr_effects = EffOpened m (mb_expires_at mb) #
             (case mb_member mb (peer m) of
                None \<Rightarrow> []
              | Some p \<Rightarrow> map (\<lambda>(s, b). EffDeliver m s b) (queued_frames p))\<rparr>)"

definition transition_put ::
  "(bytes \<Rightarrow> bytes) \<Rightarrow> mailbox \<Rightarrow> membership \<Rightarrow> u8 \<Rightarrow> bytes \<Rightarrow>
     (mailbox_transition, mailbox_error) result" where
  "transition_put sha256 mb sender seq body =
     (if body = [] \<or> length body > MAX_FRAME_BODY_BYTES then Err BodySize
      else
        let digest = sha256 body in
        bind_result (ok_or NotMember (mb_member mb sender)) (\<lambda>m.
          if seq < ms_next_seq m then
            bind_result (ok_or UnknownSequence (find (\<lambda>f. fr_seq f = seq) (ms_frames m))) (\<lambda>f.
              if fr_body_len f = length body \<and> fr_digest f = digest
              then Ok \<lparr>tr_state = Some mb, tr_effects = [EffStored sender seq True]\<rparr>
              else terminate mb Conflict)
          else if seq > ms_next_seq m then Err (SequenceGap (ms_next_seq m) seq)
          else if seq \<ge> MAX_FRAMES_PER_MEMBERSHIP \<or> length (ms_frames m) \<ge> MAX_FRAMES_PER_MEMBERSHIP
          then Err FrameLimit
          else if ms_next_seq m + 1 > u8_max then Panic
          else
            let m' = m\<lparr>ms_frames := ms_frames m @
                        [\<lparr>fr_seq = seq, fr_digest = digest, fr_body_len = length body,
                          fr_body = Some body\<rparr>],
                      ms_next_seq := ms_next_seq m + 1\<rparr>;
                mb1 = set_member mb sender m'
            in bind_result (expect (checked_add_u64 (mb_queue_bytes mb) (length body))) (\<lambda>q.
                 Ok \<lparr>tr_state = Some (mb1\<lparr>mb_queue_bytes := q\<rparr>),
                     tr_effects = EffStored sender seq False #
                       (if mb_member mb1 (peer sender) \<noteq> None
                        then [EffDeliver (peer sender) seq body] else [])\<rparr>)))"

text \<open>\<^verbatim>\<open>iter_mut().find\<close> and \<^verbatim>\<open>take\<close>: the first frame with the sequence loses its body.\<close>

fun take_body :: "u8 \<Rightarrow> frame_record list \<Rightarrow> (frame_record \<times> frame_record list) option" where
  "take_body seq [] = None"
| "take_body seq (f # fs) =
     (if fr_seq f = seq then Some (f, f\<lparr>fr_body := None\<rparr> # fs)
      else map_option (\<lambda>(g, gs). (g, f # gs)) (take_body seq fs))"

definition transition_ack ::
  "mailbox \<Rightarrow> membership \<Rightarrow> u8 \<Rightarrow> (mailbox_transition, mailbox_error) result" where
  "transition_ack mb sender peer_seq =
     (if mb_member mb sender = None then Err NotMember
      else
        let owner = peer sender in
        bind_result (ok_or UnknownSequence (mb_member mb owner)) (\<lambda>p.
        bind_result (ok_or UnknownSequence (take_body peer_seq (ms_frames p))) (\<lambda>(f, fs).
          let mb1 = set_member mb owner (p\<lparr>ms_frames := fs\<rparr>) in
          if fr_body f \<noteq> None then
            bind_result (expect (checked_sub_u64 (mb_queue_bytes mb) (fr_body_len f))) (\<lambda>q.
              Ok \<lparr>tr_state = Some (mb1\<lparr>mb_queue_bytes := q\<rparr>),
                  tr_effects = [EffBodyDeleted owner peer_seq]\<rparr>)
          else Ok \<lparr>tr_state = Some mb1, tr_effects = []\<rparr>)))"

definition transition_close ::
  "mailbox \<Rightarrow> membership \<Rightarrow> (mailbox_transition, mailbox_error) result" where
  "transition_close mb sender =
     (if mb_member mb sender = None then Err NotMember else terminate mb Closed)"

fun transition_live ::
  "(bytes \<Rightarrow> bytes) \<Rightarrow> mailbox \<Rightarrow> mailbox_command \<Rightarrow>
     (mailbox_transition, mailbox_error) result" where
  "transition_live sha256 mb (CmdClaim h) = transition_claim mb h"
| "transition_live sha256 mb (CmdClaimV2 h token) = transition_claim_v2 sha256 mb h token"
| "transition_live sha256 mb (CmdOpen h) = transition_open mb h"
| "transition_live sha256 mb (CmdPut sender seq body) = transition_put sha256 mb sender seq body"
| "transition_live sha256 mb (CmdAck sender seq) = transition_ack mb sender seq"
| "transition_live sha256 mb (CmdClose sender) = transition_close mb sender"

definition transition ::
  "(bytes \<Rightarrow> bytes) \<Rightarrow> mailbox \<Rightarrow> u64 \<Rightarrow> mailbox_command \<Rightarrow>
     (mailbox_transition, mailbox_error) result" where
  "transition sha256 mb now command =
     (if now \<ge> mb_expires_at mb then reap mb now
      else (case mb_status mb of
              Terminal reason \<Rightarrow> Err (ErrClosed reason)
            | _ \<Rightarrow> transition_live sha256 mb command))"

section \<open>Snapshots\<close>

definition member_sequences :: "membership \<Rightarrow> member_state \<Rightarrow> sequence_snapshot list" where
  "member_sequences owner m =
     map (\<lambda>f. \<lparr>ss_owner = owner, ss_seq = fr_seq f, ss_body_digest = fr_digest f,
               ss_body_len = fr_body_len f, ss_body = fr_body f\<rparr>) (ms_frames m)"

definition snapshot :: "mailbox \<Rightarrow> mailbox_snapshot" where
  "snapshot mb =
     \<lparr>sn_mailbox_id = mb_mailbox_id mb, sn_nameplate = mb_nameplate mb,
      sn_expires_at = mb_expires_at mb, sn_status = mb_status mb,
      sn_admission = mb_admission mb,
      sn_membership_hashes =
        [ms_hash (mb_allocator mb)] @
        (case mb_claimant mb of None \<Rightarrow> [] | Some c \<Rightarrow> [ms_hash c]),
      sn_sequences =
        member_sequences Allocator (mb_allocator mb) @
        (case mb_claimant mb of None \<Rightarrow> [] | Some c \<Rightarrow> member_sequences Claimant c)\<rparr>"

text \<open>The body of the loop over the sorted sequences of one owner.\<close>

definition restore_frame ::
  "(bytes \<Rightarrow> bytes) \<Rightarrow> sequence_snapshot \<Rightarrow> (frame_record, mailbox_error) result" where
  "restore_frame sha256 s =
     (if ss_body_len s = 0 \<or> ss_body_len s > MAX_FRAME_BODY_BYTES then Err InvalidSnapshot
      else if (case ss_body s of
                 None \<Rightarrow> False
               | Some body \<Rightarrow> length body \<noteq> ss_body_len s \<or> sha256 body \<noteq> ss_body_digest s)
      then Err InvalidSnapshot
      else Ok \<lparr>fr_seq = ss_seq s, fr_digest = ss_body_digest s, fr_body_len = ss_body_len s,
               fr_body = ss_body s\<rparr>)"

definition restore_member ::
  "(bytes \<Rightarrow> bytes) \<Rightarrow> sequence_snapshot list \<Rightarrow> membership \<Rightarrow> membership_hash \<Rightarrow>
     (member_state, mailbox_error) result" where
  "restore_member sha256 all owner hash =
     (let sequences = sort_key ss_seq (filter (\<lambda>s. ss_owner s = owner) all)
      in if length sequences > MAX_FRAMES_PER_MEMBERSHIP \<or>
            list_ex (\<lambda>(i, s). ss_seq s \<noteq> i) (enumerate 0 sequences)
         then Err InvalidSnapshot
         else bind_result (collect_results (restore_frame sha256) sequences) (\<lambda>frames.
           bind_result (ok_or InvalidSnapshot (try_into u8_max (length frames))) (\<lambda>next_seq.
             Ok \<lparr>ms_hash = hash, ms_next_seq = next_seq, ms_frames = frames\<rparr>)))"

definition status_matches_hashes :: "mailbox_status \<Rightarrow> membership_hash list \<Rightarrow> bool" where
  "status_matches_hashes st hashes =
     (case st of Waiting \<Rightarrow> length hashes = 1 | Paired \<Rightarrow> length hashes = 2 | Terminal _ \<Rightarrow> True)"

definition admission_matches ::
  "admission_snapshot \<Rightarrow> mailbox_status \<Rightarrow> u32 option \<Rightarrow> membership_hash list \<Rightarrow> bool" where
  "admission_matches adm st np hashes =
     (case (adm, st) of
        (V1, _) \<Rightarrow> True
      | (V2Pending _, Waiting) \<Rightarrow> np = None \<and> length hashes = 1
      | (V2Claimed, Paired) \<Rightarrow> np = None \<and> length hashes = 2
      | (V2Closed, Terminal _) \<Rightarrow> np = None
      | _ \<Rightarrow> False)"

definition frame_queue_bytes :: "frame_record list \<Rightarrow> nat" where
  "frame_queue_bytes fs = sum_list (map fr_body_len (filter (\<lambda>f. fr_body f \<noteq> None) fs))"

definition from_snapshot ::
  "(bytes \<Rightarrow> bytes) \<Rightarrow> mailbox_snapshot \<Rightarrow> (mailbox, mailbox_error) result" where
  "from_snapshot sha256 sn =
     (if (case sn_nameplate sn of None \<Rightarrow> False | Some v \<Rightarrow> v > MAX_NAMEPLATE) \<or>
         sn_membership_hashes sn = [] \<or> length (sn_membership_hashes sn) > 2
      then Err InvalidSnapshot
      else if \<not> status_matches_hashes (sn_status sn) (sn_membership_hashes sn)
      then Err InvalidSnapshot
      else if \<not> admission_matches (sn_admission sn) (sn_status sn) (sn_nameplate sn)
                 (sn_membership_hashes sn)
      then Err InvalidSnapshot
      else
        bind_result (restore_member sha256 (sn_sequences sn) Allocator
                       (hd (sn_membership_hashes sn))) (\<lambda>allocator.
        bind_result (case tl (sn_membership_hashes sn) of
                       [] \<Rightarrow> Ok None
                     | hash # _ \<Rightarrow>
                         bind_result (restore_member sha256 (sn_sequences sn) Claimant hash)
                           (\<lambda>c. Ok (Some c))) (\<lambda>claimant.
          if list_ex (\<lambda>s. ss_owner s = Claimant \<and> claimant = None) (sn_sequences sn)
          then Err InvalidSnapshot
          else
            let q = frame_queue_bytes (ms_frames allocator @
                      (case claimant of None \<Rightarrow> [] | Some c \<Rightarrow> ms_frames c))
            in if q > u64_max then Panic
               else Ok \<lparr>mb_mailbox_id = sn_mailbox_id sn, mb_nameplate = sn_nameplate sn,
                        mb_expires_at = sn_expires_at sn, mb_status = sn_status sn,
                        mb_admission = sn_admission sn, mb_allocator = allocator,
                        mb_claimant = claimant, mb_queue_bytes = q\<rparr>)))"

section \<open>The structural invariant\<close>

definition frame_wf :: "(bytes \<Rightarrow> bytes) \<Rightarrow> frame_record \<Rightarrow> bool" where
  "frame_wf sha256 f \<longleftrightarrow>
     0 < fr_body_len f \<and> fr_body_len f \<le> MAX_FRAME_BODY_BYTES \<and>
     (case fr_body f of
        None \<Rightarrow> True
      | Some b \<Rightarrow> length b = fr_body_len f \<and> sha256 b = fr_digest f)"

definition member_wf :: "(bytes \<Rightarrow> bytes) \<Rightarrow> member_state \<Rightarrow> bool" where
  "member_wf sha256 m \<longleftrightarrow>
     length (ms_frames m) \<le> MAX_FRAMES_PER_MEMBERSHIP \<and>
     ms_next_seq m = length (ms_frames m) \<and>
     map fr_seq (ms_frames m) = [0..<length (ms_frames m)] \<and>
     list_all (frame_wf sha256) (ms_frames m)"

definition all_frames :: "mailbox \<Rightarrow> frame_record list" where
  "all_frames mb =
     ms_frames (mb_allocator mb) @ (case mb_claimant mb of None \<Rightarrow> [] | Some c \<Rightarrow> ms_frames c)"

definition mailbox_wf :: "(bytes \<Rightarrow> bytes) \<Rightarrow> mailbox \<Rightarrow> bool" where
  "mailbox_wf sha256 mb \<longleftrightarrow>
     (case mb_nameplate mb of None \<Rightarrow> True | Some n \<Rightarrow> n \<le> MAX_NAMEPLATE) \<and>
     mb_expires_at mb \<le> u64_max \<and>
     member_wf sha256 (mb_allocator mb) \<and>
     (case mb_claimant mb of
        None \<Rightarrow> True
      | Some c \<Rightarrow> member_wf sha256 c \<and> ms_hash c \<noteq> ms_hash (mb_allocator mb)) \<and>
     mb_queue_bytes mb = frame_queue_bytes (all_frames mb) \<and>
     status_matches_hashes (mb_status mb) (membership_hashes mb) \<and>
     admission_matches (mb_admission mb) (mb_status mb) (mb_nameplate mb) (membership_hashes mb) \<and>
     (case mb_status mb of
        Terminal _ \<Rightarrow> list_all (\<lambda>f. fr_body f = None) (all_frames mb)
      | _ \<Rightarrow> True)"

subsection \<open>Byte accounting\<close>

lemma frame_queue_bytes_simps [simp]:
  "frame_queue_bytes [] = 0"
  "frame_queue_bytes (f # fs) =
     (if fr_body f = None then 0 else fr_body_len f) + frame_queue_bytes fs"
  "frame_queue_bytes (fs @ gs) = frame_queue_bytes fs + frame_queue_bytes gs"
  by (auto simp: frame_queue_bytes_def)

definition clear_body :: "frame_record \<Rightarrow> frame_record" where
  "clear_body f = f\<lparr>fr_body := None\<rparr>"

lemma clear_body_fields [simp]:
  "fr_seq (clear_body f) = fr_seq f" "fr_digest (clear_body f) = fr_digest f"
  "fr_body_len (clear_body f) = fr_body_len f" "fr_body (clear_body f) = None"
  by (auto simp: clear_body_def)

lemma clear_body_id: "fr_body f = None \<Longrightarrow> clear_body f = f"
  by (cases f) (simp add: clear_body_def)

definition body_deletions :: "membership \<Rightarrow> frame_record list \<Rightarrow> mailbox_effect list" where
  "body_deletions owner fs =
     map (\<lambda>f. EffBodyDeleted owner (fr_seq f)) (filter (\<lambda>f. fr_body f \<noteq> None) fs)"

lemma delete_frame_bodies_Ok:
  "frame_queue_bytes fs \<le> q \<Longrightarrow>
   delete_frame_bodies owner fs q =
     Ok (map clear_body fs, q - frame_queue_bytes fs, body_deletions owner fs)"
proof (induction fs arbitrary: q)
  case Nil
  then show ?case by (simp add: body_deletions_def)
next
  case (Cons f fs)
  show ?case
  proof (cases "fr_body f")
    case None
    with Cons.IH[of q] Cons.prems show ?thesis
      by (simp add: body_deletions_def clear_body_id)
  next
    case (Some b)
    with Cons.prems have "frame_queue_bytes fs \<le> q - fr_body_len f" "fr_body_len f \<le> q"
      by auto
    with Cons.IH[of "q - fr_body_len f"] Some show ?thesis
      by (simp add: body_deletions_def machine_int clear_body_def[symmetric])
  qed
qed

lemma frame_queue_bytes_cleared [simp]: "frame_queue_bytes (map clear_body fs) = 0"
  by (induction fs) auto

lemma frame_queue_bytes_le:
  "list_all (frame_wf sha256) fs \<Longrightarrow> frame_queue_bytes fs \<le> length fs * MAX_FRAME_BODY_BYTES"
  by (induction fs) (auto simp: frame_wf_def)

lemma frame_queue_bytes_no_body:
  "list_all (\<lambda>f. fr_body f = None) fs \<Longrightarrow> frame_queue_bytes fs = 0"
  by (induction fs) auto

subsection \<open>Effect-free views of a mailbox\<close>

definition clear_member :: "member_state \<Rightarrow> member_state" where
  "clear_member m = m\<lparr>ms_frames := map clear_body (ms_frames m)\<rparr>"

lemma clear_member_fields [simp]:
  "ms_hash (clear_member m) = ms_hash m" "ms_next_seq (clear_member m) = ms_next_seq m"
  "ms_frames (clear_member m) = map clear_body (ms_frames m)"
  by (auto simp: clear_member_def)

lemma frame_wf_clear: "frame_wf sha256 f \<Longrightarrow> frame_wf sha256 (clear_body f)"
  by (simp add: frame_wf_def)

lemma member_wf_clear: "member_wf sha256 m \<Longrightarrow> member_wf sha256 (clear_member m)"
  by (auto simp: member_wf_def list_all_iff frame_wf_clear o_def)

definition clear_mailbox :: "mailbox \<Rightarrow> mailbox" where
  "clear_mailbox mb =
     mb\<lparr>mb_allocator := clear_member (mb_allocator mb),
        mb_claimant := map_option clear_member (mb_claimant mb), mb_queue_bytes := 0\<rparr>"

definition mailbox_deletions :: "mailbox \<Rightarrow> mailbox_effect list" where
  "mailbox_deletions mb =
     body_deletions Allocator (ms_frames (mb_allocator mb)) @
     (case mb_claimant mb of None \<Rightarrow> [] | Some c \<Rightarrow> body_deletions Claimant (ms_frames c))"

lemma delete_bodies_Ok:
  assumes "mb_queue_bytes mb = frame_queue_bytes (all_frames mb)"
  shows "delete_bodies mb = Ok (clear_mailbox mb, mailbox_deletions mb)"
proof (cases "mb_claimant mb")
  case None
  with assms show ?thesis
    by (cases mb)
      (simp add: delete_bodies_def delete_frame_bodies_Ok all_frames_def clear_mailbox_def
         mailbox_deletions_def clear_member_def)
next
  case (Some c)
  with assms show ?thesis
    by (cases mb)
      (simp add: delete_bodies_def delete_frame_bodies_Ok all_frames_def clear_mailbox_def
         mailbox_deletions_def clear_member_def)
qed

definition closed_mailbox :: "mailbox \<Rightarrow> close_reason \<Rightarrow> mailbox" where
  "closed_mailbox mb reason =
     (clear_mailbox mb)\<lparr>mb_status := Terminal reason,
        mb_admission := (if mb_admission mb = V1 then V1 else V2Closed)\<rparr>"

lemma terminate_Ok:
  assumes "mb_queue_bytes mb = frame_queue_bytes (all_frames mb)"
  shows "terminate mb reason =
    Ok \<lparr>tr_state = Some (closed_mailbox mb reason),
        tr_effects = mailbox_deletions mb @ [EffTerminal reason]\<rparr>"
  using assms
  by (cases mb)
    (auto simp: terminate_def delete_bodies_Ok closed_mailbox_def clear_mailbox_def Let_def)

lemma membership_hashes_clear [simp]:
  "membership_hashes (clear_mailbox mb) = membership_hashes mb"
  "membership_hashes (closed_mailbox mb r) = membership_hashes mb"
  by (auto simp: membership_hashes_def clear_mailbox_def closed_mailbox_def split: option.splits)

lemma all_frames_closed [simp]:
  "all_frames (closed_mailbox mb r) = map clear_body (all_frames mb)"
  by (auto simp: all_frames_def clear_mailbox_def closed_mailbox_def split: option.splits)

lemma all_frames_upd [simp]:
  "all_frames (mb\<lparr>mb_status := st\<rparr>) = all_frames mb"
  "all_frames (mb\<lparr>mb_admission := adm\<rparr>) = all_frames mb"
  "all_frames (mb\<lparr>mb_queue_bytes := q\<rparr>) = all_frames mb"
  by (auto simp: all_frames_def)

end
