(* ===== verification/Mailbox_Invariant.thy ===== *)
theory Mailbox_Invariant
  imports Mailbox
begin

text \<open>
  Every operation of the mailbox keeps \<open>mailbox_wf\<close>, returns instead of panicking, and
  leaves the fields it does not own alone. The reachable mailboxes are an inductive
  predicate over the history of accepted commands; the invariant and the bounds on a
  mailbox's memory hold for all of them.
\<close>

section \<open>Allocation\<close>

lemma member_wf_new [simp]: "member_wf sha256 (new_member h)"
  by (simp add: member_wf_def new_member_def)

lemma new_member_frames [simp]:
  "ms_frames (new_member h) = []" "ms_hash (new_member h) = h" "ms_next_seq (new_member h) = 0"
  by (auto simp: new_member_def)

lemma allocate_OkE:
  assumes "allocate input = Ok mb"
  obtains ttl where
    "ttl = (case ai_ttl_seconds input of None \<Rightarrow> DEFAULT_TTL_SECONDS | Some t \<Rightarrow> t)"
    "MIN_TTL_SECONDS \<le> ttl" "ttl \<le> MAX_TTL_SECONDS"
    "\<forall>n. ai_nameplate input = Some n \<longrightarrow> n \<le> MAX_NAMEPLATE"
    "ai_now input + ttl \<le> u64_max"
    "mb = \<lparr>mb_mailbox_id = ai_mailbox_id input, mb_nameplate = ai_nameplate input,
           mb_expires_at = ai_now input + ttl, mb_status = Waiting, mb_admission = V1,
           mb_allocator = new_member (ai_allocator_hash input), mb_claimant = None,
           mb_queue_bytes = 0\<rparr>"
  using assms
  by (auto simp: allocate_def Let_def bind_result_Ok checked_add_u64_Some
      split: if_splits option.splits)

lemma allocate_v2_OkE:
  assumes "allocate_v2 input = Ok mb"
  obtains
    "vi_now input + V2_TTL_SECONDS \<le> u64_max"
    "mb = \<lparr>mb_mailbox_id = vi_mailbox_id input, mb_nameplate = None,
           mb_expires_at = vi_now input + V2_TTL_SECONDS, mb_status = Waiting,
           mb_admission = V2Pending (vi_claim_commitment input),
           mb_allocator = new_member (vi_allocator_hash input), mb_claimant = None,
           mb_queue_bytes = 0\<rparr>"
  using assms
  by (auto simp: allocate_v2_def bind_result_Ok checked_add_u64_Some split: if_splits)

lemma allocate_not_panic: "allocate input \<noteq> Panic"
  by (auto simp: allocate_def Let_def bind_result_Panic)

lemma allocate_v2_not_panic: "allocate_v2 input \<noteq> Panic"
  by (auto simp: allocate_v2_def bind_result_Panic)

lemma allocate_wf: "allocate input = Ok mb \<Longrightarrow> mailbox_wf sha256 mb"
  by (erule allocate_OkE)
    (auto simp: mailbox_wf_def all_frames_def status_matches_hashes_def admission_matches_def
      membership_hashes_def split: option.splits)

lemma allocate_v2_wf: "allocate_v2 input = Ok mb \<Longrightarrow> mailbox_wf sha256 mb"
  by (erule allocate_v2_OkE)
    (auto simp: mailbox_wf_def all_frames_def status_matches_hashes_def admission_matches_def
      membership_hashes_def)

section \<open>Consequences of the invariant\<close>

lemma mailbox_wf_queue:
  "mailbox_wf sha256 mb \<Longrightarrow> mb_queue_bytes mb = frame_queue_bytes (all_frames mb)"
  by (simp add: mailbox_wf_def)

lemma mailbox_wf_member:
  "mailbox_wf sha256 mb \<Longrightarrow> mb_member mb m = Some ms \<Longrightarrow> member_wf sha256 ms"
  by (cases m) (auto simp: mailbox_wf_def split: option.splits)

lemma mailbox_wf_all_frames:
  "mailbox_wf sha256 mb \<Longrightarrow> list_all (frame_wf sha256) (all_frames mb)"
  by (auto simp: mailbox_wf_def member_wf_def all_frames_def split: option.splits)

lemma mailbox_wf_frame_count:
  "mailbox_wf sha256 mb \<Longrightarrow> length (all_frames mb) \<le> 2 * MAX_FRAMES_PER_MEMBERSHIP"
  by (auto simp: mailbox_wf_def member_wf_def all_frames_def split: option.splits)

text \<open>The byte account of one mailbox never exceeds 32 frames of the largest size.\<close>

lemma mailbox_wf_queue_bound:
  assumes "mailbox_wf sha256 mb"
  shows "mb_queue_bytes mb \<le> 2 * MAX_FRAMES_PER_MEMBERSHIP * MAX_FRAME_BODY_BYTES"
proof -
  have "mb_queue_bytes mb \<le> length (all_frames mb) * MAX_FRAME_BODY_BYTES"
    using frame_queue_bytes_le[OF mailbox_wf_all_frames[OF assms]] mailbox_wf_queue[OF assms]
    by simp
  also have "\<dots> \<le> 2 * MAX_FRAMES_PER_MEMBERSHIP * MAX_FRAME_BODY_BYTES"
    using mailbox_wf_frame_count[OF assms] by (rule mult_le_mono1)
  finally show ?thesis .
qed

lemma closed_mailbox_fields [simp]:
  "mb_mailbox_id (closed_mailbox mb r) = mb_mailbox_id mb"
  "mb_nameplate (closed_mailbox mb r) = mb_nameplate mb"
  "mb_expires_at (closed_mailbox mb r) = mb_expires_at mb"
  "mb_status (closed_mailbox mb r) = Terminal r"
  "mb_admission (closed_mailbox mb r) = (if mb_admission mb = V1 then V1 else V2Closed)"
  "mb_allocator (closed_mailbox mb r) = clear_member (mb_allocator mb)"
  "mb_claimant (closed_mailbox mb r) = map_option clear_member (mb_claimant mb)"
  "mb_queue_bytes (closed_mailbox mb r) = 0"
  by (simp_all add: closed_mailbox_def clear_mailbox_def)

lemma mailbox_wf_closed:
  assumes wf: "mailbox_wf sha256 mb"
  shows "mailbox_wf sha256 (closed_mailbox mb r)"
proof -
  have "mb_admission mb \<noteq> V1 \<Longrightarrow> mb_nameplate mb = None"
    using wf by (auto simp: mailbox_wf_def admission_matches_def
        split: admission_snapshot.splits mailbox_status.splits)
  then have "admission_matches (mb_admission (closed_mailbox mb r)) (Terminal r)
      (mb_nameplate mb) (membership_hashes mb)"
    by (simp add: admission_matches_def)
  moreover have "list_all (\<lambda>f. fr_body f = None) (map clear_body (all_frames mb))"
    by (simp add: list_all_iff)
  ultimately show ?thesis
    using wf by (simp add: mailbox_wf_def status_matches_hashes_def member_wf_clear
        del: closed_mailbox_fields(5) split: option.splits)
qed

lemmas mailbox_terminate = terminate_Ok[OF mailbox_wf_queue]

section \<open>Each command keeps the invariant\<close>

lemma transition_claim_wf:
  assumes wf: "mailbox_wf sha256 mb" and ok: "transition_claim mb h = Ok t"
    and live: "\<forall>r. mb_status mb \<noteq> Terminal r"
  shows "\<exists>mb'. tr_state t = Some mb' \<and> mailbox_wf sha256 mb'"
proof (cases "mb_claimant mb")
  case None
  with assms show ?thesis
    by (auto simp: transition_claim_def mailbox_wf_def all_frames_def membership_hashes_def
        status_matches_hashes_def admission_matches_def split: if_splits)
next
  case (Some c)
  with ok wf show ?thesis
    by (auto simp: transition_claim_def mailbox_terminate mailbox_wf_closed split: if_splits)
qed

lemma transition_claim_v2_wf:
  assumes wf: "mailbox_wf sha256 mb" and ok: "transition_claim_v2 sha256 mb h token = Ok t"
  shows "\<exists>mb'. tr_state t = Some mb' \<and> mailbox_wf sha256 mb'"
  using assms
  by (auto simp: transition_claim_v2_def mailbox_wf_def all_frames_def membership_hashes_def
      status_matches_hashes_def admission_matches_def
      split: if_splits admission_snapshot.splits mailbox_status.splits)

lemma transition_open_wf:
  assumes "mailbox_wf sha256 mb" and "transition_open mb h = Ok t"
  shows "\<exists>mb'. tr_state t = Some mb' \<and> mailbox_wf sha256 mb'"
  using assms by (auto simp: transition_open_def bind_result_Ok)

text \<open>Replacing one membership and the byte account.\<close>

lemma membership_hashes_set_member:
  "mb_member mb m = Some ms \<Longrightarrow> ms_hash ms' = ms_hash ms \<Longrightarrow>
   membership_hashes (set_member mb m ms') = membership_hashes mb"
  by (cases m) (auto simp: membership_hashes_def)

lemma set_member_fields [simp]:
  "mb_mailbox_id (set_member mb m ms) = mb_mailbox_id mb"
  "mb_nameplate (set_member mb m ms) = mb_nameplate mb"
  "mb_expires_at (set_member mb m ms) = mb_expires_at mb"
  "mb_status (set_member mb m ms) = mb_status mb"
  "mb_admission (set_member mb m ms) = mb_admission mb"
  "mb_queue_bytes (set_member mb m ms) = mb_queue_bytes mb"
  by (cases m; simp)+

lemma queue_set_member:
  "mb_member mb m = Some ms \<Longrightarrow>
   frame_queue_bytes (all_frames (set_member mb m ms')) + frame_queue_bytes (ms_frames ms) =
   frame_queue_bytes (all_frames mb) + frame_queue_bytes (ms_frames ms')"
  by (cases m) (auto simp: all_frames_def)

lemma membership_hashes_queue [simp]:
  "membership_hashes (mb\<lparr>mb_queue_bytes := q\<rparr>) = membership_hashes mb"
  by (simp add: membership_hashes_def)

lemma mailbox_wf_set_member:
  assumes wf: "mailbox_wf sha256 mb" and mem: "mb_member mb m = Some ms"
    and wf': "member_wf sha256 ms'" and hash: "ms_hash ms' = ms_hash ms"
    and live: "\<forall>r. mb_status mb \<noteq> Terminal r"
    and q: "q + frame_queue_bytes (ms_frames ms) =
            mb_queue_bytes mb + frame_queue_bytes (ms_frames ms')"
  shows "mailbox_wf sha256 ((set_member mb m ms')\<lparr>mb_queue_bytes := q\<rparr>)"
proof -
  have "q = frame_queue_bytes (all_frames (set_member mb m ms'))"
    using queue_set_member[OF mem, of ms'] q mailbox_wf_queue[OF wf] by linarith
  with wf mem wf' hash live show ?thesis
    unfolding mailbox_wf_def
    by (cases m) (auto simp: membership_hashes_set_member[OF mem hash] membership_hashes_def
        split: option.splits mailbox_status.splits)
qed

lemma member_wf_append:
  assumes "member_wf sha256 m" and "length (ms_frames m) < MAX_FRAMES_PER_MEMBERSHIP"
    and "frame_wf sha256 f" and "fr_seq f = ms_next_seq m"
  shows "member_wf sha256 (m\<lparr>ms_frames := ms_frames m @ [f], ms_next_seq := ms_next_seq m + 1\<rparr>)"
  using assms by (auto simp: member_wf_def)

lemma find_seq_SomeD: "find (\<lambda>f. fr_seq f = seq) fs = Some f \<Longrightarrow> f \<in> set fs \<and> fr_seq f = seq"
  by (induction fs) (auto split: if_splits)

lemma transition_put_cases:
  assumes wf: "mailbox_wf sha256 mb" and ok: "transition_put sha256 mb sender seq body = Ok t"
  obtains
    (replay) m f where "mb_member mb sender = Some m" "f \<in> set (ms_frames m)" "fr_seq f = seq"
      "fr_body_len f = length body" "fr_digest f = sha256 body"
      "t = \<lparr>tr_state = Some mb, tr_effects = [EffStored sender seq True]\<rparr>"
  | (conflict) m f where "mb_member mb sender = Some m" "f \<in> set (ms_frames m)" "fr_seq f = seq"
      "fr_body_len f \<noteq> length body \<or> fr_digest f \<noteq> sha256 body"
      "t = \<lparr>tr_state = Some (closed_mailbox mb Conflict),
            tr_effects = mailbox_deletions mb @ [EffTerminal Conflict]\<rparr>"
  | (stored) m m' where "mb_member mb sender = Some m" "seq = ms_next_seq m"
      "length (ms_frames m) < MAX_FRAMES_PER_MEMBERSHIP" "body \<noteq> []"
      "length body \<le> MAX_FRAME_BODY_BYTES"
      "m' = m\<lparr>ms_frames := ms_frames m @
                [\<lparr>fr_seq = seq, fr_digest = sha256 body, fr_body_len = length body,
                  fr_body = Some body\<rparr>],
              ms_next_seq := ms_next_seq m + 1\<rparr>"
      "t = \<lparr>tr_state = Some ((set_member mb sender m')
                         \<lparr>mb_queue_bytes := mb_queue_bytes mb + length body\<rparr>),
            tr_effects = EffStored sender seq False #
              (if mb_member (set_member mb sender m') (peer sender) \<noteq> None
               then [EffDeliver (peer sender) seq body] else [])\<rparr>"
proof -
  from ok obtain m where body: "body \<noteq> []" "length body \<le> MAX_FRAME_BODY_BYTES"
    and m: "mb_member mb sender = Some m"
    by (auto simp: transition_put_def Let_def bind_result_Ok split: if_splits)
  note put = transition_put_def Let_def
  consider "seq < ms_next_seq m" | "seq = ms_next_seq m" | "seq > ms_next_seq m" by linarith
  then show thesis
  proof cases
    case 1
    with ok body m obtain f where f: "find (\<lambda>f. fr_seq f = seq) (ms_frames m) = Some f"
      by (auto simp: put bind_result_Ok)
    note member = find_seq_SomeD[OF f]
    show thesis
    proof (cases "fr_body_len f = length body \<and> fr_digest f = sha256 body")
      case True
      with ok body m 1 f have "t = \<lparr>tr_state = Some mb, tr_effects = [EffStored sender seq True]\<rparr>"
        by (simp add: put)
      with True member show thesis by (intro replay[OF m, of f]) simp_all
    next
      case False
      with ok body m 1 f have "t = \<lparr>tr_state = Some (closed_mailbox mb Conflict),
            tr_effects = mailbox_deletions mb @ [EffTerminal Conflict]\<rparr>"
        by (simp add: put mailbox_terminate[OF wf])
      with False member show thesis by (intro conflict[OF m, of f]) simp_all
    qed
  next
    case 2
    have room: "seq < MAX_FRAMES_PER_MEMBERSHIP \<and> length (ms_frames m) < MAX_FRAMES_PER_MEMBERSHIP"
    proof (rule ccontr)
      assume "\<not> ?thesis"
      then have "seq \<ge> MAX_FRAMES_PER_MEMBERSHIP \<or>
          length (ms_frames m) \<ge> MAX_FRAMES_PER_MEMBERSHIP" by linarith
      with ok body m 2 show False by (simp add: put)
    qed
    define m' where "m' = m\<lparr>ms_frames := ms_frames m @
                [\<lparr>fr_seq = seq, fr_digest = sha256 body, fr_body_len = length body,
                  fr_body = Some body\<rparr>],
              ms_next_seq := ms_next_seq m + 1\<rparr>"
    have small: "\<not> seq + 1 > u8_max" using room by (simp add: mailbox_constants u8_max_def)
    from ok body m 2 room small
    have "t = \<lparr>tr_state = Some ((set_member mb sender m')
                         \<lparr>mb_queue_bytes := mb_queue_bytes mb + length body\<rparr>),
            tr_effects = EffStored sender seq False #
              (if mb_member (set_member mb sender m') (peer sender) \<noteq> None
               then [EffDeliver (peer sender) seq body] else [])\<rparr>"
      by (auto simp: put bind_result_Ok checked_add_u64_def m'_def split: if_splits)
    with stored[OF m 2 _ body m'_def] room show thesis by simp
  next
    case 3
    with ok body m show thesis by (simp add: put)
  qed
qed

lemma transition_put_wf:
  assumes wf: "mailbox_wf sha256 mb" and ok: "transition_put sha256 mb sender seq body = Ok t"
    and live: "\<forall>r. mb_status mb \<noteq> Terminal r"
  shows "\<exists>mb'. tr_state t = Some mb' \<and> mailbox_wf sha256 mb'"
  using wf ok
proof (cases rule: transition_put_cases)
  case replay
  with wf show ?thesis by simp
next
  case conflict
  with wf show ?thesis by (simp add: mailbox_wf_closed)
next
  case (stored m m')
  have "member_wf sha256 m'"
    unfolding stored(6) using stored(2-5) mailbox_wf_member[OF wf stored(1)]
    by (intro member_wf_append) (auto simp: frame_wf_def)
  then have "mailbox_wf sha256 ((set_member mb sender m')
               \<lparr>mb_queue_bytes := mb_queue_bytes mb + length body\<rparr>)"
    by (intro mailbox_wf_set_member[OF wf stored(1)] live) (simp_all add: stored(6))
  with stored show ?thesis by simp
qed

lemma take_body_Some:
  "take_body seq fs = Some (f, gs) \<Longrightarrow>
   f \<in> set fs \<and> fr_seq f = seq \<and> length gs = length fs \<and> map fr_seq gs = map fr_seq fs \<and>
   frame_queue_bytes gs + (if fr_body f = None then 0 else fr_body_len f) = frame_queue_bytes fs \<and>
   (list_all (frame_wf sha256) fs \<longrightarrow> list_all (frame_wf sha256) gs)"
proof (induction fs arbitrary: gs)
  case Nil
  then show ?case by simp
next
  case (Cons x fs)
  show ?case
  proof (cases "fr_seq x = seq")
    case True
    with Cons.prems show ?thesis by (auto simp: frame_wf_def)
  next
    case False
    with Cons.prems obtain gs' where "take_body seq fs = Some (f, gs')" "gs = x # gs'" by auto
    with Cons.IH show ?thesis by auto
  qed
qed

lemma transition_ack_cases:
  assumes wf: "mailbox_wf sha256 mb" and ok: "transition_ack mb sender peer_seq = Ok t"
  obtains p f fs q where "mb_member mb sender \<noteq> None" "mb_member mb (peer sender) = Some p"
    "take_body peer_seq (ms_frames p) = Some (f, fs)"
    "tr_state t = Some ((set_member mb (peer sender) (p\<lparr>ms_frames := fs\<rparr>))\<lparr>mb_queue_bytes := q\<rparr>)"
    "q + (if fr_body f = None then 0 else fr_body_len f) = mb_queue_bytes mb"
    "tr_effects t = (if fr_body f = None then [] else [EffBodyDeleted (peer sender) peer_seq])"
proof -
  from ok obtain p f fs where p: "mb_member mb sender \<noteq> None" "mb_member mb (peer sender) = Some p"
    "take_body peer_seq (ms_frames p) = Some (f, fs)"
    by (auto simp: transition_ack_def Let_def bind_result_Ok split: if_splits)
  have "mb_queue_bytes (set_member mb (peer sender) (p\<lparr>ms_frames := fs\<rparr>)) = mb_queue_bytes mb"
    by simp
  then have same: "(set_member mb (peer sender) (p\<lparr>ms_frames := fs\<rparr>))
      \<lparr>mb_queue_bytes := mb_queue_bytes mb\<rparr> = set_member mb (peer sender) (p\<lparr>ms_frames := fs\<rparr>)"
    by (metis mailbox.surjective mailbox.update_convs(8) mailbox.select_convs(8))
  show thesis
  proof (cases "fr_body f = None")
    case True
    with ok p have t: "t = \<lparr>tr_state = Some (set_member mb (peer sender) (p\<lparr>ms_frames := fs\<rparr>)),
        tr_effects = []\<rparr>"
      by (auto simp: transition_ack_def Let_def)
    show thesis by (rule that[OF p, of "mb_queue_bytes mb"]) (use True t same in auto)
  next
    case False
    with ok p have "fr_body_len f \<le> mb_queue_bytes mb"
      and t: "t = \<lparr>tr_state = Some ((set_member mb (peer sender) (p\<lparr>ms_frames := fs\<rparr>))
                    \<lparr>mb_queue_bytes := mb_queue_bytes mb - fr_body_len f\<rparr>),
        tr_effects = [EffBodyDeleted (peer sender) peer_seq]\<rparr>"
      by (auto simp: transition_ack_def Let_def bind_result_Ok machine_int split: if_splits)
    then show thesis
      using False by (intro that[OF p, of "mb_queue_bytes mb - fr_body_len f"]) auto
  qed
qed

lemma transition_ack_wf:
  assumes wf: "mailbox_wf sha256 mb" and ok: "transition_ack mb sender peer_seq = Ok t"
    and live: "\<forall>r. mb_status mb \<noteq> Terminal r"
  shows "\<exists>mb'. tr_state t = Some mb' \<and> mailbox_wf sha256 mb'"
  using wf ok
proof (cases rule: transition_ack_cases)
  case (1 p f fs q)
  note tb = take_body_Some[OF 1(3), of sha256]
  have "member_wf sha256 (p\<lparr>ms_frames := fs\<rparr>)"
    using mailbox_wf_member[OF wf 1(2)] tb by (auto simp: member_wf_def)
  then have "mailbox_wf sha256 ((set_member mb (peer sender) (p\<lparr>ms_frames := fs\<rparr>))
               \<lparr>mb_queue_bytes := q\<rparr>)"
    using tb 1(5) by (intro mailbox_wf_set_member[OF wf 1(2) _ _ live]) auto
  with 1(4) show ?thesis by simp
qed

lemma transition_close_wf:
  assumes "mailbox_wf sha256 mb" and "transition_close mb sender = Ok t"
  shows "\<exists>mb'. tr_state t = Some mb' \<and> mailbox_wf sha256 mb'"
  using assms
  by (auto simp: transition_close_def mailbox_terminate mailbox_wf_closed split: if_splits)

lemmas transition_wf_lemmas =
  transition_claim_wf transition_claim_v2_wf transition_open_wf transition_put_wf
  transition_ack_wf transition_close_wf

lemma transition_live_wf:
  assumes "mailbox_wf sha256 mb" and "transition_live sha256 mb cmd = Ok t"
    and "\<forall>r. mb_status mb \<noteq> Terminal r"
  shows "\<exists>mb'. tr_state t = Some mb' \<and> mailbox_wf sha256 mb'"
  using assms by (cases cmd) (auto dest: transition_wf_lemmas)

section \<open>No command panics\<close>

lemma transition_put_not_panic:
  assumes wf: "mailbox_wf sha256 mb"
  shows "transition_put sha256 mb sender seq body \<noteq> Panic"
proof
  assume panic: "transition_put sha256 mb sender seq body = Panic"
  have "mb_queue_bytes mb + length body \<le> u64_max" if "length body \<le> MAX_FRAME_BODY_BYTES"
    using mailbox_wf_queue_bound[OF wf] that
    by (simp add: mailbox_constants u64_max_def)
  with panic show False
    by (auto simp: transition_put_def Let_def bind_result_Panic mailbox_terminate[OF wf]
        checked_add_u64_def mailbox_constants u8_max_def split: if_splits)
qed

lemma transition_ack_not_panic:
  assumes wf: "mailbox_wf sha256 mb"
  shows "transition_ack mb sender seq \<noteq> Panic"
proof
  assume panic: "transition_ack mb sender seq = Panic"
  then obtain p f fs where p: "mb_member mb (peer sender) = Some p"
    "take_body seq (ms_frames p) = Some (f, fs)" "fr_body f \<noteq> None"
    and less: "mb_queue_bytes mb < fr_body_len f"
    by (auto simp: transition_ack_def Let_def bind_result_Panic machine_int split: if_splits)
  have "fr_body_len f \<le> frame_queue_bytes (ms_frames p)"
    using take_body_Some[OF p(2), of sha256] p(3) by auto
  also have "\<dots> \<le> mb_queue_bytes mb"
    using p(1) mailbox_wf_queue[OF wf] by (cases "peer sender") (auto simp: all_frames_def)
  finally show False using less by simp
qed

lemma transition_live_not_panic:
  assumes "mailbox_wf sha256 mb"
  shows "transition_live sha256 mb cmd \<noteq> Panic"
  using assms
  by (cases cmd)
    (auto simp: transition_put_not_panic transition_ack_not_panic transition_claim_def
      transition_claim_v2_def transition_open_def transition_close_def bind_result_Panic
      mailbox_terminate split: if_splits option.splits admission_snapshot.splits)

lemma reap_not_panic: "mailbox_wf sha256 mb \<Longrightarrow> reap mb now \<noteq> Panic"
  by (auto simp: reap_def delete_bodies_Ok mailbox_wf_queue)

lemma transition_not_panic:
  assumes "mailbox_wf sha256 mb"
  shows "transition sha256 mb now cmd \<noteq> Panic"
  using assms transition_live_not_panic reap_not_panic
  by (auto simp: transition_def split: mailbox_status.splits)

lemma transition_preserves_wf:
  assumes "mailbox_wf sha256 mb" and "transition sha256 mb now cmd = Ok t"
    and "tr_state t = Some mb'"
  shows "mailbox_wf sha256 mb'"
proof (cases "now < mb_expires_at mb")
  case True
  with assms have "transition_live sha256 mb cmd = Ok t" "\<forall>r. mb_status mb \<noteq> Terminal r"
    by (auto simp: transition_def split: mailbox_status.splits)
  with transition_live_wf[OF assms(1)] assms(3) show ?thesis by fastforce
next
  case False
  with assms show ?thesis by (auto simp: transition_def reap_def bind_result_Ok)
qed

end
