(* ===== verification/Mailbox_Queue.thy ===== *)
theory Mailbox_Queue
  imports Mailbox_Invariant
begin

text \<open>
  The mailbox as a pair of acknowledged queues. The history of a mailbox is the list of
  accepted commands with their effects; the abstract queue of a membership is what that
  history stored for it, less what the peer acknowledged. The frame records of
  \<^verbatim>\<open>src/src/mailbox.rs\<close> refine that queue step by step, so that a resumed membership is
  offered exactly the frames it has not acknowledged, in the order they were stored.
\<close>

type_synonym mailbox_log = "(mailbox_command \<times> mailbox_effect list) list"

section \<open>Reachable mailboxes\<close>

inductive mailbox_reach :: "(bytes \<Rightarrow> bytes) \<Rightarrow> mailbox_log \<Rightarrow> mailbox \<Rightarrow> bool"
  for sha256 where
  allocated: "allocate input = Ok mb \<Longrightarrow> mailbox_reach sha256 [] mb"
| allocated_v2: "allocate_v2 input2 = Ok mb \<Longrightarrow> mailbox_reach sha256 [] mb"
| stepped: "mailbox_reach sha256 log mb \<Longrightarrow> transition sha256 mb now cmd = Ok t \<Longrightarrow>
    tr_state t = Some mb' \<Longrightarrow> mailbox_reach sha256 (log @ [(cmd, tr_effects t)]) mb'"

lemma mailbox_reach_wf: "mailbox_reach sha256 log mb \<Longrightarrow> mailbox_wf sha256 mb"
proof (induction rule: mailbox_reach.induct)
  case (allocated input mb)
  then show ?case by (rule allocate_wf)
next
  case (allocated_v2 input2 mb)
  then show ?case by (rule allocate_v2_wf)
next
  case (stepped log mb now cmd t mb')
  then show ?case by (blast intro: transition_preserves_wf)
qed

section \<open>The abstract queue\<close>

definition is_live :: "mailbox \<Rightarrow> bool" where
  "is_live mb \<longleftrightarrow> (case mb_status mb of Terminal _ \<Rightarrow> False | _ \<Rightarrow> True)"

definition outbox :: "mailbox \<Rightarrow> membership \<Rightarrow> (u8 \<times> bytes) list" where
  "outbox mb m = (case mb_member mb m of None \<Rightarrow> [] | Some ms \<Rightarrow> queued_frames ms)"

definition next_seq_of :: "mailbox \<Rightarrow> membership \<Rightarrow> u8" where
  "next_seq_of mb m = (case mb_member mb m of None \<Rightarrow> 0 | Some ms \<Rightarrow> ms_next_seq ms)"

fun stored_by_entry :: "membership \<Rightarrow> mailbox_command \<times> mailbox_effect list \<Rightarrow> (u8 \<times> bytes) list" where
  "stored_by_entry m (CmdPut s q b, es) =
     (if s = m \<and> EffStored s q False \<in> set es then [(q, b)] else [])"
| "stored_by_entry m (_, es) = []"

fun acked_by_entry :: "membership \<Rightarrow> mailbox_command \<times> mailbox_effect list \<Rightarrow> u8 list" where
  "acked_by_entry m (CmdAck s q, es) = (if s = m then [q] else [])"
| "acked_by_entry m (_, es) = []"

definition stored_by :: "membership \<Rightarrow> mailbox_log \<Rightarrow> (u8 \<times> bytes) list" where
  "stored_by m log = concat (map (stored_by_entry m) log)"

definition acked_by :: "membership \<Rightarrow> mailbox_log \<Rightarrow> u8 list" where
  "acked_by m log = concat (map (acked_by_entry m) log)"

lemma stored_acked_simps [simp]:
  "stored_by m [] = []" "acked_by m [] = []"
  "stored_by m (log @ [e]) = stored_by m log @ stored_by_entry m e"
  "acked_by m (log @ [e]) = acked_by m log @ acked_by_entry m e"
  by (auto simp: stored_by_def acked_by_def)

definition unacked :: "membership \<Rightarrow> mailbox_log \<Rightarrow> (u8 \<times> bytes) list" where
  "unacked m log = filter (\<lambda>e. fst e \<notin> set (acked_by (peer m) log)) (stored_by m log)"

lemma peer_peer [simp]: "peer (peer m) = m" "peer m \<noteq> m" "m \<noteq> peer m"
  by (cases m; simp)+

section \<open>Queued frames\<close>

lemma queued_frames_append:
  "queued_frames (m\<lparr>ms_frames := ms_frames m @ [f], ms_next_seq := k\<rparr>) =
   queued_frames m @ (case fr_body f of None \<Rightarrow> [] | Some b \<Rightarrow> [(fr_seq f, b)])"
  by (auto simp: queued_frames_def List.map_filter_def split: option.splits)

lemma queued_frames_keys: "set (map fst (queued_frames m)) \<subseteq> set (map fr_seq (ms_frames m))"
  by (auto simp: queued_frames_def List.map_filter_def)

lemma map_filter_take_body:
  assumes "take_body seq fs = Some (f, gs)" and "distinct (map fr_seq fs)"
  shows "List.map_filter (\<lambda>f. map_option (\<lambda>b. (fr_seq f, b)) (fr_body f)) gs =
    filter (\<lambda>e. fst e \<noteq> seq)
      (List.map_filter (\<lambda>f. map_option (\<lambda>b. (fr_seq f, b)) (fr_body f)) fs)"
  using assms
proof (induction fs arbitrary: gs)
  case Nil
  then show ?case by simp
next
  case (Cons x fs)
  let ?q = "List.map_filter (\<lambda>f. map_option (\<lambda>b. (fr_seq f, b)) (fr_body f))"
  show ?case
  proof (cases "fr_seq x = seq")
    case True
    with Cons.prems have "seq \<notin> set (map fr_seq fs)" by auto
    then have "\<forall>e \<in> set (?q fs). fst e \<noteq> seq"
      by (auto simp: List.map_filter_def)
    then have "filter (\<lambda>e. fst e \<noteq> seq) (?q fs) = ?q fs"
      by (simp add: filter_id_conv)
    with True Cons.prems show ?thesis
      by (auto simp: List.map_filter_simps split: option.splits)
  next
    case False
    with Cons.prems obtain gs' where "take_body seq fs = Some (f, gs')" "gs = x # gs'" by auto
    with Cons.IH Cons.prems False show ?thesis
      by (auto simp: List.map_filter_simps split: option.splits)
  qed
qed

lemma queued_frames_take_body:
  assumes "member_wf sha256 m" and "take_body seq (ms_frames m) = Some (f, gs)"
  shows "queued_frames (m\<lparr>ms_frames := gs\<rparr>) = filter (\<lambda>e. fst e \<noteq> seq) (queued_frames m)"
proof -
  have "map fr_seq (ms_frames m) = [0..<length (ms_frames m)]"
    using assms(1) by (simp add: member_wf_def)
  then have "distinct (map fr_seq (ms_frames m))" by simp
  then show ?thesis using map_filter_take_body[OF assms(2)] by (simp add: queued_frames_def)
qed

lemma take_body_next_seq:
  assumes "member_wf sha256 m" and "take_body seq (ms_frames m) = Some (f, gs)"
  shows "seq < ms_next_seq m"
proof -
  have "seq \<in> set (map fr_seq (ms_frames m))"
    using take_body_Some[OF assms(2)] by auto
  also have "map fr_seq (ms_frames m) = [0..<ms_next_seq m]"
    using assms(1) by (simp add: member_wf_def)
  finally show ?thesis by simp
qed

lemma mb_member_set_member:
  "mb_member ((set_member mb m ms)\<lparr>mb_queue_bytes := q\<rparr>) m' =
   (if m' = m then Some ms else mb_member mb m')"
  by (cases m; cases m'; simp)

lemma mb_member_set_member_peer [simp]:
  "mb_member (set_member mb m ms) (peer m) = mb_member mb (peer m)"
  by (cases m; simp)

section \<open>One step refines the abstract queue\<close>

text \<open>
  The simulation: with the queue of \<open>m\<close> as abstraction, an accepted command appends what
  it stored and removes what it acknowledged, provided the mailbox stays live.
\<close>

definition refines_step ::
  "mailbox \<Rightarrow> mailbox_command \<times> mailbox_effect list \<Rightarrow> mailbox \<Rightarrow> membership \<Rightarrow> bool" where
  "refines_step mb e mb' m \<longleftrightarrow>
     outbox mb' m =
       filter (\<lambda>x. fst x \<notin> set (acked_by_entry (peer m) e)) (outbox mb m @ stored_by_entry m e) \<and>
     [0..<next_seq_of mb' m] = [0..<next_seq_of mb m] @ map fst (stored_by_entry m e) \<and>
     set (acked_by_entry (peer m) e) \<subseteq> {..<next_seq_of mb m}"

lemma outbox_same:
  "mb_member mb' m = mb_member mb m \<Longrightarrow> outbox mb' m = outbox mb m \<and> next_seq_of mb' m = next_seq_of mb m"
  by (simp add: outbox_def next_seq_of_def)

lemma not_live_closed [simp]: "\<not> is_live (closed_mailbox mb r)"
  by (simp add: is_live_def)

lemma refines_claim:
  assumes wf: "mailbox_wf sha256 mb" and ok: "transition_claim mb h = Ok t"
    and "tr_state t = Some mb'" "is_live mb'"
  shows "refines_step mb (CmdClaim h, tr_effects t) mb' m"
proof -
  from assms have "mb_claimant mb = None"
    "mb' = mb\<lparr>mb_claimant := Some (new_member h), mb_status := Paired\<rparr>"
    by (auto simp: transition_claim_def mailbox_terminate[OF wf] split: if_splits option.splits)
  then show ?thesis
    by (cases m) (auto simp: refines_step_def outbox_def next_seq_of_def queued_frames_def
        List.map_filter_simps)
qed

lemma refines_claim_v2:
  assumes ok: "transition_claim_v2 sha256 mb h token = Ok t"
    and "tr_state t = Some mb'"
  shows "refines_step mb (CmdClaimV2 h token, tr_effects t) mb' m"
proof -
  from assms have "mb_claimant mb = None"
    "mb' = mb\<lparr>mb_claimant := Some (new_member h), mb_status := Paired, mb_admission := V2Claimed\<rparr>"
    by (auto simp: transition_claim_v2_def split: if_splits admission_snapshot.splits)
  then show ?thesis
    by (cases m) (auto simp: refines_step_def outbox_def next_seq_of_def queued_frames_def
        List.map_filter_simps)
qed

lemma refines_put:
  assumes wf: "mailbox_wf sha256 mb" and ok: "transition_put sha256 mb s q b = Ok t"
    and st: "tr_state t = Some mb'" and live: "is_live mb'"
  shows "refines_step mb (CmdPut s q b, tr_effects t) mb' m"
  using wf ok
proof (cases rule: transition_put_cases)
  case replay
  with st have "mb' = mb" "EffStored s q False \<notin> set (tr_effects t)" by auto
  then show ?thesis by (simp add: refines_step_def)
next
  case conflict
  with st have "mb' = closed_mailbox mb Conflict" by simp
  with live show ?thesis by simp
next
  case (stored n n')
  have es: "EffStored s q False \<in> set (tr_effects t)" using stored by simp
  have mb': "mb' = (set_member mb s n')\<lparr>mb_queue_bytes := mb_queue_bytes mb + length b\<rparr>"
    using st stored by simp
  show ?thesis
  proof (cases "m = s")
    case True
    have "outbox mb' m = outbox mb m @ [(q, b)]"
      using stored(1) True
      by (simp add: mb' outbox_def mb_member_set_member stored(6) queued_frames_append)
    moreover have "next_seq_of mb' m = Suc q" "next_seq_of mb m = q"
      using stored(1,2) True by (simp_all add: mb' next_seq_of_def mb_member_set_member stored(6))
    ultimately show ?thesis using es True by (simp add: refines_step_def)
  next
    case False
    then show ?thesis using es outbox_same[of mb' m mb]
      by (simp add: mb' mb_member_set_member refines_step_def)
  qed
qed

lemma refines_ack:
  assumes wf: "mailbox_wf sha256 mb" and ok: "transition_ack mb s q = Ok t"
    and st: "tr_state t = Some mb'"
  shows "refines_step mb (CmdAck s q, tr_effects t) mb' m"
  using wf ok
proof (cases rule: transition_ack_cases)
  case (1 p f fs n)
  note p = mailbox_wf_member[OF wf 1(2)]
  have mb': "mb' = (set_member mb (peer s) (p\<lparr>ms_frames := fs\<rparr>))\<lparr>mb_queue_bytes := n\<rparr>"
    using st 1 by simp
  show ?thesis
  proof (cases "m = peer s")
    case True
    have "outbox mb' m = filter (\<lambda>e. fst e \<noteq> q) (outbox mb m)"
      using 1(2) True queued_frames_take_body[OF p 1(3)]
      by (simp add: mb' outbox_def mb_member_set_member)
    moreover have "next_seq_of mb' m = next_seq_of mb m" "q < next_seq_of mb m"
      using 1(2) True take_body_next_seq[OF p 1(3)]
      by (simp_all add: mb' next_seq_of_def mb_member_set_member)
    ultimately show ?thesis using True by (simp add: refines_step_def)
  next
    case False
    then have "s \<noteq> peer m" by (cases m; cases s; simp)
    with False show ?thesis using outbox_same[of mb' m mb]
      by (simp add: mb' mb_member_set_member refines_step_def)
  qed
qed

lemma transition_refines_step:
  assumes wf: "mailbox_wf sha256 mb" and ok: "transition sha256 mb now cmd = Ok t"
    and st: "tr_state t = Some mb'" and live: "is_live mb'"
  shows "is_live mb \<and> refines_step mb (cmd, tr_effects t) mb' m"
proof -
  have "now < mb_expires_at mb"
    using ok st by (auto simp: transition_def reap_def bind_result_Ok split: if_splits)
  with ok have step: "transition_live sha256 mb cmd = Ok t" and "is_live mb"
    by (auto simp: transition_def is_live_def split: mailbox_status.splits)
  moreover have "refines_step mb (cmd, tr_effects t) mb' m"
  proof (cases cmd)
    case (CmdOpen h)
    with step st have "mb' = mb" by (auto simp: transition_open_def bind_result_Ok)
    with CmdOpen show ?thesis by (simp add: refines_step_def)
  next
    case (CmdClose s)
    with step st live show ?thesis
      by (auto simp: transition_close_def mailbox_terminate[OF wf] split: if_splits)
  qed (use step st live wf in \<open>auto intro: refines_claim refines_claim_v2 refines_put refines_ack\<close>)
  ultimately show ?thesis by simp
qed

section \<open>The refinement along a history\<close>

lemma unacked_step:
  assumes IH: "outbox mb m = unacked m log" "map fst (stored_by m log) = [0..<next_seq_of mb m]"
      "set (acked_by (peer m) log) \<subseteq> {..<next_seq_of mb m}"
    and step: "refines_step mb e mb' m"
  shows "outbox mb' m = unacked m (log @ [e]) \<and>
    map fst (stored_by m (log @ [e])) = [0..<next_seq_of mb' m] \<and>
    set (acked_by (peer m) (log @ [e])) \<subseteq> {..<next_seq_of mb' m}"
proof -
  have seqs: "[0..<next_seq_of mb' m] = [0..<next_seq_of mb m] @ map fst (stored_by_entry m e)"
    using step by (simp add: refines_step_def)
  then have "length [0..<next_seq_of mb' m] =
      length ([0..<next_seq_of mb m] @ map fst (stored_by_entry m e))" by (rule arg_cong)
  then have mono: "next_seq_of mb m \<le> next_seq_of mb' m" by simp
  have fresh: "\<forall>x \<in> set (stored_by_entry m e). fst x \<ge> next_seq_of mb m"
  proof
    fix x assume x: "x \<in> set (stored_by_entry m e)"
    have "distinct ([0..<next_seq_of mb m] @ map fst (stored_by_entry m e))"
      unfolding seqs[symmetric] by simp
    then have "fst x \<notin> set [0..<next_seq_of mb m]"
      using x by (simp only: distinct_append) force
    then show "fst x \<ge> next_seq_of mb m" by simp
  qed
  have new_unacked: "filter (\<lambda>e. fst e \<notin> set (acked_by (peer m) log)) (stored_by_entry m e) =
      stored_by_entry m e"
    using fresh IH(3) by (force simp: filter_id_conv)
  have "outbox mb' m = filter (\<lambda>x. fst x \<notin> set (acked_by_entry (peer m) e))
      (filter (\<lambda>e. fst e \<notin> set (acked_by (peer m) log)) (stored_by m log @ stored_by_entry m e))"
    using step by (simp add: refines_step_def IH(1) unacked_def new_unacked)
  also have "\<dots> = unacked m (log @ [e])"
    by (simp add: unacked_def conj_commute)
  finally show ?thesis
    using IH seqs step mono by (auto simp: refines_step_def)
qed

lemma outbox_unacked:
  "mailbox_reach sha256 log mb \<Longrightarrow> is_live mb \<Longrightarrow>
   outbox mb m = unacked m log \<and> map fst (stored_by m log) = [0..<next_seq_of mb m] \<and>
   set (acked_by (peer m) log) \<subseteq> {..<next_seq_of mb m}"
proof (induction rule: mailbox_reach.induct)
  case (allocated input mb)
  then show ?case
    by (elim allocate_OkE, cases m)
      (auto simp: outbox_def unacked_def next_seq_of_def queued_frames_def List.map_filter_simps)
next
  case (allocated_v2 input2 mb)
  then show ?case
    by (elim allocate_v2_OkE, cases m)
      (auto simp: outbox_def unacked_def next_seq_of_def queued_frames_def List.map_filter_simps)
next
  case (stepped log mb now cmd t mb')
  have "is_live mb \<and> refines_step mb (cmd, tr_effects t) mb' m"
    using stepped by (intro transition_refines_step[OF mailbox_reach_wf[OF stepped(1)]])
  moreover have "is_live mb" using calculation by simp
  note IH = stepped.IH[OF this]
  ultimately show ?case
    using unacked_step[of mb m log "(cmd, tr_effects t)" mb'] IH by blast
qed

text \<open>What a history stored is bounded, whatever was acknowledged since.\<close>

lemma next_seq_bound:
  assumes "mailbox_wf sha256 mb"
  shows "next_seq_of mb m \<le> MAX_FRAMES_PER_MEMBERSHIP"
  using mailbox_wf_member[OF assms] by (auto simp: next_seq_of_def member_wf_def split: option.split)

lemma stored_entry:
  assumes wf: "mailbox_wf sha256 mb" and ok: "transition sha256 mb now cmd = Ok t" and st: "tr_state t = Some mb'"
    and new: "(q, b) \<in> set (stored_by_entry m (cmd, tr_effects t))"
  shows "is_live mb' \<and> length b \<le> MAX_FRAME_BODY_BYTES"
proof -
  obtain s where cmd: "cmd = CmdPut s q b" and es: "EffStored s q False \<in> set (tr_effects t)"
    using new by (cases cmd) (auto split: if_splits)
  have "now < mb_expires_at mb"
    using ok st by (auto simp: transition_def reap_def bind_result_Ok split: if_splits)
  with ok have step: "transition_put sha256 mb s q b = Ok t" and live: "is_live mb"
    by (auto simp: transition_def is_live_def cmd split: mailbox_status.splits)
  have len: "length b \<le> MAX_FRAME_BODY_BYTES"
    using step by (auto simp: transition_put_def split: if_splits)
  from wf step show ?thesis
  proof (cases rule: transition_put_cases)
    case replay
    with es show ?thesis by auto
  next
    case conflict
    with es show ?thesis by (auto simp: mailbox_deletions_def body_deletions_def split: option.splits)
  next
    case (stored n n')
    with st live len show ?thesis by (cases s) (auto simp: is_live_def)
  qed
qed

lemma stored_history:
  "mailbox_reach sha256 log mb \<Longrightarrow>
   length (stored_by m log) \<le> MAX_FRAMES_PER_MEMBERSHIP \<and>
   (\<forall>(q, b) \<in> set (stored_by m log). length b \<le> MAX_FRAME_BODY_BYTES)"
proof (induction rule: mailbox_reach.induct)
  case (stepped log mb now cmd t mb')
  let ?e = "stored_by_entry m (cmd, tr_effects t)"
  note wf = mailbox_reach_wf[OF stepped(1)]
  have reach: "mailbox_reach sha256 (log @ [(cmd, tr_effects t)]) mb'"
    using stepped(1-3) by (rule mailbox_reach.stepped)
  have new: "is_live mb' \<and> length b \<le> MAX_FRAME_BODY_BYTES" if "(q, b) \<in> set ?e" for q b
    using stored_entry[OF wf stepped(2,3) that] .
  have "length (stored_by m (log @ [(cmd, tr_effects t)])) \<le> MAX_FRAMES_PER_MEMBERSHIP"
  proof (cases "is_live mb'")
    case True
    then have "map fst (stored_by m (log @ [(cmd, tr_effects t)])) = [0..<next_seq_of mb' m]"
      using outbox_unacked[OF reach] by blast
    then have "length (stored_by m (log @ [(cmd, tr_effects t)])) = next_seq_of mb' m"
      by (metis length_map length_upt minus_nat.diff_0)
    then show ?thesis using next_seq_bound[OF mailbox_reach_wf[OF reach]] by simp
  next
    case False
    then have "?e = []" using new by (cases ?e) fastforce+
    then show ?thesis using stepped.IH by simp
  qed
  then show ?case using stepped.IH new by auto
qed simp_all

text \<open>The byte account is the size of the queued bodies.\<close>

lemma queued_bytes:
  assumes "list_all (frame_wf sha256) fs"
  shows "frame_queue_bytes fs =
    sum_list (map (length \<circ> snd) (List.map_filter (\<lambda>f. map_option (\<lambda>b. (fr_seq f, b)) (fr_body f)) fs))"
  using assms
  by (induction fs) (auto simp: List.map_filter_simps frame_wf_def split: option.splits)

lemma queue_bytes_outbox:
  assumes "mailbox_wf sha256 mb"
  shows "mb_queue_bytes mb =
    sum_list (map (length \<circ> snd) (outbox mb Allocator)) + sum_list (map (length \<circ> snd) (outbox mb Claimant))"
  using mailbox_wf_queue[OF assms] mailbox_wf_all_frames[OF assms]
  by (simp add: all_frames_def outbox_def queued_frames_def queued_bytes split: option.splits)

lemma terminal_outbox:
  assumes "mailbox_wf sha256 mb" and "\<not> is_live mb"
  shows "mb_queue_bytes mb = 0"
proof -
  have "frame_queue_bytes fs = 0" if "list_all (\<lambda>f. fr_body f = None) fs" for fs
    using that by (induction fs) auto
  then show ?thesis
    using assms by (auto simp: mailbox_wf_def is_live_def split: mailbox_status.splits)
qed

end
