(* ===== verification/Mailbox_Props.thy ===== *)
theory Mailbox_Props
  imports Mailbox_Queue
begin

text \<open>
  The properties of the mailbox component: safety of every transition, bounded memory,
  ordered loss-free delivery, idempotent retries and conflict detection, one-way admission,
  absorbing termination and expiry, and exact restoration from a snapshot.
\<close>

section \<open>Restoring a snapshot\<close>

lemma filter_member_sequences [simp]:
  "filter (\<lambda>s. ss_owner s = o1) (member_sequences o2 m) =
   (if o1 = o2 then member_sequences o2 m else [])"
  by (auto simp: member_sequences_def filter_empty_conv)

lemma restore_frame_id:
  "frame_wf sha256 f \<Longrightarrow>
   restore_frame sha256 \<lparr>ss_owner = owner, ss_seq = fr_seq f, ss_body_digest = fr_digest f,
     ss_body_len = fr_body_len f, ss_body = fr_body f\<rparr> = Ok f"
  by (auto simp: frame_wf_def restore_frame_def split: option.splits)

lemma restore_member_id:
  assumes wf: "member_wf sha256 m"
    and mine: "filter (\<lambda>s. ss_owner s = owner) all = member_sequences owner m"
  shows "restore_member sha256 all owner (ms_hash m) = Ok m"
proof -
  let ?ss = "member_sequences owner m"
  have seqs: "map ss_seq ?ss = [0..<length (ms_frames m)]"
    using wf by (simp add: member_sequences_def member_wf_def o_def)
  then have sorted: "sort_key ss_seq ?ss = ?ss"
    by (intro sort_key_id_if_sorted) simp
  have len: "length ?ss = length (ms_frames m)" by (simp add: member_sequences_def)
  have "ss_seq (?ss ! i) = i" if "i < length ?ss" for i
    using that seqs len by (metis add.left_neutral nth_map nth_upt)
  then have no_gap: "\<not> list_ex (\<lambda>(i, s). ss_seq s \<noteq> i) (enumerate 0 ?ss)"
    by (auto simp: list_ex_iff in_set_enumerate_eq)
  have frames: "collect_results (restore_frame sha256) ?ss = Ok (ms_frames m)"
  proof -
    have "collect_results (restore_frame sha256) ?ss = Ok (map id (ms_frames m))"
      unfolding member_sequences_def
      using wf by (intro collect_results_map) (auto simp: member_wf_def list_all_iff restore_frame_id)
    then show ?thesis by simp
  qed
  have small: "length (ms_frames m) \<le> 16" "ms_next_seq m = length (ms_frames m)"
    using wf by (simp_all add: member_wf_def mailbox_constants)
  then have "restore_member sha256 all owner (ms_hash m) =
      Ok \<lparr>ms_hash = ms_hash m, ms_next_seq = length (ms_frames m), ms_frames = ms_frames m\<rparr>"
    by (simp add: restore_member_def mine sorted no_gap frames len try_into_def
        mailbox_constants u8_max_def)
  with small(2) show ?thesis by (cases m) simp
qed

lemma snapshot_restores:
  assumes wf: "mailbox_wf sha256 mb"
  shows "from_snapshot sha256 (snapshot mb) = Ok mb"
proof -
  have bytes: "frame_queue_bytes (all_frames mb) \<le> u64_max"
    using mailbox_wf_queue_bound[OF wf] mailbox_wf_queue[OF wf]
    by (simp add: mailbox_constants u64_max_def)
  have hashes: "sn_membership_hashes (snapshot mb) = membership_hashes mb"
    by (simp add: snapshot_def membership_hashes_def)
  have alloc: "restore_member sha256 (sn_sequences (snapshot mb)) Allocator
      (ms_hash (mb_allocator mb)) = Ok (mb_allocator mb)"
    using wf by (intro restore_member_id)
      (auto simp: mailbox_wf_def snapshot_def split: option.splits)
  show ?thesis
  proof (cases "mb_claimant mb")
    case None
    with wf alloc bytes show ?thesis
      by (cases mb) (auto simp: from_snapshot_def hashes mailbox_wf_def membership_hashes_def
          snapshot_def member_sequences_def list_ex_iff all_frames_def split: option.splits)
  next
    case (Some c)
    have "restore_member sha256 (sn_sequences (snapshot mb)) Claimant (ms_hash c) = Ok c"
      using wf Some by (intro restore_member_id) (auto simp: mailbox_wf_def snapshot_def)
    with Some wf alloc bytes show ?thesis
      by (cases mb) (auto simp: from_snapshot_def hashes mailbox_wf_def membership_hashes_def
          snapshot_def list_ex_iff all_frames_def split: option.splits)
  qed
qed

section \<open>Functional behaviour of the commands\<close>

lemma transition_eq_live:
  "is_live mb \<Longrightarrow> now < mb_expires_at mb \<Longrightarrow>
   transition sha256 mb now cmd = transition_live sha256 mb cmd"
  by (auto simp: transition_def is_live_def split: mailbox_status.splits)

lemma find_seq_nth:
  assumes "member_wf sha256 m" and "q < ms_next_seq m"
  shows "find (\<lambda>f. fr_seq f = q) (ms_frames m) = Some (ms_frames m ! q)"
proof -
  let ?fs = "ms_frames m"
  have len: "q < length ?fs" using assms by (simp add: member_wf_def)
  have seqs: "map fr_seq ?fs = [0..<length ?fs]" using assms(1) by (simp add: member_wf_def)
  have nth: "fr_seq (?fs ! i) = i" if "i < length ?fs" for i
    using that seqs by (metis add.left_neutral nth_map nth_upt)
  show ?thesis
    unfolding find_Some_iff using len nth by (intro exI[of _ q]) auto
qed

text \<open>
  C2: storing a frame, on every branch of the command. A sequence already used is either
  an exact retry, which changes nothing, or a conflict, which closes the mailbox; a later
  sequence is a gap; the seventeenth frame is refused; otherwise the frame is appended,
  the byte account grows by its length and it is offered to a peer that has joined.
\<close>

theorem put_every_branch:
  assumes wf: "mailbox_wf sha256 mb" and live: "is_live mb" and "now < mb_expires_at mb"
    and m: "mb_member mb sender = Some m"
    and body: "body \<noteq> []" "length body \<le> MAX_FRAME_BODY_BYTES"
  shows "transition sha256 mb now (CmdPut sender seq body) =
    (if seq < ms_next_seq m then
       (if fr_body_len (ms_frames m ! seq) = length body \<and>
           fr_digest (ms_frames m ! seq) = sha256 body
        then Ok \<lparr>tr_state = Some mb, tr_effects = [EffStored sender seq True]\<rparr>
        else Ok \<lparr>tr_state = Some (closed_mailbox mb Conflict),
                 tr_effects = mailbox_deletions mb @ [EffTerminal Conflict]\<rparr>)
     else if seq > ms_next_seq m then Err (SequenceGap (ms_next_seq m) seq)
     else if seq = 16 then Err FrameLimit
     else Ok \<lparr>tr_state = Some ((set_member mb sender
                 (m\<lparr>ms_frames := ms_frames m @
                      [\<lparr>fr_seq = seq, fr_digest = sha256 body, fr_body_len = length body,
                        fr_body = Some body\<rparr>],
                    ms_next_seq := seq + 1\<rparr>))
                 \<lparr>mb_queue_bytes := mb_queue_bytes mb + length body\<rparr>),
              tr_effects = EffStored sender seq False #
                (if mb_member mb (peer sender) = None then []
                 else [EffDeliver (peer sender) seq body])\<rparr>)"
proof -
  have mwf: "ms_next_seq m = length (ms_frames m)" "length (ms_frames m) \<le> 16"
    using mailbox_wf_member[OF wf m] by (simp_all add: member_wf_def mailbox_constants)
  have fits: "mb_queue_bytes mb + length body \<le> u64_max"
    using mailbox_wf_queue_bound[OF wf] body(2) by (simp add: mailbox_constants u64_max_def)
  have put: "transition sha256 mb now (CmdPut sender seq body) =
      transition_put sha256 mb sender seq body"
    using live assms(3) by (simp add: transition_eq_live)
  consider "seq < ms_next_seq m" | "seq > ms_next_seq m" | "seq = ms_next_seq m" by linarith
  then show ?thesis
  proof cases
    case 1
    then show ?thesis
      using body m find_seq_nth[OF mailbox_wf_member[OF wf m] 1]
      by (simp add: put transition_put_def Let_def mailbox_terminate[OF wf])
  next
    case 2
    then show ?thesis using body m by (simp add: put transition_put_def Let_def)
  next
    case 3
    then show ?thesis
      unfolding put using body m mwf fits
      by (auto simp: transition_put_def Let_def machine_int mailbox_constants u8_max_def)
  qed
qed

definition demo_sha :: "bytes \<Rightarrow> bytes" where
  "demo_sha b = take 32 (b @ replicate 32 0)"

definition demo_input :: allocation_input where
  "demo_input = \<lparr>ai_mailbox_id = replicate 32 7, ai_nameplate = Some 42,
     ai_allocator_hash = replicate 32 1, ai_now = 1000, ai_ttl_seconds = None\<rparr>"

definition demo_mailbox :: mailbox where
  "demo_mailbox = \<lparr>mb_mailbox_id = replicate 32 7, mb_nameplate = Some 42, mb_expires_at = 1600,
     mb_status = Waiting, mb_admission = V1,
     mb_allocator = \<lparr>ms_hash = replicate 32 1, ms_next_seq = 0, ms_frames = []\<rparr>,
     mb_claimant = None, mb_queue_bytes = 0\<rparr>"

lemma demo_allocate: "allocate demo_input = Ok demo_mailbox"
  by (simp add: allocate_def demo_input_def demo_mailbox_def new_member_def mailbox_constants
      machine_int u64_max_def)

lemma demo_mailbox_wf: "mailbox_wf sha256 demo_mailbox"
  using demo_allocate by (rule allocate_wf)

theorem put_every_branch_witness:
  "transition demo_sha demo_mailbox 1001 (CmdPut Allocator 0 [9]) =
     Ok \<lparr>tr_state = Some (demo_mailbox\<lparr>
           mb_allocator := \<lparr>ms_hash = replicate 32 1, ms_next_seq = 1,
             ms_frames = [\<lparr>fr_seq = 0, fr_digest = demo_sha [9], fr_body_len = 1,
                           fr_body = Some [9]\<rparr>]\<rparr>,
           mb_queue_bytes := 1\<rparr>),
         tr_effects = [EffStored Allocator 0 False]\<rparr>"
  by (subst put_every_branch[where m = "mb_allocator demo_mailbox"])
    (simp_all add: demo_mailbox_wf, simp_all add: demo_mailbox_def is_live_def mailbox_constants)

section \<open>Reachable mailboxes are safe and small\<close>

text \<open>
  C24: every mailbox the program can reach satisfies the structural invariant (contiguous
  sequences, digests that match the queued bodies, an exact byte account, a status that
  agrees with the memberships and the admission state, no body after termination), and no
  command panics in it.
\<close>

theorem reachable_mailbox_safe:
  assumes "mailbox_reach sha256 log mb"
  shows "mailbox_wf sha256 mb \<and> transition sha256 mb now cmd \<noteq> Panic"
  using mailbox_reach_wf[OF assms] transition_not_panic by blast

lemma demo_reach: "mailbox_reach sha256 [] demo_mailbox"
  using demo_allocate by (rule mailbox_reach.allocated)

theorem reachable_mailbox_safe_witness:
  "mailbox_wf demo_sha demo_mailbox \<and>
   transition demo_sha demo_mailbox 1001 (CmdClose Allocator) \<noteq> Panic"
  by (rule reachable_mailbox_safe[OF demo_reach])

text \<open>
  C35: The resources of a mailbox are bounded over its whole life. In every reachable mailbox,
  each membership has stored at most sixteen frames since the allocation, acknowledged or not,
  each of at most 69,632 octets. The byte account is exactly the size of the bodies that were
  stored and not yet acknowledged while the mailbox is live and zero afterwards, and it never
  exceeds 2,228,224 octets.
\<close>

theorem reachable_mailbox_bounded:
  assumes "mailbox_reach sha256 log mb"
  shows "length (stored_by m log) \<le> 16 \<and> (\<forall>(q, b) \<in> set (stored_by m log). length b \<le> 69632) \<and>
    mb_queue_bytes mb = (if is_live mb then sum_list (map (length \<circ> snd) (unacked Allocator log)) +
      sum_list (map (length \<circ> snd) (unacked Claimant log)) else 0) \<and>
    mb_queue_bytes mb \<le> 2228224 \<and>
    (\<forall>ms. mb_member mb m = Some ms \<longrightarrow> length (ms_frames ms) \<le> 16 \<and> (\<forall>f \<in> set (ms_frames ms). fr_body_len f \<le> 69632))"
proof -
  note wf = mailbox_reach_wf[OF assms]
  have "mb_queue_bytes mb = sum_list (map (length \<circ> snd) (unacked Allocator log)) +
      sum_list (map (length \<circ> snd) (unacked Claimant log))" if "is_live mb"
    using queue_bytes_outbox[OF wf] outbox_unacked[OF assms that] by simp
  moreover have "length (ms_frames ms) \<le> 16 \<and> (\<forall>f \<in> set (ms_frames ms). fr_body_len f \<le> 69632)"
    if "mb_member mb m = Some ms" for ms
    using mailbox_wf_member[OF wf that] by (auto simp: member_wf_def frame_wf_def list_all_iff mailbox_constants)
  ultimately show ?thesis
    using stored_history[OF assms, of m] terminal_outbox[OF wf] mailbox_wf_queue_bound[OF wf]
    by (auto simp: mailbox_constants)
qed

definition demo_stored :: mailbox where
  "demo_stored = demo_mailbox\<lparr>
     mb_allocator := \<lparr>ms_hash = replicate 32 1, ms_next_seq = 1,
       ms_frames = [\<lparr>fr_seq = 0, fr_digest = demo_sha [9], fr_body_len = 1, fr_body = Some [9]\<rparr>]\<rparr>,
     mb_queue_bytes := 1\<rparr>"

lemma demo_put:
  "transition demo_sha demo_mailbox 1001 (CmdPut Allocator 0 [9]) =
     Ok \<lparr>tr_state = Some demo_stored, tr_effects = [EffStored Allocator 0 False]\<rparr>"
  by (simp add: transition_def demo_mailbox_def transition_put_def Let_def mailbox_constants
      machine_int u64_max_def u8_max_def demo_stored_def)

lemma demo_stored_reach:
  "mailbox_reach demo_sha [(CmdPut Allocator 0 [9], [EffStored Allocator 0 False])] demo_stored"
  using mailbox_reach.stepped[OF demo_reach demo_put, of demo_stored] by simp

theorem reachable_mailbox_bounded_witness:
  "stored_by Allocator [(CmdPut Allocator 0 [9], [EffStored Allocator 0 False])] = [(0, [9])] \<and>
   length (stored_by Allocator [(CmdPut Allocator 0 [9], [EffStored Allocator 0 False])]) \<le> 16 \<and>
   mb_queue_bytes demo_stored = sum_list (map (length \<circ> snd) (unacked Allocator [(CmdPut Allocator 0 [9], [EffStored Allocator 0 False])]))"
proof -
  let ?log = "[(CmdPut Allocator 0 [9], [EffStored Allocator 0 False])]"
  have "is_live demo_stored" by (simp add: is_live_def demo_stored_def demo_mailbox_def)
  moreover have "unacked Claimant ?log = []" by (simp add: unacked_def stored_by_def)
  ultimately show ?thesis
    using reachable_mailbox_bounded[OF demo_stored_reach, of Allocator] by (simp add: stored_by_def)
qed

section \<open>Ordered, loss-free delivery\<close>

text \<open>
  C15: when a membership of a live mailbox resumes, it is offered exactly the frames its
  peer stored over the whole history of the mailbox and it has not acknowledged, in the
  order they were stored, each with its exact body; resuming changes nothing.
\<close>

theorem open_delivers_unacked:
  assumes reach: "mailbox_reach sha256 log mb" and live: "is_live mb"
    and now: "now < mb_expires_at mb" and h: "membership_for_hash mb h = Some m"
  shows "transition sha256 mb now (CmdOpen h) =
    Ok \<lparr>tr_state = Some mb,
        tr_effects = EffOpened m (mb_expires_at mb) #
          map (\<lambda>(q, b). EffDeliver m q b) (unacked (peer m) log)\<rparr>"
proof -
  have "outbox mb (peer m) = unacked (peer m) log"
    using outbox_unacked[OF reach live, of "peer m"] by simp
  then show ?thesis
    using h by (auto simp: transition_eq_live[OF live now] transition_open_def outbox_def
        split: option.splits)
qed

definition demo_paired :: mailbox where
  "demo_paired = demo_stored\<lparr>
     mb_claimant := Some \<lparr>ms_hash = replicate 32 2, ms_next_seq = 0, ms_frames = []\<rparr>,
     mb_status := Paired\<rparr>"

lemma demo_claim:
  "transition demo_sha demo_stored 1002 (CmdClaim (replicate 32 2)) =
     Ok \<lparr>tr_state = Some demo_paired, tr_effects = [EffClaimed Claimant 1600]\<rparr>"
  by (simp add: transition_def demo_stored_def demo_mailbox_def transition_claim_def
      demo_paired_def new_member_def numeral_eq_Suc)

lemma demo_paired_reach:
  "mailbox_reach demo_sha
     [(CmdPut Allocator 0 [9], [EffStored Allocator 0 False]),
      (CmdClaim (replicate 32 2), [EffClaimed Claimant 1600])] demo_paired"
  using mailbox_reach.stepped[OF demo_stored_reach demo_claim, of demo_paired] by simp

theorem open_delivers_unacked_witness:
  "transition demo_sha demo_paired 1003 (CmdOpen (replicate 32 2)) =
     Ok \<lparr>tr_state = Some demo_paired,
         tr_effects = [EffOpened Claimant 1600, EffDeliver Claimant 0 [9]]\<rparr>"
  by (subst open_delivers_unacked[OF demo_paired_reach, where m = Claimant])
    (simp_all add: demo_paired_def demo_stored_def demo_mailbox_def is_live_def
      membership_for_hash_def unacked_def stored_by_def acked_by_def numeral_eq_Suc)

section \<open>Admission\<close>

definition claims :: "mailbox_effect list \<Rightarrow> nat" where
  "claims es = length (filter (\<lambda>e. case e of EffClaimed _ _ \<Rightarrow> True | _ \<Rightarrow> False) es)"

lemma claims_simps [simp]:
  "claims [] = 0" "claims (es @ es') = claims es + claims es'"
  "claims (e # es) = (case e of EffClaimed _ _ \<Rightarrow> 1 | _ \<Rightarrow> 0) + claims es"
  by (auto simp: claims_def split: mailbox_effect.splits)

lemma claims_map_deliver [simp]: "claims (map (\<lambda>(q, b). EffDeliver m q b) xs) = 0"
  by (induction xs) auto

lemma claims_deletions [simp]: "claims (mailbox_deletions mb) = 0"
proof -
  have "claims (body_deletions o1 fs) = 0" for o1 fs
    by (induction fs) (auto simp: body_deletions_def)
  then show ?thesis by (auto simp: mailbox_deletions_def split: option.splits)
qed

lemma claims_step:
  assumes wf: "mailbox_wf sha256 mb" and ok: "transition sha256 mb now cmd = Ok t"
    and st: "tr_state t = Some mb'"
  shows "claims (tr_effects t) + (if mb_claimant mb = None then 0 else 1) =
    (if mb_claimant mb' = None then 0 else (1::nat))"
proof -
  have now: "now < mb_expires_at mb"
    using ok st by (auto simp: transition_def reap_def bind_result_Ok split: if_splits)
  with ok have step: "transition_live sha256 mb cmd = Ok t"
    by (auto simp: transition_def split: mailbox_status.splits)
  show ?thesis
  proof (cases cmd)
    case (CmdClaim h)
    with step st show ?thesis
      by (auto simp: transition_claim_def mailbox_terminate[OF wf] split: if_splits option.splits)
  next
    case (CmdClaimV2 h token)
    with step st show ?thesis
      by (auto simp: transition_claim_v2_def split: if_splits admission_snapshot.splits)
  next
    case (CmdOpen h)
    with step st show ?thesis
      by (auto simp: transition_open_def bind_result_Ok split: option.splits)
  next
    case (CmdPut s q b)
    with step have "transition_put sha256 mb s q b = Ok t" by simp
    with wf show ?thesis
      by (cases rule: transition_put_cases) (use st in \<open>cases s; auto\<close>)+
  next
    case (CmdAck s q)
    with step have "transition_ack mb s q = Ok t" by simp
    with wf show ?thesis
      by (cases rule: transition_ack_cases) (use st in \<open>cases s; auto\<close>)
  next
    case (CmdClose s)
    with step st show ?thesis
      by (auto simp: transition_close_def mailbox_terminate[OF wf] split: if_splits)
  qed
qed

lemma claims_history:
  "mailbox_reach sha256 log mb \<Longrightarrow>
   claims (concat (map snd log)) = (if mb_claimant mb = None then 0 else 1)"
proof (induction rule: mailbox_reach.induct)
  case (allocated input mb)
  then show ?case by (auto elim: allocate_OkE)
next
  case (allocated_v2 input2 mb)
  then show ?case by (auto elim: allocate_v2_OkE)
next
  case (stepped log mb now cmd t mb')
  with claims_step[OF mailbox_reach_wf[OF stepped(1)] stepped(2,3)] show ?case by simp
qed

text \<open>
  C33: over the whole history of a mailbox at most one claim is ever granted, and when one
  was, the mailbox has its claimant.
\<close>

theorem at_most_one_claim:
  assumes "mailbox_reach sha256 log mb"
  shows "claims (concat (map snd log)) \<le> 1 \<and>
    (claims (concat (map snd log)) = 1 \<longleftrightarrow> mb_claimant mb \<noteq> None)"
  using claims_history[OF assms] by auto

theorem at_most_one_claim_witness:
  "claims (concat (map snd [(CmdPut Allocator 0 [9], [EffStored Allocator 0 False]),
      (CmdClaim (replicate 32 2), [EffClaimed Claimant 1600])])) \<le> 1 \<and>
   (claims (concat (map snd [(CmdPut Allocator 0 [9], [EffStored Allocator 0 False]),
      (CmdClaim (replicate 32 2), [EffClaimed Claimant 1600])])) = 1 \<longleftrightarrow>
    mb_claimant demo_paired \<noteq> None)"
  by (rule at_most_one_claim[OF demo_paired_reach])

text \<open>
  C34: a protected mailbox admits a claimant exactly when the presented token opens its
  retained commitment and the new membership does not collide; the commitment is then
  erased, and from the resulting mailbox no claim of either kind succeeds again.
\<close>

theorem v2_admission:
  assumes wf: "mailbox_wf sha256 mb" and live: "is_live mb" and now: "now < mb_expires_at mb"
  shows "((\<exists>t. transition sha256 mb now (CmdClaimV2 h token) = Ok t) \<longleftrightarrow>
      mb_admission mb = V2Pending (claim_commitment sha256 (mb_mailbox_id mb) token) \<and>
      h \<noteq> ms_hash (mb_allocator mb)) \<and>
    (\<forall>t. transition sha256 mb now (CmdClaimV2 h token) = Ok t \<longrightarrow>
      (\<exists>mb'. tr_state t = Some mb' \<and> mb_admission mb' = V2Claimed \<and>
        (\<forall>now' h' token'. now' < mb_expires_at mb \<longrightarrow>
          transition sha256 mb' now' (CmdClaimV2 h' token') = Err NotMember \<and>
          transition sha256 mb' now' (CmdClaim h') = Err NotMember)))"
proof -
  have none: "mb_claimant mb = None" if "mb_admission mb = V2Pending c" for c
    using wf that by (auto simp: mailbox_wf_def admission_matches_def membership_hashes_def
        split: mailbox_status.splits option.splits)
  show ?thesis
  proof (intro conjI allI impI)
    show "(\<exists>t. transition sha256 mb now (CmdClaimV2 h token) = Ok t) \<longleftrightarrow>
      mb_admission mb = V2Pending (claim_commitment sha256 (mb_mailbox_id mb) token) \<and>
      h \<noteq> ms_hash (mb_allocator mb)"
      using none
      by (auto simp: transition_eq_live[OF live now] transition_claim_v2_def
          split: admission_snapshot.splits)
  next
    fix t assume "transition sha256 mb now (CmdClaimV2 h token) = Ok t"
    then have "tr_state t = Some (mb\<lparr>mb_claimant := Some (new_member h), mb_status := Paired,
        mb_admission := V2Claimed\<rparr>)"
      by (auto simp: transition_eq_live[OF live now] transition_claim_v2_def
          split: admission_snapshot.splits if_splits)
    then show "\<exists>mb'. tr_state t = Some mb' \<and> mb_admission mb' = V2Claimed \<and>
        (\<forall>now' h' token'. now' < mb_expires_at mb \<longrightarrow>
          transition sha256 mb' now' (CmdClaimV2 h' token') = Err NotMember \<and>
          transition sha256 mb' now' (CmdClaim h') = Err NotMember)"
      by (auto simp: transition_def transition_claim_v2_def transition_claim_def)
  qed
qed

definition demo_v2_input :: v2_allocation_input where
  "demo_v2_input = \<lparr>vi_mailbox_id = replicate 32 7, vi_allocator_hash = replicate 32 1,
     vi_claim_commitment = claim_commitment demo_sha (replicate 32 7) (replicate 16 5),
     vi_now = 1000, vi_ttl_seconds = Some 900\<rparr>"

definition demo_v2 :: mailbox where
  "demo_v2 = \<lparr>mb_mailbox_id = replicate 32 7, mb_nameplate = None, mb_expires_at = 1900,
     mb_status = Waiting,
     mb_admission = V2Pending (claim_commitment demo_sha (replicate 32 7) (replicate 16 5)),
     mb_allocator = new_member (replicate 32 1), mb_claimant = None, mb_queue_bytes = 0\<rparr>"

lemma demo_v2_allocate: "allocate_v2 demo_v2_input = Ok demo_v2"
  by (simp add: allocate_v2_def demo_v2_input_def demo_v2_def mailbox_constants machine_int
      u64_max_def)

theorem v2_admission_witness:
  "\<exists>t. transition demo_sha demo_v2 1500 (CmdClaimV2 (replicate 32 2) (replicate 16 5)) = Ok t"
proof -
  have wf: "mailbox_wf demo_sha demo_v2" using demo_v2_allocate by (rule allocate_v2_wf)
  have live: "is_live demo_v2" "1500 < mb_expires_at demo_v2"
    by (simp_all add: demo_v2_def is_live_def)
  have "mb_admission demo_v2 =
      V2Pending (claim_commitment demo_sha (mb_mailbox_id demo_v2) (replicate 16 5))"
    "replicate 32 2 \<noteq> ms_hash (mb_allocator demo_v2)"
    by (simp_all add: demo_v2_def numeral_eq_Suc)
  then show ?thesis
    using v2_admission[OF wf live, of "replicate 32 2" "replicate 16 5"] by blast
qed

section \<open>Termination and expiry\<close>

lemma transition_frame:
  assumes wf: "mailbox_wf sha256 mb" and ok: "transition sha256 mb now cmd = Ok t"
    and st: "tr_state t = Some mb'"
  shows "mb_expires_at mb' = mb_expires_at mb \<and> mb_mailbox_id mb' = mb_mailbox_id mb \<and>
    mb_nameplate mb' = mb_nameplate mb \<and> set (membership_hashes mb) \<subseteq> set (membership_hashes mb')"
proof -
  have now: "now < mb_expires_at mb"
    using ok st by (auto simp: transition_def reap_def bind_result_Ok split: if_splits)
  with ok have step: "transition_live sha256 mb cmd = Ok t"
    by (auto simp: transition_def split: mailbox_status.splits)
  show ?thesis
  proof (cases cmd)
    case (CmdClaim h)
    with step st show ?thesis
      by (auto simp: transition_claim_def mailbox_terminate[OF wf] membership_hashes_def
          split: if_splits option.splits)
  next
    case (CmdClaimV2 h token)
    with step st show ?thesis
      by (auto simp: transition_claim_v2_def membership_hashes_def
          split: if_splits admission_snapshot.splits)
  next
    case (CmdOpen h)
    with step st show ?thesis by (auto simp: transition_open_def bind_result_Ok)
  next
    case (CmdPut s q b)
    with step have "transition_put sha256 mb s q b = Ok t" by simp
    with wf show ?thesis
    proof (cases rule: transition_put_cases)
      case (stored m m')
      with st show ?thesis
        using membership_hashes_set_member[OF stored(1), of m'] by auto
    qed (use st in auto)
  next
    case (CmdAck s q)
    with step have "transition_ack mb s q = Ok t" by simp
    with wf show ?thesis
    proof (cases rule: transition_ack_cases)
      case (1 p f fs n)
      with st show ?thesis
        using membership_hashes_set_member[OF 1(2), of "p\<lparr>ms_frames := fs\<rparr>"] by auto
    qed
  next
    case (CmdClose s)
    with step st show ?thesis
      by (auto simp: transition_close_def mailbox_terminate[OF wf] split: if_splits)
  qed
qed

lemma mailbox_deletions_exact:
  assumes wf: "mailbox_wf sha256 mb"
  shows "EffBodyDeleted m q \<in> set (mailbox_deletions mb) \<longleftrightarrow> (\<exists>b. (q, b) \<in> set (outbox mb m))"
proof -
  have one: "EffBodyDeleted o2 q \<in> set (body_deletions o1 (ms_frames ms)) \<longleftrightarrow>
      o2 = o1 \<and> (\<exists>b. (q, b) \<in> set (queued_frames ms))" for o1 o2 ms
    by (force simp: body_deletions_def queued_frames_def List.map_filter_def)
  show ?thesis
    by (cases m) (auto simp: mailbox_deletions_def outbox_def one split: option.splits)
qed

text \<open>
  termination is final and expiry is absolute. Before its expiry a terminal mailbox
  answers every command with its close reason; from its expiry on, every command removes
  the mailbox and all its metadata, deleting exactly the bodies that were still queued and
  announcing the expiry unless it was terminal already; no accepted command moves the
  expiry.
\<close>

lemma terminal_and_expiry_final:
  assumes wf: "mailbox_wf sha256 mb"
  shows "(mb_status mb = Terminal r \<longrightarrow> now < mb_expires_at mb \<longrightarrow>
      transition sha256 mb now cmd = Err (ErrClosed r)) \<and>
    (now \<ge> mb_expires_at mb \<longrightarrow>
      transition sha256 mb now cmd =
        Ok \<lparr>tr_state = None,
            tr_effects = mailbox_deletions mb @ (if is_live mb then [EffTerminal Expired] else [])\<rparr>) \<and>
    (EffBodyDeleted m q \<in> set (mailbox_deletions mb) \<longleftrightarrow> (\<exists>b. (q, b) \<in> set (outbox mb m))) \<and>
    (\<forall>t mb'. transition sha256 mb now cmd = Ok t \<longrightarrow> tr_state t = Some mb' \<longrightarrow>
      mb_expires_at mb' = mb_expires_at mb)"
proof (intro conjI allI impI)
  show "transition sha256 mb now cmd = Err (ErrClosed r)"
    if "mb_status mb = Terminal r" "now < mb_expires_at mb"
    using that by (simp add: transition_def)
  show "transition sha256 mb now cmd =
        Ok \<lparr>tr_state = None,
            tr_effects = mailbox_deletions mb @ (if is_live mb then [EffTerminal Expired] else [])\<rparr>"
    if "now \<ge> mb_expires_at mb"
    using that by (simp add: transition_def reap_def delete_bodies_Ok mailbox_wf_queue[OF wf]
        clear_mailbox_def is_live_def split: mailbox_status.splits)
  show "EffBodyDeleted m q \<in> set (mailbox_deletions mb) \<longleftrightarrow> (\<exists>b. (q, b) \<in> set (outbox mb m))"
    using wf by (rule mailbox_deletions_exact)
  show "mb_expires_at mb' = mb_expires_at mb"
    if "transition sha256 mb now cmd = Ok t" "tr_state t = Some mb'" for t mb'
    using transition_frame[OF wf that] by simp
qed

theorem terminal_and_expiry_final_witness:
  "transition demo_sha demo_stored 1600 (CmdClose Allocator) =
     Ok \<lparr>tr_state = None, tr_effects = [EffBodyDeleted Allocator 0, EffTerminal Expired]\<rparr>"
proof -
  have wf: "mailbox_wf demo_sha demo_stored" using demo_stored_reach by (rule mailbox_reach_wf)
  have "mb_expires_at demo_stored \<le> 1600" "is_live demo_stored"
    "mailbox_deletions demo_stored = [EffBodyDeleted Allocator 0]"
    by (simp_all add: demo_stored_def demo_mailbox_def is_live_def mailbox_deletions_def
        body_deletions_def)
  then show ?thesis
    using terminal_and_expiry_final[OF wf, where now = 1600 and cmd = "CmdClose Allocator"]
    by auto
qed

section \<open>Persistence\<close>

text \<open>
  a snapshot of a reachable mailbox restores exactly that mailbox: frames, sequence
  counters, hashes, admission state and the recomputed byte account.
\<close>

lemma snapshot_roundtrip:
  assumes "mailbox_reach sha256 log mb"
  shows "from_snapshot sha256 (snapshot mb) = Ok mb"
  using mailbox_reach_wf[OF assms] by (rule snapshot_restores)

theorem snapshot_roundtrip_witness:
  "from_snapshot demo_sha (snapshot demo_paired) = Ok demo_paired"
  by (rule snapshot_roundtrip[OF demo_paired_reach])

end
