(* ===== verification/Ip_Addr.thy ===== *)
theory Ip_Addr
  imports Pairing_Prelude
begin

text \<open>
  The part of Rust's \<^verbatim>\<open>std::net\<close> that \<^verbatim>\<open>Limiter::peer_key\<close> uses: parsing a textual IPv4
  or IPv6 address, its octets, and the IPv4-mapped form. Only ASCII texts parse, so the
  preceding \<^verbatim>\<open>from_utf8\<close> never changes the outcome and the parser works on the octets.
\<close>

datatype ip_addr = V4 bytes | V6 bytes

definition digit_value :: "nat \<Rightarrow> byte \<Rightarrow> nat option" where
  "digit_value radix b =
     (let c = unat b;
          v = (if 48 \<le> c \<and> c \<le> 57 then Some (c - 48)
               else if 97 \<le> c \<and> c \<le> 122 then Some (c - 87)
               else if 65 \<le> c \<and> c \<le> 90 then Some (c - 55) else None)
      in case v of None \<Rightarrow> None | Some d \<Rightarrow> if d < radix then Some d else None)"

fun read_digits :: "nat \<Rightarrow> bytes \<Rightarrow> nat list \<times> bytes" where
  "read_digits radix [] = ([], [])"
| "read_digits radix (b # bs) =
     (case digit_value radix b of
        None \<Rightarrow> ([], b # bs)
      | Some d \<Rightarrow> (let (ds, rest) = read_digits radix bs in (d # ds, rest)))"

text \<open>
  All digits are consumed; too many, none, a forbidden leading zero or a value outside
  the type make the number unreadable.
\<close>

definition read_number ::
  "nat \<Rightarrow> nat \<Rightarrow> nat \<Rightarrow> bool \<Rightarrow> bytes \<Rightarrow> (nat \<times> bytes) option" where
  "read_number radix max_digits bound allow_zero_prefix s =
     (let (ds, rest) = read_digits radix s;
          v = foldl (\<lambda>a d. a * radix + d) 0 ds
      in if length ds > max_digits then None
         else if ds = [] then None
         else if \<not> allow_zero_prefix \<and> hd ds = 0 \<and> length ds > 1 then None
         else if v > bound then None
         else Some (v, rest))"

definition read_given_char :: "byte \<Rightarrow> bytes \<Rightarrow> bytes option" where
  "read_given_char c s = (case s of [] \<Rightarrow> None | b # bs \<Rightarrow> if b = c then Some bs else None)"

definition read_separator ::
  "byte \<Rightarrow> nat \<Rightarrow> (bytes \<Rightarrow> ('a \<times> bytes) option) \<Rightarrow> bytes \<Rightarrow> ('a \<times> bytes) option" where
  "read_separator sep index inner s =
     (if index > 0 then Option.bind (read_given_char sep s) inner else inner s)"

fun read_octets :: "nat \<Rightarrow> nat \<Rightarrow> bytes \<Rightarrow> (nat list \<times> bytes) option" where
  "read_octets 0 index s = Some ([], s)"
| "read_octets (Suc n) index s =
     (case read_separator 46 index (read_number 10 3 255 False) s of
        None \<Rightarrow> None
      | Some (v, rest) \<Rightarrow> map_option (\<lambda>(vs, r). (v # vs, r)) (read_octets n (Suc index) rest))"

definition read_ipv4 :: "bytes \<Rightarrow> (nat list \<times> bytes) option" where
  "read_ipv4 s = read_octets 4 0 s"

text \<open>
  A run of 16-bit groups, at most \<open>limit\<close>; an embedded IPv4 address takes the place of
  two groups and ends the run. The result is the groups read and whether it ended so.
\<close>

fun read_groups :: "nat \<Rightarrow> nat \<Rightarrow> bytes \<Rightarrow> nat list \<times> bool \<times> bytes" where
  "read_groups 0 index s = ([], False, s)"
| "read_groups (Suc n) index s =
     (case (if n > 0 then read_separator 58 index read_ipv4 s else None) of
        Some (octets, rest) \<Rightarrow>
          (case octets of
             [a, b, c, d] \<Rightarrow> ([a * 256 + b, c * 256 + d], True, rest)
           | _ \<Rightarrow> ([], False, s))
      | None \<Rightarrow>
          (case read_separator 58 index (read_number 16 4 65535 True) s of
             None \<Rightarrow> ([], False, s)
           | Some (g, rest) \<Rightarrow>
               (let (gs, v4, r) = read_groups n (Suc index) rest in (g # gs, v4, r))))"

definition read_ipv6 :: "bytes \<Rightarrow> (nat list \<times> bytes) option" where
  "read_ipv6 s =
     (let (head, head_v4, rest) = read_groups 8 0 s
      in if length head = 8 then Some (head, rest)
         else if head_v4 then None
         else Option.bind (Option.bind (read_given_char 58 rest) (read_given_char 58))
           (\<lambda>rest2.
             let (tail, _, rest3) = read_groups (8 - (length head + 1)) 0 rest2
             in Some (head @ replicate (8 - length head - length tail) 0 @ tail, rest3)))"

definition group_octets :: "nat list \<Rightarrow> bytes" where
  "group_octets gs = concat (map (\<lambda>g. [of_nat (g div 256), of_nat (g mod 256)]) gs)"

definition parse_ip :: "bytes \<Rightarrow> ip_addr option" where
  "parse_ip s =
     (case read_ipv4 s of
        Some (octets, rest) \<Rightarrow> if rest = [] then Some (V4 (map of_nat octets)) else None
      | None \<Rightarrow>
          (case read_ipv6 s of
             Some (groups, rest) \<Rightarrow> if rest = [] then Some (V6 (group_octets groups)) else None
           | None \<Rightarrow> None))"

definition to_ipv4_mapped :: "bytes \<Rightarrow> bytes option" where
  "to_ipv4_mapped octets =
     (if length octets = 16 \<and> take 12 octets = replicate 10 0 @ [255, 255]
      then Some (drop 12 octets) else None)"

section \<open>Widths of parsed addresses\<close>

lemma length_read_octets: "read_octets n i s = Some (vs, r) \<Longrightarrow> length vs = n"
  by (induction n arbitrary: i s vs r) (auto split: option.splits)

lemma length_read_groups: "read_groups n i s = (gs, v4, r) \<Longrightarrow> length gs \<le> n"
proof (induction n arbitrary: i s gs v4 r)
  case 0
  then show ?case by simp
next
  case (Suc n)
  show ?case
  proof (cases "if n > 0 then read_separator 58 i read_ipv4 s else None")
    case None
    with Suc show ?thesis by (auto split: option.splits prod.splits)
  next
    case (Some p)
    then have "0 < n" by (auto split: if_splits)
    with Some Suc.prems show ?thesis by (auto split: prod.splits list.splits)
  qed
qed

lemma length_read_ipv6: "read_ipv6 s = Some (gs, r) \<Longrightarrow> length gs = 8"
proof -
  assume res: "read_ipv6 s = Some (gs, r)"
  obtain head h4 rest where h: "read_groups 8 0 s = (head, h4, rest)" by (metis prod_cases3)
  have hl: "length head \<le> 8" using length_read_groups[OF h] .
  show ?thesis
  proof (cases "length head = 8")
    case True
    with res show ?thesis by (simp add: read_ipv6_def h)
  next
    case False
    with res h obtain rest2 where
      "(let (tail, _, rest3) = read_groups (8 - (length head + 1)) 0 rest2
        in Some (head @ replicate (8 - length head - length tail) 0 @ tail, rest3)) = Some (gs, r)"
      by (auto simp: read_ipv6_def bind_eq_Some_conv split: if_splits)
    moreover obtain tail t4 rest3 where
      t: "read_groups (8 - (length head + 1)) 0 rest2 = (tail, t4, rest3)" by (metis prod_cases3)
    ultimately show ?thesis using length_read_groups[OF t] hl False by auto
  qed
qed

lemma length_group_octets: "length (group_octets gs) = 2 * length gs"
  by (induction gs) (auto simp: group_octets_def)

lemma parse_ip_length:
  "parse_ip s = Some (V4 q) \<Longrightarrow> length q = 4"
  "parse_ip s = Some (V6 q) \<Longrightarrow> length q = 16"
proof -
  have v4: "length a = 4" if "read_octets 4 0 s = Some (a, [])" for a
    using length_read_octets[OF that] .
  have v6: "length a = 8" if "read_ipv6 s = Some (a, [])" for a
    using length_read_ipv6[OF that] .
  show "parse_ip s = Some (V4 q) \<Longrightarrow> length q = 4" "parse_ip s = Some (V6 q) \<Longrightarrow> length q = 16"
    using v4 v6 by (auto simp: parse_ip_def read_ipv4_def length_group_octets
        split: option.splits if_splits)
qed

section \<open>Known addresses\<close>

lemma read_octets_numeral:
  "read_octets (numeral n) index s =
     (case read_separator 46 index (read_number 10 3 255 False) s of
        None \<Rightarrow> None
      | Some (v, rest) \<Rightarrow>
          map_option (\<lambda>(vs, r). (v # vs, r)) (read_octets (pred_numeral n) (Suc index) rest))"
  by (simp add: numeral_eq_Suc)

lemma read_groups_numeral:
  "read_groups (numeral n) index s =
     (case (if 0 < pred_numeral n then read_separator 58 index read_ipv4 s else None) of
        Some (octets, rest) \<Rightarrow>
          (case octets of
             [a, b, c, d] \<Rightarrow> ([a * 256 + b, c * 256 + d], True, rest)
           | _ \<Rightarrow> ([], False, s))
      | None \<Rightarrow>
          (case read_separator 58 index (read_number 16 4 65535 True) s of
             None \<Rightarrow> ([], False, s)
           | Some (g, rest) \<Rightarrow>
               (let (gs, v4, r) = read_groups (pred_numeral n) (Suc index) rest
                in (g # gs, v4, r))))"
  by (simp only: numeral_eq_Suc read_groups.simps)

lemmas ip_eval =
  ascii_def parse_ip_def read_ipv4_def read_ipv6_def read_octets_numeral read_groups_numeral
  read_separator_def read_given_char_def read_number_def digit_value_def group_octets_def
  replicate_num

lemma parse_ip_v4: "parse_ip (ascii ''192.0.2.7'') = Some (V4 [192, 0, 2, 7])"
  by (simp add: ip_eval)

lemma parse_ip_leading_zero: "parse_ip (ascii ''192.0.02.7'') = None"
  by (simp add: ip_eval)

lemma parse_ip_v6:
  "parse_ip (ascii ''2001:db8::1'') =
     Some (V6 [0x20, 0x01, 0x0d, 0xb8, 0, 0, 0, 0, 0, 0, 0, 0, 0, 0, 0, 1])"
  by (simp add: ip_eval)

lemma parse_ip_mapped:
  "parse_ip (ascii ''::ffff:192.0.2.7'') =
     Some (V6 [0, 0, 0, 0, 0, 0, 0, 0, 0, 0, 255, 255, 192, 0, 2, 7])"
  by (simp add: ip_eval)

end
