(* ===== verification/Limiter.thy ===== *)
theory Limiter
  imports Ip_Addr
begin

text \<open>
  The operator-keyed sliding-window limiter of \<^verbatim>\<open>src/src/limiter.rs\<close>: per dimension
  (operation, pseudonymous peer key) it keeps the accepted attempts of the current window
  and a cooldown, in a bounded table with least-recently-used eviction. HMAC-SHA-256 is a
  parameter. Errors leave behind exactly the state the source leaves behind.
\<close>

section \<open>Operations and policies\<close>

definition COOLDOWN_SECONDS :: u64 where "COOLDOWN_SECONDS = 300"

datatype operation =
  OpBind | OpAllocate | OpClaim | OpOpen | OpPut | OpAck | OpClose | OpPing

definition ALL_OPERATIONS :: "operation list" where
  "ALL_OPERATIONS = [OpBind, OpAllocate, OpClaim, OpOpen, OpPut, OpAck, OpClose, OpPing]"

fun op_index :: "operation \<Rightarrow> usize" where
  "op_index OpBind = 0"
| "op_index OpAllocate = 1"
| "op_index OpClaim = 2"
| "op_index OpOpen = 3"
| "op_index OpPut = 4"
| "op_index OpAck = 5"
| "op_index OpClose = 6"
| "op_index OpPing = 7"

lemma op_index_inject: "op_index a = op_index b \<longleftrightarrow> a = b"
  by (cases a; cases b; simp)

lemma op_index_less: "op_index a < 8"
  by (cases a) auto

text \<open>The derived order of the enum is its declaration order.\<close>

instantiation operation :: linorder
begin

definition less_eq_operation :: "operation \<Rightarrow> operation \<Rightarrow> bool" where
  "less_eq_operation a b \<longleftrightarrow> op_index a \<le> op_index b"

definition less_operation :: "operation \<Rightarrow> operation \<Rightarrow> bool" where
  "less_operation a b \<longleftrightarrow> op_index a < op_index b"

instance
  by standard (auto simp: less_eq_operation_def less_operation_def op_index_inject)

end

type_synonym peer_key = bytes
type_synonym dimension = "operation \<times> peer_key"

record operation_policy =
  op_limit :: u32
  op_window_seconds :: u64

record limiter_config =
  lc_policies :: "operation_policy list"
  lc_entry_cap :: usize
  lc_sweep_interval_seconds :: u64

definition limiter_config_new :: "operation_policy \<Rightarrow> usize \<Rightarrow> u64 \<Rightarrow> limiter_config" where
  "limiter_config_new default_policy cap sweep =
     \<lparr>lc_policies = replicate 8 default_policy, lc_entry_cap = cap,
      lc_sweep_interval_seconds = sweep\<rparr>"

definition with_policy :: "limiter_config \<Rightarrow> operation \<Rightarrow> operation_policy \<Rightarrow> limiter_config" where
  "with_policy c operation policy = c\<lparr>lc_policies := (lc_policies c)[op_index operation := policy]\<rparr>"

datatype limit_decision = Allowed u32 | Cooldown u64

datatype limiter_error = InvalidLimiterConfiguration | TimeOverflow | EmptyPeerAddress

record limiter_snapshot =
  lsn_entry_count :: usize
  lsn_dimensions :: "dimension list"
  lsn_clock_reversals :: u64
  lsn_capacity_evictions :: u64

record entry =
  en_attempts :: "u64 list"
  en_cooldown_until :: "u64 option"
  en_recency :: u64

record limiter =
  li_operator_key :: bytes
  li_config :: limiter_config
  li_entries :: "(dimension, entry) btree"
  li_recency :: "(u64 \<times> dimension) list"
  li_next_recency :: u64
  li_last_now :: "u64 option"
  li_last_sweep :: "u64 option"
  li_clock_reversals :: u64
  li_capacity_evictions :: u64

definition policy_of :: "limiter_config \<Rightarrow> operation \<Rightarrow> operation_policy" where
  "policy_of c operation = lc_policies c ! op_index operation"

definition limiter_new :: "bytes \<Rightarrow> limiter_config \<Rightarrow> (limiter, limiter_error) result" where
  "limiter_new operator_key config =
     (if lc_entry_cap config = 0 \<or> lc_sweep_interval_seconds config = 0 \<or>
         list_ex (\<lambda>p. op_limit p = 0 \<or> op_window_seconds p = 0) (lc_policies config)
      then Err InvalidLimiterConfiguration
      else Ok \<lparr>li_operator_key = operator_key, li_config = config, li_entries = [],
               li_recency = [], li_next_recency = 0, li_last_now = None, li_last_sweep = None,
               li_clock_reversals = 0, li_capacity_evictions = 0\<rparr>)"

section \<open>Time, keys and recency\<close>

definition observe_time :: "limiter \<Rightarrow> u64 \<Rightarrow> u64 \<times> limiter" where
  "observe_time l now =
     (let effective = (case li_last_now l of None \<Rightarrow> now | Some prev \<Rightarrow> max prev now)
      in (effective,
          l\<lparr>li_clock_reversals :=
              (if effective \<noteq> now then saturating_add_u64 (li_clock_reversals l) 1
               else li_clock_reversals l),
            li_last_now := Some effective\<rparr>))"

definition peer_key_input :: "bytes \<Rightarrow> bytes" where
  "peer_key_input address =
     (case parse_ip address of
        Some (V4 octets) \<Rightarrow> [4] @ octets
      | Some (V6 octets) \<Rightarrow>
          (case to_ipv4_mapped octets of
             Some v4 \<Rightarrow> [4] @ v4
           | None \<Rightarrow> [6] @ take 8 octets)
      | None \<Rightarrow> [0] @ address)"

definition peer_key :: "(bytes \<Rightarrow> bytes \<Rightarrow> bytes) \<Rightarrow> limiter \<Rightarrow> bytes \<Rightarrow> peer_key" where
  "peer_key hmac l address =
     hmac (li_operator_key l) (ascii ''cbcl-pairing-peer/v1'' @ peer_key_input address)"

definition take_recency :: "limiter \<Rightarrow> (u64, limiter_error) result \<times> limiter" where
  "take_recency l =
     (case checked_add_u64 (li_next_recency l) 1 of
        None \<Rightarrow> (Err TimeOverflow, l)
      | Some n \<Rightarrow> (Ok (li_next_recency l), l\<lparr>li_next_recency := n\<rparr>))"

definition touch :: "limiter \<Rightarrow> dimension \<Rightarrow> (unit, limiter_error) result \<times> limiter" where
  "touch l dim =
     (case bt_get (li_entries l) dim of
        None \<Rightarrow> (Panic, l)
      | Some e \<Rightarrow>
          bind_st (take_recency (l\<lparr>li_recency := bs_remove (en_recency e, dim) (li_recency l)\<rparr>))
            (\<lambda>r l1.
              (Ok (), l1\<lparr>li_entries := bt_insert dim (e\<lparr>en_recency := r\<rparr>) (li_entries l1),
                          li_recency := bs_insert (r, dim) (li_recency l1)\<rparr>)))"

definition evict_lru :: "limiter \<Rightarrow> limiter" where
  "evict_lru l =
     (case bs_first (li_recency l) of
        None \<Rightarrow> l
      | Some victim \<Rightarrow>
          l\<lparr>li_recency := bs_remove victim (li_recency l),
            li_entries := bt_remove (snd victim) (li_entries l),
            li_capacity_evictions := saturating_add_u64 (li_capacity_evictions l) 1\<rparr>)"

section \<open>Windows and sweeping\<close>

definition prune_attempts :: "entry \<Rightarrow> u64 \<Rightarrow> u64 \<Rightarrow> entry" where
  "prune_attempts e window now =
     e\<lparr>en_attempts := dropWhile (\<lambda>t. saturating_sub_u64 now t \<ge> window) (en_attempts e)\<rparr>"

text \<open>What the sweep does with one entry: the entry as left in place, and whether it goes.\<close>

definition sweep_entry :: "limiter_config \<Rightarrow> u64 \<Rightarrow> dimension \<Rightarrow> entry \<Rightarrow> entry \<times> bool" where
  "sweep_entry c now dim e =
     (case en_cooldown_until e of
        Some retry_at \<Rightarrow> (e, now \<ge> retry_at)
      | None \<Rightarrow>
          (let e' = prune_attempts e (op_window_seconds (policy_of c (fst dim))) now
           in (e', en_attempts e' = [])))"

definition sweep_inner :: "limiter \<Rightarrow> u64 \<Rightarrow> usize \<times> limiter" where
  "sweep_inner l now =
     (let swept = map (\<lambda>(d, e). (d, sweep_entry (li_config l) now d e)) (li_entries l);
          removed = List.map_filter (\<lambda>(d, e, gone). if gone then Some (d, en_recency e) else None) swept;
          kept = fold (\<lambda>(d, r) m. bt_remove d m) removed (map (\<lambda>(d, e, gone). (d, e)) swept);
          rec = fold (\<lambda>(d, r) s. bs_remove (r, d) s) removed (li_recency l)
      in (length removed, l\<lparr>li_entries := kept, li_recency := rec\<rparr>))"

definition limiter_sweep :: "limiter \<Rightarrow> u64 \<Rightarrow> usize \<times> limiter" where
  "limiter_sweep l now =
     (let (now', l1) = observe_time l now;
          (removed, l2) = sweep_inner l1 now'
      in (removed, l2\<lparr>li_last_sweep := Some now'\<rparr>))"

definition sweep_if_due :: "limiter \<Rightarrow> u64 \<Rightarrow> usize \<times> limiter" where
  "sweep_if_due l now =
     (let (now', l1) = observe_time l now
      in if (case li_last_sweep l1 of
               None \<Rightarrow> False
             | Some prev \<Rightarrow>
                 saturating_sub_u64 now' prev < lc_sweep_interval_seconds (li_config l1))
         then (0, l1)
         else (let (removed, l2) = sweep_inner l1 now'
               in (removed, l2\<lparr>li_last_sweep := Some now'\<rparr>)))"

section \<open>Admission\<close>

text \<open>The branch of \<^verbatim>\<open>check\<close> for a dimension that has an entry, after \<^verbatim>\<open>touch\<close>.\<close>

definition check_entry ::
  "operation_policy \<Rightarrow> u64 \<Rightarrow> entry \<Rightarrow> (limit_decision, limiter_error) result \<times> entry" where
  "check_entry policy now e =
     (let e1 = (case en_cooldown_until e of
                  None \<Rightarrow> e
                | Some retry_at \<Rightarrow>
                    if now < retry_at then e else e\<lparr>en_cooldown_until := None, en_attempts := []\<rparr>)
      in case en_cooldown_until e1 of
           Some retry_at \<Rightarrow> (Ok (Cooldown retry_at), e1)
         | None \<Rightarrow>
             (let e2 = prune_attempts e1 (op_window_seconds policy) now
              in if length (en_attempts e2) \<ge> op_limit policy then
                   (case checked_add_u64 now COOLDOWN_SECONDS of
                      None \<Rightarrow> (Err TimeOverflow, e2)
                    | Some retry_at \<Rightarrow>
                        (Ok (Cooldown retry_at), e2\<lparr>en_cooldown_until := Some retry_at\<rparr>))
                 else
                   (let e3 = e2\<lparr>en_attempts := en_attempts e2 @ [now]\<rparr>;
                        n = length (en_attempts e3) mod (u32_max + 1)
                    in (if n \<le> op_limit policy then Ok (Allowed (op_limit policy - n)) else Panic,
                        e3))))"

definition check_existing ::
  "limiter \<Rightarrow> dimension \<Rightarrow> u64 \<Rightarrow> (limit_decision, limiter_error) result \<times> limiter" where
  "check_existing l dim now =
     bind_st (touch l dim) (\<lambda>_ l1.
       (case bt_get (li_entries l1) dim of
          None \<Rightarrow> (Panic, l1)
        | Some e \<Rightarrow>
            (let (r, e') = check_entry (policy_of (li_config l1) (fst dim)) now e
             in (r, l1\<lparr>li_entries := bt_insert dim e' (li_entries l1)\<rparr>))))"

definition check_new ::
  "limiter \<Rightarrow> dimension \<Rightarrow> u64 \<Rightarrow> (limit_decision, limiter_error) result \<times> limiter" where
  "check_new l dim now =
     (let l1 = (if length (bt_keys (li_entries l)) \<ge> lc_entry_cap (li_config l)
                then evict_lru l else l)
      in bind_st (take_recency l1) (\<lambda>r l2.
           ((if op_limit (policy_of (li_config l2) (fst dim)) \<ge> 1
             then Ok (Allowed (op_limit (policy_of (li_config l2) (fst dim)) - 1)) else Panic),
            l2\<lparr>li_entries := bt_insert dim
                  \<lparr>en_attempts = [now], en_cooldown_until = None, en_recency = r\<rparr> (li_entries l2),
               li_recency := bs_insert (r, dim) (li_recency l2)\<rparr>)))"

definition check ::
  "(bytes \<Rightarrow> bytes \<Rightarrow> bytes) \<Rightarrow> limiter \<Rightarrow> operation \<Rightarrow> bytes \<Rightarrow> u64 \<Rightarrow>
     (limit_decision, limiter_error) result \<times> limiter" where
  "check hmac l operation address now =
     (if address = [] then (Err EmptyPeerAddress, l)
      else
        let (now', l1) = observe_time l now;
            l2 = (if (case li_last_sweep l1 of
                        None \<Rightarrow> True
                      | Some prev \<Rightarrow>
                          saturating_sub_u64 now' prev \<ge> lc_sweep_interval_seconds (li_config l1))
                  then (snd (sweep_inner l1 now'))\<lparr>li_last_sweep := Some now'\<rparr>
                  else l1);
            dim = (operation, peer_key hmac l2 address)
        in if bt_contains (li_entries l2) dim then check_existing l2 dim now'
           else check_new l2 dim now')"

definition limiter_snapshot_of :: "limiter \<Rightarrow> limiter_snapshot" where
  "limiter_snapshot_of l =
     \<lparr>lsn_entry_count = length (bt_keys (li_entries l)), lsn_dimensions = bt_keys (li_entries l),
      lsn_clock_reversals = li_clock_reversals l,
      lsn_capacity_evictions = li_capacity_evictions l\<rparr>"

definition entry_count :: "limiter \<Rightarrow> usize" where
  "entry_count l = length (bt_keys (li_entries l))"

end
