(* ===== verification/Limiter_Invariant.thy ===== *)
theory Limiter_Invariant
  imports Limiter
begin

text \<open>
  The invariant of the limiter: the recency index names exactly the entries (until the
  64-bit recency counter is exhausted, after which no entry is ever added), the table stays
  within its cap, and every entry holds at most its policy's limit of ordered attempts.
  Every operation keeps it, on its error paths too.
\<close>

declare split_paired_All [simp del] split_paired_Ex [simp del]

section \<open>The invariant\<close>

definition config_ok :: "limiter_config \<Rightarrow> bool" where
  "config_ok c \<longleftrightarrow>
     length (lc_policies c) = 8 \<and> 0 < lc_entry_cap c \<and> 0 < lc_sweep_interval_seconds c \<and>
     list_all (\<lambda>p. 0 < op_limit p \<and> op_limit p \<le> u32_max \<and> 0 < op_window_seconds p) (lc_policies c)"

definition entry_ok :: "limiter_config \<Rightarrow> u64 \<Rightarrow> dimension \<Rightarrow> entry \<Rightarrow> bool" where
  "entry_ok c now d e \<longleftrightarrow>
     sorted (en_attempts e) \<and> (\<forall>t \<in> set (en_attempts e). t \<le> now) \<and>
     length (en_attempts e) \<le> op_limit (policy_of c (fst d)) \<and>
     (\<forall>r. en_cooldown_until e = Some r \<longrightarrow> (\<forall>t \<in> set (en_attempts e). t + COOLDOWN_SECONDS \<le> r))"

definition index_of :: "(dimension, entry) btree \<Rightarrow> (u64 \<times> dimension) set" where
  "index_of m = {(en_recency e, d) | d e. bt_get m d = Some e}"

definition limiter_wf :: "limiter_config \<Rightarrow> limiter \<Rightarrow> bool" where
  "limiter_wf c l \<longleftrightarrow>
     config_ok c \<and> li_config l = c \<and> bt_wf (li_entries l) \<and> bs_wf (li_recency l) \<and>
     set (li_recency l) \<subseteq> index_of (li_entries l) \<and>
     (li_next_recency l < u64_max \<longrightarrow> set (li_recency l) = index_of (li_entries l)) \<and>
     li_next_recency l \<le> u64_max \<and>
     (\<forall>d e. bt_get (li_entries l) d = Some e \<longrightarrow> en_recency e < li_next_recency l) \<and>
     entry_count l \<le> lc_entry_cap c \<and>
     (\<forall>d e. bt_get (li_entries l) d = Some e \<longrightarrow>
        (\<exists>now. li_last_now l = Some now \<and> entry_ok c now d e))"

lemma policy_of_ok:
  assumes "config_ok c"
  shows "0 < op_limit (policy_of c o1) \<and> op_limit (policy_of c o1) \<le> u32_max \<and>
    0 < op_window_seconds (policy_of c o1)"
  using assms op_index_less[of o1] by (auto simp: config_ok_def policy_of_def list_all_length)

lemma limiter_wf_entryD:
  assumes "limiter_wf c l" and "bt_get (li_entries l) d = Some e"
  shows "en_recency e < li_next_recency l \<and> (\<exists>now. li_last_now l = Some now \<and> entry_ok c now d e)"
  using assms unfolding limiter_wf_def by blast

lemma limiter_wfD:
  assumes "limiter_wf c l"
  shows "config_ok c" "li_config l = c" "bt_wf (li_entries l)" "bs_wf (li_recency l)"
    "set (li_recency l) \<subseteq> index_of (li_entries l)"
    "li_next_recency l < u64_max \<Longrightarrow> set (li_recency l) = index_of (li_entries l)"
    "li_next_recency l \<le> u64_max" "entry_count l \<le> lc_entry_cap c"
  using assms unfolding limiter_wf_def by blast+

lemma limiter_wfI:
  assumes "config_ok c" "li_config l = c" "bt_wf (li_entries l)" "bs_wf (li_recency l)"
    "set (li_recency l) \<subseteq> index_of (li_entries l)"
    "li_next_recency l < u64_max \<Longrightarrow> set (li_recency l) = index_of (li_entries l)"
    "li_next_recency l \<le> u64_max" "entry_count l \<le> lc_entry_cap c"
    "\<And>d e. bt_get (li_entries l) d = Some e \<Longrightarrow>
      en_recency e < li_next_recency l \<and> (\<exists>now. li_last_now l = Some now \<and> entry_ok c now d e)"
  shows "limiter_wf c l"
  using assms unfolding limiter_wf_def by blast

lemma limiter_new_wf:
  assumes "limiter_new key c = Ok l" and "length (lc_policies c) = 8"
    and "list_all (\<lambda>p. op_limit p \<le> u32_max) (lc_policies c)"
  shows "limiter_wf c l"
  using assms
  by (auto simp: limiter_new_def limiter_wf_def config_ok_def index_of_def entry_count_def
      bt_keys_def list_all_iff list_ex_iff split: if_splits)

section \<open>Entries\<close>

lemma entry_ok_mono: "entry_ok c now d e \<Longrightarrow> now \<le> now' \<Longrightarrow> entry_ok c now' d e"
  by (fastforce simp: entry_ok_def)

lemma entry_ok_recency [simp]: "entry_ok c now d (e\<lparr>en_recency := r\<rparr>) = entry_ok c now d e"
  by (simp add: entry_ok_def)

lemma dropWhile_window:
  "sorted ts \<Longrightarrow> dropWhile (\<lambda>t. saturating_sub_u64 now t \<ge> w) ts = filter (\<lambda>t. now - t < w) ts"
proof (induction ts)
  case Nil
  then show ?case by simp
next
  case (Cons t ts)
  show ?case
  proof (cases "w \<le> now - t")
    case True
    with Cons show ?thesis by (simp add: saturating_sub_u64_def)
  next
    case False
    with Cons.prems have "\<forall>s \<in> set ts. now - s < w" by fastforce
    then have "filter (\<lambda>t. now - t < w) ts = ts" by (simp add: filter_id_conv)
    with False show ?thesis by (simp add: saturating_sub_u64_def)
  qed
qed

lemma prune_attempts_eq:
  "entry_ok c now0 d e \<Longrightarrow>
   prune_attempts e w now = e\<lparr>en_attempts := filter (\<lambda>t. now - t < w) (en_attempts e)\<rparr>"
  by (simp add: prune_attempts_def entry_ok_def dropWhile_window)

lemma prune_attempts_fields [simp]:
  "en_recency (prune_attempts e w now) = en_recency e"
  "en_cooldown_until (prune_attempts e w now) = en_cooldown_until e"
  by (simp_all add: prune_attempts_def)

lemma entry_ok_prune: "entry_ok c now0 d e \<Longrightarrow> entry_ok c now0 d (prune_attempts e w now)"
  by (auto simp: prune_attempts_eq, auto simp: entry_ok_def sorted_wrt_filter
      intro: order_trans[OF length_filter_le])

lemma sweep_entry_ok:
  "entry_ok c now d e \<Longrightarrow> sweep_entry c now d e = (e', gone) \<Longrightarrow>
   entry_ok c now d e' \<and> en_recency e' = en_recency e"
  by (auto simp: sweep_entry_def Let_def entry_ok_prune split: option.splits)

lemma check_entry_ok:
  assumes ok: "entry_ok c now d e" and policy: "policy_of c (fst d) = p"
    and res: "check_entry p now e = (r, e')"
  shows "entry_ok c now d e' \<and> en_recency e' = en_recency e"
proof -
  define e1 where "e1 = (case en_cooldown_until e of
      None \<Rightarrow> e
    | Some retry_at \<Rightarrow> if now < retry_at then e else e\<lparr>en_cooldown_until := None, en_attempts := []\<rparr>)"
  have e1: "entry_ok c now d e1" "en_recency e1 = en_recency e"
    using ok by (auto simp: e1_def entry_ok_def split: option.splits)
  define e2 where "e2 = prune_attempts e1 (op_window_seconds p) now"
  have e2: "entry_ok c now d e2" "en_recency e2 = en_recency e"
    "en_cooldown_until e2 = en_cooldown_until e1"
    using e1 by (auto simp: e2_def entry_ok_prune)
  have app: "entry_ok c now d (e2\<lparr>en_attempts := en_attempts e2 @ [now]\<rparr>)"
    if "length (en_attempts e2) < op_limit p" "en_cooldown_until e2 = None"
    using e2(1) that policy by (auto simp: entry_ok_def sorted_append)
  have cool: "entry_ok c now d (e2\<lparr>en_cooldown_until := Some (now + COOLDOWN_SECONDS)\<rparr>)"
    using e2(1) by (auto simp: entry_ok_def)
  show ?thesis
  proof (cases "en_cooldown_until e1")
    case (Some t)
    with res e1 show ?thesis
      by (auto simp: check_entry_def Let_def e1_def[symmetric])
  next
    case None
    with res e2 app cool show ?thesis
      by (auto simp: check_entry_def Let_def e1_def[symmetric] e2_def[symmetric] machine_int
          split: if_splits)
  qed
qed

lemma check_entry_not_panic:
  assumes ok: "entry_ok c now d e" and policy: "policy_of c (fst d) = p" and "config_ok c"
  shows "fst (check_entry p now e) \<noteq> Panic"
proof -
  have "Suc n mod (u32_max + 1) \<le> op_limit p" if "n < op_limit p" for n
    using that policy_of_ok[OF assms(3), of "fst d"] policy by simp
  then show ?thesis
    by (auto simp: check_entry_def Let_def split: option.splits)
qed

section \<open>Each operation keeps the invariant\<close>

lemma observe_time_spec:
  assumes "observe_time l now = (n, l')"
  shows "now \<le> n \<and> li_last_now l' = Some n \<and> (\<forall>p. li_last_now l = Some p \<longrightarrow> p \<le> n) \<and>
    li_entries l' = li_entries l \<and> li_recency l' = li_recency l \<and>
    li_next_recency l' = li_next_recency l \<and> li_config l' = li_config l \<and>
    li_operator_key l' = li_operator_key l \<and> li_capacity_evictions l' = li_capacity_evictions l"
  using assms by (auto simp: observe_time_def Let_def split: option.splits)

lemma observe_time_wf:
  assumes wf: "limiter_wf c l" and obs: "observe_time l now = (n, l')"
  shows "limiter_wf c l'"
proof (rule limiter_wfI)
  note spec = observe_time_spec[OF obs]
  show "en_recency e < li_next_recency l' \<and> (\<exists>now. li_last_now l' = Some now \<and> entry_ok c now d e)"
    if "bt_get (li_entries l') d = Some e" for d e
  proof -
    have "bt_get (li_entries l) d = Some e" using that spec by simp
    from limiter_wf_entryD[OF wf this] obtain n0 where n0: "en_recency e < li_next_recency l"
      "li_last_now l = Some n0" "entry_ok c n0 d e" by blast
    then have "n0 \<le> n" using spec by blast
    from entry_ok_mono[OF n0(3) this] n0 spec show ?thesis by simp
  qed
qed (use limiter_wfD[OF wf] observe_time_spec[OF obs] in \<open>auto simp: entry_count_def\<close>)

lemma bt_get_fold_remove:
  "bt_get (fold (\<lambda>(d, r) m. bt_remove d m) xs m) d =
   (if d \<in> fst ` set xs then None else bt_get m d)"
  by (induction xs arbitrary: m) (auto simp: bt_get_remove)

lemma bt_wf_fold_remove: "bt_wf m \<Longrightarrow> bt_wf (fold (\<lambda>(d, r) m. bt_remove d m) xs m)"
  by (induction xs arbitrary: m) (auto simp: bt_wf_remove)

lemma length_fold_remove: "length (fold (\<lambda>(d, r) m. bt_remove d m) xs m) \<le> length m"
proof (induction xs arbitrary: m)
  case Nil
  then show ?case by simp
next
  case (Cons x xs)
  have "length (bt_remove (fst x) m) \<le> length m" by (simp add: bt_remove_def)
  from order_trans[OF Cons.IH this] show ?case by (simp add: case_prod_beta)
qed

lemma set_fold_bs_remove:
  "set (fold (\<lambda>(d, r) s. bs_remove (r, d) s) xs s) = set s - {(r, d) | r d. (d, r) \<in> set xs}"
  by (induction xs arbitrary: s) auto

lemma bs_wf_fold_remove: "bs_wf s \<Longrightarrow> bs_wf (fold (\<lambda>(d, r) s. bs_remove (r, d) s) xs s)"
  by (induction xs arbitrary: s) (auto simp: bs.inv_rem)

lemma bt_get_map_values:
  "bt_get (map (\<lambda>(d, e). (d, f d e)) m) d = map_option (f d) (bt_get m d)"
  by (induction m) (auto simp: bt_get_def)

lemma bt_wf_map_values: "bt_wf m \<Longrightarrow> bt_wf (map (\<lambda>(d, e). (d, f d e)) m)"
  by (simp add: bt_wf_def comp_def case_prod_beta)

definition swept_entry :: "limiter_config \<Rightarrow> u64 \<Rightarrow> dimension \<Rightarrow> entry \<Rightarrow> entry option" where
  "swept_entry c now d e = (case sweep_entry c now d e of (e', gone) \<Rightarrow> if gone then None else Some e')"

lemma sweep_inner_spec:
  assumes wf: "bt_wf (li_entries l)" and res: "sweep_inner l now = (k, l')"
  shows "bt_get (li_entries l') d = Option.bind (bt_get (li_entries l) d) (swept_entry (li_config l) now d)"
    and "bt_wf (li_entries l')" and "length (li_entries l') \<le> length (li_entries l)"
    and "set (li_recency l') = set (li_recency l) -
      {(en_recency (fst (sweep_entry (li_config l) now d e)), d) | d e.
         bt_get (li_entries l) d = Some e \<and> snd (sweep_entry (li_config l) now d e)}"
    and "bs_wf (li_recency l) \<Longrightarrow> bs_wf (li_recency l')"
    and "l' = l\<lparr>li_entries := li_entries l', li_recency := li_recency l'\<rparr>"
proof -
  let ?c = "li_config l"
  define swept where "swept = map (\<lambda>(d, e). (d, sweep_entry ?c now d e)) (li_entries l)"
  define removed where "removed =
    List.map_filter (\<lambda>(d, e, gone). if gone then Some (d, en_recency e) else None) swept"
  define inplace where "inplace = map (\<lambda>(d, e, gone). (d, e)) swept"
  have inplace: "inplace = map (\<lambda>(d, e). (d, fst (sweep_entry ?c now d e))) (li_entries l)"
    by (simp add: inplace_def swept_def comp_def case_prod_beta)
  have l': "l' = l\<lparr>li_entries := fold (\<lambda>(d, r) m. bt_remove d m) removed inplace,
      li_recency := fold (\<lambda>(d, r) s. bs_remove (r, d) s) removed (li_recency l)\<rparr>"
    using res by (simp add: sweep_inner_def Let_def swept_def removed_def inplace_def)
  have removed: "(d, r) \<in> set removed \<longleftrightarrow> (\<exists>e. bt_get (li_entries l) d = Some e \<and>
      snd (sweep_entry ?c now d e) \<and> r = en_recency (fst (sweep_entry ?c now d e)))" for d r
  proof -
    have "(d, r) \<in> set removed \<longleftrightarrow> (\<exists>x \<in> set (li_entries l).
        (if snd (sweep_entry ?c now (fst x) (snd x))
         then Some (fst x, en_recency (fst (sweep_entry ?c now (fst x) (snd x)))) else None) = Some (d, r))"
      by (simp add: removed_def swept_def in_map_filter case_prod_beta)
    also have "\<dots> \<longleftrightarrow> (\<exists>e. (d, e) \<in> set (li_entries l) \<and>
        snd (sweep_entry ?c now d e) \<and> r = en_recency (fst (sweep_entry ?c now d e)))"
      by (force split: if_splits)
    finally show ?thesis by (simp add: bt_get_iff[OF wf])
  qed
  have gone: "d \<in> fst ` set removed \<longleftrightarrow>
      (\<exists>e. bt_get (li_entries l) d = Some e \<and> snd (sweep_entry ?c now d e))" for d
  proof -
    have "d \<in> fst ` set removed \<longleftrightarrow> (\<exists>r. (d, r) \<in> set removed)" by force
    then show ?thesis unfolding removed by blast
  qed
  show "bt_get (li_entries l') d = Option.bind (bt_get (li_entries l) d) (swept_entry ?c now d)"
  proof (cases "bt_get (li_entries l) d")
    case None
    then show ?thesis by (simp add: l' bt_get_fold_remove inplace bt_get_map_values)
  next
    case (Some e)
    then show ?thesis
      by (cases "sweep_entry ?c now d e")
        (simp add: l' bt_get_fold_remove gone inplace bt_get_map_values swept_entry_def)
  qed
  show "bt_wf (li_entries l')"
    using wf by (simp add: l' inplace bt_wf_fold_remove bt_wf_map_values)
  show "length (li_entries l') \<le> length (li_entries l)"
    using length_fold_remove[of removed inplace] by (simp add: l' inplace)
  show "set (li_recency l') = set (li_recency l) -
      {(en_recency (fst (sweep_entry ?c now d e)), d) | d e.
         bt_get (li_entries l) d = Some e \<and> snd (sweep_entry ?c now d e)}"
    by (auto simp: l' set_fold_bs_remove removed)
  show "bs_wf (li_recency l) \<Longrightarrow> bs_wf (li_recency l')"
    by (simp add: l' bs_wf_fold_remove)
  show "l' = l\<lparr>li_entries := li_entries l', li_recency := li_recency l'\<rparr>"
    by (simp add: l')
qed

lemma sweep_inner_wf:
  assumes wf: "limiter_wf c l" and now: "li_last_now l = Some now"
    and res: "sweep_inner l now = (k, l')"
  shows "limiter_wf c l'"
proof -
  have bt: "bt_wf (li_entries l)" and c: "li_config l = c" using limiter_wfD[OF wf] by blast+
  note spec = sweep_inner_spec[OF bt res]
  have ok: "entry_ok c now d e" if "bt_get (li_entries l) d = Some e" for d e
    using limiter_wf_entryD[OF wf that] now by auto
  have same: "en_recency (fst (sweep_entry c now d e)) = en_recency e"
    if "bt_get (li_entries l) d = Some e" for d e
    using sweep_entry_ok[OF ok[OF that]] by (metis prod.collapse)
  have kept: "\<exists>e. bt_get (li_entries l) d = Some e \<and> sweep_entry c now d e = (e', False)"
    if "bt_get (li_entries l') d = Some e'" for d e'
  proof (cases "bt_get (li_entries l) d")
    case None
    with that spec(1)[of d] show ?thesis by simp
  next
    case (Some e)
    with that spec(1)[of d] c have "swept_entry c now d e = Some e'" by simp
    then show ?thesis using Some by (cases "sweep_entry c now d e") (auto simp: swept_entry_def split: if_splits)
  qed
  have index: "index_of (li_entries l') = index_of (li_entries l) -
      {(en_recency (fst (sweep_entry c now d e)), d) | d e.
         bt_get (li_entries l) d = Some e \<and> snd (sweep_entry c now d e)}"
  proof (intro set_eqI iffI)
    fix x assume "x \<in> index_of (li_entries l')"
    then obtain d e' where x: "x = (en_recency e', d)" "bt_get (li_entries l') d = Some e'"
      by (auto simp: index_of_def)
    with kept obtain e where e: "bt_get (li_entries l) d = Some e" "sweep_entry c now d e = (e', False)"
      by blast
    then have "en_recency e' = en_recency e" using same[OF e(1)] by simp
    with x e show "x \<in> index_of (li_entries l) -
      {(en_recency (fst (sweep_entry c now d e)), d) | d e.
         bt_get (li_entries l) d = Some e \<and> snd (sweep_entry c now d e)}"
      by (auto simp: index_of_def)
  next
    fix x assume "x \<in> index_of (li_entries l) -
      {(en_recency (fst (sweep_entry c now d e)), d) | d e.
         bt_get (li_entries l) d = Some e \<and> snd (sweep_entry c now d e)}"
    then obtain d e where x: "x = (en_recency e, d)" and e: "bt_get (li_entries l) d = Some e"
      and out: "\<not> snd (sweep_entry c now d e)"
      using same by (fastforce simp: index_of_def)
    then have "bt_get (li_entries l') d = Some (fst (sweep_entry c now d e))"
      using spec(1)[of d] c by (auto simp: swept_entry_def split: prod.splits)
    then show "x \<in> index_of (li_entries l')" unfolding x same[OF e, symmetric] index_of_def by blast
  qed
  have fields: "li_config l' = c" "li_next_recency l' = li_next_recency l" "li_last_now l' = Some now"
    by (subst spec(6), simp add: c now)+
  have each: "en_recency e' < li_next_recency l \<and> entry_ok c now d e'"
    if e': "bt_get (li_entries l') d = Some e'" for d e'
  proof -
    from kept[OF e'] obtain e where e: "bt_get (li_entries l) d = Some e"
      "sweep_entry c now d e = (e', False)" by blast
    with sweep_entry_ok[OF ok[OF e(1)] e(2)] limiter_wf_entryD[OF wf e(1)] show ?thesis by auto
  qed
  have rec: "set (li_recency l') = set (li_recency l) -
      {(en_recency (fst (sweep_entry c now d e)), d) | d e.
         bt_get (li_entries l) d = Some e \<and> snd (sweep_entry c now d e)}"
    using spec(4) c by simp
  show ?thesis
  proof (rule limiter_wfI)
    show "set (li_recency l') \<subseteq> index_of (li_entries l')"
      unfolding rec index using limiter_wfD(5)[OF wf] by blast
    show "set (li_recency l') = index_of (li_entries l')" if "li_next_recency l' < u64_max"
      unfolding rec index using limiter_wfD(6)[OF wf] that fields(2) by simp
    show "entry_count l' \<le> lc_entry_cap c"
      using limiter_wfD(8)[OF wf] spec(3) by (simp add: entry_count_def bt_keys_def)
  qed (use limiter_wfD[OF wf] spec(2,5) fields each in auto)
qed


lemma index_of_insert:
  "index_of (bt_insert d e m) = insert (en_recency e, d) (index_of m - {x. snd x = d})"
  by (auto simp: index_of_def bt_get_insert split: if_splits)

lemma index_of_remove: "index_of (bt_remove d m) = index_of m - {x. snd x = d}"
  by (auto simp: index_of_def bt_get_remove split: if_splits)

lemma index_of_at: "bt_get m d = Some e \<Longrightarrow> index_of m \<inter> {x. snd x = d} = {(en_recency e, d)}"
  by (auto simp: index_of_def)

lemma index_of_fst: "x \<in> index_of m \<Longrightarrow> \<exists>e. bt_get m (snd x) = Some e \<and> fst x = en_recency e"
  by (auto simp: index_of_def)

lemma limiter_wf_update:
  assumes wf: "limiter_wf c l" and e: "bt_get (li_entries l) d = Some e"
    and rec: "en_recency e' = en_recency e"
    and ok: "\<And>now. li_last_now l = Some now \<Longrightarrow> entry_ok c now d e'"
  shows "limiter_wf c (l\<lparr>li_entries := bt_insert d e' (li_entries l)\<rparr>)"
proof -
  have ix: "index_of (bt_insert d e' (li_entries l)) = index_of (li_entries l)"
    using index_of_at[OF e] rec by (auto simp: index_of_insert)
  show ?thesis
  proof (rule limiter_wfI)
    show "en_recency x < li_next_recency (l\<lparr>li_entries := bt_insert d e' (li_entries l)\<rparr>) \<and>
        (\<exists>now. li_last_now (l\<lparr>li_entries := bt_insert d e' (li_entries l)\<rparr>) = Some now \<and> entry_ok c now y x)"
      if "bt_get (li_entries (l\<lparr>li_entries := bt_insert d e' (li_entries l)\<rparr>)) y = Some x" for y x
    proof (cases "y = d")
      case True
      with that have "x = e'" by (simp add: bt_get_insert)
      with True limiter_wf_entryD[OF wf e] rec ok show ?thesis by auto
    next
      case False
      with that have "bt_get (li_entries l) y = Some x" by (simp add: bt_get_insert)
      from limiter_wf_entryD[OF wf this] show ?thesis by simp
    qed
  qed (use limiter_wfD[OF wf] ix e in \<open>simp_all add: entry_count_def bt.length_keys_ins bt_wf_insert\<close>)
qed

lemma take_recency_cases:
  assumes "li_next_recency l \<le> u64_max"
  shows "(li_next_recency l < u64_max \<and>
      take_recency l = (Ok (li_next_recency l), l\<lparr>li_next_recency := li_next_recency l + 1\<rparr>)) \<or>
    (li_next_recency l = u64_max \<and> take_recency l = (Err TimeOverflow, l))"
  using assms by (auto simp: take_recency_def machine_int)

lemma touch_spec:
  assumes wf: "limiter_wf c l" and e: "bt_get (li_entries l) d = Some e"
  shows "limiter_wf c (snd (touch l d))"
    and "touch l d = (Err TimeOverflow, l\<lparr>li_recency := bs_remove (en_recency e, d) (li_recency l)\<rparr>) \<or>
      touch l d = (Ok (), l\<lparr>li_next_recency := li_next_recency l + 1,
        li_entries := bt_insert d (e\<lparr>en_recency := li_next_recency l\<rparr>) (li_entries l),
        li_recency := bs_insert (li_next_recency l, d) (bs_remove (en_recency e, d) (li_recency l))\<rparr>)"
proof -
  let ?l0 = "l\<lparr>li_recency := bs_remove (en_recency e, d) (li_recency l)\<rparr>"
  let ?l1 = "l\<lparr>li_next_recency := li_next_recency l + 1,
        li_entries := bt_insert d (e\<lparr>en_recency := li_next_recency l\<rparr>) (li_entries l),
        li_recency := bs_insert (li_next_recency l, d) (bs_remove (en_recency e, d) (li_recency l))\<rparr>"
  note D = limiter_wfD[OF wf]
  have cases: "(li_next_recency l < u64_max \<and> touch l d = (Ok (), ?l1)) \<or>
      (li_next_recency l = u64_max \<and> touch l d = (Err TimeOverflow, ?l0))"
    using take_recency_cases[of ?l0] D(7) e by (auto simp: touch_def)
  then show "touch l d = (Err TimeOverflow, ?l0) \<or> touch l d = (Ok (), ?l1)" by blast
  have old: "limiter_wf c ?l0" if "li_next_recency l = u64_max"
  proof (rule limiter_wfI)
    show "set (li_recency ?l0) \<subseteq> index_of (li_entries ?l0)" using D(5) by auto
    show "bs_wf (li_recency ?l0)" using D(4) by (simp add: bs.inv_rem)
  qed (use D that limiter_wf_entryD[OF wf] in \<open>auto simp: entry_count_def\<close>)
  have new: "limiter_wf c ?l1" if lt: "li_next_recency l < u64_max"
  proof (rule limiter_wfI)
    have "set (li_recency ?l1) = index_of (li_entries ?l1)"
      using D(6)[OF lt] index_of_at[OF e]
      by (auto simp: set_bs_insert index_of_insert)
    then show "set (li_recency ?l1) = index_of (li_entries ?l1)"
      "set (li_recency ?l1) \<subseteq> index_of (li_entries ?l1)" by simp_all
    show "bs_wf (li_recency ?l1)" using D(4) by (simp add: bs.inv_rem bs.inv_ins)
    show "entry_count ?l1 \<le> lc_entry_cap c"
      using D(3,8) e by (simp add: entry_count_def bt.length_keys_ins)
    show "en_recency x < li_next_recency ?l1 \<and> (\<exists>now. li_last_now ?l1 = Some now \<and> entry_ok c now y x)"
      if x: "bt_get (li_entries ?l1) y = Some x" for y x
    proof (cases "y = d")
      case True
      with x have "x = e\<lparr>en_recency := li_next_recency l\<rparr>" by (simp add: bt_get_insert)
      with True limiter_wf_entryD[OF wf e] show ?thesis by auto
    next
      case False
      with x have "bt_get (li_entries l) y = Some x" by (simp add: bt_get_insert)
      from limiter_wf_entryD[OF wf this] show ?thesis by auto
    qed
  qed (use D lt in \<open>simp_all add: bt_wf_insert\<close>)
  show "limiter_wf c (snd (touch l d))"
    using cases old new by auto
qed

lemma check_existing_wf:
  assumes wf: "limiter_wf c l" and now: "li_last_now l = Some now"
    and e: "bt_get (li_entries l) d = Some e" and res: "check_existing l d now = (r, l')"
  shows "limiter_wf c l' \<and> r \<noteq> Panic"
proof (cases "fst (touch l d) = Ok ()")
  case False
  with touch_spec(2)[OF wf e] res touch_spec(1)[OF wf e] show ?thesis
    by (auto simp: check_existing_def)
next
  case True
  define l1 where "l1 = snd (touch l d)"
  define e1 where "e1 = e\<lparr>en_recency := li_next_recency l\<rparr>"
  have t: "touch l d = (Ok (), l1)" using True by (metis l1_def prod.collapse)
  have wf1: "limiter_wf c l1" using touch_spec(1)[OF wf e] by (simp add: l1_def)
  have l1: "bt_get (li_entries l1) d = Some e1" "li_last_now l1 = Some now" "li_config l1 = c"
    using touch_spec(2)[OF wf e] t now limiter_wfD(2)[OF wf1]
    by (auto simp: bt_get_insert e1_def)
  obtain e2 where ce: "check_entry (policy_of c (fst d)) now e1 = (r, e2)"
    and l': "l' = l1\<lparr>li_entries := bt_insert d e2 (li_entries l1)\<rparr>"
    using res by (auto simp: check_existing_def t l1 split: prod.splits)
  have ok: "entry_ok c now d e1" using limiter_wf_entryD[OF wf1 l1(1)] l1(2) by auto
  have "limiter_wf c l'"
    unfolding l' using check_entry_ok[OF ok refl ce] l1
    by (intro limiter_wf_update[OF wf1 l1(1)]) auto
  then show ?thesis
    using check_entry_not_panic[OF ok refl limiter_wfD(1)[OF wf]] ce by simp
qed

lemma evict_lru_wf:
  assumes wf: "limiter_wf c l"
  shows "limiter_wf c (evict_lru l)"
proof (cases "bs_first (li_recency l)")
  case None
  with wf show ?thesis by (simp add: evict_lru_def)
next
  case (Some v)
  note D = limiter_wfD[OF wf]
  have v: "v \<in> set (li_recency l)" using bs.first_least[OF D(4) Some] by simp
  then obtain e where e: "bt_get (li_entries l) (snd v) = Some e" "fst v = en_recency e"
    using D(5) index_of_fst by blast
  have at: "index_of (li_entries l) \<inter> {x. snd x = snd v} = {v}"
    using index_of_at[OF e(1)] e(2) by (metis prod.collapse)
  let ?l = "l\<lparr>li_recency := bs_remove v (li_recency l),
      li_entries := bt_remove (snd v) (li_entries l),
      li_capacity_evictions := saturating_add_u64 (li_capacity_evictions l) 1\<rparr>"
  have "limiter_wf c ?l"
  proof (rule limiter_wfI)
    show "set (li_recency ?l) \<subseteq> index_of (li_entries ?l)"
      using D(5) at by (fastforce simp: index_of_remove)
    show "set (li_recency ?l) = index_of (li_entries ?l)" if "li_next_recency ?l < u64_max"
    proof -
      have "set (li_recency l) = index_of (li_entries l)" using D(6) that by simp
      with at show ?thesis by (auto simp: index_of_remove)
    qed
    show "bs_wf (li_recency ?l)" using D(4) by (simp add: bs.inv_rem)
    show "entry_count ?l \<le> lc_entry_cap c"
      using D(3,8) bt.length_keys_rem_le[OF D(3), of "snd v"] by (simp add: entry_count_def)
    show "en_recency x < li_next_recency ?l \<and> (\<exists>now. li_last_now ?l = Some now \<and> entry_ok c now y x)"
      if x: "bt_get (li_entries ?l) y = Some x" for y x
      using x limiter_wf_entryD[OF wf, of y x] by (simp add: bt_get_remove split: if_splits)
  qed (use D in \<open>simp_all add: bt_wf_remove\<close>)
  then show ?thesis by (simp add: evict_lru_def Some)
qed

lemma evict_lru_room:
  assumes wf: "limiter_wf c l" and lt: "li_next_recency l < u64_max" and ne: "li_entries l \<noteq> []"
  shows "Suc (entry_count (evict_lru l)) = entry_count l"
proof -
  note D = limiter_wfD[OF wf]
  obtain d e where "bt_get (li_entries l) d = Some e"
    using ne bt_get_SomeI[OF D(3)] by (cases "li_entries l") (auto, fastforce)
  then have "(en_recency e, d) \<in> set (li_recency l)"
    using D(6)[OF lt] by (auto simp: index_of_def)
  then obtain v where v: "bs_first (li_recency l) = Some v"
    using bs.first_None[OF D(4)] by (cases "bs_first (li_recency l)") auto
  then have "bt_get (li_entries l) (snd v) \<noteq> None"
    using bs.first_least[OF D(4) v] D(5) index_of_fst by blast
  with bt.length_keys_rem[OF D(3)] v show ?thesis by (simp add: evict_lru_def entry_count_def)
qed

lemma evict_lru_fields [simp]:
  "li_config (evict_lru l) = li_config l" "li_next_recency (evict_lru l) = li_next_recency l"
  "li_last_now (evict_lru l) = li_last_now l" "li_operator_key (evict_lru l) = li_operator_key l"
  by (simp_all add: evict_lru_def split: option.splits)

lemma limiter_wf_new_entry:
  assumes wf: "limiter_wf c l" and lt: "li_next_recency l < u64_max"
    and absent: "bt_get (li_entries l) d = None" and room: "entry_count l < lc_entry_cap c"
    and rec: "en_recency e = li_next_recency l"
    and ok: "\<exists>now. li_last_now l = Some now \<and> entry_ok c now d e"
  shows "limiter_wf c (l\<lparr>li_next_recency := li_next_recency l + 1,
      li_entries := bt_insert d e (li_entries l),
      li_recency := bs_insert (li_next_recency l, d) (li_recency l)\<rparr>)" (is "limiter_wf c ?l")
proof (rule limiter_wfI)
  note D = limiter_wfD[OF wf]
  have none: "\<forall>x \<in> index_of (li_entries l). snd x \<noteq> d"
    using absent by (auto simp: index_of_def)
  then have "set (li_recency ?l) = index_of (li_entries ?l)"
    using D(6)[OF lt] by (auto simp: set_bs_insert index_of_insert rec)
  then show "set (li_recency ?l) = index_of (li_entries ?l)"
    "set (li_recency ?l) \<subseteq> index_of (li_entries ?l)" by simp_all
  show "bs_wf (li_recency ?l)" using D(4) by (simp add: bs.inv_ins)
  show "entry_count ?l \<le> lc_entry_cap c"
    using D(3) absent room by (simp add: entry_count_def bt.length_keys_ins)
  show "en_recency x < li_next_recency ?l \<and> (\<exists>now. li_last_now ?l = Some now \<and> entry_ok c now y x)"
    if x: "bt_get (li_entries ?l) y = Some x" for y x
  proof (cases "y = d")
    case True
    with x have "x = e" by (simp add: bt_get_insert)
    with True ok rec show ?thesis by auto
  next
    case False
    with x have "bt_get (li_entries l) y = Some x" by (simp add: bt_get_insert)
    from limiter_wf_entryD[OF wf this] show ?thesis by auto
  qed
qed (use limiter_wfD[OF wf] lt in \<open>simp_all add: bt_wf_insert\<close>)

lemma bt_get_evict: "bt_get (li_entries l) d = None \<Longrightarrow> bt_get (li_entries (evict_lru l)) d = None"
  by (simp add: evict_lru_def bt_get_remove split: option.splits)

lemma check_new_wf:
  assumes wf: "limiter_wf c l" and now: "li_last_now l = Some now"
    and absent: "bt_get (li_entries l) d = None" and res: "check_new l d now = (r, l')"
  shows "limiter_wf c l' \<and> r \<noteq> Panic"
proof -
  define l1 where "l1 = (if length (bt_keys (li_entries l)) \<ge> lc_entry_cap (li_config l)
                then evict_lru l else l)"
  have wf1: "limiter_wf c l1" using wf evict_lru_wf[OF wf] by (simp add: l1_def)
  have l1: "li_next_recency l1 = li_next_recency l" "li_config l1 = c" "li_last_now l1 = Some now"
    "bt_get (li_entries l1) d = None"
    using limiter_wfD(2)[OF wf] now absent bt_get_evict[OF absent] by (auto simp: l1_def)
  have pol: "1 \<le> op_limit (policy_of c (fst d))"
    using policy_of_ok[OF limiter_wfD(1)[OF wf], of "fst d"] by simp
  from take_recency_cases[OF limiter_wfD(7)[OF wf1]] show ?thesis
  proof (elim disjE conjE)
    assume "take_recency l1 = (Err TimeOverflow, l1)"
    with res wf1 show ?thesis by (auto simp: check_new_def l1_def[symmetric])
  next
    assume lt: "li_next_recency l1 < u64_max"
      and t: "take_recency l1 = (Ok (li_next_recency l1), l1\<lparr>li_next_recency := li_next_recency l1 + 1\<rparr>)"
    have room: "entry_count l1 < lc_entry_cap c"
    proof (cases "lc_entry_cap c \<le> entry_count l")
      case True
      have "li_entries l \<noteq> []"
        using True limiter_wfD(1)[OF wf] by (auto simp: entry_count_def config_ok_def bt_keys_def)
      from evict_lru_room[OF wf _ this] lt l1(1) True limiter_wfD(2,8)[OF wf] show ?thesis
        by (simp add: l1_def entry_count_def)
    next
      case False
      with limiter_wfD(2)[OF wf] show ?thesis by (simp add: l1_def entry_count_def)
    qed
    have ok: "entry_ok c now d \<lparr>en_attempts = [now], en_cooldown_until = None, en_recency = x\<rparr>" for x
      using pol by (simp add: entry_ok_def)
    have "r \<noteq> Panic" and l': "l' = l1\<lparr>li_next_recency := li_next_recency l1 + 1,
      li_entries := bt_insert d \<lparr>en_attempts = [now], en_cooldown_until = None,
        en_recency = li_next_recency l1\<rparr> (li_entries l1),
      li_recency := bs_insert (li_next_recency l1, d) (li_recency l1)\<rparr>"
      using res pol by (auto simp: check_new_def l1_def[symmetric] t l1(2))
    then show ?thesis
      unfolding l' using limiter_wf_new_entry[OF wf1 lt l1(4) room] ok l1(3) by simp
  qed
qed

lemma last_sweep_wf: "limiter_wf c l \<Longrightarrow> limiter_wf c (l\<lparr>li_last_sweep := x\<rparr>)"
  by (simp add: limiter_wf_def entry_count_def)

lemma sweep_inner_last_now:
  assumes "limiter_wf c l" and "sweep_inner l now = (k, l')"
  shows "li_last_now l' = li_last_now l" "li_config l' = li_config l"
    "li_operator_key l' = li_operator_key l"
  using limiter_wfD(3)[OF assms(1)]
  by (subst sweep_inner_spec(6)[OF _ assms(2)], auto)+

lemma check_wf:
  assumes wf: "limiter_wf c l" and res: "check hmac l operation address now = (r, l')"
  shows "limiter_wf c l' \<and> r \<noteq> Panic"
proof (cases "address = []")
  case True
  with res wf show ?thesis by (auto simp: check_def)
next
  case False
  obtain now' l1 where obs: "observe_time l now = (now', l1)" by fastforce
  have wf1: "limiter_wf c l1" using observe_time_wf[OF wf obs] .
  have n1: "li_last_now l1 = Some now'" using observe_time_spec[OF obs] by blast
  define l2 where "l2 = (if (case li_last_sweep l1 of
                        None \<Rightarrow> True
                      | Some prev \<Rightarrow>
                          saturating_sub_u64 now' prev \<ge> lc_sweep_interval_seconds (li_config l1))
                  then (snd (sweep_inner l1 now'))\<lparr>li_last_sweep := Some now'\<rparr>
                  else l1)"
  obtain k ls where sw: "sweep_inner l1 now' = (k, ls)" by fastforce
  have wf2: "limiter_wf c l2" and n2: "li_last_now l2 = Some now'"
    using wf1 n1 sweep_inner_wf[OF wf1 n1 sw] sweep_inner_last_now[OF wf1 sw]
    by (auto simp: l2_def sw last_sweep_wf)
  define d where "d = (operation, peer_key hmac l2 address)"
  have "check hmac l operation address now =
      (if bt_contains (li_entries l2) d then check_existing l2 d now' else check_new l2 d now')"
    using False by (simp add: check_def obs Let_def l2_def d_def)
  with res check_existing_wf[OF wf2 n2] check_new_wf[OF wf2 n2] show ?thesis
    by (auto simp: bt_contains_def split: if_splits)
qed

lemma limiter_sweep_wf:
  assumes wf: "limiter_wf c l" and res: "limiter_sweep l now = (k, l')"
  shows "limiter_wf c l'"
proof -
  obtain now' l1 where obs: "observe_time l now = (now', l1)" by fastforce
  obtain j l2 where sw: "sweep_inner l1 now' = (j, l2)" by fastforce
  have n1: "li_last_now l1 = Some now'" using observe_time_spec[OF obs] by blast
  from sweep_inner_wf[OF observe_time_wf[OF wf obs] n1 sw] res show ?thesis
    by (auto simp: limiter_sweep_def obs sw last_sweep_wf)
qed

lemma sweep_if_due_wf:
  assumes wf: "limiter_wf c l" and res: "sweep_if_due l now = (k, l')"
  shows "limiter_wf c l'"
proof -
  obtain now' l1 where obs: "observe_time l now = (now', l1)" by fastforce
  obtain j l2 where sw: "sweep_inner l1 now' = (j, l2)" by fastforce
  have n1: "li_last_now l1 = Some now'" using observe_time_spec[OF obs] by blast
  from sweep_inner_wf[OF observe_time_wf[OF wf obs] n1 sw] res observe_time_wf[OF wf obs] show ?thesis
    by (auto simp: sweep_if_due_def obs sw last_sweep_wf split: if_splits)
qed

end
