(* ===== verification/Limiter_Window.thy ===== *)
theory Limiter_Window
  imports Limiter_Invariant
begin

text \<open>
  The limiter against its specification: a history of accepted attempts per dimension. The
  relation \<open>limiter_reach\<close> runs any sequence of checks and sweeps and records, for each
  dimension, the effective time of every accepted attempt. While nothing is evicted the
  stored attempts and the history agree on every window that ends now or later.
\<close>

section \<open>Runs\<close>

type_synonym attempt_log = "dimension \<Rightarrow> u64 list"

definition checked_dimension ::
  "(bytes \<Rightarrow> bytes \<Rightarrow> bytes) \<Rightarrow> limiter \<Rightarrow> operation \<Rightarrow> bytes \<Rightarrow> dimension" where
  "checked_dimension hmac l operation address = (operation, peer_key hmac l address)"

fun allowed :: "(limit_decision, limiter_error) result \<Rightarrow> bool" where
  "allowed (Ok (Allowed n)) = True"
| "allowed _ = False"

inductive limiter_reach ::
  "(bytes \<Rightarrow> bytes \<Rightarrow> bytes) \<Rightarrow> limiter_config \<Rightarrow> limiter \<Rightarrow> attempt_log \<Rightarrow> bool"
  for hmac c where
  reach_new: "limiter_new key c = Ok l \<Longrightarrow> limiter_reach hmac c l (\<lambda>_. [])"
| reach_check: "limiter_reach hmac c l log \<Longrightarrow> check hmac l operation address now = (r, l') \<Longrightarrow>
    d = checked_dimension hmac l operation address \<Longrightarrow> n = fst (observe_time l now) \<Longrightarrow>
    limiter_reach hmac c l' (if allowed r then log(d := log d @ [n]) else log)"
| reach_sweep: "limiter_reach hmac c l log \<Longrightarrow> limiter_sweep l now = (k, l') \<Longrightarrow>
    limiter_reach hmac c l' log"
| reach_due: "limiter_reach hmac c l log \<Longrightarrow> sweep_if_due l now = (k, l') \<Longrightarrow>
    limiter_reach hmac c l' log"

text \<open>A configuration as the Rust types allow it: eight policies with 32-bit limits.\<close>

definition typed_config :: "limiter_config \<Rightarrow> bool" where
  "typed_config c \<longleftrightarrow> length (lc_policies c) = 8 \<and> list_all (\<lambda>p. op_limit p \<le> u32_max) (lc_policies c)"

lemma limiter_reach_wf:
  assumes "limiter_reach hmac c l log" and "typed_config c"
  shows "limiter_wf c l"
  using assms
proof (induction rule: limiter_reach.induct)
  case (reach_new key l)
  then show ?case using limiter_new_wf by (simp add: typed_config_def)
next
  case (reach_check l log operation address now r l' d n)
  then show ?case using check_wf by blast
next
  case (reach_sweep l log now k l')
  then show ?case using limiter_sweep_wf by blast
next
  case (reach_due l log now k l')
  then show ?case using sweep_if_due_wf by blast
qed

section \<open>Windows of stored attempts\<close>

definition win :: "u64 \<Rightarrow> u64 \<Rightarrow> u64 list \<Rightarrow> u64 list" where
  "win w n xs = filter (\<lambda>s. n - s < w) xs"

definition att :: "limiter \<Rightarrow> dimension \<Rightarrow> u64 list" where
  "att l d = (case bt_get (li_entries l) d of None \<Rightarrow> [] | Some e \<Rightarrow> en_attempts e)"

definition window_of :: "limiter_config \<Rightarrow> dimension \<Rightarrow> u64" where
  "window_of c d = op_window_seconds (policy_of c (fst d))"

definition limit_of :: "limiter_config \<Rightarrow> dimension \<Rightarrow> u32" where
  "limit_of c d = op_limit (policy_of c (fst d))"

lemma att_last_sweep [simp]: "att (l\<lparr>li_last_sweep := x\<rparr>) = att l"
  by (simp add: att_def fun_eq_iff)

lemma win_idem: "n \<le> n' \<Longrightarrow> win w n' (win w n xs) = win w n' xs"
  by (auto simp: win_def intro!: filter_cong)

lemma win_append [simp]: "win w n (xs @ ys) = win w n xs @ win w n ys"
  by (simp add: win_def)

lemma win_Nil [simp]: "win w n [] = []"
  by (simp add: win_def)

lemma win_cooled:
  assumes ok: "entry_ok c now0 d e" and r: "en_cooldown_until e = Some r" "r \<le> n"
    and w: "window_of c d \<le> COOLDOWN_SECONDS"
  shows "win (window_of c d) n (en_attempts e) = []"
proof -
  have "window_of c d \<le> n - s" if "s \<in> set (en_attempts e)" for s
  proof -
    have "s + COOLDOWN_SECONDS \<le> r" using ok r(1) that by (auto simp: entry_ok_def)
    with r(2) w show ?thesis by linarith
  qed
  then show ?thesis by (fastforce simp: win_def filter_empty_conv)
qed

lemma sweep_entry_win:
  assumes ok: "entry_ok c now d e" and w: "window_of c d \<le> COOLDOWN_SECONDS" and n: "now \<le> n"
    and res: "sweep_entry c now d e = (e', gone)"
  shows "win (window_of c d) n (if gone then [] else en_attempts e') =
         win (window_of c d) n (en_attempts e)"
proof (cases "en_cooldown_until e")
  case None
  have "en_attempts e' = win (window_of c d) now (en_attempts e)" "gone \<longleftrightarrow> en_attempts e' = []"
    using res None prune_attempts_eq[OF ok]
    by (auto simp: sweep_entry_def Let_def win_def window_of_def)
  then show ?thesis using win_idem[OF n, of "window_of c d" "en_attempts e"]
    by (cases gone) simp_all
next
  case (Some r)
  then have "e' = e" "gone \<longleftrightarrow> r \<le> now" using res by (auto simp: sweep_entry_def)
  with win_cooled[OF ok Some _ w, of n] n show ?thesis by auto
qed

lemma sweep_inner_att:
  assumes wf: "limiter_wf c l" and now: "li_last_now l = Some now"
    and w: "window_of c d \<le> COOLDOWN_SECONDS" and n: "now \<le> n"
    and res: "sweep_inner l now = (k, l')"
  shows "win (window_of c d) n (att l' d) = win (window_of c d) n (att l d)"
proof (cases "bt_get (li_entries l) d")
  case None
  with sweep_inner_spec(1)[OF limiter_wfD(3)[OF wf] res, of d] show ?thesis by (simp add: att_def)
next
  case (Some e)
  have ok: "entry_ok c now d e" using limiter_wf_entryD[OF wf Some] now by auto
  obtain e' gone where se: "sweep_entry c now d e = (e', gone)" by fastforce
  have "bt_get (li_entries l') d = (if gone then None else Some e')"
    using sweep_inner_spec(1)[OF limiter_wfD(3)[OF wf] res, of d] limiter_wfD(2)[OF wf] Some se
    by (simp add: swept_entry_def)
  with sweep_entry_win[OF ok w n se] Some show ?thesis by (cases gone) (auto simp: att_def)
qed

lemma check_entry_att:
  assumes ok: "entry_ok c now d e" and w: "window_of c d \<le> COOLDOWN_SECONDS"
    and res: "check_entry (policy_of c (fst d)) now e = (r, e')" and config: "config_ok c"
  shows "(allowed r \<longrightarrow> en_attempts e' = win (window_of c d) now (en_attempts e) @ [now] \<and>
            length (win (window_of c d) now (en_attempts e)) < limit_of c d) \<and>
         (\<not> allowed r \<longrightarrow> (\<forall>n \<ge> now. win (window_of c d) n (en_attempts e') =
            win (window_of c d) n (en_attempts e)))"
proof -
  define e1 where "e1 = (case en_cooldown_until e of
      None \<Rightarrow> e
    | Some retry_at \<Rightarrow> if now < retry_at then e else e\<lparr>en_cooldown_until := None, en_attempts := []\<rparr>)"
  have ok1: "entry_ok c now d e1" using ok by (auto simp: e1_def entry_ok_def split: option.splits)
  have w1: "win (window_of c d) n (en_attempts e1) = win (window_of c d) n (en_attempts e)"
    if "now \<le> n" for n
    using win_cooled[OF ok _ _ w, of _ n] that by (auto simp: e1_def split: option.splits)
  let ?e2 = "prune_attempts e1 (op_window_seconds (policy_of c (fst d))) now"
  have w2: "en_attempts ?e2 = win (window_of c d) now (en_attempts e1)"
    by (simp add: prune_attempts_eq[OF ok1] win_def window_of_def)
  show ?thesis
  proof (cases "en_cooldown_until e1")
    case (Some t)
    with res have "r = Ok (Cooldown t)" "e' = e1"
      by (auto simp: check_entry_def e1_def[symmetric] Let_def)
    with w1 show ?thesis by simp
  next
    case None
    show ?thesis
    proof (cases "op_limit (policy_of c (fst d)) \<le> length (en_attempts ?e2)")
      case True
      with None res have "\<not> allowed r" "en_attempts e' = en_attempts ?e2"
        by (auto simp: check_entry_def e1_def[symmetric] Let_def split: option.splits)
      with w1 w2 win_idem show ?thesis by simp
    next
      case False
      have "r \<noteq> Panic" using check_entry_not_panic[OF ok refl config] res by simp
      with None res False have "en_attempts e' = en_attempts ?e2 @ [now]" "\<exists>n. r = Ok (Allowed n)"
        by (auto simp: check_entry_def e1_def[symmetric] Let_def split: if_splits)
      then show ?thesis using False w1[OF order_refl] w2 by (auto simp: limit_of_def)
    qed
  qed
qed


section \<open>What one check does to the stored attempts\<close>

definition att_step :: "limiter_config \<Rightarrow> dimension \<Rightarrow> u64 \<Rightarrow> bool \<Rightarrow> limiter \<Rightarrow> limiter \<Rightarrow> bool" where
  "att_step c d now accepted l l' \<longleftrightarrow>
     (\<forall>y n. now \<le> n \<longrightarrow> win (window_of c y) n (att l' y) =
        win (window_of c y) n (att l y) @ (if accepted \<and> y = d then win (window_of c y) n [now] else [])) \<and>
     (accepted \<longrightarrow> length (win (window_of c d) now (att l d)) < limit_of c d)"

lemma att_stepI:
  assumes "\<And>y. y \<noteq> d \<Longrightarrow> att l' y = att l y"
    and "accepted \<Longrightarrow> att l' d = win (window_of c d) now (att l d) @ [now]"
    and "\<not> accepted \<Longrightarrow> \<forall>n \<ge> now. win (window_of c d) n (att l' d) = win (window_of c d) n (att l d)"
    and "accepted \<Longrightarrow> length (win (window_of c d) now (att l d)) < limit_of c d"
  shows "att_step c d now accepted l l'"
  unfolding att_step_def
proof (intro conjI allI impI)
  fix y n assume n: "now \<le> n"
  show "win (window_of c y) n (att l' y) =
        win (window_of c y) n (att l y) @ (if accepted \<and> y = d then win (window_of c y) n [now] else [])"
  proof (cases "y = d")
    case True
    with assms(2,3) n win_idem[OF n] show ?thesis by (cases accepted) simp_all
  next
    case False
    with assms(1) show ?thesis by simp
  qed
qed (use assms(4) in blast)

lemma check_existing_att:
  assumes wf: "limiter_wf c l" and now: "li_last_now l = Some now"
    and e: "bt_get (li_entries l) d = Some e" and w: "window_of c d \<le> COOLDOWN_SECONDS"
    and res: "check_existing l d now = (r, l')"
  shows "att_step c d now (allowed r) l l' \<and> li_capacity_evictions l' = li_capacity_evictions l"
proof (cases "fst (touch l d) = Ok ()")
  case False
  then have "l' = l\<lparr>li_recency := bs_remove (en_recency e, d) (li_recency l)\<rparr>" "\<not> allowed r"
    using touch_spec(2)[OF wf e] res by (auto simp: check_existing_def)
  then show ?thesis by (auto simp: att_step_def att_def)
next
  case True
  let ?e1 = "e\<lparr>en_recency := li_next_recency l\<rparr>"
  let ?l1 = "l\<lparr>li_next_recency := li_next_recency l + 1,
        li_entries := bt_insert d ?e1 (li_entries l),
        li_recency := bs_insert (li_next_recency l, d) (bs_remove (en_recency e, d) (li_recency l))\<rparr>"
  have t: "touch l d = (Ok (), ?l1)" using touch_spec(2)[OF wf e] True by auto
  have c: "li_config l = c" using limiter_wfD(2)[OF wf] .
  obtain e2 where ce: "check_entry (policy_of c (fst d)) now ?e1 = (r, e2)"
    and l': "l' = ?l1\<lparr>li_entries := bt_insert d e2 (li_entries ?l1)\<rparr>"
    using res by (auto simp: check_existing_def t c bt_get_insert split: prod.splits)
  have ok: "entry_ok c now d ?e1" using limiter_wf_entryD[OF wf e] now by auto
  have "att l d = en_attempts e" "att l' d = en_attempts e2"
    using e by (simp_all add: att_def l' bt_get_insert)
  with check_entry_att[OF ok w ce limiter_wfD(1)[OF wf]] have "att_step c d now (allowed r) l l'"
    by (intro att_stepI) (auto simp: att_def l' bt_get_insert)
  then show ?thesis by (simp add: l')
qed

lemma evict_lru_kept:
  "li_capacity_evictions (evict_lru l) = 0 \<Longrightarrow> evict_lru l = l"
  by (simp add: evict_lru_def saturating_add_u64_def u64_max_def split: option.splits)

lemma evict_lru_evictions: "li_capacity_evictions l \<le> u64_max \<Longrightarrow>
  li_capacity_evictions l \<le> li_capacity_evictions (evict_lru l) \<and>
  li_capacity_evictions (evict_lru l) \<le> u64_max"
  by (simp add: evict_lru_def saturating_add_u64_def split: option.splits)

lemma check_new_att:
  assumes wf: "limiter_wf c l" and now: "li_last_now l = Some now"
    and absent: "bt_get (li_entries l) d = None" and res: "check_new l d now = (r, l')"
    and none: "li_capacity_evictions l' = 0"
  shows "att_step c d now (allowed r) l l' \<and> li_capacity_evictions l = 0"
proof -
  define l1 where "l1 = (if length (bt_keys (li_entries l)) \<ge> lc_entry_cap (li_config l)
                then evict_lru l else l)"
  have le: "li_next_recency l1 \<le> u64_max" using limiter_wfD(7)[OF wf] by (simp add: l1_def)
  have "li_capacity_evictions l' = li_capacity_evictions l1"
    using take_recency_cases[OF le] res by (auto simp: check_new_def l1_def[symmetric])
  then have l1: "l1 = l" using none evict_lru_kept by (auto simp: l1_def split: if_splits)
  have pol: "1 \<le> op_limit (policy_of c (fst d))"
    using policy_of_ok[OF limiter_wfD(1)[OF wf], of "fst d"] by simp
  have d: "att l d = []" using absent by (simp add: att_def)
  have eq: "check_new l d now = bind_st (take_recency l) (\<lambda>r l2.
           ((if op_limit (policy_of (li_config l2) (fst d)) \<ge> 1
             then Ok (Allowed (op_limit (policy_of (li_config l2) (fst d)) - 1)) else Panic),
            l2\<lparr>li_entries := bt_insert d
                  \<lparr>en_attempts = [now], en_cooldown_until = None, en_recency = r\<rparr> (li_entries l2),
               li_recency := bs_insert (r, d) (li_recency l2)\<rparr>))"
    using l1 by (simp add: check_new_def l1_def[symmetric])
  have "att_step c d now (allowed r) l l'"
    using take_recency_cases[OF limiter_wfD(7)[OF wf]]
  proof (elim disjE conjE)
    assume "take_recency l = (Err TimeOverflow, l)"
    with res eq show ?thesis by (intro att_stepI) auto
  next
    assume "take_recency l = (Ok (li_next_recency l), l\<lparr>li_next_recency := li_next_recency l + 1\<rparr>)"
    with res eq limiter_wfD(2)[OF wf] pol show ?thesis
      by (intro att_stepI) (auto simp: att_def bt_get_insert absent limit_of_def)
  qed
  with none \<open>li_capacity_evictions l' = li_capacity_evictions l1\<close> l1 show ?thesis by simp
qed

lemma observe_time_att: "att (snd (observe_time l now)) = att l"
  by (simp add: att_def[abs_def] observe_time_def Let_def)

lemma sweep_inner_evictions:
  "limiter_wf c l \<Longrightarrow> sweep_inner l now = (k, l') \<Longrightarrow>
   li_capacity_evictions l' = li_capacity_evictions l"
  using sweep_inner_spec(6)[OF limiter_wfD(3), of c l now k l'] by (metis limiter.ext_inject limiter.surjective limiter.update_convs(3,4))

lemma touch_fields:
  "li_last_now (snd (touch l d)) = li_last_now l \<and> li_operator_key (snd (touch l d)) = li_operator_key l"
  by (simp add: touch_def take_recency_def split: option.splits)

lemma bind_st_snd:
  assumes "P (snd x)" and "\<And>a s. P s \<Longrightarrow> P (snd (f a s))"
  shows "P (snd (bind_st x f))"
  using assms by (cases x; cases "fst x") auto

lemma check_existing_fields:
  "li_last_now (snd (check_existing l d now)) = li_last_now l \<and>
   li_operator_key (snd (check_existing l d now)) = li_operator_key l"
  unfolding check_existing_def
  by (rule bind_st_snd) (simp_all add: touch_fields case_prod_beta Let_def split: option.splits)

lemma check_new_fields:
  "li_last_now (snd (check_new l d now)) = li_last_now l \<and>
   li_operator_key (snd (check_new l d now)) = li_operator_key l"
  unfolding check_new_def Let_def
  by (rule bind_st_snd) (simp_all add: take_recency_def split: option.splits)

lemma att_step_before:
  assumes "att_step c d n a l2 l'"
    and "\<And>y m. n \<le> m \<Longrightarrow> win (window_of c y) m (att l2 y) = win (window_of c y) m (att l y)"
  shows "att_step c d n a l l'"
  using assms by (simp add: att_step_def)

lemma check_att:
  assumes wf: "limiter_wf c l" and w: "\<And>d. window_of c d \<le> COOLDOWN_SECONDS"
    and res: "check hmac l operation address now = (r, l')"
    and none: "li_capacity_evictions l' = 0" and ne: "address \<noteq> []"
    and n: "n = fst (observe_time l now)" and d: "d = checked_dimension hmac l operation address"
  shows "att_step c d n (allowed r) l l' \<and> li_capacity_evictions l = 0 \<and> li_last_now l' = Some n"
proof -
  obtain l1 where obs: "observe_time l now = (n, l1)" using n by (metis prod.collapse)
  note O = observe_time_spec[OF obs]
  have wf1: "limiter_wf c l1" using observe_time_wf[OF wf obs] .
  have n1: "li_last_now l1 = Some n" using O by blast
  have a1: "att l1 = att l" using observe_time_att[of l now] obs by simp
  obtain k ls where sw: "sweep_inner l1 n = (k, ls)" by fastforce
  define l2 where "l2 = (if (case li_last_sweep l1 of
                        None \<Rightarrow> True
                      | Some prev \<Rightarrow>
                          saturating_sub_u64 n prev \<ge> lc_sweep_interval_seconds (li_config l1))
                  then ls\<lparr>li_last_sweep := Some n\<rparr> else l1)"
  have wf2: "limiter_wf c l2" and n2: "li_last_now l2 = Some n"
    and ev2: "li_capacity_evictions l2 = li_capacity_evictions l"
    and key: "li_operator_key l2 = li_operator_key l"
    using wf1 n1 sweep_inner_wf[OF wf1 n1 sw] sweep_inner_last_now[OF wf1 sw]
      sweep_inner_evictions[OF wf1 sw] O
    by (auto simp: l2_def last_sweep_wf)
  have a2: "win (window_of c y) m (att l2 y) = win (window_of c y) m (att l y)" if "n \<le> m" for y m
    using sweep_inner_att[OF wf1 n1 w that sw] a1 by (simp add: l2_def)
  have "d = (operation, peer_key hmac l2 address)"
    using d key by (simp add: checked_dimension_def peer_key_def)
  then have ch: "check hmac l operation address now =
      (if bt_contains (li_entries l2) d then check_existing l2 d n else check_new l2 d n)"
    using ne by (simp add: check_def obs Let_def l2_def sw)
  show ?thesis
  proof (cases "bt_get (li_entries l2) d")
    case None
    with ch res have cn: "check_new l2 d n = (r, l')" by (simp add: bt_contains_def)
    from check_new_att[OF wf2 n2 None cn none] att_step_before[OF _ a2] ev2 check_new_fields[of l2 d n] n2 cn
    show ?thesis by simp
  next
    case (Some e)
    with ch res have cn: "check_existing l2 d n = (r, l')" by (simp add: bt_contains_def)
    from check_existing_att[OF wf2 n2 Some w cn] att_step_before[OF _ a2] ev2 none
      check_existing_fields[of l2 d n] n2 cn
    show ?thesis by simp
  qed
qed

section \<open>The history and the stored attempts agree\<close>

definition in_window :: "u64 \<Rightarrow> u64 \<Rightarrow> u64 list \<Rightarrow> u64 list" where
  "in_window t w xs = filter (\<lambda>s. t \<le> s \<and> s < t + w) xs"

definition history_ok :: "limiter_config \<Rightarrow> limiter \<Rightarrow> attempt_log \<Rightarrow> bool" where
  "history_ok c l log \<longleftrightarrow>
     (\<forall>n d. li_last_now l = Some n \<longrightarrow> (\<forall>m \<ge> n. win (window_of c d) m (log d) = win (window_of c d) m (att l d))) \<and>
     (\<forall>d s. s \<in> set (log d) \<longrightarrow> (\<exists>n. li_last_now l = Some n \<and> s \<le> n)) \<and>
     (\<forall>d t. length (in_window t (window_of c d) (log d)) \<le> limit_of c d)"

lemma history_ok_fresh: "history_ok c l log \<Longrightarrow> li_last_now l = None \<Longrightarrow> log d = []"
  unfolding history_ok_def by (metis list.set_intros(1) neq_Nil_conv option.distinct(1))

lemma history_ok_past:
  "history_ok c l log \<Longrightarrow> s \<in> set (log d) \<Longrightarrow> \<exists>n. li_last_now l = Some n \<and> s \<le> n"
  unfolding history_ok_def by blast

lemma history_ok_quiet:
  assumes ok: "history_ok c l log" and n: "li_last_now l' = Some n"
    and mono: "\<And>p. li_last_now l = Some p \<Longrightarrow> p \<le> n"
    and first: "li_last_now l = None \<Longrightarrow> (\<forall>d. att l d = [])"
    and att: "\<And>d m. n \<le> m \<Longrightarrow> win (window_of c d) m (att l' d) = win (window_of c d) m (att l d)"
  shows "history_ok c l' log"
proof -
  have "win (window_of c d) m (log d) = win (window_of c d) m (att l' d)" if "n \<le> m" for d m
  proof (cases "li_last_now l")
    case None
    with history_ok_fresh[OF ok] have "log d = []" by blast
    with first[OF None] att[OF that] show ?thesis by simp
  next
    case (Some p)
    with mono that have "p \<le> m" by force
    with ok Some att[OF that] show ?thesis by (simp add: history_ok_def)
  qed
  moreover have "\<exists>n. li_last_now l' = Some n \<and> s \<le> n" if "s \<in> set (log d)" for d s
    using history_ok_past[OF ok that] mono n order_trans by blast
  ultimately show ?thesis using ok n by (simp add: history_ok_def)
qed

lemma in_window_win:
  assumes "t \<le> n" and "n < t + w" and "\<forall>s \<in> set xs. s \<le> n"
  shows "length (in_window t w xs) \<le> length (win w n xs)"
  using assms(3)
proof (induction xs)
  case Nil
  then show ?case by (simp add: in_window_def)
next
  case (Cons s xs)
  then show ?case using assms(1,2) by (auto simp: in_window_def win_def)
qed

lemma history_ok_step:
  assumes ok: "history_ok c l log" and n: "li_last_now l' = Some n"
    and mono: "\<And>p. li_last_now l = Some p \<Longrightarrow> p \<le> n"
    and first: "li_last_now l = None \<Longrightarrow> (\<forall>d. att l d = [])"
    and step: "att_step c d n True l l'"
  shows "history_ok c l' (log(d := log d @ [n]))"
proof -
  have old: "win (window_of c y) m (log y) = win (window_of c y) m (att l y)" if "n \<le> m" for y m
  proof (cases "li_last_now l")
    case None
    with history_ok_fresh[OF ok] have "log y = []" by blast
    with first[OF None] show ?thesis by simp
  next
    case (Some p)
    with mono that have "p \<le> m" by force
    with ok Some show ?thesis by (simp add: history_ok_def)
  qed
  have past: "s \<le> n" if "s \<in> set (log y)" for y s
    using history_ok_past[OF ok that] mono order_trans by blast
  have room: "length (win (window_of c d) n (log d)) < limit_of c d"
    using step old[of n d] by (simp add: att_step_def)
  have "length (in_window t (window_of c d) (log d @ [n])) \<le> limit_of c d" for t
  proof (cases "t \<le> n \<and> n < t + window_of c d")
    case True
    with in_window_win[of t n "window_of c d" "log d"] past[of _ d] room show ?thesis
      by (auto simp: in_window_def)
  next
    case False
    with ok show ?thesis by (auto simp: in_window_def history_ok_def)
  qed
  with ok have "length (in_window t (window_of c y) ((log(d := log d @ [n])) y)) \<le> limit_of c y" for y t
    by (simp add: history_ok_def)
  moreover have "win (window_of c y) m ((log(d := log d @ [n])) y) = win (window_of c y) m (att l' y)"
    if "n \<le> m" for y m
    using step old[OF that] that by (auto simp: att_step_def)
  moreover have "s \<le> n" if "s \<in> set ((log(d := log d @ [n])) y)" for s y
    using that past[of s y] past[of s d] by (auto split: if_splits)
  ultimately show ?thesis using n by (auto simp: history_ok_def)
qed

lemma limiter_wf_fresh: "limiter_wf c l \<Longrightarrow> li_last_now l = None \<Longrightarrow> \<forall>d. att l d = []"
  using limiter_wf_entryD[of c l] by (auto simp: att_def split: option.splits)

lemma sweep_evictions:
  assumes wf: "limiter_wf c l"
  shows limiter_sweep_evictions:
      "li_capacity_evictions (snd (limiter_sweep l now)) = li_capacity_evictions l"
    and sweep_if_due_evictions:
      "li_capacity_evictions (snd (sweep_if_due l now)) = li_capacity_evictions l"
proof -
  obtain n l1 where obs: "observe_time l now = (n, l1)" by fastforce
  obtain k ls where sw: "sweep_inner l1 n = (k, ls)" by fastforce
  from sweep_inner_evictions[OF observe_time_wf[OF wf obs] sw] observe_time_spec[OF obs]
  show "li_capacity_evictions (snd (limiter_sweep l now)) = li_capacity_evictions l"
    "li_capacity_evictions (snd (sweep_if_due l now)) = li_capacity_evictions l"
    by (auto simp: limiter_sweep_def sweep_if_due_def obs sw)
qed

lemma sweep_history:
  assumes wf: "limiter_wf c l" and w: "\<And>d. window_of c d \<le> COOLDOWN_SECONDS"
    and ok: "history_ok c l log" and l': "l' = snd (limiter_sweep l now) \<or> l' = snd (sweep_if_due l now)"
  shows "history_ok c l' log \<and> li_capacity_evictions l' = li_capacity_evictions l"
proof -
  obtain n l1 where obs: "observe_time l now = (n, l1)" by fastforce
  obtain k ls where sw: "sweep_inner l1 n = (k, ls)" by fastforce
  note O = observe_time_spec[OF obs]
  have wf1: "limiter_wf c l1" using observe_time_wf[OF wf obs] .
  have n1: "li_last_now l1 = Some n" using O by blast
  have a1: "att l1 = att l" using observe_time_att[of l now] obs by simp
  have h1: "history_ok c l1 log"
    using history_ok_quiet[OF ok n1 _ limiter_wf_fresh[OF wf]] O a1 by simp
  have "history_ok c (ls\<lparr>li_last_sweep := Some n\<rparr>) log"
    using history_ok_quiet[OF ok _ _ limiter_wf_fresh[OF wf]] sweep_inner_att[OF wf1 n1 w _ sw] O a1
      sweep_inner_last_now[OF wf1 sw]
    by simp
  with h1 l' O sweep_inner_evictions[OF wf1 sw] show ?thesis
    by (auto simp: limiter_sweep_def sweep_if_due_def obs sw split: if_splits)
qed

lemma limiter_reach_history:
  assumes "limiter_reach hmac c l log" and typed: "typed_config c"
    and w: "\<And>d. window_of c d \<le> COOLDOWN_SECONDS"
    and "li_capacity_evictions l = 0"
  shows "history_ok c l log"
  using assms(1,4)
proof (induction rule: limiter_reach.induct)
  case (reach_new key l)
  then show ?case by (auto simp: limiter_new_def history_ok_def in_window_def att_def split: if_splits)
next
  case (reach_check l log operation address now r l' d n)
  have wf: "limiter_wf c l" using limiter_reach_wf[OF reach_check.hyps(1) typed] .
  show ?case
  proof (cases "address = []")
    case True
    with reach_check show ?thesis by (auto simp: check_def)
  next
    case False
    note C = check_att[OF wf w reach_check.hyps(2) reach_check.prems False reach_check.hyps(4,3)]
    have h: "history_ok c l log" using reach_check.IH C by simp
    obtain l1 where "observe_time l now = (n, l1)" using reach_check.hyps(4) by (metis prod.collapse)
    from observe_time_spec[OF this] have mono: "p \<le> n" if "li_last_now l = Some p" for p
      using that by blast
    show ?thesis
    proof (cases "allowed r")
      case True
      with C have "li_last_now l' = Some n" "att_step c d n True l l'" by simp_all
      from history_ok_step[OF h this(1) mono limiter_wf_fresh[OF wf] this(2)] True show ?thesis
        by (simp only: if_True)
    next
      case False
      with C history_ok_quiet[OF h _ mono limiter_wf_fresh[OF wf]] show ?thesis
        by (simp add: att_step_def)
    qed
  qed
next
  case (reach_sweep l log now k l')
  have wf: "limiter_wf c l" using limiter_reach_wf[OF reach_sweep.hyps(1) typed] .
  have l': "l' = snd (limiter_sweep l now)" using reach_sweep.hyps(2) by simp
  have "li_capacity_evictions l = 0"
    using reach_sweep.prems l' limiter_sweep_evictions[OF wf] by simp
  with sweep_history[OF wf w reach_sweep.IH] l' show ?case by blast
next
  case (reach_due l log now k l')
  have wf: "limiter_wf c l" using limiter_reach_wf[OF reach_due.hyps(1) typed] .
  have l': "l' = snd (sweep_if_due l now)" using reach_due.hyps(2) by simp
  have "li_capacity_evictions l = 0"
    using reach_due.prems l' sweep_if_due_evictions[OF wf] by simp
  with sweep_history[OF wf w reach_due.IH] l' show ?case by blast
qed


section \<open>The admission rule\<close>

definition cooling :: "u64 \<Rightarrow> limiter \<Rightarrow> dimension \<Rightarrow> bool" where
  "cooling now l d \<longleftrightarrow> (\<exists>e r. bt_get (li_entries l) d = Some e \<and> en_cooldown_until e = Some r \<and> now < r)"

lemma check_entry_allowed_iff:
  assumes ok: "entry_ok c now d e" and w: "window_of c d \<le> COOLDOWN_SECONDS"
    and res: "check_entry (policy_of c (fst d)) now e = (r, e')" and config: "config_ok c"
  shows "allowed r \<longleftrightarrow> \<not> (\<exists>t. en_cooldown_until e = Some t \<and> now < t) \<and>
    length (win (window_of c d) now (en_attempts e)) < limit_of c d"
proof (cases "\<exists>t. en_cooldown_until e = Some t \<and> now < t")
  case True
  then obtain t where "en_cooldown_until e = Some t" "now < t" by blast
  with res have "r = Ok (Cooldown t)" by (auto simp: check_entry_def)
  with True show ?thesis by simp
next
  case False
  define e1 where "e1 = (case en_cooldown_until e of
      None \<Rightarrow> e
    | Some retry_at \<Rightarrow> if now < retry_at then e else e\<lparr>en_cooldown_until := None, en_attempts := []\<rparr>)"
  have e1: "en_cooldown_until e1 = None" "entry_ok c now d e1"
    using False ok by (auto simp: e1_def entry_ok_def split: option.splits)
  have w1: "win (window_of c d) now (en_attempts e1) = win (window_of c d) now (en_attempts e)"
    using win_cooled[OF ok _ _ w, of _ now] False by (auto simp: e1_def split: option.splits)
  let ?e2 = "prune_attempts e1 (op_window_seconds (policy_of c (fst d))) now"
  have len: "en_attempts ?e2 = win (window_of c d) now (en_attempts e)"
    using w1 by (simp add: prune_attempts_eq[OF e1(2)] win_def window_of_def)
  have "r \<noteq> Panic" using check_entry_not_panic[OF ok refl config] res by simp
  then have "allowed r \<longleftrightarrow> length (en_attempts ?e2) < op_limit (policy_of c (fst d))"
    using res e1(1)
    by (auto simp: check_entry_def e1_def[symmetric] Let_def not_le[symmetric] split: if_splits option.splits)
  with False len show ?thesis by (simp add: limit_of_def)
qed

lemma check_existing_allowed_iff:
  assumes wf: "limiter_wf c l" and now: "li_last_now l = Some now"
    and e: "bt_get (li_entries l) d = Some e" and w: "window_of c d \<le> COOLDOWN_SECONDS"
    and res: "check_existing l d now = (r, l')" and lt: "li_next_recency l < u64_max"
  shows "allowed r \<longleftrightarrow> \<not> cooling now l d \<and>
    length (win (window_of c d) now (att l d)) < limit_of c d"
proof -
  let ?e1 = "e\<lparr>en_recency := li_next_recency l\<rparr>"
  have ok: "entry_ok c now d ?e1" using limiter_wf_entryD[OF wf e] now by auto
  have c: "li_config l = c" using limiter_wfD(2)[OF wf] .
  obtain e2 where ce: "check_entry (policy_of c (fst d)) now ?e1 = (r, e2)"
    using res e lt by (auto simp: check_existing_def touch_def take_recency_def machine_int c
        bt_get_insert split: prod.splits)
  from check_entry_allowed_iff[OF ok w ce limiter_wfD(1)[OF wf]] e show ?thesis
    by (simp add: cooling_def att_def)
qed

lemma sweep_inner_cooling:
  assumes wf: "limiter_wf c l" and now: "li_last_now l = Some now"
    and res: "sweep_inner l now = (k, l')"
  shows "cooling now l' d \<longleftrightarrow> cooling now l d"
proof (cases "bt_get (li_entries l) d")
  case None
  with sweep_inner_spec(1)[OF limiter_wfD(3)[OF wf] res, of d] show ?thesis by (simp add: cooling_def)
next
  case (Some e)
  obtain e' gone where se: "sweep_entry c now d e = (e', gone)" by fastforce
  have g: "bt_get (li_entries l') d = (if gone then None else Some e')"
    using sweep_inner_spec(1)[OF limiter_wfD(3)[OF wf] res, of d] limiter_wfD(2)[OF wf] Some se
    by (simp add: swept_entry_def)
  have "en_cooldown_until e' = en_cooldown_until e"
    "gone \<Longrightarrow> \<not> (\<exists>t. en_cooldown_until e = Some t \<and> now < t)"
    using se by (auto simp: sweep_entry_def Let_def split: option.splits)
  with Some g show ?thesis by (auto simp: cooling_def)
qed

lemma check_allowed_iff:
  assumes wf: "limiter_wf c l" and w: "\<And>d. window_of c d \<le> COOLDOWN_SECONDS"
    and res: "check hmac l operation address now = (r, l')" and ne: "address \<noteq> []"
    and lt: "li_next_recency l < u64_max"
    and n: "n = fst (observe_time l now)" and d: "d = checked_dimension hmac l operation address"
  shows "allowed r \<longleftrightarrow> \<not> cooling n l d \<and> length (win (window_of c d) n (att l d)) < limit_of c d"
proof -
  obtain l1 where obs: "observe_time l now = (n, l1)" using n by (metis prod.collapse)
  note O = observe_time_spec[OF obs]
  have wf1: "limiter_wf c l1" using observe_time_wf[OF wf obs] .
  have n1: "li_last_now l1 = Some n" using O by blast
  have a1: "att l1 = att l" using observe_time_att[of l now] obs by simp
  obtain k ls where sw: "sweep_inner l1 n = (k, ls)" by fastforce
  define l2 where "l2 = (if (case li_last_sweep l1 of
                        None \<Rightarrow> True
                      | Some prev \<Rightarrow>
                          saturating_sub_u64 n prev \<ge> lc_sweep_interval_seconds (li_config l1))
                  then ls\<lparr>li_last_sweep := Some n\<rparr> else l1)"
  have nr: "li_next_recency ls = li_next_recency l"
    by (subst sweep_inner_spec(6)[OF limiter_wfD(3)[OF wf1] sw]) (simp add: O)
  have wf2: "limiter_wf c l2" and n2: "li_last_now l2 = Some n"
    and key: "li_operator_key l2 = li_operator_key l" and lt2: "li_next_recency l2 < u64_max"
    using wf1 n1 sweep_inner_wf[OF wf1 n1 sw] sweep_inner_last_now[OF wf1 sw] O lt nr
    by (auto simp: l2_def last_sweep_wf)
  have a2: "win (window_of c d) n (att l2 d) = win (window_of c d) n (att l d)"
    using sweep_inner_att[OF wf1 n1 w order_refl sw] a1 by (simp add: l2_def)
  have c1: "cooling n l1 d = cooling n l d" using O by (simp add: cooling_def)
  have c2: "cooling n l2 d = cooling n l d"
    using sweep_inner_cooling[OF wf1 n1 sw, of d] c1 by (simp add: l2_def) (simp add: cooling_def)
  have "d = (operation, peer_key hmac l2 address)"
    using d key by (simp add: checked_dimension_def peer_key_def)
  then have ch: "check hmac l operation address now =
      (if bt_contains (li_entries l2) d then check_existing l2 d n else check_new l2 d n)"
    using ne by (simp add: check_def obs Let_def l2_def sw)
  show ?thesis
  proof (cases "bt_get (li_entries l2) d")
    case None
    have pol: "1 \<le> op_limit (policy_of c (fst d))"
      using policy_of_ok[OF limiter_wfD(1)[OF wf], of "fst d"] by simp
    have cn: "check_new l2 d n = (r, l')" using None ch res by (simp add: bt_contains_def)
    define l3 where "l3 = (if length (bt_keys (li_entries l2)) \<ge> lc_entry_cap (li_config l2)
                then evict_lru l2 else l2)"
    have "li_next_recency l3 < u64_max" "li_config l3 = c"
      using lt2 limiter_wfD(2)[OF wf2] by (simp_all add: l3_def)
    with cn pol have "allowed r"
      by (auto simp: check_new_def l3_def[symmetric] take_recency_def machine_int)
    moreover have "\<not> cooling n l2 d" "att l2 d = []" using None by (simp_all add: cooling_def att_def)
    ultimately show ?thesis using c2 a2 pol by (simp add: limit_of_def)
  next
    case (Some e)
    with ch res have "check_existing l2 d n = (r, l')" by (simp add: bt_contains_def)
    from check_existing_allowed_iff[OF wf2 n2 Some w this lt2] a2 c2 show ?thesis by simp
  qed
qed

end
