(* ===== verification/Limiter_Props.thy ===== *)
theory Limiter_Props
  imports Limiter_Window
begin

text \<open>
  What the limiter promises the relay: a bounded table and no panic, the sliding-window
  budget, an exact admission rule, least-recently-used eviction and the grouping of peer
  addresses. The last section shows what happens with a window longer than the cooldown.
\<close>

section \<open>Demonstration run\<close>

definition demo_hmac :: "bytes \<Rightarrow> bytes \<Rightarrow> bytes" where
  "demo_hmac key message = key @ drop 20 message"

definition demo_limits :: limiter_config where
  "demo_limits = limiter_config_new \<lparr>op_limit = 2, op_window_seconds = 60\<rparr> 3 30"

definition demo_peer :: bytes where
  "demo_peer = ascii ''192.0.2.7''"

fun demo_checks :: "limiter_config \<Rightarrow> u64 list \<Rightarrow> ((limit_decision, limiter_error) result) list \<times> limiter" where
  "demo_checks c [] = ([], (case limiter_new [7] c of Ok l \<Rightarrow> l))"
| "demo_checks c (t # ts) =
     (let (rs, l) = demo_checks c ts; (r, l') = check demo_hmac l OpPut demo_peer t
      in (r # rs, l'))"

lemma demo_checks_reach:
  assumes "\<exists>l. limiter_new [7] c = Ok l"
  shows "\<exists>log. limiter_reach demo_hmac c (snd (demo_checks c ts)) log"
proof (induction ts)
  case Nil
  then show ?case using assms limiter_reach.reach_new by fastforce
next
  case (Cons t ts)
  then obtain log where "limiter_reach demo_hmac c (snd (demo_checks c ts)) log" by blast
  from limiter_reach.reach_check[OF this _ refl refl, of OpPut demo_peer t] show ?case
    by (auto simp: case_prod_beta Let_def) (metis prod.collapse)
qed

lemma demo_peer_key:
  "peer_key demo_hmac l demo_peer = li_operator_key l @ [4, 192, 0, 2, 7]"
proof -
  have "peer_key_input demo_peer = [4, 192, 0, 2, 7]"
    by (simp only: peer_key_input_def demo_peer_def parse_ip_v4) simp
  then show ?thesis by (simp add: peer_key_def demo_hmac_def ascii_def)
qed

lemma demo_peer_nonempty: "demo_peer \<noteq> []"
  by (simp add: demo_peer_def ascii_def)

lemmas limiter_eval =
  demo_peer_key demo_peer_nonempty check_def observe_time_def sweep_inner_def List.map_filter_simps
  check_existing_def check_new_def touch_def take_recency_def check_entry_def sweep_entry_def
  prune_attempts_def policy_of_def machine_int u64_max_def u32_max_def bt_contains_def bt_get_def
  bt_keys_def bt_remove_def bs_remove_def evict_lru_def bs_first_def COOLDOWN_SECONDS_def
  limiter_new_def limiter_config_new_def demo_limits_def replicate_num Let_def

lemma demo_run: "fst (demo_checks demo_limits [70, 12, 11, 10]) =
  [Ok (Cooldown 312), Ok (Cooldown 312), Ok (Allowed 0), Ok (Allowed 1)]"
  by (simp add: limiter_eval)


section \<open>Bounds and safety\<close>

lemma demo_limits_ok: "\<exists>l. limiter_new [7] demo_limits = Ok l"
  by (simp add: limiter_eval)

lemma demo_limits_typed: "typed_config demo_limits"
  by (simp add: typed_config_def limiter_eval)

lemma policy_of_demo: "policy_of demo_limits o1 = \<lparr>op_limit = 2, op_window_seconds = 60\<rparr>"
  using op_index_less[of o1] by (simp add: policy_of_def demo_limits_def limiter_config_new_def)

text \<open>
  Whatever sequence of checks and sweeps has run, errors included, the table holds at most
  \<^verbatim>\<open>entry_cap\<close> dimensions, each with at most its policy's limit of attempts, and no
  further check panics (the \<^verbatim>\<open>expect\<close> calls and the unsigned subtraction of the source
  cannot fail).
\<close>

lemma limiter_bounded:
  assumes "limiter_reach hmac c l log" and "typed_config c"
  shows "entry_count l \<le> lc_entry_cap c \<and>
    (\<forall>d e. bt_get (li_entries l) d = Some e \<longrightarrow> length (en_attempts e) \<le> limit_of c d) \<and>
    fst (check hmac l operation address now) \<noteq> Panic"
proof -
  have wf: "limiter_wf c l" using limiter_reach_wf[OF assms] .
  have "length (en_attempts e) \<le> limit_of c d" if "bt_get (li_entries l) d = Some e" for d e
    using limiter_wf_entryD[OF wf that] by (auto simp: entry_ok_def limit_of_def)
  moreover have "fst (check hmac l operation address now) \<noteq> Panic"
    using check_wf[OF wf] by (metis prod.collapse)
  ultimately show ?thesis using limiter_wfD(8)[OF wf] by blast
qed

theorem limiter_bounded_witness:
  "entry_count (snd (demo_checks demo_limits [11, 10])) \<le> 3 \<and>
   fst (check demo_hmac (snd (demo_checks demo_limits [11, 10])) OpPut demo_peer 12) \<noteq> Panic"
proof -
  obtain log where "limiter_reach demo_hmac demo_limits (snd (demo_checks demo_limits [11, 10])) log"
    using demo_checks_reach[OF demo_limits_ok] by blast
  from limiter_bounded[OF this demo_limits_typed] show ?thesis
    by (simp add: demo_limits_def limiter_config_new_def)
qed

section \<open>The sliding window\<close>

text \<open>
  C23: As long as no dimension was evicted for capacity and no policy window exceeds the
  300-second cooldown, every dimension is accepted at most \<^verbatim>\<open>limit\<close> times in every
  interval of one window's length, over the whole history, clock reversals included.
\<close>

theorem sliding_window_budget:
  assumes "limiter_reach hmac c l log" and "typed_config c"
    and "\<And>y. window_of c y \<le> COOLDOWN_SECONDS" and "li_capacity_evictions l = 0"
  shows "length (in_window t (window_of c d) (log d)) \<le> limit_of c d"
  using limiter_reach_history[OF assms] by (simp add: history_ok_def)

theorem sliding_window_budget_witness:
  "\<exists>log. limiter_reach demo_hmac demo_limits (snd (demo_checks demo_limits [12, 11, 10])) log \<and>
     length (in_window 5 60 (log (OpPut, [7, 4, 192, 0, 2, 7]))) \<le> 2"
proof -
  obtain log where reach: "limiter_reach demo_hmac demo_limits (snd (demo_checks demo_limits [12, 11, 10])) log"
    using demo_checks_reach[OF demo_limits_ok] by blast
  have "li_capacity_evictions (snd (demo_checks demo_limits [12, 11, 10])) = 0"
    by (simp add: limiter_eval)
  from sliding_window_budget[OF reach demo_limits_typed _ this, of 5 "(OpPut, [7, 4, 192, 0, 2, 7])"] reach
  show ?thesis by (auto simp: window_of_def limit_of_def policy_of_demo COOLDOWN_SECONDS_def)
qed

text \<open>
  The admission rule is exact. With windows of at most 300 seconds and no eviction, a
  check of a non-empty address is accepted if and only if its dimension is not cooling down
  at the effective time and fewer than \<^verbatim>\<open>limit\<close> attempts were accepted within the last
  window. (The recency counter must not be exhausted: after 2^64 - 1 touches every check is
  answered with \<^verbatim>\<open>TimeOverflow\<close>.)
\<close>

lemma admission_rule:
  assumes "limiter_reach hmac c l log" and "typed_config c"
    and "\<And>y. window_of c y \<le> COOLDOWN_SECONDS" and "li_capacity_evictions l = 0"
    and "li_next_recency l < u64_max" and "address \<noteq> []"
    and "n = fst (observe_time l now)" and "d = checked_dimension hmac l operation address"
  shows "allowed (fst (check hmac l operation address now)) \<longleftrightarrow>
    \<not> cooling n l d \<and> length (filter (\<lambda>s. n - s < window_of c d) (log d)) < limit_of c d"
proof -
  have wf: "limiter_wf c l" using limiter_reach_wf[OF assms(1,2)] .
  obtain l1 where "observe_time l now = (n, l1)" using assms(7) by (metis prod.collapse)
  note O = observe_time_spec[OF this]
  note H = limiter_reach_history[OF assms(1-4)]
  have "win (window_of c d) n (log d) = win (window_of c d) n (att l d)"
  proof (cases "li_last_now l")
    case None
    with history_ok_fresh[OF H] limiter_wf_fresh[OF wf] show ?thesis by simp
  next
    case (Some p)
    with O H show ?thesis by (simp add: history_ok_def)
  qed
  moreover have "allowed (fst (check hmac l operation address now)) \<longleftrightarrow>
      \<not> cooling n l d \<and> length (win (window_of c d) n (att l d)) < limit_of c d"
    using check_allowed_iff[OF wf assms(3) _ assms(6,5,7,8)] by (metis prod.collapse)
  ultimately show ?thesis by (simp add: win_def)
qed

theorem admission_rule_witness:
  "\<exists>log. limiter_reach demo_hmac demo_limits (snd (demo_checks demo_limits [11, 10])) log \<and>
     (allowed (fst (check demo_hmac (snd (demo_checks demo_limits [11, 10])) OpPut demo_peer 12)) \<longleftrightarrow>
      \<not> cooling 12 (snd (demo_checks demo_limits [11, 10])) (OpPut, [7, 4, 192, 0, 2, 7]) \<and>
      length (filter (\<lambda>s. 12 - s < 60) (log (OpPut, [7, 4, 192, 0, 2, 7]))) < 2)"
proof -
  let ?l = "snd (demo_checks demo_limits [11, 10])"
  obtain log where reach: "limiter_reach demo_hmac demo_limits ?l log"
    using demo_checks_reach[OF demo_limits_ok] by blast
  have l: "li_capacity_evictions ?l = 0" "li_next_recency ?l < u64_max"
    "12 = fst (observe_time ?l 12)" "(OpPut, [7, 4, 192, 0, 2, 7]) = checked_dimension demo_hmac ?l OpPut demo_peer"
    by (simp_all add: limiter_eval checked_dimension_def)
  have w: "window_of demo_limits y \<le> COOLDOWN_SECONDS" for y
    by (simp add: window_of_def policy_of_demo COOLDOWN_SECONDS_def)
  from admission_rule[OF reach demo_limits_typed w l(1,2) demo_peer_nonempty l(3,4)] reach
  show ?thesis by (auto simp: window_of_def limit_of_def policy_of_demo)
qed

section \<open>Eviction\<close>

text \<open>
  When a new dimension arrives at a full table, the least recently used dimension makes
  room: it has the smallest recency stamp, it alone disappears, and the eviction is counted.
\<close>

lemma eviction_is_lru:
  assumes "limiter_wf c l" and "li_next_recency l < u64_max" and "bt_get (li_entries l) d0 \<noteq> None"
  shows "\<exists>victim e. bt_get (li_entries l) victim = Some e \<and>
    (\<forall>d e'. bt_get (li_entries l) d = Some e' \<longrightarrow> en_recency e \<le> en_recency e') \<and>
    bt_get (li_entries (evict_lru l)) = (bt_get (li_entries l))(victim := None) \<and>
    li_capacity_evictions (evict_lru l) = min (li_capacity_evictions l + 1) u64_max"
proof -
  note D = limiter_wfD[OF assms(1)]
  have ix: "set (li_recency l) = index_of (li_entries l)" using D(6) assms(2) .
  obtain e0 where "bt_get (li_entries l) d0 = Some e0" using assms(3) by blast
  then have "set (li_recency l) \<noteq> {}" unfolding ix by (auto simp: index_of_def)
  then obtain v where v: "bs_first (li_recency l) = Some v"
    using bs.first_None[OF D(4)] by (cases "bs_first (li_recency l)") auto
  note least = bs.first_least[OF D(4) v]
  then obtain e where e: "bt_get (li_entries l) (snd v) = Some e" "fst v = en_recency e"
    using ix index_of_fst by blast
  have "en_recency e \<le> en_recency e'" if "bt_get (li_entries l) d = Some e'" for d e'
  proof -
    have "(en_recency e', d) \<in> set (li_recency l)" using that unfolding ix by (auto simp: index_of_def)
    with least have "v \<le> (en_recency e', d)" by blast
    then show ?thesis using e(2) by (cases v) auto
  qed
  with e v show ?thesis
    by (intro exI[of _ "snd v"] exI[of _ e])
      (simp add: evict_lru_def bt_get_remove saturating_add_u64_def)
qed

theorem eviction_is_lru_witness:
  "\<exists>victim e. bt_get (li_entries (snd (demo_checks demo_limits [10]))) victim = Some e \<and>
    bt_get (li_entries (evict_lru (snd (demo_checks demo_limits [10])))) =
      (bt_get (li_entries (snd (demo_checks demo_limits [10]))))(victim := None)"
proof -
  let ?l = "snd (demo_checks demo_limits [10])"
  obtain log where reach: "limiter_reach demo_hmac demo_limits ?l log"
    using demo_checks_reach[OF demo_limits_ok] by blast
  have "li_next_recency ?l < u64_max" "bt_get (li_entries ?l) (OpPut, [7, 4, 192, 0, 2, 7]) \<noteq> None"
    by (simp_all add: limiter_eval)
  from eviction_is_lru[OF limiter_reach_wf[OF reach demo_limits_typed] this] show ?thesis by blast
qed

section \<open>Peer groups\<close>

text \<open>The group of addresses that share a budget, as the comments of the source describe it.\<close>

datatype peer_group = GroupV4 bytes | GroupV6Prefix bytes | GroupOther bytes

definition peer_group_of :: "bytes \<Rightarrow> peer_group" where
  "peer_group_of address =
     (case parse_ip address of
        Some (V4 q) \<Rightarrow> GroupV4 q
      | Some (V6 q) \<Rightarrow> (if take 12 q = replicate 10 0 @ [255, 255] then GroupV4 (drop 12 q)
                        else GroupV6Prefix (take 8 q))
      | None \<Rightarrow> GroupOther address)"

text \<open>
  Two addresses are keyed alike exactly when they belong to one group: an IPv4 address and
  its IPv4-mapped IPv6 form are one peer, other IPv6 addresses are grouped by their /64
  prefix, and an unparseable address stands for itself. An IPv4 peer is never confused with
  an IPv6 prefix or a raw address.
\<close>

lemma peer_key_groups:
  "peer_key_input a = peer_key_input b \<longleftrightarrow> peer_group_of a = peer_group_of b"
proof -
  have input: "peer_key_input x = (case peer_group_of x of
      GroupV4 q \<Rightarrow> 4 # q | GroupV6Prefix q \<Rightarrow> 6 # q | GroupOther q \<Rightarrow> 0 # q)" for x
    using parse_ip_length(2)[of x]
    by (auto simp: peer_key_input_def peer_group_of_def to_ipv4_mapped_def
        split: option.splits ip_addr.splits)
  show ?thesis unfolding input
    by (auto split: peer_group.splits)
qed

section \<open>Windows longer than the cooldown\<close>

definition long_window :: limiter_config where
  "long_window = limiter_config_new \<lparr>op_limit = 1, op_window_seconds = 1000\<rparr> 3 3000"

text \<open>
  A policy of one attempt per 1000 seconds accepts two attempts 301 seconds apart once a
  refusal in between has started a cooldown: leaving the cooldown clears the attempts.
\<close>

lemma long_window_over_budget:
  "fst (demo_checks long_window [301, 1, 0]) = [Ok (Allowed 0), Ok (Cooldown 301), Ok (Allowed 0)]"
  by (simp add: long_window_def limiter_eval)

end
