(* ===== verification/Observability.thy ===== *)
theory Observability
  imports Limiter
begin

text \<open>
  The metric accumulator of \<^verbatim>\<open>src/src/observability.rs\<close>: saturating counters over the
  closed dimensions operation and outcome, gauges, and the 80-percent alerts. The table of
  counters is an eight by ten array, here a list of rows.
\<close>

datatype relay_outcome =
    OutSuccess | OutInvalid | OutNotFound | OutConflict | OutClosed | OutCrowded | OutExpired
  | OutTooLarge | OutRateLimited | OutUnavailable

definition ALL_OUTCOMES :: "relay_outcome list" where
  "ALL_OUTCOMES =
     [OutSuccess, OutInvalid, OutNotFound, OutConflict, OutClosed, OutCrowded, OutExpired,
      OutTooLarge, OutRateLimited, OutUnavailable]"

fun outcome_index :: "relay_outcome \<Rightarrow> usize" where
  "outcome_index OutSuccess = 0"
| "outcome_index OutInvalid = 1"
| "outcome_index OutNotFound = 2"
| "outcome_index OutConflict = 3"
| "outcome_index OutClosed = 4"
| "outcome_index OutCrowded = 5"
| "outcome_index OutExpired = 6"
| "outcome_index OutTooLarge = 7"
| "outcome_index OutRateLimited = 8"
| "outcome_index OutUnavailable = 9"

record relay_log_event =
  ev_operation :: operation
  ev_outcome :: relay_outcome

record operation_metric =
  om_operation :: operation
  om_outcome :: relay_outcome
  om_count :: u64

record capacity_caps =
  cap_open_mailboxes :: u64
  cap_queue_bytes :: u64
  cap_limiter_entries :: u64

record relay_gauges =
  ga_open_mailboxes :: u64
  ga_queue_bytes :: u64
  ga_limiter_entries :: u64
  ga_limiter_clock_reversals :: u64

record capacity_alerts =
  al_open_mailboxes :: bool
  al_queue_bytes :: bool
  al_limiter_entries :: bool

record relay_metrics =
  me_operations :: "operation_metric list"
  me_gauges :: relay_gauges
  me_alerts :: capacity_alerts

record relay_observability =
  ob_caps :: capacity_caps
  ob_counters :: "u64 list list"
  ob_gauges :: relay_gauges

definition observability_new :: "capacity_caps \<Rightarrow> relay_observability" where
  "observability_new caps =
     \<lparr>ob_caps = caps, ob_counters = replicate 8 (replicate 10 0),
      ob_gauges = \<lparr>ga_open_mailboxes = 0, ga_queue_bytes = 0, ga_limiter_entries = 0,
                   ga_limiter_clock_reversals = 0\<rparr>\<rparr>"

definition counter :: "relay_observability \<Rightarrow> operation \<Rightarrow> relay_outcome \<Rightarrow> u64" where
  "counter ob operation outcome = ob_counters ob ! op_index operation ! outcome_index outcome"

definition record_outcome ::
  "relay_observability \<Rightarrow> operation \<Rightarrow> relay_outcome \<Rightarrow> relay_log_event \<times> relay_observability" where
  "record_outcome ob operation outcome =
     (let i = op_index operation; j = outcome_index outcome; row = ob_counters ob ! i
      in (\<lparr>ev_operation = operation, ev_outcome = outcome\<rparr>,
          ob\<lparr>ob_counters := (ob_counters ob)[i := row[j := saturating_add_u64 (row ! j) 1]]\<rparr>))"

definition set_gauges :: "relay_observability \<Rightarrow> relay_gauges \<Rightarrow> relay_observability" where
  "set_gauges ob gauges = ob\<lparr>ob_gauges := gauges\<rparr>"

text \<open>The source widens both factors to 128 bits, so the products never wrap.\<close>

definition at_eighty_percent :: "u64 \<Rightarrow> u64 \<Rightarrow> bool" where
  "at_eighty_percent v cap \<longleftrightarrow> cap \<noteq> 0 \<and> cap * 4 \<le> v * 5"

definition metrics :: "relay_observability \<Rightarrow> relay_metrics" where
  "metrics ob =
     \<lparr>me_operations = concat (map (\<lambda>operation. List.map_filter
         (\<lambda>outcome. if counter ob operation outcome \<noteq> 0
            then Some \<lparr>om_operation = operation, om_outcome = outcome,
                       om_count = counter ob operation outcome\<rparr>
            else None) ALL_OUTCOMES) ALL_OPERATIONS),
      me_gauges = ob_gauges ob,
      me_alerts =
        \<lparr>al_open_mailboxes = at_eighty_percent (ga_open_mailboxes (ob_gauges ob)) (cap_open_mailboxes (ob_caps ob)),
         al_queue_bytes = at_eighty_percent (ga_queue_bytes (ob_gauges ob)) (cap_queue_bytes (ob_caps ob)),
         al_limiter_entries = at_eighty_percent (ga_limiter_entries (ob_gauges ob)) (cap_limiter_entries (ob_caps ob))\<rparr>\<rparr>"

section \<open>The counters count\<close>

definition counters_ok :: "relay_observability \<Rightarrow> bool" where
  "counters_ok ob \<longleftrightarrow> length (ob_counters ob) = 8 \<and> (\<forall>row \<in> set (ob_counters ob). length row = 10)"

lemma outcome_index_inject: "outcome_index a = outcome_index b \<longleftrightarrow> a = b"
  by (cases a; cases b; simp)

lemma outcome_index_less: "outcome_index a < 10"
  by (cases a) auto

lemma counters_ok_new: "counters_ok (observability_new caps)"
  by (auto simp: counters_ok_def observability_new_def)

lemma counters_ok_record: "counters_ok ob \<Longrightarrow> counters_ok (snd (record_outcome ob p o1))"
  using op_index_less[of p]
  by (auto simp: counters_ok_def record_outcome_def Let_def dest!: in_set_conv_nth[THEN iffD1])
    (metis length_list_update nth_list_update_eq nth_list_update_neq nth_mem)

lemma counter_record:
  assumes "counters_ok ob"
  shows "counter (snd (record_outcome ob p o1)) q o2 =
    (if p = q \<and> o1 = o2 then saturating_add_u64 (counter ob p o1) 1 else counter ob q o2)"
proof -
  have "length (ob_counters ob ! op_index p) = 10" "op_index p < length (ob_counters ob)"
    using assms op_index_less[of p] by (auto simp: counters_ok_def)
  then show ?thesis
    using outcome_index_less[of o1] op_index_inject[of p q] outcome_index_inject[of o1 o2]
    by (auto simp: counter_def record_outcome_def Let_def nth_list_update)
qed

lemma counter_new: "counter (observability_new caps) p o1 = 0"
  using op_index_less[of p] outcome_index_less[of o1]
  by (simp add: counter_def observability_new_def)

fun record_all :: "relay_observability \<Rightarrow> (operation \<times> relay_outcome) list \<Rightarrow> relay_observability" where
  "record_all ob [] = ob"
| "record_all ob ((p, o1) # evs) = record_all (snd (record_outcome ob p o1)) evs"

lemma counters_ok_record_all: "counters_ok ob \<Longrightarrow> counters_ok (record_all ob evs)"
  by (induction ob evs rule: record_all.induct) (auto simp: counters_ok_record)

lemma counter_record_all:
  "counters_ok ob \<Longrightarrow> counter ob p o1 \<le> u64_max \<Longrightarrow>
   counter (record_all ob evs) p o1 = min (counter ob p o1 + count_list evs (p, o1)) u64_max"
  by (induction ob evs rule: record_all.induct)
    (auto simp: counter_record counters_ok_record saturating_add_u64_def min_def)

lemma in_metrics:
  "m \<in> set (me_operations (metrics ob)) \<longleftrightarrow>
     om_count m = counter ob (om_operation m) (om_outcome m) \<and> om_count m \<noteq> 0"
proof -
  have ops: "p \<in> set ALL_OPERATIONS" for p by (cases p) (simp_all add: ALL_OPERATIONS_def)
  have outs: "o1 \<in> set ALL_OUTCOMES" for o1 by (cases o1) (simp_all add: ALL_OUTCOMES_def)
  have "m \<in> set (me_operations (metrics ob)) \<longleftrightarrow>
      (\<exists>p o1. counter ob p o1 \<noteq> 0 \<and>
        m = \<lparr>om_operation = p, om_outcome = o1, om_count = counter ob p o1\<rparr>)"
    using ops outs by (auto simp: metrics_def in_map_filter split: if_splits)
  then show ?thesis by (cases m) auto
qed

text \<open>
  The metrics count exactly: after any sequence of recorded events a sample is reported
  for a dimension exactly when that dimension occurred, with its number of occurrences
  capped at the 64-bit maximum, and the gauges and caps are untouched by recording.
\<close>

lemma metrics_exact:
  "m \<in> set (me_operations (metrics (record_all (observability_new caps) evs))) \<longleftrightarrow>
     (om_operation m, om_outcome m) \<in> set evs \<and>
     om_count m = min (count_list evs (om_operation m, om_outcome m)) u64_max"
proof -
  have "counter (record_all (observability_new caps) evs) p o1 = min (count_list evs (p, o1)) u64_max" for p o1
    using counter_record_all[OF counters_ok_new, of caps p o1 evs] by (simp add: counter_new)
  moreover have "min (count_list evs x) u64_max \<noteq> 0 \<longleftrightarrow> x \<in> set evs" for x
    using count_list_0_iff[of evs x] by (auto simp: u64_max_def min_def)
  ultimately show ?thesis unfolding in_metrics by metis
qed

end
