(* ===== verification/Wire.thy ===== *)
theory Wire
  imports Wire_Types "HOL-Library.Multiset"
begin

text \<open>
  The recognisers and encoders of \<^verbatim>\<open>src/src/wire.rs\<close>. The CBOR reader (ciborium), the
  canonical writer (cbor2), the CDDL validator and the URL parser are libraries outside the
  repository; they are the fields of \<open>codec\<close>. The rules the validator is given are those of
  \<^verbatim>\<open>src/schemas/pairing-v1.cddl\<close>; what a rule accepts is decided by the library, so \<open>cd_rule\<close> is the
  validator applied to the schema, and the theorems hold for any answers it gives. Text is a list
  of characters standing for its UTF-8 octets.
\<close>

section \<open>The outside codec\<close>

record parsed_url =
  url_username :: string
  url_password :: "string option"
  url_query :: "string option"
  url_fragment :: "string option"
  url_path :: string
  url_origin :: string

record codec =
  cd_read :: "bytes \<Rightarrow> (cbor \<times> usize) option"
  cd_canonical :: "cbor \<Rightarrow> bytes option"
  cd_rule :: "string \<Rightarrow> (cbor \<Rightarrow> bool) option"
  cd_url :: "string \<Rightarrow> parsed_url option"

section \<open>Recognition\<close>

function (sequential) has_duplicate_key :: "codec \<Rightarrow> cbor \<Rightarrow> (bool, recognition_error) result"
  and any_duplicate :: "codec \<Rightarrow> cbor list \<Rightarrow> (bool, recognition_error) result"
  and map_duplicate :: "codec \<Rightarrow> bytes set \<Rightarrow> (cbor \<times> cbor) list \<Rightarrow> (bool, recognition_error) result" where
  "has_duplicate_key C (CArray items) = any_duplicate C items"
| "has_duplicate_key C (CMap entries) = map_duplicate C {} entries"
| "has_duplicate_key C (CTag t item) = has_duplicate_key C item"
| "has_duplicate_key C _ = Ok False"
| "any_duplicate C [] = Ok False"
| "any_duplicate C (item # items) =
     bind_result (has_duplicate_key C item) (\<lambda>d. if d then Ok True else any_duplicate C items)"
| "map_duplicate C keys [] = Ok False"
| "map_duplicate C keys ((key, item) # entries) =
     bind_result (ok_or NonDeterministic (cd_canonical C key)) (\<lambda>canonical_key.
       if canonical_key \<in> keys then Ok True
       else bind_result (has_duplicate_key C key) (\<lambda>d1.
         if d1 then Ok True
         else bind_result (has_duplicate_key C item) (\<lambda>d2.
           if d2 then Ok True
           else map_duplicate C (insert canonical_key keys) entries)))"
  by pat_completeness auto
termination
  by (relation "measure (case_sum (\<lambda>(C, v). size v) (case_sum (\<lambda>(C, items). size_list size items)
        (\<lambda>(C, keys, entries). size_list (size_prod size size) entries)))") auto

definition recognise_value :: "codec \<Rightarrow> bytes \<Rightarrow> string \<Rightarrow> (cbor, recognition_error) result" where
  "recognise_value C input rule =
     bind_result (ok_or MalformedCbor (cd_read C input)) (\<lambda>(v, position).
       if position \<noteq> length input then Err TrailingBytes
       else bind_result
         (case cd_canonical C v of
            Some canonical \<Rightarrow> if canonical \<noteq> input then Err NonDeterministic else Ok ()
          | None \<Rightarrow> bind_result (has_duplicate_key C v)
              (\<lambda>d. if d then Err DuplicateKey else Err NonDeterministic))
         (\<lambda>_. bind_result (has_duplicate_key C v) (\<lambda>d.
            if d then Err DuplicateKey
            else bind_result (ok_or Schema (cd_rule C rule)) (\<lambda>validate_cbor.
              if validate_cbor v then Ok v else Err Schema))))"

definition deterministic_bytes :: "codec \<Rightarrow> cbor \<Rightarrow> (bytes, recognition_error) result" where
  "deterministic_bytes C v = ok_or TypedValue (cd_canonical C v)"

section \<open>Fields\<close>

definition cmap :: "(string \<times> cbor) list \<Rightarrow> cbor" where
  "cmap entries = CMap (map (\<lambda>(key, v). (CText key, v)) entries)"

definition map_entries :: "cbor \<Rightarrow> ((cbor \<times> cbor) list, recognition_error) result" where
  "map_entries v = (case v of CMap entries \<Rightarrow> Ok entries | _ \<Rightarrow> Err TypedValue)"

fun optional_field :: "(cbor \<times> cbor) list \<Rightarrow> string \<Rightarrow> cbor option" where
  "optional_field [] name = None"
| "optional_field ((key, v) # entries) name =
     (if key = CText name then Some v else optional_field entries name)"

definition field :: "(cbor \<times> cbor) list \<Rightarrow> string \<Rightarrow> (cbor, recognition_error) result" where
  "field entries name = ok_or TypedValue (optional_field entries name)"

definition text_value :: "cbor \<Rightarrow> (string, recognition_error) result" where
  "text_value v = (case v of CText t \<Rightarrow> Ok t | _ \<Rightarrow> Err TypedValue)"

definition bytes_value :: "cbor \<Rightarrow> (bytes, recognition_error) result" where
  "bytes_value v = (case v of CBytes b \<Rightarrow> Ok b | _ \<Rightarrow> Err TypedValue)"

definition uint_value :: "cbor \<Rightarrow> (u64, recognition_error) result" where
  "uint_value v =
     (case v of
        CInteger i \<Rightarrow> if 0 \<le> i \<and> i \<le> int u64_max then Ok (nat i) else Err TypedValue
      | _ \<Rightarrow> Err TypedValue)"

definition fixed_bytes :: "nat \<Rightarrow> cbor \<Rightarrow> (bytes, recognition_error) result" where
  "fixed_bytes n v =
     bind_result (bytes_value v) (\<lambda>b. if length b = n then Ok b else Err TypedValue)"

definition narrow :: "nat \<Rightarrow> u64 \<Rightarrow> (nat, recognition_error) result" where
  "narrow bound v = ok_or TypedValue (try_into bound v)"

definition text_field :: "(cbor \<times> cbor) list \<Rightarrow> string \<Rightarrow> (string, recognition_error) result" where
  "text_field entries name = bind_result (field entries name) text_value"

definition bytes_field :: "(cbor \<times> cbor) list \<Rightarrow> string \<Rightarrow> (bytes, recognition_error) result" where
  "bytes_field entries name = bind_result (field entries name) bytes_value"

definition uint_field :: "(cbor \<times> cbor) list \<Rightarrow> string \<Rightarrow> (u64, recognition_error) result" where
  "uint_field entries name = bind_result (field entries name) uint_value"

definition fixed_field :: "nat \<Rightarrow> (cbor \<times> cbor) list \<Rightarrow> string \<Rightarrow> (bytes, recognition_error) result" where
  "fixed_field n entries name = bind_result (field entries name) (fixed_bytes n)"

definition narrow_field :: "nat \<Rightarrow> (cbor \<times> cbor) list \<Rightarrow> string \<Rightarrow> (nat, recognition_error) result" where
  "narrow_field bound entries name = bind_result (uint_field entries name) (narrow bound)"

text \<open>The \<^verbatim>\<open>map(..).transpose()?\<close> idiom on an optional field.\<close>

definition opt_field ::
  "(cbor \<Rightarrow> ('a, recognition_error) result) \<Rightarrow> (cbor \<times> cbor) list \<Rightarrow> string \<Rightarrow>
     ('a option, recognition_error) result" where
  "opt_field f entries name =
     (case optional_field entries name of
        None \<Rightarrow> Ok None
      | Some v \<Rightarrow> bind_result (f v) (\<lambda>a. Ok (Some a)))"

definition locator_value :: "cbor \<Rightarrow> (locator, recognition_error) result" where
  "locator_value v =
     (case v of
        CArray parts \<Rightarrow>
          (if length parts \<noteq> 2 then Err TypedValue
           else bind_result (uint_value (parts ! 0)) (\<lambda>mode.
             if mode = 0 then bind_result (fixed_bytes 32 (parts ! 1)) (\<lambda>b. Ok (Direct b))
             else if mode = 1 then
               bind_result (uint_value (parts ! 1)) (\<lambda>n.
                 bind_result (narrow u32_max n) (\<lambda>np. Ok (Nameplate np)))
             else Err TypedValue))
      | _ \<Rightarrow> Err TypedValue)"

definition encoded_locator :: "locator \<Rightarrow> cbor" where
  "encoded_locator l =
     (case l of
        Direct mailbox_id \<Rightarrow> CArray [CInteger 0, CBytes mailbox_id]
      | Nameplate nameplate \<Rightarrow> CArray [CInteger 1, CInteger (int nameplate)])"

section \<open>Identifiers and origins\<close>

definition char_code :: "char \<Rightarrow> nat" where
  "char_code c = of_char c"

definition is_ascii_alphabetic :: "char \<Rightarrow> bool" where
  "is_ascii_alphabetic c \<longleftrightarrow>
     65 \<le> char_code c \<and> char_code c \<le> 90 \<or> 97 \<le> char_code c \<and> char_code c \<le> 122"

definition is_ascii_digit :: "char \<Rightarrow> bool" where
  "is_ascii_digit c \<longleftrightarrow> 48 \<le> char_code c \<and> char_code c \<le> 57"

definition is_ascii_alphanumeric :: "char \<Rightarrow> bool" where
  "is_ascii_alphanumeric c \<longleftrightarrow> is_ascii_alphabetic c \<or> is_ascii_digit c"

definition is_ascii :: "string \<Rightarrow> bool" where
  "is_ascii s \<longleftrightarrow> list_all (\<lambda>c. char_code c < 128) s"

fun split_on :: "char \<Rightarrow> string \<Rightarrow> string list" where
  "split_on sep [] = [[]]"
| "split_on sep (c # cs) =
     (if c = sep then [] # split_on sep cs
      else case split_on sep cs of [] \<Rightarrow> [[c]] | part # parts \<Rightarrow> (c # part) # parts)"

definition valid_dns_label :: "string \<Rightarrow> bool" where
  "valid_dns_label label =
     (case label of
        [] \<Rightarrow> False
      | first # _ \<Rightarrow>
          if \<not> is_ascii_alphabetic first then False
          else if length label = 1 then True
          else list_all (\<lambda>c. is_ascii_alphanumeric c \<or> c = CHR ''-'') (butlast (tl label)) \<and>
               is_ascii_alphanumeric (last label))"

definition valid_application_id :: "string \<Rightarrow> bool" where
  "valid_application_id application =
     (if \<not> is_ascii application then False
      else case split_on (CHR ''/'') application of
        [domain, profile, version] \<Rightarrow>
          (case split_on (CHR ''.'') domain of
             [] \<Rightarrow> False
           | first_label # remaining_labels \<Rightarrow>
               if \<not> valid_dns_label first_label then False
               else if remaining_labels = [] \<or> \<not> list_all valid_dns_label remaining_labels then False
               else if (case profile of [] \<Rightarrow> True | c # _ \<Rightarrow> \<not> is_ascii_alphabetic c) \<or>
                       \<not> list_all (\<lambda>c. is_ascii_alphanumeric c \<or> c = CHR ''-'') profile then False
               else case version of
                      [] \<Rightarrow> False
                    | v # digits \<Rightarrow>
                        v = CHR ''v'' \<and> 1 \<le> length digits \<and> length digits \<le> 2 \<and>
                        list_all is_ascii_digit digits)
      | _ \<Rightarrow> False)"

definition starts_with :: "string \<Rightarrow> string \<Rightarrow> bool" where
  "starts_with prefix s \<longleftrightarrow> take (length prefix) s = prefix"

definition valid_relay_origin :: "codec \<Rightarrow> string \<Rightarrow> bool" where
  "valid_relay_origin C origin =
     (if \<not> is_ascii origin \<or> \<not> (starts_with ''https://'' origin \<or> starts_with ''wss://'' origin)
      then False
      else case cd_url C origin of
        None \<Rightarrow> False
      | Some parsed \<Rightarrow>
          url_username parsed = [] \<and> url_password parsed = None \<and> url_query parsed = None \<and>
          url_fragment parsed = None \<and> url_path parsed = ''/'' \<and> url_origin parsed = origin)"

definition validate_application :: "string \<Rightarrow> (unit, recognition_error) result" where
  "validate_application application =
     (if valid_application_id application then Ok () else Err ApplicationId)"

definition validate_origin :: "codec \<Rightarrow> string \<Rightarrow> (unit, recognition_error) result" where
  "validate_origin C origin = (if valid_relay_origin C origin then Ok () else Err RelayOrigin)"

definition side_value :: "cbor \<Rightarrow> (side, recognition_error) result" where
  "side_value v = bind_result (uint_value v) (\<lambda>n.
     if n = 0 then Ok SideAllocator else if n = 1 then Ok SideClaimant else Err TypedValue)"

definition direction_value :: "cbor \<Rightarrow> (direction, recognition_error) result" where
  "direction_value v = bind_result (uint_value v) (\<lambda>n.
     if n = 0 then Ok AllocatorToClaimant else if n = 1 then Ok ClaimantToAllocator
     else Err TypedValue)"

definition encoded_side :: "side \<Rightarrow> cbor" where
  "encoded_side s = CInteger (case s of SideAllocator \<Rightarrow> 0 | SideClaimant \<Rightarrow> 1)"

definition encoded_direction :: "direction \<Rightarrow> cbor" where
  "encoded_direction d = CInteger (case d of AllocatorToClaimant \<Rightarrow> 0 | ClaimantToAllocator \<Rightarrow> 1)"

section \<open>Invitations\<close>

definition decode_invitation :: "codec \<Rightarrow> bytes \<Rightarrow> (invitation, recognition_error) result" where
  "decode_invitation C input =
     bind_result (recognise_value C input ''pairing-invitation'') (\<lambda>v.
     bind_result (map_entries v) (\<lambda>entries.
     bind_result (text_field entries ''application'') (\<lambda>application.
     bind_result (text_field entries ''relay-origin'') (\<lambda>relay_origin.
     bind_result (validate_application application) (\<lambda>_.
     bind_result (validate_origin C relay_origin) (\<lambda>_.
     bind_result (bind_result (field entries ''locator'') locator_value) (\<lambda>loc.
     bind_result (bytes_field entries ''secret'') (\<lambda>secret.
     bind_result (opt_field (fixed_bytes 32) entries ''expected-allocator-key'') (\<lambda>ak.
     bind_result (opt_field (fixed_bytes 32) entries ''expected-claimant-key'') (\<lambda>ck.
       Ok \<lparr>inv_application = application, inv_relay_origin = relay_origin, inv_locator = loc,
           inv_secret = secret, inv_expected_allocator_key = ak,
           inv_expected_claimant_key = ck\<rparr>))))))))))"

definition invitation_value :: "invitation \<Rightarrow> cbor" where
  "invitation_value i = cmap
     ([(''version'', CInteger 1), (''suite'', CText SUITE_ID),
       (''application'', CText (inv_application i)), (''relay-origin'', CText (inv_relay_origin i)),
       (''locator'', encoded_locator (inv_locator i)), (''secret'', CBytes (inv_secret i))] @
      (case inv_expected_allocator_key i of None \<Rightarrow> []
         | Some key \<Rightarrow> [(''expected-allocator-key'', CBytes key)]) @
      (case inv_expected_claimant_key i of None \<Rightarrow> []
         | Some key \<Rightarrow> [(''expected-claimant-key'', CBytes key)]))"

text \<open>Every encoder writes the value and accepts the octets only if its recogniser does.\<close>

definition checked_bytes ::
  "codec \<Rightarrow> cbor \<Rightarrow> (bytes \<Rightarrow> ('a, recognition_error) result) \<Rightarrow> (bytes, recognition_error) result" where
  "checked_bytes C v decode =
     bind_result (deterministic_bytes C v) (\<lambda>encoded.
       bind_result (decode encoded) (\<lambda>_. Ok encoded))"

definition encode_invitation :: "codec \<Rightarrow> invitation \<Rightarrow> (bytes, recognition_error) result" where
  "encode_invitation C i = checked_bytes C (invitation_value i) (decode_invitation C)"

section \<open>Client messages\<close>

definition decode_client_message :: "codec \<Rightarrow> bytes \<Rightarrow> (client_message, recognition_error) result" where
  "decode_client_message C input =
     bind_result (recognise_value C input ''client-message'') (\<lambda>v.
     bind_result (map_entries v) (\<lambda>entries.
     bind_result (text_field entries ''type'') (\<lambda>kind.
       if kind = ''bind'' then Ok Bind
       else if kind = ''allocate'' then
         bind_result (narrow_field u8_max entries ''locator-mode'') (\<lambda>mode.
         bind_result (opt_field (\<lambda>v. bind_result (uint_value v) (narrow u32_max)) entries ''ttl-seconds'')
           (\<lambda>ttl. Ok (Allocate mode ttl)))
       else if kind = ''claim'' then
         bind_result (bind_result (field entries ''locator'') locator_value) (\<lambda>l. Ok (Claim l))
       else if kind = ''allocate-v2'' then
         bind_result (fixed_field 32 entries ''mailbox-id'') (\<lambda>mb.
         bind_result (fixed_field 32 entries ''claim-commitment'') (\<lambda>cc.
         bind_result (opt_field (\<lambda>v. bind_result (uint_value v) (narrow u16_max)) entries ''ttl-seconds'')
           (\<lambda>ttl. Ok (AllocateV2 mb cc ttl))))
       else if kind = ''claim-v2'' then
         bind_result (fixed_field 32 entries ''mailbox-id'') (\<lambda>mb.
         bind_result (fixed_field 16 entries ''claim-token'') (\<lambda>ct. Ok (ClaimV2 mb ct)))
       else if kind = ''open'' then
         bind_result (fixed_field 32 entries ''mailbox-id'') (\<lambda>mb.
         bind_result (fixed_field 32 entries ''membership-token'') (\<lambda>mt. Ok (Open mb mt)))
       else if kind = ''put'' then
         bind_result (narrow_field u8_max entries ''seq'') (\<lambda>seq.
         bind_result (bytes_field entries ''body'') (\<lambda>body. Ok (Put seq body)))
       else if kind = ''ack'' then
         bind_result (narrow_field u8_max entries ''peer-seq'') (\<lambda>seq. Ok (Ack seq))
       else if kind = ''close'' then Ok Close
       else if kind = ''ping'' then Ok Ping
       else Err TypedValue)))"

fun client_value :: "client_message \<Rightarrow> cbor" where
  "client_value Bind = cmap [(''type'', CText ''bind''), (''version'', CInteger 1)]"
| "client_value (Allocate mode ttl) = cmap
     ([(''type'', CText ''allocate''), (''locator-mode'', CInteger (int mode))] @
      (case ttl of None \<Rightarrow> [] | Some t \<Rightarrow> [(''ttl-seconds'', CInteger (int t))]))"
| "client_value (Claim l) = cmap [(''type'', CText ''claim''), (''locator'', encoded_locator l)]"
| "client_value (AllocateV2 mb cc ttl) = cmap
     ([(''type'', CText ''allocate-v2''), (''mailbox-id'', CBytes mb), (''claim-commitment'', CBytes cc)] @
      (case ttl of None \<Rightarrow> [] | Some t \<Rightarrow> [(''ttl-seconds'', CInteger (int t))]))"
| "client_value (ClaimV2 mb ct) = cmap
     [(''type'', CText ''claim-v2''), (''mailbox-id'', CBytes mb), (''claim-token'', CBytes ct)]"
| "client_value (Open mb mt) = cmap
     [(''type'', CText ''open''), (''mailbox-id'', CBytes mb), (''membership-token'', CBytes mt)]"
| "client_value (Put seq body) = cmap
     [(''type'', CText ''put''), (''seq'', CInteger (int seq)), (''body'', CBytes body)]"
| "client_value (Ack seq) = cmap [(''type'', CText ''ack''), (''peer-seq'', CInteger (int seq))]"
| "client_value Close = cmap [(''type'', CText ''close'')]"
| "client_value Ping = cmap [(''type'', CText ''ping'')]"

definition encode_client_message :: "codec \<Rightarrow> client_message \<Rightarrow> (bytes, recognition_error) result" where
  "encode_client_message C m = checked_bytes C (client_value m) (decode_client_message C)"

section \<open>Server messages\<close>

definition decode_close_reason :: "string \<Rightarrow> (close_reason, recognition_error) result" where
  "decode_close_reason t =
     (if t = ''closed'' then Ok Closed else if t = ''crowded'' then Ok Crowded
      else if t = ''expired'' then Ok Expired else if t = ''conflict'' then Ok Conflict
      else Err TypedValue)"

fun close_reason_text :: "close_reason \<Rightarrow> string" where
  "close_reason_text Closed = ''closed''"
| "close_reason_text Crowded = ''crowded''"
| "close_reason_text Expired = ''expired''"
| "close_reason_text Conflict = ''conflict''"

definition decode_grant ::
  "(cbor \<times> cbor) list \<Rightarrow> (bytes \<Rightarrow> bytes \<Rightarrow> u64 \<Rightarrow> server_message) \<Rightarrow>
     (server_message, recognition_error) result" where
  "decode_grant entries build =
     bind_result (fixed_field 32 entries ''mailbox-id'') (\<lambda>mb.
     bind_result (fixed_field 32 entries ''membership-token'') (\<lambda>mt.
     bind_result (uint_field entries ''expires-at'') (\<lambda>ex. Ok (build mb mt ex))))"

definition decode_server_message :: "codec \<Rightarrow> bytes \<Rightarrow> (server_message, recognition_error) result" where
  "decode_server_message C input =
     bind_result (recognise_value C input ''server-message'') (\<lambda>v.
     bind_result (map_entries v) (\<lambda>entries.
     bind_result (text_field entries ''type'') (\<lambda>kind.
       if kind = ''welcome'' then Ok Welcome
       else if kind = ''allocated'' then
         bind_result (fixed_field 32 entries ''mailbox-id'') (\<lambda>mb.
         bind_result (fixed_field 32 entries ''membership-token'') (\<lambda>mt.
         bind_result (opt_field (\<lambda>v. bind_result (uint_value v) (narrow u32_max)) entries ''nameplate'') (\<lambda>np.
         bind_result (uint_field entries ''expires-at'') (\<lambda>ex. Ok (Allocated mb mt np ex)))))
       else if kind = ''claimed'' then decode_grant entries Claimed
       else if kind = ''allocated-v2'' then decode_grant entries AllocatedV2
       else if kind = ''claimed-v2'' then decode_grant entries ClaimedV2
       else if kind = ''frame'' then
         bind_result (narrow_field u8_max entries ''peer-seq'') (\<lambda>seq.
         bind_result (bytes_field entries ''body'') (\<lambda>body. Ok (Frame seq body)))
       else if kind = ''acknowledged'' then
         bind_result (narrow_field u8_max entries ''seq'') (\<lambda>seq. Ok (Acknowledged seq))
       else if kind = ''closed'' then
         bind_result (text_field entries ''reason'') (\<lambda>t.
         bind_result (decode_close_reason t) (\<lambda>r. Ok (MsgClosed r)))
       else if kind = ''error'' then
         bind_result (narrow_field u16_max entries ''code'') (\<lambda>code. Ok (MsgError code))
       else if kind = ''pong'' then Ok Pong
       else Err TypedValue)))"

fun server_value :: "server_message \<Rightarrow> cbor" where
  "server_value Welcome = cmap [(''type'', CText ''welcome''), (''version'', CInteger 1)]"
| "server_value (Allocated mb mt np ex) = cmap
     ([(''type'', CText ''allocated''), (''mailbox-id'', CBytes mb), (''membership-token'', CBytes mt),
       (''expires-at'', CInteger (int ex))] @
      (case np of None \<Rightarrow> [] | Some n \<Rightarrow> [(''nameplate'', CInteger (int n))]))"
| "server_value (Claimed mb mt ex) = cmap
     [(''type'', CText ''claimed''), (''mailbox-id'', CBytes mb), (''membership-token'', CBytes mt),
      (''expires-at'', CInteger (int ex))]"
| "server_value (AllocatedV2 mb mt ex) = cmap
     [(''type'', CText ''allocated-v2''), (''mailbox-id'', CBytes mb), (''membership-token'', CBytes mt),
      (''expires-at'', CInteger (int ex))]"
| "server_value (ClaimedV2 mb mt ex) = cmap
     [(''type'', CText ''claimed-v2''), (''mailbox-id'', CBytes mb), (''membership-token'', CBytes mt),
      (''expires-at'', CInteger (int ex))]"
| "server_value (Frame seq body) = cmap
     [(''type'', CText ''frame''), (''peer-seq'', CInteger (int seq)), (''body'', CBytes body)]"
| "server_value (Acknowledged seq) = cmap
     [(''type'', CText ''acknowledged''), (''seq'', CInteger (int seq))]"
| "server_value (MsgClosed reason) = cmap
     [(''type'', CText ''closed''), (''reason'', CText (close_reason_text reason))]"
| "server_value (MsgError code) = cmap [(''type'', CText ''error''), (''code'', CInteger (int code))]"
| "server_value Pong = cmap [(''type'', CText ''pong'')]"

definition encode_server_message :: "codec \<Rightarrow> server_message \<Rightarrow> (bytes, recognition_error) result" where
  "encode_server_message C m = checked_bytes C (server_value m) (decode_server_message C)"

section \<open>Channel frames\<close>

definition decode_cpace_message :: "codec \<Rightarrow> bytes \<Rightarrow> (cpace_message, recognition_error) result" where
  "decode_cpace_message C input =
     bind_result (recognise_value C input ''cpace-message'') (\<lambda>v.
       case v of
         CArray parts \<Rightarrow>
           (if length parts \<noteq> 4 then Err TypedValue
            else bind_result (uint_value (parts ! 0)) (\<lambda>version.
              if version \<noteq> 1 then Err TypedValue
              else bind_result (side_value (parts ! 1)) (\<lambda>s.
                bind_result (fixed_bytes 32 (parts ! 2)) (\<lambda>share.
                bind_result (bytes_value (parts ! 3)) (\<lambda>ad.
                  Ok \<lparr>cm_side = s, cm_share = share, cm_associated_data = ad\<rparr>)))))
       | _ \<Rightarrow> Err TypedValue)"

definition cpace_value :: "cpace_message \<Rightarrow> cbor" where
  "cpace_value m = CArray [CInteger 1, encoded_side (cm_side m), CBytes (cm_share m),
     CBytes (cm_associated_data m)]"

definition encode_cpace_message :: "codec \<Rightarrow> cpace_message \<Rightarrow> (bytes, recognition_error) result" where
  "encode_cpace_message C m = checked_bytes C (cpace_value m) (decode_cpace_message C)"

definition decode_channel_frame :: "codec \<Rightarrow> bytes \<Rightarrow> (channel_frame, recognition_error) result" where
  "decode_channel_frame C input =
     bind_result (recognise_value C input ''cpace-channel-frame'') (\<lambda>v.
     bind_result (map_entries v) (\<lambda>entries.
     bind_result (text_field entries ''kind'') (\<lambda>kind.
       if kind = ''cpace'' then
         bind_result (bind_result (field entries ''role'') side_value) (\<lambda>outer_side.
         bind_result (bytes_field entries ''message'') (\<lambda>message.
         bind_result (decode_cpace_message C message) (\<lambda>inner.
           if cm_side inner \<noteq> outer_side then Err TypedValue
           else bind_result (bytes_field entries ''control'') (\<lambda>control.
             Ok (Cpace outer_side control message)))))
       else if kind = ''finished'' then
         bind_result (bind_result (field entries ''role'') side_value) (\<lambda>s.
         bind_result (bytes_field entries ''control'') (\<lambda>control.
         bind_result (fixed_field 64 entries ''value'') (\<lambda>val. Ok (Finished s control val))))
       else if kind = ''sealed'' then
         bind_result (bind_result (field entries ''direction'') direction_value) (\<lambda>d.
         bind_result (uint_field entries ''counter'') (\<lambda>n.
         bind_result (bytes_field entries ''ciphertext'') (\<lambda>ct. Ok (Sealed d n ct))))
       else Err TypedValue)))"

fun channel_value :: "channel_frame \<Rightarrow> cbor" where
  "channel_value (Cpace s control message) = cmap
     [(''v'', CInteger 1), (''kind'', CText ''cpace''), (''role'', encoded_side s),
      (''control'', CBytes control), (''message'', CBytes message)]"
| "channel_value (Finished s control val) = cmap
     [(''v'', CInteger 1), (''kind'', CText ''finished''), (''role'', encoded_side s),
      (''control'', CBytes control), (''value'', CBytes val)]"
| "channel_value (Sealed d n ct) = cmap
     [(''v'', CInteger 1), (''kind'', CText ''sealed''), (''direction'', encoded_direction d),
      (''counter'', CInteger (int n)), (''ciphertext'', CBytes ct)]"

definition encode_channel_frame :: "codec \<Rightarrow> channel_frame \<Rightarrow> (bytes, recognition_error) result" where
  "encode_channel_frame C f = checked_bytes C (channel_value f) (decode_channel_frame C)"

section \<open>Application messages\<close>

definition decode_sealed_plaintext :: "codec \<Rightarrow> bytes \<Rightarrow> (sealed_plaintext, recognition_error) result" where
  "decode_sealed_plaintext C input =
     bind_result (recognise_value C input ''sealed-plaintext'') (\<lambda>v.
     bind_result (map_entries v) (\<lambda>entries.
     bind_result (bytes_field entries ''control'') (\<lambda>control.
     bind_result (opt_field bytes_value entries ''body'') (\<lambda>body.
       Ok \<lparr>sp_control = control, sp_body = body\<rparr>))))"

definition plaintext_value :: "sealed_plaintext \<Rightarrow> cbor" where
  "plaintext_value p = cmap
     ([(''control'', CBytes (sp_control p))] @
      (case sp_body p of None \<Rightarrow> [] | Some body \<Rightarrow> [(''body'', CBytes body)]))"

definition encode_sealed_plaintext :: "codec \<Rightarrow> sealed_plaintext \<Rightarrow> (bytes, recognition_error) result" where
  "encode_sealed_plaintext C p = checked_bytes C (plaintext_value p) (decode_sealed_plaintext C)"

definition decode_pairing_intent :: "codec \<Rightarrow> bytes \<Rightarrow> (pairing_intent, recognition_error) result" where
  "decode_pairing_intent C input =
     bind_result (recognise_value C input ''pairing-intent'') (\<lambda>v.
     bind_result (map_entries v) (\<lambda>entries.
     bind_result (text_field entries ''application'') (\<lambda>application.
     bind_result (validate_application application) (\<lambda>_.
     bind_result (text_field entries ''action'') (\<lambda>action.
     bind_result (bytes_field entries ''allocator-claim'') (\<lambda>ac.
     bind_result (bytes_field entries ''claimant-claim'') (\<lambda>cc.
     bind_result (text_field entries ''authority-summary'') (\<lambda>summary.
     bind_result (fixed_field 32 entries ''intent-nonce'') (\<lambda>nonce.
       Ok \<lparr>pi_application = application, pi_action = action, pi_allocator_claim = ac,
           pi_claimant_claim = cc, pi_authority_summary = summary, pi_intent_nonce = nonce\<rparr>)))))))))"

definition intent_value :: "pairing_intent \<Rightarrow> cbor" where
  "intent_value i = cmap
     [(''type'', CText ''intent''), (''application'', CText (pi_application i)),
      (''action'', CText (pi_action i)), (''allocator-claim'', CBytes (pi_allocator_claim i)),
      (''claimant-claim'', CBytes (pi_claimant_claim i)),
      (''authority-summary'', CText (pi_authority_summary i)),
      (''intent-nonce'', CBytes (pi_intent_nonce i))]"

definition encode_pairing_intent :: "codec \<Rightarrow> pairing_intent \<Rightarrow> (bytes, recognition_error) result" where
  "encode_pairing_intent C i = checked_bytes C (intent_value i) (decode_pairing_intent C)"

definition decode_pairing_decision :: "codec \<Rightarrow> bytes \<Rightarrow> (pairing_decision, recognition_error) result" where
  "decode_pairing_decision C input =
     bind_result (recognise_value C input ''pairing-decision'') (\<lambda>v.
     bind_result (map_entries v) (\<lambda>entries.
     bind_result (fixed_field 32 entries ''intent-digest'') (\<lambda>digest.
     bind_result (text_field entries ''decision'') (\<lambda>t.
     bind_result (if t = ''approve'' then Ok Approve else if t = ''decline'' then Ok Decline
                  else Err TypedValue) (\<lambda>d.
       Ok \<lparr>pd_intent_digest = digest, pd_decision = d\<rparr>)))))"

definition decision_value :: "pairing_decision \<Rightarrow> cbor" where
  "decision_value d = cmap
     [(''type'', CText ''decision''), (''intent-digest'', CBytes (pd_intent_digest d)),
      (''decision'', CText (case pd_decision d of Approve \<Rightarrow> ''approve'' | Decline \<Rightarrow> ''decline''))]"

definition encode_pairing_decision :: "codec \<Rightarrow> pairing_decision \<Rightarrow> (bytes, recognition_error) result" where
  "encode_pairing_decision C d = checked_bytes C (decision_value d) (decode_pairing_decision C)"

definition decode_application_payload ::
  "codec \<Rightarrow> bytes \<Rightarrow> (application_payload, recognition_error) result" where
  "decode_application_payload C input =
     bind_result (recognise_value C input ''application-payload'') (\<lambda>v.
     bind_result (map_entries v) (\<lambda>entries.
     bind_result (fixed_field 32 entries ''intent-digest'') (\<lambda>digest.
     bind_result (text_field entries ''payload-type'') (\<lambda>t.
     bind_result (bytes_field entries ''body'') (\<lambda>body.
       Ok \<lparr>ap_intent_digest = digest, ap_payload_type = t, ap_body = body\<rparr>)))))"

definition payload_value :: "application_payload \<Rightarrow> cbor" where
  "payload_value p = cmap
     [(''type'', CText ''payload''), (''intent-digest'', CBytes (ap_intent_digest p)),
      (''payload-type'', CText (ap_payload_type p)), (''body'', CBytes (ap_body p))]"

definition encode_application_payload ::
  "codec \<Rightarrow> application_payload \<Rightarrow> (bytes, recognition_error) result" where
  "encode_application_payload C p = checked_bytes C (payload_value p) (decode_application_payload C)"

end
