(* ===== verification/Wire_Props.thy ===== *)
theory Wire_Props
  imports Wire
begin

text \<open>
  What the recognisers guarantee: octets are accepted only in their canonical form, and every
  encoder is undone by its recogniser. The outside codec is assumed to read back what it
  writes, up to the order of map entries.
\<close>

section \<open>The law of the outside codec\<close>

fun map_free :: "cbor \<Rightarrow> bool" where
  "map_free (CMap es) = False"
| "map_free (CArray xs) = list_all map_free xs"
| "map_free (CTag t v) = map_free v"
| "map_free v = True"

definition flat :: "cbor \<Rightarrow> bool" where
  "flat v = (case v of CMap es \<Rightarrow> list_all (\<lambda>(k, x). map_free k \<and> map_free x) es | _ \<Rightarrow> map_free v)"

definition reorders :: "cbor \<Rightarrow> cbor \<Rightarrow> bool" where
  "reorders v w \<longleftrightarrow> w = v \<or> (\<exists>es fs. v = CMap es \<and> w = CMap fs \<and> mset es = mset fs)"

text \<open>Reading canonical octets gives the written value back, map entries possibly reordered.\<close>

definition reads_back :: "codec \<Rightarrow> bool" where
  "reads_back C \<longleftrightarrow>
     (\<forall>v bs. flat v \<longrightarrow> cd_canonical C v = Some bs \<longrightarrow>
        (\<exists>w. cd_read C bs = Some (w, length bs) \<and> reorders v w))"

section \<open>Recognised octets are canonical\<close>

lemma recognise_value_Ok:
  "recognise_value C input rule = Ok v \<longleftrightarrow>
     cd_read C input = Some (v, length input) \<and> cd_canonical C v = Some input \<and>
     has_duplicate_key C v = Ok False \<and> (\<exists>valid. cd_rule C rule = Some valid \<and> valid v)"
proof
  assume "recognise_value C input rule = Ok v"
  then show "cd_read C input = Some (v, length input) \<and> cd_canonical C v = Some input \<and>
     has_duplicate_key C v = Ok False \<and> (\<exists>valid. cd_rule C rule = Some valid \<and> valid v)"
    by (auto simp: recognise_value_def bind_result_Ok split: option.splits if_splits)
qed (auto simp: recognise_value_def)

lemma optional_field_map_of: "optional_field es n = map_of es (CText n)"
  by (induction es n rule: optional_field.induct) auto

lemma map_of_cmap: "map_of (map (\<lambda>(k, v). (CText k, v)) kvs) (CText n) = map_of kvs n"
  by (induction kvs) auto

lemma distinct_cmap: "distinct (map fst kvs) \<Longrightarrow> distinct (map fst (map (\<lambda>(k, v). (CText k, v)) kvs))"
  by (induction kvs) force+

lemma mset_map_of:
  assumes "mset es = mset fs" and "distinct (map fst es)"
  shows "map_of fs = map_of es"
proof -
  have "mset (map fst es) = mset (map fst fs)" using assms(1) by (metis mset_map)
  then have "distinct (map fst fs)" using assms(2) by (metis mset_eq_imp_distinct_iff)
  moreover have "set fs = set es" using assms(1) by (metis mset_eq_setD)
  ultimately show ?thesis using assms(2) by (metis map_of_inject_set)
qed

lemma flat_cmap: "flat (cmap kvs) \<longleftrightarrow> list_all (\<lambda>(k, v). map_free v) kvs"
  by (auto simp: flat_def cmap_def list_all_iff)

lemma checked_bytes_Ok:
  "checked_bytes C v decode = Ok bs \<longleftrightarrow> cd_canonical C v = Some bs \<and> (\<exists>m. decode bs = Ok m)"
  by (auto simp: checked_bytes_def deterministic_bytes_def bind_result_Ok)

lemma recognised_map:
  assumes law: "reads_back C" and bs: "cd_canonical C (cmap kvs) = Some bs"
    and distinct: "distinct (map fst kvs)" and free: "list_all (\<lambda>(k, v). map_free v) kvs"
    and rec: "recognise_value C bs rule = Ok w"
  shows "\<exists>fs. w = CMap fs \<and> optional_field fs = map_of kvs"
proof -
  have "flat (cmap kvs)" using free by (simp add: flat_cmap)
  with law bs obtain w' where "cd_read C bs = Some (w', length bs)" "reorders (cmap kvs) w'"
    by (auto simp: reads_back_def)
  then have "reorders (cmap kvs) w" using rec by (simp add: recognise_value_Ok)
  then obtain fs where w: "w = CMap fs" and "mset (map (\<lambda>(k, v). (CText k, v)) kvs) = mset fs"
    by (auto simp: reorders_def cmap_def)
  then have "map_of fs = map_of (map (\<lambda>(k, v). (CText k, v)) kvs)"
    using mset_map_of distinct_cmap[OF distinct] by blast
  with w show ?thesis by (auto simp: optional_field_map_of map_of_cmap)
qed

lemma recognised_free:
  assumes law: "reads_back C" and bs: "cd_canonical C v = Some bs" and free: "map_free v"
    and rec: "recognise_value C bs rule = Ok w"
  shows "w = v"
proof -
  have "flat v" using free by (cases v) (auto simp: flat_def)
  with law bs rec have "reorders v w" by (auto simp: reads_back_def recognise_value_Ok)
  with free show ?thesis by (auto simp: reorders_def)
qed

lemma canonical_inject:
  assumes "reads_back C" and "map_free v" and "map_free w"
    and "cd_canonical C v = Some b" and "cd_canonical C w = Some b"
  shows "v = w"
proof -
  have "flat v" "flat w" using assms(2,3) by (auto simp: flat_def split: cbor.splits)
  then obtain v' w' where "cd_read C b = Some (v', length b)" "reorders v v'"
    "cd_read C b = Some (w', length b)" "reorders w w'"
    using assms(1,4,5) unfolding reads_back_def by blast
  then show ?thesis using assms(2,3) by (auto simp: reorders_def)
qed

lemma map_free_locator [simp]: "map_free (encoded_locator l)"
  by (simp add: encoded_locator_def split: locator.splits)

lemma map_free_side [simp]: "map_free (encoded_side s)" "map_free (encoded_direction d)"
  by (simp_all add: encoded_side_def encoded_direction_def)

lemma locator_value_encoded: "locator_value (encoded_locator l) = Ok l' \<Longrightarrow> l' = l"
  by (cases l) (auto simp: encoded_locator_def locator_value_def uint_value_def fixed_bytes_def
      bytes_value_def narrow_def machine_int bind_result_Ok split: if_splits)

lemma side_value_encoded [simp]: "side_value (encoded_side s) = Ok s"
  by (cases s) (auto simp: encoded_side_def side_value_def uint_value_def u64_max_def)

lemma direction_value_encoded [simp]: "direction_value (encoded_direction d) = Ok d"
  by (cases d) (auto simp: encoded_direction_def direction_value_def uint_value_def u64_max_def)

lemmas field_reads =
  map_entries_def text_field_def bytes_field_def uint_field_def fixed_field_def narrow_field_def
  opt_field_def field_def text_value_def bytes_value_def uint_value_def fixed_bytes_def narrow_def
  machine_int bind_result_Ok

lemma bind_result_if:
  "bind_result (if c then a else b) f = (if c then bind_result a f else bind_result b f)"
  by simp

lemmas field_eval =
  map_entries_def text_field_def bytes_field_def uint_field_def fixed_field_def narrow_field_def
  opt_field_def field_def text_value_def bytes_value_def uint_value_def fixed_bytes_def narrow_def
  machine_int bind_result_if

definition plain_map :: "cbor \<Rightarrow> bool" where
  "plain_map v \<longleftrightarrow>
     (\<exists>kvs. v = cmap kvs \<and> distinct (map fst kvs) \<and> list_all (\<lambda>(k, x). map_free x) kvs)"

lemma plain_mapI:
  "distinct (map fst kvs) \<Longrightarrow> list_all (\<lambda>(k, x). map_free x) kvs \<Longrightarrow> plain_map (cmap kvs)"
  by (auto simp: plain_map_def)

lemma cmap_inject [simp]: "cmap kvs = cmap kvs' \<longleftrightarrow> kvs = kvs'"
proof
  assume "cmap kvs = cmap kvs'"
  then have "map (\<lambda>(k, v). (CText k, v)) kvs = map (\<lambda>(k, v). (CText k, v)) kvs'" by (simp add: cmap_def)
  moreover have "inj (\<lambda>(k, v). (CText k, v :: cbor))" by (auto simp: inj_on_def)
  ultimately show "kvs = kvs'" using inj_map_eq_map by blast
qed simp

lemma recognised_fields:
  assumes law: "reads_back C" and bs: "cd_canonical C v = Some bs" and plain: "plain_map v"
    and rec: "recognise_value C bs rule = Ok w"
  shows "\<exists>kvs fs. v = cmap kvs \<and> w = CMap fs \<and> optional_field fs = map_of kvs"
  using recognised_map[OF law _ _ _ rec] bs plain by (auto simp: plain_map_def)

lemma plain_map_values:
  "plain_map (client_value m)" "plain_map (server_value sm)" "plain_map (channel_value f)"
  "plain_map (invitation_value i)" "plain_map (plaintext_value p)" "plain_map (intent_value it)"
  "plain_map (decision_value d)" "plain_map (payload_value pl)"
proof -
  show "plain_map (client_value m)"
    by (cases m) (auto intro!: plain_mapI split: option.split)
  show "plain_map (server_value sm)"
    by (cases sm) (auto intro!: plain_mapI split: option.split)
  show "plain_map (channel_value f)" by (cases f) (auto intro!: plain_mapI)
  show "plain_map (invitation_value i)"
    by (auto simp: invitation_value_def intro!: plain_mapI split: option.split)
  show "plain_map (plaintext_value p)"
    by (auto simp: plaintext_value_def intro!: plain_mapI split: option.split)
  show "plain_map (intent_value it)" by (auto simp: intent_value_def intro!: plain_mapI)
  show "plain_map (decision_value d)" by (auto simp: decision_value_def intro!: plain_mapI)
  show "plain_map (payload_value pl)" by (auto simp: payload_value_def intro!: plain_mapI)
qed

section \<open>Round trips\<close>

lemma decode_client_encoded:
  assumes law: "reads_back C" and bs: "cd_canonical C (client_value m) = Some bs"
    and dec: "decode_client_message C bs = Ok m'"
  shows "m' = m"
proof -
  obtain w where rec: "recognise_value C bs ''client-message'' = Ok w"
    using dec by (auto simp: decode_client_message_def bind_result_Ok)
  from recognised_fields[OF law bs plain_map_values(1) rec] obtain kvs fs
    where f: "client_value m = cmap kvs" "w = CMap fs" "optional_field fs = map_of kvs" by blast
  show ?thesis
    using dec rec f
    by (cases m; clarsimp simp: decode_client_message_def field_eval bind_result_Ok locator_value_encoded
        split: if_splits option.splits)
qed

lemma decode_server_encoded:
  assumes law: "reads_back C" and bs: "cd_canonical C (server_value m) = Some bs"
    and dec: "decode_server_message C bs = Ok m'"
  shows "m' = m"
proof -
  obtain w where rec: "recognise_value C bs ''server-message'' = Ok w"
    using dec by (auto simp: decode_server_message_def bind_result_Ok)
  from recognised_fields[OF law bs plain_map_values(2) rec] obtain kvs fs
    where f: "server_value m = cmap kvs" "w = CMap fs" "optional_field fs = map_of kvs" by blast
  have reason: "decode_close_reason (close_reason_text r) = Ok r" for r
    by (cases r) (simp_all add: decode_close_reason_def)
  show ?thesis
    using dec rec f reason
    by (cases m; clarsimp simp: decode_server_message_def decode_grant_def field_eval
        split: if_splits option.splits)
qed

lemma decode_cpace_encoded:
  assumes law: "reads_back C" and bs: "cd_canonical C (cpace_value m) = Some bs"
    and dec: "decode_cpace_message C bs = Ok m'"
  shows "m' = m"
proof -
  obtain w where rec: "recognise_value C bs ''cpace-message'' = Ok w"
    using dec by (auto simp: decode_cpace_message_def bind_result_Ok)
  have "w = cpace_value m"
    using recognised_free[OF law bs _ rec] by (simp add: cpace_value_def)
  with dec rec show ?thesis
    by (cases m) (auto simp: decode_cpace_message_def cpace_value_def field_reads
        numeral_eq_Suc split: if_splits)
qed

lemma decode_channel_encoded:
  assumes law: "reads_back C" and bs: "cd_canonical C (channel_value m) = Some bs"
    and dec: "decode_channel_frame C bs = Ok m'"
  shows "m' = m"
proof -
  obtain w where rec: "recognise_value C bs ''cpace-channel-frame'' = Ok w"
    using dec by (auto simp: decode_channel_frame_def bind_result_Ok)
  from recognised_fields[OF law bs plain_map_values(3) rec] obtain kvs fs
    where f: "channel_value m = cmap kvs" "w = CMap fs" "optional_field fs = map_of kvs" by blast
  show ?thesis
    using dec rec f
    by (cases m) (auto simp: decode_channel_frame_def field_reads split: if_splits)
qed

lemma decode_invitation_encoded:
  assumes law: "reads_back C" and bs: "cd_canonical C (invitation_value m) = Some bs"
    and dec: "decode_invitation C bs = Ok m'"
  shows "m' = m"
proof -
  obtain w where rec: "recognise_value C bs ''pairing-invitation'' = Ok w"
    using dec by (auto simp: decode_invitation_def bind_result_Ok)
  from recognised_fields[OF law bs plain_map_values(4) rec] obtain kvs fs
    where f: "invitation_value m = cmap kvs" "w = CMap fs" "optional_field fs = map_of kvs" by blast
  show ?thesis
    using dec rec f
    by (cases m; cases "inv_expected_allocator_key m"; cases "inv_expected_claimant_key m";
        cases "locator_value (encoded_locator (inv_locator m))";
        clarsimp simp: decode_invitation_def invitation_value_def field_eval validate_application_def
        validate_origin_def locator_value_encoded split: if_splits)
qed

lemma decode_plaintext_encoded:
  assumes law: "reads_back C" and bs: "cd_canonical C (plaintext_value m) = Some bs"
    and dec: "decode_sealed_plaintext C bs = Ok m'"
  shows "m' = m"
proof -
  obtain w where rec: "recognise_value C bs ''sealed-plaintext'' = Ok w"
    using dec by (auto simp: decode_sealed_plaintext_def bind_result_Ok)
  from recognised_fields[OF law bs plain_map_values(5) rec] obtain kvs fs
    where f: "plaintext_value m = cmap kvs" "w = CMap fs" "optional_field fs = map_of kvs" by blast
  show ?thesis
    using dec rec f
    by (cases m; cases "sp_body m")
      (auto simp: decode_sealed_plaintext_def plaintext_value_def field_eval split: if_splits)
qed

lemma decode_intent_encoded:
  assumes law: "reads_back C" and bs: "cd_canonical C (intent_value m) = Some bs"
    and dec: "decode_pairing_intent C bs = Ok m'"
  shows "m' = m"
proof -
  obtain w where rec: "recognise_value C bs ''pairing-intent'' = Ok w"
    using dec by (auto simp: decode_pairing_intent_def bind_result_Ok)
  from recognised_fields[OF law bs plain_map_values(6) rec] obtain kvs fs
    where f: "intent_value m = cmap kvs" "w = CMap fs" "optional_field fs = map_of kvs" by blast
  show ?thesis
    using dec rec f
    by (cases m)
      (auto simp: decode_pairing_intent_def intent_value_def field_eval validate_application_def
        split: if_splits)
qed

lemma decode_decision_encoded:
  assumes law: "reads_back C" and bs: "cd_canonical C (decision_value m) = Some bs"
    and dec: "decode_pairing_decision C bs = Ok m'"
  shows "m' = m"
proof -
  obtain w where rec: "recognise_value C bs ''pairing-decision'' = Ok w"
    using dec by (auto simp: decode_pairing_decision_def bind_result_Ok)
  from recognised_fields[OF law bs plain_map_values(7) rec] obtain kvs fs
    where f: "decision_value m = cmap kvs" "w = CMap fs" "optional_field fs = map_of kvs" by blast
  show ?thesis
    using dec rec f
    by (cases m; cases "pd_decision m")
      (auto simp: decode_pairing_decision_def decision_value_def field_eval split: if_splits)
qed

lemma decode_payload_encoded:
  assumes law: "reads_back C" and bs: "cd_canonical C (payload_value m) = Some bs"
    and dec: "decode_application_payload C bs = Ok m'"
  shows "m' = m"
proof -
  obtain w where rec: "recognise_value C bs ''application-payload'' = Ok w"
    using dec by (auto simp: decode_application_payload_def bind_result_Ok)
  from recognised_fields[OF law bs plain_map_values(8) rec] obtain kvs fs
    where f: "payload_value m = cmap kvs" "w = CMap fs" "optional_field fs = map_of kvs" by blast
  show ?thesis
    using dec rec f
    by (cases m)
      (auto simp: decode_application_payload_def payload_value_def field_eval split: if_splits)
qed


section \<open>A finite codec\<close>

text \<open>A codec that knows a table of values and their octets, for concrete inputs.\<close>

definition table_codec :: "(cbor \<times> bytes) list \<Rightarrow> codec" where
  "table_codec tbl =
     \<lparr>cd_read = (\<lambda>bs. map_option (\<lambda>v. (v, length bs)) (map_of (map (\<lambda>(v, b). (b, v)) tbl) bs)),
      cd_canonical = map_of tbl, cd_rule = (\<lambda>_. Some (\<lambda>_. True)),
      cd_url = (\<lambda>s. Some \<lparr>url_username = [], url_password = None, url_query = None,
        url_fragment = None, url_path = ''/'', url_origin = s\<rparr>)\<rparr>"

lemma table_codec_reads_back:
  assumes "distinct (map snd tbl)"
  shows "reads_back (table_codec tbl)"
proof -
  have "map_of (map (\<lambda>(v, b). (b, v)) tbl) bs = Some v" if "map_of tbl v = Some bs" for v bs
    using assms map_of_SomeD[OF that]
    by (intro map_of_is_SomeI) (force simp: comp_def case_prod_beta)+
  then show ?thesis by (auto simp: reads_back_def table_codec_def reorders_def)
qed

definition demo_table :: "(cbor \<times> bytes) list" where
  "demo_table =
     [(client_value (Put 3 [1, 2]), [10]), (server_value (Frame 3 [1, 2]), [11]),
      (CText ''type'', [1]), (CText ''seq'', [2]), (CText ''body'', [3]), (CText ''peer-seq'', [4]),
      (channel_value (Sealed AllocatorToClaimant 7 [9]), [12]), (CText ''v'', [5]),
      (CText ''kind'', [6]), (CText ''direction'', [7]), (CText ''counter'', [8]),
      (CText ''ciphertext'', [9])]"

lemmas demo_eval =
  table_codec_def recognise_value_def checked_bytes_def deterministic_bytes_def cmap_def
  encode_client_message_def encode_server_message_def encode_channel_frame_def
  decode_client_message_def decode_server_message_def decode_channel_frame_def encoded_direction_def
  direction_value_def encoded_locator_def locator_value_def demo_table_def u64_max_def u32_max_def
  u16_max_def u8_max_def

lemma demo_encodings:
  "encode_client_message (table_codec demo_table) (Put 3 [1, 2]) = Ok [10]"
  "encode_server_message (table_codec demo_table) (Frame 3 [1, 2]) = Ok [11]"
  "encode_channel_frame (table_codec demo_table) (Sealed AllocatorToClaimant 7 [9]) = Ok [12]"
  by (simp_all add: demo_eval field_eval)

lemma demo_reads_back: "reads_back (table_codec demo_table)"
  by (rule table_codec_reads_back) (simp add: demo_table_def)

section \<open>Properties\<close>

text \<open>
  C37: Client commands and server messages survive the wire: the octets an encoder returns are
  recognised as exactly the message that was encoded, for every message the encoder accepts.
\<close>

theorem relay_messages_roundtrip:
  assumes "reads_back C"
  shows "(encode_client_message C cm = Ok bs \<longrightarrow> decode_client_message C bs = Ok cm) \<and>
         (encode_server_message C sm = Ok bs \<longrightarrow> decode_server_message C bs = Ok sm)"
  using decode_client_encoded[OF assms] decode_server_encoded[OF assms]
  by (auto simp: encode_client_message_def encode_server_message_def checked_bytes_Ok)

theorem relay_messages_roundtrip_witness:
  "decode_client_message (table_codec demo_table) [10] = Ok (Put 3 [1, 2]) \<and>
   decode_server_message (table_codec demo_table) [11] = Ok (Frame 3 [1, 2])"
  using relay_messages_roundtrip[OF demo_reads_back, of "Put 3 [1, 2]" "[10]"]
    relay_messages_roundtrip[OF demo_reads_back, of _ "[11]" "Frame 3 [1, 2]"] demo_encodings
  by simp

text \<open>
  The same holds of everything the endpoints exchange: channel frames (whose nested CPace
  message must name the same side), CPace messages, sealed plaintexts, intents, decisions
  and payloads.
\<close>

lemma peer_messages_roundtrip:
  assumes "reads_back C"
  shows "(encode_channel_frame C f = Ok bs \<longrightarrow> decode_channel_frame C bs = Ok f) \<and>
         (encode_cpace_message C m = Ok bs \<longrightarrow> decode_cpace_message C bs = Ok m) \<and>
         (encode_sealed_plaintext C p = Ok bs \<longrightarrow> decode_sealed_plaintext C bs = Ok p) \<and>
         (encode_pairing_intent C i = Ok bs \<longrightarrow> decode_pairing_intent C bs = Ok i) \<and>
         (encode_pairing_decision C d = Ok bs \<longrightarrow> decode_pairing_decision C bs = Ok d) \<and>
         (encode_application_payload C pl = Ok bs \<longrightarrow> decode_application_payload C bs = Ok pl)"
  using decode_channel_encoded[OF assms] decode_cpace_encoded[OF assms]
    decode_plaintext_encoded[OF assms] decode_intent_encoded[OF assms]
    decode_decision_encoded[OF assms] decode_payload_encoded[OF assms]
  by (auto simp: encode_channel_frame_def encode_cpace_message_def encode_sealed_plaintext_def
      encode_pairing_intent_def encode_pairing_decision_def encode_application_payload_def
      checked_bytes_Ok)

theorem peer_messages_roundtrip_witness:
  "decode_channel_frame (table_codec demo_table) [12] = Ok (Sealed AllocatorToClaimant 7 [9])"
  using peer_messages_roundtrip[OF demo_reads_back, of "Sealed AllocatorToClaimant 7 [9]" "[12]"]
    demo_encodings by simp


text \<open>
  An invitation survives its encoding, including its locator and the two optional expected
  keys; and an accepted invitation always carries a valid application identifier and relay
  origin.
\<close>

lemma invitation_roundtrip:
  assumes "reads_back C" and "encode_invitation C i = Ok bs"
  shows "decode_invitation C bs = Ok i \<and> valid_application_id (inv_application i) \<and>
    valid_relay_origin C (inv_relay_origin i)"
proof -
  have dec: "decode_invitation C bs = Ok i"
    using assms decode_invitation_encoded[OF assms(1)] by (auto simp: encode_invitation_def checked_bytes_Ok)
  then have "valid_application_id (inv_application i)" "valid_relay_origin C (inv_relay_origin i)"
    by (auto simp: decode_invitation_def bind_result_Ok validate_application_def validate_origin_def
        split: if_splits)
  with dec show ?thesis by blast
qed

definition demo_invitation :: invitation where
  "demo_invitation = \<lparr>inv_application = ''a.b/c/v1'', inv_relay_origin = ''wss://r'',
     inv_locator = Nameplate 7, inv_secret = [1], inv_expected_allocator_key = None,
     inv_expected_claimant_key = None\<rparr>"

definition demo_invitation_table :: "(cbor \<times> bytes) list" where
  "demo_invitation_table =
     [(invitation_value demo_invitation, [20]), (CText ''version'', [1]), (CText ''suite'', [2]),
      (CText ''application'', [3]), (CText ''relay-origin'', [4]), (CText ''locator'', [5]),
      (CText ''secret'', [6])]"

lemma demo_invitation_encodes:
  "encode_invitation (table_codec demo_invitation_table) demo_invitation = Ok [20]"
  by (simp add: demo_eval field_eval demo_invitation_table_def demo_invitation_def
      encode_invitation_def decode_invitation_def invitation_value_def validate_application_def
      validate_origin_def valid_application_id_def valid_relay_origin_def valid_dns_label_def
      is_ascii_def is_ascii_alphabetic_def is_ascii_alphanumeric_def is_ascii_digit_def
      char_code_def starts_with_def)

theorem invitation_roundtrip_witness:
  "decode_invitation (table_codec demo_invitation_table) [20] = Ok demo_invitation"
proof -
  have "reads_back (table_codec demo_invitation_table)"
    by (rule table_codec_reads_back) (simp add: demo_invitation_table_def)
  from invitation_roundtrip[OF this demo_invitation_encodes] show ?thesis by simp
qed

text \<open>No map anywhere in the value repeats a key (keys compared by their canonical octets).\<close>

inductive unique_keys :: "codec \<Rightarrow> cbor \<Rightarrow> bool" for C where
  unique_int: "unique_keys C (CInteger i)"
| unique_bytes: "unique_keys C (CBytes b)"
| unique_float: "unique_keys C (CFloat f)"
| unique_text: "unique_keys C (CText t)"
| unique_bool: "unique_keys C (CBool b)"
| unique_null: "unique_keys C CNull"
| unique_tag: "unique_keys C v \<Longrightarrow> unique_keys C (CTag t v)"
| unique_array: "(\<And>v. v \<in> set vs \<Longrightarrow> unique_keys C v) \<Longrightarrow> unique_keys C (CArray vs)"
| unique_map: "distinct (map (cd_canonical C \<circ> fst) es) \<Longrightarrow>
    (\<And>k v. (k, v) \<in> set es \<Longrightarrow> unique_keys C k \<and> unique_keys C v) \<Longrightarrow> unique_keys C (CMap es)"

lemma no_duplicate_unique:
  "has_duplicate_key C v = Ok False \<Longrightarrow> unique_keys C v"
  "any_duplicate C vs = Ok False \<Longrightarrow> (\<forall>v \<in> set vs. unique_keys C v)"
  "map_duplicate C keys es = Ok False \<Longrightarrow>
     distinct (map (cd_canonical C \<circ> fst) es) \<and>
     (\<forall>k v. (k, v) \<in> set es \<longrightarrow> unique_keys C k \<and> unique_keys C v \<and>
        (\<exists>b. cd_canonical C k = Some b \<and> b \<notin> keys))"
proof (induction C v and C vs and C keys es
    rule: has_duplicate_key_any_duplicate_map_duplicate.induct, goal_cases)
  case (13 C keys key item entries)
  from 13(4) obtain b where b: "cd_canonical C key = Some b" "b \<notin> keys"
    and h: "has_duplicate_key C key = Ok False" "has_duplicate_key C item = Ok False"
    and r: "map_duplicate C (insert b keys) entries = Ok False"
    by (auto simp: bind_result_Ok split: if_splits)
  have "distinct (map (cd_canonical C \<circ> fst) entries)"
    and rest: "\<forall>k v. (k, v) \<in> set entries \<longrightarrow> unique_keys C k \<and> unique_keys C v \<and>
        (\<exists>b'. cd_canonical C k = Some b' \<and> b' \<notin> insert b keys)"
    using 13(3)[of b False False] b h r by auto
  moreover have "unique_keys C key" "unique_keys C item"
    using 13(1)[of b] 13(2)[of b False] b h by auto
  moreover have "cd_canonical C key \<notin> set (map (cd_canonical C \<circ> fst) entries)"
    using rest b(1) by fastforce
  ultimately show ?case using b by (auto, blast)
qed (auto intro: unique_keys.intros simp: bind_result_Ok split: if_splits)

text \<open>
  C36: The gate every recogniser goes through accepts octets only if they are the whole input,
  exactly the canonical encoding of the value they denote, free of repeated map keys at
  every depth, and inside the selected grammar rule; every other input is refused with an
  error. In particular two different octet strings are never recognised as one value.
\<close>

theorem recognised_is_canonical:
  assumes "recognise_value C input rule = Ok v"
  shows "cd_read C input = Some (v, length input) \<and> cd_canonical C v = Some input \<and>
    unique_keys C v \<and> (\<exists>valid. cd_rule C rule = Some valid \<and> valid v) \<and>
    (\<forall>input' rule'. recognise_value C input' rule' = Ok v \<longrightarrow> input' = input)"
  using assms no_duplicate_unique(1)[of C v] by (auto simp: recognise_value_Ok)

theorem recognised_is_canonical_witness:
  "cd_canonical (table_codec demo_table) (server_value (Frame 3 [1, 2])) = Some [11] \<and>
   unique_keys (table_codec demo_table) (server_value (Frame 3 [1, 2]))"
proof -
  have "recognise_value (table_codec demo_table) [11] ''server-message'' = Ok (server_value (Frame 3 [1, 2]))"
    by (simp add: demo_eval)
  from recognised_is_canonical[OF this] show ?thesis by blast
qed

section \<open>Application identifiers\<close>

fun join :: "char \<Rightarrow> string list \<Rightarrow> string" where
  "join sep [] = []"
| "join sep [part] = part"
| "join sep (part # parts) = part @ sep # join sep parts"

lemma split_on_nonempty: "split_on sep s \<noteq> []"
  by (cases s) (auto split: list.splits)

lemma join_split: "join sep (split_on sep s) = s"
proof (induction s)
  case Nil
  then show ?case by simp
next
  case (Cons c s)
  obtain p ps where sp: "split_on sep s = p # ps"
    using split_on_nonempty[of sep s] by (cases "split_on sep s") auto
  with Cons show ?case by (cases ps) auto
qed

lemma split_no_sep: "p \<in> set (split_on sep s) \<Longrightarrow> sep \<notin> set p"
proof (induction s arbitrary: p)
  case Nil
  then show ?case by simp
next
  case (Cons c s)
  obtain q qs where sp: "split_on sep s = q # qs"
    using split_on_nonempty[of sep s] by (cases "split_on sep s") auto
  with Cons show ?case by (auto split: if_splits)
qed

lemma split_part: "sep \<notin> set part \<Longrightarrow> split_on sep part = [part]"
  by (induction part) auto

lemma split_cons_part: "sep \<notin> set part \<Longrightarrow> split_on sep (part @ sep # s) = part # split_on sep s"
  by (induction part) auto

lemma split_join:
  "parts \<noteq> [] \<Longrightarrow> (\<forall>p \<in> set parts. sep \<notin> set p) \<Longrightarrow> split_on sep (join sep parts) = parts"
  by (induction sep parts rule: join.induct) (auto simp: split_part split_cons_part)

lemma split_on_iff:
  assumes "parts \<noteq> []"
  shows "split_on sep s = parts \<longleftrightarrow> s = join sep parts \<and> (\<forall>p \<in> set parts. sep \<notin> set p)"
  using split_join[OF assms] join_split[of sep s] split_no_sep[of _ sep s] by metis

definition label_char :: "char \<Rightarrow> bool" where
  "label_char c \<longleftrightarrow> is_ascii_alphanumeric c \<or> c = CHR ''-''"

text \<open>A label: a letter, then letters, digits and hyphens, not ending in a hyphen.\<close>

definition label_grammar :: "string \<Rightarrow> bool" where
  "label_grammar s \<longleftrightarrow> s \<noteq> [] \<and> is_ascii_alphabetic (hd s) \<and> list_all label_char s \<and>
     is_ascii_alphanumeric (last s)"

lemma valid_dns_label_grammar: "valid_dns_label s \<longleftrightarrow> label_grammar s"
proof (cases s)
  case Nil
  then show ?thesis by (simp add: valid_dns_label_def label_grammar_def)
next
  case (Cons c t)
  show ?thesis
  proof (cases t rule: rev_cases)
    case Nil
    with Cons show ?thesis
      by (auto simp: valid_dns_label_def label_grammar_def label_char_def is_ascii_alphanumeric_def)
  next
    case (snoc m l)
    with Cons show ?thesis
      by (auto simp: valid_dns_label_def label_grammar_def label_char_def[abs_def] is_ascii_alphanumeric_def)
  qed
qed

lemma label_char_ascii: "label_char c \<Longrightarrow> char_code c < 128 \<and> c \<noteq> CHR ''/'' \<and> c \<noteq> CHR ''.''"
  by (auto simp: label_char_def is_ascii_alphanumeric_def is_ascii_alphabetic_def is_ascii_digit_def
      char_code_def)

lemma label_grammar_chars:
  "label_grammar s \<Longrightarrow> (\<forall>c \<in> set s. char_code c < 128 \<and> c \<noteq> CHR ''/'' \<and> c \<noteq> CHR ''.'')"
  using label_char_ascii by (auto simp: label_grammar_def list_all_iff)

lemma join_chars: "c \<in> set (join sep parts) \<Longrightarrow> c = sep \<or> (\<exists>p \<in> set parts. c \<in> set p)"
  by (induction sep parts rule: join.induct) auto

text \<open>
  The application-identifier recogniser accepts exactly the identifiers of the grammar: at
  least two dot-separated labels, a profile name that starts with a letter, and a version of
  one or two digits, \<^verbatim>\<open>label.label/profile/vN\<close>.
\<close>

lemma application_id_grammar:
  "valid_application_id s \<longleftrightarrow>
     (\<exists>labels profile digits.
        s = join (CHR ''.'') labels @ ''/'' @ profile @ ''/v'' @ digits \<and>
        2 \<le> length labels \<and> list_all label_grammar labels \<and>
        profile \<noteq> [] \<and> is_ascii_alphabetic (hd profile) \<and> list_all label_char profile \<and>
        length digits \<in> {1, 2} \<and> list_all is_ascii_digit digits)"
proof
  assume valid: "valid_application_id s"
  then obtain domain profile version where
    sp: "split_on (CHR ''/'') s = [domain, profile, version]"
    by (auto simp: valid_application_id_def split: if_splits list.splits)
  obtain l ls where dm: "split_on (CHR ''.'') domain = l # ls"
    using split_on_nonempty[of "CHR ''.''" domain] by (cases "split_on (CHR ''.'') domain") auto
  from valid sp dm obtain digits where v: "version = CHR ''v'' # digits"
    and rest: "valid_dns_label l" "ls \<noteq> []" "list_all valid_dns_label ls" "profile \<noteq> []"
      "is_ascii_alphabetic (hd profile)" "list_all label_char profile"
      "1 \<le> length digits" "length digits \<le> 2" "list_all is_ascii_digit digits"
    by (auto simp: valid_application_id_def label_char_def[abs_def] split: if_splits list.splits)
  have "s = join (CHR ''/'') [domain, profile, version]" using sp join_split[of "CHR ''/''" s] by simp
  moreover have "domain = join (CHR ''.'') (l # ls)" using dm join_split[of "CHR ''.''" domain] by simp
  ultimately have "s = join (CHR ''.'') (l # ls) @ ''/'' @ profile @ ''/v'' @ digits" by (simp add: v)
  moreover have "2 \<le> length (l # ls)" using rest(2) by (cases ls) auto
  moreover have "list_all label_grammar (l # ls)"
    using rest(1,3) by (simp add: valid_dns_label_grammar list_all_iff)
  moreover have "length digits \<in> {1, 2}" using rest(7,8) by auto
  ultimately show "\<exists>labels profile digits.
        s = join (CHR ''.'') labels @ ''/'' @ profile @ ''/v'' @ digits \<and>
        2 \<le> length labels \<and> list_all label_grammar labels \<and>
        profile \<noteq> [] \<and> is_ascii_alphabetic (hd profile) \<and> list_all label_char profile \<and>
        length digits \<in> {1, 2} \<and> list_all is_ascii_digit digits"
    using rest by blast
next
  assume "\<exists>labels profile digits.
        s = join (CHR ''.'') labels @ ''/'' @ profile @ ''/v'' @ digits \<and>
        2 \<le> length labels \<and> list_all label_grammar labels \<and>
        profile \<noteq> [] \<and> is_ascii_alphabetic (hd profile) \<and> list_all label_char profile \<and>
        length digits \<in> {1, 2} \<and> list_all is_ascii_digit digits"
  then obtain labels profile digits where
    s: "s = join (CHR ''.'') labels @ ''/'' @ profile @ ''/v'' @ digits"
    and lb: "2 \<le> length labels" "list_all label_grammar labels"
    and pr: "profile \<noteq> []" "is_ascii_alphabetic (hd profile)" "list_all label_char profile"
    and dg: "length digits \<in> {1, 2}" "list_all is_ascii_digit digits" by blast
  have chars: "char_code c < 128 \<and> c \<noteq> CHR ''/''" if "c \<in> set (join (CHR ''.'') labels)" for c
    using join_chars[OF that] lb(2) label_grammar_chars
    by (fastforce simp: list_all_iff char_code_def)
  have pc: "char_code c < 128 \<and> c \<noteq> CHR ''/''" if "c \<in> set profile" for c
    using pr(3) label_char_ascii that by (auto simp: list_all_iff)
  have dc: "char_code c < 128 \<and> c \<noteq> CHR ''/''" if "c \<in> set digits" for c
    using dg(2) that by (auto simp: list_all_iff is_ascii_digit_def char_code_def)
  have ascii: "is_ascii s"
    using chars pc dc by (auto simp: s is_ascii_def list_all_iff char_code_def)
  have "split_on (CHR ''/'') s = [join (CHR ''.'') labels, profile, CHR ''v'' # digits]"
    using chars pc dc by (intro split_on_iff[THEN iffD2]) (auto simp: s)
  moreover have "split_on (CHR ''.'') (join (CHR ''.'') labels) = labels"
    using lb label_grammar_chars by (intro split_join) (auto simp: list_all_iff)
  moreover obtain l ls where "labels = l # ls" "ls \<noteq> []"
    using lb(1) by (cases labels) (auto, metis Suc_le_D length_0_conv nat.distinct(1))
  ultimately show "valid_application_id s"
    using ascii lb(2) pr dg
    by (cases profile) (auto simp: valid_application_id_def valid_dns_label_grammar list_all_iff
        label_char_def)
qed

end
