(* ===== verification/Storage.thy ===== *)
theory Storage
  imports Mailbox_Props Wire_Props
begin

text \<open>
  Mailbox persistence, \<^verbatim>\<open>src/src/storage.rs\<close>: the canonical record of a snapshot and its
  recogniser, the in-memory adapter, and the names the directory adapter uses. The trait
  \<^verbatim>\<open>MailboxStore\<close> is the record \<open>store_ops\<close>; what the relay relies on is the locale
  \<open>mailbox_store\<close>, interpreted here for the in-memory adapter.
\<close>

section \<open>Records\<close>

definition STORE_DOMAIN_V1 :: string where
  "STORE_DOMAIN_V1 = ''cbcl-pairing-mailbox-store/v1''"

definition STORE_DOMAIN_V2 :: string where
  "STORE_DOMAIN_V2 = ''cbcl-pairing-mailbox-store/v2''"

datatype store_error = StoreIo | StoreMalformed | StoreConflict

fun membership_number :: "membership \<Rightarrow> u64" where
  "membership_number Allocator = 0"
| "membership_number Claimant = 1"

fun close_number :: "close_reason \<Rightarrow> u64" where
  "close_number Closed = 0"
| "close_number Crowded = 1"
| "close_number Expired = 2"
| "close_number Conflict = 3"

definition close_reason_of :: "u64 \<Rightarrow> (close_reason, store_error) result" where
  "close_reason_of v =
     (if v = 0 then Ok Closed else if v = 1 then Ok Crowded else if v = 2 then Ok Expired
      else if v = 3 then Ok Conflict else Err StoreMalformed)"

definition encode_admission :: "admission_snapshot \<Rightarrow> cbor" where
  "encode_admission a =
     (case a of
        V1 \<Rightarrow> CArray [CInteger 0]
      | V2Pending commitment \<Rightarrow> CArray [CInteger 1, CBytes commitment]
      | V2Claimed \<Rightarrow> CArray [CInteger 2]
      | V2Closed \<Rightarrow> CArray [CInteger 3])"

definition encode_status :: "mailbox_status \<Rightarrow> cbor" where
  "encode_status st =
     (case st of
        Waiting \<Rightarrow> CArray [CInteger 0]
      | Paired \<Rightarrow> CArray [CInteger 1]
      | Terminal reason \<Rightarrow> CArray [CInteger 2, CInteger (int (close_number reason))])"

definition encode_sequence :: "sequence_snapshot \<Rightarrow> cbor" where
  "encode_sequence s =
     CArray [CInteger (int (membership_number (ss_owner s))), CInteger (int (ss_seq s)),
             CBytes (ss_body_digest s), CInteger (int (ss_body_len s)),
             (case ss_body s of None \<Rightarrow> CNull | Some body \<Rightarrow> CBytes body)]"

definition record_value :: "mailbox_snapshot \<Rightarrow> cbor" where
  "record_value sn = CArray
     ([CText (if sn_admission sn = V1 then STORE_DOMAIN_V1 else STORE_DOMAIN_V2),
       CBytes (sn_mailbox_id sn),
       (case sn_nameplate sn of None \<Rightarrow> CNull | Some v \<Rightarrow> CInteger (int v)),
       CInteger (int (sn_expires_at sn)),
       encode_status (sn_status sn),
       CArray (map CBytes (sn_membership_hashes sn)),
       CArray (map encode_sequence (sn_sequences sn))] @
      (if sn_admission sn = V1 then [] else [encode_admission (sn_admission sn)]))"

text \<open>\<^verbatim>\<open>usize\<close> fits \<^verbatim>\<open>u64\<close>, so the length conversion of the source cannot fail.\<close>

definition store_encode :: "codec \<Rightarrow> mailbox_snapshot \<Rightarrow> (bytes, store_error) result" where
  "store_encode C sn = ok_or StoreMalformed (cd_canonical C (record_value sn))"

definition integer :: "cbor \<Rightarrow> (u64, store_error) result" where
  "integer v =
     (case v of
        CInteger i \<Rightarrow> if 0 \<le> i \<and> i \<le> int u64_max then Ok (nat i) else Err StoreMalformed
      | _ \<Rightarrow> Err StoreMalformed)"

definition fixed :: "nat \<Rightarrow> cbor \<Rightarrow> (bytes, store_error) result" where
  "fixed n v =
     (case v of CBytes b \<Rightarrow> if length b = n then Ok b else Err StoreMalformed | _ \<Rightarrow> Err StoreMalformed)"

definition decode_admission :: "cbor \<Rightarrow> (admission_snapshot, store_error) result" where
  "decode_admission v =
     (case v of
        CArray [kind] \<Rightarrow>
          bind_result (integer kind) (\<lambda>k.
            if k = 0 then Ok V1 else if k = 2 then Ok V2Claimed else if k = 3 then Ok V2Closed
            else Err StoreMalformed)
      | CArray [kind, commitment] \<Rightarrow>
          bind_result (integer kind) (\<lambda>k.
            if k = 1 then bind_result (fixed 32 commitment) (\<lambda>c. Ok (V2Pending c))
            else Err StoreMalformed)
      | _ \<Rightarrow> Err StoreMalformed)"

definition decode_status :: "cbor \<Rightarrow> (mailbox_status, store_error) result" where
  "decode_status v =
     (case v of
        CArray [kind] \<Rightarrow>
          bind_result (integer kind) (\<lambda>k.
            if k = 0 then Ok Waiting else if k = 1 then Ok Paired else Err StoreMalformed)
      | CArray [kind, reason] \<Rightarrow>
          bind_result (integer kind) (\<lambda>k.
            if k = 2 then
              bind_result (integer reason) (\<lambda>r.
              bind_result (close_reason_of r) (\<lambda>cr. Ok (Terminal cr)))
            else Err StoreMalformed)
      | _ \<Rightarrow> Err StoreMalformed)"

definition decode_sequence :: "cbor \<Rightarrow> (sequence_snapshot, store_error) result" where
  "decode_sequence v =
     (case v of
        CArray [owner, seq, digest, body_len, body] \<Rightarrow>
          bind_result (integer owner) (\<lambda>o1.
          bind_result (if o1 = 0 then Ok Allocator else if o1 = 1 then Ok Claimant
                       else Err StoreMalformed) (\<lambda>ow.
          bind_result (integer seq) (\<lambda>s.
          bind_result (ok_or StoreMalformed (try_into u8_max s)) (\<lambda>sq.
          bind_result (fixed 32 digest) (\<lambda>dg.
          bind_result (integer body_len) (\<lambda>bl.
          bind_result (case body of CNull \<Rightarrow> Ok None | CBytes b \<Rightarrow> Ok (Some b)
                       | _ \<Rightarrow> Err StoreMalformed) (\<lambda>bd.
            Ok \<lparr>ss_owner = ow, ss_seq = sq, ss_body_digest = dg, ss_body_len = bl,
                ss_body = bd\<rparr>)))))))
      | _ \<Rightarrow> Err StoreMalformed)"

definition decode_nameplate :: "cbor \<Rightarrow> (u32 option, store_error) result" where
  "decode_nameplate v =
     (case v of
        CNull \<Rightarrow> Ok None
      | _ \<Rightarrow> bind_result (integer v) (\<lambda>n.
          bind_result (ok_or StoreMalformed (try_into u32_max n)) (\<lambda>np. Ok (Some np))))"

definition array_items :: "cbor \<Rightarrow> (cbor list, store_error) result" where
  "array_items v = (case v of CArray items \<Rightarrow> Ok items | _ \<Rightarrow> Err StoreMalformed)"

definition decode_snapshot :: "cbor list \<Rightarrow> (mailbox_snapshot, store_error) result" where
  "decode_snapshot parts =
     bind_result
       (case parts of
          [domain, mailbox_id, nameplate, expires_at, st, hashes, sequences] \<Rightarrow>
            if domain = CText STORE_DOMAIN_V1 then Ok V1 else Err StoreMalformed
        | [domain, mailbox_id, nameplate, expires_at, st, hashes, sequences, admission] \<Rightarrow>
            if domain = CText STORE_DOMAIN_V2 then decode_admission admission
            else Err StoreMalformed
        | _ \<Rightarrow> Err StoreMalformed) (\<lambda>admission.
     bind_result (fixed 32 (parts ! 1)) (\<lambda>mailbox_id.
     bind_result (decode_nameplate (parts ! 2)) (\<lambda>nameplate.
     bind_result (decode_status (parts ! 4)) (\<lambda>st.
     bind_result (array_items (parts ! 5)) (\<lambda>hashes.
     bind_result (collect_results (fixed 32) hashes) (\<lambda>membership_hashes.
     bind_result (array_items (parts ! 6)) (\<lambda>sequences.
     bind_result (collect_results decode_sequence sequences) (\<lambda>seqs.
     bind_result (integer (parts ! 3)) (\<lambda>expires_at.
       Ok \<lparr>sn_mailbox_id = mailbox_id, sn_nameplate = nameplate, sn_expires_at = expires_at,
           sn_status = st, sn_admission = admission, sn_membership_hashes = membership_hashes,
           sn_sequences = seqs\<rparr>)))))))))"

definition store_decode ::
  "codec \<Rightarrow> (bytes \<Rightarrow> bytes) \<Rightarrow> bytes \<Rightarrow> (mailbox, store_error) result" where
  "store_decode C sha256 input =
     bind_result (ok_or StoreMalformed (cd_read C input)) (\<lambda>(v, _).
     bind_result (ok_or StoreMalformed (cd_canonical C v)) (\<lambda>canonical.
       if canonical \<noteq> input then Err StoreMalformed
       else bind_result (array_items v) (\<lambda>parts.
         bind_result (decode_snapshot parts) (\<lambda>sn.
           map_err (\<lambda>_. StoreMalformed) (from_snapshot sha256 sn)))))"

section \<open>The store trait and the in-memory adapter\<close>

record 's store_ops =
  st_load :: "'s \<Rightarrow> (mailbox list, store_error) result \<times> 's"
  st_put :: "'s \<Rightarrow> mailbox \<Rightarrow> (unit, store_error) result \<times> 's"
  st_remove :: "'s \<Rightarrow> bytes \<Rightarrow> (unit, store_error) result \<times> 's"

type_synonym memory_store = "(bytes, bytes) btree"

definition memory_load ::
  "codec \<Rightarrow> (bytes \<Rightarrow> bytes) \<Rightarrow> memory_store \<Rightarrow> (mailbox list, store_error) result \<times> memory_store" where
  "memory_load C sha256 s = (collect_results (store_decode C sha256) (map snd s), s)"

definition memory_put ::
  "codec \<Rightarrow> memory_store \<Rightarrow> mailbox \<Rightarrow> (unit, store_error) result \<times> memory_store" where
  "memory_put C s mb =
     (let sn = snapshot mb
      in case store_encode C sn of
           Ok bs \<Rightarrow> (Ok (), bt_insert (sn_mailbox_id sn) bs s)
         | Err e \<Rightarrow> (Err e, s)
         | Panic \<Rightarrow> (Panic, s))"

definition memory_remove :: "memory_store \<Rightarrow> bytes \<Rightarrow> (unit, store_error) result \<times> memory_store" where
  "memory_remove s mailbox_id = (Ok (), bt_remove mailbox_id s)"

definition memory_ops :: "codec \<Rightarrow> (bytes \<Rightarrow> bytes) \<Rightarrow> memory_store store_ops" where
  "memory_ops C sha256 =
     \<lparr>st_load = memory_load C sha256, st_put = memory_put C, st_remove = memory_remove\<rparr>"

section \<open>Names of the directory adapter\<close>

definition hex_digit :: "nat \<Rightarrow> char" where
  "hex_digit n = ''0123456789abcdef'' ! n"

definition lower_hex :: "bytes \<Rightarrow> string" where
  "lower_hex bs =
     concat (map (\<lambda>b. [hex_digit (unat (drop_bit 4 b)), hex_digit (unat (and b 0x0f))]) bs)"

definition record_name :: "bytes \<Rightarrow> string" where
  "record_name mailbox_id = lower_hex mailbox_id @ ''.cbor''"

definition strip_suffix :: "string \<Rightarrow> string \<Rightarrow> string option" where
  "strip_suffix suffix s =
     (if length suffix \<le> length s \<and> drop (length s - length suffix) s = suffix
      then Some (take (length s - length suffix) s) else None)"

fun split_once :: "char \<Rightarrow> string \<Rightarrow> (string \<times> string) option" where
  "split_once sep [] = None"
| "split_once sep (c # cs) =
     (if c = sep then Some ([], cs)
      else map_option (\<lambda>(a, b). (c # a, b)) (split_once sep cs))"

definition is_lower_hexdigit :: "char \<Rightarrow> bool" where
  "is_lower_hexdigit c \<longleftrightarrow> is_ascii_digit c \<or> 97 \<le> char_code c \<and> char_code c \<le> 102"

definition is_store_temporary :: "string \<Rightarrow> bool" where
  "is_store_temporary name =
     (case name of
        [] \<Rightarrow> False
      | first # rest \<Rightarrow>
          if first \<noteq> CHR ''.'' then False
          else case strip_suffix ''.tmp'' rest of
             None \<Rightarrow> False
           | Some body \<Rightarrow>
               (case split_once (CHR ''.'') body of
                  None \<Rightarrow> False
                | Some (mailbox, process) \<Rightarrow>
                    length mailbox = 64 \<and> list_all is_lower_hexdigit mailbox \<and>
                    process \<noteq> [] \<and> list_all is_ascii_digit process))"

end
