(* ===== verification/Storage_Props.thy ===== *)
theory Storage_Props
  imports Storage
begin

text \<open>
  A stored record restores the mailbox it was written from; the in-memory adapter keeps the
  contract of the store trait; and the file names of the directory adapter are unambiguous.
\<close>

section \<open>Records restore mailboxes\<close>

text \<open>The widths of the fixed-size arrays of a mailbox.\<close>

definition typed_mailbox :: "mailbox \<Rightarrow> bool" where
  "typed_mailbox mb \<longleftrightarrow>
     length (mb_mailbox_id mb) = 32 \<and> list_all (\<lambda>h. length h = 32) (membership_hashes mb) \<and>
     list_all (\<lambda>f. length (fr_digest f) = 32) (all_frames mb) \<and>
     (case mb_admission mb of V2Pending c \<Rightarrow> length c = 32 | _ \<Rightarrow> True)"

definition typed_sequence :: "sequence_snapshot \<Rightarrow> bool" where
  "typed_sequence s \<longleftrightarrow>
     ss_seq s \<le> u8_max \<and> length (ss_body_digest s) = 32 \<and> ss_body_len s \<le> u64_max"

lemma decode_encoded_sequence: "typed_sequence s \<Longrightarrow> decode_sequence (encode_sequence s) = Ok s"
  by (cases s; cases "ss_owner s"; cases "ss_body s")
    (auto simp: typed_sequence_def decode_sequence_def encode_sequence_def integer_def fixed_def
      machine_int u8_max_def u64_max_def)

lemma decode_encoded_status: "decode_status (encode_status st) = Ok st"
proof (cases st)
  case (Terminal r)
  then show ?thesis
    by (cases r) (simp_all add: decode_status_def encode_status_def integer_def close_reason_of_def u64_max_def)
qed (simp_all add: decode_status_def encode_status_def integer_def u64_max_def)

lemma decode_encoded_admission:
  "(case a of V2Pending c \<Rightarrow> length c = 32 | _ \<Rightarrow> True) \<Longrightarrow> decode_admission (encode_admission a) = Ok a"
  by (cases a) (simp_all add: decode_admission_def encode_admission_def integer_def fixed_def u64_max_def)

lemma decode_encoded_nameplate:
  "(case np of None \<Rightarrow> True | Some n \<Rightarrow> n \<le> MAX_NAMEPLATE) \<Longrightarrow>
   decode_nameplate (case np of None \<Rightarrow> CNull | Some v \<Rightarrow> CInteger (int v)) = Ok np"
  by (cases np) (auto simp: decode_nameplate_def integer_def machine_int MAX_NAMEPLATE_def u32_max_def u64_max_def)

lemma member_sequences_typed:
  assumes "member_wf sha256 m" and "\<forall>f \<in> set (ms_frames m). length (fr_digest f) = 32"
    and "s \<in> set (member_sequences owner m)"
  shows "typed_sequence s"
proof -
  obtain f where f: "f \<in> set (ms_frames m)" and s: "ss_seq s = fr_seq f"
    "ss_body_digest s = fr_digest f" "ss_body_len s = fr_body_len f"
    using assms(3) by (auto simp: member_sequences_def)
  have "fr_seq f \<in> set (map fr_seq (ms_frames m))" using f by simp
  moreover have "map fr_seq (ms_frames m) = [0..<length (ms_frames m)]"
    using assms(1) by (simp add: member_wf_def)
  ultimately have "fr_seq f < length (ms_frames m)" by simp
  moreover have "fr_body_len f \<le> MAX_FRAME_BODY_BYTES"
    using assms(1) f by (auto simp: member_wf_def list_all_iff frame_wf_def)
  ultimately show ?thesis
    using assms(1,2) f s by (auto simp: typed_sequence_def member_wf_def mailbox_constants u8_max_def u64_max_def)
qed

lemma snapshot_typed:
  assumes "mailbox_wf sha256 mb" and "typed_mailbox mb" and "s \<in> set (sn_sequences (snapshot mb))"
  shows "typed_sequence s"
  using assms member_sequences_typed[of sha256 "mb_allocator mb" s Allocator]
    member_sequences_typed[of sha256 "the (mb_claimant mb)" s Claimant]
  by (auto simp: snapshot_def mailbox_wf_def typed_mailbox_def all_frames_def list_all_iff split: option.splits)

lemma decode_record:
  assumes wf: "mailbox_wf sha256 mb" and typed: "typed_mailbox mb"
  shows "\<exists>parts. record_value (snapshot mb) = CArray parts \<and> decode_snapshot parts = Ok (snapshot mb)"
proof -
  let ?sn = "snapshot mb"
  have hashes: "collect_results (fixed 32) (map CBytes (sn_membership_hashes ?sn)) =
      Ok (map (\<lambda>h. h) (sn_membership_hashes ?sn))"
    using typed by (intro collect_results_map)
      (auto simp: fixed_def typed_mailbox_def membership_hashes_def snapshot_def list_all_iff)
  have seqs: "collect_results decode_sequence (map encode_sequence (sn_sequences ?sn)) =
      Ok (map (\<lambda>s. s) (sn_sequences ?sn))"
    using decode_encoded_sequence[OF snapshot_typed[OF wf typed]] by (intro collect_results_map) auto
  have np: "decode_nameplate (case sn_nameplate ?sn of None \<Rightarrow> CNull | Some v \<Rightarrow> CInteger (int v)) =
      Ok (sn_nameplate ?sn)"
    using wf by (intro decode_encoded_nameplate) (simp add: mailbox_wf_def snapshot_def)
  have id: "length (sn_mailbox_id ?sn) = 32" and ex: "sn_expires_at ?sn \<le> u64_max"
    using wf typed by (simp_all add: typed_mailbox_def mailbox_wf_def snapshot_def)
  have ad: "decode_admission (encode_admission (sn_admission ?sn)) = Ok (sn_admission ?sn)"
    using typed by (intro decode_encoded_admission) (simp add: typed_mailbox_def snapshot_def)
  show ?thesis
    using hashes seqs np id ex ad
    by (cases "?sn") (auto simp: record_value_def decode_snapshot_def array_items_def
        decode_encoded_status fixed_def integer_def numeral_eq_Suc)
qed

lemma map_free_record: "map_free (record_value sn)"
proof -
  have "map_free (encode_sequence s)" for s
    by (simp add: encode_sequence_def split: option.split)
  moreover have "map_free (encode_status st)" for st
    by (simp add: encode_status_def split: mailbox_status.split)
  moreover have "map_free (encode_admission a)" for a
    by (simp add: encode_admission_def split: admission_snapshot.split)
  ultimately show ?thesis
    by (auto simp: record_value_def list_all_iff split: option.split)
qed

lemma store_roundtrip_lemma:
  assumes law: "reads_back C" and wf: "mailbox_wf sha256 mb" and typed: "typed_mailbox mb"
    and bs: "store_encode C (snapshot mb) = Ok bs"
  shows "store_decode C sha256 bs = Ok mb"
proof -
  let ?v = "record_value (snapshot mb)"
  have can: "cd_canonical C ?v = Some bs" using bs by (simp add: store_encode_def)
  have "flat ?v" using map_free_record[of "snapshot mb"] by (cases ?v) (auto simp: flat_def)
  with law can obtain w where w: "cd_read C bs = Some (w, length bs)" "reorders ?v w"
    by (auto simp: reads_back_def)
  have "w = ?v" using w(2) map_free_record[of "snapshot mb"] by (auto simp: reorders_def)
  moreover obtain parts where "?v = CArray parts" "decode_snapshot parts = Ok (snapshot mb)"
    using decode_record[OF wf typed] by blast
  ultimately show ?thesis
    using w can snapshot_restores[OF wf] by (simp add: store_decode_def array_items_def)
qed

section \<open>The contract of a mailbox store\<close>

locale mailbox_store =
  fixes ops :: "'s store_ops"
    and records :: "'s \<Rightarrow> bytes \<Rightarrow> mailbox option"
    and inv :: "'s \<Rightarrow> bool"
    and storable :: "mailbox \<Rightarrow> bool"
  assumes put_ok: "inv s \<Longrightarrow> storable mb \<Longrightarrow> st_put ops s mb = (Ok (), s') \<Longrightarrow>
      inv s' \<and> records s' = (records s)(mb_mailbox_id mb \<mapsto> mb)"
    and put_fail: "inv s \<Longrightarrow> storable mb \<Longrightarrow> st_put ops s mb = (r, s') \<Longrightarrow> r \<noteq> Ok () \<Longrightarrow>
      inv s' \<and> records s' = records s \<and> r \<noteq> Panic"
    and remove_ok: "inv s \<Longrightarrow> st_remove ops s mid = (Ok (), s') \<Longrightarrow>
      inv s' \<and> records s' = (records s)(mid := None)"
    and remove_fail: "inv s \<Longrightarrow> st_remove ops s mid = (r, s') \<Longrightarrow> r \<noteq> Ok () \<Longrightarrow>
      inv s' \<and> records s' = records s \<and> r \<noteq> Panic"
    and load_ok: "inv s \<Longrightarrow> st_load ops s = (Ok ms, s') \<Longrightarrow>
      inv s' \<and> records s' = records s \<and> distinct (map mb_mailbox_id ms) \<and>
      (\<forall>mid mb. records s mid = Some mb \<longleftrightarrow> mb \<in> set ms \<and> mb_mailbox_id mb = mid)"
begin

text \<open>Any sequence of writes and deletions, successful or not, keeps the invariant.\<close>

lemma put_inv: "inv s \<Longrightarrow> storable mb \<Longrightarrow> st_put ops s mb = (r, s') \<Longrightarrow> inv s' \<and> r \<noteq> Panic"
  using put_ok[of s mb s'] put_fail[of s mb r s'] by (cases "r = Ok ()") simp_all

lemma remove_inv: "inv s \<Longrightarrow> st_remove ops s mid = (r, s') \<Longrightarrow> inv s' \<and> r \<noteq> Panic"
  using remove_ok[of s mid s'] remove_fail[of s mid r s'] by (cases "r = Ok ()") simp_all

lemma put_load:
  assumes "inv s" and "storable mb" and "st_put ops s mb = (Ok (), s1)"
    and "st_load ops s1 = (Ok ms, s2)"
  shows "mb' \<in> set ms \<longleftrightarrow>
    mb' = mb \<or> records s (mb_mailbox_id mb') = Some mb' \<and> mb_mailbox_id mb' \<noteq> mb_mailbox_id mb"
proof -
  have p: "inv s1 \<and> records s1 = (records s)(mb_mailbox_id mb \<mapsto> mb)"
    using put_ok[OF assms(1-3)] .
  then have "mb' \<in> set ms \<longleftrightarrow> records s1 (mb_mailbox_id mb') = Some mb'"
    using load_ok[of s1 ms s2] assms(4) by blast
  with p show ?thesis by (auto split: if_splits)
qed

lemma remove_load:
  assumes "inv s" and "st_remove ops s mid = (Ok (), s1)" and "st_load ops s1 = (Ok ms, s2)"
  shows "mb' \<in> set ms \<longleftrightarrow> records s (mb_mailbox_id mb') = Some mb' \<and> mb_mailbox_id mb' \<noteq> mid"
proof -
  have p: "inv s1 \<and> records s1 = (records s)(mid := None)" using remove_ok[OF assms(1,2)] .
  then have "mb' \<in> set ms \<longleftrightarrow> records s1 (mb_mailbox_id mb') = Some mb'"
    using load_ok[of s1 ms s2] assms(3) by blast
  with p show ?thesis by (auto split: if_splits)
qed

end

definition memory_records ::
  "codec \<Rightarrow> (bytes \<Rightarrow> bytes) \<Rightarrow> memory_store \<Rightarrow> bytes \<Rightarrow> mailbox option" where
  "memory_records C sha256 s mid =
     (case bt_get s mid of
        None \<Rightarrow> None
      | Some bs \<Rightarrow> (case store_decode C sha256 bs of Ok mb \<Rightarrow> Some mb | _ \<Rightarrow> None))"

definition memory_inv :: "codec \<Rightarrow> (bytes \<Rightarrow> bytes) \<Rightarrow> memory_store \<Rightarrow> bool" where
  "memory_inv C sha256 s \<longleftrightarrow> bt_wf s \<and>
     list_all (\<lambda>(mid, bs). case store_decode C sha256 bs of Ok mb \<Rightarrow> mb_mailbox_id mb = mid | _ \<Rightarrow> False) s"

definition storable :: "codec \<Rightarrow> (bytes \<Rightarrow> bytes) \<Rightarrow> mailbox \<Rightarrow> bool" where
  "storable C sha256 mb =
     (case store_encode C (snapshot mb) of Ok bs \<Rightarrow> store_decode C sha256 bs = Ok mb | _ \<Rightarrow> True)"

lemma memory_inv_get:
  "memory_inv C sha256 s \<longleftrightarrow> bt_wf s \<and>
     (\<forall>mid bs. bt_get s mid = Some bs \<longrightarrow> (\<exists>mb. store_decode C sha256 bs = Ok mb \<and> mb_mailbox_id mb = mid))"
proof -
  have "(case store_decode C sha256 bs of Ok mb \<Rightarrow> mb_mailbox_id mb = mid | _ \<Rightarrow> False) \<longleftrightarrow>
      (\<exists>mb. store_decode C sha256 bs = Ok mb \<and> mb_mailbox_id mb = mid)" for bs mid
    by (cases "store_decode C sha256 bs") auto
  then show ?thesis
    by (cases "bt_wf s") (auto simp: memory_inv_def list_all_iff bt_get_iff)
qed

lemma snapshot_mailbox_id [simp]: "sn_mailbox_id (snapshot mb) = mb_mailbox_id mb"
  by (simp add: snapshot_def)

lemma memory_put_cases:
  assumes "memory_put C s mb = (r, s')"
  shows "(r = Ok () \<and> (\<exists>bs. store_encode C (snapshot mb) = Ok bs \<and> s' = bt_insert (mb_mailbox_id mb) bs s)) \<or>
    ((\<exists>e. r = Err e) \<and> s' = s)"
  using assms by (auto simp: memory_put_def Let_def store_encode_def ok_or_def split: option.splits)

interpretation mem: mailbox_store "memory_ops C sha256" "memory_records C sha256" "memory_inv C sha256"
  "storable C sha256" for C sha256
proof
  fix s s' :: memory_store and mb :: mailbox and r :: "(unit, store_error) result" and mid :: bytes
    and ms :: "mailbox list"
  assume inv: "memory_inv C sha256 s"
  have wf: "bt_wf s" using inv by (simp add: memory_inv_def)
  show "memory_inv C sha256 s' \<and> memory_records C sha256 s' = (memory_records C sha256 s)(mb_mailbox_id mb \<mapsto> mb)"
    if st: "storable C sha256 mb" and put: "st_put (memory_ops C sha256) s mb = (Ok (), s')"
  proof -
    obtain bs where bs: "store_encode C (snapshot mb) = Ok bs" "s' = bt_insert (mb_mailbox_id mb) bs s"
      using put memory_put_cases[of C s mb "Ok ()" s'] by (auto simp: memory_ops_def)
    with st have dec: "store_decode C sha256 bs = Ok mb" by (simp add: storable_def)
    show ?thesis
      using inv wf dec
      by (auto simp: memory_inv_get bs(2) bt_get_insert bt_wf_insert memory_records_def fun_eq_iff)
  qed
  show "memory_inv C sha256 s' \<and> memory_records C sha256 s' = memory_records C sha256 s \<and> r \<noteq> Panic"
    if "st_put (memory_ops C sha256) s mb = (r, s')" "r \<noteq> Ok ()"
    using that memory_put_cases[of C s mb r s'] inv by (auto simp: memory_ops_def)
  show "memory_inv C sha256 s' \<and> memory_records C sha256 s' = (memory_records C sha256 s)(mid := None)"
    if "st_remove (memory_ops C sha256) s mid = (Ok (), s')"
    using that inv wf
    by (auto simp: memory_ops_def memory_remove_def memory_inv_get bt_wf_remove bt_get_remove
        memory_records_def fun_eq_iff split: if_splits)
  show "memory_inv C sha256 s' \<and> memory_records C sha256 s' = memory_records C sha256 s \<and> r \<noteq> Panic"
    if "st_remove (memory_ops C sha256) s mid = (r, s')" "r \<noteq> Ok ()"
    using that by (simp add: memory_ops_def memory_remove_def)
  show "memory_inv C sha256 s' \<and> memory_records C sha256 s' = memory_records C sha256 s \<and>
      distinct (map mb_mailbox_id ms) \<and>
      (\<forall>mid mb. memory_records C sha256 s mid = Some mb \<longleftrightarrow> mb \<in> set ms \<and> mb_mailbox_id mb = mid)"
    if load: "st_load (memory_ops C sha256) s = (Ok ms, s')"
  proof -
    have s': "s' = s" and all2: "list_all2 (\<lambda>e mb. store_decode C sha256 (snd e) = Ok mb) s ms"
      using load by (auto simp: memory_ops_def memory_load_def collect_results_Ok list_all2_map1)
    have ids: "list_all2 (\<lambda>e mb. store_decode C sha256 (snd e) = Ok mb \<and> fst e = mb_mailbox_id mb) s ms"
      using all2 inv by (force simp: memory_inv_def list_all2_conv_all_nth list_all_length
          case_prod_beta)
    then have keys: "map mb_mailbox_id ms = map fst s"
      by (auto simp: list_all2_conv_all_nth intro: nth_equalityI)
    have dist: "distinct (map mb_mailbox_id ms)"
      unfolding keys using wf by (simp add: bt_wf_def strict_sorted_iff)
    have "memory_records C sha256 s mid = Some mb \<longleftrightarrow> mb \<in> set ms \<and> mb_mailbox_id mb = mid" for mid mb
    proof
      assume "memory_records C sha256 s mid = Some mb"
      then obtain bs where bs: "(mid, bs) \<in> set s" "store_decode C sha256 bs = Ok mb"
        using bt_get_SomeD by (fastforce simp: memory_records_def split: option.splits result.splits)
      with ids show "mb \<in> set ms \<and> mb_mailbox_id mb = mid"
        by (auto simp: list_all2_conv_all_nth in_set_conv_nth) (metis fst_conv snd_conv result.inject(1))+
    next
      assume "mb \<in> set ms \<and> mb_mailbox_id mb = mid"
      with ids obtain bs where "(mid, bs) \<in> set s" "store_decode C sha256 bs = Ok mb"
        by (auto simp: list_all2_conv_all_nth in_set_conv_nth) (metis prod.collapse)
      then show "memory_records C sha256 s mid = Some mb"
        using bt_get_SomeI[OF wf] by (simp add: memory_records_def)
    qed
    with s' inv dist show ?thesis by blast
  qed
qed


section \<open>Properties\<close>

text \<open>
  A mailbox record is faithful: the octets written for a mailbox that satisfies its
  invariant are recognised as exactly that mailbox, its queue, sequence metadata, admission
  state and byte account included.
\<close>

lemma store_roundtrip:
  assumes "reads_back C" and "mailbox_wf sha256 mb" and "typed_mailbox mb"
    and "store_encode C (snapshot mb) = Ok bs"
  shows "store_decode C sha256 bs = Ok mb"
  using assms by (rule store_roundtrip_lemma)

definition demo_record :: mailbox where
  "demo_record = \<lparr>mb_mailbox_id = replicate 32 1, mb_nameplate = Some 7, mb_expires_at = 700,
     mb_status = Paired, mb_admission = V1,
     mb_allocator = \<lparr>ms_hash = replicate 32 2, ms_next_seq = 1,
       ms_frames = [\<lparr>fr_seq = 0, fr_digest = replicate 32 9, fr_body_len = 2, fr_body = Some [5, 6]\<rparr>]\<rparr>,
     mb_claimant = Some \<lparr>ms_hash = replicate 32 3, ms_next_seq = 0, ms_frames = []\<rparr>,
     mb_queue_bytes = 2\<rparr>"

lemma demo_record_wf: "mailbox_wf (\<lambda>_. replicate 32 9) demo_record" "typed_mailbox demo_record"
  by (simp_all add: demo_record_def mailbox_wf_def member_wf_def frame_wf_def all_frames_def
      status_matches_hashes_def admission_matches_def membership_hashes_def typed_mailbox_def
      mailbox_constants u64_max_def)

definition demo_store_codec :: codec where
  "demo_store_codec = table_codec [(record_value (snapshot demo_record), [42])]"

lemma demo_store_codec_ok:
  "reads_back demo_store_codec" "store_encode demo_store_codec (snapshot demo_record) = Ok [42]"
  by (simp_all add: demo_store_codec_def table_codec_reads_back)
    (simp add: store_encode_def table_codec_def)

theorem store_roundtrip_witness:
  "store_decode demo_store_codec (\<lambda>_. replicate 32 9) [42] = Ok demo_record"
  using store_roundtrip[OF demo_store_codec_ok(1) demo_record_wf demo_store_codec_ok(2)] .

text \<open>
  The in-memory store is a store: after a successful write, loading returns the written
  mailbox and every other record unchanged, provided the record restores the mailbox; after a
  deletion, loading returns every other record and not the deleted one.
\<close>

lemma memory_store_load:
  assumes "memory_inv C sha256 s" and "storable C sha256 mb"
    and "memory_put C s mb = (Ok (), s1)" and "memory_load C sha256 s1 = (Ok ms, s2)"
    and "memory_remove s1 mid = (Ok (), s3)" and "memory_load C sha256 s3 = (Ok ms', s4)"
  shows "(mb' \<in> set ms \<longleftrightarrow> mb' = mb \<or>
      memory_records C sha256 s (mb_mailbox_id mb') = Some mb' \<and> mb_mailbox_id mb' \<noteq> mb_mailbox_id mb) \<and>
    (mb' \<in> set ms' \<longleftrightarrow> mb' \<in> set ms \<and> mb_mailbox_id mb' \<noteq> mid)"
proof -
  have inv1: "memory_inv C sha256 s1"
    using mem.put_inv[OF assms(1,2)] assms(3) by (simp add: memory_ops_def)
  have "mb' \<in> set ms \<longleftrightarrow> memory_records C sha256 s1 (mb_mailbox_id mb') = Some mb'"
    using mem.load_ok[OF inv1, of ms s2] assms(4) by (auto simp: memory_ops_def)
  then show ?thesis
    using mem.put_load[OF assms(1,2), of s1 ms s2 mb'] assms(3,4)
      mem.remove_load[OF inv1, of mid s3 ms' s4 mb'] assms(5,6)
    by (simp add: memory_ops_def)
qed

theorem memory_store_load_witness:
  "\<exists>s1 ms s2 s3 ms' s4.
     memory_put demo_store_codec [] demo_record = (Ok (), s1) \<and>
     memory_load demo_store_codec (\<lambda>_. replicate 32 9) s1 = (Ok ms, s2) \<and> demo_record \<in> set ms \<and>
     memory_remove s1 (replicate 32 1) = (Ok (), s3) \<and>
     memory_load demo_store_codec (\<lambda>_. replicate 32 9) s3 = (Ok ms', s4) \<and> demo_record \<notin> set ms'"
proof -
  let ?s1 = "[(replicate 32 1, [42])]"
  have dec: "store_decode demo_store_codec (\<lambda>_. replicate 32 9) [42] = Ok demo_record"
    using store_roundtrip_lemma[OF demo_store_codec_ok(1) demo_record_wf demo_store_codec_ok(2)] .
  have id: "mb_mailbox_id demo_record = replicate 32 1" by (simp add: demo_record_def)
  have put: "memory_put demo_store_codec [] demo_record = (Ok (), ?s1)"
    by (simp add: memory_put_def demo_store_codec_ok(2) id)
  have load: "memory_load demo_store_codec (\<lambda>_. replicate 32 9) ?s1 = (Ok [demo_record], ?s1)"
    by (simp add: memory_load_def dec)
  have rem: "memory_remove ?s1 (replicate 32 1) = (Ok (), [])"
    by (simp add: memory_remove_def bt_remove_def)
  have load': "memory_load demo_store_codec (\<lambda>_. replicate 32 9) [] = (Ok [], [])"
    by (simp add: memory_load_def)
  have inv: "memory_inv demo_store_codec (\<lambda>_. replicate 32 9) []" by (simp add: memory_inv_def)
  have st: "storable demo_store_codec (\<lambda>_. replicate 32 9) demo_record"
    by (simp add: storable_def demo_store_codec_ok(2) dec)
  from memory_store_load[OF inv st put load rem load', of demo_record] id
  have "demo_record \<in> set [demo_record] \<and> demo_record \<notin> set ([] :: mailbox list)" by simp
  with put load rem load' show ?thesis by blast
qed

lemma hex_digit_inject: "m < 16 \<Longrightarrow> n < 16 \<Longrightarrow> hex_digit m = hex_digit n \<Longrightarrow> m = n"
proof -
  assume "m < 16" "n < 16" "hex_digit m = hex_digit n"
  moreover have "distinct ''0123456789abcdef''" by simp
  ultimately show "m = n" by (simp add: hex_digit_def nth_eq_iff_index_eq)
qed

lemma byte_nibbles: "unat (drop_bit 4 b) = unat b div 16" "unat (and b 0x0f) = unat b mod 16"
  for b :: byte
proof -
  show "unat (drop_bit 4 b) = unat b div 16" unfolding unat_drop_bit_eq by (simp add: drop_bit_eq_div)
  have "and b 0x0f = take_bit 4 b" by (simp add: take_bit_eq_mask mask_eq_exp_minus_1)
  then have "unat (and b 0x0f) = take_bit 4 (unat b)" by (simp only: unsigned_take_bit_eq)
  then show "unat (and b 0x0f) = unat b mod 16" by (simp only: take_bit_eq_mod) simp
qed

lemma high_nibble_less: "unat b div 16 < 16" for b :: byte
proof -
  have "unat b < 2 ^ LENGTH(8)" by (rule unsigned_less)
  then show ?thesis by simp
qed

lemma lower_hex_inject: "lower_hex a = lower_hex b \<longleftrightarrow> a = b"
proof
  show "lower_hex a = lower_hex b \<Longrightarrow> a = b"
  proof (induction a arbitrary: b)
    case Nil
    then show ?case by (cases b) (auto simp: lower_hex_def)
  next
    case (Cons x a)
    then obtain y c where b: "b = y # c" by (cases b) (auto simp: lower_hex_def)
    have "hex_digit (unat x div 16) = hex_digit (unat y div 16)"
      "hex_digit (unat x mod 16) = hex_digit (unat y mod 16)" "lower_hex a = lower_hex c"
      using Cons.prems by (auto simp: b lower_hex_def byte_nibbles)
    then have "unat x div 16 = unat y div 16" "unat x mod 16 = unat y mod 16" "a = c"
      using hex_digit_inject high_nibble_less Cons.IH by auto
    then have "unat x = unat y" by (metis div_mult_mod_eq)
    then show ?case using \<open>a = c\<close> by (simp add: b word_unat_eq_iff)
  qed
qed simp

lemma hex_digit_range: "n < 16 \<Longrightarrow> is_lower_hexdigit (hex_digit n) \<and> hex_digit n \<noteq> CHR ''.''"
proof -
  assume "n < 16"
  then have "hex_digit n \<in> set ''0123456789abcdef''" by (simp add: hex_digit_def del: set_simps)
  then show ?thesis
    by (auto simp: is_lower_hexdigit_def is_ascii_digit_def char_code_def)
qed

lemma lower_hex_chars: "c \<in> set (lower_hex bs) \<Longrightarrow> is_lower_hexdigit c \<and> c \<noteq> CHR ''.''"
proof -
  assume "c \<in> set (lower_hex bs)"
  then obtain b :: byte where "c = hex_digit (unat b div 16) \<or> c = hex_digit (unat b mod 16)"
    by (auto simp: lower_hex_def byte_nibbles)
  moreover have "unat b div 16 < 16" by (rule high_nibble_less)
  ultimately show ?thesis using hex_digit_range by auto
qed

lemma length_lower_hex: "length (lower_hex bs) = 2 * length bs"
  by (induction bs) (auto simp: lower_hex_def)

lemma split_once_part: "sep \<notin> set a \<Longrightarrow> split_once sep (a @ sep # b) = Some (a, b)"
  by (induction a) auto

text \<open>
  The file names of the directory adapter are unambiguous: different mailboxes have
  different record names, the temporary file of any process is recognised as one and swept at
  start, and a record is never mistaken for a temporary file.
\<close>

lemma store_names:
  "(record_name a = record_name b \<longleftrightarrow> a = b) \<and>
   \<not> is_store_temporary (record_name a) \<and>
   is_store_temporary (''.'' @ lower_hex a @ ''.'' @ process @ ''.tmp'') =
     (length a = 32 \<and> process \<noteq> [] \<and> list_all is_ascii_digit process)"
proof (intro conjI)
  show "record_name a = record_name b \<longleftrightarrow> a = b" by (simp add: record_name_def lower_hex_inject)
  have dot: "CHR ''.'' \<notin> set (lower_hex a)" using lower_hex_chars by blast
  show "\<not> is_store_temporary (record_name a)"
  proof (cases "record_name a")
    case Nil
    then show ?thesis by (simp add: is_store_temporary_def)
  next
    case (Cons c cs)
    show ?thesis
    proof (cases a)
      case Nil
      with Cons show ?thesis
        by (auto simp: record_name_def lower_hex_def is_store_temporary_def strip_suffix_def)
    next
      case (Cons x xs)
      then have "c \<in> set (lower_hex a)" using \<open>record_name a = c # cs\<close>
        by (auto simp: record_name_def lower_hex_def)
      with dot have "c \<noteq> CHR ''.''" by auto
      then show ?thesis unfolding \<open>record_name a = c # cs\<close> is_store_temporary_def
        by simp
    qed
  qed
  have strip: "strip_suffix ''.tmp'' (lower_hex a @ CHR ''.'' # process @ ''.tmp'') =
      Some (lower_hex a @ CHR ''.'' # process)"
    by (simp add: strip_suffix_def)
  have hex: "list_all is_lower_hexdigit (lower_hex a)" using lower_hex_chars by (auto simp: list_all_iff)
  show "is_store_temporary (''.'' @ lower_hex a @ ''.'' @ process @ ''.tmp'') =
     (length a = 32 \<and> process \<noteq> [] \<and> list_all is_ascii_digit process)"
    using strip hex split_once_part[OF dot]
    by (auto simp: is_store_temporary_def length_lower_hex)
qed

end
