(* ===== verification/Relay.thy ===== *)
theory Relay
  imports Storage Observability "HOL-Library.Monad_Syntax"
begin

text \<open>
  The relay service of \<^verbatim>\<open>src/src/relay.rs\<close>: connections, routes and mailboxes behind the
  limiter, with every index kept beside the mailbox table, the injected store, and the
  gauges. Every operation returns its result together with the state it leaves, on error
  paths too. The hash, the limiter's HMAC and the store are the fields of \<open>relay_env\<close>.
\<close>

section \<open>State\<close>

type_synonym connection_id = u64

record relay_randomness =
  rr_mailbox_id :: bytes
  rr_membership_token :: bytes
  rr_nameplate :: u32

record relay_config =
  rc_operator_key :: bytes
  rc_limiter :: limiter_config
  rc_capacity :: capacity_caps
  rc_allocation_enabled :: bool

record routed_message =
  rm_connection :: connection_id
  rm_message :: server_message

datatype relay_error = RelayInvalidConfiguration | RelayLimiter | RelayStorage

record session_membership =
  sm_mailbox_id :: bytes
  sm_membership :: membership

record connection_state =
  cs_bound :: bool
  cs_membership :: "session_membership option"

definition default_connection :: connection_state where
  "default_connection = \<lparr>cs_bound = False, cs_membership = None\<rparr>"

record 's relay =
  rl_config :: relay_config
  rl_limiter :: limiter
  rl_observability :: relay_observability
  rl_store :: 's
  rl_mailboxes :: "(bytes, mailbox) btree"
  rl_nameplates :: "(u32, bytes) btree"
  rl_membership_hashes :: "bytes list"
  rl_expiries :: "(u64 \<times> bytes) list"
  rl_queue_bytes :: u64
  rl_connections :: "(connection_id, connection_state) btree"
  rl_routes :: "(bytes \<times> u8, connection_id) btree"
  rl_last_log :: "relay_log_event option"

record 's relay_env =
  env_hmac :: "bytes \<Rightarrow> bytes \<Rightarrow> bytes"
  env_sha256 :: "bytes \<Rightarrow> bytes"
  env_store :: "'s store_ops"

datatype mailbox_command_kind = KindPut u8 bytes | KindAck u8 | KindClose

section \<open>Pure helpers\<close>

fun operation_of :: "client_message \<Rightarrow> operation" where
  "operation_of Bind = OpBind"
| "operation_of (Allocate _ _) = OpAllocate"
| "operation_of (Claim _) = OpClaim"
| "operation_of (AllocateV2 _ _ _) = OpAllocate"
| "operation_of (ClaimV2 _ _) = OpClaim"
| "operation_of (Open _ _) = OpOpen"
| "operation_of (Put _ _) = OpPut"
| "operation_of (Ack _) = OpAck"
| "operation_of Close = OpClose"
| "operation_of Ping = OpPing"

definition token_hash :: "'s relay_env \<Rightarrow> bytes \<Rightarrow> membership_hash" where
  "token_hash E token = env_sha256 E token"

definition route_key :: "session_membership \<Rightarrow> bytes \<times> u8" where
  "route_key m = (sm_mailbox_id m, (case sm_membership m of Allocator \<Rightarrow> 0 | Claimant \<Rightarrow> 1))"

definition route :: "connection_id \<Rightarrow> server_message \<Rightarrow> routed_message" where
  "route connection message = \<lparr>rm_connection = connection, rm_message = message\<rparr>"

definition mailbox_error_message :: "mailbox_error \<Rightarrow> server_message" where
  "mailbox_error_message e = (case e of ErrClosed reason \<Rightarrow> MsgClosed reason | _ \<Rightarrow> MsgError (wire_code e))"

definition actor_outcome :: "connection_id \<Rightarrow> routed_message list \<Rightarrow> relay_outcome" where
  "actor_outcome connection messages =
     (case map_option rm_message (find (\<lambda>m. rm_connection m = connection) messages) of
        Some (MsgError code) \<Rightarrow>
          if code = 404 then OutNotFound else if code = 409 then OutConflict
          else if code = 413 then OutTooLarge else if code = 429 then OutRateLimited
          else if code = 503 then OutUnavailable else OutInvalid
      | Some (MsgClosed reason) \<Rightarrow>
          (case reason of Closed \<Rightarrow> OutClosed | Crowded \<Rightarrow> OutCrowded | Expired \<Rightarrow> OutExpired
           | Conflict \<Rightarrow> OutConflict)
      | _ \<Rightarrow> OutSuccess)"

definition deduplicate_routes :: "routed_message list \<Rightarrow> routed_message list" where
  "deduplicate_routes messages =
     foldl (\<lambda>result message. if message \<in> set result then result else result @ [message]) [] messages"

definition claimed_effect :: "mailbox_effect list \<Rightarrow> u64 option" where
  "claimed_effect es =
     map_option (\<lambda>e. case e of EffClaimed _ t \<Rightarrow> t)
       (find (\<lambda>e. case e of EffClaimed _ _ \<Rightarrow> True | _ \<Rightarrow> False) es)"

definition terminal_effect :: "mailbox_effect list \<Rightarrow> close_reason option" where
  "terminal_effect es =
     map_option (\<lambda>e. case e of EffTerminal r \<Rightarrow> r)
       (find (\<lambda>e. case e of EffTerminal _ \<Rightarrow> True | _ \<Rightarrow> False) es)"

definition opened_effect :: "mailbox_effect list \<Rightarrow> membership option" where
  "opened_effect es =
     map_option (\<lambda>e. case e of EffOpened m _ \<Rightarrow> m)
       (find (\<lambda>e. case e of EffOpened _ _ \<Rightarrow> True | _ \<Rightarrow> False) es)"

section \<open>Indexes and routes\<close>

definition refresh_gauges :: "'s relay \<Rightarrow> 's relay" where
  "refresh_gauges r = r\<lparr>rl_observability := set_gauges (rl_observability r)
     \<lparr>ga_open_mailboxes = length (bt_keys (rl_mailboxes r)), ga_queue_bytes = rl_queue_bytes r,
      ga_limiter_entries = entry_count (rl_limiter r),
      ga_limiter_clock_reversals = li_clock_reversals (rl_limiter r)\<rparr>\<rparr>"

definition finish :: "operation \<Rightarrow> relay_outcome \<Rightarrow> 's relay \<Rightarrow> 's relay" where
  "finish operation outcome r =
     (let (event, ob) = record_outcome (rl_observability r) operation outcome
      in refresh_gauges (r\<lparr>rl_observability := ob, rl_last_log := Some event\<rparr>))"

definition session_of :: "'s relay \<Rightarrow> connection_id \<Rightarrow> session_membership option" where
  "session_of r connection = Option.bind (bt_get (rl_connections r) connection) cs_membership"

definition set_session ::
  "connection_id \<Rightarrow> session_membership option \<Rightarrow> 's relay \<Rightarrow> 's relay" where
  "set_session connection m r =
     (case bt_get (rl_connections r) connection of
        None \<Rightarrow> r
      | Some st \<Rightarrow> r\<lparr>rl_connections := bt_insert connection (st\<lparr>cs_membership := m\<rparr>) (rl_connections r)\<rparr>)"

definition attach :: "connection_id \<Rightarrow> session_membership \<Rightarrow> 's relay \<Rightarrow> 's relay" where
  "attach connection member r =
     (let r1 = (case session_of r connection of
                  None \<Rightarrow> r
                | Some previous \<Rightarrow>
                    if bt_get (rl_routes r) (route_key previous) = Some connection
                    then r\<lparr>rl_routes := bt_remove (route_key previous) (rl_routes r)\<rparr> else r);
          old = bt_get (rl_routes r1) (route_key member);
          r2 = r1\<lparr>rl_routes := bt_insert (route_key member) connection (rl_routes r1)\<rparr>;
          r3 = (case old of
                  None \<Rightarrow> r2
                | Some old_connection \<Rightarrow>
                    if old_connection \<noteq> connection then set_session old_connection None r2 else r2);
          st = (case bt_get (rl_connections r3) connection of None \<Rightarrow> default_connection | Some st \<Rightarrow> st)
      in r3\<lparr>rl_connections :=
             bt_insert connection (st\<lparr>cs_membership := Some member\<rparr>) (rl_connections r3)\<rparr>)"

definition resolve :: "'s relay \<Rightarrow> locator \<Rightarrow> bytes option" where
  "resolve r locator =
     (case locator of
        Direct mailbox_id \<Rightarrow> if bt_contains (rl_mailboxes r) mailbox_id then Some mailbox_id else None
      | Nameplate nameplate \<Rightarrow> bt_get (rl_nameplates r) nameplate)"

definition token_hash_exists :: "'s relay \<Rightarrow> membership_hash \<Rightarrow> bool" where
  "token_hash_exists r hash = bs_contains (rl_membership_hashes r) hash"

definition terminal_routes :: "'s relay \<Rightarrow> bytes \<Rightarrow> close_reason \<Rightarrow> routed_message list" where
  "terminal_routes r mailbox_id reason =
     map (\<lambda>connection. route connection (MsgClosed reason))
       (List.map_filter (\<lambda>m. bt_get (rl_routes r)
            (route_key \<lparr>sm_mailbox_id = mailbox_id, sm_membership = m\<rparr>)) [Allocator, Claimant])"

definition drop_route :: "bytes \<Rightarrow> membership \<Rightarrow> 's relay \<Rightarrow> 's relay" where
  "drop_route mailbox_id m r =
     (let key = route_key \<lparr>sm_mailbox_id = mailbox_id, sm_membership = m\<rparr>
      in case bt_get (rl_routes r) key of
           None \<Rightarrow> r
         | Some connection \<Rightarrow>
             set_session connection None (r\<lparr>rl_routes := bt_remove key (rl_routes r)\<rparr>))"

definition remove_mailbox_indexes ::
  "bytes \<Rightarrow> mailbox \<Rightarrow> 's relay \<Rightarrow> (unit, relay_error) result \<times> 's relay" where
  "remove_mailbox_indexes mailbox_id mb r =
     (let r1 = (case mb_nameplate mb of
                  None \<Rightarrow> r
                | Some nameplate \<Rightarrow> r\<lparr>rl_nameplates := bt_remove nameplate (rl_nameplates r)\<rparr>);
          r2 = r1\<lparr>rl_membership_hashes :=
                    fold bs_remove (membership_hashes mb) (rl_membership_hashes r1),
                  rl_expiries := bs_remove (mb_expires_at mb, mailbox_id) (rl_expiries r1)\<rparr>
      in case checked_sub_u64 (rl_queue_bytes r2) (mb_queue_bytes mb) of
           None \<Rightarrow> (Panic, r2)
         | Some q \<Rightarrow>
             (Ok (), drop_route mailbox_id Claimant
                (drop_route mailbox_id Allocator (r2\<lparr>rl_queue_bytes := q\<rparr>))))"

definition store_put ::
  "'s relay_env \<Rightarrow> mailbox \<Rightarrow> 's relay \<Rightarrow> (unit, relay_error) result \<times> 's relay" where
  "store_put E mb r =
     (let (res, s) = st_put (env_store E) (rl_store r) mb
      in (map_err (\<lambda>_. RelayStorage) res, r\<lparr>rl_store := s\<rparr>))"

definition store_remove ::
  "'s relay_env \<Rightarrow> bytes \<Rightarrow> 's relay \<Rightarrow> (unit, relay_error) result \<times> 's relay" where
  "store_remove E mailbox_id r =
     (let (res, s) = st_remove (env_store E) (rl_store r) mailbox_id
      in (map_err (\<lambda>_. RelayStorage) res, r\<lparr>rl_store := s\<rparr>))"

definition remove_mailbox ::
  "'s relay_env \<Rightarrow> bytes \<Rightarrow> 's relay \<Rightarrow> (unit, relay_error) result \<times> 's relay" where
  "remove_mailbox E mailbox_id r =
     bind_st (store_remove E mailbox_id r) (\<lambda>_ r1.
       case bt_get (rl_mailboxes r1) mailbox_id of
         None \<Rightarrow> (Ok (), r1)
       | Some mb \<Rightarrow>
           remove_mailbox_indexes mailbox_id mb
             (r1\<lparr>rl_mailboxes := bt_remove mailbox_id (rl_mailboxes r1)\<rparr>))"

definition mailbox_bytes :: "'s relay \<Rightarrow> bytes \<Rightarrow> u64" where
  "mailbox_bytes r mailbox_id =
     (case bt_get (rl_mailboxes r) mailbox_id of None \<Rightarrow> 0 | Some mb \<Rightarrow> mb_queue_bytes mb)"

definition commit ::
  "'s relay_env \<Rightarrow> bytes \<Rightarrow> mailbox_transition \<Rightarrow> 's relay \<Rightarrow>
     (unit, relay_error) result \<times> 's relay" where
  "commit E mailbox_id tr r =
     (case tr_state tr of
        Some mb \<Rightarrow>
          bind_st (store_put E mb r) (\<lambda>_ r1.
            case Option.bind (checked_sub_u64 (rl_queue_bytes r1) (mailbox_bytes r1 mailbox_id))
                   (\<lambda>v. checked_add_u64 v (mb_queue_bytes mb)) of
              None \<Rightarrow> (Err RelayInvalidConfiguration, r1)
            | Some q \<Rightarrow>
                (Ok (), r1\<lparr>rl_queue_bytes := q,
                           rl_membership_hashes :=
                             fold bs_insert (membership_hashes mb) (rl_membership_hashes r1),
                           rl_mailboxes := bt_insert mailbox_id mb (rl_mailboxes r1)\<rparr>))
      | None \<Rightarrow>
          if bt_contains (rl_mailboxes r) mailbox_id then remove_mailbox E mailbox_id r
          else (Ok (), r))"

definition projected_queue_bytes :: "'s relay \<Rightarrow> bytes \<Rightarrow> mailbox_transition \<Rightarrow> u64" where
  "projected_queue_bytes r replaced tr =
     saturating_add_u64 (saturating_sub_u64 (rl_queue_bytes r) (mailbox_bytes r replaced))
       (case tr_state tr of None \<Rightarrow> 0 | Some mb \<Rightarrow> mb_queue_bytes mb)"

section \<open>Commands\<close>

type_synonym 's relay_result = "(routed_message list, relay_error) result \<times> 's relay"

text \<open>A single reply to the acting connection, state unchanged.\<close>

definition reply :: "connection_id \<Rightarrow> server_message \<Rightarrow> 's relay \<Rightarrow> 's relay_result" where
  "reply connection message r = (Ok [route connection message], r)"

text \<open>The match on a mailbox transition that every command makes.\<close>

definition with_transition ::
  "connection_id \<Rightarrow> (mailbox_transition, mailbox_error) result \<Rightarrow> 's relay \<Rightarrow>
     (mailbox_transition \<Rightarrow> 's relay_result) \<Rightarrow> 's relay_result" where
  "with_transition connection res r k =
     (case res of
        Ok tr \<Rightarrow> k tr
      | Err e \<Rightarrow> reply connection (mailbox_error_message e) r
      | Panic \<Rightarrow> (Panic, r))"

definition insert_mailbox ::
  "connection_id \<Rightarrow> mailbox \<Rightarrow> membership_hash \<Rightarrow> 's relay \<Rightarrow> 's relay" where
  "insert_mailbox connection mb allocator_hash r =
     attach connection \<lparr>sm_mailbox_id = mb_mailbox_id mb, sm_membership = Allocator\<rparr>
       (r\<lparr>rl_mailboxes := bt_insert (mb_mailbox_id mb) mb (rl_mailboxes r),
          rl_membership_hashes := bs_insert allocator_hash (rl_membership_hashes r),
          rl_expiries := bs_insert (mb_expires_at mb, mb_mailbox_id mb) (rl_expiries r),
          rl_nameplates :=
            (case mb_nameplate mb of
               None \<Rightarrow> rl_nameplates r
             | Some np \<Rightarrow> bt_insert np (mb_mailbox_id mb) (rl_nameplates r))\<rparr>)"

definition relay_allocate ::
  "'s relay_env \<Rightarrow> connection_id \<Rightarrow> u64 \<Rightarrow> relay_randomness \<Rightarrow> u8 \<Rightarrow> u32 option \<Rightarrow> 's relay \<Rightarrow>
     's relay_result" where
  "relay_allocate E connection now randomness mode ttl r =
     (let allocator_hash = token_hash E (rr_membership_token randomness) in
      if \<not> rc_allocation_enabled (rl_config r) then reply connection (MsgError 503) r
      else if session_of r connection \<noteq> None then reply connection (MsgError 409) r
      else if length (bt_keys (rl_mailboxes r)) \<ge> cap_open_mailboxes (rc_capacity (rl_config r)) \<or>
              bt_contains (rl_mailboxes r) (rr_mailbox_id randomness) \<or>
              token_hash_exists r allocator_hash
      then reply connection (MsgError 503) r
      else if mode > 1 then reply connection (MsgError 400) r
      else if mode = 1 \<and> \<not> (rr_nameplate randomness \<le> MAX_NAMEPLATE \<and>
                \<not> bt_contains (rl_nameplates r) (rr_nameplate randomness))
      then reply connection (MsgError 503) r
      else
        let nameplate = (if mode = 0 then None else Some (rr_nameplate randomness)) in
        (case allocate \<lparr>ai_mailbox_id = rr_mailbox_id randomness, ai_nameplate = nameplate,
                        ai_allocator_hash = allocator_hash, ai_now = now, ai_ttl_seconds = ttl\<rparr> of
           Err e \<Rightarrow> reply connection (mailbox_error_message e) r
         | Panic \<Rightarrow> (Panic, r)
         | Ok mb \<Rightarrow>
             bind_st (store_put E mb r) (\<lambda>_ r1.
               reply connection (Allocated (rr_mailbox_id randomness) (rr_membership_token randomness)
                   nameplate (mb_expires_at mb))
                 (insert_mailbox connection mb allocator_hash r1))))"

definition relay_allocate_v2 ::
  "'s relay_env \<Rightarrow> connection_id \<Rightarrow> u64 \<Rightarrow> bytes \<Rightarrow> bytes \<Rightarrow> bytes \<Rightarrow> u16 option \<Rightarrow> 's relay \<Rightarrow>
     's relay_result" where
  "relay_allocate_v2 E connection now membership_token mailbox_id commitment ttl r =
     (let allocator_hash = token_hash E membership_token in
      if \<not> rc_allocation_enabled (rl_config r) then reply connection (MsgError 503) r
      else if session_of r connection \<noteq> None then reply connection (MsgError 409) r
      else if length (bt_keys (rl_mailboxes r)) \<ge> cap_open_mailboxes (rc_capacity (rl_config r)) \<or>
              bt_contains (rl_mailboxes r) mailbox_id \<or> token_hash_exists r allocator_hash
      then reply connection (MsgError 503) r
      else
        (case allocate_v2 \<lparr>vi_mailbox_id = mailbox_id, vi_allocator_hash = allocator_hash,
                           vi_claim_commitment = commitment, vi_now = now, vi_ttl_seconds = ttl\<rparr> of
           Err e \<Rightarrow> reply connection (mailbox_error_message e) r
         | Panic \<Rightarrow> (Panic, r)
         | Ok mb \<Rightarrow>
             bind_st (store_put E mb r) (\<lambda>_ r1.
               reply connection (AllocatedV2 mailbox_id membership_token (mb_expires_at mb))
                 (insert_mailbox connection mb allocator_hash r1))))"

definition relay_claim ::
  "'s relay_env \<Rightarrow> connection_id \<Rightarrow> u64 \<Rightarrow> bytes \<Rightarrow> locator \<Rightarrow> 's relay \<Rightarrow> 's relay_result" where
  "relay_claim E connection now membership_token locator r =
     (if session_of r connection \<noteq> None then reply connection (MsgError 409) r
      else case resolve r locator of
        None \<Rightarrow> reply connection (MsgError 404) r
      | Some mailbox_id \<Rightarrow>
          let claimant_hash = token_hash E membership_token in
          if token_hash_exists r claimant_hash then reply connection (MsgError 409) r
          else case bt_get (rl_mailboxes r) mailbox_id of
            None \<Rightarrow> reply connection (MsgError 404) r
          | Some mb \<Rightarrow>
              with_transition connection (transition (env_sha256 E) mb now (CmdClaim claimant_hash)) r
                (\<lambda>tr. bind_st (commit E mailbox_id tr r) (\<lambda>_ r1.
                   case claimed_effect (tr_effects tr) of
                     Some expires_at \<Rightarrow>
                       reply connection (Claimed mailbox_id membership_token expires_at)
                         (attach connection \<lparr>sm_mailbox_id = mailbox_id, sm_membership = Claimant\<rparr> r1)
                   | None \<Rightarrow>
                       (case terminal_effect (tr_effects tr) of
                          Some reason \<Rightarrow>
                            (Ok (deduplicate_routes (terminal_routes r1 mailbox_id reason @
                                  [route connection (MsgClosed reason)])), r1)
                        | None \<Rightarrow> reply connection (MsgError 503) r1))))"

definition relay_claim_v2 ::
  "'s relay_env \<Rightarrow> connection_id \<Rightarrow> u64 \<Rightarrow> bytes \<Rightarrow> bytes \<Rightarrow> claim_token \<Rightarrow> 's relay \<Rightarrow>
     's relay_result" where
  "relay_claim_v2 E connection now membership_token mailbox_id token r =
     (if session_of r connection \<noteq> None then reply connection (MsgError 409) r
      else
        let claimant_hash = token_hash E membership_token in
        if token_hash_exists r claimant_hash then reply connection (MsgError 409) r
        else case bt_get (rl_mailboxes r) mailbox_id of
          None \<Rightarrow> reply connection (MsgError 404) r
        | Some mb \<Rightarrow>
            with_transition connection
              (transition (env_sha256 E) mb now (CmdClaimV2 claimant_hash token)) r
              (\<lambda>tr. bind_st (commit E mailbox_id tr r) (\<lambda>_ r1.
                 case claimed_effect (tr_effects tr) of
                   None \<Rightarrow> reply connection (MsgError 503) r1
                 | Some expires_at \<Rightarrow>
                     reply connection (ClaimedV2 mailbox_id membership_token expires_at)
                       (attach connection \<lparr>sm_mailbox_id = mailbox_id, sm_membership = Claimant\<rparr> r1))))"

definition open_deliveries :: "connection_id \<Rightarrow> mailbox_effect list \<Rightarrow> routed_message list" where
  "open_deliveries connection es =
     List.map_filter (\<lambda>e. case e of
        EffDeliver _ peer_seq body \<Rightarrow> Some (route connection (Frame peer_seq body))
      | _ \<Rightarrow> None) es"

definition relay_open ::
  "'s relay_env \<Rightarrow> connection_id \<Rightarrow> u64 \<Rightarrow> bytes \<Rightarrow> bytes \<Rightarrow> 's relay \<Rightarrow> 's relay_result" where
  "relay_open E connection now mailbox_id membership_token r =
     (case bt_get (rl_mailboxes r) mailbox_id of
        None \<Rightarrow> reply connection (MsgError 404) r
      | Some mb \<Rightarrow>
          with_transition connection
            (transition (env_sha256 E) mb now (CmdOpen (token_hash E membership_token))) r
            (\<lambda>tr. bind_st (commit E mailbox_id tr r) (\<lambda>_ r1.
               case opened_effect (tr_effects tr) of
                 Some m \<Rightarrow>
                   (Ok (open_deliveries connection (tr_effects tr)),
                    attach connection \<lparr>sm_mailbox_id = mailbox_id, sm_membership = m\<rparr> r1)
               | None \<Rightarrow>
                   (case terminal_effect (tr_effects tr) of
                      Some reason \<Rightarrow>
                        (Ok (deduplicate_routes (terminal_routes r1 mailbox_id reason @
                              [route connection (MsgClosed reason)])), r1)
                    | None \<Rightarrow> reply connection (MsgError 503) r1))))"

fun mailbox_command_of :: "membership \<Rightarrow> mailbox_command_kind \<Rightarrow> mailbox_command" where
  "mailbox_command_of sender (KindPut seq body) = CmdPut sender seq body"
| "mailbox_command_of sender (KindAck peer_seq) = CmdAck sender peer_seq"
| "mailbox_command_of sender KindClose = CmdClose sender"

fun put_acknowledgement ::
  "connection_id \<Rightarrow> mailbox_command_kind \<Rightarrow> mailbox_effect list \<Rightarrow> routed_message list" where
  "put_acknowledgement connection (KindPut seq body) es =
     (if list_ex (\<lambda>e. case e of EffStored _ stored _ \<Rightarrow> stored = seq | _ \<Rightarrow> False) es
      then [route connection (Acknowledged seq)] else [])"
| "put_acknowledgement connection _ es = []"

definition effect_messages ::
  "'s relay \<Rightarrow> bytes \<Rightarrow> mailbox_effect list \<Rightarrow> routed_message list" where
  "effect_messages r mailbox_id es =
     concat (map (\<lambda>e. case e of
        EffDeliver recipient peer_seq body \<Rightarrow>
          (case bt_get (rl_routes r)
                  (route_key \<lparr>sm_mailbox_id = mailbox_id, sm_membership = recipient\<rparr>) of
             None \<Rightarrow> []
           | Some connection \<Rightarrow> [route connection (Frame peer_seq body)])
      | EffTerminal reason \<Rightarrow> terminal_routes r mailbox_id reason
      | _ \<Rightarrow> []) es)"

definition member_command ::
  "'s relay_env \<Rightarrow> connection_id \<Rightarrow> u64 \<Rightarrow> mailbox_command_kind \<Rightarrow> 's relay \<Rightarrow> 's relay_result" where
  "member_command E connection now command r =
     (case session_of r connection of
        None \<Rightarrow> reply connection (MsgError 404) r
      | Some session \<Rightarrow>
          (case bt_get (rl_mailboxes r) (sm_mailbox_id session) of
             None \<Rightarrow> reply connection (MsgError 404) r
           | Some mb \<Rightarrow>
               with_transition connection
                 (transition (env_sha256 E) mb now
                    (mailbox_command_of (sm_membership session) command)) r
                 (\<lambda>tr.
                   if projected_queue_bytes r (sm_mailbox_id session) tr
                        > cap_queue_bytes (rc_capacity (rl_config r))
                   then reply connection (MsgError 503) r
                   else
                     let messages = put_acknowledgement connection command (tr_effects tr) @
                           effect_messages r (sm_mailbox_id session) (tr_effects tr)
                     in bind_st (commit E (sm_mailbox_id session) tr r) (\<lambda>_ r1.
                          (Ok (deduplicate_routes messages), r1)))))"

section \<open>The service\<close>

definition dispatch ::
  "'s relay_env \<Rightarrow> connection_id \<Rightarrow> u64 \<Rightarrow> relay_randomness \<Rightarrow> client_message \<Rightarrow> 's relay \<Rightarrow>
     's relay_result" where
  "dispatch E connection now randomness message r =
     (let bound = (case bt_get (rl_connections r) connection of None \<Rightarrow> False | Some st \<Rightarrow> cs_bound st) in
      if message = Bind then
        let st = (case bt_get (rl_connections r) connection of None \<Rightarrow> default_connection | Some st \<Rightarrow> st)
        in reply connection Welcome
             (r\<lparr>rl_connections := bt_insert connection (st\<lparr>cs_bound := True\<rparr>) (rl_connections r)\<rparr>)
      else if \<not> bound then reply connection (MsgError 400) r
      else case message of
        Bind \<Rightarrow> (Panic, r)
      | Allocate mode ttl \<Rightarrow> relay_allocate E connection now randomness mode ttl r
      | Claim locator \<Rightarrow> relay_claim E connection now (rr_membership_token randomness) locator r
      | AllocateV2 mailbox_id commitment ttl \<Rightarrow>
          relay_allocate_v2 E connection now (rr_membership_token randomness) mailbox_id commitment ttl r
      | ClaimV2 mailbox_id token \<Rightarrow>
          relay_claim_v2 E connection now (rr_membership_token randomness) mailbox_id token r
      | Open mailbox_id token \<Rightarrow> relay_open E connection now mailbox_id token r
      | Put seq body \<Rightarrow> member_command E connection now (KindPut seq body) r
      | Ack peer_seq \<Rightarrow> member_command E connection now (KindAck peer_seq) r
      | Close \<Rightarrow> member_command E connection now KindClose r
      | Ping \<Rightarrow> reply connection Pong r)"

definition handle ::
  "'s relay_env \<Rightarrow> connection_id \<Rightarrow> bytes \<Rightarrow> u64 \<Rightarrow> relay_randomness \<Rightarrow> client_message \<Rightarrow>
     's relay \<Rightarrow> 's relay_result" where
  "handle E connection peer_address now randomness message r =
     (let operation = operation_of message;
          (decision, limiter') = check (env_hmac E) (rl_limiter r) operation peer_address now;
          r0 = r\<lparr>rl_limiter := limiter'\<rparr>
      in case decision of
           Err _ \<Rightarrow> (Err RelayLimiter, r0)
         | Panic \<Rightarrow> (Panic, r0)
         | Ok (Cooldown _) \<Rightarrow>
             (Ok [route connection (MsgError 429)], finish operation OutRateLimited r0)
         | Ok (Allowed _) \<Rightarrow>
             bind_st (dispatch E connection now randomness message r0) (\<lambda>messages r1.
               (Ok messages, finish operation (actor_outcome connection messages) r1)))"

definition disconnect :: "connection_id \<Rightarrow> 's relay \<Rightarrow> 's relay" where
  "disconnect connection r =
     (case bt_get (rl_connections r) connection of
        None \<Rightarrow> r
      | Some st \<Rightarrow>
          let r1 = r\<lparr>rl_connections := bt_remove connection (rl_connections r)\<rparr>
          in case cs_membership st of
               None \<Rightarrow> r1
             | Some member \<Rightarrow>
                 if bt_get (rl_routes r1) (route_key member) = Some connection
                 then r1\<lparr>rl_routes := bt_remove (route_key member) (rl_routes r1)\<rparr> else r1)"

text \<open>The loop of \<^verbatim>\<open>sweep\<close>; it ends only if every removal shrinks the expiry index.\<close>

partial_function (option) sweep_loop ::
  "'s relay_env \<Rightarrow> u64 \<Rightarrow> routed_message list \<Rightarrow> 's relay \<Rightarrow> 's relay_result option" where
  "sweep_loop E now messages r =
     (case bs_first (rl_expiries r) of
        None \<Rightarrow> Some (Ok messages, r)
      | Some e \<Rightarrow>
          if fst e > now then Some (Ok messages, r)
          else
            (case remove_mailbox E (snd e) r of
               (Ok u, r1) \<Rightarrow>
                 sweep_loop E now (messages @ terminal_routes r (snd e) Expired) r1
             | (Err err, r1) \<Rightarrow> Some (Err err, r1)
             | (Panic, r1) \<Rightarrow> Some (Panic, r1)))"

definition relay_sweep :: "'s relay_env \<Rightarrow> u64 \<Rightarrow> 's relay \<Rightarrow> 's relay_result option" where
  "relay_sweep E now r =
     map_option (\<lambda>res. bind_st res (\<lambda>messages r2. (Ok messages, refresh_gauges r2)))
       (sweep_loop E now [] (r\<lparr>rl_limiter := snd (sweep_if_due (rl_limiter r) now)\<rparr>))"

text \<open>The loop of \<^verbatim>\<open>first_available_nameplate\<close> over the occupied nameplates in order.\<close>

fun nameplate_candidate :: "u32 list \<Rightarrow> u32 \<Rightarrow> u32 option" where
  "nameplate_candidate [] candidate = Some candidate"
| "nameplate_candidate (occupied # rest) candidate =
     (if occupied < candidate then nameplate_candidate rest candidate
      else if occupied \<noteq> candidate then Some candidate
      else if candidate = u32_max then None
      else nameplate_candidate rest (candidate + 1))"

definition first_available_nameplate :: "'s relay \<Rightarrow> (u32 option, relay_error) result" where
  "first_available_nameplate r =
     bind_result (expect (nameplate_candidate (bt_keys (rl_nameplates r)) 1)) (\<lambda>candidate.
       Ok (if candidate \<le> MAX_NAMEPLATE then Some candidate else None))"

definition disable_allocation :: "'s relay \<Rightarrow> 's relay" where
  "disable_allocation r = r\<lparr>rl_config := (rl_config r)\<lparr>rc_allocation_enabled := False\<rparr>\<rparr>"

fun close_all ::
  "'s relay_env \<Rightarrow> u64 \<Rightarrow> bytes list \<Rightarrow> routed_message list \<Rightarrow> 's relay \<Rightarrow> 's relay_result" where
  "close_all E now [] messages r = (Ok messages, r)"
| "close_all E now (mailbox_id # ids) messages r =
     (case bt_get (rl_mailboxes r) mailbox_id of
        None \<Rightarrow> close_all E now ids messages r
      | Some mb \<Rightarrow>
          (case mb_status mb of
             Terminal _ \<Rightarrow> close_all E now ids messages r
           | _ \<Rightarrow>
               (case transition (env_sha256 E) mb now (CmdClose Allocator) of
                  Err _ \<Rightarrow> (Err RelayInvalidConfiguration, r)
                | Panic \<Rightarrow> (Panic, r)
                | Ok tr \<Rightarrow>
                    bind_st (commit E mailbox_id tr r) (\<lambda>_ r1.
                      close_all E now ids (messages @ terminal_routes r mailbox_id Closed) r1))))"

definition emergency_close :: "'s relay_env \<Rightarrow> u64 \<Rightarrow> 's relay \<Rightarrow> 's relay_result" where
  "emergency_close E now r =
     bind_st (close_all E now (bt_keys (rl_mailboxes r)) [] (disable_allocation r))
       (\<lambda>messages r1. (Ok (deduplicate_routes messages), refresh_gauges r1))"

definition mailbox_count :: "'s relay \<Rightarrow> usize" where
  "mailbox_count r = length (bt_keys (rl_mailboxes r))"

section \<open>Construction\<close>

record relay_tables =
  rt_mailboxes :: "(bytes, mailbox) btree"
  rt_nameplates :: "(u32, bytes) btree"
  rt_hashes :: "bytes list"
  rt_expiries :: "(u64 \<times> bytes) list"
  rt_queue_bytes :: u64

text \<open>Inserting the hashes of one mailbox; None when one of them is already present.\<close>

fun insert_hashes :: "bytes list \<Rightarrow> bytes list \<Rightarrow> bytes list option" where
  "insert_hashes [] s = Some s"
| "insert_hashes (h # hs) s = (if bs_contains s h then None else insert_hashes hs (bs_insert h s))"

definition load_mailbox :: "relay_tables \<Rightarrow> mailbox \<Rightarrow> (relay_tables, relay_error) result" where
  "load_mailbox t mb =
     (let mailbox_id = mb_mailbox_id mb in
      if (case mb_nameplate mb of None \<Rightarrow> False | Some np \<Rightarrow> bt_contains (rt_nameplates t) np)
      then Err RelayStorage
      else case insert_hashes (membership_hashes mb) (rt_hashes t) of
        None \<Rightarrow> Err RelayStorage
      | Some hs \<Rightarrow>
          (case checked_add_u64 (rt_queue_bytes t) (mb_queue_bytes mb) of
             None \<Rightarrow> Err RelayInvalidConfiguration
           | Some q \<Rightarrow>
               if bt_contains (rt_mailboxes t) mailbox_id then Err RelayStorage
               else Ok \<lparr>rt_mailboxes = bt_insert mailbox_id mb (rt_mailboxes t),
                        rt_nameplates = (case mb_nameplate mb of
                            None \<Rightarrow> rt_nameplates t
                          | Some np \<Rightarrow> bt_insert np mailbox_id (rt_nameplates t)),
                        rt_hashes = hs,
                        rt_expiries = bs_insert (mb_expires_at mb, mailbox_id) (rt_expiries t),
                        rt_queue_bytes = q\<rparr>))"

fun load_all :: "relay_tables \<Rightarrow> mailbox list \<Rightarrow> (relay_tables, relay_error) result" where
  "load_all t [] = Ok t"
| "load_all t (mb # mbs) = bind_result (load_mailbox t mb) (\<lambda>t'. load_all t' mbs)"

definition empty_tables :: relay_tables where
  "empty_tables = \<lparr>rt_mailboxes = [], rt_nameplates = [], rt_hashes = [], rt_expiries = [],
     rt_queue_bytes = 0\<rparr>"

definition with_store ::
  "'s relay_env \<Rightarrow> relay_config \<Rightarrow> 's \<Rightarrow> ('s relay, relay_error) result" where
  "with_store E config s =
     (let caps = rc_capacity config in
      if cap_open_mailboxes caps = 0 \<or> cap_queue_bytes caps = 0 \<or> cap_limiter_entries caps = 0 \<or>
         cap_limiter_entries caps \<noteq> lc_entry_cap (rc_limiter config)
      then Err RelayInvalidConfiguration
      else bind_result (map_err (\<lambda>_. RelayLimiter) (limiter_new (rc_operator_key config) (rc_limiter config)))
        (\<lambda>limiter.
          case st_load (env_store E) s of
            (Err _, _) \<Rightarrow> Err RelayStorage
          | (Panic, _) \<Rightarrow> Panic
          | (Ok mbs, s') \<Rightarrow>
              bind_result (load_all empty_tables mbs) (\<lambda>t.
                if length (bt_keys (rt_mailboxes t)) > cap_open_mailboxes caps \<or>
                   rt_queue_bytes t > cap_queue_bytes caps
                then Err RelayInvalidConfiguration
                else Ok (refresh_gauges
                  \<lparr>rl_config = config, rl_limiter = limiter,
                   rl_observability = observability_new caps, rl_store = s',
                   rl_mailboxes = rt_mailboxes t, rl_nameplates = rt_nameplates t,
                   rl_membership_hashes = rt_hashes t, rl_expiries = rt_expiries t,
                   rl_queue_bytes = rt_queue_bytes t, rl_connections = [], rl_routes = [],
                   rl_last_log = None\<rparr>))))"

text \<open>The service over the in-memory store, which starts empty.\<close>

definition memory_env ::
  "codec \<Rightarrow> (bytes \<Rightarrow> bytes \<Rightarrow> bytes) \<Rightarrow> (bytes \<Rightarrow> bytes) \<Rightarrow> memory_store relay_env" where
  "memory_env C hmac sha256 =
     \<lparr>env_hmac = hmac, env_sha256 = sha256, env_store = memory_ops C sha256\<rparr>"

definition relay_new ::
  "codec \<Rightarrow> (bytes \<Rightarrow> bytes \<Rightarrow> bytes) \<Rightarrow> (bytes \<Rightarrow> bytes) \<Rightarrow> relay_config \<Rightarrow>
     (memory_store relay, relay_error) result" where
  "relay_new C hmac sha256 config = with_store (memory_env C hmac sha256) config []"

section \<open>Nameplate sampling\<close>

definition NAMEPLATE_RANGE :: u32 where "NAMEPLATE_RANGE = 1000000000"

definition NAMEPLATE_ACCEPTED :: u32 where
  "NAMEPLATE_ACCEPTED = u32_max - u32_max mod NAMEPLATE_RANGE"

text \<open>The source of randomness is a state with a step that returns the next candidate.\<close>

partial_function (option) sample_nameplate ::
  "('r \<Rightarrow> (u32, 'e) result \<times> 'r) \<Rightarrow> 'r \<Rightarrow> ((u32, 'e) result \<times> 'r) option" where
  "sample_nameplate next_candidate g =
     (case next_candidate g of
        (Ok candidate, g') \<Rightarrow>
          if candidate < NAMEPLATE_ACCEPTED then Some (Ok (candidate mod NAMEPLATE_RANGE), g')
          else sample_nameplate next_candidate g'
      | (Err e, g') \<Rightarrow> Some (Err e, g')
      | (Panic, g') \<Rightarrow> Some (Panic, g'))"

end
