(* ===== verification/Relay_Invariant.thy ===== *)
theory Relay_Invariant
  imports Relay Limiter_Invariant
begin

text \<open>
  The invariant of the relay service. The tables beside the mailbox table (nameplates,
  membership hashes, expiries, byte account) are exactly what the mailboxes determine, and
  routes and connection sessions are inverse to each other. The lemmas show what each
  primitive update does to the two halves of the invariant.
\<close>

declare split_paired_All [simp del] split_paired_Ex [simp del]

section \<open>What a mailbox transition leaves\<close>

fun claim_hashes :: "mailbox_command \<Rightarrow> membership_hash set" where
  "claim_hashes (CmdClaim h) = {h}"
| "claim_hashes (CmdClaimV2 h token) = {h}"
| "claim_hashes _ = {}"

fun is_put :: "mailbox_command \<Rightarrow> bool" where
  "is_put (CmdPut s q b) = True"
| "is_put _ = False"

lemma transition_state_live:
  assumes "transition sha256 mb now cmd = Ok t" and "tr_state t = Some mb'"
  shows "transition_live sha256 mb cmd = Ok t \<and> now < mb_expires_at mb \<and> (\<forall>r. mb_status mb \<noteq> Terminal r)"
  using assms by (auto simp: transition_def reap_def bind_result_Ok split: if_splits mailbox_status.splits)

lemma closed_mailbox_member [simp]:
  "mb_member (closed_mailbox mb r) m = map_option clear_member (mb_member mb m)"
  by (cases m) (auto simp: closed_mailbox_def clear_mailbox_def)

lemma mb_member_queue [simp]: "mb_member (mb\<lparr>mb_queue_bytes := q\<rparr>) m = mb_member mb m"
  by (cases m) auto

lemma mb_member_set_other:
  "mb_member (set_member mb s x) m = (if m = s then Some x else mb_member mb m)"
  by (cases m; cases s) auto

lemma closed_mailbox_queue [simp]: "mb_queue_bytes (closed_mailbox mb r) = 0"
  by (simp add: closed_mailbox_def clear_mailbox_def)

lemma transition_keeps:
  assumes wf: "mailbox_wf sha256 mb" and ok: "transition sha256 mb now cmd = Ok t"
    and st: "tr_state t = Some mb'"
  shows "set (membership_hashes mb') \<subseteq> set (membership_hashes mb) \<union> claim_hashes cmd"
    and "mb_member mb m \<noteq> None \<Longrightarrow> mb_member mb' m \<noteq> None"
    and "\<not> is_put cmd \<Longrightarrow> mb_queue_bytes mb' \<le> mb_queue_bytes mb"
proof -
  have step: "transition_live sha256 mb cmd = Ok t" using transition_state_live[OF ok st] by blast
  have "set (membership_hashes mb') \<subseteq> set (membership_hashes mb) \<union> claim_hashes cmd \<and>
    (mb_member mb m \<noteq> None \<longrightarrow> mb_member mb' m \<noteq> None) \<and>
    (\<not> is_put cmd \<longrightarrow> mb_queue_bytes mb' \<le> mb_queue_bytes mb)"
  proof (cases cmd)
    case (CmdClaim h)
    with step st show ?thesis
      by (cases m) (auto simp: transition_claim_def mailbox_terminate[OF wf] membership_hashes_def
          new_member_def split: if_splits option.splits)
  next
    case (CmdClaimV2 h token)
    with step st show ?thesis
      by (cases m) (auto simp: transition_claim_v2_def membership_hashes_def new_member_def
          split: if_splits admission_snapshot.splits)
  next
    case (CmdOpen h)
    with step st show ?thesis by (auto simp: transition_open_def bind_result_Ok)
  next
    case (CmdPut s q b)
    with step have "transition_put sha256 mb s q b = Ok t" by simp
    with wf show ?thesis
    proof (cases rule: transition_put_cases)
      case (stored x x')
      have "membership_hashes (set_member mb s x') = membership_hashes mb"
        using membership_hashes_set_member[OF stored(1), of x'] stored(6) by simp
      with stored st CmdPut show ?thesis by (auto simp: mb_member_set_other)
    qed (use st CmdPut in auto)
  next
    case (CmdAck s q)
    with step have "transition_ack mb s q = Ok t" by simp
    with wf show ?thesis
    proof (cases rule: transition_ack_cases)
      case (1 p f fs n)
      have "membership_hashes (set_member mb (peer s) (p\<lparr>ms_frames := fs\<rparr>)) = membership_hashes mb"
        using membership_hashes_set_member[OF 1(2), of "p\<lparr>ms_frames := fs\<rparr>"] by simp
      with 1 st show ?thesis by (auto simp: mb_member_set_other)
    qed
  next
    case (CmdClose s)
    with step st show ?thesis
      by (auto simp: transition_close_def mailbox_terminate[OF wf] split: if_splits)
  qed
  then show "set (membership_hashes mb') \<subseteq> set (membership_hashes mb) \<union> claim_hashes cmd"
    "mb_member mb m \<noteq> None \<Longrightarrow> mb_member mb' m \<noteq> None"
    "\<not> is_put cmd \<Longrightarrow> mb_queue_bytes mb' \<le> mb_queue_bytes mb"
    by blast+
qed

lemma deletions_no_effect [simp]:
  "claimed_effect (mailbox_deletions mb @ es) = claimed_effect es"
  "opened_effect (mailbox_deletions mb @ es) = opened_effect es"
  "terminal_effect (mailbox_deletions mb @ es) = terminal_effect es"
proof -
  have "find P (mailbox_deletions mb @ es) = find P es"
    if "\<And>o1 s. \<not> P (EffBodyDeleted o1 s)" for P
  proof -
    have "find P (body_deletions o1 fs @ ys) = find P ys" for o1 fs ys
      using that by (induction fs) (auto simp: body_deletions_def)
    then show ?thesis by (auto simp: mailbox_deletions_def split: option.split)
  qed
  then show "claimed_effect (mailbox_deletions mb @ es) = claimed_effect es"
    "opened_effect (mailbox_deletions mb @ es) = opened_effect es"
    "terminal_effect (mailbox_deletions mb @ es) = terminal_effect es"
    by (simp_all add: claimed_effect_def opened_effect_def terminal_effect_def)
qed

lemma effect_simps [simp]:
  "claimed_effect [] = None" "opened_effect [] = None" "terminal_effect [] = None"
  "claimed_effect (EffTerminal r # es) = claimed_effect es"
  "opened_effect (EffTerminal r # es) = opened_effect es"
  "claimed_effect (EffClaimed m t # es) = Some t"
  "opened_effect (EffOpened m t # es) = Some m"
  "opened_effect (EffClaimed m t # es) = opened_effect es"
  "claimed_effect (EffOpened m t # es) = claimed_effect es"
  "terminal_effect (EffTerminal r # es) = Some r"
  "terminal_effect (EffClaimed m t # es) = terminal_effect es"
  "terminal_effect (EffOpened m t # es) = terminal_effect es"
  "claimed_effect (EffDeliver m s b # es) = claimed_effect es"
  by (simp_all add: claimed_effect_def opened_effect_def terminal_effect_def)

lemma reap_effects:
  assumes wf: "mailbox_wf sha256 mb" and ok: "transition sha256 mb now cmd = Ok t"
    and "tr_state t = None"
  shows "mb_expires_at mb \<le> now \<and> claimed_effect (tr_effects t) = None \<and> opened_effect (tr_effects t) = None"
proof -
  have now: "mb_expires_at mb \<le> now"
  proof (rule ccontr)
    assume "\<not> ?thesis"
    with ok have "transition_live sha256 mb cmd = Ok t" "\<forall>r. mb_status mb \<noteq> Terminal r"
      by (auto simp: transition_def split: mailbox_status.splits)
    from transition_live_wf[OF wf this] assms(3) show False by auto
  qed
  with ok show ?thesis using deletions_no_effect[of mb "[]"]
    by (auto simp: transition_def reap_def delete_bodies_Ok[OF mailbox_wf_queue[OF wf]]
        split: mailbox_status.splits)
qed

lemma claim_effect_state:
  assumes wf: "mailbox_wf sha256 mb" and ok: "transition sha256 mb now cmd = Ok t"
    and cmd: "claim_hashes cmd \<noteq> {}" and cl: "claimed_effect (tr_effects t) = Some x"
  shows "\<exists>mb'. tr_state t = Some mb' \<and> mb_claimant mb' \<noteq> None"
proof (cases "tr_state t")
  case None
  with reap_effects[OF wf ok] cl show ?thesis by simp
next
  case (Some mb')
  have step: "transition_live sha256 mb cmd = Ok t" using transition_state_live[OF ok Some] by blast
  with Some cmd cl show ?thesis
    by (cases cmd) (auto simp: transition_claim_def transition_claim_v2_def mailbox_terminate[OF wf]
        split: if_splits option.splits admission_snapshot.splits)
qed

lemma open_effect_state:
  assumes wf: "mailbox_wf sha256 mb" and ok: "transition sha256 mb now (CmdOpen h) = Ok t"
    and op: "opened_effect (tr_effects t) = Some m"
  shows "tr_state t = Some mb \<and> mb_member mb m \<noteq> None"
proof (cases "tr_state t")
  case None
  with reap_effects[OF wf ok] op show ?thesis by simp
next
  case (Some mb')
  have step: "transition_open mb h = Ok t" using transition_state_live[OF ok Some] by simp
  with Some op show ?thesis
    by (auto simp: transition_open_def bind_result_Ok membership_for_hash_def split: if_splits option.splits)
qed


section \<open>The tables beside the mailboxes\<close>

definition tables_wf ::
  "(bytes \<Rightarrow> bytes) \<Rightarrow> (bytes, mailbox) btree \<Rightarrow> (u32, bytes) btree \<Rightarrow> bytes list \<Rightarrow>
     (u64 \<times> bytes) list \<Rightarrow> u64 \<Rightarrow> bool" where
  "tables_wf sha256 mbs nps hs ex q \<longleftrightarrow>
     bt_wf mbs \<and> bt_wf nps \<and> bs_wf hs \<and> bs_wf ex \<and>
     (\<forall>i mb. bt_get mbs i = Some mb \<longrightarrow> mb_mailbox_id mb = i \<and> mailbox_wf sha256 mb) \<and>
     (\<forall>n i. bt_get nps n = Some i \<longleftrightarrow> (\<exists>mb. bt_get mbs i = Some mb \<and> mb_nameplate mb = Some n)) \<and>
     (\<forall>h. h \<in> set hs \<longleftrightarrow> (\<exists>i mb. bt_get mbs i = Some mb \<and> h \<in> set (membership_hashes mb))) \<and>
     (\<forall>i j mb mb' h. bt_get mbs i = Some mb \<longrightarrow> bt_get mbs j = Some mb' \<longrightarrow>
        h \<in> set (membership_hashes mb) \<longrightarrow> h \<in> set (membership_hashes mb') \<longrightarrow> i = j) \<and>
     (\<forall>t i. (t, i) \<in> set ex \<longleftrightarrow> (\<exists>mb. bt_get mbs i = Some mb \<and> mb_expires_at mb = t)) \<and>
     q = bt_sum mb_queue_bytes mbs"

lemma tables_wfD:
  assumes "tables_wf sha256 mbs nps hs ex q"
  shows "bt_wf mbs" "bt_wf nps" "bs_wf hs" "bs_wf ex"
    "\<And>i mb. bt_get mbs i = Some mb \<Longrightarrow> mb_mailbox_id mb = i \<and> mailbox_wf sha256 mb"
    "\<And>n i. bt_get nps n = Some i \<longleftrightarrow> (\<exists>mb. bt_get mbs i = Some mb \<and> mb_nameplate mb = Some n)"
    "\<And>h. h \<in> set hs \<longleftrightarrow> (\<exists>i mb. bt_get mbs i = Some mb \<and> h \<in> set (membership_hashes mb))"
    "\<And>i j mb mb' h. bt_get mbs i = Some mb \<Longrightarrow> bt_get mbs j = Some mb' \<Longrightarrow>
        h \<in> set (membership_hashes mb) \<Longrightarrow> h \<in> set (membership_hashes mb') \<Longrightarrow> i = j"
    "\<And>t i. (t, i) \<in> set ex \<longleftrightarrow> (\<exists>mb. bt_get mbs i = Some mb \<and> mb_expires_at mb = t)"
    "q = bt_sum mb_queue_bytes mbs"
  using assms unfolding tables_wf_def by (blast+)

lemma set_fold_bs_insert: "set (fold bs_insert xs s) = set xs \<union> set s"
  by (induction xs arbitrary: s) (auto simp: set_bs_insert)

lemma bs_wf_fold_bs_insert: "bs_wf s \<Longrightarrow> bs_wf (fold bs_insert xs s)"
  by (induction xs arbitrary: s) (auto simp: bs.inv_ins)

lemma set_fold_bs_rem: "set (fold bs_remove xs s) = set s - set xs"
  by (induction xs arbitrary: s) auto

lemma bs_wf_fold_bs_rem: "bs_wf s \<Longrightarrow> bs_wf (fold bs_remove xs s)"
  by (induction xs arbitrary: s) (auto simp: bs.inv_rem)

lemma ex_map_upd:
  "(\<exists>j x. (m(i \<mapsto> v)) j = Some x \<and> P x) \<longleftrightarrow> P v \<or> (\<exists>j x. j \<noteq> i \<and> m j = Some x \<and> P x)"
  "(\<exists>j x. (m(i := None)) j = Some x \<and> P x) \<longleftrightarrow> (\<exists>j x. j \<noteq> i \<and> m j = Some x \<and> P x)"
proof -
  show "(\<exists>j x. (m(i \<mapsto> v)) j = Some x \<and> P x) \<longleftrightarrow> P v \<or> (\<exists>j x. j \<noteq> i \<and> m j = Some x \<and> P x)"
  proof
    assume "P v \<or> (\<exists>j x. j \<noteq> i \<and> m j = Some x \<and> P x)"
    then show "\<exists>j x. (m(i \<mapsto> v)) j = Some x \<and> P x"
    proof
      assume "P v"
      then show ?thesis by (intro exI[of _ i] exI[of _ v]) simp
    next
      assume "\<exists>j x. j \<noteq> i \<and> m j = Some x \<and> P x"
      then obtain j x where "j \<noteq> i" "m j = Some x" "P x" by blast
      then show ?thesis by (intro exI[of _ j] exI[of _ x]) simp
    qed
  qed (auto split: if_splits)
  show "(\<exists>j x. (m(i := None)) j = Some x \<and> P x) \<longleftrightarrow> (\<exists>j x. j \<noteq> i \<and> m j = Some x \<and> P x)"
  proof
    assume "\<exists>j x. j \<noteq> i \<and> m j = Some x \<and> P x"
    then obtain j x where "j \<noteq> i" "m j = Some x" "P x" by blast
    then show "\<exists>j x. (m(i := None)) j = Some x \<and> P x" by (intro exI[of _ j] exI[of _ x]) simp
  qed (auto split: if_splits)
qed

lemma tables_insert:
  assumes wf: "tables_wf sha256 mbs nps hs ex q" and absent: "bt_get mbs (mb_mailbox_id mb) = None"
    and mb: "mailbox_wf sha256 mb" "\<forall>h \<in> set (membership_hashes mb). h \<notin> set hs"
    and np: "\<And>n. mb_nameplate mb = Some n \<Longrightarrow> bt_get nps n = None"
  shows "tables_wf sha256 (bt_insert (mb_mailbox_id mb) mb mbs)
    (case mb_nameplate mb of None \<Rightarrow> nps | Some n \<Rightarrow> bt_insert n (mb_mailbox_id mb) nps)
    (fold bs_insert (membership_hashes mb) hs) (bs_insert (mb_expires_at mb, mb_mailbox_id mb) ex)
    (q + mb_queue_bytes mb)"
proof -
  note D = tables_wfD[OF wf]
  let ?i = "mb_mailbox_id mb"
  let ?nps = "case mb_nameplate mb of None \<Rightarrow> nps | Some n \<Rightarrow> bt_insert n ?i nps"
  have g: "bt_get (bt_insert ?i mb mbs) = (bt_get mbs)(?i \<mapsto> mb)" by (simp add: bt_get_insert)
  have plates: "bt_get ?nps n = Some i \<longleftrightarrow>
      (\<exists>x. bt_get (bt_insert ?i mb mbs) i = Some x \<and> mb_nameplate x = Some n)" for n i
  proof (cases "mb_nameplate mb")
    case None
    have "bt_get nps n \<noteq> Some ?i" using D(6)[of n ?i] absent by simp
    with None D(6)[of n i] show ?thesis by (auto simp: g)
  next
    case (Some n0)
    have "bt_get nps n \<noteq> Some ?i" using D(6)[of n ?i] absent by simp
    moreover have "bt_get nps n0 = None" using np Some by simp
    ultimately show ?thesis using Some D(6)[of n i] by (auto simp: g bt_get_insert)
  qed
  have fresh: "h \<notin> set (membership_hashes x)"
    if "bt_get mbs i = Some x" "h \<in> set (membership_hashes mb)" for h i x
    using D(7)[of h] mb(2) that by blast
  have sum: "bt_sum mb_queue_bytes (bt_insert ?i mb mbs) = q + mb_queue_bytes mb"
    using bt_sum_insert[OF D(1), of mb_queue_bytes ?i mb] absent D(10) by simp
  have pls: "bt_wf ?nps" using D(2) by (simp add: bt_wf_insert split: option.split)
  have dis: "i = j" if "bt_get (bt_insert ?i mb mbs) i = Some x" "bt_get (bt_insert ?i mb mbs) j = Some y"
    "k \<in> set (membership_hashes x)" "k \<in> set (membership_hashes y)" for i j x y k
    using that fresh D(8) by (auto simp: g split: if_splits)
  have hs: "k \<in> set (fold bs_insert (membership_hashes mb) hs) \<longleftrightarrow>
      (\<exists>i x. bt_get (bt_insert ?i mb mbs) i = Some x \<and> k \<in> set (membership_hashes x))" for k
    unfolding g ex_map_upd set_fold_bs_insert Un_iff D(7)[of k] using absent by (auto, metis option.distinct(1))
  have ex: "(t, i) \<in> set (bs_insert (mb_expires_at mb, ?i) ex) \<longleftrightarrow>
      (\<exists>x. bt_get (bt_insert ?i mb mbs) i = Some x \<and> mb_expires_at x = t)" for t i
    using D(9)[of t i] D(9)[of t ?i] absent by (auto simp: g set_bs_insert)
  have ids: "mb_mailbox_id x = i \<and> mailbox_wf sha256 x" if "bt_get (bt_insert ?i mb mbs) i = Some x" for i x
    using that D(5) mb(1) by (auto simp: g split: if_splits)
  show ?thesis
    unfolding tables_wf_def using D(1,3,4) plates sum pls hs ex
    by (intro conjI allI impI) (auto simp: bt_wf_insert bs.inv_ins bs_wf_fold_bs_insert dest: ids dis)
qed

lemma tables_update:
  assumes wf: "tables_wf sha256 mbs nps hs ex q" and old: "bt_get mbs i = Some mb"
    and mb': "mailbox_wf sha256 mb'" "mb_mailbox_id mb' = mb_mailbox_id mb"
      "mb_nameplate mb' = mb_nameplate mb" "mb_expires_at mb' = mb_expires_at mb"
    and sup: "set (membership_hashes mb) \<subseteq> set (membership_hashes mb')"
    and new: "set (membership_hashes mb') \<subseteq> set (membership_hashes mb) \<union> H" "\<forall>h \<in> H. h \<notin> set hs"
  shows "tables_wf sha256 (bt_insert i mb' mbs) nps (fold bs_insert (membership_hashes mb') hs) ex
    (q - mb_queue_bytes mb + mb_queue_bytes mb') \<and> mb_queue_bytes mb \<le> q"
proof -
  note D = tables_wfD[OF wf]
  have g: "bt_get (bt_insert i mb' mbs) = (bt_get mbs)(i \<mapsto> mb')" by (simp add: bt_get_insert)
  have le: "mb_queue_bytes mb \<le> q" using bt_sum_member_le[OF D(1) old] D(10) by simp
  have sum: "bt_sum mb_queue_bytes (bt_insert i mb' mbs) = q - mb_queue_bytes mb + mb_queue_bytes mb'"
    using bt_sum_insert[OF D(1), of mb_queue_bytes i mb'] old D(10) le by simp
  have plates: "bt_get nps n = Some j \<longleftrightarrow>
      (\<exists>x. bt_get (bt_insert i mb' mbs) j = Some x \<and> mb_nameplate x = Some n)" for n j
    using D(6)[of n j] old mb'(3) by (auto simp: g)
  have sep: "k \<notin> set (membership_hashes x)"
    if "bt_get mbs j = Some x" "j \<noteq> i" "k \<in> set (membership_hashes mb')" for j x k
  proof
    assume k: "k \<in> set (membership_hashes x)"
    from that(3) new(1) consider "k \<in> set (membership_hashes mb)" | "k \<in> H" by blast
    then show False
    proof cases
      case 1
      then show False using D(8)[OF that(1) old k] that(2) by simp
    next
      case 2
      then show False using new(2) D(7)[of k] that(1) k by blast
    qed
  qed
  have dis: "j = j'" if "bt_get (bt_insert i mb' mbs) j = Some x" "bt_get (bt_insert i mb' mbs) j' = Some y"
    "k \<in> set (membership_hashes x)" "k \<in> set (membership_hashes y)" for j j' x y k
    using that sep D(8) by (auto simp: g split: if_splits)
  have hs: "k \<in> set (fold bs_insert (membership_hashes mb') hs) \<longleftrightarrow>
      (\<exists>j x. bt_get (bt_insert i mb' mbs) j = Some x \<and> k \<in> set (membership_hashes x))" for k
    unfolding g ex_map_upd set_fold_bs_insert Un_iff D(7)[of k]
  proof
    assume "k \<in> set (membership_hashes mb') \<or> (\<exists>j x. bt_get mbs j = Some x \<and> k \<in> set (membership_hashes x))"
    then show "k \<in> set (membership_hashes mb') \<or>
        (\<exists>j x. j \<noteq> i \<and> bt_get mbs j = Some x \<and> k \<in> set (membership_hashes x))"
    proof (elim disjE exE conjE)
      fix j x assume x: "bt_get mbs j = Some x" "k \<in> set (membership_hashes x)"
      show ?thesis
      proof (cases "j = i")
        case True
        with x old have "k \<in> set (membership_hashes mb)" by simp
        with sup show ?thesis by blast
      qed (use x in blast)
    qed blast
  qed blast
  have ex: "(t, j) \<in> set ex \<longleftrightarrow>
      (\<exists>x. bt_get (bt_insert i mb' mbs) j = Some x \<and> mb_expires_at x = t)" for t j
    using D(9)[of t j] old mb'(4) by (auto simp: g)
  have ids: "mb_mailbox_id x = j \<and> mailbox_wf sha256 x" if "bt_get (bt_insert i mb' mbs) j = Some x" for j x
    using that D(5)[of j x] D(5)[OF old] mb'(1,2) by (auto simp: g split: if_splits)
  have "tables_wf sha256 (bt_insert i mb' mbs) nps (fold bs_insert (membership_hashes mb') hs) ex
    (q - mb_queue_bytes mb + mb_queue_bytes mb')"
    unfolding tables_wf_def using D(1-4) plates sum hs ex
    by (intro conjI allI impI) (auto simp: bt_wf_insert bs_wf_fold_bs_insert dest: ids dis)
  with le show ?thesis by blast
qed

lemma tables_remove:
  assumes wf: "tables_wf sha256 mbs nps hs ex q" and old: "bt_get mbs i = Some mb"
  shows "tables_wf sha256 (bt_remove i mbs)
    (case mb_nameplate mb of None \<Rightarrow> nps | Some n \<Rightarrow> bt_remove n nps)
    (fold bs_remove (membership_hashes mb) hs) (bs_remove (mb_expires_at mb, i) ex)
    (q - mb_queue_bytes mb) \<and> mb_queue_bytes mb \<le> q"
proof -
  note D = tables_wfD[OF wf]
  have g: "bt_get (bt_remove i mbs) = (bt_get mbs)(i := None)" by (simp add: bt_get_remove)
  have le: "mb_queue_bytes mb \<le> q" using bt_sum_member_le[OF D(1) old] D(10) by simp
  have sum: "bt_sum mb_queue_bytes (bt_remove i mbs) = q - mb_queue_bytes mb"
    using bt_sum_remove[OF D(1) old, of mb_queue_bytes] D(10) by simp
  let ?nps = "case mb_nameplate mb of None \<Rightarrow> nps | Some n \<Rightarrow> bt_remove n nps"
  have plates: "bt_get ?nps n = Some j \<longleftrightarrow>
      (\<exists>x. bt_get (bt_remove i mbs) j = Some x \<and> mb_nameplate x = Some n)" for n j
  proof (cases "mb_nameplate mb")
    case None
    then show ?thesis using D(6)[of n j] old by (auto simp: g)
  next
    case (Some n0)
    then have "bt_get nps n0 = Some i" using D(6)[of n0 i] old by blast
    with Some D(6)[of n j] old show ?thesis by (auto simp: g bt_get_remove)
  qed
  have pls: "bt_wf ?nps" using D(2) by (simp add: bt_wf_remove split: option.split)
  have hs: "k \<in> set (fold bs_remove (membership_hashes mb) hs) \<longleftrightarrow>
      (\<exists>j x. bt_get (bt_remove i mbs) j = Some x \<and> k \<in> set (membership_hashes x))" for k
    unfolding g ex_map_upd set_fold_bs_rem Diff_iff D(7)[of k]
  proof
    assume "(\<exists>j x. bt_get mbs j = Some x \<and> k \<in> set (membership_hashes x)) \<and> k \<notin> set (membership_hashes mb)"
    then obtain j x where x: "bt_get mbs j = Some x" "k \<in> set (membership_hashes x)"
      and k: "k \<notin> set (membership_hashes mb)" by blast
    have "j \<noteq> i" using x k old by auto
    with x show "\<exists>j x. j \<noteq> i \<and> bt_get mbs j = Some x \<and> k \<in> set (membership_hashes x)" by blast
  next
    assume "\<exists>j x. j \<noteq> i \<and> bt_get mbs j = Some x \<and> k \<in> set (membership_hashes x)"
    then obtain j x where x: "j \<noteq> i" "bt_get mbs j = Some x" "k \<in> set (membership_hashes x)" by blast
    then have "k \<notin> set (membership_hashes mb)" using D(8)[OF x(2) old x(3)] by blast
    with x show "(\<exists>j x. bt_get mbs j = Some x \<and> k \<in> set (membership_hashes x)) \<and> k \<notin> set (membership_hashes mb)"
      by blast
  qed
  have ex: "(t, j) \<in> set (bs_remove (mb_expires_at mb, i) ex) \<longleftrightarrow>
      (\<exists>x. bt_get (bt_remove i mbs) j = Some x \<and> mb_expires_at x = t)" for t j
    using D(9)[of t j] old by (auto simp: g)
  have ids: "mb_mailbox_id x = j \<and> mailbox_wf sha256 x" if "bt_get (bt_remove i mbs) j = Some x" for j x
    using that D(5) by (auto simp: g split: if_splits)
  have dis: "j = j'" if "bt_get (bt_remove i mbs) j = Some x" "bt_get (bt_remove i mbs) j' = Some y"
    "k \<in> set (membership_hashes x)" "k \<in> set (membership_hashes y)" for j j' x y k
    using that D(8) by (auto simp: g split: if_splits)
  have "tables_wf sha256 (bt_remove i mbs) ?nps (fold bs_remove (membership_hashes mb) hs)
    (bs_remove (mb_expires_at mb, i) ex) (q - mb_queue_bytes mb)"
    unfolding tables_wf_def using D(1,3,4) plates sum pls hs ex
    by (intro conjI allI impI) (auto simp: bt_wf_remove bs_wf_fold_bs_rem bs.inv_rem dest: ids dis)
  with le show ?thesis by blast
qed


section \<open>Routes and sessions\<close>

definition sess :: "(connection_id, connection_state) btree \<Rightarrow> connection_id \<Rightarrow> session_membership option" where
  "sess conns c = Option.bind (bt_get conns c) cs_membership"

definition member_exists :: "(bytes, mailbox) btree \<Rightarrow> session_membership \<Rightarrow> bool" where
  "member_exists mbs m \<longleftrightarrow>
     (\<exists>mb. bt_get mbs (sm_mailbox_id m) = Some mb \<and> mb_member mb (sm_membership m) \<noteq> None)"

definition sessions_wf ::
  "(bytes, mailbox) btree \<Rightarrow> (connection_id, connection_state) btree \<Rightarrow>
     (bytes \<times> u8, connection_id) btree \<Rightarrow> bool" where
  "sessions_wf mbs conns routes \<longleftrightarrow>
     bt_wf conns \<and> bt_wf routes \<and>
     (\<forall>k c. bt_get routes k = Some c \<longleftrightarrow> (\<exists>m. sess conns c = Some m \<and> route_key m = k)) \<and>
     (\<forall>c m. sess conns c = Some m \<longrightarrow> member_exists mbs m)"

lemma sessions_wfD:
  assumes "sessions_wf mbs conns routes"
  shows "bt_wf conns" "bt_wf routes"
    "\<And>k c. bt_get routes k = Some c \<longleftrightarrow> (\<exists>m. sess conns c = Some m \<and> route_key m = k)"
    "\<And>c m. sess conns c = Some m \<Longrightarrow> member_exists mbs m"
  using assms unfolding sessions_wf_def by blast+

lemma route_key_inject [simp]: "route_key a = route_key b \<longleftrightarrow> a = b"
  by (cases a; cases b) (auto simp: route_key_def split: membership.splits)

lemma session_of_sess: "session_of r c = sess (rl_connections r) c"
  by (simp add: session_of_def sess_def)

lemma sess_insert: "sess (bt_insert c st conns) = (sess conns)(c := cs_membership st)"
  by (auto simp: sess_def bt_get_insert fun_eq_iff)

lemma sess_remove: "sess (bt_remove c conns) = (sess conns)(c := None)"
  by (auto simp: sess_def bt_get_remove fun_eq_iff)

lemma sess_set_session:
  assumes "sess (rl_connections r) c \<noteq> None \<or> m = None"
  shows "sess (rl_connections (set_session c m r)) = (sess (rl_connections r))(c := m)"
  using assms by (auto simp: set_session_def sess_insert split: option.split) (auto simp: sess_def fun_eq_iff)

lemma set_session_fields [simp]:
  "rl_config (set_session c m r) = rl_config r" "rl_limiter (set_session c m r) = rl_limiter r"
  "rl_observability (set_session c m r) = rl_observability r" "rl_store (set_session c m r) = rl_store r"
  "rl_mailboxes (set_session c m r) = rl_mailboxes r" "rl_nameplates (set_session c m r) = rl_nameplates r"
  "rl_membership_hashes (set_session c m r) = rl_membership_hashes r"
  "rl_expiries (set_session c m r) = rl_expiries r" "rl_queue_bytes (set_session c m r) = rl_queue_bytes r"
  "rl_routes (set_session c m r) = rl_routes r"
  by (simp_all add: set_session_def split: option.split)

lemma bt_wf_set_session: "bt_wf (rl_connections r) \<Longrightarrow> bt_wf (rl_connections (set_session c m r))"
  by (simp add: set_session_def bt_wf_insert split: option.split)

text \<open>The bookkeeping of \<^verbatim>\<open>attach\<close> on the two maps alone.\<close>

lemma attach_maps:
  fixes R :: "'k \<Rightarrow> 'c option" and S :: "'c \<Rightarrow> 'k option"
  assumes inverse: "\<And>k c. R k = Some c \<longleftrightarrow> S c = Some k"
    and R1: "R1 = (case S c of None \<Rightarrow> R | Some p \<Rightarrow> if R p = Some c then R(p := None) else R)"
    and S3: "S3 = (case R1 k of None \<Rightarrow> S | Some d \<Rightarrow> if d \<noteq> c then S(d := None) else S)"
  shows "(R1(k \<mapsto> c)) x = Some y \<longleftrightarrow> (S3(c \<mapsto> k)) y = Some x"
proof -
  have R1': "R1 x = Some y \<longleftrightarrow> S y = Some x \<and> y \<noteq> c" for x y
  proof (cases "S c")
    case None
    with inverse[of x y] show ?thesis by (auto simp: R1)
  next
    case (Some p)
    then have "R p = Some c" using inverse by simp
    with Some inverse[of x y] show ?thesis by (auto simp: R1)
  qed
  show ?thesis
  proof (cases "R1 k")
    case None
    then have "S d = Some k \<Longrightarrow> d = c" for d using R1'[of k d] by auto
    with None R1'[of x y] show ?thesis by (auto simp: S3)
  next
    case (Some d)
    then have d: "S d = Some k" "d \<noteq> c" using R1'[of k d] by auto
    have "S e = Some k \<Longrightarrow> e = c \<or> e = d" for e using R1'[of k e] Some by auto
    with Some d R1'[of x y] show ?thesis by (auto simp: S3)
  qed
qed

lemma attach_fields [simp]:
  "rl_config (attach c m r) = rl_config r" "rl_limiter (attach c m r) = rl_limiter r"
  "rl_observability (attach c m r) = rl_observability r" "rl_store (attach c m r) = rl_store r"
  "rl_mailboxes (attach c m r) = rl_mailboxes r" "rl_nameplates (attach c m r) = rl_nameplates r"
  "rl_membership_hashes (attach c m r) = rl_membership_hashes r"
  "rl_expiries (attach c m r) = rl_expiries r" "rl_queue_bytes (attach c m r) = rl_queue_bytes r"
  by (simp_all add: attach_def Let_def split: option.split)

lemma attach_sessions:
  assumes wf: "sessions_wf mbs (rl_connections r) (rl_routes r)" and m: "member_exists mbs m"
  shows "sessions_wf mbs (rl_connections (attach c m r)) (rl_routes (attach c m r))"
    and "sess (rl_connections (attach c m r)) c = Some m"
proof -
  note D = sessions_wfD[OF wf]
  let ?conns = "rl_connections r" and ?R = "bt_get (rl_routes r)"
  let ?S = "\<lambda>d. map_option route_key (sess ?conns d)"
  define r1 where "r1 = (case session_of r c of
                  None \<Rightarrow> r
                | Some previous \<Rightarrow>
                    if bt_get (rl_routes r) (route_key previous) = Some c
                    then r\<lparr>rl_routes := bt_remove (route_key previous) (rl_routes r)\<rparr> else r)"
  define r2 where "r2 = r1\<lparr>rl_routes := bt_insert (route_key m) c (rl_routes r1)\<rparr>"
  define r3 where "r3 = (case bt_get (rl_routes r1) (route_key m) of
                  None \<Rightarrow> r2
                | Some old \<Rightarrow> if old \<noteq> c then set_session old None r2 else r2)"
  define st where "st = (case bt_get (rl_connections r3) c of None \<Rightarrow> default_connection | Some st \<Rightarrow> st)"
  have att: "attach c m r =
      r3\<lparr>rl_connections := bt_insert c (st\<lparr>cs_membership := Some m\<rparr>) (rl_connections r3)\<rparr>"
    by (simp only: attach_def Let_def r1_def r2_def r3_def st_def)
  have c1: "rl_connections r1 = ?conns" by (simp add: r1_def split: option.split)
  have R1: "bt_get (rl_routes r1) =
      (case ?S c of None \<Rightarrow> ?R | Some p \<Rightarrow> if ?R p = Some c then ?R(p := None) else ?R)"
    by (auto simp: r1_def session_of_sess bt_get_remove split: option.split)
  let ?S3 = "case bt_get (rl_routes r1) (route_key m) of
      None \<Rightarrow> ?S | Some d \<Rightarrow> if d \<noteq> c then ?S(d := None) else ?S"
  have sess3: "sess (rl_connections r3) = (case bt_get (rl_routes r1) (route_key m) of
      None \<Rightarrow> sess ?conns | Some d \<Rightarrow> if d \<noteq> c then (sess ?conns)(d := None) else sess ?conns)"
    by (simp add: r3_def r2_def c1 sess_set_session split: option.split)
  have routes: "rl_routes (attach c m r) = bt_insert (route_key m) c (rl_routes r1)"
    by (simp add: att r3_def r2_def split: option.split)
  have conns: "sess (rl_connections (attach c m r)) = (sess (rl_connections r3))(c \<mapsto> m)"
    by (simp add: att sess_insert)
  have inv: "?R k = Some d \<longleftrightarrow> ?S d = Some k" for k d using D(3)[of k d] by auto
  have maps: "bt_get (rl_routes (attach c m r)) k = Some d \<longleftrightarrow>
      (\<exists>x. sess (rl_connections (attach c m r)) d = Some x \<and> route_key x = k)" for k d
  proof -
    have "bt_get (rl_routes (attach c m r)) k = Some d \<longleftrightarrow> (?S3(c \<mapsto> route_key m)) d = Some k"
      unfolding routes bt_get_insert by (rule attach_maps[OF inv R1 refl])
    also have "(?S3(c \<mapsto> route_key m)) d = map_option route_key (sess (rl_connections (attach c m r)) d)"
      by (auto simp: conns sess3 split: option.split)
    finally show ?thesis by auto
  qed
  have wfc: "bt_wf (rl_connections (attach c m r))" "bt_wf (rl_routes (attach c m r))"
    using D(1,2)
    by (auto simp: att r3_def r2_def r1_def bt_wf_insert bt_wf_remove bt_wf_set_session split: option.split)
  have ex: "member_exists mbs x" if "sess (rl_connections (attach c m r)) d = Some x" for d x
    using that m D(4) by (auto simp: conns sess3 split: if_splits option.splits)
  show "sessions_wf mbs (rl_connections (attach c m r)) (rl_routes (attach c m r))"
    unfolding sessions_wf_def using maps wfc ex by blast
  show "sess (rl_connections (attach c m r)) c = Some m" by (simp add: conns)
qed

lemma drop_route_fields [simp]:
  "rl_config (drop_route i m r) = rl_config r" "rl_limiter (drop_route i m r) = rl_limiter r"
  "rl_observability (drop_route i m r) = rl_observability r" "rl_store (drop_route i m r) = rl_store r"
  "rl_mailboxes (drop_route i m r) = rl_mailboxes r" "rl_nameplates (drop_route i m r) = rl_nameplates r"
  "rl_membership_hashes (drop_route i m r) = rl_membership_hashes r"
  "rl_expiries (drop_route i m r) = rl_expiries r" "rl_queue_bytes (drop_route i m r) = rl_queue_bytes r"
  by (simp_all add: drop_route_def Let_def split: option.split)

lemma drop_route_sessions:
  assumes wf: "sessions_wf mbs (rl_connections r) (rl_routes r)"
  shows "sessions_wf mbs (rl_connections (drop_route i m r)) (rl_routes (drop_route i m r))"
    and "sess (rl_connections (drop_route i m r)) c =
      (if sess (rl_connections r) c = Some \<lparr>sm_mailbox_id = i, sm_membership = m\<rparr> then None
       else sess (rl_connections r) c)"
proof -
  note D = sessions_wfD[OF wf]
  let ?m = "\<lparr>sm_mailbox_id = i, sm_membership = m\<rparr>"
  have both: "sessions_wf mbs (rl_connections (drop_route i m r)) (rl_routes (drop_route i m r)) \<and>
    (\<forall>c. sess (rl_connections (drop_route i m r)) c =
      (if sess (rl_connections r) c = Some ?m then None else sess (rl_connections r) c))"
  proof (cases "bt_get (rl_routes r) (route_key ?m)")
    case None
    then have "sess (rl_connections r) c \<noteq> Some ?m" for c using D(3)[of "route_key ?m" c] by auto
    with wf None show ?thesis by (simp add: drop_route_def)
  next
    case (Some d)
    have own: "sess (rl_connections r) c = Some ?m \<longleftrightarrow> c = d" for c
      using D(3)[of "route_key ?m" c] Some by auto
    have s: "sess (rl_connections (drop_route i m r)) = (sess (rl_connections r))(d := None)"
      using Some by (simp add: drop_route_def sess_set_session)
    have rt: "rl_routes (drop_route i m r) = bt_remove (route_key ?m) (rl_routes r)"
      using Some by (simp add: drop_route_def)
    have "bt_get (rl_routes (drop_route i m r)) k = Some c \<longleftrightarrow>
        (\<exists>x. sess (rl_connections (drop_route i m r)) c = Some x \<and> route_key x = k)" for k c
      using D(3)[of k c] own[of c] Some by (auto simp: s rt bt_get_remove)
    moreover have "bt_wf (rl_connections (drop_route i m r))" "bt_wf (rl_routes (drop_route i m r))"
      using D(1,2) Some by (simp_all add: drop_route_def bt_wf_set_session bt_wf_remove)
    moreover have "member_exists mbs x" if "sess (rl_connections (drop_route i m r)) c = Some x" for c x
      using that D(4) by (auto simp: s split: if_splits)
    ultimately show ?thesis using own by (auto simp: sessions_wf_def s)
  qed
  then show "sessions_wf mbs (rl_connections (drop_route i m r)) (rl_routes (drop_route i m r))"
    "sess (rl_connections (drop_route i m r)) c =
      (if sess (rl_connections r) c = Some ?m then None else sess (rl_connections r) c)"
    by blast+
qed

lemma sessions_mailboxes:
  assumes "sessions_wf mbs conns routes"
    and "\<And>c m. sess conns c = Some m \<Longrightarrow> member_exists mbs m \<Longrightarrow> member_exists mbs' m"
  shows "sessions_wf mbs' conns routes"
  using assms unfolding sessions_wf_def by blast

end
