(* ===== verification/Relay_Safety.thy ===== *)
theory Relay_Safety
  imports Relay_Invariant Storage_Props
begin

text \<open>
  Every operation of the relay keeps its invariant, keeps the store equal to the mailbox
  table (also when the store refuses a write), and never panics. The store is any store with
  the contract \<open>mailbox_store\<close>.
\<close>

declare split_paired_All [simp del] split_paired_Ex [simp del]

section \<open>Typed mailboxes\<close>

definition typed_member :: "member_state \<Rightarrow> bool" where
  "typed_member x \<longleftrightarrow> length (ms_hash x) = 32 \<and> list_all (\<lambda>f. length (fr_digest f) = 32) (ms_frames x)"

lemma typed_mailbox_parts:
  "typed_mailbox mb \<longleftrightarrow> length (mb_mailbox_id mb) = 32 \<and> typed_member (mb_allocator mb) \<and>
     (case mb_claimant mb of None \<Rightarrow> True | Some c \<Rightarrow> typed_member c) \<and>
     (case mb_admission mb of V2Pending c \<Rightarrow> length c = 32 | _ \<Rightarrow> True)"
  by (auto simp: typed_mailbox_def typed_member_def membership_hashes_def all_frames_def
      split: option.splits)

lemma all_membership: "(\<forall>m. P m) \<longleftrightarrow> P Allocator \<and> P Claimant"
  using membership.exhaust by metis

lemma typed_mailbox_members:
  "typed_mailbox mb \<longleftrightarrow> length (mb_mailbox_id mb) = 32 \<and>
     (\<forall>m x. mb_member mb m = Some x \<longrightarrow> typed_member x) \<and>
     (case mb_admission mb of V2Pending c \<Rightarrow> length c = 32 | _ \<Rightarrow> True)"
  by (simp add: typed_mailbox_parts all_membership split: option.split)

lemma typed_closed: "typed_mailbox mb \<Longrightarrow> typed_mailbox (closed_mailbox mb r)"
  by (auto simp: typed_mailbox_members typed_member_def list_all_iff)

lemma take_body_digests:
  "take_body seq fs = Some (f, gs) \<Longrightarrow> list_all (\<lambda>f. P (fr_digest f)) fs \<Longrightarrow>
   list_all (\<lambda>f. P (fr_digest f)) gs"
  by (induction fs arbitrary: gs) (auto split: if_splits)

lemma transition_typed:
  assumes wf: "mailbox_wf sha256 mb" and typed: "typed_mailbox mb"
    and ok: "transition sha256 mb now cmd = Ok t" and st: "tr_state t = Some mb'"
    and digest: "\<And>x. length (sha256 x) = 32" and claim: "\<forall>h \<in> claim_hashes cmd. length h = 32"
  shows "typed_mailbox mb'"
proof -
  have step: "transition_live sha256 mb cmd = Ok t" using transition_state_live[OF ok st] by blast
  have new: "typed_member (new_member h)" if "length h = 32" for h
    using that by (simp add: typed_member_def new_member_def)
  show ?thesis
  proof (cases cmd)
    case (CmdClaim h)
    with step st typed claim new[of h] typed_closed[OF typed] show ?thesis
      by (auto simp: transition_claim_def mailbox_terminate[OF wf] typed_mailbox_parts
          split: if_splits option.splits)
  next
    case (CmdClaimV2 h token)
    with step st typed claim new[of h] show ?thesis
      by (auto simp: transition_claim_v2_def typed_mailbox_parts
          split: if_splits admission_snapshot.splits)
  next
    case (CmdOpen h)
    with step st typed show ?thesis by (auto simp: transition_open_def bind_result_Ok)
  next
    case (CmdPut s q b)
    with step have "transition_put sha256 mb s q b = Ok t" by simp
    with wf show ?thesis
    proof (cases rule: transition_put_cases)
      case (stored x x')
      have "typed_member x'" using stored(1,6) typed digest
        by (auto simp: typed_mailbox_members typed_member_def)
      with stored st typed show ?thesis
        by (auto simp: typed_mailbox_members mb_member_set_other split: if_splits)
    qed (use st typed typed_closed in auto)
  next
    case (CmdAck s q)
    with step have "transition_ack mb s q = Ok t" by simp
    with wf show ?thesis
    proof (cases rule: transition_ack_cases)
      case (1 p f fs n)
      have "typed_member (p\<lparr>ms_frames := fs\<rparr>)"
        using typed 1(2) take_body_digests[OF 1(3), of "\<lambda>d. length d = 32"]
        by (auto simp: typed_mailbox_members typed_member_def)
      with 1 st typed show ?thesis
        by (auto simp: typed_mailbox_members mb_member_set_other split: if_splits)
    qed
  next
    case (CmdClose s)
    with step st typed show ?thesis
      by (auto simp: transition_close_def mailbox_terminate[OF wf] typed_closed split: if_splits)
  qed
qed

section \<open>The invariant\<close>

definition store_law :: "'s relay_env \<Rightarrow> ('s \<Rightarrow> bytes \<Rightarrow> mailbox option) \<Rightarrow> ('s \<Rightarrow> bool) \<Rightarrow> bool" where
  "store_law E records sinv \<longleftrightarrow>
     mailbox_store (env_store E) records sinv (\<lambda>mb. mailbox_wf (env_sha256 E) mb \<and> typed_mailbox mb) \<and>
     (\<forall>x. length (env_sha256 E x) = 32)"

definition relay_wf :: "'s relay_env \<Rightarrow> 's relay \<Rightarrow> bool" where
  "relay_wf E r \<longleftrightarrow>
     limiter_wf (rc_limiter (rl_config r)) (rl_limiter r) \<and> counters_ok (rl_observability r) \<and>
     tables_wf (env_sha256 E) (rl_mailboxes r) (rl_nameplates r) (rl_membership_hashes r)
       (rl_expiries r) (rl_queue_bytes r) \<and>
     sessions_wf (rl_mailboxes r) (rl_connections r) (rl_routes r) \<and>
     (\<forall>i mb. bt_get (rl_mailboxes r) i = Some mb \<longrightarrow> typed_mailbox mb) \<and>
     length (bt_keys (rl_mailboxes r)) \<le> cap_open_mailboxes (rc_capacity (rl_config r)) \<and>
     rl_queue_bytes r \<le> cap_queue_bytes (rc_capacity (rl_config r)) \<and>
     cap_queue_bytes (rc_capacity (rl_config r)) < u64_max"

definition relay_inv ::
  "'s relay_env \<Rightarrow> ('s \<Rightarrow> bytes \<Rightarrow> mailbox option) \<Rightarrow> ('s \<Rightarrow> bool) \<Rightarrow> 's relay \<Rightarrow> bool" where
  "relay_inv E records sinv r \<longleftrightarrow>
     relay_wf E r \<and> sinv (rl_store r) \<and> records (rl_store r) = bt_get (rl_mailboxes r)"

lemma relay_invD:
  assumes "relay_inv E records sinv r"
  shows "limiter_wf (rc_limiter (rl_config r)) (rl_limiter r)" "counters_ok (rl_observability r)"
    "tables_wf (env_sha256 E) (rl_mailboxes r) (rl_nameplates r) (rl_membership_hashes r)
       (rl_expiries r) (rl_queue_bytes r)"
    "sessions_wf (rl_mailboxes r) (rl_connections r) (rl_routes r)"
    "\<And>i mb. bt_get (rl_mailboxes r) i = Some mb \<Longrightarrow> typed_mailbox mb"
    "length (bt_keys (rl_mailboxes r)) \<le> cap_open_mailboxes (rc_capacity (rl_config r))"
    "rl_queue_bytes r \<le> cap_queue_bytes (rc_capacity (rl_config r))"
    "cap_queue_bytes (rc_capacity (rl_config r)) < u64_max"
    "sinv (rl_store r)" "records (rl_store r) = bt_get (rl_mailboxes r)"
  using assms unfolding relay_inv_def relay_wf_def by blast+

lemma relay_invI:
  assumes "limiter_wf (rc_limiter (rl_config r)) (rl_limiter r)" "counters_ok (rl_observability r)"
    "tables_wf (env_sha256 E) (rl_mailboxes r) (rl_nameplates r) (rl_membership_hashes r)
       (rl_expiries r) (rl_queue_bytes r)"
    "sessions_wf (rl_mailboxes r) (rl_connections r) (rl_routes r)"
    "\<And>i mb. bt_get (rl_mailboxes r) i = Some mb \<Longrightarrow> typed_mailbox mb"
    "length (bt_keys (rl_mailboxes r)) \<le> cap_open_mailboxes (rc_capacity (rl_config r))"
    "rl_queue_bytes r \<le> cap_queue_bytes (rc_capacity (rl_config r))"
    "cap_queue_bytes (rc_capacity (rl_config r)) < u64_max"
    "sinv (rl_store r)" "records (rl_store r) = bt_get (rl_mailboxes r)"
  shows "relay_inv E records sinv r"
  using assms unfolding relay_inv_def relay_wf_def by blast

lemma relay_inv_store:
  assumes "relay_inv E records sinv r" and "sinv s" and "records s = records (rl_store r)"
  shows "relay_inv E records sinv (r\<lparr>rl_store := s\<rparr>)"
  using assms by (simp add: relay_inv_def relay_wf_def)

lemma store_put_cases:
  assumes law: "store_law E records sinv" and sinv: "sinv (rl_store r)"
    and mb: "mailbox_wf (env_sha256 E) mb" "typed_mailbox mb" and res: "store_put E mb r = (res, r')"
  shows "\<exists>s. r' = r\<lparr>rl_store := s\<rparr> \<and> sinv s \<and> res \<noteq> Panic \<and>
    records s = (if res = Ok () then (records (rl_store r))(mb_mailbox_id mb \<mapsto> mb) else records (rl_store r))"
proof -
  have st: "mailbox_store (env_store E) records sinv (\<lambda>mb. mailbox_wf (env_sha256 E) mb \<and> typed_mailbox mb)"
    using law by (simp add: store_law_def)
  obtain res0 s where p: "st_put (env_store E) (rl_store r) mb = (res0, s)" by fastforce
  have r': "r' = r\<lparr>rl_store := s\<rparr>" "res = map_err (\<lambda>_. RelayStorage) res0"
    using res by (simp_all add: store_put_def p)
  show ?thesis
  proof (cases "res0 = Ok ()")
    case True
    with mailbox_store.put_ok[OF st sinv, of mb s] mb p r' show ?thesis by auto
  next
    case False
    with mailbox_store.put_fail[OF st sinv _ p] mb r' show ?thesis by auto
  qed
qed

lemma store_remove_cases:
  assumes law: "store_law E records sinv" and sinv: "sinv (rl_store r)"
    and res: "store_remove E i r = (res, r')"
  shows "\<exists>s. r' = r\<lparr>rl_store := s\<rparr> \<and> sinv s \<and> res \<noteq> Panic \<and>
    records s = (if res = Ok () then (records (rl_store r))(i := None) else records (rl_store r))"
proof -
  have st: "mailbox_store (env_store E) records sinv (\<lambda>mb. mailbox_wf (env_sha256 E) mb \<and> typed_mailbox mb)"
    using law by (simp add: store_law_def)
  obtain res0 s where p: "st_remove (env_store E) (rl_store r) i = (res0, s)" by fastforce
  have r': "r' = r\<lparr>rl_store := s\<rparr>" "res = map_err (\<lambda>_. RelayStorage) res0"
    using res by (simp_all add: store_remove_def p)
  show ?thesis
  proof (cases "res0 = Ok ()")
    case True
    with mailbox_store.remove_ok[OF st sinv, of i s] p r' show ?thesis by auto
  next
    case False
    with mailbox_store.remove_fail[OF st sinv p] r' show ?thesis by auto
  qed
qed


section \<open>Removing and committing\<close>

text \<open>What an operation may change besides the tables it is about.\<close>

definition same_frame :: "'s relay \<Rightarrow> 's relay \<Rightarrow> bool" where
  "same_frame r r' \<longleftrightarrow> rl_config r' = rl_config r \<and> rl_limiter r' = rl_limiter r \<and>
     rl_observability r' = rl_observability r"

lemma remove_mailbox_indexes_spec:
  assumes t: "tables_wf sha256 (rl_mailboxes r) (rl_nameplates r) (rl_membership_hashes r)
      (rl_expiries r) (rl_queue_bytes r)"
    and s: "sessions_wf (rl_mailboxes r) (rl_connections r) (rl_routes r)"
    and mb: "bt_get (rl_mailboxes r) i = Some mb"
    and res: "remove_mailbox_indexes i mb (r\<lparr>rl_mailboxes := bt_remove i (rl_mailboxes r)\<rparr>) = (x, r')"
  shows "x = Ok () \<and> same_frame r r' \<and> rl_store r' = rl_store r \<and>
    rl_mailboxes r' = bt_remove i (rl_mailboxes r) \<and>
    rl_expiries r' = bs_remove (mb_expires_at mb, i) (rl_expiries r) \<and>
    rl_queue_bytes r' \<le> rl_queue_bytes r \<and>
    tables_wf sha256 (rl_mailboxes r') (rl_nameplates r') (rl_membership_hashes r')
      (rl_expiries r') (rl_queue_bytes r') \<and>
    sessions_wf (rl_mailboxes r') (rl_connections r') (rl_routes r') \<and>
    (\<forall>c m. sess (rl_connections r') c = Some m \<longleftrightarrow> sess (rl_connections r) c = Some m \<and> sm_mailbox_id m \<noteq> i)"
proof -
  note R = tables_remove[OF t mb]
  define r2 where "r2 = r\<lparr>rl_mailboxes := bt_remove i (rl_mailboxes r),
      rl_nameplates := (case mb_nameplate mb of None \<Rightarrow> rl_nameplates r
        | Some n \<Rightarrow> bt_remove n (rl_nameplates r)),
      rl_membership_hashes := fold bs_remove (membership_hashes mb) (rl_membership_hashes r),
      rl_expiries := bs_remove (mb_expires_at mb, i) (rl_expiries r),
      rl_queue_bytes := rl_queue_bytes r - mb_queue_bytes mb\<rparr>"
  have x: "x = Ok ()" and r': "r' = drop_route i Claimant (drop_route i Allocator r2)"
    using res R by (auto simp: remove_mailbox_indexes_def Let_def machine_int r2_def split: option.splits)
  have s2: "sessions_wf (rl_mailboxes r) (rl_connections r2) (rl_routes r2)" using s by (simp add: r2_def)
  let ?m = "\<lambda>m. \<lparr>sm_mailbox_id = i, sm_membership = m\<rparr>"
  note d1 = drop_route_sessions[OF s2, of i Allocator]
  note d2 = drop_route_sessions[OF d1(1), of i Claimant]
  have only: "sm_mailbox_id y = i \<longleftrightarrow> y = ?m Allocator \<or> y = ?m Claimant" for y
    by (cases y; cases "sm_membership y") auto
  have ss: "sess (rl_connections r') c = Some y \<longleftrightarrow>
      sess (rl_connections r) c = Some y \<and> sm_mailbox_id y \<noteq> i" for c y
  proof -
    have "rl_connections r2 = rl_connections r" by (simp add: r2_def)
    then have "sess (rl_connections r') c =
        (if sess (rl_connections r) c = Some (?m Allocator) \<or> sess (rl_connections r) c = Some (?m Claimant)
         then None else sess (rl_connections r) c)"
      by (simp add: r' d2(2) d1(2))
    then show ?thesis unfolding only[of y]
      by (simp only: split: if_split) auto
  qed
  have swf: "sessions_wf (bt_remove i (rl_mailboxes r)) (rl_connections r') (rl_routes r')"
  proof (rule sessions_mailboxes)
    show "sessions_wf (rl_mailboxes r) (rl_connections r') (rl_routes r')" using d2(1) by (simp add: r')
    show "member_exists (bt_remove i (rl_mailboxes r)) m"
      if "sess (rl_connections r') c = Some m" "member_exists (rl_mailboxes r) m" for c m
      using that ss[of c m] by (auto simp: member_exists_def bt_get_remove)
  qed
  show ?thesis
    using x ss swf R by (auto simp: r' r2_def same_frame_def)
qed

lemma remove_mailbox_inv:
  assumes law: "store_law E records sinv" and I: "relay_inv E records sinv r"
    and mb: "bt_get (rl_mailboxes r) i = Some mb" and res: "remove_mailbox E i r = (x, r')"
  shows "relay_inv E records sinv r' \<and> x \<noteq> Panic \<and> same_frame r r' \<and>
    (x = Ok () \<longrightarrow> rl_mailboxes r' = bt_remove i (rl_mailboxes r) \<and>
       rl_expiries r' = bs_remove (mb_expires_at mb, i) (rl_expiries r) \<and>
       (\<forall>c m. sess (rl_connections r') c = Some m \<longleftrightarrow>
          sess (rl_connections r) c = Some m \<and> sm_mailbox_id m \<noteq> i)) \<and>
    (x \<noteq> Ok () \<longrightarrow> (\<exists>s. r' = r\<lparr>rl_store := s\<rparr>))"
proof -
  note D = relay_invD[OF I]
  obtain y r1 where sr: "store_remove E i r = (y, r1)" by fastforce
  from store_remove_cases[OF law D(9) sr] obtain s where s: "r1 = r\<lparr>rl_store := s\<rparr>" "sinv s" "y \<noteq> Panic"
    "records s = (if y = Ok () then (records (rl_store r))(i := None) else records (rl_store r))" by blast
  show ?thesis
  proof (cases "y = Ok ()")
    case False
    then obtain e where "y = Err e" using s(3) by (cases y) auto
    then have "x = Err e" "r' = r1" using res sr by (auto simp: remove_mailbox_def)
    with s False relay_inv_store[OF I s(2)] show ?thesis by (auto simp: same_frame_def)
  next
    case True
    then have ri: "remove_mailbox_indexes i mb (r1\<lparr>rl_mailboxes := bt_remove i (rl_mailboxes r1)\<rparr>) = (x, r')"
      using res sr mb s(1) by (simp add: remove_mailbox_def)
    have "tables_wf (env_sha256 E) (rl_mailboxes r1) (rl_nameplates r1) (rl_membership_hashes r1)
        (rl_expiries r1) (rl_queue_bytes r1)" "sessions_wf (rl_mailboxes r1) (rl_connections r1) (rl_routes r1)"
      "bt_get (rl_mailboxes r1) i = Some mb"
      using D(3,4) mb by (simp_all add: s(1))
    note S = remove_mailbox_indexes_spec[OF this ri]
    have "bt_get (rl_mailboxes r') = (bt_get (rl_mailboxes r))(i := None)"
      using S s(1) by (simp add: bt_get_remove)
    moreover have "length (bt_keys (rl_mailboxes r')) \<le> length (bt_keys (rl_mailboxes r))"
      using S s(1) bt.length_keys_rem_le[OF tables_wfD(1)[OF D(3)], of i] by simp
    moreover have "records (rl_store r') = (bt_get (rl_mailboxes r))(i := None)" "sinv (rl_store r')"
      using S s True D(10) by auto
    ultimately have "relay_inv E records sinv r'"
      using S s(1) D by (intro relay_invI) (auto simp: same_frame_def split: if_splits)
    with S s(1) show ?thesis by (auto simp: same_frame_def)
  qed
qed

text \<open>The byte account after a transition stays within the capacity, so it does not overflow.\<close>

definition accounts_ok :: "'s relay_env \<Rightarrow> 's relay \<Rightarrow> bool" where
  "accounts_ok E r \<longleftrightarrow>
     tables_wf (env_sha256 E) (rl_mailboxes r) (rl_nameplates r) (rl_membership_hashes r) (rl_expiries r) (rl_queue_bytes r) \<and>
     rl_queue_bytes r \<le> cap_queue_bytes (rc_capacity (rl_config r)) \<and>
     cap_queue_bytes (rc_capacity (rl_config r)) < u64_max"

lemma relay_wf_accounts: "relay_wf E r \<Longrightarrow> accounts_ok E r"
  by (simp add: relay_wf_def accounts_ok_def)

lemma commit_account:
  assumes acc: "accounts_ok E r" and mb: "bt_get (rl_mailboxes r) i = Some mb"
    and ok: "transition (env_sha256 E) mb now cmd = Ok tr" and Some: "tr_state tr = Some mb'"
    and room: "is_put cmd \<Longrightarrow> projected_queue_bytes r i tr \<le> cap_queue_bytes (rc_capacity (rl_config r))"
  shows "mb_queue_bytes mb \<le> rl_queue_bytes r"
    and "rl_queue_bytes r - mb_queue_bytes mb + mb_queue_bytes mb' \<le> cap_queue_bytes (rc_capacity (rl_config r))"
proof -
  let ?q = "rl_queue_bytes r - mb_queue_bytes mb + mb_queue_bytes mb'"
  have T: "tables_wf (env_sha256 E) (rl_mailboxes r) (rl_nameplates r) (rl_membership_hashes r) (rl_expiries r) (rl_queue_bytes r)"
    and cap: "rl_queue_bytes r \<le> cap_queue_bytes (rc_capacity (rl_config r))" "cap_queue_bytes (rc_capacity (rl_config r)) < u64_max"
    using acc by (simp_all add: accounts_ok_def)
  note D = tables_wfD[OF T]
  have wf: "mailbox_wf (env_sha256 E) mb" using D(5)[OF mb] by simp
  show le: "mb_queue_bytes mb \<le> rl_queue_bytes r" using bt_sum_member_le[OF D(1) mb] D(10) by simp
  show "?q \<le> cap_queue_bytes (rc_capacity (rl_config r))"
  proof (cases "is_put cmd")
    case True
    have pr: "projected_queue_bytes r i tr = min ?q u64_max"
      using mb by (simp add: projected_queue_bytes_def mailbox_bytes_def Some machine_int)
    show ?thesis using room[OF True] cap pr by (cases "?q \<le> u64_max") (auto simp: min_def)
  next
    case False
    with transition_keeps(3)[OF wf ok Some] le cap show ?thesis by fastforce
  qed
qed

lemma commit_inv:
  assumes law: "store_law E records sinv" and I: "relay_inv E records sinv r"
    and mb: "bt_get (rl_mailboxes r) i = Some mb"
    and ok: "transition (env_sha256 E) mb now cmd = Ok tr"
    and fresh: "\<forall>h \<in> claim_hashes cmd. h \<notin> set (rl_membership_hashes r) \<and> length h = 32"
    and room: "is_put cmd \<Longrightarrow> projected_queue_bytes r i tr \<le> cap_queue_bytes (rc_capacity (rl_config r))"
    and res: "commit E i tr r = (x, r')"
  shows "relay_inv E records sinv r' \<and> x \<noteq> Panic \<and> same_frame r r' \<and>
    (x = Ok () \<longrightarrow> bt_get (rl_mailboxes r') = (bt_get (rl_mailboxes r))(i := tr_state tr) \<and>
       (tr_state tr \<noteq> None \<longrightarrow> rl_connections r' = rl_connections r \<and> rl_routes r' = rl_routes r) \<and>
       (tr_state tr = None \<longrightarrow> (\<forall>c m. sess (rl_connections r') c = Some m \<longleftrightarrow>
          sess (rl_connections r) c = Some m \<and> sm_mailbox_id m \<noteq> i))) \<and>
    (x \<noteq> Ok () \<longrightarrow> (\<exists>s. r' = r\<lparr>rl_store := s\<rparr>))"
proof (cases "tr_state tr")
  case None
  then have "remove_mailbox E i r = (x, r')" using res mb by (simp add: commit_def bt_contains_def)
  from remove_mailbox_inv[OF law I mb this] None show ?thesis by (auto simp: bt_get_remove)
next
  case (Some mb')
  note D = relay_invD[OF I]
  note T = tables_wfD[OF D(3)]
  have wf: "mailbox_wf (env_sha256 E) mb" "mb_mailbox_id mb = i" using T(5)[OF mb] by auto
  have typed: "typed_mailbox mb" using D(5)[OF mb] .
  have wf': "mailbox_wf (env_sha256 E) mb'" using transition_preserves_wf[OF wf(1) ok Some] .
  have typed': "typed_mailbox mb'"
    using transition_typed[OF wf(1) typed ok Some] fresh law by (auto simp: store_law_def)
  note F = transition_frame[OF wf(1) ok Some]
  note K = transition_keeps[OF wf(1) ok Some]
  obtain y r1 where sp: "store_put E mb' r = (y, r1)" by fastforce
  from store_put_cases[OF law D(9) wf' typed' sp] obtain s where s: "r1 = r\<lparr>rl_store := s\<rparr>" "sinv s"
    "y \<noteq> Panic" "records s = (if y = Ok () then (records (rl_store r))(mb_mailbox_id mb' \<mapsto> mb') else records (rl_store r))"
    by blast
  show ?thesis
  proof (cases "y = Ok ()")
    case False
    then obtain e where "y = Err e" using s(3) by (cases y) auto
    then have "x = Err e" "r' = r1" using res sp Some by (auto simp: commit_def)
    with s False relay_inv_store[OF I s(2)] show ?thesis by (auto simp: same_frame_def)
  next
    case True
    let ?q = "rl_queue_bytes r - mb_queue_bytes mb + mb_queue_bytes mb'"
    note U = tables_update[OF D(3) mb wf', of "claim_hashes cmd"]
    have up: "tables_wf (env_sha256 E) (bt_insert i mb' (rl_mailboxes r)) (rl_nameplates r)
        (fold bs_insert (membership_hashes mb') (rl_membership_hashes r)) (rl_expiries r) ?q"
      and le: "mb_queue_bytes mb \<le> rl_queue_bytes r"
      using U F K(1) fresh by auto
    have "accounts_ok E r" using D(3,7,8) by (simp add: accounts_ok_def)
    from commit_account(2)[OF this mb ok Some room]
    have cap: "?q \<le> cap_queue_bytes (rc_capacity (rl_config r))" .
    then have q64: "?q \<le> u64_max" using D(8) by simp
    have "mailbox_bytes r1 i = mb_queue_bytes mb" using mb s(1) by (simp add: mailbox_bytes_def)
    then have x: "x = Ok ()" and r': "r' = r1\<lparr>rl_queue_bytes := ?q,
        rl_membership_hashes := fold bs_insert (membership_hashes mb') (rl_membership_hashes r),
        rl_mailboxes := bt_insert i mb' (rl_mailboxes r)\<rparr>"
      using res sp Some True s(1) le q64 by (auto simp: commit_def machine_int)
    have swf: "sessions_wf (bt_insert i mb' (rl_mailboxes r)) (rl_connections r) (rl_routes r)"
    proof (rule sessions_mailboxes[OF D(4)])
      show "member_exists (bt_insert i mb' (rl_mailboxes r)) m" if "member_exists (rl_mailboxes r) m" for m
        using that K(2)[of "sm_membership m"] mb by (auto simp: member_exists_def bt_get_insert)
    qed
    have len: "length (bt_keys (bt_insert i mb' (rl_mailboxes r))) = length (bt_keys (rl_mailboxes r))"
      using bt.length_keys_ins[OF T(1)] mb by simp
    have rec: "records s = bt_get (bt_insert i mb' (rl_mailboxes r))"
      using s(4) True D(10) F wf(2) by (simp add: bt_get_insert)
    have "relay_inv E records sinv r'"
      using D up swf len cap s(2) rec typed'
      by (intro relay_invI) (auto simp: r' s(1) bt_get_insert split: if_splits)
    with x Some show ?thesis by (auto simp: r' s(1) same_frame_def bt_get_insert)
  qed
qed


section \<open>Commands\<close>

lemma attach_inv:
  assumes "relay_inv E records sinv r" and "member_exists (rl_mailboxes r) m"
  shows "relay_inv E records sinv (attach c m r)"
  using relay_invD[OF assms(1)] attach_sessions(1)[OF relay_invD(4)[OF assms(1)] assms(2), of c]
  by (intro relay_invI) auto

lemma same_frame_simps [simp]:
  "same_frame r r" "same_frame r (attach c m r') = same_frame r r'"
  "same_frame r (r'\<lparr>rl_store := s\<rparr>) = same_frame r r'"
  by (simp_all add: same_frame_def)

lemma insert_mailbox_inv:
  assumes law: "store_law E records sinv" and I: "relay_inv E records sinv r"
    and wf: "mailbox_wf (env_sha256 E) mb" and typed: "typed_mailbox mb"
    and hash: "membership_hashes mb = [h]" "h \<notin> set (rl_membership_hashes r)"
    and absent: "bt_get (rl_mailboxes r) (mb_mailbox_id mb) = None"
    and np: "\<And>n. mb_nameplate mb = Some n \<Longrightarrow> bt_get (rl_nameplates r) n = None"
    and q0: "mb_queue_bytes mb = 0"
    and room: "length (bt_keys (rl_mailboxes r)) < cap_open_mailboxes (rc_capacity (rl_config r))"
    and put: "store_put E mb r = (Ok (), r1)"
  shows "relay_inv E records sinv (insert_mailbox c mb h r1) \<and> same_frame r (insert_mailbox c mb h r1)"
proof -
  note D = relay_invD[OF I]
  from store_put_cases[OF law D(9) wf typed put] obtain s where s: "r1 = r\<lparr>rl_store := s\<rparr>" "sinv s"
    "records s = (records (rl_store r))(mb_mailbox_id mb \<mapsto> mb)" by auto
  let ?i = "mb_mailbox_id mb"
  let ?r2 = "r1\<lparr>rl_mailboxes := bt_insert ?i mb (rl_mailboxes r1),
          rl_membership_hashes := bs_insert h (rl_membership_hashes r1),
          rl_expiries := bs_insert (mb_expires_at mb, ?i) (rl_expiries r1),
          rl_nameplates := (case mb_nameplate mb of None \<Rightarrow> rl_nameplates r1
             | Some np \<Rightarrow> bt_insert np ?i (rl_nameplates r1))\<rparr>"
  have T: "tables_wf (env_sha256 E) (bt_insert ?i mb (rl_mailboxes r))
      (case mb_nameplate mb of None \<Rightarrow> rl_nameplates r | Some n \<Rightarrow> bt_insert n ?i (rl_nameplates r))
      (bs_insert h (rl_membership_hashes r)) (bs_insert (mb_expires_at mb, ?i) (rl_expiries r))
      (rl_queue_bytes r)"
    using tables_insert[OF D(3) absent wf _ np] hash q0 by simp
  have swf: "sessions_wf (bt_insert ?i mb (rl_mailboxes r)) (rl_connections r) (rl_routes r)"
    by (rule sessions_mailboxes[OF D(4)]) (use absent in \<open>auto simp: member_exists_def bt_get_insert\<close>)
  have len: "length (bt_keys (bt_insert ?i mb (rl_mailboxes r))) \<le> cap_open_mailboxes (rc_capacity (rl_config r))"
    using bt.length_keys_ins[OF tables_wfD(1)[OF D(3)], of ?i mb] absent room by simp
  have "relay_inv E records sinv ?r2"
    using D T swf len s(2,3) typed
    by (intro relay_invI) (auto simp: s(1) bt_get_insert cong: option.case_cong split: if_splits)
  moreover have "member_exists (rl_mailboxes ?r2) \<lparr>sm_mailbox_id = ?i, sm_membership = Allocator\<rparr>"
    by (simp add: member_exists_def bt_get_insert)
  ultimately have "relay_inv E records sinv (insert_mailbox c mb h r1)"
    unfolding insert_mailbox_def by (rule attach_inv)
  then show ?thesis by (simp add: insert_mailbox_def s(1) same_frame_def)
qed

text \<open>The postcondition every command establishes.\<close>

definition cmd_ok ::
  "'s relay_env \<Rightarrow> ('s \<Rightarrow> bytes \<Rightarrow> mailbox option) \<Rightarrow> ('s \<Rightarrow> bool) \<Rightarrow> 's relay \<Rightarrow> 's relay_result \<Rightarrow> bool" where
  "cmd_ok E records sinv r out \<longleftrightarrow>
     relay_inv E records sinv (snd out) \<and> fst out \<noteq> Panic \<and> same_frame r (snd out)"

lemma cmd_ok_reply: "relay_inv E records sinv r' \<Longrightarrow> same_frame r r' \<Longrightarrow> cmd_ok E records sinv r (reply c m r')"
  by (simp add: cmd_ok_def reply_def)

lemma allocate_shape:
  assumes "allocate input = Ok mb"
  shows "mb_mailbox_id mb = ai_mailbox_id input \<and> membership_hashes mb = [ai_allocator_hash input] \<and>
    mb_nameplate mb = ai_nameplate input \<and> mb_queue_bytes mb = 0 \<and> mb_admission mb = V1 \<and>
    mb_claimant mb = None \<and> mb_allocator mb = new_member (ai_allocator_hash input)"
  using assms by (auto simp: allocate_def Let_def bind_result_Ok membership_hashes_def new_member_def
      split: if_splits)

lemma allocate_v2_shape:
  assumes "allocate_v2 input = Ok mb"
  shows "mb_mailbox_id mb = vi_mailbox_id input \<and> membership_hashes mb = [vi_allocator_hash input] \<and>
    mb_nameplate mb = None \<and> mb_queue_bytes mb = 0 \<and>
    mb_admission mb = V2Pending (vi_claim_commitment input) \<and>
    mb_claimant mb = None \<and> mb_allocator mb = new_member (vi_allocator_hash input)"
  using assms by (auto simp: allocate_v2_def bind_result_Ok membership_hashes_def new_member_def
      split: if_splits)

lemma token_hash_length: "store_law E records sinv \<Longrightarrow> length (token_hash E t) = 32"
  by (simp add: store_law_def token_hash_def)

lemma put_then_insert:
  assumes law: "store_law E records sinv" and I: "relay_inv E records sinv r"
    and wf: "mailbox_wf (env_sha256 E) mb" and typed: "typed_mailbox mb"
    and hash: "membership_hashes mb = [h]" "\<not> token_hash_exists r h"
    and absent: "\<not> bt_contains (rl_mailboxes r) (mb_mailbox_id mb)"
    and np: "\<And>n. mb_nameplate mb = Some n \<Longrightarrow> bt_get (rl_nameplates r) n = None"
    and q0: "mb_queue_bytes mb = 0"
    and room: "\<not> cap_open_mailboxes (rc_capacity (rl_config r)) \<le> length (bt_keys (rl_mailboxes r))"
  shows "cmd_ok E records sinv r
    (bind_st (store_put E mb r) (\<lambda>_ r1. reply c m (insert_mailbox c mb h r1)))"
proof -
  obtain x r1 where p: "store_put E mb r = (x, r1)" by fastforce
  from store_put_cases[OF law relay_invD(9)[OF I] wf typed p] obtain s where s: "r1 = r\<lparr>rl_store := s\<rparr>"
    "sinv s" "x \<noteq> Panic"
    "records s = (if x = Ok () then (records (rl_store r))(mb_mailbox_id mb \<mapsto> mb) else records (rl_store r))"
    by blast
  show ?thesis
  proof (cases x)
    case (Ok u)
    then have "store_put E mb r = (Ok (), r1)" using p by simp
    from insert_mailbox_inv[OF law I wf typed hash(1) _ _ np q0 _ this] hash(2) absent room Ok p
    show ?thesis by (auto simp: token_hash_exists_def bs_contains_def bt_contains_def intro!: cmd_ok_reply)
  next
    case (Err e)
    with s p relay_inv_store[OF I s(2)] show ?thesis by (simp add: cmd_ok_def)
  next
    case Panic
    with s(3) show ?thesis by simp
  qed
qed

lemma relay_allocate_ok:
  assumes law: "store_law E records sinv" and I: "relay_inv E records sinv r"
    and typed: "length (rr_mailbox_id rnd) = 32"
  shows "cmd_ok E records sinv r (relay_allocate E c now rnd mode ttl r)"
proof -
  let ?h = "token_hash E (rr_membership_token rnd)"
  let ?np = "if mode = 0 then None else Some (rr_nameplate rnd)"
  let ?in = "\<lparr>ai_mailbox_id = rr_mailbox_id rnd, ai_nameplate = ?np, ai_allocator_hash = ?h,
      ai_now = now, ai_ttl_seconds = ttl\<rparr>"
  note R = cmd_ok_reply[OF I same_frame_simps(1)]
  have main: "cmd_ok E records sinv r (bind_st (store_put E mb r) (\<lambda>_ r1.
      reply c (Allocated (rr_mailbox_id rnd) (rr_membership_token rnd) ?np (mb_expires_at mb))
        (insert_mailbox c mb ?h r1)))"
    if mb: "allocate ?in = Ok mb" and free: "\<not> token_hash_exists r ?h"
      "\<not> bt_contains (rl_mailboxes r) (rr_mailbox_id rnd)"
      "\<not> cap_open_mailboxes (rc_capacity (rl_config r)) \<le> length (bt_keys (rl_mailboxes r))"
      "mode = 1 \<Longrightarrow> \<not> bt_contains (rl_nameplates r) (rr_nameplate rnd)" "\<not> 1 < mode" for mb
  proof -
    note S = allocate_shape[OF mb]
    have "typed_mailbox mb"
      using S typed token_hash_length[OF law]
      by (simp add: typed_mailbox_parts typed_member_def new_member_def)
    moreover have "bt_get (rl_nameplates r) n = None" if "mb_nameplate mb = Some n" for n
      using that S free(4,5) by (auto simp: bt_contains_def split: if_splits)
    ultimately show ?thesis
      using put_then_insert[OF law I allocate_wf[OF mb]] S free by simp
  qed
  show ?thesis
    using main allocate_not_panic[of ?in] unfolding relay_allocate_def Let_def
    by (auto split: result.split intro!: R)
qed

lemma relay_allocate_v2_ok:
  assumes law: "store_law E records sinv" and I: "relay_inv E records sinv r"
    and typed: "length i = 32" "length cm = 32"
  shows "cmd_ok E records sinv r (relay_allocate_v2 E c now tok i cm ttl r)"
proof -
  let ?h = "token_hash E tok"
  let ?in = "\<lparr>vi_mailbox_id = i, vi_allocator_hash = ?h, vi_claim_commitment = cm, vi_now = now,
      vi_ttl_seconds = ttl\<rparr>"
  note R = cmd_ok_reply[OF I same_frame_simps(1)]
  have main: "cmd_ok E records sinv r (bind_st (store_put E mb r) (\<lambda>_ r1.
      reply c (AllocatedV2 i tok (mb_expires_at mb)) (insert_mailbox c mb ?h r1)))"
    if mb: "allocate_v2 ?in = Ok mb" and free: "\<not> token_hash_exists r ?h"
      "\<not> bt_contains (rl_mailboxes r) i"
      "\<not> cap_open_mailboxes (rc_capacity (rl_config r)) \<le> length (bt_keys (rl_mailboxes r))" for mb
  proof -
    note S = allocate_v2_shape[OF mb]
    have "typed_mailbox mb"
      using S typed token_hash_length[OF law]
      by (simp add: typed_mailbox_parts typed_member_def new_member_def)
    then show ?thesis
      using put_then_insert[OF law I allocate_v2_wf[OF mb]] S free by simp
  qed
  show ?thesis
    using main allocate_v2_not_panic[of ?in] unfolding relay_allocate_v2_def Let_def
    by (auto split: result.split intro!: R)
qed


lemma with_transition_ok:
  assumes I: "relay_inv E records sinv r" and mb: "bt_get (rl_mailboxes r) i = Some mb"
    and k: "\<And>tr. transition (env_sha256 E) mb now cmd = Ok tr \<Longrightarrow> cmd_ok E records sinv r (k tr)"
  shows "cmd_ok E records sinv r (with_transition c (transition (env_sha256 E) mb now cmd) r k)"
proof -
  have "transition (env_sha256 E) mb now cmd \<noteq> Panic"
    using transition_not_panic tables_wfD(5)[OF relay_invD(3)[OF I] mb] by blast
  then show ?thesis
    using k cmd_ok_reply[OF I same_frame_simps(1)]
    by (auto simp: with_transition_def split: result.split)
qed

lemma commit_then_ok:
  assumes law: "store_law E records sinv" and I: "relay_inv E records sinv r"
    and mb: "bt_get (rl_mailboxes r) i = Some mb"
    and ok: "transition (env_sha256 E) mb now cmd = Ok tr"
    and fresh: "\<forall>h \<in> claim_hashes cmd. \<not> token_hash_exists r h \<and> length h = 32"
    and room: "is_put cmd \<Longrightarrow> projected_queue_bytes r i tr \<le> cap_queue_bytes (rc_capacity (rl_config r))"
    and k: "\<And>r1. relay_inv E records sinv r1 \<Longrightarrow> same_frame r r1 \<Longrightarrow>
      bt_get (rl_mailboxes r1) = (bt_get (rl_mailboxes r))(i := tr_state tr) \<Longrightarrow> cmd_ok E records sinv r (k () r1)"
  shows "cmd_ok E records sinv r (bind_st (commit E i tr r) k)"
proof -
  obtain x r1 where cm: "commit E i tr r = (x, r1)" by fastforce
  have fr: "\<forall>h \<in> claim_hashes cmd. h \<notin> set (rl_membership_hashes r) \<and> length h = 32"
    using fresh by (simp add: token_hash_exists_def bs_contains_def)
  note C = commit_inv[OF law I mb ok fr room cm]
  show ?thesis
  proof (cases x)
    case (Ok u)
    with C k[of r1] cm show ?thesis by simp
  next
    case (Err e)
    with C cm show ?thesis by (auto simp: cmd_ok_def)
  next
    case Panic
    with C show ?thesis by simp
  qed
qed

lemma relay_claim_ok:
  assumes law: "store_law E records sinv" and I: "relay_inv E records sinv r"
  shows "cmd_ok E records sinv r (relay_claim E c now tok l r)"
proof -
  note R = cmd_ok_reply[OF I same_frame_simps(1)]
  let ?h = "token_hash E tok"
  have main: "cmd_ok E records sinv r (with_transition c (transition (env_sha256 E) mb now (CmdClaim ?h)) r
      (\<lambda>tr. bind_st (commit E i tr r) (\<lambda>_ r1.
         case claimed_effect (tr_effects tr) of
           Some expires_at \<Rightarrow>
             reply c (Claimed i tok expires_at) (attach c \<lparr>sm_mailbox_id = i, sm_membership = Claimant\<rparr> r1)
         | None \<Rightarrow> (case terminal_effect (tr_effects tr) of
             Some reason \<Rightarrow> (Ok (deduplicate_routes (terminal_routes r1 i reason @ [route c (MsgClosed reason)])), r1)
           | None \<Rightarrow> reply c (MsgError 503) r1))))"
    if free: "\<not> token_hash_exists r ?h" and mb: "bt_get (rl_mailboxes r) i = Some mb" for i mb
  proof (rule with_transition_ok[OF I mb], rule commit_then_ok[OF law I mb])
    fix tr r1
    assume ok: "transition (env_sha256 E) mb now (CmdClaim ?h) = Ok tr"
      and r1: "relay_inv E records sinv r1" "same_frame r r1"
        "bt_get (rl_mailboxes r1) = (bt_get (rl_mailboxes r))(i := tr_state tr)"
    have wf: "mailbox_wf (env_sha256 E) mb" using tables_wfD(5)[OF relay_invD(3)[OF I] mb] by blast
    have "member_exists (rl_mailboxes r1) \<lparr>sm_mailbox_id = i, sm_membership = Claimant\<rparr>"
      if "claimed_effect (tr_effects tr) = Some t" for t
      using claim_effect_state[OF wf ok _ that] r1(3) by (auto simp: member_exists_def)
    then show "cmd_ok E records sinv r (case claimed_effect (tr_effects tr) of
           Some expires_at \<Rightarrow>
             reply c (Claimed i tok expires_at) (attach c \<lparr>sm_mailbox_id = i, sm_membership = Claimant\<rparr> r1)
         | None \<Rightarrow> (case terminal_effect (tr_effects tr) of
             Some reason \<Rightarrow> (Ok (deduplicate_routes (terminal_routes r1 i reason @ [route c (MsgClosed reason)])), r1)
           | None \<Rightarrow> reply c (MsgError 503) r1))"
      using r1 attach_inv[OF r1(1)] by (auto simp: cmd_ok_def reply_def split: option.split)
  qed (use free token_hash_length[OF law] in auto)
  show ?thesis
    unfolding relay_claim_def Let_def using main by (auto split: option.split intro!: R)
qed

lemma relay_claim_v2_ok:
  assumes law: "store_law E records sinv" and I: "relay_inv E records sinv r"
  shows "cmd_ok E records sinv r (relay_claim_v2 E c now tok i token r)"
proof -
  note R = cmd_ok_reply[OF I same_frame_simps(1)]
  let ?h = "token_hash E tok"
  have main: "cmd_ok E records sinv r (with_transition c (transition (env_sha256 E) mb now (CmdClaimV2 ?h token)) r
      (\<lambda>tr. bind_st (commit E i tr r) (\<lambda>_ r1.
         case claimed_effect (tr_effects tr) of
           None \<Rightarrow> reply c (MsgError 503) r1
         | Some expires_at \<Rightarrow>
             reply c (ClaimedV2 i tok expires_at) (attach c \<lparr>sm_mailbox_id = i, sm_membership = Claimant\<rparr> r1))))"
    if free: "\<not> token_hash_exists r ?h" and mb: "bt_get (rl_mailboxes r) i = Some mb" for mb
  proof (rule with_transition_ok[OF I mb], rule commit_then_ok[OF law I mb])
    fix tr r1
    assume ok: "transition (env_sha256 E) mb now (CmdClaimV2 ?h token) = Ok tr"
      and r1: "relay_inv E records sinv r1" "same_frame r r1"
        "bt_get (rl_mailboxes r1) = (bt_get (rl_mailboxes r))(i := tr_state tr)"
    have wf: "mailbox_wf (env_sha256 E) mb" using tables_wfD(5)[OF relay_invD(3)[OF I] mb] by blast
    have "member_exists (rl_mailboxes r1) \<lparr>sm_mailbox_id = i, sm_membership = Claimant\<rparr>"
      if "claimed_effect (tr_effects tr) = Some t" for t
      using claim_effect_state[OF wf ok _ that] r1(3) by (auto simp: member_exists_def)
    then show "cmd_ok E records sinv r (case claimed_effect (tr_effects tr) of
           None \<Rightarrow> reply c (MsgError 503) r1
         | Some expires_at \<Rightarrow>
             reply c (ClaimedV2 i tok expires_at) (attach c \<lparr>sm_mailbox_id = i, sm_membership = Claimant\<rparr> r1))"
      using r1 attach_inv[OF r1(1)] by (auto simp: cmd_ok_def reply_def split: option.split)
  qed (use free token_hash_length[OF law] in auto)
  show ?thesis
    unfolding relay_claim_v2_def Let_def using main by (auto split: option.split intro!: R)
qed

lemma relay_open_ok:
  assumes law: "store_law E records sinv" and I: "relay_inv E records sinv r"
  shows "cmd_ok E records sinv r (relay_open E c now i tok r)"
proof -
  note R = cmd_ok_reply[OF I same_frame_simps(1)]
  let ?cmd = "CmdOpen (token_hash E tok)"
  have main: "cmd_ok E records sinv r (with_transition c (transition (env_sha256 E) mb now ?cmd) r
      (\<lambda>tr. bind_st (commit E i tr r) (\<lambda>_ r1.
         case opened_effect (tr_effects tr) of
           Some m \<Rightarrow> (Ok (open_deliveries c (tr_effects tr)), attach c \<lparr>sm_mailbox_id = i, sm_membership = m\<rparr> r1)
         | None \<Rightarrow> (case terminal_effect (tr_effects tr) of
             Some reason \<Rightarrow> (Ok (deduplicate_routes (terminal_routes r1 i reason @ [route c (MsgClosed reason)])), r1)
           | None \<Rightarrow> reply c (MsgError 503) r1))))"
    if mb: "bt_get (rl_mailboxes r) i = Some mb" for mb
  proof (rule with_transition_ok[OF I mb], rule commit_then_ok[OF law I mb])
    fix tr r1
    assume ok: "transition (env_sha256 E) mb now ?cmd = Ok tr"
      and r1: "relay_inv E records sinv r1" "same_frame r r1"
        "bt_get (rl_mailboxes r1) = (bt_get (rl_mailboxes r))(i := tr_state tr)"
    have wf: "mailbox_wf (env_sha256 E) mb" using tables_wfD(5)[OF relay_invD(3)[OF I] mb] by blast
    have "member_exists (rl_mailboxes r1) \<lparr>sm_mailbox_id = i, sm_membership = m\<rparr>"
      if "opened_effect (tr_effects tr) = Some m" for m
      using open_effect_state[OF wf ok that] r1(3) by (auto simp: member_exists_def)
    then show "cmd_ok E records sinv r (case opened_effect (tr_effects tr) of
           Some m \<Rightarrow> (Ok (open_deliveries c (tr_effects tr)), attach c \<lparr>sm_mailbox_id = i, sm_membership = m\<rparr> r1)
         | None \<Rightarrow> (case terminal_effect (tr_effects tr) of
             Some reason \<Rightarrow> (Ok (deduplicate_routes (terminal_routes r1 i reason @ [route c (MsgClosed reason)])), r1)
           | None \<Rightarrow> reply c (MsgError 503) r1))"
      using r1 attach_inv[OF r1(1)] by (auto simp: cmd_ok_def reply_def split: option.split)
  qed auto
  show ?thesis
    unfolding relay_open_def using main by (auto split: option.split intro!: R)
qed

lemma member_command_ok:
  assumes law: "store_law E records sinv" and I: "relay_inv E records sinv r"
  shows "cmd_ok E records sinv r (member_command E c now k r)"
proof -
  note R = cmd_ok_reply[OF I same_frame_simps(1)]
  have main: "cmd_ok E records sinv r (with_transition c
      (transition (env_sha256 E) mb now (mailbox_command_of sender k)) r
      (\<lambda>tr. if cap_queue_bytes (rc_capacity (rl_config r)) < projected_queue_bytes r i tr
            then reply c (MsgError 503) r
            else bind_st (commit E i tr r) (\<lambda>_ r1. (Ok (msgs tr), r1))))"
    if mb: "bt_get (rl_mailboxes r) i = Some mb" for i mb sender msgs
  proof (rule with_transition_ok[OF I mb])
    fix tr assume ok: "transition (env_sha256 E) mb now (mailbox_command_of sender k) = Ok tr"
    have "claim_hashes (mailbox_command_of sender k) = {}" by (cases k) auto
    then show "cmd_ok E records sinv r (if cap_queue_bytes (rc_capacity (rl_config r)) < projected_queue_bytes r i tr
            then reply c (MsgError 503) r
            else bind_st (commit E i tr r) (\<lambda>_ r1. (Ok (msgs tr), r1)))"
      using R commit_then_ok[OF law I mb ok, of "\<lambda>_ r1. (Ok (msgs tr), r1)"]
      by (auto simp: cmd_ok_def not_less)
  qed
  show ?thesis
    unfolding member_command_def Let_def using main by (auto split: option.split intro!: R)
qed

end
