(* ===== verification/Relay_Run.thy ===== *)
theory Relay_Run
  imports Relay_Safety
begin

text \<open>
  Runs of the relay: construction over a store, client commands, disconnects, sweeps and the
  operator's emergency close, in any order and with any outcome. Every state of a run
  satisfies the invariant; the sweep loop ends; closing and sweeping do exactly what they say.
\<close>

declare split_paired_All [simp del] split_paired_Ex [simp del]

section \<open>Commands\<close>

fun typed_message :: "client_message \<Rightarrow> bool" where
  "typed_message (AllocateV2 mailbox_id commitment ttl) \<longleftrightarrow> length mailbox_id = 32 \<and> length commitment = 32"
| "typed_message _ \<longleftrightarrow> True"

lemma bound_ok:
  assumes "relay_inv E records sinv r"
  shows "relay_inv E records sinv (r\<lparr>rl_connections := bt_insert c
    ((case bt_get (rl_connections r) c of None \<Rightarrow> default_connection | Some st \<Rightarrow> st)\<lparr>cs_bound := True\<rparr>)
    (rl_connections r)\<rparr>)" (is "relay_inv E records sinv ?r")
proof -
  note D = relay_invD[OF assms]
  have same: "sess (rl_connections ?r) = sess (rl_connections r)"
    by (auto simp: sess_insert fun_eq_iff) (auto simp: sess_def default_connection_def split: option.split)
  have "sessions_wf (rl_mailboxes r) (rl_connections ?r) (rl_routes r)"
    using D(4) same unfolding sessions_wf_def by (simp add: bt_wf_insert)
  with D show ?thesis by (intro relay_invI) auto
qed

lemma dispatch_ok:
  assumes law: "store_law E records sinv" and I: "relay_inv E records sinv r"
    and typed: "length (rr_mailbox_id rnd) = 32" "typed_message msg"
  shows "cmd_ok E records sinv r (dispatch E c now rnd msg r)"
proof (cases "msg = Bind")
  case True
  with bound_ok[OF I, of c] show ?thesis
    by (simp add: dispatch_def Let_def cmd_ok_def reply_def same_frame_def)
next
  case False
  note R = cmd_ok_reply[OF I same_frame_simps(1)]
  note ok = relay_allocate_ok[OF law I typed(1)] relay_claim_ok[OF law I] relay_allocate_v2_ok[OF law I]
    relay_claim_v2_ok[OF law I] relay_open_ok[OF law I] member_command_ok[OF law I]
  show ?thesis
    using False typed(2) ok R by (cases msg) (simp_all add: dispatch_def Let_def)
qed

lemma relay_inv_limiter:
  assumes "relay_inv E records sinv r" and "limiter_wf (rc_limiter (rl_config r)) l"
  shows "relay_inv E records sinv (r\<lparr>rl_limiter := l\<rparr>)"
  using relay_invD[OF assms(1)] assms(2) by (intro relay_invI) auto

lemma relay_inv_observability:
  assumes "relay_inv E records sinv r" and "counters_ok ob"
  shows "relay_inv E records sinv (r\<lparr>rl_observability := ob, rl_last_log := x\<rparr>)"
    and "relay_inv E records sinv (r\<lparr>rl_observability := ob\<rparr>)"
  using relay_invD[OF assms(1)] assms(2) by (intro relay_invI; auto)+

lemma refresh_inv: "relay_inv E records sinv r \<Longrightarrow> relay_inv E records sinv (refresh_gauges r)"
  using relay_inv_observability(2)[of E records sinv r] relay_invD(2)[of E records sinv r]
  by (simp add: refresh_gauges_def set_gauges_def counters_ok_def)

lemma finish_inv:
  assumes "relay_inv E records sinv r"
  shows "relay_inv E records sinv (finish op out r)"
proof -
  have "counters_ok (snd (record_outcome (rl_observability r) op out))"
    using counters_ok_record relay_invD(2)[OF assms] by blast
  then show ?thesis
    using refresh_inv[OF relay_inv_observability(1)[OF assms]] by (simp add: finish_def case_prod_beta)
qed

lemma finish_fields [simp]:
  "rl_mailboxes (finish op out r) = rl_mailboxes r" "rl_connections (finish op out r) = rl_connections r"
  "rl_routes (finish op out r) = rl_routes r" "rl_config (finish op out r) = rl_config r"
  "rl_store (finish op out r) = rl_store r" "rl_expiries (finish op out r) = rl_expiries r"
  by (simp_all add: finish_def refresh_gauges_def case_prod_beta)

lemma handle_inv:
  assumes law: "store_law E records sinv" and I: "relay_inv E records sinv r"
    and typed: "length (rr_mailbox_id rnd) = 32" "typed_message msg"
    and res: "handle E c addr now rnd msg r = (x, r')"
  shows "relay_inv E records sinv r' \<and> x \<noteq> Panic \<and> rl_config r' = rl_config r"
proof -
  obtain d l where ch: "check (env_hmac E) (rl_limiter r) (operation_of msg) addr now = (d, l)" by fastforce
  have l: "limiter_wf (rc_limiter (rl_config r)) l" "d \<noteq> Panic"
    using check_wf[OF relay_invD(1)[OF I] ch] by auto
  let ?r0 = "r\<lparr>rl_limiter := l\<rparr>"
  have I0: "relay_inv E records sinv ?r0" using relay_inv_limiter[OF I l(1)] .
  obtain y r1 where dp: "dispatch E c now rnd msg ?r0 = (y, r1)" by fastforce
  have ok: "relay_inv E records sinv r1" "y \<noteq> Panic" "same_frame ?r0 r1"
    using dispatch_ok[OF law I0 typed, of c now] dp by (auto simp: cmd_ok_def)
  show ?thesis
  proof (cases d)
    case (Ok dec)
    show ?thesis
    proof (cases dec)
      case (Allowed n)
      with Ok res ch dp ok finish_inv[OF ok(1)] show ?thesis
        by (cases y) (auto simp: handle_def Let_def same_frame_def)
    next
      case (Cooldown t)
      with Ok res ch finish_inv[OF I0] show ?thesis by (auto simp: handle_def Let_def)
    qed
  next
    case (Err e)
    with res ch I0 show ?thesis by (auto simp: handle_def Let_def)
  next
    case Panic
    with l(2) show ?thesis by simp
  qed
qed

section \<open>Disconnecting\<close>

lemma disconnect_inv:
  assumes I: "relay_inv E records sinv r"
  shows "relay_inv E records sinv (disconnect c r)"
    and "sess (rl_connections (disconnect c r)) = (sess (rl_connections r))(c := None)"
    and "rl_mailboxes (disconnect c r) = rl_mailboxes r" "rl_config (disconnect c r) = rl_config r"
proof -
  note D = relay_invD[OF I]
  note S = sessions_wfD[OF D(4)]
  show s: "sess (rl_connections (disconnect c r)) = (sess (rl_connections r))(c := None)"
    by (auto simp: disconnect_def Let_def sess_remove split: option.split)
      (auto simp: sess_def fun_eq_iff)
  show same: "rl_mailboxes (disconnect c r) = rl_mailboxes r" "rl_config (disconnect c r) = rl_config r"
    by (simp_all add: disconnect_def Let_def split: option.split)
  have R: "bt_get (rl_routes (disconnect c r)) k = Some d \<longleftrightarrow> bt_get (rl_routes r) k = Some d \<and> d \<noteq> c" for k d
  proof (cases "sess (rl_connections r) c")
    case None
    then have "rl_routes (disconnect c r) = rl_routes r"
      by (auto simp: disconnect_def Let_def sess_def split: option.splits)
    with None S(3)[of k d] show ?thesis by auto
  next
    case (Some m)
    then have own: "bt_get (rl_routes r) (route_key m) = Some c" using S(3) by blast
    obtain st where "bt_get (rl_connections r) c = Some st" "cs_membership st = Some m"
      using Some by (auto simp: sess_def bind_eq_Some_conv)
    then have rt: "rl_routes (disconnect c r) = bt_remove (route_key m) (rl_routes r)"
      using own by (simp add: disconnect_def)
    show ?thesis
    proof (cases "k = route_key m")
      case True
      with own show ?thesis by (simp add: rt bt_get_remove)
    next
      case False
      then have "bt_get (rl_routes r) k \<noteq> Some c" using S(3)[of k c] Some by auto
      with False show ?thesis by (auto simp: rt bt_get_remove)
    qed
  qed
  have "bt_wf (rl_connections (disconnect c r))" "bt_wf (rl_routes (disconnect c r))"
    using S(1,2) by (auto simp: disconnect_def Let_def bt_wf_remove split: option.split)
  moreover have "bt_get (rl_routes (disconnect c r)) k = Some d \<longleftrightarrow>
      (\<exists>m. sess (rl_connections (disconnect c r)) d = Some m \<and> route_key m = k)" for k d
    using R[of k d] S(3)[of k d] by (auto simp: s)
  moreover have "member_exists (rl_mailboxes r) m" if "sess (rl_connections (disconnect c r)) d = Some m" for d m
    using that S(4) by (auto simp: s split: if_splits)
  ultimately have swf: "sessions_wf (rl_mailboxes r) (rl_connections (disconnect c r)) (rl_routes (disconnect c r))"
    unfolding sessions_wf_def by blast
  have "relay_inv E records sinv (r\<lparr>rl_connections := rl_connections (disconnect c r),
      rl_routes := rl_routes (disconnect c r)\<rparr>)"
    using D swf by (intro relay_invI) auto
  moreover have "disconnect c r = r\<lparr>rl_connections := rl_connections (disconnect c r),
      rl_routes := rl_routes (disconnect c r)\<rparr>"
    by (simp add: disconnect_def Let_def split: option.split)
  ultimately show "relay_inv E records sinv (disconnect c r)" by simp
qed

section \<open>Sweeping\<close>

definition live_after :: "u64 \<Rightarrow> (bytes \<Rightarrow> mailbox option) \<Rightarrow> bytes \<Rightarrow> mailbox option" where
  "live_after now m i = (case m i of None \<Rightarrow> None | Some mb \<Rightarrow> if mb_expires_at mb \<le> now then None else Some mb)"

text \<open>The connections that must hear of the mailboxes that expire at \<open>now\<close>.\<close>

definition expired_notices :: "u64 \<Rightarrow> 's relay \<Rightarrow> routed_message set" where
  "expired_notices now r = {msg. \<exists>c m mb. msg = route c (MsgClosed Expired) \<and>
     sess (rl_connections r) c = Some m \<and> bt_get (rl_mailboxes r) (sm_mailbox_id m) = Some mb \<and>
     mb_expires_at mb \<le> now}"

lemma route_eq [simp]: "route c m = route c' m' \<longleftrightarrow> c = c' \<and> m = m'"
  by (simp add: route_def)

lemma set_terminal_routes:
  assumes "sessions_wf (rl_mailboxes r) (rl_connections r) (rl_routes r)"
  shows "msg \<in> set (terminal_routes r i reason) \<longleftrightarrow>
    (\<exists>c m. msg = route c (MsgClosed reason) \<and> sess (rl_connections r) c = Some m \<and> sm_mailbox_id m = i)"
proof -
  have owner: "bt_get (rl_routes r) (route_key m) = Some c \<longleftrightarrow> sess (rl_connections r) c = Some m" for c m
    using sessions_wfD(3)[OF assms, of "route_key m" c] by auto
  have "sm_mailbox_id m = i \<longleftrightarrow> (\<exists>x \<in> set [Allocator, Claimant].
      m = \<lparr>sm_mailbox_id = i, sm_membership = x\<rparr>)" for m
    by (cases m; cases "sm_membership m") auto
  then show ?thesis
    unfolding terminal_routes_def set_map in_map_filter image_iff Bex_def owner by metis
qed

lemma sweep_loop_ends:
  assumes law: "store_law E records sinv"
  shows "relay_inv E records sinv r \<Longrightarrow>
    \<exists>x r'. sweep_loop E now msgs r = Some (x, r') \<and> relay_inv E records sinv r' \<and> x \<noteq> Panic \<and>
      same_frame r r' \<and>
      (\<forall>out. x = Ok out \<longrightarrow> bt_get (rl_mailboxes r') = live_after now (bt_get (rl_mailboxes r)) \<and>
         set out = set msgs \<union> expired_notices now r)"
proof (induction "length (rl_expiries r)" arbitrary: r msgs rule: less_induct)
  case less
  note I = less.prems
  note D = relay_invD[OF I]
  note T = tables_wfD[OF D(3)]
  show ?case
  proof (cases "bs_first (rl_expiries r)")
    case None
    then have "set (rl_expiries r) = {}" using bs.first_None[OF T(4)] by blast
    then have "bt_get (rl_mailboxes r) i = None" for i using T(9) by (cases "bt_get (rl_mailboxes r) i") auto
    then have "bt_get (rl_mailboxes r) = live_after now (bt_get (rl_mailboxes r))"
      "expired_notices now r = {}"
      by (simp_all add: live_after_def fun_eq_iff expired_notices_def)
    with None I show ?thesis by (subst sweep_loop.simps) auto
  next
    case (Some e)
    note L = bs.first_least[OF T(4) Some]
    show ?thesis
    proof (cases "fst e > now")
      case True
      have "bt_get (rl_mailboxes r) = live_after now (bt_get (rl_mailboxes r))"
      proof
        fix i
        show "bt_get (rl_mailboxes r) i = live_after now (bt_get (rl_mailboxes r)) i"
        proof (cases "bt_get (rl_mailboxes r) i")
          case None
          then show ?thesis by (simp add: live_after_def)
        next
          case (Some mb)
          then have "(mb_expires_at mb, i) \<in> set (rl_expiries r)" using T(9) by blast
          with L have "e \<le> (mb_expires_at mb, i)" by blast
          then have "now < mb_expires_at mb" using True by (cases e) auto
          with Some show ?thesis by (simp add: live_after_def)
        qed
      qed
      moreover have "expired_notices now r = {}"
      proof -
        have "now < mb_expires_at mb" if "bt_get (rl_mailboxes r) i = Some mb" for i mb
          using fun_cong[OF calculation, of i] that by (auto simp: live_after_def split: if_splits)
        then show ?thesis by (fastforce simp: expired_notices_def)
      qed
      ultimately show ?thesis using Some True I by (subst sweep_loop.simps) auto
    next
      case False
      obtain mb where mb: "bt_get (rl_mailboxes r) (snd e) = Some mb" "mb_expires_at mb = fst e"
        using L T(9)[of "fst e" "snd e"] by auto
      obtain x r1 where rm: "remove_mailbox E (snd e) r = (x, r1)" by fastforce
      note RM = remove_mailbox_inv[OF law I mb(1) rm]
      show ?thesis
      proof (cases x)
        case (Err err)
        with Some False rm RM show ?thesis by (subst sweep_loop.simps) auto
      next
        case Panic
        with RM show ?thesis by simp
      next
        case (Ok u)
        have ex: "rl_expiries r1 = bs_remove e (rl_expiries r)" using RM Ok mb(2) by simp
        have "length (rl_expiries r1) < length (rl_expiries r)"
          unfolding ex using length_bs_remove[OF T(4)] L by blast
        from less.hyps[OF this, of "msgs @ terminal_routes r (snd e) Expired"] RM obtain y r' where
          rec: "sweep_loop E now (msgs @ terminal_routes r (snd e) Expired) r1 = Some (y, r')"
          "relay_inv E records sinv r'" "y \<noteq> Panic" "same_frame r1 r'"
          "\<forall>out. y = Ok out \<longrightarrow> bt_get (rl_mailboxes r') = live_after now (bt_get (rl_mailboxes r1)) \<and>
             set out = set (msgs @ terminal_routes r (snd e) Expired) \<union> expired_notices now r1"
          by blast
        have "live_after now (bt_get (rl_mailboxes r1)) = live_after now (bt_get (rl_mailboxes r))"
          using RM Ok mb False by (auto simp: live_after_def bt_get_remove fun_eq_iff)
        moreover have "set (terminal_routes r (snd e) Expired) \<union> expired_notices now r1 = expired_notices now r"
        proof -
          have "sess (rl_connections r1) c = Some m \<longleftrightarrow>
              sess (rl_connections r) c = Some m \<and> sm_mailbox_id m \<noteq> snd e" for c m using RM Ok by simp
          moreover have "bt_get (rl_mailboxes r1) = (bt_get (rl_mailboxes r))(snd e := None)"
            using RM Ok by (simp add: bt_get_remove)
          ultimately show ?thesis
            using mb False
            by (auto simp: set_terminal_routes[OF D(4)] expired_notices_def)
              (metis (no_types))
        qed
        ultimately show ?thesis using rec RM Some False rm Ok by (subst sweep_loop.simps) (auto simp: same_frame_def)
      qed
    qed
  qed
qed

lemma refresh_fields [simp]:
  "rl_mailboxes (refresh_gauges r) = rl_mailboxes r" "rl_config (refresh_gauges r) = rl_config r"
  "rl_connections (refresh_gauges r) = rl_connections r" "rl_store (refresh_gauges r) = rl_store r"
  by (simp_all add: refresh_gauges_def)

lemma relay_sweep_spec:
  assumes law: "store_law E records sinv" and I: "relay_inv E records sinv r"
  shows "\<exists>x r'. relay_sweep E now r = Some (x, r') \<and> relay_inv E records sinv r' \<and> x \<noteq> Panic \<and>
    rl_config r' = rl_config r \<and>
    (\<forall>out. x = Ok out \<longrightarrow> bt_get (rl_mailboxes r') = live_after now (bt_get (rl_mailboxes r)) \<and>
       set out = expired_notices now r)"
proof -
  obtain k l where sd: "sweep_if_due (rl_limiter r) now = (k, l)" by fastforce
  let ?r = "r\<lparr>rl_limiter := l\<rparr>"
  have "limiter_wf (rc_limiter (rl_config r)) l" using sweep_if_due_wf[OF relay_invD(1)[OF I] sd] .
  from sweep_loop_ends[OF law relay_inv_limiter[OF I this], of now "[]"] obtain x r' where
    "sweep_loop E now [] ?r = Some (x, r')" "relay_inv E records sinv r'" "x \<noteq> Panic" "same_frame ?r r'"
    "\<forall>out. x = Ok out \<longrightarrow> bt_get (rl_mailboxes r') = live_after now (bt_get (rl_mailboxes r)) \<and>
       set out = expired_notices now ?r" by auto
  moreover have "expired_notices now ?r = expired_notices now r" by (simp add: expired_notices_def)
  ultimately show ?thesis
    using refresh_inv[of E records sinv r']
    by (cases x) (auto simp: relay_sweep_def sd same_frame_def)
qed


section \<open>Emergency close\<close>

definition is_terminal :: "mailbox \<Rightarrow> bool" where
  "is_terminal mb = (case mb_status mb of Terminal r \<Rightarrow> True | _ \<Rightarrow> False)"

lemma close_terminal:
  assumes wf: "mailbox_wf sha256 mb" and ok: "transition sha256 mb now (CmdClose s) = Ok tr"
    and st: "tr_state tr = Some mb'"
  shows "is_terminal mb'"
  using transition_state_live[OF ok st] st
  by (auto simp: transition_close_def mailbox_terminate[OF wf] is_terminal_def closed_mailbox_def
      split: if_splits)

lemma close_not_err:
  assumes wf: "mailbox_wf sha256 mb" and live: "\<not> is_terminal mb"
  shows "\<exists>tr. transition sha256 mb now (CmdClose Allocator) = Ok tr"
  using live by (auto simp: transition_def reap_def delete_bodies_Ok[OF mailbox_wf_queue[OF wf]]
      transition_close_def mailbox_terminate[OF wf] is_terminal_def split: mailbox_status.split)

lemma close_all_spec:
  assumes law: "store_law E records sinv"
  shows "relay_inv E records sinv r \<Longrightarrow> close_all E now ids msgs r = (x, r') \<Longrightarrow>
    relay_inv E records sinv r' \<and> x \<noteq> Panic \<and> same_frame r r' \<and>
    (\<forall>i. bt_get (rl_mailboxes r) i = None \<longrightarrow> bt_get (rl_mailboxes r') i = None) \<and>
    (\<forall>i mb. bt_get (rl_mailboxes r) i = Some mb \<longrightarrow> is_terminal mb \<longrightarrow> bt_get (rl_mailboxes r') i = Some mb) \<and>
    ((\<exists>out. x = Ok out) \<longrightarrow>
      (\<forall>i \<in> set ids. \<forall>mb. bt_get (rl_mailboxes r') i = Some mb \<longrightarrow> is_terminal mb))"
proof (induction ids arbitrary: msgs r)
  case Nil
  then show ?case by auto
next
  case (Cons i ids)
  note I = Cons.prems(1)
  note T = tables_wfD[OF relay_invD(3)[OF I]]
  show ?case
  proof (cases "bt_get (rl_mailboxes r) i")
    case None
    with Cons.prems(2) have "close_all E now ids msgs r = (x, r')" by simp
    from Cons.IH[OF I this] None show ?thesis by auto
  next
    case (Some mb)
    show ?thesis
    proof (cases "is_terminal mb")
      case True
      with Some Cons.prems(2) have "close_all E now ids msgs r = (x, r')"
        by (auto simp: is_terminal_def split: mailbox_status.splits)
      from Cons.IH[OF I this] Some True show ?thesis by auto
    next
      case False
      have wf: "mailbox_wf (env_sha256 E) mb" using T(5)[OF Some] by blast
      obtain tr where tr: "transition (env_sha256 E) mb now (CmdClose Allocator) = Ok tr"
        using close_not_err[OF wf False] by blast
      obtain y r1 where cm: "commit E i tr r = (y, r1)" by fastforce
      have C: "relay_inv E records sinv r1 \<and> y \<noteq> Panic \<and> same_frame r r1 \<and>
        (y = Ok () \<longrightarrow> bt_get (rl_mailboxes r1) = (bt_get (rl_mailboxes r))(i := tr_state tr)) \<and>
        (y \<noteq> Ok () \<longrightarrow> (\<exists>s. r1 = r\<lparr>rl_store := s\<rparr>))"
        using commit_inv[OF law I Some tr _ _ cm] by auto
      have step: "close_all E now (i # ids) msgs r = bind_st (commit E i tr r) (\<lambda>_ r1.
          close_all E now ids (msgs @ terminal_routes r i Closed) r1)"
        using Some False tr by (auto simp: is_terminal_def split: mailbox_status.split)
      show ?thesis
      proof (cases y)
        case Panic
        with C show ?thesis by simp
      next
        case (Err e)
        then have "x = Err e" "r' = r1" using Cons.prems(2) step cm by auto
        then show ?thesis using C Err by auto
      next
        case (Ok u)
        then have "close_all E now ids (msgs @ terminal_routes r i Closed) r1 = (x, r')"
          using Cons.prems(2) step cm by simp
        note IH = Cons.IH[OF _ this]
        have m1: "bt_get (rl_mailboxes r1) = (bt_get (rl_mailboxes r))(i := tr_state tr)" using C Ok by simp
        have closed: "is_terminal mb'" if "tr_state tr = Some mb'" for mb'
          using close_terminal[OF wf tr that] .
        have IH1: "relay_inv E records sinv r' \<and> x \<noteq> Panic \<and> same_frame r1 r'"
          and gone: "\<And>j. bt_get (rl_mailboxes r1) j = None \<Longrightarrow> bt_get (rl_mailboxes r') j = None"
          and kept: "\<And>j m. bt_get (rl_mailboxes r1) j = Some m \<Longrightarrow> is_terminal m \<Longrightarrow>
            bt_get (rl_mailboxes r') j = Some m"
          and rest: "\<And>out j m. x = Ok out \<Longrightarrow> j \<in> set ids \<Longrightarrow> bt_get (rl_mailboxes r') j = Some m \<Longrightarrow> is_terminal m"
          using IH C by blast+
        have head: "is_terminal m" if "bt_get (rl_mailboxes r') i = Some m" for m
        proof (cases "tr_state tr")
          case None
          then show ?thesis using gone[of i] m1 that by simp
        next
          case (Some mb')
          then show ?thesis using kept[of i mb'] closed m1 that by simp
        qed
        have none: "bt_get (rl_mailboxes r') j = None" if "bt_get (rl_mailboxes r) j = None" for j
          using gone[of j] m1 Some that by (cases "j = i") auto
        have stay: "bt_get (rl_mailboxes r') j = Some m"
          if "bt_get (rl_mailboxes r) j = Some m" "is_terminal m" for j m
          using kept[of j m] m1 Some False that by (cases "j = i") auto
        show ?thesis using IH1 C head none stay rest by (auto simp: same_frame_def)
      qed
    qed
  qed
qed


lemma disable_inv:
  "relay_inv E records sinv r \<Longrightarrow> relay_inv E records sinv (disable_allocation r)"
  using relay_invD[of E records sinv r] by (intro relay_invI) (auto simp: disable_allocation_def)

lemma emergency_close_spec:
  assumes law: "store_law E records sinv" and I: "relay_inv E records sinv r"
    and res: "emergency_close E now r = (x, r')"
  shows "relay_inv E records sinv r' \<and> x \<noteq> Panic \<and> rl_config r' = rl_config (disable_allocation r) \<and>
    ((\<exists>out. x = Ok out) \<longrightarrow> (\<forall>i mb. bt_get (rl_mailboxes r') i = Some mb \<longrightarrow> is_terminal mb))"
proof -
  let ?r0 = "disable_allocation r"
  have I0: "relay_inv E records sinv ?r0" using disable_inv[OF I] .
  obtain y r1 where ca: "close_all E now (bt_keys (rl_mailboxes r)) [] ?r0 = (y, r1)" by fastforce
  note C = close_all_spec[OF law I0 ca]
  have m0: "rl_mailboxes ?r0 = rl_mailboxes r" by (simp add: disable_allocation_def)
  have "is_terminal mb" if "y = Ok out" "bt_get (rl_mailboxes r1) i = Some mb" for out i mb
  proof -
    have "bt_get (rl_mailboxes r) i \<noteq> None" using C that(2) m0 by (metis option.distinct(1))
    then have "i \<in> set (bt_keys (rl_mailboxes r))"
      using bt.set_keys[OF tables_wfD(1)[OF relay_invD(3)[OF I]]] by auto
    with C that show ?thesis by blast
  qed
  with C refresh_inv[of E records sinv r1] res ca show ?thesis
    by (cases y) (auto simp: emergency_close_def same_frame_def disable_allocation_def)
qed

section \<open>Construction\<close>

definition tables_of_wf :: "(bytes \<Rightarrow> bytes) \<Rightarrow> relay_tables \<Rightarrow> bool" where
  "tables_of_wf sha256 t = tables_wf sha256 (rt_mailboxes t) (rt_nameplates t) (rt_hashes t)
     (rt_expiries t) (rt_queue_bytes t)"

lemma insert_hashes_Some:
  "insert_hashes hs s = Some s' \<Longrightarrow> s' = fold bs_insert hs s \<and> (\<forall>h \<in> set hs. h \<notin> set s)"
proof (induction hs arbitrary: s)
  case (Cons h hs)
  then have "\<not> bs_contains s h" "insert_hashes hs (bs_insert h s) = Some s'" by (auto split: if_splits)
  with Cons.IH[of "bs_insert h s"] show ?case by (auto simp: bs_contains_def set_bs_insert)
qed auto

lemma load_mailbox_wf:
  assumes "tables_of_wf sha256 t" and "mailbox_wf sha256 mb" and "load_mailbox t mb = Ok t'"
  shows "tables_of_wf sha256 t' \<and>
    bt_get (rt_mailboxes t') = (bt_get (rt_mailboxes t))(mb_mailbox_id mb \<mapsto> mb)"
proof -
  from assms(3) obtain hs q where h: "insert_hashes (membership_hashes mb) (rt_hashes t) = Some hs"
    and q: "checked_add_u64 (rt_queue_bytes t) (mb_queue_bytes mb) = Some q"
    and absent: "bt_get (rt_mailboxes t) (mb_mailbox_id mb) = None"
    and np: "\<And>n. mb_nameplate mb = Some n \<Longrightarrow> bt_get (rt_nameplates t) n = None"
    and t': "t' = \<lparr>rt_mailboxes = bt_insert (mb_mailbox_id mb) mb (rt_mailboxes t),
                rt_nameplates = (case mb_nameplate mb of None \<Rightarrow> rt_nameplates t
                  | Some np \<Rightarrow> bt_insert np (mb_mailbox_id mb) (rt_nameplates t)),
                rt_hashes = hs,
                rt_expiries = bs_insert (mb_expires_at mb, mb_mailbox_id mb) (rt_expiries t),
                rt_queue_bytes = q\<rparr>"
    by (auto simp: load_mailbox_def Let_def bt_contains_def split: if_splits option.splits)
  note H = insert_hashes_Some[OF h]
  have "tables_of_wf sha256 t'"
    using tables_insert[OF assms(1)[unfolded tables_of_wf_def] absent assms(2) _ np] H q
    by (simp add: tables_of_wf_def t' checked_add_u64_Some)
  then show ?thesis by (simp add: t' bt_get_insert)
qed

lemma load_mailbox_absent:
  "load_mailbox t mb = Ok t' \<Longrightarrow> bt_get (rt_mailboxes t) (mb_mailbox_id mb) = None"
  by (auto simp: load_mailbox_def Let_def bt_contains_def split: if_splits option.splits)

lemma load_all_wf:
  "tables_of_wf sha256 t \<Longrightarrow> \<forall>mb \<in> set mbs. mailbox_wf sha256 mb \<Longrightarrow> load_all t mbs = Ok t' \<Longrightarrow>
   tables_of_wf sha256 t' \<and> (\<forall>i mb. bt_get (rt_mailboxes t') i = Some mb \<longleftrightarrow>
     (mb \<in> set mbs \<and> mb_mailbox_id mb = i) \<or> bt_get (rt_mailboxes t) i = Some mb)"
proof (induction mbs arbitrary: t)
  case (Cons m mbs)
  from Cons.prems(3) obtain t1 where t1: "load_mailbox t m = Ok t1" "load_all t1 mbs = Ok t'"
    by (auto simp: bind_result_Ok)
  have wf: "mailbox_wf sha256 m" using Cons.prems(2) by simp
  note L = load_mailbox_wf[OF Cons.prems(1) wf t1(1)]
  have IH: "tables_of_wf sha256 t' \<and> (\<forall>i mb. bt_get (rt_mailboxes t') i = Some mb \<longleftrightarrow>
     (mb \<in> set mbs \<and> mb_mailbox_id mb = i) \<or> bt_get (rt_mailboxes t1) i = Some mb)"
    using Cons.IH[of t1] Cons.prems(2) L t1(2) by simp
  have new: "bt_get (rt_mailboxes t1) i = Some mb \<longleftrightarrow>
      (mb = m \<and> mb_mailbox_id m = i) \<or> bt_get (rt_mailboxes t) i = Some mb" for i mb
    using L load_mailbox_absent[OF t1(1)] by (auto split: if_splits)
  show ?case using IH new by (auto simp only: list.set insert_iff)
qed simp

end
