(* ===== verification/Relay_Restart.thy ===== *)
theory Relay_Restart
  imports Relay_Run
begin

text \<open>
  Construction of a relay over a store (\<^verbatim>\<open>Relay::with_store\<close>), restart over the store another
  relay left, and the runs of the relay as a reachability relation. The in-memory store meets
  the store law the relay relies on.
\<close>

declare split_paired_All [simp del] split_paired_Ex [simp del]

section \<open>Construction\<close>

definition relay_config_typed :: "relay_config \<Rightarrow> bool" where
  "relay_config_typed c \<longleftrightarrow> length (lc_policies (rc_limiter c)) = 8 \<and>
     list_all (\<lambda>p. op_limit p \<le> u32_max) (lc_policies (rc_limiter c)) \<and>
     cap_queue_bytes (rc_capacity c) < u64_max"

lemma with_store_Ok:
  assumes "with_store E config s = Ok r"
  obtains limiter mbs s' t where
    "limiter_new (rc_operator_key config) (rc_limiter config) = Ok limiter"
    "st_load (env_store E) s = (Ok mbs, s')" "load_all empty_tables mbs = Ok t"
    "length (bt_keys (rt_mailboxes t)) \<le> cap_open_mailboxes (rc_capacity config)"
    "rt_queue_bytes t \<le> cap_queue_bytes (rc_capacity config)"
    "r = refresh_gauges \<lparr>rl_config = config, rl_limiter = limiter,
       rl_observability = observability_new (rc_capacity config), rl_store = s',
       rl_mailboxes = rt_mailboxes t, rl_nameplates = rt_nameplates t,
       rl_membership_hashes = rt_hashes t, rl_expiries = rt_expiries t,
       rl_queue_bytes = rt_queue_bytes t, rl_connections = [], rl_routes = [], rl_last_log = None\<rparr>"
proof -
  obtain x s' where load: "st_load (env_store E) s = (x, s')" by fastforce
  show thesis
    using assms that[of _ _ s'] load unfolding with_store_def Let_def
    by (cases x) (auto simp: bind_result_Ok not_less split: if_splits)
qed

definition accepted_config :: "relay_config \<Rightarrow> bool" where
  "accepted_config c \<longleftrightarrow> cap_open_mailboxes (rc_capacity c) \<noteq> 0 \<and> cap_queue_bytes (rc_capacity c) \<noteq> 0 \<and>
     cap_limiter_entries (rc_capacity c) \<noteq> 0 \<and>
     cap_limiter_entries (rc_capacity c) = lc_entry_cap (rc_limiter c) \<and>
     is_ok (limiter_new (rc_operator_key c) (rc_limiter c))"

lemma with_store_accepts: "with_store E config s = Ok r \<Longrightarrow> accepted_config config"
  by (auto simp: with_store_def accepted_config_def Let_def bind_result_Ok split: if_splits)

lemma map_same_graph: "(\<And>k v. f k = Some v \<longleftrightarrow> g k = Some v) \<Longrightarrow> f = g"
  by (rule ext) (metis not_None_eq)

lemma empty_tables_wf: "tables_of_wf sha256 empty_tables"
  by (simp add: tables_of_wf_def tables_wf_def empty_tables_def bt_sum_def)

lemma sessions_wf_empty: "sessions_wf m [] []"
  by (simp add: sessions_wf_def sess_def)

lemma with_store_inv:
  assumes law: "store_law E records sinv" and cfg: "relay_config_typed config" and s: "sinv s"
    and stored: "\<forall>i mb. records s i = Some mb \<longrightarrow> mailbox_wf (env_sha256 E) mb \<and> typed_mailbox mb"
    and res: "with_store E config s = Ok r"
  shows "relay_inv E records sinv r \<and> rl_config r = config \<and> bt_get (rl_mailboxes r) = records s \<and>
    rl_connections r = []"
proof -
  obtain limiter mbs s' t where w:
    "limiter_new (rc_operator_key config) (rc_limiter config) = Ok limiter"
    "st_load (env_store E) s = (Ok mbs, s')" "load_all empty_tables mbs = Ok t"
    "length (bt_keys (rt_mailboxes t)) \<le> cap_open_mailboxes (rc_capacity config)"
    "rt_queue_bytes t \<le> cap_queue_bytes (rc_capacity config)"
    "r = refresh_gauges \<lparr>rl_config = config, rl_limiter = limiter,
       rl_observability = observability_new (rc_capacity config), rl_store = s',
       rl_mailboxes = rt_mailboxes t, rl_nameplates = rt_nameplates t,
       rl_membership_hashes = rt_hashes t, rl_expiries = rt_expiries t,
       rl_queue_bytes = rt_queue_bytes t, rl_connections = [], rl_routes = [], rl_last_log = None\<rparr>"
    (is "r = refresh_gauges ?r")
    using with_store_Ok[OF res] by blast
  have st: "mailbox_store (env_store E) records sinv (\<lambda>mb. mailbox_wf (env_sha256 E) mb \<and> typed_mailbox mb)"
    using law by (simp add: store_law_def)
  note L = mailbox_store.load_ok[OF st s w(2)]
  have all: "\<forall>mb \<in> set mbs. mailbox_wf (env_sha256 E) mb" using L stored by blast
  have T: "tables_of_wf (env_sha256 E) t \<and> (\<forall>i mb. bt_get (rt_mailboxes t) i = Some mb \<longleftrightarrow>
     (mb \<in> set mbs \<and> mb_mailbox_id mb = i) \<or> bt_get (rt_mailboxes empty_tables) i = Some mb)"
    using load_all_wf[OF empty_tables_wf all w(3)] .
  have same: "bt_get (rt_mailboxes t) = records s"
    using T L by (intro map_same_graph) (simp add: empty_tables_def)
  have "limiter_wf (rc_limiter config) limiter"
    using limiter_new_wf[OF w(1)] cfg by (simp add: relay_config_typed_def)
  then have "relay_inv E records sinv ?r"
    using T w(4,5) cfg L same stored sessions_wf_empty counters_ok_new
    by (intro relay_invI) (auto simp: tables_of_wf_def relay_config_typed_def)
  then show ?thesis using refresh_inv same by (simp add: w(6))
qed

section \<open>Loading what a relay stored\<close>

lemma insert_hashes_succeeds:
  "distinct hs \<Longrightarrow> \<forall>h \<in> set hs. h \<notin> set s \<Longrightarrow> \<exists>s'. insert_hashes hs s = Some s'"
proof (induction hs arbitrary: s)
  case (Cons h hs)
  then have "\<forall>k \<in> set hs. k \<notin> set (bs_insert h s)" by (auto simp: set_bs_insert)
  with Cons show ?case by (simp add: bs_contains_def)
qed simp

lemma distinct_membership_hashes: "mailbox_wf sha256 mb \<Longrightarrow> distinct (membership_hashes mb)"
  by (auto simp: mailbox_wf_def membership_hashes_def split: option.splits)

lemma load_all_succeeds:
  assumes full: "tables_wf sha256 F nps hs ex q"
  shows "tables_of_wf sha256 t \<Longrightarrow>
    (\<And>i mb. bt_get (rt_mailboxes t) i = Some mb \<Longrightarrow> bt_get F i = Some mb) \<Longrightarrow>
    (\<And>mb. mb \<in> set mbs \<Longrightarrow> bt_get F (mb_mailbox_id mb) = Some mb \<and>
       bt_get (rt_mailboxes t) (mb_mailbox_id mb) = None) \<Longrightarrow>
    distinct (map mb_mailbox_id mbs) \<Longrightarrow>
    rt_queue_bytes t + sum_list (map mb_queue_bytes mbs) \<le> u64_max \<Longrightarrow>
    \<exists>t'. load_all t mbs = Ok t'"
proof (induction mbs arbitrary: t)
  case (Cons m mbs)
  note FD = tables_wfD[OF full]
  note TD = tables_wfD[OF Cons.prems(1)[unfolded tables_of_wf_def]]
  have m: "bt_get F (mb_mailbox_id m) = Some m" "bt_get (rt_mailboxes t) (mb_mailbox_id m) = None"
    using Cons.prems(3)[of m] by auto
  have wf: "mailbox_wf sha256 m" using FD(5)[OF m(1)] by blast
  have np: "bt_get (rt_nameplates t) n = None" if n: "mb_nameplate m = Some n" for n
  proof (rule ccontr)
    assume "bt_get (rt_nameplates t) n \<noteq> None"
    then obtain i where "bt_get (rt_nameplates t) n = Some i" by auto
    then obtain mb where mb: "bt_get (rt_mailboxes t) i = Some mb" "mb_nameplate mb = Some n"
      using TD(6) by blast
    have "bt_get nps n = Some i" "bt_get nps n = Some (mb_mailbox_id m)"
      using FD(6) Cons.prems(2)[OF mb(1)] mb(2) m(1) n by blast+
    with m(2) mb(1) show False by simp
  qed
  have fresh: "h \<notin> set (rt_hashes t)" if h: "h \<in> set (membership_hashes m)" for h
  proof
    assume "h \<in> set (rt_hashes t)"
    then obtain i mb where mb: "bt_get (rt_mailboxes t) i = Some mb" "h \<in> set (membership_hashes mb)"
      using TD(7) by blast
    then have "i = mb_mailbox_id m" using FD(8) Cons.prems(2)[OF mb(1)] m(1) h by blast
    with m(2) mb(1) show False by simp
  qed
  obtain hs' where hs': "insert_hashes (membership_hashes m) (rt_hashes t) = Some hs'"
    using insert_hashes_succeeds[OF distinct_membership_hashes[OF wf]] fresh by blast
  have q: "checked_add_u64 (rt_queue_bytes t) (mb_queue_bytes m) =
      Some (rt_queue_bytes t + mb_queue_bytes m)"
    using Cons.prems(5) by (simp add: checked_add_u64_Some)
  have "\<exists>t1. load_mailbox t m = Ok t1 \<and> rt_queue_bytes t1 = rt_queue_bytes t + mb_queue_bytes m"
    using np m(2) hs' q by (auto simp: load_mailbox_def Let_def bt_contains_def split: option.split)
  then obtain t1 where t1: "load_mailbox t m = Ok t1"
    "rt_queue_bytes t1 = rt_queue_bytes t + mb_queue_bytes m" by blast
  note L = load_mailbox_wf[OF Cons.prems(1) wf t1(1)]
  have "\<exists>t'. load_all t1 mbs = Ok t'"
  proof (rule Cons.IH)
    show "tables_of_wf sha256 t1" using L by blast
    show "bt_get F i = Some mb" if "bt_get (rt_mailboxes t1) i = Some mb" for i mb
      using that L Cons.prems(2) m(1) by (auto split: if_splits)
    show "bt_get F (mb_mailbox_id mb) = Some mb \<and> bt_get (rt_mailboxes t1) (mb_mailbox_id mb) = None"
      if "mb \<in> set mbs" for mb
      using that L Cons.prems(3)[of mb] Cons.prems(4) by (auto simp: image_iff)
    show "distinct (map mb_mailbox_id mbs)" using Cons.prems(4) by simp
    show "rt_queue_bytes t1 + sum_list (map mb_queue_bytes mbs) \<le> u64_max"
      using Cons.prems(5) t1(2) by simp
  qed
  with t1(1) show ?case by simp
qed simp

lemma sum_list_same_set:
  "distinct (map f xs) \<Longrightarrow> distinct (map f ys) \<Longrightarrow> set xs = set ys \<Longrightarrow>
   sum_list (map g xs) = (sum_list (map g ys) :: nat)"
  by (simp add: sum_list_distinct_conv_sum_set distinct_map)

lemma table_of_list:
  assumes F: "tables_wf sha256 F nps hs ex q" and ids: "distinct (map mb_mailbox_id mbs)"
    and mem: "\<And>i mb. bt_get F i = Some mb \<longleftrightarrow> mb \<in> set mbs \<and> mb_mailbox_id mb = i"
  shows "sum_list (map mb_queue_bytes mbs) = q" and "length mbs = length (bt_keys F)"
proof -
  note D = tables_wfD[OF F]
  have key: "mb_mailbox_id (snd e) = fst e" if "e \<in> set F" for e
    using D(5)[OF bt_get_SomeI[OF D(1)], of "fst e" "snd e"] that by simp
  have keys: "map (\<lambda>e. mb_mailbox_id (snd e)) F = bt_keys F"
    unfolding bt_keys_def using key by (intro map_cong) auto
  have dF: "distinct (map mb_mailbox_id (map snd F))"
    using bt.distinct_keys[OF D(1)] keys by (simp add: comp_def)
  have set: "set mbs = set (map snd F)"
  proof (intro set_eqI iffI)
    fix mb assume "mb \<in> set mbs"
    then have "bt_get F (mb_mailbox_id mb) = Some mb" using mem by simp
    from bt_get_SomeD[OF this] show "mb \<in> set (map snd F)" by force
  next
    fix mb assume "mb \<in> set (map snd F)"
    then obtain i where "(i, mb) \<in> set F" by auto
    from bt_get_SomeI[OF D(1) this] show "mb \<in> set mbs" using mem by simp
  qed
  show "sum_list (map mb_queue_bytes mbs) = q"
    using sum_list_same_set[OF ids dF set, of mb_queue_bytes] D(10) by (simp add: bt_sum_def comp_def)
  have "distinct mbs" "distinct (map snd F)" using ids dF distinct_map by blast+
  then show "length mbs = length (bt_keys F)"
    using distinct_card[of mbs] distinct_card[of "map snd F"] set by (simp add: bt_keys_def)
qed

text \<open>A restart over the store of a relay succeeds when that store can be read, and holds the
  same mailboxes.\<close>

lemma restart_spec:
  assumes law: "store_law E records sinv" and I: "relay_inv E records sinv r"
    and acc: "accepted_config config" and caps: "rc_capacity config = rc_capacity (rl_config r)"
    and load: "st_load (env_store E) (rl_store r) = (Ok mbs, s')" and cfg: "relay_config_typed config"
  shows "\<exists>r'. with_store E config (rl_store r) = Ok r' \<and> relay_inv E records sinv r' \<and>
    bt_get (rl_mailboxes r') = bt_get (rl_mailboxes r) \<and> rl_connections r' = []"
proof -
  note D = relay_invD[OF I]
  have st: "mailbox_store (env_store E) records sinv (\<lambda>mb. mailbox_wf (env_sha256 E) mb \<and> typed_mailbox mb)"
    using law by (simp add: store_law_def)
  note L = mailbox_store.load_ok[OF st D(9) load]
  have mem: "bt_get (rl_mailboxes r) i = Some mb \<longleftrightarrow> mb \<in> set mbs \<and> mb_mailbox_id mb = i" for i mb
    using L D(10) by simp
  have ids: "distinct (map mb_mailbox_id mbs)" using L by blast
  note S = table_of_list[OF D(3) ids mem]
  have "\<exists>t. load_all empty_tables mbs = Ok t"
    using S D(7,8) mem ids
    by (intro load_all_succeeds[OF D(3) empty_tables_wf]) (auto simp: empty_tables_def)
  then obtain t where t: "load_all empty_tables mbs = Ok t" by blast
  have all: "\<forall>mb \<in> set mbs. mailbox_wf (env_sha256 E) mb"
    using mem tables_wfD(5)[OF D(3)] by blast
  note T = load_all_wf[OF empty_tables_wf all t]
  have same: "bt_get (rt_mailboxes t) i = Some mb \<longleftrightarrow> mb \<in> set mbs \<and> mb_mailbox_id mb = i" for i mb
    using T by (simp add: empty_tables_def)
  have twf: "tables_wf (env_sha256 E) (rt_mailboxes t) (rt_nameplates t) (rt_hashes t)
      (rt_expiries t) (rt_queue_bytes t)"
    using T by (simp add: tables_of_wf_def)
  note S' = table_of_list[OF twf ids same]
  have fits: "length (bt_keys (rt_mailboxes t)) \<le> cap_open_mailboxes (rc_capacity config)"
    "rt_queue_bytes t \<le> cap_queue_bytes (rc_capacity config)"
    using S S' D(6,7) caps by simp_all
  obtain l where "limiter_new (rc_operator_key config) (rc_limiter config) = Ok l"
    using acc by (auto simp: accepted_config_def elim: is_ok.elims)
  then have "\<exists>r'. with_store E config (rl_store r) = Ok r'"
    using acc fits t unfolding with_store_def Let_def load accepted_config_def by simp
  then obtain r' where r': "with_store E config (rl_store r) = Ok r'" by blast
  have "\<forall>i mb. records (rl_store r) i = Some mb \<longrightarrow> mailbox_wf (env_sha256 E) mb \<and> typed_mailbox mb"
    using D(5,10) tables_wfD(5)[OF D(3)] by metis
  from with_store_inv[OF law cfg D(9) this r'] r' D(10) show ?thesis by auto
qed

section \<open>The in-memory store\<close>

lemma mailbox_store_weaken:
  assumes "mailbox_store ops records sinv P" and "\<And>mb. Q mb \<Longrightarrow> P mb"
  shows "mailbox_store ops records sinv Q"
proof (rule mailbox_store.intro)
  show "\<And>s mb s'. sinv s \<Longrightarrow> Q mb \<Longrightarrow> st_put ops s mb = (Ok (), s') \<Longrightarrow>
      sinv s' \<and> records s' = (records s)(mb_mailbox_id mb \<mapsto> mb)"
    by (rule mailbox_store.put_ok[OF assms(1)]) (use assms(2) in simp_all)
  show "\<And>s mb r s'. sinv s \<Longrightarrow> Q mb \<Longrightarrow> st_put ops s mb = (r, s') \<Longrightarrow> r \<noteq> Ok () \<Longrightarrow>
      sinv s' \<and> records s' = records s \<and> r \<noteq> Panic"
    by (rule mailbox_store.put_fail[OF assms(1)]) (use assms(2) in simp_all)
qed (rule mailbox_store.remove_ok[OF assms(1)]
    mailbox_store.remove_fail[OF assms(1)] mailbox_store.load_ok[OF assms(1)]; assumption)+

lemma storable_reads_back:
  assumes "reads_back C" and "mailbox_wf sha256 mb" and "typed_mailbox mb"
  shows "storable C sha256 mb"
  using store_roundtrip_lemma[OF assms] by (auto simp: storable_def split: result.split)

lemma memory_store_law:
  assumes "reads_back C" and "\<And>x. length (sha256 x) = 32"
  shows "store_law (memory_env C hmac sha256) (memory_records C sha256) (memory_inv C sha256)"
proof -
  have "mailbox_store (memory_ops C sha256) (memory_records C sha256) (memory_inv C sha256)
      (\<lambda>mb. mailbox_wf sha256 mb \<and> typed_mailbox mb)"
    by (rule mailbox_store_weaken[OF mem.mailbox_store_axioms])
      (use storable_reads_back[OF assms(1)] in blast)
  with assms(2) show ?thesis by (simp add: store_law_def memory_env_def)
qed

lemma memory_inv_Nil [simp]: "memory_inv C sha256 []" "memory_records C sha256 [] = Map.empty"
  by (simp_all add: memory_inv_def memory_records_def fun_eq_iff)

lemma memory_load_Ok:
  assumes "memory_inv C sha256 s"
  shows "\<exists>mbs. memory_load C sha256 s = (Ok mbs, s)"
proof -
  have "\<exists>mbs. collect_results (store_decode C sha256) bss = Ok mbs"
    if "\<forall>bs \<in> set bss. \<exists>mb. store_decode C sha256 bs = Ok mb" for bss
    using that by (induction bss) auto
  moreover have "\<exists>mb. store_decode C sha256 bs = Ok mb" if "(mid, bs) \<in> set s" for mid bs
    using assms that bt_get_SomeI[of s mid bs] by (auto simp: memory_inv_get)
  then have "\<forall>bs \<in> set (map snd s). \<exists>mb. store_decode C sha256 bs = Ok mb" by auto
  ultimately show ?thesis unfolding memory_load_def by blast
qed

section \<open>Runs\<close>

text \<open>One step: a client message with typed input, a disconnect, a sweep or an operator action.
  The result of the step may be an error; the state it leaves is the next state.\<close>

inductive relay_step :: "'s relay_env \<Rightarrow> 's relay \<Rightarrow> 's relay \<Rightarrow> bool" for E where
  message: "length (rr_mailbox_id randomness) = 32 \<Longrightarrow> typed_message m \<Longrightarrow>
     handle E connection address now randomness m r = (res, r') \<Longrightarrow> relay_step E r r'"
| disconnected: "relay_step E r (disconnect connection r)"
| swept: "relay_sweep E now r = Some (res, r') \<Longrightarrow> relay_step E r r'"
| disabled: "relay_step E r (disable_allocation r)"
| emergency: "emergency_close E now r = (res, r') \<Longrightarrow> relay_step E r r'"

inductive_cases relay_stepE: "relay_step E r r'"

text \<open>A relay is started over a store, runs, and may be started again over its own store at any
  moment.\<close>

inductive relay_reach :: "'s relay_env \<Rightarrow> relay_config \<Rightarrow> 's \<Rightarrow> 's relay \<Rightarrow> bool"
  for E config s where
  start: "with_store E config s = Ok r \<Longrightarrow> relay_reach E config s r"
| step: "relay_reach E config s r \<Longrightarrow> relay_step E r r' \<Longrightarrow> relay_reach E config s r'"
| restart: "relay_reach E config s r \<Longrightarrow> with_store E config (rl_store r) = Ok r' \<Longrightarrow>
     relay_reach E config s r'"

text \<open>What a store must hold before the first start.\<close>

definition start_ok ::
  "'s relay_env \<Rightarrow> ('s \<Rightarrow> bytes \<Rightarrow> mailbox option) \<Rightarrow> ('s \<Rightarrow> bool) \<Rightarrow> relay_config \<Rightarrow> 's \<Rightarrow> bool" where
  "start_ok E records sinv config s \<longleftrightarrow> store_law E records sinv \<and> relay_config_typed config \<and> sinv s \<and>
     (\<forall>i mb. records s i = Some mb \<longrightarrow> mailbox_wf (env_sha256 E) mb \<and> typed_mailbox mb)"

definition same_settings :: "relay_config \<Rightarrow> relay_config \<Rightarrow> bool" where
  "same_settings a b \<longleftrightarrow> b = a\<lparr>rc_allocation_enabled := rc_allocation_enabled b\<rparr>"

lemma same_settings_iff:
  "same_settings a b \<longleftrightarrow> rc_operator_key b = rc_operator_key a \<and> rc_limiter b = rc_limiter a \<and>
     rc_capacity b = rc_capacity a"
  by (cases a; cases b) (auto simp: same_settings_def)

lemma relay_step_inv:
  assumes law: "store_law E records sinv" and I: "relay_inv E records sinv r" and st: "relay_step E r r'"
  shows "relay_inv E records sinv r' \<and> same_settings (rl_config r) (rl_config r') \<and>
    (rc_allocation_enabled (rl_config r') \<longrightarrow> rc_allocation_enabled (rl_config r))"
  using st
proof cases
  case (message rnd m c addr now res)
  with handle_inv[OF law I] show ?thesis by (fastforce simp: same_settings_iff)
next
  case (disconnected c)
  with disconnect_inv[OF I] show ?thesis by (simp add: same_settings_iff disable_allocation_def)
next
  case (swept now res)
  with relay_sweep_spec[OF law I, of now] show ?thesis by (auto simp: same_settings_iff)
next
  case disabled
  with disable_inv[OF I] show ?thesis by (simp add: same_settings_iff disable_allocation_def)
next
  case (emergency now res)
  with emergency_close_spec[OF law I] show ?thesis by (simp add: same_settings_iff disable_allocation_def)
qed

lemma relay_reach_inv:
  assumes ok: "start_ok E records sinv config s" and reach: "relay_reach E config s r"
  shows "relay_inv E records sinv r \<and> same_settings config (rl_config r) \<and> accepted_config config"
  using reach
proof induction
  case (start r)
  with ok with_store_inv[of E records sinv config s r] with_store_accepts[of E config s r]
  show ?case by (auto simp: start_ok_def same_settings_iff)
next
  case (step r r')
  with ok relay_step_inv[of E records sinv r r'] show ?case
    by (auto simp: start_ok_def same_settings_iff)
next
  case (restart r r')
  note D = relay_invD[OF conjunct1[OF restart.IH]]
  have "\<forall>i mb. records (rl_store r) i = Some mb \<longrightarrow> mailbox_wf (env_sha256 E) mb \<and> typed_mailbox mb"
    using D(5,10) tables_wfD(5)[OF D(3)] by metis
  with ok with_store_inv[of E records sinv config "rl_store r" r'] restart D(9) show ?case
    by (auto simp: start_ok_def same_settings_iff)
qed

end
