(* ===== verification/Relay_Access.thy ===== *)
theory Relay_Access
  imports Relay_Restart
begin

text \<open>
  Who may act on what: a connection is attached to a mailbox only as the member whose token it
  presented or was given, frames leave the relay only towards that member's peer, and after
  the operator closes the relay no mailbox is created or revived.
\<close>

declare split_paired_All [simp del] split_paired_Ex [simp del]

section \<open>What commands leave alone\<close>

text \<open>Mailboxes evolve: none is created, and a closed one is kept as it is or removed.\<close>

definition evolves :: "'s relay \<Rightarrow> 's relay \<Rightarrow> bool" where
  "evolves r r' \<longleftrightarrow> (\<forall>i mb'. bt_get (rl_mailboxes r') i = Some mb' \<longrightarrow>
     (\<exists>mb. bt_get (rl_mailboxes r) i = Some mb \<and> (is_terminal mb \<longrightarrow> mb' = mb)))"

text \<open>Sessions only end.\<close>

definition sessions_end :: "'s relay \<Rightarrow> 's relay \<Rightarrow> bool" where
  "sessions_end r r' \<longleftrightarrow> (\<forall>d m. session_of r' d = Some m \<longrightarrow> session_of r d = Some m)"

lemma evolves_refl [simp]: "evolves r r"
  by (simp add: evolves_def)

lemma evolves_trans: "evolves r r' \<Longrightarrow> evolves r' r'' \<Longrightarrow> evolves r r''"
  unfolding evolves_def by metis

lemma evolves_same: "rl_mailboxes r' = rl_mailboxes r \<Longrightarrow> evolves r r'"
  by (simp add: evolves_def)

lemma sessions_end_refl [simp]: "sessions_end r r"
  by (simp add: sessions_end_def)

lemma sessions_end_trans: "sessions_end r r' \<Longrightarrow> sessions_end r' r'' \<Longrightarrow> sessions_end r r''"
  unfolding sessions_end_def by metis

lemma sessions_end_same: "rl_connections r' = rl_connections r \<Longrightarrow> sessions_end r r'"
  by (simp add: sessions_end_def session_of_sess)

lemma set_session_ends: "sessions_end r (set_session c None r)"
  by (auto simp: sessions_end_def session_of_sess set_session_def sess_insert split: option.split if_splits)

lemma set_session_sessD:
  "sess (rl_connections (set_session d' None r)) d = Some y \<Longrightarrow> sess (rl_connections r) d = Some y"
  using set_session_ends[of r d'] by (simp add: sessions_end_def session_of_sess)

lemma drop_route_ends: "sessions_end r (drop_route i m r)"
proof -
  have "sessions_end r (set_session c None (r\<lparr>rl_routes := x\<rparr>))" for c x
    using set_session_ends[of "r\<lparr>rl_routes := x\<rparr>" c] by (simp add: sessions_end_def session_of_sess)
  then show ?thesis by (simp add: drop_route_def Let_def split: option.split)
qed

lemma remove_indexes_spec:
  assumes "remove_mailbox_indexes i mb r = (x, r')"
  shows "sessions_end r r' \<and> rl_mailboxes r' = rl_mailboxes r"
proof -
  let ?r1 = "case mb_nameplate mb of None \<Rightarrow> r
     | Some nameplate \<Rightarrow> r\<lparr>rl_nameplates := bt_remove nameplate (rl_nameplates r)\<rparr>"
  define r2 where "r2 = ?r1\<lparr>rl_membership_hashes :=
        fold bs_remove (membership_hashes mb) (rl_membership_hashes ?r1),
      rl_expiries := bs_remove (mb_expires_at mb, i) (rl_expiries ?r1)\<rparr>"
  have r2: "rl_mailboxes r2 = rl_mailboxes r" "sessions_end r r2"
    by (auto simp: r2_def sessions_end_def session_of_sess split: option.split)
  have "sessions_end r2 (drop_route i Claimant (drop_route i Allocator (r2\<lparr>rl_queue_bytes := q\<rparr>)))" for q
    using drop_route_ends[of "r2\<lparr>rl_queue_bytes := q\<rparr>" i Allocator]
      drop_route_ends[of "drop_route i Allocator (r2\<lparr>rl_queue_bytes := q\<rparr>)" i Claimant]
    by (simp add: sessions_end_def session_of_sess)
  then show ?thesis
    using assms r2 sessions_end_trans[OF r2(2)]
    by (auto simp: remove_mailbox_indexes_def Let_def r2_def[symmetric] split: option.splits)
qed

lemma store_fields:
  "store_put E mb r = (x, r') \<Longrightarrow> \<exists>s. r' = r\<lparr>rl_store := s\<rparr>"
  "store_remove E i r = (x, r') \<Longrightarrow> \<exists>s. r' = r\<lparr>rl_store := s\<rparr>"
  by (auto simp: store_put_def store_remove_def case_prod_beta)

lemma remove_mailbox_spec:
  assumes "remove_mailbox E i r = (x, r')"
  shows "sessions_end r r' \<and>
    (bt_get (rl_mailboxes r') = bt_get (rl_mailboxes r) \<and> x \<noteq> Ok () \<or>
     bt_get (rl_mailboxes r') = (bt_get (rl_mailboxes r))(i := None))"
proof -
  obtain y r1 where y: "store_remove E i r = (y, r1)" by fastforce
  then obtain s where s: "r1 = r\<lparr>rl_store := s\<rparr>" using store_fields(2) by blast
  show ?thesis
  proof (cases "y = Ok () \<and> bt_get (rl_mailboxes r) i \<noteq> None")
    case True
    then obtain mb where "bt_get (rl_mailboxes r) i = Some mb" by auto
    then have "remove_mailbox_indexes i mb (r1\<lparr>rl_mailboxes := bt_remove i (rl_mailboxes r1)\<rparr>) = (x, r')"
      using assms True y by (simp add: remove_mailbox_def s)
    from remove_indexes_spec[OF this] show ?thesis
      by (simp add: s sessions_end_def session_of_sess bt_get_remove)
  next
    case False
    then have "r' = r1 \<and> (x = y \<or> bt_get (rl_mailboxes r) i = None)"
      using assms y by (cases y) (auto simp: remove_mailbox_def s)
    with False assms y show ?thesis
      by (cases y) (auto simp: s sessions_end_def session_of_sess fun_eq_iff)
  qed
qed

lemma commit_spec:
  assumes "commit E i tr r = (x, r')" and "bt_get (rl_mailboxes r) i \<noteq> None"
  shows "sessions_end r r' \<and>
    (bt_get (rl_mailboxes r') = bt_get (rl_mailboxes r) \<and> x \<noteq> Ok () \<or>
     bt_get (rl_mailboxes r') = (bt_get (rl_mailboxes r))(i := tr_state tr))"
proof (cases "tr_state tr")
  case None
  with assms remove_mailbox_spec[of E i r x r'] show ?thesis by (simp add: commit_def bt_contains_def)
next
  case (Some mb)
  obtain y r1 where y: "store_put E mb r = (y, r1)" by fastforce
  then obtain s where s: "r1 = r\<lparr>rl_store := s\<rparr>" using store_fields(1) by blast
  show ?thesis
    using assms(1) Some y
    by (cases y) (auto simp: commit_def s sessions_end_def session_of_sess bt_get_insert split: option.splits)
qed

lemma transition_terminal:
  assumes "transition sha256 mb now cmd = Ok tr" and "is_terminal mb"
  shows "tr_state tr = None"
proof (cases "tr_state tr")
  case (Some mb')
  from transition_state_live[OF assms(1) this] assms(2) show ?thesis
    by (simp add: is_terminal_def split: mailbox_status.splits)
qed

lemma commit_evolves:
  assumes "commit E i tr r = (x, r')" and "bt_get (rl_mailboxes r) i = Some mb"
    and "transition sha256 mb now cmd = Ok tr"
  shows "evolves r r'"
  using commit_spec[OF assms(1)] assms(2) transition_terminal[OF assms(3)]
  by (auto simp: evolves_def split: if_splits)

section \<open>The shape of every command\<close>

text \<open>The member of a mailbox whose hash is the hash of a token.\<close>

definition holds_token :: "'s relay_env \<Rightarrow> 's relay \<Rightarrow> session_membership \<Rightarrow> bytes \<Rightarrow> bool" where
  "holds_token E r m tok \<longleftrightarrow> (\<exists>mb x. bt_get (rl_mailboxes r) (sm_mailbox_id m) = Some mb \<and>
     mb_member mb (sm_membership m) = Some x \<and> ms_hash x = token_hash E tok)"

text \<open>The token a message acts with: the one it presents, or the fresh one the relay hands out.\<close>

definition acting_token :: "relay_randomness \<Rightarrow> client_message \<Rightarrow> bytes" where
  "acting_token randomness m = (case m of Open _ tok \<Rightarrow> tok | _ \<Rightarrow> rr_membership_token randomness)"

lemma claim_effect_hash:
  assumes wf: "mailbox_wf sha256 mb" and ok: "transition sha256 mb now cmd = Ok t"
    and cmd: "claim_hashes cmd = {h}" and cl: "claimed_effect (tr_effects t) = Some e"
  shows "\<exists>mb' x. tr_state t = Some mb' \<and> mb_claimant mb' = Some x \<and> ms_hash x = h"
proof -
  obtain mb' where mb': "tr_state t = Some mb'" using claim_effect_state[OF wf ok _ cl] cmd by auto
  note live = conjunct1[OF transition_state_live[OF ok mb']]
  show ?thesis
    using live cmd cl mb'
    by (cases cmd) (auto simp: transition_claim_def transition_claim_v2_def mailbox_terminate[OF wf]
        new_member_def split: if_splits option.splits admission_snapshot.splits)
qed

lemma open_effect_hash:
  assumes wf: "mailbox_wf sha256 mb" and ok: "transition sha256 mb now (CmdOpen h) = Ok t"
    and op: "opened_effect (tr_effects t) = Some m"
  shows "\<exists>x. tr_state t = Some mb \<and> mb_member mb m = Some x \<and> ms_hash x = h"
proof -
  have st: "tr_state t = Some mb" using open_effect_state[OF wf ok op] by blast
  note live = conjunct1[OF transition_state_live[OF ok st]]
  then have "membership_for_hash mb h = Some m"
    using op by (auto simp: transition_open_def bind_result_Ok)
  with st show ?thesis
    by (auto simp: membership_for_hash_def split: if_splits option.splits)
qed

definition leads_to :: "('s relay \<Rightarrow> bool) \<Rightarrow> 's relay_result \<Rightarrow> bool" where
  "leads_to P out \<longleftrightarrow> P (snd out)"

locale relay_relation =
  fixes E :: "'s relay_env" and R :: "connection_id \<Rightarrow> bytes \<Rightarrow> 's relay \<Rightarrow> 's relay \<Rightarrow> bool"
  assumes unchanged: "R c tok r r"
    and bound: "cs_membership st = session_of r c \<Longrightarrow>
      R c tok r (r\<lparr>rl_connections := bt_insert c st (rl_connections r)\<rparr>)"
    and stored: "store_put E mb r = (x, r') \<Longrightarrow> R c tok r r'"
    and inserted: "rc_allocation_enabled (rl_config r) \<Longrightarrow> store_put E mb r = (Ok (), r1) \<Longrightarrow>
      ms_hash (mb_allocator mb) = token_hash E tok \<Longrightarrow> R c tok r (insert_mailbox c mb h r1)"
    and committed: "bt_get (rl_mailboxes r) i = Some mb \<Longrightarrow>
      transition (env_sha256 E) mb now cmd = Ok tr \<Longrightarrow> commit E i tr r = (x, r') \<Longrightarrow> R c tok r r'"
    and attached: "bt_get (rl_mailboxes r) i = Some mb \<Longrightarrow>
      transition (env_sha256 E) mb now cmd = Ok tr \<Longrightarrow> commit E i tr r = (Ok (), r1) \<Longrightarrow>
      holds_token E r1 \<lparr>sm_mailbox_id = i, sm_membership = m\<rparr> tok \<Longrightarrow>
      R c tok r (attach c \<lparr>sm_mailbox_id = i, sm_membership = m\<rparr> r1)"
begin

lemma related_reply: "leads_to (R c tok r) (reply c' m r') \<longleftrightarrow> R c tok r r'"
  by (simp add: leads_to_def reply_def)

lemma related_put:
  assumes "rc_allocation_enabled (rl_config r)" and "ms_hash (mb_allocator mb) = token_hash E tok"
  shows "leads_to (R c tok r) (bind_st (store_put E mb r) (\<lambda>_ r1. reply c m (insert_mailbox c mb h r1)))"
proof -
  obtain x r1 where x: "store_put E mb r = (x, r1)" by fastforce
  show ?thesis
    using assms x stored[OF x] inserted[of r mb r1] by (cases x) (auto simp: leads_to_def reply_def)
qed

lemma related_commit:
  assumes mb: "bt_get (rl_mailboxes r) i = Some mb"
    and k: "\<And>tr r1. transition (env_sha256 E) mb now cmd = Ok tr \<Longrightarrow> commit E i tr r = (Ok (), r1) \<Longrightarrow>
      leads_to (R c tok r) (k tr r1)"
  shows "leads_to (R c tok r) (with_transition c (transition (env_sha256 E) mb now cmd) r
    (\<lambda>tr. bind_st (commit E i tr r) (\<lambda>_ r1. k tr r1)))"
proof (cases "transition (env_sha256 E) mb now cmd")
  case (Ok tr)
  obtain x r1 where x: "commit E i tr r = (x, r1)" by fastforce
  show ?thesis
    using Ok x k[OF Ok] committed[OF mb Ok x] by (cases x) (auto simp: with_transition_def leads_to_def)
qed (auto simp: with_transition_def leads_to_def reply_def unchanged)

lemma related_allocate: "leads_to (R c (rr_membership_token rnd) r) (relay_allocate E c now rnd mode ttl r)"
  unfolding relay_allocate_def Let_def
  by (auto simp: related_reply unchanged leads_to_def[of _ "(Panic, r)"] split: result.split
      dest!: allocate_shape intro!: related_put simp: new_member_def)

lemma related_allocate_v2: "leads_to (R c tok r) (relay_allocate_v2 E c now tok i cm ttl r)"
  unfolding relay_allocate_v2_def Let_def
  by (auto simp: related_reply unchanged leads_to_def[of _ "(Panic, r)"] split: result.split
      dest!: allocate_v2_shape intro!: related_put simp: new_member_def)

lemma related_claim:
  assumes wf: "\<And>i mb. bt_get (rl_mailboxes r) i = Some mb \<Longrightarrow> mailbox_wf (env_sha256 E) mb"
  shows "leads_to (R c tok r) (relay_claim E c now tok l r)"
proof -
  have att: "R c tok r (attach c \<lparr>sm_mailbox_id = i, sm_membership = Claimant\<rparr> r1)"
    if mb: "bt_get (rl_mailboxes r) i = Some mb" "transition (env_sha256 E) mb now (CmdClaim (token_hash E tok)) = Ok tr"
      "commit E i tr r = (Ok (), r1)" and e: "claimed_effect (tr_effects tr) = Some e" for i mb tr r1 e
    using claim_effect_hash[OF wf[OF mb(1)] mb(2) _ e] commit_spec[OF mb(3)] mb(1)
    by (intro attached[OF mb]) (auto simp: holds_token_def)
  have rest: "R c tok r r1"
    if mb: "bt_get (rl_mailboxes r) i = Some mb" "transition (env_sha256 E) mb now (CmdClaim (token_hash E tok)) = Ok tr"
      "commit E i tr r = (Ok (), r1)" for i mb tr r1 using committed[OF mb] .
  show ?thesis
    unfolding relay_claim_def Let_def
    by (auto simp: related_reply unchanged split: option.split intro!: related_commit)
      (auto simp: related_reply leads_to_def split: option.split intro: att rest)
qed

lemma related_claim_v2:
  assumes wf: "\<And>i mb. bt_get (rl_mailboxes r) i = Some mb \<Longrightarrow> mailbox_wf (env_sha256 E) mb"
  shows "leads_to (R c tok r) (relay_claim_v2 E c now tok i ct r)"
proof -
  have att: "R c tok r (attach c \<lparr>sm_mailbox_id = i, sm_membership = Claimant\<rparr> r1)"
    if mb: "bt_get (rl_mailboxes r) i = Some mb"
      "transition (env_sha256 E) mb now (CmdClaimV2 (token_hash E tok) ct) = Ok tr"
      "commit E i tr r = (Ok (), r1)" and e: "claimed_effect (tr_effects tr) = Some e" for mb tr r1 e
    using claim_effect_hash[OF wf[OF mb(1)] mb(2) _ e] commit_spec[OF mb(3)] mb(1)
    by (intro attached[OF mb]) (auto simp: holds_token_def)
  show ?thesis
    unfolding relay_claim_v2_def Let_def
    by (auto simp: related_reply unchanged split: option.split intro!: related_commit)
      (auto simp: related_reply leads_to_def split: option.split intro: att committed)
qed

lemma related_open:
  assumes wf: "\<And>i mb. bt_get (rl_mailboxes r) i = Some mb \<Longrightarrow> mailbox_wf (env_sha256 E) mb"
  shows "leads_to (R c tok r) (relay_open E c now i tok r)"
proof -
  have att: "R c tok r (attach c \<lparr>sm_mailbox_id = i, sm_membership = m\<rparr> r1)"
    if mb: "bt_get (rl_mailboxes r) i = Some mb" "transition (env_sha256 E) mb now (CmdOpen (token_hash E tok)) = Ok tr"
      "commit E i tr r = (Ok (), r1)" and e: "opened_effect (tr_effects tr) = Some m" for mb tr r1 m
    using open_effect_hash[OF wf[OF mb(1)] mb(2) e] commit_spec[OF mb(3)] mb(1)
    by (intro attached[OF mb]) (auto simp: holds_token_def)
  show ?thesis
    unfolding relay_open_def
    by (auto simp: related_reply unchanged split: option.split intro!: related_commit)
      (auto simp: related_reply leads_to_def split: option.split intro: att committed)
qed

lemma related_member: "leads_to (R c tok r) (member_command E c now k r)"
proof -
  have "leads_to (R c tok r) (with_transition c (transition (env_sha256 E) mb now cmd) r
      (\<lambda>tr. if P tr then reply c (MsgError 503) r else bind_st (commit E i tr r) (\<lambda>_ r1. (Ok (msgs tr), r1))))"
    if mb: "bt_get (rl_mailboxes r) i = Some mb" for i mb cmd P msgs
  proof (cases "transition (env_sha256 E) mb now cmd")
    case (Ok tr)
    obtain x r1 where x: "commit E i tr r = (x, r1)" by fastforce
    show ?thesis
      using Ok x committed[OF mb Ok x] unchanged
      by (cases x) (auto simp: with_transition_def leads_to_def reply_def)
  qed (auto simp: with_transition_def leads_to_def reply_def unchanged)
  then show ?thesis
    unfolding member_command_def Let_def by (auto simp: related_reply unchanged split: option.split)
qed

lemma related_dispatch:
  assumes wf: "\<And>i mb. bt_get (rl_mailboxes r) i = Some mb \<Longrightarrow> mailbox_wf (env_sha256 E) mb"
  shows "leads_to (R c (acting_token rnd m) r) (dispatch E c now rnd m r)"
proof (cases "m = Bind")
  case True
  have "cs_membership ((case bt_get (rl_connections r) c of None \<Rightarrow> default_connection | Some st \<Rightarrow> st)
      \<lparr>cs_bound := True\<rparr>) = session_of r c"
    by (auto simp: session_of_def default_connection_def split: option.split)
  from bound[OF this] True show ?thesis by (simp add: dispatch_def Let_def related_reply)
next
  case False
  note cmds = related_allocate related_allocate_v2 related_claim[OF wf] related_claim_v2[OF wf]
    related_open[OF wf] related_member
  show ?thesis
    using False cmds by (cases m) (simp_all add: dispatch_def Let_def related_reply unchanged acting_token_def)
qed

end

text \<open>A relation that ignores the limiter and the metrics holds across the whole service call.\<close>

locale service_relation = relay_relation +
  assumes limited: "R c tok (r\<lparr>rl_limiter := l\<rparr>) r' \<Longrightarrow> R c tok r r'"
    and finished: "R c tok r r' \<Longrightarrow> R c tok r (finish op out r')"
begin

lemma related_handle:
  assumes wf: "\<And>i mb. bt_get (rl_mailboxes r) i = Some mb \<Longrightarrow> mailbox_wf (env_sha256 E) mb"
    and res: "handle E c addr now rnd m r = (x, r')"
  shows "R c (acting_token rnd m) r r'"
proof -
  obtain d l where ch: "check (env_hmac E) (rl_limiter r) (operation_of m) addr now = (d, l)" by fastforce
  let ?r0 = "r\<lparr>rl_limiter := l\<rparr>"
  obtain y r1 where dp: "dispatch E c now rnd m ?r0 = (y, r1)" by fastforce
  have same: "R c tok r ?r0" for tok by (rule limited[OF unchanged])
  have "R c (acting_token rnd m) r r1"
    using related_dispatch[of ?r0 c rnd m now] wf dp by (simp add: leads_to_def limited)
  then show ?thesis
    using res ch dp same finished[OF same] finished
    by (cases d; cases y) (auto simp: handle_def Let_def split: limit_decision.splits)
qed

end

section \<open>Membership needs the token\<close>

definition granted :: "'s relay_env \<Rightarrow> connection_id \<Rightarrow> bytes \<Rightarrow> 's relay \<Rightarrow> 's relay \<Rightarrow> bool" where
  "granted E c tok r r' \<longleftrightarrow> (\<forall>d m. session_of r' d = Some m \<longrightarrow>
     session_of r d = Some m \<or> d = c \<and> holds_token E r' m tok)"

lemma attach_session_cases:
  assumes "session_of (attach c m r) d = Some y"
  shows "d = c \<and> y = m \<or> session_of r d = Some y"
  using assms
  by (auto simp: attach_def Let_def session_of_sess sess_insert split: option.splits if_splits
      dest!: set_session_sessD)

lemma granted_sessions: "sessions_end r r' \<Longrightarrow> granted E c tok r r'"
  by (simp add: granted_def sessions_end_def)

lemma granted_attach:
  assumes "sessions_end r r1" and "holds_token E r1 m tok"
  shows "granted E c tok r (attach c m r1)"
  using assms attach_session_cases[of c m r1]
  by (fastforce simp: granted_def sessions_end_def holds_token_def)

interpretation acc: service_relation E "granted E" for E :: "'s relay_env"
proof
  fix c tok i and r r' r1 :: "'s relay" and mb x h st l op out now cmd tr m
  show "granted E c tok r r" by (simp add: granted_sessions)
  show "granted E c tok r (r\<lparr>rl_connections := bt_insert c st (rl_connections r)\<rparr>)"
    if "cs_membership st = session_of r c"
    using that by (simp add: granted_def session_of_sess sess_insert)
  show "granted E c tok r r'" if "store_put E mb r = (x, r')"
    using store_fields(1)[OF that] by (auto intro!: granted_sessions sessions_end_same)
  show "granted E c tok r (insert_mailbox c mb h r1)"
    if "store_put E mb r = (Ok (), r1)" "ms_hash (mb_allocator mb) = token_hash E tok"
    unfolding insert_mailbox_def
    using that store_fields(1)[OF that(1)]
    by (intro granted_attach) (auto simp: holds_token_def bt_get_insert intro!: sessions_end_same)
  show "granted E c tok r r'"
    if "bt_get (rl_mailboxes r) i = Some mb" "transition (env_sha256 E) mb now cmd = Ok tr"
      "commit E i tr r = (x, r')"
    using commit_spec[OF that(3)] that(1) by (simp add: granted_sessions)
  show "granted E c tok r (attach c \<lparr>sm_mailbox_id = i, sm_membership = m\<rparr> r1)"
    if "bt_get (rl_mailboxes r) i = Some mb" "transition (env_sha256 E) mb now cmd = Ok tr"
      "commit E i tr r = (Ok (), r1)" "holds_token E r1 \<lparr>sm_mailbox_id = i, sm_membership = m\<rparr> tok"
    using commit_spec[OF that(3)] that(1,4) by (simp add: granted_attach)
  show "granted E c tok r r'" if "granted E c tok (r\<lparr>rl_limiter := l\<rparr>) r'"
    using that by (simp add: granted_def session_of_sess)
  show "granted E c tok r (finish op out r')" if "granted E c tok r r'"
    using that by (simp add: granted_def session_of_sess holds_token_def)
qed

section \<open>A closed relay stays closed\<close>

definition frozen :: "connection_id \<Rightarrow> bytes \<Rightarrow> 's relay \<Rightarrow> 's relay \<Rightarrow> bool" where
  "frozen c tok r r' \<longleftrightarrow> rc_allocation_enabled (rl_config r) \<or> evolves r r'"

interpretation frz: service_relation E frozen for E :: "'s relay_env"
proof
  fix c :: connection_id and tok i and r r' r1 :: "'s relay" and mb x h st l op out now cmd tr m
  show "frozen c tok r r" by (simp add: frozen_def)
  show "frozen c tok r (r\<lparr>rl_connections := bt_insert c st (rl_connections r)\<rparr>)"
    by (simp add: frozen_def evolves_same)
  show "frozen c tok r r'" if "store_put E mb r = (x, r')"
    using store_fields(1)[OF that] by (auto simp: frozen_def intro!: evolves_same)
  show "frozen c tok r (insert_mailbox c mb h r1)" if "rc_allocation_enabled (rl_config r)"
    using that by (simp add: frozen_def)
  show "frozen c tok r r'"
    if "bt_get (rl_mailboxes r) i = Some mb" "transition (env_sha256 E) mb now cmd = Ok tr"
      "commit E i tr r = (x, r')"
    using commit_evolves[OF that(3,1,2)] by (simp add: frozen_def)
  show "frozen c tok r (attach c \<lparr>sm_mailbox_id = i, sm_membership = m\<rparr> r1)"
    if "bt_get (rl_mailboxes r) i = Some mb" "transition (env_sha256 E) mb now cmd = Ok tr"
      "commit E i tr r = (Ok (), r1)"
    using commit_evolves[OF that(3,1,2)] by (simp add: frozen_def evolves_def)
  show "frozen c tok r r'" if "frozen c tok (r\<lparr>rl_limiter := l\<rparr>) r'"
    using that by (simp add: frozen_def evolves_def)
  show "frozen c tok r (finish op out r')" if "frozen c tok r r'"
    using that by (simp add: frozen_def evolves_def)
qed

lemma sweep_loop_evolves:
  assumes ret: "sweep_loop E now msgs r = Some out"
  shows "evolves r (snd out)"
proof (rule sweep_loop.raw_induct [where P = "\<lambda>E now msgs r out. evolves r (snd out)", OF _ ret])
  fix self :: "'s relay_env \<Rightarrow> u64 \<Rightarrow> routed_message list \<Rightarrow> 's relay \<Rightarrow> 's relay_result option"
  fix E :: "'s relay_env" and now msgs and r :: "'s relay" and out
  assume IH: "\<And>E now msgs r out. self E now msgs r = Some out \<Longrightarrow> evolves r (snd out)"
    and eq: "(case bs_first (rl_expiries r) of
        None \<Rightarrow> Some (Ok msgs, r)
      | Some e \<Rightarrow>
          if fst e > now then Some (Ok msgs, r)
          else
            (case remove_mailbox E (snd e) r of
               (Ok u, r1) \<Rightarrow> self E now (msgs @ terminal_routes r (snd e) Expired) r1
             | (Err err, r1) \<Rightarrow> Some (Err err, r1)
             | (Panic, r1) \<Rightarrow> Some (Panic, r1))) = Some out"
  have rm: "evolves r r1" if "remove_mailbox E i r = (x, r1)" for i x r1
    using remove_mailbox_spec[OF that] by (auto simp: evolves_def split: if_splits)
  show "evolves r (snd out)"
    using eq by (auto split: option.splits if_splits prod.splits result.splits
        dest: rm IH intro: evolves_trans)
qed

lemma close_all_evolves: "evolves r (snd (close_all E now ids msgs r))"
proof (induction ids arbitrary: msgs r)
  case (Cons i ids)
  have "evolves r (snd (bind_st (commit E i tr r) (\<lambda>_ r1. close_all E now ids (f r1) r1)))"
    if "bt_get (rl_mailboxes r) i = Some mb" "transition (env_sha256 E) mb now cmd = Ok tr" for mb cmd tr f
  proof -
    obtain x r1 where x: "commit E i tr r = (x, r1)" by fastforce
    note c = commit_evolves[OF x that]
    then show ?thesis using Cons.IH evolves_trans[OF c] by (cases x) (auto simp: x)
  qed
  with Cons.IH show ?case by (auto split: option.split mailbox_status.split result.split)
qed simp

text \<open>One step of a relay that no longer allocates.\<close>

lemma relay_step_evolves:
  assumes inv: "relay_inv E records sinv r" and off: "\<not> rc_allocation_enabled (rl_config r)"
    and st: "relay_step E r r'"
  shows "evolves r r'"
  using st
proof cases
  case (message rnd m c addr now res)
  have "mailbox_wf (env_sha256 E) mb" if "bt_get (rl_mailboxes r) i = Some mb" for i mb
    using tables_wfD(5)[OF relay_invD(3)[OF inv] that] by blast
  from frz.related_handle[OF this message(3)] off show ?thesis by (simp add: frozen_def)
next
  case (disconnected c)
  then show ?thesis using disconnect_inv(3)[OF inv] by (simp add: evolves_same)
next
  case (swept now res)
  then obtain y r1 where y: "sweep_loop E now [] (r\<lparr>rl_limiter := snd (sweep_if_due (rl_limiter r) now)\<rparr>) = Some (y, r1)"
    "bind_st (y, r1) (\<lambda>messages r2. (Ok messages, refresh_gauges r2)) = (res, r')"
    by (auto simp: relay_sweep_def)
  have "evolves r r1" using sweep_loop_evolves[OF y(1)] by (simp add: evolves_def)
  with y(2) show ?thesis by (cases y) (auto simp: evolves_def)
next
  case disabled
  then show ?thesis by (simp add: evolves_def disable_allocation_def)
next
  case (emergency now res)
  obtain y r1 where y: "close_all E now (bt_keys (rl_mailboxes r)) [] (disable_allocation r) = (y, r1)"
    by fastforce
  have "evolves r r1"
    using close_all_evolves[of "disable_allocation r" E now "bt_keys (rl_mailboxes r)" "[]"] y
    by (simp add: evolves_def disable_allocation_def)
  with emergency y show ?thesis by (cases y) (auto simp: emergency_close_def evolves_def)
qed

lemma relay_steps_evolve:
  assumes law: "store_law E records sinv" and inv: "relay_inv E records sinv r"
    and off: "\<not> rc_allocation_enabled (rl_config r)" and steps: "(relay_step E)\<^sup>*\<^sup>* r r'"
  shows "evolves r r' \<and> relay_inv E records sinv r' \<and> \<not> rc_allocation_enabled (rl_config r')"
  using steps
proof induction
  case base
  then show ?case using inv off by simp
next
  case (step r1 r2)
  then show ?case
    using relay_step_inv[OF law, of r1 r2] relay_step_evolves[of E records sinv r1 r2] evolves_trans by blast
qed

section \<open>Frames\<close>

text \<open>Every message that carries a frame.\<close>

lemma set_deduplicate: "set (deduplicate_routes ms) = set ms"
proof -
  have "set (foldl (\<lambda>result message. if message \<in> set result then result else result @ [message]) acc ms) =
      set acc \<union> set ms" for acc
    by (induction ms arbitrary: acc) auto
  then show ?thesis by (simp add: deduplicate_routes_def)
qed

definition frames_to :: "(connection_id \<Rightarrow> u8 \<Rightarrow> bytes \<Rightarrow> bool) \<Rightarrow> 's relay_result \<Rightarrow> bool" where
  "frames_to P out \<longleftrightarrow> (\<forall>ms x q b. fst out = Ok ms \<longrightarrow> x \<in> set ms \<longrightarrow> rm_message x = Frame q b \<longrightarrow>
     P (rm_connection x) q b)"

lemma frames_to_reply: "(\<And>q b. m \<noteq> Frame q b) \<Longrightarrow> frames_to P (reply c m r)"
  by (auto simp: frames_to_def reply_def route_def)

lemma frames_to_bind:
  assumes "\<And>r1. frames_to P (k () r1)"
  shows "frames_to P (bind_st (x, r1) k)"
  using assms by (cases x) (auto simp: frames_to_def)

lemma frames_to_commit:
  assumes "\<And>r1. frames_to P (k () r1)"
  shows "frames_to P (bind_st (commit E i tr r) k)"
  using frames_to_bind[of P k "fst (commit E i tr r)" "snd (commit E i tr r)"] assms by simp

lemma error_not_frame [simp]: "mailbox_error_message e \<noteq> Frame q b"
  by (simp add: mailbox_error_message_def split: mailbox_error.split)

lemma frames_to_panic [simp]: "frames_to P (Panic, r)"
  by (simp add: frames_to_def)

lemma frames_to_transition:
  assumes "\<And>tr. res = Ok tr \<Longrightarrow> frames_to P (k tr)"
  shows "frames_to P (with_transition c res r k)"
  using assms frames_to_reply[of "mailbox_error_message e" P c r for e]
  by (cases res) (auto simp: with_transition_def)

lemma terminal_routes_not_frames:
  "x \<in> set (terminal_routes r i reason) \<Longrightarrow> rm_message x \<noteq> Frame q b"
  by (auto simp: terminal_routes_def route_def)

lemma frames_to_closing:
  "frames_to P (Ok (deduplicate_routes (terminal_routes r' i reason @ [route c (MsgClosed reason)])), r)"
  by (auto simp: frames_to_def set_deduplicate route_def dest: terminal_routes_not_frames)

lemmas frames_rules = frames_to_commit frames_to_transition frames_to_closing

lemma frames_allocate:
  "frames_to P (relay_allocate E c now rnd mode ttl r)"
  "frames_to P (relay_allocate_v2 E c now tok i cm ttl2 r)"
proof -
  have put: "frames_to P (bind_st (store_put E mb r) (\<lambda>_ r1. reply c m (f r1)))"
    if "\<And>q b. m \<noteq> Frame q b" for mb m f and r :: "'a relay"
    by (cases "store_put E mb r", simp, rule frames_to_bind, rule frames_to_reply, rule that)
  show "frames_to P (relay_allocate E c now rnd mode ttl r)"
    unfolding relay_allocate_def Let_def
    by (simp add: put frames_to_reply split: result.split)
  show "frames_to P (relay_allocate_v2 E c now tok i cm ttl2 r)"
    unfolding relay_allocate_v2_def Let_def
    by (simp add: put frames_to_reply split: result.split)
qed

lemma frames_claim:
  "frames_to P (relay_claim E c now tok l r)" "frames_to P (relay_claim_v2 E c now tok i ct r)"
  unfolding relay_claim_def relay_claim_v2_def Let_def
  by (auto split: option.split intro!: frames_rules frames_to_reply)

lemma frames_open:
  assumes wf: "\<And>i mb. bt_get (rl_mailboxes r) i = Some mb \<Longrightarrow> mailbox_wf (env_sha256 E) mb"
  shows "frames_to (\<lambda>d q b. d = c \<and> (\<exists>mb m x p. bt_get (rl_mailboxes r) i = Some mb \<and>
      mb_member mb m = Some x \<and> ms_hash x = token_hash E tok \<and>
      mb_member mb (peer m) = Some p \<and> (q, b) \<in> set (queued_frames p)))
    (relay_open E c now i tok r)" (is "frames_to ?P _")
proof -
  define P where "P = ?P"
  have opened: "frames_to P (Ok (open_deliveries c (tr_effects tr)), r')"
    if mb: "bt_get (rl_mailboxes r) i = Some mb"
      "transition (env_sha256 E) mb now (CmdOpen (token_hash E tok)) = Ok tr"
      "opened_effect (tr_effects tr) = Some m" for mb tr m r'
  proof -
    obtain x where x: "tr_state tr = Some mb" "mb_member mb m = Some x" "ms_hash x = token_hash E tok"
      using open_effect_hash[OF wf[OF mb(1)] mb(2,3)] by blast
    have "transition_open mb (token_hash E tok) = Ok tr"
      using transition_state_live[OF mb(2) x(1)] by simp
    then have "tr_effects tr = EffOpened m (mb_expires_at mb) # (case mb_member mb (peer m) of None \<Rightarrow> []
        | Some p \<Rightarrow> map (\<lambda>(s, b). EffDeliver m s b) (queued_frames p))"
      using mb(3) by (auto simp: transition_open_def bind_result_Ok)
    then show ?thesis
      using mb(1) x(2,3)
      by (fastforce simp: P_def frames_to_def open_deliveries_def in_map_filter route_def
          split: option.splits)
  qed
  show ?thesis
    unfolding relay_open_def P_def[symmetric]
    by (auto split: option.split intro!: frames_rules frames_to_reply opened)
qed

lemma deliver_not_deletion [simp]: "EffDeliver d q b \<notin> set (mailbox_deletions mb)"
  by (auto simp: mailbox_deletions_def body_deletions_def in_map_filter split: option.splits)

lemma member_delivers:
  assumes wf: "mailbox_wf sha256 mb" and ok: "transition sha256 mb now (mailbox_command_of sender k) = Ok tr"
    and d: "EffDeliver d q b \<in> set (tr_effects tr)"
  shows "k = KindPut q b \<and> d = peer sender"
proof (cases "tr_state tr")
  case None
  then have "mb_expires_at mb \<le> now" using reap_effects[OF wf ok] by blast
  with ok d show ?thesis
    by (auto simp: transition_def reap_def delete_bodies_Ok[OF mailbox_wf_queue[OF wf]]
        split: mailbox_status.splits)
next
  case (Some mb')
  note live = conjunct1[OF transition_state_live[OF ok Some]]
  show ?thesis
  proof (cases k)
    case (KindPut s body)
    then have "transition_put sha256 mb sender s body = Ok tr" using live by simp
    with wf show ?thesis
      by (cases rule: transition_put_cases) (use d KindPut in \<open>auto split: if_splits\<close>)
  next
    case (KindAck s)
    then have "transition_ack mb sender s = Ok tr" using live by simp
    with wf show ?thesis
      by (cases rule: transition_ack_cases) (use d in \<open>auto split: if_splits\<close>)
  next
    case KindClose
    then show ?thesis
      using live d by (auto simp: transition_close_def mailbox_terminate[OF wf] split: if_splits)
  qed
qed

lemma effect_frame:
  assumes x: "x \<in> set (effect_messages r i es)" "rm_message x = Frame q b"
  shows "\<exists>m. EffDeliver m q b \<in> set es \<and>
    bt_get (rl_routes r) (route_key \<lparr>sm_mailbox_id = i, sm_membership = m\<rparr>) = Some (rm_connection x)"
proof -
  obtain e where e: "e \<in> set es" "x \<in> set (case e of
        EffDeliver recipient peer_seq body \<Rightarrow>
          (case bt_get (rl_routes r) (route_key \<lparr>sm_mailbox_id = i, sm_membership = recipient\<rparr>) of
             None \<Rightarrow> []
           | Some connection \<Rightarrow> [route connection (Frame peer_seq body)])
      | EffTerminal reason \<Rightarrow> terminal_routes r i reason
      | _ \<Rightarrow> [])"
    using x(1) unfolding effect_messages_def by auto
  show ?thesis
  proof (cases e)
    case (EffTerminal reason)
    with e(2) terminal_routes_not_frames[of x r i reason q b] x(2) show ?thesis by simp
  next
    case (EffDeliver m s body)
    with e x(2) show ?thesis by (auto simp: route_def split: option.splits)
  qed (use e(2) in simp_all)
qed

lemma frames_member:
  assumes wf: "\<And>i mb. bt_get (rl_mailboxes r) i = Some mb \<Longrightarrow> mailbox_wf (env_sha256 E) mb"
    and s: "sessions_wf (rl_mailboxes r) (rl_connections r) (rl_routes r)"
  shows "frames_to (\<lambda>d q b. k = KindPut q b \<and> (\<exists>i m. session_of r c = Some \<lparr>sm_mailbox_id = i, sm_membership = m\<rparr> \<and>
      session_of r d = Some \<lparr>sm_mailbox_id = i, sm_membership = peer m\<rparr>))
    (member_command E c now k r)" (is "frames_to ?P _")
proof -
  define P where "P = ?P"
  have deliver: "frames_to P (Ok (deduplicate_routes (put_acknowledgement c k (tr_effects tr) @
        effect_messages r (sm_mailbox_id ss) (tr_effects tr))), r')"
    if ss: "session_of r c = Some ss" and mb: "bt_get (rl_mailboxes r) (sm_mailbox_id ss) = Some mb"
      and ok: "transition (env_sha256 E) mb now (mailbox_command_of (sm_membership ss) k) = Ok tr" for ss mb tr r'
  proof -
    have route: "session_of r d = Some \<lparr>sm_mailbox_id = sm_mailbox_id ss, sm_membership = m\<rparr>"
      if "bt_get (rl_routes r) (route_key \<lparr>sm_mailbox_id = sm_mailbox_id ss, sm_membership = m\<rparr>) = Some d" for m d
      using sessions_wfD(3)[OF s] that by (auto simp: session_of_sess)
    have ack: "rm_message x \<noteq> Frame q b" if "x \<in> set (put_acknowledgement c k es)" for x q b es
      using that by (cases k) (auto simp: route_def split: if_splits)
    have eff: "P (rm_connection x) q b"
      if x: "x \<in> set (effect_messages r (sm_mailbox_id ss) (tr_effects tr))" "rm_message x = Frame q b" for x q b
    proof -
      obtain m where m: "EffDeliver m q b \<in> set (tr_effects tr)"
        "bt_get (rl_routes r) (route_key \<lparr>sm_mailbox_id = sm_mailbox_id ss, sm_membership = m\<rparr>) = Some (rm_connection x)"
        using effect_frame[OF x] by blast
      from member_delivers[OF wf[OF mb] ok m(1)] route[OF m(2)] ss show ?thesis
        unfolding P_def by (cases ss) auto
    qed
    show ?thesis
      using ack eff by (auto simp: frames_to_def set_deduplicate)
  qed
  show ?thesis
    unfolding member_command_def Let_def P_def[symmetric]
    by (auto split: option.split intro!: frames_rules frames_to_reply deliver)
qed

text \<open>The frames one call of the service sends, and to whom.\<close>

definition frame_recipient ::
  "'s relay_env \<Rightarrow> 's relay \<Rightarrow> connection_id \<Rightarrow> client_message \<Rightarrow> connection_id \<Rightarrow> u8 \<Rightarrow> bytes \<Rightarrow> bool" where
  "frame_recipient E r c msg d q b \<longleftrightarrow>
     msg = Put q b \<and> (\<exists>i m. session_of r c = Some \<lparr>sm_mailbox_id = i, sm_membership = m\<rparr> \<and>
       session_of r d = Some \<lparr>sm_mailbox_id = i, sm_membership = peer m\<rparr>) \<or>
     (\<exists>i tok mb m x p. msg = Open i tok \<and> d = c \<and> bt_get (rl_mailboxes r) i = Some mb \<and>
       mb_member mb m = Some x \<and> ms_hash x = token_hash E tok \<and>
       mb_member mb (peer m) = Some p \<and> (q, b) \<in> set (queued_frames p))"

lemma frames_weaken: "frames_to P out \<Longrightarrow> (\<And>d q b. P d q b \<Longrightarrow> Q d q b) \<Longrightarrow> frames_to Q out"
  by (auto simp: frames_to_def)

lemma frames_handle:
  assumes inv: "relay_inv E records sinv r"
  shows "frames_to (frame_recipient E r c msg) (handle E c addr now rnd msg r)"
proof -
  obtain dec l where ch: "check (env_hmac E) (rl_limiter r) (operation_of msg) addr now = (dec, l)" by fastforce
  let ?r0 = "r\<lparr>rl_limiter := l\<rparr>"
  have wf: "mailbox_wf (env_sha256 E) mb" if "bt_get (rl_mailboxes ?r0) i = Some mb" for i mb
    using tables_wfD(5)[OF relay_invD(3)[OF inv]] that by simp
  have s: "sessions_wf (rl_mailboxes ?r0) (rl_connections ?r0) (rl_routes ?r0)"
    using relay_invD(4)[OF inv] by simp
  have err: "frames_to P (reply c (MsgError n) r')" for P n and r' :: "'a relay" by (simp add: frames_to_reply)
  have d: "frames_to (frame_recipient E r c msg) (dispatch E c now rnd msg ?r0)"
  proof (cases msg)
    case (Put q b)
    have "frames_to (frame_recipient E r c msg) (member_command E c now (KindPut q b) ?r0)"
      by (rule frames_weaken[OF frames_member[OF wf s]]) (auto simp: Put frame_recipient_def session_of_def)
    with err show ?thesis by (simp add: Put dispatch_def Let_def)
  next
    case (Ack q)
    have "frames_to (frame_recipient E r c msg) (member_command E c now (KindAck q) ?r0)"
      by (rule frames_weaken[OF frames_member[OF wf s]]) auto
    with err show ?thesis by (simp add: Ack dispatch_def Let_def)
  next
    case Close
    have "frames_to (frame_recipient E r c msg) (member_command E c now KindClose ?r0)"
      by (rule frames_weaken[OF frames_member[OF wf s]]) auto
    with err show ?thesis by (simp add: Close dispatch_def Let_def)
  next
    case (Open i tok)
    have "frames_to (frame_recipient E r c (Open i tok)) (relay_open E c now i tok ?r0)"
      by (rule frames_weaken[OF frames_open[OF wf, where c = c and i = i and tok = tok and now = now]]) (auto simp: frame_recipient_def)
    with err show ?thesis by (simp add: Open dispatch_def Let_def)
  qed (simp_all add: dispatch_def Let_def frames_to_reply frames_allocate frames_claim)
  have fin: "frames_to P (bind_st out (\<lambda>ms r1. (Ok ms, f ms r1)))" if "frames_to P out"
    for P out and f :: "routed_message list \<Rightarrow> 'a relay \<Rightarrow> 'a relay"
    using that by (cases out; cases "fst out") (auto simp: frames_to_def)
  show ?thesis
    unfolding handle_def Let_def ch
    using fin[OF d] frames_to_reply
    by (cases dec) (auto simp: frames_to_def reply_def route_def split: limit_decision.split)
qed

section \<open>Failures\<close>

text \<open>
  A command that reports an error has made one call of the store, which refused it, and has
  changed nothing else. What a refused call leaves in the store is left to the store.
\<close>

definition store_refused :: "'s relay_env \<Rightarrow> 's \<Rightarrow> 's \<Rightarrow> bool" where
  "store_refused E s s' \<longleftrightarrow>
     (\<exists>mb e. st_put (env_store E) s mb = (Err e, s')) \<or> (\<exists>i e. st_remove (env_store E) s i = (Err e, s'))"

definition fails_clean :: "'s relay_env \<Rightarrow> 's relay \<Rightarrow> 's relay_result \<Rightarrow> bool" where
  "fails_clean E r out \<longleftrightarrow> (\<forall>e. fst out = Err e \<longrightarrow>
     e = RelayStorage \<and> (\<exists>s. snd out = r\<lparr>rl_store := s\<rparr> \<and> store_refused E (rl_store r) s))"

lemma fails_clean_Ok [simp]: "fails_clean E r (Ok ms, r')"
  by (simp add: fails_clean_def)

lemma fails_clean_reply [simp]: "fails_clean E r (reply c m r')"
  by (simp add: reply_def)

lemma fails_clean_panic [simp]: "fails_clean E r (Panic, r')"
  by (simp add: fails_clean_def)

lemma map_err_Err: "map_err f r = Err e \<longleftrightarrow> (\<exists>e0. r = Err e0 \<and> e = f e0)"
  by (cases r) auto

lemma store_call_refused:
  "store_put E mb r = (Err e, r') \<Longrightarrow> e = RelayStorage \<and> (\<exists>s. r' = r\<lparr>rl_store := s\<rparr> \<and> store_refused E (rl_store r) s)"
  "store_remove E i r = (Err e, r') \<Longrightarrow> e = RelayStorage \<and> (\<exists>s. r' = r\<lparr>rl_store := s\<rparr> \<and> store_refused E (rl_store r) s)"
  unfolding store_put_def store_remove_def store_refused_def
  by (auto simp: map_err_Err split: prod.splits)

lemma fails_clean_put:
  assumes "\<And>r1. fails_clean E r (k () r1)"
  shows "fails_clean E r (bind_st (store_put E mb r) k)"
proof -
  obtain x r1 where x: "store_put E mb r = (x, r1)" by fastforce
  with assms store_call_refused(1)[of E mb r] show ?thesis by (cases x) (auto simp: fails_clean_def)
qed

lemma remove_indexes_not_err [simp]: "remove_mailbox_indexes i mb r \<noteq> (Err e, r')"
  by (auto simp: remove_mailbox_indexes_def Let_def split: option.split)

lemma commit_refused:
  assumes acc: "accounts_ok E r" and mb: "bt_get (rl_mailboxes r) i = Some mb"
    and ok: "transition (env_sha256 E) mb now cmd = Ok tr"
    and room: "is_put cmd \<Longrightarrow> projected_queue_bytes r i tr \<le> cap_queue_bytes (rc_capacity (rl_config r))"
    and err: "commit E i tr r = (Err e, r1)"
  shows "e = RelayStorage \<and> (\<exists>s. r1 = r\<lparr>rl_store := s\<rparr> \<and> store_refused E (rl_store r) s)"
proof (cases "tr_state tr")
  case None
  obtain y r2 where y: "store_remove E i r = (y, r2)" by fastforce
  with None err mb store_call_refused(2)[of E i r] show ?thesis
    by (cases y) (auto simp: commit_def bt_contains_def remove_mailbox_def split: option.splits)
next
  case (Some mb')
  obtain y r2 where y: "store_put E mb' r = (y, r2)" by fastforce
  show ?thesis
  proof (cases y)
    case (Ok u)
    obtain s where s: "r2 = r\<lparr>rl_store := s\<rparr>" using store_fields(1)[OF y] by blast
    note A = commit_account[OF acc mb ok Some room]
    have "rl_queue_bytes r - mb_queue_bytes mb + mb_queue_bytes mb' \<le> u64_max"
      using A(2) acc by (simp add: accounts_ok_def)
    with err Some y Ok s mb A(1) show ?thesis
      by (auto simp: commit_def mailbox_bytes_def machine_int split: if_splits)
  qed (use err Some y store_call_refused(1)[of E mb' r] in \<open>auto simp: commit_def\<close>)
qed

lemma fails_clean_commit:
  assumes "accounts_ok E r" and "bt_get (rl_mailboxes r) i = Some mb"
    and "transition (env_sha256 E) mb now cmd = Ok tr"
    and "is_put cmd \<Longrightarrow> projected_queue_bytes r i tr \<le> cap_queue_bytes (rc_capacity (rl_config r))"
    and "\<And>r1. fails_clean E r (k () r1)"
  shows "fails_clean E r (bind_st (commit E i tr r) k)"
proof -
  obtain x r1 where x: "commit E i tr r = (x, r1)" by fastforce
  with assms(5) commit_refused[OF assms(1-4)] show ?thesis by (cases x) (auto simp: fails_clean_def)
qed

lemma fails_clean_transition:
  assumes "\<And>tr. res = Ok tr \<Longrightarrow> fails_clean E r (k tr)"
  shows "fails_clean E r (with_transition c res r k)"
  using assms by (cases res) (auto simp: with_transition_def)

lemma dispatch_fails_clean:
  assumes acc: "accounts_ok E r"
  shows "fails_clean E r (dispatch E c now rnd m r)"
proof -
  have "fails_clean E r (relay_allocate E c now rnd mode ttl r)" for mode ttl
    unfolding relay_allocate_def Let_def by (simp add: fails_clean_put split: result.split)
  moreover have "fails_clean E r (relay_allocate_v2 E c now tok i cm ttl r)" for tok i cm ttl
    unfolding relay_allocate_v2_def Let_def by (simp add: fails_clean_put split: result.split)
  moreover have "fails_clean E r (relay_claim E c now tok l r)" for tok l
    unfolding relay_claim_def Let_def
    by (auto split: option.split intro!: fails_clean_transition fails_clean_commit[OF acc])
  moreover have "fails_clean E r (relay_claim_v2 E c now tok i ct r)" for tok i ct
    unfolding relay_claim_v2_def Let_def
    by (auto split: option.split intro!: fails_clean_transition fails_clean_commit[OF acc])
  moreover have "fails_clean E r (relay_open E c now i tok r)" for i tok
    unfolding relay_open_def
    by (auto split: option.split intro!: fails_clean_transition fails_clean_commit[OF acc])
  moreover have "fails_clean E r (member_command E c now k r)" for k
    unfolding member_command_def Let_def
    by (auto split: option.split intro!: fails_clean_transition fails_clean_commit[OF acc])
  ultimately show ?thesis by (cases m) (simp_all add: dispatch_def Let_def)
qed

lemma handle_fails_clean:
  assumes acc: "accounts_ok E r" and err: "handle E c addr now rnd m r = (Err e, r')"
  shows "\<exists>l. e = RelayLimiter \<and> r' = r\<lparr>rl_limiter := l\<rparr> \<or>
    e = RelayStorage \<and> (\<exists>s. r' = r\<lparr>rl_limiter := l, rl_store := s\<rparr> \<and> store_refused E (rl_store r) s)"
proof -
  obtain d l where ch: "check (env_hmac E) (rl_limiter r) (operation_of m) addr now = (d, l)" by fastforce
  obtain y r1 where dp: "dispatch E c now rnd m (r\<lparr>rl_limiter := l\<rparr>) = (y, r1)" by fastforce
  have "accounts_ok E (r\<lparr>rl_limiter := l\<rparr>)" using acc by (simp add: accounts_ok_def)
  from dispatch_fails_clean[OF this, of c now rnd m]
  have "e = RelayStorage \<and> (\<exists>s. r1 = r\<lparr>rl_limiter := l, rl_store := s\<rparr> \<and> store_refused E (rl_store r) s)" if "y = Err e"
    using that dp by (simp add: fails_clean_def)
  then show ?thesis
    using err ch dp by (cases d; cases y) (auto simp: handle_def Let_def split: limit_decision.splits)
qed

end
