(* ===== verification/Relay_Demo.thy ===== *)
theory Relay_Demo
  imports Relay_Access Limiter_Props
begin

text \<open>
  A small run of the relay over the in-memory store, used by the witnesses: a client binds and
  allocates a mailbox.
\<close>

declare split_paired_All [simp del] split_paired_Ex [simp del]

definition demo_digest :: "bytes \<Rightarrow> bytes" where
  "demo_digest x = take 32 (x @ replicate 32 0)"

lemma length_demo_digest: "length (demo_digest x) = 32"
  by (simp add: demo_digest_def)

definition demo_token :: bytes where "demo_token = replicate 32 5"

definition demo_waiting :: mailbox where
  "demo_waiting = \<lparr>mb_mailbox_id = replicate 32 1, mb_nameplate = Some 7, mb_expires_at = 611,
     mb_status = Waiting, mb_admission = V1, mb_allocator = new_member demo_token,
     mb_claimant = None, mb_queue_bytes = 0\<rparr>"

definition demo_token2 :: bytes where "demo_token2 = replicate 32 6"

definition demo_claimed_mailbox :: mailbox where
  "demo_claimed_mailbox = demo_waiting\<lparr>mb_claimant := Some (new_member demo_token2), mb_status := Paired\<rparr>"

definition demo_queued_mailbox :: mailbox where
  "demo_queued_mailbox = demo_claimed_mailbox\<lparr>mb_allocator := \<lparr>ms_hash = demo_token, ms_next_seq = 1,
     ms_frames = [\<lparr>fr_seq = 0, fr_digest = demo_digest [8], fr_body_len = 1, fr_body = Some [8]\<rparr>]\<rparr>,
     mb_queue_bytes := 1\<rparr>"

definition demo_closed_mailbox :: mailbox where
  "demo_closed_mailbox = demo_claimed_mailbox\<lparr>mb_status := Terminal Closed\<rparr>"

definition demo_codec :: codec where
  "demo_codec = table_codec [(record_value (snapshot demo_waiting), [42]),
     (record_value (snapshot demo_claimed_mailbox), [43]), (record_value (snapshot demo_queued_mailbox), [44]),
     (record_value (snapshot demo_closed_mailbox), [45])]"

definition demo_env :: "memory_store relay_env" where
  "demo_env = memory_env demo_codec demo_hmac demo_digest"

definition demo_relay_limits :: limiter_config where
  "demo_relay_limits = limiter_config_new \<lparr>op_limit = 2, op_window_seconds = 60\<rparr> 9 30"

definition demo_config :: relay_config where
  "demo_config = \<lparr>rc_operator_key = [7], rc_limiter = demo_relay_limits,
     rc_capacity = \<lparr>cap_open_mailboxes = 2, cap_queue_bytes = 100, cap_limiter_entries = 9\<rparr>,
     rc_allocation_enabled = True\<rparr>"

definition demo_random :: relay_randomness where
  "demo_random = \<lparr>rr_mailbox_id = replicate 32 1, rr_membership_token = demo_token, rr_nameplate = 7\<rparr>"

definition demo_started :: "memory_store relay" where
  "demo_started = (case relay_new demo_codec demo_hmac demo_digest demo_config of Ok r \<Rightarrow> r)"

definition demo_random2 :: relay_randomness where
  "demo_random2 = \<lparr>rr_mailbox_id = replicate 32 2, rr_membership_token = demo_token2, rr_nameplate = 8\<rparr>"

text \<open>One message of the run; the randomness is typed.\<close>

definition demo_step ::
  "connection_id \<Rightarrow> u64 \<Rightarrow> relay_randomness \<Rightarrow> client_message \<Rightarrow> memory_store relay \<Rightarrow> memory_store relay" where
  "demo_step c t rnd m r = snd (handle demo_env c demo_peer t rnd m r)"

definition demo_bound :: "memory_store relay" where
  "demo_bound = demo_step 1 10 demo_random Bind demo_started"

definition demo_allocated :: "memory_store relay" where
  "demo_allocated = demo_step 1 11 demo_random (Allocate 1 None) demo_bound"

definition demo_bound2 :: "memory_store relay" where
  "demo_bound2 = demo_step 2 12 demo_random2 Bind demo_allocated"

definition demo_claimed :: "memory_store relay" where
  "demo_claimed = demo_step 2 13 demo_random2 (Claim (Nameplate 7)) demo_bound2"

lemma demo_reads: "reads_back demo_codec"
  by (simp add: demo_codec_def table_codec_reads_back)

lemma demo_law: "store_law demo_env (memory_records demo_codec demo_digest) (memory_inv demo_codec demo_digest)"
  unfolding demo_env_def by (rule memory_store_law[OF demo_reads length_demo_digest])

lemma demo_start_ok:
  "start_ok demo_env (memory_records demo_codec demo_digest) (memory_inv demo_codec demo_digest) demo_config []"
  using demo_law
  by (simp add: start_ok_def relay_config_typed_def demo_config_def demo_relay_limits_def limiter_config_new_def
      u32_max_def u64_max_def replicate_num)

lemma demo_started_fields:
  "with_store demo_env demo_config [] = Ok demo_started"
  "rl_config demo_started = demo_config" "rl_mailboxes demo_started = []" "rl_connections demo_started = []"
  "rl_limiter demo_started = (case limiter_new [7] demo_relay_limits of Ok l \<Rightarrow> l)"
  "rl_nameplates demo_started = []" "rl_membership_hashes demo_started = []" "rl_routes demo_started = []"
  "rl_expiries demo_started = []" "rl_store demo_started = []" "rl_queue_bytes demo_started = 0"
  by (simp_all add: demo_started_def relay_new_def demo_env_def[symmetric] with_store_def Let_def demo_config_def
      demo_relay_limits_def limiter_config_new_def limiter_new_def demo_env_def memory_env_def memory_ops_def
      memory_load_def replicate_num empty_tables_def bt_keys_def refresh_gauges_def)

lemma demo_step_reach:
  assumes "relay_reach demo_env demo_config [] r" and "length (rr_mailbox_id rnd) = 32" and "typed_message m"
  shows "relay_reach demo_env demo_config [] (demo_step c t rnd m r)"
  using relay_reach.step[OF assms(1) relay_step.message[OF assms(2,3)], of c demo_peer t]
  unfolding demo_step_def by (metis prod.collapse)

lemma demo_started_reach: "relay_reach demo_env demo_config [] demo_started"
  and demo_bound_reach: "relay_reach demo_env demo_config [] demo_bound"
  and run_reach: "relay_reach demo_env demo_config [] demo_allocated"
  and demo_bound2_reach: "relay_reach demo_env demo_config [] demo_bound2"
  and demo_claimed_reach: "relay_reach demo_env demo_config [] demo_claimed"
proof -
  have len: "length (rr_mailbox_id demo_random) = 32" "length (rr_mailbox_id demo_random2) = 32"
    by (simp_all add: demo_random_def demo_random2_def)
  show s: "relay_reach demo_env demo_config [] demo_started"
    using demo_started_fields(1) by (rule relay_reach.start)
  show b: "relay_reach demo_env demo_config [] demo_bound"
    unfolding demo_bound_def by (rule demo_step_reach[OF s len(1)]) simp
  show a: "relay_reach demo_env demo_config [] demo_allocated"
    unfolding demo_allocated_def by (rule demo_step_reach[OF b len(1)]) simp
  show b2: "relay_reach demo_env demo_config [] demo_bound2"
    unfolding demo_bound2_def by (rule demo_step_reach[OF a len(2)]) simp
  show "relay_reach demo_env demo_config [] demo_claimed"
    unfolding demo_claimed_def by (rule demo_step_reach[OF b2 len(2)]) simp
qed

section \<open>The limiter along the run\<close>

definition demo_key :: bytes where "demo_key = [7, 4, 192, 0, 2, 7]"

text \<open>A limiter state of the run: its entries, and the time of the last check.\<close>

definition demo_limiter :: "(dimension \<times> entry) list \<Rightarrow> (u64 \<times> dimension) list \<Rightarrow> u64 \<Rightarrow> u64 \<Rightarrow> limiter" where
  "demo_limiter entries rec n now = \<lparr>li_operator_key = [7], li_config = demo_relay_limits,
     li_entries = entries, li_recency = rec, li_next_recency = n, li_last_now = Some now,
     li_last_sweep = Some 10, li_clock_reversals = 0, li_capacity_evictions = 0\<rparr>"

abbreviation demo_entry :: "u64 list \<Rightarrow> u64 \<Rightarrow> entry" where
  "demo_entry ts n \<equiv> \<lparr>en_attempts = ts, en_cooldown_until = None, en_recency = n\<rparr>"

lemma demo_policies [simp]: "policy_of demo_relay_limits o1 = \<lparr>op_limit = 2, op_window_seconds = 60\<rparr>"
  "lc_entry_cap demo_relay_limits = 9" "lc_sweep_interval_seconds demo_relay_limits = 30"
  "list_ex (\<lambda>p. op_limit p = 0 \<or> op_window_seconds p = 0) (lc_policies demo_relay_limits) = False"
  using op_index_less[of o1]
  by (simp_all add: policy_of_def demo_relay_limits_def limiter_config_new_def list_ex_iff)

lemmas demo_check_eval = check_def observe_time_def sweep_inner_def List.map_filter_simps
  check_existing_def check_new_def touch_def take_recency_def check_entry_def
  prune_attempts_def machine_int u64_max_def u32_max_def bt_contains_def bt_get_def
  bt_keys_def bs_remove_def Let_def demo_limiter_def demo_peer_key demo_peer_nonempty

definition demo_limiter1 :: limiter where
  "demo_limiter1 = demo_limiter [((OpBind, demo_key), demo_entry [10] 0)] [(0, OpBind, demo_key)] 1 10"

definition demo_limiter2 :: limiter where
  "demo_limiter2 = demo_limiter [((OpBind, demo_key), demo_entry [10] 0), ((OpAllocate, demo_key), demo_entry [11] 1)]
     [(0, OpBind, demo_key), (1, OpAllocate, demo_key)] 2 11"

definition demo_limiter3 :: limiter where
  "demo_limiter3 = demo_limiter [((OpBind, demo_key), demo_entry [10, 12] 2), ((OpAllocate, demo_key), demo_entry [11] 1)]
     [(1, OpAllocate, demo_key), (2, OpBind, demo_key)] 3 12"

definition demo_limiter4 :: limiter where
  "demo_limiter4 = demo_limiter [((OpBind, demo_key), demo_entry [10, 12] 2), ((OpAllocate, demo_key), demo_entry [11] 1),
       ((OpClaim, demo_key), demo_entry [13] 3)]
     [(1, OpAllocate, demo_key), (2, OpBind, demo_key), (3, OpClaim, demo_key)] 4 13"

lemma demo_admitted:
  "check demo_hmac (rl_limiter demo_started) OpBind demo_peer 10 = (Ok (Allowed 1), demo_limiter1)"
  "check demo_hmac demo_limiter1 OpAllocate demo_peer 11 = (Ok (Allowed 1), demo_limiter2)"
  "check demo_hmac demo_limiter2 OpBind demo_peer 12 = (Ok (Allowed 0), demo_limiter3)"
  "check demo_hmac demo_limiter3 OpClaim demo_peer 13 = (Ok (Allowed 1), demo_limiter4)"
  "fst (check demo_hmac demo_limiter4 OpPut demo_peer 14) = Ok (Allowed 1)"
  by (simp_all add: demo_check_eval demo_started_fields limiter_new_def demo_key_def
      demo_limiter1_def demo_limiter2_def demo_limiter3_def demo_limiter4_def less_operation_def)

lemma demo_handle:
  assumes "check demo_hmac (rl_limiter r) (operation_of m) demo_peer t = (Ok (Allowed n), l)"
    and "dispatch demo_env c t rnd m (r\<lparr>rl_limiter := l\<rparr>) = (Ok ms, r1)"
  shows "handle demo_env c demo_peer t rnd m r = (Ok ms, finish (operation_of m) (actor_outcome c ms) r1)"
    and "demo_step c t rnd m r = finish (operation_of m) (actor_outcome c ms) r1"
  using assms by (simp_all add: handle_def Let_def demo_env_def memory_env_def demo_step_def)

lemma finish_all [simp]:
  "rl_limiter (finish op out r) = rl_limiter r" "rl_nameplates (finish op out r) = rl_nameplates r"
  "rl_membership_hashes (finish op out r) = rl_membership_hashes r"
  "rl_queue_bytes (finish op out r) = rl_queue_bytes r"
  by (simp_all add: finish_def refresh_gauges_def case_prod_beta)

section \<open>The relay along the run\<close>

abbreviation demo_id :: bytes where "demo_id \<equiv> replicate 32 1"

lemma demo_bound_fields:
  "rl_config demo_bound = demo_config" "rl_mailboxes demo_bound = []"
  "rl_connections demo_bound = [(1, \<lparr>cs_bound = True, cs_membership = None\<rparr>)]"
  "rl_limiter demo_bound = demo_limiter1" "rl_routes demo_bound = []"
  "rl_nameplates demo_bound = []" "rl_membership_hashes demo_bound = []"
  "rl_expiries demo_bound = []" "rl_store demo_bound = []" "rl_queue_bytes demo_bound = 0"
proof -
  have "dispatch demo_env 1 10 demo_random Bind (demo_started\<lparr>rl_limiter := l\<rparr>) =
      (Ok [route 1 Welcome], demo_started\<lparr>rl_limiter := l,
         rl_connections := [(1, \<lparr>cs_bound = True, cs_membership = None\<rparr>)]\<rparr>)" for l
    by (simp add: dispatch_def reply_def Let_def demo_started_fields default_connection_def)
  from demo_handle(2)[OF _ this] demo_admitted(1)
  have h: "demo_step 1 10 demo_random Bind demo_started = finish OpBind (actor_outcome 1 [route 1 Welcome])
      (demo_started\<lparr>rl_limiter := demo_limiter1, rl_connections := [(1, \<lparr>cs_bound = True, cs_membership = None\<rparr>)]\<rparr>)"
    by simp
  show "rl_config demo_bound = demo_config" "rl_mailboxes demo_bound = []"
    "rl_connections demo_bound = [(1, \<lparr>cs_bound = True, cs_membership = None\<rparr>)]"
    "rl_limiter demo_bound = demo_limiter1" "rl_routes demo_bound = []"
    "rl_nameplates demo_bound = []" "rl_membership_hashes demo_bound = []"
    "rl_expiries demo_bound = []" "rl_store demo_bound = []" "rl_queue_bytes demo_bound = 0"
    unfolding demo_bound_def h by (simp_all add: demo_started_fields)
qed

lemma demo_store:
  "mb_mailbox_id demo_waiting = demo_id" "mb_nameplate demo_waiting = Some 7"
  "mb_expires_at demo_waiting = 611" "mb_mailbox_id demo_claimed_mailbox = demo_id"
  "mb_mailbox_id demo_queued_mailbox = demo_id" "mb_queue_bytes demo_waiting = 0"
  "mb_mailbox_id demo_closed_mailbox = demo_id" "mb_queue_bytes demo_closed_mailbox = 0"
  "membership_hashes demo_closed_mailbox = [demo_token, demo_token2]"
  "mb_queue_bytes demo_claimed_mailbox = 0" "mb_queue_bytes demo_queued_mailbox = 1"
  "membership_hashes demo_claimed_mailbox = [demo_token, demo_token2]"
  "membership_hashes demo_queued_mailbox = [demo_token, demo_token2]"
  by (simp_all add: demo_waiting_def demo_claimed_mailbox_def demo_queued_mailbox_def membership_hashes_def
      demo_closed_mailbox_def new_member_def)

lemma demo_records_distinct:
  "record_value (snapshot demo_claimed_mailbox) \<noteq> record_value (snapshot demo_waiting)"
  "record_value (snapshot demo_queued_mailbox) \<noteq> record_value (snapshot demo_waiting)"
  "record_value (snapshot demo_queued_mailbox) \<noteq> record_value (snapshot demo_claimed_mailbox)"
  "record_value (snapshot demo_closed_mailbox) \<noteq> record_value (snapshot demo_waiting)"
  "record_value (snapshot demo_closed_mailbox) \<noteq> record_value (snapshot demo_claimed_mailbox)"
  "record_value (snapshot demo_closed_mailbox) \<noteq> record_value (snapshot demo_queued_mailbox)"
  by (simp_all add: demo_waiting_def demo_claimed_mailbox_def demo_queued_mailbox_def demo_closed_mailbox_def snapshot_def
      record_value_def member_sequences_def new_member_def encode_status_def)

lemma run_allocate:
  "token_hash demo_env demo_token = demo_token" "token_hash demo_env demo_token2 = demo_token2"
  "allocate \<lparr>ai_mailbox_id = demo_id, ai_nameplate = Some 7, ai_allocator_hash = demo_token,
     ai_now = 11, ai_ttl_seconds = None\<rparr> = Ok demo_waiting"
  "store_put demo_env demo_waiting r = (Ok (), r\<lparr>rl_store := bt_insert demo_id [42] (rl_store r)\<rparr>)"
  "store_put demo_env demo_claimed_mailbox r = (Ok (), r\<lparr>rl_store := bt_insert demo_id [43] (rl_store r)\<rparr>)"
  "store_put demo_env demo_queued_mailbox r = (Ok (), r\<lparr>rl_store := bt_insert demo_id [44] (rl_store r)\<rparr>)"
  "store_put demo_env demo_closed_mailbox r = (Ok (), r\<lparr>rl_store := bt_insert demo_id [45] (rl_store r)\<rparr>)"
proof -
  show "token_hash demo_env demo_token = demo_token" "token_hash demo_env demo_token2 = demo_token2"
    by (simp_all add: token_hash_def demo_env_def memory_env_def demo_digest_def demo_token_def demo_token2_def)
  show "allocate \<lparr>ai_mailbox_id = demo_id, ai_nameplate = Some 7, ai_allocator_hash = demo_token,
     ai_now = 11, ai_ttl_seconds = None\<rparr> = Ok demo_waiting"
    by (simp add: allocate_def demo_waiting_def mailbox_constants machine_int u64_max_def)
  note put = store_put_def demo_env_def memory_env_def memory_ops_def memory_put_def store_encode_def
    demo_codec_def table_codec_def demo_store demo_records_distinct
  show "store_put demo_env demo_waiting r = (Ok (), r\<lparr>rl_store := bt_insert demo_id [42] (rl_store r)\<rparr>)"
    "store_put demo_env demo_claimed_mailbox r = (Ok (), r\<lparr>rl_store := bt_insert demo_id [43] (rl_store r)\<rparr>)"
    "store_put demo_env demo_queued_mailbox r = (Ok (), r\<lparr>rl_store := bt_insert demo_id [44] (rl_store r)\<rparr>)"
    "store_put demo_env demo_closed_mailbox r = (Ok (), r\<lparr>rl_store := bt_insert demo_id [45] (rl_store r)\<rparr>)"
    by (simp_all add: put)
qed

lemma demo_allocate_reply:
  "handle demo_env 1 demo_peer 11 demo_random (Allocate 1 None) demo_bound =
     (Ok [route 1 (Allocated demo_id demo_token (Some 7) 611)],
      finish OpAllocate OutSuccess (insert_mailbox 1 demo_waiting demo_token
         (demo_bound\<lparr>rl_limiter := demo_limiter2, rl_store := [(demo_id, [42])]\<rparr>)))"
proof -
  have "dispatch demo_env 1 11 demo_random (Allocate 1 None) (demo_bound\<lparr>rl_limiter := l\<rparr>) =
      (Ok [route 1 (Allocated demo_id demo_token (Some 7) 611)],
        insert_mailbox 1 demo_waiting demo_token (demo_bound\<lparr>rl_limiter := l, rl_store := [(demo_id, [42])]\<rparr>))" for l
    by (simp add: dispatch_def relay_allocate_def reply_def Let_def demo_bound_fields demo_random_def
        run_allocate session_of_def bt_get_def bt_contains_def bt_keys_def demo_config_def
        token_hash_exists_def bs_contains_def MAX_NAMEPLATE_def demo_store)
  from demo_handle(1)[OF _ this] demo_admitted(2) show ?thesis
    by (simp add: demo_bound_fields actor_outcome_def route_def)
qed

definition demo_session :: "membership \<Rightarrow> connection_state" where
  "demo_session m = \<lparr>cs_bound = True, cs_membership = Some \<lparr>sm_mailbox_id = demo_id, sm_membership = m\<rparr>\<rparr>"

lemma demo_allocated_fields:
  "rl_config demo_allocated = demo_config" "rl_mailboxes demo_allocated = [(demo_id, demo_waiting)]"
  "rl_connections demo_allocated = [(1, demo_session Allocator)]"
  "rl_limiter demo_allocated = demo_limiter2" "rl_routes demo_allocated = [((demo_id, 0), 1)]"
  "rl_nameplates demo_allocated = [(7, demo_id)]" "rl_membership_hashes demo_allocated = [demo_token]"
  "rl_expiries demo_allocated = [(611, demo_id)]" "rl_store demo_allocated = [(demo_id, [42])]"
  "rl_queue_bytes demo_allocated = 0"
  unfolding demo_allocated_def demo_step_def demo_allocate_reply
  by (simp_all add: insert_mailbox_def demo_store demo_bound_fields)
    (simp_all add: session_of_def attach_def Let_def demo_bound_fields bt_get_def route_key_def demo_session_def)

lemma demo_bound2_fields:
  "rl_config demo_bound2 = demo_config" "rl_mailboxes demo_bound2 = [(demo_id, demo_waiting)]"
  "rl_connections demo_bound2 = [(1, demo_session Allocator), (2, \<lparr>cs_bound = True, cs_membership = None\<rparr>)]"
  "rl_limiter demo_bound2 = demo_limiter3" "rl_routes demo_bound2 = [((demo_id, 0), 1)]"
  "rl_nameplates demo_bound2 = [(7, demo_id)]" "rl_membership_hashes demo_bound2 = [demo_token]"
  "rl_expiries demo_bound2 = [(611, demo_id)]" "rl_store demo_bound2 = [(demo_id, [42])]"
  "rl_queue_bytes demo_bound2 = 0"
proof -
  have "dispatch demo_env 2 12 demo_random2 Bind (demo_allocated\<lparr>rl_limiter := l\<rparr>) =
      (Ok [route 2 Welcome], demo_allocated\<lparr>rl_limiter := l, rl_connections :=
         [(1, demo_session Allocator), (2, \<lparr>cs_bound = True, cs_membership = None\<rparr>)]\<rparr>)" for l
    by (simp add: dispatch_def reply_def Let_def demo_allocated_fields default_connection_def bt_get_def)
  from demo_handle(2)[OF _ this] demo_admitted(3)
  have h: "demo_step 2 12 demo_random2 Bind demo_allocated = finish OpBind (actor_outcome 2 [route 2 Welcome])
      (demo_allocated\<lparr>rl_limiter := demo_limiter3, rl_connections :=
         [(1, demo_session Allocator), (2, \<lparr>cs_bound = True, cs_membership = None\<rparr>)]\<rparr>)"
    by (simp add: demo_allocated_fields)
  show "rl_config demo_bound2 = demo_config" "rl_mailboxes demo_bound2 = [(demo_id, demo_waiting)]"
    "rl_connections demo_bound2 = [(1, demo_session Allocator), (2, \<lparr>cs_bound = True, cs_membership = None\<rparr>)]"
    "rl_limiter demo_bound2 = demo_limiter3" "rl_routes demo_bound2 = [((demo_id, 0), 1)]"
    "rl_nameplates demo_bound2 = [(7, demo_id)]" "rl_membership_hashes demo_bound2 = [demo_token]"
    "rl_expiries demo_bound2 = [(611, demo_id)]" "rl_store demo_bound2 = [(demo_id, [42])]"
    "rl_queue_bytes demo_bound2 = 0"
    unfolding demo_bound2_def h by (simp_all add: demo_allocated_fields)
qed

lemma demo_transitions:
  "transition demo_digest demo_waiting 13 (CmdClaim demo_token2) =
     Ok \<lparr>tr_state = Some demo_claimed_mailbox, tr_effects = [EffClaimed Claimant 611]\<rparr>"
  "transition demo_digest demo_claimed_mailbox 14 (CmdPut Allocator 0 [8]) =
     Ok \<lparr>tr_state = Some demo_queued_mailbox,
         tr_effects = [EffStored Allocator 0 False, EffDeliver Claimant 0 [8]]\<rparr>"
  by (simp_all add: transition_def demo_waiting_def demo_claimed_mailbox_def demo_queued_mailbox_def
      transition_claim_def transition_put_def Let_def new_member_def demo_token_def demo_token2_def
      mailbox_constants machine_int u64_max_def u8_max_def)

lemma demo_closing:
  "transition demo_digest demo_claimed_mailbox 15 (CmdClose Allocator) =
     Ok \<lparr>tr_state = Some demo_closed_mailbox, tr_effects = [EffTerminal Closed]\<rparr>"
  by (simp add: transition_def demo_waiting_def demo_claimed_mailbox_def demo_closed_mailbox_def
      transition_close_def terminate_def delete_bodies_def new_member_def bind_result_Ok)

lemma demo_tokens_differ: "demo_token2 \<noteq> demo_token" "demo_token < demo_token2" "\<not> demo_token2 < demo_token"
  by (simp_all add: demo_token_def demo_token2_def replicate_num)

lemma demo_env_sha: "env_sha256 demo_env = demo_digest"
  by (simp add: demo_env_def memory_env_def)

lemma run_claim:
  "dispatch demo_env 2 13 demo_random2 (Claim (Nameplate 7)) (demo_bound2\<lparr>rl_limiter := l\<rparr>) =
     (Ok [route 2 (Claimed demo_id demo_token2 611)],
      attach 2 \<lparr>sm_mailbox_id = demo_id, sm_membership = Claimant\<rparr>
        (demo_bound2\<lparr>rl_limiter := l, rl_store := [(demo_id, [43])], rl_queue_bytes := 0,
           rl_membership_hashes := [demo_token, demo_token2],
           rl_mailboxes := [(demo_id, demo_claimed_mailbox)]\<rparr>))"
  using demo_transitions(1) demo_tokens_differ
  by (simp add: dispatch_def relay_claim_def session_of_def demo_bound2_fields bt_get_def resolve_def
      Let_def demo_random2_def run_allocate token_hash_exists_def bs_contains_def with_transition_def
      demo_env_sha commit_def mailbox_bytes_def demo_store machine_int u64_max_def reply_def)

lemma demo_claimed_fields:
  "rl_config demo_claimed = demo_config" "rl_mailboxes demo_claimed = [(demo_id, demo_claimed_mailbox)]"
  "rl_connections demo_claimed = [(1, demo_session Allocator), (2, demo_session Claimant)]"
  "rl_limiter demo_claimed = demo_limiter4" "rl_routes demo_claimed = [((demo_id, 0), 1), ((demo_id, 1), 2)]"
  "rl_nameplates demo_claimed = [(7, demo_id)]" "rl_membership_hashes demo_claimed = [demo_token, demo_token2]"
  "rl_expiries demo_claimed = [(611, demo_id)]" "rl_store demo_claimed = [(demo_id, [43])]"
  "rl_queue_bytes demo_claimed = 0"
proof -
  from demo_handle(2)[OF _ run_claim] demo_admitted(4)
  have h: "demo_step 2 13 demo_random2 (Claim (Nameplate 7)) demo_bound2 =
      finish OpClaim (actor_outcome 2 [route 2 (Claimed demo_id demo_token2 611)])
       (attach 2 \<lparr>sm_mailbox_id = demo_id, sm_membership = Claimant\<rparr>
        (demo_bound2\<lparr>rl_limiter := demo_limiter4, rl_store := [(demo_id, [43])], rl_queue_bytes := 0,
           rl_membership_hashes := [demo_token, demo_token2],
           rl_mailboxes := [(demo_id, demo_claimed_mailbox)]\<rparr>))"
    by (simp add: demo_bound2_fields)
  show "rl_config demo_claimed = demo_config" "rl_mailboxes demo_claimed = [(demo_id, demo_claimed_mailbox)]"
    "rl_connections demo_claimed = [(1, demo_session Allocator), (2, demo_session Claimant)]"
    "rl_limiter demo_claimed = demo_limiter4" "rl_routes demo_claimed = [((demo_id, 0), 1), ((demo_id, 1), 2)]"
    "rl_nameplates demo_claimed = [(7, demo_id)]" "rl_membership_hashes demo_claimed = [demo_token, demo_token2]"
    "rl_expiries demo_claimed = [(611, demo_id)]" "rl_store demo_claimed = [(demo_id, [43])]"
    "rl_queue_bytes demo_claimed = 0"
    unfolding demo_claimed_def h
    by (simp_all add: demo_bound2_fields)
      (simp_all add: session_of_def attach_def Let_def demo_bound2_fields bt_get_def route_key_def demo_session_def)
qed

lemma run_put:
  "\<exists>r'. handle demo_env 1 demo_peer 14 demo_random (Put 0 [8]) demo_claimed =
     (Ok [route 1 (Acknowledged 0), route 2 (Frame 0 [8])], r')"
proof -
  obtain l where l: "check demo_hmac demo_limiter4 OpPut demo_peer 14 = (Ok (Allowed 1), l)"
    using demo_admitted(5) by (metis prod.collapse)
  have "\<exists>r'. dispatch demo_env 1 14 demo_random (Put 0 [8]) (demo_claimed\<lparr>rl_limiter := l\<rparr>) =
      (Ok [route 1 (Acknowledged 0), route 2 (Frame 0 [8])], r')"
    using demo_transitions(2)
    by (simp add: dispatch_def member_command_def session_of_def demo_claimed_fields bt_get_def demo_session_def
        with_transition_def demo_env_sha projected_queue_bytes_def mailbox_bytes_def demo_store machine_int
        demo_config_def commit_def run_allocate u64_max_def effect_messages_def route_key_def
        deduplicate_routes_def Let_def)
  then obtain r' where "dispatch demo_env 1 14 demo_random (Put 0 [8]) (demo_claimed\<lparr>rl_limiter := l\<rparr>) =
      (Ok [route 1 (Acknowledged 0), route 2 (Frame 0 [8])], r')" by blast
  from demo_handle(1)[OF _ this] l show ?thesis by (simp add: demo_claimed_fields)
qed

lemma demo_emergency:
  "\<exists>r'. emergency_close demo_env 15 demo_claimed =
     (Ok [route 1 (MsgClosed Closed), route 2 (MsgClosed Closed)], r') \<and>
     rl_mailboxes r' = [(demo_id, demo_closed_mailbox)]"
  using demo_closing demo_tokens_differ
  by (simp add: emergency_close_def demo_claimed_fields bt_keys_def disable_allocation_def bt_get_def
      demo_claimed_mailbox_def[THEN arg_cong, of mb_status] demo_env_sha commit_def run_allocate mailbox_bytes_def
      demo_store machine_int u64_max_def terminal_routes_def List.map_filter_simps route_key_def
      deduplicate_routes_def)

end
