(* ===== verification/Relay_Props.thy ===== *)
theory Relay_Props
  imports Relay_Demo
begin

text \<open>
  The properties of the relay service: every reachable relay is consistent with its store and
  within its caps, sweeping and emergency closing do exactly what they promise, a restart
  recovers the mailboxes, membership follows tokens, frames follow membership, and nameplates
  are chosen fairly.
\<close>

declare split_paired_All [simp del] split_paired_Ex [simp del]

section \<open>Nameplates\<close>

lemma nameplate_candidate_spec:
  assumes "sorted_wrt (<) ks" and "\<forall>k \<in> set ks. k < u32_max"
  shows "\<exists>n. nameplate_candidate ks c = Some n \<and> c \<le> n \<and> n \<notin> set ks \<and> (\<forall>k. c \<le> k \<and> k < n \<longrightarrow> k \<in> set ks)"
  using assms
proof (induction ks c rule: nameplate_candidate.induct)
  case (2 k ks c)
  consider "k < c" | "c < k" | "k = c" by linarith
  then show ?case
  proof cases
    case 1
    with 2 show ?thesis by fastforce
  next
    case 2
    with "2.prems" show ?thesis by fastforce
  next
    case 3
    then obtain n where "nameplate_candidate ks (c + 1) = Some n" "c + 1 \<le> n" "n \<notin> set ks"
      "\<forall>j. c + 1 \<le> j \<and> j < n \<longrightarrow> j \<in> set ks" using 2 by auto
    with 3 "2.prems" show ?thesis by (auto simp: le_Suc_eq Suc_le_eq dest: le_neq_implies_less)
  qed
qed simp

lemma residue_preimages:
  fixes m k n :: nat
  assumes "n < m"
  shows "card {c. c < k * m \<and> c mod m = n} = k"
proof -
  have "{c. c < k * m \<and> c mod m = n} = (\<lambda>i. n + i * m) ` {0..<k}" (is "?A = ?B")
  proof (intro set_eqI iffI)
    fix c assume "c \<in> ?A"
    then have "c = n + (c div m) * m" "c div m < k"
      using div_mult_mod_eq[of c m] by (auto simp: less_mult_imp_div_less)
    then show "c \<in> ?B" by auto
  next
    fix c assume "c \<in> ?B"
    then obtain i where i: "c = n + i * m" "i < k" by (elim imageE) (simp only: atLeastLessThan_iff)
    then have "Suc i * m \<le> k * m" by (intro mult_le_mono1) simp
    with i assms show "c \<in> ?A" by auto
  qed
  moreover have "inj_on (\<lambda>i. n + i * m) {0..<k}" using assms by (auto simp: inj_on_def)
  ultimately show ?thesis by (simp add: card_image)
qed

text \<open>The source of candidates after \<open>k\<close> draws.\<close>

definition after_draws :: "('r \<Rightarrow> (u32, 'e) result \<times> 'r) \<Rightarrow> nat \<Rightarrow> 'r \<Rightarrow> 'r" where
  "after_draws next_candidate k = (\<lambda>g. snd (next_candidate g)) ^^ k"

lemma after_draws_Suc: "after_draws f (Suc k) g = after_draws f k (snd (f g))"
  unfolding after_draws_def using funpow_swap1[of "\<lambda>g. snd (f g)" k g] by simp

lemma sample_returns:
  assumes "\<forall>i < k. \<exists>c. fst (f (after_draws f i g)) = Ok c \<and> NAMEPLATE_ACCEPTED \<le> c"
    and "fst (f (after_draws f k g)) = Ok c" and "c < NAMEPLATE_ACCEPTED"
  shows "sample_nameplate f g = Some (Ok (c mod NAMEPLATE_RANGE), after_draws f (Suc k) g)"
  using assms
proof (induction k arbitrary: g)
  case 0
  then show ?case
    by (subst sample_nameplate.simps) (auto simp: after_draws_def split: prod.split)
next
  case (Suc k)
  obtain c0 g' where c0: "f g = (Ok c0, g')" "NAMEPLATE_ACCEPTED \<le> c0"
    using Suc.prems(1)[rule_format, of 0] by (cases "f g") (auto simp: after_draws_def)
  have "\<forall>i < k. \<exists>c. fst (f (after_draws f i g')) = Ok c \<and> NAMEPLATE_ACCEPTED \<le> c"
    using Suc.prems(1) c0(1) after_draws_Suc[of f _ g] by (metis Suc_less_eq snd_conv)
  moreover have "fst (f (after_draws f k g')) = Ok c" using Suc.prems(2) c0(1) by (simp add: after_draws_Suc)
  ultimately have "sample_nameplate f g' = Some (Ok (c mod NAMEPLATE_RANGE), after_draws f (Suc k) g')"
    using Suc.IH Suc.prems(3) by blast
  with c0 show ?case by (subst sample_nameplate.simps) (simp add: after_draws_Suc)
qed

section \<open>Consistency\<close>

lemma demo_allocated_session:
  "session_of demo_allocated 1 = Some \<lparr>sm_mailbox_id = demo_id, sm_membership = Allocator\<rparr>"
  by (simp add: session_of_def demo_allocated_fields bt_get_def demo_session_def)

text \<open>
  C1: Every state the relay can reach from an accepted start, through any sequence of client
  messages, disconnects, sweeps, operator actions and restarts, is consistent: the indexes
  describe exactly the mailboxes, the store holds exactly the mailbox table, the number of
  mailboxes and the queued bytes are within the configured capacity, and no client message
  makes the service panic.
\<close>

theorem relay_stays_consistent:
  assumes "start_ok E records sinv config s" and "relay_reach E config s r"
  shows "relay_wf E r \<and> records (rl_store r) = bt_get (rl_mailboxes r) \<and>
    mailbox_count r \<le> cap_open_mailboxes (rc_capacity config) \<and>
    rl_queue_bytes r = bt_sum mb_queue_bytes (rl_mailboxes r) \<and>
    rl_queue_bytes r \<le> cap_queue_bytes (rc_capacity config) \<and>
    (\<forall>c addr now rnd m. length (rr_mailbox_id rnd) = 32 \<longrightarrow> typed_message m \<longrightarrow>
       fst (handle E c addr now rnd m r) \<noteq> Panic)"
proof -
  have I: "relay_inv E records sinv r" and cfg: "same_settings config (rl_config r)"
    and law: "store_law E records sinv"
    using relay_reach_inv[OF assms] assms(1) by (auto simp: start_ok_def)
  note D = relay_invD[OF I]
  have "fst (handle E c addr now rnd m r) \<noteq> Panic"
    if "length (rr_mailbox_id rnd) = 32" "typed_message m" for c addr now rnd m
    using handle_inv[OF law I that, of c addr now] by (cases "handle E c addr now rnd m r") auto
  then show ?thesis
    using I D(6,7,10) tables_wfD(10)[OF D(3)] cfg
    by (auto simp: relay_inv_def mailbox_count_def same_settings_iff)
qed

theorem relay_stays_consistent_witness:
  "memory_records demo_codec demo_digest (rl_store demo_allocated) demo_id = Some demo_waiting \<and>
   relay_wf demo_env demo_allocated"
  using relay_stays_consistent[OF demo_start_ok run_reach] by (simp add: demo_allocated_fields bt_get_def)

text \<open>
  Routes and sessions agree: at any moment one connection at most acts as a given member
  of a mailbox, the route table names exactly that connection, and an attached connection's
  mailbox exists and has that member.
\<close>

lemma sessions_are_exclusive:
  assumes "start_ok E records sinv config s" and "relay_reach E config s r"
  shows "(session_of r c = Some m \<longrightarrow> session_of r d = Some m \<longrightarrow> c = d) \<and>
    (bt_get (rl_routes r) (route_key m) = Some c \<longleftrightarrow> session_of r c = Some m) \<and>
    (session_of r c = Some m \<longrightarrow> (\<exists>mb. bt_get (rl_mailboxes r) (sm_mailbox_id m) = Some mb \<and>
       mb_member mb (sm_membership m) \<noteq> None))"
proof -
  have I: "relay_inv E records sinv r" using relay_reach_inv[OF assms] by blast
  note S = sessions_wfD[OF relay_invD(4)[OF I]]
  have owner: "bt_get (rl_routes r) (route_key m) = Some c \<longleftrightarrow> session_of r c = Some m" for c m
    using S(3)[of "route_key m" c] by (auto simp: session_of_sess)
  have "c = d" if "session_of r c = Some m" "session_of r d = Some m"
    using that owner[of m c] owner[of m d] by simp
  then show ?thesis
    using owner S(4)[of c m] by (auto simp: member_exists_def session_of_sess)
qed

theorem sessions_are_exclusive_witness:
  "bt_get (rl_routes demo_allocated) (route_key \<lparr>sm_mailbox_id = demo_id, sm_membership = Allocator\<rparr>) = Some 1"
  using sessions_are_exclusive[OF demo_start_ok run_reach, of 1 "\<lparr>sm_mailbox_id = demo_id, sm_membership = Allocator\<rparr>"]
    demo_allocated_session by blast

section \<open>Access\<close>

text \<open>
  C12: Membership needs the token. The only session a client message can create belongs to the
  connection that sent it, and the member it acts as is the one whose stored hash is the hash
  of the token the client presented (Open) or was just given (Allocate, Claim).
\<close>

theorem membership_needs_token:
  assumes "start_ok E records sinv config s" and "relay_reach E config s r"
    and "handle E c addr now rnd msg r = (res, r')"
    and "session_of r' d = Some m" and "session_of r d \<noteq> Some m"
  shows "d = c \<and> (\<exists>mb x. bt_get (rl_mailboxes r') (sm_mailbox_id m) = Some mb \<and>
    mb_member mb (sm_membership m) = Some x \<and> ms_hash x = token_hash E (acting_token rnd msg))"
proof -
  have I: "relay_inv E records sinv r" using relay_reach_inv[OF assms(1,2)] by blast
  have "granted E c (acting_token rnd msg) r r'"
    using acc.related_handle[OF _ assms(3)] tables_wfD(5)[OF relay_invD(3)[OF I]] by blast
  with assms(4,5) show ?thesis by (auto simp: granted_def holds_token_def)
qed

theorem membership_needs_token_witness:
  "session_of demo_bound 1 = None \<and> session_of demo_allocated 1 \<noteq> None \<and>
   (\<exists>mb x. bt_get (rl_mailboxes demo_allocated) demo_id = Some mb \<and> mb_member mb Allocator = Some x \<and>
      ms_hash x = token_hash demo_env demo_token)"
proof -
  have none: "session_of demo_bound 1 = None" by (simp add: session_of_def demo_bound_fields bt_get_def)
  have "handle demo_env 1 demo_peer 11 demo_random (Allocate 1 None) demo_bound =
      (fst (handle demo_env 1 demo_peer 11 demo_random (Allocate 1 None) demo_bound), demo_allocated)"
    by (simp add: demo_allocated_def demo_step_def)
  from membership_needs_token[OF demo_start_ok demo_bound_reach this demo_allocated_session] none
  show ?thesis unfolding demo_allocated_session by (simp add: acting_token_def demo_random_def)
qed

text \<open>
  C13: A frame leaves the relay in two ways only: a Put sends its own body to the connection
  attached as the peer of the sender in the same mailbox, and an Open sends to the opening
  connection the bodies its peer queued, after the presented token matched a member of that
  mailbox. No other message delivers a frame to anyone.
\<close>

theorem frames_reach_only_the_peer:
  assumes "start_ok E records sinv config s" and "relay_reach E config s r"
    and "handle E c addr now rnd msg r = (Ok out, r')"
    and "x \<in> set out" and "rm_message x = Frame q b"
  shows "msg = Put q b \<and> (\<exists>i m. session_of r c = Some \<lparr>sm_mailbox_id = i, sm_membership = m\<rparr> \<and>
       session_of r (rm_connection x) = Some \<lparr>sm_mailbox_id = i, sm_membership = peer m\<rparr>) \<or>
     (\<exists>i tok mb m y p. msg = Open i tok \<and> rm_connection x = c \<and> bt_get (rl_mailboxes r) i = Some mb \<and>
       mb_member mb m = Some y \<and> ms_hash y = token_hash E tok \<and>
       mb_member mb (peer m) = Some p \<and> (q, b) \<in> set (queued_frames p))"
proof -
  have I: "relay_inv E records sinv r" using relay_reach_inv[OF assms(1,2)] by blast
  have "frames_to (frame_recipient E r c msg) (Ok out, r')"
    using frames_handle[OF I, of c msg addr now rnd] assms(3) by simp
  then show ?thesis using assms(4,5) by (simp add: frames_to_def frame_recipient_def)
qed

theorem frames_reach_only_the_peer_witness:
  "\<exists>i m. session_of demo_claimed 1 = Some \<lparr>sm_mailbox_id = i, sm_membership = m\<rparr> \<and>
     session_of demo_claimed 2 = Some \<lparr>sm_mailbox_id = i, sm_membership = peer m\<rparr>"
proof -
  obtain r' where h: "handle demo_env 1 demo_peer 14 demo_random (Put 0 [8]) demo_claimed =
      (Ok [route 1 (Acknowledged 0), route 2 (Frame 0 [8])], r')" using run_put by blast
  from frames_reach_only_the_peer[OF demo_start_ok demo_claimed_reach h, of "route 2 (Frame 0 [8])" 0 "[8]"]
  show ?thesis by (simp add: route_def)
qed

section \<open>Sweeping, closing, restarting, failing\<close>

text \<open>
  C31: The sweep always returns, without a panic. When the store lets it finish, it has removed
  exactly the mailboxes whose deadline has passed and left every other one untouched, and it
  notifies exactly the connections that were attached to a removed mailbox.
\<close>

theorem sweep_removes_exactly_expired:
  assumes "start_ok E records sinv config s" and "relay_reach E config s r"
  shows "\<exists>x r'. relay_sweep E now r = Some (x, r') \<and> x \<noteq> Panic \<and>
    (\<forall>out. x = Ok out \<longrightarrow>
       (\<forall>i. bt_get (rl_mailboxes r') i = (case bt_get (rl_mailboxes r) i of None \<Rightarrow> None
          | Some mb \<Rightarrow> if mb_expires_at mb \<le> now then None else Some mb)) \<and>
       set out = {msg. \<exists>c m mb. msg = route c (MsgClosed Expired) \<and> session_of r c = Some m \<and>
          bt_get (rl_mailboxes r) (sm_mailbox_id m) = Some mb \<and> mb_expires_at mb \<le> now})"
proof -
  have I: "relay_inv E records sinv r" and law: "store_law E records sinv"
    using relay_reach_inv[OF assms] assms(1) by (auto simp: start_ok_def)
  from relay_sweep_spec[OF law I, of now] show ?thesis
    unfolding expired_notices_def session_of_sess live_after_def fun_eq_iff by blast
qed

theorem sweep_removes_exactly_expired_witness:
  "\<exists>x r'. relay_sweep demo_env 611 demo_claimed = Some (x, r') \<and> x \<noteq> Panic \<and>
    (\<forall>out. x = Ok out \<longrightarrow> bt_get (rl_mailboxes r') demo_id = None \<and> route 2 (MsgClosed Expired) \<in> set out)"
proof -
  have s2: "session_of demo_claimed 2 = Some \<lparr>sm_mailbox_id = demo_id, sm_membership = Claimant\<rparr>"
    and mb: "bt_get (rl_mailboxes demo_claimed) demo_id = Some demo_claimed_mailbox"
      "mb_expires_at demo_claimed_mailbox = 611"
    by (simp_all add: session_of_def demo_claimed_fields bt_get_def demo_session_def demo_claimed_mailbox_def
        demo_waiting_def)
  obtain x r' where x: "relay_sweep demo_env 611 demo_claimed = Some (x, r')" "x \<noteq> Panic"
    "\<forall>out. x = Ok out \<longrightarrow>
       (\<forall>i. bt_get (rl_mailboxes r') i = (case bt_get (rl_mailboxes demo_claimed) i of None \<Rightarrow> None
          | Some mb \<Rightarrow> if mb_expires_at mb \<le> 611 then None else Some mb)) \<and>
       set out = {msg. \<exists>c m mb. msg = route c (MsgClosed Expired) \<and> session_of demo_claimed c = Some m \<and>
          bt_get (rl_mailboxes demo_claimed) (sm_mailbox_id m) = Some mb \<and> mb_expires_at mb \<le> 611}"
    using sweep_removes_exactly_expired[OF demo_start_ok demo_claimed_reach, of 611] by blast
  have "bt_get (rl_mailboxes r') demo_id = None \<and> route 2 (MsgClosed Expired) \<in> set out" if "x = Ok out" for out
    using x(3)[rule_format, OF that] s2 mb by (simp del: route_eq) (use s2 mb in force)
  with x show ?thesis by blast
qed

text \<open>
  After a successful emergency close the relay stays closed: in every later state of the
  run, every mailbox is one that existed at the time, it is terminal, and allocation is off.
\<close>

lemma emergency_close_is_final:
  assumes "start_ok E records sinv config s" and "relay_reach E config s r"
    and "emergency_close E now r = (Ok out, r1)" and "(relay_step E)\<^sup>*\<^sup>* r1 r2"
    and "bt_get (rl_mailboxes r2) i = Some mb"
  shows "bt_get (rl_mailboxes r) i \<noteq> None \<and> (\<exists>reason. mb_status mb = Terminal reason) \<and>
    \<not> rc_allocation_enabled (rl_config r2)"
proof -
  have I: "relay_inv E records sinv r" and law: "store_law E records sinv"
    using relay_reach_inv[OF assms(1,2)] assms(1) by (auto simp: start_ok_def)
  note C = emergency_close_spec[OF law I assms(3)]
  have I1: "relay_inv E records sinv r1" and off: "\<not> rc_allocation_enabled (rl_config r1)"
    using C by (auto simp: disable_allocation_def)
  note S = relay_steps_evolve[OF law I1 off assms(4)]
  obtain mb1 where mb1: "bt_get (rl_mailboxes r1) i = Some mb1" "is_terminal mb1 \<longrightarrow> mb = mb1"
    using S assms(5) by (auto simp: evolves_def)
  have "is_terminal mb" using C mb1 by auto
  moreover have "evolves (disable_allocation r) r1"
    using relay_step_evolves[OF disable_inv[OF I] _ relay_step.emergency[of E now "disable_allocation r" "Ok out" r1]]
      assms(3) by (simp add: disable_allocation_def emergency_close_def)
  then have "bt_get (rl_mailboxes r) i \<noteq> None"
    using mb1(1) by (auto simp: evolves_def disable_allocation_def)
  ultimately show ?thesis using S by (auto simp: is_terminal_def split: mailbox_status.splits)
qed

theorem emergency_close_is_final_witness:
  "\<exists>r'. emergency_close demo_env 15 demo_claimed =
     (Ok [route 1 (MsgClosed Closed), route 2 (MsgClosed Closed)], r') \<and> \<not> rc_allocation_enabled (rl_config r')"
proof -
  obtain r' where r': "emergency_close demo_env 15 demo_claimed =
      (Ok [route 1 (MsgClosed Closed), route 2 (MsgClosed Closed)], r')"
    "rl_mailboxes r' = [(demo_id, demo_closed_mailbox)]" using demo_emergency by blast
  have "bt_get (rl_mailboxes r') demo_id = Some demo_closed_mailbox" by (simp add: r'(2) bt_get_def)
  from emergency_close_is_final[OF demo_start_ok demo_claimed_reach r'(1) rtranclp.rtrancl_refl this] r'(1)
  show ?thesis by blast
qed

text \<open>
  A restart recovers: a relay started again over the store of a running relay with the
  in-memory adapter is accepted and holds exactly the same mailboxes, frames and byte account,
  with no connection attached.
\<close>

lemma restart_recovers:
  assumes "reads_back C" and "\<And>x. length (sha256 x) = 32" and "relay_config_typed config"
    and "relay_reach (memory_env C hmac sha256) config [] r"
  shows "\<exists>r'. with_store (memory_env C hmac sha256) config (rl_store r) = Ok r' \<and>
    bt_get (rl_mailboxes r') = bt_get (rl_mailboxes r) \<and> rl_queue_bytes r' = rl_queue_bytes r \<and>
    rl_connections r' = []"
proof -
  let ?E = "memory_env C hmac sha256" and ?rec = "memory_records C sha256" and ?inv = "memory_inv C sha256"
  have ok: "start_ok ?E ?rec ?inv config []"
    using memory_store_law[OF assms(1,2)] assms(3) by (simp add: start_ok_def)
  have law: "store_law ?E ?rec ?inv" using ok by (simp add: start_ok_def)
  have I: "relay_inv ?E ?rec ?inv r" and cfg: "same_settings config (rl_config r)" and acc: "accepted_config config"
    using relay_reach_inv[OF ok assms(4)] by blast+
  obtain mbs where "st_load (env_store ?E) (rl_store r) = (Ok mbs, rl_store r)"
    using memory_load_Ok[OF relay_invD(9)[OF I]] by (auto simp: memory_env_def memory_ops_def)
  from restart_spec[OF law I acc _ this assms(3)] cfg obtain r' where
    r': "with_store ?E config (rl_store r) = Ok r'" "relay_inv ?E ?rec ?inv r'"
      "bt_get (rl_mailboxes r') = bt_get (rl_mailboxes r)" "rl_connections r' = []"
    by (auto simp: same_settings_iff)
  have "rl_mailboxes r' = rl_mailboxes r"
    by (rule bt_ext[OF _ _ r'(3)])
      (use tables_wfD(1)[OF relay_invD(3)] I r'(2) in blast)+
  then have "rl_queue_bytes r' = rl_queue_bytes r"
    using tables_wfD(10)[OF relay_invD(3)[OF I]] tables_wfD(10)[OF relay_invD(3)[OF r'(2)]] by simp
  with r' show ?thesis by blast
qed

theorem restart_recovers_witness:
  "\<exists>r'. with_store demo_env demo_config (rl_store demo_claimed) = Ok r' \<and>
     bt_get (rl_mailboxes r') demo_id = Some demo_claimed_mailbox"
proof -
  have "relay_config_typed demo_config" using demo_start_ok by (simp add: start_ok_def)
  with restart_recovers[of demo_codec demo_digest demo_config demo_hmac demo_claimed] demo_reads length_demo_digest
    demo_claimed_reach
  obtain r' where "with_store demo_env demo_config (rl_store demo_claimed) = Ok r'"
    "bt_get (rl_mailboxes r') = bt_get (rl_mailboxes demo_claimed)" unfolding demo_env_def by blast
  then show ?thesis by (auto simp: demo_claimed_fields) (simp add: bt_get_def)
qed

text \<open>
  C32: A failed call changes nothing in the relay, whatever the store does. When the service, in
  a consistent state, reports an error, it is either a limiter failure, and only the
  limiter's own state differs, or exactly one call of the store was made, the store refused it,
  and apart from the limiter the relay holds what it held: mailboxes, nameplates, hashes, expiries,
  byte account, sessions and routes. No law of the store is used; what the refused call left
  behind is the store's answer to that one call.
\<close>

theorem failed_call_changes_nothing:
  assumes "relay_wf E r" and "handle E c addr now rnd m r = (Err e, r')"
  shows "\<exists>l. e = RelayLimiter \<and> r' = r\<lparr>rl_limiter := l\<rparr> \<or>
    e = RelayStorage \<and> (\<exists>s. r' = r\<lparr>rl_limiter := l, rl_store := s\<rparr> \<and> store_refused E (rl_store r) s)"
  using handle_fails_clean[OF relay_wf_accounts[OF assms(1)] assms(2)] .

text \<open>A store that refuses every write and loses what it held.\<close>

definition losing_env :: "memory_store relay_env" where
  "losing_env = demo_env\<lparr>env_store := (env_store demo_env)\<lparr>st_put := (\<lambda>s mb. (Err StoreIo, []))\<rparr>\<rparr>"

lemma losing_claim:
  "handle losing_env 2 demo_peer 13 demo_random2 (Claim (Nameplate 7)) demo_bound2 =
     (Err RelayStorage, demo_bound2\<lparr>rl_limiter := demo_limiter4, rl_store := []\<rparr>)"
proof -
  have env: "env_hmac losing_env = demo_hmac" "env_sha256 losing_env = demo_digest"
    "token_hash losing_env demo_token2 = demo_token2"
    "store_put losing_env mb r = (Err RelayStorage, r\<lparr>rl_store := []\<rparr>)" for mb and r :: "memory_store relay"
    using run_allocate(2)
    by (simp_all add: losing_env_def demo_env_def memory_env_def token_hash_def store_put_def)
  have "dispatch losing_env 2 13 demo_random2 (Claim (Nameplate 7)) (demo_bound2\<lparr>rl_limiter := l\<rparr>) =
      (Err RelayStorage, demo_bound2\<lparr>rl_limiter := l, rl_store := []\<rparr>)" for l
    by (simp add: dispatch_def relay_claim_def Let_def demo_bound2_fields demo_random2_def env session_of_def bt_get_def
        resolve_def token_hash_exists_def bs_contains_def with_transition_def demo_transitions commit_def)
      (simp add: demo_token_def demo_token2_def)
  then show ?thesis
    using demo_admitted(4) by (simp add: handle_def Let_def demo_bound2_fields env)
qed

theorem failed_call_changes_nothing_witness:
  "\<exists>r'. handle losing_env 2 demo_peer 13 demo_random2 (Claim (Nameplate 7)) demo_bound2 = (Err RelayStorage, r') \<and>
     rl_store demo_bound2 \<noteq> rl_store r' \<and> store_refused losing_env (rl_store demo_bound2) (rl_store r') \<and>
     rl_mailboxes r' = [(demo_id, demo_waiting)] \<and> rl_routes r' = rl_routes demo_bound2"
proof -
  have "relay_wf demo_env demo_bound2"
    using relay_reach_inv[OF demo_start_ok demo_bound2_reach] by (simp add: relay_inv_def)
  then have "relay_wf losing_env demo_bound2" by (simp add: relay_wf_def losing_env_def)
  from failed_call_changes_nothing[OF this losing_claim] obtain l s where
    r': "demo_bound2\<lparr>rl_limiter := demo_limiter4, rl_store := []\<rparr> = demo_bound2\<lparr>rl_limiter := l, rl_store := s\<rparr>"
    and refused: "store_refused losing_env (rl_store demo_bound2) s" by auto
  have "s = []" using arg_cong[OF r', of rl_store] by simp
  with losing_claim refused show ?thesis by (simp add: demo_bound2_fields)
qed

section \<open>Choosing nameplates\<close>

text \<open>
  The nameplate the relay proposes is the least positive one not in use; it reports that
  none is available only when all 999,999,999 are taken, and it never panics.
\<close>

lemma first_nameplate_is_least:
  assumes "start_ok E records sinv config s" and "relay_reach E config s r"
  shows "\<exists>res. first_available_nameplate r = Ok res \<and>
    (case res of
       Some n \<Rightarrow> 1 \<le> n \<and> n \<le> MAX_NAMEPLATE \<and> bt_get (rl_nameplates r) n = None \<and>
         (\<forall>k. 1 \<le> k \<and> k < n \<longrightarrow> (\<exists>i mb. bt_get (rl_mailboxes r) i = Some mb \<and> mb_nameplate mb = Some k))
     | None \<Rightarrow> (\<forall>k. 1 \<le> k \<and> k \<le> MAX_NAMEPLATE \<longrightarrow>
         (\<exists>i mb. bt_get (rl_mailboxes r) i = Some mb \<and> mb_nameplate mb = Some k)))"
proof -
  have I: "relay_inv E records sinv r" using relay_reach_inv[OF assms] by blast
  note T = tables_wfD[OF relay_invD(3)[OF I]]
  have used: "k \<in> set (bt_keys (rl_nameplates r)) \<longleftrightarrow>
      (\<exists>i mb. bt_get (rl_mailboxes r) i = Some mb \<and> mb_nameplate mb = Some k)" for k
    using bt.set_keys[OF T(2)] T(6) by auto
  have "k < u32_max" if k: "k \<in> set (bt_keys (rl_nameplates r))" for k
  proof -
    obtain i mb where "bt_get (rl_mailboxes r) i = Some mb" "mb_nameplate mb = Some k" using used k by blast
    then have "k \<le> MAX_NAMEPLATE" using T(5)[of i mb] by (simp add: mailbox_wf_def)
    then show ?thesis by (simp add: MAX_NAMEPLATE_def u32_max_def)
  qed
  then obtain n where n: "nameplate_candidate (bt_keys (rl_nameplates r)) 1 = Some n" "1 \<le> n"
    "n \<notin> set (bt_keys (rl_nameplates r))" "\<forall>k. 1 \<le> k \<and> k < n \<longrightarrow> k \<in> set (bt_keys (rl_nameplates r))"
    using nameplate_candidate_spec[of "bt_keys (rl_nameplates r)" 1] T(2)
    by (auto simp: bt_wf_def bt_keys_def)
  have "bt_get (rl_nameplates r) n = None" using n(3) bt.set_keys[OF T(2)] by auto
  with n used show ?thesis by (auto simp: first_available_nameplate_def)
qed

theorem first_nameplate_is_least_witness:
  "first_available_nameplate demo_allocated \<noteq> Panic"
  using first_nameplate_is_least[OF demo_start_ok run_reach] by auto

text \<open>
  Nameplate sampling is unbiased and returns: of the 32-bit candidates exactly four are
  accepted for each of the 1,000,000,000 nameplates, and as soon as the source of randomness
  yields an accepted candidate, after any number of rejected ones, its nameplate is returned
  and no further candidate is drawn.
\<close>

lemma nameplate_sampling:
  assumes "n < NAMEPLATE_RANGE"
    and "\<forall>i < k. \<exists>c. fst (f (after_draws f i g)) = Ok c \<and> NAMEPLATE_ACCEPTED \<le> c"
    and "fst (f (after_draws f k g)) = Ok c" and "c < NAMEPLATE_ACCEPTED"
  shows "card {c. c \<le> u32_max \<and> c < NAMEPLATE_ACCEPTED \<and> c mod NAMEPLATE_RANGE = n} = 4 \<and>
    sample_nameplate f g = Some (Ok (c mod NAMEPLATE_RANGE), after_draws f (Suc k) g)"
proof -
  have A: "NAMEPLATE_ACCEPTED = 4 * NAMEPLATE_RANGE"
    by (simp add: NAMEPLATE_ACCEPTED_def NAMEPLATE_RANGE_def u32_max_def)
  have "{c. c \<le> u32_max \<and> c < NAMEPLATE_ACCEPTED \<and> c mod NAMEPLATE_RANGE = n} =
      {c. c < 4 * NAMEPLATE_RANGE \<and> c mod NAMEPLATE_RANGE = n}"
    unfolding A by (auto simp: NAMEPLATE_RANGE_def u32_max_def)
  then show ?thesis using residue_preimages[OF assms(1), of 4] sample_returns[OF assms(2-4)] by simp
qed

theorem nameplate_sampling_witness:
  "sample_nameplate (\<lambda>g :: nat. (Ok (4000000001 - g), g + 1) :: (u32, unit) result \<times> nat) 0 = Some (Ok 999999999, 3)"
proof -
  let ?f = "\<lambda>g :: nat. (Ok (4000000001 - g), g + 1) :: (u32, unit) result \<times> nat"
  have d: "after_draws ?f i 0 = i" for i by (induction i) (simp_all add: after_draws_def)
  have "\<forall>i < 2. \<exists>c. fst (?f (after_draws ?f i 0)) = Ok c \<and> NAMEPLATE_ACCEPTED \<le> c"
    unfolding d by (auto simp: NAMEPLATE_ACCEPTED_def NAMEPLATE_RANGE_def u32_max_def)
  moreover have "fst (?f (after_draws ?f 2 0)) = Ok 3999999999" unfolding d by simp
  ultimately show ?thesis
    using nameplate_sampling[of 0 2 ?f 0 3999999999] unfolding d
    by (simp add: NAMEPLATE_ACCEPTED_def NAMEPLATE_RANGE_def u32_max_def)
qed

section \<open>An expired mailbox found by a claim\<close>

text \<open>
  A claim that runs into an expired mailbox removes it before it asks who is attached, so the
  allocator's connection loses its session and is not told; only the claiming connection hears
  of it. (A sweep, and every command of a member, asks first.)
\<close>

lemma expired_claim_is_silent:
  assumes law: "store_law E records sinv" and I: "relay_inv E records sinv r"
    and "session_of r c = None" "resolve r l = Some i" "\<not> token_hash_exists r (token_hash E tok)"
    and mb: "bt_get (rl_mailboxes r) i = Some mb" "mb_expires_at mb \<le> now" "\<not> is_terminal mb"
    and res: "relay_claim E c now tok l r = (Ok out, r')"
  shows "out = [route c (MsgClosed Expired)] \<and> (\<forall>d m. session_of r' d = Some m \<longrightarrow> sm_mailbox_id m \<noteq> i)"
proof -
  have wf: "mailbox_wf (env_sha256 E) mb" using tables_wfD(5)[OF relay_invD(3)[OF I] mb(1)] by blast
  let ?cmd = "CmdClaim (token_hash E tok)"
  obtain tr where tr: "transition (env_sha256 E) mb now ?cmd = Ok tr" "tr_state tr = None"
    "claimed_effect (tr_effects tr) = None" "terminal_effect (tr_effects tr) = Some Expired"
    using mb(2,3) by (auto simp: transition_def reap_def delete_bodies_Ok[OF mailbox_wf_queue[OF wf]]
        is_terminal_def clear_mailbox_def split: mailbox_status.splits)
  obtain x r1 where cm: "commit E i tr r = (x, r1)" by fastforce
  have fresh: "\<forall>h \<in> claim_hashes ?cmd. h \<notin> set (rl_membership_hashes r) \<and> length h = 32"
    using assms(5) token_hash_length[OF law] by (simp add: token_hash_exists_def bs_contains_def)
  note C = commit_inv[OF law I mb(1) tr(1) fresh _ cm]
  have step: "relay_claim E c now tok l r = bind_st (commit E i tr r) (\<lambda>_ r1.
      (Ok (deduplicate_routes (terminal_routes r1 i Expired @ [route c (MsgClosed Expired)])), r1))"
    using assms(3-5) mb(1) tr by (simp add: relay_claim_def Let_def with_transition_def)
  have ok: "x = Ok ()" "r' = r1" "out = deduplicate_routes (terminal_routes r1 i Expired @ [route c (MsgClosed Expired)])"
    using res step cm by (cases x; simp)+
  have s1: "sess (rl_connections r1) d = Some m \<Longrightarrow> sm_mailbox_id m \<noteq> i" for d m
    using C ok(1) tr(2) by auto
  have "relay_inv E records sinv r1" using C by simp
  then have "msg \<notin> set (terminal_routes r1 i Expired)" for msg
    using set_terminal_routes[OF relay_invD(4), of E records sinv r1 msg i Expired] s1 by blast
  then have "terminal_routes r1 i Expired = []" by (simp add: set_empty[symmetric] set_eq_iff del: set_empty)
  then show ?thesis using ok s1 by (simp add: deduplicate_routes_def session_of_sess)
qed

end
