(* ===== verification/Context.thy ===== *)
theory Context
  imports Wire
begin

text \<open>
  The CPace inputs of \<^verbatim>\<open>src/src/context.rs\<close>: the channel identifier, the public context of
  the secure channel and the two sides' associated data, each the canonical encoding of one
  array built from the invitation and the resolved mailbox identifier.
\<close>

definition CI_DOMAIN :: string where
  "CI_DOMAIN = ''cbcl-pairing-ci/v1''"

definition AD_DOMAIN :: string where
  "AD_DOMAIN = ''cbcl-pairing-ad/v1''"

definition CHANNEL_CONTEXT_DOMAIN :: string where
  "CHANNEL_CONTEXT_DOMAIN = ''cbcl-pairing-public-context/v1''"

record pairing_context =
  pc_channel_identifier :: bytes
  pc_channel_context :: bytes
  pc_session_id :: bytes
  pc_allocator_data :: bytes
  pc_claimant_data :: bytes

datatype context_error = CtxInvitation | CtxMailboxMismatch | CtxEncoding

definition ctx_canonical :: "codec \<Rightarrow> cbor \<Rightarrow> (bytes, context_error) result" where
  "ctx_canonical C v = ok_or CtxEncoding (cd_canonical C v)"

definition key_value :: "bytes option \<Rightarrow> cbor" where
  "key_value expected = (case expected of None \<Rightarrow> CNull | Some key \<Rightarrow> CBytes key)"

definition side_name :: "side \<Rightarrow> string" where
  "side_name s = (case s of SideAllocator \<Rightarrow> ''allocator'' | SideClaimant \<Rightarrow> ''claimant'')"

definition associated_data_value :: "side \<Rightarrow> bytes option \<Rightarrow> cbor" where
  "associated_data_value s expected_key =
     CArray [CText AD_DOMAIN, CText (side_name s), key_value expected_key]"

definition associated_data :: "codec \<Rightarrow> side \<Rightarrow> bytes option \<Rightarrow> (bytes, context_error) result" where
  "associated_data C s expected_key = ctx_canonical C (associated_data_value s expected_key)"

definition channel_identifier_value :: "invitation \<Rightarrow> bytes \<Rightarrow> cbor" where
  "channel_identifier_value i mailbox_id =
     CArray [CText CI_DOMAIN, CInteger 1, CText SUITE_ID, CText (inv_application i),
       CText (inv_relay_origin i), CBytes mailbox_id,
       CArray [CText ''allocator'', CText ''claimant'']]"

definition channel_context_value :: "invitation \<Rightarrow> bytes \<Rightarrow> cbor" where
  "channel_context_value i mailbox_id =
     CArray [CText CHANNEL_CONTEXT_DOMAIN, CInteger 1, CText SUITE_ID, CText (inv_application i),
       CText (inv_relay_origin i), CBytes mailbox_id,
       key_value (inv_expected_allocator_key i), key_value (inv_expected_claimant_key i)]"

definition derive :: "codec \<Rightarrow> invitation \<Rightarrow> bytes \<Rightarrow> (pairing_context, context_error) result" where
  "derive C i mailbox_id =
     bind_result (map_err (\<lambda>_. CtxInvitation) (encode_invitation C i)) (\<lambda>_.
     if (case inv_locator i of Direct expected \<Rightarrow> expected \<noteq> mailbox_id | Nameplate _ \<Rightarrow> False)
     then Err CtxMailboxMismatch
     else
       bind_result (ctx_canonical C (channel_identifier_value i mailbox_id)) (\<lambda>channel_identifier.
       bind_result (associated_data C SideAllocator (inv_expected_allocator_key i)) (\<lambda>ada.
       bind_result (associated_data C SideClaimant (inv_expected_claimant_key i)) (\<lambda>adb.
       bind_result (ctx_canonical C (channel_context_value i mailbox_id)) (\<lambda>channel_context.
         Ok \<lparr>pc_channel_identifier = channel_identifier, pc_channel_context = channel_context,
             pc_session_id = mailbox_id, pc_allocator_data = ada, pc_claimant_data = adb\<rparr>)))))"

definition context_associated_data :: "pairing_context \<Rightarrow> side \<Rightarrow> bytes" where
  "context_associated_data p s =
     (case s of SideAllocator \<Rightarrow> pc_allocator_data p | SideClaimant \<Rightarrow> pc_claimant_data p)"

lemma map_err_Err_iff: "map_err f r = Err e \<longleftrightarrow> (\<exists>d. r = Err d \<and> e = f d)"
  by (cases r) auto

lemma ctx_canonical_Ok [simp]: "ctx_canonical C v = Ok b \<longleftrightarrow> cd_canonical C v = Some b"
  by (simp add: ctx_canonical_def)

lemma derive_Ok:
  "derive C i mailbox_id = Ok p \<longleftrightarrow>
     (\<exists>bs. encode_invitation C i = Ok bs) \<and>
     (\<forall>expected. inv_locator i = Direct expected \<longrightarrow> expected = mailbox_id) \<and>
     cd_canonical C (channel_identifier_value i mailbox_id) = Some (pc_channel_identifier p) \<and>
     cd_canonical C (channel_context_value i mailbox_id) = Some (pc_channel_context p) \<and>
     cd_canonical C (associated_data_value SideAllocator (inv_expected_allocator_key i)) =
       Some (pc_allocator_data p) \<and>
     cd_canonical C (associated_data_value SideClaimant (inv_expected_claimant_key i)) =
       Some (pc_claimant_data p) \<and>
     pc_session_id p = mailbox_id"
  by (cases p, cases "inv_locator i") (auto simp: derive_def bind_result_Ok associated_data_def)

end
