(* ===== verification/Channel.thy ===== *)
theory Channel
  imports Context
begin

text \<open>
  The secure channel of \<^verbatim>\<open>src/src/channel.rs\<close>: the transcript hash, the key schedule, key
  confirmation, and sealing and opening of frames under one counter per direction. SHA-2,
  HKDF, HMAC and AES-256-GCM are outside the repository and are the fields of \<open>crypto\<close>.
  An operation on a channel returns its result together with the channel after the call.
\<close>

unbundle bit_operations_syntax

section \<open>The outside primitives\<close>

record aead =
  ae_encrypt :: "bytes \<Rightarrow> bytes \<Rightarrow> bytes \<Rightarrow> bytes option"
  ae_decrypt :: "bytes \<Rightarrow> bytes \<Rightarrow> bytes \<Rightarrow> bytes option"

record crypto =
  cr_sha256 :: "bytes \<Rightarrow> bytes"
  cr_sha512 :: "bytes \<Rightarrow> bytes"
  cr_hkdf :: "bytes \<Rightarrow> bytes \<Rightarrow> nat \<Rightarrow> bytes option"
  cr_hmac :: "bytes \<Rightarrow> (bytes \<Rightarrow> bytes) option"
  cr_cipher :: "bytes \<Rightarrow> aead option"

section \<open>State\<close>

definition MAX_SEALED_PLAINTEXT :: nat where
  "MAX_SEALED_PLAINTEXT = 69556"

datatype channel_error =
    FinishedMismatch
  | DirectionMismatch
  | CounterMismatch
  | InvalidTag
  | MessageSize
  | CounterExhausted
  | ChTerminal
  | UnexpectedFrame
  | ChEncoding
  | KeySchedule
  | Encryption
  | InvalidContext

record pending_secrets =
  key_allocator_to_claimant :: bytes
  key_claimant_to_allocator :: bytes
  iv_allocator_to_claimant :: bytes
  iv_claimant_to_allocator :: bytes
  ps_exporter :: bytes

record pending_channel =
  pn_local_side :: side
  pn_transcript_hash :: bytes
  pn_local_finished :: bytes
  pn_peer_finished :: bytes
  pn_secrets :: pending_secrets

record secure_channel =
  sc_local_side :: side
  sc_transcript_hash :: bytes
  sc_send_key :: bytes
  sc_receive_key :: bytes
  sc_send_iv :: bytes
  sc_receive_iv :: bytes
  sc_exporter :: bytes
  sc_next_send_counter :: "u64 option"
  sc_next_receive_counter :: "u64 option"
  sc_terminal :: bool

section \<open>Directions, nonces and additional data\<close>

definition direction_number :: "direction \<Rightarrow> u64" where
  "direction_number d = (case d of AllocatorToClaimant \<Rightarrow> 0 | ClaimantToAllocator \<Rightarrow> 1)"

definition send_direction :: "side \<Rightarrow> direction" where
  "send_direction s =
     (case s of SideAllocator \<Rightarrow> AllocatorToClaimant | SideClaimant \<Rightarrow> ClaimantToAllocator)"

definition receive_direction :: "side \<Rightarrow> direction" where
  "receive_direction s =
     (case s of SideAllocator \<Rightarrow> ClaimantToAllocator | SideClaimant \<Rightarrow> AllocatorToClaimant)"

text \<open>\<^verbatim>\<open>u64::to_be_bytes\<close>, and the same for a \<open>k\<close>-octet integer.\<close>

fun be_bytes :: "nat \<Rightarrow> nat \<Rightarrow> bytes" where
  "be_bytes 0 n = []"
| "be_bytes (Suc k) n = be_bytes k (n div 256) @ [of_nat (n mod 256)]"

definition derive_nonce :: "bytes \<Rightarrow> u64 \<Rightarrow> bytes" where
  "derive_nonce iv counter =
     take 4 iv @ map (\<lambda>(nonce_byte, counter_byte). nonce_byte XOR counter_byte)
       (zip (drop 4 iv) (be_bytes 8 counter))"

definition aad_value :: "direction \<Rightarrow> u64 \<Rightarrow> bytes \<Rightarrow> cbor" where
  "aad_value d counter transcript_hash = cmap
     [(''v'', CInteger 1), (''direction'', CInteger (int (direction_number d))),
      (''counter'', CInteger (int counter)), (''th'', CBytes transcript_hash)]"

definition sealed_aad :: "codec \<Rightarrow> direction \<Rightarrow> u64 \<Rightarrow> bytes \<Rightarrow> (bytes, channel_error) result" where
  "sealed_aad C d counter transcript_hash =
     ok_or ChEncoding (cd_canonical C (aad_value d counter transcript_hash))"

section \<open>Key schedule\<close>

definition transcript_value :: "bytes \<Rightarrow> bytes \<Rightarrow> bytes \<Rightarrow> cbor" where
  "transcript_value public_context allocator_frame claimant_frame =
     CArray [CBytes public_context, CBytes allocator_frame, CBytes claimant_frame]"

definition calculate_transcript_hash ::
  "codec \<Rightarrow> crypto \<Rightarrow> bytes \<Rightarrow> bytes \<Rightarrow> bytes \<Rightarrow> (bytes, channel_error) result" where
  "calculate_transcript_hash C X public_context allocator_frame claimant_frame =
     bind_result
       (ok_or ChEncoding (cd_canonical C (transcript_value public_context allocator_frame claimant_frame)))
       (\<lambda>transcript. Ok (cr_sha512 X transcript))"

definition expand :: "crypto \<Rightarrow> bytes \<Rightarrow> nat \<Rightarrow> string \<Rightarrow> bytes \<Rightarrow> (bytes, channel_error) result" where
  "expand X isk len label transcript_hash =
     ok_or KeySchedule (cr_hkdf X isk (ascii label @ transcript_hash) len)"

definition finished :: "crypto \<Rightarrow> bytes \<Rightarrow> string \<Rightarrow> bytes \<Rightarrow> (bytes, channel_error) result" where
  "finished X key label transcript_hash =
     bind_result (ok_or KeySchedule (cr_hmac X key)) (\<lambda>mac.
       Ok (mac (ascii label @ transcript_hash)))"

definition new_pending ::
  "codec \<Rightarrow> crypto \<Rightarrow> side \<Rightarrow> bytes \<Rightarrow> bytes \<Rightarrow> bytes \<Rightarrow> bytes \<Rightarrow> (pending_channel, channel_error) result" where
  "new_pending C X local_side isk public_context allocator_frame claimant_frame =
     bind_result (calculate_transcript_hash C X public_context allocator_frame claimant_frame) (\<lambda>th.
     bind_result (expand X isk 32 ''pairing-v1 kc A'' th) (\<lambda>kc_allocator.
     bind_result (expand X isk 32 ''pairing-v1 kc B'' th) (\<lambda>kc_claimant.
     bind_result (finished X kc_allocator ''pairing-v1 finished A'' th) (\<lambda>allocator_finished.
     bind_result (finished X kc_claimant ''pairing-v1 finished B'' th) (\<lambda>claimant_finished.
     bind_result (expand X isk 32 ''pairing-v1 key A-B'' th) (\<lambda>key_ab.
     bind_result (expand X isk 32 ''pairing-v1 key B-A'' th) (\<lambda>key_ba.
     bind_result (expand X isk 12 ''pairing-v1 iv A-B'' th) (\<lambda>iv_ab.
     bind_result (expand X isk 12 ''pairing-v1 iv B-A'' th) (\<lambda>iv_ba.
     bind_result (expand X isk 32 ''pairing-v1 exporter'' th) (\<lambda>exporter.
       let (local, peer) = (case local_side of
             SideAllocator \<Rightarrow> (allocator_finished, claimant_finished)
           | SideClaimant \<Rightarrow> (claimant_finished, allocator_finished))
       in Ok \<lparr>pn_local_side = local_side, pn_transcript_hash = th,
              pn_local_finished = local, pn_peer_finished = peer,
              pn_secrets = \<lparr>key_allocator_to_claimant = key_ab, key_claimant_to_allocator = key_ba,
                 iv_allocator_to_claimant = iv_ab, iv_claimant_to_allocator = iv_ba,
                 ps_exporter = exporter\<rparr>\<rparr>))))))))))"

definition new_pairing ::
  "codec \<Rightarrow> crypto \<Rightarrow> side \<Rightarrow> bytes \<Rightarrow> invitation \<Rightarrow> bytes \<Rightarrow> bytes \<Rightarrow> bytes \<Rightarrow>
     (pending_channel, channel_error) result" where
  "new_pairing C X local_side isk i mailbox_id allocator_frame claimant_frame =
     bind_result (map_err (\<lambda>_. InvalidContext) (derive C i mailbox_id)) (\<lambda>ctx.
       new_pending C X local_side isk (pc_channel_context ctx) allocator_frame claimant_frame)"

section \<open>Key confirmation\<close>

definition confirm :: "pending_channel \<Rightarrow> bytes \<Rightarrow> (secure_channel, channel_error) result" where
  "confirm p peer_finished =
     (if length peer_finished \<noteq> 64 \<or> pn_peer_finished p \<noteq> peer_finished then Err FinishedMismatch
      else
        let s = pn_secrets p;
            (send_key, receive_key, send_iv, receive_iv) =
              (case pn_local_side p of
                 SideAllocator \<Rightarrow>
                   (key_allocator_to_claimant s, key_claimant_to_allocator s,
                    iv_allocator_to_claimant s, iv_claimant_to_allocator s)
               | SideClaimant \<Rightarrow>
                   (key_claimant_to_allocator s, key_allocator_to_claimant s,
                    iv_claimant_to_allocator s, iv_allocator_to_claimant s))
        in Ok \<lparr>sc_local_side = pn_local_side p, sc_transcript_hash = pn_transcript_hash p,
               sc_send_key = send_key, sc_receive_key = receive_key, sc_send_iv = send_iv,
               sc_receive_iv = receive_iv, sc_exporter = ps_exporter s,
               sc_next_send_counter = Some 0, sc_next_receive_counter = Some 0,
               sc_terminal = False\<rparr>)"

section \<open>Sealing and opening\<close>

definition channel_fail :: "secure_channel \<Rightarrow> channel_error \<Rightarrow> ('a, channel_error) result \<times> secure_channel" where
  "channel_fail ch e = (Err e, ch\<lparr>sc_terminal := True\<rparr>)"

definition seal :: "codec \<Rightarrow> crypto \<Rightarrow> secure_channel \<Rightarrow> bytes \<Rightarrow> (channel_frame, channel_error) result \<times> secure_channel" where
  "seal C X ch plaintext =
     (if sc_terminal ch then (Err ChTerminal, ch)
      else if plaintext = [] \<or> length plaintext > MAX_SEALED_PLAINTEXT then (Err MessageSize, ch)
      else bind_st (ok_or CounterExhausted (sc_next_send_counter ch), ch) (\<lambda>counter ch.
        let d = send_direction (sc_local_side ch) in
        bind_st (sealed_aad C d counter (sc_transcript_hash ch), ch) (\<lambda>aad ch.
        let nonce = derive_nonce (sc_send_iv ch) counter in
        bind_st (ok_or Encryption (cr_cipher X (sc_send_key ch)), ch) (\<lambda>cipher ch.
        bind_st (ok_or Encryption (ae_encrypt cipher nonce plaintext aad), ch) (\<lambda>ciphertext ch.
          (Ok (Sealed d counter ciphertext),
           ch\<lparr>sc_next_send_counter := checked_add_u64 counter 1\<rparr>))))))"

definition open_sealed :: "codec \<Rightarrow> crypto \<Rightarrow> secure_channel \<Rightarrow> channel_frame \<Rightarrow> (bytes, channel_error) result \<times> secure_channel" where
  "open_sealed C X ch frame =
     (if sc_terminal ch then (Err ChTerminal, ch)
      else case frame of
        Sealed d counter ciphertext \<Rightarrow>
          (if d \<noteq> receive_direction (sc_local_side ch) then channel_fail ch DirectionMismatch
           else case sc_next_receive_counter ch of
             None \<Rightarrow> channel_fail ch CounterExhausted
           | Some expected_counter \<Rightarrow>
               if counter \<noteq> expected_counter then channel_fail ch CounterMismatch
               else if \<not> (17 \<le> length ciphertext \<and> length ciphertext \<le> MAX_SEALED_PLAINTEXT + 16)
               then channel_fail ch MessageSize
               else
                 bind_st (sealed_aad C d counter (sc_transcript_hash ch), ch) (\<lambda>aad ch.
                 let nonce = derive_nonce (sc_receive_iv ch) counter in
                 bind_st (ok_or Encryption (cr_cipher X (sc_receive_key ch)), ch) (\<lambda>cipher ch.
                 case ae_decrypt cipher nonce ciphertext aad of
                   None \<Rightarrow> channel_fail ch InvalidTag
                 | Some plaintext \<Rightarrow>
                     (Ok plaintext, ch\<lparr>sc_next_receive_counter := checked_add_u64 counter 1\<rparr>))))
      | _ \<Rightarrow> channel_fail ch UnexpectedFrame)"

end
