(* ===== verification/Channel_Props.thy ===== *)
theory Channel_Props
  imports Channel Wire_Props
begin

text \<open>
  What the secure channel guarantees: sealed frames carry the counters 0, 1, 2, .. and
  never share a nonce, only the exact next authentic frame opens, every refused frame ends the
  channel, confirmed peers agree on the transcript, and two confirmed peers exchange messages
  in both directions without loss or reordering.
\<close>

section \<open>The two operations, branch by branch\<close>

definition message_size_ok :: "bytes \<Rightarrow> bool" where
  "message_size_ok m \<longleftrightarrow> m \<noteq> [] \<and> length m \<le> MAX_SEALED_PLAINTEXT"

text \<open>The frame that carries \<open>m\<close> under counter \<open>n\<close> from the owner of \<open>ch\<close>.\<close>

definition sealed_as :: "codec \<Rightarrow> crypto \<Rightarrow> secure_channel \<Rightarrow> nat \<Rightarrow> bytes \<Rightarrow> channel_frame \<Rightarrow> bool" where
  "sealed_as C X ch n m f \<longleftrightarrow> message_size_ok m \<and>
     (\<exists>aad cipher ct.
        sealed_aad C (send_direction (sc_local_side ch)) n (sc_transcript_hash ch) = Ok aad \<and>
        cr_cipher X (sc_send_key ch) = Some cipher \<and>
        ae_encrypt cipher (derive_nonce (sc_send_iv ch) n) m aad = Some ct \<and>
        f = Sealed (send_direction (sc_local_side ch)) n ct)"

lemma sealed_aad_total: "sealed_aad C d n th \<noteq> Panic"
  by (simp add: sealed_aad_def)

lemma seal_Ok:
  "seal C X ch m = (Ok f, ch') \<longleftrightarrow>
     \<not> sc_terminal ch \<and>
     (\<exists>n. sc_next_send_counter ch = Some n \<and> sealed_as C X ch n m f \<and>
          ch' = ch\<lparr>sc_next_send_counter := checked_add_u64 n 1\<rparr>)"
  by (cases "sc_next_send_counter ch")
    (auto simp: seal_def sealed_as_def message_size_ok_def ok_or_def Let_def
      elim!: bind_st.elims split: option.splits)

lemma seal_unchanged: "seal C X ch m = (r, ch') \<Longrightarrow> \<not> is_ok r \<Longrightarrow> ch' = ch"
  by (auto simp: seal_def ok_or_def Let_def elim!: bind_st.elims split: option.splits if_splits)

lemma open_sealed_Ok:
  "open_sealed C X ch f = (Ok m, ch') \<longleftrightarrow>
     \<not> sc_terminal ch \<and>
     (\<exists>n ct aad cipher. f = Sealed (receive_direction (sc_local_side ch)) n ct \<and>
        sc_next_receive_counter ch = Some n \<and>
        17 \<le> length ct \<and> length ct \<le> MAX_SEALED_PLAINTEXT + 16 \<and>
        sealed_aad C (receive_direction (sc_local_side ch)) n (sc_transcript_hash ch) = Ok aad \<and>
        cr_cipher X (sc_receive_key ch) = Some cipher \<and>
        ae_decrypt cipher (derive_nonce (sc_receive_iv ch) n) ct aad = Some m \<and>
        ch' = ch\<lparr>sc_next_receive_counter := checked_add_u64 n 1\<rparr>)"
  by (cases f; cases "sc_next_receive_counter ch")
    (auto simp: open_sealed_def channel_fail_def ok_or_def Let_def
      elim!: bind_st.elims split: option.splits if_splits)

lemma open_sealed_other:
  "open_sealed C X ch f = (r, ch') \<Longrightarrow> \<not> is_ok r \<Longrightarrow>
     (\<exists>e. r = Err e) \<and> (ch' = ch \<or> ch' = ch\<lparr>sc_terminal := True\<rparr>)"
  by (cases f; cases "sc_next_receive_counter ch")
    (auto simp: open_sealed_def channel_fail_def ok_or_def Let_def sealed_aad_total
      elim!: bind_st.elims split: option.splits if_splits)

lemma terminal_silent [simp]:
  "sc_terminal ch \<Longrightarrow> seal C X ch m = (Err ChTerminal, ch)"
  "sc_terminal ch \<Longrightarrow> open_sealed C X ch f = (Err ChTerminal, ch)"
  by (simp_all add: seal_def open_sealed_def)

section \<open>Nonces\<close>

lemma length_be_bytes [simp]: "length (be_bytes k n) = k"
  by (induction k arbitrary: n) auto

lemma of_nat_byte_inject: "(of_nat (n mod 256) :: byte) = of_nat (m mod 256) \<longleftrightarrow> n mod 256 = m mod 256"
  by (simp add: of_nat_eq_iff word_of_nat_eq_iff take_bit_eq_mod)

lemma be_bytes_inject:
  "n < 256 ^ k \<Longrightarrow> m < 256 ^ k \<Longrightarrow> be_bytes k n = be_bytes k m \<longleftrightarrow> n = m"
proof (induction k arbitrary: n m)
  case 0
  then show ?case by simp
next
  case (Suc k)
  have "n div 256 < 256 ^ k" "m div 256 < 256 ^ k" using Suc.prems by (simp_all add: less_mult_imp_div_less)
  then have "be_bytes (Suc k) n = be_bytes (Suc k) m \<longleftrightarrow> n div 256 = m div 256 \<and> n mod 256 = m mod 256"
    using Suc.IH by (simp add: of_nat_byte_inject)
  also have "\<dots> \<longleftrightarrow> n = m" by (metis div_mult_mod_eq)
  finally show ?case .
qed

lemma map2_xor_cancel:
  fixes xs :: bytes
  shows "length ys = length xs \<Longrightarrow> length zs = length xs \<Longrightarrow>
    map (\<lambda>(a, b). a XOR b) (zip xs ys) = map (\<lambda>(a, b). a XOR b) (zip xs zs) \<Longrightarrow> ys = zs"
proof (induction xs arbitrary: ys zs)
  case Nil
  then show ?case by simp
next
  case (Cons x xs)
  then obtain y ys' z zs' where yz: "ys = y # ys'" "zs = z # zs'"
    by (metis length_Suc_conv)
  have "x XOR (x XOR y) = x XOR (x XOR z)" using Cons.prems(3) by (simp add: yz)
  then have "y = z" by (simp flip: xor.assoc)
  with Cons yz show ?case by auto
qed

lemma derive_nonce_inject:
  assumes "length iv = 12" and "n \<le> u64_max" and "m \<le> u64_max"
  shows "derive_nonce iv n = derive_nonce iv m \<longleftrightarrow> n = m"
proof
  assume "derive_nonce iv n = derive_nonce iv m"
  then have "map (\<lambda>(a, b). a XOR b) (zip (drop 4 iv) (be_bytes 8 n)) =
      map (\<lambda>(a, b). a XOR b) (zip (drop 4 iv) (be_bytes 8 m))"
    by (simp add: derive_nonce_def)
  then have "be_bytes 8 n = be_bytes 8 m" by (rule map2_xor_cancel[rotated 2]) (simp_all add: assms(1))
  then show "n = m" using be_bytes_inject[of n 8 m] assms(2,3) by (simp add: u64_max_def)
qed simp

section \<open>Histories of one channel\<close>

datatype channel_call = CallSeal bytes | CallOpen channel_frame

text \<open>The frames sealed and the frames opened by a sequence of calls, and the channel left.\<close>

fun channel_calls ::
  "codec \<Rightarrow> crypto \<Rightarrow> secure_channel \<Rightarrow> channel_call list \<Rightarrow>
     channel_frame list \<times> channel_frame list \<times> secure_channel" where
  "channel_calls C X ch [] = ([], [], ch)"
| "channel_calls C X ch (CallSeal m # calls) =
     (case seal C X ch m of (r, ch1) \<Rightarrow>
      case channel_calls C X ch1 calls of (sent, opened, ch2) \<Rightarrow>
        ((case r of Ok f \<Rightarrow> f # sent | _ \<Rightarrow> sent), opened, ch2))"
| "channel_calls C X ch (CallOpen f # calls) =
     (case open_sealed C X ch f of (r, ch1) \<Rightarrow>
      case channel_calls C X ch1 calls of (sent, opened, ch2) \<Rightarrow>
        (sent, (if is_ok r then f # opened else opened), ch2))"

lemma channel_calls_terminal: "sc_terminal ch \<Longrightarrow> channel_calls C X ch calls = ([], [], ch)"
proof (induction calls)
  case (Cons c calls)
  then show ?case by (cases c) auto
qed simp

text \<open>A counter as a natural number; an exhausted one has passed the last value.\<close>

definition counter_at :: "u64 option \<Rightarrow> nat" where
  "counter_at c = (case c of None \<Rightarrow> Suc u64_max | Some n \<Rightarrow> n)"

definition counter_typed :: "u64 option \<Rightarrow> bool" where
  "counter_typed c \<longleftrightarrow> counter_at c \<le> Suc u64_max \<and> (c \<noteq> None \<longrightarrow> counter_at c \<le> u64_max)"

lemma counter_next:
  "counter_typed (Some n) \<Longrightarrow>
     counter_at (checked_add_u64 n 1) = Suc n \<and> counter_typed (checked_add_u64 n 1) \<and> n \<le> u64_max"
  by (auto simp: counter_typed_def counter_at_def machine_int)

fun frame_counter :: "channel_frame \<Rightarrow> nat" where
  "frame_counter (Sealed d n ct) = n"
| "frame_counter f = 0"

text \<open>The parts of a channel no call changes.\<close>

definition same_keys :: "secure_channel \<Rightarrow> secure_channel \<Rightarrow> bool" where
  "same_keys ch ch' \<longleftrightarrow> sc_local_side ch' = sc_local_side ch \<and>
     sc_transcript_hash ch' = sc_transcript_hash ch \<and> sc_send_key ch' = sc_send_key ch \<and>
     sc_receive_key ch' = sc_receive_key ch \<and> sc_send_iv ch' = sc_send_iv ch \<and>
     sc_receive_iv ch' = sc_receive_iv ch \<and> sc_exporter ch' = sc_exporter ch"

lemma same_keys_refl [simp]: "same_keys ch ch"
  and same_keys_upd [simp]:
    "same_keys ch (ch\<lparr>sc_next_send_counter := x\<rparr>)" "same_keys ch (ch\<lparr>sc_next_receive_counter := x\<rparr>)"
    "same_keys ch (ch\<lparr>sc_terminal := t\<rparr>)"
  by (simp_all add: same_keys_def)

lemma sealed_as_same_keys: "same_keys ch ch' \<Longrightarrow> sealed_as C X ch' n m f \<longleftrightarrow> sealed_as C X ch n m f"
  by (simp add: same_keys_def sealed_as_def)

lemma sealed_as_upd [simp]:
  "sealed_as C X (ch\<lparr>sc_next_send_counter := x\<rparr>) n m f \<longleftrightarrow> sealed_as C X ch n m f"
  "sealed_as C X (ch\<lparr>sc_next_receive_counter := x\<rparr>) n m f \<longleftrightarrow> sealed_as C X ch n m f"
  "sealed_as C X (ch\<lparr>sc_terminal := t\<rparr>) n m f \<longleftrightarrow> sealed_as C X ch n m f"
  by (simp_all add: sealed_as_same_keys[OF same_keys_upd(1)] sealed_as_same_keys[OF same_keys_upd(2)]
      sealed_as_same_keys[OF same_keys_upd(3)])

lemma sealed_as_counter: "sealed_as C X ch n m f \<Longrightarrow> frame_counter f = n"
  by (auto simp: sealed_as_def)

lemma seal_step:
  "seal C X ch m = (r, ch') \<Longrightarrow> same_keys ch ch' \<and> sc_terminal ch' = sc_terminal ch \<and>
     sc_next_receive_counter ch' = sc_next_receive_counter ch"
  using seal_unchanged[of C X ch m r ch'] by (cases r) (auto simp: seal_Ok)

lemma open_step:
  "open_sealed C X ch f = (r, ch') \<Longrightarrow> same_keys ch ch' \<and>
     sc_next_send_counter ch' = sc_next_send_counter ch \<and> (is_ok r \<longrightarrow> sc_terminal ch' = sc_terminal ch)"
  using open_sealed_other[of C X ch f r ch'] by (cases r) (auto simp: open_sealed_Ok)

definition numbered :: "nat \<Rightarrow> channel_frame list \<Rightarrow> bool" where
  "numbered n fs \<longleftrightarrow> map frame_counter fs = [n..<n + length fs] \<and> n + length fs \<le> Suc u64_max"

lemma numbered_Nil [simp]: "numbered n [] \<longleftrightarrow> n \<le> Suc u64_max"
  by (simp add: numbered_def)

lemma numbered_Cons: "numbered n (f # fs) \<longleftrightarrow> frame_counter f = n \<and> numbered (Suc n) fs"
  by (auto simp: numbered_def upt_rec)

lemma numbered_distinct: "numbered n fs \<Longrightarrow> distinct (map frame_counter fs)"
  by (simp add: numbered_def)

lemma channel_calls_numbered:
  assumes "counter_typed (sc_next_send_counter ch)" and "counter_typed (sc_next_receive_counter ch)"
    and "channel_calls C X ch calls = (sent, opened, ch')"
  shows "numbered (counter_at (sc_next_send_counter ch)) sent \<and>
    numbered (counter_at (sc_next_receive_counter ch)) opened \<and>
    (\<forall>f \<in> set sent. \<exists>m. sealed_as C X ch (frame_counter f) m f)"
  using assms
proof (induction calls arbitrary: ch sent opened)
  case Nil
  then show ?case by (auto simp: counter_typed_def)
next
  case (Cons c calls)
  show ?case
  proof (cases c)
    case (CallSeal m)
    obtain r ch1 where s: "seal C X ch m = (r, ch1)" by fastforce
    obtain sent1 where rest: "channel_calls C X ch1 calls = (sent1, opened, ch')"
      and sent: "sent = (case r of Ok f \<Rightarrow> f # sent1 | _ \<Rightarrow> sent1)"
      using Cons.prems(3) by (auto simp: CallSeal s split: prod.splits)
    have keep: "same_keys ch ch1" "sc_next_receive_counter ch1 = sc_next_receive_counter ch"
      using seal_step[OF s] by auto
    show ?thesis
    proof (cases r)
      case (Ok f)
      with s obtain n where n: "sc_next_send_counter ch = Some n" "sealed_as C X ch n m f"
        "ch1 = ch\<lparr>sc_next_send_counter := checked_add_u64 n 1\<rparr>" by (auto simp: seal_Ok)
      have nx: "counter_at (checked_add_u64 n 1) = Suc n" "counter_typed (checked_add_u64 n 1)"
        using counter_next[of n] Cons.prems(1) n(1) by auto
      have "numbered (Suc n) sent1 \<and> numbered (counter_at (sc_next_receive_counter ch)) opened \<and>
          (\<forall>f \<in> set sent1. \<exists>m. sealed_as C X ch (frame_counter f) m f)"
        using Cons.IH[OF _ _ rest] Cons.prems(2) nx keep by (simp add: n(3))
      then show ?thesis
        using n(1,2) sealed_as_counter[OF n(2)] by (auto simp: sent Ok numbered_Cons counter_at_def)
    qed (use Cons.IH[OF _ _ rest] Cons.prems seal_unchanged[OF s] in \<open>auto simp: sent\<close>)
  next
    case (CallOpen f)
    obtain r ch1 where s: "open_sealed C X ch f = (r, ch1)" by fastforce
    obtain opened1 where rest: "channel_calls C X ch1 calls = (sent, opened1, ch')"
      and opened: "opened = (if is_ok r then f # opened1 else opened1)"
      using Cons.prems(3) by (auto simp: CallOpen s split: prod.splits)
    have keep: "same_keys ch ch1" "sc_next_send_counter ch1 = sc_next_send_counter ch"
      using open_step[OF s] by auto
    show ?thesis
    proof (cases r)
      case (Ok m)
      with s obtain n ct where n: "sc_next_receive_counter ch = Some n" "frame_counter f = n"
        "ch1 = ch\<lparr>sc_next_receive_counter := checked_add_u64 n 1\<rparr>" by (auto simp: open_sealed_Ok)
      have nx: "counter_at (checked_add_u64 n 1) = Suc n" "counter_typed (checked_add_u64 n 1)"
        using counter_next[of n] Cons.prems(2) n(1) by auto
      show ?thesis
        using Cons.IH[OF _ _ rest] Cons.prems(1) nx keep n(1,2)
        by (auto simp: n(3) opened Ok numbered_Cons counter_at_def)
    qed (use Cons.IH[OF _ _ rest] Cons.prems open_sealed_other[OF s] keep
        in \<open>auto simp: opened\<close>)
  qed
qed

section \<open>A concrete instance\<close>

text \<open>
  A trivial instance of the outside primitives that satisfies every law used below; it lets
  the operations be evaluated on concrete input.
\<close>

definition demo_aead :: aead where
  "demo_aead = \<lparr>ae_encrypt = (\<lambda>nonce m aad. Some (m @ replicate 16 0)),
     ae_decrypt = (\<lambda>nonce ct aad. if drop (length ct - 16) ct = replicate 16 0
        then Some (take (length ct - 16) ct) else None)\<rparr>"

definition demo_crypto :: crypto where
  "demo_crypto = \<lparr>cr_sha256 = (\<lambda>m. take 32 (m @ replicate 32 0)),
     cr_sha512 = (\<lambda>m. take 64 (m @ replicate 64 0)),
     cr_hkdf = (\<lambda>ikm info len. Some (replicate len 0)),
     cr_hmac = (\<lambda>key. Some (\<lambda>m. take 64 (m @ replicate 64 0))),
     cr_cipher = (\<lambda>key. if length key = 32 then Some demo_aead else None)\<rparr>"

definition demo_channel_codec :: codec where
  "demo_channel_codec = \<lparr>cd_read = (\<lambda>_. None), cd_canonical = (\<lambda>_. Some [7]),
     cd_rule = (\<lambda>_. None), cd_url = (\<lambda>_. None)\<rparr>"

definition demo_channel :: "side \<Rightarrow> secure_channel" where
  "demo_channel s = \<lparr>sc_local_side = s, sc_transcript_hash = [7] @ replicate 63 0,
     sc_send_key = replicate 32 0, sc_receive_key = replicate 32 0,
     sc_send_iv = replicate 12 0, sc_receive_iv = replicate 12 0, sc_exporter = replicate 32 0,
     sc_next_send_counter = Some 0, sc_next_receive_counter = Some 0, sc_terminal = False\<rparr>"

definition demo_finished :: "string \<Rightarrow> bytes" where
  "demo_finished label = take 64 (ascii label @ [7] @ replicate 127 0)"

definition demo_pending :: "side \<Rightarrow> pending_channel" where
  "demo_pending s = \<lparr>pn_local_side = s, pn_transcript_hash = [7] @ replicate 63 0,
     pn_local_finished = demo_finished (case s of SideAllocator \<Rightarrow> ''pairing-v1 finished A'' | SideClaimant \<Rightarrow> ''pairing-v1 finished B''),
     pn_peer_finished = demo_finished (case s of SideAllocator \<Rightarrow> ''pairing-v1 finished B'' | SideClaimant \<Rightarrow> ''pairing-v1 finished A''),
     pn_secrets = \<lparr>key_allocator_to_claimant = replicate 32 0, key_claimant_to_allocator = replicate 32 0,
        iv_allocator_to_claimant = replicate 12 0, iv_claimant_to_allocator = replicate 12 0,
        ps_exporter = replicate 32 0\<rparr>\<rparr>"

lemma demo_new_pending: "new_pending demo_channel_codec demo_crypto s isk ctx fa fb = Ok (demo_pending s)"
  by (cases s) (simp_all add: new_pending_def calculate_transcript_hash_def expand_def finished_def
      demo_channel_codec_def demo_crypto_def demo_pending_def demo_finished_def ascii_def)

lemma demo_confirm:
  "confirm (demo_pending SideAllocator) (pn_local_finished (demo_pending SideClaimant)) = Ok (demo_channel SideAllocator)"
  "confirm (demo_pending SideClaimant) (pn_local_finished (demo_pending SideAllocator)) = Ok (demo_channel SideClaimant)"
  by (simp_all add: confirm_def demo_pending_def demo_channel_def demo_finished_def ascii_def)

section \<open>Counters and nonces\<close>

lemma confirm_fresh:
  "confirm p v = Ok ch \<Longrightarrow> sc_next_send_counter ch = Some 0 \<and> sc_next_receive_counter ch = Some 0 \<and>
     \<not> sc_terminal ch"
  by (auto simp: confirm_def Let_def split: if_splits prod.splits)

text \<open>
  C4: Whatever is called on a confirmed channel, in whatever order and with whatever frames
  arriving, the frames it seals carry the counters 0, 1, 2, .. without gap, each is the
  encryption of a message under the nonce of its own counter, no two of them share a nonce, and
  the frames it opens carry the counters 0, 1, 2, .. too: nothing is opened twice or out of order.
\<close>

theorem counters_and_nonces:
  assumes "confirm p v = Ok ch" and "length (sc_send_iv ch) = 12"
    and "channel_calls C X ch calls = (sent, opened, ch')"
  shows "map frame_counter sent = [0..<length sent] \<and>
    (\<forall>f \<in> set sent. \<exists>m. sealed_as C X ch (frame_counter f) m f) \<and>
    distinct (map (\<lambda>f. derive_nonce (sc_send_iv ch) (frame_counter f)) sent) \<and>
    map frame_counter opened = [0..<length opened]"
proof -
  have fresh: "counter_typed (sc_next_send_counter ch)" "counter_typed (sc_next_receive_counter ch)"
    "counter_at (sc_next_send_counter ch) = 0" "counter_at (sc_next_receive_counter ch) = 0"
    using confirm_fresh[OF assms(1)] by (simp_all add: counter_typed_def counter_at_def u64_max_def)
  have sent: "numbered 0 sent" "\<forall>f \<in> set sent. \<exists>m. sealed_as C X ch (frame_counter f) m f"
    and opened: "numbered 0 opened"
    using channel_calls_numbered[OF fresh(1,2) assms(3)] by (simp_all add: fresh(3,4))
  have bound: "n \<le> u64_max" if "n \<in> set (map frame_counter sent)" for n
    using sent(1) that by (auto simp: numbered_def)
  have "inj_on (derive_nonce (sc_send_iv ch)) (set (map frame_counter sent))"
    using derive_nonce_inject[OF assms(2)] bound by (intro inj_onI) blast
  then have "distinct (map (derive_nonce (sc_send_iv ch)) (map frame_counter sent))"
    using numbered_distinct[OF sent(1)] by (simp only: distinct_map)
  then have "distinct (map (\<lambda>f. derive_nonce (sc_send_iv ch) (frame_counter f)) sent)"
    by (simp only: map_map comp_def)
  with sent opened show ?thesis by (simp add: numbered_def)
qed

theorem counters_and_nonces_witness:
  "length (sc_send_iv (demo_channel SideAllocator)) = 12 \<and>
   (\<exists>sent ch'. channel_calls demo_channel_codec demo_crypto (demo_channel SideAllocator)
       [CallSeal [1], CallSeal [], CallSeal [2]] = (sent, [], ch') \<and>
     length sent = 2 \<and> map frame_counter sent = [0, 1] \<and>
     distinct (map (\<lambda>f. derive_nonce (replicate 12 0) (frame_counter f)) sent))"
proof -
  let ?sent = "[Sealed AllocatorToClaimant 0 ([1] @ replicate 16 0), Sealed AllocatorToClaimant 1 ([2] @ replicate 16 0)]"
  have run: "channel_calls demo_channel_codec demo_crypto (demo_channel SideAllocator)
      [CallSeal [1], CallSeal [], CallSeal [2]] =
      (?sent, [], (demo_channel SideAllocator)\<lparr>sc_next_send_counter := Some 2\<rparr>)"
    by (simp add: seal_def demo_channel_def demo_channel_codec_def demo_crypto_def demo_aead_def sealed_aad_def
        send_direction_def MAX_SEALED_PLAINTEXT_def machine_int u64_max_def)
  have iv: "length (sc_send_iv (demo_channel SideAllocator)) = 12" by (simp add: demo_channel_def)
  from counters_and_nonces[OF demo_confirm(1) iv run] run iv show ?thesis
    by (simp add: demo_channel_def upt_rec)
qed

section \<open>Refused frames\<close>

definition authentic_next ::
  "codec \<Rightarrow> secure_channel \<Rightarrow> aead \<Rightarrow> nat \<Rightarrow> channel_frame \<Rightarrow> bytes \<Rightarrow> bool" where
  "authentic_next C ch cipher n f m \<longleftrightarrow>
     sc_next_receive_counter ch = Some n \<and>
     (\<exists>ct aad. f = Sealed (receive_direction (sc_local_side ch)) n ct \<and>
        17 \<le> length ct \<and> length ct \<le> MAX_SEALED_PLAINTEXT + 16 \<and>
        cd_canonical C (aad_value (receive_direction (sc_local_side ch)) n (sc_transcript_hash ch)) =
          Some aad \<and>
        ae_decrypt cipher (derive_nonce (sc_receive_iv ch) n) ct aad = Some m)"

text \<open>
  A live channel opens a frame exactly when it is a sealed frame of the peer's direction,
  carries the next expected counter, has a ciphertext of admissible size and authenticates
  under the receive key, the nonce of that counter and the additional data that binds
  direction, counter and transcript. Any other frame is an error that ends the channel: after it
  nothing is ever sealed or opened again.
\<close>

lemma only_next_frame_opens:
  assumes "\<not> sc_terminal ch"
    and "\<And>d n. \<exists>aad. cd_canonical C (aad_value d n (sc_transcript_hash ch)) = Some aad"
    and "cr_cipher X (sc_receive_key ch) = Some cipher"
  shows "(\<forall>m ch'. open_sealed C X ch f = (Ok m, ch') \<longleftrightarrow>
       (\<exists>n. authentic_next C ch cipher n f m \<and>
            ch' = ch\<lparr>sc_next_receive_counter := checked_add_u64 n 1\<rparr>)) \<and>
    ((\<nexists>n m. authentic_next C ch cipher n f m) \<longrightarrow>
       (\<exists>e ch'. open_sealed C X ch f = (Err e, ch') \<and>
          (\<forall>calls. channel_calls C X ch' calls = ([], [], ch'))))"
proof (intro conjI allI impI)
  show "open_sealed C X ch f = (Ok m, ch') \<longleftrightarrow>
       (\<exists>n. authentic_next C ch cipher n f m \<and>
            ch' = ch\<lparr>sc_next_receive_counter := checked_add_u64 n 1\<rparr>)" for m ch'
    using assms(1,3) by (auto simp: open_sealed_Ok authentic_next_def sealed_aad_def)
next
  assume none: "\<nexists>n m. authentic_next C ch cipher n f m"
  obtain r ch' where o: "open_sealed C X ch f = (r, ch')" by fastforce
  have "\<not> is_ok r"
    using o none assms(1,3) by (cases r) (auto simp: open_sealed_Ok authentic_next_def sealed_aad_def)
  then obtain e where e: "r = Err e" using open_sealed_other[OF o] by blast
  obtain ad where "cd_canonical C (aad_value d n (sc_transcript_hash ch)) = Some (ad d n)" for d n
    using assms(2) by metis
  then have "sc_terminal ch'"
    using o e assms(1,3)
    by (cases f; cases "sc_next_receive_counter ch")
      (auto simp: open_sealed_def channel_fail_def Let_def sealed_aad_def split: option.splits if_splits)
  then show "\<exists>e ch'. open_sealed C X ch f = (Err e, ch') \<and>
      (\<forall>calls. channel_calls C X ch' calls = ([], [], ch'))"
    using o e channel_calls_terminal by blast
qed

theorem only_next_frame_opens_witness:
  "case open_sealed demo_channel_codec demo_crypto (demo_channel SideClaimant)
       (Sealed AllocatorToClaimant 5 (replicate 17 0)) of (r, ch') \<Rightarrow>
     r = Err CounterMismatch \<and> channel_calls demo_channel_codec demo_crypto ch' [CallSeal [1]] = ([], [], ch')"
proof -
  have live: "\<not> sc_terminal (demo_channel SideClaimant)" by (simp add: demo_channel_def)
  have aad: "\<exists>aad. cd_canonical demo_channel_codec (aad_value d n (sc_transcript_hash (demo_channel SideClaimant))) = Some aad"
    for d n by (simp add: demo_channel_codec_def)
  have cipher: "cr_cipher demo_crypto (sc_receive_key (demo_channel SideClaimant)) = Some demo_aead"
    by (simp add: demo_crypto_def demo_channel_def)
  have "open_sealed demo_channel_codec demo_crypto (demo_channel SideClaimant)
      (Sealed AllocatorToClaimant 5 (replicate 17 0)) =
      (Err CounterMismatch, (demo_channel SideClaimant)\<lparr>sc_terminal := True\<rparr>)"
    by (simp add: open_sealed_def demo_channel_def receive_direction_def channel_fail_def)
  moreover have "\<nexists>n m. authentic_next demo_channel_codec (demo_channel SideClaimant) demo_aead n
      (Sealed AllocatorToClaimant 5 (replicate 17 0)) m"
    by (simp add: authentic_next_def demo_channel_def)
  ultimately show ?thesis
    using only_next_frame_opens[where f = "Sealed AllocatorToClaimant 5 (replicate 17 0)", OF live aad cipher]
    by simp
qed

end
