(* ===== verification/Channel_Duplex.thy ===== *)
theory Channel_Duplex
  imports Channel_Props "HOL-Library.Sublist"
begin

text \<open>
  Two confirmed peers over an in-order transport. The locale \<open>transport\<close> states what a pair
  of endpoints promises each other and proves lossless in-order delivery once; sealing and
  opening are interpreted in it.
\<close>

section \<open>Lanes\<close>

record ('m, 'f) lane =
  ln_wire :: "'f list"
  ln_sent :: "'m list"
  ln_got :: "'m list"

record ('c, 'm, 'f) duplex =
  dx_a :: 'c
  dx_b :: 'c
  dx_ab :: "('m, 'f) lane"
  dx_ba :: "('m, 'f) lane"

datatype 'm duplex_action = SendA 'm | SendB 'm | RecvA | RecvB

definition lane_send ::
  "('c \<Rightarrow> 'm \<Rightarrow> ('f, 'e) result \<times> 'c) \<Rightarrow> 'c \<Rightarrow> 'm \<Rightarrow> ('m, 'f) lane \<Rightarrow> 'c \<times> ('m, 'f) lane" where
  "lane_send send c m l =
     (case send c m of
        (Ok f, c') \<Rightarrow> (c', l\<lparr>ln_wire := ln_wire l @ [f], ln_sent := ln_sent l @ [m]\<rparr>)
      | (_, c') \<Rightarrow> (c', l))"

definition lane_recv ::
  "('c \<Rightarrow> 'f \<Rightarrow> ('m, 'e) result \<times> 'c) \<Rightarrow> 'c \<Rightarrow> ('m, 'f) lane \<Rightarrow> 'c \<times> ('m, 'f) lane" where
  "lane_recv recv c l =
     (case ln_wire l of
        [] \<Rightarrow> (c, l)
      | f # fs \<Rightarrow>
          (case recv c f of
             (Ok m, c') \<Rightarrow> (c', l\<lparr>ln_wire := fs, ln_got := ln_got l @ [m]\<rparr>)
           | (_, c') \<Rightarrow> (c', l\<lparr>ln_wire := fs\<rparr>)))"

fun duplex_step ::
  "('c \<Rightarrow> 'm \<Rightarrow> ('f, 'e) result \<times> 'c) \<Rightarrow> ('c \<Rightarrow> 'f \<Rightarrow> ('m, 'e) result \<times> 'c) \<Rightarrow>
     'm duplex_action \<Rightarrow> ('c, 'm, 'f) duplex \<Rightarrow> ('c, 'm, 'f) duplex" where
  "duplex_step send recv (SendA m) d =
     (case lane_send send (dx_a d) m (dx_ab d) of (c, l) \<Rightarrow> d\<lparr>dx_a := c, dx_ab := l\<rparr>)"
| "duplex_step send recv (SendB m) d =
     (case lane_send send (dx_b d) m (dx_ba d) of (c, l) \<Rightarrow> d\<lparr>dx_b := c, dx_ba := l\<rparr>)"
| "duplex_step send recv RecvA d =
     (case lane_recv recv (dx_a d) (dx_ba d) of (c, l) \<Rightarrow> d\<lparr>dx_a := c, dx_ba := l\<rparr>)"
| "duplex_step send recv RecvB d =
     (case lane_recv recv (dx_b d) (dx_ab d) of (c, l) \<Rightarrow> d\<lparr>dx_b := c, dx_ab := l\<rparr>)"

definition duplex_run ::
  "('c \<Rightarrow> 'm \<Rightarrow> ('f, 'e) result \<times> 'c) \<Rightarrow> ('c \<Rightarrow> 'f \<Rightarrow> ('m, 'e) result \<times> 'c) \<Rightarrow>
     'm duplex_action list \<Rightarrow> ('c, 'm, 'f) duplex \<Rightarrow> ('c, 'm, 'f) duplex" where
  "duplex_run send recv acts d = fold (duplex_step send recv) acts d"

definition empty_lane :: "('m, 'f) lane" where
  "empty_lane = \<lparr>ln_wire = [], ln_sent = [], ln_got = []\<rparr>"

definition duplex_start :: "'c \<Rightarrow> 'c \<Rightarrow> ('c, 'm, 'f) duplex" where
  "duplex_start a b = \<lparr>dx_a = a, dx_b = b, dx_ab = empty_lane, dx_ba = empty_lane\<rparr>"

text \<open>
  \<open>linked s r ms fs\<close>: the frames \<open>fs\<close> on the way from \<open>s\<close> to \<open>r\<close> carry the messages
  \<open>ms\<close>, and \<open>r\<close> will accept them.
\<close>

locale transport =
  fixes send :: "'c \<Rightarrow> 'm \<Rightarrow> ('f, 'e) result \<times> 'c"
    and recv :: "'c \<Rightarrow> 'f \<Rightarrow> ('m, 'e) result \<times> 'c"
    and linked :: "'c \<Rightarrow> 'c \<Rightarrow> 'm list \<Rightarrow> 'f list \<Rightarrow> bool"
  assumes send_ok: "linked s r ms fs \<Longrightarrow> send s m = (Ok f, s') \<Longrightarrow> linked s' r (ms @ [m]) (fs @ [f])"
    and send_refused: "send s m = (x, s') \<Longrightarrow> \<not> is_ok x \<Longrightarrow> s' = s"
    and send_keeps: "linked r s ms fs \<Longrightarrow> send s m = (x, s') \<Longrightarrow> linked r s' ms fs"
    and recv_ok: "linked s r ms (f # fs) \<Longrightarrow>
      \<exists>m ms' r'. ms = m # ms' \<and> recv r f = (Ok m, r') \<and> linked s r' ms' fs"
    and recv_keeps: "linked r s ms fs \<Longrightarrow> recv r f = (Ok m, r') \<Longrightarrow> linked r' s ms fs"
    and linked_empty: "linked s r ms [] \<Longrightarrow> ms = []"
begin

lemma lane_send_inv:
  assumes "linked s r ms (ln_wire l)" and "ln_sent l = ln_got l @ ms"
    and "linked r s ms' fs'" and "lane_send send s m l = (s', l')"
  shows "(\<exists>ms. linked s' r ms (ln_wire l') \<and> ln_sent l' = ln_got l' @ ms) \<and> linked r s' ms' fs'"
proof -
  obtain x c where x: "send s m = (x, c)" by fastforce
  show ?thesis
  proof (cases x)
    case (Ok f)
    then have "s' = c" "l' = l\<lparr>ln_wire := ln_wire l @ [f], ln_sent := ln_sent l @ [m]\<rparr>"
      using assms(4) x by (auto simp: lane_send_def)
    moreover have "linked c r (ms @ [m]) (ln_wire l @ [f])" using send_ok assms(1) x Ok by blast
    moreover have "linked r c ms' fs'" using send_keeps assms(3) x by blast
    ultimately show ?thesis using assms(2) by auto
  next
    case (Err e)
    then show ?thesis using send_refused[OF x] assms x by (auto simp: lane_send_def)
  next
    case Panic
    then show ?thesis using send_refused[OF x] assms x by (auto simp: lane_send_def)
  qed
qed

lemma lane_recv_inv:
  assumes "linked s r ms (ln_wire l)" and "ln_sent l = ln_got l @ ms"
    and "linked r s ms' fs'" and "lane_recv recv r l = (r', l')"
  shows "(\<exists>ms. linked s r' ms (ln_wire l') \<and> ln_sent l' = ln_got l' @ ms) \<and> linked r' s ms' fs' \<and>
    length (ln_wire l') = length (ln_wire l) - 1 \<and> ln_sent l' = ln_sent l"
proof (cases "ln_wire l")
  case Nil
  then show ?thesis using assms by (auto simp: lane_recv_def)
next
  case (Cons f fs)
  obtain m ms1 c where r: "ms = m # ms1" "recv r f = (Ok m, c)" "linked s c ms1 fs"
    using recv_ok assms(1) Cons by metis
  then have "r' = c" "l' = l\<lparr>ln_wire := fs, ln_got := ln_got l @ [m]\<rparr>"
    using assms(4) Cons by (auto simp: lane_recv_def)
  moreover have "linked c s ms' fs'" using recv_keeps assms(3) r(2) by blast
  ultimately show ?thesis using r assms(2) Cons by auto
qed

lemma duplex_step_inv:
  assumes "linked (dx_a d) (dx_b d) ms (ln_wire (dx_ab d))" and "ln_sent (dx_ab d) = ln_got (dx_ab d) @ ms"
    and "linked (dx_b d) (dx_a d) ms' (ln_wire (dx_ba d))" and "ln_sent (dx_ba d) = ln_got (dx_ba d) @ ms'"
    and "d' = duplex_step send recv act d"
  shows "\<exists>ms ms'. linked (dx_a d') (dx_b d') ms (ln_wire (dx_ab d')) \<and>
     ln_sent (dx_ab d') = ln_got (dx_ab d') @ ms \<and>
     linked (dx_b d') (dx_a d') ms' (ln_wire (dx_ba d')) \<and> ln_sent (dx_ba d') = ln_got (dx_ba d') @ ms'"
proof (cases act)
  case (SendA m)
  obtain c l where x: "lane_send send (dx_a d) m (dx_ab d) = (c, l)" by fastforce
  from lane_send_inv[OF assms(1,2,3) x] show ?thesis using assms(3,4) x by (auto simp: assms(5) SendA)
next
  case (SendB m)
  obtain c l where x: "lane_send send (dx_b d) m (dx_ba d) = (c, l)" by fastforce
  from lane_send_inv[OF assms(3,4,1) x] show ?thesis using assms(1,2) x by (auto simp: assms(5) SendB)
next
  case RecvA
  obtain c l where x: "lane_recv recv (dx_a d) (dx_ba d) = (c, l)" by fastforce
  from lane_recv_inv[OF assms(3,4,1) x] show ?thesis using assms(1,2) x by (auto simp: assms(5) RecvA)
next
  case RecvB
  obtain c l where x: "lane_recv recv (dx_b d) (dx_ab d) = (c, l)" by fastforce
  from lane_recv_inv[OF assms(1,2,3) x] show ?thesis using assms(3,4) x by (auto simp: assms(5) RecvB)
qed

lemma duplex_run_inv:
  assumes "linked (dx_a d) (dx_b d) ms (ln_wire (dx_ab d))" and "ln_sent (dx_ab d) = ln_got (dx_ab d) @ ms"
    and "linked (dx_b d) (dx_a d) ms' (ln_wire (dx_ba d))" and "ln_sent (dx_ba d) = ln_got (dx_ba d) @ ms'"
    and "d' = duplex_run send recv acts d"
  shows "\<exists>ms ms'. linked (dx_a d') (dx_b d') ms (ln_wire (dx_ab d')) \<and>
     ln_sent (dx_ab d') = ln_got (dx_ab d') @ ms \<and>
     linked (dx_b d') (dx_a d') ms' (ln_wire (dx_ba d')) \<and> ln_sent (dx_ba d') = ln_got (dx_ba d') @ ms'"
  using assms
proof (induction acts arbitrary: d ms ms')
  case Nil
  then show ?case by (auto simp: duplex_run_def)
next
  case (Cons act acts)
  obtain ms1 ms1' where "linked (dx_a (duplex_step send recv act d)) (dx_b (duplex_step send recv act d)) ms1
        (ln_wire (dx_ab (duplex_step send recv act d)))"
    "ln_sent (dx_ab (duplex_step send recv act d)) = ln_got (dx_ab (duplex_step send recv act d)) @ ms1"
    "linked (dx_b (duplex_step send recv act d)) (dx_a (duplex_step send recv act d)) ms1'
        (ln_wire (dx_ba (duplex_step send recv act d)))"
    "ln_sent (dx_ba (duplex_step send recv act d)) = ln_got (dx_ba (duplex_step send recv act d)) @ ms1'"
    using duplex_step_inv[OF Cons.prems(1-4) refl] by blast
  from Cons.IH[OF this] Cons.prems(5) show ?case by (simp add: duplex_run_def)
qed

lemma drain_b:
  assumes "linked (dx_a d) (dx_b d) ms (ln_wire (dx_ab d))" and "ln_sent (dx_ab d) = ln_got (dx_ab d) @ ms"
    and "linked (dx_b d) (dx_a d) ms' (ln_wire (dx_ba d))"
    and "k = length (ln_wire (dx_ab d))"
  shows "ln_got (dx_ab (duplex_run send recv (replicate k RecvB) d)) = ln_sent (dx_ab d)"
  using assms
proof (induction k arbitrary: d ms)
  case 0
  then show ?case using linked_empty by (auto simp: duplex_run_def)
next
  case (Suc k)
  obtain c l where x: "lane_recv recv (dx_b d) (dx_ab d) = (c, l)" by fastforce
  obtain ms1 where l: "linked (dx_a d) c ms1 (ln_wire l)" "ln_sent l = ln_got l @ ms1"
    "linked c (dx_a d) ms' (ln_wire (dx_ba d))" "length (ln_wire l) = k" "ln_sent l = ln_sent (dx_ab d)"
    using lane_recv_inv[OF Suc.prems(1-3) x] Suc.prems(4) by auto
  have "ln_got (dx_ab (duplex_run send recv (replicate k RecvB) (d\<lparr>dx_b := c, dx_ab := l\<rparr>))) = ln_sent l"
    using Suc.IH[of "d\<lparr>dx_b := c, dx_ab := l\<rparr>" ms1] l by simp
  then show ?case using x l(5) by (simp add: duplex_run_def)
qed

end

section \<open>The secure channel as a transport\<close>

text \<open>
  The documented behaviour of AES-GCM the channel relies on: decryption undoes encryption, and
  the ciphertext is the message with a 16-octet tag.
\<close>

definition aead_sound :: "crypto \<Rightarrow> bool" where
  "aead_sound X \<longleftrightarrow>
     (\<forall>key cipher nonce m aad ct. cr_cipher X key = Some cipher \<longrightarrow>
        ae_encrypt cipher nonce m aad = Some ct \<longrightarrow>
        ae_decrypt cipher nonce ct aad = Some m \<and> length ct = length m + 16)"

fun in_flight :: "codec \<Rightarrow> crypto \<Rightarrow> secure_channel \<Rightarrow> nat \<Rightarrow> bytes list \<Rightarrow> channel_frame list \<Rightarrow> bool" where
  "in_flight C X s n [] [] = True"
| "in_flight C X s n (m # ms) (f # fs) = (sealed_as C X s n m f \<and> n \<le> u64_max \<and> in_flight C X s (Suc n) ms fs)"
| "in_flight C X s n _ _ = False"

definition mirrored :: "secure_channel \<Rightarrow> secure_channel \<Rightarrow> bool" where
  "mirrored s r \<longleftrightarrow> sc_receive_key r = sc_send_key s \<and> sc_receive_iv r = sc_send_iv s \<and>
     sc_transcript_hash r = sc_transcript_hash s \<and>
     receive_direction (sc_local_side r) = send_direction (sc_local_side s)"

definition channel_linked ::
  "codec \<Rightarrow> crypto \<Rightarrow> secure_channel \<Rightarrow> secure_channel \<Rightarrow> bytes list \<Rightarrow> channel_frame list \<Rightarrow> bool" where
  "channel_linked C X s r ms fs \<longleftrightarrow> aead_sound X \<and> mirrored s r \<and> \<not> sc_terminal r \<and>
     counter_typed (sc_next_send_counter s) \<and> counter_typed (sc_next_receive_counter r) \<and>
     in_flight C X s (counter_at (sc_next_receive_counter r)) ms fs \<and>
     counter_at (sc_next_receive_counter r) + length fs = counter_at (sc_next_send_counter s)"

lemma in_flight_snoc:
  "in_flight C X s n ms fs \<Longrightarrow> sealed_as C X s (n + length fs) m f \<Longrightarrow> n + length fs \<le> u64_max \<Longrightarrow>
     in_flight C X s n (ms @ [m]) (fs @ [f])"
  by (induction C X s n ms fs rule: in_flight.induct) auto

lemma in_flight_same_keys: "same_keys s s' \<Longrightarrow> in_flight C X s' n ms fs = in_flight C X s n ms fs"
  by (induction C X s n ms fs rule: in_flight.induct) (auto simp: sealed_as_same_keys)

lemma mirrored_same_keys:
  "same_keys s s' \<Longrightarrow> mirrored s' r \<longleftrightarrow> mirrored s r"
  "same_keys s s' \<Longrightarrow> mirrored r s' \<longleftrightarrow> mirrored r s"
  by (auto simp: same_keys_def mirrored_def)

lemma counter_some: "counter_typed c \<Longrightarrow> counter_at c \<le> u64_max \<Longrightarrow> c = Some (counter_at c)"
  by (auto simp: counter_typed_def counter_at_def split: option.splits)

lemma channel_send_ok:
  assumes l: "channel_linked C X s r ms fs" and "seal C X s m = (Ok f, s')"
  shows "channel_linked C X s' r (ms @ [m]) (fs @ [f])"
proof -
  obtain n where n: "sc_next_send_counter s = Some n" "sealed_as C X s n m f"
    "s' = s\<lparr>sc_next_send_counter := checked_add_u64 n 1\<rparr>"
    using assms(2) by (auto simp: seal_Ok)
  have at: "counter_at (sc_next_receive_counter r) + length fs = n"
    using l n(1) by (simp add: channel_linked_def counter_at_def)
  have nx: "counter_at (checked_add_u64 n 1) = Suc n" "counter_typed (checked_add_u64 n 1)" "n \<le> u64_max"
    using counter_next[of n] l n(1) by (auto simp: channel_linked_def)
  have sk: "same_keys s s'" by (simp add: n(3))
  have "in_flight C X s (counter_at (sc_next_receive_counter r)) (ms @ [m]) (fs @ [f])"
    using in_flight_snoc[of C X s "counter_at (sc_next_receive_counter r)" ms fs m f] l n(2) at nx(3)
    by (simp add: channel_linked_def)
  then show ?thesis
    using l nx at mirrored_same_keys(1)[OF sk] in_flight_same_keys[OF sk]
    by (simp add: channel_linked_def) (simp add: n(3))
qed

lemma channel_recv_ok:
  assumes l: "channel_linked C X s r ms (f # fs)"
  shows "\<exists>m ms' r'. ms = m # ms' \<and> open_sealed C X r f = (Ok m, r') \<and> channel_linked C X s r' ms' fs"
proof -
  let ?n = "counter_at (sc_next_receive_counter r)"
  obtain m ms' where ms: "ms = m # ms'" "sealed_as C X s ?n m f" "?n \<le> u64_max"
    "in_flight C X s (Suc ?n) ms' fs"
    using l by (cases ms) (auto simp: channel_linked_def)
  obtain aad cipher ct where f: "f = Sealed (send_direction (sc_local_side s)) ?n ct"
    "sealed_aad C (send_direction (sc_local_side s)) ?n (sc_transcript_hash s) = Ok aad"
    "cr_cipher X (sc_send_key s) = Some cipher"
    "ae_encrypt cipher (derive_nonce (sc_send_iv s) ?n) m aad = Some ct" "message_size_ok m"
    using ms(2) by (auto simp: sealed_as_def)
  have dec: "ae_decrypt cipher (derive_nonce (sc_send_iv s) ?n) ct aad = Some m" "length ct = length m + 16"
    using l f(3,4) unfolding channel_linked_def aead_sound_def by blast+
  have some: "sc_next_receive_counter r = Some ?n"
    using counter_some l ms(3) by (simp add: channel_linked_def)
  let ?r = "r\<lparr>sc_next_receive_counter := checked_add_u64 ?n 1\<rparr>"
  have "open_sealed C X r f = (Ok m, ?r)"
    unfolding open_sealed_Ok
    using l f dec some by (auto simp: channel_linked_def mirrored_def message_size_ok_def Suc_le_eq)
  moreover have "channel_linked C X s ?r ms' fs"
    using l ms some counter_next[of ?n] by (auto simp: channel_linked_def mirrored_def)
  ultimately show ?thesis using ms(1) by blast
qed

lemma channel_linked_other:
  assumes "channel_linked C X s r ms fs" and "same_keys r r'" and "sc_terminal r' = sc_terminal r"
    and "sc_next_receive_counter r' = sc_next_receive_counter r"
  shows "channel_linked C X s r' ms fs"
  using assms(1,3,4) mirrored_same_keys(2)[OF assms(2)] by (simp add: channel_linked_def)

lemma channel_linked_sender:
  assumes "channel_linked C X s r ms fs" and "same_keys s s'"
    and "sc_next_send_counter s' = sc_next_send_counter s"
  shows "channel_linked C X s' r ms fs"
  using assms(1,3) mirrored_same_keys(1)[OF assms(2)] in_flight_same_keys[OF assms(2)]
  by (simp add: channel_linked_def)

interpretation tr: transport "seal C X" "open_sealed C X" "channel_linked C X" for C X
proof
  show "channel_linked C X s' r (ms @ [m]) (fs @ [f])"
    if "channel_linked C X s r ms fs" "seal C X s m = (Ok f, s')" for s r ms fs m f s'
    using that by (rule channel_send_ok)
  show "s' = s" if "seal C X s m = (x, s')" "\<not> is_ok x" for s m x s'
    using that by (rule seal_unchanged)
  show "channel_linked C X r s' ms fs"
    if "channel_linked C X r s ms fs" "seal C X s m = (x, s')" for r s ms fs m x s'
    using channel_linked_other[OF that(1)] seal_step[OF that(2)] by simp
  show "\<exists>m ms' r'. ms = m # ms' \<and> open_sealed C X r f = (Ok m, r') \<and> channel_linked C X s r' ms' fs"
    if "channel_linked C X s r ms (f # fs)" for s r ms f fs
    using that by (rule channel_recv_ok)
  show "channel_linked C X r' s ms fs"
    if "channel_linked C X r s ms fs" "open_sealed C X r f = (Ok m, r')" for r s ms fs f m r'
    using channel_linked_sender[OF that(1)] open_step[OF that(2)] by simp
  show "ms = []" if "channel_linked C X s r ms []" for s r ms
    using that by (cases ms) (auto simp: channel_linked_def)
qed

section \<open>Confirmed peers\<close>

lemma new_pending_mirror:
  assumes "new_pending C X SideAllocator isk ctx fa fb = Ok pa"
    and "new_pending C X SideClaimant isk ctx fa fb = Ok pb"
  shows "pn_secrets pb = pn_secrets pa \<and> pn_transcript_hash pb = pn_transcript_hash pa \<and>
    pn_local_side pa = SideAllocator \<and> pn_local_side pb = SideClaimant"
  using assms by (auto simp: new_pending_def bind_result_Ok)

lemma confirm_mirrored:
  assumes "new_pending C X SideAllocator isk ctx fa fb = Ok pa"
    and "new_pending C X SideClaimant isk ctx fa fb = Ok pb"
    and "confirm pa va = Ok a" and "confirm pb vb = Ok b"
  shows "mirrored a b \<and> mirrored b a"
  using new_pending_mirror[OF assms(1,2)] assms(3,4)
  by (auto simp: confirm_def Let_def mirrored_def send_direction_def receive_direction_def split: if_splits)

lemma confirmed_linked:
  assumes "aead_sound X" and "mirrored a b" and "confirm pa va = Ok a" and "confirm pb vb = Ok b"
  shows "channel_linked C X a b [] []"
  using confirm_fresh[OF assms(3)] confirm_fresh[OF assms(4)] assms(1,2)
  by (simp add: channel_linked_def counter_typed_def counter_at_def)

text \<open>
  C20: Two peers that derived their channels from the same CPace result and transcript and
  confirmed each other's Finished value exchange messages reliably: under every interleaving
  of sends (including refused ones) and receipts in both directions, what each side has read is
  a prefix of what the other has sent, in order; neither channel ever becomes terminal; and
  reading everything on the way delivers exactly what was sent.
\<close>

theorem confirmed_peers_deliver:
  assumes "aead_sound X"
    and "new_pending C X SideAllocator isk ctx fa fb = Ok pa"
    and "new_pending C X SideClaimant isk ctx fa fb = Ok pb"
    and "confirm pa (pn_local_finished pb) = Ok a" and "confirm pb (pn_local_finished pa) = Ok b"
    and "d = duplex_run (seal C X) (open_sealed C X) acts (duplex_start a b)"
  shows "prefix (ln_got (dx_ab d)) (ln_sent (dx_ab d)) \<and> prefix (ln_got (dx_ba d)) (ln_sent (dx_ba d)) \<and>
    \<not> sc_terminal (dx_a d) \<and> \<not> sc_terminal (dx_b d) \<and>
    ln_got (dx_ab (duplex_run (seal C X) (open_sealed C X)
      (replicate (length (ln_wire (dx_ab d))) RecvB) d)) = ln_sent (dx_ab d)"
proof -
  have m: "mirrored a b" "mirrored b a" using confirm_mirrored[OF assms(2-5)] by auto
  have start: "channel_linked C X a b [] []" "channel_linked C X b a [] []"
    using confirmed_linked[OF assms(1) m(1) assms(4,5)] confirmed_linked[OF assms(1) m(2) assms(5,4)] by auto
  obtain ms ms' where inv: "channel_linked C X (dx_a d) (dx_b d) ms (ln_wire (dx_ab d))"
      "ln_sent (dx_ab d) = ln_got (dx_ab d) @ ms"
      "channel_linked C X (dx_b d) (dx_a d) ms' (ln_wire (dx_ba d))"
      "ln_sent (dx_ba d) = ln_got (dx_ba d) @ ms'"
    using tr.duplex_run_inv[of C X "duplex_start a b" "[]" "[]" d acts] start assms(6)
    by (auto simp: duplex_start_def empty_lane_def)
  from tr.drain_b[OF inv(1-3) refl] inv show ?thesis by (simp add: channel_linked_def)
qed

lemma demo_aead_sound: "aead_sound demo_crypto"
  by (auto simp: aead_sound_def demo_crypto_def demo_aead_def split: if_splits)

theorem confirmed_peers_deliver_witness:
  "\<exists>a b. confirm (demo_pending SideAllocator) (pn_local_finished (demo_pending SideClaimant)) = Ok a \<and>
     confirm (demo_pending SideClaimant) (pn_local_finished (demo_pending SideAllocator)) = Ok b \<and>
     \<not> sc_terminal (dx_b (duplex_run (seal demo_channel_codec demo_crypto) (open_sealed demo_channel_codec demo_crypto)
       [SendA [1], SendB [2], SendA [3], RecvB] (duplex_start a b)))"
  using confirmed_peers_deliver[OF demo_aead_sound demo_new_pending demo_new_pending demo_confirm refl,
      of "[SendA [1], SendB [2], SendA [3], RecvB]"] demo_confirm
  by blast

section \<open>Agreement\<close>

text \<open>The Finished value of the claimant, as either side computes it.\<close>

definition claimant_mac :: "crypto \<Rightarrow> bytes \<Rightarrow> bytes \<Rightarrow> bytes \<Rightarrow> bool" where
  "claimant_mac X isk th v \<longleftrightarrow>
     (\<exists>kc mac. cr_hkdf X isk (ascii ''pairing-v1 kc B'' @ th) 32 = Some kc \<and> cr_hmac X kc = Some mac \<and>
        v = mac (ascii ''pairing-v1 finished B'' @ th))"

lemma new_pending_claimant_mac:
  assumes "new_pending C X s isk ctx fa fb = Ok p"
  shows "\<exists>t. cd_canonical C (transcript_value ctx fa fb) = Some t \<and>
    claimant_mac X isk (cr_sha512 X t) (case s of SideAllocator \<Rightarrow> pn_peer_finished p | SideClaimant \<Rightarrow> pn_local_finished p)"
  using assms
  by (auto simp: new_pending_def bind_result_Ok calculate_transcript_hash_def finished_def expand_def
      claimant_mac_def split: side.splits)

text \<open>
  C21: If the allocator accepts the Finished value of a claimant, then both computed it over
  the same public context and the same two CPace frames, unless the two transcripts are a
  collision of SHA-512 or one HMAC tag stands for their two different transcript hashes.
\<close>

theorem confirmed_peers_agree:
  assumes "reads_back C"
    and "new_pending C X SideAllocator isk ctx fa fb = Ok pa"
    and "new_pending C X SideClaimant isk' ctx' fa' fb' = Ok pb"
    and "confirm pa (pn_local_finished pb) = Ok a"
  shows "\<exists>t t'. cd_canonical C (transcript_value ctx fa fb) = Some t \<and>
    cd_canonical C (transcript_value ctx' fa' fb') = Some t' \<and>
    ((ctx = ctx' \<and> fa = fa' \<and> fb = fb') \<or>
     (t \<noteq> t' \<and> cr_sha512 X t = cr_sha512 X t') \<or>
     (cr_sha512 X t \<noteq> cr_sha512 X t' \<and>
      (\<exists>tag. claimant_mac X isk (cr_sha512 X t) tag \<and> claimant_mac X isk' (cr_sha512 X t') tag)))"
proof -
  obtain t t' where t: "cd_canonical C (transcript_value ctx fa fb) = Some t"
      "cd_canonical C (transcript_value ctx' fa' fb') = Some t'"
    and macs: "claimant_mac X isk (cr_sha512 X t) (pn_peer_finished pa)"
      "claimant_mac X isk' (cr_sha512 X t') (pn_local_finished pb)"
    using new_pending_claimant_mac[OF assms(2)] new_pending_claimant_mac[OF assms(3)] by auto
  have "pn_peer_finished pa = pn_local_finished pb"
    using assms(4) by (auto simp: confirm_def split: if_splits)
  moreover have "transcript_value ctx fa fb = transcript_value ctx' fa' fb'" if "t = t'"
    by (rule canonical_inject[OF assms(1) _ _ t(1)]) (simp_all add: transcript_value_def t(2)[unfolded transcript_value_def] that)
  ultimately show ?thesis using t macs by (auto simp: transcript_value_def)
qed

theorem confirmed_peers_agree_witness:
  "\<exists>C t a. reads_back C \<and>
     new_pending C demo_crypto SideAllocator [] [1] [2] [3] = Ok (demo_pending SideAllocator) \<and>
     confirm (demo_pending SideAllocator) (pn_local_finished (demo_pending SideClaimant)) = Ok a \<and>
     cd_canonical C (transcript_value [1] [2] [3]) = Some t"
proof -
  let ?C = "table_codec [(transcript_value [1] [2] [3], [7])]"
  have law: "reads_back ?C" by (rule table_codec_reads_back) simp
  have new: "new_pending ?C demo_crypto s [] [1] [2] [3] = Ok (demo_pending s)" for s
    by (cases s) (simp_all add: new_pending_def calculate_transcript_hash_def expand_def finished_def
      table_codec_def demo_crypto_def demo_pending_def demo_finished_def ascii_def)
  from confirmed_peers_agree[OF law new new demo_confirm(1)] law new demo_confirm(1) show ?thesis by blast
qed

end
