(* ===== verification/Cpace.thy ===== *)
theory Cpace
  imports Channel
begin

text \<open>
  The CPace core of \<^verbatim>\<open>src/src/cpace.rs\<close> and the field wrapper of
  \<^verbatim>\<open>src/src/cpace/field.rs\<close>: the length-value encodings, the generator, both halves of the
  exchange and the intermediate session key. X25519 and the fiat-crypto limb arithmetic are
  outside the repository: the function \<open>dh_x25519\<close> and the fields of \<open>fiat\<close>.
\<close>

section \<open>The field wrapper\<close>

type_synonym limbs = "nat list"

record fiat =
  fi_from_bytes :: "bytes \<Rightarrow> limbs"
  fi_to_bytes :: "limbs \<Rightarrow> bytes"
  fi_add :: "limbs \<Rightarrow> limbs \<Rightarrow> limbs"
  fi_sub :: "limbs \<Rightarrow> limbs \<Rightarrow> limbs"
  fi_opp :: "limbs \<Rightarrow> limbs"
  fi_carry :: "limbs \<Rightarrow> limbs"
  fi_relax :: "limbs \<Rightarrow> limbs"
  fi_carry_mul :: "limbs \<Rightarrow> limbs \<Rightarrow> limbs"
  fi_carry_square :: "limbs \<Rightarrow> limbs"

definition fe_one :: limbs where
  "fe_one = [1, 0, 0, 0, 0]"

definition CURVE_A :: limbs where
  "CURVE_A = [486662, 0, 0, 0, 0]"

definition CURVE_A_OVER_TWO :: limbs where
  "CURVE_A_OVER_TWO = [243331, 0, 0, 0, 0]"

definition P_MINUS_TWO :: bytes where
  "P_MINUS_TWO = [235] @ replicate 30 255 @ [127]"

definition P_MINUS_ONE_OVER_TWO :: bytes where
  "P_MINUS_ONE_OVER_TWO = [246] @ replicate 30 255 @ [63]"

definition fe_add :: "fiat \<Rightarrow> limbs \<Rightarrow> limbs \<Rightarrow> limbs" where
  "fe_add F a b = fi_carry F (fi_add F a b)"

definition fe_sub :: "fiat \<Rightarrow> limbs \<Rightarrow> limbs \<Rightarrow> limbs" where
  "fe_sub F a b = fi_carry F (fi_sub F a b)"

definition fe_neg :: "fiat \<Rightarrow> limbs \<Rightarrow> limbs" where
  "fe_neg F a = fi_carry F (fi_opp F a)"

definition fe_mul :: "fiat \<Rightarrow> limbs \<Rightarrow> limbs \<Rightarrow> limbs" where
  "fe_mul F a b = fi_carry_mul F (fi_relax F a) (fi_relax F b)"

definition fe_square :: "fiat \<Rightarrow> limbs \<Rightarrow> limbs" where
  "fe_square F a = fi_carry_square F (fi_relax F a)"

text \<open>The bits of an exponent in the order the two nested loops visit them.\<close>

definition exponent_bits :: "bytes \<Rightarrow> bool list" where
  "exponent_bits e =
     concat (map (\<lambda>b. map (\<lambda>k. b AND push_bit k 1 \<noteq> 0) (rev [0..<8])) (rev e))"

definition pow_step :: "fiat \<Rightarrow> limbs \<Rightarrow> limbs \<Rightarrow> bool \<Rightarrow> limbs" where
  "pow_step F base acc b =
     (let squared = fe_square F acc in if b then fe_mul F squared base else squared)"

definition fe_pow :: "fiat \<Rightarrow> limbs \<Rightarrow> bytes \<Rightarrow> limbs" where
  "fe_pow F base e = foldl (pow_step F base) fe_one (exponent_bits e)"

definition fe_invert :: "fiat \<Rightarrow> limbs \<Rightarrow> limbs" where
  "fe_invert F a = fe_pow F a P_MINUS_TWO"

definition clear_top_bit :: "bytes \<Rightarrow> bytes" where
  "clear_top_bit b = b[31 := b ! 31 AND 127]"

definition elligator2_curve25519 :: "fiat \<Rightarrow> bytes \<Rightarrow> bytes" where
  "elligator2_curve25519 F representative =
     (let r = fi_from_bytes F (clear_top_bit representative);
          denominator = fe_add F fe_one (fe_mul F (fe_add F fe_one fe_one) (fe_square F r));
          v = fe_mul F (fe_neg F CURVE_A) (fe_invert F denominator);
          curve_equation = fe_mul F v (fe_add F (fe_add F (fe_square F v) (fe_mul F CURVE_A v)) fe_one);
          epsilon = fe_pow F curve_equation P_MINUS_ONE_OVER_TWO
      in fi_to_bytes F (fe_sub F (fe_mul F epsilon v)
           (fe_mul F (fe_sub F fe_one epsilon) CURVE_A_OVER_TWO)))"

section \<open>Length-value encodings\<close>

function leb128_size :: "usize \<Rightarrow> usize" where
  "leb128_size v = (if v \<ge> 128 then Suc (leb128_size (drop_bit 7 v)) else 1)"
  by auto
termination
  by (relation "measure id") (auto simp: drop_bit_eq_div)

function leb128 :: "usize \<Rightarrow> bytes" where
  "leb128 v =
     (let low_bits = of_nat (v AND 127); rest = drop_bit 7 v
      in if rest = 0 then [low_bits] else (low_bits OR 128) # leb128 rest)"
  by auto
termination
  by (relation "measure id") (auto simp: drop_bit_eq_div)

declare leb128_size.simps [simp del] leb128.simps [simp del]

definition length_value :: "bytes \<Rightarrow> bytes" where
  "length_value v = leb128 (length v) @ v"

section \<open>Generator\<close>

datatype cpace_error =
    SameSide
  | InvalidPeerPoint
  | LengthOverflow
  | CpInvalidContext
  | AssociatedData

definition SHA512_INPUT_BLOCK_BYTES :: usize where
  "SHA512_INPUT_BLOCK_BYTES = 128"

definition CPACE_DSI :: bytes where
  "CPACE_DSI = ascii ''CPace255''"

definition CPACE_ISK_DSI :: bytes where
  "CPACE_ISK_DSI = ascii ''CPace255_ISK''"

definition prepend_len_size :: "bytes \<Rightarrow> (usize, cpace_error) result" where
  "prepend_len_size v = ok_or LengthOverflow (checked_add_u64 (leb128_size (length v)) (length v))"

fun checked_sum :: "usize \<Rightarrow> usize list \<Rightarrow> usize option" where
  "checked_sum acc [] = Some acc"
| "checked_sum acc (n # ns) =
     (case checked_add_u64 acc n of None \<Rightarrow> None | Some s \<Rightarrow> checked_sum s ns)"

definition generator_string :: "bytes \<Rightarrow> bytes \<Rightarrow> bytes \<Rightarrow> (bytes, cpace_error) result" where
  "generator_string prs channel_identifier session_id =
     bind_result (prepend_len_size CPACE_DSI) (\<lambda>dsi.
     bind_result (prepend_len_size prs) (\<lambda>prs_len.
     bind_result (ok_or LengthOverflow (checked_add_u64 dsi prs_len)) (\<lambda>encoded_prefix_length.
     let padding_length = saturating_sub_u64 SHA512_INPUT_BLOCK_BYTES (saturating_add_u64 encoded_prefix_length 1) in
     bind_result (ok_or LengthOverflow (checked_add_u64 (leb128_size padding_length) padding_length)) (\<lambda>pad.
     bind_result (prepend_len_size channel_identifier) (\<lambda>ci_len.
     bind_result (prepend_len_size session_id) (\<lambda>sid_len.
     bind_result (ok_or LengthOverflow (checked_sum 0 [dsi, prs_len, pad, ci_len, sid_len])) (\<lambda>_.
       Ok (length_value CPACE_DSI @ length_value prs @ leb128 padding_length @ replicate padding_length 0 @
           length_value channel_identifier @ length_value session_id))))))))"

definition calculate_generator ::
  "crypto \<Rightarrow> fiat \<Rightarrow> bytes \<Rightarrow> bytes \<Rightarrow> bytes \<Rightarrow> (bytes, cpace_error) result" where
  "calculate_generator X F prs channel_identifier session_id =
     bind_result (generator_string prs channel_identifier session_id) (\<lambda>generator_input.
       Ok (elligator2_curve25519 F (clear_top_bit (take 32 (cr_sha512 X generator_input)))))"

section \<open>The exchange\<close>

record cpace_state =
  cs_side :: side
  cs_scalar :: bytes
  cs_local_message :: cpace_message
  cs_sid :: bytes
  cs_expected_peer_associated_data :: "bytes option"

definition x25519_scalar_mult_vfy ::
  "(bytes \<Rightarrow> bytes \<Rightarrow> bytes) \<Rightarrow> bytes \<Rightarrow> bytes \<Rightarrow> (bytes, cpace_error) result" where
  "x25519_scalar_mult_vfy dh_x25519 scalar point =
     (let product = dh_x25519 scalar point
      in if product = replicate 32 0 then Err InvalidPeerPoint else Ok product)"

definition start ::
  "crypto \<Rightarrow> fiat \<Rightarrow> (bytes \<Rightarrow> bytes \<Rightarrow> bytes) \<Rightarrow> side \<Rightarrow> bytes \<Rightarrow> bytes \<Rightarrow> bytes \<Rightarrow> bytes \<Rightarrow> bytes \<Rightarrow>
     (cpace_state \<times> cpace_message, cpace_error) result" where
  "start X F dh_x25519 sd prs channel_identifier session_id ad fresh_scalar =
     bind_result (calculate_generator X F prs channel_identifier session_id) (\<lambda>generator.
     bind_result (x25519_scalar_mult_vfy dh_x25519 fresh_scalar generator) (\<lambda>share.
     let message = \<lparr>cm_side = sd, cm_share = share, cm_associated_data = ad\<rparr>
     in Ok (\<lparr>cs_side = sd, cs_scalar = fresh_scalar, cs_local_message = message, cs_sid = session_id,
             cs_expected_peer_associated_data = None\<rparr>, message)))"

definition start_bound ::
  "crypto \<Rightarrow> fiat \<Rightarrow> (bytes \<Rightarrow> bytes \<Rightarrow> bytes) \<Rightarrow> side \<Rightarrow> bytes \<Rightarrow> bytes \<Rightarrow> bytes \<Rightarrow> bytes \<Rightarrow> bytes \<Rightarrow> bytes \<Rightarrow>
     (cpace_state \<times> cpace_message, cpace_error) result" where
  "start_bound X F dh_x25519 sd prs channel_identifier session_id local_ad peer_ad fresh_scalar =
     bind_result (start X F dh_x25519 sd prs channel_identifier session_id local_ad fresh_scalar) (\<lambda>(st, message).
       Ok (st\<lparr>cs_expected_peer_associated_data := Some peer_ad\<rparr>, message))"

definition other_side :: "side \<Rightarrow> side" where
  "other_side s = (case s of SideAllocator \<Rightarrow> SideClaimant | SideClaimant \<Rightarrow> SideAllocator)"

definition start_pairing ::
  "codec \<Rightarrow> crypto \<Rightarrow> fiat \<Rightarrow> (bytes \<Rightarrow> bytes \<Rightarrow> bytes) \<Rightarrow> side \<Rightarrow> invitation \<Rightarrow> bytes \<Rightarrow> bytes \<Rightarrow>
     (cpace_state \<times> cpace_message, cpace_error) result" where
  "start_pairing C X F dh_x25519 sd i mailbox_id fresh_scalar =
     bind_result (map_err (\<lambda>_. CpInvalidContext) (derive C i mailbox_id)) (\<lambda>ctx.
     let local_ad = context_associated_data ctx sd;
         peer_ad = context_associated_data ctx (other_side sd)
     in bind_result (start X F dh_x25519 sd (inv_secret i) (pc_channel_identifier ctx) (pc_session_id ctx)
          local_ad fresh_scalar) (\<lambda>(st, message).
       Ok (st\<lparr>cs_expected_peer_associated_data := Some peer_ad\<rparr>, message)))"

definition key_input :: "bytes \<Rightarrow> bytes \<Rightarrow> cpace_message \<Rightarrow> cpace_message \<Rightarrow> bytes" where
  "key_input sid shared_point allocator claimant =
     length_value CPACE_ISK_DSI @ length_value sid @ length_value shared_point @
     length_value (cm_share allocator) @ length_value (cm_associated_data allocator) @
     length_value (cm_share claimant) @ length_value (cm_associated_data claimant)"

definition cpace_finish ::
  "crypto \<Rightarrow> (bytes \<Rightarrow> bytes \<Rightarrow> bytes) \<Rightarrow> cpace_state \<Rightarrow> cpace_message \<Rightarrow> (bytes, cpace_error) result" where
  "cpace_finish X dh_x25519 st peer_message =
     (if cs_side st = cm_side peer_message then Err SameSide
      else if (case cs_expected_peer_associated_data st of
                 None \<Rightarrow> False | Some expected \<Rightarrow> expected \<noteq> cm_associated_data peer_message)
      then Err AssociatedData
      else bind_result (x25519_scalar_mult_vfy dh_x25519 (cs_scalar st) (cm_share peer_message)) (\<lambda>shared_point.
        let (allocator, claimant) =
              (case cs_side st of
                 SideAllocator \<Rightarrow> (cs_local_message st, peer_message)
               | SideClaimant \<Rightarrow> (peer_message, cs_local_message st))
        in Ok (cr_sha512 X (key_input (cs_sid st) shared_point allocator claimant))))"

end
