(* ===== verification/Cpace_Props.thy ===== *)
theory Cpace_Props
  imports Cpace Channel_Props
begin

text \<open>
  What the CPace core guarantees: the length-value encodings are unambiguous, so the generator
  and the session key commit to each of their inputs; the two sides derive the same key; and the
  field wrapper computes the Elligator2 map in the field of \<open>2 ^ 255 - 19\<close> elements.
\<close>

section \<open>Length-value encodings\<close>

lemma and_127: "n AND 127 = n mod (128 :: nat)"
  using take_bit_eq_mask[of 7 n] by (simp add: take_bit_eq_mod mask_eq_exp_minus_1)

lemma or_128:
  assumes "k < 128"
  shows "unat ((of_nat k :: byte) OR 128) = k + 128"
proof -
  have b7: "bit (128 :: byte) n \<longleftrightarrow> n = 7" for n
    using bit_push_bit_iff[of 7 "1 :: byte" n] by (auto simp: bit_1_iff)
  have "\<not> bit (of_nat k :: byte) 7"
    using assms by (simp add: bit_of_nat_iff) (simp add: bit_iff_odd)
  then have "(of_nat k :: byte) + 128 = of_nat k OR 128"
    using b7 by (intro disjunctive_add) metis
  then have "unat ((of_nat k :: byte) OR 128) = unat (of_nat (k + 128) :: byte)" by simp
  also have "\<dots> = k + 128" using assms by (simp only: unat_of_nat) (simp add: take_bit_eq_mod)
  finally show ?thesis .
qed

lemma or_128_inject:
  assumes "k < 128" and "j < 128"
  shows "(of_nat k :: byte) OR 128 = of_nat j OR 128 \<longleftrightarrow> k = j"
  using or_128[OF assms(1)] or_128[OF assms(2)] by (metis add_right_cancel)

lemma leb128_unfold:
  "leb128 v = (if v < 128 then [of_nat v] else (of_nat (v mod 128) OR 128) # leb128 (v div 128))"
  by (subst leb128.simps) (auto simp: Let_def drop_bit_eq_div and_127)

lemma leb128_size_length: "leb128_size v = length (leb128 v)"
proof (induction v rule: less_induct)
  case (less v)
  then show ?case
    by (subst leb128_size.simps, subst leb128_unfold) (auto simp: drop_bit_eq_div)
qed

lemma leb128_small: "v < 128 \<Longrightarrow> leb128 v = [of_nat v]"
  and leb128_big: "\<not> v < 128 \<Longrightarrow> leb128 v = (of_nat (v mod 128) OR 128) # leb128 (v div 128)"
  by (subst leb128_unfold, simp)+

lemma leb128_nonempty: "leb128 v \<noteq> []"
  by (subst leb128_unfold) simp

lemma leb128_prefix: "leb128 n @ xs = leb128 m @ ys \<Longrightarrow> n = m \<and> xs = ys"
proof (induction n arbitrary: m rule: less_induct)
  case (less n)
  have small: "unat (of_nat k :: byte) = k" if "k < 128" for k
    using that by (simp add: unat_of_nat take_bit_eq_mod)
  have eq: "hd (leb128 n) = hd (leb128 m)" "tl (leb128 n) @ xs = tl (leb128 m) @ ys"
    using less.prems leb128_nonempty[of n] leb128_nonempty[of m]
    by (metis append_Cons list.collapse list.inject)+
  show ?case
  proof (cases "n < 128")
    case True
    have "m < 128"
    proof (rule ccontr)
      assume "\<not> m < 128"
      with True eq(1) have "(of_nat n :: byte) = of_nat (m mod 128) OR 128"
        by (simp add: leb128_small leb128_big)
      then have "n = m mod 128 + 128" using small[OF True] or_128[of "m mod 128"] by simp
      with True show False by simp
    qed
    then have one: "leb128 n = [of_nat n]" "leb128 m = [of_nat m]" using True by (simp_all only: leb128_small)
    have "(of_nat n :: byte) = of_nat m" using eq(1) unfolding one by simp
    then have "n = m" using small[OF True] small[OF \<open>m < 128\<close>] by metis
    moreover have "xs = ys" using eq(2) unfolding one by simp
    ultimately show ?thesis by simp
  next
    case False
    have big: "\<not> m < 128"
    proof
      assume "m < 128"
      with False eq(1) have "(of_nat m :: byte) = of_nat (n mod 128) OR 128"
        by (simp add: leb128_small leb128_big)
      then have "m = n mod 128 + 128" using small[OF \<open>m < 128\<close>] or_128[of "n mod 128"] by simp
      with \<open>m < 128\<close> show False by simp
    qed
    have "(of_nat (n mod 128) :: byte) OR 128 = of_nat (m mod 128) OR 128"
      using eq(1) unfolding leb128_big[OF False] leb128_big[OF big] by simp
    then have "n mod 128 = m mod 128" by (rule or_128_inject[THEN iffD1, rotated 2]) simp_all
    moreover have "leb128 (n div 128) @ xs = leb128 (m div 128) @ ys"
      using eq(2) unfolding leb128_big[OF False] leb128_big[OF big] by simp
    then have "n div 128 = m div 128 \<and> xs = ys" using less.IH[of "n div 128"] False by simp
    ultimately show ?thesis by (metis div_mult_mod_eq)
  qed
qed

lemma length_value_prefix [simp]:
  "length_value a @ xs = length_value b @ ys \<longleftrightarrow> a = b \<and> xs = ys"
  using leb128_prefix[of "length a" "a @ xs" "length b" "b @ ys"]
  by (auto simp: length_value_def)

lemma length_value_inject [simp]: "length_value a = length_value b \<longleftrightarrow> a = b"
  using length_value_prefix[of a "[]" b "[]"] by simp

lemma prepend_len_size_Ok: "prepend_len_size v = Ok n \<longleftrightarrow> n = length (length_value v) \<and> n \<le> u64_max"
  by (auto simp: prepend_len_size_def machine_int length_value_def leb128_size_length)

lemma padding_length:
  "saturating_sub_u64 SHA512_INPUT_BLOCK_BYTES (saturating_add_u64 n 1) = 128 - (n + 1)"
  by (auto simp: SHA512_INPUT_BLOCK_BYTES_def saturating_sub_u64_def saturating_add_u64_def u64_max_def min_def)

lemma generator_string_Ok:
  "generator_string prs ci sid = Ok g \<Longrightarrow>
     \<exists>pad. g = length_value CPACE_DSI @ length_value prs @ length_value (replicate pad 0) @
       length_value ci @ length_value sid \<and>
       pad = 128 - (length (length_value CPACE_DSI @ length_value prs) + 1)"
  by (auto simp: generator_string_def bind_result_Ok Let_def prepend_len_size_Ok checked_add_u64_Some
      length_value_def[of "replicate _ _"] padding_length simp del: checked_sum.simps One_nat_def)

text \<open>
  C27: The CPace encodings commit to their inputs. Two generator strings are equal only for the
  same secret, channel identifier and session identifier; two key inputs only for the same
  session, shared point, shares and associated data. And a short secret is padded so that
  everything up to the padding fills exactly one 128-octet SHA-512 block.
\<close>

theorem cpace_inputs_unambiguous:
  "(generator_string prs ci sid = Ok g \<longrightarrow> generator_string prs' ci' sid' = Ok g \<longrightarrow>
      prs = prs' \<and> ci = ci' \<and> sid = sid') \<and>
   (key_input s p a c = key_input s' p' a' c' \<longrightarrow>
      s = s' \<and> p = p' \<and> cm_share a = cm_share a' \<and> cm_associated_data a = cm_associated_data a' \<and>
      cm_share c = cm_share c' \<and> cm_associated_data c = cm_associated_data c') \<and>
   (generator_string prs ci sid = Ok g \<longrightarrow> length prs \<le> 117 \<longrightarrow>
      drop 128 g = length_value ci @ length_value sid)"
proof (intro conjI impI)
  assume "generator_string prs ci sid = Ok g" "generator_string prs' ci' sid' = Ok g"
  from generator_string_Ok[OF this(1)] generator_string_Ok[OF this(2)]
  show "prs = prs'" "ci = ci'" "sid = sid'" by auto
next
  assume "key_input s p a c = key_input s' p' a' c'"
  then show "s = s'" "p = p'" "cm_share a = cm_share a'" "cm_associated_data a = cm_associated_data a'"
      "cm_share c = cm_share c'" "cm_associated_data c = cm_associated_data c'"
    by (simp_all add: key_input_def)
next
  assume g: "generator_string prs ci sid = Ok g" and short: "length prs \<le> 117"
  let ?pad = "128 - (length (length_value CPACE_DSI @ length_value prs) + 1)"
  have len: "length (leb128 n) = 1" if "n < 128" for n using that by (simp add: leb128_small)
  have "length (length_value CPACE_DSI @ length_value prs) = 10 + length prs"
    using short by (simp add: length_value_def len CPACE_DSI_def ascii_def)
  then have "length (length_value CPACE_DSI @ length_value prs @ length_value (replicate ?pad (0::byte))) = 128"
    using short by (simp add: length_value_def[of "replicate _ _"] len)
  moreover have "g = (length_value CPACE_DSI @ length_value prs @ length_value (replicate ?pad 0)) @
      length_value ci @ length_value sid"
    using generator_string_Ok[OF g] by auto
  ultimately show "drop 128 g = length_value ci @ length_value sid" by (metis append_eq_conv_conj)
qed

section \<open>Agreement\<close>

lemma start_pairing_Ok:
  assumes "start_pairing C X F dh sd i mailbox_id scalar = Ok (st, m)"
  shows "\<exists>ctx g. derive C i mailbox_id = Ok ctx \<and>
    calculate_generator X F (inv_secret i) (pc_channel_identifier ctx) (pc_session_id ctx) = Ok g \<and>
    m = \<lparr>cm_side = sd, cm_share = dh scalar g, cm_associated_data = context_associated_data ctx sd\<rparr> \<and>
    st = \<lparr>cs_side = sd, cs_scalar = scalar, cs_local_message = m, cs_sid = mailbox_id,
      cs_expected_peer_associated_data = Some (context_associated_data ctx (other_side sd))\<rparr>"
  using assms
  by (auto simp: start_pairing_def start_def bind_result_Ok Let_def x25519_scalar_mult_vfy_def derive_Ok
      split: if_splits)

text \<open>
  C28: Two sides that start from the same invitation and mailbox complete CPace alike. With
  X25519's commutativity they compute the same outcome, and a key they obtain is the hash of
  the session, the shared point and both public messages in the fixed role order. A peer message is
  accepted only from the other side and with exactly the associated data the invitation
  prescribes for it.
\<close>

theorem cpace_peers_agree:
  assumes commute: "\<And>a b q. dh a (dh b q) = dh b (dh a q)"
    and alloc: "start_pairing C X F dh SideAllocator i mailbox_id sa = Ok (sta, ma)"
    and claim: "start_pairing C X F dh SideClaimant i mailbox_id sb = Ok (stb, mb)"
  shows "cpace_finish X dh sta mb = cpace_finish X dh stb ma \<and>
    (\<forall>k. cpace_finish X dh sta mb = Ok k \<longrightarrow>
       k = cr_sha512 X (key_input mailbox_id (dh sa (cm_share mb)) ma mb)) \<and>
    (\<forall>m k. cpace_finish X dh sta m = Ok k \<longrightarrow>
       cm_side m = SideClaimant \<and> cm_associated_data m = cm_associated_data mb)"
proof -
  obtain ctx g where a: "derive C i mailbox_id = Ok ctx"
    "calculate_generator X F (inv_secret i) (pc_channel_identifier ctx) (pc_session_id ctx) = Ok g"
    "ma = \<lparr>cm_side = SideAllocator, cm_share = dh sa g,
       cm_associated_data = context_associated_data ctx SideAllocator\<rparr>"
    "sta = \<lparr>cs_side = SideAllocator, cs_scalar = sa, cs_local_message = ma, cs_sid = mailbox_id,
      cs_expected_peer_associated_data = Some (context_associated_data ctx SideClaimant)\<rparr>"
    using start_pairing_Ok[OF alloc] by (auto simp: other_side_def)
  then have b: "mb = \<lparr>cm_side = SideClaimant, cm_share = dh sb g,
       cm_associated_data = context_associated_data ctx SideClaimant\<rparr>"
    "stb = \<lparr>cs_side = SideClaimant, cs_scalar = sb, cs_local_message = mb, cs_sid = mailbox_id,
      cs_expected_peer_associated_data = Some (context_associated_data ctx SideAllocator)\<rparr>"
    using start_pairing_Ok[OF claim] by (auto simp: other_side_def)
  have same: "dh sb (cm_share ma) = dh sa (cm_share mb)" by (simp add: a(3) b(1) commute[of sa sb])
  have fa: "cpace_finish X dh sta mb =
      (if dh sa (cm_share mb) = replicate 32 0 then Err InvalidPeerPoint
       else Ok (cr_sha512 X (key_input mailbox_id (dh sa (cm_share mb)) ma mb)))"
    by (simp add: cpace_finish_def a(4) x25519_scalar_mult_vfy_def Let_def) (simp add: b(1))
  have fb: "cpace_finish X dh stb ma =
      (if dh sa (cm_share mb) = replicate 32 0 then Err InvalidPeerPoint
       else Ok (cr_sha512 X (key_input mailbox_id (dh sa (cm_share mb)) ma mb)))"
    by (simp add: cpace_finish_def b(2) x25519_scalar_mult_vfy_def Let_def same) (simp add: a(3))
  have "cm_side m = SideClaimant \<and> cm_associated_data m = cm_associated_data mb"
    if "cpace_finish X dh sta m = Ok k" for m k
    using that by (cases "cm_side m") (auto simp: cpace_finish_def a(4) b(1) split: if_splits)
  with fa fb show ?thesis by (auto split: if_splits)
qed

section \<open>The field wrapper\<close>

definition field_p :: int where
  "field_p = 2 ^ 255 - 19"

text \<open>The documented meaning and bounds of fiat-crypto's limb vectors: five limbs of weight \<open>2 ^ 51\<close>.\<close>

fun limb_value :: "limbs \<Rightarrow> nat" where
  "limb_value [] = 0"
| "limb_value (l # ls) = l + 2 ^ 51 * limb_value ls"

definition tight :: "limbs \<Rightarrow> bool" where
  "tight a \<longleftrightarrow> length a = 5 \<and> list_all (\<lambda>l. l \<le> 2 ^ 51) a"

definition loose :: "limbs \<Rightarrow> bool" where
  "loose a \<longleftrightarrow> length a = 5 \<and> list_all (\<lambda>l. l \<le> 3 * 2 ^ 51) a"

definition denotes :: "limbs \<Rightarrow> int \<Rightarrow> bool" where
  "denotes a x \<longleftrightarrow> int (limb_value a) mod field_p = x mod field_p"

fun le_value :: "bytes \<Rightarrow> nat" where
  "le_value [] = 0"
| "le_value (b # bs) = unat b + 256 * le_value bs"

fun le_bytes :: "nat \<Rightarrow> nat \<Rightarrow> bytes" where
  "le_bytes 0 n = []"
| "le_bytes (Suc k) n = of_nat (n mod 256) # le_bytes k (n div 256)"

definition fiat_sound :: "fiat \<Rightarrow> bool" where
  "fiat_sound F \<longleftrightarrow>
     (\<forall>b. length b = 32 \<longrightarrow> le_value b < 2 ^ 255 \<longrightarrow>
        tight (fi_from_bytes F b) \<and> denotes (fi_from_bytes F b) (int (le_value b))) \<and>
     (\<forall>a x. tight a \<longrightarrow> denotes a x \<longrightarrow> fi_to_bytes F a = le_bytes 32 (nat (x mod field_p))) \<and>
     (\<forall>a b x y. tight a \<longrightarrow> tight b \<longrightarrow> denotes a x \<longrightarrow> denotes b y \<longrightarrow>
        loose (fi_add F a b) \<and> denotes (fi_add F a b) (x + y) \<and>
        loose (fi_sub F a b) \<and> denotes (fi_sub F a b) (x - y) \<and>
        loose (fi_opp F a) \<and> denotes (fi_opp F a) (- x) \<and>
        loose (fi_relax F a) \<and> denotes (fi_relax F a) x) \<and>
     (\<forall>a b x y. loose a \<longrightarrow> loose b \<longrightarrow> denotes a x \<longrightarrow> denotes b y \<longrightarrow>
        tight (fi_carry F a) \<and> denotes (fi_carry F a) x \<and>
        tight (fi_carry_mul F a b) \<and> denotes (fi_carry_mul F a b) (x * y) \<and>
        tight (fi_carry_square F a) \<and> denotes (fi_carry_square F a) (x * x))"

text \<open>A field element of the wrapper that stands for \<open>x\<close>.\<close>

definition fe :: "limbs \<Rightarrow> int \<Rightarrow> bool" where
  "fe a x \<longleftrightarrow> tight a \<and> denotes a x"

named_theorems field_rules \<open>what each wrapper operation denotes\<close>

lemma fiat_tight:
  assumes "fiat_sound F" and "fe a x" and "fe b y"
  shows "loose (fi_add F a b) \<and> denotes (fi_add F a b) (x + y)"
    "loose (fi_sub F a b) \<and> denotes (fi_sub F a b) (x - y)"
    "loose (fi_opp F a) \<and> denotes (fi_opp F a) (- x)"
    "loose (fi_relax F a) \<and> denotes (fi_relax F a) x"
  using assms unfolding fiat_sound_def fe_def by meson+

lemma fiat_loose:
  assumes "fiat_sound F" and "loose a \<and> denotes a x" and "loose b \<and> denotes b y"
  shows "fe (fi_carry F a) x" "fe (fi_carry_mul F a b) (x * y)" "fe (fi_carry_square F a) (x * x)"
  using assms unfolding fiat_sound_def fe_def by meson+

lemma fe_add_denotes [field_rules]: "fiat_sound F \<Longrightarrow> fe a x \<Longrightarrow> fe b y \<Longrightarrow> fe (fe_add F a b) (x + y)"
  unfolding fe_add_def using fiat_loose(1) fiat_tight(1) by blast

lemma fe_sub_denotes [field_rules]: "fiat_sound F \<Longrightarrow> fe a x \<Longrightarrow> fe b y \<Longrightarrow> fe (fe_sub F a b) (x - y)"
  unfolding fe_sub_def using fiat_loose(1) fiat_tight(2) by blast

lemma fe_neg_denotes [field_rules]: "fiat_sound F \<Longrightarrow> fe a x \<Longrightarrow> fe (fe_neg F a) (- x)"
  unfolding fe_neg_def using fiat_loose(1) fiat_tight(3) by blast

lemma fe_mul_denotes [field_rules]: "fiat_sound F \<Longrightarrow> fe a x \<Longrightarrow> fe b y \<Longrightarrow> fe (fe_mul F a b) (x * y)"
  unfolding fe_mul_def by (intro fiat_loose(2) fiat_tight(4))

lemma fe_square_denotes [field_rules]: "fiat_sound F \<Longrightarrow> fe a x \<Longrightarrow> fe (fe_square F a) (x * x)"
  unfolding fe_square_def by (rule fiat_loose(3)) (rule fiat_tight(4) | assumption)+

lemma fe_constants [field_rules]:
  "fe fe_one 1" "fe CURVE_A 486662" "fe CURVE_A_OVER_TWO 243331"
  by (simp_all add: fe_def tight_def denotes_def fe_one_def CURVE_A_def CURVE_A_OVER_TWO_def)

lemma fe_cong: "fe a x \<Longrightarrow> x = y \<Longrightarrow> fe a y"
  by simp

definition bits_value :: "bool list \<Rightarrow> nat \<Rightarrow> nat" where
  "bits_value bs acc = foldl (\<lambda>n b. 2 * n + of_bool b) acc bs"

lemma pow_step_denotes:
  assumes "fiat_sound F" and "fe a x"
  shows "fe acc (x ^ n) \<Longrightarrow> fe (foldl (pow_step F a) acc bs) (x ^ bits_value bs n)"
proof (induction bs arbitrary: acc n)
  case Nil
  then show ?case by (simp add: bits_value_def)
next
  case (Cons b bs)
  have sq: "fe (fe_square F acc) (x ^ (2 * n))"
    using fe_square_denotes[OF assms(1) Cons.prems] by (simp add: mult_2 power_add)
  have "fe (pow_step F a acc b) (x ^ (2 * n + of_bool b))"
    using sq fe_mul_denotes[OF assms(1) sq assms(2)] by (cases b) (simp_all add: pow_step_def mult.commute)
  from Cons.IH[OF this] show ?case by (simp add: bits_value_def)
qed

lemma bits_value_rev: "bits_value (rev bs) n = n * 2 ^ length bs + horner_sum of_bool 2 bs"
  by (induction bs) (auto simp: bits_value_def algebra_simps)

lemma byte_bits:
  "bits_value (map (\<lambda>k. (b :: byte) AND push_bit k 1 \<noteq> 0) (rev [0..<8])) n = n * 256 + unat b"
proof -
  have eq: "(b AND push_bit k 1 \<noteq> 0) = bit (unat b) k" if "k < 8" for k
    using that and_exp_eq_0_iff_not_bit[of b k] by (simp add: push_bit_of_1 bit_unsigned_iff)
  have "map (\<lambda>k. b AND push_bit k 1 \<noteq> 0) (rev [0..<8]) = rev (map (bit (unat b)) [0..<8])"
    using eq by (simp add: rev_map)
  then have "bits_value (map (\<lambda>k. b AND push_bit k 1 \<noteq> 0) (rev [0..<8])) n =
      n * 256 + horner_sum of_bool 2 (map (bit (unat b)) [0..<8])"
    by (simp only: bits_value_rev) simp
  also have "\<dots> = n * 256 + take_bit 8 (unat b)" by (simp only: horner_sum_bit_eq_take_bit)
  also have "take_bit 8 (unat b) = unat b" using unsigned_less[of b, where 'a = nat] by (simp add: take_bit_nat_eq_self)
  finally show ?thesis .
qed

lemma bits_value_append: "bits_value (xs @ ys) n = bits_value ys (bits_value xs n)"
  by (simp add: bits_value_def)

lemma le_value_append: "le_value (xs @ ys) = le_value xs + 256 ^ length xs * le_value ys"
  by (induction xs) (simp_all add: algebra_simps)

lemma exponent_value: "bits_value (exponent_bits e) n = n * 256 ^ length e + le_value e"
proof (induction e arbitrary: n rule: rev_induct)
  case Nil
  then show ?case by (simp add: exponent_bits_def bits_value_def)
next
  case (snoc b e)
  have "exponent_bits (e @ [b]) = map (\<lambda>k. b AND push_bit k 1 \<noteq> 0) (rev [0..<8]) @ exponent_bits e"
    by (simp add: exponent_bits_def)
  then have "bits_value (exponent_bits (e @ [b])) n = bits_value (exponent_bits e) (n * 256 + unat b)"
    by (simp only: bits_value_append byte_bits)
  then show ?case using snoc.IH by (simp add: le_value_append algebra_simps)
qed

lemma fe_pow_denotes [field_rules]:
  "fiat_sound F \<Longrightarrow> fe a x \<Longrightarrow> fe (fe_pow F a e) (x ^ le_value e)"
  using pow_step_denotes[of F a x fe_one 0 "exponent_bits e"] fe_constants(1)
  by (simp add: fe_pow_def exponent_value)

lemma exponent_constants:
  "le_value P_MINUS_TWO = 2 ^ 255 - 21" "le_value P_MINUS_ONE_OVER_TWO = 2 ^ 254 - 10"
  by (simp_all add: P_MINUS_TWO_def P_MINUS_ONE_OVER_TWO_def replicate_num)

text \<open>The Elligator2 map of RFC 9380, section 6.7.1, on residues modulo \<open>2 ^ 255 - 19\<close>.\<close>

definition elligator2 :: "int \<Rightarrow> int" where
  "elligator2 r =
     (let v = - 486662 * (1 + 2 * r\<^sup>2) ^ (2 ^ 255 - 21);
          e = (v ^ 3 + 486662 * v\<^sup>2 + v) ^ (2 ^ 254 - 10)
      in (e * v - (1 - e) * 243331) mod field_p)"

lemma le_value_less: "le_value b < 256 ^ length b"
proof (induction b)
  case (Cons c b)
  have "unat c < 256" using unsigned_less[of c, where 'a = nat] by simp
  moreover have "Suc (le_value b) * 256 \<le> 256 ^ length b * 256" using Cons by simp
  ultimately show ?case by simp
qed simp

lemma clear_top_bit_less:
  assumes "length b = 32"
  shows "length (clear_top_bit b) = 32 \<and> le_value (clear_top_bit b) < 2 ^ 255"
proof -
  have "clear_top_bit b = take 31 b @ [b ! 31 AND 127]"
    using assms by (simp add: clear_top_bit_def upd_conv_take_nth_drop)
  moreover have "le_value (take 31 b) < 256 ^ 31" using le_value_less[of "take 31 b"] assms by simp
  moreover have "unat (b ! 31 AND 127) < 128"
  proof -
    have "unat (b ! 31 AND 127) = unat (b ! 31) AND 127" by (simp add: unsigned_and_eq)
    also have "\<dots> < 128" by (simp add: and_127)
    finally show ?thesis .
  qed
  ultimately show ?thesis using assms by (simp add: le_value_append)
qed

text \<open>
  C26: The field wrapper computes the Elligator2 map: for every 32-octet representative, of
  which the top bit is ignored, the encoded u-coordinate is the canonical little-endian
  encoding of the map's value, where inversion and the quadratic character are the two
  fixed-exponent power loops over the constants \<open>p - 2\<close> and \<open>(p - 1) / 2\<close>.
\<close>

theorem elligator2_computed:
  assumes F: "fiat_sound F" and len: "length representative = 32"
  shows "elligator2_curve25519 F representative =
    le_bytes 32 (nat (elligator2 (int (le_value (clear_top_bit representative)))))"
proof -
  define x where "x = int (le_value (clear_top_bit representative))"
  define r where "r = fi_from_bytes F (clear_top_bit representative)"
  define d where "d = fe_add F fe_one (fe_mul F (fe_add F fe_one fe_one) (fe_square F r))"
  define v where "v = fe_mul F (fe_neg F CURVE_A) (fe_invert F d)"
  define c where "c = fe_mul F v (fe_add F (fe_add F (fe_square F v) (fe_mul F CURVE_A v)) fe_one)"
  define e where "e = fe_pow F c P_MINUS_ONE_OVER_TWO"
  define xd where "xd = 1 + (1 + 1) * (x * x)"
  define xv where "xv = - 486662 * xd ^ le_value P_MINUS_TWO"
  define xc where "xc = xv * (xv * xv + 486662 * xv + 1)"
  define xe where "xe = xc ^ le_value P_MINUS_ONE_OVER_TWO"
  have "fe r x"
    using F clear_top_bit_less[OF len] by (simp add: fiat_sound_def fe_def r_def x_def)
  then have "fe d xd" unfolding d_def xd_def by (intro field_rules F)
  then have "fe v xv" unfolding v_def xv_def fe_invert_def by (intro field_rules F)
  then have "fe c xc" unfolding c_def xc_def by (intro field_rules F)
  then have "fe e xe" unfolding e_def xe_def by (intro field_rules F)
  with \<open>fe v xv\<close> have "fe (fe_sub F (fe_mul F e v) (fe_mul F (fe_sub F fe_one e) CURVE_A_OVER_TWO))
      (xe * xv - (1 - xe) * 243331)" by (intro field_rules F)
  then have "elligator2_curve25519 F representative =
      le_bytes 32 (nat ((xe * xv - (1 - xe) * 243331) mod field_p))"
    using F unfolding elligator2_curve25519_def Let_def
    by (simp add: fiat_sound_def fe_def r_def[symmetric] d_def[symmetric] v_def[symmetric] c_def[symmetric]
        e_def[symmetric])
  moreover have "xd = 1 + 2 * x\<^sup>2" by (simp add: xd_def power2_eq_square)
  then have "xv = - 486662 * (1 + 2 * x\<^sup>2) ^ (2 ^ 255 - 21)"
    by (simp only: xv_def exponent_constants)
  moreover have "xc = xv ^ 3 + 486662 * xv\<^sup>2 + xv"
    by (simp add: xc_def power2_eq_square power3_eq_cube algebra_simps)
  then have "xe = (xv ^ 3 + 486662 * xv\<^sup>2 + xv) ^ (2 ^ 254 - 10)"
    by (simp only: xe_def exponent_constants)
  ultimately show ?thesis unfolding elligator2_def Let_def x_def[symmetric] by (simp only:)
qed

section \<open>Concrete instances\<close>

text \<open>A reference implementation of the limb arithmetic, one canonical limb vector per residue.\<close>

fun limbs_of :: "nat \<Rightarrow> nat \<Rightarrow> limbs" where
  "limbs_of 0 n = []"
| "limbs_of (Suc k) n = n mod 2 ^ 51 # limbs_of k (n div 2 ^ 51)"

definition residue_limbs :: "int \<Rightarrow> limbs" where
  "residue_limbs x = limbs_of 5 (nat (x mod field_p))"

definition limb_int :: "limbs \<Rightarrow> int" where
  "limb_int a = int (limb_value a)"

definition reference_fiat :: fiat where
  "reference_fiat = \<lparr>fi_from_bytes = (\<lambda>b. residue_limbs (int (le_value b))),
     fi_to_bytes = (\<lambda>a. le_bytes 32 (nat (limb_int a mod field_p))),
     fi_add = (\<lambda>a b. residue_limbs (limb_int a + limb_int b)),
     fi_sub = (\<lambda>a b. residue_limbs (limb_int a - limb_int b)),
     fi_opp = (\<lambda>a. residue_limbs (- limb_int a)), fi_carry = (\<lambda>a. residue_limbs (limb_int a)),
     fi_relax = (\<lambda>a. residue_limbs (limb_int a)),
     fi_carry_mul = (\<lambda>a b. residue_limbs (limb_int a * limb_int b)),
     fi_carry_square = (\<lambda>a. residue_limbs (limb_int a * limb_int a))\<rparr>"

lemma limb_value_of: "n < (2 ^ 51) ^ k \<Longrightarrow> limb_value (limbs_of k n) = n"
proof (induction k arbitrary: n)
  case (Suc k)
  have "n div 2 ^ 51 < (2 ^ 51) ^ k" using Suc.prems by (simp add: less_mult_imp_div_less mult.commute)
  then show ?case using Suc.IH[of "n div 2 ^ 51"] by (simp add: mod_div_mult_eq)
qed simp

lemma length_limbs_of: "length (limbs_of k n) = k" "list_all (\<lambda>l. l \<le> 2 ^ 51) (limbs_of k n)"
  by (induction k arbitrary: n) (auto intro: less_imp_le)

lemma residue_limbs_ok: "tight (residue_limbs x)" "loose (residue_limbs x)" "denotes (residue_limbs x) x"
proof -
  show t: "tight (residue_limbs x)" unfolding tight_def residue_limbs_def using length_limbs_of by blast
  then show "loose (residue_limbs x)"
    by (auto simp: tight_def loose_def list_all_iff)
  have "0 \<le> x mod field_p" "x mod field_p < 2 ^ 255" by (simp_all add: field_p_def pos_mod_bound less_trans[OF pos_mod_bound])
  then have "limb_value (residue_limbs x) = nat (x mod field_p)"
    unfolding residue_limbs_def by (intro limb_value_of) (simp add: nat_less_iff)
  then show "denotes (residue_limbs x) x" using \<open>0 \<le> x mod field_p\<close> by (simp add: denotes_def)
qed

lemma residue_limbs_cong: "x' mod field_p = x mod field_p \<Longrightarrow> denotes (residue_limbs x') x"
  using residue_limbs_ok(3)[of x'] by (simp add: denotes_def)

lemma denotes_int: "denotes a x \<Longrightarrow> limb_int a mod field_p = x mod field_p"
  by (simp add: denotes_def limb_int_def)

lemma diff_mod_field:
  "a mod field_p = a' mod field_p \<Longrightarrow> b mod field_p = b' mod field_p \<Longrightarrow>
     (a - b) mod field_p = (a' - b') mod field_p"
  by (metis mod_diff_eq)

lemma minus_mod_field: "a mod field_p = a' mod field_p \<Longrightarrow> - a mod field_p = - a' mod field_p"
  by (metis mod_minus_eq)

lemma residue_add:
  "denotes a x \<Longrightarrow> denotes b y \<Longrightarrow> denotes (residue_limbs (limb_int a + limb_int b)) (x + y)"
  by (rule residue_limbs_cong[OF mod_add_cong[OF denotes_int denotes_int]])

lemma residue_sub:
  "denotes a x \<Longrightarrow> denotes b y \<Longrightarrow> denotes (residue_limbs (limb_int a - limb_int b)) (x - y)"
  by (rule residue_limbs_cong[OF diff_mod_field[OF denotes_int denotes_int]])

lemma residue_neg: "denotes a x \<Longrightarrow> denotes (residue_limbs (- limb_int a)) (- x)"
  by (rule residue_limbs_cong[OF minus_mod_field[OF denotes_int]])

lemma residue_mul:
  "denotes a x \<Longrightarrow> denotes b y \<Longrightarrow> denotes (residue_limbs (limb_int a * limb_int b)) (x * y)"
  by (rule residue_limbs_cong[OF mod_mult_cong[OF denotes_int denotes_int]])

lemma residue_same: "denotes a x \<Longrightarrow> denotes (residue_limbs (limb_int a)) x"
  by (rule residue_limbs_cong[OF denotes_int])

lemma reference_fiat_sound: "fiat_sound reference_fiat"
  unfolding fiat_sound_def reference_fiat_def fiat.simps
  by (intro conjI allI impI residue_limbs_ok residue_add residue_sub residue_neg residue_mul residue_same)
    (simp_all add: denotes_def limb_int_def)

theorem elligator2_computed_witness:
  "elligator2_curve25519 reference_fiat (replicate 32 0) =
    le_bytes 32 (nat (elligator2 (int (le_value (clear_top_bit (replicate 32 0))))))"
  using elligator2_computed[OF reference_fiat_sound, of "replicate 32 0"] by simp

definition demo_pairing_table :: "(cbor \<times> bytes) list" where
  "demo_pairing_table = demo_invitation_table @
     [(channel_identifier_value demo_invitation [5], [30]), (channel_context_value demo_invitation [5], [31]),
      (associated_data_value SideAllocator None, [32]), (associated_data_value SideClaimant None, [33])]"

lemma demo_derive:
  "derive (table_codec demo_pairing_table) demo_invitation [5] =
     Ok \<lparr>pc_channel_identifier = [30], pc_channel_context = [31], pc_session_id = [5],
         pc_allocator_data = [32], pc_claimant_data = [33]\<rparr>"
proof -
  have "encode_invitation (table_codec demo_pairing_table) demo_invitation = Ok [20]"
    by (simp add: demo_eval field_eval demo_pairing_table_def demo_invitation_table_def demo_invitation_def
      encode_invitation_def decode_invitation_def invitation_value_def validate_application_def
      validate_origin_def valid_application_id_def valid_relay_origin_def valid_dns_label_def
      is_ascii_def is_ascii_alphabetic_def is_ascii_alphanumeric_def is_ascii_digit_def
      char_code_def starts_with_def)
  then show ?thesis
    by (simp add: derive_def associated_data_def ctx_canonical_def table_codec_def demo_pairing_table_def
        demo_invitation_table_def demo_invitation_def invitation_value_def cmap_def channel_identifier_value_def
        channel_context_value_def associated_data_value_def key_value_def side_name_def AD_DOMAIN_def
        CI_DOMAIN_def CHANNEL_CONTEXT_DOMAIN_def)
qed

definition demo_dh :: "bytes \<Rightarrow> bytes \<Rightarrow> bytes" where
  "demo_dh a q = replicate 32 1"

lemma demo_generator_string:
  "generator_string [1] [30] [5] = Ok (length_value CPACE_DSI @ length_value [1] @ leb128 116 @
     replicate 116 0 @ length_value [30] @ length_value [5])"
proof -
  have "length CPACE_DSI = 8" by (simp add: CPACE_DSI_def ascii_def)
  then have sizes: "prepend_len_size CPACE_DSI = Ok 9" "prepend_len_size [b] = Ok 2" "leb128_size 116 = 1" for b
    by (simp_all add: prepend_len_size_def leb128_size_length leb128_small machine_int u64_max_def)
  have pad: "saturating_sub_u64 SHA512_INPUT_BLOCK_BYTES (saturating_add_u64 11 1) = 116"
    by (subst padding_length) simp
  show ?thesis
    by (simp add: generator_string_def sizes checked_add_u64_def u64_max_def pad[simplified])
qed

lemma demo_start:
  "\<exists>st m. start_pairing (table_codec demo_pairing_table) demo_crypto reference_fiat demo_dh sd demo_invitation [5] s = Ok (st, m)"
proof -
  have "inv_secret demo_invitation = [1]" by (simp add: demo_invitation_def)
  moreover have "x25519_scalar_mult_vfy demo_dh s q = Ok (replicate 32 1)" for q
    by (simp add: x25519_scalar_mult_vfy_def demo_dh_def replicate_eq_replicate)
  ultimately show ?thesis
    by (simp add: start_pairing_def demo_derive start_def calculate_generator_def demo_generator_string Let_def)
qed

theorem cpace_peers_agree_witness:
  "\<exists>sta ma stb mb.
     start_pairing (table_codec demo_pairing_table) demo_crypto reference_fiat demo_dh SideAllocator demo_invitation [5] [1] = Ok (sta, ma) \<and>
     start_pairing (table_codec demo_pairing_table) demo_crypto reference_fiat demo_dh SideClaimant demo_invitation [5] [2] = Ok (stb, mb) \<and>
     cpace_finish demo_crypto demo_dh sta mb = cpace_finish demo_crypto demo_dh stb ma"
proof -
  obtain sta ma where a: "start_pairing (table_codec demo_pairing_table) demo_crypto reference_fiat demo_dh
      SideAllocator demo_invitation [5] [1] = Ok (sta, ma)" using demo_start by blast
  obtain stb mb where b: "start_pairing (table_codec demo_pairing_table) demo_crypto reference_fiat demo_dh
      SideClaimant demo_invitation [5] [2] = Ok (stb, mb)" using demo_start by blast
  have "demo_dh x (demo_dh y q) = demo_dh y (demo_dh x q)" for x y q by (simp add: demo_dh_def)
  from cpace_peers_agree[OF this a b] a b show ?thesis by blast
qed

theorem cpace_inputs_unambiguous_witness:
  "drop 128 (length_value CPACE_DSI @ length_value [1] @ leb128 116 @ replicate 116 0 @
      length_value [30] @ length_value [5]) = length_value [30] @ length_value [5]"
  by (rule cpace_inputs_unambiguous[THEN conjunct2, THEN conjunct2, rule_format, OF demo_generator_string]) simp

end
