(* ===== verification/Profile.thy ===== *)
theory Profile
  imports Wire
begin

text \<open>
  The application profiles of \<^verbatim>\<open>src/src/profile.rs\<close>: the contract an endpoint calls
  (\<open>profile_ops\<close>), the three built-in profiles, their claim and grant bodies, and the two-word
  carrier of agent invitations. The CBOR codec, SHA-256, the URL parser and the BIP-39 word
  list are outside the repository and are the fields of \<open>profile_env\<close>; the grant verifier an
  application injects is a parameter with a state of its own.
\<close>

unbundle bit_operations_syntax

section \<open>Data\<close>

record full_url = parsed_url +
  url_scheme :: string
  url_host :: "string option"
  url_port :: "nat option"

record profile_env =
  pe_codec :: codec
  pe_sha256 :: "bytes \<Rightarrow> bytes"
  pe_url :: "string \<Rightarrow> full_url option"
  pe_find_word :: "string \<Rightarrow> u16 option"
  pe_word_list :: "string list"

definition AGENT_APPLICATION :: string where "AGENT_APPLICATION = ''anuna.io/agent/v1''"
definition AGENT_ACTION :: string where "AGENT_ACTION = ''pair-agent''"
definition AGENT_PAYLOAD :: string where "AGENT_PAYLOAD = ''anuna.io/agent-grant/v1''"
definition CREDENTIAL_APPLICATION :: string where "CREDENTIAL_APPLICATION = ''anuna.io/credential/v1''"
definition CREDENTIAL_ACTION :: string where "CREDENTIAL_ACTION = ''transfer-credential''"
definition CREDENTIAL_PAYLOAD :: string where "CREDENTIAL_PAYLOAD = ''anuna.io/account-credential/v1''"
definition SYNTHETIC_APPLICATION :: string where "SYNTHETIC_APPLICATION = ''example.test/synthetic/v1''"
definition SYNTHETIC_ACTION :: string where "SYNTHETIC_ACTION = ''exercise-profile''"
definition SYNTHETIC_PAYLOAD :: string where "SYNTHETIC_PAYLOAD = ''example.test/synthetic-grant/v1''"

datatype locator_kind = KindDirect | KindNameplate

fun locator_kind_matches :: "locator_kind \<Rightarrow> locator \<Rightarrow> bool" where
  "locator_kind_matches KindDirect (Direct _) = True"
| "locator_kind_matches KindNameplate (Nameplate _) = True"
| "locator_kind_matches _ _ = False"

record carrier_contract =
  cc_carrier :: string
  cc_locator :: locator_kind
  cc_minimum_entropy_bits :: u16

record profile_descriptor =
  pr_application :: string
  pr_payload_type :: string
  pr_carrier :: carrier_contract
  pr_approval_authority :: string
  pr_grant_verifier :: string

record display_field =
  df_label :: string
  df_value :: string
  df_claimed_by_secret_holder :: bool

record display_intent =
  di_application :: string
  di_action :: string
  di_authority_summary :: string
  di_fields :: "display_field list"

type_synonym profile_binding = bytes

record recognised_payload =
  rp_application :: string
  rp_payload_type :: string
  rp_body :: bytes

record authorised_grant =
  ag_application :: string
  ag_payload_type :: string
  ag_body :: bytes

definition grant :: "recognised_payload \<Rightarrow> authorised_grant" where
  "grant p = \<lparr>ag_application = rp_application p, ag_payload_type = rp_payload_type p, ag_body = rp_body p\<rparr>"

datatype profile_error =
    InvalidInvitation
  | WrongApplication
  | InvalidAction
  | InvalidClaim
  | InvalidPayloadType
  | InvalidPayload
  | Unauthorized

text \<open>The contract of a profile: its methods, with the profile's own state \<open>'p\<close> threaded through.\<close>

record 'p profile_ops =
  pf_recognise_invitation :: "'p \<Rightarrow> invitation \<Rightarrow> (unit, profile_error) result"
  pf_recognise_intent :: "'p \<Rightarrow> pairing_intent \<Rightarrow> (display_intent \<times> profile_binding, profile_error) result \<times> 'p"
  pf_recognise_payload :: "'p \<Rightarrow> profile_binding \<Rightarrow> application_payload \<Rightarrow> (recognised_payload, profile_error) result"
  pf_authorize_payload :: "'p \<Rightarrow> recognised_payload \<Rightarrow> (authorised_grant, profile_error) result \<times> 'p"

section \<open>Texts, octets and origins\<close>

text \<open>
  \<^verbatim>\<open>char::is_control\<close> on the UTF-8 octets: the ranges 0--31 and 127, and the two-octet forms
  of 128--159.
\<close>

fun has_control :: "string \<Rightarrow> bool" where
  "has_control [] = False"
| "has_control (c # cs) =
     (char_code c < 32 \<or> char_code c = 127 \<or>
      (char_code c = 194 \<and> (case cs of [] \<Rightarrow> False | d # _ \<Rightarrow> 128 \<le> char_code d \<and> char_code d \<le> 159)) \<or>
      has_control cs)"

definition bounded_text :: "string \<Rightarrow> nat \<Rightarrow> bool" where
  "bounded_text v hi \<longleftrightarrow> \<not> (v = [] \<or> length v > hi \<or> has_control v)"

definition bounded_bytes :: "bytes \<Rightarrow> nat \<Rightarrow> nat \<Rightarrow> bool" where
  "bounded_bytes v lo hi \<longleftrightarrow> \<not> (length v < lo \<or> length v > hi)"

definition guard :: "bool \<Rightarrow> 'e \<Rightarrow> (unit, 'e) result" where
  "guard b e = (if b then Ok () else Err e)"

fun decimal :: "nat \<Rightarrow> string" where
  "decimal n = (if n < 10 then [char_of (48 + n)] else decimal (n div 10) @ [char_of (48 + n mod 10)])"

declare decimal.simps [simp del]

definition canonical_https_origin :: "profile_env \<Rightarrow> string \<Rightarrow> bool" where
  "canonical_https_origin E v =
     (case pe_url E v of
        None \<Rightarrow> False
      | Some parsed \<Rightarrow>
          if url_scheme parsed \<noteq> ''https'' \<or> url_username parsed \<noteq> [] \<or> url_password parsed \<noteq> None \<or>
             url_query parsed \<noteq> None \<or> url_fragment parsed \<noteq> None \<or> url_path parsed \<noteq> ''/''
          then False
          else case url_host parsed of
            None \<Rightarrow> False
          | Some host \<Rightarrow>
              v = (case url_port parsed of
                     Some port \<Rightarrow> ''https://'' @ host @ '':'' @ decimal port
                   | None \<Rightarrow> ''https://'' @ host))"

section \<open>Claim and grant bodies\<close>

definition encode_map :: "profile_env \<Rightarrow> (string \<times> cbor) list \<Rightarrow> (bytes, profile_error) result" where
  "encode_map E fds = ok_or InvalidClaim (cd_canonical (pe_codec E) (cmap fds))"

definition canonical_map :: "profile_env \<Rightarrow> bytes \<Rightarrow> nat \<Rightarrow> profile_error \<Rightarrow> ((cbor \<times> cbor) list, profile_error) result" where
  "canonical_map E input expected_fields e =
     bind_result (ok_or e (cd_read (pe_codec E) input)) (\<lambda>(v, position).
     if position \<noteq> length input then Err e
     else bind_result (ok_or e (cd_canonical (pe_codec E) v)) (\<lambda>canonical.
       if canonical \<noteq> input then Err e
       else case v of
         CMap fds \<Rightarrow> if length fds \<noteq> expected_fields then Err e else Ok fds
       | _ \<Rightarrow> Err e))"

text \<open>The single value under a name: an absent or repeated name is an error.\<close>

definition unique_field :: "(cbor \<times> cbor) list \<Rightarrow> string \<Rightarrow> cbor option" where
  "unique_field fds name =
     (case filter (\<lambda>(key, _). key = CText name) fds of [(_, v)] \<Rightarrow> Some v | _ \<Rightarrow> None)"

definition pf_text_field :: "(cbor \<times> cbor) list \<Rightarrow> string \<Rightarrow> nat \<Rightarrow> profile_error \<Rightarrow> (string, profile_error) result" where
  "pf_text_field fds name hi e =
     bind_result (ok_or e (unique_field fds name)) (\<lambda>v.
       case v of CText t \<Rightarrow> bind_result (guard (bounded_text t hi) e) (\<lambda>_. Ok t) | _ \<Rightarrow> Err e)"

definition pf_bytes_field :: "(cbor \<times> cbor) list \<Rightarrow> string \<Rightarrow> nat \<Rightarrow> profile_error \<Rightarrow> (bytes, profile_error) result" where
  "pf_bytes_field fds name hi e =
     bind_result (ok_or e (unique_field fds name)) (\<lambda>v.
       case v of CBytes b \<Rightarrow> bind_result (guard (bounded_bytes b 1 hi) e) (\<lambda>_. Ok b) | _ \<Rightarrow> Err e)"

definition binding_value :: "string list \<Rightarrow> cbor" where
  "binding_value fds = CArray (map CText fds)"

definition binding :: "profile_env \<Rightarrow> string list \<Rightarrow> (bytes, profile_error) result" where
  "binding E fds =
     bind_result (ok_or InvalidClaim (cd_canonical (pe_codec E) (binding_value fds)))
       (\<lambda>encoded. Ok (pe_sha256 E encoded))"

subsection \<open>Agent\<close>

record agent_intent_claims =
  aic_channel :: string
  aic_claimed_principal :: string
  aic_agent_handle :: string
  aic_requested_grant :: string

record agent_grant =
  agr_claimed_principal :: string
  agr_agent_handle :: string
  agr_requested_grant :: string
  agr_grant :: bytes

definition validate_agent_texts :: "string \<Rightarrow> string \<Rightarrow> string \<Rightarrow> (unit, profile_error) result" where
  "validate_agent_texts princ handle requested_grant =
     bind_result (guard (bounded_text princ 255) InvalidClaim) (\<lambda>_.
     bind_result (guard (bounded_text handle 128) InvalidClaim) (\<lambda>_.
       guard (bounded_text requested_grant 128) InvalidClaim))"

definition validate_agent_claims :: "agent_intent_claims \<Rightarrow> (unit, profile_error) result" where
  "validate_agent_claims v =
     bind_result (guard (bounded_text (aic_channel v) 64) InvalidClaim) (\<lambda>_.
       validate_agent_texts (aic_claimed_principal v) (aic_agent_handle v) (aic_requested_grant v))"

definition encode_agent_claims :: "profile_env \<Rightarrow> agent_intent_claims \<Rightarrow> (bytes \<times> bytes, profile_error) result" where
  "encode_agent_claims E v =
     bind_result (validate_agent_claims v) (\<lambda>_.
     bind_result (encode_map E [(''principal'', CText (aic_claimed_principal v)),
        (''agent-handle'', CText (aic_agent_handle v)), (''requested-grant'', CText (aic_requested_grant v))]) (\<lambda>a.
     bind_result (encode_map E [(''channel'', CText (aic_channel v))]) (\<lambda>c. Ok (a, c))))"

definition encode_agent_grant :: "profile_env \<Rightarrow> agent_grant \<Rightarrow> (bytes, profile_error) result" where
  "encode_agent_grant E v =
     bind_result (validate_agent_texts (agr_claimed_principal v) (agr_agent_handle v) (agr_requested_grant v)) (\<lambda>_.
     bind_result (guard (bounded_bytes (agr_grant v) 1 63000) InvalidPayload) (\<lambda>_.
       map_err (\<lambda>_. InvalidPayload) (encode_map E
         [(''principal'', CText (agr_claimed_principal v)), (''agent-handle'', CText (agr_agent_handle v)),
          (''requested-grant'', CText (agr_requested_grant v)), (''grant'', CBytes (agr_grant v))])))"

definition decode_agent_claims :: "profile_env \<Rightarrow> bytes \<Rightarrow> bytes \<Rightarrow> (agent_intent_claims, profile_error) result" where
  "decode_agent_claims E allocator claimant =
     bind_result (canonical_map E allocator 3 InvalidClaim) (\<lambda>alloc.
     bind_result (canonical_map E claimant 1 InvalidClaim) (\<lambda>claim.
     bind_result (pf_text_field claim ''channel'' 64 InvalidClaim) (\<lambda>channel.
     bind_result (pf_text_field alloc ''principal'' 255 InvalidClaim) (\<lambda>princ.
     bind_result (pf_text_field alloc ''agent-handle'' 128 InvalidClaim) (\<lambda>handle.
     bind_result (pf_text_field alloc ''requested-grant'' 128 InvalidClaim) (\<lambda>requested.
       let res = \<lparr>aic_channel = channel, aic_claimed_principal = princ,
                  aic_agent_handle = handle, aic_requested_grant = requested\<rparr>
       in bind_result (validate_agent_claims res) (\<lambda>_. Ok res)))))))"

definition decode_agent_grant :: "profile_env \<Rightarrow> bytes \<Rightarrow> (agent_grant, profile_error) result" where
  "decode_agent_grant E input =
     bind_result (canonical_map E input 4 InvalidPayload) (\<lambda>fds.
     bind_result (pf_text_field fds ''principal'' 255 InvalidPayload) (\<lambda>princ.
     bind_result (pf_text_field fds ''agent-handle'' 128 InvalidPayload) (\<lambda>handle.
     bind_result (pf_text_field fds ''requested-grant'' 128 InvalidPayload) (\<lambda>requested.
     bind_result (pf_bytes_field fds ''grant'' 63000 InvalidPayload) (\<lambda>g.
     bind_result (validate_agent_texts princ handle requested) (\<lambda>_.
       Ok \<lparr>agr_claimed_principal = princ, agr_agent_handle = handle,
           agr_requested_grant = requested, agr_grant = g\<rparr>))))))"

definition agent_binding :: "profile_env \<Rightarrow> agent_intent_claims \<Rightarrow> (bytes, profile_error) result" where
  "agent_binding E v = binding E [AGENT_APPLICATION, AGENT_ACTION, aic_claimed_principal v,
     aic_agent_handle v, aic_requested_grant v]"

definition agent_payload_binding :: "profile_env \<Rightarrow> agent_intent_claims \<Rightarrow> (bytes, profile_error) result" where
  "agent_payload_binding E v = binding E [AGENT_APPLICATION, AGENT_ACTION, aic_claimed_principal v,
     aic_agent_handle v, aic_requested_grant v]"

subsection \<open>Credential\<close>

record credential_intent_claims =
  cic_application_id :: string
  cic_origin :: string
  cic_scope :: string
  cic_recipient :: string

record credential_grant =
  crg_application_id :: string
  crg_origin :: string
  crg_scope :: string
  crg_recipient :: string
  crg_credential :: bytes

definition validate_credential_claims :: "profile_env \<Rightarrow> credential_intent_claims \<Rightarrow> (unit, profile_error) result" where
  "validate_credential_claims E v =
     bind_result (guard (bounded_text (cic_application_id v) 255) InvalidClaim) (\<lambda>_.
     bind_result (guard (canonical_https_origin E (cic_origin v)) InvalidClaim) (\<lambda>_.
     bind_result (guard (bounded_text (cic_scope v) 255) InvalidClaim) (\<lambda>_.
       guard (bounded_text (cic_recipient v) 255) InvalidClaim)))"

definition encode_credential_claims ::
  "profile_env \<Rightarrow> credential_intent_claims \<Rightarrow> (bytes \<times> bytes, profile_error) result" where
  "encode_credential_claims E v =
     bind_result (validate_credential_claims E v) (\<lambda>_.
     bind_result (encode_map E [(''application-id'', CText (cic_application_id v)),
        (''origin'', CText (cic_origin v)), (''scope'', CText (cic_scope v))]) (\<lambda>a.
     bind_result (encode_map E [(''recipient'', CText (cic_recipient v))]) (\<lambda>c. Ok (a, c))))"

definition grant_claims :: "credential_grant \<Rightarrow> credential_intent_claims" where
  "grant_claims g = \<lparr>cic_application_id = crg_application_id g, cic_origin = crg_origin g,
     cic_scope = crg_scope g, cic_recipient = crg_recipient g\<rparr>"

definition encode_credential_grant :: "profile_env \<Rightarrow> credential_grant \<Rightarrow> (bytes, profile_error) result" where
  "encode_credential_grant E v =
     bind_result (validate_credential_claims E (grant_claims v)) (\<lambda>_.
     bind_result (guard (bounded_bytes (crg_credential v) 1 62000) InvalidPayload) (\<lambda>_.
       map_err (\<lambda>_. InvalidPayload) (encode_map E
         [(''application-id'', CText (crg_application_id v)), (''origin'', CText (crg_origin v)),
          (''scope'', CText (crg_scope v)), (''recipient'', CText (crg_recipient v)),
          (''credential'', CBytes (crg_credential v))])))"

definition decode_credential_claims ::
  "profile_env \<Rightarrow> bytes \<Rightarrow> bytes \<Rightarrow> (credential_intent_claims, profile_error) result" where
  "decode_credential_claims E allocator claimant =
     bind_result (canonical_map E allocator 3 InvalidClaim) (\<lambda>alloc.
     bind_result (canonical_map E claimant 1 InvalidClaim) (\<lambda>claim.
     bind_result (pf_text_field alloc ''application-id'' 255 InvalidClaim) (\<lambda>application_id.
     bind_result (pf_text_field alloc ''origin'' 255 InvalidClaim) (\<lambda>origin.
     bind_result (pf_text_field alloc ''scope'' 255 InvalidClaim) (\<lambda>scope.
     bind_result (pf_text_field claim ''recipient'' 255 InvalidClaim) (\<lambda>recipient.
       let res = \<lparr>cic_application_id = application_id, cic_origin = origin,
                  cic_scope = scope, cic_recipient = recipient\<rparr>
       in bind_result (validate_credential_claims E res) (\<lambda>_. Ok res)))))))"

definition decode_credential_grant :: "profile_env \<Rightarrow> bytes \<Rightarrow> (credential_grant, profile_error) result" where
  "decode_credential_grant E input =
     bind_result (canonical_map E input 5 InvalidPayload) (\<lambda>fds.
     bind_result (pf_text_field fds ''application-id'' 255 InvalidPayload) (\<lambda>application_id.
     bind_result (pf_text_field fds ''origin'' 255 InvalidPayload) (\<lambda>origin.
     bind_result (pf_text_field fds ''scope'' 255 InvalidPayload) (\<lambda>scope.
     bind_result (pf_text_field fds ''recipient'' 255 InvalidPayload) (\<lambda>recipient.
     bind_result (pf_bytes_field fds ''credential'' 62000 InvalidPayload) (\<lambda>credential.
       let res = \<lparr>crg_application_id = application_id, crg_origin = origin, crg_scope = scope,
                  crg_recipient = recipient, crg_credential = credential\<rparr>
       in bind_result (map_err (\<lambda>_. InvalidPayload) (validate_credential_claims E (grant_claims res)))
            (\<lambda>_. Ok res)))))))"

definition credential_binding :: "profile_env \<Rightarrow> credential_intent_claims \<Rightarrow> (bytes, profile_error) result" where
  "credential_binding E v = binding E [CREDENTIAL_APPLICATION, CREDENTIAL_ACTION,
     cic_application_id v, cic_origin v, cic_scope v, cic_recipient v]"

subsection \<open>Synthetic\<close>

record synthetic_intent_claims =
  sic_subject :: string
  sic_audience :: string

record synthetic_grant =
  syg_subject :: string
  syg_audience :: string
  syg_grant :: bytes

definition validate_synthetic_claims :: "synthetic_intent_claims \<Rightarrow> (unit, profile_error) result" where
  "validate_synthetic_claims v =
     bind_result (guard (bounded_text (sic_subject v) 128) InvalidClaim) (\<lambda>_.
       guard (bounded_text (sic_audience v) 128) InvalidClaim)"

definition encode_synthetic_claims ::
  "profile_env \<Rightarrow> synthetic_intent_claims \<Rightarrow> (bytes \<times> bytes, profile_error) result" where
  "encode_synthetic_claims E v =
     bind_result (validate_synthetic_claims v) (\<lambda>_.
     bind_result (encode_map E [(''subject'', CText (sic_subject v))]) (\<lambda>a.
     bind_result (encode_map E [(''audience'', CText (sic_audience v))]) (\<lambda>c. Ok (a, c))))"

definition encode_synthetic_grant :: "profile_env \<Rightarrow> synthetic_grant \<Rightarrow> (bytes, profile_error) result" where
  "encode_synthetic_grant E v =
     bind_result (validate_synthetic_claims \<lparr>sic_subject = syg_subject v, sic_audience = syg_audience v\<rparr>) (\<lambda>_.
     bind_result (guard (bounded_bytes (syg_grant v) 1 63000) InvalidPayload) (\<lambda>_.
       map_err (\<lambda>_. InvalidPayload) (encode_map E
         [(''subject'', CText (syg_subject v)), (''audience'', CText (syg_audience v)),
          (''grant'', CBytes (syg_grant v))])))"

definition decode_synthetic_claims ::
  "profile_env \<Rightarrow> bytes \<Rightarrow> bytes \<Rightarrow> (synthetic_intent_claims, profile_error) result" where
  "decode_synthetic_claims E allocator claimant =
     bind_result (canonical_map E allocator 1 InvalidClaim) (\<lambda>alloc.
     bind_result (canonical_map E claimant 1 InvalidClaim) (\<lambda>claim.
     bind_result (pf_text_field alloc ''subject'' 128 InvalidClaim) (\<lambda>subject.
     bind_result (pf_text_field claim ''audience'' 128 InvalidClaim) (\<lambda>audience.
       let res = \<lparr>sic_subject = subject, sic_audience = audience\<rparr>
       in bind_result (validate_synthetic_claims res) (\<lambda>_. Ok res)))))"

definition decode_synthetic_grant :: "profile_env \<Rightarrow> bytes \<Rightarrow> (synthetic_grant, profile_error) result" where
  "decode_synthetic_grant E input =
     bind_result (canonical_map E input 3 InvalidPayload) (\<lambda>fds.
     bind_result (pf_text_field fds ''subject'' 128 InvalidPayload) (\<lambda>subject.
     bind_result (pf_text_field fds ''audience'' 128 InvalidPayload) (\<lambda>audience.
     bind_result (pf_bytes_field fds ''grant'' 63000 InvalidPayload) (\<lambda>g.
     bind_result (map_err (\<lambda>_. InvalidPayload)
         (validate_synthetic_claims \<lparr>sic_subject = subject, sic_audience = audience\<rparr>)) (\<lambda>_.
       Ok \<lparr>syg_subject = subject, syg_audience = audience, syg_grant = g\<rparr>)))))"

definition synthetic_binding :: "profile_env \<Rightarrow> synthetic_intent_claims \<Rightarrow> (bytes, profile_error) result" where
  "synthetic_binding E v = binding E [SYNTHETIC_APPLICATION, SYNTHETIC_ACTION, sic_subject v, sic_audience v]"

section \<open>The two-word carrier\<close>

definition be16 :: "u16 \<Rightarrow> bytes" where
  "be16 n = [of_nat (n div 256), of_nat (n mod 256)]"

definition u16_from_be :: "byte \<Rightarrow> byte \<Rightarrow> u16" where
  "u16_from_be a b = unat a * 256 + unat b"

definition encode_agent_word_indices :: "u16 \<Rightarrow> u16 \<Rightarrow> (bytes, profile_error) result" where
  "encode_agent_word_indices first second =
     (if first > 2047 \<or> second > 2047 then Err InvalidInvitation else Ok (be16 first @ be16 second))"

record agent_word_pair =
  wp_first :: u16
  wp_second :: u16
  wp_secret :: bytes

definition from_csprng_octets :: "byte \<Rightarrow> byte \<Rightarrow> byte \<Rightarrow> (agent_word_pair, profile_error) result" where
  "from_csprng_octets o0 o1 o2 =
     (let v = drop_bit 2 (unat o0 * 65536 + unat o1 * 256 + unat o2);
          first = drop_bit 11 v AND 2047;
          second = v AND 2047
      in case encode_agent_word_indices first second of
           Ok secret \<Rightarrow> Ok \<lparr>wp_first = first, wp_second = second, wp_secret = secret\<rparr>
         | _ \<Rightarrow> Panic)"

definition recognise_words :: "profile_env \<Rightarrow> string \<Rightarrow> string \<Rightarrow> (agent_word_pair, profile_error) result" where
  "recognise_words E first second =
     bind_result (ok_or InvalidInvitation (pe_find_word E first)) (\<lambda>i.
     bind_result (ok_or InvalidInvitation (pe_find_word E second)) (\<lambda>j.
     bind_result (encode_agent_word_indices i j) (\<lambda>secret.
       Ok \<lparr>wp_first = i, wp_second = j, wp_secret = secret\<rparr>)))"

text \<open>Indexing past the word list panics.\<close>

definition words :: "profile_env \<Rightarrow> agent_word_pair \<Rightarrow> (string \<times> string, profile_error) result" where
  "words E p =
     (if wp_first p < length (pe_word_list E) \<and> wp_second p < length (pe_word_list E)
      then Ok (pe_word_list E ! wp_first p, pe_word_list E ! wp_second p) else Panic)"

section \<open>The built-in profiles\<close>

definition agent_descriptor :: profile_descriptor where
  "agent_descriptor = \<lparr>pr_application = AGENT_APPLICATION, pr_payload_type = AGENT_PAYLOAD,
     pr_carrier = \<lparr>cc_carrier = ''configured relay + nameplate + two generated words'',
        cc_locator = KindNameplate, cc_minimum_entropy_bits = 22\<rparr>,
     pr_approval_authority = ''explicit person action'',
     pr_grant_verifier = ''SPEC-061 bound pairing grant''\<rparr>"

definition credential_descriptor :: profile_descriptor where
  "credential_descriptor = \<lparr>pr_application = CREDENTIAL_APPLICATION, pr_payload_type = CREDENTIAL_PAYLOAD,
     pr_carrier = \<lparr>cc_carrier = ''QR, deep link, NFC, or OS handover'',
        cc_locator = KindDirect, cc_minimum_entropy_bits = 128\<rparr>,
     pr_approval_authority = ''explicit person action'',
     pr_grant_verifier = ''SPEC-004/PROTO-004 account credential''\<rparr>"

definition synthetic_descriptor :: profile_descriptor where
  "synthetic_descriptor = \<lparr>pr_application = SYNTHETIC_APPLICATION, pr_payload_type = SYNTHETIC_PAYLOAD,
     pr_carrier = \<lparr>cc_carrier = ''conformance octet carrier'',
        cc_locator = KindDirect, cc_minimum_entropy_bits = 128\<rparr>,
     pr_approval_authority = ''explicit conformance decision'',
     pr_grant_verifier = ''synthetic fixed-decision verifier''\<rparr>"

definition common_invitation :: "profile_descriptor \<Rightarrow> invitation \<Rightarrow> (unit, profile_error) result" where
  "common_invitation descriptor i =
     (if inv_application i \<noteq> pr_application descriptor then Err WrongApplication
      else if \<not> locator_kind_matches (cc_locator (pr_carrier descriptor)) (inv_locator i)
      then Err InvalidInvitation else Ok ())"

definition common_intent :: "profile_descriptor \<Rightarrow> string \<Rightarrow> pairing_intent \<Rightarrow> (unit, profile_error) result" where
  "common_intent descriptor action intent =
     (if pi_application intent \<noteq> pr_application descriptor then Err WrongApplication
      else if pi_action intent \<noteq> action then Err InvalidAction else Ok ())"

definition check_payload_type :: "profile_descriptor \<Rightarrow> application_payload \<Rightarrow> (unit, profile_error) result" where
  "check_payload_type descriptor payload =
     (if ap_payload_type payload \<noteq> pr_payload_type descriptor then Err InvalidPayloadType else Ok ())"

definition mk_display_intent :: "pairing_intent \<Rightarrow> display_field list \<Rightarrow> display_intent" where
  "mk_display_intent intent fds = \<lparr>di_application = pi_application intent, di_action = pi_action intent,
     di_authority_summary = pi_authority_summary intent, di_fields = fds\<rparr>"

definition display :: "string \<Rightarrow> string \<Rightarrow> display_field" where
  "display label v = \<lparr>df_label = label, df_value = v, df_claimed_by_secret_holder = True\<rparr>"

definition recognised :: "profile_descriptor \<Rightarrow> application_payload \<Rightarrow> recognised_payload" where
  "recognised descriptor payload = \<lparr>rp_application = pr_application descriptor,
     rp_payload_type = ap_payload_type payload, rp_body = ap_body payload\<rparr>"

subsection \<open>Agent profile\<close>

definition agent_recognise_invitation :: "invitation \<Rightarrow> (unit, profile_error) result" where
  "agent_recognise_invitation i =
     bind_result (common_invitation agent_descriptor i) (\<lambda>_.
     if length (inv_secret i) \<noteq> 4 then Err InvalidInvitation
     else
       let first = u16_from_be (inv_secret i ! 0) (inv_secret i ! 1);
           second = u16_from_be (inv_secret i ! 2) (inv_secret i ! 3)
       in bind_result (encode_agent_word_indices first second) (\<lambda>_. Ok ()))"

definition agent_recognise_intent ::
  "profile_env \<Rightarrow> pairing_intent \<Rightarrow> (display_intent \<times> profile_binding, profile_error) result" where
  "agent_recognise_intent E intent =
     bind_result (common_intent agent_descriptor AGENT_ACTION intent) (\<lambda>_.
     bind_result (decode_agent_claims E (pi_allocator_claim intent) (pi_claimant_claim intent)) (\<lambda>claims.
     bind_result (agent_binding E claims) (\<lambda>b.
       Ok (mk_display_intent intent
             [display ''channel'' (aic_channel claims),
              display ''claimed principal'' (aic_claimed_principal claims),
              display ''agent handle'' (aic_agent_handle claims),
              display ''requested grant'' (aic_requested_grant claims)], b))))"

definition agent_recognise_payload ::
  "profile_env \<Rightarrow> profile_binding \<Rightarrow> application_payload \<Rightarrow> (recognised_payload, profile_error) result" where
  "agent_recognise_payload E b payload =
     bind_result (check_payload_type agent_descriptor payload) (\<lambda>_.
     bind_result (decode_agent_grant E (ap_body payload)) (\<lambda>g.
     bind_result (agent_payload_binding E
         \<lparr>aic_channel = [], aic_claimed_principal = agr_claimed_principal g,
          aic_agent_handle = agr_agent_handle g, aic_requested_grant = agr_requested_grant g\<rparr>) (\<lambda>b'.
       if b' \<noteq> b then Err InvalidPayload else Ok (recognised agent_descriptor payload))))"

text \<open>The injected verifier decides; its state is the profile's state.\<close>

definition verifier_authorize ::
  "('v \<Rightarrow> recognised_payload \<Rightarrow> (unit, profile_error) result \<times> 'v) \<Rightarrow>
     'v \<Rightarrow> recognised_payload \<Rightarrow> (authorised_grant, profile_error) result \<times> 'v" where
  "verifier_authorize verify s payload =
     bind_st (verify s payload) (\<lambda>_ s. (Ok (grant payload), s))"

definition agent_profile ::
  "profile_env \<Rightarrow> ('v \<Rightarrow> recognised_payload \<Rightarrow> (unit, profile_error) result \<times> 'v) \<Rightarrow> 'v profile_ops" where
  "agent_profile E verify = \<lparr>pf_recognise_invitation = (\<lambda>_. agent_recognise_invitation),
     pf_recognise_intent = (\<lambda>s intent. (agent_recognise_intent E intent, s)),
     pf_recognise_payload = (\<lambda>_. agent_recognise_payload E),
     pf_authorize_payload = verifier_authorize verify\<rparr>"

subsection \<open>Credential profile\<close>

definition octet_recognise_invitation :: "profile_descriptor \<Rightarrow> invitation \<Rightarrow> (unit, profile_error) result" where
  "octet_recognise_invitation descriptor i =
     bind_result (common_invitation descriptor i) (\<lambda>_.
       if length (inv_secret i) \<noteq> 16 then Err InvalidInvitation else Ok ())"

definition credential_recognise_intent ::
  "profile_env \<Rightarrow> pairing_intent \<Rightarrow> (display_intent \<times> profile_binding, profile_error) result" where
  "credential_recognise_intent E intent =
     bind_result (common_intent credential_descriptor CREDENTIAL_ACTION intent) (\<lambda>_.
     bind_result (decode_credential_claims E (pi_allocator_claim intent) (pi_claimant_claim intent)) (\<lambda>claims.
     bind_result (credential_binding E claims) (\<lambda>b.
       Ok (mk_display_intent intent
             [display ''applicationId'' (cic_application_id claims),
              display ''HTTPS origin'' (cic_origin claims),
              display ''requested scope'' (cic_scope claims),
              display ''recipient'' (cic_recipient claims)], b))))"

definition credential_recognise_payload ::
  "profile_env \<Rightarrow> profile_binding \<Rightarrow> application_payload \<Rightarrow> (recognised_payload, profile_error) result" where
  "credential_recognise_payload E b payload =
     bind_result (check_payload_type credential_descriptor payload) (\<lambda>_.
     bind_result (decode_credential_grant E (ap_body payload)) (\<lambda>g.
     bind_result (credential_binding E (grant_claims g)) (\<lambda>b'.
       if b' \<noteq> b then Err InvalidPayload else Ok (recognised credential_descriptor payload))))"

definition credential_profile ::
  "profile_env \<Rightarrow> ('v \<Rightarrow> recognised_payload \<Rightarrow> (unit, profile_error) result \<times> 'v) \<Rightarrow> 'v profile_ops" where
  "credential_profile E verify = \<lparr>pf_recognise_invitation = (\<lambda>_. octet_recognise_invitation credential_descriptor),
     pf_recognise_intent = (\<lambda>s intent. (credential_recognise_intent E intent, s)),
     pf_recognise_payload = (\<lambda>_. credential_recognise_payload E),
     pf_authorize_payload = verifier_authorize verify\<rparr>"

subsection \<open>Synthetic profile\<close>

definition synthetic_recognise_intent ::
  "profile_env \<Rightarrow> pairing_intent \<Rightarrow> (display_intent \<times> profile_binding, profile_error) result" where
  "synthetic_recognise_intent E intent =
     bind_result (common_intent synthetic_descriptor SYNTHETIC_ACTION intent) (\<lambda>_.
     bind_result (decode_synthetic_claims E (pi_allocator_claim intent) (pi_claimant_claim intent)) (\<lambda>claims.
     bind_result (synthetic_binding E claims) (\<lambda>b.
       Ok (mk_display_intent intent
             [display ''synthetic subject'' (sic_subject claims),
              display ''synthetic audience'' (sic_audience claims)], b))))"

definition synthetic_recognise_payload ::
  "profile_env \<Rightarrow> profile_binding \<Rightarrow> application_payload \<Rightarrow> (recognised_payload, profile_error) result" where
  "synthetic_recognise_payload E b payload =
     bind_result (check_payload_type synthetic_descriptor payload) (\<lambda>_.
     bind_result (decode_synthetic_grant E (ap_body payload)) (\<lambda>g.
     bind_result (synthetic_binding E \<lparr>sic_subject = syg_subject g, sic_audience = syg_audience g\<rparr>) (\<lambda>b'.
       if b' \<noteq> b then Err InvalidPayload else Ok (recognised synthetic_descriptor payload))))"

definition synthetic_profile :: "profile_env \<Rightarrow> bool profile_ops" where
  "synthetic_profile E = \<lparr>pf_recognise_invitation = (\<lambda>_. octet_recognise_invitation synthetic_descriptor),
     pf_recognise_intent = (\<lambda>s intent. (synthetic_recognise_intent E intent, s)),
     pf_recognise_payload = (\<lambda>_. synthetic_recognise_payload E),
     pf_authorize_payload = (\<lambda>authorize payload.
        if \<not> authorize then (Err Unauthorized, authorize) else (Ok (grant payload), authorize))\<rparr>"

end
