(* ===== verification/Profile_Props.thy ===== *)
theory Profile_Props
  imports Profile Wire_Props
begin

text \<open>
  What the profiles guarantee an endpoint: a payload is recognised only for the intent whose
  binding it carries, so the grant repeats exactly the fields that were displayed; and the
  two-word carrier is uniform, well formed and readable.
\<close>

section \<open>Bindings\<close>

definition sha_collision :: "profile_env \<Rightarrow> string list \<Rightarrow> string list \<Rightarrow> bool" where
  "sha_collision E xs ys \<longleftrightarrow>
     (\<exists>a b. cd_canonical (pe_codec E) (binding_value xs) = Some a \<and>
        cd_canonical (pe_codec E) (binding_value ys) = Some b \<and> a \<noteq> b \<and> pe_sha256 E a = pe_sha256 E b)"

lemma binding_Ok:
  "binding E xs = Ok h \<longleftrightarrow> (\<exists>a. cd_canonical (pe_codec E) (binding_value xs) = Some a \<and> h = pe_sha256 E a)"
  by (auto simp: binding_def bind_result_Ok)

lemma map_free_binding [simp]: "map_free (binding_value xs)"
  by (simp add: binding_value_def list_all_iff)

lemma binding_inject:
  assumes "reads_back (pe_codec E)" and "binding E xs = Ok h" and "binding E ys = Ok h"
  shows "xs = ys \<or> sha_collision E xs ys"
proof -
  obtain a b where ab: "cd_canonical (pe_codec E) (binding_value xs) = Some a"
    "cd_canonical (pe_codec E) (binding_value ys) = Some b" "pe_sha256 E a = pe_sha256 E b"
    using assms(2,3) by (auto simp: binding_Ok)
  have "binding_value xs = binding_value ys" if "a = b"
    using canonical_inject[OF assms(1) _ _ ab(1)] ab(2) that by simp
  moreover have "xs = ys" if "binding_value xs = binding_value ys"
    using that by (simp add: binding_value_def inj_def map_injective)
  ultimately show ?thesis using ab by (auto simp: sha_collision_def)
qed

text \<open>
  The contract between the two recognisers of a profile: both commit to a fixed tag and a list
  of field values, the one shown for approval and the one the payload repeats.
\<close>

locale bound_profile =
  fixes E :: profile_env
    and recognise_intent :: "pairing_intent \<Rightarrow> (display_intent \<times> profile_binding, profile_error) result"
    and recognise_payload :: "profile_binding \<Rightarrow> application_payload \<Rightarrow> (recognised_payload, profile_error) result"
    and tag :: "string list"
    and shown :: "display_intent \<Rightarrow> string list"
    and granted :: "bytes \<Rightarrow> string list option"
  assumes intent_binds: "recognise_intent i = Ok (d, b) \<Longrightarrow> binding E (tag @ shown d) = Ok b"
    and payload_binds: "recognise_payload b p = Ok r \<Longrightarrow>
      \<exists>vs. granted (ap_body p) = Some vs \<and> binding E (tag @ vs) = Ok b"
begin

lemma granted_shown:
  assumes "reads_back (pe_codec E)" and "recognise_intent i = Ok (d, b)" and "recognise_payload b p = Ok r"
  shows "\<exists>vs. granted (ap_body p) = Some vs \<and> (vs = shown d \<or> sha_collision E (tag @ shown d) (tag @ vs))"
  using binding_inject[OF assms(1) intent_binds[OF assms(2)]] payload_binds[OF assms(3)] by blast

end

definition ok_value :: "('a, 'e) result \<Rightarrow> 'a option" where
  "ok_value r = (case r of Ok a \<Rightarrow> Some a | _ \<Rightarrow> None)"

definition agent_granted :: "profile_env \<Rightarrow> bytes \<Rightarrow> string list option" where
  "agent_granted E body = map_option
     (\<lambda>g. [agr_claimed_principal g, agr_agent_handle g, agr_requested_grant g]) (ok_value (decode_agent_grant E body))"

definition credential_granted :: "profile_env \<Rightarrow> bytes \<Rightarrow> string list option" where
  "credential_granted E body = map_option
     (\<lambda>g. [crg_application_id g, crg_origin g, crg_scope g, crg_recipient g])
     (ok_value (decode_credential_grant E body))"

definition synthetic_granted :: "profile_env \<Rightarrow> bytes \<Rightarrow> string list option" where
  "synthetic_granted E body = map_option (\<lambda>g. [syg_subject g, syg_audience g])
     (ok_value (decode_synthetic_grant E body))"

definition shown_values :: "display_intent \<Rightarrow> string list" where
  "shown_values d = map df_value (di_fields d)"

lemmas recognise_intent_defs =
  agent_recognise_intent_def credential_recognise_intent_def synthetic_recognise_intent_def
  mk_display_intent_def display_def shown_values_def

lemmas recognise_payload_defs =
  agent_recognise_payload_def credential_recognise_payload_def synthetic_recognise_payload_def
  agent_granted_def credential_granted_def synthetic_granted_def ok_value_def

interpretation agent: bound_profile E "agent_recognise_intent E" "agent_recognise_payload E"
  "[AGENT_APPLICATION, AGENT_ACTION]" "\<lambda>d. tl (shown_values d)" "agent_granted E" for E
  by unfold_locales
    (auto simp: recognise_intent_defs recognise_payload_defs agent_binding_def agent_payload_binding_def
      bind_result_Ok split: if_splits)

interpretation credential: bound_profile E "credential_recognise_intent E" "credential_recognise_payload E"
  "[CREDENTIAL_APPLICATION, CREDENTIAL_ACTION]" shown_values "credential_granted E" for E
  by unfold_locales
    (auto simp: recognise_intent_defs recognise_payload_defs credential_binding_def grant_claims_def
      bind_result_Ok split: if_splits)

interpretation synthetic: bound_profile E "synthetic_recognise_intent E" "synthetic_recognise_payload E"
  "[SYNTHETIC_APPLICATION, SYNTHETIC_ACTION]" shown_values "synthetic_granted E" for E
  by unfold_locales
    (auto simp: recognise_intent_defs recognise_payload_defs synthetic_binding_def
      bind_result_Ok split: if_splits)

text \<open>
  C30: A payload is recognised under the binding kept from an approved intent only if the grant
  it carries repeats the fields that were displayed: all four of a credential intent, both of a
  synthetic one, and of the four of an agent intent the principal, the handle and the grant; the
  fourth, the channel, is shown as the claims of the intent name it and is no part of the grant.
  The alternative is a SHA-256 collision between the encodings of the two field lists.
\<close>

theorem grant_repeats_displayed_fields:
  assumes "reads_back (pe_codec E)"
  shows "(\<forall>i d b p r. agent_recognise_intent E i = Ok (d, b) \<longrightarrow> agent_recognise_payload E b p = Ok r \<longrightarrow>
      (\<exists>claims g. decode_agent_claims E (pi_allocator_claim i) (pi_claimant_claim i) = Ok claims \<and>
        decode_agent_grant E (ap_body p) = Ok g \<and>
        (shown_values d = [aic_channel claims, agr_claimed_principal g, agr_agent_handle g, agr_requested_grant g] \<or>
         sha_collision E ([AGENT_APPLICATION, AGENT_ACTION] @ tl (shown_values d))
           [AGENT_APPLICATION, AGENT_ACTION, agr_claimed_principal g, agr_agent_handle g, agr_requested_grant g])))
    \<and> (\<forall>i d b p r. credential_recognise_intent E i = Ok (d, b) \<longrightarrow> credential_recognise_payload E b p = Ok r \<longrightarrow>
      (\<exists>g. decode_credential_grant E (ap_body p) = Ok g \<and>
        (shown_values d = [crg_application_id g, crg_origin g, crg_scope g, crg_recipient g] \<or>
         sha_collision E ([CREDENTIAL_APPLICATION, CREDENTIAL_ACTION] @ shown_values d)
           [CREDENTIAL_APPLICATION, CREDENTIAL_ACTION, crg_application_id g, crg_origin g, crg_scope g, crg_recipient g])))
    \<and> (\<forall>i d b p r. synthetic_recognise_intent E i = Ok (d, b) \<longrightarrow> synthetic_recognise_payload E b p = Ok r \<longrightarrow>
      (\<exists>g. decode_synthetic_grant E (ap_body p) = Ok g \<and>
        (shown_values d = [syg_subject g, syg_audience g] \<or>
         sha_collision E ([SYNTHETIC_APPLICATION, SYNTHETIC_ACTION] @ shown_values d)
           [SYNTHETIC_APPLICATION, SYNTHETIC_ACTION, syg_subject g, syg_audience g])))"
proof (intro conjI allI impI, goal_cases)
  case (1 i d b p r)
  have shown: "\<exists>claims. decode_agent_claims E (pi_allocator_claim i) (pi_claimant_claim i) = Ok claims \<and>
      shown_values d = aic_channel claims # tl (shown_values d)"
    using 1(1) by (auto simp: recognise_intent_defs bind_result_Ok)
  from agent.granted_shown[OF assms 1] shown show ?case
    by (auto simp: agent_granted_def ok_value_def split: result.splits)
next
  case (2 i d b p r)
  from credential.granted_shown[OF assms 2] show ?case
    by (auto simp: credential_granted_def ok_value_def split: result.splits)
next
  case (3 i d b p r)
  from synthetic.granted_shown[OF assms 3] show ?case
    by (auto simp: synthetic_granted_def ok_value_def split: result.splits)
qed

text \<open>A concrete synthetic ceremony.\<close>

definition demo_profile_env :: profile_env where
  "demo_profile_env = \<lparr>pe_codec = table_codec
       [(cmap [(''subject'', CText ''s'')], [1]), (cmap [(''audience'', CText ''a'')], [2]),
        (cmap [(''subject'', CText ''s''), (''audience'', CText ''a''), (''grant'', CBytes [9])], [3]),
        (binding_value [SYNTHETIC_APPLICATION, SYNTHETIC_ACTION, ''s'', ''a''], [4])],
     pe_sha256 = (\<lambda>b. b @ [0]), pe_url = (\<lambda>_. None),
     pe_find_word = (\<lambda>w. if w = ''ability'' then Some 1 else None),
     pe_word_list = replicate 2048 ''ability''\<rparr>"

definition demo_intent :: pairing_intent where
  "demo_intent = \<lparr>pi_application = SYNTHETIC_APPLICATION, pi_action = SYNTHETIC_ACTION,
     pi_allocator_claim = [1], pi_claimant_claim = [2], pi_authority_summary = ''x'', pi_intent_nonce = []\<rparr>"

definition demo_payload :: application_payload where
  "demo_payload = \<lparr>ap_intent_digest = [], ap_payload_type = SYNTHETIC_PAYLOAD, ap_body = [3]\<rparr>"

lemmas profile_eval =
  canonical_map_def pf_text_field_def pf_bytes_field_def unique_field_def guard_def bounded_text_def
  bounded_bytes_def char_code_def binding_def table_codec_def cmap_def
  common_intent_def check_payload_type_def validate_synthetic_claims_def decode_synthetic_claims_def
  decode_synthetic_grant_def synthetic_recognise_intent_def synthetic_recognise_payload_def
  synthetic_binding_def synthetic_descriptor_def

definition demo_shown :: display_intent where
  "demo_shown = mk_display_intent demo_intent [display ''synthetic subject'' ''s'', display ''synthetic audience'' ''a'']"

lemma demo_recognised:
  "synthetic_recognise_intent demo_profile_env demo_intent = Ok (demo_shown, [4, 0])"
  "synthetic_recognise_payload demo_profile_env [4, 0] demo_payload = Ok (recognised synthetic_descriptor demo_payload)"
  "decode_synthetic_grant demo_profile_env [3] = Ok \<lparr>syg_subject = ''s'', syg_audience = ''a'', syg_grant = [9]\<rparr>"
  by (simp_all add: profile_eval demo_profile_env_def demo_intent_def demo_payload_def demo_shown_def
      binding_value_def)

text \<open>In the ceremony no two different inputs collide, so the fields of the grant are the shown ones.\<close>

theorem grant_repeats_displayed_fields_witness:
  "\<exists>d b r g. synthetic_recognise_intent demo_profile_env demo_intent = Ok (d, b) \<and>
     synthetic_recognise_payload demo_profile_env b demo_payload = Ok r \<and>
     decode_synthetic_grant demo_profile_env (ap_body demo_payload) = Ok g \<and>
     shown_values d = [syg_subject g, syg_audience g]"
proof -
  have law: "reads_back (pe_codec demo_profile_env)"
    unfolding demo_profile_env_def by (simp, rule table_codec_reads_back) simp
  have free: "\<not> sha_collision demo_profile_env xs ys" for xs ys
    by (auto simp: sha_collision_def demo_profile_env_def)
  have i: "synthetic_recognise_intent demo_profile_env demo_intent = Ok (demo_shown, [4, 0])"
    and p: "synthetic_recognise_payload demo_profile_env [4, 0] demo_payload = Ok (recognised synthetic_descriptor demo_payload)"
    by (rule demo_recognised)+
  obtain g where "decode_synthetic_grant demo_profile_env (ap_body demo_payload) = Ok g"
    "shown_values demo_shown = [syg_subject g, syg_audience g]"
    using grant_repeats_displayed_fields[OF law] i p free by blast
  with i p show ?thesis by blast
qed

section \<open>The two-word carrier\<close>

text \<open>The value of three octets, and its inverse.\<close>

definition octets_value :: "byte \<times> byte \<times> byte \<Rightarrow> nat" where
  "octets_value = (\<lambda>(o0, o1, o2). unat o0 * 65536 + unat o1 * 256 + unat o2)"

definition octets_of :: "nat \<Rightarrow> byte \<times> byte \<times> byte" where
  "octets_of n = (of_nat (n div 65536), of_nat (n div 256 mod 256), of_nat (n mod 256))"

lemma unat_byte: "unat (x :: byte) < 256"
  using unsigned_less[of x] by simp

lemma octets_value_less: "octets_value x < 16777216"
  using unat_byte[of "fst x"] unat_byte[of "fst (snd x)"] unat_byte[of "snd (snd x)"]
  by (simp add: octets_value_def case_prod_beta)

lemma byte_digits: "c < 256 \<Longrightarrow> (k * 256 + c) div 256 = k \<and> (k * 256 + c) mod 256 = (c :: nat)"
  by simp

lemma octets_value_digits:
  "octets_value (a, b, c) mod 256 = unat c" "octets_value (a, b, c) div 256 mod 256 = unat b"
  "octets_value (a, b, c) div 65536 = unat a"
proof -
  have v: "octets_value (a, b, c) = (unat a * 256 + unat b) * 256 + unat c"
    by (simp add: octets_value_def)
  have d: "octets_value (a, b, c) div 65536 = octets_value (a, b, c) div 256 div 256"
    by (simp flip: div_mult2_eq)
  have hi: "octets_value (a, b, c) div 256 = unat a * 256 + unat b"
    unfolding v using byte_digits[OF unat_byte] by blast
  show "octets_value (a, b, c) mod 256 = unat c"
    unfolding v using byte_digits[OF unat_byte] by blast
  show "octets_value (a, b, c) div 256 mod 256 = unat b"
    unfolding hi using byte_digits[OF unat_byte] by blast
  show "octets_value (a, b, c) div 65536 = unat a"
    unfolding d hi using byte_digits[OF unat_byte] by blast
qed

lemma octets_of_value: "octets_of (octets_value x) = x"
  by (cases x) (simp add: octets_of_def octets_value_digits)

lemma octets_value_of:
  assumes "n < 16777216"
  shows "octets_value (octets_of n) = n"
proof -
  have "n div 65536 < 256" using assms by simp
  moreover have "n = n div 65536 * 65536 + n div 256 mod 256 * 256 + n mod 256"
  proof -
    have "n div 65536 * 256 + n div 256 mod 256 = n div 256"
      using div_mult_mod_eq[of "n div 256" 256] by (simp flip: div_mult2_eq)
    then show ?thesis using div_mult_mod_eq[of n 256] by linarith
  qed
  ultimately show ?thesis
    by (simp add: octets_value_def octets_of_def unat_of_nat take_bit_eq_mod)
qed

lemma and_2047: "n AND 2047 = n mod (2048 :: nat)"
  using take_bit_eq_mask[of 11 n] by (simp add: take_bit_eq_mod mask_eq_exp_minus_1)

lemma from_csprng_value:
  "from_csprng_octets o0 o1 o2 =
     (let v = octets_value (o0, o1, o2) div 4
      in Ok \<lparr>wp_first = v div 2048, wp_second = v mod 2048, wp_secret = be16 (v div 2048) @ be16 (v mod 2048)\<rparr>)"
proof -
  have "octets_value (o0, o1, o2) div 4 div 2048 < 2048"
    using octets_value_less[of "(o0, o1, o2)"] by (simp flip: div_mult2_eq)
  then show ?thesis
    by (simp add: from_csprng_octets_def octets_value_def and_2047 drop_bit_eq_div Let_def
        encode_agent_word_indices_def)
qed

lemma be16_roundtrip: "n < 65536 \<Longrightarrow> u16_from_be (be16 n ! 0) (be16 n ! Suc 0) = n"
  by (simp add: u16_from_be_def be16_def unat_of_nat take_bit_eq_mod less_mult_imp_div_less)

lemma csprng_preimage:
  assumes "w < 4194304"
  shows "card {x. octets_value x div 4 = w} = 4"
proof -
  have "{x. octets_value x div 4 = w} = octets_of ` {4 * w..<4 * w + 4}"
  proof (intro equalityI subsetI)
    fix x assume "x \<in> {x. octets_value x div 4 = w}"
    then have "octets_value x \<in> {4 * w..<4 * w + 4}" by auto
    then show "x \<in> octets_of ` {4 * w..<4 * w + 4}" using octets_of_value[of x] by (metis imageI)
  next
    fix x assume "x \<in> octets_of ` {4 * w..<4 * w + 4}"
    then obtain n where n: "x = octets_of n" "4 * w \<le> n" "n < 4 * w + 4" by auto
    moreover have "octets_value x = n" using octets_value_of[of n] n assms by simp
    moreover have "n div 4 = w" using n by simp
    ultimately show "x \<in> {x. octets_value x div 4 = w}" by simp
  qed
  moreover have "inj_on octets_of {4 * w..<4 * w + 4}"
  proof (rule inj_onI)
    fix n m assume *: "n \<in> {4 * w..<4 * w + 4}" "m \<in> {4 * w..<4 * w + 4}" "octets_of n = octets_of m"
    have "n < 16777216" "m < 16777216" using *(1,2) assms by simp_all
    then show "n = m" using octets_value_of[of n] octets_value_of[of m] *(3) by metis
  qed
  ultimately show ?thesis by (simp add: card_image)
qed

text \<open>
  Three random octets always give a two-word carrier. Its word indices are below 2048, its
  two words are recognised back as the same carrier, an agent invitation with its four-octet
  secret is accepted, and the choice is uniform: every carrier comes from exactly four of the
  octet triples.
\<close>

lemma word_carrier_uniform:
  assumes "length (pe_word_list E) = 2048"
    and "\<forall>i < 2048. pe_find_word E (pe_word_list E ! i) = Some i"
  shows "\<exists>p first second. from_csprng_octets o0 o1 o2 = Ok p \<and> wp_first p < 2048 \<and> wp_second p < 2048 \<and>
    words E p = Ok (first, second) \<and> recognise_words E first second = Ok p \<and>
    (\<forall>i n. inv_application i = AGENT_APPLICATION \<longrightarrow> inv_locator i = Nameplate n \<longrightarrow>
       inv_secret i = wp_secret p \<longrightarrow> agent_recognise_invitation i = Ok ()) \<and>
    card {(a, b, c). from_csprng_octets a b c = Ok p} = 4"
proof -
  define v where "v = octets_value (o0, o1, o2) div 4"
  define p where "p = \<lparr>wp_first = v div 2048, wp_second = v mod 2048,
    wp_secret = be16 (v div 2048) @ be16 (v mod 2048)\<rparr>"
  have v: "v < 4194304" using octets_value_less[of "(o0, o1, o2)"] by (simp add: v_def)
  then have lt: "v div 2048 < 2048" "v mod 2048 < 2048" by simp_all
  have ok: "from_csprng_octets o0 o1 o2 = Ok p" by (simp add: from_csprng_value v_def p_def Let_def)
  have ws: "words E p = Ok (pe_word_list E ! (v div 2048), pe_word_list E ! (v mod 2048))"
    using assms(1) lt by (simp add: words_def p_def)
  have rw: "recognise_words E (pe_word_list E ! (v div 2048)) (pe_word_list E ! (v mod 2048)) = Ok p"
    using assms(2) lt by (simp add: recognise_words_def encode_agent_word_indices_def p_def)
  have inv: "agent_recognise_invitation i = Ok ()"
    if "inv_application i = AGENT_APPLICATION" "inv_locator i = Nameplate n" "inv_secret i = wp_secret p" for i n
  proof -
    have b: "length (be16 k) = 2" for k by (simp add: be16_def)
    have "u16_from_be (inv_secret i ! 0) (inv_secret i ! 1) = v div 2048"
      "u16_from_be (inv_secret i ! 2) (inv_secret i ! 3) = v mod 2048"
      using be16_roundtrip[of "v div 2048"] be16_roundtrip[of "v mod 2048"] lt that(3)
      by (simp_all add: p_def nth_append b)
    then show ?thesis
      using that lt by (simp add: agent_recognise_invitation_def common_invitation_def agent_descriptor_def
          encode_agent_word_indices_def p_def b Let_def not_less less_Suc_eq_le[symmetric])
  qed
  have "from_csprng_octets a b c = Ok p \<longleftrightarrow> octets_value (a, b, c) div 4 = v" for a b c
    unfolding from_csprng_value p_def Let_def
    by (metis agent_word_pair.ext_inject div_mult_mod_eq result.inject(1))
  then have "{(a, b, c). from_csprng_octets a b c = Ok p} = {x. octets_value x div 4 = v}" by auto
  then have "card {(a, b, c). from_csprng_octets a b c = Ok p} = 4" using csprng_preimage[OF v] by simp
  with ok ws rw inv lt show ?thesis by (auto simp: p_def)
qed

definition demo_words :: profile_env where
  "demo_words = demo_profile_env\<lparr>pe_word_list := map (\<lambda>i. replicate i CHR ''a'') [0..<2048],
     pe_find_word := (\<lambda>w. Some (length w))\<rparr>"

theorem word_carrier_uniform_witness:
  "\<exists>p. from_csprng_octets 1 2 3 = Ok p \<and> card {(a, b, c). from_csprng_octets a b c = Ok p} = 4"
proof -
  have law: "length (pe_word_list demo_words) = 2048"
    "\<forall>i < 2048. pe_find_word demo_words (pe_word_list demo_words ! i) = Some i"
    by (simp_all add: demo_words_def)
  from word_carrier_uniform[OF law, of 1 2 3] show ?thesis by blast
qed

end
