(* ===== verification/Cbcl_Protocol.thy ===== *)
theory Cbcl_Protocol
  imports Wire
begin

text \<open>
  The CBCL adapter of \<^verbatim>\<open>src/src/cbcl_protocol.rs\<close>: ceremony keys, signed controls, and the
  two monitors that admit controls into monotone causal histories. The CBCL engine
  (\<^verbatim>\<open>cbcl_core\<close>, \<^verbatim>\<open>cbcl_parser\<close>), Ed25519 and SHA-256 are outside the repository and are the
  fields of \<open>cbcl\<close>. The types of the engine have the constructors and fields the source
  names, with one constructor for everything else. A message store or dialect registry is
  represented by the sequence of appends or installations made on it, which determines it.
\<close>

unbundle bit_operations_syntax

section \<open>Values of the engine\<close>

datatype atom = ASymbol string | AStr string | ANum int | AKeyword string | AOther string

datatype sexpr = SAtom atom | SList "sexpr list"

datatype caused_by = CbBegin | CbSingle string | CbMultiple "string list"

datatype performative = PHello | PCustom string | POther string

datatype recipients = One string | OtherRecipients "string list"

datatype wrapper_type = WSigned | WWithRoles | WOther string

datatype message =
    Simple (m_performative: performative) (m_recipient: "recipients option") (m_content: sexpr)
      (m_params: "sexpr list") (m_thread: "string option") (m_sender: "string option")
      (m_caused_by: "caused_by option")
  | Wrapped wrapper_type "sexpr list" message

datatype verification_result = VrValid | VrUnknown | VrViolation string

record dialect =
  dl_hash :: "string option"
  dl_causal_protocol :: "sexpr option"
  dl_roles :: sexpr
  dl_body :: sexpr

record cast =
  ca_singleton :: "(string, string) btree"
  ca_indexed :: "string list"
  ca_dialect_pin :: "string option"

type_synonym store = "(string \<times> string \<times> message) list"
type_synonym registry = "dialect list"

record cbcl =
  ce_sha256 :: "bytes \<Rightarrow> bytes"
  ce_key_valid :: "bytes \<Rightarrow> bool"
  ce_verify_strict :: "bytes \<Rightarrow> bytes \<Rightarrow> bytes \<Rightarrow> bool"
  ce_public :: "bytes \<Rightarrow> bytes"
  ce_sign :: "bytes \<Rightarrow> bytes \<Rightarrow> bytes"
  ce_verify_v1_full :: "(bytes \<Rightarrow> bytes \<Rightarrow> bool) \<Rightarrow> bytes \<Rightarrow> bytes \<Rightarrow> bool"
  ce_parse_text :: "string \<Rightarrow> sexpr option"
  ce_message :: "sexpr \<Rightarrow> message option"
  ce_sexpr :: "message \<Rightarrow> sexpr"
  ce_print :: "sexpr \<Rightarrow> string"
  ce_encode :: "sexpr \<Rightarrow> bytes"
  ce_name :: "performative \<Rightarrow> string"
  ce_innermost :: "message \<Rightarrow> message option"
  ce_recipient_set :: "message \<Rightarrow> string list"
  ce_caused_by :: "message \<Rightarrow> caused_by option"
  ce_bootstrap_source :: string
  ce_session_source :: string
  ce_parse_source :: "string \<Rightarrow> sexpr option"
  ce_parse_dialect :: "sexpr \<Rightarrow> dialect option"
  ce_install :: "registry \<Rightarrow> dialect \<Rightarrow> bool"
  ce_find_by_name :: "registry \<Rightarrow> string \<Rightarrow> dialect option"
  ce_dialect_hash :: "dialect \<Rightarrow> string"
  ce_evaluate :: "message \<Rightarrow> registry \<Rightarrow> bool"
  ce_verify_causal :: "string \<Rightarrow> caused_by option \<Rightarrow> store \<Rightarrow> sexpr \<Rightarrow> string \<Rightarrow> verification_result"
  ce_append :: "store \<Rightarrow> string \<Rightarrow> string \<Rightarrow> message \<Rightarrow> bool"
  ce_parse_cast :: "sexpr list \<Rightarrow> sexpr \<Rightarrow> cast option"
  ce_r6_clean :: "dialect \<Rightarrow> cast \<Rightarrow> bool"
  ce_verify_for_role ::
    "message \<Rightarrow> string \<Rightarrow> dialect \<Rightarrow> cast \<Rightarrow> store \<Rightarrow> string \<Rightarrow> string \<Rightarrow> verification_result"
  ce_project :: "dialect \<Rightarrow> string \<Rightarrow> cast option \<Rightarrow> string list"

section \<open>Constants and enumerations\<close>

definition MAX_CONTROL_OCTETS :: nat where
  "MAX_CONTROL_OCTETS = 2048"

definition MAX_CONTROL_DEPTH :: nat where
  "MAX_CONTROL_DEPTH = 8"

definition MAX_ADJACENT_BODY_OCTETS :: nat where
  "MAX_ADJACENT_BODY_OCTETS = 65536"

definition KEY_PREFIX :: string where
  "KEY_PREFIX = ''@ed25519:''"

definition SHA256_PREFIX :: string where
  "SHA256_PREFIX = ''sha256:''"

definition BOOTSTRAP_SOURCE_SHA256 :: string where
  "BOOTSTRAP_SOURCE_SHA256 = ''5607ca9c015767c433040e58e261828e6c29d427ec66ce1b76e2294cfecfa8c3''"

definition SESSION_SOURCE_SHA256 :: string where
  "SESSION_SOURCE_SHA256 = ''f7908e42da5fe1a63e546f4d5e7619bb20f78d06c43273f8a839e82c459c9805''"

definition BOOTSTRAP_DIALECT_HASH :: string where
  "BOOTSTRAP_DIALECT_HASH = ''sha256:534b42e5f15369a9329bcd655027e535277646f3680aa7beb14cc935723e1465''"

definition SESSION_DIALECT_HASH :: string where
  "SESSION_DIALECT_HASH = ''sha256:465e218843248ed867dfa385e498169607daf49c031fca7173891578e60fab3c''"

datatype pairing_role = RoleAllocator | RoleClaimant

definition role_endpoint :: "pairing_role \<Rightarrow> string" where
  "role_endpoint r = (case r of RoleAllocator \<Rightarrow> ''allocator'' | RoleClaimant \<Rightarrow> ''claimant'')"

datatype bootstrap_performative = CpaceA | CpaceB | FinishedA | FinishedB

fun bootstrap_name :: "bootstrap_performative \<Rightarrow> string" where
  "bootstrap_name CpaceA = ''cpace-a''"
| "bootstrap_name CpaceB = ''cpace-b''"
| "bootstrap_name FinishedA = ''finished-a''"
| "bootstrap_name FinishedB = ''finished-b''"

text \<open>The two-element array indexed by \<^verbatim>\<open>role_index\<close> is a pair of fields, one per role.\<close>

fun performative_role :: "bootstrap_performative \<Rightarrow> pairing_role" where
  "performative_role CpaceA = RoleAllocator"
| "performative_role FinishedA = RoleAllocator"
| "performative_role CpaceB = RoleClaimant"
| "performative_role FinishedB = RoleClaimant"

definition is_cpace :: "bootstrap_performative \<Rightarrow> bool" where
  "is_cpace p \<longleftrightarrow> p = CpaceA \<or> p = CpaceB"

datatype session_performative = SpIntent | SpApprove | SpDecline | SpPayload

fun session_name :: "session_performative \<Rightarrow> string" where
  "session_name SpIntent = ''pairing-intent''"
| "session_name SpApprove = ''pairing-approve''"
| "session_name SpDecline = ''pairing-decline''"
| "session_name SpPayload = ''pairing-payload''"

datatype protocol_verdict = Valid | Unknown | Violation

fun verdict_of :: "verification_result \<Rightarrow> protocol_verdict" where
  "verdict_of VrValid = Valid"
| "verdict_of VrUnknown = Unknown"
| "verdict_of (VrViolation _) = Violation"

datatype protocol_error =
    PeDialect
  | MalformedControl
  | PeSignature
  | PeThread
  | PePerformative
  | BodyBinding
  | KeyBinding
  | RoleOpener

section \<open>Hexadecimal text\<close>

definition HEX :: string where
  "HEX = ''0123456789abcdef''"

definition lower_hex :: "bytes \<Rightarrow> string" where
  "lower_hex bs = concat (map (\<lambda>b. [HEX ! unat (drop_bit 4 b), HEX ! unat (b AND 15)]) bs)"

definition lower_hex_nibble :: "char \<Rightarrow> byte option" where
  "lower_hex_nibble c =
     (let n = char_code c in
      if 48 \<le> n \<and> n \<le> 57 then Some (of_nat (n - 48))
      else if 97 \<le> n \<and> n \<le> 102 then Some (of_nat (n - 97 + 10))
      else None)"

fun hex_pairs :: "string \<Rightarrow> bytes option" where
  "hex_pairs (h # l # cs) =
     (case lower_hex_nibble h of None \<Rightarrow> None | Some high \<Rightarrow>
      case lower_hex_nibble l of None \<Rightarrow> None | Some low \<Rightarrow>
      case hex_pairs cs of None \<Rightarrow> None | Some rest \<Rightarrow> Some ((push_bit 4 high OR low) # rest))"
| "hex_pairs _ = Some []"

definition decode_lower_hex :: "nat \<Rightarrow> string \<Rightarrow> bytes option" where
  "decode_lower_hex n v = (if length v \<noteq> n * 2 then None else hex_pairs v)"

definition sha256_hex :: "cbcl \<Rightarrow> bytes \<Rightarrow> string" where
  "sha256_hex E bs = lower_hex (ce_sha256 E bs)"

definition ceremony_id :: "cbcl \<Rightarrow> bytes \<Rightarrow> string" where
  "ceremony_id E i = sha256_hex E i"

definition strip_prefix :: "string \<Rightarrow> string \<Rightarrow> string option" where
  "strip_prefix prefix s = (if starts_with prefix s then Some (drop (length prefix) s) else None)"

definition validate_ceremony :: "string \<Rightarrow> (unit, protocol_error) result" where
  "validate_ceremony v =
     (if length v = 64 \<and>
         list_all (\<lambda>c. (48 \<le> char_code c \<and> char_code c \<le> 57) \<or> (97 \<le> char_code c \<and> char_code c \<le> 102)) v
      then Ok () else Err PeThread)"

section \<open>The depth preflight\<close>

fun sexpr_scan :: "nat \<Rightarrow> nat \<Rightarrow> bool \<Rightarrow> bool \<Rightarrow> string \<Rightarrow> bool" where
  "sexpr_scan max_depth depth in_string escaped [] \<longleftrightarrow> depth = 0 \<and> \<not> in_string \<and> \<not> escaped"
| "sexpr_scan max_depth depth in_string escaped (c # cs) =
     (if in_string then
        if escaped then sexpr_scan max_depth depth True False cs
        else if c = CHR 0x5C then sexpr_scan max_depth depth True True cs
        else if c = CHR 0x22 then sexpr_scan max_depth depth False False cs
        else sexpr_scan max_depth depth True False cs
      else if c = CHR 0x22 then sexpr_scan max_depth depth True escaped cs
      else if c = CHR ''('' then
        if depth + 1 > max_depth then False else sexpr_scan max_depth (depth + 1) False escaped cs
      else if c = CHR '')'' then
        if depth = 0 then False else sexpr_scan max_depth (depth - 1) False escaped cs
      else if 32 \<le> char_code c \<and> char_code c \<le> 126 then sexpr_scan max_depth depth False escaped cs
      else False)"

definition bounded_ascii_sexpr :: "string \<Rightarrow> nat \<Rightarrow> bool" where
  "bounded_ascii_sexpr input max_depth \<longleftrightarrow> is_ascii input \<and> sexpr_scan max_depth 0 False False input"

section \<open>Ceremony keys\<close>

type_synonym ceremony_key_id = string
type_synonym ceremony_signing_key = bytes

definition key_parse :: "cbcl \<Rightarrow> string \<Rightarrow> (ceremony_key_id, protocol_error) result" where
  "key_parse E v =
     bind_result (ok_or PeSignature (strip_prefix KEY_PREFIX v)) (\<lambda>hex.
     bind_result (ok_or PeSignature (decode_lower_hex 32 hex)) (\<lambda>bs.
       if ce_key_valid E bs then Ok v else Err PeSignature))"

definition from_public_key :: "cbcl \<Rightarrow> bytes \<Rightarrow> (ceremony_key_id, protocol_error) result" where
  "from_public_key E public_key =
     (if ce_key_valid E public_key then Ok (KEY_PREFIX @ lower_hex public_key) else Err PeSignature)"

definition public_key_bytes :: "ceremony_key_id \<Rightarrow> (bytes, protocol_error) result" where
  "public_key_bytes k =
     bind_result (ok_or PeSignature (strip_prefix KEY_PREFIX k)) (\<lambda>hex.
       ok_or PeSignature (decode_lower_hex 32 hex))"

definition key_id :: "cbcl \<Rightarrow> ceremony_signing_key \<Rightarrow> (ceremony_key_id, protocol_error) result" where
  "key_id E key = (case from_public_key E (ce_public E key) of Ok k \<Rightarrow> Ok k | _ \<Rightarrow> Panic)"

definition sign_message :: "cbcl \<Rightarrow> ceremony_signing_key \<Rightarrow> message \<Rightarrow> (message, protocol_error) result" where
  "sign_message E key inner =
     (let preimage = ce_encode E (ce_sexpr E inner);
          signature = ce_sign E key preimage
      in bind_result (key_id E key) (\<lambda>k.
           Ok (Wrapped WSigned [SAtom (ASymbol k), SAtom (AStr (lower_hex signature))] inner)))"

section \<open>Recognising controls\<close>

record verified_control =
  vc_message :: message
  vc_signer :: ceremony_key_id
  vc_content_hash :: string

definition public_verifier :: "cbcl \<Rightarrow> bytes \<Rightarrow> bytes \<Rightarrow> bytes \<Rightarrow> bool" where
  "public_verifier E key data sig \<longleftrightarrow> length sig = 64 \<and> ce_verify_strict E key data sig"

definition text_of :: "bytes \<Rightarrow> string" where
  "text_of bs = map (\<lambda>b. char_of (unat b)) bs"

text \<open>
  A control that is not UTF-8 has an octet above 127, so the UTF-8 check and the ASCII check of
  the preflight refuse it with the same error.
\<close>

definition recognise_signed_control ::
  "cbcl \<Rightarrow> bytes \<Rightarrow> bool \<Rightarrow> (verified_control, protocol_error) result" where
  "recognise_signed_control E control require_role_wrapper =
     (if control = [] \<or> length control > MAX_CONTROL_OCTETS then Err MalformedControl
      else if \<not> bounded_ascii_sexpr (text_of control) MAX_CONTROL_DEPTH then Err MalformedControl
      else
        bind_result (ok_or MalformedControl (ce_parse_text E (text_of control))) (\<lambda>sexpr.
        bind_result (ok_or MalformedControl (ce_message E sexpr)) (\<lambda>message.
        if ascii (ce_print E (ce_sexpr E message)) \<noteq> control then Err MalformedControl
        else bind_result
          (if require_role_wrapper then
             (case message of Wrapped WWithRoles _ content \<Rightarrow> Ok content | _ \<Rightarrow> Err RoleOpener)
           else Ok message) (\<lambda>signed.
        case signed of
          Wrapped WSigned params inner \<Rightarrow>
            (case params of
               [SAtom (ASymbol key), SAtom (AStr signature_hex)] \<Rightarrow>
                 bind_result (key_parse E key) (\<lambda>signer.
                 bind_result (ok_or PeSignature (decode_lower_hex 64 signature_hex)) (\<lambda>signature.
                 bind_result (public_key_bytes signer) (\<lambda>raw.
                 if \<not> ce_key_valid E raw then Err PeSignature
                 else if \<not> ce_verify_v1_full E (public_verifier E raw) (ce_encode E (ce_sexpr E inner)) signature
                 then Err PeSignature
                 else Ok \<lparr>vc_message = message, vc_signer = signer,
                          vc_content_hash = SHA256_PREFIX @ sha256_hex E (ce_encode E (ce_sexpr E message))\<rparr>)))
             | _ \<Rightarrow> Err PeSignature)
        | _ \<Rightarrow> Err PeSignature))))"

definition validate_bound_control ::
  "cbcl \<Rightarrow> message \<Rightarrow> string \<Rightarrow> string \<Rightarrow> bytes \<Rightarrow> (unit, protocol_error) result" where
  "validate_bound_control E message expected_performative ceremony body =
     (if length body > MAX_ADJACENT_BODY_OCTETS then Err BodyBinding
      else bind_result (ok_or MalformedControl (ce_innermost E message)) (\<lambda>simple.
        case simple of
          Simple perf _ content params thread sender caused \<Rightarrow>
            (if ce_name E perf \<noteq> expected_performative then Err PePerformative
             else bind_result (validate_ceremony ceremony) (\<lambda>_.
               if thread \<noteq> Some ceremony then Err PeThread
               else if sender \<noteq> None \<or> caused = None then Err MalformedControl
               else case params of
                 [SAtom (AStr digest), SAtom (ANum body_len)] \<Rightarrow>
                   (if content \<noteq> SAtom (AStr ceremony) then Err PeThread
                    else if digest \<noteq> SHA256_PREFIX @ sha256_hex E body \<or> body_len \<noteq> int (length body)
                    then Err BodyBinding else Ok ())
               | _ \<Rightarrow> Err MalformedControl))
        | _ \<Rightarrow> Err MalformedControl))"

definition validate_opener_simple :: "cbcl \<Rightarrow> message \<Rightarrow> string \<Rightarrow> (unit, protocol_error) result" where
  "validate_opener_simple E message ceremony =
     (case message of
        Wrapped WWithRoles _ (Wrapped WSigned _ (Simple perf recipient content params thread sender caused)) \<Rightarrow>
          if ce_name E perf \<noteq> ''hello'' \<or> recipient \<noteq> None \<or> content \<noteq> SList [] \<or> params \<noteq> [] \<or>
             thread \<noteq> Some ceremony \<or> sender \<noteq> None \<or> caused \<noteq> Some CbBegin
          then Err RoleOpener else Ok ()
      | _ \<Rightarrow> Err RoleOpener)"

definition validate_exact_cast :: "cast \<Rightarrow> ceremony_key_id \<Rightarrow> ceremony_key_id \<Rightarrow> (unit, protocol_error) result" where
  "validate_exact_cast c allocator claimant =
     (if ca_singleton c \<noteq> [(''allocator'', allocator), (''claimant'', claimant)] \<or> ca_indexed c \<noteq> [] \<or>
         ca_dialect_pin c \<noteq> Some SESSION_DIALECT_HASH
      then Err RoleOpener else Ok ())"

definition exact_opener_params :: "ceremony_key_id \<Rightarrow> ceremony_key_id \<Rightarrow> sexpr list" where
  "exact_opener_params allocator claimant =
     [SList [SList [SAtom (ASymbol ''allocator''), SAtom (ASymbol allocator)],
             SList [SAtom (ASymbol ''claimant''), SAtom (ASymbol claimant)]],
      SAtom (AKeyword ''dialect''), SAtom (ASymbol SESSION_DIALECT_HASH)]"

fun session_reference_is_anchored :: "session_performative \<Rightarrow> caused_by option \<Rightarrow> string \<Rightarrow> bool" where
  "session_reference_is_anchored SpIntent (Some (CbSingle hash)) root \<longleftrightarrow> hash = root"
| "session_reference_is_anchored SpApprove (Some (CbSingle _)) root \<longleftrightarrow> True"
| "session_reference_is_anchored SpDecline (Some (CbSingle _)) root \<longleftrightarrow> True"
| "session_reference_is_anchored SpPayload (Some (CbSingle _)) root \<longleftrightarrow> True"
| "session_reference_is_anchored _ _ root \<longleftrightarrow> False"

section \<open>Building controls\<close>

definition encode_control :: "cbcl \<Rightarrow> message \<Rightarrow> (bytes, protocol_error) result" where
  "encode_control E message =
     (let text = ce_print E (ce_sexpr E message) in
      if text = [] \<or> length text > MAX_CONTROL_OCTETS \<or> \<not> bounded_ascii_sexpr text MAX_CONTROL_DEPTH
      then Err MalformedControl
      else bind_result (ok_or MalformedControl (ce_parse_text E text)) (\<lambda>parsed.
        bind_result (ok_or MalformedControl (ce_message E parsed)) (\<lambda>roundtrip.
          if roundtrip \<noteq> message then Err MalformedControl else Ok (ascii text))))"

definition canonical_caused_by :: "caused_by \<Rightarrow> caused_by" where
  "canonical_caused_by c =
     (case c of CbMultiple hashes \<Rightarrow> CbMultiple (sort_key (map (of_char :: char \<Rightarrow> nat)) hashes) | other \<Rightarrow> other)"

definition bound_message :: "cbcl \<Rightarrow> string \<Rightarrow> ceremony_key_id option \<Rightarrow> string \<Rightarrow> bytes \<Rightarrow> caused_by \<Rightarrow> message" where
  "bound_message E name recipient ceremony body caused =
     Simple (PCustom name) (map_option One recipient) (SAtom (AStr ceremony))
       [SAtom (AStr (SHA256_PREFIX @ sha256_hex E body)), SAtom (ANum (int (length body)))]
       (Some ceremony) None (Some (canonical_caused_by caused))"

definition build_bound_control ::
  "cbcl \<Rightarrow> ceremony_signing_key \<Rightarrow> string \<Rightarrow> ceremony_key_id option \<Rightarrow> string \<Rightarrow> bytes \<Rightarrow> caused_by \<Rightarrow>
     (bytes, protocol_error) result" where
  "build_bound_control E key name recipient ceremony body caused =
     bind_result (validate_ceremony ceremony) (\<lambda>_.
     if length body > MAX_ADJACENT_BODY_OCTETS then Err BodyBinding
     else bind_result (sign_message E key (bound_message E name recipient ceremony body caused)) (encode_control E))"

definition build_bootstrap_control ::
  "cbcl \<Rightarrow> ceremony_signing_key \<Rightarrow> bootstrap_performative \<Rightarrow> string \<Rightarrow> bytes \<Rightarrow> caused_by \<Rightarrow>
     (bytes, protocol_error) result" where
  "build_bootstrap_control E key p ceremony body caused =
     build_bound_control E key (bootstrap_name p) None ceremony body caused"

definition build_session_control ::
  "cbcl \<Rightarrow> ceremony_signing_key \<Rightarrow> session_performative \<Rightarrow> string \<Rightarrow> ceremony_key_id \<Rightarrow> bytes \<Rightarrow> caused_by \<Rightarrow>
     (bytes, protocol_error) result" where
  "build_session_control E key p ceremony recipient body caused =
     build_bound_control E key (session_name p) (Some recipient) ceremony body caused"

definition build_session_opener ::
  "cbcl \<Rightarrow> ceremony_signing_key \<Rightarrow> ceremony_key_id \<Rightarrow> string \<Rightarrow> (bytes, protocol_error) result" where
  "build_session_opener E allocator_key claimant ceremony =
     bind_result (validate_ceremony ceremony) (\<lambda>_.
     bind_result (key_id E allocator_key) (\<lambda>allocator.
     bind_result (sign_message E allocator_key
         (Simple PHello None (SList []) [] (Some ceremony) None (Some CbBegin))) (\<lambda>signed.
       encode_control E (Wrapped WWithRoles (exact_opener_params allocator claimant) signed))))"

section \<open>Dialects\<close>

fun install_all :: "cbcl \<Rightarrow> registry \<Rightarrow> string list \<Rightarrow> (registry, protocol_error) result" where
  "install_all E reg [] = Ok reg"
| "install_all E reg (source # sources) =
     bind_result (ok_or PeDialect (ce_parse_source E source)) (\<lambda>sexpr.
     bind_result (ok_or PeDialect (ce_parse_dialect E sexpr)) (\<lambda>d.
       if ce_install E reg d then install_all E (reg @ [d]) sources else Err PeDialect))"

definition BOOTSTRAP_NAME :: string where
  "BOOTSTRAP_NAME = ''blind-pairing-bootstrap/v1''"

definition SESSION_NAME :: string where
  "SESSION_NAME = ''blind-pairing-session/v1''"

definition install_sources :: "cbcl \<Rightarrow> string \<Rightarrow> string \<Rightarrow> (registry, protocol_error) result" where
  "install_sources E bootstrap_source session_source =
     (if sha256_hex E (ascii bootstrap_source) \<noteq> BOOTSTRAP_SOURCE_SHA256 \<or>
         sha256_hex E (ascii session_source) \<noteq> SESSION_SOURCE_SHA256 then Err PeDialect
      else bind_result (install_all E [] [bootstrap_source, session_source]) (\<lambda>reg.
        bind_result (ok_or PeDialect (ce_find_by_name E reg BOOTSTRAP_NAME)) (\<lambda>bootstrap.
        bind_result (ok_or PeDialect (ce_find_by_name E reg SESSION_NAME)) (\<lambda>session.
          if dl_hash bootstrap \<noteq> Some BOOTSTRAP_DIALECT_HASH \<or> dl_hash session \<noteq> Some SESSION_DIALECT_HASH \<or>
             ce_dialect_hash E bootstrap \<noteq> BOOTSTRAP_DIALECT_HASH \<or>
             ce_dialect_hash E session \<noteq> SESSION_DIALECT_HASH
          then Err PeDialect else Ok reg))))"

definition install :: "cbcl \<Rightarrow> (registry, protocol_error) result" where
  "install E = install_sources E (ce_bootstrap_source E) (ce_session_source E)"

definition bootstrap_dialect :: "cbcl \<Rightarrow> registry \<Rightarrow> (dialect, protocol_error) result" where
  "bootstrap_dialect E reg = expect (ce_find_by_name E reg BOOTSTRAP_NAME)"

definition session_dialect :: "cbcl \<Rightarrow> registry \<Rightarrow> (dialect, protocol_error) result" where
  "session_dialect E reg = expect (ce_find_by_name E reg SESSION_NAME)"

section \<open>The bootstrap monitor\<close>

record admission =
  ad_verdict :: protocol_verdict
  ad_content_hash :: string
  ad_signer :: ceremony_key_id

record bootstrap_monitor =
  bm_dialects :: registry
  bm_store :: store
  bm_thread :: string
  bm_allocator_key :: "ceremony_key_id option"
  bm_claimant_key :: "ceremony_key_id option"
  bm_stored :: nat

definition bootstrap_new :: "cbcl \<Rightarrow> bytes \<Rightarrow> (bootstrap_monitor, protocol_error) result" where
  "bootstrap_new E i =
     bind_result (install E) (\<lambda>reg.
       Ok \<lparr>bm_dialects = reg, bm_store = [], bm_thread = ceremony_id E i, bm_allocator_key = None,
           bm_claimant_key = None, bm_stored = 0\<rparr>)"

definition role_key :: "bootstrap_monitor \<Rightarrow> pairing_role \<Rightarrow> ceremony_key_id option" where
  "role_key b r = (case r of RoleAllocator \<Rightarrow> bm_allocator_key b | RoleClaimant \<Rightarrow> bm_claimant_key b)"

definition set_role_key :: "bootstrap_monitor \<Rightarrow> pairing_role \<Rightarrow> ceremony_key_id \<Rightarrow> bootstrap_monitor" where
  "set_role_key b r k =
     (case r of RoleAllocator \<Rightarrow> b\<lparr>bm_allocator_key := Some k\<rparr> | RoleClaimant \<Rightarrow> b\<lparr>bm_claimant_key := Some k\<rparr>)"

definition bootstrap_append :: "cbcl \<Rightarrow> bootstrap_monitor \<Rightarrow> string \<Rightarrow> message \<Rightarrow> bootstrap_monitor" where
  "bootstrap_append E b hash message =
     b\<lparr>bm_store := bm_store b @ [(hash, bm_thread b, message)],
       bm_stored := (if ce_append E (bm_store b) hash (bm_thread b) message then Suc (bm_stored b) else bm_stored b)\<rparr>"

definition bootstrap_admit ::
  "cbcl \<Rightarrow> bootstrap_monitor \<Rightarrow> bootstrap_performative \<Rightarrow> bytes \<Rightarrow> bytes \<Rightarrow>
     (admission, protocol_error) result \<times> bootstrap_monitor" where
  "bootstrap_admit E b expected control adjacent_body =
     bind_st (recognise_signed_control E control False, b) (\<lambda>verified b.
     bind_st (validate_bound_control E (vc_message verified) (bootstrap_name expected) (bm_thread b) adjacent_body, b) (\<lambda>_ b.
     bind_st (ok_or MalformedControl (ce_innermost E (vc_message verified)), b) (\<lambda>simple b.
     if ce_recipient_set E simple \<noteq> [] then (Err MalformedControl, b)
     else if \<not> ce_evaluate E (vc_message verified) (bm_dialects b) then (Err MalformedControl, b)
     else
       let r = performative_role expected in
       if (case role_key b r of None \<Rightarrow> False | Some bound \<Rightarrow> bound \<noteq> vc_signer verified) then (Err KeyBinding, b)
       else
         bind_st (bootstrap_dialect E (bm_dialects b), b) (\<lambda>d b.
         bind_st (ok_or PeDialect (dl_causal_protocol d), b) (\<lambda>protocol b.
         let verdict = verdict_of (ce_verify_causal E (bootstrap_name expected) (ce_caused_by E simple)
               (bm_store b) protocol (bm_thread b));
             adm = \<lparr>ad_verdict = verdict, ad_content_hash = vc_content_hash verified, ad_signer = vc_signer verified\<rparr>
         in
         if verdict = Valid then
           if \<not> is_cpace expected \<and> role_key b r = None then (Err KeyBinding, b)
           else
             let b1 = (if is_cpace expected \<and> role_key b r = None then set_role_key b r (vc_signer verified) else b)
             in (Ok adm, bootstrap_append E b1 (vc_content_hash verified) (vc_message verified))
         else (Ok adm, b))))))"

section \<open>The session monitor\<close>

record session_monitor =
  sm_dialects :: registry
  sm_store :: store
  sm_thread :: string
  sm_cast :: cast
  sm_root :: string
  sm_endpoint :: string
  sm_projection :: "string list"
  sm_stored :: nat

definition session_append :: "cbcl \<Rightarrow> session_monitor \<Rightarrow> string \<Rightarrow> message \<Rightarrow> session_monitor" where
  "session_append E s hash message =
     s\<lparr>sm_store := sm_store s @ [(hash, sm_thread s, message)],
       sm_stored := (if ce_append E (sm_store s) hash (sm_thread s) message then Suc (sm_stored s) else sm_stored s)\<rparr>"

definition open_for_ceremony ::
  "cbcl \<Rightarrow> string \<Rightarrow> pairing_role \<Rightarrow> ceremony_key_id \<Rightarrow> ceremony_key_id \<Rightarrow> bytes \<Rightarrow>
     (session_monitor \<times> admission, protocol_error) result" where
  "open_for_ceremony E ceremony local_role allocator claimant control =
     bind_result (validate_ceremony ceremony) (\<lambda>_.
     bind_result (install E) (\<lambda>reg.
     bind_result (recognise_signed_control E control True) (\<lambda>verified.
     if vc_signer verified \<noteq> allocator then Err RoleOpener
     else bind_result (validate_opener_simple E (vc_message verified) ceremony) (\<lambda>_.
     case vc_message verified of
       Wrapped WWithRoles params _ \<Rightarrow>
         (if params \<noteq> exact_opener_params allocator claimant then Err RoleOpener
          else
            bind_result (session_dialect E reg) (\<lambda>d.
            bind_result (ok_or RoleOpener (ce_parse_cast E params (dl_roles d))) (\<lambda>c.
            bind_result (validate_exact_cast c allocator claimant) (\<lambda>_.
            if \<not> ce_r6_clean E d c then Err RoleOpener
            else if \<not> ce_evaluate E (vc_message verified) reg then Err MalformedControl
            else
              let endpoint = role_endpoint local_role;
                  root = vc_content_hash verified;
                  verdict = verdict_of (ce_verify_for_role E (vc_message verified) endpoint d c [] ceremony root)
              in if verdict \<noteq> Valid then Err RoleOpener
                 else
                   let monitor = \<lparr>sm_dialects = reg, sm_store = [], sm_thread = ceremony, sm_cast = c,
                         sm_root = root, sm_endpoint = endpoint, sm_projection = ce_project E d endpoint (Some c),
                         sm_stored = 0\<rparr>
                   in Ok (session_append E monitor root (vc_message verified),
                          \<lparr>ad_verdict = verdict, ad_content_hash = vc_content_hash verified,
                           ad_signer = vc_signer verified\<rparr>)))))
     | _ \<Rightarrow> Err RoleOpener))))"

definition session_admit ::
  "cbcl \<Rightarrow> session_monitor \<Rightarrow> session_performative \<Rightarrow> bytes \<Rightarrow> bytes \<Rightarrow>
     (admission, protocol_error) result \<times> session_monitor" where
  "session_admit E s expected control adjacent_body =
     bind_st (recognise_signed_control E control False, s) (\<lambda>verified s.
     bind_st (validate_bound_control E (vc_message verified) (session_name expected) (sm_thread s) adjacent_body, s) (\<lambda>_ s.
     if \<not> ce_evaluate E (vc_message verified) (sm_dialects s) then (Err MalformedControl, s)
     else bind_st (ok_or MalformedControl (ce_innermost E (vc_message verified)), s) (\<lambda>simple s.
     let adm = (\<lambda>v. \<lparr>ad_verdict = v, ad_content_hash = vc_content_hash verified, ad_signer = vc_signer verified\<rparr>) in
     if \<not> session_reference_is_anchored expected (ce_caused_by E simple) (sm_root s) then (Ok (adm Violation), s)
     else if session_name expected \<notin> set (sm_projection s) then (Ok (adm Violation), s)
     else bind_st (session_dialect E (sm_dialects s), s) (\<lambda>d s.
       let verdict = verdict_of (ce_verify_for_role E (vc_message verified) (sm_endpoint s) d (sm_cast s)
             (sm_store s) (sm_thread s) (sm_root s))
       in if verdict = Valid
          then (Ok (adm verdict), session_append E s (vc_content_hash verified) (vc_message verified))
          else (Ok (adm verdict), s)))))"

end
