(* ===== verification/Cbcl_Props.thy ===== *)
theory Cbcl_Props
  imports Cbcl_Protocol
begin

text \<open>
  What the CBCL adapter guarantees: lowercase hexadecimal is a strict bijection, a control that
  was built is recognised with its signer and bound to its body, and the monitors only store
  valid controls, each signed by the ceremony key bound to its role for the whole ceremony.
\<close>

section \<open>Hexadecimal text\<close>

lemma HEX_nibbles: "list_all (\<lambda>n. lower_hex_nibble (HEX ! n) = Some (of_nat n)) [0..<16]"
  by code_simp

lemma nibble_HEX: "n < 16 \<Longrightarrow> lower_hex_nibble (HEX ! n) = Some (of_nat n)"
  using HEX_nibbles unfolding list_all_iff by simp

lemma HEX_codes: "list_all (\<lambda>k. char_code (HEX ! k) = (if k < 10 then 48 + k else 87 + k)) [0..<16]"
  by code_simp

lemma HEX_code: "k < 16 \<Longrightarrow> char_code (HEX ! k) = (if k < 10 then 48 + k else 87 + k)"
  using HEX_codes unfolding list_all_iff by simp

lemma char_code_inject: "char_code c = char_code d \<longleftrightarrow> c = d"
  by (simp add: char_code_def)

lemma of_char_nat_less: "(of_char c :: nat) < 256"
  using range_nat_of_char by (metis atLeastLessThan_iff rangeI)

lemma nibble_sound:
  assumes "lower_hex_nibble c = Some w"
  shows "unat w < 16 \<and> HEX ! unat w = c"
proof -
  obtain k where k: "k < 16" "w = of_nat k" "char_code c = (if k < 10 then 48 + k else 87 + k)"
  proof (cases "char_code c \<le> 57")
    case True
    then show thesis using assms that[of "char_code c - 48"]
      by (auto simp: lower_hex_nibble_def Let_def split: if_splits)
  next
    case False
    then show thesis using assms that[of "char_code c - 97 + 10"]
      by (auto simp: lower_hex_nibble_def Let_def split: if_splits)
  qed
  have "unat w = k" using k(1,2) by (simp add: unat_of_nat take_bit_eq_mod)
  with k HEX_code[OF k(1)] show ?thesis by (simp add: char_code_inject[symmetric])
qed

lemma fifteen: "(15 :: byte) = mask 4"
  by (simp add: mask_eq_exp_minus_1)

lemma byte_split: "push_bit 4 (drop_bit 4 b) OR (b AND 15) = (b :: byte)"
  unfolding fifteen by (intro bit_eqI) (auto simp: bit_simps)

lemma nibble_bits: "unat (w :: byte) < 16 \<Longrightarrow> bit w n \<Longrightarrow> n < 4"
proof (rule ccontr)
  assume w: "unat w < 16" "bit w n" and "\<not> n < 4"
  then have "16 \<le> (2 :: nat) ^ n" using power_increasing[of 4 n "2 :: nat"] by simp
  then have "unat w div 2 ^ n = 0" using w(1) by simp
  moreover have "bit (unat w) n" using w(2) by (auto simp: bit_unsigned_iff)
  ultimately show False by (simp add: bit_iff_odd)
qed

lemma byte_join:
  assumes "unat h < 16" and "unat l < 16"
  shows "drop_bit 4 (push_bit 4 h OR l) = (h :: byte)" "(push_bit 4 h OR l) AND 15 = l"
proof -
  show "drop_bit 4 (push_bit 4 h OR l) = h"
    using nibble_bits[OF assms(1)] nibble_bits[OF assms(2)]
    by (intro bit_eqI) (fastforce simp: bit_simps)
  show "(push_bit 4 h OR l) AND 15 = l"
    unfolding fifteen using nibble_bits[OF assms(2)] by (intro bit_eqI) (fastforce simp: bit_simps)
qed

lemma nibble_less: "unat (drop_bit 4 (b :: byte)) < 16" "unat (b AND 15) < 16"
proof -
  have "unat b < 256" using unsigned_less[of b, where 'a = nat] by simp
  then have "unat b div 16 < 16" by simp
  moreover have "unat (drop_bit 4 b) = drop_bit 4 (unat b)" 
    using \<open>unat b < 256\<close> by (simp add: unsigned_drop_bit_eq take_bit_nat_eq_self)
  ultimately show "unat (drop_bit 4 b) < 16" by (simp only: drop_bit_eq_div) simp
  have "unat (b AND 15) = unat b AND 15" by (simp add: unsigned_and_eq)
  also have "\<dots> = unat b mod 16"
    using take_bit_eq_mask[of 4 "unat b"] by (simp add: take_bit_eq_mod mask_eq_exp_minus_1)
  finally show "unat (b AND 15) < 16" by simp
qed

lemma lower_hex_Cons: "lower_hex (b # bs) = HEX ! unat (drop_bit 4 b) # HEX ! unat (b AND 15) # lower_hex bs"
  by (simp add: lower_hex_def)

lemma length_hex_text [simp]: "length (lower_hex bs) = length bs * 2"
  by (induction bs) (simp_all add: lower_hex_def)

lemma hex_pairs_lower_hex: "hex_pairs (lower_hex bs) = Some bs"
proof (induction bs)
  case Nil
  then show ?case by (simp add: lower_hex_def)
next
  case (Cons b bs)
  then show ?case by (simp add: lower_hex_Cons nibble_HEX nibble_less byte_split)
qed

lemma hex_pairs_sound: "even (length s) \<Longrightarrow> hex_pairs s = Some bs \<Longrightarrow> lower_hex bs = s"
proof (induction s arbitrary: bs rule: hex_pairs.induct)
  case (1 h l cs)
  then obtain hi lo rest where n: "lower_hex_nibble h = Some hi" "lower_hex_nibble l = Some lo"
    "hex_pairs cs = Some rest" "bs = (push_bit 4 hi OR lo) # rest"
    by (auto split: option.splits)
  have "lower_hex rest = cs" using 1 n by simp
  then show ?case
    using nibble_sound[OF n(1)] nibble_sound[OF n(2)] by (simp only: n(4) lower_hex_Cons byte_join)
qed (auto simp: lower_hex_def)

text \<open>
  Lowercase hexadecimal is a strict bijection: every octet string of the expected length is
  read back from its text, and the only text that reads as given octets is the one written
  from them, so keys, signatures and digests have one spelling each.
\<close>

lemma lower_hex_bijective:
  "decode_lower_hex n s = Some bs \<longleftrightarrow> length bs = n \<and> s = lower_hex bs"
proof
  assume d: "decode_lower_hex n s = Some bs"
  then have "lower_hex bs = s" using hex_pairs_sound by (auto simp: decode_lower_hex_def split: if_splits)
  then show "length bs = n \<and> s = lower_hex bs"
    using d by (auto simp: decode_lower_hex_def split: if_splits)
qed (auto simp: decode_lower_hex_def hex_pairs_lower_hex)

section \<open>Built controls\<close>

text \<open>The documented behaviour of the engine and of Ed25519 that signed controls rely on.\<close>

definition engine_laws :: "cbcl \<Rightarrow> bool" where
  "engine_laws E \<longleftrightarrow>
     (\<forall>k m. ce_verify_strict E (ce_public E k) m (ce_sign E k m)) \<and>
     (\<forall>k m. length (ce_sign E k m) = 64) \<and>
     (\<forall>k. length (ce_public E k) = 32 \<and> ce_key_valid E (ce_public E k)) \<and>
     (\<forall>v m s. ce_verify_v1_full E v m s = v m s) \<and>
     (\<forall>w ps m. ce_innermost E (Wrapped w ps m) = ce_innermost E m) \<and>
     (\<forall>p r c ps t s cb. ce_innermost E (Simple p r c ps t s cb) = Some (Simple p r c ps t s cb)) \<and>
     (\<forall>n. ce_name E (PCustom n) = n)"

lemma text_of_ascii [simp]: "text_of (ascii s) = s"
proof -
  have "char_of (unat (of_char c :: byte)) = c" for c :: char
  proof -
    have "unat (of_char c :: byte) = unat (of_nat (of_char c) :: byte)" by (simp only: of_nat_of_char)
    also have "\<dots> = of_char c"
      using of_char_nat_less[of c] by (simp only: unat_of_nat) (simp add: take_bit_eq_mod)
    finally show ?thesis by simp
  qed
  then show ?thesis by (simp add: text_of_def ascii_def map_idI)
qed

lemma length_ascii [simp]: "length (ascii s) = length s" "ascii s = [] \<longleftrightarrow> s = []"
  by (simp_all add: ascii_def)

lemma encode_control_Ok:
  assumes "encode_control E m = Ok ctl"
  shows "ctl = ascii (ce_print E (ce_sexpr E m)) \<and> ctl \<noteq> [] \<and> length ctl \<le> MAX_CONTROL_OCTETS \<and>
    bounded_ascii_sexpr (text_of ctl) MAX_CONTROL_DEPTH \<and>
    (\<exists>sx. ce_parse_text E (text_of ctl) = Some sx \<and> ce_message E sx = Some m)"
  using assms by (auto simp: encode_control_def Let_def bind_result_Ok split: if_splits)

lemma key_id_Ok:
  assumes "engine_laws E"
  shows "key_id E key = Ok (KEY_PREFIX @ lower_hex (ce_public E key))"
    "key_parse E (KEY_PREFIX @ lower_hex (ce_public E key)) = Ok (KEY_PREFIX @ lower_hex (ce_public E key))"
    "public_key_bytes (KEY_PREFIX @ lower_hex (ce_public E key)) = Ok (ce_public E key)"
  using assms
  by (simp_all add: key_id_def from_public_key_def key_parse_def public_key_bytes_def strip_prefix_def
      starts_with_def engine_laws_def decode_lower_hex_def hex_pairs_lower_hex)

lemma recognise_built:
  assumes laws: "engine_laws E" and sign: "sign_message E key inner = Ok m" and enc: "encode_control E m = Ok ctl"
  shows "\<exists>v. recognise_signed_control E ctl False = Ok v \<and> vc_message v = m \<and> key_id E key = Ok (vc_signer v) \<and>
    ce_innermost E m = ce_innermost E inner"
proof -
  let ?k = "KEY_PREFIX @ lower_hex (ce_public E key)"
  let ?sig = "ce_sign E key (ce_encode E (ce_sexpr E inner))"
  have m: "m = Wrapped WSigned [SAtom (ASymbol ?k), SAtom (AStr (lower_hex ?sig))] inner"
    using sign by (simp add: sign_message_def key_id_Ok[OF laws] Let_def)
  have sig: "decode_lower_hex 64 (lower_hex ?sig) = Some ?sig"
    using laws by (simp add: engine_laws_def decode_lower_hex_def hex_pairs_lower_hex)
  have ver: "ce_key_valid E (ce_public E key)"
    "ce_verify_v1_full E (public_verifier E (ce_public E key)) (ce_encode E (ce_sexpr E inner)) ?sig"
    using laws by (simp_all add: engine_laws_def public_verifier_def)
  have "recognise_signed_control E ctl False = Ok \<lparr>vc_message = m, vc_signer = ?k,
      vc_content_hash = SHA256_PREFIX @ sha256_hex E (ce_encode E (ce_sexpr E m))\<rparr>"
    using encode_control_Ok[OF enc]
    by (auto simp: recognise_signed_control_def m key_id_Ok[OF laws] sig ver)
  moreover have "ce_innermost E m = ce_innermost E inner" using laws by (simp add: m engine_laws_def)
  ultimately show ?thesis using m by (simp add: key_id_Ok[OF laws])
qed

text \<open>
  A control that an endpoint builds is recognised by its peer: the signature verifies under
  the builder's ceremony key, and the control is valid for exactly the performative, ceremony
  and body it was built for. Any other body that passes has the same length and SHA-256.
\<close>

lemma built_control_recognised:
  assumes "engine_laws E"
    and "build_bound_control E key name recipient ceremony body caused = Ok ctl"
  shows "\<exists>v. recognise_signed_control E ctl False = Ok v \<and> key_id E key = Ok (vc_signer v) \<and>
    validate_bound_control E (vc_message v) name ceremony body = Ok () \<and>
    (\<forall>name' ceremony' body'. validate_bound_control E (vc_message v) name' ceremony' body' = Ok () \<longrightarrow>
       name' = name \<and> ceremony' = ceremony \<and> ce_sha256 E body' = ce_sha256 E body \<and> length body' = length body)"
proof -
  obtain m where b: "validate_ceremony ceremony = Ok ()" "length body \<le> MAX_ADJACENT_BODY_OCTETS"
    "sign_message E key (bound_message E name recipient ceremony body caused) = Ok m" "encode_control E m = Ok ctl"
    using assms(2) by (auto simp: build_bound_control_def bind_result_Ok split: if_splits)
  obtain v where v: "recognise_signed_control E ctl False = Ok v" "vc_message v = m" "key_id E key = Ok (vc_signer v)"
    "ce_innermost E m = Some (bound_message E name recipient ceremony body caused)"
    using recognise_built[OF assms(1) b(3,4)] assms(1) by (auto simp: engine_laws_def bound_message_def)
  have hex: "lower_hex x = lower_hex y \<longleftrightarrow> x = y" for x y by (metis hex_pairs_lower_hex option.inject)
  have val: "validate_bound_control E m name ceremony body = Ok ()"
    using v(4) b(1,2) assms(1) by (simp add: validate_bound_control_def bound_message_def engine_laws_def)
  have "name' = name \<and> ceremony' = ceremony \<and> ce_sha256 E body' = ce_sha256 E body \<and> length body' = length body"
    if "validate_bound_control E m name' ceremony' body' = Ok ()" for name' ceremony' body'
    using that v(4) assms(1)
    by (auto simp: validate_bound_control_def bound_message_def engine_laws_def bind_result_Ok sha256_hex_def hex
        split: if_splits)
  with v val show ?thesis by blast
qed

section \<open>Monitors\<close>

text \<open>The outcome of one admission: either nothing is stored, or the control was valid.\<close>

lemma bootstrap_admit_cases:
  assumes "bootstrap_admit E b p control body = (r, b')"
  shows "(b' = b \<and> (\<forall>a. r = Ok a \<longrightarrow> ad_verdict a \<noteq> Valid)) \<or>
    (\<exists>v a. recognise_signed_control E control False = Ok v \<and> r = Ok a \<and> ad_verdict a = Valid \<and>
       ad_signer a = vc_signer v \<and> ad_content_hash a = vc_content_hash v \<and>
       validate_bound_control E (vc_message v) (bootstrap_name p) (bm_thread b) body = Ok () \<and>
       (role_key b (performative_role p) = Some (vc_signer v) \<or>
        (role_key b (performative_role p) = None \<and> is_cpace p)) \<and>
       b' = bootstrap_append E (if role_key b (performative_role p) = None
         then set_role_key b (performative_role p) (vc_signer v) else b) (vc_content_hash v) (vc_message v))"
  using assms
  by (auto simp: bootstrap_admit_def Let_def bind_st_case split: if_splits option.splits result.splits)

lemma bootstrap_append_keys [simp]:
  "role_key (bootstrap_append E b h m) r = role_key b r" "bm_thread (bootstrap_append E b h m) = bm_thread b"
  "bm_store (bootstrap_append E b h m) = bm_store b @ [(h, bm_thread b, m)]"
  "bm_dialects (bootstrap_append E b h m) = bm_dialects b"
  by (simp_all add: bootstrap_append_def role_key_def split: pairing_role.splits)

lemma set_role_key_simps [simp]:
  "role_key (set_role_key b r k) r' = (if r' = r then Some k else role_key b r')"
  "bm_thread (set_role_key b r k) = bm_thread b" "bm_store (set_role_key b r k) = bm_store b"
  "bm_dialects (set_role_key b r k) = bm_dialects b"
  by (auto simp: set_role_key_def role_key_def split: pairing_role.splits)

type_synonym bootstrap_call = "bootstrap_performative \<times> bytes \<times> bytes"

fun bootstrap_run :: "cbcl \<Rightarrow> bootstrap_monitor \<Rightarrow> bootstrap_call list \<Rightarrow> bootstrap_monitor" where
  "bootstrap_run E b [] = b"
| "bootstrap_run E b ((p, control, body) # calls) =
     bootstrap_run E (snd (bootstrap_admit E b p control body)) calls"

text \<open>A stored control: a recognised control of some performative, signed by that role's key.\<close>

definition stored_properly :: "cbcl \<Rightarrow> bootstrap_monitor \<Rightarrow> string \<times> string \<times> message \<Rightarrow> bool" where
  "stored_properly E b = (\<lambda>(h, t, m). t = bm_thread b \<and>
     (\<exists>p control body v. recognise_signed_control E control False = Ok v \<and> vc_message v = m \<and>
        vc_content_hash v = h \<and> role_key b (performative_role p) = Some (vc_signer v) \<and>
        validate_bound_control E m (bootstrap_name p) t body = Ok ()))"

definition bootstrap_inv :: "cbcl \<Rightarrow> bootstrap_monitor \<Rightarrow> bool" where
  "bootstrap_inv E b \<longleftrightarrow> (\<forall>e \<in> set (bm_store b). stored_properly E b e)"

lemma bootstrap_admit_inv:
  assumes "bootstrap_inv E b" and "bootstrap_admit E b p control body = (r, b')"
  shows "bootstrap_inv E b' \<and> bm_thread b' = bm_thread b \<and>
    (\<forall>r k. role_key b r = Some k \<longrightarrow> role_key b' r = Some k)"
proof (cases "b' = b")
  case True
  then show ?thesis using assms(1) by simp
next
  case False
  then obtain v where v: "recognise_signed_control E control False = Ok v"
    "validate_bound_control E (vc_message v) (bootstrap_name p) (bm_thread b) body = Ok ()"
    and b': "b' = bootstrap_append E (if role_key b (performative_role p) = None
      then set_role_key b (performative_role p) (vc_signer v) else b) (vc_content_hash v) (vc_message v)"
    and k: "role_key b (performative_role p) = Some (vc_signer v) \<or>
        role_key b (performative_role p) = None \<and> is_cpace p"
    using bootstrap_admit_cases[OF assms(2)] by blast
  have keep: "role_key b' r = Some k" if "role_key b r = Some k" for r k
    using that by (auto simp: b')
  have thread: "bm_thread b' = bm_thread b" by (simp add: b')
  have bound: "role_key b' (performative_role p) = Some (vc_signer v)" using k by (auto simp: b')
  have "stored_properly E b' e" if "e \<in> set (bm_store b')" for e
  proof (cases "e \<in> set (bm_store b)")
    case True
    then have "stored_properly E b e" using assms(1) by (simp add: bootstrap_inv_def)
    then show ?thesis using keep thread by (fastforce simp: stored_properly_def)
  next
    case False
    then have e: "e = (vc_content_hash v, bm_thread b, vc_message v)" using that by (simp add: b' split: if_splits)
    show ?thesis unfolding stored_properly_def e using v bound thread by auto
  qed
  with keep thread show ?thesis by (simp add: bootstrap_inv_def)
qed

text \<open>
  C25: Whatever controls arrive, in whatever order, a bootstrap monitor keeps the ceremony
  thread of its invitation; a role's ceremony key, once bound, never changes; and every control
  in its history was recognised, is bound to the ceremony and is signed by the key of the
  role whose performative it carries.
\<close>

theorem bootstrap_history_authentic:
  assumes "bootstrap_new E i = Ok b"
  shows "bootstrap_inv E (bootstrap_run E b calls) \<and> bm_thread (bootstrap_run E b calls) = ceremony_id E i \<and>
    (\<forall>r k. role_key (bootstrap_run E b calls) r = Some k \<longrightarrow>
       role_key (bootstrap_run E b (calls @ later)) r = Some k)"
proof -
  have step: "bootstrap_inv E (bootstrap_run E c cs) \<and> bm_thread (bootstrap_run E c cs) = bm_thread c \<and>
      (\<forall>r k. role_key c r = Some k \<longrightarrow> role_key (bootstrap_run E c cs) r = Some k)"
    if "bootstrap_inv E c" for c cs
    using that
  proof (induction cs arbitrary: c)
    case (Cons x cs)
    obtain p control body where x: "x = (p, control, body)" by (cases x)
    obtain r c' where a: "bootstrap_admit E c p control body = (r, c')" by fastforce
    from bootstrap_admit_inv[OF Cons.prems a] Cons.IH[of c'] show ?case by (auto simp: x a)
  qed simp
  have run_append: "bootstrap_run E c (cs @ ds) = bootstrap_run E (bootstrap_run E c cs) ds" for c cs ds
    by (induction cs arbitrary: c) auto
  have "bootstrap_inv E b" "bm_thread b = ceremony_id E i"
    using assms by (auto simp: bootstrap_new_def bind_result_Ok bootstrap_inv_def)
  then show ?thesis using step[of b calls] step[of "bootstrap_run E b calls" later] by (simp add: run_append)
qed

lemma session_admit_cases:
  assumes "session_admit E s p control body = (r, s')"
  shows "(s' = s \<and> (\<forall>a. r = Ok a \<longrightarrow> ad_verdict a \<noteq> Valid)) \<or>
    (\<exists>v a. recognise_signed_control E control False = Ok v \<and> r = Ok a \<and> ad_verdict a = Valid \<and>
       ad_signer a = vc_signer v \<and> ad_content_hash a = vc_content_hash v \<and>
       validate_bound_control E (vc_message v) (session_name p) (sm_thread s) body = Ok () \<and>
       session_name p \<in> set (sm_projection s) \<and>
       s' = session_append E s (vc_content_hash v) (vc_message v))"
  using assms
  by (auto simp: session_admit_def Let_def bind_st_case split: if_splits option.splits result.splits)

section \<open>A concrete engine\<close>

text \<open>
  An engine that knows one control: it lets the adapter be run on concrete input. Its hash maps
  the two dialect sources to their published digests and everything else to zero octets.
\<close>

definition hex_bytes :: "string \<Rightarrow> bytes" where
  "hex_bytes s = (case hex_pairs s of None \<Rightarrow> [] | Some bs \<Rightarrow> bs)"

definition demo_dialect :: "string \<Rightarrow> dialect" where
  "demo_dialect h = \<lparr>dl_hash = Some h, dl_causal_protocol = Some (SList []), dl_roles = SList [],
     dl_body = SAtom (AStr h)\<rparr>"

definition demo_engine :: "message option \<Rightarrow> cbcl" where
  "demo_engine known = \<lparr>
     ce_sha256 = (\<lambda>b. if b = ascii ''B'' then hex_bytes BOOTSTRAP_SOURCE_SHA256
        else if b = ascii ''S'' then hex_bytes SESSION_SOURCE_SHA256 else replicate 32 0),
     ce_key_valid = (\<lambda>_. True), ce_verify_strict = (\<lambda>k m s. True), ce_public = (\<lambda>k. replicate 32 0),
     ce_sign = (\<lambda>k m. replicate 64 0), ce_verify_v1_full = (\<lambda>v. v),
     ce_parse_text = (\<lambda>_. Some (SList [])), ce_message = (\<lambda>_. known), ce_sexpr = (\<lambda>_. SList []),
     ce_print = (\<lambda>_. ''()''), ce_encode = (\<lambda>_. []),
     ce_name = (\<lambda>p. case p of PCustom n \<Rightarrow> n | PHello \<Rightarrow> ''hello'' | POther n \<Rightarrow> n),
     ce_innermost = rec_message (\<lambda>p r c ps t s cb. Some (Simple p r c ps t s cb)) (\<lambda>w ps m i. i),
     ce_recipient_set = (\<lambda>_. []), ce_caused_by = (\<lambda>_. Some CbBegin),
     ce_bootstrap_source = ''B'', ce_session_source = ''S'',
     ce_parse_source = (\<lambda>s. Some (SAtom (AStr s))),
     ce_parse_dialect = (\<lambda>s. Some (demo_dialect
        (if s = SAtom (AStr ''B'') then BOOTSTRAP_DIALECT_HASH else SESSION_DIALECT_HASH))),
     ce_install = (\<lambda>_ _. True),
     ce_find_by_name = (\<lambda>_ n. Some (demo_dialect (if n = BOOTSTRAP_NAME then BOOTSTRAP_DIALECT_HASH else SESSION_DIALECT_HASH))),
     ce_dialect_hash = (\<lambda>d. case dl_hash d of None \<Rightarrow> [] | Some h \<Rightarrow> h),
     ce_evaluate = (\<lambda>_ _. True), ce_verify_causal = (\<lambda>_ _ _ _ _. VrValid), ce_append = (\<lambda>_ _ _ _. True),
     ce_parse_cast = (\<lambda>_ _. None), ce_r6_clean = (\<lambda>_ _. True),
     ce_verify_for_role = (\<lambda>_ _ _ _ _ _ _. VrValid), ce_project = (\<lambda>_ _ _. [])\<rparr>"

lemma demo_engine_laws: "engine_laws (demo_engine known)"
  by (simp add: engine_laws_def demo_engine_def)

definition demo_ceremony :: string where
  "demo_ceremony = replicate 64 CHR ''0''"

definition demo_control_message :: message where
  "demo_control_message = Wrapped WSigned
     [SAtom (ASymbol (KEY_PREFIX @ lower_hex (replicate 32 0))), SAtom (AStr (lower_hex (replicate 64 0)))]
     (bound_message (demo_engine None) ''cpace-a'' None demo_ceremony [1] CbBegin)"

lemma demo_bound_message:
  "bound_message (demo_engine known) n r c b cb = bound_message (demo_engine None) n r c b cb"
  by (simp add: bound_message_def sha256_hex_def demo_engine_def)

lemma demo_ceremony_ok: "validate_ceremony demo_ceremony = Ok ()"
  by (simp add: validate_ceremony_def demo_ceremony_def list_all_iff char_code_def)

lemma demo_built:
  "build_bound_control (demo_engine (Some demo_control_message)) [] ''cpace-a'' None demo_ceremony [1] CbBegin = Ok (ascii ''()'')"
proof -
  let ?E = "demo_engine (Some demo_control_message)"
  have "sign_message ?E [] (bound_message ?E ''cpace-a'' None demo_ceremony [1] CbBegin) = Ok demo_control_message"
    unfolding sign_message_def key_id_Ok[OF demo_engine_laws]
    by (simp add: demo_control_message_def demo_bound_message[of "Some _"] Let_def)
      (simp add: demo_engine_def)
  moreover have "encode_control ?E demo_control_message = Ok (ascii ''()'')"
    by (simp add: encode_control_def demo_engine_def MAX_CONTROL_OCTETS_def MAX_CONTROL_DEPTH_def
        bounded_ascii_sexpr_def is_ascii_def char_code_def)
  ultimately show ?thesis
    by (simp add: build_bound_control_def demo_ceremony_ok MAX_ADJACENT_BODY_OCTETS_def)
qed

theorem built_control_recognised_witness:
  "\<exists>v. recognise_signed_control (demo_engine (Some demo_control_message)) (ascii ''()'') False = Ok v \<and>
     validate_bound_control (demo_engine (Some demo_control_message)) (vc_message v) ''cpace-a'' demo_ceremony [1] = Ok ()"
  using built_control_recognised[OF demo_engine_laws demo_built] by blast

lemma demo_hashes:
  "lower_hex (hex_bytes BOOTSTRAP_SOURCE_SHA256) = BOOTSTRAP_SOURCE_SHA256"
  "lower_hex (hex_bytes SESSION_SOURCE_SHA256) = SESSION_SOURCE_SHA256"
  by code_simp+

lemma demo_bootstrap_new: "\<exists>b. bootstrap_new (demo_engine known) [] = Ok b"
proof -
  have "install (demo_engine known) = Ok [demo_dialect BOOTSTRAP_DIALECT_HASH, demo_dialect SESSION_DIALECT_HASH]"
    by (simp add: install_def install_sources_def sha256_hex_def demo_engine_def demo_hashes ascii_def
        demo_dialect_def BOOTSTRAP_NAME_def SESSION_NAME_def)
  then show ?thesis by (simp add: bootstrap_new_def)
qed

theorem bootstrap_history_authentic_witness:
  "\<exists>b. bootstrap_new (demo_engine (Some demo_control_message)) [] = Ok b \<and>
     bootstrap_inv (demo_engine (Some demo_control_message))
       (bootstrap_run (demo_engine (Some demo_control_message)) b [(CpaceA, ascii ''()'', [1])])"
proof -
  obtain b where b: "bootstrap_new (demo_engine (Some demo_control_message)) [] = Ok b"
    using demo_bootstrap_new by blast
  from bootstrap_history_authentic[OF b] b show ?thesis by blast
qed

end
