(* ===== verification/Endpoint.thy ===== *)
theory Endpoint
  imports Channel Profile Cbcl_Protocol
begin

text \<open>
  The endpoint reducer of \<^verbatim>\<open>src/src/endpoint.rs\<close>: the durable invitation record, and the
  security state composed around the CBCL monitors, the secure channel and an application
  profile. A method returns its result together with the reducer after the call; an early
  return keeps whatever the method had changed until then.
\<close>

section \<open>Environment\<close>

record 'p endpoint_env =
  en_codec :: codec
  en_crypto :: crypto
  en_cbcl :: cbcl
  en_profile :: "'p profile_ops"

datatype reducer_error =
    ReInvitation
  | WrongSide
  | ReProtocol
  | ReChannel
  | ReRecognition
  | RePhase
  | ReIntentDigest
  | ReProfile
  | ReDecisionConflict
  | ReTerminal

section \<open>Invitation records\<close>

datatype invitation_status = Unused | Bound | Spent

datatype bind_outcome = OutcomeBound | Resumed

record invitation_record =
  ir_invitation_digest :: bytes
  ir_status :: invitation_status
  ir_binding :: "bytes option"

definition record_new :: "crypto \<Rightarrow> bytes \<Rightarrow> invitation_record" where
  "record_new X i = \<lparr>ir_invitation_digest = cr_sha256 X i, ir_status = Unused, ir_binding = None\<rparr>"

definition spend :: "invitation_record \<Rightarrow> invitation_record" where
  "spend r = r\<lparr>ir_status := Spent, ir_binding := None\<rparr>"

definition consume :: "invitation_record \<Rightarrow> invitation_record" where
  "consume r = spend r"

definition attempt_value :: "bytes \<Rightarrow> bytes \<Rightarrow> bytes \<Rightarrow> bytes \<Rightarrow> cbor" where
  "attempt_value invitation_digest mailbox_id peer_cpace_frame public_context =
     CArray [CText ''blind-pairing-attempt/v1'', CBytes invitation_digest, CBytes mailbox_id,
       CBytes peer_cpace_frame, CBytes public_context]"

definition attempt_binding ::
  "codec \<Rightarrow> crypto \<Rightarrow> bytes \<Rightarrow> bytes \<Rightarrow> bytes \<Rightarrow> bytes \<Rightarrow> (bytes, reducer_error) result" where
  "attempt_binding C X invitation_digest mailbox_id peer_cpace_frame public_context =
     bind_result (ok_or ReRecognition
         (cd_canonical C (attempt_value invitation_digest mailbox_id peer_cpace_frame public_context)))
       (\<lambda>encoded. Ok (cr_sha256 X encoded))"

definition record_bind ::
  "codec \<Rightarrow> crypto \<Rightarrow> invitation_record \<Rightarrow> bytes \<Rightarrow> bytes \<Rightarrow> bytes \<Rightarrow>
     (bind_outcome, reducer_error) result \<times> invitation_record" where
  "record_bind C X r mailbox_id peer_cpace_frame public_context =
     bind_st (attempt_binding C X (ir_invitation_digest r) mailbox_id peer_cpace_frame public_context, r) (\<lambda>b r.
       case ir_status r of
         Unused \<Rightarrow> (Ok OutcomeBound, r\<lparr>ir_status := Bound, ir_binding := Some b\<rparr>)
       | Bound \<Rightarrow> if ir_binding r = Some b then (Ok Resumed, r) else (Err ReInvitation, spend r)
       | Spent \<Rightarrow> (Err ReInvitation, r))"

definition invitation_record_value :: "invitation_record \<Rightarrow> cbor" where
  "invitation_record_value r = CArray [CInteger 1, CBytes (ir_invitation_digest r),
     CInteger (case ir_status r of Unused \<Rightarrow> 0 | Bound \<Rightarrow> 1 | Spent \<Rightarrow> 2),
     (case ir_binding r of None \<Rightarrow> CNull | Some b \<Rightarrow> CBytes b)]"

definition record_encode :: "codec \<Rightarrow> invitation_record \<Rightarrow> (bytes, reducer_error) result" where
  "record_encode C r = ok_or ReRecognition (cd_canonical C (invitation_record_value r))"

definition integer_u64 :: "cbor \<Rightarrow> u64 option" where
  "integer_u64 v =
     (case v of CInteger i \<Rightarrow> if 0 \<le> i \<and> i \<le> int u64_max then Some (nat i) else None | _ \<Rightarrow> None)"

definition fixed_value :: "nat \<Rightarrow> cbor \<Rightarrow> (bytes, reducer_error) result" where
  "fixed_value n v =
     (case v of CBytes b \<Rightarrow> if length b = n then Ok b else Err ReRecognition | _ \<Rightarrow> Err ReRecognition)"

definition record_decode :: "codec \<Rightarrow> bytes \<Rightarrow> (invitation_record, reducer_error) result" where
  "record_decode C input =
     bind_result (ok_or ReRecognition (cd_read C input)) (\<lambda>(v, _).
     bind_result (ok_or ReRecognition (cd_canonical C v)) (\<lambda>canonical.
     if canonical \<noteq> input then Err ReRecognition
     else case v of
       CArray [version, digest, status, b] \<Rightarrow>
         (if integer_u64 version \<noteq> Some 1 then Err ReRecognition
          else bind_result (fixed_value 32 digest) (\<lambda>invitation_digest.
            bind_result
              (if integer_u64 status = Some 0 then Ok Unused
               else if integer_u64 status = Some 1 then Ok Bound
               else if integer_u64 status = Some 2 then Ok Spent
               else Err ReRecognition) (\<lambda>st.
            bind_result (if b = CNull then Ok None else bind_result (fixed_value 32 b) (\<lambda>x. Ok (Some x))) (\<lambda>bnd.
              if (st = Bound) \<noteq> (bnd \<noteq> None) then Err ReRecognition
              else Ok \<lparr>ir_invitation_digest = invitation_digest, ir_status = st, ir_binding = bnd\<rparr>))))
     | _ \<Rightarrow> Err ReRecognition))"

section \<open>Reducer state\<close>

datatype endpoint_effect =
    SendFrame channel_frame
  | DisplayIntent display_intent
  | DeliverGrant authorised_grant
  | CloseMailbox

datatype terminal_reason =
    TrCancelled
  | TrExpired
  | TrMailboxClosed
  | TrMailboxCrowded
  | TrMailboxConflict
  | TrDeclined
  | TrProtocolViolation
  | TrKeyConfirmation
  | TrChannel
  | TrIntentMismatch
  | TrProfile
  | TrDecisionConflict
  | TrInvitationMismatch
  | TrMalformed

record intent_record =
  it_digest :: bytes
  it_control_hash :: string
  it_profile_binding :: profile_binding

record decision_record =
  dr_decision :: decision
  dr_control_hash :: string

datatype decoded_application =
    DaIntent pairing_intent
  | DaDecision pairing_decision
  | DaPayload application_payload

fun application_performative :: "decoded_application \<Rightarrow> session_performative" where
  "application_performative (DaIntent _) = SpIntent"
| "application_performative (DaDecision v) = (case pd_decision v of Approve \<Rightarrow> SpApprove | Decline \<Rightarrow> SpDecline)"
| "application_performative (DaPayload _) = SpPayload"

record pending_application =
  pa_plaintext :: sealed_plaintext
  pa_decoded :: decoded_application

definition MAX_PENDING_CONTROLS :: nat where
  "MAX_PENDING_CONTROLS = 16"

record 'p reducer =
  rd_side :: side
  rd_application :: string
  rd_ceremony :: string
  rd_expected_allocator_key :: "bytes option"
  rd_expected_claimant_key :: "bytes option"
  rd_profile :: 'p
  rd_record :: invitation_record
  rd_ceremony_key :: "ceremony_signing_key option"
  rd_bootstrap :: "bootstrap_monitor option"
  rd_pending_channel :: "pending_channel option"
  rd_channel :: "secure_channel option"
  rd_session :: "session_monitor option"
  rd_allocator_cpace_hash :: string
  rd_claimant_cpace_hash :: string
  rd_local_finished :: "channel_frame option"
  rd_pending_finished :: "channel_frame option"
  rd_pending_applications :: "pending_application list"
  rd_intent :: "intent_record option"
  rd_decision :: "decision_record option"
  rd_payload_control_hash :: "string option"
  rd_outbound_payload_sent :: bool
  rd_delivered_payloads :: nat
  rd_profile_verifications :: nat
  rd_terminal :: "terminal_reason option"
  rd_local_decline_committed :: bool
  rd_terminal_replay_frame_digest :: "bytes option"

type_synonym ('a, 'p) reduced = "('a, reducer_error) result \<times> 'p reducer"

definition terminate_endpoint :: "terminal_reason \<Rightarrow> 'p reducer \<Rightarrow> 'p reducer" where
  "terminate_endpoint reason s = s\<lparr>rd_terminal := Some reason, rd_record := spend (rd_record s),
     rd_ceremony_key := None, rd_pending_channel := None, rd_channel := None, rd_bootstrap := None,
     rd_session := None, rd_local_finished := None, rd_pending_finished := None,
     rd_pending_applications := [], rd_intent := None, rd_decision := None,
     rd_payload_control_hash := None, rd_outbound_payload_sent := False\<rparr>"

definition fail_endpoint :: "terminal_reason \<Rightarrow> reducer_error \<Rightarrow> 'p reducer \<Rightarrow> ('a, 'p) reduced" where
  "fail_endpoint reason e s = (Err e, terminate_endpoint reason s)"

definition ensure_live :: "'p reducer \<Rightarrow> (unit, 'p) reduced" where
  "ensure_live s = (if rd_terminal s \<noteq> None then (Err ReTerminal, s) else (Ok (), s))"

definition channel_frame_digest :: "'p endpoint_env \<Rightarrow> channel_frame \<Rightarrow> (bytes, reducer_error) result" where
  "channel_frame_digest N frame =
     bind_result (map_err (\<lambda>_. ReRecognition) (encode_channel_frame (en_codec N) frame))
       (\<lambda>encoded. Ok (cr_sha256 (en_crypto N) encoded))"

definition decode_application :: "'p endpoint_env \<Rightarrow> bytes \<Rightarrow> (decoded_application, reducer_error) result" where
  "decode_application N body =
     (case decode_pairing_intent (en_codec N) body of Ok v \<Rightarrow> Ok (DaIntent v) | _ \<Rightarrow>
     (case decode_pairing_decision (en_codec N) body of Ok v \<Rightarrow> Ok (DaDecision v) | _ \<Rightarrow>
     (case decode_application_payload (en_codec N) body of Ok v \<Rightarrow> Ok (DaPayload v) | _ \<Rightarrow>
      Err ReRecognition)))"

section \<open>Keys\<close>

definition endpoint_role_key :: "'p reducer \<Rightarrow> pairing_role \<Rightarrow> (ceremony_key_id, reducer_error) result" where
  "endpoint_role_key s r =
     ok_or RePhase (case rd_bootstrap s of None \<Rightarrow> None | Some b \<Rightarrow> role_key b r)"

definition expected_role_key :: "'p reducer \<Rightarrow> pairing_role \<Rightarrow> bytes option" where
  "expected_role_key s r =
     (case r of RoleAllocator \<Rightarrow> rd_expected_allocator_key s | RoleClaimant \<Rightarrow> rd_expected_claimant_key s)"

definition key_mismatch :: "'p endpoint_env \<Rightarrow> 'p reducer \<Rightarrow> pairing_role \<Rightarrow> bool" where
  "key_mismatch N s r =
     (case expected_role_key s r of
        None \<Rightarrow> False
      | Some expected \<Rightarrow>
          (case (case rd_bootstrap s of None \<Rightarrow> None | Some b \<Rightarrow> role_key b r) of
             None \<Rightarrow> False
           | Some actual \<Rightarrow>
               (case public_key_bytes actual of
                  Ok bs \<Rightarrow> cr_sha256 (en_crypto N) bs \<noteq> expected
                | _ \<Rightarrow> True)))"

definition validate_expected_role_keys :: "'p endpoint_env \<Rightarrow> 'p reducer \<Rightarrow> (unit, 'p) reduced" where
  "validate_expected_role_keys N s =
     (if list_ex (key_mismatch N s) [RoleAllocator, RoleClaimant]
      then fail_endpoint TrProtocolViolation ReProtocol s else (Ok (), s))"

section \<open>Construction\<close>

definition endpoint_new ::
  "'p endpoint_env \<Rightarrow> side \<Rightarrow> bytes \<Rightarrow> invitation_record \<Rightarrow> ceremony_signing_key \<Rightarrow> bootstrap_monitor \<Rightarrow>
     pending_channel \<Rightarrow> string \<Rightarrow> string \<Rightarrow> 'p \<Rightarrow> ('p reducer, reducer_error) result" where
  "endpoint_new N sd i r ceremony_key b pending_ch allocator_hash claimant_hash prof =
     (if ir_status r \<noteq> Bound \<or> ir_invitation_digest r \<noteq> cr_sha256 (en_crypto N) i then Err ReInvitation
      else bind_result (map_err (\<lambda>_. ReRecognition) (decode_invitation (en_codec N) i)) (\<lambda>v.
        case pf_recognise_invitation (en_profile N) prof v of
          Ok _ \<Rightarrow>
            (case validate_expected_role_keys N
               \<lparr>rd_side = sd, rd_application = inv_application v, rd_ceremony = ceremony_id (en_cbcl N) i,
                rd_expected_allocator_key = inv_expected_allocator_key v,
                rd_expected_claimant_key = inv_expected_claimant_key v, rd_profile = prof, rd_record = r,
                rd_ceremony_key = Some ceremony_key, rd_bootstrap = Some b,
                rd_pending_channel = Some pending_ch, rd_channel = None, rd_session = None,
                rd_allocator_cpace_hash = allocator_hash, rd_claimant_cpace_hash = claimant_hash,
                rd_local_finished = None, rd_pending_finished = None, rd_pending_applications = [],
                rd_intent = None, rd_decision = None, rd_payload_control_hash = None,
                rd_outbound_payload_sent = False, rd_delivered_payloads = 0, rd_profile_verifications = 0,
                rd_terminal = None, rd_local_decline_committed = False,
                rd_terminal_replay_frame_digest = None\<rparr> of
               (Ok _, s) \<Rightarrow> Ok s | (Err e, _) \<Rightarrow> Err e | (Panic, _) \<Rightarrow> Panic)
        | _ \<Rightarrow> Err ReProfile))"

section \<open>Bootstrap\<close>

definition admit_bootstrap_control ::
  "'p endpoint_env \<Rightarrow> 'p reducer \<Rightarrow> bootstrap_performative \<Rightarrow> bytes \<Rightarrow> bytes \<Rightarrow> (protocol_verdict, 'p) reduced" where
  "admit_bootstrap_control N s perf control body =
     bind_st (ensure_live s) (\<lambda>_ s.
     bind_st (ok_or RePhase (rd_bootstrap s), s) (\<lambda>b s.
     let (res, b') = bootstrap_admit (en_cbcl N) b perf control body;
         s = s\<lparr>rd_bootstrap := Some b'\<rparr> in
       case res of
         Ok adm \<Rightarrow>
           if ad_verdict adm \<noteq> Violation
           then bind_st (validate_expected_role_keys N s) (\<lambda>_ s. (Ok (ad_verdict adm), s))
           else fail_endpoint TrProtocolViolation ReProtocol s
       | Err _ \<Rightarrow> fail_endpoint TrProtocolViolation ReProtocol s
       | Panic \<Rightarrow> (Panic, s)))"

definition finished_performative :: "side \<Rightarrow> bootstrap_performative" where
  "finished_performative sd = (case sd of SideAllocator \<Rightarrow> FinishedA | SideClaimant \<Rightarrow> FinishedB)"

definition local_finished_frame :: "'p endpoint_env \<Rightarrow> 'p reducer \<Rightarrow> (channel_frame option, 'p) reduced" where
  "local_finished_frame N s =
     bind_st (ensure_live s) (\<lambda>_ s.
     bind_st (validate_expected_role_keys N s) (\<lambda>_ s.
     case rd_local_finished s of
       Some frame \<Rightarrow> (Ok (Some frame), s)
     | None \<Rightarrow>
         bind_st (ok_or RePhase (rd_pending_channel s), s) (\<lambda>pc s.
         let v = pn_local_finished pc; perf = finished_performative (rd_side s) in
         bind_st (ok_or RePhase (rd_ceremony_key s), s) (\<lambda>key s.
         bind_st (map_err (\<lambda>_. ReProtocol) (build_bootstrap_control (en_cbcl N) key perf (rd_ceremony s) v
             (CbMultiple [rd_allocator_cpace_hash s, rd_claimant_cpace_hash s])), s) (\<lambda>control s.
         bind_st (ok_or RePhase (rd_bootstrap s), s) (\<lambda>b s.
         let (res, b') = bootstrap_admit (en_cbcl N) b perf control v;
             s = s\<lparr>rd_bootstrap := Some b'\<rparr> in
           case res of
             Ok adm \<Rightarrow>
               (case ad_verdict adm of
                  Unknown \<Rightarrow> (Ok None, s)
                | Violation \<Rightarrow> fail_endpoint TrProtocolViolation ReProtocol s
                | Valid \<Rightarrow>
                    let frame = Finished (rd_side s) control v
                    in (Ok (Some frame), s\<lparr>rd_local_finished := Some frame\<rparr>))
           | Err _ \<Rightarrow> fail_endpoint TrProtocolViolation ReProtocol s
           | Panic \<Rightarrow> (Panic, s)))))))"

section \<open>Sealing and local admission\<close>

definition seal_control ::
  "'p endpoint_env \<Rightarrow> 'p reducer \<Rightarrow> bytes \<Rightarrow> bytes option \<Rightarrow> (channel_frame, 'p) reduced" where
  "seal_control N s control body =
     bind_st (map_err (\<lambda>_. ReRecognition)
         (encode_sealed_plaintext (en_codec N) \<lparr>sp_control = control, sp_body = body\<rparr>), s) (\<lambda>plaintext s.
     bind_st (ok_or RePhase (rd_channel s), s) (\<lambda>ch s.
     let (res, ch') = seal (en_codec N) (en_crypto N) ch plaintext;
         s = s\<lparr>rd_channel := Some ch'\<rparr> in
       case res of
         Ok frame \<Rightarrow> (Ok frame, s)
       | Err _ \<Rightarrow> fail_endpoint TrChannel ReChannel s
       | Panic \<Rightarrow> (Panic, s)))"

definition admit_local_session ::
  "'p endpoint_env \<Rightarrow> 'p reducer \<Rightarrow> session_performative \<Rightarrow> bytes \<Rightarrow> bytes \<Rightarrow> (string, 'p) reduced" where
  "admit_local_session N s perf control body =
     bind_st (ok_or RePhase (rd_session s), s) (\<lambda>ses s.
     let (res, ses') = session_admit (en_cbcl N) ses perf control body;
         s = s\<lparr>rd_session := Some ses'\<rparr> in
       bind_st (map_err (\<lambda>_. ReProtocol) res, s) (\<lambda>adm s.
         if ad_verdict adm \<noteq> Valid then fail_endpoint TrProtocolViolation ReProtocol s
         else (Ok (ad_content_hash adm), s)))"

section \<open>Applying admitted application messages\<close>

definition apply_intent ::
  "'p endpoint_env \<Rightarrow> 'p reducer \<Rightarrow> pairing_intent \<Rightarrow> string \<Rightarrow> (endpoint_effect list, 'p) reduced" where
  "apply_intent N s v control_hash =
     (if rd_side s \<noteq> SideClaimant \<or> pi_application v \<noteq> rd_application s
      then fail_endpoint TrIntentMismatch ReIntentDigest s
      else bind_st (map_err (\<lambda>_. ReRecognition) (encode_pairing_intent (en_codec N) v), s) (\<lambda>encoded s.
        let digest = cr_sha256 (en_crypto N) encoded in
        let (res, prof) = pf_recognise_intent (en_profile N) (rd_profile s) v;
            s = s\<lparr>rd_profile := prof\<rparr> in
          case res of
            Ok (shown, pbinding) \<Rightarrow>
              (case rd_intent s of
                 Some existing \<Rightarrow>
                   if it_digest existing = digest \<and> it_control_hash existing = control_hash then (Ok [], s)
                   else fail_endpoint TrIntentMismatch ReIntentDigest s
               | None \<Rightarrow>
                   (Ok [DisplayIntent shown],
                    s\<lparr>rd_intent := Some \<lparr>it_digest = digest, it_control_hash = control_hash,
                        it_profile_binding = pbinding\<rparr>\<rparr>))
          | Err _ \<Rightarrow> fail_endpoint TrProfile ReProfile s
          | Panic \<Rightarrow> (Panic, s)))"

definition apply_decision ::
  "'p reducer \<Rightarrow> pairing_decision \<Rightarrow> string \<Rightarrow> (endpoint_effect list, 'p) reduced" where
  "apply_decision s v control_hash =
     (if rd_side s \<noteq> SideAllocator then fail_endpoint TrProtocolViolation ReProtocol s
      else bind_st (ok_or RePhase (rd_intent s), s) (\<lambda>intent s.
        if pd_intent_digest v \<noteq> it_digest intent then fail_endpoint TrIntentMismatch ReIntentDigest s
        else case rd_decision s of
          Some existing \<Rightarrow>
            if dr_decision existing = pd_decision v \<and> dr_control_hash existing = control_hash then (Ok [], s)
            else fail_endpoint TrDecisionConflict ReDecisionConflict s
        | None \<Rightarrow>
            let s = s\<lparr>rd_decision := Some \<lparr>dr_decision = pd_decision v, dr_control_hash = control_hash\<rparr>\<rparr> in
            if pd_decision v = Decline then (Ok [CloseMailbox], terminate_endpoint TrDeclined s)
            else (Ok [], s)))"

definition apply_payload ::
  "'p endpoint_env \<Rightarrow> 'p reducer \<Rightarrow> application_payload \<Rightarrow> string \<Rightarrow> (endpoint_effect list, 'p) reduced" where
  "apply_payload N s v control_hash =
     (if rd_side s \<noteq> SideClaimant then fail_endpoint TrProtocolViolation ReProtocol s
      else bind_st (ok_or RePhase (rd_intent s), s) (\<lambda>intent s.
        if ap_intent_digest v \<noteq> it_digest intent \<or>
           map_option dr_decision (rd_decision s) \<noteq> Some Approve
        then fail_endpoint TrIntentMismatch ReIntentDigest s
        else case rd_payload_control_hash s of
          Some existing \<Rightarrow>
            if existing = control_hash then (Ok [], s) else fail_endpoint TrProtocolViolation ReProtocol s
        | None \<Rightarrow>
            (case pf_recognise_payload (en_profile N) (rd_profile s) (it_profile_binding intent) v of
               Ok rp \<Rightarrow>
                 let s = s\<lparr>rd_profile_verifications := Suc (rd_profile_verifications s)\<rparr> in
                 (let (res, prof) = pf_authorize_payload (en_profile N) (rd_profile s) rp;
                      s = s\<lparr>rd_profile := prof\<rparr> in
                    case res of
                      Ok g \<Rightarrow>
                        (Ok [DeliverGrant g], s\<lparr>rd_payload_control_hash := Some control_hash,
                           rd_delivered_payloads := Suc (rd_delivered_payloads s)\<rparr>)
                    | Err _ \<Rightarrow> fail_endpoint TrProfile ReProfile s
                    | Panic \<Rightarrow> (Panic, s))
             | Err _ \<Rightarrow> fail_endpoint TrProfile ReProfile s
             | Panic \<Rightarrow> (Panic, s))))"

fun apply_application ::
  "'p endpoint_env \<Rightarrow> 'p reducer \<Rightarrow> decoded_application \<Rightarrow> string \<Rightarrow> (endpoint_effect list, 'p) reduced" where
  "apply_application N s (DaIntent v) h = apply_intent N s v h"
| "apply_application N s (DaDecision v) h = apply_decision s v h"
| "apply_application N s (DaPayload v) h = apply_payload N s v h"

section \<open>Retrying held messages\<close>

text \<open>One pass over the held messages: the effects so far, the messages still held, and progress.\<close>

fun retry_pass ::
  "'p endpoint_env \<Rightarrow> 'p reducer \<Rightarrow> pending_application list \<Rightarrow> endpoint_effect list \<Rightarrow>
     pending_application list \<Rightarrow> bool \<Rightarrow>
     (endpoint_effect list \<times> pending_application list \<times> bool, 'p) reduced" where
  "retry_pass N s [] emitted next progress = (Ok (emitted, next, progress), s)"
| "retry_pass N s (pending # rest) emitted next progress =
     bind_st (ok_or ReRecognition (sp_body (pa_plaintext pending)), s) (\<lambda>body s.
     bind_st (ok_or RePhase (rd_session s), s) (\<lambda>ses s.
     case session_admit (en_cbcl N) ses (application_performative (pa_decoded pending))
            (sp_control (pa_plaintext pending)) body of (res, ses') \<Rightarrow>
       bind_st (map_err (\<lambda>_. ReProtocol) res, s\<lparr>rd_session := Some ses'\<rparr>) (\<lambda>adm s.
         case ad_verdict adm of
           Unknown \<Rightarrow> retry_pass N s rest emitted (next @ [pending]) progress
         | Violation \<Rightarrow>
             fail_endpoint TrProtocolViolation ReProtocol (s\<lparr>rd_pending_applications := next\<rparr>)
         | Valid \<Rightarrow>
             bind_st (apply_application N s (pa_decoded pending) (ad_content_hash adm)) (\<lambda>effects s.
               retry_pass N s rest (emitted @ effects) next True))))"

lemma retry_pass_shrinks:
  "retry_pass N s pendings emitted next progress = (Ok (emitted', next', progress'), s') \<Longrightarrow>
     length next' \<le> length next + length pendings \<and>
     (progress' \<and> \<not> progress \<longrightarrow> length next' < length next + length pendings)"
proof (induction pendings arbitrary: s emitted "next" progress progress')
  case Nil
  then show ?case by simp
next
  case (Cons pending pendings)
  from Cons.prems show ?case
    by (auto simp: bind_st_case fail_endpoint_def dest!: Cons.IH
        split: result.splits prod.splits protocol_verdict.splits)
      (auto simp: bind_st_Ok dest!: Cons.IH)
qed

function retry_loop ::
  "'p endpoint_env \<Rightarrow> 'p reducer \<Rightarrow> pending_application list \<Rightarrow> endpoint_effect list \<Rightarrow>
     (endpoint_effect list, 'p) reduced" where
  "retry_loop N s remaining emitted =
     (case retry_pass N s remaining emitted [] False of
        (Ok (emitted', next, progress), s') \<Rightarrow>
          if progress then retry_loop N s' next emitted'
          else (Ok emitted', s'\<lparr>rd_pending_applications := next\<rparr>)
      | (Err e, s') \<Rightarrow> (Err e, s')
      | (Panic, s') \<Rightarrow> (Panic, s'))"
  by auto
termination
  by (relation "measure (\<lambda>(N, s, remaining, emitted). length remaining)")
    (auto dest!: sym[of _ "retry_pass _ _ _ _ _ _"] retry_pass_shrinks)

definition retry_pending :: "'p endpoint_env \<Rightarrow> 'p reducer \<Rightarrow> (endpoint_effect list, 'p) reduced" where
  "retry_pending N s =
     retry_loop N (s\<lparr>rd_pending_applications := []\<rparr>) (rd_pending_applications s) []"

declare retry_loop.simps [simp del]

section \<open>Receiving frames\<close>

definition admit_application ::
  "'p endpoint_env \<Rightarrow> 'p reducer \<Rightarrow> sealed_plaintext \<Rightarrow> decoded_application \<Rightarrow> (endpoint_effect list, 'p) reduced" where
  "admit_application N s plaintext decoded =
     bind_st (ok_or ReRecognition (sp_body plaintext), s) (\<lambda>body s.
     bind_st (ok_or RePhase (rd_session s), s) (\<lambda>ses s.
     let (res, ses') = session_admit (en_cbcl N) ses (application_performative decoded) (sp_control plaintext) body;
         s = s\<lparr>rd_session := Some ses'\<rparr> in
       case res of
         Err _ \<Rightarrow> fail_endpoint TrProtocolViolation ReProtocol s
       | Panic \<Rightarrow> (Panic, s)
       | Ok adm \<Rightarrow>
           (case ad_verdict adm of
              Violation \<Rightarrow> fail_endpoint TrProtocolViolation ReProtocol s
            | Unknown \<Rightarrow>
                let pending = \<lparr>pa_plaintext = plaintext, pa_decoded = decoded\<rparr> in
                if pending \<in> set (rd_pending_applications s) then (Ok [], s)
                else if length (rd_pending_applications s) = MAX_PENDING_CONTROLS
                then fail_endpoint TrProtocolViolation ReProtocol s
                else (Ok [], s\<lparr>rd_pending_applications := rd_pending_applications s @ [pending]\<rparr>)
            | Valid \<Rightarrow>
                bind_st (apply_application N s decoded (ad_content_hash adm)) (\<lambda>effects s.
                bind_st (retry_pending N s) (\<lambda>retried s. (Ok (effects @ retried), s))))))"

definition receive_opener ::
  "'p endpoint_env \<Rightarrow> 'p reducer \<Rightarrow> sealed_plaintext \<Rightarrow> (endpoint_effect list, 'p) reduced" where
  "receive_opener N s plaintext =
     (if rd_side s \<noteq> SideClaimant \<or> sp_body plaintext \<noteq> None
      then fail_endpoint TrProtocolViolation ReProtocol s
      else
        bind_st (endpoint_role_key s RoleAllocator, s) (\<lambda>allocator s.
        bind_st (endpoint_role_key s RoleClaimant, s) (\<lambda>claimant s.
        case open_for_ceremony (en_cbcl N) (rd_ceremony s) RoleClaimant allocator claimant (sp_control plaintext) of
          Ok (ses, adm) \<Rightarrow>
            if ad_verdict adm \<noteq> Valid then fail_endpoint TrProtocolViolation ReProtocol s
            else (Ok [], s\<lparr>rd_session := Some ses\<rparr>)
        | Err _ \<Rightarrow> fail_endpoint TrProtocolViolation ReProtocol s
        | Panic \<Rightarrow> (Panic, s))))"

definition open_allocator_session :: "'p endpoint_env \<Rightarrow> 'p reducer \<Rightarrow> (endpoint_effect list, 'p) reduced" where
  "open_allocator_session N s =
     bind_st (endpoint_role_key s RoleAllocator, s) (\<lambda>allocator s.
     bind_st (endpoint_role_key s RoleClaimant, s) (\<lambda>claimant s.
     bind_st (ok_or RePhase (rd_ceremony_key s), s) (\<lambda>key s.
     bind_st (map_err (\<lambda>_. ReProtocol) (build_session_opener (en_cbcl N) key claimant (rd_ceremony s)), s) (\<lambda>opener s.
     bind_st (map_err (\<lambda>_. ReProtocol)
         (open_for_ceremony (en_cbcl N) (rd_ceremony s) RoleAllocator allocator claimant opener), s) (\<lambda>(ses, adm) s.
     if ad_verdict adm \<noteq> Valid then fail_endpoint TrProtocolViolation ReProtocol s
     else
       bind_st (seal_control N (s\<lparr>rd_session := Some ses\<rparr>) opener None) (\<lambda>frame s.
         (Ok [SendFrame frame], s)))))))"

definition receive_finished ::
  "'p endpoint_env \<Rightarrow> 'p reducer \<Rightarrow> side \<Rightarrow> bytes \<Rightarrow> bytes \<Rightarrow> (endpoint_effect list, 'p) reduced" where
  "receive_finished N s sd control v =
     (if sd = rd_side s then fail_endpoint TrProtocolViolation WrongSide s
      else if rd_local_finished s = None then fail_endpoint TrProtocolViolation RePhase s
      else if rd_pending_channel s = None \<or> rd_channel s \<noteq> None then fail_endpoint TrProtocolViolation RePhase s
      else
        bind_st (validate_expected_role_keys N s) (\<lambda>_ s.
        bind_st (ok_or RePhase (rd_bootstrap s), s) (\<lambda>b s.
        let (res, b') = bootstrap_admit (en_cbcl N) b (finished_performative sd) control v;
            s = s\<lparr>rd_bootstrap := Some b'\<rparr> in
          case res of
            Err _ \<Rightarrow> fail_endpoint TrProtocolViolation ReProtocol s
          | Panic \<Rightarrow> (Panic, s)
          | Ok adm \<Rightarrow>
              (case ad_verdict adm of
                 Unknown \<Rightarrow>
                   if (case rd_pending_finished s of
                         None \<Rightarrow> False | Some pending \<Rightarrow> pending \<noteq> Finished sd control v)
                   then fail_endpoint TrProtocolViolation ReProtocol s
                   else (Ok [], s\<lparr>rd_pending_finished := Some (Finished sd control v)\<rparr>)
               | Violation \<Rightarrow> fail_endpoint TrProtocolViolation ReProtocol s
               | Valid \<Rightarrow>
                   let s = s\<lparr>rd_pending_finished := None\<rparr> in
                   (case rd_pending_channel s of
                      None \<Rightarrow> fail_endpoint TrProtocolViolation RePhase s
                    | Some pending \<Rightarrow>
                        let s = s\<lparr>rd_pending_channel := None\<rparr> in
                        (case confirm pending v of
                           Ok ch \<Rightarrow>
                             let s = s\<lparr>rd_channel := Some ch, rd_record := spend (rd_record s)\<rparr> in
                             if rd_side s = SideAllocator then open_allocator_session N s else (Ok [], s)
                         | _ \<Rightarrow> fail_endpoint TrKeyConfirmation ReChannel s))))))"

definition receive_sealed ::
  "'p endpoint_env \<Rightarrow> 'p reducer \<Rightarrow> channel_frame \<Rightarrow> (endpoint_effect list, 'p) reduced" where
  "receive_sealed N s frame =
     bind_st (channel_frame_digest N frame, s) (\<lambda>frame_digest s.
     bind_st (ok_or RePhase (rd_channel s), s) (\<lambda>ch s.
     let (res, ch') = open_sealed (en_codec N) (en_crypto N) ch frame;
         s = s\<lparr>rd_channel := Some ch'\<rparr> in
       case res of
         Err _ \<Rightarrow> fail_endpoint TrChannel ReChannel s
       | Panic \<Rightarrow> (Panic, s)
       | Ok plaintext_bytes \<Rightarrow>
           (case decode_sealed_plaintext (en_codec N) plaintext_bytes of
              Ok plaintext \<Rightarrow>
                (if rd_session s = None then receive_opener N s plaintext
                 else case sp_body plaintext of
                   None \<Rightarrow> fail_endpoint TrMalformed ReRecognition s
                 | Some body \<Rightarrow>
                     (case decode_application N body of
                        Err e \<Rightarrow> fail_endpoint TrMalformed e s
                      | Panic \<Rightarrow> (Panic, s)
                      | Ok decoded \<Rightarrow>
                          (let (r, s') = admit_application N s plaintext decoded in
                           if is_ok r \<and> rd_terminal s' = Some TrDeclined
                           then (r, s'\<lparr>rd_terminal_replay_frame_digest := Some frame_digest\<rparr>)
                           else (r, s'))))
            | _ \<Rightarrow> fail_endpoint TrMalformed ReRecognition s)))"

definition ok_option :: "('a, 'e) result \<Rightarrow> 'a option" where
  "ok_option r = (case r of Ok a \<Rightarrow> Some a | _ \<Rightarrow> None)"

definition receive_frame ::
  "'p endpoint_env \<Rightarrow> 'p reducer \<Rightarrow> channel_frame \<Rightarrow> (endpoint_effect list, 'p) reduced" where
  "receive_frame N s frame =
     (if rd_terminal s \<noteq> None then
        if rd_terminal s = Some TrDeclined \<and>
           rd_terminal_replay_frame_digest s = ok_option (channel_frame_digest N frame)
        then (Ok [], s) else (Err ReTerminal, s)
      else bind_st (ensure_live s) (\<lambda>_ s.
        case frame of
          Finished sd control v \<Rightarrow> receive_finished N s sd control v
        | Sealed _ _ _ \<Rightarrow> receive_sealed N s frame
        | Cpace _ _ _ \<Rightarrow> fail_endpoint TrProtocolViolation RePhase s))"

definition retry_pending_finished :: "'p endpoint_env \<Rightarrow> 'p reducer \<Rightarrow> (endpoint_effect list, 'p) reduced" where
  "retry_pending_finished N s =
     bind_st (ensure_live s) (\<lambda>_ s.
     case rd_pending_finished s of
       Some (Finished sd control v) \<Rightarrow> receive_finished N s sd control v
     | Some _ \<Rightarrow> (Panic, s)
     | None \<Rightarrow> (Ok [], s))"

section \<open>Local operations\<close>

definition cancel :: "'p reducer \<Rightarrow> (endpoint_effect list, 'p) reduced" where
  "cancel s = bind_st (ensure_live s) (\<lambda>_ s. (Ok [CloseMailbox], terminate_endpoint TrCancelled s))"

fun close_terminal :: "close_reason \<Rightarrow> terminal_reason" where
  "close_terminal Closed = TrMailboxClosed"
| "close_terminal Crowded = TrMailboxCrowded"
| "close_terminal Expired = TrExpired"
| "close_terminal Conflict = TrMailboxConflict"

definition relay_closed :: "'p reducer \<Rightarrow> close_reason \<Rightarrow> (endpoint_effect list, 'p) reduced" where
  "relay_closed s reason =
     bind_st (ensure_live s) (\<lambda>_ s. (Ok [CloseMailbox], terminate_endpoint (close_terminal reason) s))"

definition send_intent :: "'p endpoint_env \<Rightarrow> 'p reducer \<Rightarrow> pairing_intent \<Rightarrow> (channel_frame, 'p) reduced" where
  "send_intent N s intent =
     bind_st (ensure_live s) (\<lambda>_ s.
     if rd_side s \<noteq> SideAllocator \<or> rd_intent s \<noteq> None then (Err RePhase, s)
     else if pi_application intent \<noteq> rd_application s then fail_endpoint TrIntentMismatch ReIntentDigest s
     else
       let (res, prof) = pf_recognise_intent (en_profile N) (rd_profile s) intent;
           s = s\<lparr>rd_profile := prof\<rparr> in
       bind_st (map_err (\<lambda>_. ReProfile) res, s) (\<lambda>(_, pbinding) s.
       bind_st (map_err (\<lambda>_. ReRecognition) (encode_pairing_intent (en_codec N) intent), s) (\<lambda>body s.
       let digest = cr_sha256 (en_crypto N) body in
       bind_st (ok_or RePhase (map_option sm_root (rd_session s)), s) (\<lambda>root s.
       bind_st (endpoint_role_key s RoleClaimant, s) (\<lambda>claimant s.
       bind_st (ok_or RePhase (rd_ceremony_key s), s) (\<lambda>key s.
       bind_st (map_err (\<lambda>_. ReProtocol)
           (build_session_control (en_cbcl N) key SpIntent (rd_ceremony s) claimant body (CbSingle root)), s) (\<lambda>control s.
       bind_st (admit_local_session N s SpIntent control body) (\<lambda>hash s.
       bind_st (seal_control N s control (Some body)) (\<lambda>frame s.
         (Ok frame, s\<lparr>rd_intent := Some \<lparr>it_digest = digest, it_control_hash = hash,
            it_profile_binding = pbinding\<rparr>\<rparr>))))))))))"

definition decide :: "'p endpoint_env \<Rightarrow> 'p reducer \<Rightarrow> decision \<Rightarrow> (endpoint_effect list, 'p) reduced" where
  "decide N s d =
     (if rd_terminal s \<noteq> None then
        if rd_terminal s = Some TrDeclined \<and> rd_local_decline_committed s \<and> d = Decline
        then (Ok [], s) else (Err ReTerminal, s)
      else bind_st (ensure_live s) (\<lambda>_ s.
        if rd_side s \<noteq> SideClaimant then (Err RePhase, s)
        else case rd_decision s of
          Some existing \<Rightarrow>
            if dr_decision existing = d then (Ok [], s)
            else fail_endpoint TrDecisionConflict ReDecisionConflict s
        | None \<Rightarrow>
            bind_st (ok_or RePhase (rd_intent s), s) (\<lambda>intent s.
            bind_st (map_err (\<lambda>_. ReRecognition) (encode_pairing_decision (en_codec N)
                \<lparr>pd_intent_digest = it_digest intent, pd_decision = d\<rparr>), s) (\<lambda>body s.
            bind_st (endpoint_role_key s RoleAllocator, s) (\<lambda>allocator s.
            let perf = (case d of Approve \<Rightarrow> SpApprove | Decline \<Rightarrow> SpDecline) in
            bind_st (ok_or RePhase (rd_ceremony_key s), s) (\<lambda>key s.
            bind_st (map_err (\<lambda>_. ReProtocol) (build_session_control (en_cbcl N) key perf (rd_ceremony s) allocator
                body (CbSingle (it_control_hash intent))), s) (\<lambda>control s.
            bind_st (admit_local_session N s perf control body) (\<lambda>hash s.
            bind_st (seal_control N s control (Some body)) (\<lambda>frame s.
              let s = s\<lparr>rd_decision := Some \<lparr>dr_decision = d, dr_control_hash = hash\<rparr>\<rparr> in
              if d = Decline
              then (Ok [SendFrame frame, CloseMailbox],
                    terminate_endpoint TrDeclined (s\<lparr>rd_local_decline_committed := True\<rparr>))
              else (Ok [SendFrame frame], s))))))))))"

definition send_payload :: "'p endpoint_env \<Rightarrow> 'p reducer \<Rightarrow> application_payload \<Rightarrow> (channel_frame, 'p) reduced" where
  "send_payload N s payload =
     bind_st (ensure_live s) (\<lambda>_ s.
     if rd_side s \<noteq> SideAllocator then (Err RePhase, s)
     else
       bind_st (ok_or RePhase (rd_intent s), s) (\<lambda>intent s.
       bind_st (ok_or RePhase (rd_decision s), s) (\<lambda>dec s.
       if dr_decision dec \<noteq> Approve then (Err RePhase, s)
       else if ap_intent_digest payload \<noteq> it_digest intent then (Err ReIntentDigest, s)
       else if rd_outbound_payload_sent s then (Err RePhase, s)
       else
         bind_st (map_err (\<lambda>_. ReProfile)
             (pf_recognise_payload (en_profile N) (rd_profile s) (it_profile_binding intent) payload), s) (\<lambda>_ s.
         bind_st (map_err (\<lambda>_. ReRecognition) (encode_application_payload (en_codec N) payload), s) (\<lambda>body s.
         bind_st (endpoint_role_key s RoleClaimant, s) (\<lambda>claimant s.
         bind_st (ok_or RePhase (rd_ceremony_key s), s) (\<lambda>key s.
         bind_st (map_err (\<lambda>_. ReProtocol) (build_session_control (en_cbcl N) key SpPayload (rd_ceremony s) claimant
             body (CbSingle (dr_control_hash dec))), s) (\<lambda>control s.
         bind_st (admit_local_session N s SpPayload control body) (\<lambda>_ s.
         bind_st (seal_control N s control (Some body)) (\<lambda>frame s.
           (Ok frame, s\<lparr>rd_outbound_payload_sent := True\<rparr>)))))))))))"

definition secrets_erased :: "'p reducer \<Rightarrow> bool" where
  "secrets_erased s \<longleftrightarrow> rd_ceremony_key s = None \<and> rd_pending_channel s = None \<and> rd_channel s = None"

end
