(* ===== verification/Endpoint_Relation.thy ===== *)
theory Endpoint_Relation
  imports Endpoint
begin

text \<open>
  Every method of the endpoint reducer changes its state only through a few kinds of update.
  The locale \<open>reducer_relation\<close> collects them as assumptions on a relation between the states
  before and after, and proves once that every method is contained in the relation; the
  invariants of the reducer are interpretations of it.
\<close>

abbreviation live :: "'p reducer \<Rightarrow> bool" where
  "live s \<equiv> rd_terminal s = None"

definition approved :: "'p reducer \<Rightarrow> bool" where
  "approved s \<longleftrightarrow> map_option dr_decision (rd_decision s) = Some Approve"

lemma terminate_simps [simp]:
  "rd_terminal (terminate_endpoint r s) = Some r" "rd_side (terminate_endpoint r s) = rd_side s"
  "rd_pending_applications (terminate_endpoint r s) = []" "rd_session (terminate_endpoint r s) = None"
  "rd_delivered_payloads (terminate_endpoint r s) = rd_delivered_payloads s"
  "rd_record (terminate_endpoint r s) = spend (rd_record s)"
  "rd_decision (terminate_endpoint r s) = None" "rd_intent (terminate_endpoint r s) = None"
  "rd_payload_control_hash (terminate_endpoint r s) = None"
  by (simp_all add: terminate_endpoint_def)

text \<open>What a successful helper call leaves behind.\<close>

lemma ensure_live_Ok: "ensure_live s = (Ok a, t) \<longleftrightarrow> t = s \<and> live s"
  by (auto simp: ensure_live_def)

lemma validate_Ok: "validate_expected_role_keys N s = (Ok a, t) \<Longrightarrow> t = s"
  by (auto simp: validate_expected_role_keys_def fail_endpoint_def split: if_splits)

lemma seal_control_Ok: "seal_control N s c b = (Ok f, t) \<Longrightarrow> rd_channel s \<noteq> None \<and> (\<exists>ch. t = s\<lparr>rd_channel := Some ch\<rparr>)"
  by (auto simp: seal_control_def bind_st_case Let_def fail_endpoint_def
      split: result.splits prod.splits)

lemma admit_local_session_Ok:
  "admit_local_session N s p c b = (Ok h, t) \<Longrightarrow> \<exists>ses. t = s\<lparr>rd_session := Some ses\<rparr>"
  by (auto simp: admit_local_session_def bind_st_case Let_def fail_endpoint_def
      split: result.splits prod.splits if_splits)

text \<open>A terminated reducer holds no session, so a held session shows that the reducer is live.\<close>

definition session_live :: "'p reducer \<Rightarrow> bool" where
  "session_live s \<longleftrightarrow> (live s \<or> rd_session s = None)"

lemma session_live_terminate [simp]: "session_live (terminate_endpoint r s)"
  by (simp add: session_live_def)

lemma session_live_apply: "session_live s \<Longrightarrow> session_live (snd (apply_application N s d h))"
  by (cases d) (auto simp: session_live_def apply_intent_def apply_decision_def apply_payload_def Let_def
      bind_st_case fail_endpoint_def split: result.splits option.splits prod.splits)

lemma session_live_pass: "session_live s \<Longrightarrow> session_live (snd (retry_pass N s ps em nx pg))"
proof (induction ps arbitrary: s em nx pg)
  case (Cons p ps)
  have up: "session_live (s\<lparr>rd_session := Some ses\<rparr>)" if "rd_session s \<noteq> None" for ses
    using Cons.prems that by (simp add: session_live_def)
  have rest: "session_live (snd (bind_st (apply_application N (s\<lparr>rd_session := Some ses\<rparr>) d h)
      (\<lambda>e t. retry_pass N t ps (em @ e) nx True)))" if "rd_session s \<noteq> None" for ses d h
    using session_live_apply[OF up[OF that], of N ses d h]
    by (cases "apply_application N (s\<lparr>rd_session := Some ses\<rparr>) d h") (auto simp: bind_st_case Cons.IH split: result.splits)
  show ?case
    using Cons.prems
    by (auto simp: bind_st_case fail_endpoint_def ok_or_def intro!: Cons.IH up rest
        split: result.splits prod.splits option.splits protocol_verdict.splits)
qed simp

lemma retry_pass_idle:
  "retry_pass N s ps em nx pg = (Ok (em', nx', False), t) \<Longrightarrow>
     \<not> pg \<and> rd_terminal t = rd_terminal s \<and> (ps = [] \<and> nx' = nx \<or> rd_session s \<noteq> None)"
proof (induction ps arbitrary: s em nx pg)
  case (Cons p ps)
  from Cons.prems show ?case
    by (auto simp: bind_st_case bind_st_Ok fail_endpoint_def ok_or_def dest!: Cons.IH
        split: result.splits prod.splits option.splits protocol_verdict.splits)
qed simp

text \<open>
  The claimant's own decision is the one update outside the relation: \<open>decide\<close> either stays in it,
  or sends its frame and records the decision, or records it and closes.
\<close>

definition recorded :: "'p reducer \<Rightarrow> decision \<Rightarrow> 'p reducer \<Rightarrow> bool" where
  "recorded s d t \<longleftrightarrow> (\<exists>y z r. live s \<and> rd_side s = SideClaimant \<and> rd_decision s = None \<and> rd_channel s \<noteq> None \<and>
     (let u = s\<lparr>rd_session := Some y, rd_channel := Some z, rd_decision := Some r\<rparr> in
        dr_decision r = d \<and>
        t = (if d = Decline then terminate_endpoint TrDeclined (u\<lparr>rd_local_decline_committed := True\<rparr>) else u)))"

lemma bind_st_rule:
  "P (snd x) \<Longrightarrow> (\<And>a t. x = (Ok a, t) \<Longrightarrow> P (snd (f a t))) \<Longrightarrow> P (snd (bind_st x f))"
  by (cases x; cases "fst x") auto

locale reducer_relation =
  fixes R :: "'p reducer \<Rightarrow> 'p reducer \<Rightarrow> bool"
  assumes R_refl: "R s s"
    and R_trans: "R s t \<Longrightarrow> R t u \<Longrightarrow> R s u"
    and R_terminate: "R s (terminate_endpoint r s)"
    and R_bootstrap: "live s \<Longrightarrow> R s (s\<lparr>rd_bootstrap := Some b\<rparr>)"
    and R_session: "live s \<Longrightarrow> R s (s\<lparr>rd_session := Some ses\<rparr>)"
    and R_channel: "live s \<Longrightarrow> rd_channel s \<noteq> None \<Longrightarrow> R s (s\<lparr>rd_channel := Some ch\<rparr>)"
    and R_profile: "live s \<Longrightarrow> R s (s\<lparr>rd_profile := p\<rparr>)"
    and R_local_finished: "live s \<Longrightarrow> R s (s\<lparr>rd_local_finished := lf\<rparr>)"
    and R_pending_finished: "live s \<Longrightarrow> R s (s\<lparr>rd_pending_finished := pf\<rparr>)"
    and R_confirmed: "live s \<Longrightarrow>
      R s (s\<lparr>rd_pending_channel := None, rd_channel := Some ch, rd_record := spend (rd_record s)\<rparr>)"
    and R_taken: "live s \<Longrightarrow> R s (s\<lparr>rd_pending_channel := None\<rparr>)"
    and R_hold: "live s \<Longrightarrow> R s (s\<lparr>rd_pending_applications := ps\<rparr>)"
    and R_release: "R s (s\<lparr>rd_pending_applications := []\<rparr>)"
    and R_intent: "live s \<Longrightarrow> R s (s\<lparr>rd_intent := Some i\<rparr>)"
    and R_peer_decision: "live s \<Longrightarrow> rd_side s = SideAllocator \<Longrightarrow> R s (s\<lparr>rd_decision := Some d\<rparr>)"
    and R_verification: "live s \<Longrightarrow> R s (s\<lparr>rd_profile_verifications := n\<rparr>)"
    and R_payload: "live s \<Longrightarrow> rd_side s = SideClaimant \<Longrightarrow> approved s \<Longrightarrow> rd_payload_control_hash s = None \<Longrightarrow>
      R s (s\<lparr>rd_payload_control_hash := Some h, rd_delivered_payloads := Suc (rd_delivered_payloads s)\<rparr>)"
    and R_outbound: "live s \<Longrightarrow> R s (s\<lparr>rd_outbound_payload_sent := True\<rparr>)"
    and R_replay: "R s (s\<lparr>rd_terminal_replay_frame_digest := x\<rparr>)"
begin

lemma rel_fail: "R s t \<Longrightarrow> R s (snd (fail_endpoint r e t))"
  using R_trans[OF _ R_terminate] by (simp add: fail_endpoint_def)

lemma rel_bind:
  "R s (snd x) \<Longrightarrow> (\<And>a t. x = (Ok a, t) \<Longrightarrow> R s t \<Longrightarrow> R s (snd (f a t))) \<Longrightarrow> R s (snd (bind_st x f))"
  by (rule bind_st_rule) auto

lemma rel_bind_pure:
  "R s t \<Longrightarrow> (\<And>a. x = Ok a \<Longrightarrow> R s (snd (f a t))) \<Longrightarrow> R s (snd (bind_st (x, t) f))"
  by (cases x) auto

lemma rel_ensure_live:
  "(live s \<Longrightarrow> R s (snd (f () s))) \<Longrightarrow> R s (snd (bind_st (ensure_live s) f))"
  by (auto simp: ensure_live_def R_refl)

lemma rel_validate:
  "R s t \<Longrightarrow> R s (snd (f () t)) \<Longrightarrow> R s (snd (bind_st (validate_expected_role_keys N t) f))"
  by (auto simp: validate_expected_role_keys_def fail_endpoint_def intro: R_trans[OF _ R_terminate])

lemma rel_validate_alone: "R s t \<Longrightarrow> R s (snd (validate_expected_role_keys N t))"
  by (auto simp: validate_expected_role_keys_def intro: rel_fail)

lemma rel_seal: "live s \<Longrightarrow> R s (snd (seal_control N s c b))"
  by (auto simp: seal_control_def Let_def split: prod.splits result.splits
      intro!: rel_bind_pure rel_fail R_refl R_channel)

lemma rel_admit_local: "live s \<Longrightarrow> R s (snd (admit_local_session N s p c b))"
  by (auto simp: admit_local_session_def Let_def split: prod.splits result.splits
      intro!: rel_bind_pure rel_fail R_refl R_session)

lemma rel_bind_seal:
  assumes "R s t" and "live t"
    and "\<And>fr ch. rd_channel t \<noteq> None \<Longrightarrow> R s (t\<lparr>rd_channel := Some ch\<rparr>) \<Longrightarrow> R s (snd (f fr (t\<lparr>rd_channel := Some ch\<rparr>)))"
  shows "R s (snd (bind_st (seal_control N t c b) f))"
  using assms R_trans[OF assms(1) rel_seal[OF assms(2)]]
  by (intro rel_bind) (auto dest!: seal_control_Ok)

lemma rel_bind_local:
  assumes "R s t" and "live t"
    and "\<And>h ses. R s (t\<lparr>rd_session := Some ses\<rparr>) \<Longrightarrow> R s (snd (f h (t\<lparr>rd_session := Some ses\<rparr>)))"
  shows "R s (snd (bind_st (admit_local_session N t p c b) f))"
  using assms R_trans[OF assms(1) rel_admit_local[OF assms(2)]]
  by (intro rel_bind) (auto dest!: admit_local_session_Ok)

lemmas rel_rules = rel_bind_pure rel_fail rel_ensure_live rel_validate rel_bind_seal rel_bind_local R_refl

lemma rel_bootstrap_control: "R s (snd (admit_bootstrap_control N s p c b))"
  by (auto simp: admit_bootstrap_control_def Let_def split: prod.splits result.splits
      intro!: rel_rules R_bootstrap)

lemma rel_local_finished_frame: "R s (snd (local_finished_frame N s))"
  by (auto simp: local_finished_frame_def Let_def
      split: prod.splits result.splits option.splits protocol_verdict.splits
      intro!: rel_rules R_bootstrap R_trans[OF R_bootstrap R_local_finished])

lemma rel_open_allocator: "live s \<Longrightarrow> R s (snd (open_allocator_session N s))"
  by (auto simp: open_allocator_session_def split: prod.splits intro!: rel_rules R_session)

lemma rel_receive_opener: "live s \<Longrightarrow> R s (snd (receive_opener N s p))"
  by (auto simp: receive_opener_def split: prod.splits result.splits intro!: rel_rules R_session)

lemma rel_apply_intent: "live s \<Longrightarrow> R s (snd (apply_intent N s v h))"
  by (auto simp: apply_intent_def Let_def split: prod.splits result.splits option.splits
      intro!: rel_rules R_profile R_trans[OF R_profile R_intent])

lemma rel_apply_decision: "live s \<Longrightarrow> R s (snd (apply_decision s v h))"
  by (auto simp: apply_decision_def Let_def split: option.splits
      intro!: rel_rules R_peer_decision R_trans[OF R_peer_decision R_terminate])

lemma rel_apply_payload: "live s \<Longrightarrow> R s (snd (apply_payload N s v h))"
proof -
  assume l: "live s"
  have "R s (s\<lparr>rd_profile_verifications := n, rd_profile := p\<rparr>)" for n p
    using R_trans[OF R_verification R_profile] l by auto
  moreover have "R s (s\<lparr>rd_profile_verifications := n, rd_profile := p, rd_payload_control_hash := Some h,
      rd_delivered_payloads := Suc (rd_delivered_payloads s)\<rparr>)"
    if "rd_side s = SideClaimant" "approved s" "rd_payload_control_hash s = None" for n p
    using R_trans[OF calculation R_payload[of "s\<lparr>rd_profile_verifications := n, rd_profile := p\<rparr>" h]] l that
    by (simp add: approved_def)
  ultimately show ?thesis
    using l by (auto simp: apply_payload_def Let_def approved_def split: prod.splits result.splits option.splits
        intro!: rel_rules)
qed

lemma rel_apply_application: "live s \<Longrightarrow> R s (snd (apply_application N s d h))"
  by (cases d) (auto intro: rel_apply_intent rel_apply_decision rel_apply_payload)

lemma rel_retry_pass: "session_live s \<Longrightarrow> R s (snd (retry_pass N s ps em nx pg))"
proof (induction ps arbitrary: s em nx pg)
  case Nil
  then show ?case by (simp add: R_refl)
next
  case (Cons p ps)
  have step: "R s (snd (retry_pass N s (p # ps) em nx pg))" if l: "live s"
  proof -
    have ses: "R s (s\<lparr>rd_session := Some ses\<rparr>)" and sl: "session_live (s\<lparr>rd_session := Some ses\<rparr>)" for ses
      using l R_session by (simp_all add: session_live_def)
    have hold: "R s (s\<lparr>rd_session := Some ses, rd_pending_applications := nx\<rparr>)" for ses
      using R_trans[OF ses R_hold[of "s\<lparr>rd_session := Some ses\<rparr>"]] l by simp
    have app: "R s (snd (apply_application N (s\<lparr>rd_session := Some ses\<rparr>) d h))" for ses d h
      using R_trans[OF ses rel_apply_application] l by simp
    have rest: "R s (snd (retry_pass N t ps em' nx' pg'))" if "R s t" "session_live t" for t em' nx' pg'
      using R_trans[OF that(1) Cons.IH[OF that(2)]] .
    have after: "session_live t" if "apply_application N (s\<lparr>rd_session := Some ses\<rparr>) d h = (Ok e, t)" for ses d h e t
      using session_live_apply[OF sl, of N ses d h] that by simp
    show ?thesis
      by (auto simp: R_refl split: prod.splits protocol_verdict.splits
          intro!: rel_bind_pure rel_bind rel_fail ses hold app rest sl) (erule after)
  qed
  show ?case
  proof (cases "live s")
    case False
    then show ?thesis using Cons.prems
      by (auto simp: session_live_def ok_or_def R_refl split: option.splits intro!: rel_bind_pure)
  qed (rule step)
qed

lemma rel_retry_loop:
  "session_live s \<Longrightarrow> R s (snd (retry_loop N s ps em))"
proof (induction N s ps em rule: retry_loop.induct)
  case (1 N s ps em)
  note pass = rel_retry_pass[OF 1(2), of N ps em "[]" False] session_live_pass[OF 1(2), of N ps em "[]" False]
  show ?case
  proof (cases "retry_pass N s ps em [] False")
    case (Pair res t)
    have idle: "R s (t\<lparr>rd_pending_applications := nx\<rparr>)" if "res = Ok (em', nx, False)" for em' nx
    proof -
      have "live t \<or> nx = []"
        using retry_pass_idle[of N s ps em "[]" False em' nx t] Pair that 1(2) by (auto simp: session_live_def)
      then show ?thesis
        using R_trans[OF pass(1) R_hold] R_trans[OF pass(1) R_release] Pair by auto
    qed
    show ?thesis
      using pass Pair idle R_trans[OF _ 1(1)]
      by (subst retry_loop.simps) (auto split: result.splits)
  qed
qed

lemma rel_retry_pending: "session_live s \<Longrightarrow> R s (snd (retry_pending N s))"
  unfolding retry_pending_def
  by (rule R_trans[OF R_release rel_retry_loop]) (simp add: session_live_def)

lemma rel_admit_application: "live s \<Longrightarrow> R s (snd (admit_application N s p d))"
proof -
  assume l: "live s"
  have ses: "R s (s\<lparr>rd_session := Some ses\<rparr>)" and sl: "session_live (s\<lparr>rd_session := Some ses\<rparr>)" for ses
    using l R_session by (simp_all add: session_live_def)
  have hold: "R s (s\<lparr>rd_session := Some ses, rd_pending_applications := nx\<rparr>)" for ses nx
    using R_trans[OF ses R_hold[of "s\<lparr>rd_session := Some ses\<rparr>"]] l by simp
  have app: "R s (snd (apply_application N (s\<lparr>rd_session := Some ses\<rparr>) d h))" for ses h
    using R_trans[OF ses rel_apply_application] l by simp
  have after: "R s (snd (retry_pending N t))"
    if "R s t" "apply_application N (s\<lparr>rd_session := Some ses\<rparr>) d h = (Ok e, t)" for ses h e t
    using R_trans[OF that(1) rel_retry_pending] session_live_apply[OF sl, of N ses d h] that(2) by simp
  show ?thesis
    by (auto simp: R_refl admit_application_def Let_def split: prod.splits result.splits protocol_verdict.splits
        intro!: rel_bind_pure rel_bind rel_fail ses hold app after)
qed

lemma rel_receive_finished: "live s \<Longrightarrow> R s (snd (receive_finished N s sd c v))"
proof -
  assume l: "live s"
  have b: "R s (s\<lparr>rd_bootstrap := Some x\<rparr>)" for x
    using l R_bootstrap by simp
  have pf: "R s (s\<lparr>rd_bootstrap := Some x, rd_pending_finished := pf\<rparr>)" for x pf
    using R_trans[OF b R_pending_finished] l by simp
  have tk: "R s (s\<lparr>rd_bootstrap := Some x, rd_pending_finished := pf, rd_pending_channel := None\<rparr>)" for x pf
    using R_trans[OF pf R_taken] l by simp
  have cf: "R s (s\<lparr>rd_bootstrap := Some x, rd_pending_finished := pf, rd_pending_channel := None,
      rd_channel := Some ch, rd_record := spend (rd_record s)\<rparr>)" for x pf ch
    using R_trans[OF pf R_confirmed] l by simp
  have op: "R s (snd (open_allocator_session N (s\<lparr>rd_bootstrap := Some x, rd_pending_finished := pf,
      rd_pending_channel := None, rd_channel := Some ch, rd_record := spend (rd_record s)\<rparr>)))" for x pf ch
    using R_trans[OF cf rel_open_allocator] l by simp
  show ?thesis
    by (auto simp: receive_finished_def Let_def R_refl
        split: prod.splits result.splits option.splits protocol_verdict.splits
        intro!: rel_bind_pure rel_validate rel_fail b pf tk cf op)
qed

lemma rel_receive_sealed: "live s \<Longrightarrow> R s (snd (receive_sealed N s f))"
proof -
  assume l: "live s"
  have c: "R s (s\<lparr>rd_channel := Some ch\<rparr>)" if "rd_channel s \<noteq> None" for ch
    using l R_channel that by simp
  have op: "R s (snd (receive_opener N (s\<lparr>rd_channel := Some ch\<rparr>) p))" if "rd_channel s \<noteq> None" for ch p
    using R_trans[OF c rel_receive_opener] l that by simp
  have ad: "R s t" if "rd_channel s \<noteq> None" "admit_application N (s\<lparr>rd_channel := Some ch\<rparr>) p d = (r, t)" for ch p d r t
    using R_trans[OF c rel_admit_application, of ch N p d] l that by simp
  show ?thesis
    by (auto simp: receive_sealed_def Let_def R_refl
        split: prod.splits result.splits option.splits
        intro!: rel_bind_pure rel_fail c op)
      (rule R_trans[OF _ R_replay], erule ad[rotated], simp | erule ad[rotated], simp)+
qed

lemma rel_receive_frame: "R s (snd (receive_frame N s f))"
  by (auto simp: receive_frame_def R_refl split: channel_frame.splits
      intro!: rel_ensure_live rel_receive_finished rel_receive_sealed rel_fail)

lemma rel_retry_pending_finished: "R s (snd (retry_pending_finished N s))"
  by (auto simp: retry_pending_finished_def R_refl split: option.splits channel_frame.splits
      intro!: rel_ensure_live rel_receive_finished)

lemma rel_cancel: "R s (snd (cancel s))"
  by (auto simp: cancel_def intro!: rel_ensure_live R_terminate)

lemma rel_relay_closed: "R s (snd (relay_closed s r))"
  by (auto simp: relay_closed_def intro!: rel_ensure_live R_terminate)

lemma rel_two:
  assumes "live s" and "rd_channel s \<noteq> None"
  shows "R s (s\<lparr>rd_session := Some ses, rd_channel := Some ch\<rparr>)"
  using R_trans[OF R_session R_channel] assms by simp

lemma rel_send_intent: "R s (snd (send_intent N s i))"
proof (cases "live s")
  case True
  have p: "R s (s\<lparr>rd_profile := x\<rparr>)" for x
    using True R_profile by simp
  have i: "R s (s\<lparr>rd_profile := x, rd_session := Some y, rd_channel := Some z, rd_intent := Some w\<rparr>)"
    if "rd_channel s \<noteq> None" for x y z w
    using R_trans[OF R_trans[OF p rel_two] R_intent] True that by simp
  show ?thesis
    using True by (auto simp: send_intent_def Let_def split: prod.splits intro!: rel_rules p i)
qed (auto simp: send_intent_def ensure_live_def R_refl)

lemma rel_send_payload: "R s (snd (send_payload N s v))"
proof (cases "live s")
  case True
  have o: "R s (s\<lparr>rd_session := Some y, rd_channel := Some z, rd_outbound_payload_sent := True\<rparr>)"
    if "rd_channel s \<noteq> None" for y z
    using R_trans[OF rel_two R_outbound] True that by simp
  show ?thesis
    using True by (auto simp: send_payload_def Let_def intro!: rel_rules o)
qed (auto simp: send_payload_def ensure_live_def R_refl)

lemma decide_cases: "R s (snd (decide N s d)) \<or> recorded s d (snd (decide N s d))"
proof (cases "live s \<and> rd_side s = SideClaimant \<and> rd_decision s = None")
  case True
  define Q where "Q t \<longleftrightarrow> R s t \<or> recorded s d t" for t
  note bindQ = bind_st_rule[where P = Q]
  have Q0: "Q s" and QR: "R s t \<Longrightarrow> Q t" for t
    using R_refl by (auto simp: Q_def)
  have loc: "Q (snd (admit_local_session N s p c b))" for p c b
    using True rel_admit_local by (auto simp: Q_def)
  have ses: "R s (s\<lparr>rd_session := Some y\<rparr>)" for y
    using True R_session by simp
  have sl: "Q (snd (seal_control N (s\<lparr>rd_session := Some y\<rparr>) c b))" for y c b
    using R_trans[OF ses rel_seal] True by (auto simp: Q_def)
  have fin: "Q (s\<lparr>rd_session := Some y, rd_channel := Some z, rd_decision := Some \<lparr>dr_decision = Approve, dr_control_hash = h\<rparr>\<rparr>)"
    if "d = Approve" "rd_channel s \<noteq> None" for y z h
    unfolding Q_def recorded_def using True that
    by (intro disjI2 exI[of _ y] exI[of _ z] exI[of _ "\<lparr>dr_decision = Approve, dr_control_hash = h\<rparr>"]) (simp add: Let_def)
  have fin2: "Q (terminate_endpoint TrDeclined (s\<lparr>rd_session := Some y, rd_channel := Some z,
       rd_decision := Some \<lparr>dr_decision = Decline, dr_control_hash = h\<rparr>, rd_local_decline_committed := True\<rparr>))"
    if "d = Decline" "rd_channel s \<noteq> None" for y z h
    unfolding Q_def recorded_def using True that
    by (intro disjI2 exI[of _ y] exI[of _ z] exI[of _ "\<lparr>dr_decision = Decline, dr_control_hash = h\<rparr>"]) (simp add: Let_def)
  have "Q (snd (decide N s d))"
    using True
    by (cases d) (auto simp: decide_def ensure_live_def Let_def intro!: bindQ Q0 loc sl fin fin2
        dest!: seal_control_Ok admit_local_session_Ok)
  then show ?thesis by (simp add: Q_def)
qed (auto simp: decide_def ensure_live_def R_refl split: option.splits intro!: rel_fail)

end

end
