(* ===== verification/Endpoint_Props.thy ===== *)
theory Endpoint_Props
  imports Endpoint_Relation Channel_Props Cbcl_Props
begin

text \<open>
  Properties of the endpoint reducer over arbitrary sequences of its public methods, and of the
  durable invitation record: at most one grant, only on the claimant and only after approval;
  finality and erasure of terminal states; one attempt per invitation; the stored form of the
  record.
\<close>

section \<open>Sequences of calls\<close>

datatype endpoint_call =
    CallBootstrap bootstrap_performative bytes bytes
  | CallLocalFinished
  | CallFrame channel_frame
  | CallRetryFinished
  | CallCancel
  | CallRelayClosed close_reason
  | CallSendIntent pairing_intent
  | CallDecide decision
  | CallSendPayload application_payload

text \<open>The effects a caller receives: none when the method reports an error.\<close>

definition emitted_by :: "('a \<Rightarrow> endpoint_effect list) \<Rightarrow> ('a, 'p) reduced \<Rightarrow> endpoint_effect list \<times> 'p reducer" where
  "emitted_by f r = ((case fst r of Ok a \<Rightarrow> f a | _ \<Rightarrow> []), snd r)"

fun endpoint_step :: "'p endpoint_env \<Rightarrow> 'p reducer \<Rightarrow> endpoint_call \<Rightarrow> endpoint_effect list \<times> 'p reducer" where
  "endpoint_step N s (CallBootstrap p c b) = emitted_by (\<lambda>_. []) (admit_bootstrap_control N s p c b)"
| "endpoint_step N s CallLocalFinished =
     emitted_by (\<lambda>f. case f of None \<Rightarrow> [] | Some f \<Rightarrow> [SendFrame f]) (local_finished_frame N s)"
| "endpoint_step N s (CallFrame f) = emitted_by id (receive_frame N s f)"
| "endpoint_step N s CallRetryFinished = emitted_by id (retry_pending_finished N s)"
| "endpoint_step N s CallCancel = emitted_by id (cancel s)"
| "endpoint_step N s (CallRelayClosed r) = emitted_by id (relay_closed s r)"
| "endpoint_step N s (CallSendIntent i) = emitted_by (\<lambda>f. [SendFrame f]) (send_intent N s i)"
| "endpoint_step N s (CallDecide d) = emitted_by id (decide N s d)"
| "endpoint_step N s (CallSendPayload v) = emitted_by (\<lambda>f. [SendFrame f]) (send_payload N s v)"

fun endpoint_run :: "'p endpoint_env \<Rightarrow> 'p reducer \<Rightarrow> endpoint_call list \<Rightarrow> endpoint_effect list \<times> 'p reducer" where
  "endpoint_run N s [] = ([], s)"
| "endpoint_run N s (c # cs) =
     (let (es, t) = endpoint_step N s c; (es', u) = endpoint_run N t cs in (es @ es', u))"

text \<open>A relation that contains the elementary updates contains every call but a new local decision.\<close>

context reducer_relation
begin

lemma rel_step: "R s (snd (endpoint_step N s c)) \<or> (\<exists>d. c = CallDecide d \<and> recorded s d (snd (endpoint_step N s c)))"
  using decide_cases
  by (cases c) (auto simp: emitted_by_def rel_bootstrap_control rel_local_finished_frame rel_receive_frame
      rel_retry_pending_finished rel_cancel rel_relay_closed rel_send_intent rel_send_payload)

lemma rel_run:
  assumes "\<And>s d t. CallDecide d \<in> set cs \<Longrightarrow> recorded s d t \<Longrightarrow> R s t"
  shows "R s (snd (endpoint_run N s cs))"
  using assms
proof (induction cs arbitrary: s)
  case (Cons c cs)
  have "R s (snd (endpoint_step N s c))"
    using rel_step[of s N c] Cons.prems by auto
  moreover have "R t (snd (endpoint_run N t cs))" for t
    using Cons by auto
  ultimately show ?case
    by (auto split: prod.splits intro: R_trans) (metis R_trans snd_conv)
qed (simp add: R_refl)

end

section \<open>Delivery\<close>

definition is_grant :: "endpoint_effect \<Rightarrow> bool" where
  "is_grant e \<longleftrightarrow> (case e of DeliverGrant _ \<Rightarrow> True | _ \<Rightarrow> False)"

definition grants :: "endpoint_effect list \<Rightarrow> nat" where
  "grants es = length (filter is_grant es)"

lemma grants_simps [simp]:
  "grants [] = 0" "grants (e # es) = (if is_grant e then 1 else 0) + grants es"
  "grants (es @ fs) = grants es + grants fs"
  "is_grant (SendFrame f)  = False" "is_grant (DisplayIntent i) = False" "is_grant CloseMailbox = False"
  "is_grant (DeliverGrant g)"
  by (simp_all add: grants_def is_grant_def)

text \<open>
  No further payload is delivered once one was accepted or the reducer is terminal. The flag \<open>b\<close>
  records whether the claimant approves during the calls that the relation spans.
\<close>

definition used_up :: "'p reducer \<Rightarrow> bool" where
  "used_up s \<longleftrightarrow> rd_payload_control_hash s \<noteq> None \<or> \<not> live s"

definition delivery :: "bool \<Rightarrow> 'p reducer \<Rightarrow> 'p reducer \<Rightarrow> bool" where
  "delivery b s t \<longleftrightarrow> rd_side t = rd_side s \<and> (\<not> live s \<longrightarrow> \<not> live t) \<and> (used_up s \<longrightarrow> used_up t) \<and>
     rd_delivered_payloads s \<le> rd_delivered_payloads t \<and>
     rd_delivered_payloads t \<le> rd_delivered_payloads s + (if used_up s then 0 else 1) \<and>
     (rd_delivered_payloads s < rd_delivered_payloads t \<longrightarrow>
        used_up t \<and> rd_side s = SideClaimant \<and> (approved s \<or> b)) \<and>
     (rd_side s = SideClaimant \<and> approved t \<longrightarrow> approved s \<or> b)"

lemma approved_terminate [simp]: "\<not> approved (terminate_endpoint r s)"
  by (simp add: approved_def)

lemma delivery_trans: "delivery b s t \<Longrightarrow> delivery b t u \<Longrightarrow> delivery b s u"
  unfolding delivery_def by (auto split: if_splits)

interpretation dl: reducer_relation "delivery b" for b
proof
  fix s t u :: "'p reducer"
  show "delivery b s s" by (simp add: delivery_def)
  assume "delivery b s t" "delivery b t u"
  then show "delivery b s u" by (rule delivery_trans)
qed (auto simp: delivery_def used_up_def approved_def)

lemma recorded_delivery: "recorded s d t \<Longrightarrow> d = Approve \<longrightarrow> b \<Longrightarrow> delivery b s t"
  by (auto simp: recorded_def delivery_def used_up_def approved_def Let_def split: if_splits decision.splits)

lemma delivery_run: "delivery (CallDecide Approve \<in> set cs) s (snd (endpoint_run N s cs))"
  by (rule dl.rel_run) (metis recorded_delivery)

text \<open>The delivery counter moves with the grants a successful call hands out.\<close>

definition counted :: "'p reducer \<Rightarrow> (endpoint_effect list, 'p) reduced \<Rightarrow> bool" where
  "counted s r \<longleftrightarrow> (\<forall>es t. r = (Ok es, t) \<longrightarrow> rd_delivered_payloads t = rd_delivered_payloads s + grants es)"

lemma counted_intros:
  "counted s (fail_endpoint r e t)" "counted s (Err e, t)" "counted s (Panic, t)"
  "rd_delivered_payloads t = rd_delivered_payloads s + grants es \<Longrightarrow> counted s (Ok es, t)"
  "(\<And>a t. x = (Ok a, t) \<Longrightarrow> counted s (f a t)) \<Longrightarrow> counted s (bind_st x f)"
  by (auto simp: counted_def fail_endpoint_def bind_st_Ok)

lemma counted_cong: "rd_delivered_payloads s' = rd_delivered_payloads s \<Longrightarrow> counted s' r \<Longrightarrow> counted s r"
  by (simp add: counted_def)

lemma counted_apply: "counted s (apply_application N s d h)"
  by (cases d) (auto simp: apply_intent_def apply_decision_def apply_payload_def Let_def
      split: result.splits option.splits prod.splits intro!: counted_intros)

lemma pass_counts:
  "retry_pass N s ps em nx pg = (Ok (em', nx', pg'), t) \<Longrightarrow>
     rd_delivered_payloads t + grants em = rd_delivered_payloads s + grants em'"
proof (induction ps arbitrary: s em nx pg)
  case (Cons p ps)
  have app: "rd_delivered_payloads u = rd_delivered_payloads w + grants es"
    if "apply_application N w d h = (Ok es, u)" for w d h es u
    using counted_apply[of w N d h] that by (simp add: counted_def)
  from Cons.prems show ?case
    by (auto simp: bind_st_case bind_st_Ok fail_endpoint_def ok_or_def dest!: Cons.IH app
        split: result.splits prod.splits option.splits protocol_verdict.splits)
qed simp

lemma loop_counts:
  "retry_loop N s ps em = (Ok em', t) \<Longrightarrow> rd_delivered_payloads t + grants em = rd_delivered_payloads s + grants em'"
proof (induction N s ps em rule: retry_loop.induct)
  case (1 N s ps em)
  obtain em1 nx pg u where pass: "retry_pass N s ps em [] False = (Ok (em1, nx, pg), u)"
    and "if pg then retry_loop N u nx em1 = (Ok em', t) else em1 = em' \<and> t = u\<lparr>rd_pending_applications := nx\<rparr>"
    using 1(2) by (subst (asm) retry_loop.simps) (auto split: prod.splits result.splits if_splits)
  then show ?case using pass_counts[OF pass] 1(1)[OF pass[symmetric] refl refl refl] by (auto split: if_splits)
qed

lemma counted_retry: "counted s (retry_pending N s)"
  using loop_counts by (fastforce simp: counted_def retry_pending_def)

lemma counted_admit: "counted s (admit_application N s p d)"
proof -
  have "counted s (bind_st (apply_application N (s\<lparr>rd_session := Some y\<rparr>) d h)
      (\<lambda>es t. bind_st (retry_pending N t) (\<lambda>fs u. (Ok (es @ fs), u))))" for y h
    using counted_apply[of "s\<lparr>rd_session := Some y\<rparr>" N d h] counted_retry
    by (fastforce simp: counted_def bind_st_Ok)
  then show ?thesis
    by (auto simp: admit_application_def Let_def
        split: result.splits prod.splits protocol_verdict.splits intro!: counted_intros(1-4) counted_intros(5))
qed

lemma counted_opener: "rd_delivered_payloads t = rd_delivered_payloads s \<Longrightarrow> counted s (receive_opener N t p)"
  by (auto simp: receive_opener_def split: result.splits prod.splits intro!: counted_intros)

lemma counted_allocator: "rd_delivered_payloads t = rd_delivered_payloads s \<Longrightarrow> counted s (open_allocator_session N t)"
  by (auto simp: open_allocator_session_def split: prod.splits intro!: counted_intros dest!: seal_control_Ok)

lemma counted_finished: "counted s (receive_finished N s sd c v)"
  by (auto simp: receive_finished_def Let_def
      split: result.splits option.splits prod.splits protocol_verdict.splits
      intro!: counted_intros counted_allocator dest!: validate_Ok)

lemma counted_sealed: "counted s (receive_sealed N s f)"
proof -
  have "counted s (r, t)" "counted s (r, t\<lparr>rd_terminal_replay_frame_digest := x\<rparr>)"
    if "admit_application N (s\<lparr>rd_channel := Some y\<rparr>) p d = (r, t)" for y p d r t x
    using counted_admit[of "s\<lparr>rd_channel := Some y\<rparr>" N p d] that by (auto simp: counted_def)
  then show ?thesis
    by (auto simp: receive_sealed_def Let_def
        split: result.splits option.splits prod.splits intro!: counted_intros counted_opener)
qed

lemma counted_methods:
  "counted s (receive_frame N s f)" "counted s (retry_pending_finished N s)" "counted s (cancel s)"
  "counted s (relay_closed s r)" "counted s (decide N s d)"
  by (auto simp: receive_frame_def retry_pending_finished_def cancel_def relay_closed_def decide_def
      ensure_live_Ok Let_def split: option.splits channel_frame.splits
      intro!: counted_intros counted_finished counted_sealed dest!: seal_control_Ok admit_local_session_Ok)

lemma step_counts:
  "rd_delivered_payloads s + grants (fst (endpoint_step N s c)) \<le> rd_delivered_payloads (snd (endpoint_step N s c))"
proof -
  have mono: "rd_delivered_payloads s \<le> rd_delivered_payloads (snd (endpoint_step N s c))"
    using delivery_run[of "[c]" s N] by (simp add: delivery_def Let_def split: prod.splits)
  have "rd_delivered_payloads (snd r) = rd_delivered_payloads s + grants es" if "counted s r" "fst r = Ok es" for r es
    using that by (cases r) (auto simp: counted_def)
  then show ?thesis
    using mono counted_methods[of s]
    by (cases c) (simp_all add: emitted_by_def split: result.splits option.splits)
qed

lemma run_counts:
  "rd_delivered_payloads s + grants (fst (endpoint_run N s cs)) \<le> rd_delivered_payloads (snd (endpoint_run N s cs))"
proof (induction cs arbitrary: s)
  case (Cons c cs)
  obtain es t where st: "endpoint_step N s c = (es, t)" by fastforce
  obtain fs u where ru: "endpoint_run N t cs = (fs, u)" by fastforce
  show ?case using step_counts[of s N c] Cons.IH[of t] st ru by simp
qed simp

lemma endpoint_new_Ok:
  assumes "endpoint_new N sd i r k b pc ha hc p = Ok s"
  shows "rd_side s = sd" "live s" "rd_decision s = None" "rd_payload_control_hash s = None"
    "rd_delivered_payloads s = 0" "rd_record s = r" "rd_channel s = None" "rd_session s = None"
    "ir_status r = Bound" "ir_invitation_digest r = cr_sha256 (en_crypto N) i"
proof -
  obtain v where v: "decode_invitation (en_codec N) i = Ok v"
    using assms by (auto simp: endpoint_new_def bind_result_Ok split: if_splits)
  with assms show "rd_side s = sd" "live s" "rd_decision s = None" "rd_payload_control_hash s = None"
    "rd_delivered_payloads s = 0" "rd_record s = r" "rd_channel s = None" "rd_session s = None"
    "ir_status r = Bound" "ir_invitation_digest r = cr_sha256 (en_crypto N) i"
    by (cases "pf_recognise_invitation (en_profile N) p v";
        auto simp: endpoint_new_def validate_expected_role_keys_def fail_endpoint_def split: if_splits)+
qed

text \<open>
  C3: Over any sequence of calls on a new endpoint, at most one grant is delivered; one is delivered
  only on the claimant's side and only when the claimant's own approval is among the calls made so far.
\<close>

theorem grant_only_after_approval:
  assumes "endpoint_new N sd i r k b pc ha hc p = Ok s" and "endpoint_run N s cs = (es, t)"
  shows "grants es \<le> 1 \<and> (grants es = 1 \<longrightarrow> sd = SideClaimant \<and> CallDecide Approve \<in> set cs)"
  using delivery_run[of cs s N] run_counts[of s N cs] assms(2) endpoint_new_Ok[OF assms(1)]
  by (auto simp: delivery_def approved_def split: if_splits)

section \<open>Finality and erasure\<close>

text \<open>
  What every reachable state satisfies: a terminal reducer holds no key, channel, monitor, message or
  decision and its invitation is spent, and an open channel means that the invitation is spent.
\<close>

definition erased :: "'p reducer \<Rightarrow> bool" where
  "erased s \<longleftrightarrow> secrets_erased s \<and> rd_bootstrap s = None \<and> rd_session s = None \<and>
     rd_local_finished s = None \<and> rd_pending_finished s = None \<and> rd_pending_applications s = [] \<and>
     rd_intent s = None \<and> rd_decision s = None \<and> rd_payload_control_hash s = None"

definition settled :: "'p reducer \<Rightarrow> bool" where
  "settled s \<longleftrightarrow> (\<not> live s \<longrightarrow> erased s) \<and>
     (\<not> live s \<or> rd_channel s \<noteq> None \<longrightarrow> ir_status (rd_record s) = Spent)"

definition keeps_settled :: "'p reducer \<Rightarrow> 'p reducer \<Rightarrow> bool" where
  "keeps_settled s t \<longleftrightarrow> ir_invitation_digest (rd_record t) = ir_invitation_digest (rd_record s) \<and>
     (ir_status (rd_record s) = Spent \<longrightarrow> ir_status (rd_record t) = Spent) \<and> (settled s \<longrightarrow> settled t)"

lemma settled_terminate [simp]: "settled (terminate_endpoint r s)"
  by (simp add: settled_def erased_def secrets_erased_def terminate_endpoint_def spend_def)

lemma recorded_settled: "recorded s d t \<Longrightarrow> keeps_settled s t"
  by (auto simp: recorded_def keeps_settled_def Let_def spend_def settled_def erased_def
      secrets_erased_def terminate_endpoint_def split: if_splits)

lemma step_terminal: "\<not> live s \<Longrightarrow> endpoint_step N s c = ([], s)"
  by (cases c) (auto simp: emitted_by_def ensure_live_def admit_bootstrap_control_def local_finished_frame_def
      receive_frame_def retry_pending_finished_def cancel_def relay_closed_def send_intent_def decide_def
      send_payload_def)

lemma run_terminal: "\<not> live s \<Longrightarrow> endpoint_run N s cs = ([], s)"
  by (induction cs) (auto simp: step_terminal)

interpretation st: reducer_relation keeps_settled
  by unfold_locales (auto simp: keeps_settled_def settled_def erased_def secrets_erased_def spend_def
      terminate_endpoint_def)

lemma settled_run: "keeps_settled s (snd (endpoint_run N s cs))"
  by (rule st.rel_run) (rule recorded_settled)

text \<open>
  C14: Once an endpoint is terminal, whatever calls led there, it holds no signing key, channel, monitor,
  held message, intent or decision, its invitation is spent, and no further call changes it or emits an
  effect. While its channel is open the invitation is spent as well.
\<close>

theorem terminal_is_final:
  assumes "endpoint_new N sd i r k b pc ha hc p = Ok s" and "endpoint_run N s cs = (es, t)"
  shows "(rd_terminal t \<noteq> None \<or> rd_channel t \<noteq> None \<longrightarrow> ir_status (rd_record t) = Spent) \<and>
    (rd_terminal t \<noteq> None \<longrightarrow> erased t \<and> endpoint_run N t cs' = ([], t))"
proof -
  have "settled s" using endpoint_new_Ok[OF assms(1)] by (simp add: settled_def)
  then have "settled t" using settled_run[of s N cs] assms(2) by (simp add: keeps_settled_def)
  then show ?thesis using run_terminal[of t N cs'] by (auto simp: settled_def)
qed

text \<open>A spent record, or one of another invitation, never gives an endpoint again.\<close>

lemma spent_gives_no_endpoint:
  "ir_status r = Spent \<Longrightarrow> endpoint_new N sd i r k b pc ha hc p = Err ReInvitation"
  by (simp add: endpoint_new_def)

section \<open>Invitation records\<close>

datatype record_call = RcBind bytes bytes bytes | RcConsume

text \<open>The attempts a record accepts, first or resumed, over a sequence of calls.\<close>

fun record_run ::
  "codec \<Rightarrow> crypto \<Rightarrow> invitation_record \<Rightarrow> record_call list \<Rightarrow> (bytes \<times> bytes \<times> bytes) list \<times> invitation_record" where
  "record_run C X r [] = ([], r)"
| "record_run C X r (RcBind m f c # cs) =
     (let bnd = record_bind C X r m f c; rest = record_run C X (snd bnd) cs
      in (if is_ok (fst bnd) then (m, f, c) # fst rest else fst rest, snd rest))"
| "record_run C X r (RcConsume # cs) = record_run C X (consume r) cs"

lemma record_run_spent: "ir_status r = Spent \<Longrightarrow> fst (record_run C X r cs) = []"
proof (induction cs arbitrary: r)
  case (Cons c cs)
  then show ?case
    by (cases c) (auto simp: record_bind_def bind_st_case consume_def spend_def Let_def split: result.splits)
qed simp

lemma record_run_bound:
  assumes "ir_status r = Bound" and "(m, f, c) \<in> set (fst (record_run C X r cs))"
  shows "\<exists>b. ir_binding r = Some b \<and> attempt_binding C X (ir_invitation_digest r) m f c = Ok b"
  using assms
proof (induction cs arbitrary: r)
  case (Cons call cs)
  have spent: "fst (record_run C X (spend r) cs) = []"
    by (rule record_run_spent) (simp add: spend_def)
  show ?case
    using Cons.prems Cons.IH[of r] spent
    by (cases call)
      (auto simp: record_bind_def bind_st_case consume_def Let_def split: result.splits if_splits)
qed simp

lemma record_run_unused:
  assumes "ir_status r = Unused" and "(m, f, c) \<in> set (fst (record_run C X r cs))"
    and "(m', f', c') \<in> set (fst (record_run C X r cs))"
  shows "\<exists>b. attempt_binding C X (ir_invitation_digest r) m f c = Ok b \<and>
    attempt_binding C X (ir_invitation_digest r) m' f' c' = Ok b"
  using assms
proof (induction cs arbitrary: r)
  case (Cons call cs)
  have spent: "fst (record_run C X (spend r) cs) = []"
    by (rule record_run_spent) (simp add: spend_def)
  have bound: "attempt_binding C X (ir_invitation_digest r) m f c = Ok b"
    if "(m, f, c) \<in> set (fst (record_run C X (r\<lparr>ir_status := Bound, ir_binding := Some b\<rparr>) cs))" for m f c b
    using record_run_bound[OF _ that] by simp
  show ?case
    using Cons.prems Cons.IH[of r] spent
    by (cases call)
      (auto simp: record_bind_def bind_st_case consume_def Let_def split: result.splits if_splits
        dest!: bound)
qed simp

lemma record_run_consume: "snd (record_run C X r (cs @ [RcConsume])) = consume (snd (record_run C X r cs))"
proof (induction cs arbitrary: r)
  case (Cons c cs)
  then show ?case by (cases c) (simp_all add: Let_def)
qed simp

text \<open>The encodings of two given attempts under one invitation are different octets with the same hash.\<close>

definition attempt_collision :: "codec \<Rightarrow> crypto \<Rightarrow> bytes \<Rightarrow> bytes \<times> bytes \<times> bytes \<Rightarrow> bytes \<times> bytes \<times> bytes \<Rightarrow> bool" where
  "attempt_collision C X i = (\<lambda>(m, f, c) (m', f', c').
     \<exists>x y. cd_canonical C (attempt_value (cr_sha256 X i) m f c) = Some x \<and>
       cd_canonical C (attempt_value (cr_sha256 X i) m' f' c') = Some y \<and> x \<noteq> y \<and> cr_sha256 X x = cr_sha256 X y)"

text \<open>
  C29: One invitation serves one attempt. Whatever sequence of binds and consumptions its record goes
  through, any two accepted binds name the same mailbox, peer frame and public context, unless the
  encodings of these two attempts are a SHA-256 collision; and the record accepts nothing after it was
  consumed.
\<close>

theorem invitation_serves_one_attempt:
  assumes "reads_back C"
    and "(m, f, c) \<in> set (fst (record_run C X (record_new X i) cs))"
    and "(m', f', c') \<in> set (fst (record_run C X (record_new X i) cs))"
  shows "((m, f, c) = (m', f', c') \<or> attempt_collision C X i (m, f, c) (m', f', c')) \<and>
    fst (record_run C X (snd (record_run C X (record_new X i) (cs @ [RcConsume]))) cs') = []"
proof
  obtain b where "attempt_binding C X (cr_sha256 X i) m f c = Ok b" "attempt_binding C X (cr_sha256 X i) m' f' c' = Ok b"
    using record_run_unused[OF _ assms(2,3)] by (auto simp: record_new_def)
  then obtain x y where x: "cd_canonical C (attempt_value (cr_sha256 X i) m f c) = Some x"
    and y: "cd_canonical C (attempt_value (cr_sha256 X i) m' f' c') = Some y" and eq: "cr_sha256 X x = cr_sha256 X y"
    by (auto simp: attempt_binding_def bind_result_Ok ok_or_def split: option.splits)
  show "(m, f, c) = (m', f', c') \<or> attempt_collision C X i (m, f, c) (m', f', c')"
  proof (cases "x = y")
    case True
    have "attempt_value (cr_sha256 X i) m f c = attempt_value (cr_sha256 X i) m' f' c'"
      using x y True by (intro canonical_inject[OF assms(1)]) (auto simp: attempt_value_def)
    then show ?thesis by (simp add: attempt_value_def)
  qed (use eq in \<open>auto simp: attempt_collision_def x y\<close>)
  show "fst (record_run C X (snd (record_run C X (record_new X i) (cs @ [RcConsume]))) cs') = []"
    by (simp add: record_run_consume record_run_spent consume_def spend_def)
qed

definition record_wf :: "invitation_record \<Rightarrow> bool" where
  "record_wf r \<longleftrightarrow> length (ir_invitation_digest r) = 32 \<and> (ir_status r = Bound \<longleftrightarrow> ir_binding r \<noteq> None) \<and>
     (\<forall>b. ir_binding r = Some b \<longrightarrow> length b = 32)"

lemma integer_u64_Some: "integer_u64 v = Some n \<longleftrightarrow> v = CInteger (int n) \<and> n \<le> u64_max"
  by (auto simp: integer_u64_def split: cbor.splits if_splits)

lemma fixed_value_Ok: "fixed_value n v = Ok b \<longleftrightarrow> v = CBytes b \<and> length b = n"
  by (auto simp: fixed_value_def split: cbor.splits if_splits)

lemma record_decode_Ok:
  assumes "record_decode C bs = Ok r"
  shows "cd_canonical C (invitation_record_value r) = Some bs \<and> record_wf r"
proof -
  obtain version digest status b k where v: "cd_read C bs = Some (CArray [version, digest, status, b], k)"
    and canon: "cd_canonical C (CArray [version, digest, status, b]) = Some bs"
    using assms
    by (auto simp: record_decode_def bind_result_Ok ok_or_def split: option.splits prod.splits if_splits
        cbor.splits list.splits)
  have "version = CInteger 1" "digest = CBytes (ir_invitation_digest r)" "length (ir_invitation_digest r) = 32"
    "status = CInteger (case ir_status r of Unused \<Rightarrow> 0 | Bound \<Rightarrow> 1 | Spent \<Rightarrow> 2)"
    "b = (case ir_binding r of None \<Rightarrow> CNull | Some b \<Rightarrow> CBytes b)" "record_wf r"
    using assms v canon
    by (auto simp: record_decode_def bind_result_Ok integer_u64_Some fixed_value_Ok record_wf_def split: if_splits)
  with canon show ?thesis by (simp add: invitation_record_value_def)
qed

lemma record_encode_decode:
  assumes "reads_back C" and "record_wf r" and "record_encode C r = Ok bs"
  shows "record_decode C bs = Ok r"
proof -
  have free: "map_free (invitation_record_value r)" by (simp add: invitation_record_value_def split: option.splits)
  have canon: "cd_canonical C (invitation_record_value r) = Some bs"
    using assms(3) by (auto simp: record_encode_def ok_or_def split: option.splits)
  have "flat (invitation_record_value r)" using free by (auto simp: flat_def split: cbor.splits)
  then obtain w where "cd_read C bs = Some (w, length bs)" "reorders (invitation_record_value r) w"
    using assms(1) canon unfolding reads_back_def by blast
  moreover from this free have "w = invitation_record_value r" by (auto simp: reorders_def)
  ultimately show ?thesis
    using canon assms(2)
    by (cases r; cases "ir_status r"; cases "ir_binding r")
      (auto simp: record_decode_def invitation_record_value_def record_wf_def integer_u64_def fixed_value_def u64_max_def)
qed

lemma record_run_wf:
  assumes "\<And>x. length (cr_sha256 X x) = 32"
  shows "record_wf r \<Longrightarrow> record_wf (snd (record_run C X r cs))"
proof (induction cs arbitrary: r)
  case (Cons c cs)
  have "record_wf (snd (record_bind C X r m f x))" "record_wf (consume r)" for m f x
    using Cons.prems assms
    by (auto simp: record_bind_def attempt_binding_def bind_st_case bind_result_Ok record_wf_def consume_def spend_def
        split: result.splits invitation_status.splits)
  then show ?case using Cons.IH by (cases c) (simp_all add: Let_def)
qed simp

text \<open>
  C38: Invitation records are typed: a record that was created or restored and then went through any
  binds and consumptions has a 32-octet digest and carries a 32-octet binding exactly when it is bound.
  Such a record is restored unchanged from its stored octets, and octets that decode are exactly the
  stored form of the record they decode to.
\<close>

theorem invitation_record_typed:
  assumes law: "reads_back C" and digest: "\<And>x. length (cr_sha256 X x) = 32"
    and start: "r = record_new X i \<or> record_decode C stored = Ok r"
    and run: "r' = snd (record_run C X r cs)" and enc: "record_encode C r' = Ok bs"
  shows "record_wf r' \<and> record_decode C bs = Ok r' \<and>
    (record_decode C other = Ok r' \<longrightarrow> other = bs)"
proof -
  have "record_wf r"
    using start digest record_decode_Ok by (auto simp: record_new_def record_wf_def)
  then have wf: "record_wf r'" using record_run_wf[OF digest] run by simp
  moreover have "other = bs" if "record_decode C other = Ok r'"
    using record_decode_Ok[OF that] enc by (simp add: record_encode_def ok_or_def)
  ultimately show ?thesis using record_encode_decode[OF law wf enc] by blast
qed

section \<open>Witnesses\<close>

definition demo_endpoint_env :: "unit endpoint_env" where
  "demo_endpoint_env = \<lparr>en_codec = table_codec demo_invitation_table, en_crypto = demo_crypto,
     en_cbcl = demo_engine None,
     en_profile = \<lparr>pf_recognise_invitation = (\<lambda>_ _. Ok ()), pf_recognise_intent = (\<lambda>p _. (Err InvalidAction, p)),
       pf_recognise_payload = (\<lambda>_ _ _. Err InvalidPayload),
       pf_authorize_payload = (\<lambda>p _. (Err Unauthorized, p))\<rparr>\<rparr>"

definition demo_bound_record :: invitation_record where
  "demo_bound_record = \<lparr>ir_invitation_digest = cr_sha256 demo_crypto [20], ir_status = Bound, ir_binding = Some (replicate 32 1)\<rparr>"

lemma demo_endpoint_new:
  "\<exists>b s. bootstrap_new (demo_engine None) [] = Ok b \<and>
     endpoint_new demo_endpoint_env SideClaimant [20] demo_bound_record [] b (demo_pending SideClaimant) [] [] () = Ok s"
proof -
  have "decode_invitation (table_codec demo_invitation_table) [20] = Ok demo_invitation"
    by (simp add: demo_eval field_eval demo_invitation_table_def demo_invitation_def decode_invitation_def
        invitation_value_def validate_application_def validate_origin_def valid_application_id_def
        valid_relay_origin_def valid_dns_label_def is_ascii_def is_ascii_alphabetic_def
        is_ascii_alphanumeric_def is_ascii_digit_def char_code_def starts_with_def)
  then show ?thesis
    using demo_bootstrap_new[of None]
    by (simp add: endpoint_new_def demo_endpoint_env_def demo_bound_record_def demo_invitation_def
        validate_expected_role_keys_def key_mismatch_def expected_role_key_def)
qed

theorem grant_only_after_approval_witness:
  "\<exists>b s. bootstrap_new (demo_engine None) [] = Ok b \<and>
     endpoint_new demo_endpoint_env SideClaimant [20] demo_bound_record [] b (demo_pending SideClaimant) [] [] () = Ok s \<and>
     grants (fst (endpoint_run demo_endpoint_env s [CallDecide Approve, CallCancel])) \<le> 1"
proof -
  obtain b s where b: "bootstrap_new (demo_engine None) [] = Ok b"
    and s: "endpoint_new demo_endpoint_env SideClaimant [20] demo_bound_record [] b (demo_pending SideClaimant) [] [] () = Ok s"
    using demo_endpoint_new by blast
  obtain es t where run: "endpoint_run demo_endpoint_env s [CallDecide Approve, CallCancel] = (es, t)" by fastforce
  from grant_only_after_approval[OF s run] b s run show ?thesis by (metis fst_conv)
qed

theorem terminal_is_final_witness:
  "\<exists>b s t. bootstrap_new (demo_engine None) [] = Ok b \<and>
     endpoint_new demo_endpoint_env SideClaimant [20] demo_bound_record [] b (demo_pending SideClaimant) [] [] () = Ok s \<and>
     endpoint_run demo_endpoint_env s [CallCancel] = ([CloseMailbox], t) \<and> erased t \<and>
     endpoint_run demo_endpoint_env t [CallDecide Approve] = ([], t)"
proof -
  obtain b s where b: "bootstrap_new (demo_engine None) [] = Ok b"
    and s: "endpoint_new demo_endpoint_env SideClaimant [20] demo_bound_record [] b (demo_pending SideClaimant) [] [] () = Ok s"
    using demo_endpoint_new by blast
  then have run: "endpoint_run demo_endpoint_env s [CallCancel] = ([CloseMailbox], terminate_endpoint TrCancelled s)"
    using endpoint_new_Ok[OF s] by (simp add: emitted_by_def cancel_def ensure_live_def)
  from terminal_is_final[OF s run] b s run show ?thesis by (metis option.distinct(1) terminate_simps(1))
qed

definition demo_record_codec :: codec where
  "demo_record_codec = table_codec [(attempt_value (cr_sha256 demo_crypto [20]) [1] [2] [3], [50]),
     (attempt_value (cr_sha256 demo_crypto [20]) [1] [2] [4], [52]),
     (invitation_record_value \<lparr>ir_invitation_digest = cr_sha256 demo_crypto [20], ir_status = Bound,
        ir_binding = Some (cr_sha256 demo_crypto [50])\<rparr>, [51])]"

lemma demo_record_run:
  "record_run demo_record_codec demo_crypto (record_new demo_crypto [20]) [RcBind [1] [2] [3], RcBind [1] [2] [3]] =
     ([([1], [2], [3]), ([1], [2], [3])], \<lparr>ir_invitation_digest = cr_sha256 demo_crypto [20], ir_status = Bound,
        ir_binding = Some (cr_sha256 demo_crypto [50])\<rparr>)"
  by (simp add: demo_record_codec_def record_bind_def attempt_binding_def record_new_def table_codec_def attempt_value_def
      invitation_record_value_def Let_def)

lemma demo_record_law: "reads_back demo_record_codec"
  unfolding demo_record_codec_def by (rule table_codec_reads_back) simp

text \<open>A retry of the bound attempt is accepted; for an attempt with another context, whose hash differs,
  the theorem leaves no way to be accepted.\<close>

theorem invitation_serves_one_attempt_witness:
  "([1], [2], [3]) \<in> set (fst (record_run demo_record_codec demo_crypto (record_new demo_crypto [20])
       [RcBind [1] [2] [3], RcBind [1] [2] [3], RcBind [1] [2] [4]])) \<and>
   ([1], [2], [4]) \<notin> set (fst (record_run demo_record_codec demo_crypto (record_new demo_crypto [20])
       [RcBind [1] [2] [3], RcBind [1] [2] [3], RcBind [1] [2] [4]])) \<and>
   fst (record_run demo_record_codec demo_crypto (snd (record_run demo_record_codec demo_crypto (record_new demo_crypto [20])
       [RcBind [1] [2] [3], RcBind [1] [2] [3], RcBind [1] [2] [4], RcConsume])) [RcBind [1] [2] [3]]) = []"
proof -
  let ?run = "record_run demo_record_codec demo_crypto (record_new demo_crypto [20])"
  let ?cs = "[RcBind [1] [2] [3], RcBind [1] [2] [3], RcBind [1] [2] [4]]"
  have acc: "([1], [2], [3]) \<in> set (fst (?run ?cs))"
    by (simp add: demo_record_codec_def record_bind_def attempt_binding_def record_new_def table_codec_def attempt_value_def
        invitation_record_value_def Let_def)
  have "\<not> attempt_collision demo_record_codec demo_crypto [20] ([1], [2], [3]) ([1], [2], [4])"
    by (auto simp: attempt_collision_def demo_record_codec_def table_codec_def attempt_value_def demo_crypto_def numeral_eq_Suc)
  with invitation_serves_one_attempt[OF demo_record_law acc, of "[1]" "[2]" "[4]" "[]"]
  have "([1], [2], [4]) \<notin> set (fst (?run ?cs))" by auto
  with invitation_serves_one_attempt[OF demo_record_law acc acc, of "[RcBind [1] [2] [3]]"] acc show ?thesis
    unfolding append.simps by blast
qed

theorem invitation_record_typed_witness:
  "\<exists>r. record_wf r \<and> ir_status r = Bound \<and> record_decode demo_record_codec [51] = Ok r"
proof -
  let ?r = "\<lparr>ir_invitation_digest = cr_sha256 demo_crypto [20], ir_status = Bound,
        ir_binding = Some (cr_sha256 demo_crypto [50])\<rparr>"
  have digest: "length (cr_sha256 demo_crypto x) = 32" for x by (simp add: demo_crypto_def)
  have enc: "record_encode demo_record_codec ?r = Ok [51]"
    by (simp add: record_encode_def demo_record_codec_def table_codec_def attempt_value_def invitation_record_value_def)
  from invitation_record_typed[OF demo_record_law digest _ _ enc, of "record_new demo_crypto [20]" "[20]" "[]"
      "[RcBind [1] [2] [3], RcBind [1] [2] [3]]"] show ?thesis
    unfolding demo_record_run by auto
qed

end
