(* ===== verification/V2_Base.thy ===== *)
theory V2_Base
  imports Cpace Profile Wire_Props
begin

text \<open>
  The shared parts of the credential/v2 protocol: the errors and the CBOR recogniser of
  \<^verbatim>\<open>src/src/credential_v2/mod.rs\<close>, the padded objects of \<^verbatim>\<open>object.rs\<close> and the frames of
  \<^verbatim>\<open>frame.rs\<close>. The environment \<open>v2_env\<close> holds the functions that are outside the repository.
\<close>

section \<open>Environment and errors\<close>

text \<open>
  The base64url functions are those of \<^verbatim>\<open>base64ct\<close> into a buffer of the given size; the word
  list is the English list of \<^verbatim>\<open>bip39\<close>.
\<close>

record v2_env =
  vn_codec :: codec
  vn_crypto :: crypto
  vn_fiat :: fiat
  vn_x25519 :: "bytes \<Rightarrow> bytes \<Rightarrow> bytes"
  vn_hkdf_salted :: "bytes \<Rightarrow> bytes \<Rightarrow> bytes \<Rightarrow> nat \<Rightarrow> bytes option"
  vn_hmac_sha256 :: "bytes \<Rightarrow> (bytes \<Rightarrow> bytes) option"
  vn_url :: "string \<Rightarrow> full_url option"
  vn_base64_encode :: "nat \<Rightarrow> bytes \<Rightarrow> string option"
  vn_base64_decode :: "nat \<Rightarrow> string \<Rightarrow> bytes option"
  vn_word_list :: "string list"

datatype credential_v2_error =
    V2MalformedCbor
  | V2TrailingBytes
  | V2NonDeterministic
  | V2DuplicateKey
  | V2Schema
  | V2Origin
  | V2Cpace
  | V2KeySchedule
  | V2Finished
  | V2Direction
  | V2Counter
  | V2Authentication
  | V2Size
  | V2Terminal
  | V2Profile
  | V2Predecessor
  | V2Phase
  | V2Expired

type_synonym 'a v2_result = "('a, credential_v2_error) result"

abbreviation v2_sha256 :: "v2_env \<Rightarrow> bytes \<Rightarrow> bytes" where
  "v2_sha256 E \<equiv> cr_sha256 (vn_crypto E)"

section \<open>Recognising values\<close>

text \<open>The recursion is the one of \<^verbatim>\<open>wire.rs\<close>, with the error of this module.\<close>

definition contains_duplicate_map_key :: "codec \<Rightarrow> cbor \<Rightarrow> bool v2_result" where
  "contains_duplicate_map_key C v = map_err (\<lambda>_. V2NonDeterministic) (has_duplicate_key C v)"

definition decode_canonical :: "v2_env \<Rightarrow> bytes \<Rightarrow> cbor v2_result" where
  "decode_canonical E input =
     bind_result (ok_or V2MalformedCbor (cd_read (vn_codec E) input)) (\<lambda>(v, position).
       if position \<noteq> length input then Err V2TrailingBytes
       else bind_result (contains_duplicate_map_key (vn_codec E) v) (\<lambda>dup.
         if dup then Err V2DuplicateKey
         else bind_result (ok_or V2NonDeterministic (cd_canonical (vn_codec E) v)) (\<lambda>canonical.
           if canonical \<noteq> input then Err V2NonDeterministic else Ok v)))"

definition v2_map_entries :: "cbor \<Rightarrow> (cbor \<times> cbor) list v2_result" where
  "v2_map_entries v = (case v of CMap entries \<Rightarrow> Ok entries | _ \<Rightarrow> Err V2Schema)"

definition v2_field :: "(cbor \<times> cbor) list \<Rightarrow> cbor \<Rightarrow> cbor v2_result" where
  "v2_field entries key = ok_or V2Schema (map_of entries key)"

definition v2_optional_field :: "(cbor \<times> cbor) list \<Rightarrow> string \<Rightarrow> cbor option" where
  "v2_optional_field entries key = map_of entries (CText key)"

definition v2_text :: "cbor \<Rightarrow> string v2_result" where
  "v2_text v = (case v of CText t \<Rightarrow> Ok t | _ \<Rightarrow> Err V2Schema)"

definition v2_bytes :: "cbor \<Rightarrow> bytes v2_result" where
  "v2_bytes v = (case v of CBytes b \<Rightarrow> Ok b | _ \<Rightarrow> Err V2Schema)"

definition v2_fixed_bytes :: "nat \<Rightarrow> cbor \<Rightarrow> bytes v2_result" where
  "v2_fixed_bytes n v = bind_result (v2_bytes v) (\<lambda>b. if length b = n then Ok b else Err V2Schema)"

definition v2_uint :: "cbor \<Rightarrow> u64 v2_result" where
  "v2_uint v =
     (case v of CInteger i \<Rightarrow> if 0 \<le> i \<and> i \<le> int u64_max then Ok (nat i) else Err V2Schema
      | _ \<Rightarrow> Err V2Schema)"

definition v2_text_field :: "(cbor \<times> cbor) list \<Rightarrow> string \<Rightarrow> string v2_result" where
  "v2_text_field entries key = bind_result (v2_field entries (CText key)) v2_text"

definition v2_bytes_field :: "nat \<Rightarrow> (cbor \<times> cbor) list \<Rightarrow> string \<Rightarrow> bytes v2_result" where
  "v2_bytes_field n entries key = bind_result (v2_field entries (CText key)) (v2_fixed_bytes n)"

definition v2_uint_field :: "(cbor \<times> cbor) list \<Rightarrow> string \<Rightarrow> u64 v2_result" where
  "v2_uint_field entries key = bind_result (v2_field entries (CText key)) v2_uint"

definition v2_side_number :: "side \<Rightarrow> u64" where
  "v2_side_number s = (case s of SideAllocator \<Rightarrow> 0 | SideClaimant \<Rightarrow> 1)"

definition v2_side :: "cbor \<Rightarrow> side v2_result" where
  "v2_side v = bind_result (v2_uint v) (\<lambda>n.
     if n = 0 then Ok SideAllocator else if n = 1 then Ok SideClaimant else Err V2Schema)"

definition v2_canonical :: "v2_env \<Rightarrow> cbor \<Rightarrow> bytes v2_result" where
  "v2_canonical E v = ok_or V2Schema (cd_canonical (vn_codec E) v)"

section \<open>Objects\<close>

definition CONTROL_PADDING_BYTES :: nat where "CONTROL_PADDING_BYTES = 4096"

definition LARGE_PADDING_BYTES :: nat where "LARGE_PADDING_BYTES = 64512"

definition MAX_CONTROL_BODY :: nat where "MAX_CONTROL_BODY = 2048"

definition MAX_LARGE_BODY :: nat where "MAX_LARGE_BODY = 62000"

datatype v2_kind =
    Offer
  | IntentApprove
  | IntentDecline
  | Preparation
  | ComparisonConfirmed
  | BindingConfirmed
  | Refusal
  | FinalApprove
  | FinalDecline
  | Payload
  | Receipt
  | AccountSelect

definition ALL_KINDS :: "v2_kind list" where
  "ALL_KINDS = [Offer, IntentApprove, IntentDecline, Preparation, ComparisonConfirmed, BindingConfirmed,
     Refusal, FinalApprove, FinalDecline, Payload, Receipt, AccountSelect]"

fun kind_number :: "v2_kind \<Rightarrow> u8" where
  "kind_number Offer = 0"
| "kind_number IntentApprove = 1"
| "kind_number IntentDecline = 2"
| "kind_number Preparation = 3"
| "kind_number ComparisonConfirmed = 4"
| "kind_number BindingConfirmed = 5"
| "kind_number Refusal = 6"
| "kind_number FinalApprove = 7"
| "kind_number FinalDecline = 8"
| "kind_number Payload = 9"
| "kind_number Receipt = 10"
| "kind_number AccountSelect = 11"

definition is_large :: "v2_kind \<Rightarrow> bool" where
  "is_large k \<longleftrightarrow> k = Offer \<or> k = Payload \<or> k = Receipt"

definition kind_from_number :: "u64 \<Rightarrow> v2_kind v2_result" where
  "kind_from_number n = (if n < length ALL_KINDS then Ok (ALL_KINDS ! n) else Err V2Schema)"

record v2_object =
  ob_kind :: v2_kind
  ob_intent_digest :: bytes
  ob_body :: bytes
  ob_bytes :: bytes
  ob_content_hash :: bytes

definition capacity :: "v2_kind \<Rightarrow> nat" where
  "capacity k = (if is_large k then LARGE_PADDING_BYTES else CONTROL_PADDING_BYTES)"

definition validate_body :: "v2_kind \<Rightarrow> nat \<Rightarrow> unit v2_result" where
  "validate_body k len =
     (if len = 0 \<or> len > (if is_large k then MAX_LARGE_BODY else MAX_CONTROL_BODY) then Err V2Size else Ok ())"

definition padded_body :: "v2_kind \<Rightarrow> bytes \<Rightarrow> bytes" where
  "padded_body k body = body @ replicate (capacity k - length body) 0"

definition object_value :: "v2_kind \<Rightarrow> bytes \<Rightarrow> bytes \<Rightarrow> cbor" where
  "object_value k intent_digest body = CMap
     [(CInteger 0, CInteger 2), (CInteger 1, CInteger (int (kind_number k))),
      (CInteger 2, CBytes intent_digest), (CInteger 3, CInteger (int (length body))),
      (CInteger 4, CBytes (padded_body k body))]"

definition object_new :: "v2_env \<Rightarrow> v2_kind \<Rightarrow> bytes \<Rightarrow> bytes \<Rightarrow> v2_object v2_result" where
  "object_new E k intent_digest body =
     bind_result (validate_body k (length body)) (\<lambda>_.
     bind_result (v2_canonical E (object_value k intent_digest body)) (\<lambda>bs.
       Ok \<lparr>ob_kind = k, ob_intent_digest = intent_digest, ob_body = body, ob_bytes = bs,
           ob_content_hash = v2_sha256 E bs\<rparr>))"

definition decode_object :: "v2_env \<Rightarrow> bytes \<Rightarrow> v2_object v2_result" where
  "decode_object E input =
     bind_result (decode_canonical E input) (\<lambda>v.
     bind_result (v2_map_entries v) (\<lambda>entries.
     if length entries \<noteq> 5 then Err V2Schema
     else bind_result (bind_result (v2_field entries (CInteger 0)) v2_uint) (\<lambda>version.
     if version \<noteq> 2 then Err V2Schema
     else
       bind_result (bind_result (v2_field entries (CInteger 1)) v2_uint) (\<lambda>n.
       bind_result (kind_from_number n) (\<lambda>k.
       bind_result (bind_result (v2_field entries (CInteger 2)) (v2_fixed_bytes 32)) (\<lambda>intent_digest.
       bind_result (bind_result (v2_field entries (CInteger 3)) v2_uint) (\<lambda>body_len.
       bind_result (validate_body k body_len) (\<lambda>_.
       bind_result (bind_result (v2_field entries (CInteger 4)) v2_bytes) (\<lambda>padded.
       if length padded \<noteq> capacity k \<or> list_ex (\<lambda>b. b \<noteq> 0) (drop body_len padded) then Err V2Schema
       else bind_result (object_new E k intent_digest (take body_len padded)) (\<lambda>object.
         if ob_bytes object \<noteq> input then Err V2NonDeterministic else Ok object))))))))))"

section \<open>Frames\<close>

definition V2_MAX_CIPHERTEXT :: nat where "V2_MAX_CIPHERTEXT = 69572"

datatype v2_frame =
    FrCpace cpace_message
  | FrFinished side bytes
  | FrSealed direction u64 bytes

definition frame_cpace :: "cpace_message \<Rightarrow> v2_frame v2_result" where
  "frame_cpace message =
     (if cm_associated_data message = [] \<or> length (cm_associated_data message) > 256 then Err V2Size
      else Ok (FrCpace message))"

definition cpace_message_of :: "v2_frame \<Rightarrow> cpace_message option" where
  "cpace_message_of f = (case f of FrCpace message \<Rightarrow> Some message | _ \<Rightarrow> None)"

definition finished_of :: "v2_frame \<Rightarrow> (side \<times> bytes) option" where
  "finished_of f = (case f of FrFinished s v \<Rightarrow> Some (s, v) | _ \<Rightarrow> None)"

definition sealed_of :: "v2_frame \<Rightarrow> (direction \<times> u64 \<times> bytes) option" where
  "sealed_of f = (case f of FrSealed d n c \<Rightarrow> Some (d, n, c) | _ \<Rightarrow> None)"

definition nested_cpace_value :: "cpace_message \<Rightarrow> cbor" where
  "nested_cpace_value message = CArray [CInteger 2, CInteger (int (v2_side_number (cm_side message))),
     CBytes (cm_share message), CBytes (cm_associated_data message)]"

definition frame_value :: "v2_env \<Rightarrow> v2_frame \<Rightarrow> cbor v2_result" where
  "frame_value E f =
     (case f of
        FrCpace message \<Rightarrow>
          if cm_associated_data message = [] \<or> length (cm_associated_data message) > 256 then Err V2Size
          else bind_result (v2_canonical E (nested_cpace_value message)) (\<lambda>nested.
            Ok (cmap [(''v'', CInteger 2), (''kind'', CText ''cpace''),
              (''role'', CInteger (int (v2_side_number (cm_side message)))), (''message'', CBytes nested)]))
      | FrFinished s v \<Rightarrow>
          Ok (cmap [(''v'', CInteger 2), (''kind'', CText ''finished''),
            (''role'', CInteger (int (v2_side_number s))), (''value'', CBytes v)])
      | FrSealed d counter ciphertext \<Rightarrow>
          if \<not> (17 \<le> length ciphertext \<and> length ciphertext \<le> V2_MAX_CIPHERTEXT) then Err V2Size
          else Ok (cmap [(''v'', CInteger 2), (''kind'', CText ''sealed''),
            (''direction'', CInteger (int (direction_number d))), (''counter'', CInteger (int counter)),
            (''ciphertext'', CBytes ciphertext)]))"

definition encode_frame :: "v2_env \<Rightarrow> v2_frame \<Rightarrow> bytes v2_result" where
  "encode_frame E f = bind_result (frame_value E f) (v2_canonical E)"

definition v2_direction :: "cbor \<Rightarrow> direction v2_result" where
  "v2_direction v = bind_result (v2_uint v) (\<lambda>n.
     if n = 0 then Ok AllocatorToClaimant else if n = 1 then Ok ClaimantToAllocator else Err V2Schema)"

definition decode_cpace_frame :: "v2_env \<Rightarrow> (cbor \<times> cbor) list \<Rightarrow> v2_frame v2_result" where
  "decode_cpace_frame E entries =
     bind_result (bind_result (v2_field entries (CText ''role'')) v2_side) (\<lambda>outer_side.
     bind_result (bind_result (v2_field entries (CText ''message'')) v2_bytes) (\<lambda>nested_bytes.
     bind_result (decode_canonical E nested_bytes) (\<lambda>nested.
     case nested of
       CArray [version, role, share, ad] \<Rightarrow>
         bind_result (v2_side role) (\<lambda>nested_side.
         bind_result (v2_bytes ad) (\<lambda>associated_data.
         bind_result (v2_uint version) (\<lambda>ver.
         if ver \<noteq> 2 \<or> nested_side \<noteq> outer_side \<or> associated_data = [] \<or> length associated_data > 256
         then Err V2Schema
         else bind_result (v2_fixed_bytes 32 share) (\<lambda>sh.
           Ok (FrCpace \<lparr>cm_side = outer_side, cm_share = sh, cm_associated_data = associated_data\<rparr>)))))
     | _ \<Rightarrow> Err V2Schema)))"

definition decode_frame :: "v2_env \<Rightarrow> bytes \<Rightarrow> v2_frame v2_result" where
  "decode_frame E input =
     bind_result (decode_canonical E input) (\<lambda>v.
     bind_result (v2_map_entries v) (\<lambda>entries.
     bind_result (bind_result (v2_field entries (CText ''v'')) v2_uint) (\<lambda>version.
     bind_result (bind_result (v2_field entries (CText ''kind'')) v2_text) (\<lambda>k.
     if version \<noteq> 2 then Err V2Schema
     else
       bind_result
         (if k = ''cpace'' \<and> length entries = 4 then decode_cpace_frame E entries
          else if k = ''finished'' \<and> length entries = 4 then
            bind_result (bind_result (v2_field entries (CText ''role'')) v2_side) (\<lambda>s.
            bind_result (bind_result (v2_field entries (CText ''value'')) (v2_fixed_bytes 64)) (\<lambda>x.
              Ok (FrFinished s x)))
          else if k = ''sealed'' \<and> length entries = 5 then
            bind_result (bind_result (v2_field entries (CText ''ciphertext'')) v2_bytes) (\<lambda>ciphertext.
            if \<not> (17 \<le> length ciphertext \<and> length ciphertext \<le> V2_MAX_CIPHERTEXT) then Err V2Size
            else
              bind_result (bind_result (v2_field entries (CText ''direction'')) v2_direction) (\<lambda>d.
              bind_result (bind_result (v2_field entries (CText ''counter'')) v2_uint) (\<lambda>counter.
                Ok (FrSealed d counter ciphertext))))
          else Err V2Schema) (\<lambda>frame.
       bind_result (encode_frame E frame) (\<lambda>again.
         if again \<noteq> input then Err V2NonDeterministic else Ok frame))))))"

end
