(* ===== verification/V2_Text.thy ===== *)
theory V2_Text
  imports V2_Base
begin

text \<open>
  The consent display of \<^verbatim>\<open>src/src/credential_v2/display.rs\<close>: the bounded claims of a signed offer,
  their textual recognisers, and the check that turns one Offer object and the consumer's
  authority into a display. The consumer's parser and verifier are stateful parameters.
\<close>

section \<open>Limits\<close>

definition MAX_APPLICATION_ID_OCTETS :: nat where "MAX_APPLICATION_ID_OCTETS = 2048"
definition MAX_ORIGIN_OCTETS :: nat where "MAX_ORIGIN_OCTETS = 272"
definition MAX_PERMISSION_OCTETS :: nat where "MAX_PERMISSION_OCTETS = 128"
definition MAX_PERMISSIONS :: nat where "MAX_PERMISSIONS = 4"
definition MAX_ROOMS :: nat where "MAX_ROOMS = 256"
definition MAX_ROOM_OCTETS :: nat where "MAX_ROOM_OCTETS = 129"
definition MAX_ROOM_ARRAY_OCTETS :: nat where "MAX_ROOM_ARRAY_OCTETS = 33793"

section \<open>Text recognisers\<close>

definition is_lowercase :: "char \<Rightarrow> bool" where
  "is_lowercase c \<longleftrightarrow> 97 \<le> char_code c \<and> char_code c \<le> 122"

text \<open>\<^verbatim>\<open>str::rsplit_once\<close>: the parts before and after the last occurrence.\<close>

fun rsplit_once :: "char \<Rightarrow> string \<Rightarrow> (string \<times> string) option" where
  "rsplit_once sep [] = None"
| "rsplit_once sep (c # cs) =
     (case rsplit_once sep cs of
        Some (a, b) \<Rightarrow> Some (c # a, b)
      | None \<Rightarrow> if c = sep then Some ([], cs) else None)"

definition valid_label :: "string \<Rightarrow> bool" where
  "valid_label label \<longleftrightarrow> label \<noteq> [] \<and> length label \<le> 63 \<and> hd label \<noteq> CHR ''-'' \<and> last label \<noteq> CHR ''-'' \<and>
     list_all (\<lambda>c. is_lowercase c \<or> is_ascii_digit c \<or> c = CHR ''-'') label"

definition valid_host :: "string \<Rightarrow> bool" where
  "valid_host host =
     (if host = [] \<or> length host > 253 then False
      else
        let labels = split_on (CHR ''.'') host
        in list_all valid_label labels \<and> \<not> list_all is_ascii_digit (last labels))"

text \<open>\<^verbatim>\<open>parse::<u16>\<close> on a text of decimal digits.\<close>

definition decimal_value :: "string \<Rightarrow> nat" where
  "decimal_value s = foldl (\<lambda>n c. 10 * n + (char_code c - 48)) 0 s"

definition valid_port :: "string \<Rightarrow> bool" where
  "valid_port port =
     (if port = [] \<or> length port > 5 \<or> starts_with ''0'' port \<or> \<not> list_all is_ascii_digit port then False
      else decimal_value port \<le> u16_max \<and> decimal_value port \<noteq> 0 \<and> decimal_value port \<noteq> 443)"

definition hex :: "char \<Rightarrow> nat" where
  "hex c =
     (if 48 \<le> char_code c \<and> char_code c \<le> 57 then char_code c - 48
      else if 65 \<le> char_code c \<and> char_code c \<le> 70 then char_code c - 65 + 10
      else 0)"

definition is_unreserved :: "char \<Rightarrow> bool" where
  "is_unreserved c \<longleftrightarrow> is_ascii_alphanumeric c \<or> c \<in> set ''-._~''"

definition is_pchar :: "char \<Rightarrow> bool" where
  "is_pchar c \<longleftrightarrow> is_unreserved c \<or> c \<in> set ''!$&()*+,;=:@'' \<or> char_code c = 39"

definition upper_hex_digit :: "char \<Rightarrow> bool" where
  "upper_hex_digit c \<longleftrightarrow> is_ascii_digit c \<or> 65 \<le> char_code c \<and> char_code c \<le> 70"

fun valid_path :: "string \<Rightarrow> bool" where
  "valid_path [] = True"
| "valid_path (c # cs) =
     (if c = CHR ''%'' then
        (case cs of
           a # b # rest \<Rightarrow>
             upper_hex_digit a \<and> upper_hex_digit b \<and>
             \<not> is_unreserved (char_of (16 * hex a + hex b)) \<and> valid_path rest
         | _ \<Rightarrow> False)
      else if c \<noteq> CHR ''/'' \<and> \<not> is_pchar c then False
      else valid_path cs)"

definition split_https :: "string \<Rightarrow> (string \<times> string) v2_result" where
  "split_https s =
     (if \<not> is_ascii s \<or> list_ex (\<lambda>c. c = CHR ''?'' \<or> c = CHR ''#'') s then Err V2Origin
      else if \<not> starts_with ''https://'' s then Err V2Origin
      else
        let rest = drop (length ''https://'') s;
            authority = takeWhile (\<lambda>c. c \<noteq> CHR ''/'') rest
        in if authority = [] \<or> CHR ''@'' \<in> set authority then Err V2Origin
           else
             let (host, port) = (case rsplit_once (CHR '':'') authority of
                    Some (host, port) \<Rightarrow> (host, Some port)
                  | None \<Rightarrow> (authority, None))
             in if \<not> valid_host host \<or> (case port of None \<Rightarrow> False | Some p \<Rightarrow> \<not> valid_port p) then Err V2Origin
                else
                  let origin_len = length ''https://'' + length authority
                  in Ok (take origin_len s, drop origin_len s))"

definition recognise_application_id :: "string \<Rightarrow> string v2_result" where
  "recognise_application_id s =
     (if s = [] \<or> length s > MAX_APPLICATION_ID_OCTETS then Err V2Schema
      else bind_result (split_https s) (\<lambda>(origin, path).
        if path = [] \<or> \<not> starts_with ''/'' path \<or>
           list_ex (\<lambda>part. part = [] \<or> part = ''.'' \<or> part = ''..'') (split_on (CHR ''/'') (drop 1 path)) \<or>
           \<not> valid_path path
        then Err V2Schema else Ok origin))"

definition recognise_origin :: "string \<Rightarrow> nat \<Rightarrow> unit v2_result" where
  "recognise_origin s maximum =
     (if s = [] \<or> length s > maximum then Err V2Origin
      else bind_result (split_https s) (\<lambda>(origin, path).
        if origin \<noteq> s \<or> path \<noteq> [] then Err V2Origin else Ok ()))"

definition valid_legacy_handle :: "string \<Rightarrow> bool" where
  "valid_legacy_handle s =
     (case s of
        [] \<Rightarrow> False
      | c # rest \<Rightarrow> c = CHR ''@'' \<and> 1 \<le> length rest \<and> length rest \<le> 32 \<and>
          list_all (\<lambda>b. is_lowercase b \<or> is_ascii_digit b \<or> b \<in> set ''_-'') rest)"

definition valid_room :: "string \<Rightarrow> bool" where
  "valid_room s =
     (case s of
        [] \<Rightarrow> False
      | c # rest \<Rightarrow> c = CHR ''@'' \<and> rest \<noteq> [] \<and> is_ascii s \<and> length s \<le> MAX_ROOM_OCTETS \<and>
          list_all (\<lambda>b. is_ascii_alphanumeric b \<or> b \<in> set ''_-./!?+*<>=@'') rest)"

definition room_array_octets :: "string list \<Rightarrow> nat" where
  "room_array_octets rooms = 2 + sum_list (map (\<lambda>room. length room + 2) rooms) + (length rooms - 1)"

definition is_base58btc :: "char \<Rightarrow> bool" where
  "is_base58btc c \<longleftrightarrow>
     (let n = char_code c in
      49 \<le> n \<and> n \<le> 57 \<or> 65 \<le> n \<and> n \<le> 72 \<or> 74 \<le> n \<and> n \<le> 78 \<or> 80 \<le> n \<and> n \<le> 90 \<or>
      97 \<le> n \<and> n \<le> 107 \<or> 109 \<le> n \<and> n \<le> 122)"

text \<open>\<^verbatim>\<open>windows(2).any(|pair| pair[0].as_bytes() >= pair[1].as_bytes())\<close>, negated.\<close>

fun strictly_ascending :: "string list \<Rightarrow> bool" where
  "strictly_ascending (a # b # rest) \<longleftrightarrow> ascii a < ascii b \<and> strictly_ascending (b # rest)"
| "strictly_ascending _ \<longleftrightarrow> True"

section \<open>Claims\<close>

record account_provenance =
  ap_account_principal_digest :: bytes
  ap_account_scope_id :: bytes

record device_binding =
  db_device_did :: string
  db_device_key_digest :: bytes

datatype tofu_state = CeremonyGesture | NewPair | TrustedPair

record path_a_to_b_display =
  pd_legacy_handle :: string
  pd_legacy_key_digest :: bytes
  pd_migration_rooms :: "string list"
  pd_room_set_digest :: bytes
  pd_migration_snapshot_digest :: bytes
  pd_snapshot_nonce :: bytes

datatype v2_transition = NoTransition | PathAToB path_a_to_b_display

definition device_binding_validate :: "device_binding \<Rightarrow> unit v2_result" where
  "device_binding_validate b =
     (if \<not> starts_with ''did:key:z6Mk'' (db_device_did b) then Err V2Schema
      else
        let encoded = drop (length ''did:key:z6Mk'') (db_device_did b)
        in if length (db_device_did b) \<noteq> 56 \<or> length encoded \<noteq> 44 \<or> \<not> list_all is_base58btc encoded
           then Err V2Schema else Ok ())"

definition device_binding_new :: "string \<Rightarrow> bytes \<Rightarrow> device_binding v2_result" where
  "device_binding_new did digest =
     (let v = \<lparr>db_device_did = did, db_device_key_digest = digest\<rparr>
      in bind_result (device_binding_validate v) (\<lambda>_. Ok v))"

definition path_validate :: "path_a_to_b_display \<Rightarrow> unit v2_result" where
  "path_validate d =
     (if \<not> valid_legacy_handle (pd_legacy_handle d) \<or> length (pd_migration_rooms d) > MAX_ROOMS then Err V2Schema
      else if list_ex (\<lambda>room. \<not> valid_room room) (pd_migration_rooms d) \<or>
              \<not> strictly_ascending (pd_migration_rooms d) \<or>
              room_array_octets (pd_migration_rooms d) > MAX_ROOM_ARRAY_OCTETS
      then Err V2Schema
      else Ok ())"

definition path_a_to_b ::
  "string \<Rightarrow> bytes \<Rightarrow> string list \<Rightarrow> bytes \<Rightarrow> bytes \<Rightarrow> bytes \<Rightarrow> v2_transition v2_result" where
  "path_a_to_b handle key_digest rooms room_set snapshot nonce =
     (let d = \<lparr>pd_legacy_handle = handle, pd_legacy_key_digest = key_digest, pd_migration_rooms = rooms,
               pd_room_set_digest = room_set, pd_migration_snapshot_digest = snapshot, pd_snapshot_nonce = nonce\<rparr>
      in bind_result (path_validate d) (\<lambda>_. Ok (PathAToB d)))"

definition as_path_a_to_b :: "v2_transition \<Rightarrow> path_a_to_b_display option" where
  "as_path_a_to_b t = (case t of NoTransition \<Rightarrow> None | PathAToB d \<Rightarrow> Some d)"

definition transition_validate :: "v2_transition \<Rightarrow> unit v2_result" where
  "transition_validate t = (case t of NoTransition \<Rightarrow> Ok () | PathAToB d \<Rightarrow> path_validate d)"

record intent_claims =
  ic_application_id :: string
  ic_https_origin :: string
  ic_relay_origin :: string
  ic_carrier_ceremony_id :: bytes
  ic_account_provenance :: account_provenance
  ic_permissions :: "string list"
  ic_device_binding :: device_binding
  ic_transition :: v2_transition
  ic_offer_core_digest :: bytes

definition claims_validate :: "intent_claims \<Rightarrow> unit v2_result" where
  "claims_validate c =
     bind_result (recognise_application_id (ic_application_id c)) (\<lambda>origin.
     bind_result (recognise_origin (ic_https_origin c) MAX_ORIGIN_OCTETS) (\<lambda>_.
     bind_result (recognise_origin (ic_relay_origin c) MAX_ORIGIN_OCTETS) (\<lambda>_.
     if origin \<noteq> ic_https_origin c then Err V2Schema
     else if ic_permissions c = [] \<or> length (ic_permissions c) > MAX_PERMISSIONS \<or>
             list_ex (\<lambda>p. p = [] \<or> length p > MAX_PERMISSION_OCTETS) (ic_permissions c) \<or>
             \<not> strictly_ascending (ic_permissions c)
     then Err V2Schema
     else bind_result (device_binding_validate (ic_device_binding c)) (\<lambda>_.
       transition_validate (ic_transition c)))))"

definition claims_new :: "intent_claims \<Rightarrow> intent_claims v2_result" where
  "claims_new c = bind_result (claims_validate c) (\<lambda>_. Ok c)"

section \<open>Recognising an intent\<close>

record intent_input =
  ii_claims :: intent_claims
  ii_intent_digest :: bytes

record intent_authority =
  ia_claims :: intent_claims
  ia_tofu_state :: tofu_state
  ia_intent_digest :: bytes

record v2_display =
  vd_claims :: intent_claims
  vd_tofu_state :: tofu_state

definition credential_v2_intent_digest :: "v2_env \<Rightarrow> bytes \<Rightarrow> bytes" where
  "credential_v2_intent_digest E offer_core_digest =
     v2_sha256 E (ascii ''selfsame credential/v2 intent'' @ [0] @ offer_core_digest)"

definition authority_new :: "v2_env \<Rightarrow> intent_claims \<Rightarrow> tofu_state \<Rightarrow> intent_authority v2_result" where
  "authority_new E c t =
     bind_result (claims_validate c) (\<lambda>_.
       Ok \<lparr>ia_claims = c, ia_tofu_state = t,
           ia_intent_digest = credential_v2_intent_digest E (ic_offer_core_digest c)\<rparr>)"

text \<open>The consumer's parser and verifier, each over its own state.\<close>

record ('p, 'q) intent_ops =
  io_parse :: "'p \<Rightarrow> bytes \<Rightarrow> intent_claims v2_result \<times> 'p"
  io_verify :: "'q \<Rightarrow> intent_input \<Rightarrow> intent_authority \<Rightarrow> unit v2_result \<times> 'q"

definition recognise_credential_v2_intent ::
  "v2_env \<Rightarrow> ('p, 'q) intent_ops \<Rightarrow> v2_object \<Rightarrow> intent_authority \<Rightarrow> 'p \<times> 'q \<Rightarrow>
     v2_display v2_result \<times> ('p \<times> 'q)" where
  "recognise_credential_v2_intent E ops object authority = (\<lambda>(parser, verifier).
     if ob_kind object \<noteq> Offer then (Err V2Schema, (parser, verifier))
     else
       let (parsed, parser) = io_parse ops parser (ob_body object) in
       bind_st (parsed, (parser, verifier)) (\<lambda>c s.
       bind_st (map_err (\<lambda>_. V2Profile) (claims_validate c), s) (\<lambda>_ s.
       let intent_digest = credential_v2_intent_digest E (ic_offer_core_digest c) in
       if ob_intent_digest object \<noteq> intent_digest then (Err V2Profile, s)
       else if c \<noteq> ia_claims authority \<or> intent_digest \<noteq> ia_intent_digest authority then (Err V2Profile, s)
       else
         let (verdict, verifier) =
               io_verify ops (snd s) \<lparr>ii_claims = c, ii_intent_digest = intent_digest\<rparr> authority in
         bind_st (verdict, (fst s, verifier)) (\<lambda>_ s.
           (Ok \<lparr>vd_claims = ia_claims authority, vd_tofu_state = ia_tofu_state authority\<rparr>, s)))))"

end
