(* ===== verification/V2_Carrier.thy ===== *)
theory V2_Carrier
  imports V2_Text
begin

text \<open>
  The machine carrier (\<^verbatim>\<open>src/src/credential_v2/carrier.rs\<close>), the presence code typed by a person
  (\<^verbatim>\<open>presence.rs\<close>), the CPace and channel context (\<^verbatim>\<open>context.rs\<close>) and the claimant's account
  selection (\<^verbatim>\<open>account_select.rs\<close>).
\<close>

section \<open>Carriers\<close>

definition V2_PROFILE :: string where "V2_PROFILE = ''anuna.io/credential/v2''"

record v2_carrier =
  vc_application_context :: string
  vc_relay_origin :: string
  vc_mailbox_id :: bytes
  vc_carrier_ceremony_id :: bytes
  vc_carrier_nonce :: bytes
  vc_claim_commitment :: bytes
  vc_relay_expires_at :: u64
  vc_expected_allocator_key :: "bytes option"

definition v2_validate_origin :: "v2_env \<Rightarrow> string \<Rightarrow> nat \<Rightarrow> unit v2_result" where
  "v2_validate_origin E s maximum =
     (if s = [] \<or> length s > maximum \<or> \<not> is_ascii s then Err V2Origin
      else bind_result (ok_or V2Origin (vn_url E s)) (\<lambda>parsed.
        if url_scheme parsed \<noteq> ''https'' \<or> url_username parsed \<noteq> [] \<or> url_password parsed \<noteq> None \<or>
           url_query parsed \<noteq> None \<or> url_fragment parsed \<noteq> None \<or> url_path parsed \<noteq> ''/'' \<or>
           url_origin parsed \<noteq> s
        then Err V2Origin else Ok ()))"

definition carrier_entries :: "v2_carrier \<Rightarrow> (string \<times> cbor) list" where
  "carrier_entries c =
     [(''version'', CInteger 2), (''profile'', CText V2_PROFILE),
      (''application-context'', CText (vc_application_context c)), (''profile-version'', CInteger 2),
      (''relay-origin'', CText (vc_relay_origin c)), (''locator'', CBytes (vc_mailbox_id c)),
      (''carrier-ceremony-id'', CBytes (vc_carrier_ceremony_id c)),
      (''carrier-nonce'', CBytes (vc_carrier_nonce c)),
      (''claim-commitment'', CBytes (vc_claim_commitment c)),
      (''relay-expires-at'', CInteger (int (vc_relay_expires_at c)))] @
     (case vc_expected_allocator_key c of None \<Rightarrow> []
        | Some key \<Rightarrow> [(''expected-allocator-key'', CBytes key)])"

definition encode_carrier :: "v2_env \<Rightarrow> v2_carrier \<Rightarrow> bytes v2_result" where
  "encode_carrier E c =
     bind_result (recognise_application_id (vc_application_context c)) (\<lambda>_.
     bind_result (v2_validate_origin E (vc_relay_origin c) 272) (\<lambda>_.
       v2_canonical E (cmap (carrier_entries c))))"

definition carrier_new :: "v2_env \<Rightarrow> v2_carrier \<Rightarrow> v2_carrier v2_result" where
  "carrier_new E input =
     bind_result (recognise_application_id (vc_application_context input)) (\<lambda>_.
     bind_result (v2_validate_origin E (vc_relay_origin input) 272) (\<lambda>_.
     bind_result (encode_carrier E input) (\<lambda>_. Ok input)))"

definition carrier_digest :: "v2_env \<Rightarrow> v2_carrier \<Rightarrow> bytes v2_result" where
  "carrier_digest E c =
     (case encode_carrier E c of Ok bs \<Rightarrow> Ok (v2_sha256 E bs) | _ \<Rightarrow> Panic)"

definition decode_carrier :: "v2_env \<Rightarrow> bytes \<Rightarrow> v2_carrier v2_result" where
  "decode_carrier E input =
     bind_result (decode_canonical E input) (\<lambda>v.
     bind_result (v2_map_entries v) (\<lambda>entries.
     let expected_len = (if v2_optional_field entries ''expected-allocator-key'' \<noteq> None then 11 else 10) in
     if length entries \<noteq> expected_len then Err V2Schema
     else bind_result (v2_uint_field entries ''version'') (\<lambda>version.
     if version \<noteq> 2 then Err V2Schema
     else bind_result (v2_text_field entries ''profile'') (\<lambda>profile.
     if profile \<noteq> V2_PROFILE then Err V2Schema
     else bind_result (v2_uint_field entries ''profile-version'') (\<lambda>profile_version.
     if profile_version \<noteq> 2 then Err V2Schema
     else
       bind_result (v2_text_field entries ''application-context'') (\<lambda>application.
       bind_result (v2_text_field entries ''relay-origin'') (\<lambda>origin.
       bind_result (v2_bytes_field 32 entries ''locator'') (\<lambda>mailbox.
       bind_result (v2_bytes_field 32 entries ''carrier-ceremony-id'') (\<lambda>ceremony.
       bind_result (v2_bytes_field 32 entries ''carrier-nonce'') (\<lambda>nonce.
       bind_result (v2_bytes_field 32 entries ''claim-commitment'') (\<lambda>commitment.
       bind_result (v2_uint_field entries ''relay-expires-at'') (\<lambda>expires.
       bind_result (case v2_optional_field entries ''expected-allocator-key'' of
           None \<Rightarrow> Ok None
         | Some x \<Rightarrow> bind_result (v2_fixed_bytes 32 x) (\<lambda>key. Ok (Some key))) (\<lambda>key.
       bind_result (carrier_new E
         \<lparr>vc_application_context = application, vc_relay_origin = origin, vc_mailbox_id = mailbox,
          vc_carrier_ceremony_id = ceremony, vc_carrier_nonce = nonce, vc_claim_commitment = commitment,
          vc_relay_expires_at = expires, vc_expected_allocator_key = key\<rparr>) (\<lambda>carrier.
       bind_result (encode_carrier E carrier) (\<lambda>again.
         if again \<noteq> input then Err V2NonDeterministic else Ok carrier)))))))))))))))"

section \<open>Presence\<close>

record v2_presence =
  pr_cpace_secret :: bytes
  pr_claim_token :: "claim_token option"

definition presence_new :: "bytes \<Rightarrow> bytes \<Rightarrow> v2_presence" where
  "presence_new cpace_secret token = \<lparr>pr_cpace_secret = cpace_secret, pr_claim_token = Some token\<rparr>"

definition take_claim_token :: "v2_presence \<Rightarrow> claim_token v2_result \<times> v2_presence" where
  "take_claim_token p = (ok_or V2Terminal (pr_claim_token p), p\<lparr>pr_claim_token := None\<rparr>)"

definition presence_from_checkpoint :: "bytes \<Rightarrow> bytes option \<Rightarrow> v2_presence" where
  "presence_from_checkpoint cpace_secret token = \<lparr>pr_cpace_secret = cpace_secret, pr_claim_token = token\<rparr>"

section \<open>The presence code\<close>

definition PRESENCE_PREFIX :: string where "PRESENCE_PREFIX = ''PAIR1''"
definition PRESENCE_DOMAIN :: bytes where
  "PRESENCE_DOMAIN = ascii ''selfsame credential/v2 presence code'' @ [0]"
definition ALPHABET :: string where "ALPHABET = ''0123456789ABCDEFGHJKMNPQRSTVWXYZ''"
definition GROUPS :: nat where "GROUPS = 11"
definition GROUP_OCTETS :: nat where "GROUP_OCTETS = 5"
definition DATA_BITS :: nat where "DATA_BITS = 272"
definition ENCODED_BITS :: nat where "ENCODED_BITS = 275"

record presence_code =
  pk_cpace_secret :: bytes
  pk_claim_token :: bytes

definition into_presence :: "presence_code \<Rightarrow> v2_presence" where
  "into_presence k = presence_new (pk_cpace_secret k) (pk_claim_token k)"

definition bind_to_carrier :: "v2_env \<Rightarrow> presence_code \<Rightarrow> v2_carrier \<Rightarrow> presence_code v2_result" where
  "bind_to_carrier E k c =
     (if claim_commitment (v2_sha256 E) (vc_mailbox_id c) (pk_claim_token k) \<noteq> vc_claim_commitment c
      then Err V2Profile else Ok k)"

definition presence_payload :: "v2_env \<Rightarrow> presence_code \<Rightarrow> bytes" where
  "presence_payload E k =
     pk_cpace_secret k @ pk_claim_token k @
     take 2 (v2_sha256 E (PRESENCE_DOMAIN @ pk_cpace_secret k @ pk_claim_token k))"

text \<open>The bit at a position, the most significant bit of the first octet being position 0.\<close>

definition payload_bit :: "bytes \<Rightarrow> nat \<Rightarrow> bool" where
  "payload_bit payload position = bit (payload ! (position div 8)) (7 - position mod 8)"

definition symbol_value :: "bytes \<Rightarrow> nat \<Rightarrow> nat" where
  "symbol_value payload symbol =
     foldl (\<lambda>v b. let position = symbol * 5 + b in
        2 * v + (if position < DATA_BITS then of_bool (payload_bit payload position) else 0)) 0 [0..<5]"

definition presence_group :: "bytes \<Rightarrow> nat \<Rightarrow> string" where
  "presence_group payload g =
     map (\<lambda>offset. ALPHABET ! symbol_value payload (g * GROUP_OCTETS + offset)) [0..<GROUP_OCTETS]"

definition presence_to_string :: "v2_env \<Rightarrow> presence_code \<Rightarrow> string" where
  "presence_to_string E k =
     (let payload = presence_payload E k
      in PRESENCE_PREFIX @ concat (map (\<lambda>g. ''-'' @ presence_group payload g) [0..<GROUPS]))"

definition to_ascii_uppercase :: "string \<Rightarrow> string" where
  "to_ascii_uppercase s = map (\<lambda>c. if is_lowercase c then char_of (char_code c - 32) else c) s"

fun position_of :: "'a \<Rightarrow> 'a list \<Rightarrow> nat option" where
  "position_of x [] = None"
| "position_of x (y # ys) = (if x = y then Some 0 else map_option Suc (position_of x ys))"

definition store_bit :: "nat \<Rightarrow> nat \<Rightarrow> nat \<Rightarrow> bytes \<Rightarrow> bytes v2_result" where
  "store_bit symbol v b payload =
     (let position = symbol * 5 + b;
          is_set = bit v (4 - b)
      in if position < DATA_BITS then
           Ok (payload[position div 8 :=
             (payload ! (position div 8)) OR (push_bit (7 - position mod 8) (of_bool is_set))])
         else if position < ENCODED_BITS \<and> is_set then Err V2Schema
         else Ok payload)"

fun store_bits :: "nat \<Rightarrow> nat \<Rightarrow> nat list \<Rightarrow> bytes \<Rightarrow> bytes v2_result" where
  "store_bits symbol v [] payload = Ok payload"
| "store_bits symbol v (b # bs) payload =
     bind_result (store_bit symbol v b payload) (store_bits symbol v bs)"

fun store_symbols :: "nat \<Rightarrow> string \<Rightarrow> bytes \<Rightarrow> bytes v2_result" where
  "store_symbols symbol [] payload = Ok payload"
| "store_symbols symbol (c # cs) payload =
     bind_result (ok_or V2Schema (position_of c ALPHABET)) (\<lambda>v.
     bind_result (store_bits symbol v [0..<5] payload) (store_symbols (Suc symbol) cs))"

definition presence_from_str :: "v2_env \<Rightarrow> string \<Rightarrow> presence_code v2_result" where
  "presence_from_str E input =
     (if \<not> is_ascii input then Err V2Schema
      else
        case split_on (CHR ''-'') (to_ascii_uppercase input) of
          [] \<Rightarrow> Err V2Schema
        | first # groups \<Rightarrow>
            if first \<noteq> PRESENCE_PREFIX then Err V2Schema
            else if length groups \<noteq> GROUPS \<or> list_ex (\<lambda>g. length g \<noteq> GROUP_OCTETS) groups then Err V2Schema
            else bind_result (store_symbols 0 (concat groups) (replicate 34 0)) (\<lambda>payload.
              let k = \<lparr>pk_cpace_secret = take 16 payload, pk_claim_token = take 16 (drop 16 payload)\<rparr>
              in if drop 32 (presence_payload E k) \<noteq> drop 32 payload then Err V2Profile else Ok k))"

definition presence_display_code :: "v2_env \<Rightarrow> v2_presence \<Rightarrow> string option" where
  "presence_display_code E p =
     map_option (\<lambda>t. presence_to_string E \<lparr>pk_cpace_secret = pr_cpace_secret p, pk_claim_token = t\<rparr>)
       (pr_claim_token p)"

section \<open>The public context\<close>

record v2_context =
  cx_channel_identifier :: bytes
  cx_public_context :: bytes
  cx_session_id :: bytes
  cx_carrier_ceremony_id :: bytes
  cx_carrier_digest :: bytes
  cx_allocator_data :: bytes
  cx_claimant_data :: bytes

definition v2_associated_data :: "v2_env \<Rightarrow> side \<Rightarrow> bytes option \<Rightarrow> bytes \<Rightarrow> bytes \<Rightarrow> bytes v2_result" where
  "v2_associated_data E s expected_key profile_digest digest =
     v2_canonical E (CArray [CText ''cbcl-pairing-ad/credential-v2'', CText (side_name s),
       key_value expected_key, CBytes profile_digest, CBytes digest])"

definition v2_identifier_value :: "v2_carrier \<Rightarrow> bytes \<Rightarrow> bytes \<Rightarrow> cbor" where
  "v2_identifier_value c profile_digest digest =
     CArray [CText ''cbcl-pairing-ci/credential-v2'', CInteger 2, CText SUITE_ID, CText V2_PROFILE,
       CText (vc_application_context c), CBytes profile_digest, CBytes digest, CText (vc_relay_origin c),
       CBytes (vc_mailbox_id c), CBytes (vc_carrier_ceremony_id c), CBytes (vc_claim_commitment c),
       CArray [CText ''allocator'', CText ''claimant'']]"

definition v2_public_value :: "v2_carrier \<Rightarrow> bytes \<Rightarrow> bytes \<Rightarrow> cbor" where
  "v2_public_value c profile_digest digest =
     CArray [CText ''cbcl-pairing-public-context/credential-v2'', CInteger 2, CText SUITE_ID, CText V2_PROFILE,
       CText (vc_application_context c), CBytes profile_digest, CBytes digest, CText (vc_relay_origin c),
       CBytes (vc_mailbox_id c), CBytes (vc_carrier_ceremony_id c), CBytes (vc_claim_commitment c),
       key_value (vc_expected_allocator_key c), CNull]"

definition v2_derive :: "v2_env \<Rightarrow> v2_carrier \<Rightarrow> bytes \<Rightarrow> v2_context v2_result" where
  "v2_derive E c profile_digest =
     bind_result (carrier_digest E c) (\<lambda>digest.
     bind_result (v2_canonical E (v2_identifier_value c profile_digest digest)) (\<lambda>identifier.
     bind_result (v2_associated_data E SideAllocator (vc_expected_allocator_key c) profile_digest digest) (\<lambda>ada.
     bind_result (v2_associated_data E SideClaimant None profile_digest digest) (\<lambda>adb.
     bind_result (v2_canonical E (v2_public_value c profile_digest digest)) (\<lambda>public.
       Ok \<lparr>cx_channel_identifier = identifier, cx_public_context = public, cx_session_id = vc_mailbox_id c,
           cx_carrier_ceremony_id = vc_carrier_ceremony_id c, cx_carrier_digest = digest,
           cx_allocator_data = ada, cx_claimant_data = adb\<rparr>)))))"

definition v2_context_data :: "v2_context \<Rightarrow> side \<Rightarrow> bytes" where
  "v2_context_data x s = (case s of SideAllocator \<Rightarrow> cx_allocator_data x | SideClaimant \<Rightarrow> cx_claimant_data x)"

definition start_cpace ::
  "v2_env \<Rightarrow> v2_context \<Rightarrow> side \<Rightarrow> v2_presence \<Rightarrow> bytes \<Rightarrow> (cpace_state \<times> cpace_message) v2_result" where
  "start_cpace E x s p fresh_scalar =
     map_err (\<lambda>_. V2Cpace) (start_bound (vn_crypto E) (vn_fiat E) (vn_x25519 E) s (pr_cpace_secret p)
       (cx_channel_identifier x) (cx_session_id x) (v2_context_data x s) (v2_context_data x (other_side s))
       fresh_scalar)"

section \<open>Account selection\<close>

definition ACCOUNT_SELECT_DOMAIN :: string where "ACCOUNT_SELECT_DOMAIN = ''selfsame-account-select/v1''"

definition account_select_intent_digest :: "v2_env \<Rightarrow> bytes" where
  "account_select_intent_digest E =
     v2_sha256 E (ascii ''cbcl-pairing credential/v2 account-select intent/v1'')"

record account_select =
  as_carrier_ceremony_id :: bytes
  as_application_id :: string
  as_account_scope :: "bytes option"

definition select_new :: "bytes \<Rightarrow> string \<Rightarrow> bytes option \<Rightarrow> account_select v2_result" where
  "select_new ceremony application scope =
     (if application = [] \<or> length application > 2048 then Err V2Schema
      else Ok \<lparr>as_carrier_ceremony_id = ceremony, as_application_id = application, as_account_scope = scope\<rparr>)"

definition select_value :: "account_select \<Rightarrow> cbor" where
  "select_value a =
     CArray [CText ACCOUNT_SELECT_DOMAIN, CBytes (as_carrier_ceremony_id a), CText (as_application_id a),
       (case as_account_scope a of None \<Rightarrow> CArray [CInteger 0]
          | Some scope \<Rightarrow> CArray [CInteger 1, CBytes scope])]"

definition select_encode :: "v2_env \<Rightarrow> account_select \<Rightarrow> bytes v2_result" where
  "select_encode E a = expect (cd_canonical (vn_codec E) (select_value a))"

definition select_scope :: "cbor list \<Rightarrow> bytes option v2_result" where
  "select_scope selection =
     (case selection of
        [tag] \<Rightarrow> bind_result (v2_uint tag) (\<lambda>t. if t = 0 then Ok None else Err V2Schema)
      | [tag, scope] \<Rightarrow> bind_result (v2_uint tag) (\<lambda>t.
          if t = 1 then bind_result (v2_fixed_bytes 32 scope) (\<lambda>s. Ok (Some s)) else Err V2Schema)
      | _ \<Rightarrow> Err V2Schema)"

definition select_decode :: "v2_env \<Rightarrow> bytes \<Rightarrow> account_select v2_result" where
  "select_decode E body =
     bind_result (decode_canonical E body) (\<lambda>v.
     case v of
       CArray [domain, ceremony, application, selection] \<Rightarrow>
         if domain \<noteq> CText ACCOUNT_SELECT_DOMAIN then Err V2Schema
         else
           bind_result (v2_fixed_bytes 32 ceremony) (\<lambda>ceremony_id.
           bind_result (v2_text application) (\<lambda>application_id.
           case selection of
             CArray items \<Rightarrow> bind_result (select_scope items) (\<lambda>scope. select_new ceremony_id application_id scope)
           | _ \<Rightarrow> Err V2Schema))
     | _ \<Rightarrow> Err V2Schema)"

definition select_object :: "v2_env \<Rightarrow> account_select \<Rightarrow> v2_object v2_result" where
  "select_object E a =
     bind_result (select_encode E a) (\<lambda>body. object_new E AccountSelect (account_select_intent_digest E) body)"

definition select_recognise :: "v2_env \<Rightarrow> v2_object \<Rightarrow> bytes \<Rightarrow> string \<Rightarrow> account_select v2_result" where
  "select_recognise E object ceremony application =
     (if ob_kind object \<noteq> AccountSelect \<or> ob_intent_digest object \<noteq> account_select_intent_digest E then Err V2Schema
      else bind_result (select_decode E (ob_body object)) (\<lambda>selection.
        if as_carrier_ceremony_id selection \<noteq> ceremony \<or> as_application_id selection \<noteq> application
        then Err V2Profile else Ok selection))"

end
