(* ===== verification/V2_Channel.thy ===== *)
theory V2_Channel
  imports V2_Carrier Channel_Duplex
begin

text \<open>
  The credential/v2 secure channel of \<^verbatim>\<open>src/src/credential_v2/channel.rs\<close> and the relay projection
  (\<^verbatim>\<open>CredentialV2RelayState\<close> of \<^verbatim>\<open>bootstrap.rs\<close>). Pending and confirmed channels have the fields of
  \<^verbatim>\<open>channel.rs\<close>, so the records \<open>pending_channel\<close> and \<open>secure_channel\<close> are used for both versions.
\<close>

section \<open>Key schedule\<close>

definition v2_aad_value :: "direction \<Rightarrow> u64 \<Rightarrow> bytes \<Rightarrow> cbor" where
  "v2_aad_value d counter transcript_hash = cmap
     [(''v'', CInteger 2), (''direction'', CInteger (int (direction_number d))),
      (''counter'', CInteger (int counter)), (''th'', CBytes transcript_hash)]"

definition v2_sealed_aad :: "v2_env \<Rightarrow> direction \<Rightarrow> u64 \<Rightarrow> bytes \<Rightarrow> bytes v2_result" where
  "v2_sealed_aad E d counter transcript_hash = v2_canonical E (v2_aad_value d counter transcript_hash)"

definition v2_transcript_hash :: "v2_env \<Rightarrow> bytes \<Rightarrow> bytes \<Rightarrow> bytes \<Rightarrow> bytes v2_result" where
  "v2_transcript_hash E public_context allocator_frame claimant_frame =
     bind_result (v2_canonical E (transcript_value public_context allocator_frame claimant_frame))
       (\<lambda>transcript. Ok (cr_sha512 (vn_crypto E) transcript))"

definition v2_expand :: "v2_env \<Rightarrow> bytes \<Rightarrow> nat \<Rightarrow> string \<Rightarrow> bytes \<Rightarrow> bytes v2_result" where
  "v2_expand E isk len label transcript_hash =
     ok_or V2KeySchedule (cr_hkdf (vn_crypto E) isk (ascii label @ transcript_hash) len)"

definition v2_finished :: "v2_env \<Rightarrow> bytes \<Rightarrow> string \<Rightarrow> bytes \<Rightarrow> bytes v2_result" where
  "v2_finished E key label transcript_hash =
     bind_result (ok_or V2KeySchedule (cr_hmac (vn_crypto E) key)) (\<lambda>mac.
       Ok (mac (ascii label @ transcript_hash)))"

definition v2_new_pending ::
  "v2_env \<Rightarrow> side \<Rightarrow> bytes \<Rightarrow> bytes \<Rightarrow> bytes \<Rightarrow> bytes \<Rightarrow> pending_channel v2_result" where
  "v2_new_pending E local_side isk public_context allocator_frame claimant_frame =
     bind_result (v2_transcript_hash E public_context allocator_frame claimant_frame) (\<lambda>th.
     bind_result (v2_expand E isk 32 ''pairing-credential-v2 kc A'' th) (\<lambda>kc_allocator.
     bind_result (v2_expand E isk 32 ''pairing-credential-v2 kc B'' th) (\<lambda>kc_claimant.
     bind_result (v2_finished E kc_allocator ''pairing-credential-v2 finished A'' th) (\<lambda>allocator_finished.
     bind_result (v2_finished E kc_claimant ''pairing-credential-v2 finished B'' th) (\<lambda>claimant_finished.
     bind_result (v2_expand E isk 32 ''pairing-credential-v2 key A-B'' th) (\<lambda>key_ab.
     bind_result (v2_expand E isk 32 ''pairing-credential-v2 key B-A'' th) (\<lambda>key_ba.
     bind_result (v2_expand E isk 12 ''pairing-credential-v2 iv A-B'' th) (\<lambda>iv_ab.
     bind_result (v2_expand E isk 12 ''pairing-credential-v2 iv B-A'' th) (\<lambda>iv_ba.
     bind_result (v2_expand E isk 32 ''pairing-credential-v2 exporter'' th) (\<lambda>exporter.
       let (local, peer) = (case local_side of
             SideAllocator \<Rightarrow> (allocator_finished, claimant_finished)
           | SideClaimant \<Rightarrow> (claimant_finished, allocator_finished))
       in Ok \<lparr>pn_local_side = local_side, pn_transcript_hash = th,
              pn_local_finished = local, pn_peer_finished = peer,
              pn_secrets = \<lparr>key_allocator_to_claimant = key_ab, key_claimant_to_allocator = key_ba,
                 iv_allocator_to_claimant = iv_ab, iv_claimant_to_allocator = iv_ba,
                 ps_exporter = exporter\<rparr>\<rparr>))))))))))"

definition v2_finished_frame :: "pending_channel \<Rightarrow> v2_frame" where
  "v2_finished_frame p = FrFinished (pn_local_side p) (pn_local_finished p)"

definition v2_confirm :: "pending_channel \<Rightarrow> v2_frame \<Rightarrow> secure_channel v2_result" where
  "v2_confirm p peer_finished_frame =
     bind_result (ok_or V2Finished (finished_of peer_finished_frame)) (\<lambda>(peer_side, peer_finished).
     if peer_side = pn_local_side p \<or> pn_peer_finished p \<noteq> peer_finished then Err V2Finished
     else
       let s = pn_secrets p;
           (send_key, receive_key, send_iv, receive_iv) =
             (case pn_local_side p of
                SideAllocator \<Rightarrow>
                  (key_allocator_to_claimant s, key_claimant_to_allocator s,
                   iv_allocator_to_claimant s, iv_claimant_to_allocator s)
              | SideClaimant \<Rightarrow>
                  (key_claimant_to_allocator s, key_allocator_to_claimant s,
                   iv_claimant_to_allocator s, iv_allocator_to_claimant s))
       in Ok \<lparr>sc_local_side = pn_local_side p, sc_transcript_hash = pn_transcript_hash p,
              sc_send_key = send_key, sc_receive_key = receive_key, sc_send_iv = send_iv,
              sc_receive_iv = receive_iv, sc_exporter = ps_exporter s,
              sc_next_send_counter = Some 0, sc_next_receive_counter = Some 0,
              sc_terminal = False\<rparr>)"

section \<open>Sealing and opening\<close>

definition V2_MAX_PLAINTEXT :: nat where "V2_MAX_PLAINTEXT = 69556"

definition can_seal :: "secure_channel \<Rightarrow> bytes \<Rightarrow> unit v2_result" where
  "can_seal ch plaintext =
     (if sc_terminal ch then Err V2Terminal
      else if plaintext = [] \<or> length plaintext > V2_MAX_PLAINTEXT then Err V2Size
      else bind_result (ok_or V2Counter (sc_next_send_counter ch)) (\<lambda>_. Ok ()))"

definition v2_channel_fail :: "secure_channel \<Rightarrow> credential_v2_error \<Rightarrow> 'a v2_result \<times> secure_channel" where
  "v2_channel_fail ch e = (Err e, ch\<lparr>sc_terminal := True\<rparr>)"

definition v2_seal :: "v2_env \<Rightarrow> secure_channel \<Rightarrow> bytes \<Rightarrow> v2_frame v2_result \<times> secure_channel" where
  "v2_seal E ch plaintext =
     bind_st (can_seal ch plaintext, ch) (\<lambda>_ ch.
     bind_st (ok_or V2Counter (sc_next_send_counter ch), ch) (\<lambda>counter ch.
     let d = send_direction (sc_local_side ch) in
     bind_st (v2_sealed_aad E d counter (sc_transcript_hash ch), ch) (\<lambda>aad ch.
     let nonce = derive_nonce (sc_send_iv ch) counter in
     bind_st (ok_or V2KeySchedule (cr_cipher (vn_crypto E) (sc_send_key ch)), ch) (\<lambda>cipher ch.
     bind_st (ok_or V2Authentication (ae_encrypt cipher nonce plaintext aad), ch) (\<lambda>ciphertext ch.
       (Ok (FrSealed d counter ciphertext),
        ch\<lparr>sc_next_send_counter := checked_add_u64 counter 1\<rparr>))))))"

definition v2_open :: "v2_env \<Rightarrow> secure_channel \<Rightarrow> v2_frame \<Rightarrow> bytes v2_result \<times> secure_channel" where
  "v2_open E ch frame =
     (if sc_terminal ch then (Err V2Terminal, ch)
      else case sealed_of frame of
        None \<Rightarrow> v2_channel_fail ch V2Schema
      | Some (d, counter, ciphertext) \<Rightarrow>
          (if d \<noteq> receive_direction (sc_local_side ch) then v2_channel_fail ch V2Direction
           else case sc_next_receive_counter ch of
             None \<Rightarrow> v2_channel_fail ch V2Counter
           | Some expected \<Rightarrow>
               if counter \<noteq> expected then v2_channel_fail ch V2Counter
               else if \<not> (17 \<le> length ciphertext \<and> length ciphertext \<le> V2_MAX_PLAINTEXT + 16)
               then v2_channel_fail ch V2Size
               else
                 bind_st (v2_sealed_aad E d counter (sc_transcript_hash ch), ch) (\<lambda>aad ch.
                 let nonce = derive_nonce (sc_receive_iv ch) counter in
                 bind_st (ok_or V2KeySchedule (cr_cipher (vn_crypto E) (sc_receive_key ch)), ch) (\<lambda>cipher ch.
                 case ae_decrypt cipher nonce ciphertext aad of
                   None \<Rightarrow> v2_channel_fail ch V2Authentication
                 | Some plaintext \<Rightarrow>
                     (Ok plaintext, ch\<lparr>sc_next_receive_counter := checked_add_u64 counter 1\<rparr>)))))"

definition receipt_recovery_token :: "v2_env \<Rightarrow> secure_channel \<Rightarrow> bytes v2_result" where
  "receipt_recovery_token E ch =
     bind_result (ok_or V2KeySchedule (vn_hmac_sha256 E (sc_exporter ch))) (\<lambda>mac.
       Ok (mac (ascii ''selfsame credential/v2 receipt recovery token v1'' @ [0] @ sc_transcript_hash ch)))"

definition receipt_recovery_commitment :: "v2_env \<Rightarrow> secure_channel \<Rightarrow> v2_carrier \<Rightarrow> bytes v2_result" where
  "receipt_recovery_commitment E ch c =
     bind_result (receipt_recovery_token E ch) (\<lambda>token.
       Ok (v2_sha256 E (ascii ''selfsame credential/v2 receipt recovery commitment v1'' @ [0] @ token @
         vc_carrier_ceremony_id c @ ascii (vc_application_context c))))"

section \<open>The relay projection\<close>

record v2_relay =
  rs_membership_token :: bytes
  rs_next_local_sequence :: u8
  rs_next_peer_sequence :: u8
  rs_awaiting_ack :: bool
  rs_cached_outbound :: "v2_frame option"

definition relay_state_new :: "bytes \<Rightarrow> v2_relay" where
  "relay_state_new token = \<lparr>rs_membership_token = token, rs_next_local_sequence = 0,
     rs_next_peer_sequence = 0, rs_awaiting_ack = False, rs_cached_outbound = None\<rparr>"

definition next_u8 :: "u8 \<Rightarrow> u8 v2_result" where
  "next_u8 n = ok_or V2Counter (try_into u8_max (n + 1))"

definition last_sent :: "v2_relay \<Rightarrow> u8 option" where
  "last_sent r = (if rs_next_local_sequence r = 0 then None else Some (rs_next_local_sequence r - 1))"

definition accept_peer_sequence :: "v2_relay \<Rightarrow> u8 \<Rightarrow> unit v2_result \<times> v2_relay" where
  "accept_peer_sequence r seq =
     (if seq \<noteq> rs_next_peer_sequence r then (Err V2Counter, r)
      else bind_st (next_u8 (rs_next_peer_sequence r), r) (\<lambda>n r. (Ok (), r\<lparr>rs_next_peer_sequence := n\<rparr>)))"

definition queue_bootstrap_frame :: "v2_relay \<Rightarrow> u8 v2_result \<times> v2_relay" where
  "queue_bootstrap_frame r =
     (if rs_awaiting_ack r \<or> rs_cached_outbound r \<noteq> None then (Err V2Phase, r)
      else bind_st (next_u8 (rs_next_local_sequence r), r) (\<lambda>n r.
        (Ok (rs_next_local_sequence r), r\<lparr>rs_next_local_sequence := n, rs_awaiting_ack := True\<rparr>)))"

definition acknowledge_bootstrap_frame :: "v2_relay \<Rightarrow> u8 \<Rightarrow> unit v2_result \<times> v2_relay" where
  "acknowledge_bootstrap_frame r seq =
     bind_st (ok_or V2Counter (last_sent r), r) (\<lambda>expected r.
     if \<not> rs_awaiting_ack r \<or> seq \<noteq> expected \<or> rs_cached_outbound r \<noteq> None then (Err V2Counter, r)
     else (Ok (), r\<lparr>rs_awaiting_ack := False\<rparr>))"

definition acknowledgement_already_applied :: "v2_relay \<Rightarrow> u8 \<Rightarrow> bool" where
  "acknowledgement_already_applied r seq =
     (case last_sent r of None \<Rightarrow> False
      | Some n \<Rightarrow> seq < n \<or> (seq = n \<and> \<not> rs_awaiting_ack r))"

definition cache_application_frame :: "v2_relay \<Rightarrow> v2_frame \<Rightarrow> unit v2_result \<times> v2_relay" where
  "cache_application_frame r frame =
     (if rs_awaiting_ack r \<or> sealed_of frame = None then (Err V2Phase, r)
      else bind_st (next_u8 (rs_next_local_sequence r), r) (\<lambda>n r.
        (Ok (), r\<lparr>rs_next_local_sequence := n, rs_cached_outbound := Some frame, rs_awaiting_ack := True\<rparr>)))"

definition cached_application_sequence :: "v2_relay \<Rightarrow> u8 v2_result" where
  "cached_application_sequence r =
     (if \<not> rs_awaiting_ack r \<or> rs_cached_outbound r = None then Err V2Phase
      else ok_or V2Counter (last_sent r))"

definition cached_bootstrap_sequence :: "v2_relay \<Rightarrow> u8 option v2_result" where
  "cached_bootstrap_sequence r =
     (if rs_cached_outbound r \<noteq> None then Err V2Phase
      else if \<not> rs_awaiting_ack r then Ok None
      else bind_result (ok_or V2Counter (last_sent r)) (\<lambda>n. Ok (Some n)))"

definition acknowledge_application_frame :: "v2_relay \<Rightarrow> u8 \<Rightarrow> unit v2_result \<times> v2_relay" where
  "acknowledge_application_frame r seq =
     bind_st (cached_application_sequence r, r) (\<lambda>expected r.
     if expected \<noteq> seq then (Err V2Counter, r)
     else (Ok (), r\<lparr>rs_cached_outbound := None, rs_awaiting_ack := False\<rparr>))"

end
