(* ===== verification/V2_Endpoint.thy ===== *)
theory V2_Endpoint
  imports V2_Channel
begin

text \<open>
  The credential/v2 endpoint reducer of \<^verbatim>\<open>src/src/credential_v2/endpoint.rs\<close>. The consumer's body
  verifier is a parameter: a record of its three operations over a state \<open>'v\<close> that the endpoint
  carries. Every method returns its result together with the endpoint after the call.
\<close>

section \<open>State\<close>

datatype v2_phase =
    PhBegin
  | PhAccountSelected
  | PhOffered
  | PhIntentApproved
  | PhPrepared
  | PhConfirmed
  | PhFinalApproved
  | PhPayloadSent
  | PhTerminal

datatype v2_advance =
    Advanced
  | AdvDisplayIntent v2_display
  | ExactRetransmission

record logical_body =
  lb_kind :: v2_kind
  lb_carrier_ceremony_id :: bytes
  lb_predecessor_digest :: bytes
  lb_bytes :: bytes

record 'v body_verifier =
  bv_verify :: "'v \<Rightarrow> logical_body \<Rightarrow> unit v2_result \<times> 'v"
  bv_checkpoint_state :: "'v \<Rightarrow> bytes v2_result"
  bv_restore_checkpoint_state :: "'v \<Rightarrow> bytes \<Rightarrow> unit v2_result \<times> 'v"

text \<open>The trait's default methods, for a verifier without state of its own.\<close>

definition default_checkpoint_state :: "'v \<Rightarrow> bytes v2_result" where
  "default_checkpoint_state v = Ok []"

definition default_restore_checkpoint_state :: "'v \<Rightarrow> bytes \<Rightarrow> unit v2_result \<times> 'v" where
  "default_restore_checkpoint_state v st = (if st = [] then Ok () else Err V2Schema, v)"

record recovered_authority =
  ra_application_context :: string
  ra_carrier_ceremony_id :: bytes
  ra_intent_digest :: bytes
  ra_payload_content_hash :: bytes
  ra_final_status_digest :: bytes
  ra_receipt_body_digest :: bytes

record last_object =
  lo_sender :: side
  lo_bytes :: "bytes option"
  lo_kind :: v2_kind
  lo_intent_digest :: bytes
  lo_content_hash :: bytes

record 'v v2_endpoint =
  e2_side :: side
  e2_carrier :: v2_carrier
  e2_phase :: v2_phase
  e2_intent_digest :: "bytes option"
  e2_last :: "last_object option"
  e2_body_verifier :: 'v
  e2_checkpoint_generation :: u64
  e2_checkpoint_nonce :: "bytes option"

definition v2_endpoint_new :: "side \<Rightarrow> v2_carrier \<Rightarrow> 'v \<Rightarrow> 'v v2_endpoint" where
  "v2_endpoint_new s c v = \<lparr>e2_side = s, e2_carrier = c, e2_phase = PhBegin, e2_intent_digest = None,
     e2_last = None, e2_body_verifier = v, e2_checkpoint_generation = 0, e2_checkpoint_nonce = None\<rparr>"

section \<open>Bodies\<close>

definition valid_compact_jws :: "string \<Rightarrow> bool" where
  "valid_compact_jws s =
     (let parts = split_on (CHR ''.'') s
      in length parts = 3 \<and>
         list_all (\<lambda>part. part \<noteq> [] \<and>
           list_all (\<lambda>b. is_ascii_alphanumeric b \<or> b \<in> set ''-_'') part) parts)"

definition validate_receipt :: "(cbor \<times> cbor) list \<Rightarrow> unit v2_result" where
  "validate_receipt entries =
     (if length entries \<noteq> 4 then Err V2Schema
      else
        bind_result (v2_text_field entries ''finalStatusJws'') (\<lambda>jws.
        bind_result (v2_bytes_field 32 entries ''finalStatusDigest'') (\<lambda>_.
        if \<not> (1 \<le> length jws \<and> length jws \<le> 8192) \<or> \<not> valid_compact_jws jws then Err V2Schema
        else Ok ())))"

definition recognise_logical_body :: "v2_env \<Rightarrow> v2_object \<Rightarrow> logical_body v2_result" where
  "recognise_logical_body E object =
     (if ob_kind object = Offer then Err V2Schema
      else
        bind_result (decode_canonical E (ob_body object)) (\<lambda>v.
        bind_result (v2_map_entries v) (\<lambda>entries.
        bind_result (v2_bytes_field 32 entries ''carrierCeremonyId'') (\<lambda>ceremony.
        bind_result (v2_bytes_field 32 entries ''predecessorDigest'') (\<lambda>predecessor.
        bind_result (if ob_kind object = Receipt then validate_receipt entries else Ok ()) (\<lambda>_.
          Ok \<lparr>lb_kind = ob_kind object, lb_carrier_ceremony_id = ceremony,
              lb_predecessor_digest = predecessor, lb_bytes = ob_body object\<rparr>))))))"

definition receipt_final_status_digest :: "v2_env \<Rightarrow> bytes \<Rightarrow> bytes v2_result" where
  "receipt_final_status_digest E input =
     bind_result (decode_canonical E input) (\<lambda>v.
     bind_result (v2_map_entries v) (\<lambda>entries.
     bind_result (validate_receipt entries) (\<lambda>_.
       v2_bytes_field 32 entries ''finalStatusDigest'')))"

section \<open>The phase machine\<close>

fun v2_valid_sender :: "v2_kind \<Rightarrow> side \<Rightarrow> bool" where
  "v2_valid_sender Refusal sender = True"
| "v2_valid_sender k sender =
     (if k \<in> {Offer, ComparisonConfirmed, BindingConfirmed, Receipt} then sender = SideAllocator
      else sender = SideClaimant)"

definition pre_offer :: "v2_phase \<Rightarrow> bool" where
  "pre_offer p \<longleftrightarrow> p = PhBegin \<or> p = PhAccountSelected"

definition next_phase :: "v2_phase \<Rightarrow> v2_kind \<Rightarrow> v2_phase option" where
  "next_phase p k =
     (if k = Refusal \<and> p \<noteq> PhPayloadSent then Some PhTerminal
      else case (p, k) of
        (PhOffered, IntentApprove) \<Rightarrow> Some PhIntentApproved
      | (PhOffered, IntentDecline) \<Rightarrow> Some PhTerminal
      | (PhConfirmed, FinalDecline) \<Rightarrow> Some PhTerminal
      | (PhIntentApproved, Preparation) \<Rightarrow> Some PhPrepared
      | (PhPrepared, ComparisonConfirmed) \<Rightarrow> Some PhConfirmed
      | (PhPrepared, BindingConfirmed) \<Rightarrow> Some PhConfirmed
      | (PhConfirmed, FinalApprove) \<Rightarrow> Some PhFinalApproved
      | (PhFinalApproved, Payload) \<Rightarrow> Some PhPayloadSent
      | (PhPayloadSent, Receipt) \<Rightarrow> Some PhTerminal
      | _ \<Rightarrow> None)"

definition endpoint_fail :: "'v v2_endpoint \<Rightarrow> credential_v2_error \<Rightarrow> 'a v2_result \<times> 'v v2_endpoint" where
  "endpoint_fail e err = (Err err, e\<lparr>e2_phase := PhTerminal\<rparr>)"

definition accept :: "'v v2_endpoint \<Rightarrow> v2_object \<Rightarrow> side \<Rightarrow> v2_phase \<Rightarrow> 'v v2_endpoint" where
  "accept e object sender next =
     (let e = (if e2_intent_digest e = None \<and> ob_kind object \<noteq> AccountSelect
               then e\<lparr>e2_intent_digest := Some (ob_intent_digest object)\<rparr> else e)
      in e\<lparr>e2_last := Some \<lparr>lo_sender = sender, lo_bytes = Some (ob_bytes object), lo_kind = ob_kind object,
             lo_intent_digest = ob_intent_digest object, lo_content_hash = ob_content_hash object\<rparr>,
           e2_phase := next\<rparr>)"

text \<open>The method returns an optional result that is always the retransmission when present.\<close>

definition exact_retransmission :: "'v v2_endpoint \<Rightarrow> v2_object \<Rightarrow> side \<Rightarrow> v2_advance v2_result option" where
  "exact_retransmission e object sender =
     (case e2_last e of
        None \<Rightarrow> None
      | Some l \<Rightarrow>
          if lo_sender l = sender \<and> lo_kind l = ob_kind object \<and>
             lo_intent_digest l = ob_intent_digest object \<and> lo_content_hash l = ob_content_hash object \<and>
             (case lo_bytes l of None \<Rightarrow> True | Some bs \<Rightarrow> bs = ob_bytes object)
          then Some (Ok ExactRetransmission) else None)"

definition apply_select ::
  "v2_env \<Rightarrow> 'v v2_endpoint \<Rightarrow> v2_object \<Rightarrow> side \<Rightarrow> v2_advance v2_result \<times> 'v v2_endpoint" where
  "apply_select E e object sender =
     (if e2_phase e \<noteq> PhBegin \<or> e2_last e \<noteq> None then endpoint_fail e V2Phase
      else case select_recognise E object (vc_carrier_ceremony_id (e2_carrier e))
                  (vc_application_context (e2_carrier e)) of
        Ok _ \<Rightarrow> (Ok Advanced, accept e object sender PhAccountSelected)
      | Err err \<Rightarrow> endpoint_fail e err
      | Panic \<Rightarrow> (Panic, e))"

definition apply_offer :: "'v v2_endpoint \<Rightarrow> v2_object \<Rightarrow> side \<Rightarrow> v2_advance v2_result \<times> 'v v2_endpoint" where
  "apply_offer e object sender =
     (if sender \<noteq> SideAllocator \<or> e2_side e \<noteq> SideAllocator \<or> \<not> pre_offer (e2_phase e)
      then endpoint_fail e V2Phase
      else (Ok Advanced,
        accept (e\<lparr>e2_intent_digest := Some (ob_intent_digest object)\<rparr>) object sender PhOffered))"

definition apply_successor ::
  "v2_env \<Rightarrow> 'v body_verifier \<Rightarrow> 'v v2_endpoint \<Rightarrow> v2_object \<Rightarrow> side \<Rightarrow> v2_advance v2_result \<times> 'v v2_endpoint" where
  "apply_successor E B e object sender =
     (case e2_intent_digest e of
        None \<Rightarrow> endpoint_fail e V2Phase
      | Some expected_intent \<Rightarrow>
          if ob_intent_digest object \<noteq> expected_intent then endpoint_fail e V2Profile
          else case next_phase (e2_phase e) (ob_kind object) of
            None \<Rightarrow> endpoint_fail e V2Phase
          | Some next \<Rightarrow>
              (case recognise_logical_body E object of
                 Err err \<Rightarrow> endpoint_fail e err
               | Panic \<Rightarrow> (Panic, e)
               | Ok logical \<Rightarrow>
                   if lb_carrier_ceremony_id logical \<noteq> vc_carrier_ceremony_id (e2_carrier e)
                   then endpoint_fail e V2Profile
                   else case e2_last e of
                     None \<Rightarrow> endpoint_fail e V2Phase
                   | Some l \<Rightarrow>
                       if lb_predecessor_digest logical \<noteq> lo_content_hash l then endpoint_fail e V2Predecessor
                       else
                         let (verdict, v) = bv_verify B (e2_body_verifier e) logical;
                             e = e\<lparr>e2_body_verifier := v\<rparr>
                         in (case verdict of
                               Ok _ \<Rightarrow> (Ok Advanced, accept e object sender next)
                             | Err err \<Rightarrow> endpoint_fail e err
                             | Panic \<Rightarrow> (Panic, e))))"

definition apply_object ::
  "v2_env \<Rightarrow> 'v body_verifier \<Rightarrow> 'v v2_endpoint \<Rightarrow> v2_object \<Rightarrow> side \<Rightarrow> v2_advance v2_result \<times> 'v v2_endpoint" where
  "apply_object E B e object sender =
     (case exact_retransmission e object sender of
        Some r \<Rightarrow> (r, e)
      | None \<Rightarrow>
          if e2_phase e = PhTerminal then (Err V2Terminal, e)
          else if e2_phase e = PhPayloadSent \<and> ob_kind object = Refusal then (Err V2Phase, e)
          else if \<not> v2_valid_sender (ob_kind object) sender then endpoint_fail e V2Direction
          else if ob_kind object = AccountSelect then apply_select E e object sender
          else if ob_kind object = Offer then apply_offer e object sender
          else apply_successor E B e object sender)"

section \<open>Methods\<close>

definition endpoint_send ::
  "v2_env \<Rightarrow> 'v body_verifier \<Rightarrow> 'v v2_endpoint \<Rightarrow> v2_object \<Rightarrow> v2_advance v2_result \<times> 'v v2_endpoint" where
  "endpoint_send E B e object = apply_object E B e object (e2_side e)"

definition endpoint_receive ::
  "v2_env \<Rightarrow> 'v body_verifier \<Rightarrow> 'v v2_endpoint \<Rightarrow> v2_object \<Rightarrow> v2_advance v2_result \<times> 'v v2_endpoint" where
  "endpoint_receive E B e object = apply_object E B e object (other_side (e2_side e))"

definition receive_offer ::
  "v2_env \<Rightarrow> ('p, 'q) intent_ops \<Rightarrow> 'v v2_endpoint \<Rightarrow> v2_object \<Rightarrow> intent_authority \<Rightarrow> 'p \<times> 'q \<Rightarrow>
     v2_advance v2_result \<times> 'v v2_endpoint \<times> ('p \<times> 'q)" where
  "receive_offer E ops e object authority pq =
     (case exact_retransmission e object SideAllocator of
        Some r \<Rightarrow> (r, e, pq)
      | None \<Rightarrow>
          if e2_side e \<noteq> SideClaimant \<or> \<not> pre_offer (e2_phase e) \<or> ob_kind object \<noteq> Offer
          then (Err V2Phase, e\<lparr>e2_phase := PhTerminal\<rparr>, pq)
          else if ic_carrier_ceremony_id (ia_claims authority) \<noteq> vc_carrier_ceremony_id (e2_carrier e) \<or>
                  ic_application_id (ia_claims authority) \<noteq> vc_application_context (e2_carrier e)
          then (Err V2Profile, e\<lparr>e2_phase := PhTerminal\<rparr>, pq)
          else case recognise_credential_v2_intent E ops object authority pq of
            (Ok d, pq) \<Rightarrow> (Ok (AdvDisplayIntent d), accept e object SideAllocator PhOffered, pq)
          | (Err err, pq) \<Rightarrow> (Err err, e\<lparr>e2_phase := PhTerminal\<rparr>, pq)
          | (Panic, pq) \<Rightarrow> (Panic, e, pq))"

definition prepare_outbound ::
  "v2_env \<Rightarrow> 'v body_verifier \<Rightarrow> 'v v2_endpoint \<Rightarrow> v2_object \<Rightarrow> secure_channel \<Rightarrow> v2_relay \<Rightarrow>
     v2_frame v2_result \<times> 'v v2_endpoint \<times> secure_channel \<times> v2_relay" where
  "prepare_outbound E B e object ch r =
     (if sc_local_side ch \<noteq> e2_side e then (Err V2Direction, e, ch, r)
      else case rs_cached_outbound r of
        Some cached \<Rightarrow>
          (case exact_retransmission e object (e2_side e) of
             Some (Ok ExactRetransmission) \<Rightarrow> (Ok cached, e, ch, r)
           | Some (Err err) \<Rightarrow> (Err err, e, ch, r)
           | _ \<Rightarrow> (Err V2Phase, e, ch, r))
      | None \<Rightarrow>
          (case can_seal ch (ob_bytes object) of
             Err err \<Rightarrow> (Err err, e, ch, r)
           | Panic \<Rightarrow> (Panic, e, ch, r)
           | Ok _ \<Rightarrow>
               (case endpoint_send E B e object of
                  (Err err, e) \<Rightarrow> (Err err, e, ch, r)
                | (Panic, e) \<Rightarrow> (Panic, e, ch, r)
                | (Ok adv, e) \<Rightarrow>
                    if adv \<noteq> Advanced then (Err V2Phase, e, ch, r)
                    else case v2_seal E ch (ob_bytes object) of
                      (Err err, ch) \<Rightarrow> (Err err, e, ch, r)
                    | (Panic, ch) \<Rightarrow> (Panic, e, ch, r)
                    | (Ok frame, ch) \<Rightarrow>
                        (case cache_application_frame r frame of
                           (Ok _, r) \<Rightarrow> (Ok frame, e, ch, r)
                         | (Err err, r) \<Rightarrow> (Err err, e, ch, r)
                         | (Panic, r) \<Rightarrow> (Panic, e, ch, r)))))"

definition awaits_receipt :: "'v v2_endpoint \<Rightarrow> v2_object \<Rightarrow> bool" where
  "awaits_receipt e receipt \<longleftrightarrow>
     e2_side e = SideClaimant \<and> e2_phase e = PhPayloadSent \<and> ob_kind receipt = Receipt"

definition authenticate_recovered_receipt ::
  "v2_env \<Rightarrow> 'v body_verifier \<Rightarrow> 'v v2_endpoint \<Rightarrow> v2_object \<Rightarrow>
     recovered_authority v2_result \<times> 'v v2_endpoint" where
  "authenticate_recovered_receipt E B e receipt =
     (if \<not> awaits_receipt e receipt then (Err V2Phase, e)
      else
        bind_st (ok_or V2Phase (e2_intent_digest e), e) (\<lambda>intent_digest e.
        if ob_intent_digest receipt \<noteq> intent_digest then (Err V2Profile, e)
        else bind_st (recognise_logical_body E receipt, e) (\<lambda>logical e.
        if lb_carrier_ceremony_id logical \<noteq> vc_carrier_ceremony_id (e2_carrier e) then (Err V2Profile, e)
        else bind_st (ok_or V2Phase (e2_last e), e) (\<lambda>payload e.
        if lb_predecessor_digest logical \<noteq> lo_content_hash payload then (Err V2Predecessor, e)
        else
          let (verdict, v) = bv_verify B (e2_body_verifier e) logical in
          bind_st (verdict, e\<lparr>e2_body_verifier := v\<rparr>) (\<lambda>_ e.
          bind_st (receipt_final_status_digest E (ob_body receipt), e) (\<lambda>digest e.
            (Ok \<lparr>ra_application_context = vc_application_context (e2_carrier e),
                ra_carrier_ceremony_id = vc_carrier_ceremony_id (e2_carrier e),
                ra_intent_digest = intent_digest, ra_payload_content_hash = lo_content_hash payload,
                ra_final_status_digest = digest,
                ra_receipt_body_digest = v2_sha256 E (ob_body receipt)\<rparr>, e)))))))"

definition recover_receipt ::
  "v2_env \<Rightarrow> 'v v2_endpoint \<Rightarrow> v2_object \<Rightarrow> recovered_authority \<Rightarrow> v2_advance v2_result \<times> 'v v2_endpoint" where
  "recover_receipt E e receipt a =
     (if \<not> awaits_receipt e receipt then (Err V2Phase, e)
      else
        bind_st (recognise_logical_body E receipt, e) (\<lambda>logical e.
        bind_st (ok_or V2Phase (e2_last e), e) (\<lambda>payload e.
        bind_st (ok_or V2Phase (e2_intent_digest e), e) (\<lambda>intent_digest e.
        bind_st (receipt_final_status_digest E (ob_body receipt), e) (\<lambda>digest e.
        if \<not> (ra_application_context a = vc_application_context (e2_carrier e) \<and>
              ra_carrier_ceremony_id a = vc_carrier_ceremony_id (e2_carrier e) \<and>
              ra_intent_digest a = intent_digest \<and>
              ra_payload_content_hash a = lo_content_hash payload \<and>
              ra_final_status_digest a = digest \<and>
              ra_receipt_body_digest a = v2_sha256 E (ob_body receipt) \<and>
              ob_intent_digest receipt = intent_digest \<and>
              lb_carrier_ceremony_id logical = vc_carrier_ceremony_id (e2_carrier e) \<and>
              lb_predecessor_digest logical = lo_content_hash payload)
        then (Err V2Profile, e)
        else (Ok Advanced, accept e receipt SideAllocator PhTerminal))))))"

definition receipt_released :: "'v v2_endpoint \<Rightarrow> bool" where
  "receipt_released e \<longleftrightarrow> e2_side e = SideAllocator \<and>
     (case e2_last e of None \<Rightarrow> False
      | Some l \<Rightarrow> lo_sender l = SideAllocator \<and> lo_kind l = Receipt)"

end
