(* ===== verification/V2_Handoff.thy ===== *)
theory V2_Handoff
  imports V2_Carrier
begin

text \<open>
  The two local transfers of a carrier: the confidential handoff text (\<^verbatim>\<open>handoff.rs\<close>) and the
  manual bootstrap with its three-word phrase (\<^verbatim>\<open>manual.rs\<close>) of \<^verbatim>\<open>src/src/credential_v2\<close>.
\<close>

section \<open>Byte strings\<close>

definition append_bstr :: "bytes \<Rightarrow> bytes \<Rightarrow> bytes" where
  "append_bstr output bs =
     output @
     (if length bs \<le> 23 then [of_nat (64 + length bs)]
      else if length bs \<le> 255 then [0x58, of_nat (length bs)]
      else 0x59 # be_bytes 2 (length bs)) @ bs"

datatype handoff_error =
    HoVersion
  | HoOversize
  | HoEncoding
  | HoSchema
  | HoCarrier
  | HoCommitment

text \<open>\<^verbatim>\<open>SchemaParser\<close>: an operation returns what it read and the octets left.\<close>

definition parser_take :: "nat \<Rightarrow> bytes \<Rightarrow> (bytes \<times> bytes, handoff_error) result" where
  "parser_take n input = (if n \<le> length input then Ok (take n input, drop n input) else Err HoSchema)"

definition parser_byte :: "bytes \<Rightarrow> (nat \<times> bytes, handoff_error) result" where
  "parser_byte input = bind_result (parser_take 1 input) (\<lambda>(b, rest). Ok (unat (hd b), rest))"

definition parser_string :: "nat \<Rightarrow> bytes \<Rightarrow> (bytes \<times> bytes, handoff_error) result" where
  "parser_string major input =
     bind_result (parser_byte input) (\<lambda>(head, rest).
     if head div 32 \<noteq> major then Err HoSchema
     else bind_result
       (let n = head mod 32 in
        if n \<le> 23 then Ok (n, rest)
        else if n = 24 then bind_result (parser_byte rest) (\<lambda>(n, rest).
          if n < 24 then Err HoSchema else Ok (n, rest))
        else if n = 25 then
          bind_result (parser_byte rest) (\<lambda>(a, rest).
          bind_result (parser_byte rest) (\<lambda>(b, rest).
          let n = 256 * a + b in
          if n \<le> 255 then Err HoSchema else Ok (n, rest)))
        else Err HoSchema)
       (\<lambda>(n, rest). parser_take n rest))"

section \<open>The confidential handoff\<close>

definition HANDOFF_PREFIX :: string where "HANDOFF_PREFIX = ''SSPAIR1:''"
definition HANDOFF_DOMAIN :: bytes where "HANDOFF_DOMAIN = ascii ''selfsame-pairing-handoff/v1''"
definition MAX_CARRIER :: nat where "MAX_CARRIER = 2695"
definition HANDOFF_MAX_DECODED :: nat where "HANDOFF_MAX_DECODED = 2762"
definition HANDOFF_MAX_TEXT :: nat where "HANDOFF_MAX_TEXT = 3691"

record handoff =
  hf_carrier :: v2_carrier
  hf_presence :: presence_code

definition handoff_new :: "v2_env \<Rightarrow> v2_carrier \<Rightarrow> presence_code \<Rightarrow> (handoff, handoff_error) result" where
  "handoff_new E c k =
     (if claim_commitment (v2_sha256 E) (vc_mailbox_id c) (pk_claim_token k) \<noteq> vc_claim_commitment c
      then Err HoCommitment
      else Ok \<lparr>hf_carrier = c, hf_presence = k\<rparr>)"

definition handoff_octets :: "bytes \<Rightarrow> presence_code \<Rightarrow> bytes" where
  "handoff_octets public k =
     append_bstr (append_bstr (append_bstr ([0x84, 0x78, 27] @ HANDOFF_DOMAIN) public)
       (pk_cpace_secret k)) (pk_claim_token k)"

definition handoff_encode :: "v2_env \<Rightarrow> handoff \<Rightarrow> (string, handoff_error) result" where
  "handoff_encode E h =
     bind_result (map_err (\<lambda>_. HoCarrier) (encode_carrier E (hf_carrier h))) (\<lambda>public.
     if length public > MAX_CARRIER then Err HoOversize
     else
       bind_result (ok_or HoOversize (vn_base64_encode E (HANDOFF_MAX_TEXT - length HANDOFF_PREFIX)
         (handoff_octets public (hf_presence h)))) (\<lambda>encoded. Ok (HANDOFF_PREFIX @ encoded)))"

definition into_array :: "'e \<Rightarrow> nat \<Rightarrow> bytes \<Rightarrow> (bytes, 'e) result" where
  "into_array e n bs = (if length bs = n then Ok bs else Err e)"

definition handoff_from_str :: "v2_env \<Rightarrow> string \<Rightarrow> (handoff, handoff_error) result" where
  "handoff_from_str E input =
     (if length input > HANDOFF_MAX_TEXT then Err HoOversize
      else if \<not> starts_with HANDOFF_PREFIX input then Err HoVersion
      else
        let suffix = drop (length HANDOFF_PREFIX) input in
        if suffix = [] then Err HoEncoding
        else
          bind_result (ok_or HoEncoding (vn_base64_decode E HANDOFF_MAX_DECODED suffix)) (\<lambda>decoded.
          bind_result (parser_byte decoded) (\<lambda>(head, rest).
          if head \<noteq> 0x84 then Err HoSchema
          else bind_result (parser_string 3 rest) (\<lambda>(domain, rest).
          if domain \<noteq> HANDOFF_DOMAIN then Err HoVersion
          else bind_result (parser_string 2 rest) (\<lambda>(public, rest).
          if public = [] then Err HoSchema
          else if length public > MAX_CARRIER then Err HoOversize
          else bind_result (parser_string 2 rest) (\<lambda>(c, rest).
          bind_result (into_array HoSchema 16 c) (\<lambda>c.
          bind_result (parser_string 2 rest) (\<lambda>(t, rest).
          bind_result (into_array HoSchema 16 t) (\<lambda>t.
          if rest \<noteq> [] then Err HoSchema
          else bind_result (map_err (\<lambda>_. HoCarrier) (decode_carrier E public)) (\<lambda>carrier.
          bind_result (handoff_new E carrier \<lparr>pk_cpace_secret = c, pk_claim_token = t\<rparr>) (\<lambda>h.
          bind_result (handoff_encode E h) (\<lambda>again.
            if again \<noteq> input then Err HoSchema else Ok h))))))))))))"

definition handoff_into_parts :: "handoff \<Rightarrow> v2_carrier \<times> presence_code" where
  "handoff_into_parts h = (hf_carrier h, hf_presence h)"

section \<open>The manual bootstrap\<close>

datatype manual_error =
    MaVersion
  | MaOversize
  | MaEncoding
  | MaSchema
  | MaCarrier
  | MaCommitment
  | MaExpired
  | MaAllocatorKeyRequired
  | MaChecksum

definition MANUAL_PREFIX :: string where "MANUAL_PREFIX = ''SSPAIR-M1:''"
definition MANUAL_DOMAIN :: bytes where "MANUAL_DOMAIN = ascii ''selfsame-pairing-manual/v1''"
definition WORD_DOMAIN :: bytes where "WORD_DOMAIN = ascii ''selfsame-pairing-manual-words/v1'' @ [0]"
definition C_PREFIX :: bytes where "C_PREFIX = ascii ''SSPAIR-M1'' @ [0, 0, 0]"
definition MANUAL_MAX_DECODED :: nat where "MANUAL_MAX_DECODED = 2744"
definition MANUAL_MAX_TEXT :: nat where "MANUAL_MAX_TEXT = 3669"
definition MAX_PHRASE :: nat where "MAX_PHRASE = 128"

text \<open>The conversion of a parser error, \<^verbatim>\<open>From<CredentialV2HandoffError>\<close>.\<close>

definition manual_of :: "('a, handoff_error) result \<Rightarrow> ('a, manual_error) result" where
  "manual_of = map_err (\<lambda>_. MaSchema)"

record manual_bootstrap =
  mb_carrier :: v2_carrier
  mb_claim_token :: bytes

definition manual_new :: "v2_env \<Rightarrow> v2_carrier \<Rightarrow> bytes \<Rightarrow> u64 \<Rightarrow> (manual_bootstrap, manual_error) result" where
  "manual_new E c token now =
     (if claim_commitment (v2_sha256 E) (vc_mailbox_id c) token \<noteq> vc_claim_commitment c then Err MaCommitment
      else if vc_expected_allocator_key c = None then Err MaAllocatorKeyRequired
      else if now \<ge> vc_relay_expires_at c then Err MaExpired
      else Ok \<lparr>mb_carrier = c, mb_claim_token = token\<rparr>)"

definition manual_octets :: "bytes \<Rightarrow> bytes \<Rightarrow> bytes" where
  "manual_octets public token = append_bstr (append_bstr ([0x83, 0x78, 26] @ MANUAL_DOMAIN) public) token"

definition manual_encode :: "v2_env \<Rightarrow> manual_bootstrap \<Rightarrow> (string, manual_error) result" where
  "manual_encode E b =
     bind_result (map_err (\<lambda>_. MaCarrier) (encode_carrier E (mb_carrier b))) (\<lambda>public.
     if length public > MAX_CARRIER then Err MaOversize
     else
       bind_result (ok_or MaOversize (vn_base64_encode E (MANUAL_MAX_TEXT - length MANUAL_PREFIX)
         (manual_octets public (mb_claim_token b)))) (\<lambda>encoded. Ok (MANUAL_PREFIX @ encoded)))"

definition manual_recognise :: "v2_env \<Rightarrow> string \<Rightarrow> u64 \<Rightarrow> (manual_bootstrap, manual_error) result" where
  "manual_recognise E input now =
     (if length input > MANUAL_MAX_TEXT then Err MaOversize
      else if \<not> starts_with MANUAL_PREFIX input then Err MaVersion
      else
        let suffix = drop (length MANUAL_PREFIX) input in
        if suffix = [] then Err MaEncoding
        else
          bind_result (ok_or MaEncoding (vn_base64_decode E MANUAL_MAX_DECODED suffix)) (\<lambda>decoded.
          bind_result (manual_of (parser_byte decoded)) (\<lambda>(head, rest).
          if head \<noteq> 0x83 then Err MaSchema
          else bind_result (manual_of (parser_string 3 rest)) (\<lambda>(domain, rest).
          if domain \<noteq> MANUAL_DOMAIN then Err MaVersion
          else bind_result (manual_of (parser_string 2 rest)) (\<lambda>(public, rest).
          if public = [] then Err MaSchema
          else if length public > MAX_CARRIER then Err MaOversize
          else bind_result (manual_of (parser_string 2 rest)) (\<lambda>(t, rest).
          bind_result (into_array MaSchema 16 t) (\<lambda>t.
          if rest \<noteq> [] then Err MaSchema
          else bind_result (map_err (\<lambda>_. MaCarrier) (decode_carrier E public)) (\<lambda>carrier.
          bind_result (manual_new E carrier t now) (\<lambda>b.
          bind_result (manual_encode E b) (\<lambda>again.
            if again \<noteq> input then Err MaSchema else Ok b))))))))))"

section \<open>The three-word phrase\<close>

type_synonym manual_words = bytes

definition be_value :: "bytes \<Rightarrow> nat" where
  "be_value bs = foldl (\<lambda>n b. 256 * n + unat b) 0 bs"

definition words_checksum :: "v2_env \<Rightarrow> u32 \<Rightarrow> u8" where
  "words_checksum E n = unat (hd (v2_sha256 E (WORD_DOMAIN @ be_bytes 4 n))) div 32"

definition words_from_csprng :: "bytes \<Rightarrow> manual_words" where
  "words_from_csprng random = C_PREFIX @ be_bytes 4 (be_value random mod 2 ^ 30)"

definition words_from_secret :: "bytes \<Rightarrow> (manual_words, manual_error) result" where
  "words_from_secret c =
     (if take 12 c \<noteq> C_PREFIX \<or> (c ! 12) AND 0xc0 \<noteq> 0 then Err MaSchema else Ok c)"

text \<open>Indexing the word list panics outside it.\<close>

definition word_at :: "v2_env \<Rightarrow> nat \<Rightarrow> (string, manual_error) result" where
  "word_at E i = (if i < length (vn_word_list E) then Ok (vn_word_list E ! i) else Panic)"

definition words_bits :: "v2_env \<Rightarrow> manual_words \<Rightarrow> u64" where
  "words_bits E w = (let n = be_value (drop 12 w) in push_bit 3 n OR words_checksum E n)"

definition words_encode :: "v2_env \<Rightarrow> manual_words \<Rightarrow> (string, manual_error) result" where
  "words_encode E w =
     (let bits = words_bits E w in
      bind_result (word_at E (bits div 2 ^ 22 mod 2048)) (\<lambda>a.
      bind_result (word_at E (bits div 2 ^ 11 mod 2048)) (\<lambda>b.
      bind_result (word_at E (bits mod 2048)) (\<lambda>c.
        Ok (a @ '' '' @ b @ '' '' @ c)))))"

definition to_ascii_lowercase :: "string \<Rightarrow> string" where
  "to_ascii_lowercase s =
     map (\<lambda>c. if 65 \<le> char_code c \<and> char_code c \<le> 90 then char_of (char_code c + 32) else c) s"

fun split_when :: "(char \<Rightarrow> bool) \<Rightarrow> string \<Rightarrow> string list" where
  "split_when p [] = [[]]"
| "split_when p (c # cs) =
     (if p c then [] # split_when p cs
      else case split_when p cs of [] \<Rightarrow> [[c]] | part # parts \<Rightarrow> (c # part) # parts)"

definition is_phrase_space :: "char \<Rightarrow> bool" where
  "is_phrase_space c \<longleftrightarrow> char_code c = 32 \<or> char_code c = 9 \<or> char_code c = 13 \<or> char_code c = 10"

text \<open>
  \<^verbatim>\<open>binary_search\<close> on a strictly ascending list finds the one index that holds the word;
  \<open>read_words\<close> is the loop over the first three words, and returns the words left.
\<close>

definition word_index :: "v2_env \<Rightarrow> string \<Rightarrow> nat option" where
  "word_index E w = position_of w (vn_word_list E)"

fun read_words :: "v2_env \<Rightarrow> nat \<Rightarrow> string list \<Rightarrow> u64 \<Rightarrow> (u64 \<times> string list, manual_error) result" where
  "read_words E 0 ws bits = Ok (bits, ws)"
| "read_words E (Suc n) ws bits =
     (case ws of
        [] \<Rightarrow> Err MaSchema
      | w # ws \<Rightarrow> bind_result (ok_or MaSchema (word_index E w)) (\<lambda>i. read_words E n ws (push_bit 11 bits OR i)))"

definition words_from_str :: "v2_env \<Rightarrow> string \<Rightarrow> (manual_words, manual_error) result" where
  "words_from_str E input =
     (if length input > MAX_PHRASE then Err MaOversize
      else if \<not> is_ascii input then Err MaEncoding
      else
        bind_result (read_words E 3
          (filter (\<lambda>s. s \<noteq> []) (split_when is_phrase_space (to_ascii_lowercase input))) 0) (\<lambda>(bits, rest).
        if rest \<noteq> [] then Err MaSchema
        else
          let n = bits div 2 ^ 3 mod 2 ^ 32 in
          if words_checksum E n \<noteq> bits mod 8 then Err MaChecksum
          else Ok (words_from_csprng (be_bytes 4 n))))"

definition manual_into_parts :: "manual_bootstrap \<Rightarrow> manual_words \<Rightarrow> v2_carrier \<times> presence_code" where
  "manual_into_parts b w = (mb_carrier b, \<lparr>pk_cpace_secret = w, pk_claim_token = mb_claim_token b\<rparr>)"

definition recognise_pair ::
  "v2_env \<Rightarrow> string \<Rightarrow> string \<Rightarrow> u64 \<Rightarrow> (v2_carrier \<times> presence_code, manual_error) result" where
  "recognise_pair E bootstrap phrase now =
     (if length bootstrap > MANUAL_MAX_TEXT \<or> length phrase > MAX_PHRASE then Err MaOversize
      else bind_result (words_from_str E phrase) (\<lambda>w.
        bind_result (manual_recognise E bootstrap now) (\<lambda>b. Ok (manual_into_parts b w))))"

end
