(* ===== verification/V2_Checkpoint.thy ===== *)
theory V2_Checkpoint
  imports V2_Endpoint V2_Handoff
begin

text \<open>
  Sealed checkpoints of \<^verbatim>\<open>src/src/credential_v2/checkpoint.rs\<close>: the outer array, the wrapping key,
  the inner octets of an endpoint with its channel and relay projection, and sealing, restoring
  and inspecting them.
\<close>

section \<open>Constants\<close>

definition OUTER_DOMAIN :: string where "OUTER_DOMAIN = ''cbcl-pairing-endpoint-checkpoint/v2''"
definition KEY_INFO_DOMAIN :: string where "KEY_INFO_DOMAIN = ''cbcl-pairing checkpoint key/v2''"
definition ENDPOINT_INNER_DOMAIN :: bytes where
  "ENDPOINT_INNER_DOMAIN = ascii ''cbcl-pairing endpoint state/v2'' @ [0]"
definition CHECKPOINT_MAX_CIPHERTEXT :: nat where "CHECKPOINT_MAX_CIPHERTEXT = 69632"
definition CHECKPOINT_MAX_PLAINTEXT :: nat where
  "CHECKPOINT_MAX_PLAINTEXT = CHECKPOINT_MAX_CIPHERTEXT - 16"

section \<open>Reading octets\<close>

text \<open>
  \<^verbatim>\<open>ByteCursor\<close>: the cursor is the list of octets not yet read. The cursor of \<^verbatim>\<open>bootstrap.rs\<close> has the
  same operations.
\<close>

type_synonym 'a cursor_result = "('a \<times> bytes) v2_result"

definition cur_take :: "nat \<Rightarrow> bytes \<Rightarrow> bytes cursor_result" where
  "cur_take n input = (if n \<le> length input then Ok (take n input, drop n input) else Err V2Schema)"

definition cur_byte :: "bytes \<Rightarrow> nat cursor_result" where
  "cur_byte input = bind_result (cur_take 1 input) (\<lambda>(b, rest). Ok (unat (hd b), rest))"

definition cur_u64 :: "bytes \<Rightarrow> u64 cursor_result" where
  "cur_u64 input = bind_result (cur_take 8 input) (\<lambda>(b, rest). Ok (be_value b, rest))"

definition cur_boolean :: "bytes \<Rightarrow> bool cursor_result" where
  "cur_boolean input = bind_result (cur_byte input) (\<lambda>(b, rest).
     if b = 0 then Ok (False, rest) else if b = 1 then Ok (True, rest) else Err V2Schema)"

text \<open>A tag octet, 0 for absent and 1 for present, followed by the value read by \<open>p\<close>.\<close>

definition cur_optional :: "(bytes \<Rightarrow> 'a cursor_result) \<Rightarrow> bytes \<Rightarrow> 'a option cursor_result" where
  "cur_optional p input = bind_result (cur_byte input) (\<lambda>(b, rest).
     if b = 0 then Ok (None, rest)
     else if b = 1 then bind_result (p rest) (\<lambda>(x, rest). Ok (Some x, rest))
     else Err V2Schema)"

definition cur_length_prefixed_allow_empty :: "nat \<Rightarrow> bytes \<Rightarrow> bytes cursor_result" where
  "cur_length_prefixed_allow_empty maximum input =
     bind_result (cur_take 4 input) (\<lambda>(b, rest).
       let n = be_value b in if n > maximum then Err V2Size else cur_take n rest)"

definition cur_length_prefixed :: "nat \<Rightarrow> bytes \<Rightarrow> bytes cursor_result" where
  "cur_length_prefixed maximum input =
     bind_result (cur_length_prefixed_allow_empty maximum input) (\<lambda>(v, rest).
       if v = [] then Err V2Size else Ok (v, rest))"

definition cur_counter :: "bytes \<Rightarrow> u64 option cursor_result" where
  "cur_counter = cur_optional cur_u64"

section \<open>Writing octets\<close>

definition number_side :: "nat \<Rightarrow> side v2_result" where
  "number_side n =
     (if n = 0 then Ok SideAllocator else if n = 1 then Ok SideClaimant else Err V2Schema)"

definition cur_side :: "bytes \<Rightarrow> side cursor_result" where
  "cur_side input = bind_result (cur_byte input) (\<lambda>(b, rest).
     bind_result (number_side b) (\<lambda>s. Ok (s, rest)))"

fun phase_number :: "v2_phase \<Rightarrow> u8" where
  "phase_number PhBegin = 0"
| "phase_number PhOffered = 1"
| "phase_number PhIntentApproved = 2"
| "phase_number PhPrepared = 3"
| "phase_number PhConfirmed = 4"
| "phase_number PhFinalApproved = 5"
| "phase_number PhPayloadSent = 6"
| "phase_number PhTerminal = 7"
| "phase_number PhAccountSelected = 8"

definition number_phase :: "nat \<Rightarrow> v2_phase v2_result" where
  "number_phase n =
     (if n = 0 then Ok PhBegin else if n = 1 then Ok PhOffered else if n = 2 then Ok PhIntentApproved
      else if n = 3 then Ok PhPrepared else if n = 4 then Ok PhConfirmed else if n = 5 then Ok PhFinalApproved
      else if n = 6 then Ok PhPayloadSent else if n = 7 then Ok PhTerminal
      else if n = 8 then Ok PhAccountSelected else Err V2Schema)"

definition octet :: "nat \<Rightarrow> bytes" where "octet n = [of_nat n]"

definition side_octet :: "side \<Rightarrow> bytes" where "side_octet s = octet (v2_side_number s)"

definition prefixed_bytes :: "bytes \<Rightarrow> bytes v2_result" where
  "prefixed_bytes v =
     bind_result (ok_or V2Size (try_into u32_max (length v))) (\<lambda>n. Ok (be_bytes 4 n @ v))"

definition optional_octets :: "('a \<Rightarrow> bytes v2_result) \<Rightarrow> 'a option \<Rightarrow> bytes v2_result" where
  "optional_octets f x =
     (case x of None \<Rightarrow> Ok (octet 0) | Some a \<Rightarrow> bind_result (f a) (\<lambda>bs. Ok (octet 1 @ bs)))"

definition counter_octets :: "u64 option \<Rightarrow> bytes" where
  "counter_octets c = (case c of None \<Rightarrow> octet 0 | Some n \<Rightarrow> octet 1 @ be_bytes 8 n)"

section \<open>The outer array\<close>

record v2_outer =
  ou_side :: side
  ou_ceremony :: bytes
  ou_generation :: u64
  ou_expiry :: "u64 option"
  ou_nonce :: bytes
  ou_ciphertext :: bytes

definition expiry_value :: "u64 option \<Rightarrow> cbor" where
  "expiry_value x = (case x of None \<Rightarrow> CNull | Some n \<Rightarrow> CInteger (int n))"

definition outer_value :: "v2_outer \<Rightarrow> cbor" where
  "outer_value u = CArray [CText OUTER_DOMAIN, CInteger 2, CText (side_name (ou_side u)), CText V2_PROFILE,
     CBytes (ou_ceremony u), CInteger (int (ou_generation u)), expiry_value (ou_expiry u),
     CBytes (ou_nonce u), CBytes (ou_ciphertext u)]"

definition encode_outer :: "v2_env \<Rightarrow> v2_outer \<Rightarrow> bytes v2_result" where
  "encode_outer E u = v2_canonical E (outer_value u)"

definition text_side :: "cbor \<Rightarrow> side v2_result" where
  "text_side v =
     (if v = CText ''allocator'' then Ok SideAllocator
      else if v = CText ''claimant'' then Ok SideClaimant else Err V2Schema)"

definition decode_outer :: "v2_env \<Rightarrow> bytes \<Rightarrow> v2_outer v2_result" where
  "decode_outer E input =
     bind_result (decode_canonical E input) (\<lambda>v.
     case v of
       CArray [domain, version, role, profile, ceremony, generation, expiry, nonce, ciphertext] \<Rightarrow>
         if domain \<noteq> CText OUTER_DOMAIN then Err V2Schema
         else bind_result (v2_uint version) (\<lambda>ver.
         if ver \<noteq> 2 \<or> profile \<noteq> CText V2_PROFILE then Err V2Schema
         else
           bind_result (text_side role) (\<lambda>s.
           bind_result (v2_fixed_bytes 32 ceremony) (\<lambda>ceremony.
           bind_result (v2_uint generation) (\<lambda>generation.
           bind_result (if expiry = CNull then Ok None
             else bind_result (v2_uint expiry) (\<lambda>x. Ok (Some x))) (\<lambda>expiry.
           bind_result (v2_fixed_bytes 12 nonce) (\<lambda>nonce.
           bind_result (v2_bytes ciphertext) (\<lambda>ciphertext.
           if ciphertext = [] \<or> length ciphertext > CHECKPOINT_MAX_CIPHERTEXT then Err V2Size
           else Ok \<lparr>ou_side = s, ou_ceremony = ceremony, ou_generation = generation, ou_expiry = expiry,
                    ou_nonce = nonce, ou_ciphertext = ciphertext\<rparr>)))))))
     | _ \<Rightarrow> Err V2Schema)"

definition checkpoint_aad :: "v2_env \<Rightarrow> side \<Rightarrow> bytes \<Rightarrow> u64 \<Rightarrow> u64 option \<Rightarrow> bytes v2_result" where
  "checkpoint_aad E s ceremony generation expiry =
     v2_canonical E (CArray [CText OUTER_DOMAIN, CInteger 2, CText (side_name s), CText V2_PROFILE,
       CBytes ceremony, CInteger (int generation), expiry_value expiry])"

definition checkpoint_key_info :: "v2_env \<Rightarrow> side \<Rightarrow> bytes v2_result" where
  "checkpoint_key_info E s =
     v2_canonical E (CArray [CText KEY_INFO_DOMAIN, CText (side_name s), CText V2_PROFILE])"

definition derive_key :: "v2_env \<Rightarrow> side \<Rightarrow> bytes \<Rightarrow> bytes \<Rightarrow> bytes v2_result" where
  "derive_key E s ceremony wrapping_key =
     bind_result (checkpoint_key_info E s) (\<lambda>info.
       ok_or V2KeySchedule (vn_hkdf_salted E ceremony wrapping_key info 32))"

definition seal_checkpoint_plaintext ::
  "v2_env \<Rightarrow> bytes \<Rightarrow> side \<Rightarrow> v2_carrier \<Rightarrow> bytes \<Rightarrow> u64 \<Rightarrow> u64 option \<Rightarrow> bytes \<Rightarrow> bytes v2_result" where
  "seal_checkpoint_plaintext E plaintext s c wrapping_key generation expiry nonce =
     (if plaintext = [] \<or> length plaintext > CHECKPOINT_MAX_PLAINTEXT then Err V2Size
      else
        bind_result (checkpoint_aad E s (vc_carrier_ceremony_id c) generation expiry) (\<lambda>aad.
        bind_result (derive_key E s (vc_carrier_ceremony_id c) wrapping_key) (\<lambda>key.
        bind_result (ok_or V2KeySchedule (cr_cipher (vn_crypto E) key)) (\<lambda>cipher.
        bind_result (ok_or V2Authentication (ae_encrypt cipher nonce plaintext aad)) (\<lambda>ciphertext.
        if ciphertext = [] \<or> length ciphertext > CHECKPOINT_MAX_CIPHERTEXT then Err V2Size
        else encode_outer E \<lparr>ou_side = s, ou_ceremony = vc_carrier_ceremony_id c, ou_generation = generation,
               ou_expiry = expiry, ou_nonce = nonce, ou_ciphertext = ciphertext\<rparr>)))))"

datatype checkpoint_purpose = ResumeAt u64 | Inspect

record opened_checkpoint =
  oc_plaintext :: bytes
  oc_expiry :: "u64 option"
  oc_nonce :: bytes

definition open_checkpoint_for ::
  "v2_env \<Rightarrow> bytes \<Rightarrow> bytes \<Rightarrow> side \<Rightarrow> v2_carrier \<Rightarrow> u64 \<Rightarrow> checkpoint_purpose \<Rightarrow> opened_checkpoint v2_result" where
  "open_checkpoint_for E input wrapping_key expected_side c expected_generation purpose =
     bind_result (decode_outer E input) (\<lambda>u.
     if ou_side u \<noteq> expected_side \<or> ou_ceremony u \<noteq> vc_carrier_ceremony_id c \<or> ou_generation u = 0 \<or>
        ou_generation u \<noteq> expected_generation
     then Err V2Profile
     else if (case (purpose, ou_expiry u) of (ResumeAt now, Some expiry) \<Rightarrow> now \<ge> expiry | _ \<Rightarrow> False)
     then Err V2Expired
     else
       bind_result (checkpoint_aad E (ou_side u) (ou_ceremony u) (ou_generation u) (ou_expiry u)) (\<lambda>aad.
       bind_result (derive_key E (ou_side u) (ou_ceremony u) wrapping_key) (\<lambda>key.
       bind_result (ok_or V2KeySchedule (cr_cipher (vn_crypto E) key)) (\<lambda>cipher.
       bind_result (ok_or V2Authentication (ae_decrypt cipher (ou_nonce u) (ou_ciphertext u) aad)) (\<lambda>plaintext.
         Ok \<lparr>oc_plaintext = plaintext, oc_expiry = ou_expiry u, oc_nonce = ou_nonce u\<rparr>)))))"

definition open_checkpoint_plaintext ::
  "v2_env \<Rightarrow> bytes \<Rightarrow> bytes \<Rightarrow> side \<Rightarrow> v2_carrier \<Rightarrow> u64 \<Rightarrow> u64 \<Rightarrow> opened_checkpoint v2_result" where
  "open_checkpoint_plaintext E input wrapping_key s c generation now =
     open_checkpoint_for E input wrapping_key s c generation (ResumeAt now)"

definition inspect_checkpoint_plaintext ::
  "v2_env \<Rightarrow> bytes \<Rightarrow> bytes \<Rightarrow> v2_carrier \<Rightarrow> u64 \<Rightarrow> opened_checkpoint v2_result" where
  "inspect_checkpoint_plaintext E input wrapping_key c generation =
     open_checkpoint_for E input wrapping_key SideAllocator c generation Inspect"

section \<open>The inner octets\<close>

definition channel_octets :: "secure_channel \<Rightarrow> bytes" where
  "channel_octets ch =
     side_octet (sc_local_side ch) @ sc_transcript_hash ch @ sc_send_key ch @ sc_receive_key ch @
     sc_send_iv ch @ sc_receive_iv ch @ sc_exporter ch @ counter_octets (sc_next_send_counter ch) @
     counter_octets (sc_next_receive_counter ch) @ octet (of_bool (sc_terminal ch))"

definition decode_channel :: "bytes \<Rightarrow> secure_channel cursor_result" where
  "decode_channel input =
     bind_result (cur_side input) (\<lambda>(s, input).
     bind_result (cur_take 64 input) (\<lambda>(th, input).
     bind_result (cur_take 32 input) (\<lambda>(send_key, input).
     bind_result (cur_take 32 input) (\<lambda>(receive_key, input).
     bind_result (cur_take 12 input) (\<lambda>(send_iv, input).
     bind_result (cur_take 12 input) (\<lambda>(receive_iv, input).
     bind_result (cur_take 32 input) (\<lambda>(exporter, input).
     bind_result (cur_counter input) (\<lambda>(send_counter, input).
     bind_result (cur_counter input) (\<lambda>(receive_counter, input).
     bind_result (cur_boolean input) (\<lambda>(terminal, input).
       Ok (\<lparr>sc_local_side = s, sc_transcript_hash = th, sc_send_key = send_key,
            sc_receive_key = receive_key, sc_send_iv = send_iv, sc_receive_iv = receive_iv,
            sc_exporter = exporter, sc_next_send_counter = send_counter,
            sc_next_receive_counter = receive_counter, sc_terminal = terminal\<rparr>, input)))))))))))"

definition frame_octets :: "v2_env \<Rightarrow> v2_frame \<Rightarrow> bytes v2_result" where
  "frame_octets E frame = bind_result (encode_frame E frame) prefixed_bytes"

definition relay_octets :: "v2_env \<Rightarrow> v2_relay \<Rightarrow> bytes v2_result" where
  "relay_octets E r =
     bind_result (optional_octets (frame_octets E) (rs_cached_outbound r)) (\<lambda>cached.
       Ok (rs_membership_token r @ octet (rs_next_local_sequence r) @ octet (rs_next_peer_sequence r) @
           octet (of_bool (rs_awaiting_ack r)) @ cached))"

definition cur_frame :: "v2_env \<Rightarrow> nat \<Rightarrow> bytes \<Rightarrow> v2_frame cursor_result" where
  "cur_frame E maximum input =
     bind_result (cur_length_prefixed maximum input) (\<lambda>(bs, input).
     bind_result (decode_frame E bs) (\<lambda>frame. Ok (frame, input)))"

definition decode_relay :: "v2_env \<Rightarrow> bytes \<Rightarrow> v2_relay cursor_result" where
  "decode_relay E input =
     bind_result (cur_take 32 input) (\<lambda>(token, input).
     bind_result (cur_byte input) (\<lambda>(local_seq, input).
     bind_result (cur_byte input) (\<lambda>(peer_seq, input).
     bind_result (cur_boolean input) (\<lambda>(awaiting, input).
     bind_result (cur_optional (cur_frame E CHECKPOINT_MAX_CIPHERTEXT) input) (\<lambda>(cached, input).
     if awaiting \<noteq> (cached \<noteq> None) \<or>
        (case cached of None \<Rightarrow> False | Some frame \<Rightarrow> sealed_of frame = None)
     then Err V2Schema
     else Ok (\<lparr>rs_membership_token = token, rs_next_local_sequence = local_seq,
               rs_next_peer_sequence = peer_seq, rs_awaiting_ack = awaiting,
               rs_cached_outbound = cached\<rparr>, input))))))"

definition last_octets :: "side \<Rightarrow> v2_relay \<Rightarrow> last_object \<Rightarrow> bytes v2_result" where
  "last_octets s r l =
     (let omit_outbound_bytes = (lo_sender l = s \<and> rs_cached_outbound r \<noteq> None)
      in bind_result (optional_octets prefixed_bytes (if omit_outbound_bytes then None else lo_bytes l)) (\<lambda>bs.
           Ok (side_octet (lo_sender l) @ octet (kind_number (lo_kind l)) @ lo_intent_digest l @
               lo_content_hash l @ bs)))"

definition endpoint_octets ::
  "v2_env \<Rightarrow> 'v body_verifier \<Rightarrow> 'v v2_endpoint \<Rightarrow> secure_channel \<Rightarrow> v2_relay \<Rightarrow> u64 \<Rightarrow> bytes \<Rightarrow> bytes v2_result" where
  "endpoint_octets E B e ch r generation nonce =
     bind_result (encode_carrier E (e2_carrier e)) (\<lambda>carrier.
     bind_result (prefixed_bytes carrier) (\<lambda>carrier.
     bind_result (optional_octets Ok (e2_intent_digest e)) (\<lambda>intent.
     bind_result (optional_octets (last_octets (e2_side e) r) (e2_last e)) (\<lambda>l.
     bind_result (bv_checkpoint_state B (e2_body_verifier e)) (\<lambda>verifier_state.
     bind_result (prefixed_bytes verifier_state) (\<lambda>verifier_state.
     bind_result (relay_octets E r) (\<lambda>relay.
       Ok (ENDPOINT_INNER_DOMAIN @ side_octet (e2_side e) @ carrier @ octet (phase_number (e2_phase e)) @
           intent @ l @ verifier_state @ be_bytes 8 generation @ nonce @ channel_octets ch @ relay))))))))"

definition cur_last :: "v2_env \<Rightarrow> bytes \<Rightarrow> last_object cursor_result" where
  "cur_last E input =
     bind_result (cur_side input) (\<lambda>(sender, input).
     bind_result (cur_byte input) (\<lambda>(n, input).
     bind_result (kind_from_number n) (\<lambda>k.
     bind_result (cur_take 32 input) (\<lambda>(intent_digest, input).
     bind_result (cur_take 32 input) (\<lambda>(content_hash, input).
     bind_result (cur_optional (cur_length_prefixed CHECKPOINT_MAX_CIPHERTEXT) input) (\<lambda>(bs, input).
     bind_result
       (case bs of
          None \<Rightarrow> Ok ()
        | Some b \<Rightarrow> bind_result (decode_object E b) (\<lambda>object.
            if ob_kind object \<noteq> k \<or> ob_intent_digest object \<noteq> intent_digest \<or>
               ob_content_hash object \<noteq> content_hash
            then Err V2Schema else Ok ())) (\<lambda>_.
       Ok (\<lparr>lo_sender = sender, lo_bytes = bs, lo_kind = k, lo_intent_digest = intent_digest,
            lo_content_hash = content_hash\<rparr>, input))))))))"

fun consistent_projection :: "v2_env \<Rightarrow> v2_phase \<Rightarrow> bytes option \<Rightarrow> last_object option \<Rightarrow> bool" where
  "consistent_projection E PhBegin None None = True"
| "consistent_projection E PhAccountSelected None (Some l) \<longleftrightarrow>
     lo_sender l = SideClaimant \<and> lo_kind l = AccountSelect \<and>
     lo_intent_digest l = account_select_intent_digest E"
| "consistent_projection E PhOffered (Some i) (Some l) \<longleftrightarrow> lo_kind l = Offer \<and> lo_intent_digest l = i"
| "consistent_projection E PhIntentApproved (Some i) (Some l) \<longleftrightarrow> lo_kind l = IntentApprove \<and> lo_intent_digest l = i"
| "consistent_projection E PhPrepared (Some i) (Some l) \<longleftrightarrow> lo_kind l = Preparation \<and> lo_intent_digest l = i"
| "consistent_projection E PhConfirmed (Some i) (Some l) \<longleftrightarrow>
     lo_intent_digest l = i \<and> (lo_kind l = ComparisonConfirmed \<or> lo_kind l = BindingConfirmed)"
| "consistent_projection E PhFinalApproved (Some i) (Some l) \<longleftrightarrow> lo_kind l = FinalApprove \<and> lo_intent_digest l = i"
| "consistent_projection E PhPayloadSent (Some i) (Some l) \<longleftrightarrow> lo_kind l = Payload \<and> lo_intent_digest l = i"
| "consistent_projection E PhTerminal (Some i) (Some l) \<longleftrightarrow>
     lo_sender l = SideAllocator \<and> lo_kind l = Receipt \<and> lo_intent_digest l = i"
| "consistent_projection E _ _ _ = False"

definition decode_endpoint ::
  "v2_env \<Rightarrow> 'v body_verifier \<Rightarrow> bytes \<Rightarrow> side \<Rightarrow> v2_carrier \<Rightarrow> u64 \<Rightarrow> bytes \<Rightarrow> 'v \<Rightarrow>
     ('v v2_endpoint \<times> secure_channel \<times> v2_relay) v2_result" where
  "decode_endpoint E B input expected_side expected_carrier expected_generation expected_nonce verifier =
     bind_result (cur_take (length ENDPOINT_INNER_DOMAIN) input) (\<lambda>(domain, input).
     if domain \<noteq> ENDPOINT_INNER_DOMAIN then Err V2Schema
     else
       bind_result (cur_side input) (\<lambda>(s, input).
       bind_result (cur_length_prefixed CHECKPOINT_MAX_PLAINTEXT input) (\<lambda>(carrier_bytes, input).
       bind_result (decode_carrier E carrier_bytes) (\<lambda>carrier.
       if s \<noteq> expected_side \<or> carrier \<noteq> expected_carrier then Err V2Profile
       else
         bind_result (cur_byte input) (\<lambda>(p, input).
         bind_result (number_phase p) (\<lambda>phase.
         bind_result (cur_optional (cur_take 32) input) (\<lambda>(intent_digest, input).
         bind_result (cur_optional (cur_last E) input) (\<lambda>(l, input).
         bind_result (cur_length_prefixed_allow_empty CHECKPOINT_MAX_PLAINTEXT input) (\<lambda>(verifier_state, input).
         let (restored, verifier) = bv_restore_checkpoint_state B verifier verifier_state in
         bind_result restored (\<lambda>_.
         bind_result (cur_u64 input) (\<lambda>(generation, input).
         bind_result (cur_take 12 input) (\<lambda>(nonce, input).
         bind_result (decode_channel input) (\<lambda>(ch, input).
         bind_result (decode_relay E input) (\<lambda>(r, input).
         if input \<noteq> [] \<or> generation \<noteq> expected_generation \<or> nonce \<noteq> expected_nonce \<or>
            sc_local_side ch \<noteq> s \<or> sc_terminal ch \<or>
            (case l of None \<Rightarrow> False
             | Some l \<Rightarrow> lo_bytes l = None \<and> \<not> (lo_sender l = s \<and> rs_cached_outbound r \<noteq> None)) \<or>
            \<not> consistent_projection E phase intent_digest l
         then Err V2Schema
         else Ok (\<lparr>e2_side = s, e2_carrier = carrier, e2_phase = phase, e2_intent_digest = intent_digest,
                   e2_last = l, e2_body_verifier = verifier, e2_checkpoint_generation = generation,
                   e2_checkpoint_nonce = Some nonce\<rparr>, ch, r)))))))))))))))"

section \<open>Sealing and restoring an endpoint\<close>

definition live_expiry :: "u64 option \<Rightarrow> u64 \<Rightarrow> u64 \<Rightarrow> unit v2_result" where
  "live_expiry expiry carrier_expiry now =
     (case expiry of
        None \<Rightarrow> Err V2Schema
      | Some x \<Rightarrow>
          if x = carrier_expiry \<and> now < x then Ok ()
          else if now \<ge> carrier_expiry then Err V2Expired
          else Err V2Schema)"

definition validate_checkpoint_phase ::
  "side \<Rightarrow> v2_phase \<Rightarrow> bool \<Rightarrow> u64 option \<Rightarrow> u64 \<Rightarrow> u64 \<Rightarrow> unit v2_result" where
  "validate_checkpoint_phase s phase released expiry carrier_expiry now =
     (if phase = PhTerminal \<and> \<not> (s = SideAllocator \<and> released) then Err V2Terminal
      else case s of
        SideAllocator \<Rightarrow> live_expiry expiry carrier_expiry now
      | SideClaimant \<Rightarrow>
          if phase = PhPayloadSent then (if expiry = None then Ok () else Err V2Schema)
          else if phase = PhFinalApproved then live_expiry expiry carrier_expiry now
          else Err V2Phase)"

definition generation_refused :: "u64 \<Rightarrow> u64 \<Rightarrow> bytes option \<Rightarrow> bytes \<Rightarrow> bool" where
  "generation_refused generation current last_nonce nonce \<longleftrightarrow>
     generation = 0 \<or> generation \<noteq> saturating_add_u64 current 1 \<or> last_nonce = Some nonce"

definition seal_checkpoint ::
  "v2_env \<Rightarrow> 'v body_verifier \<Rightarrow> 'v v2_endpoint \<Rightarrow> secure_channel \<Rightarrow> v2_relay \<Rightarrow> bytes \<Rightarrow> u64 \<Rightarrow> u64 option \<Rightarrow>
     bytes \<Rightarrow> u64 \<Rightarrow> bytes v2_result \<times> 'v v2_endpoint" where
  "seal_checkpoint E B e ch r wrapping_key generation expiry nonce now =
     (if sc_local_side ch \<noteq> e2_side e then (Err V2Direction, e)
      else
        bind_st (validate_checkpoint_phase (e2_side e) (e2_phase e) (receipt_released e) expiry
          (vc_relay_expires_at (e2_carrier e)) now, e) (\<lambda>_ e.
        if generation_refused generation (e2_checkpoint_generation e) (e2_checkpoint_nonce e) nonce
        then (Err V2Counter, e)
        else
          bind_st (endpoint_octets E B e ch r generation nonce, e) (\<lambda>plaintext e.
          bind_st (seal_checkpoint_plaintext E plaintext (e2_side e) (e2_carrier e) wrapping_key generation
            expiry nonce, e) (\<lambda>checkpoint e.
            (Ok checkpoint, e\<lparr>e2_checkpoint_generation := generation, e2_checkpoint_nonce := Some nonce\<rparr>)))))"

definition restore_checkpoint ::
  "v2_env \<Rightarrow> 'v body_verifier \<Rightarrow> bytes \<Rightarrow> bytes \<Rightarrow> side \<Rightarrow> v2_carrier \<Rightarrow> u64 \<Rightarrow> u64 \<Rightarrow> 'v \<Rightarrow>
     ('v v2_endpoint \<times> secure_channel \<times> v2_relay) v2_result" where
  "restore_checkpoint E B input wrapping_key s c generation now verifier =
     bind_result (open_checkpoint_plaintext E input wrapping_key s c generation now) (\<lambda>opened.
     bind_result (decode_endpoint E B (oc_plaintext opened) s c generation (oc_nonce opened) verifier)
       (\<lambda>(e, ch, r).
     bind_result (validate_checkpoint_phase (e2_side e) (e2_phase e) (receipt_released e) (oc_expiry opened)
       (vc_relay_expires_at (e2_carrier e)) now) (\<lambda>_. Ok (e, ch, r))))"

definition inspect_allocator_endpoint ::
  "v2_env \<Rightarrow> 'v body_verifier \<Rightarrow> bytes \<Rightarrow> bytes \<Rightarrow> v2_carrier \<Rightarrow> u64 \<Rightarrow> 'v \<Rightarrow>
     ('v v2_endpoint \<times> secure_channel \<times> v2_relay) v2_result" where
  "inspect_allocator_endpoint E B input wrapping_key c generation verifier =
     bind_result (inspect_checkpoint_plaintext E input wrapping_key c generation) (\<lambda>opened.
     bind_result (decode_endpoint E B (oc_plaintext opened) SideAllocator c generation (oc_nonce opened) verifier)
       (\<lambda>(e, ch, r).
     if e2_phase e = PhTerminal \<and> \<not> receipt_released e then Err V2Terminal
     else if oc_expiry opened \<noteq> Some (vc_relay_expires_at c) then Err V2Schema
     else Ok (e, ch, r)))"

end
