(* ===== verification/V2_Bootstrap.thy ===== *)
theory V2_Bootstrap
  imports V2_Checkpoint
begin

text \<open>
  The allocator before the channel is confirmed: \<^verbatim>\<open>CredentialV2AllocatorBootstrap\<close> of
  \<^verbatim>\<open>src/src/credential_v2/bootstrap.rs\<close>, with its checkpoints.
\<close>

section \<open>State\<close>

datatype allocator_mode = ModeFull | ModeManual

datatype bootstrap_phase = BpAllocated | BpClaimed | BpShareSent | BpFinishedSent

record v2_bootstrap =
  bo_carrier :: v2_carrier
  bo_mode :: allocator_mode
  bo_presence :: v2_presence
  bo_profile_digest :: bytes
  bo_relay :: v2_relay
  bo_phase :: bootstrap_phase
  bo_fresh_scalar :: "bytes option"
  bo_peer_cpace :: "v2_frame option"
  bo_peer_finished :: "v2_frame option"
  bo_pending :: "pending_channel option"
  bo_cached_outbound :: "v2_frame option"
  bo_checkpoint_generation :: u64
  bo_checkpoint_nonce :: "bytes option"

definition bootstrap_start ::
  "v2_env \<Rightarrow> v2_carrier \<Rightarrow> v2_presence \<Rightarrow> bytes \<Rightarrow> v2_relay \<Rightarrow> allocator_mode \<Rightarrow> v2_bootstrap v2_result" where
  "bootstrap_start E c p profile_digest r mode =
     bind_result (v2_derive E c profile_digest) (\<lambda>_.
     bind_result
       (if mode = ModeManual then
          bind_result (map_err (\<lambda>_. V2Schema) (words_from_secret (pr_cpace_secret p))) (\<lambda>_.
            if vc_expected_allocator_key c = None then Err V2Profile else Ok ())
        else Ok ()) (\<lambda>_.
       Ok \<lparr>bo_carrier = c, bo_mode = mode, bo_presence = p, bo_profile_digest = profile_digest, bo_relay = r,
           bo_phase = BpAllocated, bo_fresh_scalar = None, bo_peer_cpace = None, bo_peer_finished = None,
           bo_pending = None, bo_cached_outbound = None, bo_checkpoint_generation = 0,
           bo_checkpoint_nonce = None\<rparr>))"

section \<open>Transfer texts\<close>

definition bootstrap_presence_code :: "v2_env \<Rightarrow> v2_bootstrap \<Rightarrow> string option" where
  "bootstrap_presence_code E b =
     (if bo_mode b = ModeFull then presence_display_code E (bo_presence b) else None)"

definition bootstrap_handoff :: "v2_env \<Rightarrow> v2_bootstrap \<Rightarrow> handoff option v2_result" where
  "bootstrap_handoff E b =
     (if bo_mode b \<noteq> ModeFull then Err V2Phase
      else case pr_claim_token (bo_presence b) of
        None \<Rightarrow> Ok None
      | Some t \<Rightarrow>
          bind_result (map_err (\<lambda>_. V2Profile) (handoff_new E (bo_carrier b)
            \<lparr>pk_cpace_secret = pr_cpace_secret (bo_presence b), pk_claim_token = t\<rparr>)) (\<lambda>h. Ok (Some h)))"

definition manual_transfer_text :: "v2_env \<Rightarrow> v2_bootstrap \<Rightarrow> (string \<times> string) option v2_result" where
  "manual_transfer_text E b =
     (if bo_mode b \<noteq> ModeManual then Err V2Phase
      else case pr_claim_token (bo_presence b) of
        None \<Rightarrow> Ok None
      | Some t \<Rightarrow>
          bind_result (map_err (\<lambda>_. V2Profile) (manual_new E (bo_carrier b) t 0)) (\<lambda>bootstrap.
          bind_result (map_err (\<lambda>_. V2Schema) (words_from_secret (pr_cpace_secret (bo_presence b)))) (\<lambda>w.
          bind_result (map_err (\<lambda>_. V2Schema) (manual_encode E bootstrap)) (\<lambda>text.
          bind_result (map_err (\<lambda>_. V2Schema) (words_encode E w)) (\<lambda>phrase. Ok (Some (text, phrase)))))))"

section \<open>Steps\<close>

definition claimant_admitted :: "v2_bootstrap \<Rightarrow> unit v2_result \<times> v2_bootstrap" where
  "claimant_admitted b =
     (if bo_phase b \<noteq> BpAllocated then (Err V2Phase, b)
      else
        let (token, p) = take_claim_token (bo_presence b) in
        bind_st (token, b\<lparr>bo_presence := p\<rparr>) (\<lambda>_ b. (Ok (), b\<lparr>bo_phase := BpClaimed\<rparr>)))"

definition local_share ::
  "v2_env \<Rightarrow> v2_bootstrap \<Rightarrow> bytes \<Rightarrow> (v2_context \<times> cpace_state \<times> v2_frame) v2_result" where
  "local_share E b scalar =
     bind_result (v2_derive E (bo_carrier b) (bo_profile_digest b)) (\<lambda>x.
     bind_result (start_cpace E x SideAllocator (bo_presence b) scalar) (\<lambda>(st, message).
     bind_result (frame_cpace message) (\<lambda>frame. Ok (x, st, frame))))"

definition bootstrap_start_cpace :: "v2_env \<Rightarrow> v2_bootstrap \<Rightarrow> bytes \<Rightarrow> v2_frame v2_result \<times> v2_bootstrap" where
  "bootstrap_start_cpace E b scalar =
     (if bo_phase b \<noteq> BpClaimed then (Err V2Phase, b)
      else bind_st (local_share E b scalar, b) (\<lambda>(_, _, frame) b.
        (Ok frame, b\<lparr>bo_fresh_scalar := Some scalar, bo_cached_outbound := Some frame,
                     bo_phase := BpShareSent\<rparr>)))"

definition retain_peer_cpace :: "v2_bootstrap \<Rightarrow> v2_frame \<Rightarrow> unit v2_result \<times> v2_bootstrap" where
  "retain_peer_cpace b peer_frame =
     (if bo_phase b \<noteq> BpShareSent then (Err V2Phase, b)
      else bind_st (ok_or V2Schema (cpace_message_of peer_frame), b) (\<lambda>message b.
        if cm_side message \<noteq> SideClaimant then (Err V2Direction, b)
        else if (case bo_peer_cpace b of None \<Rightarrow> False | Some retained \<Rightarrow> retained \<noteq> peer_frame)
        then (Err V2Profile, b)
        else (Ok (), b\<lparr>bo_peer_cpace := Some peer_frame\<rparr>)))"

text \<open>The schedule derived from the retained share, common to preparing and restoring Finished.\<close>

definition derive_pending ::
  "v2_env \<Rightarrow> v2_context \<Rightarrow> cpace_state \<Rightarrow> v2_frame \<Rightarrow> v2_frame \<Rightarrow> cpace_message \<Rightarrow> pending_channel v2_result" where
  "derive_pending E x st local_frame peer_frame peer_message =
     bind_result (map_err (\<lambda>_. V2Cpace) (cpace_finish (vn_crypto E) (vn_x25519 E) st peer_message)) (\<lambda>isk.
     bind_result (encode_frame E local_frame) (\<lambda>fa.
     bind_result (encode_frame E peer_frame) (\<lambda>fb.
       v2_new_pending E SideAllocator isk (cx_public_context x) fa fb)))"

definition prepare_finished :: "v2_env \<Rightarrow> v2_bootstrap \<Rightarrow> v2_frame v2_result \<times> v2_bootstrap" where
  "prepare_finished E b =
     (if bo_phase b \<noteq> BpShareSent then (Err V2Phase, b)
      else
        bind_st (ok_or V2Phase (bo_peer_cpace b), b) (\<lambda>peer_frame b.
        bind_st (ok_or V2Schema (cpace_message_of peer_frame), b) (\<lambda>peer_message b.
        bind_st (ok_or V2Phase (bo_fresh_scalar b), b) (\<lambda>scalar b.
        bind_st (local_share E b scalar, b) (\<lambda>(x, st, local_frame) b.
        if bo_cached_outbound b \<noteq> Some local_frame then (Err V2Profile, b)
        else
          bind_st (derive_pending E x st local_frame peer_frame peer_message, b) (\<lambda>pending b.
            (Ok (v2_finished_frame pending),
             b\<lparr>bo_pending := Some pending, bo_cached_outbound := Some (v2_finished_frame pending),
               bo_phase := BpFinishedSent\<rparr>)))))))"

definition bootstrap_receive_cpace :: "v2_env \<Rightarrow> v2_bootstrap \<Rightarrow> v2_frame \<Rightarrow> v2_frame v2_result \<times> v2_bootstrap" where
  "bootstrap_receive_cpace E b peer_frame =
     bind_st (retain_peer_cpace b peer_frame) (\<lambda>_ b. prepare_finished E b)"

definition retain_peer_finished :: "v2_bootstrap \<Rightarrow> v2_frame \<Rightarrow> unit v2_result \<times> v2_bootstrap" where
  "retain_peer_finished b peer_frame =
     (if bo_phase b \<noteq> BpFinishedSent then (Err V2Phase, b)
      else bind_st (ok_or V2Finished (finished_of peer_frame), b) (\<lambda>(s, _) b.
        if s \<noteq> SideClaimant then (Err V2Direction, b)
        else if (case bo_peer_finished b of None \<Rightarrow> False | Some retained \<Rightarrow> retained \<noteq> peer_frame)
        then (Err V2Profile, b)
        else (Ok (), b\<lparr>bo_peer_finished := Some peer_frame\<rparr>)))"

text \<open>The bootstrap is consumed: only the channel and the relay projection remain.\<close>

definition bootstrap_confirm :: "v2_bootstrap \<Rightarrow> v2_frame \<Rightarrow> (secure_channel \<times> v2_relay) v2_result" where
  "bootstrap_confirm b peer_finished =
     (if bo_phase b \<noteq> BpFinishedSent then Err V2Phase
      else bind_result (ok_or V2Phase (bo_pending b)) (\<lambda>pending.
        bind_result (v2_confirm pending peer_finished) (\<lambda>ch. Ok (ch, bo_relay b))))"

section \<open>Consistency\<close>

definition is_cpace_of :: "side \<Rightarrow> v2_frame \<Rightarrow> bool" where
  "is_cpace_of s f = (case cpace_message_of f of None \<Rightarrow> False | Some message \<Rightarrow> cm_side message = s)"

definition is_finished_of :: "side \<Rightarrow> v2_frame \<Rightarrow> bool" where
  "is_finished_of s f = (case finished_of f of None \<Rightarrow> False | Some (sd, _) \<Rightarrow> sd = s)"

definition is_some_and :: "('a \<Rightarrow> bool) \<Rightarrow> 'a option \<Rightarrow> bool" where
  "is_some_and p x = (case x of None \<Rightarrow> False | Some a \<Rightarrow> p a)"

definition is_none_or :: "('a \<Rightarrow> bool) \<Rightarrow> 'a option \<Rightarrow> bool" where
  "is_none_or p x = (case x of None \<Rightarrow> True | Some a \<Rightarrow> p a)"

definition projection_is_consistent :: "v2_bootstrap \<Rightarrow> bool" where
  "projection_is_consistent b =
     (if bo_mode b = ModeManual \<and>
         (\<not> is_ok (words_from_secret (pr_cpace_secret (bo_presence b))) \<or>
          vc_expected_allocator_key (bo_carrier b) = None)
      then False
      else
        let claim = pr_claim_token (bo_presence b) in
        (case bo_phase b of
           BpAllocated \<Rightarrow>
             claim \<noteq> None \<and> bo_fresh_scalar b = None \<and> bo_peer_cpace b = None \<and> bo_peer_finished b = None \<and>
             bo_pending b = None \<and> bo_cached_outbound b = None
         | BpClaimed \<Rightarrow>
             claim = None \<and> bo_fresh_scalar b = None \<and> bo_peer_cpace b = None \<and> bo_peer_finished b = None \<and>
             bo_pending b = None \<and> bo_cached_outbound b = None
         | BpShareSent \<Rightarrow>
             claim = None \<and> bo_fresh_scalar b \<noteq> None \<and>
             is_none_or (is_cpace_of SideClaimant) (bo_peer_cpace b) \<and> bo_peer_finished b = None \<and>
             bo_pending b = None \<and> is_some_and (is_cpace_of SideAllocator) (bo_cached_outbound b)
         | BpFinishedSent \<Rightarrow>
             claim = None \<and> bo_fresh_scalar b \<noteq> None \<and>
             is_some_and (is_cpace_of SideClaimant) (bo_peer_cpace b) \<and>
             is_some_and (is_finished_of SideAllocator) (bo_cached_outbound b) \<and>
             is_none_or (is_finished_of SideClaimant) (bo_peer_finished b)))"

section \<open>Checkpoints\<close>

definition OLD_INNER_DOMAIN :: bytes where "OLD_INNER_DOMAIN = ascii ''cbcl-pairing allocator bootstrap/v2'' @ [0]"
definition BOOTSTRAP_INNER_DOMAIN :: bytes where
  "BOOTSTRAP_INNER_DOMAIN = ascii ''cbcl-pairing allocator bootstrap/v3''"
definition MAX_INNER_BYTES :: nat where "MAX_INNER_BYTES = 69616"
definition MAX_FRAME_BYTES :: nat where "MAX_FRAME_BYTES = 69600"

definition bootstrap_phase_number :: "bootstrap_phase \<Rightarrow> u8" where
  "bootstrap_phase_number p =
     (case p of BpAllocated \<Rightarrow> 0 | BpClaimed \<Rightarrow> 1 | BpShareSent \<Rightarrow> 2 | BpFinishedSent \<Rightarrow> 3)"

definition bootstrap_number_phase :: "nat \<Rightarrow> bootstrap_phase v2_result" where
  "bootstrap_number_phase n =
     (if n = 0 then Ok BpAllocated else if n = 1 then Ok BpClaimed else if n = 2 then Ok BpShareSent
      else if n = 3 then Ok BpFinishedSent else Err V2Schema)"

definition mode_number :: "allocator_mode \<Rightarrow> u8" where
  "mode_number m = (case m of ModeFull \<Rightarrow> 0 | ModeManual \<Rightarrow> 1)"

definition bootstrap_prefixed :: "bytes \<Rightarrow> bytes v2_result" where
  "bootstrap_prefixed v =
     (if v = [] \<or> length v > MAX_FRAME_BYTES then Err V2Size
      else bind_result (ok_or V2Size (try_into u32_max (length v))) (\<lambda>n. Ok (be_bytes 4 n @ v)))"

definition bootstrap_frame_octets :: "v2_env \<Rightarrow> v2_frame \<Rightarrow> bytes v2_result" where
  "bootstrap_frame_octets E f = bind_result (encode_frame E f) bootstrap_prefixed"

definition bootstrap_octets :: "v2_env \<Rightarrow> v2_bootstrap \<Rightarrow> u64 \<Rightarrow> bytes \<Rightarrow> bytes v2_result" where
  "bootstrap_octets E b generation nonce =
     (if \<not> projection_is_consistent b then Err V2Schema
      else
        bind_result (encode_carrier E (bo_carrier b)) (\<lambda>carrier.
        bind_result (bootstrap_prefixed carrier) (\<lambda>carrier.
        bind_result (optional_octets Ok (pr_claim_token (bo_presence b))) (\<lambda>token.
        bind_result (optional_octets Ok (bo_fresh_scalar b)) (\<lambda>scalar.
        bind_result (optional_octets (bootstrap_frame_octets E) (bo_peer_cpace b)) (\<lambda>peer_cpace.
        bind_result (optional_octets (bootstrap_frame_octets E) (bo_peer_finished b)) (\<lambda>peer_finished.
        bind_result (optional_octets (bootstrap_frame_octets E) (bo_cached_outbound b)) (\<lambda>cached.
        let r = bo_relay b;
            output = BOOTSTRAP_INNER_DOMAIN @ octet (mode_number (bo_mode b)) @ carrier @ bo_profile_digest b @
              octet (bootstrap_phase_number (bo_phase b)) @ pr_cpace_secret (bo_presence b) @ token @
              rs_membership_token r @ octet (rs_next_local_sequence r) @ octet (rs_next_peer_sequence r) @
              octet (of_bool (rs_awaiting_ack r)) @ scalar @ peer_cpace @ peer_finished @ cached @
              be_bytes 8 generation @ nonce
        in if length output > MAX_INNER_BYTES then Err V2Size else Ok output))))))))"

definition read_mode :: "bytes \<Rightarrow> allocator_mode v2_result" where
  "read_mode tag =
     (if tag = OLD_INNER_DOMAIN then Ok ModeFull
      else if take (length BOOTSTRAP_INNER_DOMAIN) tag = BOOTSTRAP_INNER_DOMAIN then
        (let m = unat (tag ! length BOOTSTRAP_INNER_DOMAIN) in
         if m = 0 then Ok ModeFull else if m = 1 then Ok ModeManual else Err V2Schema)
      else Err V2Schema)"

definition rebuild_pending :: "v2_env \<Rightarrow> v2_bootstrap \<Rightarrow> v2_bootstrap v2_result" where
  "rebuild_pending E b =
     bind_result (ok_or V2Schema (bo_fresh_scalar b)) (\<lambda>scalar.
     bind_result (ok_or V2Schema (bo_peer_cpace b)) (\<lambda>peer.
     bind_result (ok_or V2Schema (cpace_message_of peer)) (\<lambda>peer_message.
     bind_result (local_share E b scalar) (\<lambda>(x, st, local_frame).
     bind_result (derive_pending E x st local_frame peer peer_message) (\<lambda>pending.
     if bo_cached_outbound b \<noteq> Some (v2_finished_frame pending) then Err V2Profile
     else Ok (b\<lparr>bo_pending := Some pending\<rparr>))))))"

definition check_share :: "v2_env \<Rightarrow> v2_bootstrap \<Rightarrow> v2_bootstrap v2_result" where
  "check_share E b =
     bind_result (ok_or V2Schema (bo_fresh_scalar b)) (\<lambda>scalar.
     bind_result (local_share E b scalar) (\<lambda>(_, _, frame).
     if bo_cached_outbound b \<noteq> Some frame then Err V2Profile else Ok b))"

definition decode_bootstrap ::
  "v2_env \<Rightarrow> bytes \<Rightarrow> v2_carrier \<Rightarrow> u64 \<Rightarrow> bytes \<Rightarrow> allocator_mode \<Rightarrow> v2_bootstrap v2_result" where
  "decode_bootstrap E input expected_carrier expected_generation expected_nonce expected_mode =
     bind_result (cur_take (length OLD_INNER_DOMAIN) input) (\<lambda>(tag, input).
     bind_result (read_mode tag) (\<lambda>mode.
     if mode \<noteq> expected_mode then Err V2Profile
     else
       bind_result (cur_length_prefixed MAX_INNER_BYTES input) (\<lambda>(carrier_bytes, input).
       bind_result (decode_carrier E carrier_bytes) (\<lambda>carrier.
       if carrier \<noteq> expected_carrier then Err V2Profile
       else
         bind_result (cur_take 32 input) (\<lambda>(profile_digest, input).
         bind_result (cur_byte input) (\<lambda>(p, input).
         bind_result (bootstrap_number_phase p) (\<lambda>phase.
         bind_result (cur_take 16 input) (\<lambda>(cpace_secret, input).
         bind_result (cur_optional (cur_take 16) input) (\<lambda>(token, input).
         bind_result (cur_take 32 input) (\<lambda>(membership_token, input).
         bind_result (cur_byte input) (\<lambda>(local_seq, input).
         bind_result (cur_byte input) (\<lambda>(peer_seq, input).
         bind_result (cur_boolean input) (\<lambda>(awaiting, input).
         bind_result (cur_optional (cur_take 32) input) (\<lambda>(scalar, input).
         bind_result (cur_optional (cur_frame E MAX_FRAME_BYTES) input) (\<lambda>(peer_cpace, input).
         bind_result (cur_optional (cur_frame E MAX_FRAME_BYTES) input) (\<lambda>(peer_finished, input).
         bind_result (cur_optional (cur_frame E MAX_FRAME_BYTES) input) (\<lambda>(cached, input).
         bind_result (cur_u64 input) (\<lambda>(generation, input).
         bind_result (cur_take 12 input) (\<lambda>(nonce, input).
         if input \<noteq> [] \<or> generation \<noteq> expected_generation \<or> nonce \<noteq> expected_nonce then Err V2Schema
         else
           let b = \<lparr>bo_carrier = carrier, bo_mode = mode,
                 bo_presence = presence_from_checkpoint cpace_secret token,
                 bo_profile_digest = profile_digest,
                 bo_relay = \<lparr>rs_membership_token = membership_token, rs_next_local_sequence = local_seq,
                   rs_next_peer_sequence = peer_seq, rs_awaiting_ack = awaiting, rs_cached_outbound = None\<rparr>,
                 bo_phase = phase, bo_fresh_scalar = scalar, bo_peer_cpace = peer_cpace,
                 bo_peer_finished = peer_finished, bo_pending = None, bo_cached_outbound = cached,
                 bo_checkpoint_generation = generation, bo_checkpoint_nonce = Some nonce\<rparr>
           in if \<not> projection_is_consistent b then Err V2Schema
              else if phase = BpFinishedSent then rebuild_pending E b
              else if phase = BpShareSent then check_share E b
              else Ok b)))))))))))))))))))"

definition bootstrap_seal_checkpoint ::
  "v2_env \<Rightarrow> v2_bootstrap \<Rightarrow> bytes \<Rightarrow> u64 \<Rightarrow> bytes \<Rightarrow> u64 \<Rightarrow> bytes v2_result \<times> v2_bootstrap" where
  "bootstrap_seal_checkpoint E b wrapping_key generation nonce now =
     (if now \<ge> vc_relay_expires_at (bo_carrier b) then (Err V2Expired, b)
      else if generation_refused generation (bo_checkpoint_generation b) (bo_checkpoint_nonce b) nonce
      then (Err V2Counter, b)
      else
        bind_st (bootstrap_octets E b generation nonce, b) (\<lambda>plaintext b.
        bind_st (seal_checkpoint_plaintext E plaintext SideAllocator (bo_carrier b) wrapping_key generation
          (Some (vc_relay_expires_at (bo_carrier b))) nonce, b) (\<lambda>checkpoint b.
          (Ok checkpoint, b\<lparr>bo_checkpoint_generation := generation, bo_checkpoint_nonce := Some nonce\<rparr>))))"

definition bootstrap_restore_checkpoint ::
  "v2_env \<Rightarrow> bytes \<Rightarrow> bytes \<Rightarrow> v2_carrier \<Rightarrow> u64 \<Rightarrow> u64 \<Rightarrow> allocator_mode \<Rightarrow> v2_bootstrap v2_result" where
  "bootstrap_restore_checkpoint E input wrapping_key c generation now mode =
     bind_result (open_checkpoint_plaintext E input wrapping_key SideAllocator c generation now) (\<lambda>opened.
     if oc_expiry opened \<noteq> Some (vc_relay_expires_at c) then Err V2Schema
     else decode_bootstrap E (oc_plaintext opened) c generation (oc_nonce opened) mode)"

definition bootstrap_inspect_checkpoint ::
  "v2_env \<Rightarrow> bytes \<Rightarrow> bytes \<Rightarrow> v2_carrier \<Rightarrow> u64 \<Rightarrow> allocator_mode \<Rightarrow> v2_bootstrap v2_result" where
  "bootstrap_inspect_checkpoint E input wrapping_key c generation mode =
     bind_result (inspect_checkpoint_plaintext E input wrapping_key c generation) (\<lambda>opened.
     if oc_expiry opened \<noteq> Some (vc_relay_expires_at c) then Err V2Schema
     else decode_bootstrap E (oc_plaintext opened) c generation (oc_nonce opened) mode)"

end
