(* ===== verification/V2_Allocator.thy ===== *)
theory V2_Allocator
  imports V2_Bootstrap
begin

text \<open>
  The relay-driven allocator session of \<^verbatim>\<open>src/src/credential_v2/allocator.rs\<close>: a state machine over
  relay messages with a persistence gate. An operation returns its effects, or an error, and the
  session after the call.
\<close>

section \<open>State\<close>

datatype allocator_effect =
    ASend bytes
  | ACheckpoint u64 bytes bytes
  | APendingAllocation bytes
  | AEstablished bytes
  | AReceivedObject v2_object
  | ATerminal

datatype 'v allocator_state =
    AwaitWelcome
  | AwaitAllocation
  | AlBootstrap v2_bootstrap
  | AlEstablished "'v v2_endpoint" secure_channel v2_relay
  | AlTerminal

record 'v allocator_session =
  al_template :: v2_carrier
  al_presence :: "v2_presence option"
  al_cpace_scalar :: "bytes option"
  al_mode :: allocator_mode
  al_profile_digest :: bytes
  al_claim_commitment :: bytes
  al_wrapping_key :: bytes
  al_body_verifier :: "'v option"
  al_state :: "'v allocator_state"
  al_persistence_gate :: "u64 option"
  al_after_persist :: "allocator_effect list"
  al_resume_after_welcome :: bool

type_synonym 'v allocator_step = "allocator_effect list v2_result \<times> 'v allocator_session"

record allocator_input =
  an_mode :: allocator_mode
  an_application_context :: string
  an_relay_origin :: string
  an_mailbox_id :: bytes
  an_carrier_ceremony_id :: bytes
  an_carrier_nonce :: bytes
  an_cpace_secret :: bytes
  an_claim_token :: bytes
  an_cpace_scalar :: bytes
  an_profile_digest :: bytes
  an_expected_allocator_key :: "bytes option"
  an_checkpoint_wrapping_key :: bytes

definition relay_message :: "v2_env \<Rightarrow> client_message \<Rightarrow> bytes v2_result" where
  "relay_message E m = map_err (\<lambda>_. V2Schema) (encode_client_message (vn_codec E) m)"

definition allocator_new :: "v2_env \<Rightarrow> allocator_input \<Rightarrow> 'v \<Rightarrow> 'v allocator_session v2_result" where
  "allocator_new E i verifier =
     bind_result
       (if an_mode i = ModeManual then
          bind_result (map_err (\<lambda>_. V2Schema) (words_from_secret (an_cpace_secret i))) (\<lambda>_.
            if an_expected_allocator_key i = None then Err V2Profile else Ok ())
        else Ok ()) (\<lambda>_.
     let commitment = claim_commitment (v2_sha256 E) (an_mailbox_id i) (an_claim_token i) in
     bind_result (carrier_new E
       \<lparr>vc_application_context = an_application_context i, vc_relay_origin = an_relay_origin i,
        vc_mailbox_id = an_mailbox_id i, vc_carrier_ceremony_id = an_carrier_ceremony_id i,
        vc_carrier_nonce = an_carrier_nonce i, vc_claim_commitment = commitment,
        vc_relay_expires_at = u64_max, vc_expected_allocator_key = an_expected_allocator_key i\<rparr>) (\<lambda>template.
       Ok \<lparr>al_template = template,
           al_presence = Some (presence_new (an_cpace_secret i) (an_claim_token i)),
           al_cpace_scalar = Some (an_cpace_scalar i), al_mode = an_mode i,
           al_profile_digest = an_profile_digest i, al_claim_commitment = commitment,
           al_wrapping_key = an_checkpoint_wrapping_key i, al_body_verifier = Some verifier,
           al_state = AwaitWelcome, al_persistence_gate = None, al_after_persist = [],
           al_resume_after_welcome = False\<rparr>))"

definition allocator_restore ::
  "v2_env \<Rightarrow> 'v body_verifier \<Rightarrow> bytes \<Rightarrow> bytes \<Rightarrow> v2_carrier \<Rightarrow> u64 \<Rightarrow> bytes \<Rightarrow> u64 \<Rightarrow> allocator_mode \<Rightarrow> bytes \<Rightarrow>
     'v \<Rightarrow> 'v allocator_session v2_result" where
  "allocator_restore E B checkpoint wrapping_key c generation profile_digest now mode scalar verifier =
     (let session = \<lparr>al_template = c, al_presence = None, al_cpace_scalar = None, al_mode = mode,
           al_profile_digest = profile_digest, al_claim_commitment = vc_claim_commitment c,
           al_wrapping_key = wrapping_key, al_body_verifier = None, al_state = AlTerminal,
           al_persistence_gate = None, al_after_persist = [], al_resume_after_welcome = True\<rparr>
      in case bootstrap_restore_checkpoint E checkpoint wrapping_key c generation now mode of
           Ok b \<Rightarrow>
             if bo_profile_digest b \<noteq> profile_digest then Err V2Profile
             else Ok (session\<lparr>al_cpace_scalar := (if bo_phase b = BpAllocated then Some scalar else None),
                    al_body_verifier := Some verifier, al_state := AlBootstrap b\<rparr>)
         | Panic \<Rightarrow> Panic
         | Err _ \<Rightarrow>
             bind_result (restore_checkpoint E B checkpoint wrapping_key SideAllocator c generation now verifier)
               (\<lambda>(e, ch, r). Ok (session\<lparr>al_state := AlEstablished e ch r\<rparr>)))"

section \<open>Observations\<close>

definition allocator_start :: "v2_env \<Rightarrow> 'v allocator_session \<Rightarrow> bytes v2_result" where
  "allocator_start E s =
     (if ((case al_state s of AwaitWelcome \<Rightarrow> False | _ \<Rightarrow> True) \<and> \<not> al_resume_after_welcome s) \<or>
         al_persistence_gate s \<noteq> None
      then Err V2Phase else relay_message E Bind)"

definition allocator_recovery_commitment :: "v2_env \<Rightarrow> 'v allocator_session \<Rightarrow> bytes v2_result" where
  "allocator_recovery_commitment E s =
     (case al_state s of
        AlEstablished e ch r \<Rightarrow> receipt_recovery_commitment E ch (e2_carrier e)
      | _ \<Rightarrow> Err V2Phase)"

definition handoff_text :: "v2_env \<Rightarrow> 'v allocator_session \<Rightarrow> string option v2_result" where
  "handoff_text E s =
     (case al_state s of
        AlBootstrap b \<Rightarrow>
          bind_result (bootstrap_handoff E b) (\<lambda>h.
            case h of None \<Rightarrow> Ok None
            | Some h \<Rightarrow> bind_result (map_err (\<lambda>_. V2Schema) (handoff_encode E h)) (\<lambda>text. Ok (Some text)))
      | _ \<Rightarrow> Ok None)"

definition session_manual_text :: "v2_env \<Rightarrow> 'v allocator_session \<Rightarrow> (string \<times> string) option v2_result" where
  "session_manual_text E s =
     (case al_state s of AlBootstrap b \<Rightarrow> manual_transfer_text E b | _ \<Rightarrow> Ok None)"

definition session_presence_code :: "v2_env \<Rightarrow> 'v allocator_session \<Rightarrow> string option" where
  "session_presence_code E s =
     (case al_state s of AlBootstrap b \<Rightarrow> bootstrap_presence_code E b | _ \<Rightarrow> None)"

definition last_received_object :: "v2_env \<Rightarrow> 'v allocator_session \<Rightarrow> v2_object option v2_result" where
  "last_received_object E s =
     (case al_state s of
        AlEstablished e ch r \<Rightarrow>
          (case e2_last e of
             None \<Rightarrow> Ok None
           | Some l \<Rightarrow>
               if lo_sender l = SideAllocator then Ok None
               else case lo_bytes l of None \<Rightarrow> Ok None
                 | Some bs \<Rightarrow> bind_result (decode_object E bs) (\<lambda>object. Ok (Some object)))
      | _ \<Rightarrow> Ok None)"

section \<open>The gate\<close>

definition allocator_terminate :: "'v allocator_session \<Rightarrow> 'v allocator_session" where
  "allocator_terminate s = s\<lparr>al_state := AlTerminal, al_presence := None, al_cpace_scalar := None,
     al_wrapping_key := replicate 32 0, al_after_persist := []\<rparr>"

definition allocator_gate ::
  "'v allocator_session \<Rightarrow> u64 \<Rightarrow> bytes \<Rightarrow> bytes \<Rightarrow> allocator_effect list \<Rightarrow> 'v allocator_step" where
  "allocator_gate s generation checkpoint carrier after =
     (if al_persistence_gate s \<noteq> None \<or> al_after_persist s \<noteq> []
      then (Err V2Phase, s\<lparr>al_persistence_gate := Some generation\<rparr>)
      else (Ok [ACheckpoint generation checkpoint carrier],
            s\<lparr>al_persistence_gate := Some generation, al_after_persist := after\<rparr>))"

definition checkpoint_established ::
  "v2_env \<Rightarrow> 'v body_verifier \<Rightarrow> 'v allocator_session \<Rightarrow> u64 \<Rightarrow> bytes \<Rightarrow> allocator_effect list \<Rightarrow> 'v allocator_step" where
  "checkpoint_established E B s now nonce after =
     (case al_state s of
        AlEstablished e ch r \<Rightarrow>
          (let generation = saturating_add_u64 (e2_checkpoint_generation e) 1;
               (checkpoint, e) = seal_checkpoint E B e ch r (al_wrapping_key s) generation
                 (Some (vc_relay_expires_at (e2_carrier e))) nonce now;
               s = s\<lparr>al_state := AlEstablished e ch r\<rparr>
           in bind_st (checkpoint, s) (\<lambda>checkpoint s.
              bind_st (encode_carrier E (e2_carrier e), s) (\<lambda>carrier s.
                allocator_gate s generation checkpoint carrier after)))
      | _ \<Rightarrow> (Err V2Phase, s))"

definition checkpoint_bootstrap ::
  "v2_env \<Rightarrow> 'v allocator_session \<Rightarrow> u64 \<Rightarrow> bytes \<Rightarrow> allocator_effect list \<Rightarrow> 'v allocator_step" where
  "checkpoint_bootstrap E s now nonce after =
     (case al_state s of
        AlBootstrap b \<Rightarrow>
          (let generation = saturating_add_u64 (bo_checkpoint_generation b) 1;
               (checkpoint, b) = bootstrap_seal_checkpoint E b (al_wrapping_key s) generation nonce now;
               s = s\<lparr>al_state := AlBootstrap b\<rparr>
           in bind_st (checkpoint, s) (\<lambda>checkpoint s.
              bind_st (encode_carrier E (bo_carrier b), s) (\<lambda>carrier s.
                allocator_gate s generation checkpoint carrier after)))
      | _ \<Rightarrow> (Err V2Phase, s))"

section \<open>Relay messages\<close>

text \<open>An operation on the bootstrap or on its relay projection, inside the session.\<close>

definition on_bootstrap ::
  "(v2_bootstrap \<Rightarrow> 'a v2_result \<times> v2_bootstrap) \<Rightarrow> 'v allocator_session \<Rightarrow> 'a v2_result \<times> 'v allocator_session" where
  "on_bootstrap f s =
     (case al_state s of
        AlBootstrap b \<Rightarrow> (let (x, b) = f b in (x, s\<lparr>al_state := AlBootstrap b\<rparr>))
      | _ \<Rightarrow> (Err V2Phase, s))"

definition on_relay ::
  "(v2_relay \<Rightarrow> 'a v2_result \<times> v2_relay) \<Rightarrow> v2_bootstrap \<Rightarrow> 'a v2_result \<times> v2_bootstrap" where
  "on_relay f b = (let (x, r) = f (bo_relay b) in (x, b\<lparr>bo_relay := r\<rparr>))"

definition put_message :: "v2_env \<Rightarrow> u8 \<Rightarrow> v2_frame \<Rightarrow> allocator_effect v2_result" where
  "put_message E seq frame =
     bind_result (encode_frame E frame) (\<lambda>body.
     bind_result (relay_message E (Put seq body)) (\<lambda>m. Ok (ASend m)))"

definition ack_message :: "v2_env \<Rightarrow> u8 \<Rightarrow> allocator_effect v2_result" where
  "ack_message E seq = bind_result (relay_message E (Ack seq)) (\<lambda>m. Ok (ASend m))"

definition reopen_target ::
  "'v allocator_session \<Rightarrow> (v2_carrier \<times> v2_relay \<times> (v2_frame \<times> u8) option) v2_result" where
  "reopen_target s =
     (case al_state s of
        AlBootstrap b \<Rightarrow>
          bind_result
            (case bo_cached_outbound b of
               None \<Rightarrow> Ok None
             | Some frame \<Rightarrow> bind_result (cached_bootstrap_sequence (bo_relay b)) (\<lambda>seq.
                 Ok (map_option (\<lambda>n. (frame, n)) seq)))
            (\<lambda>cached. Ok (bo_carrier b, bo_relay b, cached))
      | AlEstablished e ch r \<Rightarrow>
          bind_result
            (case rs_cached_outbound r of
               None \<Rightarrow> Ok None
             | Some frame \<Rightarrow> bind_result (cached_application_sequence r) (\<lambda>n. Ok (Some (frame, n))))
            (\<lambda>cached. Ok (e2_carrier e, r, cached))
      | _ \<Rightarrow> Err V2Phase)"

definition reopen_effects :: "v2_env \<Rightarrow> 'v allocator_session \<Rightarrow> allocator_effect list v2_result" where
  "reopen_effects E s =
     bind_result (reopen_target s) (\<lambda>(c, r, cached).
     bind_result (relay_message E (Open (vc_mailbox_id c) (rs_membership_token r))) (\<lambda>open_message.
     case cached of
       None \<Rightarrow> Ok [ASend open_message]
     | Some (frame, seq) \<Rightarrow> bind_result (put_message E seq frame) (\<lambda>put. Ok [ASend open_message, put])))"

definition allocated ::
  "v2_env \<Rightarrow> 'v allocator_session \<Rightarrow> bytes \<Rightarrow> bytes \<Rightarrow> u64 \<Rightarrow> u64 \<Rightarrow> bytes \<Rightarrow> 'v allocator_step" where
  "allocated E s mailbox_id membership_token expires_at now nonce =
     (if mailbox_id \<noteq> vc_mailbox_id (al_template s) \<or> now \<ge> expires_at then (Err V2Profile, s)
      else
        bind_st (carrier_new E ((al_template s)\<lparr>vc_mailbox_id := mailbox_id,
          vc_claim_commitment := al_claim_commitment s, vc_relay_expires_at := expires_at\<rparr>), s) (\<lambda>c s.
        let p = al_presence s; s = s\<lparr>al_presence := None\<rparr> in
        bind_st (ok_or V2Phase p, s) (\<lambda>p s.
        bind_st (bootstrap_start E c p (al_profile_digest s) (relay_state_new membership_token) (al_mode s), s)
          (\<lambda>b s.
        let s = s\<lparr>al_state := AlBootstrap b\<rparr> in
        bind_st (encode_carrier E (bo_carrier b), s) (\<lambda>carrier s.
          checkpoint_bootstrap E s now nonce [APendingAllocation carrier])))))"

definition establish ::
  "v2_env \<Rightarrow> 'v body_verifier \<Rightarrow> 'v allocator_session \<Rightarrow> u64 \<Rightarrow> bytes \<Rightarrow> allocator_effect option \<Rightarrow> 'v allocator_step" where
  "establish E B s now nonce ack =
     (case al_state s of
        AlBootstrap b \<Rightarrow>
          (let s = s\<lparr>al_state := AlTerminal\<rparr> in
           bind_st (ok_or V2Finished (bo_peer_finished b), s) (\<lambda>peer_finished s.
           bind_st (bootstrap_confirm b peer_finished, s) (\<lambda>(ch, r) s.
           if rs_awaiting_ack r then (Err V2Phase, s)
           else
             let verifier = al_body_verifier s; s = s\<lparr>al_body_verifier := None\<rparr> in
             bind_st (ok_or V2Phase verifier, s) (\<lambda>verifier s.
             let generation = saturating_add_u64 (bo_checkpoint_generation b) 1;
                 e = (v2_endpoint_new SideAllocator (bo_carrier b) verifier)
                   \<lparr>e2_checkpoint_generation := bo_checkpoint_generation b,
                    e2_checkpoint_nonce := bo_checkpoint_nonce b\<rparr>;
                 (checkpoint, e) = seal_checkpoint E B e ch r (al_wrapping_key s) generation
                   (Some (vc_relay_expires_at (bo_carrier b))) nonce now in
             bind_st (checkpoint, s) (\<lambda>checkpoint s.
             bind_st (encode_carrier E (bo_carrier b), s) (\<lambda>carrier s.
               allocator_gate (s\<lparr>al_state := AlEstablished e ch r\<rparr>) generation checkpoint carrier
                 ((case ack of None \<Rightarrow> [] | Some a \<Rightarrow> [a]) @ [AEstablished (sc_transcript_hash ch)])))))))
      | _ \<Rightarrow> (Err V2Phase, s\<lparr>al_state := AlTerminal\<rparr>))"

definition peer_application_frame ::
  "v2_env \<Rightarrow> 'v body_verifier \<Rightarrow> 'v allocator_session \<Rightarrow> u8 \<Rightarrow> v2_frame \<Rightarrow> u64 \<Rightarrow> bytes \<Rightarrow> 'v allocator_step" where
  "peer_application_frame E B s peer_seq frame now nonce =
     (case al_state s of
        AlEstablished e ch r \<Rightarrow>
          (let (accepted, r) = accept_peer_sequence r peer_seq in
           bind_st (accepted, s\<lparr>al_state := AlEstablished e ch r\<rparr>) (\<lambda>_ s.
           let (plaintext, ch) = v2_open E ch frame in
           bind_st (plaintext, s\<lparr>al_state := AlEstablished e ch r\<rparr>) (\<lambda>plaintext s.
           bind_st (decode_object E plaintext, s) (\<lambda>object s.
           let (advance, e) = endpoint_receive E B e object in
           bind_st (advance, s\<lparr>al_state := AlEstablished e ch r\<rparr>) (\<lambda>_ s.
           bind_st (ack_message E peer_seq, s) (\<lambda>ack s.
             checkpoint_established E B s now nonce [ack, AReceivedObject object]))))))
      | _ \<Rightarrow> (Err V2Phase, s))"

definition first_share ::
  "v2_env \<Rightarrow> v2_bootstrap \<Rightarrow> u8 \<Rightarrow> v2_frame \<Rightarrow> bytes \<Rightarrow> (u8 \<times> v2_frame) v2_result \<times> v2_bootstrap" where
  "first_share E b peer_seq frame scalar =
     bind_st (on_relay (\<lambda>r. accept_peer_sequence r peer_seq) b) (\<lambda>_ b.
     bind_st (claimant_admitted b) (\<lambda>_ b.
     bind_st (bootstrap_start_cpace E b scalar) (\<lambda>outbound b.
     bind_st (retain_peer_cpace b frame) (\<lambda>_ b.
     bind_st (on_relay queue_bootstrap_frame b) (\<lambda>seq b. (Ok (seq, outbound), b))))))"

definition redelivered_share ::
  "v2_env \<Rightarrow> v2_bootstrap \<Rightarrow> u8 \<Rightarrow> v2_frame \<Rightarrow> u64 \<Rightarrow> allocator_effect list v2_result" where
  "redelivered_share E b peer_seq frame now =
     (if now \<ge> vc_relay_expires_at (bo_carrier b) then Err V2Expired
      else if bo_peer_cpace b \<noteq> Some frame then Err V2Profile
      else
        bind_result (ack_message E peer_seq) (\<lambda>ack.
        bind_result (cached_bootstrap_sequence (bo_relay b)) (\<lambda>seq.
        case seq of
          None \<Rightarrow> Ok [ack]
        | Some n \<Rightarrow>
            bind_result (ok_or V2Phase (bo_cached_outbound b)) (\<lambda>cached.
            bind_result (put_message E n cached) (\<lambda>put. Ok [ack, put])))))"

definition peer_frame ::
  "v2_env \<Rightarrow> 'v body_verifier \<Rightarrow> 'v allocator_session \<Rightarrow> u8 \<Rightarrow> bytes \<Rightarrow> u64 \<Rightarrow> bytes \<Rightarrow> 'v allocator_step" where
  "peer_frame E B s peer_seq body now nonce =
     bind_st (decode_frame E body, s) (\<lambda>frame s.
     case al_state s of
       AlEstablished _ _ _ \<Rightarrow> peer_application_frame E B s peer_seq frame now nonce
     | AlBootstrap b \<Rightarrow>
         (if peer_seq = 0 \<and> bo_peer_cpace b \<noteq> None then (redelivered_share E b peer_seq frame now, s)
          else case bo_phase b of
            BpAllocated \<Rightarrow>
              (let scalar = al_cpace_scalar s; s = s\<lparr>al_cpace_scalar := None\<rparr> in
               bind_st (ok_or V2Phase scalar, s) (\<lambda>scalar s.
               bind_st (on_bootstrap (\<lambda>b. first_share E b peer_seq frame scalar) s) (\<lambda>(seq, outbound) s.
               bind_st (ack_message E peer_seq, s) (\<lambda>ack s.
               bind_st (put_message E seq outbound, s) (\<lambda>put s.
                 checkpoint_bootstrap E s now nonce [ack, put])))))
          | BpFinishedSent \<Rightarrow>
              bind_st (on_bootstrap (\<lambda>b.
                bind_st (on_relay (\<lambda>r. accept_peer_sequence r peer_seq) b) (\<lambda>_ b.
                bind_st (retain_peer_finished b frame) (\<lambda>_ b. (Ok (rs_awaiting_ack (bo_relay b)), b)))) s)
                (\<lambda>waiting s.
              bind_st (ack_message E peer_seq, s) (\<lambda>ack s.
                if waiting then checkpoint_bootstrap E s now nonce [ack]
                else establish E B s now nonce (Some ack)))
          | _ \<Rightarrow> (Err V2Phase, s))
     | _ \<Rightarrow> (Err V2Phase, s))"

definition application_acknowledged ::
  "v2_env \<Rightarrow> 'v body_verifier \<Rightarrow> 'v allocator_session \<Rightarrow> u8 \<Rightarrow> u64 \<Rightarrow> bytes \<Rightarrow> 'v allocator_step" where
  "application_acknowledged E B s seq now nonce =
     (case al_state s of
        AlEstablished e ch r \<Rightarrow>
          (let (x, r) = acknowledge_application_frame r seq in
           bind_st (x, s\<lparr>al_state := AlEstablished e ch r\<rparr>) (\<lambda>_ s.
             checkpoint_established E B s now nonce []))
      | _ \<Rightarrow> (Err V2Phase, s))"

definition acknowledged_share :: "v2_env \<Rightarrow> v2_bootstrap \<Rightarrow> u8 \<Rightarrow> (u8 \<times> v2_frame) v2_result \<times> v2_bootstrap" where
  "acknowledged_share E b seq =
     bind_st (on_relay (\<lambda>r. acknowledge_bootstrap_frame r seq) b) (\<lambda>_ b.
     bind_st (prepare_finished E b) (\<lambda>fin b.
     bind_st (on_relay queue_bootstrap_frame b) (\<lambda>next_seq b. (Ok (next_seq, fin), b))))"

definition local_acknowledged ::
  "v2_env \<Rightarrow> 'v body_verifier \<Rightarrow> 'v allocator_session \<Rightarrow> u8 \<Rightarrow> u64 \<Rightarrow> bytes \<Rightarrow> 'v allocator_step" where
  "local_acknowledged E B s seq now nonce =
     (case al_state s of
        AlEstablished e ch r \<Rightarrow>
          (if acknowledgement_already_applied r seq
           then (if now \<ge> vc_relay_expires_at (e2_carrier e) then Err V2Expired else Ok [], s)
           else application_acknowledged E B s seq now nonce)
      | AlBootstrap b \<Rightarrow>
          (if acknowledgement_already_applied (bo_relay b) seq
           then (if now \<ge> vc_relay_expires_at (bo_carrier b) then Err V2Expired else Ok [], s)
           else case bo_phase b of
             BpShareSent \<Rightarrow>
               bind_st (on_bootstrap (\<lambda>b. acknowledged_share E b seq) s) (\<lambda>(next_seq, fin) s.
               bind_st (put_message E next_seq fin, s) (\<lambda>put s.
                 checkpoint_bootstrap E s now nonce [put]))
           | BpFinishedSent \<Rightarrow>
               bind_st (on_bootstrap (\<lambda>b.
                 bind_st (on_relay (\<lambda>r. acknowledge_bootstrap_frame r seq) b) (\<lambda>_ b.
                   (Ok (bo_peer_finished b \<noteq> None), b))) s) (\<lambda>has_peer s.
               if has_peer then establish E B s now nonce None
               else checkpoint_bootstrap E s now nonce [])
           | _ \<Rightarrow> (Err V2Phase, s))
      | _ \<Rightarrow> (Err V2Phase, s))"

definition apply_server ::
  "v2_env \<Rightarrow> 'v body_verifier \<Rightarrow> 'v allocator_session \<Rightarrow> server_message \<Rightarrow> u64 \<Rightarrow> bytes \<Rightarrow> 'v allocator_step" where
  "apply_server E B s message now nonce =
     (case message of
        Welcome \<Rightarrow>
          if al_resume_after_welcome s then
            (let s = s\<lparr>al_resume_after_welcome := False\<rparr> in (reopen_effects E s, s))
          else (case al_state s of
            AwaitWelcome \<Rightarrow>
              (let s = s\<lparr>al_state := AwaitAllocation\<rparr> in
               bind_st (relay_message E (AllocateV2 (vc_mailbox_id (al_template s)) (al_claim_commitment s) (Some 900)), s)
                 (\<lambda>m s. (Ok [ASend m], s)))
          | _ \<Rightarrow> (Err V2Phase, s))
      | AllocatedV2 mailbox_id membership_token expires_at \<Rightarrow>
          (case al_state s of
             AwaitAllocation \<Rightarrow> allocated E s mailbox_id membership_token expires_at now nonce
           | _ \<Rightarrow> (Err V2Phase, s))
      | Frame peer_seq body \<Rightarrow> peer_frame E B s peer_seq body now nonce
      | Acknowledged seq \<Rightarrow> local_acknowledged E B s seq now nonce
      | Pong \<Rightarrow> (Ok [], s)
      | MsgClosed _ \<Rightarrow> (Ok [ATerminal], allocator_terminate s)
      | MsgError _ \<Rightarrow> (Ok [ATerminal], allocator_terminate s)
      | _ \<Rightarrow> (Err V2Phase, s))"

section \<open>The session interface\<close>

definition or_terminate :: "'v allocator_step \<Rightarrow> 'v allocator_step" where
  "or_terminate = (\<lambda>(x, s). (x, case x of Err _ \<Rightarrow> allocator_terminate s | _ \<Rightarrow> s))"

definition allocator_receive ::
  "v2_env \<Rightarrow> 'v body_verifier \<Rightarrow> 'v allocator_session \<Rightarrow> bytes \<Rightarrow> u64 \<Rightarrow> bytes \<Rightarrow> 'v allocator_step" where
  "allocator_receive E B s input now nonce =
     (if al_persistence_gate s \<noteq> None then (Err V2Phase, s)
      else or_terminate
        (bind_st (map_err (\<lambda>_. V2Schema) (decode_server_message (vn_codec E) input), s) (\<lambda>message s.
          apply_server E B s message now nonce)))"

definition checkpoint_persisted :: "'v allocator_session \<Rightarrow> u64 \<Rightarrow> 'v allocator_step" where
  "checkpoint_persisted s generation =
     (if al_persistence_gate s \<noteq> Some generation then (Err V2Counter, s)
      else (Ok (al_after_persist s), s\<lparr>al_persistence_gate := None, al_after_persist := []\<rparr>))"

definition prepare_application_inner ::
  "v2_env \<Rightarrow> 'v body_verifier \<Rightarrow> 'v allocator_session \<Rightarrow> v2_object \<Rightarrow> u64 \<Rightarrow> bytes \<Rightarrow> 'v allocator_step" where
  "prepare_application_inner E B s object now nonce =
     (case al_state s of
        AlEstablished e ch r \<Rightarrow>
          (let (frame, e, ch, r) = prepare_outbound E B e object ch r in
           bind_st (frame, s\<lparr>al_state := AlEstablished e ch r\<rparr>) (\<lambda>frame s.
           bind_st (cached_application_sequence r, s) (\<lambda>seq s.
           bind_st (put_message E seq frame, s) (\<lambda>put s.
             checkpoint_established E B s now nonce [put]))))
      | _ \<Rightarrow> (Err V2Phase, s))"

definition prepare_application_object ::
  "v2_env \<Rightarrow> 'v body_verifier \<Rightarrow> 'v allocator_session \<Rightarrow> v2_object \<Rightarrow> u64 \<Rightarrow> bytes \<Rightarrow> 'v allocator_step" where
  "prepare_application_object E B s object now nonce =
     (if al_persistence_gate s \<noteq> None then (Err V2Phase, s)
      else or_terminate (prepare_application_inner E B s object now nonce))"

section \<open>Inspection\<close>

text \<open>Read-only facts of a saved checkpoint, expired or not: \<^verbatim>\<open>inspection.rs\<close>.\<close>

record v2_inspection =
  in_bootstrap :: "(bootstrap_phase \<times> allocator_mode) option"
  in_endpoint :: "v2_phase option"
  in_transcript_hash :: "bytes option"
  in_last_received :: "v2_object option"
  in_terminal_receipt :: "(bytes \<times> bytes) option"
  in_receipt_commitment :: "bytes option"
  in_expired :: bool

definition inspect ::
  "v2_env \<Rightarrow> 'v body_verifier \<Rightarrow> bytes \<Rightarrow> bytes \<Rightarrow> v2_carrier \<Rightarrow> u64 \<Rightarrow> bytes \<Rightarrow> u64 \<Rightarrow> allocator_mode \<Rightarrow> 'v \<Rightarrow>
     v2_inspection v2_result" where
  "inspect E B checkpoint wrapping_key c generation profile_digest now mode verifier =
     (let expired = (now \<ge> vc_relay_expires_at c) in
      case bootstrap_inspect_checkpoint E checkpoint wrapping_key c generation mode of
        Ok b \<Rightarrow>
          if bo_profile_digest b \<noteq> profile_digest then Err V2Profile
          else Ok \<lparr>in_bootstrap = Some (bo_phase b, bo_mode b), in_endpoint = None, in_transcript_hash = None,
                   in_last_received = None, in_terminal_receipt = None, in_receipt_commitment = None,
                   in_expired = expired\<rparr>
      | Panic \<Rightarrow> Panic
      | Err _ \<Rightarrow>
          bind_result (inspect_allocator_endpoint E B checkpoint wrapping_key c generation verifier) (\<lambda>(e, ch, r).
          bind_result
            (case e2_last e of
               None \<Rightarrow> Ok None
             | Some l \<Rightarrow>
                 if lo_sender l = SideAllocator then Ok None
                 else case lo_bytes l of None \<Rightarrow> Ok None
                   | Some bs \<Rightarrow> bind_result (decode_object E bs) (\<lambda>object. Ok (Some object))) (\<lambda>received.
          bind_result (receipt_recovery_commitment E ch c) (\<lambda>commitment.
            Ok \<lparr>in_bootstrap = None, in_endpoint = Some (e2_phase e),
                in_transcript_hash = Some (sc_transcript_hash ch), in_last_received = received,
                in_terminal_receipt = (if receipt_released e
                  then map_option (\<lambda>l. (lo_intent_digest l, lo_content_hash l)) (e2_last e) else None),
                in_receipt_commitment = Some commitment, in_expired = expired\<rparr>))))"

end
