(* ===== verification/V2_Claimant.thy ===== *)
theory V2_Claimant
  imports V2_Allocator
begin

text \<open>
  The relay-driven claimant session of \<^verbatim>\<open>src/src/credential_v2/claimant.rs\<close>. The wallet's offer
  verifier is a parameter \<open>V\<close> over a state \<open>'o\<close>; it may change the endpoint it is given.
\<close>

section \<open>State\<close>

datatype claimant_effect =
    CSend bytes
  | CCheckpoint u64 bytes
  | CEstablished bytes
  | CDisplayIntent v2_display
  | CReceivedObject v2_object
  | CTerminal

datatype claimant_phase =
    ClAwaitWelcome
  | ClClaimSent
  | ClShareSent
  | ClFinishedSent
  | ClAwaitProfileAuthorisation
  | ClEstablished
  | ClTerminal

record recovered_receipt =
  rr_object :: v2_object
  rr_authority :: recovered_authority
  rr_peer_seq :: "u8 option"

type_synonym ('v, 'o) offer_verifier =
  "'o \<Rightarrow> 'v v2_endpoint \<Rightarrow> v2_object \<Rightarrow> u64 \<Rightarrow> v2_advance v2_result \<times> 'v v2_endpoint \<times> 'o"

record ('v, 'o) claimant_session =
  cl_carrier :: v2_carrier
  cl_presence :: "v2_presence option"
  cl_claim_token :: "claim_token option"
  cl_cpace_scalar :: bytes
  cl_profile_digest :: bytes
  cl_phase :: claimant_phase
  cl_relay :: "v2_relay option"
  cl_local_share :: "v2_frame option"
  cl_peer_share :: "v2_frame option"
  cl_pending_channel :: "pending_channel option"
  cl_peer_finished :: "v2_frame option"
  cl_endpoint :: "'v v2_endpoint option"
  cl_channel :: "secure_channel option"
  cl_body_verifier :: "'v option"
  cl_offer_verifier :: "'o option"
  cl_authenticated_offer :: "v2_object option"
  cl_persistence_gate :: "u64 option"
  cl_after_persist :: "claimant_effect list"
  cl_pending_recovered_receipt :: bool

type_synonym ('v, 'o) claimant_step = "claimant_effect list v2_result \<times> ('v, 'o) claimant_session"

definition fresh_session :: "v2_carrier \<Rightarrow> ('v, 'o) claimant_session" where
  "fresh_session c = \<lparr>cl_carrier = c, cl_presence = None, cl_claim_token = None,
     cl_cpace_scalar = replicate 32 0, cl_profile_digest = replicate 32 0, cl_phase = ClAwaitWelcome,
     cl_relay = None, cl_local_share = None, cl_peer_share = None, cl_pending_channel = None,
     cl_peer_finished = None, cl_endpoint = None, cl_channel = None, cl_body_verifier = None,
     cl_offer_verifier = None, cl_authenticated_offer = None, cl_persistence_gate = None,
     cl_after_persist = [], cl_pending_recovered_receipt = False\<rparr>"

definition claimant_new ::
  "v2_env \<Rightarrow> v2_carrier \<Rightarrow> presence_code \<Rightarrow> bytes \<Rightarrow> bytes \<Rightarrow> 'v \<Rightarrow> ('v, 'o) claimant_session v2_result" where
  "claimant_new E c code scalar profile_digest verifier =
     bind_result (v2_derive E c profile_digest) (\<lambda>_.
       Ok ((fresh_session c)\<lparr>cl_presence := Some (into_presence code), cl_cpace_scalar := scalar,
         cl_profile_digest := profile_digest, cl_body_verifier := Some verifier\<rparr>))"

definition claimant_restore ::
  "v2_env \<Rightarrow> 'v body_verifier \<Rightarrow> bytes \<Rightarrow> bytes \<Rightarrow> v2_carrier \<Rightarrow> u64 \<Rightarrow> u64 \<Rightarrow> 'v \<Rightarrow>
     ('v, 'o) claimant_session v2_result" where
  "claimant_restore E B checkpoint wrapping_key c generation now verifier =
     bind_result (restore_checkpoint E B checkpoint wrapping_key SideClaimant c generation now verifier)
       (\<lambda>(e, ch, r).
     if e2_phase e \<noteq> PhFinalApproved \<and> e2_phase e \<noteq> PhPayloadSent then Err V2Phase
     else Ok ((fresh_session c)\<lparr>cl_phase := ClEstablished, cl_relay := Some r, cl_endpoint := Some e,
            cl_channel := Some ch\<rparr>))"

section \<open>Observations\<close>

definition claimant_start :: "v2_env \<Rightarrow> ('v, 'o) claimant_session \<Rightarrow> bytes v2_result" where
  "claimant_start E s = (if cl_phase s \<noteq> ClAwaitWelcome then Err V2Phase else relay_message E Bind)"

definition authorise_authenticated_profile ::
  "('v, 'o) claimant_session \<Rightarrow> 'o \<Rightarrow> unit v2_result \<times> ('v, 'o) claimant_session" where
  "authorise_authenticated_profile s verifier =
     (if cl_phase s \<noteq> ClAwaitProfileAuthorisation then (Err V2Phase, s)
      else (Ok (), s\<lparr>cl_offer_verifier := Some verifier, cl_phase := ClEstablished\<rparr>))"

definition authenticated_offer_body :: "('v, 'o) claimant_session \<Rightarrow> bytes option" where
  "authenticated_offer_body s = map_option ob_body (cl_authenticated_offer s)"

definition has_cached_outbound_frame :: "('v, 'o) claimant_session \<Rightarrow> bool" where
  "has_cached_outbound_frame s = is_some_and (\<lambda>r. rs_cached_outbound r \<noteq> None) (cl_relay s)"

definition claimant_endpoint_phase :: "('v, 'o) claimant_session \<Rightarrow> v2_phase v2_result" where
  "claimant_endpoint_phase s = ok_or V2Phase (map_option e2_phase (cl_endpoint s))"

definition has_durable_endpoint_phase :: "('v, 'o) claimant_session \<Rightarrow> bool" where
  "has_durable_endpoint_phase s =
     is_some_and (\<lambda>e. e2_phase e = PhFinalApproved \<or> e2_phase e = PhPayloadSent) (cl_endpoint s)"

definition claimant_recovery_commitment :: "v2_env \<Rightarrow> ('v, 'o) claimant_session \<Rightarrow> bytes v2_result" where
  "claimant_recovery_commitment E s =
     (if cl_phase s \<noteq> ClEstablished then Err V2Phase
      else
        bind_result (ok_or V2Phase (cl_endpoint s)) (\<lambda>e.
        bind_result (ok_or V2Phase (cl_channel s)) (\<lambda>ch.
          receipt_recovery_commitment E ch (e2_carrier e))))"

text \<open>The borrowed token that \<^verbatim>\<open>with_receipt_recovery_token\<close> passes to its consumer.\<close>

definition borrowed_recovery_token :: "v2_env \<Rightarrow> ('v, 'o) claimant_session \<Rightarrow> bytes v2_result" where
  "borrowed_recovery_token E s =
     (if cl_phase s \<noteq> ClEstablished then Err V2Phase
      else bind_result (claimant_endpoint_phase s) (\<lambda>p.
        if p \<noteq> PhPayloadSent then Err V2Phase
        else bind_result (ok_or V2Phase (cl_channel s)) (\<lambda>ch. receipt_recovery_token E ch)))"

section \<open>Steps\<close>

definition claimant_terminate :: "('v, 'o) claimant_session \<Rightarrow> ('v, 'o) claimant_session" where
  "claimant_terminate s = s\<lparr>cl_phase := ClTerminal, cl_presence := None, cl_claim_token := None,
     cl_cpace_scalar := replicate 32 0, cl_local_share := None, cl_peer_share := None,
     cl_pending_channel := None, cl_peer_finished := None, cl_endpoint := None, cl_channel := None,
     cl_relay := None, cl_authenticated_offer := None, cl_persistence_gate := None,
     cl_after_persist := [], cl_pending_recovered_receipt := False\<rparr>"

definition claimant_or_terminate :: "'a v2_result \<times> ('v, 'o) claimant_session \<Rightarrow> 'a v2_result \<times> ('v, 'o) claimant_session" where
  "claimant_or_terminate = (\<lambda>(x, s). (x, case x of Err _ \<Rightarrow> claimant_terminate s | _ \<Rightarrow> s))"

text \<open>An operation on the relay projection, \<^verbatim>\<open>relay_mut()?\<close>.\<close>

definition on_claimant_relay ::
  "(v2_relay \<Rightarrow> 'a v2_result \<times> v2_relay) \<Rightarrow> ('v, 'o) claimant_session \<Rightarrow> 'a v2_result \<times> ('v, 'o) claimant_session" where
  "on_claimant_relay f s =
     (case cl_relay s of
        None \<Rightarrow> (Err V2Phase, s)
      | Some r \<Rightarrow> (let (x, r) = f r in (x, s\<lparr>cl_relay := Some r\<rparr>)))"

definition claimant_put :: "v2_env \<Rightarrow> u8 \<Rightarrow> v2_frame \<Rightarrow> claimant_effect v2_result" where
  "claimant_put E seq frame =
     bind_result (encode_frame E frame) (\<lambda>body.
     bind_result (relay_message E (Put seq body)) (\<lambda>m. Ok (CSend m)))"

definition claimant_ack :: "v2_env \<Rightarrow> u8 \<Rightarrow> claimant_effect v2_result" where
  "claimant_ack E seq = bind_result (relay_message E (Ack seq)) (\<lambda>m. Ok (CSend m))"

definition claimant_share ::
  "v2_env \<Rightarrow> ('v, 'o) claimant_session \<Rightarrow> (v2_context \<times> cpace_state \<times> v2_frame) v2_result" where
  "claimant_share E s =
     bind_result (v2_derive E (cl_carrier s) (cl_profile_digest s)) (\<lambda>x.
     bind_result (ok_or V2Phase (cl_presence s)) (\<lambda>p.
     bind_result (start_cpace E x SideClaimant p (cl_cpace_scalar s)) (\<lambda>(st, message).
     bind_result (frame_cpace message) (\<lambda>frame. Ok (x, st, frame)))))"

definition claimed ::
  "v2_env \<Rightarrow> ('v, 'o) claimant_session \<Rightarrow> bytes \<Rightarrow> bytes \<Rightarrow> u64 \<Rightarrow> ('v, 'o) claimant_step" where
  "claimed E s mailbox_id membership_token expires_at =
     (if mailbox_id \<noteq> vc_mailbox_id (cl_carrier s) \<or> expires_at \<noteq> vc_relay_expires_at (cl_carrier s)
      then (Err V2Profile, s)
      else
        let s = s\<lparr>cl_claim_token := None\<rparr> in
        bind_st (claimant_share E s, s) (\<lambda>(_, _, share) s.
        let (seq, r) = queue_bootstrap_frame (relay_state_new membership_token) in
        bind_st (seq, s) (\<lambda>seq s.
        let s = s\<lparr>cl_local_share := Some share, cl_relay := Some r, cl_phase := ClShareSent\<rparr> in
        bind_st (claimant_put E seq share, s) (\<lambda>put s. (Ok [put], s)))))"

definition claimant_prepare_finished ::
  "v2_env \<Rightarrow> ('v, 'o) claimant_session \<Rightarrow> claimant_effect v2_result \<times> ('v, 'o) claimant_session" where
  "claimant_prepare_finished E s =
     bind_st (claimant_share E s, s) (\<lambda>(x, st, local_share) s.
     if cl_local_share s \<noteq> Some local_share then (Err V2Profile, s)
     else
       bind_st (ok_or V2Phase (cl_peer_share s), s) (\<lambda>peer_share s.
       bind_st (ok_or V2Schema (cpace_message_of peer_share), s) (\<lambda>peer_message s.
       bind_st (map_err (\<lambda>_. V2Cpace) (cpace_finish (vn_crypto E) (vn_x25519 E) st peer_message), s) (\<lambda>isk s.
       bind_st (encode_frame E peer_share, s) (\<lambda>fa s.
       bind_st (encode_frame E local_share, s) (\<lambda>fb s.
       bind_st (v2_new_pending E SideClaimant isk (cx_public_context x) fa fb, s) (\<lambda>pending s.
       bind_st (on_claimant_relay queue_bootstrap_frame s) (\<lambda>seq s.
       let s = s\<lparr>cl_pending_channel := Some pending, cl_phase := ClFinishedSent\<rparr> in
         (claimant_put E seq (v2_finished_frame pending), s)))))))))"

definition claimant_establish ::
  "('v, 'o) claimant_session \<Rightarrow> claimant_effect option \<Rightarrow> ('v, 'o) claimant_step" where
  "claimant_establish s ack =
     bind_st (ok_or V2Finished (cl_peer_finished s), s) (\<lambda>peer_finished s.
     let pending = cl_pending_channel s; s = s\<lparr>cl_pending_channel := None\<rparr> in
     bind_st (ok_or V2Phase pending, s) (\<lambda>pending s.
     bind_st (v2_confirm pending peer_finished, s) (\<lambda>ch s.
     bind_st (ok_or V2Phase (cl_relay s), s) (\<lambda>r s.
     if rs_awaiting_ack r then (Err V2Phase, s)
     else
       let verifier = cl_body_verifier s; s = s\<lparr>cl_body_verifier := None\<rparr> in
       bind_st (ok_or V2Phase verifier, s) (\<lambda>verifier s.
         (Ok ((case ack of None \<Rightarrow> [] | Some a \<Rightarrow> [a]) @ [CEstablished (sc_transcript_hash ch)]),
          s\<lparr>cl_endpoint := Some (v2_endpoint_new SideClaimant (cl_carrier s) verifier), cl_channel := Some ch,
            cl_phase := ClAwaitProfileAuthorisation, cl_presence := None,
            cl_cpace_scalar := replicate 32 0, cl_local_share := None, cl_peer_share := None,
            cl_peer_finished := None\<rparr>))))))"

definition claimant_advance ::
  "v2_env \<Rightarrow> 'v body_verifier \<Rightarrow> ('v, 'o) offer_verifier \<Rightarrow> ('v, 'o) claimant_session \<Rightarrow> v2_object \<Rightarrow> u64 \<Rightarrow>
     v2_advance v2_result \<times> ('v, 'o) claimant_session" where
  "claimant_advance E B V s object now =
     bind_st (ok_or V2Phase (cl_endpoint s), s) (\<lambda>e s.
     if e2_phase e = PhBegin \<or> e2_phase e = PhAccountSelected then
       (if ob_kind object \<noteq> Offer then (Err V2Phase, s)
        else case cl_offer_verifier s of
          None \<Rightarrow> (Err V2Phase, s)
        | Some v \<Rightarrow>
            (let (x, e, v) = V v e object now
             in (x, s\<lparr>cl_endpoint := Some e, cl_offer_verifier := Some v\<rparr>)))
     else
       (let (x, e) = endpoint_receive E B e object in (x, s\<lparr>cl_endpoint := Some e\<rparr>)))"

definition on_claimant_channel ::
  "v2_env \<Rightarrow> v2_frame \<Rightarrow> ('v, 'o) claimant_session \<Rightarrow> bytes v2_result \<times> ('v, 'o) claimant_session" where
  "on_claimant_channel E frame s =
     (case cl_channel s of
        None \<Rightarrow> (Err V2Phase, s)
      | Some ch \<Rightarrow> (let (x, ch) = v2_open E ch frame in (x, s\<lparr>cl_channel := Some ch\<rparr>)))"

definition claimant_application_frame ::
  "v2_env \<Rightarrow> 'v body_verifier \<Rightarrow> ('v, 'o) offer_verifier \<Rightarrow> ('v, 'o) claimant_session \<Rightarrow> u8 \<Rightarrow> v2_frame \<Rightarrow> u64 \<Rightarrow>
     ('v, 'o) claimant_step" where
  "claimant_application_frame E B V s peer_seq frame now =
     bind_st (on_claimant_relay (\<lambda>r. accept_peer_sequence r peer_seq) s) (\<lambda>_ s.
     bind_st (on_claimant_channel E frame s) (\<lambda>plaintext s.
     bind_st (decode_object E plaintext, s) (\<lambda>object s.
     bind_st (claimant_advance E B V s object now) (\<lambda>advance s.
     bind_st (claimant_ack E peer_seq, s) (\<lambda>ack s.
       case advance of
         AdvDisplayIntent d \<Rightarrow> (Ok [ack, CDisplayIntent d], s\<lparr>cl_authenticated_offer := Some object\<rparr>)
       | Advanced \<Rightarrow> (Ok [ack, CReceivedObject object], s)
       | ExactRetransmission \<Rightarrow> (Ok [ack], s))))))"

definition claimant_peer_frame ::
  "v2_env \<Rightarrow> 'v body_verifier \<Rightarrow> ('v, 'o) offer_verifier \<Rightarrow> ('v, 'o) claimant_session \<Rightarrow> u8 \<Rightarrow> bytes \<Rightarrow> u64 \<Rightarrow>
     ('v, 'o) claimant_step" where
  "claimant_peer_frame E B V s peer_seq body now =
     bind_st (decode_frame E body, s) (\<lambda>frame s.
     if cl_phase s = ClEstablished then claimant_application_frame E B V s peer_seq frame now
     else
       bind_st (on_claimant_relay (\<lambda>r. accept_peer_sequence r peer_seq) s) (\<lambda>_ s.
       bind_st (claimant_ack E peer_seq, s) (\<lambda>ack s.
       case cl_phase s of
         ClShareSent \<Rightarrow>
           if \<not> is_cpace_of SideAllocator frame then (Err V2Direction, s)
           else
             let s = s\<lparr>cl_peer_share := Some frame\<rparr> in
             bind_st (ok_or V2Phase (cl_relay s), s) (\<lambda>r s.
             if rs_awaiting_ack r then (Ok [ack], s)
             else bind_st (claimant_prepare_finished E s) (\<lambda>put s. (Ok [ack, put], s)))
       | ClFinishedSent \<Rightarrow>
           if \<not> is_finished_of SideAllocator frame then (Err V2Direction, s)
           else
             let s = s\<lparr>cl_peer_finished := Some frame\<rparr> in
             bind_st (ok_or V2Phase (cl_relay s), s) (\<lambda>r s.
             if rs_awaiting_ack r then (Ok [ack], s) else claimant_establish s (Some ack))
       | _ \<Rightarrow> (Err V2Phase, s))))"

definition local_ack :: "v2_env \<Rightarrow> ('v, 'o) claimant_session \<Rightarrow> u8 \<Rightarrow> ('v, 'o) claimant_step" where
  "local_ack E s seq =
     bind_st (ok_or V2Phase (cl_relay s), s) (\<lambda>r s.
     if acknowledgement_already_applied r seq then (Ok [], s)
     else if cl_phase s = ClEstablished then
       bind_st (on_claimant_relay (\<lambda>r. acknowledge_application_frame r seq) s) (\<lambda>_ s. (Ok [], s))
     else
       bind_st (on_claimant_relay (\<lambda>r. acknowledge_bootstrap_frame r seq) s) (\<lambda>_ s.
       if cl_phase s = ClShareSent \<and> cl_peer_share s \<noteq> None then
         bind_st (claimant_prepare_finished E s) (\<lambda>put s. (Ok [put], s))
       else if (cl_phase s = ClShareSent \<or> cl_phase s = ClFinishedSent) \<and> cl_peer_finished s = None
       then (Ok [], s)
       else if cl_phase s = ClFinishedSent then claimant_establish s None
       else (Err V2Phase, s)))"

definition claimant_apply_server ::
  "v2_env \<Rightarrow> 'v body_verifier \<Rightarrow> ('v, 'o) offer_verifier \<Rightarrow> ('v, 'o) claimant_session \<Rightarrow> server_message \<Rightarrow> u64 \<Rightarrow>
     ('v, 'o) claimant_step" where
  "claimant_apply_server E B V s message now =
     (case message of
        Welcome \<Rightarrow>
          if cl_phase s = ClAwaitWelcome then
            bind_st (ok_or V2Phase (cl_presence s), s) (\<lambda>p s.
            let (token, p) = take_claim_token p in
            bind_st (token, s\<lparr>cl_presence := Some p\<rparr>) (\<lambda>token s.
            let s = s\<lparr>cl_claim_token := Some token, cl_phase := ClClaimSent\<rparr> in
            bind_st (relay_message E (ClaimV2 (vc_mailbox_id (cl_carrier s)) token), s) (\<lambda>m s. (Ok [CSend m], s))))
          else (Err V2Phase, s)
      | ClaimedV2 mailbox_id membership_token expires_at \<Rightarrow>
          if cl_phase s = ClClaimSent then claimed E s mailbox_id membership_token expires_at
          else (Err V2Phase, s)
      | Frame peer_seq body \<Rightarrow> claimant_peer_frame E B V s peer_seq body now
      | Acknowledged seq \<Rightarrow> local_ack E s seq
      | Pong \<Rightarrow> (Ok [], s)
      | MsgClosed _ \<Rightarrow> (Ok [CTerminal], claimant_terminate s)
      | MsgError _ \<Rightarrow> (Ok [CTerminal], claimant_terminate s)
      | _ \<Rightarrow> (Err V2Phase, s))"

definition claimant_receive ::
  "v2_env \<Rightarrow> 'v body_verifier \<Rightarrow> ('v, 'o) offer_verifier \<Rightarrow> ('v, 'o) claimant_session \<Rightarrow> bytes \<Rightarrow> u64 \<Rightarrow>
     ('v, 'o) claimant_step" where
  "claimant_receive E B V s input now =
     (if cl_persistence_gate s \<noteq> None \<or> has_durable_endpoint_phase s then (Err V2Phase, s)
      else if cl_phase s = ClTerminal then (Err V2Terminal, s)
      else if now \<ge> vc_relay_expires_at (cl_carrier s) then (Err V2Expired, claimant_terminate s)
      else claimant_or_terminate
        (bind_st (map_err (\<lambda>_. V2Schema) (decode_server_message (vn_codec E) input), s) (\<lambda>message s.
          claimant_apply_server E B V s message now)))"

section \<open>Application objects\<close>

text \<open>The endpoint, channel and relay borrowed together, and one object sealed through them.\<close>

definition claimant_outbound ::
  "v2_env \<Rightarrow> 'v body_verifier \<Rightarrow> ('v, 'o) claimant_session \<Rightarrow> v2_object \<Rightarrow>
     (u8 \<times> v2_frame) v2_result \<times> ('v, 'o) claimant_session" where
  "claimant_outbound E B s object =
     (case (cl_endpoint s, cl_channel s, cl_relay s) of
        (Some e, Some ch, Some r) \<Rightarrow>
          (let (frame, e, ch, r) = prepare_outbound E B e object ch r;
               s = s\<lparr>cl_endpoint := Some e, cl_channel := Some ch, cl_relay := Some r\<rparr>
           in bind_st (frame, s) (\<lambda>frame s.
              bind_st (cached_application_sequence r, s) (\<lambda>seq s. (Ok (seq, frame), s))))
      | _ \<Rightarrow> (Err V2Phase, s))"

definition claimant_prepare_object ::
  "v2_env \<Rightarrow> 'v body_verifier \<Rightarrow> ('v, 'o) claimant_session \<Rightarrow> v2_object \<Rightarrow> ('v, 'o) claimant_step" where
  "claimant_prepare_object E B s object =
     (if cl_persistence_gate s \<noteq> None \<or> cl_phase s \<noteq> ClEstablished \<or>
         ob_kind object \<notin> {AccountSelect, IntentApprove, IntentDecline, Preparation, Refusal, FinalDecline}
      then (Err V2Phase, s)
      else
        bind_st (claimant_outbound E B s object) (\<lambda>(seq, frame) s.
        bind_st (claimant_put E seq frame, s) (\<lambda>put s. (Ok [put], s))))"

definition claimant_seal ::
  "v2_env \<Rightarrow> 'v body_verifier \<Rightarrow> ('v, 'o) claimant_session \<Rightarrow> bytes \<Rightarrow> bytes \<Rightarrow> u64 \<Rightarrow> u64 option \<Rightarrow>
     (u64 \<times> bytes) v2_result \<times> ('v, 'o) claimant_session" where
  "claimant_seal E B s wrapping_key nonce now expiry =
     (case (cl_endpoint s, cl_channel s, cl_relay s) of
        (Some e, Some ch, Some r) \<Rightarrow>
          (let generation = saturating_add_u64 (e2_checkpoint_generation e) 1;
               (checkpoint, e) = seal_checkpoint E B e ch r wrapping_key generation expiry nonce now
           in bind_st (checkpoint, s\<lparr>cl_endpoint := Some e\<rparr>) (\<lambda>checkpoint s. (Ok (generation, checkpoint), s)))
      | _ \<Rightarrow> (Err V2Phase, s))"

definition checkpoint_current ::
  "v2_env \<Rightarrow> 'v body_verifier \<Rightarrow> ('v, 'o) claimant_session \<Rightarrow> bytes \<Rightarrow> bytes \<Rightarrow> u64 \<Rightarrow> u64 option \<Rightarrow>
     claimant_effect list \<Rightarrow> ('v, 'o) claimant_step" where
  "checkpoint_current E B s wrapping_key nonce now expiry after =
     (if cl_persistence_gate s \<noteq> None \<or> cl_after_persist s \<noteq> [] then (Err V2Phase, s)
      else bind_st (claimant_seal E B s wrapping_key nonce now expiry) (\<lambda>(generation, checkpoint) s.
        (Ok [CCheckpoint generation checkpoint],
         s\<lparr>cl_persistence_gate := Some generation, cl_after_persist := after\<rparr>)))"

definition prepare_final_approval ::
  "v2_env \<Rightarrow> 'v body_verifier \<Rightarrow> ('v, 'o) claimant_session \<Rightarrow> v2_object \<Rightarrow> bytes \<Rightarrow> bytes \<Rightarrow> u64 \<Rightarrow>
     ('v, 'o) claimant_step" where
  "prepare_final_approval E B s object wrapping_key nonce now =
     (if cl_persistence_gate s \<noteq> None \<or> cl_after_persist s \<noteq> [] \<or> cl_phase s \<noteq> ClEstablished \<or>
         ob_kind object \<noteq> FinalApprove
      then (Err V2Phase, s)
      else claimant_or_terminate
        (bind_st (claimant_outbound E B s object) (\<lambda>(seq, frame) s.
         bind_st (claimant_seal E B s wrapping_key nonce now (Some (vc_relay_expires_at (cl_carrier s))))
           (\<lambda>(generation, checkpoint) s.
         let s = s\<lparr>cl_persistence_gate := Some generation\<rparr> in
         bind_st (claimant_put E seq frame, s) (\<lambda>put s.
           (Ok [CCheckpoint generation checkpoint], s\<lparr>cl_after_persist := [put]\<rparr>))))))"

definition claimant_checkpoint_persisted :: "('v, 'o) claimant_session \<Rightarrow> u64 \<Rightarrow> ('v, 'o) claimant_step" where
  "claimant_checkpoint_persisted s generation =
     (if cl_persistence_gate s \<noteq> Some generation then (Err V2Counter, s)
      else (Ok (cl_after_persist s), s\<lparr>cl_persistence_gate := None, cl_after_persist := []\<rparr>))"

definition resume_cached_frame :: "v2_env \<Rightarrow> ('v, 'o) claimant_session \<Rightarrow> ('v, 'o) claimant_step" where
  "resume_cached_frame E s =
     (if cl_persistence_gate s \<noteq> None \<or> cl_phase s \<noteq> ClEstablished \<or> \<not> has_durable_endpoint_phase s
      then (Err V2Phase, s)
      else bind_st (ok_or V2Phase (cl_relay s), s) (\<lambda>r s.
        case rs_cached_outbound r of
          None \<Rightarrow> (Ok [], s)
        | Some frame \<Rightarrow>
            bind_st (cached_application_sequence r, s) (\<lambda>seq s.
            bind_st (claimant_put E seq frame, s) (\<lambda>put s. (Ok [put], s)))))"

definition receive_durable ::
  "v2_env \<Rightarrow> 'v body_verifier \<Rightarrow> ('v, 'o) claimant_session \<Rightarrow> bytes \<Rightarrow> u64 \<Rightarrow> bytes \<Rightarrow> bytes \<Rightarrow>
     ('v, 'o) claimant_step" where
  "receive_durable E B s input now wrapping_key nonce =
     (if cl_persistence_gate s \<noteq> None \<or> cl_phase s \<noteq> ClEstablished \<or> \<not> has_durable_endpoint_phase s
      then (Err V2Phase, s)
      else
        bind_st (claimant_endpoint_phase s, s) (\<lambda>phase s.
        if phase = PhFinalApproved \<and> now \<ge> vc_relay_expires_at (cl_carrier s) then (Err V2Expired, s)
        else
          bind_st (map_err (\<lambda>_. V2Schema) (decode_server_message (vn_codec E) input), s) (\<lambda>message s.
          case message of
            Acknowledged seq \<Rightarrow>
              bind_st (ok_or V2Phase (cl_relay s), s) (\<lambda>r s.
              if acknowledgement_already_applied r seq then (Ok [], s)
              else bind_st (local_ack E s seq) (\<lambda>_ s.
                checkpoint_current E B s wrapping_key nonce now
                  (if phase = PhFinalApproved then Some (vc_relay_expires_at (cl_carrier s)) else None) []))
          | _ \<Rightarrow> (Err V2Phase, s))))"

definition prepare_payload ::
  "v2_env \<Rightarrow> 'v body_verifier \<Rightarrow> ('v, 'o) claimant_session \<Rightarrow> v2_object \<Rightarrow> bytes \<Rightarrow> bytes \<Rightarrow> u64 \<Rightarrow>
     ('v, 'o) claimant_step" where
  "prepare_payload E B s object wrapping_key nonce now =
     (if cl_persistence_gate s \<noteq> None \<or> cl_after_persist s \<noteq> [] \<or> cl_phase s \<noteq> ClEstablished then (Err V2Phase, s)
      else
        bind_st (claimant_endpoint_phase s, s) (\<lambda>phase s.
        if phase \<noteq> PhFinalApproved \<or> ob_kind object \<noteq> Payload then (Err V2Phase, s)
        else if now \<ge> vc_relay_expires_at (cl_carrier s) then (Err V2Expired, s)
        else claimant_or_terminate
          (bind_st (claimant_outbound E B s object) (\<lambda>(seq, frame) s.
           bind_st (claimant_put E seq frame, s) (\<lambda>put s.
             checkpoint_current E B s wrapping_key nonce now None [put])))))"

section \<open>Receipts\<close>

definition claimant_authenticate ::
  "v2_env \<Rightarrow> 'v body_verifier \<Rightarrow> ('v, 'o) claimant_session \<Rightarrow> v2_object \<Rightarrow>
     recovered_authority v2_result \<times> ('v, 'o) claimant_session" where
  "claimant_authenticate E B s object =
     (case cl_endpoint s of
        None \<Rightarrow> (Err V2Phase, s)
      | Some e \<Rightarrow>
          (let (x, e) = authenticate_recovered_receipt E B e object in (x, s\<lparr>cl_endpoint := Some e\<rparr>)))"

definition receive_recovered_receipt ::
  "v2_env \<Rightarrow> 'v body_verifier \<Rightarrow> ('v, 'o) claimant_session \<Rightarrow> bytes \<Rightarrow>
     recovered_receipt v2_result \<times> ('v, 'o) claimant_session" where
  "receive_recovered_receipt E B s input =
     (if cl_persistence_gate s \<noteq> None \<or> cl_phase s \<noteq> ClEstablished then (Err V2Phase, s)
      else
        bind_st (claimant_endpoint_phase s, s) (\<lambda>phase s.
        if phase \<noteq> PhPayloadSent \<or> cl_pending_recovered_receipt s \<or> has_cached_outbound_frame s
        then (Err V2Phase, s)
        else claimant_or_terminate
          (bind_st (map_err (\<lambda>_. V2Schema) (decode_server_message (vn_codec E) input), s) (\<lambda>message s.
           case message of
             Frame peer_seq body \<Rightarrow>
               bind_st (decode_frame E body, s) (\<lambda>frame s.
               bind_st (on_claimant_relay (\<lambda>r. accept_peer_sequence r peer_seq) s) (\<lambda>_ s.
               bind_st (on_claimant_channel E frame s) (\<lambda>plaintext s.
               bind_st (decode_object E plaintext, s) (\<lambda>object s.
               bind_st (claimant_authenticate E B s object) (\<lambda>authority s.
                 (Ok \<lparr>rr_object = object, rr_authority = authority, rr_peer_seq = Some peer_seq\<rparr>,
                  s\<lparr>cl_pending_recovered_receipt := True\<rparr>))))))
           | _ \<Rightarrow> (Err V2Phase, s)))))"

definition authenticate_recovered_receipt_object ::
  "v2_env \<Rightarrow> 'v body_verifier \<Rightarrow> ('v, 'o) claimant_session \<Rightarrow> v2_object \<Rightarrow>
     recovered_receipt v2_result \<times> ('v, 'o) claimant_session" where
  "authenticate_recovered_receipt_object E B s object =
     (if cl_persistence_gate s \<noteq> None \<or> cl_phase s \<noteq> ClEstablished then (Err V2Phase, s)
      else
        bind_st (claimant_endpoint_phase s, s) (\<lambda>phase s.
        if phase \<noteq> PhPayloadSent \<or> cl_pending_recovered_receipt s then (Err V2Phase, s)
        else bind_st (claimant_authenticate E B s object) (\<lambda>authority s.
          (Ok \<lparr>rr_object = object, rr_authority = authority, rr_peer_seq = None\<rparr>,
           s\<lparr>cl_pending_recovered_receipt := True\<rparr>))))"

definition commit_recovered_receipt ::
  "v2_env \<Rightarrow> ('v, 'o) claimant_session \<Rightarrow> recovered_receipt \<Rightarrow> ('v, 'o) claimant_step" where
  "commit_recovered_receipt E s receipt =
     (if \<not> cl_pending_recovered_receipt s \<or> cl_persistence_gate s \<noteq> None \<or> cl_phase s \<noteq> ClEstablished
      then (Err V2Phase, s)
      else
        bind_st (claimant_endpoint_phase s, s) (\<lambda>phase s.
        if phase \<noteq> PhPayloadSent \<or> (rr_peer_seq receipt \<noteq> None \<and> has_cached_outbound_frame s)
        then (Err V2Phase, s)
        else
          bind_st (case rr_peer_seq receipt of
              None \<Rightarrow> Ok []
            | Some seq \<Rightarrow> bind_result (claimant_ack E seq) (\<lambda>ack. Ok [ack]), s) (\<lambda>effects s.
          bind_st (ok_or V2Phase (cl_endpoint s), s) (\<lambda>e s.
          let (x, e) = recover_receipt E e (rr_object receipt) (rr_authority receipt) in
          bind_st (x, s\<lparr>cl_endpoint := Some e\<rparr>) (\<lambda>_ s. (Ok effects, claimant_terminate s))))))"

end
