(* ===== verification/V2_Gate.thy ===== *)
theory V2_Gate
  imports V2_Claimant
begin

text \<open>
  The persistence gate shared by the two relay-driven sessions: a locale for a session whose calls
  may return one checkpoint to be stored, hold back their other effects, and refuse everything until
  that checkpoint is reported as stored. It is interpreted on the allocator and on the claimant.
\<close>

section \<open>Sessions behind a gate\<close>

datatype 'i gate_event = GCall 'i | GPersisted u64

definition gate_step ::
  "('i \<Rightarrow> 's \<Rightarrow> ('x list, 'e) result \<times> 's) \<Rightarrow> ('s \<Rightarrow> u64 \<Rightarrow> ('x list, 'e) result \<times> 's) \<Rightarrow>
     'i gate_event \<Rightarrow> 's \<Rightarrow> ('x list, 'e) result \<times> 's" where
  "gate_step call persisted ev s = (case ev of GCall i \<Rightarrow> call i s | GPersisted g \<Rightarrow> persisted s g)"

text \<open>The effects of a sequence of events in order, and the session they leave.\<close>

fun gate_run ::
  "('i \<Rightarrow> 's \<Rightarrow> ('x list, 'e) result \<times> 's) \<Rightarrow> ('s \<Rightarrow> u64 \<Rightarrow> ('x list, 'e) result \<times> 's) \<Rightarrow>
     'i gate_event list \<Rightarrow> 's \<Rightarrow> 'x list \<times> 's" where
  "gate_run call persisted [] s = ([], s)"
| "gate_run call persisted (ev # evs) s =
     (case gate_step call persisted ev s of
        (r, s1) \<Rightarrow> (case gate_run call persisted evs s1 of
          (out, s2) \<Rightarrow> ((case r of Ok xs \<Rightarrow> xs | _ \<Rightarrow> []) @ out, s2)))"

text \<open>The sessions reached from \<open>s0\<close>; a panic ends the process.\<close>

inductive gate_reach ::
  "('i \<Rightarrow> 's \<Rightarrow> ('x list, 'e) result \<times> 's) \<Rightarrow> ('s \<Rightarrow> u64 \<Rightarrow> ('x list, 'e) result \<times> 's) \<Rightarrow> 's \<Rightarrow> 's \<Rightarrow> bool"
  for call persisted s0 where
  start: "gate_reach call persisted s0 s0"
| step: "gate_reach call persisted s0 s \<Longrightarrow> gate_step call persisted ev s = (r, s') \<Longrightarrow> r \<noteq> Panic \<Longrightarrow>
    gate_reach call persisted s0 s'"

locale persistence_gate =
  fixes gate :: "'s \<Rightarrow> u64 option"
    and held :: "'s \<Rightarrow> 'x list"
    and saves :: "'x \<Rightarrow> u64 option"
    and call :: "'i \<Rightarrow> 's \<Rightarrow> ('x list, 'e) result \<times> 's"
    and persisted :: "'s \<Rightarrow> u64 \<Rightarrow> ('x list, 'e) result \<times> 's"
  assumes shut: "gate s = Some g \<Longrightarrow> \<exists>e. call i s = (Err e, s)"
    and opens: "gate s = Some g \<Longrightarrow> \<exists>s'. persisted s g = (Ok (held s), s') \<and> gate s' = None \<and> held s' = []"
    and other: "gate s \<noteq> Some g \<Longrightarrow> \<exists>e. persisted s g = (Err e, s)"
    and saved: "gate s = None \<Longrightarrow> held s = [] \<Longrightarrow> call i s = (Ok out, s') \<Longrightarrow>
      (\<exists>x g. out = [x] \<and> saves x = Some g \<and> gate s' = Some g) \<or>
      (list_all (\<lambda>x. saves x = None) out \<and> gate s' = None \<and> held s' = [])"
    and failed: "gate s = None \<Longrightarrow> held s = [] \<Longrightarrow> call i s = (Err e, s') \<Longrightarrow> gate s' = None \<and> held s' = []"
begin

lemma reach_held:
  "gate_reach call persisted s0 s \<Longrightarrow> gate s0 = None \<Longrightarrow> held s0 = [] \<Longrightarrow> gate s = None \<Longrightarrow> held s = []"
proof (induction rule: gate_reach.induct)
  case (step s ev r s')
  show ?case
  proof (cases "gate s")
    case None
    then have h: "held s = []" using step by simp
    show ?thesis
    proof (cases ev)
      case (GCall i)
      then have c: "call i s = (r, s')" using step.hyps(2) by (simp add: gate_step_def)
      show ?thesis
      proof (cases r)
        case (Ok out)
        then show ?thesis using saved[OF None h] c step.prems(3) by fastforce
      next
        case (Err e)
        then show ?thesis using failed[OF None h] c by auto
      qed (use step.hyps(3) in simp)
    next
      case (GPersisted g)
      then show ?thesis using other[of s g] None h step.hyps(2) by (auto simp: gate_step_def)
    qed
  next
    case (Some g)
    show ?thesis
    proof (cases "ev = GPersisted g")
      case True
      then show ?thesis using opens[OF Some] step.hyps(2) by (auto simp: gate_step_def)
    next
      case False
      then have "\<exists>e. gate_step call persisted ev s = (Err e, s)"
        using shut[OF Some] other[of s] Some by (cases ev) (auto simp: gate_step_def)
      then show ?thesis using step.hyps(2) step.prems(3) Some by auto
    qed
  qed
qed simp

lemma silent:
  "gate s = Some g \<Longrightarrow> GPersisted g \<notin> set evs \<Longrightarrow> gate_run call persisted evs s = ([], s)"
proof (induction evs)
  case (Cons ev evs)
  have "\<exists>e. gate_step call persisted ev s = (Err e, s)"
    using Cons.prems shut other by (cases ev) (auto simp: gate_step_def)
  then show ?case using Cons by auto
qed simp

lemma write_ahead:
  assumes "gate_reach call persisted s0 s" and "gate s0 = None" and "held s0 = []"
    and "call i s = (Ok out, s')" and "x \<in> set out" and "saves x = Some g" and "GPersisted g \<notin> set evs"
  shows "out = [x] \<and> gate_run call persisted evs s' = ([], s') \<and>
    (\<exists>s''. persisted s' g = (Ok (held s'), s'') \<and> gate s'' = None)"
proof -
  have "gate s = None" using shut[of s _ i] assms(4) by (cases "gate s") fastforce+
  then have "held s = []" using reach_held assms(1-3) by blast
  then have "(\<exists>x g. out = [x] \<and> saves x = Some g \<and> gate s' = Some g) \<or> list_all (\<lambda>x. saves x = None) out"
    using saved assms(4) \<open>gate s = None\<close> by blast
  then have "out = [x]" "gate s' = Some g" using assms(5,6) by (auto simp: list_all_iff)
  then show ?thesis using silent assms(7) opens by blast
qed

end

section \<open>The allocator\<close>

datatype allocator_call = AReceive bytes u64 bytes | APrepare v2_object u64 bytes

definition allocator_do ::
  "v2_env \<Rightarrow> 'v body_verifier \<Rightarrow> allocator_call \<Rightarrow> 'v allocator_session \<Rightarrow> 'v allocator_step" where
  "allocator_do E B i s =
     (case i of AReceive input now nonce \<Rightarrow> allocator_receive E B s input now nonce
      | APrepare object now nonce \<Rightarrow> prepare_application_object E B s object now nonce)"

definition allocator_saves :: "allocator_effect \<Rightarrow> u64 option" where
  "allocator_saves x = (case x of ACheckpoint g _ _ \<Rightarrow> Some g | _ \<Rightarrow> None)"

definition al_open :: "'v allocator_session \<Rightarrow> bool" where
  "al_open s \<longleftrightarrow> al_persistence_gate s = None \<and> al_after_persist s = []"

text \<open>A step that ends in a checkpoint, and one that leaves the session's durable state as it was.\<close>

definition al_saved :: "'v allocator_step \<Rightarrow> bool" where
  "al_saved p \<longleftrightarrow> (case fst p of
     Ok out \<Rightarrow> \<exists>g cp c. out = [ACheckpoint g cp c] \<and> al_persistence_gate (snd p) = Some g
   | Err _ \<Rightarrow> al_open (snd p) | Panic \<Rightarrow> True)"

definition al_kept :: "'v allocator_session \<Rightarrow> 'v allocator_step \<Rightarrow> bool" where
  "al_kept s p \<longleftrightarrow> (case fst p of
     Ok out \<Rightarrow> list_all (\<lambda>x. allocator_saves x = None) out \<and> al_open (snd p) \<and>
       (al_state (snd p) = al_state s \<or> (al_state s = AwaitWelcome \<and> al_state (snd p) = AwaitAllocation) \<or>
        al_state (snd p) = AlTerminal)
   | Err _ \<Rightarrow> al_open (snd p) | Panic \<Rightarrow> True)"

lemma al_open_upd [simp]:
  "al_open (s\<lparr>al_state := a\<rparr>) = al_open s" "al_open (s\<lparr>al_presence := p\<rparr>) = al_open s"
  "al_open (s\<lparr>al_cpace_scalar := x\<rparr>) = al_open s" "al_open (s\<lparr>al_body_verifier := v\<rparr>) = al_open s"
  "al_open (s\<lparr>al_resume_after_welcome := t\<rparr>) = al_open s"
  by (simp_all add: al_open_def)

lemma al_saved_bind:
  "al_open (snd x) \<Longrightarrow> (\<And>a s. x = (Ok a, s) \<Longrightarrow> al_open s \<Longrightarrow> al_saved (f a s)) \<Longrightarrow> al_saved (bind_st x f)"
  by (cases x; cases "fst x") (auto simp: al_saved_def)

lemma al_saved_Err [simp]: "al_saved (Err e, s) = al_open s"
  by (simp add: al_saved_def)

lemma al_saved_gate: "al_open s \<Longrightarrow> al_saved (allocator_gate s g cp c after)"
  by (simp add: allocator_gate_def al_saved_def al_open_def)

lemma al_saved_bootstrap: "al_open s \<Longrightarrow> al_saved (checkpoint_bootstrap E s now nonce after)"
  unfolding checkpoint_bootstrap_def Let_def
  by (cases "al_state s") (auto intro!: al_saved_bind al_saved_gate split: prod.splits)

lemma al_saved_established: "al_open s \<Longrightarrow> al_saved (checkpoint_established E B s now nonce after)"
  unfolding checkpoint_established_def Let_def
  by (cases "al_state s") (auto intro!: al_saved_bind al_saved_gate split: prod.splits)

lemma al_open_on_bootstrap: "al_open s \<Longrightarrow> al_open (snd (on_bootstrap f s))"
  by (cases "al_state s") (auto simp: on_bootstrap_def Let_def split: prod.splits)

lemma al_saved_allocated: "al_open s \<Longrightarrow> al_saved (allocated E s mb t x now nonce)"
  unfolding allocated_def Let_def by (auto intro!: al_saved_bind al_saved_bootstrap)

lemma al_saved_establish: "al_open s \<Longrightarrow> al_saved (establish E B s now nonce ack)"
  unfolding establish_def Let_def
  by (cases "al_state s") (auto intro!: al_saved_bind al_saved_gate split: prod.splits)

lemma al_saved_application: "al_open s \<Longrightarrow> al_saved (peer_application_frame E B s n f now nonce)"
  unfolding peer_application_frame_def Let_def
  by (cases "al_state s") (auto intro!: al_saved_bind al_saved_established split: prod.splits)

lemma al_saved_acknowledged: "al_open s \<Longrightarrow> al_saved (application_acknowledged E B s n now nonce)"
  unfolding application_acknowledged_def Let_def
  by (cases "al_state s") (auto intro!: al_saved_bind al_saved_established split: prod.splits)

lemma al_saved_prepare: "al_open s \<Longrightarrow> al_saved (prepare_application_inner E B s object now nonce)"
  unfolding prepare_application_inner_def Let_def
  by (cases "al_state s") (auto intro!: al_saved_bind al_saved_established split: prod.splits)

lemma al_saved_peer_frame:
  assumes "al_open s"
  shows "al_saved (peer_frame E B s n body now nonce) \<or> al_kept s (peer_frame E B s n body now nonce)"
proof (cases "decode_frame E body")
  case frame: (Ok frame)
  show ?thesis
  proof (cases "al_state s")
    case (AlBootstrap b)
    show ?thesis
    proof (cases "n = 0 \<and> bo_peer_cpace b \<noteq> None")
      case True
      then have "peer_frame E B s n body now nonce = (redelivered_share E b n frame now, s)"
        by (simp add: peer_frame_def frame AlBootstrap)
      moreover have "list_all (\<lambda>x. allocator_saves x = None) out" if "redelivered_share E b n frame now = Ok out" for out
        using that by (auto simp: redelivered_share_def ack_message_def put_message_def bind_result_Ok allocator_saves_def
            split: if_splits option.splits)
      ultimately show ?thesis using assms by (auto simp: al_kept_def split: result.splits)
    next
      case False
      then have "al_saved (peer_frame E B s n body now nonce)"
        using assms
        by (cases "bo_phase b")
          (auto simp: peer_frame_def frame AlBootstrap Let_def
            intro!: al_saved_bind al_saved_bootstrap al_saved_establish al_open_on_bootstrap)
      then show ?thesis by simp
    qed
  next
    case (AlEstablished e ch r)
    then show ?thesis using al_saved_application[OF assms] by (simp add: peer_frame_def frame)
  qed (use assms in \<open>simp_all add: peer_frame_def frame\<close>)
qed (use assms in \<open>auto simp: peer_frame_def al_kept_def\<close>)

lemma al_saved_local:
  assumes "al_open s"
  shows "al_saved (local_acknowledged E B s n now nonce) \<or> al_kept s (local_acknowledged E B s n now nonce)"
proof (cases "al_state s")
  case (AlBootstrap b)
  show ?thesis
  proof (cases "acknowledgement_already_applied (bo_relay b) n")
    case True
    then show ?thesis using assms by (simp add: local_acknowledged_def AlBootstrap al_kept_def)
  next
    case False
    then have "al_saved (local_acknowledged E B s n now nonce)"
      using assms
      by (cases "bo_phase b")
        (auto simp: local_acknowledged_def AlBootstrap
          intro!: al_saved_bind al_saved_bootstrap al_saved_establish al_open_on_bootstrap)
    then show ?thesis by simp
  qed
next
  case (AlEstablished e ch r)
  then show ?thesis
    using assms al_saved_acknowledged[OF assms]
    by (cases "acknowledgement_already_applied r n") (simp_all add: local_acknowledged_def al_kept_def)
qed (use assms in \<open>simp_all add: local_acknowledged_def\<close>)

lemma reopen_no_save: "reopen_effects E s = Ok out \<Longrightarrow> list_all (\<lambda>x. allocator_saves x = None) out"
  by (auto simp: reopen_effects_def put_message_def bind_result_Ok allocator_saves_def split: option.splits)

lemma al_apply_server:
  assumes "al_open s"
  shows "al_saved (apply_server E B s m now nonce) \<or> al_kept s (apply_server E B s m now nonce)"
proof (cases m)
  case Welcome
  have "al_kept s (apply_server E B s m now nonce)"
    using assms reopen_no_save
    by (cases "al_resume_after_welcome s"; cases "al_state s")
      (auto simp: apply_server_def Welcome Let_def al_kept_def bind_st_case allocator_saves_def split: result.splits)
  then show ?thesis by simp
next
  case (AllocatedV2 mb t x)
  then show ?thesis
    using assms al_saved_allocated[OF assms] by (cases "al_state s") (simp_all add: apply_server_def)
next
  case (Frame n body)
  then show ?thesis using al_saved_peer_frame[OF assms] by (simp add: apply_server_def)
next
  case (Acknowledged n)
  then show ?thesis using al_saved_local[OF assms] by (simp add: apply_server_def)
qed (use assms in \<open>auto simp: apply_server_def al_kept_def al_open_def allocator_terminate_def allocator_saves_def\<close>)

lemma al_or_terminate:
  "al_saved p \<Longrightarrow> al_saved (or_terminate p)" "al_kept s p \<Longrightarrow> al_kept s (or_terminate p)"
  by (cases p; cases "fst p"; auto simp: or_terminate_def al_saved_def al_kept_def allocator_terminate_def al_open_def)+

lemma allocator_do_step:
  assumes "al_open s"
  shows "al_saved (allocator_do E B i s) \<or> al_kept s (allocator_do E B i s)"
proof (cases i)
  case (AReceive input now nonce)
  let ?p = "bind_st (map_err (\<lambda>_. V2Schema) (decode_server_message (vn_codec E) input), s)
      (\<lambda>message s. apply_server E B s message now nonce)"
  have "al_saved ?p \<or> al_kept s ?p"
  proof (cases "decode_server_message (vn_codec E) input")
    case (Ok m)
    then show ?thesis using al_apply_server[OF assms, of E B m now nonce] by simp
  qed (use assms in \<open>simp_all add: al_kept_def\<close>)
  then have "al_saved (or_terminate ?p) \<or> al_kept s (or_terminate ?p)" using al_or_terminate by blast
  then show ?thesis using assms by (simp add: allocator_do_def AReceive allocator_receive_def al_open_def)
next
  case (APrepare object now nonce)
  then show ?thesis
    using assms al_or_terminate(1)[OF al_saved_prepare[OF assms]]
    by (simp add: allocator_do_def prepare_application_object_def al_open_def)
qed

interpretation al: persistence_gate al_persistence_gate al_after_persist allocator_saves "allocator_do E B"
  checkpoint_persisted for E B
proof
  show "\<exists>e. allocator_do E B i s = (Err e, s)" if "al_persistence_gate s = Some g" for s g i
    using that by (cases i) (simp_all add: allocator_do_def allocator_receive_def prepare_application_object_def)
  show "(\<exists>x g. out = [x] \<and> allocator_saves x = Some g \<and> al_persistence_gate s' = Some g) \<or>
      (list_all (\<lambda>x. allocator_saves x = None) out \<and> al_persistence_gate s' = None \<and> al_after_persist s' = [])"
    if "al_persistence_gate s = None" "al_after_persist s = []" "allocator_do E B i s = (Ok out, s')" for s i out s'
    using allocator_do_step[of s E B i] that
    by (auto simp: al_open_def al_saved_def al_kept_def allocator_saves_def)
  show "al_persistence_gate s' = None \<and> al_after_persist s' = []"
    if "al_persistence_gate s = None" "al_after_persist s = []" "allocator_do E B i s = (Err e, s')" for s i e s'
    using allocator_do_step[of s E B i] that by (auto simp: al_open_def al_saved_def al_kept_def)
qed (simp_all add: checkpoint_persisted_def)

section \<open>The claimant\<close>

text \<open>
  The calls that drive an established session. \<open>authorise_authenticated_profile\<close> belongs to the
  phase before and is not among them, and the readers of the session, the borrowed
  recovery token among them, return no effect and change no state.
\<close>

datatype claimant_call =
    CReceive bytes u64
  | CPrepareObject v2_object
  | CFinalApproval v2_object bytes bytes u64
  | CPayload v2_object bytes bytes u64
  | CResume
  | CReceiveDurable bytes u64 bytes bytes
  | CRecovered bytes
  | CAuthenticate v2_object
  | CCommit recovered_receipt

text \<open>Receipts are returned to the caller and are no effect, so those two calls return no effects here.\<close>

definition without_effects :: "'a v2_result \<times> 's \<Rightarrow> claimant_effect list v2_result \<times> 's" where
  "without_effects = (\<lambda>(x, s). (case x of Ok _ \<Rightarrow> Ok [] | Err e \<Rightarrow> Err e | Panic \<Rightarrow> Panic, s))"

definition claimant_do ::
  "v2_env \<Rightarrow> 'v body_verifier \<Rightarrow> ('v, 'o) offer_verifier \<Rightarrow> claimant_call \<Rightarrow> ('v, 'o) claimant_session \<Rightarrow>
     ('v, 'o) claimant_step" where
  "claimant_do E B V i s =
     (case i of
        CReceive input now \<Rightarrow> claimant_receive E B V s input now
      | CPrepareObject object \<Rightarrow> claimant_prepare_object E B s object
      | CFinalApproval object key nonce now \<Rightarrow> prepare_final_approval E B s object key nonce now
      | CPayload object key nonce now \<Rightarrow> prepare_payload E B s object key nonce now
      | CResume \<Rightarrow> resume_cached_frame E s
      | CReceiveDurable input now key nonce \<Rightarrow> receive_durable E B s input now key nonce
      | CRecovered input \<Rightarrow> without_effects (receive_recovered_receipt E B s input)
      | CAuthenticate object \<Rightarrow> without_effects (authenticate_recovered_receipt_object E B s object)
      | CCommit receipt \<Rightarrow> commit_recovered_receipt E s receipt)"

definition claimant_saves :: "claimant_effect \<Rightarrow> u64 option" where
  "claimant_saves x = (case x of CCheckpoint g _ \<Rightarrow> Some g | _ \<Rightarrow> None)"

definition cl_open :: "('v, 'o) claimant_session \<Rightarrow> bool" where
  "cl_open s \<longleftrightarrow> cl_persistence_gate s = None \<and> cl_after_persist s = []"

definition cl_quiet :: "('v, 'o) claimant_step \<Rightarrow> bool" where
  "cl_quiet p \<longleftrightarrow> (case fst p of
     Ok out \<Rightarrow> list_all (\<lambda>x. claimant_saves x = None) out \<and> cl_open (snd p)
   | Err _ \<Rightarrow> cl_open (snd p) | Panic \<Rightarrow> True)"

definition cl_saved :: "('v, 'o) claimant_step \<Rightarrow> bool" where
  "cl_saved p \<longleftrightarrow> (\<forall>out. fst p = Ok out \<longrightarrow> (\<exists>g cp. out = [CCheckpoint g cp] \<and> cl_persistence_gate (snd p) = Some g))"

lemma cl_open_upd [simp]:
  "cl_open (s\<lparr>cl_presence := a1\<rparr>) = cl_open s" "cl_open (s\<lparr>cl_claim_token := a2\<rparr>) = cl_open s"
  "cl_open (s\<lparr>cl_cpace_scalar := a3\<rparr>) = cl_open s" "cl_open (s\<lparr>cl_phase := a4\<rparr>) = cl_open s"
  "cl_open (s\<lparr>cl_relay := a5\<rparr>) = cl_open s" "cl_open (s\<lparr>cl_local_share := a6\<rparr>) = cl_open s"
  "cl_open (s\<lparr>cl_peer_share := a7\<rparr>) = cl_open s" "cl_open (s\<lparr>cl_pending_channel := a8\<rparr>) = cl_open s"
  "cl_open (s\<lparr>cl_peer_finished := a9\<rparr>) = cl_open s" "cl_open (s\<lparr>cl_endpoint := b1\<rparr>) = cl_open s"
  "cl_open (s\<lparr>cl_channel := b2\<rparr>) = cl_open s" "cl_open (s\<lparr>cl_body_verifier := b3\<rparr>) = cl_open s"
  "cl_open (s\<lparr>cl_offer_verifier := b4\<rparr>) = cl_open s" "cl_open (s\<lparr>cl_authenticated_offer := b5\<rparr>) = cl_open s"
  "cl_open (s\<lparr>cl_pending_recovered_receipt := b6\<rparr>) = cl_open s"
  by (simp_all add: cl_open_def)

lemma cl_open_terminate [simp]: "cl_open (claimant_terminate s)"
  by (simp add: cl_open_def claimant_terminate_def)

lemma cl_open_bind:
  "cl_open (snd x) \<Longrightarrow> (\<And>a s. x = (Ok a, s) \<Longrightarrow> cl_open s \<Longrightarrow> cl_open (snd (f a s))) \<Longrightarrow> cl_open (snd (bind_st x f))"
  by (cases x; cases "fst x") auto

lemma cl_quiet_bind:
  "cl_open (snd x) \<Longrightarrow> (\<And>a s. x = (Ok a, s) \<Longrightarrow> cl_open s \<Longrightarrow> cl_quiet (f a s)) \<Longrightarrow> cl_quiet (bind_st x f)"
  by (cases x; cases "fst x") (auto simp: cl_quiet_def)

lemma cl_saved_bind:
  "(\<And>a s. x = (Ok a, s) \<Longrightarrow> cl_saved (f a s)) \<Longrightarrow> cl_saved (bind_st x f)"
  by (cases x; cases "fst x") (auto simp: cl_saved_def)

lemma cl_quiet_simps [simp]:
  "cl_quiet (Err e, s) = cl_open s" "cl_quiet (Panic, s)"
  "cl_quiet (Ok out, s) = (list_all (\<lambda>x. claimant_saves x = None) out \<and> cl_open s)"
  by (simp_all add: cl_quiet_def)

lemma claimant_sends [simp]:
  "claimant_put E n f = Ok x \<Longrightarrow> claimant_saves x = None" "claimant_ack E n = Ok x \<Longrightarrow> claimant_saves x = None"
  by (auto simp: claimant_put_def claimant_ack_def bind_result_Ok claimant_saves_def)

lemma claimant_saves_simps [simp]:
  "claimant_saves (CSend b) = None" "claimant_saves (CEstablished h) = None" "claimant_saves (CDisplayIntent d) = None"
  "claimant_saves (CReceivedObject x) = None" "claimant_saves CTerminal = None"
  "claimant_saves (CCheckpoint g cp) = Some g"
  by (simp_all add: claimant_saves_def)

lemma cl_open_relay: "cl_open s \<Longrightarrow> cl_open (snd (on_claimant_relay f s))"
  by (auto simp: on_claimant_relay_def Let_def split: option.splits prod.splits)

lemma cl_open_channel: "cl_open s \<Longrightarrow> cl_open (snd (on_claimant_channel E f s))"
  by (auto simp: on_claimant_channel_def Let_def split: option.splits prod.splits)

lemma cl_open_advance: "cl_open s \<Longrightarrow> cl_open (snd (claimant_advance E B V s object now))"
  by (auto simp: claimant_advance_def Let_def bind_st_case split: option.splits prod.splits result.splits)

lemma cl_open_finished: "cl_open s \<Longrightarrow> cl_open (snd (claimant_prepare_finished E s))"
  unfolding claimant_prepare_finished_def Let_def
  by (auto intro!: cl_open_bind cl_open_relay split: prod.splits)

lemma claimant_prepare_finished_send [simp]:
  "claimant_prepare_finished E s = (Ok x, s') \<Longrightarrow> claimant_saves x = None"
  by (auto simp: claimant_prepare_finished_def Let_def bind_st_Ok split: if_splits prod.splits)

lemma cl_open_outbound: "cl_open s \<Longrightarrow> cl_open (snd (claimant_outbound E B s object))"
  unfolding claimant_outbound_def Let_def
  by (auto intro!: cl_open_bind split: option.splits prod.splits)

lemma cl_open_seal: "cl_open s \<Longrightarrow> cl_open (snd (claimant_seal E B s key nonce now expiry))"
  unfolding claimant_seal_def Let_def
  by (auto intro!: cl_open_bind split: option.splits prod.splits)

lemma cl_open_authenticate: "cl_open s \<Longrightarrow> cl_open (snd (claimant_authenticate E B s object))"
  by (auto simp: claimant_authenticate_def Let_def split: option.splits prod.splits)

lemmas cl_open_intros = cl_open_relay cl_open_channel cl_open_advance cl_open_finished cl_open_outbound cl_open_seal
  cl_open_authenticate

lemma cl_quiet_establish: "cl_open s \<Longrightarrow> (\<And>a. ack = Some a \<Longrightarrow> claimant_saves a = None) \<Longrightarrow> cl_quiet (claimant_establish s ack)"
  unfolding claimant_establish_def Let_def by (auto intro!: cl_quiet_bind split: option.splits)

lemma cl_quiet_application: "cl_open s \<Longrightarrow> cl_quiet (claimant_application_frame E B V s n f now)"
  unfolding claimant_application_frame_def
  by (auto intro!: cl_quiet_bind cl_open_intros split: v2_advance.splits)

lemma cl_quiet_peer_frame: "cl_open s \<Longrightarrow> cl_quiet (claimant_peer_frame E B V s n body now)"
  unfolding claimant_peer_frame_def Let_def
  by (auto intro!: cl_quiet_bind cl_open_intros cl_quiet_application cl_quiet_establish split: claimant_phase.splits)

lemma cl_quiet_local_ack: "cl_open s \<Longrightarrow> cl_quiet (local_ack E s n)"
  unfolding local_ack_def
  by (auto intro!: cl_quiet_bind cl_open_intros cl_quiet_establish)

lemma cl_quiet_claimed: "cl_open s \<Longrightarrow> cl_quiet (claimed E s mb t x)"
  unfolding claimed_def Let_def by (auto intro!: cl_quiet_bind split: prod.splits)

lemma cl_quiet_server: "cl_open s \<Longrightarrow> cl_quiet (claimant_apply_server E B V s m now)"
  unfolding claimant_apply_server_def Let_def
  by (auto intro!: cl_quiet_bind cl_quiet_claimed cl_quiet_peer_frame cl_quiet_local_ack
      split: server_message.splits prod.splits)

lemma cl_quiet_terminate: "cl_quiet p \<Longrightarrow> cl_quiet (claimant_or_terminate p)"
  by (cases p; cases "fst p") (auto simp: claimant_or_terminate_def)

definition cl_step :: "('v, 'o) claimant_step \<Rightarrow> bool" where
  "cl_step p \<longleftrightarrow> cl_quiet p \<or> (cl_saved p \<and> (\<forall>e. fst p = Err e \<longrightarrow> cl_open (snd p)))"

lemma cl_step_saved: "cl_saved p \<Longrightarrow> cl_step (claimant_or_terminate p)"
  by (cases p; cases "fst p") (auto simp: cl_step_def claimant_or_terminate_def cl_saved_def)

lemma cl_saved_current: "cl_saved (checkpoint_current E B s key nonce now expiry after)"
  unfolding checkpoint_current_def by (auto intro!: cl_saved_bind) (auto simp: cl_saved_def)

lemma cl_step_current: "cl_open s \<Longrightarrow> cl_step (checkpoint_current E B s key nonce now expiry after)"
proof (cases "claimant_seal E B s key nonce now expiry")
  case (Pair r s1)
  assume "cl_open s"
  then have "cl_open s1" using cl_open_seal[of s E B key nonce now expiry] Pair by simp
  then show ?thesis
    using \<open>cl_open s\<close> Pair by (cases r) (auto simp: cl_step_def cl_saved_def checkpoint_current_def)
qed

lemma cl_step_receive: "cl_open s \<Longrightarrow> cl_step (claimant_receive E B V s input now)"
  unfolding cl_step_def claimant_receive_def
  by (auto intro!: disjI1 cl_quiet_terminate cl_quiet_bind cl_quiet_server)

lemma cl_step_object: "cl_open s \<Longrightarrow> cl_step (claimant_prepare_object E B s object)"
  unfolding cl_step_def claimant_prepare_object_def
  by (auto intro!: disjI1 cl_quiet_bind cl_open_outbound)

lemma cl_step_final: "cl_open s \<Longrightarrow> cl_step (prepare_final_approval E B s object key nonce now)"
proof -
  have "cl_step (Err V2Phase, s)" if "cl_open s" using that by (simp add: cl_step_def)
  moreover have "cl_saved (bind_st (claimant_outbound E B s object) (\<lambda>(seq, frame) s.
         bind_st (claimant_seal E B s key nonce now (Some (vc_relay_expires_at (cl_carrier s))))
           (\<lambda>(generation, checkpoint) s.
         let s = s\<lparr>cl_persistence_gate := Some generation\<rparr> in
         bind_st (claimant_put E seq frame, s) (\<lambda>put s.
           (Ok [CCheckpoint generation checkpoint], s\<lparr>cl_after_persist := [put]\<rparr>)))))"
    unfolding Let_def by (auto intro!: cl_saved_bind) (auto simp: cl_saved_def)
  ultimately show "cl_open s \<Longrightarrow> ?thesis" unfolding prepare_final_approval_def by (auto intro: cl_step_saved)
qed

lemma cl_step_payload: "cl_open s \<Longrightarrow> cl_step (prepare_payload E B s object key nonce now)"
proof -
  have err: "cl_step (Err e, s)" if "cl_open s" for e s using that by (simp add: cl_step_def)
  have "cl_saved (bind_st (claimant_outbound E B s object) (\<lambda>(seq, frame) s.
           bind_st (claimant_put E seq frame, s) (\<lambda>put s.
             checkpoint_current E B s key nonce now None [put])))" for s
    by (auto intro!: cl_saved_bind cl_saved_current)
  then show "cl_open s \<Longrightarrow> ?thesis"
    unfolding prepare_payload_def claimant_endpoint_phase_def
    by (cases "cl_endpoint s") (auto intro: cl_step_saved err)
qed

lemma cl_step_resume: "cl_open s \<Longrightarrow> cl_step (resume_cached_frame E s)"
  unfolding cl_step_def resume_cached_frame_def
  by (auto intro!: disjI1 cl_quiet_bind split: option.splits)

lemma cl_quiet_open: "cl_quiet (Ok a, s) \<Longrightarrow> cl_open s"
  by simp

lemma cl_step_durable: "cl_open s \<Longrightarrow> cl_step (receive_durable E B s input now key nonce)"
proof -
  assume o: "cl_open s"
  have err: "cl_step (Err e, s)" for e using o by (simp add: cl_step_def)
  have pan: "cl_step (Panic, s)" by (simp add: cl_step_def)
  have "cl_step (bind_st (local_ack E s n) (\<lambda>_ s. checkpoint_current E B s key nonce now (x s) []))" for n x
  proof (cases "local_ack E s n")
    case (Pair r s1)
    then show ?thesis
      using cl_quiet_local_ack[OF o, of E n] cl_step_current[of s1]
      by (cases r) (auto simp: cl_step_def)
  qed
  then show ?thesis
    unfolding receive_durable_def claimant_endpoint_phase_def
    using o err pan
    by (auto simp: bind_st_case cl_step_def[of "(Ok [], s)"] split: result.splits server_message.splits)
qed

lemma cl_quiet_without: "(\<And>e. fst p = Err e \<Longrightarrow> cl_open (snd p)) \<Longrightarrow> (\<And>a. fst p = Ok a \<Longrightarrow> cl_open (snd p)) \<Longrightarrow>
    cl_step (without_effects p)"
  by (cases p; cases "fst p") (auto simp: cl_step_def without_effects_def)

lemma cl_open_or_terminate: "cl_open (snd p) \<Longrightarrow> cl_open (snd (claimant_or_terminate p))"
  by (cases p; cases "fst p") (auto simp: claimant_or_terminate_def)

lemma cl_step_recovered: "cl_open s \<Longrightarrow> cl_step (without_effects (receive_recovered_receipt E B s input))"
proof -
  assume o: "cl_open s"
  have "cl_open (snd (receive_recovered_receipt E B s input))"
    unfolding receive_recovered_receipt_def using o
    by (auto intro!: cl_open_bind cl_open_or_terminate cl_open_intros split: server_message.splits)
  then show ?thesis by (intro cl_quiet_without)
qed

lemma cl_step_authenticate:
  "cl_open s \<Longrightarrow> cl_step (without_effects (authenticate_recovered_receipt_object E B s object))"
proof -
  assume o: "cl_open s"
  have "cl_open (snd (authenticate_recovered_receipt_object E B s object))"
    unfolding authenticate_recovered_receipt_object_def using o
    by (auto intro!: cl_open_bind cl_open_intros)
  then show ?thesis by (intro cl_quiet_without)
qed

lemma cl_step_commit: "cl_open s \<Longrightarrow> cl_step (commit_recovered_receipt E s receipt)"
  unfolding cl_step_def commit_recovered_receipt_def Let_def
  by (auto intro!: disjI1 cl_quiet_bind split: prod.splits option.splits simp: bind_result_Ok)

lemma claimant_do_step: "cl_open s \<Longrightarrow> cl_step (claimant_do E B V i s)"
  by (cases i) (simp_all add: claimant_do_def cl_step_receive cl_step_object cl_step_final cl_step_payload cl_step_resume
      cl_step_durable cl_step_recovered cl_step_authenticate cl_step_commit)

lemma claimant_do_shut:
  "cl_persistence_gate s = Some g \<Longrightarrow> claimant_do E B V i s = (Err V2Phase, s)"
  by (cases i) (simp_all add: claimant_do_def claimant_receive_def claimant_prepare_object_def prepare_final_approval_def
      prepare_payload_def resume_cached_frame_def receive_durable_def receive_recovered_receipt_def without_effects_def
      authenticate_recovered_receipt_object_def commit_recovered_receipt_def)

interpretation cl: persistence_gate cl_persistence_gate cl_after_persist claimant_saves "claimant_do E B V"
  claimant_checkpoint_persisted for E B V
proof
  show "\<exists>e. claimant_do E B V i s = (Err e, s)" if "cl_persistence_gate s = Some g" for s g i
    using claimant_do_shut[OF that] by blast
  show "(\<exists>x g. out = [x] \<and> claimant_saves x = Some g \<and> cl_persistence_gate s' = Some g) \<or>
      (list_all (\<lambda>x. claimant_saves x = None) out \<and> cl_persistence_gate s' = None \<and> cl_after_persist s' = [])"
    if "cl_persistence_gate s = None" "cl_after_persist s = []" "claimant_do E B V i s = (Ok out, s')" for s i out s'
    using claimant_do_step[of s E B V i] that by (auto simp: cl_open_def cl_step_def cl_saved_def)
  show "cl_persistence_gate s' = None \<and> cl_after_persist s' = []"
    if "cl_persistence_gate s = None" "cl_after_persist s = []" "claimant_do E B V i s = (Err e, s')" for s i e s'
    using claimant_do_step[of s E B V i] that by (auto simp: cl_open_def cl_step_def)
qed (simp_all add: claimant_checkpoint_persisted_def)

end
