(* ===== verification/V2_Codec_Props.thy ===== *)
theory V2_Codec_Props
  imports V2_Handoff
begin

text \<open>
  Round trips of the credential/v2 octet formats: objects, frames, carriers and account
  selections against the outside codec, under the law \<open>v2_codec\<close>.
\<close>

section \<open>The law of the outside codec\<close>

text \<open>
  Canonical octets read back to the written value, map entries possibly reordered, and the value
  read has the same canonical octets; a map is encodable only when its keys are; no encoding is empty.
\<close>

definition v2_codec :: "codec \<Rightarrow> bool" where
  "v2_codec C \<longleftrightarrow>
     (\<forall>v bs. flat v \<longrightarrow> cd_canonical C v = Some bs \<longrightarrow>
        (\<exists>w. cd_read C bs = Some (w, length bs) \<and> reorders v w \<and> cd_canonical C w = Some bs)) \<and>
     (\<forall>es bs. cd_canonical C (CMap es) = Some bs \<longrightarrow> list_all (\<lambda>e. cd_canonical C (fst e) \<noteq> None) es) \<and>
     (\<forall>v. cd_canonical C v \<noteq> Some [])"

lemma v2_codec_read:
  "v2_codec C \<Longrightarrow> flat v \<Longrightarrow> cd_canonical C v = Some bs \<Longrightarrow>
     \<exists>w. cd_read C bs = Some (w, length bs) \<and> reorders v w \<and> cd_canonical C w = Some bs"
  unfolding v2_codec_def by blast

lemma v2_codec_keys:
  "v2_codec C \<Longrightarrow> cd_canonical C (CMap es) = Some bs \<Longrightarrow> list_all (\<lambda>e. cd_canonical C (fst e) \<noteq> None) es"
  unfolding v2_codec_def by blast

lemma v2_codec_reads_back: "v2_codec C \<Longrightarrow> reads_back C"
  unfolding reads_back_def using v2_codec_read by blast

section \<open>Reading canonical octets\<close>

lemma map_free_no_duplicate:
  "map_free v \<Longrightarrow> has_duplicate_key C v = Ok False"
  "list_all map_free vs \<Longrightarrow> any_duplicate C vs = Ok False"
  "list_all (\<lambda>(k, x). map_free k \<and> map_free x) es \<Longrightarrow> distinct (map (cd_canonical C \<circ> fst) es) \<Longrightarrow>
     list_all (\<lambda>e. cd_canonical C (fst e) \<noteq> None) es \<Longrightarrow> (\<forall>e \<in> set es. cd_canonical C (fst e) \<notin> Some ` keys) \<Longrightarrow>
     map_duplicate C keys es = Ok False"
proof (induction C v and C vs and C keys es
    rule: has_duplicate_key_any_duplicate_map_duplicate.induct, goal_cases)
  case (13 C keys key item entries)
  from 13(6) obtain b where b: "cd_canonical C key = Some b" by auto
  have "b \<notin> keys" using 13(7) b by force
  moreover have "\<forall>e \<in> set entries. cd_canonical C (fst e) \<notin> Some ` insert b keys"
    using 13(5,7) b by (auto simp: image_iff)
  ultimately show ?case using 13 b by auto
qed auto

lemma distinct_canonical:
  assumes "reads_back C" and "list_all (\<lambda>(k, x). map_free k \<and> map_free x) es"
    and "list_all (\<lambda>e. cd_canonical C (fst e) \<noteq> None) es" and "distinct (map fst es)"
  shows "distinct (map (cd_canonical C \<circ> fst) es)"
proof -
  have "inj_on (cd_canonical C) (set (map fst es))"
  proof (rule inj_onI)
    fix k l assume k: "k \<in> set (map fst es)" "l \<in> set (map fst es)" "cd_canonical C k = cd_canonical C l"
    then have "map_free k" "map_free l" "cd_canonical C k \<noteq> None"
      using assms(2,3) by (force simp: list_all_iff)+
    then show "k = l" using canonical_inject[OF assms(1)] k(3) by auto
  qed
  then show ?thesis using assms(4) by (simp add: distinct_map flip: map_map)
qed

lemma decode_canonical_free:
  assumes "v2_codec (vn_codec E)" and "map_free v" and "cd_canonical (vn_codec E) v = Some bs"
  shows "decode_canonical E bs = Ok v"
proof -
  have "flat v" using assms(2) by (cases v) (auto simp: flat_def)
  then obtain w where w: "cd_read (vn_codec E) bs = Some (w, length bs)" "reorders v w"
    using v2_codec_read[OF assms(1) _ assms(3)] by blast
  then have "w = v" using assms(2) by (auto simp: reorders_def)
  then show ?thesis
    using w assms by (simp add: decode_canonical_def contains_duplicate_map_key_def map_free_no_duplicate(1))
qed

lemma decode_canonical_map:
  assumes law: "v2_codec (vn_codec E)" and bs: "cd_canonical (vn_codec E) (CMap es) = Some bs"
    and free: "list_all (\<lambda>(k, x). map_free k \<and> map_free x) es" and dist: "distinct (map fst es)"
  shows "\<exists>fs. decode_canonical E bs = Ok (CMap fs) \<and> map_of fs = map_of es \<and> length fs = length es"
proof -
  obtain w where w: "cd_read (vn_codec E) bs = Some (w, length bs)" "reorders (CMap es) w"
      "cd_canonical (vn_codec E) w = Some bs"
    using v2_codec_read[OF law _ bs] free by (auto simp: flat_def)
  then obtain fs where fs: "w = CMap fs" "mset es = mset fs" by (auto simp: reorders_def)
  have set: "set fs = set es" using fs(2) by (metis mset_eq_setD)
  have dist': "distinct (map fst fs)" using dist fs(2) by (metis mset_eq_imp_distinct_iff mset_map)
  have keys: "list_all (\<lambda>e. cd_canonical (vn_codec E) (fst e) \<noteq> None) fs"
    using v2_codec_keys[OF law] w(3) by (simp add: fs(1))
  have free': "list_all (\<lambda>(k, x). map_free k \<and> map_free x) fs" using free set by (simp add: list_all_iff)
  have "has_duplicate_key (vn_codec E) w = Ok False"
    using map_free_no_duplicate(3)[OF free' distinct_canonical[OF v2_codec_reads_back[OF law] free' keys dist'] keys]
    by (simp add: fs(1))
  then have "decode_canonical E bs = Ok (CMap fs)"
    using w by (simp add: decode_canonical_def contains_duplicate_map_key_def fs(1))
  moreover have "map_of fs = map_of es" using mset_map_of[OF fs(2) dist] .
  ultimately show ?thesis using fs(2) by (metis mset_eq_length)
qed

lemma decode_canonical_cmap:
  assumes "v2_codec (vn_codec E)" and "cd_canonical (vn_codec E) (cmap kvs) = Some bs"
    and "list_all (\<lambda>(k, x). map_free x) kvs" and "distinct (map fst kvs)"
  shows "\<exists>fs. decode_canonical E bs = Ok (CMap fs) \<and> (\<forall>n. map_of fs (CText n) = map_of kvs n) \<and>
    length fs = length kvs"
proof -
  have "list_all (\<lambda>(k, x). map_free k \<and> map_free x) (map (\<lambda>(k, v). (CText k, v)) kvs)"
    using assms(3) by (auto simp: list_all_iff)
  from decode_canonical_map[OF assms(1) assms(2)[unfolded cmap_def] this distinct_cmap[OF assms(4)]]
  show ?thesis by (auto simp: map_of_cmap)
qed

lemmas v2_reads =
  v2_map_entries_def v2_field_def v2_optional_field_def v2_text_def v2_bytes_def v2_fixed_bytes_def
  v2_uint_def v2_text_field_def v2_bytes_field_def v2_uint_field_def v2_side_def v2_side_number_def

section \<open>Objects\<close>

definition object_typed :: "v2_object \<Rightarrow> bool" where
  "object_typed o' \<longleftrightarrow> length (ob_intent_digest o') = 32"

lemma length_padded: "validate_body k (length body) = Ok () \<Longrightarrow> length (padded_body k body) = capacity k"
  by (auto simp: validate_body_def padded_body_def capacity_def LARGE_PADDING_BYTES_def
      CONTROL_PADDING_BYTES_def MAX_LARGE_BODY_def MAX_CONTROL_BODY_def split: if_splits)

lemma kind_number_roundtrip [simp]: "kind_from_number (kind_number k) = Ok k"
  by (cases k) (simp_all add: kind_from_number_def ALL_KINDS_def)

lemma kind_number_bound: "kind_number k \<le> 11"
  by (cases k) simp_all

lemma object_new_Ok:
  "object_new E k d body = Ok x \<longleftrightarrow> validate_body k (length body) = Ok () \<and>
     (\<exists>bs. cd_canonical (vn_codec E) (object_value k d body) = Some bs \<and>
       x = \<lparr>ob_kind = k, ob_intent_digest = d, ob_body = body, ob_bytes = bs, ob_content_hash = v2_sha256 E bs\<rparr>)"
  by (auto simp: object_new_def bind_result_Ok v2_canonical_def)

lemma body_bound: "validate_body k n = Ok () \<Longrightarrow> n \<le> 62000"
  by (auto simp: validate_body_def MAX_LARGE_BODY_def MAX_CONTROL_BODY_def split: if_splits)

lemma decode_object_new:
  assumes law: "v2_codec (vn_codec E)" and new: "object_new E k d body = Ok x" and "length d = 32"
  shows "decode_object E (ob_bytes x) = Ok x"
proof -
  obtain bs where bs: "validate_body k (length body) = Ok ()"
      "cd_canonical (vn_codec E) (object_value k d body) = Some bs" "ob_bytes x = bs"
    using new by (auto simp: object_new_Ok)
  obtain fs where fs: "decode_canonical E bs = Ok (CMap fs)"
      "map_of fs = map_of [(CInteger 0, CInteger 2), (CInteger 1, CInteger (int (kind_number k))),
      (CInteger 2, CBytes d), (CInteger 3, CInteger (int (length body))),
      (CInteger 4, CBytes (padded_body k body))]" "length fs = 5"
    using decode_canonical_map[OF law bs(2)[unfolded object_value_def]] by auto
  have "int (length body) \<le> int u64_max" "int (kind_number k) \<le> int u64_max"
    using body_bound[OF bs(1)] kind_number_bound[of k] by (simp_all add: u64_max_def)
  moreover have "length (padded_body k body) = capacity k" "take (length body) (padded_body k body) = body"
    "\<not> list_ex (\<lambda>b. b \<noteq> 0) (drop (length body) (padded_body k body))"
    using length_padded[OF bs(1)] by (simp_all add: padded_body_def list_ex_iff)
  ultimately show ?thesis
    using fs bs new assms(3) by (simp add: decode_object_def v2_reads u64_max_def)
qed

lemma decode_object_Ok:
  assumes "decode_object E bs = Ok x"
  shows "ob_bytes x = bs \<and> object_new E (ob_kind x) (ob_intent_digest x) (ob_body x) = Ok x \<and>
    length (ob_intent_digest x) = 32 \<and> cd_read (vn_codec E) bs \<noteq> None"
  using assms
  by (auto simp: decode_object_def bind_result_Ok object_new_Ok v2_fixed_bytes_def decode_canonical_def
      split: if_splits)

section \<open>Frames\<close>

fun frame_typed :: "v2_frame \<Rightarrow> bool" where
  "frame_typed (FrCpace message) \<longleftrightarrow> length (cm_share message) = 32"
| "frame_typed (FrFinished s v) \<longleftrightarrow> length v = 64"
| "frame_typed (FrSealed d counter ct) \<longleftrightarrow> counter \<le> u64_max"

lemma v2_uint_int [simp]: "n \<le> u64_max \<Longrightarrow> v2_uint (CInteger (int n)) = Ok n"
  by (simp add: v2_uint_def)

lemma v2_uint_two [simp]: "v2_uint (CInteger 2) = Ok 2"
  by (simp add: v2_uint_def u64_max_def)

lemma v2_side_roundtrip [simp]: "v2_side (CInteger (int (v2_side_number s))) = Ok s"
  by (cases s) (simp_all add: v2_side_def v2_side_number_def v2_uint_def u64_max_def)

lemma v2_direction_roundtrip [simp]: "v2_direction (CInteger (int (direction_number d))) = Ok d"
  by (cases d) (simp_all add: v2_direction_def direction_number_def v2_uint_def u64_max_def)

lemma v2_fixed_bytes_roundtrip [simp]: "length b = n \<Longrightarrow> v2_fixed_bytes n (CBytes b) = Ok b"
  by (simp add: v2_fixed_bytes_def v2_bytes_def)

lemma v2_plain_roundtrip [simp]: "v2_bytes (CBytes b) = Ok b" "v2_text (CText t) = Ok t"
  by (simp_all add: v2_bytes_def v2_text_def)

lemmas v2_lookups =
  v2_map_entries_def v2_field_def v2_optional_field_def v2_text_field_def v2_bytes_field_def v2_uint_field_def

lemma frame_value_plain:
  "frame_value E f = Ok v \<Longrightarrow>
     \<exists>kvs. v = cmap kvs \<and> list_all (\<lambda>(k, x). map_free x) kvs \<and> distinct (map fst kvs)"
  by (cases f) (auto simp: frame_value_def bind_result_Ok split: if_splits)

lemma decode_encode_frame:
  assumes law: "v2_codec (vn_codec E)" and enc: "encode_frame E f = Ok bs" and ty: "frame_typed f"
  shows "decode_frame E bs = Ok f"
proof -
  obtain v where v: "frame_value E f = Ok v" "cd_canonical (vn_codec E) v = Some bs"
    using enc by (auto simp: encode_frame_def bind_result_Ok v2_canonical_def)
  obtain kvs fs where kvs: "v = cmap kvs"
    and fs: "decode_canonical E bs = Ok (CMap fs)" "\<forall>n. map_of fs (CText n) = map_of kvs n"
      "length fs = length kvs"
    using frame_value_plain[OF v(1)] v(2) decode_canonical_cmap[OF law] by metis
  show ?thesis
  proof (cases f)
    case (FrCpace message)
    obtain nested where n: "cd_canonical (vn_codec E) (nested_cpace_value message) = Some nested"
        "cm_associated_data message \<noteq> []" "length (cm_associated_data message) \<le> 256"
      and k: "kvs = [(''v'', CInteger 2), (''kind'', CText ''cpace''),
              (''role'', CInteger (int (v2_side_number (cm_side message)))), (''message'', CBytes nested)]"
      using v(1) FrCpace kvs by (auto simp: frame_value_def bind_result_Ok v2_canonical_def split: if_splits)
    have "decode_canonical E nested = Ok (nested_cpace_value message)"
      by (rule decode_canonical_free[OF law _ n(1)]) (simp add: nested_cpace_value_def)
    then have "decode_cpace_frame E fs = Ok f"
      using n fs(2) k ty FrCpace by (simp add: decode_cpace_frame_def v2_lookups nested_cpace_value_def)
    then show ?thesis using fs k enc by (simp add: decode_frame_def v2_lookups)
  next
    case (FrFinished s x)
    then have "kvs = [(''v'', CInteger 2), (''kind'', CText ''finished''),
            (''role'', CInteger (int (v2_side_number s))), (''value'', CBytes x)]"
      using v(1) kvs by (auto simp: frame_value_def)
    then show ?thesis using fs ty enc FrFinished by (simp add: decode_frame_def v2_lookups)
  next
    case (FrSealed d counter ct)
    then have "kvs = [(''v'', CInteger 2), (''kind'', CText ''sealed''),
            (''direction'', CInteger (int (direction_number d))), (''counter'', CInteger (int counter)),
            (''ciphertext'', CBytes ct)]" "17 \<le> length ct" "length ct \<le> V2_MAX_CIPHERTEXT"
      using v(1) kvs by (auto simp: frame_value_def split: if_splits)
    then show ?thesis using fs ty enc FrSealed by (simp add: decode_frame_def v2_lookups)
  qed
qed

lemma decode_frame_Ok: "decode_frame E bs = Ok f \<Longrightarrow> encode_frame E f = Ok bs"
  unfolding decode_frame_def by (auto simp: bind_result_Ok split: if_splits)

section \<open>Carriers\<close>

definition carrier_typed :: "v2_carrier \<Rightarrow> bool" where
  "carrier_typed c \<longleftrightarrow> length (vc_mailbox_id c) = 32 \<and> length (vc_carrier_ceremony_id c) = 32 \<and>
     length (vc_carrier_nonce c) = 32 \<and> length (vc_claim_commitment c) = 32 \<and>
     vc_relay_expires_at c \<le> u64_max \<and>
     (case vc_expected_allocator_key c of None \<Rightarrow> True | Some key \<Rightarrow> length key = 32)"

lemma encode_carrier_Ok:
  "encode_carrier E c = Ok bs \<longleftrightarrow> (\<exists>o'. recognise_application_id (vc_application_context c) = Ok o') \<and>
     v2_validate_origin E (vc_relay_origin c) 272 = Ok () \<and>
     cd_canonical (vn_codec E) (cmap (carrier_entries c)) = Some bs"
  by (auto simp: encode_carrier_def bind_result_Ok v2_canonical_def)

lemma decode_encode_carrier:
  assumes law: "v2_codec (vn_codec E)" and enc: "encode_carrier E c = Ok bs" and ty: "carrier_typed c"
  shows "decode_carrier E bs = Ok c"
proof -
  have plain: "list_all (\<lambda>(k, x). map_free x) (carrier_entries c)" "distinct (map fst (carrier_entries c))"
    by (auto simp: carrier_entries_def split: option.splits)
  obtain fs where fs: "decode_canonical E bs = Ok (CMap fs)"
      "\<forall>n. map_of fs (CText n) = map_of (carrier_entries c) n" "length fs = length (carrier_entries c)"
    using decode_canonical_cmap[OF law _ plain] enc by (auto simp: encode_carrier_Ok)
  have new: "carrier_new E c = Ok c" using enc by (auto simp: carrier_new_def bind_result_Ok encode_carrier_Ok)
  show ?thesis
    using fs ty enc new
    by (cases c; cases "vc_expected_allocator_key c")
      (simp_all add: decode_carrier_def v2_lookups carrier_entries_def carrier_typed_def)
qed

lemma decode_carrier_Ok: "decode_carrier E bs = Ok c \<Longrightarrow> encode_carrier E c = Ok bs"
  unfolding decode_carrier_def by (auto simp: bind_result_Ok Let_def split: if_splits)

section \<open>Transfer texts\<close>

definition base64_law :: "v2_env \<Rightarrow> bool" where
  "base64_law E \<longleftrightarrow>
     (\<forall>size room d s. vn_base64_encode E size d = Some s \<longrightarrow> d \<noteq> [] \<longrightarrow>
        s \<noteq> [] \<and> length s \<le> size \<and> (length d \<le> room \<longrightarrow> vn_base64_decode E room s = Some d))"

lemma append_bstr_append: "append_bstr out bs = out @ append_bstr [] bs"
  by (simp add: append_bstr_def)

lemma length_append_bstr: "length (append_bstr out bs) \<le> length out + 3 + length bs"
  by (simp add: append_bstr_def numeral_2_eq_2)

lemma parser_take_append: "length a = n \<Longrightarrow> parser_take n (a @ rest) = Ok (a, rest)"
  by (simp add: parser_take_def)

lemma parser_byte_Cons [simp]: "parser_byte (b # rest) = Ok (unat b, rest)"
  by (simp add: parser_byte_def parser_take_def)

lemma unat_octet: "n < 256 \<Longrightarrow> unat (of_nat n :: byte) = n"
  by (simp add: unsigned_of_nat take_bit_nat_eq_self)

lemma be_bytes_two: "be_bytes 2 n = [of_nat (n div 256 mod 256), of_nat (n mod 256)]"
  by (simp add: numeral_2_eq_2)

lemma head_octets: "unat (0x58 :: byte) = 88" "unat (0x59 :: byte) = 89" "unat (0x78 :: byte) = 120"
  by simp_all

lemma short_head: "n \<le> 23 \<Longrightarrow> (64 + n) div 32 = 2 \<and> (64 + n) mod 32 = (n::nat)"
  by (intro conjI div_nat_eqI) (simp_all add: mod_if)

lemma parser_string_bstr:
  assumes "length bs \<le> 65535"
  shows "parser_string 2 (append_bstr [] bs @ rest) = Ok (bs, rest)"
proof -
  consider "length bs \<le> 23" | "23 < length bs" "length bs \<le> 255" | "255 < length bs" by linarith
  then show ?thesis
  proof cases
    case 1
    then have "unat (of_nat (64 + length bs) :: byte) = 64 + length bs" by (intro unat_octet) simp
    then show ?thesis
      using 1 short_head[OF 1] by (simp add: append_bstr_def parser_string_def parser_take_append)
  next
    case 2
    then show ?thesis
      using unat_octet[of "length bs"] by (simp add: append_bstr_def parser_string_def parser_take_append)
  next
    case 3
    have "unat (of_nat (length bs div 256 mod 256) :: byte) = length bs div 256"
      "unat (of_nat (length bs mod 256) :: byte) = length bs mod 256"
      using assms by (simp_all add: unat_octet)
    then show ?thesis
      using 3 by (simp add: append_bstr_def parser_string_def parser_take_append be_bytes_two head_octets)
  qed
qed

lemma parser_domain:
  "length d = n \<Longrightarrow> 24 \<le> n \<Longrightarrow> n < 256 \<Longrightarrow> parser_string 3 (0x78 # of_nat n # d @ rest) = Ok (d, rest)"
  using unat_octet[of n] by (simp add: parser_string_def parser_take_append)

definition code_typed :: "presence_code \<Rightarrow> bool" where
  "code_typed k \<longleftrightarrow> length (pk_cpace_secret k) = 16 \<and> length (pk_claim_token k) = 16"

lemma encoded_carrier_nonempty: "v2_codec (vn_codec E) \<Longrightarrow> encode_carrier E c = Ok bs \<Longrightarrow> bs \<noteq> []"
  by (auto simp: encode_carrier_Ok v2_codec_def)

lemma handoff_roundtrip_lemma:
  assumes law: "v2_codec (vn_codec E)" and b64: "base64_law E"
    and new: "handoff_new E c k = Ok h" and ty: "carrier_typed c" "code_typed k"
    and enc: "handoff_encode E h = Ok text"
  shows "handoff_from_str E text = Ok h"
proof -
  have h: "h = \<lparr>hf_carrier = c, hf_presence = k\<rparr>" using new by (auto simp: handoff_new_def split: if_splits)
  obtain public encoded where p: "encode_carrier E c = Ok public" "length public \<le> MAX_CARRIER"
      "vn_base64_encode E (HANDOFF_MAX_TEXT - length HANDOFF_PREFIX) (handoff_octets public k) = Some encoded"
      "text = HANDOFF_PREFIX @ encoded"
    using enc by (auto simp: handoff_encode_def h bind_result_Ok split: if_splits)
  have oct: "handoff_octets public k =
      0x84 # (0x78 # of_nat 27 # HANDOFF_DOMAIN @ append_bstr [] public @
        append_bstr [] (pk_cpace_secret k) @ append_bstr [] (pk_claim_token k))"
    unfolding handoff_octets_def
    by (simp add: append_bstr_append[of "append_bstr _ _"] append_bstr_append[of "_ # _"])
  have dl: "length HANDOFF_DOMAIN = 27" by (simp add: HANDOFF_DOMAIN_def ascii_def)
  have "length (handoff_octets public k) \<le> HANDOFF_MAX_DECODED"
    unfolding oct using p(2) ty(2) dl
    by (simp add: append_bstr_def MAX_CARRIER_def HANDOFF_MAX_DECODED_def code_typed_def numeral_2_eq_2)
  then have dec: "encoded \<noteq> []" "length encoded \<le> HANDOFF_MAX_TEXT - length HANDOFF_PREFIX"
      "vn_base64_decode E HANDOFF_MAX_DECODED encoded = Some (handoff_octets public k)"
    using b64 p(3) by (auto simp: base64_law_def oct)
  have "parser_string 3 (0x78 # of_nat 27 # HANDOFF_DOMAIN @ rest) = Ok (HANDOFF_DOMAIN, rest)" for rest
    by (rule parser_domain) (simp_all add: dl)
  moreover have "parser_string 2 (append_bstr [] public @ rest) = Ok (public, rest)"
    "parser_string 2 (append_bstr [] (pk_cpace_secret k) @ rest) = Ok (pk_cpace_secret k, rest)" for rest
    using p(2) ty(2) by (simp_all add: parser_string_bstr MAX_CARRIER_def code_typed_def)
  moreover have "parser_string 2 (append_bstr [] (pk_claim_token k)) = Ok (pk_claim_token k, [])"
    using parser_string_bstr[of "pk_claim_token k" "[]"] ty(2) by (simp add: code_typed_def)
  moreover have "length text \<le> HANDOFF_MAX_TEXT"
    using dec(2) p(4) by (simp add: HANDOFF_PREFIX_def HANDOFF_MAX_TEXT_def)
  moreover have "handoff_new E c \<lparr>pk_cpace_secret = pk_cpace_secret k, pk_claim_token = pk_claim_token k\<rparr> = Ok h"
    using new by (cases k) simp
  ultimately show ?thesis
    using dec(1,2) dec(3)[unfolded oct] p enc new ty decode_encode_carrier[OF law p(1)]
      encoded_carrier_nonempty[OF law p(1)]
    by (simp add: handoff_from_str_def starts_with_def into_array_def code_typed_def Let_def)
qed

end
