(* ===== verification/V2_Presence_Props.thy ===== *)
theory V2_Presence_Props
  imports V2_Codec_Props
begin

text \<open>
  The texts a person types: the presence code and the three-word phrase are read back exactly,
  and a presence code is accepted only in its one canonical spelling up to letter case.
\<close>

section \<open>Bits of the payload\<close>

lemma bit_position:
  assumes "n < 8"
  shows "(8 * i + (7 - n)) div 8 = i" and "7 - (8 * i + (7 - n)) mod 8 = (n::nat)"
proof -
  have "(8 * i + (7 - n)) mod 8 = 7 - n" by (simp only: mod_mult_self4) simp
  then show "7 - (8 * i + (7 - n)) mod 8 = n" using assms by simp
  show "(8 * i + (7 - n)) div 8 = i" using assms by simp
qed

lemma bit_position_inject:
  "p div 8 = q div 8 \<Longrightarrow> 7 - q mod 8 = 7 - p mod 8 \<longleftrightarrow> p = (q::nat)"
proof -
  assume d: "p div 8 = q div 8"
  have "p mod 8 < 8" "q mod 8 < 8" by simp_all
  then have "7 - q mod 8 = 7 - p mod 8 \<longleftrightarrow> p mod 8 = q mod 8" by linarith
  then show ?thesis using d by (metis div_mult_mod_eq)
qed

lemma payload_bit_ext:
  assumes "length a = 34" and "length b = 34" and "\<And>p. p < 272 \<Longrightarrow> payload_bit a p = payload_bit b p"
  shows "a = b"
proof (rule nth_equalityI)
  fix i assume i: "i < length a"
  show "a ! i = b ! i"
  proof (rule bit_eqI)
    fix n assume "possible_bit TYPE(8 word) n"
    then have n: "n < 8" by simp
    have "payload_bit a (8 * i + (7 - n)) = payload_bit b (8 * i + (7 - n))"
      using assms(1,3) i n by simp
    then show "bit (a ! i) n = bit (b ! i) n"
      using bit_position[OF n, of i] by (simp only: payload_bit_def)
  qed
qed (simp add: assms)

lemma payload_bit_zero [simp]: "p < 272 \<Longrightarrow> \<not> payload_bit (replicate 34 0) p"
  by (simp add: payload_bit_def)

definition reserved_clear :: "nat \<Rightarrow> nat \<Rightarrow> nat \<Rightarrow> bool" where
  "reserved_clear symbol v b \<longleftrightarrow> \<not> (272 \<le> symbol * 5 + b \<and> symbol * 5 + b < 275 \<and> bit v (4 - b))"

definition bits_added :: "bytes \<Rightarrow> nat set \<Rightarrow> bytes \<Rightarrow> bool" where
  "bits_added a S x \<longleftrightarrow> length a = 34 \<and> length x = 34 \<and> (\<forall>p < 272. payload_bit x p \<longleftrightarrow> payload_bit a p \<or> p \<in> S)"

lemma bits_added_unique: "bits_added a S x \<Longrightarrow> bits_added a S y \<Longrightarrow> x = y"
  unfolding bits_added_def by (rule payload_bit_ext) auto

lemma bits_added_trans: "bits_added a S x \<Longrightarrow> bits_added x T y \<Longrightarrow> bits_added a (S \<union> T) y"
  unfolding bits_added_def by auto

lemma bits_added_refl: "length a = 34 \<Longrightarrow> bits_added a {} a"
  unfolding bits_added_def by simp

lemma bits_added_put:
  assumes "length a = 34" and "q < 272"
  shows "bits_added a (if s then {q} else {}) (a[q div 8 := (a ! (q div 8)) OR push_bit (7 - q mod 8) (of_bool s)])"
proof -
  have "payload_bit (a[q div 8 := (a ! (q div 8)) OR push_bit (7 - q mod 8) (of_bool s)]) p \<longleftrightarrow>
      payload_bit a p \<or> p = q \<and> s" if "p < 272" for p
  proof (cases "p div 8 = q div 8")
    case True
    show ?thesis
      using True that assms bit_position_inject[OF True]
      by (cases s) (auto simp: payload_bit_def bit_or_iff bit_exp_iff)
  next
    case False
    then show ?thesis using assms by (auto simp: payload_bit_def nth_list_update)
  qed
  then show ?thesis using assms(1) by (auto simp: bits_added_def)
qed

definition stored :: "nat \<Rightarrow> nat \<Rightarrow> nat list \<Rightarrow> nat set" where
  "stored symbol v bs = {symbol * 5 + b | b. b \<in> set bs \<and> bit v (4 - b)}"

lemma store_bit_Ok:
  assumes "length a = 34"
  shows "reserved_clear symbol v b \<Longrightarrow> \<exists>x. store_bit symbol v b a = Ok x \<and> bits_added a (stored symbol v [b]) x"
    and "\<not> reserved_clear symbol v b \<Longrightarrow> store_bit symbol v b a = Err V2Schema"
proof -
  show "\<not> reserved_clear symbol v b \<Longrightarrow> store_bit symbol v b a = Err V2Schema"
    by (auto simp: store_bit_def Let_def DATA_BITS_def ENCODED_BITS_def reserved_clear_def)
  have st: "stored symbol v [b] = (if bit v (4 - b) then {symbol * 5 + b} else {})"
    by (auto simp: stored_def)
  assume clear: "reserved_clear symbol v b"
  show "\<exists>x. store_bit symbol v b a = Ok x \<and> bits_added a (stored symbol v [b]) x"
  proof (cases "symbol * 5 + b < 272")
    case True
    then show ?thesis
      using bits_added_put[OF assms True, of "bit v (4 - b)"] by (simp only: st store_bit_def Let_def DATA_BITS_def) simp
  next
    case False
    then have "store_bit symbol v b a = Ok a"
      using clear by (auto simp: store_bit_def Let_def DATA_BITS_def ENCODED_BITS_def reserved_clear_def)
    moreover have "bits_added a (stored symbol v [b]) a"
      using False assms by (auto simp: bits_added_def stored_def)
    ultimately show ?thesis by blast
  qed
qed

lemma stored_Cons: "stored symbol v (b # bs) = stored symbol v [b] \<union> stored symbol v bs"
  by (auto simp: stored_def)

lemma store_bits_Ok:
  "length a = 34 \<Longrightarrow> list_all (reserved_clear symbol v) bs \<Longrightarrow>
     \<exists>x. store_bits symbol v bs a = Ok x \<and> bits_added a (stored symbol v bs) x"
proof (induction bs arbitrary: a)
  case Nil
  then show ?case by (simp add: stored_def bits_added_refl)
next
  case (Cons b bs)
  then obtain x where x: "store_bit symbol v b a = Ok x" "bits_added a (stored symbol v [b]) x"
    using store_bit_Ok(1)[OF Cons.prems(1), of symbol v b] by auto
  then obtain y where "store_bits symbol v bs x = Ok y" "bits_added x (stored symbol v bs) y"
    using Cons.IH[of x] Cons.prems by (auto simp: bits_added_def)
  then show ?case using x bits_added_trans by (subst stored_Cons) auto
qed

lemma store_bits_clear:
  "length a = 34 \<Longrightarrow> store_bits symbol v bs a = Ok x \<Longrightarrow> list_all (reserved_clear symbol v) bs"
proof (induction bs arbitrary: a)
  case (Cons b bs)
  obtain y where y: "store_bit symbol v b a = Ok y" "store_bits symbol v bs y = Ok x"
    using Cons.prems by (auto simp: bind_result_Ok)
  then have clear: "reserved_clear symbol v b" using store_bit_Ok(2)[OF Cons.prems(1)] by fastforce
  then have "length y = 34" using store_bit_Ok(1)[OF Cons.prems(1) clear] y(1) by (auto simp: bits_added_def)
  then show ?case using Cons.IH[OF _ y(2)] clear by simp
qed simp

section \<open>Symbols\<close>

definition symbol_bit :: "bytes \<Rightarrow> nat \<Rightarrow> bool" where
  "symbol_bit payload p \<longleftrightarrow> p < 272 \<and> payload_bit payload p"

lemma symbol_bit_value:
  "(if p < DATA_BITS then of_bool (payload_bit payload p) else 0) = (of_bool (symbol_bit payload p) :: nat)"
  by (simp add: symbol_bit_def DATA_BITS_def)

lemma upt_five: "[0..<5] = [0, 1, 2, 3, 4]"
  by (simp add: upt_rec)

lemma symbol_value_unfold:
  "symbol_value payload i = 16 * of_bool (symbol_bit payload (i * 5)) + 8 * of_bool (symbol_bit payload (i * 5 + 1)) +
     4 * of_bool (symbol_bit payload (i * 5 + 2)) + 2 * of_bool (symbol_bit payload (i * 5 + 3)) +
     of_bool (symbol_bit payload (i * 5 + 4))"
  by (simp only: symbol_value_def Let_def symbol_bit_value upt_five foldl.simps) simp

lemma five_bits:
  "v < 32 \<Longrightarrow> v = 16 * of_bool (bit v 4) + 8 * of_bool (bit v 3) + 4 * of_bool (bit v 2) +
     2 * of_bool (bit v 1) + of_bool (bit v (0::nat))" for v :: nat
proof -
  assume "v < 32"
  moreover have "list_all (\<lambda>v. v = 16 * of_bool (bit v 4) + 8 * of_bool (bit v 3) + 4 * of_bool (bit v 2) +
     2 * of_bool (bit v 1) + of_bool (bit v (0::nat))) [0..<32::nat]" by code_simp
  ultimately show ?thesis by (simp add: list_all_iff)
qed

lemma symbol_value_bound: "symbol_value payload i < 32"
  by (simp add: symbol_value_unfold of_bool_def)

lemma symbol_value_bits: "b < 5 \<Longrightarrow> bit (symbol_value payload i) (4 - b) \<longleftrightarrow> symbol_bit payload (i * 5 + b)"
proof -
  have "list_all (\<lambda>(a, b, c, d, e). let v = 16 * of_bool a + 8 * of_bool b + 4 * of_bool c + 2 * of_bool d + of_bool e :: nat
     in bit v 4 = a \<and> bit v 3 = b \<and> bit v 2 = c \<and> bit v 1 = d \<and> bit v 0 = e)
     (List.product [True, False] (List.product [True, False] (List.product [True, False]
       (List.product [True, False] [True, False]))))"
    by code_simp
  then have "let v = 16 * of_bool a + 8 * of_bool b + 4 * of_bool c + 2 * of_bool d + of_bool e :: nat
     in bit v 4 = a \<and> bit v 3 = b \<and> bit v 2 = c \<and> bit v 1 = d \<and> bit v 0 = e" for a b c d e
    by (auto simp: list_all_iff)
  then have *: "let v = symbol_value payload i in bit v 4 = symbol_bit payload (i * 5) \<and>
    bit v 3 = symbol_bit payload (i * 5 + 1) \<and> bit v 2 = symbol_bit payload (i * 5 + 2) \<and>
    bit v 1 = symbol_bit payload (i * 5 + 3) \<and> bit v 0 = symbol_bit payload (i * 5 + 4)"
    unfolding symbol_value_unfold by blast
  assume "b < 5"
  then consider "b = 0" | "b = 1" | "b = 2" | "b = 3" | "b = 4" by linarith
  then show ?thesis using * unfolding Let_def by cases simp_all
qed

lemma symbol_value_eqI:
  assumes "v < 32" and "\<And>b. b < 5 \<Longrightarrow> bit v (4 - b) \<longleftrightarrow> symbol_bit payload (i * 5 + b)"
  shows "symbol_value payload i = v"
  using five_bits[OF assms(1)] assms(2)[of 0] assms(2)[of 1] assms(2)[of 2] assms(2)[of 3] assms(2)[of 4]
  by (simp add: symbol_value_unfold)

definition symbol_ok :: "nat \<Rightarrow> char \<Rightarrow> bool" where
  "symbol_ok i c \<longleftrightarrow> (\<exists>v. position_of c ALPHABET = Some v \<and> list_all (reserved_clear i v) [0..<5])"

definition symbols_stored :: "nat \<Rightarrow> string \<Rightarrow> nat set" where
  "symbols_stored symbol cs = (\<Union>i < length cs. stored (symbol + i) (the (position_of (cs ! i) ALPHABET)) [0..<5])"

lemma symbols_stored_Cons:
  "symbols_stored symbol (c # cs) =
     stored symbol (the (position_of c ALPHABET)) [0..<5] \<union> symbols_stored (Suc symbol) cs"
  unfolding symbols_stored_def by (simp add: lessThan_Suc_eq_insert_0)

lemma store_symbols_Ok:
  "length a = 34 \<Longrightarrow> \<forall>i < length cs. symbol_ok (symbol + i) (cs ! i) \<Longrightarrow>
     \<exists>x. store_symbols symbol cs a = Ok x \<and> bits_added a (symbols_stored symbol cs) x"
proof (induction cs arbitrary: symbol a)
  case Nil
  then show ?case by (simp add: symbols_stored_def bits_added_refl)
next
  case (Cons c cs)
  obtain v where v: "position_of c ALPHABET = Some v" "list_all (reserved_clear symbol v) [0..<5]"
    using Cons.prems(2) by (force simp: symbol_ok_def)
  obtain x where x: "store_bits symbol v [0..<5] a = Ok x" "bits_added a (stored symbol v [0..<5]) x"
    using store_bits_Ok[OF Cons.prems(1) v(2)] by blast
  have "\<forall>i < length cs. symbol_ok (Suc symbol + i) (cs ! i)" using Cons.prems(2) by force
  then obtain y where "store_symbols (Suc symbol) cs x = Ok y" "bits_added x (symbols_stored (Suc symbol) cs) y"
    using Cons.IH[of x "Suc symbol"] x by (auto simp: bits_added_def)
  then show ?case using x v bits_added_trans by (subst symbols_stored_Cons) auto
qed

lemma store_symbols_ok:
  "length a = 34 \<Longrightarrow> store_symbols symbol cs a = Ok x \<Longrightarrow> i < length cs \<Longrightarrow> symbol_ok (symbol + i) (cs ! i)"
proof (induction cs arbitrary: symbol a i)
  case (Cons c cs)
  obtain v y where v: "position_of c ALPHABET = Some v" "store_bits symbol v [0..<5] a = Ok y"
      "store_symbols (Suc symbol) cs y = Ok x"
    using Cons.prems(2) by (auto simp: bind_result_Ok ok_or_def split: option.splits)
  note clear = store_bits_clear[OF Cons.prems(1) v(2)]
  have "length y = 34" using store_bits_Ok[OF Cons.prems(1) clear] v(2) by (auto simp: bits_added_def)
  then show ?case
    using Cons.IH[OF _ v(3)] Cons.prems(3) v(1) clear by (cases i) (auto simp: symbol_ok_def)
qed simp

lemma position_unique: "i * 5 + b = j * 5 + c \<Longrightarrow> b < 5 \<Longrightarrow> c < 5 \<Longrightarrow> i = j \<and> b = (c::nat)"
  by presburger

lemma symbols_stored_at:
  "i < length cs \<Longrightarrow> b < 5 \<Longrightarrow>
     i * 5 + b \<in> symbols_stored 0 cs \<longleftrightarrow> bit (the (position_of (cs ! i) ALPHABET)) (4 - b)"
  by (auto simp: symbols_stored_def stored_def dest: position_unique)

lemma position_of_Some: "position_of x xs = Some i \<Longrightarrow> i < length xs \<and> xs ! i = x"
  by (induction xs arbitrary: i) (auto split: if_splits)

lemma position_of_nth: "distinct xs \<Longrightarrow> i < length xs \<Longrightarrow> position_of (xs ! i) xs = Some i"
  by (induction xs arbitrary: i) (auto simp: nth_Cons split: nat.splits)

lemma length_ALPHABET: "length ALPHABET = 32" and distinct_ALPHABET: "distinct ALPHABET"
  by (simp_all add: ALPHABET_def)

lemma store_symbols_iff:
  assumes n: "length cs = 55"
  shows "store_symbols 0 cs (replicate 34 0) = Ok x \<longleftrightarrow> length x = 34 \<and>
    (\<forall>i < 55. position_of (cs ! i) ALPHABET = Some (symbol_value x i))"
    (is "?L \<longleftrightarrow> ?R")
proof
  assume L: ?L
  have ok: "symbol_ok i (cs ! i)" if "i < 55" for i
    using store_symbols_ok[OF _ L, of i] n that by simp
  then have x: "bits_added (replicate 34 0) (symbols_stored 0 cs) x"
    using store_symbols_Ok[of "replicate 34 0" cs 0] L n by auto
  have "position_of (cs ! i) ALPHABET = Some (symbol_value x i)" if i: "i < 55" for i
  proof -
    obtain v where v: "position_of (cs ! i) ALPHABET = Some v" "list_all (reserved_clear i v) [0..<5]"
      using ok[OF i] by (auto simp: symbol_ok_def)
    have "bit v (4 - b) \<longleftrightarrow> symbol_bit x (i * 5 + b)" if b: "b < 5" for b
    proof (cases "i * 5 + b < 272")
      case True
      then show ?thesis
        using x v(1) symbols_stored_at[of i cs b] i b n by (simp add: bits_added_def symbol_bit_def)
    next
      case False
      then show ?thesis using v(2) i b by (auto simp: list_all_iff reserved_clear_def symbol_bit_def)
    qed
    then have "symbol_value x i = v"
      using symbol_value_eqI position_of_Some[OF v(1)] by (simp add: length_ALPHABET)
    then show ?thesis using v(1) by simp
  qed
  then show ?R using x by (simp add: bits_added_def)
next
  assume R: ?R
  have "symbol_ok i (cs ! i)" if i: "i < 55" for i
    using R i symbol_value_bits[of _ x i] by (auto simp: symbol_ok_def list_all_iff reserved_clear_def symbol_bit_def)
  then obtain y where y: "store_symbols 0 cs (replicate 34 0) = Ok y"
      "bits_added (replicate 34 0) (symbols_stored 0 cs) y"
    using store_symbols_Ok[of "replicate 34 0" cs 0] n by auto
  have "payload_bit x p \<longleftrightarrow> p \<in> symbols_stored 0 cs" if p: "p < 272" for p
  proof -
    have i: "p div 5 < 55" "p mod 5 < 5" "p div 5 * 5 + p mod 5 = p" using p by simp_all
    show ?thesis
      using symbols_stored_at[of "p div 5" cs "p mod 5"] i R n p symbol_value_bits[of "p mod 5" x "p div 5"]
      by (simp add: symbol_bit_def)
  qed
  then have "bits_added (replicate 34 0) (symbols_stored 0 cs) x" using R by (simp add: bits_added_def)
  then show ?L using bits_added_unique y by metis
qed

section \<open>The presence text\<close>

lemma split_on_join:
  "sep \<notin> set x \<Longrightarrow> \<forall>g \<in> set gs. sep \<notin> set g \<Longrightarrow> split_on sep (x @ concat (map (\<lambda>g. sep # g) gs)) = x # gs"
proof (induction gs arbitrary: x)
  case Nil
  then show ?case by (induction x) auto
next
  case (Cons g gs)
  then show ?case by (induction x) auto
qed

lemma split_on_parts:
  "split_on sep s = x # gs \<Longrightarrow> s = x @ concat (map (\<lambda>g. sep # g) gs)"
proof (induction s arbitrary: x gs)
  case (Cons c s)
  obtain y hs where y: "split_on sep s = y # hs" using split_on_nonempty by (meson neq_Nil_conv)
  then have "x # gs = (if c = sep then [] # y # hs else (c # y) # hs)" using Cons.prems by (simp split: if_splits)
  then show ?case by (auto simp: Cons.IH[OF y] split: if_splits)
qed simp

definition symbols_text :: "bytes \<Rightarrow> string" where
  "symbols_text payload = map (\<lambda>i. ALPHABET ! symbol_value payload i) [0..<55]"

lemma store_symbols_text:
  "length cs = 55 \<Longrightarrow> store_symbols 0 cs (replicate 34 0) = Ok x \<longleftrightarrow> length x = 34 \<and> cs = symbols_text x"
  using position_of_nth[OF distinct_ALPHABET] symbol_value_bound
  by (auto simp: store_symbols_iff symbols_text_def length_ALPHABET list_eq_iff_nth_eq dest!: position_of_Some)

lemma concat_map_upt:
  "concat (map (\<lambda>g. map (\<lambda>i. f (g * m + i)) [0..<m]) [0..<n]) = map f [0..<n * m]"
proof (induction n)
  case (Suc n)
  have "map f [0..<Suc n * m] = map f [0..<n * m] @ map f [n * m..<n * m + m]"
    by (metis add.commute mult_Suc upt_add_eq_append map_append le0)
  moreover have "map f [n * m..<n * m + m] = map (\<lambda>i. f (n * m + i)) [0..<m]"
    by (simp add: list_eq_iff_nth_eq)
  ultimately show ?case using Suc.IH by simp
qed simp

lemma concat_groups:
  "concat (map (presence_group payload) [0..<GROUPS]) = symbols_text payload"
  using concat_map_upt[of "\<lambda>i. ALPHABET ! symbol_value payload i" 5 11]
  by (simp add: presence_group_def[abs_def] symbols_text_def GROUPS_def GROUP_OCTETS_def)

lemma length_symbols_text [simp]: "length (symbols_text payload) = 55"
  by (simp add: symbols_text_def)

lemma groups_eqI:
  "length xs = length ys \<Longrightarrow> list_all (\<lambda>g. length g = n) xs \<Longrightarrow> list_all (\<lambda>g. length g = n) ys \<Longrightarrow>
     concat xs = concat ys \<Longrightarrow> xs = ys"
  by (induction xs ys rule: list_induct2) auto

lemma length_concat_groups: "list_all (\<lambda>g. length g = n) gs \<Longrightarrow> length (concat gs) = length gs * n"
  by (induction gs) auto

lemma ALPHABET_chars: "v < 32 \<Longrightarrow> ALPHABET ! v \<noteq> CHR ''-'' \<and> \<not> is_lowercase (ALPHABET ! v) \<and> char_code (ALPHABET ! v) < 128"
proof -
  have "list_all (\<lambda>c. c \<noteq> CHR ''-'' \<and> \<not> is_lowercase c \<and> char_code c < 128) ALPHABET" by code_simp
  then show "v < 32 \<Longrightarrow> ?thesis" by (simp add: list_all_length length_ALPHABET)
qed

lemma presence_text_split:
  "split_on (CHR ''-'') (presence_to_string E k) =
     PRESENCE_PREFIX # map (presence_group (presence_payload E k)) [0..<GROUPS]"
proof -
  have "\<forall>g \<in> set (map (presence_group (presence_payload E k)) [0..<GROUPS]). CHR ''-'' \<notin> set g"
    using ALPHABET_chars symbol_value_bound by (force simp: presence_group_def)
  moreover have "CHR ''-'' \<notin> set PRESENCE_PREFIX" by (simp add: PRESENCE_PREFIX_def)
  ultimately show ?thesis
    using split_on_join[of "CHR ''-''" PRESENCE_PREFIX "map (presence_group (presence_payload E k)) [0..<GROUPS]"]
    by (simp add: presence_to_string_def Let_def comp_def)
qed

lemma presence_text_chars:
  assumes "c \<in> set (presence_to_string E k)"
  shows "\<not> is_lowercase c \<and> char_code c < 128"
proof -
  have "c \<in> set (PRESENCE_PREFIX @ ''-'' @ ALPHABET)"
    using assms symbol_value_bound
    by (auto simp: presence_to_string_def Let_def presence_group_def length_ALPHABET split: if_splits)
  moreover have "list_all (\<lambda>c. \<not> is_lowercase c \<and> char_code c < 128) (PRESENCE_PREFIX @ ''-'' @ ALPHABET)"
    by code_simp
  ultimately show ?thesis unfolding list_all_iff by blast
qed

lemma uppercase_ascii: "to_ascii_uppercase s = presence_to_string E k \<Longrightarrow> is_ascii s"
proof -
  assume eq: "to_ascii_uppercase s = presence_to_string E k"
  have "char_code c < 128" if c: "c \<in> set s" for c
  proof (cases "is_lowercase c")
    case False
    then have "c \<in> set (to_ascii_uppercase s)" using c by (force simp: to_ascii_uppercase_def)
    then show ?thesis using eq presence_text_chars by simp
  qed (simp add: is_lowercase_def)
  then show ?thesis by (simp add: is_ascii_def list_all_iff)
qed

lemma presence_text_iff:
  assumes "split_on (CHR ''-'') s = first # groups"
  shows "first = PRESENCE_PREFIX \<and> length groups = GROUPS \<and> list_all (\<lambda>g. length g = GROUP_OCTETS) groups \<and>
      concat groups = symbols_text (presence_payload E k) \<longleftrightarrow> s = presence_to_string E k"
proof
  assume l: "first = PRESENCE_PREFIX \<and> length groups = GROUPS \<and> list_all (\<lambda>g. length g = GROUP_OCTETS) groups \<and>
      concat groups = symbols_text (presence_payload E k)"
  then have "groups = map (presence_group (presence_payload E k)) [0..<GROUPS]"
    by (intro groups_eqI[where n = GROUP_OCTETS]) (auto simp: concat_groups list_all_iff presence_group_def)
  then show "s = presence_to_string E k"
    using l split_on_parts[OF assms] by (simp add: presence_to_string_def Let_def comp_def)
next
  assume "s = presence_to_string E k"
  then show "first = PRESENCE_PREFIX \<and> length groups = GROUPS \<and> list_all (\<lambda>g. length g = GROUP_OCTETS) groups \<and>
      concat groups = symbols_text (presence_payload E k)"
    using assms by (auto simp: presence_text_split concat_groups list_all_iff presence_group_def)
qed

lemma presence_payload_length:
  "code_typed k \<Longrightarrow> 2 \<le> length (v2_sha256 E (PRESENCE_DOMAIN @ pk_cpace_secret k @ pk_claim_token k)) \<Longrightarrow>
     length (presence_payload E k) = 34"
  by (simp add: presence_payload_def code_typed_def)

lemma presence_payload_parts:
  assumes hash: "\<And>m. 2 \<le> length (v2_sha256 E m)"
  shows "length x = 34 \<and> k = \<lparr>pk_cpace_secret = take 16 x, pk_claim_token = take 16 (drop 16 x)\<rparr> \<and>
      drop 32 (presence_payload E k) = drop 32 x \<longleftrightarrow> code_typed k \<and> x = presence_payload E k"
    (is "?L \<longleftrightarrow> ?R")
proof
  assume L: ?L
  have x: "take 16 x @ take 16 (drop 16 x) @ drop 32 x = x"
    using append_take_drop_id[of 16 x] append_take_drop_id[of 16 "drop 16 x"] by simp
  have k: "pk_cpace_secret k = take 16 x" "pk_claim_token k = take 16 (drop 16 x)" "length x = 34"
    using L by simp_all
  have d: "drop 32 (presence_payload E k) = drop 32 x" using L by blast
  from k have "drop 32 (presence_payload E k) = take 2 (v2_sha256 E (PRESENCE_DOMAIN @ pk_cpace_secret k @ pk_claim_token k))"
    by (simp add: presence_payload_def)
  then have "presence_payload E k = take 16 x @ take 16 (drop 16 x) @ drop 32 x"
    using k d by (metis presence_payload_def)
  then show ?R using k x by (simp add: code_typed_def)
next
  assume R: ?R
  then show ?L
    using presence_payload_length[OF _ hash, of k]
    by (cases k) (simp add: presence_payload_def code_typed_def)
qed

lemma presence_from_str_Ok:
  assumes hash: "\<And>m. 2 \<le> length (v2_sha256 E m)"
  shows "presence_from_str E s = Ok k \<longleftrightarrow> code_typed k \<and> to_ascii_uppercase s = presence_to_string E k"
proof -
  obtain first groups where sp: "split_on (CHR ''-'') (to_ascii_uppercase s) = first # groups"
    using split_on_nonempty by (meson neq_Nil_conv)
  have len: "list_all (\<lambda>g. length g = GROUP_OCTETS) groups \<Longrightarrow> length groups = GROUPS \<Longrightarrow> length (concat groups) = 55"
    by (simp add: length_concat_groups GROUPS_def GROUP_OCTETS_def)
  note payload = presence_payload_parts[OF hash, where k = k]
  have "presence_from_str E s = Ok k \<longleftrightarrow> is_ascii s \<and> (first = PRESENCE_PREFIX \<and> length groups = GROUPS \<and>
      list_all (\<lambda>g. length g = GROUP_OCTETS) groups \<and>
      (\<exists>x. store_symbols 0 (concat groups) (replicate 34 0) = Ok x \<and>
        k = \<lparr>pk_cpace_secret = take 16 x, pk_claim_token = take 16 (drop 16 x)\<rparr> \<and>
        drop 32 (presence_payload E k) = drop 32 x))"
    by (auto simp: presence_from_str_def sp bind_result_Ok Let_def list_ex_iff list_all_iff)
  also have "\<dots> \<longleftrightarrow> is_ascii s \<and> (first = PRESENCE_PREFIX \<and> length groups = GROUPS \<and>
      list_all (\<lambda>g. length g = GROUP_OCTETS) groups \<and>
      (\<exists>x. concat groups = symbols_text x \<and> (length x = 34 \<and>
        k = \<lparr>pk_cpace_secret = take 16 x, pk_claim_token = take 16 (drop 16 x)\<rparr> \<and>
        drop 32 (presence_payload E k) = drop 32 x)))"
    using len store_symbols_text[of "concat groups"] by blast
  also have "\<dots> \<longleftrightarrow> is_ascii s \<and> code_typed k \<and> (first = PRESENCE_PREFIX \<and> length groups = GROUPS \<and>
      list_all (\<lambda>g. length g = GROUP_OCTETS) groups \<and> concat groups = symbols_text (presence_payload E k))"
    unfolding payload by blast
  also have "\<dots> \<longleftrightarrow> code_typed k \<and> to_ascii_uppercase s = presence_to_string E k"
    using presence_text_iff[OF sp] uppercase_ascii by blast
  finally show ?thesis .
qed

end
