(* ===== verification/V2_Words_Props.thy ===== *)
theory V2_Words_Props
  imports V2_Presence_Props Channel_Props
begin

text \<open>The three-word phrase of the manual entry path is read back exactly.\<close>

section \<open>The word list\<close>

text \<open>The law of the outside list: 2048 distinct words of one to eight small letters.\<close>

definition word_list_law :: "v2_env \<Rightarrow> bool" where
  "word_list_law E \<longleftrightarrow> length (vn_word_list E) = 2048 \<and> distinct (vn_word_list E) \<and>
     list_all (\<lambda>w. w \<noteq> [] \<and> length w \<le> 8 \<and> list_all is_lowercase w) (vn_word_list E)"

lemma word_list_law_word:
  "word_list_law E \<Longrightarrow> i < 2048 \<Longrightarrow>
     word_at E i = Ok (vn_word_list E ! i) \<and> word_index E (vn_word_list E ! i) = Some i \<and>
     vn_word_list E ! i \<noteq> [] \<and> length (vn_word_list E ! i) \<le> 8 \<and> list_all is_lowercase (vn_word_list E ! i)"
  by (simp add: word_list_law_def word_at_def word_index_def position_of_nth list_all_length)

section \<open>Splitting the phrase\<close>

lemma split_when_word: "list_all (\<lambda>c. \<not> p c) w \<Longrightarrow> split_when p w = [w]"
  by (induction w) auto

lemma split_when_join: "list_all (\<lambda>c. \<not> p c) w \<Longrightarrow> p c \<Longrightarrow> split_when p (w @ c # s) = w # split_when p s"
  by (induction w) auto

lemma lowercase_char: "is_lowercase c \<Longrightarrow> \<not> is_phrase_space c \<and> char_code c < 128 \<and> \<not> (65 \<le> char_code c \<and> char_code c \<le> 90)"
  by (auto simp: is_lowercase_def is_phrase_space_def)

lemma phrase_words:
  assumes "list_all (\<lambda>w. w \<noteq> [] \<and> length w \<le> 8 \<and> list_all is_lowercase w) [a, b, c]"
  shows "let s = a @ '' '' @ b @ '' '' @ c in length s \<le> MAX_PHRASE \<and> is_ascii s \<and>
    filter (\<lambda>s. s \<noteq> []) (split_when is_phrase_space (to_ascii_lowercase s)) = [a, b, c]"
proof -
  let ?s = "a @ '' '' @ b @ '' '' @ c"
  have low: "\<forall>x \<in> set a \<union> set b \<union> set c. is_lowercase x" using assms by (auto simp: list_all_iff)
  have "to_ascii_lowercase ?s = ?s"
    unfolding to_ascii_lowercase_def by (rule map_idI) (use low lowercase_char in \<open>auto simp: char_code_def\<close>)
  moreover have "split_when is_phrase_space ?s = [a, b, c]"
  proof -
    have "list_all (\<lambda>c. \<not> is_phrase_space c) w" if "w \<in> {a, b, c}" for w
      using that low lowercase_char by (auto simp: list_all_iff)
    then show ?thesis by (simp add: split_when_join split_when_word is_phrase_space_def char_code_def)
  qed
  moreover have "is_ascii ?s"
    using low lowercase_char by (auto simp: is_ascii_def list_all_iff char_code_def)
  moreover have "length ?s \<le> MAX_PHRASE" using assms by (simp add: MAX_PHRASE_def)
  ultimately show ?thesis using assms by simp
qed

section \<open>Packing and unpacking\<close>

lemma or_disjoint: "c < 2 ^ k \<Longrightarrow> push_bit k n OR c = n * 2 ^ k + (c::nat)"
proof -
  assume "c < 2 ^ k"
  then have "take_bit k c = c" by (simp add: take_bit_nat_eq_self)
  then have low: "\<And>i. bit c i \<Longrightarrow> i < k" by (metis bit_take_bit_iff)
  have "push_bit k n + c = push_bit k n OR c"
    by (intro disjunctive_add_eq_or) (auto simp: bit_eq_iff bit_and_iff bit_push_bit_iff dest: low)
  then show ?thesis by (simp add: push_bit_eq_mult)
qed

lemma three_words: "b < 2 ^ 33 \<Longrightarrow>
    push_bit 11 (push_bit 11 (push_bit 11 0 OR (b div 2 ^ 22 mod 2048)) OR (b div 2 ^ 11 mod 2048)) OR (b mod 2048) = (b::nat)"
proof -
  assume b: "b < 2 ^ 33"
  have "b div 2 ^ 22 < 2048" using b by (simp add: less_mult_imp_div_less)
  moreover have "b div 2 ^ 22 * 2048 + b div 2 ^ 11 mod 2048 = b div 2 ^ 11"
    using div_mult_mod_eq[of "b div 2 ^ 11" 2048] by (simp add: div_mult2_eq[symmetric])
  moreover have "b div 2 ^ 11 * 2048 + b mod 2048 = b" using div_mult_mod_eq[of b 2048] by simp
  ultimately show ?thesis using or_disjoint[of _ 11] by simp
qed

lemma be_value_append: "be_value (bs @ [b]) = 256 * be_value bs + unat b"
  by (simp add: be_value_def)

lemma be_value_bytes: "be_value (be_bytes k n) = n mod 256 ^ k"
proof (induction k arbitrary: n)
  case 0
  then show ?case by (simp add: be_value_def)
next
  case (Suc k)
  have "unat (of_nat (n mod 256) :: byte) = n mod 256" by (rule unat_octet) simp
  then show ?case by (simp add: be_value_append Suc.IH mod_mult2_eq)
qed

lemma words_checksum_bound: "words_checksum E n < 8"
proof -
  have "unat (b :: byte) div 32 < 8" for b
  proof -
    have "unat b < 256" by (rule order.strict_trans2[OF unsigned_less]) simp
    then show ?thesis by (simp add: less_mult_imp_div_less)
  qed
  then show ?thesis by (simp add: words_checksum_def)
qed

lemma words_roundtrip_lemma:
  assumes law: "word_list_law E"
  shows "bind_result (words_encode E (words_from_csprng r)) (words_from_str E) = Ok (words_from_csprng r)"
proof -
  let ?w = "words_from_csprng r"
  define n where "n = be_value r mod 2 ^ 30"
  define b where "b = words_bits E ?w"
  have n: "n < 2 ^ 30" by (simp add: n_def)
  have n': "be_value (drop 12 ?w) = n"
    using n by (simp add: words_from_csprng_def C_PREFIX_def ascii_def be_value_bytes n_def)
  have b: "b = n * 8 + words_checksum E n"
    using or_disjoint[of "words_checksum E n" 3 n] words_checksum_bound[of E n]
    by (simp add: b_def words_bits_def Let_def n')
  then have bound: "b < 2 ^ 33" using n words_checksum_bound[of E n] by simp
  let ?i = "b div 2 ^ 22 mod 2048" and ?j = "b div 2 ^ 11 mod 2048" and ?k = "b mod 2048"
  have lt: "?i < 2048" "?j < 2048" "?k < 2048" by simp_all
  note words = word_list_law_word[OF law lt(1)] word_list_law_word[OF law lt(2)] word_list_law_word[OF law lt(3)]
  let ?L = "vn_word_list E"
  let ?s = "?L ! ?i @ '' '' @ ?L ! ?j @ '' '' @ ?L ! ?k"
  have enc: "words_encode E ?w = Ok ?s" using words by (simp add: words_encode_def Let_def flip: b_def)
  have ph: "length ?s \<le> MAX_PHRASE" "is_ascii ?s"
    "filter (\<lambda>s. s \<noteq> []) (split_when is_phrase_space (to_ascii_lowercase ?s)) = [?L ! ?i, ?L ! ?j, ?L ! ?k]"
    using phrase_words[of "?L ! ?i" "?L ! ?j" "?L ! ?k"] words by (simp_all add: Let_def)
  have read: "read_words E 3 [?L ! ?i, ?L ! ?j, ?L ! ?k] 0 = Ok (b, [])"
    using words three_words[OF bound] by (simp add: numeral_3_eq_3)
  have "b div 2 ^ 3 mod 2 ^ 32 = n" "b mod 8 = words_checksum E n"
    using b n words_checksum_bound[of E n] by simp_all
  then have "words_from_str E ?s = Ok (words_from_csprng (be_bytes 4 n))"
    unfolding words_from_str_def using ph read by (simp add: Let_def)
  moreover have "words_from_csprng (be_bytes 4 n) = ?w"
    using n by (simp add: words_from_csprng_def be_value_bytes n_def)
  ultimately show ?thesis using enc by simp
qed

end
