(* ===== verification/V2_Demo.thy ===== *)
theory V2_Demo
  imports V2_Words_Props Cpace_Props
begin

text \<open>
  A concrete environment for the witnesses of the credential/v2 properties: a codec given by a
  table, with the functions of \<open>demo_crypto\<close>, an invertible text encoding and a word list.
\<close>

definition demo_word :: "nat \<Rightarrow> string" where
  "demo_word i = [char_of (97 + i div 676), char_of (97 + i div 26 mod 26), char_of (97 + i mod 26)]"

definition v2_demo_env :: "codec \<Rightarrow> v2_env" where
  "v2_demo_env C = \<lparr>vn_codec = C, vn_crypto = demo_crypto, vn_fiat = reference_fiat, vn_x25519 = demo_dh,
     vn_hkdf_salted = (\<lambda>salt ikm info len. Some (replicate len 0)),
     vn_hmac_sha256 = (\<lambda>key. Some (\<lambda>m. take 32 (m @ replicate 32 0))),
     vn_url = (\<lambda>s. Some \<lparr>url_username = [], url_password = None, url_query = None,
        url_fragment = None, url_path = ''/'', url_origin = s, url_scheme = ''https'', url_host = None, url_port = None\<rparr>),
     vn_base64_encode = (\<lambda>size d. if length d \<le> size then Some (map (\<lambda>b. char_of (unat b)) d) else None),
     vn_base64_decode = (\<lambda>room s. if length s \<le> room then Some (map (\<lambda>c. of_nat (of_char c)) s) else None),
     vn_word_list = map demo_word [0..<2048]\<rparr>"

lemma v2_demo_env_sel:
  "vn_codec (v2_demo_env C) = C" "vn_crypto (v2_demo_env C) = demo_crypto"
  "vn_base64_encode (v2_demo_env C) n d = (if length d \<le> n then Some (map (\<lambda>b. char_of (unat b)) d) else None)"
  by (simp_all add: v2_demo_env_def)

lemma char_of_inject: "m < 256 \<Longrightarrow> n < 256 \<Longrightarrow> char_of m = char_of n \<longleftrightarrow> m = (n::nat)"
  by (metis of_char_of mod_less)

lemma demo_word_inject: "i < 2048 \<Longrightarrow> j < 2048 \<Longrightarrow> demo_word i = demo_word j \<Longrightarrow> i = j"
proof -
  assume lt: "i < 2048" "j < 2048" and eq: "demo_word i = demo_word j"
  have b: "97 + i div 676 < 256" "97 + j div 676 < 256" "97 + k mod 26 < 256" for k :: nat
    using lt less_mult_imp_div_less[of i 159 676] less_mult_imp_div_less[of j 159 676] mod_less_divisor[of 26 k]
    by linarith+
  have "i div 676 = j div 676" "i div 26 mod 26 = j div 26 mod 26" "i mod 26 = j mod 26"
    using eq b by (simp_all add: demo_word_def char_of_inject)
  moreover have "k = (k div 676 * 26 + k div 26 mod 26) * 26 + k mod 26" for k :: nat
    using div_mult_mod_eq[of k 26] div_mult_mod_eq[of "k div 26" 26] by (simp add: div_mult2_eq[symmetric])
  ultimately show "i = j" by metis
qed

lemma v2_demo_words: "word_list_law (v2_demo_env C)"
proof -
  have "inj_on demo_word (set [0..<2048])" using demo_word_inject by (auto simp: inj_on_def)
  moreover have "list_all is_lowercase (demo_word i)" if "i < 2048" for i
  proof -
    have "i div 676 < 26" using that less_mult_imp_div_less[of i 26 676] by simp
    then show ?thesis
      using mod_less_divisor[of 26 i] mod_less_divisor[of 26 "i div 26"]
      by (simp add: demo_word_def is_lowercase_def char_code_def del: mod_less_divisor)
  qed
  ultimately show ?thesis
    by (simp add: word_list_law_def v2_demo_env_def distinct_map list_all_length demo_word_def)
qed

lemma v2_demo_base64: "base64_law (v2_demo_env C)"
proof -
  have "of_nat (of_char (char_of (unat b))) = b" for b :: byte
  proof -
    have "unat b < 256" by (rule order.strict_trans2[OF unsigned_less]) simp
    then show ?thesis by (simp add: of_char_of)
  qed
  then show ?thesis by (auto simp: base64_law_def v2_demo_env_def comp_def map_idI)
qed

lemma v2_demo_hash: "2 \<le> length (v2_sha256 (v2_demo_env C) m)"
  by (simp add: v2_demo_env_def demo_crypto_def)

lemma table_v2_codec:
  assumes "distinct (map snd tbl)" and "[] \<notin> set (map snd tbl)"
    and "list_all (\<lambda>(v, b). \<forall>es. v = CMap es \<longrightarrow> list_all (\<lambda>e. map_of tbl (fst e) \<noteq> None) es) tbl"
  shows "v2_codec (table_codec tbl)"
proof -
  have "map_of (map (\<lambda>(v, b). (b, v)) tbl) bs = Some v" if "map_of tbl v = Some bs" for v bs
    using assms(1) map_of_SomeD[OF that]
    by (intro map_of_is_SomeI) (force simp: comp_def case_prod_beta)+
  moreover have "list_all (\<lambda>e. map_of tbl (fst e) \<noteq> None) es" if "map_of tbl (CMap es) = Some bs" for es bs
    using assms(3) map_of_SomeD[OF that] unfolding list_all_iff by fast
  moreover have "map_of tbl v \<noteq> Some []" for v using assms(2) map_of_SomeD[of tbl v] by force
  ultimately show ?thesis by (auto simp: v2_codec_def table_codec_def reorders_def)
qed

end
