(* ===== verification/V2_Channel_Props.thy ===== *)
theory V2_Channel_Props
  imports V2_Channel V2_Demo
begin

text \<open>
  The credential/v2 channel as a transport. The locale \<open>counter_channel\<close> states what one
  sealing and one opening operation promise about counters and keys; it extends to \<open>transport\<close>,
  so lossless in-order delivery follows for every channel that meets it.
\<close>

section \<open>Counter channels\<close>

fun carried :: "(nat \<Rightarrow> 'm \<Rightarrow> 'f \<Rightarrow> bool) \<Rightarrow> nat \<Rightarrow> 'm list \<Rightarrow> 'f list \<Rightarrow> bool" where
  "carried sealed n [] [] = True"
| "carried sealed n (m # ms) (f # fs) = (sealed n m f \<and> n \<le> u64_max \<and> carried sealed (Suc n) ms fs)"
| "carried sealed n _ _ = False"

definition frames_linked ::
  "bool \<Rightarrow> (secure_channel \<Rightarrow> nat \<Rightarrow> 'm \<Rightarrow> 'f \<Rightarrow> bool) \<Rightarrow> secure_channel \<Rightarrow> secure_channel \<Rightarrow>
     'm list \<Rightarrow> 'f list \<Rightarrow> bool" where
  "frames_linked sound sealed s r ms fs \<longleftrightarrow> sound \<and> mirrored s r \<and> \<not> sc_terminal r \<and>
     counter_typed (sc_next_send_counter s) \<and> counter_typed (sc_next_receive_counter r) \<and>
     carried (sealed s) (counter_at (sc_next_receive_counter r)) ms fs \<and>
     counter_at (sc_next_receive_counter r) + length fs = counter_at (sc_next_send_counter s)"

lemma carried_snoc:
  "carried P n ms fs \<Longrightarrow> P (n + length fs) m f \<Longrightarrow> n + length fs \<le> u64_max \<Longrightarrow>
     carried P n (ms @ [m]) (fs @ [f])"
  by (induction P n ms fs rule: carried.induct) auto

locale counter_channel =
  fixes send :: "secure_channel \<Rightarrow> 'm \<Rightarrow> ('f, 'e) result \<times> secure_channel"
    and recv :: "secure_channel \<Rightarrow> 'f \<Rightarrow> ('m, 'e) result \<times> secure_channel"
    and sealed :: "secure_channel \<Rightarrow> nat \<Rightarrow> 'm \<Rightarrow> 'f \<Rightarrow> bool"
    and sound :: bool
  assumes sends: "send s m = (Ok f, s') \<Longrightarrow> \<exists>n. sc_next_send_counter s = Some n \<and> sealed s n m f \<and>
      s' = s\<lparr>sc_next_send_counter := checked_add_u64 n 1\<rparr>"
    and refuses: "send s m = (x, s') \<Longrightarrow> \<not> is_ok x \<Longrightarrow> s' = s"
    and sealed_keys: "same_keys s s' \<Longrightarrow> sealed s' = sealed s"
    and opens: "sound \<Longrightarrow> mirrored s r \<Longrightarrow> \<not> sc_terminal r \<Longrightarrow> sealed s n m f \<Longrightarrow>
      sc_next_receive_counter r = Some n \<Longrightarrow>
      recv r f = (Ok m, r\<lparr>sc_next_receive_counter := checked_add_u64 n 1\<rparr>)"
    and opened: "recv r f = (Ok m, r') \<Longrightarrow> same_keys r r' \<and> sc_next_send_counter r' = sc_next_send_counter r"
begin

lemma linked_send:
  assumes l: "frames_linked sound sealed s r ms fs" and "send s m = (Ok f, s')"
  shows "frames_linked sound sealed s' r (ms @ [m]) (fs @ [f])"
proof -
  obtain n where n: "sc_next_send_counter s = Some n" "sealed s n m f"
      "s' = s\<lparr>sc_next_send_counter := checked_add_u64 n 1\<rparr>"
    using sends[OF assms(2)] by blast
  have at: "counter_at (sc_next_receive_counter r) + length fs = n"
    using l n(1) by (simp add: frames_linked_def counter_at_def)
  have nx: "counter_at (checked_add_u64 n 1) = Suc n" "counter_typed (checked_add_u64 n 1)" "n \<le> u64_max"
    using counter_next[of n] l n(1) by (auto simp: frames_linked_def)
  have sk: "same_keys s s'" by (simp add: n(3))
  have "carried (sealed s) (counter_at (sc_next_receive_counter r)) (ms @ [m]) (fs @ [f])"
    using l n(2) at nx(3) by (intro carried_snoc) (simp_all add: frames_linked_def)
  then show ?thesis
    using l nx at mirrored_same_keys(1)[OF sk] sealed_keys[OF sk]
    by (simp add: frames_linked_def) (simp add: n(3))
qed

lemma linked_recv:
  assumes l: "frames_linked sound sealed s r ms (f # fs)"
  shows "\<exists>m ms' r'. ms = m # ms' \<and> recv r f = (Ok m, r') \<and> frames_linked sound sealed s r' ms' fs"
proof -
  let ?n = "counter_at (sc_next_receive_counter r)"
  obtain m ms' where ms: "ms = m # ms'" "sealed s ?n m f" "?n \<le> u64_max" "carried (sealed s) (Suc ?n) ms' fs"
    using l by (cases ms) (auto simp: frames_linked_def)
  have some: "sc_next_receive_counter r = Some ?n"
    using counter_some l ms(3) by (simp add: frames_linked_def)
  let ?r = "r\<lparr>sc_next_receive_counter := checked_add_u64 ?n 1\<rparr>"
  have "recv r f = (Ok m, ?r)" using l ms(2) some by (intro opens) (simp_all add: frames_linked_def)
  moreover have "frames_linked sound sealed s ?r ms' fs"
    using l ms some counter_next[of ?n] by (auto simp: frames_linked_def mirrored_def)
  ultimately show ?thesis using ms(1) by blast
qed

lemma linked_other:
  assumes "frames_linked sound sealed r s ms fs" and "send s m = (x, s')"
  shows "frames_linked sound sealed r s' ms fs"
proof (cases "is_ok x")
  case True
  then obtain f where "x = Ok f" by (cases x) auto
  then obtain n where "s' = s\<lparr>sc_next_send_counter := checked_add_u64 n 1\<rparr>" using sends assms(2) by blast
  then show ?thesis using assms(1) by (simp add: frames_linked_def mirrored_def)
next
  case False
  then show ?thesis using refuses[OF assms(2)] assms(1) by simp
qed

lemma linked_reader:
  assumes "frames_linked sound sealed r s ms fs" and "recv r f = (Ok m, r')"
  shows "frames_linked sound sealed r' s ms fs"
  using assms(1) opened[OF assms(2)] mirrored_same_keys(1)[of r r' s] sealed_keys[of r r']
  by (simp add: frames_linked_def)

end

sublocale counter_channel \<subseteq> transport send recv "frames_linked sound sealed"
proof
  show "s' = s" if "send s m = (x, s')" "\<not> is_ok x" for s m x s' using that by (rule refuses)
  show "ms = []" if "frames_linked sound sealed s r ms []" for s r ms
    using that by (cases ms) (auto simp: frames_linked_def)
qed (rule linked_send linked_other linked_recv linked_reader; assumption)+

section \<open>The operations of the version 2 channel\<close>

definition v2_sealed_as :: "v2_env \<Rightarrow> secure_channel \<Rightarrow> nat \<Rightarrow> bytes \<Rightarrow> v2_frame \<Rightarrow> bool" where
  "v2_sealed_as E ch n m f \<longleftrightarrow> m \<noteq> [] \<and> length m \<le> V2_MAX_PLAINTEXT \<and>
     (\<exists>aad cipher ct.
        v2_sealed_aad E (send_direction (sc_local_side ch)) n (sc_transcript_hash ch) = Ok aad \<and>
        cr_cipher (vn_crypto E) (sc_send_key ch) = Some cipher \<and>
        ae_encrypt cipher (derive_nonce (sc_send_iv ch) n) m aad = Some ct \<and>
        f = FrSealed (send_direction (sc_local_side ch)) n ct)"

lemma v2_seal_Ok:
  "v2_seal E ch m = (Ok f, ch') \<longleftrightarrow> \<not> sc_terminal ch \<and>
     (\<exists>n. sc_next_send_counter ch = Some n \<and> v2_sealed_as E ch n m f \<and>
          ch' = ch\<lparr>sc_next_send_counter := checked_add_u64 n 1\<rparr>)"
  by (cases "sc_next_send_counter ch")
    (auto simp: v2_seal_def v2_sealed_as_def can_seal_def ok_or_def Let_def
      elim!: bind_st.elims split: option.splits)

lemma v2_seal_unchanged: "v2_seal E ch m = (r, ch') \<Longrightarrow> \<not> is_ok r \<Longrightarrow> ch' = ch"
  by (auto simp: v2_seal_def can_seal_def ok_or_def Let_def elim!: bind_st.elims split: option.splits if_splits)

lemma v2_open_Ok:
  "v2_open E ch f = (Ok m, ch') \<longleftrightarrow> \<not> sc_terminal ch \<and>
     (\<exists>n ct aad cipher. f = FrSealed (receive_direction (sc_local_side ch)) n ct \<and>
        sc_next_receive_counter ch = Some n \<and> 17 \<le> length ct \<and> length ct \<le> V2_MAX_PLAINTEXT + 16 \<and>
        v2_sealed_aad E (receive_direction (sc_local_side ch)) n (sc_transcript_hash ch) = Ok aad \<and>
        cr_cipher (vn_crypto E) (sc_receive_key ch) = Some cipher \<and>
        ae_decrypt cipher (derive_nonce (sc_receive_iv ch) n) ct aad = Some m \<and>
        ch' = ch\<lparr>sc_next_receive_counter := checked_add_u64 n 1\<rparr>)"
  by (cases f; cases "sc_next_receive_counter ch")
    (auto simp: v2_open_def sealed_of_def v2_channel_fail_def ok_or_def Let_def
      elim!: bind_st.elims split: option.splits if_splits)

lemma v2_open_other:
  "v2_open E ch f = (r, ch') \<Longrightarrow> \<not> is_ok r \<Longrightarrow> ch' = ch \<or> ch' = ch\<lparr>sc_terminal := True\<rparr>"
  by (cases f; cases "sc_next_receive_counter ch")
    (auto simp: v2_open_def sealed_of_def v2_channel_fail_def ok_or_def Let_def
      elim!: bind_st.elims split: option.splits if_splits)

interpretation v2tr: counter_channel "v2_seal E" "v2_open E" "v2_sealed_as E" "aead_sound (vn_crypto E)" for E
proof
  show "v2_sealed_as E s' = v2_sealed_as E s" if "same_keys s s'" for s s'
    using that by (simp add: fun_eq_iff v2_sealed_as_def same_keys_def)
  show "v2_open E r f = (Ok m, r\<lparr>sc_next_receive_counter := checked_add_u64 n 1\<rparr>)"
    if "aead_sound (vn_crypto E)" "mirrored s r" "\<not> sc_terminal r" "v2_sealed_as E s n m f"
      "sc_next_receive_counter r = Some n" for s r n m f
    using that unfolding v2_open_Ok
    by (fastforce simp: v2_sealed_as_def mirrored_def aead_sound_def Suc_le_eq)
qed (auto simp: v2_seal_Ok v2_open_Ok v2_seal_unchanged)

section \<open>Confirmed peers\<close>

lemma v2_confirm_fresh:
  "v2_confirm p f = Ok ch \<Longrightarrow> sc_next_send_counter ch = Some 0 \<and> sc_next_receive_counter ch = Some 0 \<and>
     \<not> sc_terminal ch"
  by (auto simp: v2_confirm_def bind_result_Ok Let_def split: if_splits prod.splits)

lemma v2_confirm_mirrored:
  assumes "v2_new_pending E SideAllocator isk ctx fa fb = Ok pa"
    and "v2_new_pending E SideClaimant isk ctx fa fb = Ok pb"
    and "v2_confirm pa va = Ok a" and "v2_confirm pb vb = Ok b"
  shows "mirrored a b \<and> mirrored b a"
proof -
  have "pn_secrets pb = pn_secrets pa \<and> pn_transcript_hash pb = pn_transcript_hash pa \<and>
    pn_local_side pa = SideAllocator \<and> pn_local_side pb = SideClaimant"
    using assms(1,2) by (auto simp: v2_new_pending_def bind_result_Ok)
  then show ?thesis
    using assms(3,4)
    by (auto simp: v2_confirm_def bind_result_Ok Let_def mirrored_def send_direction_def receive_direction_def
        split: if_splits)
qed

lemma v2_confirmed_linked:
  "aead_sound (vn_crypto E) \<Longrightarrow> mirrored a b \<Longrightarrow> v2_confirm pa va = Ok a \<Longrightarrow> v2_confirm pb vb = Ok b \<Longrightarrow>
     frames_linked (aead_sound (vn_crypto E)) (v2_sealed_as E) a b [] []"
  using v2_confirm_fresh[of pa va a] v2_confirm_fresh[of pb vb b]
  by (simp add: frames_linked_def counter_typed_def counter_at_def)

text \<open>
  Two credential/v2 peers that derived their channels from the same CPace result and transcript
  and accepted each other's Finished frame confirm with mirrored keys, and then exchange messages
  reliably: under every interleaving of sends (refused ones included) and receipts in both directions,
  what each side has read is a prefix of what the other has sent, in order; neither channel becomes
  terminal; and reading everything on the way delivers exactly what was sent.
\<close>

lemma v2_confirmed_peers_deliver:
  assumes "aead_sound (vn_crypto E)"
    and "v2_new_pending E SideAllocator isk ctx fa fb = Ok pa"
    and "v2_new_pending E SideClaimant isk ctx fa fb = Ok pb"
    and "v2_confirm pa (v2_finished_frame pb) = Ok a" and "v2_confirm pb (v2_finished_frame pa) = Ok b"
    and "d = duplex_run (v2_seal E) (v2_open E) acts (duplex_start a b)"
  shows "prefix (ln_got (dx_ab d)) (ln_sent (dx_ab d)) \<and> prefix (ln_got (dx_ba d)) (ln_sent (dx_ba d)) \<and>
    \<not> sc_terminal (dx_a d) \<and> \<not> sc_terminal (dx_b d) \<and>
    ln_got (dx_ab (duplex_run (v2_seal E) (v2_open E)
      (replicate (length (ln_wire (dx_ab d))) RecvB) d)) = ln_sent (dx_ab d)"
proof -
  let ?L = "frames_linked (aead_sound (vn_crypto E)) (v2_sealed_as E)"
  have m: "mirrored a b" "mirrored b a" using v2_confirm_mirrored[OF assms(2-5)] by auto
  have start: "?L a b [] []" "?L b a [] []"
    using v2_confirmed_linked[OF assms(1) m(1) assms(4,5)] v2_confirmed_linked[OF assms(1) m(2) assms(5,4)] by auto
  obtain ms ms' where inv: "?L (dx_a d) (dx_b d) ms (ln_wire (dx_ab d))"
      "ln_sent (dx_ab d) = ln_got (dx_ab d) @ ms"
      "?L (dx_b d) (dx_a d) ms' (ln_wire (dx_ba d))" "ln_sent (dx_ba d) = ln_got (dx_ba d) @ ms'"
    using v2tr.duplex_run_inv[of E "duplex_start a b" "[]" "[]" d acts] start assms(6)
    by (auto simp: duplex_start_def empty_lane_def)
  from v2tr.drain_b[OF inv(1-3) refl] inv show ?thesis by (simp add: frames_linked_def)
qed

definition v2_demo_pending :: "side \<Rightarrow> pending_channel" where
  "v2_demo_pending s = (demo_pending s)\<lparr>
     pn_local_finished := demo_finished (case s of SideAllocator \<Rightarrow> ''pairing-credential-v2 finished A''
       | SideClaimant \<Rightarrow> ''pairing-credential-v2 finished B''),
     pn_peer_finished := demo_finished (case s of SideAllocator \<Rightarrow> ''pairing-credential-v2 finished B''
       | SideClaimant \<Rightarrow> ''pairing-credential-v2 finished A'')\<rparr>"

lemma v2_demo_new_pending:
  "v2_new_pending (v2_demo_env demo_channel_codec) s isk ctx fa fb = Ok (v2_demo_pending s)"
  by (cases s) (simp_all add: v2_new_pending_def v2_transcript_hash_def v2_expand_def v2_finished_def
      v2_canonical_def v2_demo_env_sel demo_channel_codec_def demo_crypto_def v2_demo_pending_def demo_pending_def
      demo_finished_def ascii_def)

lemma v2_demo_confirm:
  "v2_confirm (v2_demo_pending SideAllocator) (v2_finished_frame (v2_demo_pending SideClaimant)) =
     Ok (demo_channel SideAllocator)"
  "v2_confirm (v2_demo_pending SideClaimant) (v2_finished_frame (v2_demo_pending SideAllocator)) =
     Ok (demo_channel SideClaimant)"
  by (simp_all add: v2_confirm_def v2_finished_frame_def finished_of_def v2_demo_pending_def demo_pending_def
      demo_channel_def)

theorem v2_confirmed_peers_deliver_witness:
  "\<not> sc_terminal (dx_b (duplex_run (v2_seal (v2_demo_env demo_channel_codec)) (v2_open (v2_demo_env demo_channel_codec))
       [SendA [1], SendB [2], SendA [3], RecvB] (duplex_start (demo_channel SideAllocator) (demo_channel SideClaimant))))"
proof -
  have "aead_sound (vn_crypto (v2_demo_env demo_channel_codec))" by (simp add: v2_demo_env_sel demo_aead_sound)
  from v2_confirmed_peers_deliver[OF this v2_demo_new_pending v2_demo_new_pending v2_demo_confirm refl,
      of "[SendA [1], SendB [2], SendA [3], RecvB]"]
  show ?thesis by blast
qed

end
