(* ===== verification/V2_Wire_Props.thy ===== *)
theory V2_Wire_Props
  imports V2_Demo
begin

text \<open>
  The octet and text formats of credential/v2 as properties: each recogniser accepts exactly
  the canonical encodings, and returns what was encoded.
\<close>

section \<open>Objects, frames and carriers\<close>

text \<open>
  An octet string is recognised as a padded credential/v2 object exactly when it is the
  canonical encoding that constructing that object produces: the recogniser returns every
  constructed object unchanged, accepts no second encoding of it, and an accepted object carries
  its own octets, a 32-octet intent digest and the hash of those octets.
\<close>

lemma v2_object_canonical:
  assumes "v2_codec (vn_codec E)"
  shows "decode_object E bs = Ok x \<longleftrightarrow>
    object_new E (ob_kind x) (ob_intent_digest x) (ob_body x) = Ok x \<and> ob_bytes x = bs \<and> object_typed x"
  using decode_object_new[OF assms] decode_object_Ok unfolding object_typed_def by blast

definition demo_object_table :: "(cbor \<times> bytes) list" where
  "demo_object_table = [(object_value FinalApprove (replicate 32 0) [7], [9]),
     (CInteger 0, [1]), (CInteger 1, [2]), (CInteger 2, [3]), (CInteger 3, [4]), (CInteger 4, [5])]"

lemma object_value_neq: "object_value k d b \<noteq> CInteger n" "CInteger n \<noteq> object_value k d b"
  by (simp_all add: object_value_def)

lemma demo_object_codec: "v2_codec (table_codec demo_object_table)"
  by (rule table_v2_codec) (simp_all add: demo_object_table_def object_value_neq, simp add: object_value_def)

theorem v2_object_canonical_witness:
  "\<exists>x. decode_object (v2_demo_env (table_codec demo_object_table)) [9] = Ok x \<and> ob_body x = [7]"
proof -
  let ?E = "v2_demo_env (table_codec demo_object_table)"
  let ?x = "\<lparr>ob_kind = FinalApprove, ob_intent_digest = replicate 32 0, ob_body = [7], ob_bytes = [9],
    ob_content_hash = v2_sha256 ?E [9]\<rparr>"
  have "object_new ?E FinalApprove (replicate 32 0) [7] = Ok ?x"
    by (simp add: object_new_Ok v2_demo_env_def table_codec_def demo_object_table_def validate_body_def
        MAX_CONTROL_BODY_def MAX_LARGE_BODY_def)
  then show ?thesis
    using v2_object_canonical[of ?E "[9]" ?x] demo_object_codec
    by (auto simp: object_typed_def v2_demo_env_def)
qed

text \<open>
  Frames and machine carriers are recognised exactly in the encoding their encoder writes: for
  values whose fields have the widths of the Rust types, decoding octets gives the value if and
  only if encoding the value gives those octets.
\<close>

lemma v2_frames_and_carriers_canonical:
  assumes "v2_codec (vn_codec E)" and "frame_typed f" and "carrier_typed c"
  shows "(decode_frame E bs = Ok f \<longleftrightarrow> encode_frame E f = Ok bs) \<and>
    (decode_carrier E bs = Ok c \<longleftrightarrow> encode_carrier E c = Ok bs)"
  using decode_encode_frame[OF assms(1)] decode_encode_carrier[OF assms(1)] decode_frame_Ok decode_carrier_Ok
    assms(2,3) by blast

definition demo_carrier :: v2_carrier where
  "demo_carrier = \<lparr>vc_application_context = ''https://a.io/x'', vc_relay_origin = ''https://r.io'',
     vc_mailbox_id = replicate 32 1, vc_carrier_ceremony_id = replicate 32 2, vc_carrier_nonce = replicate 32 3,
     vc_claim_commitment = take 32 (ascii ''cbcl-pairing claim-v2 commitment''), vc_relay_expires_at = 9,
     vc_expected_allocator_key = None\<rparr>"

definition demo_carrier_table :: "(cbor \<times> bytes) list" where
  "demo_carrier_table = [(cmap (carrier_entries demo_carrier), [20]), (CText ''version'', [1]),
     (CText ''profile'', [2]), (CText ''application-context'', [3]), (CText ''profile-version'', [4]),
     (CText ''relay-origin'', [5]), (CText ''locator'', [6]), (CText ''carrier-ceremony-id'', [7]),
     (CText ''carrier-nonce'', [8]), (CText ''claim-commitment'', [9]), (CText ''relay-expires-at'', [10])]"

lemma cmap_neq: "cmap es \<noteq> CText n" "CText n \<noteq> cmap es"
  by (simp_all add: cmap_def)

lemma demo_carrier_codec: "v2_codec (table_codec demo_carrier_table)"
  by (rule table_v2_codec)
    (simp_all add: demo_carrier_table_def cmap_neq, simp add: cmap_def carrier_entries_def demo_carrier_def)

lemma demo_carrier_encodes: "encode_carrier (v2_demo_env (table_codec demo_carrier_table)) demo_carrier = Ok [20]"
proof -
  have "recognise_application_id (vc_application_context demo_carrier) = Ok ''https://a.io''"
    by code_simp
  moreover have "is_ascii ''https://r.io''" by code_simp
  ultimately show ?thesis
    unfolding encode_carrier_Ok
    by (simp add: v2_validate_origin_def v2_demo_env_def demo_carrier_def table_codec_def demo_carrier_table_def)
qed

lemma demo_carrier_typed: "carrier_typed demo_carrier"
  by (simp add: carrier_typed_def demo_carrier_def u64_max_def ascii_def)

theorem v2_frames_and_carriers_canonical_witness:
  "decode_carrier (v2_demo_env (table_codec demo_carrier_table)) [20] = Ok demo_carrier"
  using v2_frames_and_carriers_canonical[of "v2_demo_env (table_codec demo_carrier_table)"
      "FrSealed AllocatorToClaimant 0 []" demo_carrier "[20]"]
    demo_carrier_codec demo_carrier_encodes demo_carrier_typed
  by (simp add: v2_demo_env_def)

section \<open>The handoff text\<close>

lemma handoff_from_str_Ok:
  "handoff_from_str E text = Ok h \<Longrightarrow>
     handoff_new E (hf_carrier h) (hf_presence h) = Ok h \<and> handoff_encode E h = Ok text"
  by (auto simp: handoff_from_str_def handoff_new_def bind_result_Ok Let_def into_array_def split: if_splits)

text \<open>
  The confidential handoff text survives its encoding and has one spelling: a text is read as a
  handoff exactly when the handoff is one the constructor accepts (its claim token opens the
  carrier's commitment) and the text is the one the encoder writes for it.
\<close>

lemma handoff_canonical:
  assumes "v2_codec (vn_codec E)" and "base64_law E"
    and "carrier_typed (hf_carrier h)" and "code_typed (hf_presence h)"
  shows "handoff_from_str E text = Ok h \<longleftrightarrow>
    handoff_new E (hf_carrier h) (hf_presence h) = Ok h \<and> handoff_encode E h = Ok text"
  using handoff_roundtrip_lemma[OF assms(1,2) _ assms(3,4)] handoff_from_str_Ok by blast

theorem handoff_canonical_witness:
  "\<exists>text h. handoff_from_str (v2_demo_env (table_codec demo_carrier_table)) text = Ok h \<and>
     hf_carrier h = demo_carrier"
proof -
  let ?E = "v2_demo_env (table_codec demo_carrier_table)"
  let ?k = "\<lparr>pk_cpace_secret = replicate 16 1, pk_claim_token = replicate 16 2\<rparr>"
  let ?h = "\<lparr>hf_carrier = demo_carrier, hf_presence = ?k\<rparr>"
  have new: "handoff_new ?E demo_carrier ?k = Ok ?h"
    by (simp add: handoff_new_def claim_commitment_def v2_demo_env_def demo_crypto_def demo_carrier_def ascii_def)
  have "length (handoff_octets [20] ?k) \<le> 100"
    by (simp add: handoff_octets_def append_bstr_def HANDOFF_DOMAIN_def ascii_def)
  then obtain t where t: "handoff_encode ?E ?h = Ok t"
    by (auto simp add: handoff_encode_def demo_carrier_encodes MAX_CARRIER_def HANDOFF_MAX_TEXT_def HANDOFF_PREFIX_def
        v2_demo_env_sel)
  have "handoff_from_str ?E t = Ok ?h"
    using handoff_canonical[of ?E ?h t] demo_carrier_codec v2_demo_base64 demo_carrier_typed new t
    by (simp add: v2_demo_env_sel code_typed_def)
  moreover have "hf_carrier ?h = demo_carrier" by simp
  ultimately show ?thesis by blast
qed

section \<open>Typed texts\<close>

text \<open>
  C39: A presence code is accepted in exactly one spelling up to letter case: the parser returns the
  code with secret and token \<open>k\<close> if and only if both are 16 octets long and the upper-cased input is the
  text printed for \<open>k\<close>. So every printed code is read back, and a change of any other character (the
  checksum symbols and the three unused bits included) is refused or names another code.
\<close>

theorem presence_code_canonical:
  assumes "\<And>m. 2 \<le> length (v2_sha256 E m)"
  shows "presence_from_str E s = Ok k \<longleftrightarrow> code_typed k \<and> to_ascii_uppercase s = presence_to_string E k"
  using presence_from_str_Ok[OF assms] .

theorem presence_code_canonical_witness:
  "\<exists>s. presence_from_str (v2_demo_env demo_channel_codec) s =
     Ok \<lparr>pk_cpace_secret = replicate 16 1, pk_claim_token = replicate 16 2\<rparr>"
proof -
  let ?E = "v2_demo_env demo_channel_codec"
  let ?k = "\<lparr>pk_cpace_secret = replicate 16 1, pk_claim_token = replicate 16 2\<rparr>"
  have "to_ascii_uppercase (presence_to_string ?E ?k) = presence_to_string ?E ?k"
    unfolding to_ascii_uppercase_def by (rule map_idI) (simp add: presence_text_chars)
  then show ?thesis
    using presence_code_canonical[OF v2_demo_hash, of demo_channel_codec "presence_to_string ?E ?k" ?k]
    by (auto simp: code_typed_def)
qed

text \<open>
  The three-word phrase carries the whole secret: for any random octets, encoding the secret
  drawn from them as three words never fails, and reading the phrase gives that secret back.
\<close>

lemma words_roundtrip:
  assumes "word_list_law E"
  shows "bind_result (words_encode E (words_from_csprng r)) (words_from_str E) = Ok (words_from_csprng r)"
  using words_roundtrip_lemma[OF assms] .

theorem words_roundtrip_witness:
  "bind_result (words_encode (v2_demo_env demo_channel_codec) (words_from_csprng [1, 2, 3, 4]))
     (words_from_str (v2_demo_env demo_channel_codec)) = Ok (words_from_csprng [1, 2, 3, 4])"
  using words_roundtrip[OF v2_demo_words] .

end
