(* ===== verification/V2_Endpoint_Props.thy ===== *)
theory V2_Endpoint_Props
  imports V2_Endpoint V2_Channel_Props V2_Wire_Props
begin

text \<open>
  The conversation an endpoint accepts. \<open>conversing\<close> runs an endpoint through any sequence of
  calls and keeps the log of accepted objects; the abstract specification is the grammar of the
  log, its senders, its one intent and the chain of predecessor hashes.
\<close>

section \<open>The log of accepted objects\<close>

definition accepted :: "side \<Rightarrow> v2_object \<Rightarrow> v2_advance v2_result \<Rightarrow> (side \<times> v2_object) list" where
  "accepted s o' r = (case r of Ok Advanced \<Rightarrow> [(s, o')] | Ok (AdvDisplayIntent d) \<Rightarrow> [(s, o')] | _ \<Rightarrow> [])"

inductive conversing ::
  "v2_env \<Rightarrow> 'v body_verifier \<Rightarrow> ('p, 'q) intent_ops \<Rightarrow> side \<Rightarrow> v2_carrier \<Rightarrow> 'v v2_endpoint \<Rightarrow>
     (side \<times> v2_object) list \<Rightarrow> bool"
  for E B ops s c where
  start: "conversing E B ops s c (v2_endpoint_new s c v) []"
| send: "conversing E B ops s c e l \<Longrightarrow> endpoint_send E B e o' = (r, e') \<Longrightarrow>
    conversing E B ops s c e' (l @ accepted s o' r)"
| receive: "conversing E B ops s c e l \<Longrightarrow> endpoint_receive E B e o' = (r, e') \<Longrightarrow>
    conversing E B ops s c e' (l @ accepted (other_side s) o' r)"
| offer: "conversing E B ops s c e l \<Longrightarrow> receive_offer E ops e o' authority pq = (r, e', pq') \<Longrightarrow>
    conversing E B ops s c e' (l @ accepted SideAllocator o' r)"
| authenticate: "conversing E B ops s c e l \<Longrightarrow> authenticate_recovered_receipt E B e o' = (a, e') \<Longrightarrow>
    conversing E B ops s c e' l"
| recover: "conversing E B ops s c e l \<Longrightarrow> recover_receipt E e o' authority' = (r, e') \<Longrightarrow>
    conversing E B ops s c e' (l @ accepted SideAllocator o' r)"

section \<open>The grammar\<close>

definition happy_path :: "v2_kind \<Rightarrow> v2_kind list" where
  "happy_path confirmed = [Offer, IntentApprove, Preparation, confirmed, FinalApprove, Payload, Receipt]"

definition confirmation :: "v2_kind \<Rightarrow> bool" where
  "confirmation k \<longleftrightarrow> k = ComparisonConfirmed \<or> k = BindingConfirmed"

text \<open>
  A conversation is an optional account selection and a prefix of the happy path, perhaps ended by a
  decline after the offer or the confirmation, or by a refusal between the offer and the payload.
\<close>

definition ends_early :: "v2_kind list \<Rightarrow> v2_kind \<Rightarrow> bool" where
  "ends_early ks k \<longleftrightarrow> (k = IntentDecline \<and> last ks = Offer) \<or> (k = FinalDecline \<and> confirmation (last ks)) \<or>
     (k = Refusal \<and> Offer \<in> set ks \<and> Payload \<notin> set ks)"

definition conversation :: "v2_kind list \<Rightarrow> bool" where
  "conversation ks \<longleftrightarrow> (\<exists>sel c n ended. sel \<in> {[], [AccountSelect]} \<and> confirmation c \<and>
     ks = sel @ take n (happy_path c) @ ended \<and>
     (ended = [] \<or> (\<exists>k. ended = [k] \<and> ends_early (sel @ take n (happy_path c)) k)))"

text \<open>How many steps of the happy path a phase stands for.\<close>

fun phase_steps :: "v2_phase \<Rightarrow> nat" where
  "phase_steps PhBegin = 0"
| "phase_steps PhAccountSelected = 0"
| "phase_steps PhOffered = 1"
| "phase_steps PhIntentApproved = 2"
| "phase_steps PhPrepared = 3"
| "phase_steps PhConfirmed = 4"
| "phase_steps PhFinalApproved = 5"
| "phase_steps PhPayloadSent = 6"
| "phase_steps PhTerminal = 7"

definition on_path :: "v2_phase \<Rightarrow> v2_kind list \<Rightarrow> bool" where
  "on_path p ks \<longleftrightarrow> (if p = PhTerminal then conversation ks
     else \<exists>sel c. (sel = [] \<or> sel = [AccountSelect]) \<and> confirmation c \<and>
       (p = PhBegin \<longrightarrow> sel = []) \<and> (p = PhAccountSelected \<longrightarrow> sel = [AccountSelect]) \<and>
       ks = sel @ take (phase_steps p) (happy_path c))"

lemma take_happy:
  "take 0 (happy_path c) = []" "take 1 (happy_path c) = [Offer]" "take 2 (happy_path c) = [Offer, IntentApprove]"
  "take 3 (happy_path c) = [Offer, IntentApprove, Preparation]"
  "take 4 (happy_path c) = [Offer, IntentApprove, Preparation, c]"
  "take 5 (happy_path c) = [Offer, IntentApprove, Preparation, c, FinalApprove]"
  "take 6 (happy_path c) = [Offer, IntentApprove, Preparation, c, FinalApprove, Payload]"
  "take 7 (happy_path c) = [Offer, IntentApprove, Preparation, c, FinalApprove, Payload, Receipt]"
  by (simp_all add: happy_path_def)

lemma conversationI:
  "sel = [] \<or> sel = [AccountSelect] \<Longrightarrow> confirmation c \<Longrightarrow> ends_early (sel @ take n (happy_path c)) k \<Longrightarrow>
     conversation (sel @ take n (happy_path c) @ [k])"
  unfolding conversation_def by blast

lemma conversation_takeI:
  "sel = [] \<or> sel = [AccountSelect] \<Longrightarrow> confirmation c \<Longrightarrow> conversation (sel @ take n (happy_path c))"
  unfolding conversation_def by (rule exI[of _ sel], rule exI[of _ c], rule exI[of _ n]) auto

lemma on_path_conversation: "on_path p ks \<Longrightarrow> conversation ks"
  unfolding on_path_def by (auto intro: conversation_takeI split: if_splits)

lemma on_path_terminal: "on_path p ks \<Longrightarrow> on_path PhTerminal ks"
  using on_path_conversation by (simp add: on_path_def)

lemma on_pathI:
  "sel = [] \<or> sel = [AccountSelect] \<Longrightarrow> confirmation c \<Longrightarrow> \<not> pre_offer p \<Longrightarrow>
     on_path p (sel @ take (phase_steps p) (happy_path c))"
  using conversation_takeI unfolding on_path_def pre_offer_def by auto

lemma on_path_early:
  "sel = [] \<or> sel = [AccountSelect] \<Longrightarrow> confirmation c \<Longrightarrow> ends_early (sel @ take n (happy_path c)) k \<Longrightarrow>
     on_path PhTerminal ((sel @ take n (happy_path c)) @ [k])"
  using conversationI by (simp add: on_path_def)

lemma next_phase_cases:
  assumes "next_phase p k = Some q" and "p \<noteq> PhTerminal" and "\<not> pre_offer p"
  obtains (refusal) "k = Refusal" "q = PhTerminal" "p \<noteq> PhPayloadSent"
  | (decline) "k = IntentDecline" "p = PhOffered" "q = PhTerminal"
  | (final_decline) "k = FinalDecline" "p = PhConfirmed" "q = PhTerminal"
  | (confirm) "confirmation k" "p = PhPrepared" "q = PhConfirmed"
  | (along) "\<not> confirmation k" "p \<noteq> PhPrepared" "\<not> pre_offer q"
      "\<And>c. take (phase_steps q) (happy_path c) = take (phase_steps p) (happy_path c) @ [k]"
  using assms
  by (cases p; cases k) (auto simp: next_phase_def confirmation_def pre_offer_def happy_path_def split: if_splits)

lemma on_path_next:
  assumes "on_path p ks" and "next_phase p k = Some q" and "\<not> pre_offer p" and "p \<noteq> PhTerminal"
  shows "on_path q (ks @ [k])"
proof -
  obtain sel c where sel: "sel = [] \<or> sel = [AccountSelect]" "confirmation c"
      "ks = sel @ take (phase_steps p) (happy_path c)"
    using assms(1,4) by (auto simp: on_path_def split: if_splits)
  have pre: "Offer \<in> set ks" "p \<noteq> PhPayloadSent \<Longrightarrow> Payload \<notin> set ks"
    using sel assms(3,4) by (cases p; auto simp: pre_offer_def happy_path_def confirmation_def)+
  show ?thesis
    using assms(2,4,3)
  proof (cases rule: next_phase_cases)
    case refusal
    then show ?thesis using on_path_early[OF sel(1,2)] sel(3) pre by (simp add: ends_early_def)
  next
    case decline
    then show ?thesis using on_path_early[OF sel(1,2), of 1 k] sel(3) by (simp add: ends_early_def happy_path_def)
  next
    case final_decline
    then show ?thesis using on_path_early[OF sel(1,2), of 4 k] sel(2,3) by (simp add: ends_early_def happy_path_def)
  next
    case confirm
    then show ?thesis using on_pathI[OF sel(1), of k PhConfirmed] sel(3) by (simp add: happy_path_def pre_offer_def)
  next
    case along
    then show ?thesis using on_pathI[OF sel(1,2) along(3)] sel(3) by simp
  qed
qed

lemma on_path_offer: "on_path p ks \<Longrightarrow> pre_offer p \<Longrightarrow> on_path PhOffered (ks @ [Offer])"
  by (auto simp: on_path_def pre_offer_def happy_path_def confirmation_def)

lemma on_path_select: "on_path PhBegin ks \<Longrightarrow> on_path PhAccountSelected (ks @ [AccountSelect])"
  by (auto simp: on_path_def happy_path_def)

lemma pre_offer_kinds: "on_path p ks \<Longrightarrow> pre_offer p \<Longrightarrow> set ks \<subseteq> {AccountSelect}"
  by (auto simp: on_path_def pre_offer_def)

section \<open>The invariant\<close>

definition entry_of :: "side \<times> v2_object \<Rightarrow> last_object" where
  "entry_of a = \<lparr>lo_sender = fst a, lo_bytes = Some (ob_bytes (snd a)), lo_kind = ob_kind (snd a),
     lo_intent_digest = ob_intent_digest (snd a), lo_content_hash = ob_content_hash (snd a)\<rparr>"

text \<open>What a later object must say in its body about the ceremony and about the object before it.\<close>

definition follows :: "v2_env \<Rightarrow> v2_carrier \<Rightarrow> side \<times> v2_object \<Rightarrow> side \<times> v2_object \<Rightarrow> bool" where
  "follows E c a b \<longleftrightarrow> ob_kind (snd b) = Offer \<or>
     (\<exists>lb. recognise_logical_body E (snd b) = Ok lb \<and> lb_carrier_ceremony_id lb = vc_carrier_ceremony_id c \<and>
        lb_predecessor_digest lb = ob_content_hash (snd a))"

definition well_logged :: "v2_env \<Rightarrow> side \<Rightarrow> v2_carrier \<Rightarrow> 'v v2_endpoint \<Rightarrow> (side \<times> v2_object) list \<Rightarrow> bool" where
  "well_logged E s c e l \<longleftrightarrow> e2_side e = s \<and> e2_carrier e = c \<and>
     on_path (e2_phase e) (map (ob_kind \<circ> snd) l) \<and>
     e2_last e = (if l = [] then None else Some (entry_of (last l))) \<and>
     list_all (\<lambda>a. v2_valid_sender (ob_kind (snd a)) (fst a)) l \<and>
     (\<forall>a \<in> set l. ob_kind (snd a) \<noteq> AccountSelect \<longrightarrow> e2_intent_digest e = Some (ob_intent_digest (snd a))) \<and>
     (pre_offer (e2_phase e) \<longrightarrow> e2_intent_digest e = None) \<and>
     successively (follows E c) l"

lemma well_logged_new: "well_logged E s c (v2_endpoint_new s c v) []"
  by (auto simp: well_logged_def v2_endpoint_new_def on_path_def confirmation_def)

lemma well_logged_fail: "well_logged E s c e l \<Longrightarrow> well_logged E s c (e\<lparr>e2_phase := PhTerminal\<rparr>) l"
  by (auto simp: well_logged_def pre_offer_def intro: on_path_terminal)

lemma well_logged_verifier: "well_logged E s c (e\<lparr>e2_body_verifier := v\<rparr>) l \<longleftrightarrow> well_logged E s c e l"
  by (simp add: well_logged_def)

lemma well_logged_accept:
  assumes inv: "well_logged E s c e l" and valid: "v2_valid_sender (ob_kind o') sender"
    and path: "on_path q (map (ob_kind \<circ> snd) l @ [ob_kind o'])" and "pre_offer q \<longrightarrow> ob_kind o' = AccountSelect"
    and digest: "ob_kind o' = AccountSelect \<or> e2_intent_digest e = None \<or> e2_intent_digest e = Some (ob_intent_digest o')"
    and before: "ob_kind o' = AccountSelect \<longrightarrow> l = [] \<and> e2_intent_digest e = None"
    and chain: "l \<noteq> [] \<Longrightarrow> follows E c (last l) (sender, o')"
  shows "well_logged E s c (accept e o' sender q) (l @ [(sender, o')])"
proof -
  have "successively (follows E c) (l @ [(sender, o')])"
    using inv chain by (auto simp: well_logged_def successively_append_iff)
  moreover have "e2_intent_digest (accept e o' sender q) = Some (ob_intent_digest o')" if "ob_kind o' \<noteq> AccountSelect"
    using digest that by (auto simp: accept_def Let_def)
  moreover have "e2_intent_digest (accept e o' sender q) = e2_intent_digest e" if "ob_kind o' = AccountSelect"
    using that by (simp add: accept_def Let_def)
  moreover have "e2_intent_digest e = None \<Longrightarrow> \<forall>a \<in> set l. ob_kind (snd a) = AccountSelect"
    using inv by (auto simp: well_logged_def)
  ultimately show ?thesis
    using inv valid path assms(4) digest before
    by (auto simp: well_logged_def accept_def Let_def entry_of_def)
qed

section \<open>Every call keeps the invariant\<close>

lemma accepted_simps [simp]:
  "accepted s o' (Ok Advanced) = [(s, o')]" "accepted s o' (Ok (AdvDisplayIntent d)) = [(s, o')]"
  "accepted s o' (Ok ExactRetransmission) = []" "accepted s o' (Err err) = []" "accepted s o' Panic = []"
  by (simp_all add: accepted_def)

lemma apply_select_logged:
  assumes "well_logged E s c e l" and "v2_valid_sender (ob_kind o') sender" and "ob_kind o' = AccountSelect"
    and "apply_select E e o' sender = (r, e')"
  shows "well_logged E s c e' (l @ accepted sender o' r)"
proof (cases "e2_phase e \<noteq> PhBegin \<or> e2_last e \<noteq> None")
  case True
  then show ?thesis using assms(1,4) by (auto simp: apply_select_def endpoint_fail_def well_logged_fail)
next
  case False
  then have empty: "l = []" using assms(1) by (auto simp: well_logged_def split: if_splits)
  have acc: "well_logged E s c (accept e o' sender PhAccountSelected) (l @ [(sender, o')])"
    using assms(1,2,3) False empty on_path_select[of "[]"]
    by (intro well_logged_accept) (auto simp: well_logged_def pre_offer_def)
  show ?thesis
    using assms(1,4) False acc
    by (auto simp: apply_select_def endpoint_fail_def well_logged_fail split: result.splits)
qed

lemma well_logged_offer:
  assumes inv: "well_logged E s c e l" and "ob_kind o' = Offer" and pre: "pre_offer (e2_phase e)"
  shows "well_logged E s c (accept e o' SideAllocator PhOffered) (l @ [(SideAllocator, o')])"
  using assms on_path_offer[OF _ pre, of "map (ob_kind \<circ> snd) l"]
  by (intro well_logged_accept) (auto simp: well_logged_def pre_offer_def follows_def)

lemma apply_offer_logged:
  assumes "well_logged E s c e l" and "ob_kind o' = Offer" and "apply_offer e o' sender = (r, e')"
  shows "well_logged E s c e' (l @ accepted sender o' r)"
proof -
  have "accept (e\<lparr>e2_intent_digest := Some (ob_intent_digest o')\<rparr>) o' SideAllocator PhOffered =
      accept e o' SideAllocator PhOffered" if "e2_intent_digest e = None"
    using that assms(2) by (simp add: accept_def Let_def)
  moreover have "e2_intent_digest e = None" if "pre_offer (e2_phase e)" using assms(1) that by (simp add: well_logged_def)
  ultimately show ?thesis
    using assms well_logged_offer[OF assms(1,2)] well_logged_fail[OF assms(1)]
    by (auto simp: apply_offer_def endpoint_fail_def split: if_splits)
qed

lemma well_logged_successor:
  assumes inv: "well_logged E s c e l" and valid: "v2_valid_sender (ob_kind o') sender"
    and kind: "ob_kind o' \<noteq> AccountSelect" and "e2_phase e \<noteq> PhTerminal"
    and "e2_intent_digest e = Some (ob_intent_digest o')" and nx: "next_phase (e2_phase e) (ob_kind o') = Some q"
    and lb: "recognise_logical_body E o' = Ok lb" "lb_carrier_ceremony_id lb = vc_carrier_ceremony_id (e2_carrier e)"
    and last: "e2_last e = Some x" "lb_predecessor_digest lb = lo_content_hash x"
  shows "well_logged E s c (accept e o' sender q) (l @ [(sender, o')])"
proof (rule well_logged_accept[OF inv valid])
  have pre: "\<not> pre_offer (e2_phase e)" using inv assms(5) by (auto simp: well_logged_def)
  have path: "on_path (e2_phase e) (map (ob_kind \<circ> snd) l)" using inv by (simp add: well_logged_def)
  show "on_path q (map (ob_kind \<circ> snd) l @ [ob_kind o'])" by (rule on_path_next[OF path nx pre assms(4)])
  show "pre_offer q \<longrightarrow> ob_kind o' = AccountSelect"
    using next_phase_cases[OF nx assms(4) pre] by (auto simp: pre_offer_def)
  show "follows E c (last l) (sender, o')" if "l \<noteq> []"
    using that inv lb last by (auto simp: well_logged_def follows_def entry_of_def)
qed (use kind assms(5) in auto)

lemma apply_successor_logged:
  assumes "well_logged E s c e l" and "v2_valid_sender (ob_kind o') sender" and "ob_kind o' \<noteq> AccountSelect"
    and "e2_phase e \<noteq> PhTerminal" and "apply_successor E B e o' sender = (r, e')"
  shows "well_logged E s c e' (l @ accepted sender o' r)"
proof -
  have acc: "well_logged E s c (accept (e\<lparr>e2_body_verifier := v\<rparr>) o' sender q) (l @ [(sender, o')])"
    if "e2_intent_digest e = Some (ob_intent_digest o')" "next_phase (e2_phase e) (ob_kind o') = Some q"
      "recognise_logical_body E o' = Ok lb" "lb_carrier_ceremony_id lb = vc_carrier_ceremony_id (e2_carrier e)"
      "e2_last e = Some x" "lb_predecessor_digest lb = lo_content_hash x" for v q lb x
    using that assms(1-4) by (intro well_logged_successor[of E s c _ l o' sender q lb x])
      (simp_all add: well_logged_verifier)
  show ?thesis
    using assms(1,5) acc
    by (auto simp: apply_successor_def endpoint_fail_def Let_def well_logged_fail well_logged_verifier
        split: option.splits result.splits if_splits prod.splits)
qed

lemma apply_object_logged:
  assumes "well_logged E s c e l" and "apply_object E B e o' sender = (r, e')"
  shows "well_logged E s c e' (l @ accepted sender o' r)"
proof (cases "exact_retransmission e o' sender")
  case (Some x)
  then show ?thesis using assms by (auto simp: apply_object_def exact_retransmission_def split: option.splits if_splits)
next
  case None
  then show ?thesis
    using assms well_logged_fail[OF assms(1)] apply_select_logged[OF assms(1)] apply_offer_logged[OF assms(1)]
      apply_successor_logged[OF assms(1)]
    by (auto simp: apply_object_def endpoint_fail_def split: if_splits)
qed

lemma receive_offer_logged:
  assumes "well_logged E s c e l" and "receive_offer E ops e o' authority pq = (r, e', pq')"
  shows "well_logged E s c e' (l @ accepted SideAllocator o' r)"
proof (cases "exact_retransmission e o' SideAllocator")
  case (Some x)
  then show ?thesis using assms by (auto simp: receive_offer_def exact_retransmission_def split: option.splits if_splits)
next
  case None
  then show ?thesis
    using assms well_logged_fail[OF assms(1)] well_logged_offer[OF assms(1)]
    by (auto simp: receive_offer_def split: if_splits prod.splits result.splits)
qed

lemma recover_receipt_logged:
  assumes "well_logged E s c e l" and "recover_receipt E e o' a = (r, e')"
  shows "well_logged E s c e' (l @ accepted SideAllocator o' r)"
proof (cases r)
  case (Ok x)
  then obtain lb y d where *: "awaits_receipt e o'" "recognise_logical_body E o' = Ok lb" "e2_last e = Some y"
      "e2_intent_digest e = Some (ob_intent_digest o')" "lb_carrier_ceremony_id lb = vc_carrier_ceremony_id (e2_carrier e)"
      "lb_predecessor_digest lb = lo_content_hash y" "x = Advanced" "e' = accept e o' SideAllocator PhTerminal"
    using assms(2) by (auto simp: recover_receipt_def bind_st_Ok ok_or_def split: if_splits option.splits)
  have "well_logged E s c (accept e o' SideAllocator PhTerminal) (l @ [(SideAllocator, o')])"
    using * by (intro well_logged_successor[OF assms(1) _ _ _ *(4) _ *(2,5) *(3,6)])
      (auto simp: awaits_receipt_def next_phase_def)
  then show ?thesis using * Ok by simp
next
  case (Err err)
  then have "e' = e" using assms(2)
    by (auto simp: recover_receipt_def bind_st_case split: if_splits result.splits)
  then show ?thesis using assms(1) Err by simp
next
  case Panic
  then have "e' = e" using assms(2)
    by (auto simp: recover_receipt_def bind_st_case split: if_splits result.splits)
  then show ?thesis using assms(1) Panic by simp
qed

lemma authenticate_logged:
  assumes "well_logged E s c e l" and "authenticate_recovered_receipt E B e o' = (a, e')"
  shows "well_logged E s c e' l"
proof -
  have "e' = e \<or> (\<exists>v. e' = e\<lparr>e2_body_verifier := v\<rparr>)"
    using assms(2)
    by (auto simp: authenticate_recovered_receipt_def Let_def bind_st_case split: if_splits prod.splits result.splits)
  then show ?thesis using assms(1) by (auto simp: well_logged_verifier)
qed

lemma conversing_logged: "conversing E B ops s c e l \<Longrightarrow> well_logged E s c e l"
proof (induction rule: conversing.induct)
  case (send e l o' r e')
  then show ?case using apply_object_logged[of E s c e l B o' s r e'] by (simp add: endpoint_send_def well_logged_def)
next
  case (receive e l o' r e')
  then show ?case
    using apply_object_logged[of E s c e l B o' "other_side s" r e'] by (simp add: endpoint_receive_def well_logged_def)
qed (auto intro: well_logged_new receive_offer_logged authenticate_logged recover_receipt_logged)

section \<open>The outbound frame\<close>

lemma accept_retransmission:
  "exact_retransmission (accept e o' sender q) o' sender = Some (Ok ExactRetransmission)"
  by (simp add: accept_def Let_def exact_retransmission_def)

lemma accept_side [simp]: "e2_side (accept e o' sender q) = e2_side e"
  by (simp add: accept_def Let_def)

lemma apply_object_advanced:
  assumes "apply_object E B e o' sender = (Ok Advanced, e')"
  shows "exact_retransmission e' o' sender = Some (Ok ExactRetransmission) \<and> e2_side e' = e2_side e"
proof -
  have "\<exists>e1 q. e' = accept e1 o' sender q \<and> e2_side e1 = e2_side e"
    using assms
    by (auto 4 4 simp: apply_object_def apply_select_def apply_offer_def apply_successor_def endpoint_fail_def
        exact_retransmission_def Let_def split: option.splits result.splits if_splits prod.splits)
  then show ?thesis using accept_retransmission by fastforce
qed

lemma prepare_outbound_new:
  assumes "prepare_outbound E B e o' ch r = (Ok f, e', ch', r')" and "rs_cached_outbound r = None"
  shows "endpoint_send E B e o' = (Ok Advanced, e') \<and> v2_seal E ch (ob_bytes o') = (Ok f, ch') \<and>
    cache_application_frame r f = (Ok (), r') \<and> sc_local_side ch = e2_side e"
  using assms
  by (auto simp: prepare_outbound_def split: if_splits option.splits result.splits prod.splits)

lemma cache_application_Ok:
  "cache_application_frame r f = (Ok (), r') \<Longrightarrow> rs_cached_outbound r' = Some f \<and> rs_awaiting_ack r'"
  by (auto simp: cache_application_frame_def bind_st_case split: if_splits result.splits)

lemma prepare_outbound_cached:
  "rs_cached_outbound r = Some f \<Longrightarrow> sc_local_side ch = e2_side e \<Longrightarrow>
     prepare_outbound E B e o' ch r =
       ((if exact_retransmission e o' (e2_side e) = None then Err V2Phase else Ok f), e, ch, r)"
  by (auto simp: prepare_outbound_def exact_retransmission_def split: option.splits if_splits)

section \<open>Properties\<close>

text \<open>
  C10: Whatever calls an endpoint receives, in any order and with any objects, bodies, verifier
  answers and failures, the objects it accepts form one well-formed conversation: their kinds follow
  the protocol grammar (an optional account selection, then offer, intent approval, preparation,
  confirmation, final approval, payload and receipt, with a decline or refusal only where the protocol
  has one), each comes from the side entitled to send it, all carry the intent digest of the offer, and
  each names this ceremony and the hash of the object accepted before it.
\<close>

theorem v2_conversation_integrity:
  assumes "conversing E B ops s c e l"
  shows "conversation (map (ob_kind \<circ> snd) l) \<and>
    list_all (\<lambda>a. v2_valid_sender (ob_kind (snd a)) (fst a)) l \<and>
    (\<exists>d. \<forall>a \<in> set l. ob_kind (snd a) = AccountSelect \<or> ob_intent_digest (snd a) = d) \<and>
    successively (follows E c) l"
proof -
  have inv: "well_logged E s c e l" using conversing_logged[OF assms] .
  have "\<forall>a \<in> set l. ob_kind (snd a) = AccountSelect \<or> ob_intent_digest (snd a) = the (e2_intent_digest e)"
    using inv by (auto simp: well_logged_def)
  then show ?thesis using inv on_path_conversation by (auto simp: well_logged_def)
qed

definition demo_verifier :: "unit body_verifier" where
  "demo_verifier = \<lparr>bv_verify = (\<lambda>v lb. (Ok (), v)), bv_checkpoint_state = default_checkpoint_state,
     bv_restore_checkpoint_state = default_restore_checkpoint_state\<rparr>"

definition demo_intent_ops :: "(unit, unit) intent_ops" where
  "demo_intent_ops = \<lparr>io_parse = (\<lambda>p bs. (Err V2Profile, p)), io_verify = (\<lambda>q x a. (Ok (), q))\<rparr>"

definition demo_offer :: v2_object where
  "demo_offer = \<lparr>ob_kind = Offer, ob_intent_digest = replicate 32 4, ob_body = [1], ob_bytes = [1],
     ob_content_hash = replicate 32 5\<rparr>"

definition demo_approve :: v2_object where
  "demo_approve = \<lparr>ob_kind = IntentApprove, ob_intent_digest = replicate 32 4, ob_body = [60], ob_bytes = [2],
     ob_content_hash = replicate 32 6\<rparr>"

definition demo_body_value :: cbor where
  "demo_body_value = CMap [(CText ''carrierCeremonyId'', CBytes (replicate 32 2)),
     (CText ''predecessorDigest'', CBytes (replicate 32 5))]"

definition demo_body_table :: "(cbor \<times> bytes) list" where
  "demo_body_table = [(demo_body_value, [60]), (CText ''carrierCeremonyId'', [61]), (CText ''predecessorDigest'', [62])]"

lemma demo_body:
  "recognise_logical_body (v2_demo_env (table_codec demo_body_table)) demo_approve =
     Ok \<lparr>lb_kind = IntentApprove, lb_carrier_ceremony_id = replicate 32 2, lb_predecessor_digest = replicate 32 5,
         lb_bytes = [60]\<rparr>"
  by (simp add: recognise_logical_body_def demo_approve_def decode_canonical_def v2_demo_env_sel table_codec_def
      demo_body_table_def demo_body_value_def contains_duplicate_map_key_def v2_reads)

theorem v2_conversation_integrity_witness:
  "\<exists>e. conversing (v2_demo_env (table_codec demo_body_table)) demo_verifier demo_intent_ops SideAllocator demo_carrier e
      [(SideAllocator, demo_offer), (SideClaimant, demo_approve)] \<and> conversation [Offer, IntentApprove]"
proof -
  let ?E = "v2_demo_env (table_codec demo_body_table)"
  let ?e = "v2_endpoint_new SideAllocator demo_carrier ()"
  obtain e1 where e1: "endpoint_send ?E demo_verifier ?e demo_offer = (Ok Advanced, e1)"
      "e2_phase e1 = PhOffered" "e2_intent_digest e1 = Some (replicate 32 4)" "e2_side e1 = SideAllocator"
      "e2_carrier e1 = demo_carrier" "e2_last e1 = Some (entry_of (SideAllocator, demo_offer))"
    by (simp add: endpoint_send_def apply_object_def exact_retransmission_def v2_endpoint_new_def demo_offer_def
        apply_offer_def pre_offer_def accept_def entry_of_def)
  obtain e2 where e2: "endpoint_receive ?E demo_verifier e1 demo_approve = (Ok Advanced, e2)"
    using e1 demo_body
    by (simp add: endpoint_receive_def apply_object_def exact_retransmission_def apply_successor_def demo_approve_def
        next_phase_def entry_of_def demo_offer_def demo_verifier_def demo_carrier_def other_side_def)
  have run: "conversing ?E demo_verifier demo_intent_ops SideAllocator demo_carrier e2
      [(SideAllocator, demo_offer), (SideClaimant, demo_approve)]"
    using conversing.receive[OF conversing.send[OF conversing.start e1(1)] e2]
    by (simp add: other_side_def)
  from v2_conversation_integrity[OF run] run show ?thesis by (auto simp: demo_offer_def demo_approve_def)
qed

text \<open>
  Preparing an outbound object is idempotent until the relay acknowledges it: when a call returned a
  frame, the same call returns the same frame again and changes nothing, so no counter is spent twice for
  one object, and any other object is refused without a change.
\<close>

lemma prepare_outbound_idempotent:
  assumes "prepare_outbound E B e o' ch r = (Ok f, e', ch', r')"
  shows "prepare_outbound E B e' o' ch' r' = (Ok f, e', ch', r') \<and>
    (exact_retransmission e' o2 (e2_side e') = None \<longrightarrow>
      prepare_outbound E B e' o2 ch' r' = (Err V2Phase, e', ch', r'))"
proof (cases "rs_cached_outbound r")
  case None
  note new = prepare_outbound_new[OF assms None]
  have "exact_retransmission e' o' (e2_side e) = Some (Ok ExactRetransmission)" "e2_side e' = e2_side e"
    using new by (auto simp: endpoint_send_def dest: apply_object_advanced)
  moreover have "sc_local_side ch' = sc_local_side ch" using new by (auto simp: v2_seal_Ok)
  ultimately show ?thesis using new cache_application_Ok[of r f r'] by (auto simp: prepare_outbound_cached)
next
  case (Some x)
  then have "sc_local_side ch = e2_side e" using assms by (auto simp: prepare_outbound_def split: if_splits)
  then show ?thesis using Some assms by (auto simp: prepare_outbound_cached split: if_splits)
qed

theorem prepare_outbound_idempotent_witness:
  "\<exists>f e ch r. prepare_outbound (v2_demo_env demo_channel_codec) demo_verifier
      (v2_endpoint_new SideAllocator demo_carrier ()) demo_offer (demo_channel SideAllocator) (relay_state_new [1]) =
      (Ok f, e, ch, r) \<and>
    prepare_outbound (v2_demo_env demo_channel_codec) demo_verifier e demo_offer ch r = (Ok f, e, ch, r)"
proof -
  let ?E = "v2_demo_env demo_channel_codec" and ?e = "v2_endpoint_new SideAllocator demo_carrier ()"
  obtain e1 where e1: "endpoint_send ?E demo_verifier ?e demo_offer = (Ok Advanced, e1)"
    by (simp add: endpoint_send_def apply_object_def exact_retransmission_def v2_endpoint_new_def demo_offer_def
        apply_offer_def pre_offer_def accept_def)
  have sealed: "\<exists>f ch. v2_seal ?E (demo_channel SideAllocator) [1] = (Ok f, ch) \<and> sealed_of f \<noteq> None"
    by (simp add: v2_seal_def can_seal_def demo_channel_def V2_MAX_PLAINTEXT_def v2_sealed_aad_def v2_canonical_def
        v2_demo_env_sel demo_channel_codec_def demo_crypto_def demo_aead_def sealed_of_def Let_def)
  then obtain f ch where f: "v2_seal ?E (demo_channel SideAllocator) [1] = (Ok f, ch)" "sealed_of f \<noteq> None" by blast
  obtain r where r: "cache_application_frame (relay_state_new [1]) f = (Ok (), r)"
    using f(2) by (simp add: cache_application_frame_def relay_state_new_def next_u8_def try_into_def u8_max_def)
  have "prepare_outbound ?E demo_verifier ?e demo_offer (demo_channel SideAllocator) (relay_state_new [1]) = (Ok f, e1, ch, r)"
    using e1 f(1) r
    by (simp add: prepare_outbound_def demo_channel_def v2_endpoint_new_def relay_state_new_def can_seal_def demo_offer_def
        V2_MAX_PLAINTEXT_def)
  then show ?thesis using prepare_outbound_idempotent by blast
qed

end
