(* ===== verification/V2_Checkpoint_Props.thy ===== *)
theory V2_Checkpoint_Props
  imports V2_Checkpoint V2_Endpoint_Props
begin

text \<open>
  Sealed checkpoints. Each cursor operation reads back what its writer wrote, so a sealed endpoint
  is restored with the same state; what a restored endpoint lost (the octets of a
  cached outbound object) decides whether it can be saved and restored a second time.
\<close>

section \<open>Cursors read what was written\<close>

named_theorems cursor_reads

lemma cur_take_append [cursor_reads]: "length bs = n \<Longrightarrow> cur_take n (bs @ rest) = Ok (bs, rest)"
  by (simp add: cur_take_def)

lemma cur_byte_octet [cursor_reads]: "n < 256 \<Longrightarrow> cur_byte (octet n @ rest) = Ok (n, rest)"
  by (simp add: cur_byte_def octet_def cur_take_def unat_octet)

lemma cur_u64_bytes [cursor_reads]: "n \<le> u64_max \<Longrightarrow> cur_u64 (be_bytes 8 n @ rest) = Ok (n, rest)"
  by (simp add: cur_u64_def cur_take_append be_value_bytes u64_max_def)

lemma cur_boolean_octet [cursor_reads]: "cur_boolean (octet (of_bool b) @ rest) = Ok (b, rest)"
  by (cases b) (simp_all add: cur_boolean_def cur_byte_octet)

lemma cur_side_octet [cursor_reads]: "cur_side (side_octet s @ rest) = Ok (s, rest)"
  by (cases s) (simp_all add: cur_side_def side_octet_def cur_byte_octet v2_side_number_def number_side_def)

lemma cur_optional_octets:
  assumes "optional_octets f x = Ok bs" and "\<And>a bs' rest. x = Some a \<Longrightarrow> f a = Ok bs' \<Longrightarrow> p (bs' @ rest) = Ok (g a, rest)"
  shows "cur_optional p (bs @ rest) = Ok (map_option g x, rest)"
proof (cases x)
  case None
  then show ?thesis using assms(1) by (auto simp: optional_octets_def cur_optional_def cur_byte_octet)
next
  case (Some a)
  then show ?thesis
    using assms by (auto simp: optional_octets_def cur_optional_def cur_byte_octet bind_result_Ok)
qed

lemma cur_counter_octets [cursor_reads]:
  "counter_typed c \<Longrightarrow> cur_counter (counter_octets c @ rest) = Ok (c, rest)"
  by (cases c) (simp_all add: cur_counter_def cur_optional_def counter_octets_def cur_byte_octet cur_u64_bytes
      counter_typed_def counter_at_def)

lemma prefixed_bytes_Ok: "prefixed_bytes v = Ok bs \<longleftrightarrow> length v \<le> u32_max \<and> bs = be_bytes 4 (length v) @ v"
  by (auto simp: prefixed_bytes_def bind_result_Ok try_into_def split: if_splits)

lemma cur_length_prefixed_bytes:
  assumes "prefixed_bytes v = Ok bs" and "length v \<le> m"
  shows "cur_length_prefixed_allow_empty m (bs @ rest) = Ok (v, rest)"
    and "v \<noteq> [] \<Longrightarrow> cur_length_prefixed m (bs @ rest) = Ok (v, rest)"
proof -
  have v: "length v \<le> u32_max" "bs = be_bytes 4 (length v) @ v" using assms(1) by (auto simp: prefixed_bytes_Ok)
  have "be_value (be_bytes 4 (length v)) = length v" using v(1) by (simp add: be_value_bytes u32_max_def)
  then show *: "cur_length_prefixed_allow_empty m (bs @ rest) = Ok (v, rest)"
    using v(2) assms(2) by (simp add: cur_length_prefixed_allow_empty_def cur_take_append)
  show "v \<noteq> [] \<Longrightarrow> cur_length_prefixed m (bs @ rest) = Ok (v, rest)"
    using * by (simp add: cur_length_prefixed_def)
qed

section \<open>The parts of a saved endpoint\<close>

definition channel_typed :: "secure_channel \<Rightarrow> bool" where
  "channel_typed ch \<longleftrightarrow> length (sc_transcript_hash ch) = 64 \<and> length (sc_send_key ch) = 32 \<and>
     length (sc_receive_key ch) = 32 \<and> length (sc_send_iv ch) = 12 \<and> length (sc_receive_iv ch) = 12 \<and>
     length (sc_exporter ch) = 32 \<and> counter_typed (sc_next_send_counter ch) \<and>
     counter_typed (sc_next_receive_counter ch)"

lemma decode_channel_octets [cursor_reads]:
  "channel_typed ch \<Longrightarrow> decode_channel (channel_octets ch @ rest) = Ok (ch, rest)"
  by (cases ch) (simp add: decode_channel_def channel_octets_def channel_typed_def cursor_reads)

definition relay_typed :: "v2_relay \<Rightarrow> bool" where
  "relay_typed r \<longleftrightarrow> length (rs_membership_token r) = 32 \<and> rs_next_local_sequence r \<le> u8_max \<and>
     rs_next_peer_sequence r \<le> u8_max \<and> (\<forall>f. rs_cached_outbound r = Some f \<longrightarrow> frame_typed f)"

definition relay_consistent :: "v2_relay \<Rightarrow> bool" where
  "relay_consistent r \<longleftrightarrow> rs_awaiting_ack r = (rs_cached_outbound r \<noteq> None) \<and>
     (\<forall>f. rs_cached_outbound r = Some f \<longrightarrow> sealed_of f \<noteq> None)"

lemma encode_frame_nonempty: "v2_codec (vn_codec E) \<Longrightarrow> encode_frame E f = Ok bs \<Longrightarrow> bs \<noteq> []"
  by (auto simp: encode_frame_def bind_result_Ok v2_canonical_def v2_codec_def)

lemma cur_frame_octets:
  assumes "v2_codec (vn_codec E)" and "frame_octets E f = Ok bs" and "frame_typed f" and "length bs \<le> m"
  shows "cur_frame E m (bs @ rest) = Ok (f, rest)"
proof -
  obtain fb where fb: "encode_frame E f = Ok fb" "prefixed_bytes fb = Ok bs"
    using assms(2) by (auto simp: frame_octets_def bind_result_Ok)
  have "length fb \<le> m" using fb(2) assms(4) by (auto simp: prefixed_bytes_Ok)
  then show ?thesis
    using cur_length_prefixed_bytes(2)[OF fb(2)] encode_frame_nonempty[OF assms(1) fb(1)]
      decode_encode_frame[OF assms(1) fb(1) assms(3)]
    by (simp add: cur_frame_def)
qed

lemma decode_relay_octets:
  assumes "v2_codec (vn_codec E)" and "relay_octets E r = Ok bs" and "relay_typed r" and "relay_consistent r"
    and "length bs \<le> CHECKPOINT_MAX_CIPHERTEXT"
  shows "decode_relay E (bs @ rest) = Ok (r, rest)"
proof -
  obtain cached where c: "optional_octets (frame_octets E) (rs_cached_outbound r) = Ok cached"
      "bs = rs_membership_token r @ octet (rs_next_local_sequence r) @ octet (rs_next_peer_sequence r) @
           octet (of_bool (rs_awaiting_ack r)) @ cached"
    using assms(2) by (auto simp: relay_octets_def bind_result_Ok)
  have "cur_optional (cur_frame E CHECKPOINT_MAX_CIPHERTEXT) (cached @ rest) =
      Ok (map_option (\<lambda>f. f) (rs_cached_outbound r), rest)"
  proof (rule cur_optional_octets[OF c(1)])
    fix f fb rest' assume f: "rs_cached_outbound r = Some f" "frame_octets E f = Ok fb"
    then have "cached = octet 1 @ fb" using c(1) by (simp add: optional_octets_def)
    then have "length fb \<le> CHECKPOINT_MAX_CIPHERTEXT" using c(2) assms(5) by simp
    then show "cur_frame E CHECKPOINT_MAX_CIPHERTEXT (fb @ rest') = Ok (f, rest')"
      using cur_frame_octets[OF assms(1) f(2)] assms(3) f(1) by (auto simp: relay_typed_def)
  qed
  then show ?thesis
    using assms(3,4) c(2)
    by (cases r) (auto simp: decode_relay_def relay_typed_def relay_consistent_def cursor_reads u8_max_def option.map_ident
        split: option.splits)
qed

text \<open>The last object as a checkpoint keeps it: the octets of a cached outbound object are left out.\<close>

definition saved_last :: "side \<Rightarrow> v2_relay \<Rightarrow> last_object \<Rightarrow> last_object" where
  "saved_last s r l = (if lo_sender l = s \<and> rs_cached_outbound r \<noteq> None then l\<lparr>lo_bytes := None\<rparr> else l)"

definition last_typed :: "v2_env \<Rightarrow> last_object \<Rightarrow> bool" where
  "last_typed E l \<longleftrightarrow> length (lo_intent_digest l) = 32 \<and> length (lo_content_hash l) = 32 \<and>
     (\<forall>b. lo_bytes l = Some b \<longrightarrow> (\<exists>x. decode_object E b = Ok x \<and> ob_kind x = lo_kind l \<and>
        ob_intent_digest x = lo_intent_digest l \<and> ob_content_hash x = lo_content_hash l))"

lemma decode_object_nonempty: "v2_codec (vn_codec E) \<Longrightarrow> decode_object E b = Ok x \<Longrightarrow> b \<noteq> []"
proof -
  assume law: "v2_codec (vn_codec E)" and dec: "decode_object E b = Ok x"
  have "object_new E (ob_kind x) (ob_intent_digest x) (ob_body x) = Ok x" "ob_bytes x = b"
    using decode_object_Ok[OF dec] by auto
  then obtain v where "cd_canonical (vn_codec E) v = Some b"
    unfolding object_new_Ok by (metis v2_object.select_convs(4))
  then show ?thesis using law by (auto simp: v2_codec_def)
qed

lemma cur_last_octets:
  assumes law: "v2_codec (vn_codec E)" and enc: "last_octets s r l = Ok bs" and ty: "last_typed E l"
    and len: "length bs \<le> CHECKPOINT_MAX_CIPHERTEXT"
  shows "cur_last E (bs @ rest) = Ok (saved_last s r l, rest)"
proof -
  let ?b = "lo_bytes (saved_last s r l)"
  obtain ob where ob: "optional_octets prefixed_bytes ?b = Ok ob"
      "bs = side_octet (lo_sender l) @ octet (kind_number (lo_kind l)) @ lo_intent_digest l @ lo_content_hash l @ ob"
    using enc by (auto simp: last_octets_def Let_def bind_result_Ok saved_last_def split: if_splits)
  have ty': "\<exists>x. decode_object E b = Ok x \<and> ob_kind x = lo_kind l \<and> ob_intent_digest x = lo_intent_digest l \<and>
      ob_content_hash x = lo_content_hash l" if "?b = Some b" for b
    using ty that by (auto simp: last_typed_def saved_last_def split: if_splits)
  have "cur_optional (cur_length_prefixed CHECKPOINT_MAX_CIPHERTEXT) (ob @ rest) = Ok (map_option (\<lambda>b. b) ?b, rest)"
  proof (rule cur_optional_octets[OF ob(1)])
    fix b pb rest' assume b: "?b = Some b" "prefixed_bytes b = Ok pb"
    then have "ob = octet 1 @ pb" using ob(1) by (simp add: optional_octets_def)
    then have "length b \<le> CHECKPOINT_MAX_CIPHERTEXT"
      using b(2) ob(2) len by (auto simp: prefixed_bytes_Ok)
    then show "cur_length_prefixed CHECKPOINT_MAX_CIPHERTEXT (pb @ rest') = Ok (b, rest')"
      using cur_length_prefixed_bytes(2)[OF b(2)] ty'[OF b(1)] decode_object_nonempty[OF law] by blast
  qed
  moreover have "kind_number (lo_kind l) < 256" using kind_number_bound[of "lo_kind l"] by linarith
  moreover have "length (lo_intent_digest l) = 32" "length (lo_content_hash l) = 32" using ty by (auto simp: last_typed_def)
  ultimately show ?thesis
    using ob(2) ty'
    by (cases l; cases ?b) (auto simp: cur_last_def cursor_reads option.map_ident saved_last_def split: if_splits)
qed

section \<open>A saved endpoint is read back\<close>

definition endpoint_typed :: "v2_env \<Rightarrow> 'v v2_endpoint \<Rightarrow> bool" where
  "endpoint_typed E e \<longleftrightarrow> carrier_typed (e2_carrier e) \<and> (\<forall>d. e2_intent_digest e = Some d \<longrightarrow> length d = 32) \<and>
     (\<forall>l. e2_last e = Some l \<longrightarrow> last_typed E l)"

lemma phase_number_roundtrip [simp]: "number_phase (phase_number p) = Ok p"
  by (cases p) (simp_all add: number_phase_def)

lemma phase_number_bound: "phase_number p < 256"
  by (cases p) simp_all

text \<open>What restoring the inner octets of \<open>e\<close> must find besides well-formed parts.\<close>

definition restorable :: "v2_env \<Rightarrow> 'v v2_endpoint \<Rightarrow> secure_channel \<Rightarrow> v2_relay \<Rightarrow> bool" where
  "restorable E e ch r \<longleftrightarrow> sc_local_side ch = e2_side e \<and> \<not> sc_terminal ch \<and>
     (\<forall>l. e2_last e = Some l \<longrightarrow> lo_bytes l = None \<longrightarrow> lo_sender l = e2_side e \<and> rs_cached_outbound r \<noteq> None) \<and>
     consistent_projection E (e2_phase e) (e2_intent_digest e) (e2_last e)"

definition restored_endpoint :: "'v v2_endpoint \<Rightarrow> v2_relay \<Rightarrow> 'v \<Rightarrow> u64 \<Rightarrow> bytes \<Rightarrow> 'v v2_endpoint" where
  "restored_endpoint e r v generation nonce = e\<lparr>e2_last := map_option (saved_last (e2_side e) r) (e2_last e),
     e2_body_verifier := v, e2_checkpoint_generation := generation, e2_checkpoint_nonce := Some nonce\<rparr>"

lemma consistent_saved:
  "consistent_projection E p i (map_option (saved_last s r) l) = consistent_projection E p i l"
  by (cases p; cases i; cases l) (auto simp: saved_last_def)

lemma decode_endpoint_octets:
  assumes law: "v2_codec (vn_codec E)" and enc: "endpoint_octets E B e ch r generation nonce = Ok bs"
    and len: "length bs \<le> CHECKPOINT_MAX_PLAINTEXT"
    and ty: "endpoint_typed E e" "channel_typed ch" "relay_typed r" "relay_consistent r"
      "generation \<le> u64_max" "length nonce = 12"
    and ver: "\<And>st. bv_checkpoint_state B (e2_body_verifier e) = Ok st \<Longrightarrow> bv_restore_checkpoint_state B v0 st = (Ok (), v)"
  shows "decode_endpoint E B bs (e2_side e) (e2_carrier e) generation nonce v0 =
    (if restorable E e ch r then Ok (restored_endpoint e r v generation nonce, ch, r) else Err V2Schema)"
proof -
  obtain cb pcb i l st pst rb where parts:
      "encode_carrier E (e2_carrier e) = Ok cb" "prefixed_bytes cb = Ok pcb"
      "optional_octets Ok (e2_intent_digest e) = Ok i"
      "optional_octets (last_octets (e2_side e) r) (e2_last e) = Ok l"
      "bv_checkpoint_state B (e2_body_verifier e) = Ok st" "prefixed_bytes st = Ok pst" "relay_octets E r = Ok rb"
    and bs: "bs = ENDPOINT_INNER_DOMAIN @ side_octet (e2_side e) @ pcb @ octet (phase_number (e2_phase e)) @
           i @ l @ pst @ be_bytes 8 generation @ nonce @ channel_octets ch @ rb"
    using enc by (auto simp: endpoint_octets_def bind_result_Ok)
  have small: "length cb \<le> CHECKPOINT_MAX_PLAINTEXT" "length st \<le> CHECKPOINT_MAX_PLAINTEXT"
      "length l \<le> CHECKPOINT_MAX_PLAINTEXT" "length rb \<le> CHECKPOINT_MAX_CIPHERTEXT"
    using len parts(2,6) by (auto simp: bs prefixed_bytes_Ok CHECKPOINT_MAX_PLAINTEXT_def)
  have carrier: "cur_length_prefixed CHECKPOINT_MAX_PLAINTEXT (pcb @ rest) = Ok (cb, rest)" for rest
    using cur_length_prefixed_bytes(2)[OF parts(2) small(1)] encoded_carrier_nonempty[OF law parts(1)] by blast
  have dec: "decode_carrier E cb = Ok (e2_carrier e)"
    using decode_encode_carrier[OF law parts(1)] ty(1) by (simp add: endpoint_typed_def)
  have intent: "cur_optional (cur_take 32) (i @ rest) = Ok (e2_intent_digest e, rest)" for rest
    using cur_optional_octets[OF parts(3), of "cur_take 32" "\<lambda>d. d"] ty(1)
    by (auto simp: endpoint_typed_def cur_take_append option.map_ident)
  have last: "cur_optional (cur_last E) (l @ rest) = Ok (map_option (saved_last (e2_side e) r) (e2_last e), rest)" for rest
  proof (rule cur_optional_octets[OF parts(4)])
    fix x xb rest' assume x: "e2_last e = Some x" "last_octets (e2_side e) r x = Ok xb"
    then have "l = octet 1 @ xb" using parts(4) by (simp add: optional_octets_def)
    then have "length xb \<le> CHECKPOINT_MAX_CIPHERTEXT" using small(3) by (simp add: CHECKPOINT_MAX_PLAINTEXT_def)
    then show "cur_last E (xb @ rest') = Ok (saved_last (e2_side e) r x, rest')"
      using cur_last_octets[OF law x(2)] ty(1) x(1) by (simp add: endpoint_typed_def)
  qed
  have verst: "cur_length_prefixed_allow_empty CHECKPOINT_MAX_PLAINTEXT (pst @ rest) = Ok (st, rest)" for rest
    by (rule cur_length_prefixed_bytes(1)[OF parts(6) small(2)])
  have relay: "decode_relay E rb = Ok (r, [])"
    using decode_relay_octets[OF law parts(7) ty(3,4) small(4), of "[]"] by simp
  show ?thesis
    unfolding decode_endpoint_def bs
    using phase_number_bound ty(2,5,6) ver[OF parts(5)]
    by (simp add: cursor_reads carrier dec intent last verst relay consistent_saved)
      (cases "e2_last e"; auto simp: restorable_def restored_endpoint_def saved_last_def)
qed

section \<open>Sealing and opening\<close>

definition outer_typed :: "v2_outer \<Rightarrow> bool" where
  "outer_typed u \<longleftrightarrow> length (ou_ceremony u) = 32 \<and> ou_generation u \<le> u64_max \<and>
     (\<forall>x. ou_expiry u = Some x \<longrightarrow> x \<le> u64_max) \<and> length (ou_nonce u) = 12 \<and>
     ou_ciphertext u \<noteq> [] \<and> length (ou_ciphertext u) \<le> CHECKPOINT_MAX_CIPHERTEXT"

lemma text_side_name: "text_side (CText (side_name s)) = Ok s"
  by (cases s) (simp_all add: text_side_def side_name_def)

lemma decode_encode_outer:
  assumes "v2_codec (vn_codec E)" and "encode_outer E u = Ok bs" and "outer_typed u"
  shows "decode_outer E bs = Ok u"
proof -
  have "decode_canonical E bs = Ok (outer_value u)"
    using assms(2) by (intro decode_canonical_free[OF assms(1)])
      (auto simp: encode_outer_def v2_canonical_def outer_value_def expiry_value_def split: option.splits)
  then show ?thesis
    using assms(3)
    by (cases u; cases "ou_expiry u") (simp_all add: decode_outer_def outer_value_def outer_typed_def text_side_name expiry_value_def)
qed

lemma seal_checkpoint_plaintext_Ok:
  assumes "seal_checkpoint_plaintext E plaintext s c key generation expiry nonce = Ok cp"
  obtains aad k cipher ct where "checkpoint_aad E s (vc_carrier_ceremony_id c) generation expiry = Ok aad"
    "derive_key E s (vc_carrier_ceremony_id c) key = Ok k" "cr_cipher (vn_crypto E) k = Some cipher"
    "ae_encrypt cipher nonce plaintext aad = Some ct" "ct \<noteq> []" "length ct \<le> CHECKPOINT_MAX_CIPHERTEXT"
    "encode_outer E \<lparr>ou_side = s, ou_ceremony = vc_carrier_ceremony_id c, ou_generation = generation,
       ou_expiry = expiry, ou_nonce = nonce, ou_ciphertext = ct\<rparr> = Ok cp"
    "length plaintext \<le> CHECKPOINT_MAX_PLAINTEXT"
  using assms by (auto simp: seal_checkpoint_plaintext_def bind_result_Ok split: if_splits)

lemma open_sealed_checkpoint:
  assumes law: "v2_codec (vn_codec E)" and sound: "aead_sound (vn_crypto E)"
    and seal: "seal_checkpoint_plaintext E plaintext s c key generation expiry nonce = Ok cp"
    and ty: "carrier_typed c" "0 < generation" "generation \<le> u64_max" "length nonce = 12"
    and live: "\<And>x. expiry = Some x \<Longrightarrow> now < x \<and> x \<le> u64_max"
  shows "open_checkpoint_plaintext E cp key s c generation now =
    Ok \<lparr>oc_plaintext = plaintext, oc_expiry = expiry, oc_nonce = nonce\<rparr>"
proof -
  obtain aad k cipher ct where c: "checkpoint_aad E s (vc_carrier_ceremony_id c) generation expiry = Ok aad"
    "derive_key E s (vc_carrier_ceremony_id c) key = Ok k" "cr_cipher (vn_crypto E) k = Some cipher"
    "ae_encrypt cipher nonce plaintext aad = Some ct" "ct \<noteq> []" "length ct \<le> CHECKPOINT_MAX_CIPHERTEXT"
    "encode_outer E \<lparr>ou_side = s, ou_ceremony = vc_carrier_ceremony_id c, ou_generation = generation,
       ou_expiry = expiry, ou_nonce = nonce, ou_ciphertext = ct\<rparr> = Ok cp"
    using seal_checkpoint_plaintext_Ok[OF seal] by metis
  have "ae_decrypt cipher nonce ct aad = Some plaintext" using sound c(3,4) unfolding aead_sound_def by blast
  moreover have "decode_outer E cp = Ok \<lparr>ou_side = s, ou_ceremony = vc_carrier_ceremony_id c, ou_generation = generation,
       ou_expiry = expiry, ou_nonce = nonce, ou_ciphertext = ct\<rparr>"
    using ty live c(5,6) by (intro decode_encode_outer[OF law c(7)]) (auto simp: outer_typed_def carrier_typed_def)
  ultimately show ?thesis
    using c ty(2) live
    by (cases expiry) (auto simp: open_checkpoint_plaintext_def open_checkpoint_for_def)
qed

lemma seal_checkpoint_Ok:
  "seal_checkpoint E B e ch r key generation expiry nonce now = (Ok cp, e') \<longleftrightarrow>
     sc_local_side ch = e2_side e \<and>
     validate_checkpoint_phase (e2_side e) (e2_phase e) (receipt_released e) expiry
       (vc_relay_expires_at (e2_carrier e)) now = Ok () \<and>
     \<not> generation_refused generation (e2_checkpoint_generation e) (e2_checkpoint_nonce e) nonce \<and>
     (\<exists>plaintext. endpoint_octets E B e ch r generation nonce = Ok plaintext \<and>
        seal_checkpoint_plaintext E plaintext (e2_side e) (e2_carrier e) key generation expiry nonce = Ok cp) \<and>
     e' = e\<lparr>e2_checkpoint_generation := generation, e2_checkpoint_nonce := Some nonce\<rparr>"
  by (auto simp: seal_checkpoint_def bind_st_Ok split: if_splits)

lemma receipt_released_restored [simp]:
  "receipt_released (restored_endpoint e r v generation nonce) = receipt_released e"
  by (auto simp: receipt_released_def restored_endpoint_def saved_last_def split: option.splits)

lemma validate_checkpoint_later:
  "validate_checkpoint_phase s p released expiry ce now = Ok () \<Longrightarrow> (\<And>x. expiry = Some x \<Longrightarrow> now' < x) \<Longrightarrow>
     validate_checkpoint_phase s p released expiry ce now' = Ok ()"
  by (cases expiry; cases s) (auto simp: validate_checkpoint_phase_def live_expiry_def split: if_splits)

text \<open>The verifier restores the state it saved.\<close>

definition verifier_law :: "'v body_verifier \<Rightarrow> 'v \<Rightarrow> 'v \<Rightarrow> bool" where
  "verifier_law B v0 v \<longleftrightarrow> (\<forall>st. bv_checkpoint_state B v = Ok st \<longrightarrow> bv_restore_checkpoint_state B v0 st = (Ok (), v))"

lemma restore_sealed:
  assumes law: "v2_codec (vn_codec E)" and sound: "aead_sound (vn_crypto E)"
    and seal: "seal_checkpoint E B e ch r key generation expiry nonce now = (Ok cp, e')"
    and ty: "endpoint_typed E e" "channel_typed ch" "relay_typed r" "relay_consistent r"
      "generation \<le> u64_max" "length nonce = 12"
    and ver: "verifier_law B v0 (e2_body_verifier e)"
    and live: "\<And>x. expiry = Some x \<Longrightarrow> now' < x"
  shows "restore_checkpoint E B cp key (e2_side e) (e2_carrier e) generation now' v0 =
    (if restorable E e ch r
     then Ok (e'\<lparr>e2_last := map_option (saved_last (e2_side e) r) (e2_last e)\<rparr>, ch, r) else Err V2Schema)"
proof -
  obtain pt where pt: "endpoint_octets E B e ch r generation nonce = Ok pt"
      "seal_checkpoint_plaintext E pt (e2_side e) (e2_carrier e) key generation expiry nonce = Ok cp"
    and e': "e' = e\<lparr>e2_checkpoint_generation := generation, e2_checkpoint_nonce := Some nonce\<rparr>"
    and val: "validate_checkpoint_phase (e2_side e) (e2_phase e) (receipt_released e) expiry
       (vc_relay_expires_at (e2_carrier e)) now = Ok ()"
    and gen: "0 < generation" using seal by (auto simp: seal_checkpoint_Ok generation_refused_def)
  have carrier: "carrier_typed (e2_carrier e)" using ty(1) by (simp add: endpoint_typed_def)
  have "x \<le> u64_max" if "expiry = Some x" for x
    using val that carrier
    by (auto simp: validate_checkpoint_phase_def live_expiry_def carrier_typed_def split: side.splits if_splits)
  then have "open_checkpoint_plaintext E cp key (e2_side e) (e2_carrier e) generation now' =
      Ok \<lparr>oc_plaintext = pt, oc_expiry = expiry, oc_nonce = nonce\<rparr>"
    using live by (intro open_sealed_checkpoint[OF law sound pt(2) carrier gen ty(5,6)]) auto
  moreover have "length pt \<le> CHECKPOINT_MAX_PLAINTEXT" using seal_checkpoint_plaintext_Ok[OF pt(2)] by metis
  moreover have "restored_endpoint e r (e2_body_verifier e) generation nonce =
      e'\<lparr>e2_last := map_option (saved_last (e2_side e) r) (e2_last e)\<rparr>"
    by (simp add: restored_endpoint_def e')
  ultimately show ?thesis
    using decode_endpoint_octets[OF law pt(1) _ ty ver[unfolded verifier_law_def, rule_format]]
      validate_checkpoint_later[OF val live]
      receipt_released_restored[of e r "e2_body_verifier e" generation nonce]
    by (auto simp: restore_checkpoint_def e')
qed

lemma acknowledged_relay:
  "acknowledge_application_frame r seq = (Ok (), r') \<Longrightarrow>
     r' = r\<lparr>rs_cached_outbound := None, rs_awaiting_ack := False\<rparr>"
  by (auto simp: acknowledge_application_frame_def bind_st_case split: result.splits if_splits)

section \<open>A concrete checkpoint\<close>

definition demo_frame :: v2_frame where
  "demo_frame = FrSealed AllocatorToClaimant 0 (replicate 17 0)"

definition demo_frame_value :: cbor where
  "demo_frame_value = cmap [(''v'', CInteger 2), (''kind'', CText ''sealed''), (''direction'', CInteger 0),
     (''counter'', CInteger 0), (''ciphertext'', CBytes (replicate 17 0))]"

definition demo_cached :: v2_relay where
  "demo_cached = \<lparr>rs_membership_token = replicate 32 6, rs_next_local_sequence = 1, rs_next_peer_sequence = 0,
     rs_awaiting_ack = True, rs_cached_outbound = Some demo_frame\<rparr>"

definition demo_saved_endpoint :: "unit v2_endpoint" where
  "demo_saved_endpoint = \<lparr>e2_side = SideAllocator, e2_carrier = demo_carrier, e2_phase = PhOffered,
     e2_intent_digest = Some (replicate 32 4),
     e2_last = Some \<lparr>lo_sender = SideAllocator, lo_bytes = None, lo_kind = Offer, lo_intent_digest = replicate 32 4,
       lo_content_hash = replicate 32 5\<rparr>,
     e2_body_verifier = (), e2_checkpoint_generation = 0, e2_checkpoint_nonce = None\<rparr>"

definition demo_relay_octets :: "bool \<Rightarrow> bytes" where
  "demo_relay_octets cached = replicate 32 6 @ octet 1 @ octet 0 @ octet (of_bool cached) @
     (if cached then octet 1 @ be_bytes 4 1 @ [30] else octet 0)"

definition demo_plain :: "u64 \<Rightarrow> bytes \<Rightarrow> bool \<Rightarrow> bytes" where
  "demo_plain g nonce cached = ENDPOINT_INNER_DOMAIN @ side_octet SideAllocator @ (be_bytes 4 1 @ [20]) @ octet 1 @
     (octet 1 @ replicate 32 4) @
     (octet 1 @ side_octet SideAllocator @ octet (kind_number Offer) @ replicate 32 4 @ replicate 32 5 @ octet 0) @
     be_bytes 4 0 @ be_bytes 8 g @ nonce @ channel_octets (demo_channel SideAllocator) @ demo_relay_octets cached"

definition demo_outer :: "u64 \<Rightarrow> bytes \<Rightarrow> bool \<Rightarrow> v2_outer" where
  "demo_outer g nonce cached = \<lparr>ou_side = SideAllocator, ou_ceremony = replicate 32 2, ou_generation = g,
     ou_expiry = Some 9, ou_nonce = nonce, ou_ciphertext = demo_plain g nonce cached @ replicate 16 0\<rparr>"

definition demo_aad_value :: "u64 \<Rightarrow> cbor" where
  "demo_aad_value g = CArray [CText OUTER_DOMAIN, CInteger 2, CText (side_name SideAllocator), CText V2_PROFILE,
       CBytes (replicate 32 2), CInteger (int g), CInteger 9]"

definition demo_key_value :: cbor where
  "demo_key_value = CArray [CText KEY_INFO_DOMAIN, CText (side_name SideAllocator), CText V2_PROFILE]"

definition demo_checkpoint_table :: "(cbor \<times> bytes) list" where
  "demo_checkpoint_table = demo_carrier_table @
     [(demo_frame_value, [30]), (CText ''v'', [31]), (CText ''kind'', [32]), (CText ''direction'', [33]),
      (CText ''counter'', [34]), (CText ''ciphertext'', [35]), (demo_key_value, [36]),
      (demo_aad_value 1, [37]), (demo_aad_value 2, [38]),
      (outer_value (demo_outer 1 (replicate 12 1) True), [39]), (outer_value (demo_outer 2 (replicate 12 2) False), [40])]"

abbreviation demo_checkpoint_env :: v2_env where
  "demo_checkpoint_env \<equiv> v2_demo_env (table_codec demo_checkpoint_table)"

lemma demo_values_distinct:
  "outer_value u \<noteq> CMap es" "outer_value u \<noteq> CText t" "outer_value u \<noteq> demo_aad_value g" "outer_value u \<noteq> demo_key_value"
  "demo_aad_value g \<noteq> CMap es" "demo_aad_value g \<noteq> CText t" "demo_aad_value g \<noteq> demo_key_value"
  "demo_key_value \<noteq> CMap es" "demo_key_value \<noteq> CText t"
  "demo_aad_value g = demo_aad_value g' \<longleftrightarrow> g = g'"
  "ou_generation u \<noteq> ou_generation u' \<Longrightarrow> outer_value u \<noteq> outer_value u'"
  by (auto simp: outer_value_def demo_aad_value_def demo_key_value_def)

lemma demo_maps_distinct: "demo_frame_value \<noteq> cmap (carrier_entries demo_carrier)"
  by (simp add: demo_frame_value_def cmap_def carrier_entries_def)

lemma demo_map_shape: "\<exists>es. demo_frame_value = CMap es" "\<exists>es. cmap (carrier_entries c) = CMap es"
  by (simp_all add: demo_frame_value_def cmap_def)

lemma demo_lookups:
  "map_of demo_checkpoint_table (cmap (carrier_entries demo_carrier)) = Some [20]"
  "map_of demo_checkpoint_table demo_frame_value = Some [30]"
  "map_of demo_checkpoint_table demo_key_value = Some [36]"
  "map_of demo_checkpoint_table (demo_aad_value 1) = Some [37]"
  "map_of demo_checkpoint_table (demo_aad_value 2) = Some [38]"
  "map_of demo_checkpoint_table (outer_value (demo_outer 1 (replicate 12 1) True)) = Some [39]"
  "map_of demo_checkpoint_table (outer_value (demo_outer 2 (replicate 12 2) False)) = Some [40]"
proof -
  obtain es where es: "demo_frame_value = CMap es" using demo_map_shape(1) by blast
  obtain fs where fs: "cmap (carrier_entries demo_carrier) = CMap fs" using demo_map_shape(2) by blast
  have "es \<noteq> fs" using demo_maps_distinct by (simp add: es fs)
  note * = es fs this
  show "map_of demo_checkpoint_table (cmap (carrier_entries demo_carrier)) = Some [20]"
    by (simp add: demo_checkpoint_table_def demo_carrier_table_def)
  show "map_of demo_checkpoint_table demo_frame_value = Some [30]"
    by (simp add: demo_checkpoint_table_def demo_carrier_table_def *)
  show "map_of demo_checkpoint_table demo_key_value = Some [36]"
    by (simp add: demo_checkpoint_table_def demo_carrier_table_def *(1,2) demo_values_distinct)
  show "map_of demo_checkpoint_table (demo_aad_value 1) = Some [37]"
    by (simp add: demo_checkpoint_table_def demo_carrier_table_def *(1,2) demo_values_distinct)
  show "map_of demo_checkpoint_table (demo_aad_value 2) = Some [38]"
    by (simp add: demo_checkpoint_table_def demo_carrier_table_def *(1,2) demo_values_distinct)
  show "map_of demo_checkpoint_table (outer_value (demo_outer 1 (replicate 12 1) True)) = Some [39]"
    by (simp add: demo_checkpoint_table_def demo_carrier_table_def *(1,2) demo_values_distinct)
  show "map_of demo_checkpoint_table (outer_value (demo_outer 2 (replicate 12 2) False)) = Some [40]"
    using demo_values_distinct(11)[of "demo_outer 2 (replicate 12 2) False" "demo_outer 1 (replicate 12 1) True"]
    by (simp add: demo_checkpoint_table_def demo_carrier_table_def *(1,2) demo_values_distinct demo_outer_def)
qed

lemma demo_checkpoint_codec: "v2_codec (table_codec demo_checkpoint_table)"
proof (rule table_v2_codec)
  show "distinct (map snd demo_checkpoint_table)" "[] \<notin> set (map snd demo_checkpoint_table)"
    by (simp_all add: demo_checkpoint_table_def demo_carrier_table_def)
  have keys: "map_of demo_checkpoint_table (CText k) \<noteq> None"
    if "k \<in> fst ` set (carrier_entries demo_carrier) \<union> {''v'', ''kind'', ''direction'', ''counter'', ''ciphertext''}" for k
  proof -
    have "CText k \<in> fst ` set demo_checkpoint_table"
      using that by (auto simp: demo_checkpoint_table_def demo_carrier_table_def carrier_entries_def demo_carrier_def)
    then show ?thesis by (simp only: map_of_eq_None_iff not_not simp_thms)
  qed
  have "list_all (\<lambda>e. map_of demo_checkpoint_table (fst e) \<noteq> None) es"
    if "(CMap es, b) \<in> set demo_checkpoint_table" for es b
  proof -
    have "CMap es = cmap (carrier_entries demo_carrier) \<or> CMap es = demo_frame_value"
      using that
      by (auto simp: demo_checkpoint_table_def demo_carrier_table_def demo_values_distinct(1,5,8)[symmetric])
    then show ?thesis
    proof
      assume "CMap es = cmap (carrier_entries demo_carrier)"
      then show ?thesis using keys by (auto simp: cmap_def list_all_iff image_iff split: prod.splits) (metis UnI1 fst_conv image_eqI)
    next
      assume "CMap es = demo_frame_value"
      then show ?thesis using keys by (auto simp: demo_frame_value_def cmap_def)
    qed
  qed
  then show "list_all (\<lambda>(v, b). \<forall>es. v = CMap es \<longrightarrow> list_all (\<lambda>e. map_of demo_checkpoint_table (fst e) \<noteq> None) es)
      demo_checkpoint_table"
    by (auto simp: list_all_iff)
qed

definition demo_acknowledged :: v2_relay where
  "demo_acknowledged = demo_cached\<lparr>rs_cached_outbound := None, rs_awaiting_ack := False\<rparr>"

lemma demo_checkpoint_canonical: "cd_canonical (vn_codec demo_checkpoint_env) = map_of demo_checkpoint_table"
  by (simp add: v2_demo_env_sel table_codec_def)

lemma demo_octets:
  "encode_carrier demo_checkpoint_env demo_carrier = Ok [20]"
  "encode_frame demo_checkpoint_env demo_frame = Ok [30]"
proof -
  have "encode_carrier (v2_demo_env C) demo_carrier =
      v2_canonical (v2_demo_env C) (cmap (carrier_entries demo_carrier))" for C
  proof -
    have "recognise_application_id (vc_application_context demo_carrier) = Ok ''https://a.io''" by code_simp
    moreover have "is_ascii ''https://r.io''" by code_simp
    ultimately show ?thesis
      by (simp add: encode_carrier_def v2_validate_origin_def v2_demo_env_def demo_carrier_def)
  qed
  then show "encode_carrier demo_checkpoint_env demo_carrier = Ok [20]"
    by (simp add: v2_canonical_def demo_checkpoint_canonical demo_lookups)
  show "encode_frame demo_checkpoint_env demo_frame = Ok [30]"
    using demo_lookups(2)
    by (simp add: encode_frame_def frame_value_def demo_frame_def v2_canonical_def demo_checkpoint_canonical
        demo_frame_value_def direction_number_def V2_MAX_CIPHERTEXT_def)
qed

lemma demo_endpoint_octets:
  "e2_carrier e = demo_carrier \<Longrightarrow> e2_side e = SideAllocator \<Longrightarrow> e2_phase e = PhOffered \<Longrightarrow>
     e2_intent_digest e = Some (replicate 32 4) \<Longrightarrow> e2_last e = e2_last demo_saved_endpoint \<Longrightarrow>
     endpoint_octets demo_checkpoint_env demo_verifier e (demo_channel SideAllocator) demo_cached g nonce =
       Ok (demo_plain g nonce True) \<and>
     endpoint_octets demo_checkpoint_env demo_verifier e (demo_channel SideAllocator) demo_acknowledged g nonce =
       Ok (demo_plain g nonce False)"
  by (simp add: endpoint_octets_def demo_octets prefixed_bytes_def try_into_def u32_max_def optional_octets_def
      demo_saved_endpoint_def last_octets_def Let_def demo_verifier_def default_checkpoint_state_def relay_octets_def
      demo_cached_def demo_acknowledged_def frame_octets_def demo_plain_def demo_relay_octets_def)

lemma demo_plain_length: "length nonce = 12 \<Longrightarrow> length (demo_plain g nonce cached) \<le> 600"
  by (simp add: demo_plain_def ENDPOINT_INNER_DOMAIN_def ascii_def side_octet_def octet_def channel_octets_def
      demo_channel_def counter_octets_def demo_relay_octets_def)

lemma demo_seal_plaintext:
  assumes "(g, nonce, cached) \<in> {(1, replicate 12 1, True), (2, replicate 12 2, False)}"
  shows "seal_checkpoint_plaintext demo_checkpoint_env (demo_plain g nonce cached) SideAllocator demo_carrier [] g (Some 9) nonce =
    Ok (if cached then [39] else [40])"
proof -
  have n: "length nonce = 12" using assms by auto
  have ne: "demo_plain g nonce cached \<noteq> []" by (simp add: demo_plain_def side_octet_def octet_def)
  have aad: "checkpoint_aad demo_checkpoint_env SideAllocator (vc_carrier_ceremony_id demo_carrier) g (Some 9) =
      Ok (if cached then [37] else [38])"
    using assms demo_lookups(4,5)
    by (auto simp: checkpoint_aad_def v2_canonical_def demo_checkpoint_canonical demo_aad_value_def expiry_value_def demo_carrier_def)
  have key: "derive_key demo_checkpoint_env SideAllocator (vc_carrier_ceremony_id demo_carrier) [] = Ok (replicate 32 0)"
    using demo_lookups(3)
    by (simp add: derive_key_def checkpoint_key_info_def v2_canonical_def demo_checkpoint_canonical demo_key_value_def)
      (simp add: v2_demo_env_def)
  have out: "encode_outer demo_checkpoint_env (demo_outer g nonce cached) = Ok (if cached then [39] else [40])"
    using assms demo_lookups(6,7)
    by (auto simp: encode_outer_def v2_canonical_def demo_checkpoint_canonical)
  have outer: "demo_outer g nonce cached = \<lparr>ou_side = SideAllocator, ou_ceremony = vc_carrier_ceremony_id demo_carrier,
      ou_generation = g, ou_expiry = Some 9, ou_nonce = nonce, ou_ciphertext = demo_plain g nonce cached @ replicate 16 0\<rparr>"
    by (simp add: demo_outer_def demo_carrier_def)
  show ?thesis
    using demo_plain_length[OF n, of g cached] ne out
    by (simp add: seal_checkpoint_plaintext_def aad key outer CHECKPOINT_MAX_PLAINTEXT_def CHECKPOINT_MAX_CIPHERTEXT_def
        v2_demo_env_sel demo_crypto_def demo_aead_def)
qed

lemma demo_seals:
  "seal_checkpoint demo_checkpoint_env demo_verifier demo_saved_endpoint (demo_channel SideAllocator) demo_cached [] 1 (Some 9)
     (replicate 12 1) 0 =
     (Ok [39], demo_saved_endpoint\<lparr>e2_checkpoint_generation := 1, e2_checkpoint_nonce := Some (replicate 12 1)\<rparr>)"
  "seal_checkpoint demo_checkpoint_env demo_verifier
     (demo_saved_endpoint\<lparr>e2_checkpoint_generation := 1, e2_checkpoint_nonce := Some (replicate 12 1)\<rparr>)
     (demo_channel SideAllocator) demo_acknowledged [] 2 (Some 9) (replicate 12 2) 0 =
     (Ok [40], demo_saved_endpoint\<lparr>e2_checkpoint_generation := 2, e2_checkpoint_nonce := Some (replicate 12 2)\<rparr>)"
  using demo_seal_plaintext[of 1 "replicate 12 1" True] demo_seal_plaintext[of 2 "replicate 12 2" False]
    demo_endpoint_octets[of demo_saved_endpoint 1 "replicate 12 1"]
    demo_endpoint_octets[of "demo_saved_endpoint\<lparr>e2_checkpoint_generation := 1, e2_checkpoint_nonce := Some (replicate 12 1)\<rparr>"
      2 "replicate 12 2"]
  unfolding seal_checkpoint_Ok
  by (simp_all add: demo_saved_endpoint_def validate_checkpoint_phase_def live_expiry_def demo_carrier_def
      generation_refused_def saturating_add_u64_def u64_max_def) (simp_all add: demo_channel_def)

lemma demo_types:
  "endpoint_typed demo_checkpoint_env demo_saved_endpoint" "channel_typed (demo_channel SideAllocator)"
  "relay_typed demo_cached" "relay_consistent demo_cached" "verifier_law demo_verifier () v"
  "restorable demo_checkpoint_env demo_saved_endpoint (demo_channel SideAllocator) demo_cached"
  "aead_sound (vn_crypto demo_checkpoint_env)" "v2_codec (vn_codec demo_checkpoint_env)"
proof -
  show "endpoint_typed demo_checkpoint_env demo_saved_endpoint"
    by (simp add: endpoint_typed_def demo_saved_endpoint_def demo_carrier_typed last_typed_def)
  show "channel_typed (demo_channel SideAllocator)"
    by (simp add: channel_typed_def demo_channel_def counter_typed_def counter_at_def)
  show "relay_typed demo_cached" "relay_consistent demo_cached"
    by (simp_all add: relay_typed_def relay_consistent_def demo_cached_def demo_frame_def u8_max_def sealed_of_def)
  show "verifier_law demo_verifier () v"
    by (simp add: verifier_law_def demo_verifier_def default_checkpoint_state_def default_restore_checkpoint_state_def)
  show "restorable demo_checkpoint_env demo_saved_endpoint (demo_channel SideAllocator) demo_cached"
    by (simp add: restorable_def demo_saved_endpoint_def demo_channel_def demo_cached_def)
  show "aead_sound (vn_crypto demo_checkpoint_env)" by (simp add: v2_demo_env_sel demo_aead_sound)
  show "v2_codec (vn_codec demo_checkpoint_env)" by (simp add: v2_demo_env_sel demo_checkpoint_codec)
qed

section \<open>Properties\<close>

text \<open>
  C11: A sealed endpoint checkpoint restores exactly what was saved: opened with the same wrapping key,
  side, carrier and generation before its expiry, it gives back the endpoint with its phase, intent,
  verifier state and new generation and nonce, the channel with both counters, and the relay
  projection with its cached frame. Only the octets of a locally sent object whose frame is cached are left
  out. It is refused as malformed exactly when the saved endpoint is not restorable: its channel is
  terminal, its phase does not fit its last object, or that object's octets are missing without a cached frame.
\<close>

theorem checkpoint_roundtrip:
  assumes "v2_codec (vn_codec E)" and "aead_sound (vn_crypto E)"
    and "seal_checkpoint E B e ch r key generation expiry nonce now = (Ok cp, e')"
    and "endpoint_typed E e" and "channel_typed ch" and "relay_typed r" and "relay_consistent r"
    and "generation \<le> u64_max" and "length nonce = 12"
    and "verifier_law B v0 (e2_body_verifier e)" and "\<forall>x. expiry = Some x \<longrightarrow> now' < x"
  shows "restore_checkpoint E B cp key (e2_side e) (e2_carrier e) generation now' v0 =
    (if restorable E e ch r
     then Ok (e'\<lparr>e2_last := map_option (saved_last (e2_side e) r) (e2_last e)\<rparr>, ch, r) else Err V2Schema)"
  using assms(11) by (intro restore_sealed[OF assms(1-10)]) auto

theorem checkpoint_roundtrip_witness:
  "restore_checkpoint demo_checkpoint_env demo_verifier [39] [] SideAllocator demo_carrier 1 0 () =
     Ok (demo_saved_endpoint\<lparr>e2_checkpoint_generation := 1, e2_checkpoint_nonce := Some (replicate 12 1)\<rparr>,
         demo_channel SideAllocator, demo_cached)"
  using checkpoint_roundtrip[OF demo_types(8,7) demo_seals(1) demo_types(1-4) _ _ demo_types(5), of 0] demo_types(6)
  by (simp add: u64_max_def) (simp add: demo_saved_endpoint_def saved_last_def demo_cached_def)

text \<open>
  C22: A checkpoint taken after the relay acknowledged a restored frame cannot be restored. When an
  endpoint was saved with its own last object cached for sending and restored from that checkpoint, the
  object's octets are gone; after the acknowledgement clears the cached frame, sealing still succeeds, but
  restoring the new checkpoint always fails with a schema error.
\<close>

theorem acknowledged_checkpoint_refused:
  assumes "v2_codec (vn_codec E)" and "aead_sound (vn_crypto E)"
    and "seal_checkpoint E B e ch r key g expiry nonce now = (Ok cp, e1)"
    and "endpoint_typed E e" and "channel_typed ch" and "relay_typed r" and "relay_consistent r"
    and "g \<le> u64_max" and "length nonce = 12" and "\<forall>v. verifier_law B v0 v" and "\<forall>x. expiry = Some x \<longrightarrow> now1 < x"
    and "e2_last e = Some l" and "lo_sender l = e2_side e" and "rs_cached_outbound r = Some f"
    and "restore_checkpoint E B cp key (e2_side e) (e2_carrier e) g now1 v0 = Ok (e2, ch2, r2)"
    and "acknowledge_application_frame r2 seq = (Ok (), r3)"
    and "seal_checkpoint E B e2 ch2 r3 key g2 expiry2 nonce2 now2 = (Ok cp2, e3)"
    and "g2 \<le> u64_max" and "length nonce2 = 12" and "\<forall>x. expiry2 = Some x \<longrightarrow> now3 < x"
  shows "restore_checkpoint E B cp2 key (e2_side e) (e2_carrier e) g2 now3 v0 = Err V2Schema"
proof -
  have e1: "e1 = e\<lparr>e2_checkpoint_generation := g, e2_checkpoint_nonce := Some nonce\<rparr>"
    using assms(3) by (simp add: seal_checkpoint_Ok)
  have "restore_checkpoint E B cp key (e2_side e) (e2_carrier e) g now1 v0 =
    (if restorable E e ch r
     then Ok (e1\<lparr>e2_last := map_option (saved_last (e2_side e) r) (e2_last e)\<rparr>, ch, r) else Err V2Schema)"
    using assms(10,11) by (intro restore_sealed[OF assms(1-9)]) auto
  then have st: "e2 = e1\<lparr>e2_last := Some (l\<lparr>lo_bytes := None\<rparr>)\<rparr>" "ch2 = ch" "r2 = r"
    using assms(12-15) by (auto simp: saved_last_def split: if_splits)
  have r3: "r3 = r\<lparr>rs_cached_outbound := None, rs_awaiting_ack := False\<rparr>"
    using acknowledged_relay[OF assms(16)] st(3) by simp
  have ty: "endpoint_typed E e2" "channel_typed ch2" "relay_typed r3" "relay_consistent r3"
    using assms(4-7,12) by (auto simp: endpoint_typed_def st e1 r3 last_typed_def relay_typed_def relay_consistent_def)
  have "\<not> restorable E e2 ch2 r3" by (simp add: restorable_def st r3)
  then have "restore_checkpoint E B cp2 key (e2_side e2) (e2_carrier e2) g2 now3 v0 = Err V2Schema"
    using restore_sealed[OF assms(1,2,17) ty assms(18,19)] assms(10,20) by auto
  then show ?thesis by (simp add: st e1)
qed

theorem acknowledged_checkpoint_refused_witness:
  "restore_checkpoint demo_checkpoint_env demo_verifier [40] [] SideAllocator demo_carrier 2 0 () = Err V2Schema"
proof -
  have r: "restore_checkpoint demo_checkpoint_env demo_verifier [39] [] (e2_side demo_saved_endpoint)
      (e2_carrier demo_saved_endpoint) 1 0 () =
      Ok (demo_saved_endpoint\<lparr>e2_checkpoint_generation := 1, e2_checkpoint_nonce := Some (replicate 12 1)\<rparr>,
         demo_channel SideAllocator, demo_cached)"
    using restore_sealed[OF demo_types(8,7) demo_seals(1) demo_types(1-4) _ _ demo_types(5), of 0] demo_types(6)
    by (simp add: u64_max_def) (simp add: demo_saved_endpoint_def saved_last_def demo_cached_def)
  have ack: "acknowledge_application_frame demo_cached 0 = (Ok (), demo_acknowledged)"
    by (simp add: acknowledge_application_frame_def cached_application_sequence_def last_sent_def demo_cached_def
        demo_acknowledged_def)
  have l: "e2_last demo_saved_endpoint = Some \<lparr>lo_sender = SideAllocator, lo_bytes = None, lo_kind = Offer,
      lo_intent_digest = replicate 32 4, lo_content_hash = replicate 32 5\<rparr>" by (simp add: demo_saved_endpoint_def)
  have "e2_side demo_saved_endpoint = SideAllocator" "e2_carrier demo_saved_endpoint = demo_carrier"
    by (simp_all add: demo_saved_endpoint_def)
  then show ?thesis
    using acknowledged_checkpoint_refused[OF demo_types(8,7) demo_seals(1) demo_types(1-4) _ _ _ _ l _ _ r ack demo_seals(2),
        of demo_frame 0] demo_types(5)
    by (simp add: u64_max_def demo_cached_def)
qed

end
