(* ===== verification/V2_Session_Props.thy ===== *)
theory V2_Session_Props
  imports V2_Gate V2_Checkpoint_Props
begin

text \<open>
  The write-ahead discipline of the two sessions, from the interpretations of
  \<open>persistence_gate\<close>: nothing that depends on unsaved state leaves a session before its checkpoint is
  reported as stored.
\<close>

section \<open>Sessions as they begin\<close>

lemma allocator_origin_open:
  "allocator_new E inp v = Ok s \<Longrightarrow> al_open s"
  "allocator_restore E B cp key c g d now mode sc v = Ok s \<Longrightarrow> al_open s"
  by (auto simp: allocator_new_def allocator_restore_def Let_def bind_result_Ok al_open_def split: result.splits if_splits)

lemma claimant_origin_open:
  "claimant_new E c code sc d v = Ok s \<Longrightarrow> cl_open s"
  "claimant_restore E B cp key c g now v = Ok s \<Longrightarrow> cl_open s"
  by (auto simp: claimant_new_def claimant_restore_def fresh_session_def bind_result_Ok cl_open_def split: if_splits)

lemma claimant_put_send: "claimant_put E n f = Ok x \<Longrightarrow> \<exists>m. x = CSend m"
  by (auto simp: claimant_put_def bind_result_Ok)

lemma final_approval_held:
  "prepare_final_approval E B s object key nonce now = (Ok out, s') \<Longrightarrow>
     \<exists>g cp m. out = [CCheckpoint g cp] \<and> cl_persistence_gate s' = Some g \<and> cl_after_persist s' = [CSend m]"
  by (auto simp: prepare_final_approval_def claimant_or_terminate_def bind_st_Ok Let_def dest!: claimant_put_send
      split: if_splits prod.splits)

lemma payload_held:
  "prepare_payload E B s object key nonce now = (Ok out, s') \<Longrightarrow>
     \<exists>g cp m. out = [CCheckpoint g cp] \<and> cl_persistence_gate s' = Some g \<and> cl_after_persist s' = [CSend m]"
  by (auto simp: prepare_payload_def claimant_or_terminate_def checkpoint_current_def bind_st_Ok dest!: claimant_put_send
      split: if_splits prod.splits)

section \<open>Properties\<close>

text \<open>
  C8: The allocator writes ahead. In every state it can reach from a session with an open gate (as new
  and restored sessions have), a
  successful call either returns no checkpoint and leaves its bootstrap or established state as it was
  (or ends the session), or returns exactly one checkpoint effect and nothing else. After such a checkpoint
  every call and every report of another generation fails without any effect or change, however many are
  made, until that generation is reported as stored; then exactly the held effects are released.
\<close>

theorem allocator_writes_ahead:
  assumes "al_open s0" and "gate_reach (allocator_do E B) checkpoint_persisted s0 s" and "allocator_do E B i s = (Ok out, s')"
  shows "(list_all (\<lambda>x. allocator_saves x = None) out \<and>
      (al_state s' = al_state s \<or> (al_state s = AwaitWelcome \<and> al_state s' = AwaitAllocation) \<or>
       al_state s' = AlTerminal)) \<or>
    (\<exists>g cp c. out = [ACheckpoint g cp c] \<and>
      (\<forall>evs. GPersisted g \<notin> set evs \<longrightarrow> gate_run (allocator_do E B) checkpoint_persisted evs s' = ([], s')) \<and>
      (\<exists>s''. checkpoint_persisted s' g = (Ok (al_after_persist s'), s'') \<and> al_persistence_gate s'' = None))"
proof -
  have o: "al_persistence_gate s0 = None" "al_after_persist s0 = []" using assms(1) by (simp_all add: al_open_def)
  have g: "al_persistence_gate s = None"
    using al.shut[of s _ E B i] assms(3) by (cases "al_persistence_gate s") fastforce+
  then have "al_open s" using al.reach_held[OF assms(2) o] by (simp add: al_open_def)
  then consider (kept) "al_kept s (Ok out, s')" | (saved) "al_saved (Ok out, s')"
    using allocator_do_step[of s E B i] assms(3) by metis
  then show ?thesis
  proof cases
    case kept
    then show ?thesis by (auto simp: al_kept_def)
  next
    case saved
    then obtain h cp c where x: "out = [ACheckpoint h cp c]" by (auto simp: al_saved_def)
    have "allocator_saves (ACheckpoint h cp c) = Some h" by (simp add: allocator_saves_def)
    then show ?thesis
      using al.write_ahead[OF assms(2) o assms(3), of "ACheckpoint h cp c" h] x
      by (metis empty_iff empty_set list.set_intros(1))
  qed
qed

text \<open>
  C9: The claimant's two durable frames leave only after their checkpoint. In every state reachable
  from a session with an open gate (as new and restored sessions have), a successful call that prepares the final approval or the payload returns only a checkpoint and holds
  back the one sealed frame; until that generation is reported as stored every call fails without effect,
  and the report releases exactly that frame. The unguarded path never carries those two kinds.
\<close>

theorem claimant_holds_durable_frames:
  assumes "cl_open s0" and "gate_reach (claimant_do E B V) claimant_checkpoint_persisted s0 s"
    and "claimant_do E B V i s = (Ok out, s')"
  shows "(i = CFinalApproval object key nonce now \<or> i = CPayload object key nonce now \<longrightarrow>
      (\<exists>g cp m. out = [CCheckpoint g cp] \<and>
        (\<forall>evs. GPersisted g \<notin> set evs \<longrightarrow>
          gate_run (claimant_do E B V) claimant_checkpoint_persisted evs s' = ([], s')) \<and>
        (\<exists>s''. claimant_checkpoint_persisted s' g = (Ok [CSend m], s'') \<and> cl_persistence_gate s'' = None))) \<and>
    (i = CPrepareObject object \<longrightarrow> ob_kind object \<noteq> FinalApprove \<and> ob_kind object \<noteq> Payload)"
proof -
  have "\<exists>g cp m. out = [CCheckpoint g cp] \<and>
        (\<forall>evs. GPersisted g \<notin> set evs \<longrightarrow>
          gate_run (claimant_do E B V) claimant_checkpoint_persisted evs s' = ([], s')) \<and>
        (\<exists>s''. claimant_checkpoint_persisted s' g = (Ok [CSend m], s'') \<and> cl_persistence_gate s'' = None)"
    if kind: "i = CFinalApproval object key nonce now \<or> i = CPayload object key nonce now"
  proof -
    obtain g cp m where x: "out = [CCheckpoint g cp]" "cl_persistence_gate s' = Some g" "cl_after_persist s' = [CSend m]"
      using kind assms(3) by (auto simp: claimant_do_def dest!: final_approval_held payload_held)
    then show ?thesis using cl.silent[OF x(2)] by (auto simp: claimant_checkpoint_persisted_def)
  qed
  moreover have "ob_kind object \<noteq> FinalApprove \<and> ob_kind object \<noteq> Payload" if "i = CPrepareObject object"
    using that assms(3) by (auto simp: claimant_do_def claimant_prepare_object_def)
  ultimately show ?thesis by blast
qed

section \<open>Concrete sessions\<close>

definition mixed_table :: "(cbor \<times> bytes) list" where
  "mixed_table = (client_value (Put 0 [7]), [8]) # (CText ''type'', [1]) # (CText ''seq'', [2]) # (CText ''body'', [3]) #
     demo_body_table"

text \<open>The table's values have their octets; every other value is written as one fixed octet.\<close>

definition mixed_codec :: codec where
  "mixed_codec = (table_codec mixed_table)\<lparr>cd_canonical := (\<lambda>v. Some (case map_of mixed_table v of None \<Rightarrow> [7] | Some b \<Rightarrow> b))\<rparr>"

abbreviation mixed_env :: v2_env where "mixed_env \<equiv> v2_demo_env mixed_codec"

lemma mixed_canonical: "v2_canonical mixed_env v = Ok (case map_of mixed_table v of None \<Rightarrow> [7] | Some b \<Rightarrow> b)"
  by (simp add: v2_canonical_def v2_demo_env_sel mixed_codec_def)

lemma mixed_carrier [simp]: "encode_carrier mixed_env demo_carrier = Ok [7]"
proof -
  have "recognise_application_id (vc_application_context demo_carrier) = Ok ''https://a.io''" by code_simp
  moreover have "is_ascii ''https://r.io''" by code_simp
  moreover have "map_of mixed_table (cmap (carrier_entries demo_carrier)) = None"
    by (simp add: mixed_table_def demo_body_table_def demo_body_value_def carrier_entries_def cmap_def)
  ultimately show ?thesis
    by (simp add: encode_carrier_def v2_validate_origin_def mixed_canonical) (simp add: v2_demo_env_def demo_carrier_def)
qed

lemma mixed_put [simp]: "relay_message mixed_env (Put 0 [7]) = Ok [8]"
  by (simp add: relay_message_def v2_demo_env_sel encode_client_message_def checked_bytes_def deterministic_bytes_def
      mixed_codec_def mixed_table_def table_codec_def decode_client_message_def recognise_value_def cmap_def demo_body_table_def
      demo_body_value_def field_eval u8_max_def)

lemma mixed_sealed [simp]:
  "encode_frame mixed_env (FrSealed d n ct) = (if 17 \<le> length ct \<and> length ct \<le> V2_MAX_CIPHERTEXT then Ok [7] else Err V2Size)"
proof -
  have "map_of mixed_table (cmap [(''v'', CInteger 2), (''kind'', CText ''sealed''), (''direction'', CInteger x),
      (''counter'', CInteger y), (''ciphertext'', CBytes z)]) = None" for x y z
    by (simp add: mixed_table_def demo_body_table_def demo_body_value_def cmap_def)
  then show ?thesis by (simp add: encode_frame_def frame_value_def mixed_canonical)
qed

definition demo_allocator_session :: "unit allocator_session" where
  "demo_allocator_session = \<lparr>al_template = demo_carrier, al_presence = None, al_cpace_scalar = None, al_mode = ModeFull,
     al_profile_digest = [], al_claim_commitment = [], al_wrapping_key = [], al_body_verifier = None,
     al_state = AlEstablished (v2_endpoint_new SideAllocator demo_carrier ()) (demo_channel SideAllocator)
       (relay_state_new (replicate 32 6)),
     al_persistence_gate = None, al_after_persist = [], al_resume_after_welcome = False\<rparr>"

lemma mixed_seals:
  "v2_seal mixed_env (demo_channel s) m = (Ok (FrSealed (send_direction s) 0 (m @ replicate 16 0)),
     (demo_channel s)\<lparr>sc_next_send_counter := Some 1\<rparr>)" if "m \<noteq> []" "length m \<le> 10"
  using that
  by (simp add: v2_seal_def can_seal_def demo_channel_def V2_MAX_PLAINTEXT_def v2_sealed_aad_def mixed_canonical
      v2_demo_env_sel demo_crypto_def demo_aead_def Let_def checked_add_u64_def u64_max_def)

lemma mixed_array [simp]: "map_of mixed_table (CArray vs) = None"
  by (simp add: mixed_table_def demo_body_table_def demo_body_value_def cmap_def)

lemma mixed_seal_plaintext:
  "pt \<noteq> [] \<Longrightarrow> length pt \<le> 60000 \<Longrightarrow> seal_checkpoint_plaintext mixed_env pt s c key g expiry nonce = Ok [7]"
proof -
  have key: "derive_key mixed_env s (vc_carrier_ceremony_id c) key = Ok (replicate 32 0)"
    by (simp add: derive_key_def checkpoint_key_info_def mixed_canonical) (simp add: v2_demo_env_def)
  show "pt \<noteq> [] \<Longrightarrow> length pt \<le> 60000 \<Longrightarrow> ?thesis"
    by (simp add: seal_checkpoint_plaintext_def CHECKPOINT_MAX_PLAINTEXT_def CHECKPOINT_MAX_CIPHERTEXT_def checkpoint_aad_def
        key encode_outer_def outer_value_def mixed_canonical v2_demo_env_sel demo_crypto_def demo_aead_def)
qed

lemma mixed_endpoint_octets:
  assumes "e2_carrier e = demo_carrier" and "e2_last e = Some l" and "e2_intent_digest e = Some i"
    and "lo_sender l = e2_side e" and "rs_cached_outbound r = Some (FrSealed d n (m @ replicate 16 0))"
    and "m \<noteq> []" and "length m \<le> 10" and "length nonce = 12" and "length i = 32" and "length (lo_intent_digest l) = 32"
    and "length (lo_content_hash l) = 32" and "length (rs_membership_token r) = 32" and "channel_typed ch"
  shows "\<exists>pt. endpoint_octets mixed_env demo_verifier e ch r g nonce = Ok pt \<and> pt \<noteq> [] \<and> length pt \<le> 60000"
proof -
  have len: "length (counter_octets c) \<le> 9" for c by (cases c) (simp_all add: counter_octets_def octet_def)
  have "17 \<le> length (m @ replicate 16 0)" "length (m @ replicate 16 0) \<le> V2_MAX_CIPHERTEXT"
    using assms(6,7) by (cases m; simp add: V2_MAX_CIPHERTEXT_def)+
  then have "encode_frame mixed_env (FrSealed d n (m @ replicate 16 0)) = Ok [7]" by simp
  then show ?thesis
    using assms len[of "sc_next_send_counter ch"] len[of "sc_next_receive_counter ch"]
    by (simp add: endpoint_octets_def prefixed_bytes_def try_into_def u32_max_def optional_octets_def last_octets_def Let_def
        demo_verifier_def default_checkpoint_state_def relay_octets_def frame_octets_def ENDPOINT_INNER_DOMAIN_def ascii_def
        side_octet_def octet_def channel_octets_def channel_typed_def)
qed

lemma mixed_checkpoint:
  assumes "sc_local_side ch = e2_side e"
    and "validate_checkpoint_phase (e2_side e) (e2_phase e) (receipt_released e) expiry (vc_relay_expires_at (e2_carrier e)) 0 = Ok ()"
    and "e2_checkpoint_generation e = 0" and "e2_checkpoint_nonce e = None"
    and "\<exists>pt. endpoint_octets mixed_env demo_verifier e ch r 1 (replicate 12 1) = Ok pt \<and> pt \<noteq> [] \<and> length pt \<le> 60000"
  shows "seal_checkpoint mixed_env demo_verifier e ch r key 1 expiry (replicate 12 1) 0 =
    (Ok [7], e\<lparr>e2_checkpoint_generation := 1, e2_checkpoint_nonce := Some (replicate 12 1)\<rparr>)"
  unfolding seal_checkpoint_Ok
  using assms mixed_seal_plaintext by (auto simp: generation_refused_def saturating_add_u64_def u64_max_def)

theorem allocator_writes_ahead_witness:
  "\<exists>s'. allocator_do mixed_env demo_verifier (APrepare demo_offer 0 (replicate 12 1)) demo_allocator_session =
      (Ok [ACheckpoint 1 [7] [7]], s') \<and>
    gate_run (allocator_do mixed_env demo_verifier) checkpoint_persisted
      [GCall (APrepare demo_offer 0 (replicate 12 1)), GPersisted 2] s' = ([], s')"
proof -
  let ?e = "v2_endpoint_new SideAllocator demo_carrier ()" and ?r = "relay_state_new (replicate 32 6)"
  let ?f = "FrSealed AllocatorToClaimant 0 ([1] @ replicate 16 0)"
  define e1 where "e1 = accept (?e\<lparr>e2_intent_digest := Some (ob_intent_digest demo_offer)\<rparr>) demo_offer SideAllocator PhOffered"
  define r1 where "r1 = ?r\<lparr>rs_next_local_sequence := 1, rs_cached_outbound := Some ?f, rs_awaiting_ack := True\<rparr>"
  define ch1 where "ch1 = (demo_channel SideAllocator)\<lparr>sc_next_send_counter := Some 1\<rparr>"
  have send: "endpoint_send mixed_env demo_verifier ?e demo_offer = (Ok Advanced, e1)"
    by (simp add: endpoint_send_def apply_object_def exact_retransmission_def v2_endpoint_new_def demo_offer_def
        apply_offer_def pre_offer_def e1_def)
  have sealed: "v2_seal mixed_env (demo_channel SideAllocator) [1] = (Ok ?f, ch1)"
    using mixed_seals[of "[1]" SideAllocator] by (simp add: send_direction_def ch1_def)
  have cache: "cache_application_frame ?r ?f = (Ok (), r1)"
    by (simp add: cache_application_frame_def relay_state_new_def next_u8_def try_into_def u8_max_def sealed_of_def r1_def)
  have out: "prepare_outbound mixed_env demo_verifier ?e demo_offer (demo_channel SideAllocator) ?r = (Ok ?f, e1, ch1, r1)"
    using send sealed cache
    by (simp add: prepare_outbound_def demo_channel_def v2_endpoint_new_def relay_state_new_def can_seal_def demo_offer_def
        V2_MAX_PLAINTEXT_def)
  have cp: "seal_checkpoint mixed_env demo_verifier e1 ch1 r1 [] 1 (Some 9) (replicate 12 1) 0 =
      (Ok [7], e1\<lparr>e2_checkpoint_generation := 1, e2_checkpoint_nonce := Some (replicate 12 1)\<rparr>)"
  proof (rule mixed_checkpoint)
    show "\<exists>pt. endpoint_octets mixed_env demo_verifier e1 ch1 r1 1 (replicate 12 1) = Ok pt \<and> pt \<noteq> [] \<and> length pt \<le> 60000"
      by (rule mixed_endpoint_octets) (auto simp: e1_def r1_def ch1_def accept_def v2_endpoint_new_def demo_offer_def
          relay_state_new_def channel_typed_def demo_channel_def counter_typed_def counter_at_def u64_max_def)
  qed (simp_all add: e1_def ch1_def accept_def v2_endpoint_new_def demo_channel_def validate_checkpoint_phase_def
      live_expiry_def demo_carrier_def demo_offer_def)
  have gen: "e2_checkpoint_generation e1 = 0" "e2_carrier e1 = demo_carrier" "vc_relay_expires_at demo_carrier = 9"
    by (simp_all add: e1_def accept_def v2_endpoint_new_def demo_carrier_def demo_offer_def)
  have seq: "cached_application_sequence r1 = Ok 0"
    by (simp add: cached_application_sequence_def r1_def last_sent_def)
  obtain s' where step: "allocator_do mixed_env demo_verifier (APrepare demo_offer 0 (replicate 12 1)) demo_allocator_session =
      (Ok [ACheckpoint 1 [7] [7]], s')"
    using out cp gen seq
    by (simp add: allocator_do_def prepare_application_object_def prepare_application_inner_def demo_allocator_session_def
        put_message_def V2_MAX_CIPHERTEXT_def checkpoint_established_def allocator_gate_def or_terminate_def
        saturating_add_u64_def u64_max_def)
  have o: "al_open demo_allocator_session" by (simp add: al_open_def demo_allocator_session_def)
  have silent: "\<forall>evs. GPersisted 1 \<notin> set evs \<longrightarrow>
      gate_run (allocator_do mixed_env demo_verifier) checkpoint_persisted evs s' = ([], s')"
    using allocator_writes_ahead[OF o gate_reach.start step] by (auto simp: allocator_saves_def)
  have "gate_run (allocator_do mixed_env demo_verifier) checkpoint_persisted
      [GCall (APrepare demo_offer 0 (replicate 12 1)), GPersisted 2] s' = ([], s')"
    by (rule silent[rule_format]) simp
  then show ?thesis using step by blast
qed

definition demo_final :: v2_object where
  "demo_final = \<lparr>ob_kind = FinalApprove, ob_intent_digest = replicate 32 4, ob_body = [60], ob_bytes = [2],
     ob_content_hash = replicate 32 6\<rparr>"

definition demo_confirmed :: "unit v2_endpoint" where
  "demo_confirmed = (v2_endpoint_new SideClaimant demo_carrier ())\<lparr>e2_phase := PhConfirmed,
     e2_intent_digest := Some (replicate 32 4),
     e2_last := Some \<lparr>lo_sender = SideAllocator, lo_bytes = Some [1], lo_kind = BindingConfirmed,
       lo_intent_digest = replicate 32 4, lo_content_hash = replicate 32 5\<rparr>\<rparr>"

definition demo_claimant_session :: "(unit, unit) claimant_session" where
  "demo_claimant_session = (fresh_session demo_carrier)\<lparr>cl_phase := ClEstablished,
     cl_relay := Some (relay_state_new (replicate 32 6)), cl_endpoint := Some demo_confirmed,
     cl_channel := Some (demo_channel SideClaimant)\<rparr>"

definition demo_offer_verifier :: "(unit, unit) offer_verifier" where
  "demo_offer_verifier = (\<lambda>v e x now. (Err V2Phase, e, v))"

lemma demo_final_body:
  "recognise_logical_body mixed_env demo_final =
     Ok \<lparr>lb_kind = FinalApprove, lb_carrier_ceremony_id = replicate 32 2, lb_predecessor_digest = replicate 32 5,
         lb_bytes = [60]\<rparr>"
  by (simp add: recognise_logical_body_def demo_final_def decode_canonical_def v2_demo_env_sel mixed_codec_def table_codec_def
      mixed_table_def demo_body_table_def demo_body_value_def contains_duplicate_map_key_def cmap_def v2_reads)

theorem claimant_holds_durable_frames_witness:
  "\<exists>s' m s''. claimant_do mixed_env demo_verifier demo_offer_verifier (CFinalApproval demo_final [] (replicate 12 1) 0)
      demo_claimant_session = (Ok [CCheckpoint 1 [7]], s') \<and>
    claimant_checkpoint_persisted s' 1 = (Ok [CSend m], s'') \<and> cl_persistence_gate s'' = None"
proof -
  let ?i = "CFinalApproval demo_final [] (replicate 12 1) 0" and ?r = "relay_state_new (replicate 32 6)"
  let ?f = "FrSealed ClaimantToAllocator 0 ([2] @ replicate 16 0)"
  define e1 where "e1 = accept demo_confirmed demo_final SideClaimant PhFinalApproved"
  define r1 where "r1 = ?r\<lparr>rs_next_local_sequence := 1, rs_cached_outbound := Some ?f, rs_awaiting_ack := True\<rparr>"
  define ch1 where "ch1 = (demo_channel SideClaimant)\<lparr>sc_next_send_counter := Some 1\<rparr>"
  have send: "endpoint_send mixed_env demo_verifier demo_confirmed demo_final = (Ok Advanced, e1)"
    using demo_final_body
    by (simp add: endpoint_send_def apply_object_def exact_retransmission_def demo_confirmed_def v2_endpoint_new_def
        demo_final_def apply_successor_def next_phase_def demo_verifier_def demo_carrier_def e1_def)
  have sealed: "v2_seal mixed_env (demo_channel SideClaimant) [2] = (Ok ?f, ch1)"
    using mixed_seals[of "[2]" SideClaimant] by (simp add: send_direction_def ch1_def)
  have cache: "cache_application_frame ?r ?f = (Ok (), r1)"
    by (simp add: cache_application_frame_def relay_state_new_def next_u8_def try_into_def u8_max_def sealed_of_def r1_def)
  have out: "prepare_outbound mixed_env demo_verifier demo_confirmed demo_final (demo_channel SideClaimant) ?r =
      (Ok ?f, e1, ch1, r1)"
    using send sealed cache
    by (simp add: prepare_outbound_def demo_channel_def demo_confirmed_def v2_endpoint_new_def relay_state_new_def can_seal_def
        demo_final_def V2_MAX_PLAINTEXT_def)
  have cp: "seal_checkpoint mixed_env demo_verifier e1 ch1 r1 [] 1 (Some 9) (replicate 12 1) 0 =
      (Ok [7], e1\<lparr>e2_checkpoint_generation := 1, e2_checkpoint_nonce := Some (replicate 12 1)\<rparr>)"
  proof (rule mixed_checkpoint)
    show "\<exists>pt. endpoint_octets mixed_env demo_verifier e1 ch1 r1 1 (replicate 12 1) = Ok pt \<and> pt \<noteq> [] \<and> length pt \<le> 60000"
      by (rule mixed_endpoint_octets) (auto simp: e1_def r1_def ch1_def accept_def demo_confirmed_def v2_endpoint_new_def
          demo_final_def relay_state_new_def channel_typed_def demo_channel_def counter_typed_def counter_at_def u64_max_def)
  qed (simp_all add: e1_def ch1_def accept_def demo_confirmed_def v2_endpoint_new_def demo_channel_def
      validate_checkpoint_phase_def live_expiry_def demo_carrier_def demo_final_def)
  have gen: "e2_checkpoint_generation e1 = 0" "vc_relay_expires_at demo_carrier = 9"
    by (simp_all add: e1_def accept_def demo_confirmed_def v2_endpoint_new_def demo_carrier_def demo_final_def)
  have seq: "cached_application_sequence r1 = Ok 0"
    by (simp add: cached_application_sequence_def r1_def last_sent_def)
  obtain s' where step: "claimant_do mixed_env demo_verifier demo_offer_verifier ?i demo_claimant_session =
      (Ok [CCheckpoint 1 [7]], s')"
    using out cp gen seq
    by (simp add: claimant_do_def prepare_final_approval_def demo_claimant_session_def fresh_session_def claimant_outbound_def
        claimant_seal_def claimant_put_def V2_MAX_CIPHERTEXT_def claimant_or_terminate_def demo_final_def
        saturating_add_u64_def u64_max_def)
  have o: "cl_open demo_claimant_session" by (simp add: cl_open_def demo_claimant_session_def fresh_session_def)
  have "\<exists>m s''. claimant_checkpoint_persisted s' 1 = (Ok [CSend m], s'') \<and> cl_persistence_gate s'' = None"
    using claimant_holds_durable_frames[OF o gate_reach.start step, of demo_final "[]" "replicate 12 1" 0] by auto
  then show ?thesis using step by blast
qed

end
