(* ===== verification/File_System.thy ===== *)
theory File_System
  imports Wire_Props "HOL-Library.AList" "HOL-Library.Sublist"
begin

text \<open>
  The part of \<^verbatim>\<open>std::fs\<close> that the directory store of \<^verbatim>\<open>src/src/storage.rs\<close> uses, over one
  directory. An image keeps the files by inode, the directory as system calls see it, the
  directory as it was last made durable, and the entry changes made since then. Each system
  call may fail, as a function of the calls made so far; the images a run passes through are
  remembered, so that a power loss at any moment can be considered.

  \<^item> A file whose data were not synchronised holds arbitrary data after a power loss.
  \<^item> Of the entry changes since the last synchronisation of the directory any subsequence may
    have reached the disk; one change, a rename included, reaches it wholly or not at all.
\<close>

section \<open>Images\<close>

type_synonym inode = nat

record stored_file =
  fl_data :: bytes
  fl_mode :: nat
  fl_synced :: bool

datatype dir_op = DirLink string inode | DirUnlink string | DirRename string string inode

type_synonym directory = "(string \<times> inode) list"

record fs_image =
  im_files :: "stored_file list"
  im_names :: directory
  im_disk :: directory
  im_pending :: "dir_op list"
  im_mode :: nat

fun apply_op :: "dir_op \<Rightarrow> directory \<Rightarrow> directory" where
  "apply_op (DirLink n i) d = AList.update n i d"
| "apply_op (DirUnlink n) d = AList.delete n d"
| "apply_op (DirRename a b i) d = AList.update b i (AList.delete a d)"

definition replay :: "dir_op list \<Rightarrow> directory \<Rightarrow> directory" where
  "replay ops d = fold apply_op ops d"

text \<open>A change of the directory is seen at once and is pending until the next synchronisation.\<close>

definition dir_change :: "dir_op \<Rightarrow> fs_image \<Rightarrow> fs_image" where
  "dir_change op im =
     im\<lparr>im_names := apply_op op (im_names im), im_pending := im_pending im @ [op]\<rparr>"

text \<open>What may be found after a power loss.\<close>

definition survives :: "stored_file \<Rightarrow> stored_file \<Rightarrow> bool" where
  "survives f f' \<longleftrightarrow> fl_synced f' \<and> (fl_synced f \<longrightarrow> fl_data f' = fl_data f)"

definition crash :: "fs_image \<Rightarrow> fs_image \<Rightarrow> bool" where
  "crash im im' \<longleftrightarrow>
     (\<exists>ops. subseq ops (im_pending im) \<and> im_names im' = replay ops (im_disk im)) \<and>
     im_disk im' = im_names im' \<and> im_pending im' = [] \<and>
     list_all2 survives (im_files im) (im_files im')"

section \<open>System calls\<close>

datatype io_error = NotFound | AlreadyExists | OtherIo

datatype syscall =
  CreateDir | SetPermissions | CreateNew | WriteAll | SyncFile | Rename | OpenDir | SyncDir
| Unlink | ReadDir | ReadEntry | ReadFile

text \<open>
  \<open>fs_faults n c\<close> tells whether call number \<open>n\<close>, a \<open>c\<close>, fails; the number it carries is how
  many octets a failing write had written.
\<close>

record fs =
  fs_now :: fs_image
  fs_seen :: "fs_image list"
  fs_clock :: nat
  fs_faults :: "nat \<Rightarrow> syscall \<Rightarrow> nat option"

type_synonym 'a fs_result = "('a, io_error) result \<times> fs"

definition sys_call ::
  "syscall \<Rightarrow> (nat \<Rightarrow> fs_image \<Rightarrow> fs_image) \<Rightarrow> (fs_image \<Rightarrow> ('a, io_error) result \<times> fs_image) \<Rightarrow>
     fs \<Rightarrow> 'a fs_result" where
  "sys_call c partial f s =
     (let im = fs_now s;
          s1 = s\<lparr>fs_seen := fs_seen s @ [im], fs_clock := Suc (fs_clock s)\<rparr>
      in case fs_faults s (fs_clock s) c of
           Some k \<Rightarrow> (Err OtherIo, s1\<lparr>fs_now := partial k im\<rparr>)
         | None \<Rightarrow> (fst (f im), s1\<lparr>fs_now := snd (f im)\<rparr>))"

abbreviation no_effect :: "nat \<Rightarrow> fs_image \<Rightarrow> fs_image" where
  "no_effect k im \<equiv> im"

text \<open>The mode of a new file before \<^verbatim>\<open>set_permissions\<close>: 0o666 less the usual umask.\<close>

definition new_file :: stored_file where
  "new_file = \<lparr>fl_data = [], fl_mode = 0x1A4, fl_synced = False\<rparr>"

definition sys_create_new :: "string \<Rightarrow> fs \<Rightarrow> inode fs_result" where
  "sys_create_new name = sys_call CreateNew no_effect (\<lambda>im.
     case map_of (im_names im) name of
       Some _ \<Rightarrow> (Err AlreadyExists, im)
     | None \<Rightarrow>
         let i = length (im_files im)
         in (Ok i, dir_change (DirLink name i) (im\<lparr>im_files := im_files im @ [new_file]\<rparr>)))"

definition update_file :: "inode \<Rightarrow> (stored_file \<Rightarrow> stored_file) \<Rightarrow> fs_image \<Rightarrow> fs_image" where
  "update_file i g im = im\<lparr>im_files := (im_files im)[i := g (im_files im ! i)]\<rparr>"

definition sys_set_permissions :: "inode \<Rightarrow> nat \<Rightarrow> fs \<Rightarrow> unit fs_result" where
  "sys_set_permissions i mode = sys_call SetPermissions no_effect (\<lambda>im.
     (Ok (), update_file i (\<lambda>f. f\<lparr>fl_mode := mode\<rparr>) im))"

definition append_data :: "bytes \<Rightarrow> stored_file \<Rightarrow> stored_file" where
  "append_data bs f = f\<lparr>fl_data := fl_data f @ bs, fl_synced := False\<rparr>"

definition sys_write_all :: "inode \<Rightarrow> bytes \<Rightarrow> fs \<Rightarrow> unit fs_result" where
  "sys_write_all i bs = sys_call WriteAll (\<lambda>k. update_file i (append_data (take k bs))) (\<lambda>im.
     (Ok (), update_file i (append_data bs) im))"

definition sys_sync_file :: "inode \<Rightarrow> fs \<Rightarrow> unit fs_result" where
  "sys_sync_file i = sys_call SyncFile no_effect (\<lambda>im.
     (Ok (), update_file i (\<lambda>f. f\<lparr>fl_synced := True\<rparr>) im))"

definition sys_rename :: "string \<Rightarrow> string \<Rightarrow> fs \<Rightarrow> unit fs_result" where
  "sys_rename a b = sys_call Rename no_effect (\<lambda>im.
     case map_of (im_names im) a of
       None \<Rightarrow> (Err NotFound, im)
     | Some i \<Rightarrow> (Ok (), dir_change (DirRename a b i) im))"

definition sys_unlink :: "string \<Rightarrow> fs \<Rightarrow> unit fs_result" where
  "sys_unlink name = sys_call Unlink no_effect (\<lambda>im.
     case map_of (im_names im) name of
       None \<Rightarrow> (Err NotFound, im)
     | Some _ \<Rightarrow> (Ok (), dir_change (DirUnlink name) im))"

definition sys_open_dir :: "fs \<Rightarrow> unit fs_result" where
  "sys_open_dir = sys_call OpenDir no_effect (\<lambda>im. (Ok (), im))"

definition sync_image :: "fs_image \<Rightarrow> fs_image" where
  "sync_image im = im\<lparr>im_disk := im_names im, im_pending := []\<rparr>"

definition sys_sync_dir :: "fs \<Rightarrow> unit fs_result" where
  "sys_sync_dir = sys_call SyncDir no_effect (\<lambda>im. (Ok (), sync_image im))"

definition sys_create_dir_all :: "fs \<Rightarrow> unit fs_result" where
  "sys_create_dir_all = sys_call CreateDir no_effect (\<lambda>im. (Ok (), im))"

definition sys_set_dir_permissions :: "nat \<Rightarrow> fs \<Rightarrow> unit fs_result" where
  "sys_set_dir_permissions mode = sys_call SetPermissions no_effect (\<lambda>im.
     (Ok (), im\<lparr>im_mode := mode\<rparr>))"

text \<open>The order of the listing is the arbitrary order of the entries.\<close>

definition sys_read_dir :: "fs \<Rightarrow> string list fs_result" where
  "sys_read_dir = sys_call ReadDir no_effect (\<lambda>im. (Ok (map fst (im_names im)), im))"

definition sys_read_entry :: "fs \<Rightarrow> unit fs_result" where
  "sys_read_entry = sys_call ReadEntry no_effect (\<lambda>im. (Ok (), im))"

definition sys_read :: "string \<Rightarrow> fs \<Rightarrow> bytes fs_result" where
  "sys_read name = sys_call ReadFile no_effect (\<lambda>im.
     case map_of (im_names im) name of
       None \<Rightarrow> (Err NotFound, im)
     | Some i \<Rightarrow> (Ok (fl_data (im_files im ! i)), im))"

section \<open>Runs of system calls\<close>

text \<open>
  \<open>run_ok J Q E s p\<close>: every image from \<open>s\<close> on, the last one included, satisfies \<open>J\<close>; a
  result satisfies \<open>Q\<close> and a failure \<open>E\<close>.
\<close>

definition run_ok ::
  "(fs_image \<Rightarrow> bool) \<Rightarrow> ('a \<Rightarrow> fs \<Rightarrow> bool) \<Rightarrow> (fs \<Rightarrow> bool) \<Rightarrow> fs \<Rightarrow> ('a, 'e) result \<times> fs \<Rightarrow> bool" where
  "run_ok J Q E s p \<longleftrightarrow>
     (\<exists>new. fs_seen (snd p) = fs_seen s @ new \<and> list_all J new) \<and> J (fs_now (snd p)) \<and>
     fs_faults (snd p) = fs_faults s \<and>
     (case fst p of Ok v \<Rightarrow> Q v (snd p) | Err _ \<Rightarrow> E (snd p) | Panic \<Rightarrow> False)"

lemma run_ok_bind:
  assumes "run_ok J Q E s p" and "\<And>v s1. fs_faults s1 = fs_faults s \<Longrightarrow> Q v s1 \<Longrightarrow> run_ok J R E s1 (f v s1)"
  shows "run_ok J R E s (bind_st p f)"
proof (cases p)
  case (Pair r s1)
  show ?thesis
  proof (cases r)
    case (Ok v)
    then show ?thesis using assms(1) assms(2)[of s1 v]
      by (auto simp: run_ok_def Pair)
  qed (use assms(1) in \<open>auto simp: run_ok_def Pair\<close>)
qed

lemma run_ok_weaken:
  assumes "run_ok J Q E s p" and "\<And>v s1. fs_faults s1 = fs_faults s \<Longrightarrow> Q v s1 \<Longrightarrow> Q' v s1"
    and "\<And>s1. fs_faults s1 = fs_faults s \<Longrightarrow> E s1 \<Longrightarrow> E' s1"
  shows "run_ok J Q' E' s p"
  using assms by (auto simp: run_ok_def split: result.splits)

lemma run_ok_return:
  "J (fs_now s) \<Longrightarrow> Q v s \<Longrightarrow> run_ok J Q E s (Ok v, s)"
  by (simp add: run_ok_def)

text \<open>One call: its effect, complete or partial, is judged on images.\<close>

lemma run_ok_call:
  assumes "J (fs_now s)"
    and "\<And>k s1. fs_faults s (fs_clock s) c = Some k \<Longrightarrow> fs_faults s1 = fs_faults s \<Longrightarrow>
      fs_now s1 = partial k (fs_now s) \<Longrightarrow> J (fs_now s1) \<and> E s1"
    and "\<And>v s1. fst (f (fs_now s)) = Ok v \<Longrightarrow> fs_faults s1 = fs_faults s \<Longrightarrow>
      fs_now s1 = snd (f (fs_now s)) \<Longrightarrow> J (fs_now s1) \<and> Q v s1"
    and "\<And>e s1. fst (f (fs_now s)) = Err e \<Longrightarrow> fs_faults s1 = fs_faults s \<Longrightarrow>
      fs_now s1 = snd (f (fs_now s)) \<Longrightarrow> J (fs_now s1) \<and> E s1"
    and "fst (f (fs_now s)) \<noteq> Panic"
  shows "run_ok J Q E s (sys_call c partial f s)"
proof -
  define s1 where "s1 = snd (sys_call c partial f s)"
  show ?thesis
  proof (cases "fs_faults s (fs_clock s) c")
    case None
    then have s1: "fs_faults s1 = fs_faults s" "fs_now s1 = snd (f (fs_now s))"
      "fs_seen s1 = fs_seen s @ [fs_now s]" "sys_call c partial f s = (fst (f (fs_now s)), s1)"
      by (simp_all add: s1_def sys_call_def Let_def)
    then show ?thesis
      using assms(1,5) assms(3)[OF _ s1(1,2)] assms(4)[OF _ s1(1,2)]
      by (cases "fst (f (fs_now s))") (simp_all add: run_ok_def)
  next
    case (Some k)
    then have s1: "fs_faults s1 = fs_faults s" "fs_now s1 = partial k (fs_now s)"
      "fs_seen s1 = fs_seen s @ [fs_now s]" "sys_call c partial f s = (Err OtherIo, s1)"
      by (simp_all add: s1_def sys_call_def Let_def)
    then show ?thesis using assms(1) assms(2)[OF Some s1(1,2)] by (simp add: run_ok_def)
  qed
qed

end
