(* ===== verification/File_Store.thy ===== *)
theory File_Store
  imports Storage_Props File_System Profile
begin

text \<open>
  \<^verbatim>\<open>FileMailboxStore\<close> of \<^verbatim>\<open>src/src/storage.rs\<close>: one file per mailbox in a private directory,
  written to a temporary file, synchronised and renamed over the record. The path of the
  directory is left out: names are relative to it, and \<^verbatim>\<open>std::process::id\<close> is the argument
  \<open>pid\<close>.
\<close>

fun store_io :: "('a, io_error) result \<times> fs \<Rightarrow> ('a, store_error) result \<times> fs" where
  "store_io (r, s) = (map_err (\<lambda>_. StoreIo) r, s)"

definition file_open :: "fs \<Rightarrow> (unit, store_error) result \<times> fs" where
  "file_open s =
     bind_st (store_io (sys_create_dir_all s)) (\<lambda>_ s1.
       store_io (sys_set_dir_permissions 0x1C0 s1))"

definition temporary_name :: "bytes \<Rightarrow> u32 \<Rightarrow> string" where
  "temporary_name mailbox_id pid = ''.'' @ lower_hex mailbox_id @ ''.'' @ decimal pid @ ''.tmp''"

definition sync_directory :: "fs \<Rightarrow> (unit, store_error) result \<times> fs" where
  "sync_directory s = bind_st (store_io (sys_open_dir s)) (\<lambda>_ s1. store_io (sys_sync_dir s1))"

text \<open>\<^verbatim>\<open>Path::extension\<close> of a file name: what follows the last dot, unless that dot is first.\<close>

definition rsplit_at :: "char \<Rightarrow> string \<Rightarrow> (string \<times> string) option" where
  "rsplit_at sep s = map_option (\<lambda>(a, b). (rev b, rev a)) (split_once sep (rev s))"

definition path_extension :: "string \<Rightarrow> string option" where
  "path_extension name =
     (if name = ''..'' then None
      else case rsplit_at (CHR ''.'') name of
        None \<Rightarrow> None
      | Some (before, after) \<Rightarrow> if before = [] then None else Some after)"

fun load_entries ::
  "codec \<Rightarrow> (bytes \<Rightarrow> bytes) \<Rightarrow> string list \<Rightarrow> mailbox list \<Rightarrow> fs \<Rightarrow>
     (mailbox list, store_error) result \<times> fs" where
  "load_entries C sha256 [] found s = (Ok found, s)"
| "load_entries C sha256 (name # rest) found s =
     bind_st (store_io (sys_read_entry s)) (\<lambda>_ s1.
       if is_store_temporary name then
         bind_st (store_io (sys_unlink name s1)) (\<lambda>_ s2.
         bind_st (sync_directory s2) (\<lambda>_ s3. load_entries C sha256 rest found s3))
       else if path_extension name \<noteq> Some ''cbor'' then load_entries C sha256 rest found s1
       else
         bind_st (store_io (sys_read name s1)) (\<lambda>octets s2.
         bind_st (store_decode C sha256 octets, s2) (\<lambda>mb s3.
           if name \<noteq> record_name (mb_mailbox_id mb) then (Err StoreMalformed, s3)
           else load_entries C sha256 rest (found @ [mb]) s3)))"

definition file_load ::
  "codec \<Rightarrow> (bytes \<Rightarrow> bytes) \<Rightarrow> fs \<Rightarrow> (mailbox list, store_error) result \<times> fs" where
  "file_load C sha256 s =
     bind_st (store_io (sys_read_dir s)) (\<lambda>names s1.
     bind_st (load_entries C sha256 names [] s1) (\<lambda>found s2.
       (Ok (sort_key mb_mailbox_id found), s2)))"

text \<open>The closure of \<^verbatim>\<open>put\<close>, up to the rename and the synchronisation of the directory.\<close>

definition replace_record :: "string \<Rightarrow> string \<Rightarrow> bytes \<Rightarrow> fs \<Rightarrow> (unit, store_error) result \<times> fs" where
  "replace_record temporary target octets s =
     bind_st (store_io (sys_create_new temporary s)) (\<lambda>i s1.
     bind_st (store_io (sys_set_permissions i 0x180 s1)) (\<lambda>_ s2.
     bind_st (store_io (sys_write_all i octets s2)) (\<lambda>_ s3.
     bind_st (store_io (sys_sync_file i s3)) (\<lambda>_ s4.
     bind_st (store_io (sys_rename temporary target s4)) (\<lambda>_ s5.
       sync_directory s5)))))"

definition file_put :: "codec \<Rightarrow> u32 \<Rightarrow> fs \<Rightarrow> mailbox \<Rightarrow> (unit, store_error) result \<times> fs" where
  "file_put C pid s mb =
     (let sn = snapshot mb;
          target = record_name (sn_mailbox_id sn);
          temporary = temporary_name (sn_mailbox_id sn) pid
      in bind_st (store_encode C sn, s) (\<lambda>octets s1.
           let (res, s2) = replace_record temporary target octets s1
           in if is_ok res then (res, s2) else (res, snd (sys_unlink temporary s2))))"

definition file_remove :: "fs \<Rightarrow> bytes \<Rightarrow> (unit, store_error) result \<times> fs" where
  "file_remove s mailbox_id =
     (case sys_unlink (record_name mailbox_id) s of
        (Ok _, s1) \<Rightarrow> sync_directory s1
      | (Err e, s1) \<Rightarrow> if e = NotFound then (Ok (), s1) else (Err StoreIo, s1)
      | (Panic, s1) \<Rightarrow> (Panic, s1))"

definition file_ops :: "codec \<Rightarrow> (bytes \<Rightarrow> bytes) \<Rightarrow> u32 \<Rightarrow> fs store_ops" where
  "file_ops C sha256 pid =
     \<lparr>st_load = file_load C sha256, st_put = file_put C pid, st_remove = file_remove\<rparr>"

end
