(* ===== verification/File_Records.thy ===== *)
theory File_Records
  imports File_Store
begin

text \<open>
  The records a directory holds, now and after a power loss, the invariant of the directory, and
  what each change of the file system does to them.
\<close>

section \<open>Names\<close>

lemma rsplit_at_part: "sep \<notin> set b \<Longrightarrow> rsplit_at sep (a @ sep # b) = Some (a, b)"
  by (simp add: rsplit_at_def split_once_part)

lemma path_extension_part:
  assumes "CHR ''.'' \<notin> set b" and "a \<noteq> []" and "b \<noteq> []"
  shows "path_extension (a @ CHR ''.'' # b) = Some b"
proof -
  have "a @ CHR ''.'' # b \<noteq> ''..''" using assms by (cases a; cases b) auto
  then show ?thesis using assms by (simp add: path_extension_def rsplit_at_part)
qed

lemma record_extension [simp]: "mid \<noteq> [] \<Longrightarrow> path_extension (record_name mid) = Some ''cbor''"
proof -
  assume "mid \<noteq> []"
  then have "lower_hex mid \<noteq> []" using length_lower_hex[of mid] by auto
  then show ?thesis unfolding record_name_def using path_extension_part[of "''cbor''" "lower_hex mid"] by simp
qed

lemma temporary_extension [simp]: "path_extension (temporary_name mid pid) = Some ''tmp''"
  using path_extension_part[of "''tmp''" "''.'' @ lower_hex mid @ ''.'' @ decimal pid"]
  by (simp add: temporary_name_def)

lemma record_name_inject: "record_name a = record_name b \<longleftrightarrow> a = b"
  by (simp add: record_name_def lower_hex_inject)

lemma record_not_temporary: "\<not> is_store_temporary (record_name a)"
  using store_names by blast

section \<open>The records of a directory\<close>

definition record_at :: "codec \<Rightarrow> (bytes \<Rightarrow> bytes) \<Rightarrow> stored_file list \<Rightarrow> string \<Rightarrow> inode \<Rightarrow> bool" where
  "record_at C sha256 files n i \<longleftrightarrow>
     fl_synced (files ! i) \<and>
     (case store_decode C sha256 (fl_data (files ! i)) of
        Ok mb \<Rightarrow> n = record_name (mb_mailbox_id mb) | _ \<Rightarrow> False)"

definition dir_entry_ok :: "codec \<Rightarrow> (bytes \<Rightarrow> bytes) \<Rightarrow> stored_file list \<Rightarrow> string \<Rightarrow> inode \<Rightarrow> bool" where
  "dir_entry_ok C sha256 files n i \<longleftrightarrow>
     i < length files \<and> (path_extension n = Some ''cbor'' \<longrightarrow> record_at C sha256 files n i)"

fun op_ok :: "codec \<Rightarrow> (bytes \<Rightarrow> bytes) \<Rightarrow> stored_file list \<Rightarrow> dir_op \<Rightarrow> bool" where
  "op_ok C sha256 files (DirLink n i) = dir_entry_ok C sha256 files n i"
| "op_ok C sha256 files (DirUnlink n) = True"
| "op_ok C sha256 files (DirRename a b i) = dir_entry_ok C sha256 files b i"

definition dir_ok :: "codec \<Rightarrow> (bytes \<Rightarrow> bytes) \<Rightarrow> stored_file list \<Rightarrow> directory \<Rightarrow> bool" where
  "dir_ok C sha256 files d \<longleftrightarrow>
     distinct (map fst d) \<and> (\<forall>(n, i) \<in> set d. dir_entry_ok C sha256 files n i)"

text \<open>
  The invariant of the directory: whatever has reached the disk or may still reach it, every
  record file is synchronised and holds the record its name says.
\<close>

definition image_ok :: "codec \<Rightarrow> (bytes \<Rightarrow> bytes) \<Rightarrow> fs_image \<Rightarrow> bool" where
  "image_ok C sha256 im \<longleftrightarrow>
     dir_ok C sha256 (im_files im) (im_disk im) \<and>
     list_all (op_ok C sha256 (im_files im)) (im_pending im) \<and>
     im_names im = replay (im_pending im) (im_disk im)"

definition view :: "codec \<Rightarrow> (bytes \<Rightarrow> bytes) \<Rightarrow> stored_file list \<Rightarrow> directory \<Rightarrow> bytes \<Rightarrow> mailbox option" where
  "view C sha256 files d mid =
     (if mid = [] then None
      else case map_of d (record_name mid) of
        None \<Rightarrow> None
      | Some i \<Rightarrow> (case store_decode C sha256 (fl_data (files ! i)) of Ok mb \<Rightarrow> Some mb | _ \<Rightarrow> None))"

definition image_records :: "codec \<Rightarrow> (bytes \<Rightarrow> bytes) \<Rightarrow> fs_image \<Rightarrow> bytes \<Rightarrow> mailbox option" where
  "image_records C sha256 im = view C sha256 (im_files im) (im_names im)"

text \<open>The records that may be found after a power loss.\<close>

definition crash_records :: "codec \<Rightarrow> (bytes \<Rightarrow> bytes) \<Rightarrow> fs_image \<Rightarrow> (bytes \<Rightarrow> mailbox option) set" where
  "crash_records C sha256 im = {m. \<exists>im'. crash im im' \<and> m = image_records C sha256 im'}"

lemma set_update_subset: "set (AList.update k v d) \<subseteq> insert (k, v) (set d)"
  by (induction d) auto

lemma set_delete_subset: "set (AList.delete k d) \<subseteq> set d"
  by (auto simp: AList.delete_eq)

lemma dir_ok_apply:
  assumes "dir_ok C sha256 files d" and "op_ok C sha256 files op"
  shows "dir_ok C sha256 files (apply_op op d)"
  using assms set_update_subset set_delete_subset
  by (cases op) (fastforce simp: dir_ok_def intro: distinct_update distinct_delete)+

lemma replay_snoc [simp]: "replay (ops @ [op]) d = apply_op op (replay ops d)"
  by (simp add: replay_def)

lemma replay_Nil [simp]: "replay [] d = d"
  by (simp add: replay_def)

lemma dir_ok_replay:
  "dir_ok C sha256 files d \<Longrightarrow> list_all (op_ok C sha256 files) ops \<Longrightarrow> dir_ok C sha256 files (replay ops d)"
  by (induction ops rule: rev_induct) (simp_all add: dir_ok_apply)

lemma list_all_subseq: "subseq xs ys \<Longrightarrow> list_all P ys \<Longrightarrow> list_all P xs"
  by (induction rule: list_emb.induct) auto

lemma dir_ok_crash:
  "image_ok C sha256 im \<Longrightarrow> subseq ops (im_pending im) \<Longrightarrow>
   dir_ok C sha256 (im_files im) (replay ops (im_disk im))"
  using dir_ok_replay list_all_subseq by (fastforce simp: image_ok_def)

lemma dir_ok_names: "image_ok C sha256 im \<Longrightarrow> dir_ok C sha256 (im_files im) (im_names im)"
  using dir_ok_crash[of C sha256 im "im_pending im"] by (simp add: image_ok_def)

text \<open>Only synchronised files carry records, so a power loss cannot change what is read.\<close>

lemma dir_entry_ok_survives:
  assumes "list_all2 survives files files'" and "dir_entry_ok C sha256 files n i"
  shows "dir_entry_ok C sha256 files' n i"
  using assms list_all2_lengthD[OF assms(1)] list_all2_nthD[OF assms(1), of i]
  by (auto simp: dir_entry_ok_def record_at_def survives_def)

lemma map_of_entry_ok:
  "dir_ok C sha256 files d \<Longrightarrow> map_of d n = Some i \<Longrightarrow> dir_entry_ok C sha256 files n i"
  by (auto simp: dir_ok_def dest: map_of_SomeD)

lemma view_survives:
  assumes "list_all2 survives files files'" and "dir_ok C sha256 files d"
  shows "view C sha256 files' d = view C sha256 files d"
proof
  fix mid
  have "fl_data (files' ! i) = fl_data (files ! i)" if "mid \<noteq> []" "map_of d (record_name mid) = Some i" for i
    using map_of_entry_ok[OF assms(2) that(2)] that(1) list_all2_nthD[OF assms(1), of i]
    by (auto simp: dir_entry_ok_def record_at_def survives_def)
  then show "view C sha256 files' d mid = view C sha256 files d mid"
    by (auto simp: view_def split: option.splits)
qed

lemma crash_image:
  assumes ok: "image_ok C sha256 im" and c: "crash im im'"
  shows "image_ok C sha256 im'"
    and "\<exists>ops. subseq ops (im_pending im) \<and>
      image_records C sha256 im' = view C sha256 (im_files im) (replay ops (im_disk im))"
proof -
  obtain ops where ops: "subseq ops (im_pending im)" "im_names im' = replay ops (im_disk im)"
    and im': "im_disk im' = im_names im'" "im_pending im' = []"
      "list_all2 survives (im_files im) (im_files im')"
    using c by (auto simp: crash_def)
  have d: "dir_ok C sha256 (im_files im) (im_names im')" using dir_ok_crash[OF ok ops(1)] ops(2) by simp
  then show "image_ok C sha256 im'"
    using im' dir_entry_ok_survives[OF im'(3)] by (auto simp: image_ok_def dir_ok_def)
  show "\<exists>ops. subseq ops (im_pending im) \<and>
      image_records C sha256 im' = view C sha256 (im_files im) (replay ops (im_disk im))"
    using ops view_survives[OF im'(3) d] by (auto simp: image_records_def)
qed

lemma crash_records_eq:
  assumes "image_ok C sha256 im"
  shows "crash_records C sha256 im =
    (\<lambda>ops. view C sha256 (im_files im) (replay ops (im_disk im))) ` {ops. subseq ops (im_pending im)}"
    (is "_ = ?V ` ?S")
proof
  show "crash_records C sha256 im \<subseteq> ?V ` ?S"
    using crash_image(2)[OF assms] by (fastforce simp: crash_records_def)
  show "?V ` ?S \<subseteq> crash_records C sha256 im"
  proof
    fix m assume "m \<in> ?V ` ?S"
    then obtain ops where ops: "subseq ops (im_pending im)" "m = ?V ops" by auto
    define files' where "files' = map (\<lambda>f. f\<lparr>fl_synced := True\<rparr>) (im_files im)"
    have s: "list_all2 survives (im_files im) files'"
      by (auto simp: files'_def list_all2_conv_all_nth survives_def)
    define im' where "im' = im\<lparr>im_files := files', im_names := replay ops (im_disk im),
      im_disk := replay ops (im_disk im), im_pending := []\<rparr>"
    have "crash im im'" using ops(1) s by (auto simp: crash_def im'_def)
    moreover have "m = image_records C sha256 im'"
      using ops(2) view_survives[OF s dir_ok_crash[OF assms ops(1)]] by (simp add: image_records_def im'_def)
    ultimately show "m \<in> crash_records C sha256 im" by (auto simp: crash_records_def)
  qed
qed


section \<open>What the system calls do to the records\<close>

text \<open>An inode no record file of the disk, now or after pending changes, refers to.\<close>

fun op_refers :: "dir_op \<Rightarrow> inode \<Rightarrow> bool" where
  "op_refers (DirLink n j) i \<longleftrightarrow> j = i \<and> path_extension n = Some ''cbor''"
| "op_refers (DirUnlink n) i \<longleftrightarrow> False"
| "op_refers (DirRename a n j) i \<longleftrightarrow> j = i \<and> path_extension n = Some ''cbor''"

definition scratch_inode :: "fs_image \<Rightarrow> inode \<Rightarrow> bool" where
  "scratch_inode im i \<longleftrightarrow>
     (\<forall>(n, j) \<in> set (im_disk im). j = i \<longrightarrow> path_extension n \<noteq> Some ''cbor'') \<and>
     list_all (\<lambda>op. \<not> op_refers op i) (im_pending im)"

lemma view_cong:
  assumes "\<And>mid i. mid \<noteq> [] \<Longrightarrow> map_of d (record_name mid) = Some i \<Longrightarrow>
      fl_data (files' ! i) = fl_data (files ! i)"
  shows "view C sha256 files' d = view C sha256 files d"
proof
  show "view C sha256 files' d mid = view C sha256 files d mid" for mid
    using assms[of mid] by (auto simp: view_def split: option.splits)
qed

text \<open>Changing such a file, or adding one, changes no record.\<close>

definition same_but :: "inode \<Rightarrow> stored_file list \<Rightarrow> stored_file list \<Rightarrow> bool" where
  "same_but i files files' \<longleftrightarrow>
     length files \<le> length files' \<and> (\<forall>j < length files. j \<noteq> i \<longrightarrow> files' ! j = files ! j)"

lemma dir_entry_ok_same_but:
  assumes "same_but i files files'" and "dir_entry_ok C sha256 files n j"
    and "j = i \<longrightarrow> path_extension n \<noteq> Some ''cbor''"
  shows "dir_entry_ok C sha256 files' n j"
  using assms by (auto simp: same_but_def dir_entry_ok_def record_at_def)

lemma op_ok_same_but:
  assumes "same_but i files files'" and "op_ok C sha256 files op" and "\<not> op_refers op i"
  shows "op_ok C sha256 files' op"
  using assms dir_entry_ok_same_but[OF assms(1)] by (cases op) auto

lemma apply_no_reference:
  assumes "\<forall>(n, j) \<in> set d. j = i \<longrightarrow> path_extension n \<noteq> Some ''cbor''" and "\<not> op_refers op i"
  shows "\<forall>(n, j) \<in> set (apply_op op d). j = i \<longrightarrow> path_extension n \<noteq> Some ''cbor''"
  using assms set_update_subset set_delete_subset by (cases op) fastforce+

lemma replay_no_reference:
  assumes "\<forall>(n, j) \<in> set d. j = i \<longrightarrow> path_extension n \<noteq> Some ''cbor''"
    and "list_all (\<lambda>op. \<not> op_refers op i) ops"
  shows "\<forall>(n, j) \<in> set (replay ops d). j = i \<longrightarrow> path_extension n \<noteq> Some ''cbor''"
  using assms(2)
proof (induction ops rule: rev_induct)
  case (snoc op ops)
  then show ?case using apply_no_reference[of "replay ops d" i op] by simp
qed (use assms(1) in simp)

lemma scratch_view:
  assumes "image_ok C sha256 im" and "scratch_inode im i" and "same_but i (im_files im) files'"
    and "subseq ops (im_pending im)"
  shows "view C sha256 files' (replay ops (im_disk im)) = view C sha256 (im_files im) (replay ops (im_disk im))"
proof (rule view_cong)
  fix mid j assume "mid \<noteq> []" and j: "map_of (replay ops (im_disk im)) (record_name mid) = Some j"
  have "\<forall>(n, j) \<in> set (replay ops (im_disk im)). j = i \<longrightarrow> path_extension n \<noteq> Some ''cbor''"
    using assms(2) list_all_subseq[OF assms(4)] by (intro replay_no_reference) (auto simp: scratch_inode_def)
  then have "j \<noteq> i" using map_of_SomeD[OF j] \<open>mid \<noteq> []\<close> by fastforce
  moreover have "j < length (im_files im)"
    using map_of_entry_ok[OF dir_ok_crash[OF assms(1,4)] j] by (simp add: dir_entry_ok_def)
  ultimately show "fl_data (files' ! j) = fl_data (im_files im ! j)"
    using assms(3) by (simp add: same_but_def)
qed

lemma scratch_files:
  assumes ok: "image_ok C sha256 im" and i: "scratch_inode im i" and sb: "same_but i (im_files im) files'"
    and im': "im' = im\<lparr>im_files := files'\<rparr>"
  shows "image_ok C sha256 im'" and "crash_records C sha256 im' = crash_records C sha256 im"
    and "image_records C sha256 im' = image_records C sha256 im" and "scratch_inode im' i"
proof -
  have d: "dir_ok C sha256 files' (im_disk im)"
    using ok i dir_entry_ok_same_but[OF sb] by (fastforce simp: image_ok_def dir_ok_def scratch_inode_def)
  have p: "list_all (op_ok C sha256 files') (im_pending im)"
    using ok i op_ok_same_but[OF sb] by (auto simp: image_ok_def scratch_inode_def list_all_iff)
  show ok': "image_ok C sha256 im'" using ok d p by (simp add: image_ok_def im')
  show "crash_records C sha256 im' = crash_records C sha256 im"
    unfolding crash_records_eq[OF ok] crash_records_eq[OF ok']
    using scratch_view[OF ok i sb] by (auto simp: im' image_iff)
  show "image_records C sha256 im' = image_records C sha256 im"
    using scratch_view[OF ok i sb, of "im_pending im"] ok by (simp add: image_ok_def image_records_def im')
  show "scratch_inode im' i" using i by (simp add: scratch_inode_def im')
qed

text \<open>One more pending change.\<close>

lemma subseq_snoc:
  "subseq ops (xs @ [x]) \<longleftrightarrow> subseq ops xs \<or> (\<exists>ops'. ops = ops' @ [x] \<and> subseq ops' xs)"
proof
  assume "subseq ops (xs @ [x])"
  then obtain as bs where "ops = as @ bs" "subseq as xs" "subseq bs [x]"
    by (auto simp: subseq_append_iff)
  then show "subseq ops xs \<or> (\<exists>ops'. ops = ops' @ [x] \<and> subseq ops' xs)"
    by (cases bs) (auto split: if_splits dest: list_emb_Nil2 simp: subseq_append_iff)
next
  show "subseq ops xs \<or> (\<exists>ops'. ops = ops' @ [x] \<and> subseq ops' xs) \<Longrightarrow> subseq ops (xs @ [x])"
    by (auto intro: list_emb_append_mono simp: list_emb_append2)
qed

lemma dir_change_ok:
  "image_ok C sha256 im \<Longrightarrow> op_ok C sha256 (im_files im) op \<Longrightarrow> image_ok C sha256 (dir_change op im)"
  by (simp add: image_ok_def dir_change_def)

lemma crash_records_change:
  assumes ok: "image_ok C sha256 im" and op: "op_ok C sha256 (im_files im) op"
  shows "crash_records C sha256 (dir_change op im) = crash_records C sha256 im \<union>
    (\<lambda>ops. view C sha256 (im_files im) (apply_op op (replay ops (im_disk im)))) ` {ops. subseq ops (im_pending im)}"
proof -
  have "{ops. subseq ops (im_pending im @ [op])} =
      {ops. subseq ops (im_pending im)} \<union> (\<lambda>ops. ops @ [op]) ` {ops. subseq ops (im_pending im)}"
    by (auto simp: subseq_snoc)
  then show ?thesis
    unfolding crash_records_eq[OF ok] crash_records_eq[OF dir_change_ok[OF ok op]]
    by (simp add: dir_change_def image_Un image_image)
qed


lemma record_name_other:
  "path_extension n \<noteq> Some ''cbor'' \<Longrightarrow> mid \<noteq> [] \<Longrightarrow> record_name mid \<noteq> n"
  using record_extension by blast

lemma view_other:
  assumes "path_extension n \<noteq> Some ''cbor''"
  shows "view C sha256 files (AList.update n i d) = view C sha256 files d"
    and "view C sha256 files (AList.delete n d) = view C sha256 files d"
  using record_name_other[OF assms] by (auto simp: view_def fun_eq_iff update_conv' delete_conv')

lemma view_update_record:
  assumes "store_decode C sha256 (fl_data (files ! i)) = Ok mb" and "mb_mailbox_id mb \<noteq> []"
  shows "view C sha256 files (AList.update (record_name (mb_mailbox_id mb)) i d) =
    (view C sha256 files d)(mb_mailbox_id mb \<mapsto> mb)"
  using assms by (auto simp: view_def fun_eq_iff update_conv' record_name_inject)

lemma view_delete_record:
  "view C sha256 files (AList.delete (record_name mid) d) = (view C sha256 files d)(mid := None)"
  by (auto simp: view_def fun_eq_iff delete_conv' record_name_inject)

text \<open>Images with the records, now and after a power loss, of another one.\<close>

definition same_records :: "codec \<Rightarrow> (bytes \<Rightarrow> bytes) \<Rightarrow> fs_image \<Rightarrow> fs_image \<Rightarrow> bool" where
  "same_records C sha256 im0 im \<longleftrightarrow> image_ok C sha256 im \<and>
     crash_records C sha256 im = crash_records C sha256 im0 \<and>
     image_records C sha256 im = image_records C sha256 im0"

lemma same_records_link:
  assumes "image_ok C sha256 im" and "path_extension n \<noteq> Some ''cbor''" and "i < length (im_files im)"
  shows "same_records C sha256 im (dir_change (DirLink n i) im)"
proof -
  have op: "op_ok C sha256 (im_files im) (DirLink n i)" using assms by (simp add: dir_entry_ok_def)
  show ?thesis
    unfolding same_records_def crash_records_change[OF assms(1) op]
    using dir_change_ok[OF assms(1) op]
    by (simp add: view_other[OF assms(2)] crash_records_eq[OF assms(1), symmetric])
      (simp add: image_records_def dir_change_def view_other[OF assms(2)])
qed

lemma same_records_unlink:
  assumes "image_ok C sha256 im" and "path_extension n \<noteq> Some ''cbor''"
  shows "same_records C sha256 im (dir_change (DirUnlink n) im)"
proof -
  have op: "op_ok C sha256 (im_files im) (DirUnlink n)" by simp
  show ?thesis
    unfolding same_records_def crash_records_change[OF assms(1) op]
    using dir_change_ok[OF assms(1) op]
    by (simp add: view_other[OF assms(2)] crash_records_eq[OF assms(1), symmetric])
      (simp add: image_records_def dir_change_def view_other[OF assms(2)])
qed

lemma same_records_trans:
  "same_records C sha256 a b \<Longrightarrow> same_records C sha256 b c \<Longrightarrow> same_records C sha256 a c"
  by (simp add: same_records_def)

lemma sync_image_ok:
  assumes "image_ok C sha256 im"
  shows "image_ok C sha256 (sync_image im)"
    and "crash_records C sha256 (sync_image im) = {image_records C sha256 im}"
    and "image_records C sha256 (sync_image im) = image_records C sha256 im"
    and "image_records C sha256 im \<in> crash_records C sha256 im"
proof -
  show ok: "image_ok C sha256 (sync_image im)"
    using dir_ok_names[OF assms] by (simp add: image_ok_def sync_image_def)
  show "crash_records C sha256 (sync_image im) = {image_records C sha256 im}"
  proof -
    have "{ops. subseq ops ([] :: dir_op list)} = {[]}" using list_emb_Nil2 by auto
    then show ?thesis unfolding crash_records_eq[OF ok] by (simp add: sync_image_def image_records_def)
  qed
  show "image_records C sha256 (sync_image im) = image_records C sha256 im"
    by (simp add: image_records_def sync_image_def)
  show "image_records C sha256 im \<in> crash_records C sha256 im"
    unfolding crash_records_eq[OF assms] using assms by (auto simp: image_records_def image_ok_def)
qed

lemma rename_records:
  assumes ok: "image_ok C sha256 im" and i: "i < length (im_files im)" "fl_synced (im_files im ! i)"
    and dec: "store_decode C sha256 (fl_data (im_files im ! i)) = Ok mb" and id: "mb_mailbox_id mb \<noteq> []"
    and tmp: "path_extension tmp \<noteq> Some ''cbor''"
    and im': "im' = dir_change (DirRename tmp (record_name (mb_mailbox_id mb)) i) im"
  shows "image_ok C sha256 im'"
    and "crash_records C sha256 im' = crash_records C sha256 im \<union>
      (\<lambda>m. m(mb_mailbox_id mb \<mapsto> mb)) ` crash_records C sha256 im"
    and "image_records C sha256 im' = (image_records C sha256 im)(mb_mailbox_id mb \<mapsto> mb)"
proof -
  let ?op = "DirRename tmp (record_name (mb_mailbox_id mb)) i"
  have op: "op_ok C sha256 (im_files im) ?op" using i dec by (simp add: dir_entry_ok_def record_at_def)
  have v: "view C sha256 (im_files im) (apply_op ?op d) = (view C sha256 (im_files im) d)(mb_mailbox_id mb \<mapsto> mb)" for d
    by (simp add: view_update_record[OF dec id] view_other[OF tmp])
  show "image_ok C sha256 im'" unfolding im' by (rule dir_change_ok[OF ok op])
  show "crash_records C sha256 im' = crash_records C sha256 im \<union>
      (\<lambda>m. m(mb_mailbox_id mb \<mapsto> mb)) ` crash_records C sha256 im"
    unfolding im' crash_records_change[OF ok op] v crash_records_eq[OF ok] by (simp add: image_image)
  show "image_records C sha256 im' = (image_records C sha256 im)(mb_mailbox_id mb \<mapsto> mb)"
    using v[of "im_names im"] by (simp add: im' image_records_def dir_change_def)
qed

lemma unlink_records:
  assumes ok: "image_ok C sha256 im" and im': "im' = dir_change (DirUnlink (record_name mid)) im"
  shows "image_ok C sha256 im'"
    and "crash_records C sha256 im' = crash_records C sha256 im \<union> (\<lambda>m. m(mid := None)) ` crash_records C sha256 im"
    and "image_records C sha256 im' = (image_records C sha256 im)(mid := None)"
proof -
  have op: "op_ok C sha256 (im_files im) (DirUnlink (record_name mid))" by simp
  show "image_ok C sha256 im'" unfolding im' by (rule dir_change_ok[OF ok op])
  show "crash_records C sha256 im' = crash_records C sha256 im \<union> (\<lambda>m. m(mid := None)) ` crash_records C sha256 im"
    unfolding im' crash_records_change[OF ok op] crash_records_eq[OF ok]
    by (simp add: image_image view_delete_record)
  show "image_records C sha256 im' = (image_records C sha256 im)(mid := None)"
    by (simp add: im' image_records_def dir_change_def view_delete_record)
qed

end
