(* ===== verification/File_Store_Props.thy ===== *)
theory File_Store_Props
  imports File_Records
begin

text \<open>
  The directory store keeps the contract of the store trait as long as the directory can be
  synchronised, a power loss at any moment of a write leaves the old record or the new one,
  and a write that returned is durable.
\<close>

section \<open>Runs of the store\<close>

lemma run_ok_store_io: "run_ok J Q E s p \<Longrightarrow> run_ok J Q E s (store_io p)"
  by (cases p; cases "fst p") (auto simp: run_ok_def)

text \<open>
  The images a write may pass through: the invariant holds, and a power loss finds records of
  the set \<open>R\<close>.
\<close>

definition safe_image ::
  "codec \<Rightarrow> (bytes \<Rightarrow> bytes) \<Rightarrow> (bytes \<Rightarrow> mailbox option) set \<Rightarrow> fs_image \<Rightarrow> bool" where
  "safe_image C sha256 R im \<longleftrightarrow> image_ok C sha256 im \<and> crash_records C sha256 im \<subseteq> R"

text \<open>The temporary file is inode \<open>i\<close> and nothing else has changed.\<close>

definition staged ::
  "codec \<Rightarrow> (bytes \<Rightarrow> bytes) \<Rightarrow> fs_image \<Rightarrow> string \<Rightarrow> inode \<Rightarrow> (stored_file \<Rightarrow> bool) \<Rightarrow> fs_image \<Rightarrow> bool" where
  "staged C sha256 im0 tmp i P im \<longleftrightarrow> same_records C sha256 im0 im \<and>
     map_of (im_names im) tmp = Some i \<and> i < length (im_files im) \<and> scratch_inode im i \<and>
     P (im_files im ! i)"

lemma same_records_safe:
  "same_records C sha256 im0 im \<Longrightarrow> crash_records C sha256 im0 \<subseteq> R \<Longrightarrow> safe_image C sha256 R im"
  by (simp add: same_records_def safe_image_def)

lemma stage_new_file:
  assumes same: "same_records C sha256 im0 im" and tmp: "path_extension tmp \<noteq> Some ''cbor''"
  shows "staged C sha256 im0 tmp (length (im_files im)) (\<lambda>f. f = new_file)
    (dir_change (DirLink tmp (length (im_files im))) (im\<lparr>im_files := im_files im @ [new_file]\<rparr>))"
proof -
  let ?i = "length (im_files im)" and ?im1 = "im\<lparr>im_files := im_files im @ [new_file]\<rparr>"
  have ok: "image_ok C sha256 im" using same by (simp add: same_records_def)
  have "\<not> op_refers op ?i" if "op \<in> set (im_pending im)" for op
    using ok that by (cases op) (auto simp: image_ok_def list_all_iff dir_entry_ok_def dest!: bspec)
  then have i: "scratch_inode im ?i"
    using ok by (fastforce simp: scratch_inode_def image_ok_def dir_ok_def dir_entry_ok_def list_all_iff)
  have sb: "same_but ?i (im_files im) (im_files im @ [new_file])" by (simp add: same_but_def nth_append)
  note f = scratch_files[OF ok i sb refl]
  have "same_records C sha256 im ?im1" using f by (simp add: same_records_def)
  moreover have "same_records C sha256 ?im1 (dir_change (DirLink tmp ?i) ?im1)"
    using f(1) tmp by (intro same_records_link) auto
  ultimately have "same_records C sha256 im0 (dir_change (DirLink tmp ?i) ?im1)"
    using same same_records_trans by blast
  moreover have "scratch_inode (dir_change (DirLink tmp ?i) ?im1) ?i"
    using f(4) tmp by (simp add: scratch_inode_def dir_change_def)
  ultimately show ?thesis by (simp add: staged_def dir_change_def update_conv')
qed

lemma stage_update_file:
  assumes st: "staged C sha256 im0 tmp i P im" and P': "\<And>f. P f \<Longrightarrow> P' (g f)"
  shows "staged C sha256 im0 tmp i P' (update_file i g im)"
proof -
  have im: "same_records C sha256 im0 im" "scratch_inode im i" "image_ok C sha256 im"
    using st by (simp_all add: staged_def same_records_def)
  have "same_but i (im_files im) ((im_files im)[i := g (im_files im ! i)])" by (simp add: same_but_def)
  note f = scratch_files[OF im(3,2) this refl]
  show ?thesis using st f P' by (simp add: staged_def same_records_def update_file_def)
qed

lemma staged_same: "staged C sha256 im0 tmp i P im \<Longrightarrow> same_records C sha256 im0 im"
  by (simp add: staged_def)

lemma run_create:
  assumes "same_records C sha256 im0 (fs_now s)" and "path_extension tmp \<noteq> Some ''cbor''"
    and "crash_records C sha256 im0 \<subseteq> R"
  shows "run_ok (safe_image C sha256 R) (\<lambda>i s1. staged C sha256 im0 tmp i (\<lambda>f. f = new_file) (fs_now s1))
    (\<lambda>s1. same_records C sha256 im0 (fs_now s1)) s (sys_create_new tmp s)"
  unfolding sys_create_new_def
  by (rule run_ok_call)
    (use assms stage_new_file[OF assms(1,2)] staged_same same_records_safe[OF _ assms(3)]
      in \<open>auto simp: Let_def split: option.splits\<close>)

lemma run_update:
  assumes "staged C sha256 im0 tmp i P (fs_now s)" and "crash_records C sha256 im0 \<subseteq> R"
    and "\<And>f. P f \<Longrightarrow> P' (g f)" and "\<And>k. partial k (fs_now s) = update_file i (h k) (fs_now s)"
  shows "run_ok (safe_image C sha256 R) (\<lambda>_ s1. staged C sha256 im0 tmp i P' (fs_now s1))
    (\<lambda>s1. same_records C sha256 im0 (fs_now s1)) s
    (sys_call c partial (\<lambda>im. (Ok (), update_file i g im)) s)"
proof (rule run_ok_call)
  have p: "same_records C sha256 im0 (partial k (fs_now s))" for k
    using stage_update_file[OF assms(1), of "\<lambda>_. True" "h k"] assms(4) staged_same by fastforce
  show "safe_image C sha256 R (fs_now s1) \<and> same_records C sha256 im0 (fs_now s1)"
    if "fs_now s1 = partial k (fs_now s)" for s1 k
    using p[of k] that same_records_safe[OF _ assms(2)] by simp
  show "safe_image C sha256 R (fs_now s1) \<and> staged C sha256 im0 tmp i P' (fs_now s1)"
    if "fs_now s1 = snd (Ok (), update_file i g (fs_now s))" for s1
    using stage_update_file[OF assms(1), of P' g] assms(3) that same_records_safe[OF _ assms(2)] staged_same
    by fastforce
qed (use same_records_safe[OF staged_same[OF assms(1)] assms(2)] in auto)


lemma update_file_id [simp]: "update_file i (\<lambda>f. f) im = im"
  by (simp add: update_file_def)

text \<open>Whether the directory may refuse to be synchronised.\<close>

definition sync_faults :: "fs \<Rightarrow> bool" where
  "sync_faults s \<longleftrightarrow> (\<exists>n. fs_faults s n OpenDir \<noteq> None \<or> fs_faults s n SyncDir \<noteq> None)"

lemma run_sync_directory:
  assumes "safe_image C sha256 R (fs_now s)" and "image_records C sha256 (fs_now s) = V"
  shows "run_ok (safe_image C sha256 R)
    (\<lambda>_ s1. image_records C sha256 (fs_now s1) = V \<and> crash_records C sha256 (fs_now s1) = {V})
    (\<lambda>s1. sync_faults s1 \<and> image_records C sha256 (fs_now s1) = V) s (sync_directory s)"
  unfolding sync_directory_def
proof (rule run_ok_bind, rule run_ok_store_io)
  let ?Q = "\<lambda>(_ :: unit) (s1 :: fs). safe_image C sha256 R (fs_now s1) \<and> image_records C sha256 (fs_now s1) = V"
  show "run_ok (safe_image C sha256 R) ?Q (\<lambda>s1. sync_faults s1 \<and> image_records C sha256 (fs_now s1) = V) s
      (sys_open_dir s)"
    unfolding sys_open_dir_def by (rule run_ok_call) (use assms in \<open>auto simp: sync_faults_def\<close>)
  fix v s1 assume q: "?Q v s1"
  then have im: "image_ok C sha256 (fs_now s1)" by (simp add: safe_image_def)
  show "run_ok (safe_image C sha256 R)
      (\<lambda>_ s1. image_records C sha256 (fs_now s1) = V \<and> crash_records C sha256 (fs_now s1) = {V})
      (\<lambda>s1. sync_faults s1 \<and> image_records C sha256 (fs_now s1) = V) s1 (store_io (sys_sync_dir s1))"
    unfolding sys_sync_dir_def
    by (rule run_ok_store_io, rule run_ok_call)
      (use q sync_image_ok[OF im] in \<open>auto simp: sync_faults_def safe_image_def\<close>)
qed

lemma run_rename:
  assumes st: "staged C sha256 im0 tmp i (\<lambda>f. fl_data f = octets \<and> fl_synced f) (fs_now s)"
    and dec: "store_decode C sha256 octets = Ok mb" and id: "mb_mailbox_id mb \<noteq> []"
    and tmp: "path_extension tmp \<noteq> Some ''cbor''"
    and R: "R = crash_records C sha256 im0 \<union> (\<lambda>m. m(mb_mailbox_id mb \<mapsto> mb)) ` crash_records C sha256 im0"
  shows "run_ok (safe_image C sha256 R)
    (\<lambda>_ s1. image_records C sha256 (fs_now s1) = (image_records C sha256 im0)(mb_mailbox_id mb \<mapsto> mb) \<and>
       safe_image C sha256 R (fs_now s1))
    (\<lambda>s1. same_records C sha256 im0 (fs_now s1)) s
    (sys_rename tmp (record_name (mb_mailbox_id mb)) s)"
proof -
  have im: "image_ok C sha256 (fs_now s)" "i < length (im_files (fs_now s))"
    "fl_synced (im_files (fs_now s) ! i)" "fl_data (im_files (fs_now s) ! i) = octets"
    "map_of (im_names (fs_now s)) tmp = Some i" "same_records C sha256 im0 (fs_now s)"
    using st by (simp_all add: staged_def same_records_def)
  note rn = rename_records[OF im(1-3) _ id tmp refl, unfolded im(4), OF dec]
  have R0: "crash_records C sha256 im0 \<subseteq> R" using R by simp
  show ?thesis
    unfolding sys_rename_def
    by (rule run_ok_call)
      (use im rn R same_records_safe[OF im(6) R0] in \<open>auto simp: safe_image_def same_records_def\<close>)
qed

text \<open>How a write may end when it fails.\<close>

definition put_failed :: "codec \<Rightarrow> (bytes \<Rightarrow> bytes) \<Rightarrow> fs_image \<Rightarrow> (bytes \<Rightarrow> mailbox option) \<Rightarrow> fs \<Rightarrow> bool" where
  "put_failed C sha256 im0 V s \<longleftrightarrow> same_records C sha256 im0 (fs_now s) \<or>
     sync_faults s \<and> image_records C sha256 (fs_now s) = V"

lemma run_replace_record:
  assumes ok: "image_ok C sha256 (fs_now s)"
    and dec: "store_decode C sha256 octets = Ok mb" and id: "mb_mailbox_id mb \<noteq> []"
    and tmp: "path_extension tmp \<noteq> Some ''cbor''" and im0: "im0 = fs_now s"
    and R: "R = crash_records C sha256 im0 \<union> (\<lambda>m. m(mb_mailbox_id mb \<mapsto> mb)) ` crash_records C sha256 im0"
    and V: "V = (image_records C sha256 im0)(mb_mailbox_id mb \<mapsto> mb)"
  shows "run_ok (safe_image C sha256 R)
    (\<lambda>_ s1. image_records C sha256 (fs_now s1) = V \<and> crash_records C sha256 (fs_now s1) = {V})
    (put_failed C sha256 im0 V) s (replace_record tmp (record_name (mb_mailbox_id mb)) octets s)"
proof -
  have R0: "crash_records C sha256 im0 \<subseteq> R" using R by simp
  let ?st = "\<lambda>i P s. staged C sha256 im0 tmp i P (fs_now s)"
  let ?run = "\<lambda>Q s p. run_ok (safe_image C sha256 R) Q (put_failed C sha256 im0 V) s p"
  have early: "?run Q s p" if "run_ok (safe_image C sha256 R) Q (\<lambda>s1. same_records C sha256 im0 (fs_now s1)) s p"
    for Q s and p :: "('v, io_error) result \<times> fs"
    using that by (rule run_ok_weaken) (auto simp: put_failed_def)
  have create: "?run (\<lambda>i. ?st i (\<lambda>f. f = new_file)) s (sys_create_new tmp s)"
    using ok by (intro early run_create tmp R0) (simp add: same_records_def im0)
  have perm: "?run (\<lambda>_. ?st i (\<lambda>f. fl_data f = [])) s (sys_set_permissions i 0x180 s)"
    if "?st i (\<lambda>f. f = new_file) s" for i s
    unfolding sys_set_permissions_def
    by (rule early, rule run_update[OF that, where h = "\<lambda>k f. f"]) (use R0 in \<open>auto simp: new_file_def\<close>)
  have wrote: "?run (\<lambda>_. ?st i (\<lambda>f. fl_data f = octets)) s (sys_write_all i octets s)"
    if "?st i (\<lambda>f. fl_data f = []) s" for i s
    unfolding sys_write_all_def
    by (rule early, rule run_update[OF that, where h = "\<lambda>k. append_data (take k octets)"])
      (use R0 in \<open>auto simp: append_data_def\<close>)
  have sync: "?run (\<lambda>_. ?st i (\<lambda>f. fl_data f = octets \<and> fl_synced f)) s (sys_sync_file i s)"
    if "?st i (\<lambda>f. fl_data f = octets) s" for i s
    unfolding sys_sync_file_def
    by (rule early, rule run_update[OF that, where h = "\<lambda>k f. f"]) (use R0 in auto)
  have rename: "?run (\<lambda>_ s1. image_records C sha256 (fs_now s1) = V \<and> safe_image C sha256 R (fs_now s1)) s
      (sys_rename tmp (record_name (mb_mailbox_id mb)) s)"
    if "?st i (\<lambda>f. fl_data f = octets \<and> fl_synced f) s" for i s
    unfolding V by (rule early[unfolded V], rule run_rename[OF that dec id tmp R])
  have last: "?run (\<lambda>_ s1. image_records C sha256 (fs_now s1) = V \<and> crash_records C sha256 (fs_now s1) = {V}) s
      (sync_directory s)"
    if "image_records C sha256 (fs_now s) = V \<and> safe_image C sha256 R (fs_now s)" for s
    by (rule run_ok_weaken, rule run_sync_directory[where R = R and V = V]) (use that in \<open>auto simp: put_failed_def\<close>)
  show ?thesis
    unfolding replace_record_def
    by (rule run_ok_bind[OF run_ok_store_io[OF create]], rule run_ok_bind[OF run_ok_store_io[OF perm]],
        assumption, rule run_ok_bind[OF run_ok_store_io[OF wrote]], assumption,
        rule run_ok_bind[OF run_ok_store_io[OF sync]], assumption,
        rule run_ok_bind[OF run_ok_store_io[OF rename]], assumption, rule last)
qed


text \<open>Removing the temporary file changes no record.\<close>

lemma run_unlink_other:
  assumes safe: "safe_image C sha256 R (fs_now s)" and n: "path_extension n \<noteq> Some ''cbor''"
    and P: "\<And>s1. fs_faults s1 = fs_faults s \<Longrightarrow> same_records C sha256 (fs_now s) (fs_now s1) \<Longrightarrow> P s1"
  shows "run_ok (safe_image C sha256 R) (\<lambda>_. P) P s (sys_unlink n s)"
proof -
  have ok: "image_ok C sha256 (fs_now s)" and sub: "crash_records C sha256 (fs_now s) \<subseteq> R"
    using safe by (simp_all add: safe_image_def)
  have 1: "same_records C sha256 (fs_now s) (fs_now s)" using ok by (simp add: same_records_def)
  note 2 = same_records_unlink[OF ok n]
  show ?thesis
    unfolding sys_unlink_def
    by (rule run_ok_call)
      (use P 1 2 same_records_safe[OF 1 sub] same_records_safe[OF 2 sub] in \<open>auto split: option.splits\<close>)
qed

lemma put_failed_same:
  assumes "put_failed C sha256 im0 V s" and "fs_faults s1 = fs_faults s"
    and "same_records C sha256 (fs_now s) (fs_now s1)"
  shows "put_failed C sha256 im0 V s1"
  using assms by (auto simp: put_failed_def same_records_def sync_faults_def)

lemma run_file_put:
  assumes ok: "image_ok C sha256 (fs_now s)" and st: "storable C sha256 mb" and id: "mb_mailbox_id mb \<noteq> []"
    and im0: "im0 = fs_now s"
    and R: "R = crash_records C sha256 im0 \<union> (\<lambda>m. m(mb_mailbox_id mb \<mapsto> mb)) ` crash_records C sha256 im0"
    and V: "V = (image_records C sha256 im0)(mb_mailbox_id mb \<mapsto> mb)"
  shows "run_ok (safe_image C sha256 R)
    (\<lambda>_ s1. image_records C sha256 (fs_now s1) = V \<and> crash_records C sha256 (fs_now s1) = {V})
    (put_failed C sha256 im0 V) s (file_put C pid s mb)"
proof (cases "store_encode C (snapshot mb)")
  case (Ok octets)
  let ?tmp = "temporary_name (mb_mailbox_id mb) pid"
  have dec: "store_decode C sha256 octets = Ok mb" using st Ok by (simp add: storable_def)
  obtain res s2 where rr: "replace_record ?tmp (record_name (mb_mailbox_id mb)) octets s = (res, s2)" by fastforce
  note run = run_replace_record[OF ok dec id _ im0 R V, of ?tmp, simplified, unfolded rr]
  show ?thesis
  proof (cases "is_ok res")
    case True
    then show ?thesis using run by (simp add: file_put_def Let_def Ok rr)
  next
    case False
    then obtain e where e: "res = Err e" using run by (cases res) (auto simp: run_ok_def)
    have s2: "safe_image C sha256 R (fs_now s2)" "put_failed C sha256 im0 V s2"
      "\<exists>new. fs_seen s2 = fs_seen s @ new \<and> list_all (safe_image C sha256 R) new" "fs_faults s2 = fs_faults s"
      using run by (auto simp: e run_ok_def)
    have "run_ok (safe_image C sha256 R) (\<lambda>_. put_failed C sha256 im0 V) (put_failed C sha256 im0 V) s2
        (sys_unlink ?tmp s2)"
      using s2(1) by (rule run_unlink_other) (use s2(2) put_failed_same in auto)
    then have "run_ok (safe_image C sha256 R) (\<lambda>_. put_failed C sha256 im0 V) (put_failed C sha256 im0 V) s
        (Err e, snd (sys_unlink ?tmp s2))"
      using s2(3,4) by (cases "fst (sys_unlink ?tmp s2)") (auto simp: run_ok_def)
    then show ?thesis by (simp add: file_put_def Let_def Ok rr e run_ok_def)
  qed
next
  case (Err e)
  have same: "same_records C sha256 im0 (fs_now s)" using ok by (simp add: same_records_def im0)
  have "safe_image C sha256 R (fs_now s)" by (rule same_records_safe[OF same]) (simp add: R)
  then show ?thesis using same by (simp add: file_put_def Let_def Err run_ok_def put_failed_def)
qed (simp add: store_encode_def)

lemma run_file_remove:
  assumes ok: "image_ok C sha256 (fs_now s)" and im0: "im0 = fs_now s"
    and R: "R = crash_records C sha256 im0 \<union> (\<lambda>m. m(mid := None)) ` crash_records C sha256 im0"
    and V: "V = (image_records C sha256 im0)(mid := None)"
  shows "run_ok (safe_image C sha256 R)
    (\<lambda>_ s1. image_records C sha256 (fs_now s1) = V \<and>
       (crash_records C sha256 (fs_now s1) = {V} \<or> same_records C sha256 im0 (fs_now s1)))
    (put_failed C sha256 im0 V) s (file_remove s mid)"
proof -
  obtain r s1 where u: "sys_unlink (record_name mid) s = (r, s1)" by fastforce
  have same: "same_records C sha256 im0 (fs_now s)" using ok by (simp add: same_records_def im0)
  have safe0: "safe_image C sha256 R (fs_now s)" by (rule same_records_safe[OF same]) (simp add: R)
  have absent: "image_records C sha256 (fs_now s) = V" if "map_of (im_names (fs_now s)) (record_name mid) = None"
    using that by (auto simp: V im0 image_records_def view_def fun_eq_iff)
  note un = unlink_records[OF ok refl, of mid]
  have "run_ok (safe_image C sha256 R)
      (\<lambda>_ s1. safe_image C sha256 R (fs_now s1) \<and> image_records C sha256 (fs_now s1) = V)
      (\<lambda>s1. same_records C sha256 im0 (fs_now s1)) s (sys_unlink (record_name mid) s)"
    unfolding sys_unlink_def
    by (rule run_ok_call) (use same safe0 un in \<open>auto simp: R V im0 safe_image_def split: option.splits\<close>)
  note run = this[unfolded u]
  have nf: "map_of (im_names (fs_now s)) (record_name mid) = None \<and> fs_now s1 = fs_now s" if "r = Err NotFound"
    using u that by (auto simp: sys_unlink_def sys_call_def Let_def split: option.splits)
  show ?thesis
  proof (cases r)
    case (Ok v)
    then have "run_ok (safe_image C sha256 R)
        (\<lambda>_ s2. image_records C sha256 (fs_now s2) = V \<and> crash_records C sha256 (fs_now s2) = {V})
        (\<lambda>s2. sync_faults s2 \<and> image_records C sha256 (fs_now s2) = V) s1 (sync_directory s1)"
      using run by (intro run_sync_directory) (auto simp: run_ok_def)
    then show ?thesis using run Ok
      by (auto simp: file_remove_def u run_ok_def put_failed_def split: result.splits)
  next
    case (Err e)
    then show ?thesis using run nf absent by (auto simp: file_remove_def u run_ok_def put_failed_def)
  qed (use run in \<open>simp add: run_ok_def\<close>)
qed


section \<open>Loading\<close>

lemma temporary_not_record:
  assumes "is_store_temporary n"
  shows "path_extension n \<noteq> Some ''cbor''"
proof -
  obtain body where b: "n = (CHR ''.'' # body) @ CHR ''.'' # ''tmp''"
    using assms
    by (auto simp: is_store_temporary_def strip_suffix_def split: list.splits if_splits option.splits)
      (metis append_take_drop_id)
  show ?thesis unfolding b using path_extension_part[of "''tmp''" "CHR ''.'' # body"] by simp
qed

definition faulty :: "fs \<Rightarrow> bool" where
  "faulty s \<longleftrightarrow> (\<exists>n c. fs_faults s n c \<noteq> None)"

text \<open>The images a load may pass through: the records \<open>V\<close> never change.\<close>

definition steady ::
  "codec \<Rightarrow> (bytes \<Rightarrow> bytes) \<Rightarrow> (bytes \<Rightarrow> mailbox option) set \<Rightarrow> (bytes \<Rightarrow> mailbox option) \<Rightarrow> fs_image \<Rightarrow> bool" where
  "steady C sha256 R V im \<longleftrightarrow> safe_image C sha256 R im \<and> image_records C sha256 im = V"

lemma steady_same:
  "steady C sha256 R V im \<Longrightarrow> same_records C sha256 im im' \<Longrightarrow> steady C sha256 R V im'"
  by (auto simp: steady_def safe_image_def same_records_def)

lemma steady_sync: "steady C sha256 R V im \<Longrightarrow> steady C sha256 R V (sync_image im)"
  using sync_image_ok[of C sha256 im] by (auto simp: steady_def safe_image_def)

lemma run_steady_call:
  assumes "steady C sha256 R V (fs_now s)" and "fst (f (fs_now s)) = Ok v"
    and "steady C sha256 R V (snd (f (fs_now s)))"
    and "\<And>s1. fs_now s1 = snd (f (fs_now s)) \<Longrightarrow> Q v s1"
  shows "run_ok (steady C sha256 R V) Q faulty s (sys_call c no_effect f s)"
  by (rule run_ok_call) (use assms in \<open>auto simp: faulty_def\<close>)

lemma run_sync_names:
  assumes "steady C sha256 R V (fs_now s)" and "im_names (fs_now s) = N"
  shows "run_ok (steady C sha256 R V) (\<lambda>_ s1. steady C sha256 R V (fs_now s1) \<and> im_names (fs_now s1) = N)
    faulty s (sync_directory s)"
proof -
  have "run_ok (steady C sha256 R V) (\<lambda>_ s1. steady C sha256 R V (fs_now s1) \<and> im_names (fs_now s1) = N)
      faulty s (sys_open_dir s)"
    unfolding sys_open_dir_def by (rule run_steady_call) (use assms in auto)
  moreover have "run_ok (steady C sha256 R V) (\<lambda>_ s1. steady C sha256 R V (fs_now s1) \<and> im_names (fs_now s1) = N)
      faulty s1 (sys_sync_dir s1)" if "steady C sha256 R V (fs_now s1) \<and> im_names (fs_now s1) = N" for s1
    unfolding sys_sync_dir_def
    by (rule run_steady_call) (use that steady_sync in \<open>auto simp: sync_image_def\<close>)
  ultimately show ?thesis
    unfolding sync_directory_def by (intro run_ok_bind[OF run_ok_store_io] run_ok_store_io)
qed

text \<open>The entries that are read as records.\<close>

definition is_record_entry :: "string \<Rightarrow> bool" where
  "is_record_entry n \<longleftrightarrow> \<not> is_store_temporary n \<and> path_extension n = Some ''cbor''"

definition loaded :: "(bytes \<Rightarrow> mailbox option) \<Rightarrow> string list \<Rightarrow> mailbox list \<Rightarrow> bool" where
  "loaded V names ms \<longleftrightarrow> map (\<lambda>mb. record_name (mb_mailbox_id mb)) ms = filter is_record_entry names \<and>
     (\<forall>mb \<in> set ms. V (mb_mailbox_id mb) = Some mb)"

text \<open>What a record entry holds.\<close>

lemma read_record:
  assumes "steady C sha256 R V im" and "path_extension n = Some ''cbor''" and "map_of (im_names im) n = Some i"
  obtains mb where "store_decode C sha256 (fl_data (im_files im ! i)) = Ok mb"
    and "n = record_name (mb_mailbox_id mb)" and "V (mb_mailbox_id mb) = Some mb"
proof -
  have ok: "image_ok C sha256 im" and V: "V = image_records C sha256 im"
    using assms(1) by (auto simp: steady_def safe_image_def)
  obtain mb where mb: "store_decode C sha256 (fl_data (im_files im ! i)) = Ok mb" "n = record_name (mb_mailbox_id mb)"
    using map_of_entry_ok[OF dir_ok_names[OF ok] assms(3)] assms(2)
    by (auto simp: dir_entry_ok_def record_at_def split: result.splits)
  have "path_extension ''.cbor'' = None"
    using rsplit_at_part[of "CHR ''.''" "''cbor''" "[]"] by (simp add: path_extension_def)
  then have "mb_mailbox_id mb \<noteq> []" using assms(2) mb(2) by (auto simp: record_name_def lower_hex_def)
  then have "V (mb_mailbox_id mb) = Some mb" using mb assms(3) by (simp add: V image_records_def view_def)
  with mb that show thesis by blast
qed


lemma run_load_entries:
  assumes "steady C sha256 R V (fs_now s)" and "distinct names"
    and "set names \<subseteq> dom (map_of (im_names (fs_now s)))"
  shows "run_ok (steady C sha256 R V) (\<lambda>ms _. \<exists>more. ms = found @ more \<and> loaded V names more) faulty s
    (load_entries C sha256 names found s)"
  using assms
proof (induction names arbitrary: found s)
  case Nil
  then show ?case by (simp add: run_ok_def loaded_def)
next
  case (Cons name rest)
  let ?J = "steady C sha256 R V"
  let ?run = "\<lambda>names found s p. run_ok ?J (\<lambda>ms _. \<exists>more. ms = found @ more \<and> loaded V names more) faulty s p"
  have rest: "?run rest found s1 (load_entries C sha256 rest found s1)"
    if "?J (fs_now s1)" "set rest \<subseteq> dom (map_of (im_names (fs_now s1)))" for s1 found
    using Cons.IH[OF that(1) _ that(2)] Cons.prems(2) by simp
  have skip: "?run (name # rest) found s1 (load_entries C sha256 rest found s1)"
    if "?J (fs_now s1)" "set rest \<subseteq> dom (map_of (im_names (fs_now s1)))" "\<not> is_record_entry name" for s1
    by (rule run_ok_weaken[OF rest[OF that(1,2)]]) (use that(3) in \<open>auto simp: loaded_def\<close>)
  have sweep: "?run (name # rest) found s1
      (bind_st (store_io (sys_unlink name s1)) (\<lambda>_ s2. bind_st (sync_directory s2) (\<lambda>_ s3.
        load_entries C sha256 rest found s3)))"
    if s1: "fs_now s1 = fs_now s" and tmp: "is_store_temporary name" for s1
  proof -
    let ?N = "AList.delete name (im_names (fs_now s))"
    have ok: "image_ok C sha256 (fs_now s1)" using Cons.prems(1) s1 by (simp add: steady_def safe_image_def)
    obtain i where i: "map_of (im_names (fs_now s1)) name = Some i" using Cons.prems(3) s1 by auto
    have un: "run_ok ?J (\<lambda>_ s2. ?J (fs_now s2) \<and> im_names (fs_now s2) = ?N) faulty s1 (sys_unlink name s1)"
      unfolding sys_unlink_def
      by (rule run_steady_call)
        (use Cons.prems(1) s1 i steady_same[OF _ same_records_unlink[OF ok temporary_not_record[OF tmp]]]
          in \<open>auto simp: dir_change_def\<close>)
    have dom: "set rest \<subseteq> dom (map_of ?N)" using Cons.prems(2,3) by (auto simp: delete_conv')
    show ?thesis
      by (rule run_ok_bind[OF run_ok_store_io[OF un]], rule run_ok_bind[OF run_sync_names], blast, blast, rule skip)
        (use dom tmp in \<open>auto simp: is_record_entry_def\<close>)
  qed
  have read: "?run (name # rest) found s1
      (bind_st (store_io (sys_read name s1)) (\<lambda>octets s2. bind_st (store_decode C sha256 octets, s2) (\<lambda>mb s3.
        if name \<noteq> record_name (mb_mailbox_id mb) then (Err StoreMalformed, s3)
        else load_entries C sha256 rest (found @ [mb]) s3)))"
    if s1: "fs_now s1 = fs_now s" and r: "is_record_entry name" for s1
  proof -
    obtain i where i: "map_of (im_names (fs_now s)) name = Some i" using Cons.prems(3) by auto
    obtain mb where mb: "store_decode C sha256 (fl_data (im_files (fs_now s) ! i)) = Ok mb"
      "name = record_name (mb_mailbox_id mb)" "V (mb_mailbox_id mb) = Some mb"
      using read_record[OF Cons.prems(1) _ i] r by (auto simp: is_record_entry_def)
    have rd: "run_ok ?J (\<lambda>v s2. v = fl_data (im_files (fs_now s) ! i) \<and> fs_now s2 = fs_now s) faulty s1
        (sys_read name s1)"
      unfolding sys_read_def by (rule run_steady_call) (use Cons.prems(1) s1 i in auto)
    have "?run (name # rest) found s2 (load_entries C sha256 rest (found @ [mb]) s2)" if "fs_now s2 = fs_now s" for s2
      by (rule run_ok_weaken[OF rest]) (use that Cons.prems r mb in \<open>auto simp: loaded_def\<close>)
    then show ?thesis
      by (intro run_ok_bind[OF run_ok_store_io[OF rd]]) (use mb in auto)
  qed
  have entry: "run_ok ?J (\<lambda>_ s1. fs_now s1 = fs_now s) faulty s (sys_read_entry s)"
    unfolding sys_read_entry_def by (rule run_steady_call) (use Cons.prems(1) in auto)
  show ?case
    unfolding load_entries.simps
    by (rule run_ok_bind[OF run_ok_store_io[OF entry]])
      (use sweep read skip Cons.prems in \<open>auto simp: is_record_entry_def\<close>)
qed

lemma run_file_load:
  assumes "image_ok C sha256 (fs_now s)"
  shows "run_ok (steady C sha256 (crash_records C sha256 (fs_now s)) (image_records C sha256 (fs_now s)))
    (\<lambda>ms _. \<exists>found. ms = sort_key mb_mailbox_id found \<and>
       loaded (image_records C sha256 (fs_now s)) (map fst (im_names (fs_now s))) found)
    faulty s (file_load C sha256 s)"
proof -
  let ?J = "steady C sha256 (crash_records C sha256 (fs_now s)) (image_records C sha256 (fs_now s))"
  have J: "?J (fs_now s)" using assms by (simp add: steady_def safe_image_def)
  have d: "distinct (map fst (im_names (fs_now s)))" using dir_ok_names[OF assms] by (simp add: dir_ok_def)
  have rd: "run_ok ?J (\<lambda>names s1. names = map fst (im_names (fs_now s)) \<and> fs_now s1 = fs_now s) faulty s (sys_read_dir s)"
    unfolding sys_read_dir_def by (rule run_steady_call) (use J in auto)
  show ?thesis
    unfolding file_load_def
  proof (rule run_ok_bind[OF run_ok_store_io[OF rd]])
    fix names and s1 :: fs assume n: "names = map fst (im_names (fs_now s)) \<and> fs_now s1 = fs_now s"
    have "run_ok ?J (\<lambda>ms s2. ?J (fs_now s2) \<and> (\<exists>more. ms = [] @ more \<and> loaded (image_records C sha256 (fs_now s)) names more))
        faulty s1 (load_entries C sha256 names [] s1)"
      using run_load_entries[of C sha256 _ _ s1 names "[]"] J d n
      by (auto simp: dom_map_of_conv_image_fst run_ok_def split: result.splits)
    then show "run_ok ?J (\<lambda>ms _. \<exists>found. ms = sort_key mb_mailbox_id found \<and>
        loaded (image_records C sha256 (fs_now s)) (map fst (im_names (fs_now s))) found) faulty s1
        (bind_st (load_entries C sha256 names [] s1) (\<lambda>found s2. (Ok (sort_key mb_mailbox_id found), s2)))"
      by (rule run_ok_bind) (rule run_ok_return, use n in auto)
  qed
qed

text \<open>A load returns exactly the records of the directory, each once.\<close>

lemma loaded_records:
  assumes ok: "image_ok C sha256 im" and l: "loaded (image_records C sha256 im) (map fst (im_names im)) found"
  shows "distinct (map mb_mailbox_id found)"
    and "image_records C sha256 im mid = Some mb \<longleftrightarrow> mb \<in> set found \<and> mb_mailbox_id mb = mid"
proof -
  let ?V = "image_records C sha256 im"
  have d: "distinct (map fst (im_names im))" using dir_ok_names[OF ok] by (simp add: dir_ok_def)
  have names: "map record_name (map mb_mailbox_id found) = filter is_record_entry (map fst (im_names im))"
    using l by (simp add: loaded_def o_def)
  show "distinct (map mb_mailbox_id found)"
    using distinct_filter[OF d, of is_record_entry] unfolding names[symmetric] by (simp only: distinct_map)
  have V: "?V (mb_mailbox_id mb) = Some mb" if "mb \<in> set found" for mb using l that by (simp add: loaded_def)
  show "?V mid = Some mb \<longleftrightarrow> mb \<in> set found \<and> mb_mailbox_id mb = mid"
  proof
    assume v: "?V mid = Some mb"
    then obtain i where mid: "mid \<noteq> []" and i: "map_of (im_names im) (record_name mid) = Some i"
      by (auto simp: image_records_def view_def split: if_splits option.splits)
    have "record_name mid \<in> set (filter is_record_entry (map fst (im_names im)))"
      using map_of_SomeD[OF i] mid record_not_temporary by (force simp: is_record_entry_def)
    then obtain mb' where mb': "mb' \<in> set found" "record_name mid = record_name (mb_mailbox_id mb')"
      unfolding names[symmetric] by auto
    then show "mb \<in> set found \<and> mb_mailbox_id mb = mid" using V[OF mb'(1)] v by (simp add: record_name_inject)
  qed (use V in auto)
qed


section \<open>The contract\<close>

text \<open>
  A directory that can be synchronised: what a power loss leaves is what is there. This holds of
  a directory found at start, and every operation keeps it.
\<close>

definition file_inv :: "codec \<Rightarrow> (bytes \<Rightarrow> bytes) \<Rightarrow> fs \<Rightarrow> bool" where
  "file_inv C sha256 s \<longleftrightarrow> image_ok C sha256 (fs_now s) \<and> \<not> sync_faults s \<and>
     crash_records C sha256 (fs_now s) = {image_records C sha256 (fs_now s)}"

definition file_records :: "codec \<Rightarrow> (bytes \<Rightarrow> bytes) \<Rightarrow> fs \<Rightarrow> bytes \<Rightarrow> mailbox option" where
  "file_records C sha256 s = image_records C sha256 (fs_now s)"

definition file_storable :: "codec \<Rightarrow> (bytes \<Rightarrow> bytes) \<Rightarrow> mailbox \<Rightarrow> bool" where
  "file_storable C sha256 mb \<longleftrightarrow> storable C sha256 mb \<and> mb_mailbox_id mb \<noteq> []"

lemma run_ok_result:
  assumes "run_ok J Q E s (r, s')"
  shows "J (fs_now s')" and "fs_faults s' = fs_faults s" and "r \<noteq> Panic"
    and "r = Ok v \<Longrightarrow> Q v s'" and "r = Err e \<Longrightarrow> E s'"
  using assms by (auto simp: run_ok_def split: result.splits)

lemma sync_faults_cong: "fs_faults s' = fs_faults s \<Longrightarrow> sync_faults s' = sync_faults s"
  by (simp add: sync_faults_def)

lemma put_failed_inv:
  assumes "file_inv C sha256 s" and "put_failed C sha256 (fs_now s) V s'" and "fs_faults s' = fs_faults s"
  shows "file_inv C sha256 s' \<and> file_records C sha256 s' = file_records C sha256 s"
  using assms sync_faults_cong[OF assms(3)]
  by (auto simp: file_inv_def put_failed_def same_records_def file_records_def)

lemma steady_inv:
  assumes "file_inv C sha256 s" and "fs_faults s' = fs_faults s"
    and "steady C sha256 (crash_records C sha256 (fs_now s)) (image_records C sha256 (fs_now s)) (fs_now s')"
  shows "file_inv C sha256 s' \<and> file_records C sha256 s' = file_records C sha256 s"
  using assms sync_faults_cong[OF assms(2)] sync_image_ok(4)[of C sha256 "fs_now s'"]
  by (auto simp: file_inv_def steady_def safe_image_def file_records_def)

interpretation files: mailbox_store "file_ops C sha256 pid" "file_records C sha256" "file_inv C sha256"
  "file_storable C sha256" for C sha256 pid
proof
  fix s s' :: fs and mb :: mailbox and r :: "(unit, store_error) result" and mid :: bytes
    and ms :: "mailbox list"
  assume inv: "file_inv C sha256 s"
  have ok: "image_ok C sha256 (fs_now s)" and ns: "\<not> sync_faults s" using inv by (simp_all add: file_inv_def)
  note put = run_file_put[OF ok _ _ refl refl refl, of mb pid]
  note rem = run_file_remove[OF ok refl refl refl, of mid]
  show "file_inv C sha256 s' \<and> file_records C sha256 s' = (file_records C sha256 s)(mb_mailbox_id mb \<mapsto> mb)"
    if fs: "file_storable C sha256 mb" and p: "st_put (file_ops C sha256 pid) s mb = (Ok (), s')"
  proof -
    have fp: "file_put C pid s mb = (Ok (), s')" using p by (simp add: file_ops_def)
    have st: "storable C sha256 mb" "mb_mailbox_id mb \<noteq> []" using fs by (simp_all add: file_storable_def)
    note res = run_ok_result[OF put[OF st, unfolded fp]]
    show ?thesis
      using res(1) res(4)[OF refl] ns sync_faults_cong[OF res(2)]
      by (simp add: file_inv_def file_records_def safe_image_def)
  qed
  show "file_inv C sha256 s' \<and> file_records C sha256 s' = file_records C sha256 s \<and> r \<noteq> Panic"
    if fs: "file_storable C sha256 mb" and p: "st_put (file_ops C sha256 pid) s mb = (r, s')" and ne: "r \<noteq> Ok ()"
  proof -
    have fp: "file_put C pid s mb = (r, s')" using p by (simp add: file_ops_def)
    have st: "storable C sha256 mb" "mb_mailbox_id mb \<noteq> []" using fs by (simp_all add: file_storable_def)
    note res = run_ok_result[OF put[OF st, unfolded fp]]
    obtain e where "r = Err e" using ne res(3) by (cases r) auto
    then show ?thesis using put_failed_inv[OF inv res(5) res(2)] by simp
  qed
  show "file_inv C sha256 s' \<and> file_records C sha256 s' = (file_records C sha256 s)(mid := None)"
    if p: "st_remove (file_ops C sha256 pid) s mid = (Ok (), s')"
  proof -
    have fr: "file_remove s mid = (Ok (), s')" using p by (simp add: file_ops_def)
    note res = run_ok_result[OF rem[unfolded fr]]
    show ?thesis
      using res(1) res(4)[OF refl] inv ns sync_faults_cong[OF res(2)]
      by (auto simp: file_inv_def file_records_def safe_image_def same_records_def)
  qed
  show "file_inv C sha256 s' \<and> file_records C sha256 s' = file_records C sha256 s \<and> r \<noteq> Panic"
    if p: "st_remove (file_ops C sha256 pid) s mid = (r, s')" and ne: "r \<noteq> Ok ()"
  proof -
    have fr: "file_remove s mid = (r, s')" using p by (simp add: file_ops_def)
    note res = run_ok_result[OF rem[unfolded fr]]
    obtain e where "r = Err e" using ne res(3) by (cases r) auto
    then show ?thesis using put_failed_inv[OF inv res(5) res(2)] by simp
  qed
  show "file_inv C sha256 s' \<and> file_records C sha256 s' = file_records C sha256 s \<and>
      distinct (map mb_mailbox_id ms) \<and>
      (\<forall>mid mb. file_records C sha256 s mid = Some mb \<longleftrightarrow> mb \<in> set ms \<and> mb_mailbox_id mb = mid)"
    if p: "st_load (file_ops C sha256 pid) s = (Ok ms, s')"
  proof -
    have fl: "file_load C sha256 s = (Ok ms, s')" using p by (simp add: file_ops_def)
    note res = run_ok_result[OF run_file_load[OF ok, unfolded fl]]
    obtain found where f: "ms = sort_key mb_mailbox_id found"
      "loaded (image_records C sha256 (fs_now s)) (map fst (im_names (fs_now s))) found"
      using res(4)[OF refl] by blast
    have "distinct (map mb_mailbox_id ms)"
      using loaded_records(1)[OF ok f(2)] by (simp add: f(1) distinct_map)
    then show ?thesis
      using steady_inv[OF inv res(2,1)] loaded_records(2)[OF ok f(2)] by (simp add: f(1) file_records_def)
  qed
qed


section \<open>Power loss\<close>

text \<open>The machine starts again over what a power loss left, and its system calls work.\<close>

definition reboot :: "fs_image \<Rightarrow> fs" where
  "reboot im = \<lparr>fs_now = im, fs_seen = [], fs_clock = 0, fs_faults = (\<lambda>n c. None)\<rparr>"

text \<open>The images a run passes through after \<open>s\<close>.\<close>

definition passed :: "fs \<Rightarrow> fs \<Rightarrow> fs_image set" where
  "passed s s' = insert (fs_now s') (set (drop (length (fs_seen s)) (fs_seen s')))"

text \<open>The mailboxes a load returns are the records \<open>m\<close>, each once.\<close>

definition lists_records :: "mailbox list \<Rightarrow> (bytes \<Rightarrow> mailbox option) \<Rightarrow> bool" where
  "lists_records ms m \<longleftrightarrow> distinct (map mb_mailbox_id ms) \<and>
     (\<forall>mid mb. m mid = Some mb \<longleftrightarrow> mb \<in> set ms \<and> mb_mailbox_id mb = mid)"

lemma lists_one_record:
  assumes "lists_records ms [mid \<mapsto> mb]"
  shows "ms = [mb]"
proof -
  have "mb' \<in> set ms \<longleftrightarrow> mb' = mb" for mb'
    using assms by (auto simp: lists_records_def split: if_splits)
  then have "set ms = {mb}" by blast
  moreover have "distinct ms" using assms by (simp add: lists_records_def distinct_map)
  ultimately show ?thesis by (cases ms; cases "tl ms") auto
qed

lemma not_faulty_reboot: "\<not> faulty (reboot im)" "\<not> sync_faults (reboot im)"
  by (simp_all add: faulty_def sync_faults_def reboot_def)

lemma reboot_load:
  assumes "image_ok C sha256 im"
  shows "\<exists>ms s'. file_load C sha256 (reboot im) = (Ok ms, s') \<and> lists_records ms (image_records C sha256 im)"
proof -
  have now: "fs_now (reboot im) = im" by (simp add: reboot_def)
  obtain r s' where l: "file_load C sha256 (reboot im) = (r, s')" by fastforce
  note res = run_ok_result[OF run_file_load[of C sha256 "reboot im", unfolded l now, OF assms]]
  have "\<not> faulty s'" using res(2) by (simp add: faulty_def reboot_def)
  then obtain ms where r: "r = Ok ms" using res(3,5) by (cases r) auto
  obtain found where f: "ms = sort_key mb_mailbox_id found"
    "loaded (image_records C sha256 im) (map fst (im_names im)) found"
    using res(4)[OF r] by blast
  have "lists_records ms (image_records C sha256 im)"
    using loaded_records[OF assms f(2)] by (simp add: lists_records_def f(1) distinct_map)
  with l r show ?thesis by blast
qed

lemma run_ok_passed: "run_ok J Q E s (r, s') \<Longrightarrow> im \<in> passed s s' \<Longrightarrow> J im"
  by (auto simp: run_ok_def passed_def list_all_iff)

lemma crash_recordsI: "crash im im' \<Longrightarrow> image_records C sha256 im' \<in> crash_records C sha256 im"
  by (auto simp: crash_records_def)

lemma file_storable_reads_back:
  assumes "reads_back C" and "mailbox_wf sha256 mb" and "typed_mailbox mb"
  shows "file_storable C sha256 mb"
  using store_roundtrip_lemma[OF assms] assms(3)
  by (auto simp: file_storable_def storable_def typed_mailbox_def split: result.split)

text \<open>
  C6: A write of the directory store survives a power loss. Whatever system calls of the write
  fail and at whatever moment the power goes, even between two system calls, even when data not
  yet synchronised are lost or torn and directory changes reach the disk in part, the next start
  loads without error. It finds the records that could have been found before the write, or
  these with the one record replaced by the new mailbox, never anything else. Once the write
  has returned success, the new mailbox and every other record are found for certain.
\<close>

theorem put_survives_power_loss:
  assumes "reads_back C" and "mailbox_wf sha256 mb" and "typed_mailbox mb"
    and "image_ok C sha256 (fs_now s)" and "file_put C pid s mb = (r, s')"
    and "im \<in> passed s s'" and "crash im im'"
  shows "\<exists>ms s''. file_load C sha256 (reboot im') = (Ok ms, s'') \<and>
    (\<exists>m \<in> crash_records C sha256 (fs_now s).
       lists_records ms m \<or> lists_records ms (m(mb_mailbox_id mb \<mapsto> mb))) \<and>
    (r = Ok () \<longrightarrow> im = fs_now s' \<longrightarrow>
       lists_records ms ((file_records C sha256 s)(mb_mailbox_id mb \<mapsto> mb)))"
proof -
  have st: "storable C sha256 mb" "mb_mailbox_id mb \<noteq> []"
    using file_storable_reads_back[OF assms(1-3)] by (simp_all add: file_storable_def)
  note run = run_file_put[OF assms(4) st refl refl refl, of pid, unfolded assms(5)]
  have safe: "safe_image C sha256 (crash_records C sha256 (fs_now s) \<union>
      (\<lambda>m. m(mb_mailbox_id mb \<mapsto> mb)) ` crash_records C sha256 (fs_now s)) im"
    using run_ok_passed[OF run assms(6)] .
  have ok': "image_ok C sha256 im'" using crash_image(1)[OF _ assms(7)] safe by (simp add: safe_image_def)
  obtain ms s'' where l: "file_load C sha256 (reboot im') = (Ok ms, s'')"
    "lists_records ms (image_records C sha256 im')"
    using reboot_load[OF ok'] by blast
  have "image_records C sha256 im' \<in> crash_records C sha256 im" by (rule crash_recordsI[OF assms(7)])
  moreover have "crash_records C sha256 im = {(file_records C sha256 s)(mb_mailbox_id mb \<mapsto> mb)}"
    if "r = Ok ()" "im = fs_now s'"
    using run_ok_result(4)[OF run that(1)] that(2) by (simp add: file_records_def)
  moreover have "crash_records C sha256 im \<subseteq> crash_records C sha256 (fs_now s) \<union>
      (\<lambda>m. m(mb_mailbox_id mb \<mapsto> mb)) ` crash_records C sha256 (fs_now s)"
    using safe by (simp add: safe_image_def)
  ultimately have "\<exists>m \<in> crash_records C sha256 (fs_now s).
      image_records C sha256 im' = m \<or> image_records C sha256 im' = m(mb_mailbox_id mb \<mapsto> mb)"
    and "r = Ok () \<Longrightarrow> im = fs_now s' \<Longrightarrow>
      image_records C sha256 im' = (file_records C sha256 s)(mb_mailbox_id mb \<mapsto> mb)"
    by blast+
  with l show ?thesis by metis
qed

text \<open>An empty directory.\<close>

definition empty_image :: fs_image where
  "empty_image = \<lparr>im_files = [], im_names = [], im_disk = [], im_pending = [], im_mode = 0x1C0\<rparr>"

lemma empty_image_ok: "image_ok C sha256 empty_image"
  by (simp add: image_ok_def empty_image_def dir_ok_def)

lemma crash_records_empty: "crash_records C sha256 empty_image = {Map.empty}"
proof -
  have "sync_image empty_image = empty_image" by (simp add: sync_image_def empty_image_def)
  then have "crash_records C sha256 empty_image = {image_records C sha256 empty_image}"
    using sync_image_ok(2)[OF empty_image_ok] by metis
  then show ?thesis by (simp add: image_records_def view_def empty_image_def fun_eq_iff)
qed

theorem put_survives_power_loss_witness:
  "\<exists>s' im' ms s''. file_put demo_store_codec 7 (reboot empty_image) demo_record = (Ok (), s') \<and>
     crash (fs_now s') im' \<and>
     file_load demo_store_codec (\<lambda>_. replicate 32 9) (reboot im') = (Ok ms, s'') \<and> set ms = {demo_record}"
proof -
  let ?C = demo_store_codec and ?h = "\<lambda>_. replicate 32 9" and ?s = "reboot empty_image"
  obtain r s' where p: "file_put ?C 7 ?s demo_record = (r, s')" by fastforce
  have now: "fs_now ?s = empty_image" by (simp add: reboot_def)
  have r: "r = Ok ()"
    using p by (simp add: file_put_def Let_def demo_store_codec_ok(2) replace_record_def reboot_def
        empty_image_def sync_directory_def sys_create_new_def sys_set_permissions_def sys_write_all_def
        sys_sync_file_def sys_rename_def sys_open_dir_def sys_sync_dir_def sys_call_def dir_change_def
        update_file_def sync_image_def)
  obtain im' where c: "crash (fs_now s') im'"
  proof -
    have st: "storable ?C ?h demo_record" "mb_mailbox_id demo_record \<noteq> []"
      using file_storable_reads_back[OF demo_store_codec_ok(1) demo_record_wf] by (simp_all add: file_storable_def)
    note run = run_file_put[OF _ st refl refl refl, of ?s 7, unfolded p now, OF empty_image_ok]
    have "crash_records ?C ?h (fs_now s') \<noteq> {}" using run_ok_result(4)[OF run r] by simp
    then show thesis using that by (auto simp: crash_records_def)
  qed
  have in_passed: "fs_now s' \<in> passed ?s s'" by (simp add: passed_def)
  obtain ms s'' where l: "file_load ?C ?h (reboot im') = (Ok ms, s'')"
    "lists_records ms ((file_records ?C ?h ?s)(mb_mailbox_id demo_record \<mapsto> demo_record))"
    using put_survives_power_loss[OF demo_store_codec_ok(1) demo_record_wf _ p in_passed c, unfolded now,
        OF empty_image_ok] r by blast
  have "file_records ?C ?h ?s = Map.empty"
    unfolding file_records_def now by (simp add: image_records_def view_def empty_image_def fun_eq_iff)
  with l(2) have "ms = [demo_record]" by (intro lists_one_record) simp
  then have "set ms = {demo_record}" by simp
  with p r c l(1) show ?thesis by blast
qed


section \<open>When the directory cannot be synchronised\<close>

lemma sys_call_works:
  "fs_faults s (fs_clock s) c = None \<Longrightarrow> sys_call c partial f s =
     (fst (f (fs_now s)), s\<lparr>fs_seen := fs_seen s @ [fs_now s], fs_clock := Suc (fs_clock s),
        fs_now := snd (f (fs_now s))\<rparr>)"
  by (simp add: sys_call_def Let_def)

lemmas sys_calls =
  sys_create_new_def sys_set_permissions_def sys_write_all_def sys_sync_file_def sys_rename_def
  sys_open_dir_def sys_sync_dir_def sys_unlink_def dir_change_def update_file_def append_data_def

lemma temporary_not_record_name: "temporary_name a pid \<noteq> record_name b"
proof
  assume eq: "temporary_name a pid = record_name b"
  show False
  proof (cases "b = []")
    case True
    then have "length (temporary_name a pid) = 5" using eq by (simp add: record_name_def lower_hex_def)
    moreover have "decimal pid \<noteq> []" by (subst decimal.simps) simp
    ultimately show False by (cases "decimal pid") (auto simp: temporary_name_def)
  next
    case False
    then show False using eq record_extension[OF False] temporary_extension[of a pid] by simp
  qed
qed

text \<open>
  C40: A failed write may have replaced the record. When every system call of a write works
  except the final synchronisation of the directory, the store reports an error although the
  record has already been renamed into place: the directory shows the new mailbox, and a load
  returns it, while the relay, told that the write failed, keeps serving the previous mailbox.
\<close>

theorem failed_sync_replaces_record:
  assumes "reads_back C" and "mailbox_wf sha256 mb" and "typed_mailbox mb"
    and "store_encode C (snapshot mb) = Ok octets" and "image_ok C sha256 (fs_now s)"
    and "map_of (im_names (fs_now s)) (temporary_name (mb_mailbox_id mb) pid) = None"
    and "\<forall>n c. fs_faults s n c = None \<longleftrightarrow> c \<noteq> SyncDir"
  shows "\<exists>s'. file_put C pid s mb = (Err StoreIo, s') \<and>
    file_records C sha256 s' = (file_records C sha256 s)(mb_mailbox_id mb \<mapsto> mb)"
proof -
  let ?tmp = "temporary_name (mb_mailbox_id mb) pid" and ?target = "record_name (mb_mailbox_id mb)"
    and ?im = "fs_now s"
  let ?i = "length (im_files ?im)"
    and ?f = "\<lparr>fl_data = octets, fl_mode = 0x180, fl_synced = True\<rparr>"
  obtain s' where p: "file_put C pid s mb = (Err StoreIo, s')" and
    s': "im_files (fs_now s') = im_files ?im @ [?f]"
      "im_names (fs_now s') = AList.update ?target ?i (AList.delete ?tmp (AList.update ?tmp ?i (im_names ?im)))"
  proof -
    have sync: "\<exists>k. fs_faults s n SyncDir = Some k" for n using assms(7) by (metis option.exhaust)
    have works: "fs_faults s n c = None" if "c \<noteq> SyncDir" for n c using assms(7) that by blast
    have absent: "map_of (AList.update ?target ?i (AList.delete ?tmp (AList.update ?tmp ?i (im_names ?im)))) ?tmp = None"
      by (simp add: update_conv' delete_conv' temporary_not_record_name)
    show thesis
      using that works assms(4,6) absent sync[of "Suc (Suc (Suc (Suc (Suc (Suc (fs_clock s))))))"]
      by (auto simp: file_put_def Let_def replace_record_def sync_directory_def sys_calls sys_call_works
          sys_call_def new_file_def update_conv' nth_append)
  qed
  have dec: "store_decode C sha256 octets = Ok mb" by (rule store_roundtrip_lemma[OF assms(1-4)])
  have id: "mb_mailbox_id mb \<noteq> []" using assms(3) by (auto simp: typed_mailbox_def)
  have old: "view C sha256 (im_files ?im @ [?f]) (im_names ?im) = view C sha256 (im_files ?im) (im_names ?im)"
  proof (rule view_cong)
    fix mid i assume "map_of (im_names ?im) (record_name mid) = Some i"
    then have "i < ?i" using map_of_entry_ok[OF dir_ok_names[OF assms(5)]] by (simp add: dir_entry_ok_def)
    then show "fl_data ((im_files ?im @ [?f]) ! i) = fl_data (im_files ?im ! i)" by (simp add: nth_append)
  qed
  have "file_records C sha256 s' = (file_records C sha256 s)(mb_mailbox_id mb \<mapsto> mb)"
    unfolding file_records_def image_records_def s'
    by (subst view_update_record[of C sha256 _ _ mb])
      (simp_all add: dec id nth_append view_other old)
  with p show ?thesis by blast
qed

theorem failed_sync_replaces_record_witness:
  "\<exists>s'. file_put demo_store_codec 7
       (reboot empty_image\<lparr>fs_faults := \<lambda>n c. if c = SyncDir then Some 0 else None\<rparr>) demo_record = (Err StoreIo, s') \<and>
     file_records demo_store_codec (\<lambda>_. replicate 32 9) s' (replicate 32 1) = Some demo_record"
proof -
  have id: "mb_mailbox_id demo_record = replicate 32 1" by (simp add: demo_record_def)
  let ?s = "reboot empty_image\<lparr>fs_faults := \<lambda>n c. if c = SyncDir then Some 0 else None\<rparr>"
  have now: "fs_now ?s = empty_image" by (simp add: reboot_def)
  have "image_ok demo_store_codec (\<lambda>_. replicate 32 9) (fs_now ?s)" unfolding now by (rule empty_image_ok)
  moreover have "map_of (im_names (fs_now ?s)) (temporary_name (mb_mailbox_id demo_record) 7) = None"
    unfolding now by (simp add: empty_image_def)
  moreover have "\<forall>n c. fs_faults ?s n c = None \<longleftrightarrow> c \<noteq> SyncDir" by simp
  ultimately obtain s' where s': "file_put demo_store_codec 7 ?s demo_record = (Err StoreIo, s')"
    "file_records demo_store_codec (\<lambda>_. replicate 32 9) s' =
      (file_records demo_store_codec (\<lambda>_. replicate 32 9) ?s)(mb_mailbox_id demo_record \<mapsto> demo_record)"
    using failed_sync_replaces_record[OF demo_store_codec_ok(1) demo_record_wf demo_store_codec_ok(2), of ?s 7]
    by blast
  then have "file_records demo_store_codec (\<lambda>_. replicate 32 9) s' (replicate 32 1) = Some demo_record"
    by (simp add: id)
  with s'(1) show ?thesis by blast
qed

end
