(* ===== verification/Relay_Shell.thy ===== *)
theory Relay_Shell
  imports File_Store Relay Channel Ip_Addr
begin

text \<open>
  What the two relay binaries, \<^verbatim>\<open>src/src/bin/cbcl-pairing-relay.rs\<close> and
  \<^verbatim>\<open>src/src/bin/cbcl-pairing-relay-ws.rs\<close>, do before they serve: reading the command line
  and the operator key, drawing randomness and starting the service. The clock, the random
  source, the argument list, the key file and the store directory are arguments. The names of
  the definitions for the second binary start with \<open>ws_\<close>.
\<close>

section \<open>Constants\<close>

definition MAX_WIRE_MESSAGE :: usize where "MAX_WIRE_MESSAGE = 70000"
definition DEFAULT_LIMIT :: u32 where "DEFAULT_LIMIT = 240"
definition DEFAULT_WINDOW_SECONDS :: u64 where "DEFAULT_WINDOW_SECONDS = 60"
definition DEFAULT_LIMITER_CAP :: usize where "DEFAULT_LIMITER_CAP = 100000"
definition DEFAULT_MAILBOX_CAP :: u64 where "DEFAULT_MAILBOX_CAP = 10000"
definition DEFAULT_QUEUE_CAP :: u64 where "DEFAULT_QUEUE_CAP = 512 * 1024 * 1024"

section \<open>Socket addresses\<close>

text \<open>The parser of \<^verbatim>\<open>std::net::SocketAddr\<close>: an address, a scope for IPv6, and a port.\<close>

datatype socket_addr = SocketV4 bytes u16 | SocketV6 bytes u32 u16

definition read_port :: "bytes \<Rightarrow> (u16 \<times> bytes) option" where
  "read_port s = Option.bind (read_given_char 58 s) (\<lambda>r. read_number 10 (length r) u16_max True r)"

definition read_scope_id :: "bytes \<Rightarrow> u32 \<times> bytes" where
  "read_scope_id s =
     (case Option.bind (read_given_char 37 s) (\<lambda>r. read_number 10 (length r) u32_max True r) of
        None \<Rightarrow> (0, s) | Some v \<Rightarrow> v)"

definition read_socket_v4 :: "bytes \<Rightarrow> (socket_addr \<times> bytes) option" where
  "read_socket_v4 s =
     Option.bind (read_ipv4 s) (\<lambda>(octets, r).
     Option.bind (read_port r) (\<lambda>(port, r1). Some (SocketV4 (map of_nat octets) port, r1)))"

definition read_socket_v6 :: "bytes \<Rightarrow> (socket_addr \<times> bytes) option" where
  "read_socket_v6 s =
     Option.bind (read_given_char 91 s) (\<lambda>r.
     Option.bind (read_ipv6 r) (\<lambda>(groups, r1).
     let (scope, r2) = read_scope_id r1 in
     Option.bind (read_given_char 93 r2) (\<lambda>r3.
     Option.bind (read_port r3) (\<lambda>(port, r4). Some (SocketV6 (group_octets groups) scope port, r4)))))"

definition parse_socket_addr :: "string \<Rightarrow> socket_addr option" where
  "parse_socket_addr v =
     (case (case read_socket_v4 (ascii v) of None \<Rightarrow> read_socket_v6 (ascii v) | found \<Rightarrow> found) of
        Some (address, []) \<Rightarrow> Some address
      | _ \<Rightarrow> None)"

section \<open>Command line\<close>

record shell_args =
  ar_listen :: socket_addr
  ar_operator_key_file :: string
  ar_conformance_allocation :: bool
  ar_check_config :: bool
  ar_store_dir :: "string option"
  ar_emergency_close :: bool

text \<open>The local variables of \<^verbatim>\<open>parse_args\<close>.\<close>

record args_state =
  as_listen :: "socket_addr option"
  as_operator_key_file :: "string option"
  as_conformance_allocation :: bool
  as_check_config :: bool
  as_store_dir :: "string option"
  as_emergency_close :: bool

definition no_args :: args_state where
  "no_args = \<lparr>as_listen = None, as_operator_key_file = None, as_conformance_allocation = False,
     as_check_config = False, as_store_dir = None, as_emergency_close = False\<rparr>"

fun args_loop :: "string \<Rightarrow> args_state \<Rightarrow> string list \<Rightarrow> (args_state, string) result" where
  "args_loop usage a [] = Ok a"
| "args_loop usage a (argument # rest) =
     (if argument = ''--listen'' then
        (case rest of
           [] \<Rightarrow> Err ''--listen requires an address''
         | value # rest' \<Rightarrow>
             (case parse_socket_addr value of
                None \<Rightarrow> Err ''invalid --listen address''
              | Some address \<Rightarrow> args_loop usage (a\<lparr>as_listen := Some address\<rparr>) rest'))
      else if argument = ''--operator-key-file'' then
        (case rest of
           [] \<Rightarrow> Err ''--operator-key-file requires a path''
         | value # rest' \<Rightarrow> args_loop usage (a\<lparr>as_operator_key_file := Some value\<rparr>) rest')
      else if argument = ''--enable-conformance-allocation'' then
        args_loop usage (a\<lparr>as_conformance_allocation := True\<rparr>) rest
      else if argument = ''--check-config'' then args_loop usage (a\<lparr>as_check_config := True\<rparr>) rest
      else if argument = ''--store-dir'' then
        (case rest of
           [] \<Rightarrow> Err ''--store-dir requires a path''
         | value # rest' \<Rightarrow> args_loop usage (a\<lparr>as_store_dir := Some value\<rparr>) rest')
      else if argument = ''--emergency-close'' then
        args_loop usage (a\<lparr>as_emergency_close := True\<rparr>) rest
      else if argument = ''--help'' \<or> argument = ''-h'' then Err usage
      else Err (''unknown argument: '' @ argument))"

definition finish_args :: "args_state \<Rightarrow> (shell_args, string) result" where
  "finish_args a =
     bind_result (ok_or ''missing --listen'' (as_listen a)) (\<lambda>listen.
     bind_result (ok_or ''missing --operator-key-file'' (as_operator_key_file a)) (\<lambda>key_file.
       Ok \<lparr>ar_listen = listen, ar_operator_key_file = key_file,
           ar_conformance_allocation = as_conformance_allocation a,
           ar_check_config = as_check_config a, ar_store_dir = as_store_dir a,
           ar_emergency_close = as_emergency_close a\<rparr>))"

definition parse_args :: "string list \<Rightarrow> (shell_args, string) result" where
  "parse_args args = bind_result (args_loop
     ''usage: cbcl-pairing-relay --listen ADDR --operator-key-file PATH [--store-dir DIR] [--enable-conformance-allocation] [--check-config] [--emergency-close]''
     no_args args) finish_args"

definition ws_parse_args :: "string list \<Rightarrow> (shell_args, string) result" where
  "ws_parse_args args = bind_result (args_loop
     ''usage: cbcl-pairing-relay-ws --listen ADDR --operator-key-file PATH [--store-dir DIR] [--enable-conformance-allocation] [--check-config] [--emergency-close]''
     no_args args) finish_args"

section \<open>Operator key\<close>

definition hex_nibble :: "byte \<Rightarrow> (byte, string) result" where
  "hex_nibble v =
     (if 48 \<le> v \<and> v \<le> 57 then Ok (v - 48)
      else if 97 \<le> v \<and> v \<le> 102 then Ok (v - 97 + 10)
      else Err ''operator key hex must be lowercase'')"

text \<open>The loop over \<^verbatim>\<open>chunks_exact(2)\<close>.\<close>

fun key_hex :: "bytes \<Rightarrow> (bytes, string) result" where
  "key_hex (a # b # rest) =
     bind_result (hex_nibble a) (\<lambda>high.
     bind_result (hex_nibble b) (\<lambda>low.
     bind_result (key_hex rest) (\<lambda>key. Ok (or (push_bit 4 high) low # key))))"
| "key_hex _ = Ok []"

definition trim_line_end :: "bytes \<Rightarrow> bytes" where
  "trim_line_end text = rev (dropWhile (\<lambda>b. b = 13 \<or> b = 10) (rev text))"

definition is_ascii_hexdigit :: "byte \<Rightarrow> bool" where
  "is_ascii_hexdigit b \<longleftrightarrow> 48 \<le> b \<and> b \<le> 57 \<or> 97 \<le> b \<and> b \<le> 102 \<or> 65 \<le> b \<and> b \<le> 70"

text \<open>The octets \<^verbatim>\<open>std::str::from_utf8\<close> accepts.\<close>

definition continuation :: "byte \<Rightarrow> bool" where
  "continuation b \<longleftrightarrow> 0x80 \<le> b \<and> b \<le> 0xBF"

fun is_utf8 :: "bytes \<Rightarrow> bool" where
  "is_utf8 [] = True"
| "is_utf8 (a # rest) =
     (if a < 0x80 then is_utf8 rest
      else case rest of
        [] \<Rightarrow> False
      | b # rest1 \<Rightarrow>
          if 0xC2 \<le> a \<and> a \<le> 0xDF then continuation b \<and> is_utf8 rest1
          else case rest1 of
            [] \<Rightarrow> False
          | c # rest2 \<Rightarrow>
              if 0xE0 \<le> a \<and> a \<le> 0xEF then
                continuation b \<and> (a = 0xE0 \<longrightarrow> 0xA0 \<le> b) \<and> (a = 0xED \<longrightarrow> b \<le> 0x9F) \<and>
                continuation c \<and> is_utf8 rest2
              else case rest2 of
                [] \<Rightarrow> False
              | d # rest3 \<Rightarrow>
                  0xF0 \<le> a \<and> a \<le> 0xF4 \<and> continuation b \<and> (a = 0xF0 \<longrightarrow> 0x90 \<le> b) \<and>
                  (a = 0xF4 \<longrightarrow> b \<le> 0x8F) \<and> continuation c \<and> continuation d \<and> is_utf8 rest3)"

text \<open>The mode and the contents of the key file, or the text of the error reading them.\<close>

record key_file =
  kf_mode :: "(nat, string) result"
  kf_bytes :: "(bytes, string) result"

definition key_error :: "string \<Rightarrow> string" where
  "key_error e = ''operator key: '' @ e"

definition private_bytes :: "key_file \<Rightarrow> (bytes, string) result" where
  "private_bytes f =
     bind_result (map_err key_error (kf_mode f)) (\<lambda>mode.
       if and mode 0x3F \<noteq> 0
       then Err ''operator key file must not be accessible by group or others''
       else map_err key_error (kf_bytes f))"

definition read_operator_key :: "key_file \<Rightarrow> (bytes, string) result" where
  "read_operator_key f =
     bind_result (private_bytes f) (\<lambda>bs.
       if length bs = 32 then Ok bs
       else if \<not> is_utf8 bs then Err ''operator key must be raw 32 octets or lowercase hex''
       else
         let text = trim_line_end bs
         in if length text \<noteq> 64 \<or> \<not> list_all is_ascii_hexdigit text
            then Err ''operator key must be raw 32 octets or 64 hex digits''
            else key_hex text)"

definition ws_read_operator_key :: "key_file \<Rightarrow> (bytes, string) result" where
  "ws_read_operator_key f =
     bind_result (private_bytes f) (\<lambda>bs.
       if length bs = 32 then Ok bs
       else if \<not> is_utf8 bs then Err ''operator key must be raw 32 octets or lowercase hex''
       else
         let text = trim_line_end bs
         in if length text \<noteq> 64
            then Err ''operator key must be raw 32 octets or 64 hex digits''
            else key_hex text)"

section \<open>Randomness\<close>

text \<open>
  \<^verbatim>\<open>getrandom::fill\<close> is the argument \<open>fill\<close>: given a length and the state of the source it
  returns that many octets or fails. None: the source never yields an accepted nameplate.
\<close>

definition from_be_bytes :: "bytes \<Rightarrow> nat" where
  "from_be_bytes bs = foldl (\<lambda>n b. n * 256 + unat b) 0 bs"

definition draw_candidate :: "(nat \<Rightarrow> 'g \<Rightarrow> (bytes, unit) result \<times> 'g) \<Rightarrow> 'g \<Rightarrow> (u32, unit) result \<times> 'g" where
  "draw_candidate fill g = bind_st (fill 4 g) (\<lambda>bs g1. (Ok (from_be_bytes bs), g1))"

definition random_values ::
  "(nat \<Rightarrow> 'g \<Rightarrow> (bytes, unit) result \<times> 'g) \<Rightarrow> 'g \<Rightarrow> ((relay_randomness, unit) result \<times> 'g) option" where
  "random_values fill g =
     (case fill 64 g of
        (Ok bs, g1) \<Rightarrow>
          map_option (\<lambda>drawn. bind_st drawn (\<lambda>nameplate g2.
            (Ok \<lparr>rr_mailbox_id = take 32 bs, rr_membership_token = take 32 (drop 32 bs),
                 rr_nameplate = nameplate\<rparr>, g2)))
            (sample_nameplate (draw_candidate fill) g1)
      | (Err e, g1) \<Rightarrow> Some (Err (), g1)
      | (Panic, g1) \<Rightarrow> Some (Panic, g1))"

section \<open>Starting the service\<close>

definition shell_config :: "bytes \<Rightarrow> shell_args \<Rightarrow> relay_config" where
  "shell_config operator_key args =
     \<lparr>rc_operator_key = operator_key,
      rc_limiter = limiter_config_new
        \<lparr>op_limit = DEFAULT_LIMIT, op_window_seconds = DEFAULT_WINDOW_SECONDS\<rparr> DEFAULT_LIMITER_CAP 30,
      rc_capacity = \<lparr>cap_open_mailboxes = DEFAULT_MAILBOX_CAP, cap_queue_bytes = DEFAULT_QUEUE_CAP,
        cap_limiter_entries = DEFAULT_LIMITER_CAP\<rparr>,
      rc_allocation_enabled = ar_conformance_allocation args\<rparr>"

fun store_error_text :: "store_error \<Rightarrow> string" where
  "store_error_text StoreIo = ''Io''"
| "store_error_text StoreMalformed = ''Malformed''"
| "store_error_text StoreConflict = ''Conflict''"

fun relay_error_text :: "relay_error \<Rightarrow> string" where
  "relay_error_text RelayInvalidConfiguration = ''InvalidConfiguration''"
| "relay_error_text RelayLimiter = ''Limiter''"
| "relay_error_text RelayStorage = ''Storage''"

definition file_env ::
  "codec \<Rightarrow> (bytes \<Rightarrow> bytes \<Rightarrow> bytes) \<Rightarrow> (bytes \<Rightarrow> bytes) \<Rightarrow> u32 \<Rightarrow> fs relay_env" where
  "file_env C hmac sha256 pid =
     \<lparr>env_hmac = hmac, env_sha256 = sha256, env_store = file_ops C sha256 pid\<rparr>"

text \<open>The service a process runs, over either store, and how \<^verbatim>\<open>run\<close> goes on from there.\<close>

datatype shell_service = OverMemory "memory_store relay" | OverFiles "fs relay"

datatype startup = Listens shell_service | Prints string shell_service

definition open_service ::
  "codec \<Rightarrow> (bytes \<Rightarrow> bytes \<Rightarrow> bytes) \<Rightarrow> (bytes \<Rightarrow> bytes) \<Rightarrow> u32 \<Rightarrow> fs \<Rightarrow> relay_config \<Rightarrow> shell_args \<Rightarrow>
     (shell_service, string) result" where
  "open_service C hmac sha256 pid s config args =
     (case ar_store_dir args of
        Some directory \<Rightarrow>
          (case file_open s of
             (Ok _, s1) \<Rightarrow>
               map_err relay_error_text
                 (bind_result (with_store (file_env C hmac sha256 pid) config s1) (\<lambda>r. Ok (OverFiles r)))
           | (Err e, s1) \<Rightarrow> Err (store_error_text e)
           | (Panic, s1) \<Rightarrow> Panic)
      | None \<Rightarrow>
          map_err relay_error_text
            (bind_result (relay_new C hmac sha256 config) (\<lambda>r. Ok (OverMemory r))))"

definition close_service ::
  "codec \<Rightarrow> (bytes \<Rightarrow> bytes \<Rightarrow> bytes) \<Rightarrow> (bytes \<Rightarrow> bytes) \<Rightarrow> u32 \<Rightarrow> u64 \<Rightarrow> shell_service \<Rightarrow>
     (shell_service, string) result" where
  "close_service C hmac sha256 pid now service =
     map_err relay_error_text
       (case service of
          OverMemory r \<Rightarrow>
            (let (res, r1) = emergency_close (memory_env C hmac sha256) now r
             in bind_result res (\<lambda>_. Ok (OverMemory r1)))
        | OverFiles r \<Rightarrow>
            (let (res, r1) = emergency_close (file_env C hmac sha256 pid) now r
             in bind_result res (\<lambda>_. Ok (OverFiles r1))))"

text \<open>\<^verbatim>\<open>run\<close> up to binding the listener; \<open>banner\<close> is the line printed for \<^verbatim>\<open>--check-config\<close>.\<close>

definition start_service ::
  "string \<Rightarrow> (shell_args, string) result \<Rightarrow> (bytes, string) result \<Rightarrow> codec \<Rightarrow> (bytes \<Rightarrow> bytes \<Rightarrow> bytes) \<Rightarrow>
     (bytes \<Rightarrow> bytes) \<Rightarrow> u32 \<Rightarrow> fs \<Rightarrow> u64 \<Rightarrow> (startup, string) result" where
  "start_service banner parsed key C hmac sha256 pid s now =
     bind_result parsed (\<lambda>args.
     bind_result key (\<lambda>operator_key.
     bind_result (open_service C hmac sha256 pid s (shell_config operator_key args) args) (\<lambda>service.
       if ar_emergency_close args then
         if ar_store_dir args = None then Err ''--emergency-close requires --store-dir''
         else bind_result (close_service C hmac sha256 pid now service) (\<lambda>closed.
           Ok (Prints ''EMERGENCY CLOSE OK allocation=disabled'' closed))
       else if ar_check_config args then Ok (Prints banner service)
       else Ok (Listens service))))"

definition relay_run ::
  "string list \<Rightarrow> (string \<Rightarrow> key_file) \<Rightarrow> codec \<Rightarrow> (bytes \<Rightarrow> bytes \<Rightarrow> bytes) \<Rightarrow> (bytes \<Rightarrow> bytes) \<Rightarrow> u32 \<Rightarrow>
     fs \<Rightarrow> u64 \<Rightarrow> (startup, string) result" where
  "relay_run argv files C hmac sha256 pid s now =
     (let parsed = parse_args argv
      in start_service ''CONFIG OK allocation=disabled-by-default'' parsed
           (bind_result parsed (\<lambda>args. read_operator_key (files (ar_operator_key_file args))))
           C hmac sha256 pid s now)"

definition ws_relay_run ::
  "string list \<Rightarrow> (string \<Rightarrow> key_file) \<Rightarrow> codec \<Rightarrow> (bytes \<Rightarrow> bytes \<Rightarrow> bytes) \<Rightarrow> (bytes \<Rightarrow> bytes) \<Rightarrow> u32 \<Rightarrow>
     fs \<Rightarrow> u64 \<Rightarrow> (startup, string) result" where
  "ws_relay_run argv files C hmac sha256 pid s now =
     (let parsed = ws_parse_args argv
      in start_service ''CONFIG OK allocation=disabled-by-default transport=websocket'' parsed
           (bind_result parsed (\<lambda>args. ws_read_operator_key (files (ar_operator_key_file args))))
           C hmac sha256 pid s now)"

text \<open>The exit code of the process when \<^verbatim>\<open>run\<close> fails.\<close>

fun exit_code :: "('a, string) result \<Rightarrow> nat" where
  "exit_code (Ok _) = 0"
| "exit_code (Err _) = 78"
| "exit_code Panic = 101"

end
