(* ===== verification/File_Relay_Props.thy ===== *)
theory File_Relay_Props
  imports File_Store_Props Relay_Props Relay_Shell
begin

text \<open>
  The relay over the directory store: what the service holds in memory is what a power loss at
  any moment between two calls leaves on the disk.
\<close>

lemma file_store_law:
  assumes "reads_back C" and "\<And>x. length (sha256 x) = 32"
  shows "store_law (file_env C hmac sha256 pid) (file_records C sha256) (file_inv C sha256)"
proof -
  have "mailbox_store (file_ops C sha256 pid) (file_records C sha256) (file_inv C sha256)
      (\<lambda>mb. mailbox_wf sha256 mb \<and> typed_mailbox mb)"
    by (rule mailbox_store_weaken[OF files.mailbox_store_axioms])
      (use file_storable_reads_back[OF assms(1)] in blast)
  with assms(2) show ?thesis by (simp add: store_law_def file_env_def)
qed

lemma crash_settled:
  assumes "file_inv C sha256 s" and "crash (fs_now s) im"
  shows "file_inv C sha256 (reboot im)" and "file_records C sha256 (reboot im) = file_records C sha256 s"
proof -
  have now: "fs_now (reboot im) = im" by (simp add: reboot_def)
  have ok: "image_ok C sha256 im" using crash_image(1)[OF _ assms(2)] assms(1) by (simp add: file_inv_def)
  have "sync_image im = im" using assms(2) by (simp add: sync_image_def crash_def)
  then have "crash_records C sha256 im = {image_records C sha256 im}"
    using sync_image_ok(2)[OF ok] by simp
  then show "file_inv C sha256 (reboot im)"
    using ok not_faulty_reboot(2) by (simp add: file_inv_def now)
  show "file_records C sha256 (reboot im) = file_records C sha256 s"
    using crash_recordsI[OF assms(2), of C sha256] assms(1) by (simp add: file_records_def now file_inv_def)
qed

text \<open>
  C5: The relay over the directory store survives a power loss. From any start over a
  consistent directory, through any sequence of client messages, disconnects, sweeps, operator
  actions and restarts, with any failing system calls except the synchronisation of the
  directory, the service can lose power between two calls: whatever the disk then holds, the
  next start is accepted and serves exactly the mailboxes, frames and byte account the service
  had, with no connection attached.
\<close>

theorem relay_survives_power_loss:
  assumes "reads_back C" and "\<And>x. length (sha256 x) = 32" and "relay_config_typed config"
    and "start_ok (file_env C hmac sha256 pid) (file_records C sha256) (file_inv C sha256) config s"
    and "relay_reach (file_env C hmac sha256 pid) config s r"
    and "crash (fs_now (rl_store r)) im"
  shows "\<exists>r'. with_store (file_env C hmac sha256 pid) config (reboot im) = Ok r' \<and>
    rl_mailboxes r' = rl_mailboxes r \<and> rl_queue_bytes r' = rl_queue_bytes r \<and> rl_connections r' = []"
proof -
  let ?E = "file_env C hmac sha256 pid" and ?rec = "file_records C sha256" and ?inv = "file_inv C sha256"
  have law: "store_law ?E ?rec ?inv" by (rule file_store_law[OF assms(1,2)])
  have I: "relay_inv ?E ?rec ?inv r" and cfg: "same_settings config (rl_config r)" and acc: "accepted_config config"
    using relay_reach_inv[OF assms(4,5)] by blast+
  have inv: "?inv (rl_store r)" using relay_invD(9)[OF I] .
  note c = crash_settled[OF inv assms(6)]
  let ?r = "r\<lparr>rl_store := reboot im\<rparr>"
  have I2: "relay_inv ?E ?rec ?inv ?r" by (rule relay_inv_store[OF I c])
  have "image_ok C sha256 im" using c(1) by (simp add: file_inv_def reboot_def)
  from reboot_load[OF this] obtain ms s'' where "st_load (env_store ?E) (rl_store ?r) = (Ok ms, s'')"
    by (auto simp: file_env_def file_ops_def)
  from restart_spec[OF law I2 acc _ this assms(3)] cfg obtain r' where
    r': "with_store ?E config (reboot im) = Ok r'" "relay_inv ?E ?rec ?inv r'"
      "bt_get (rl_mailboxes r') = bt_get (rl_mailboxes r)" "rl_connections r' = []"
    by (auto simp: same_settings_iff)
  have "rl_mailboxes r' = rl_mailboxes r"
    by (rule bt_ext[OF _ _ r'(3)]) (use tables_wfD(1)[OF relay_invD(3)] I r'(2) in blast)+
  moreover from this have "rl_queue_bytes r' = rl_queue_bytes r"
    using tables_wfD(10)[OF relay_invD(3)[OF I]] tables_wfD(10)[OF relay_invD(3)[OF r'(2)]] by simp
  ultimately show ?thesis using r' by blast
qed


text \<open>A directory that holds one waiting mailbox.\<close>

definition demo_directory :: fs_image where
  "demo_directory = \<lparr>im_files = [\<lparr>fl_data = [42], fl_mode = 0x180, fl_synced = True\<rparr>],
     im_names = [(record_name demo_id, 0)], im_disk = [(record_name demo_id, 0)], im_pending = [],
     im_mode = 0x1C0\<rparr>"

lemma demo_waiting_ok: "mailbox_wf demo_digest demo_waiting" "typed_mailbox demo_waiting"
  and demo_waiting_decodes: "store_decode demo_codec demo_digest [42] = Ok demo_waiting"
proof -
  show wf: "mailbox_wf demo_digest demo_waiting" "typed_mailbox demo_waiting"
    by (simp_all add: demo_waiting_def mailbox_wf_def member_wf_def all_frames_def length_demo_digest
        status_matches_hashes_def admission_matches_def membership_hashes_def typed_mailbox_def
        mailbox_constants u64_max_def demo_token_def)
  have "store_encode demo_codec (snapshot demo_waiting) = Ok [42]"
    by (simp add: store_encode_def demo_codec_def table_codec_def)
  then show "store_decode demo_codec demo_digest [42] = Ok demo_waiting"
    by (rule store_roundtrip_lemma[OF demo_reads wf])
qed

lemma demo_directory_ok: "image_ok demo_codec demo_digest demo_directory"
  by (simp add: image_ok_def demo_directory_def dir_ok_def dir_entry_ok_def record_at_def demo_waiting_decodes)
    (simp add: demo_waiting_def)

lemma demo_directory_records:
  "image_records demo_codec demo_digest demo_directory = [demo_id \<mapsto> demo_waiting]"
  by (auto simp: image_records_def view_def demo_directory_def demo_waiting_decodes record_name_inject fun_eq_iff)

lemma demo_directory_crash: "crash demo_directory demo_directory"
  by (auto simp: crash_def demo_directory_def survives_def intro: exI[of _ "[]"])


lemma demo_directory_inv: "file_inv demo_codec demo_digest (reboot demo_directory)"
proof -
  have "sync_image demo_directory = demo_directory" by (simp add: sync_image_def demo_directory_def)
  then show ?thesis
    using sync_image_ok(2)[OF demo_directory_ok] demo_directory_ok not_faulty_reboot(2)
    by (simp add: file_inv_def reboot_def)
qed

lemma demo_file_start_ok:
  "start_ok (file_env demo_codec demo_hmac demo_digest 7) (file_records demo_codec demo_digest)
     (file_inv demo_codec demo_digest) demo_config (reboot demo_directory)"
proof -
  have "file_records demo_codec demo_digest (reboot demo_directory) = [demo_id \<mapsto> demo_waiting]"
    by (simp add: file_records_def reboot_def demo_directory_records)
  then show ?thesis
    using file_store_law[OF demo_reads length_demo_digest] demo_directory_inv demo_waiting_ok demo_start_ok
    by (auto simp: start_ok_def file_env_def)
qed

lemma demo_file_started:
  "\<exists>r. with_store (file_env demo_codec demo_hmac demo_digest 7) demo_config (reboot demo_directory) = Ok r \<and>
     rl_mailboxes r = [(demo_id, demo_waiting)] \<and> crash (fs_now (rl_store r)) demo_directory"
proof -
  let ?load = "file_load demo_codec demo_digest (reboot demo_directory)"
  obtain ms s' where l: "?load = (Ok ms, s')" "lists_records ms [demo_id \<mapsto> demo_waiting]"
    using reboot_load[OF demo_directory_ok] by (auto simp: demo_directory_records)
  have ms: "ms = [demo_waiting]" by (rule lists_one_record[OF l(2)])
  have "fs_now s' = demo_directory"
    using l(1) by (auto simp: file_load_def sys_read_dir_def sys_read_entry_def sys_read_def sys_call_def Let_def
        reboot_def demo_directory_def record_not_temporary demo_waiting_decodes split: if_splits)
  then show ?thesis
    using l(1) demo_directory_crash
    by (simp add: with_store_def Let_def demo_config_def demo_relay_limits_def limiter_config_new_def
        limiter_new_def file_env_def file_ops_def ms replicate_num empty_tables_def load_mailbox_def
        demo_waiting_def membership_hashes_def new_member_def bt_keys_def refresh_gauges_def
        checked_add_u64_def u64_max_def bt_get_def bt_contains_def bs_contains_def)
qed

theorem relay_survives_power_loss_witness:
  "\<exists>r'. with_store (file_env demo_codec demo_hmac demo_digest 7) demo_config (reboot demo_directory) = Ok r' \<and>
     rl_mailboxes r' = [(demo_id, demo_waiting)] \<and> rl_connections r' = []"
proof -
  obtain r where r: "with_store (file_env demo_codec demo_hmac demo_digest 7) demo_config (reboot demo_directory) = Ok r"
    "rl_mailboxes r = [(demo_id, demo_waiting)]" "crash (fs_now (rl_store r)) demo_directory"
    using demo_file_started by blast
  have "relay_config_typed demo_config" using demo_start_ok by (simp add: start_ok_def)
  with relay_survives_power_loss[OF demo_reads length_demo_digest _ demo_file_start_ok relay_reach.start[OF r(1)] r(3)]
    r(2) show ?thesis by auto
qed

end
