(* ===== verification/Tcp_Shell.thy ===== *)
theory Tcp_Shell
  imports Relay_Shell
begin

text \<open>
  The serving part of \<^verbatim>\<open>src/src/bin/cbcl-pairing-relay.rs\<close>: one thread per accepted
  connection and a sweeper thread, over one service behind a mutex, a table of writers behind
  another, and the writers, each behind its own. A thread is a program counter over the
  statements between two lock or socket operations; a step of the process is a step of one
  thread, of the accept loop, or of a peer. What the peer has sent is in the stream of the
  connection, what the relay writes is collected in its socket, and both may block. The texts
  printed to the log are left out.
\<close>

section \<open>Streams and sockets\<close>

text \<open>
  A stream holds the octets that have arrived, and whether more may come. \<^verbatim>\<open>read_exact\<close> blocks
  (None) while its octets are not there and the stream is open; there is no read timeout.
\<close>

datatype stream_end = StillOpen | EndOfFile | ReadFailure

record tcp_stream =
  ts_bytes :: bytes
  ts_end :: stream_end

definition read_exact :: "nat \<Rightarrow> tcp_stream \<Rightarrow> ((bytes, stream_end) result \<times> tcp_stream) option" where
  "read_exact n st =
     (if n \<le> length (ts_bytes st)
      then Some (Ok (take n (ts_bytes st)), st\<lparr>ts_bytes := drop n (ts_bytes st)\<rparr>)
      else if ts_end st = StillOpen then None
      else Some (Err (ts_end st), st\<lparr>ts_bytes := []\<rparr>))"

text \<open>A message that has arrived in part is read again from its start when more has arrived.\<close>

definition read_message :: "tcp_stream \<Rightarrow> ((bytes option, unit) result \<times> tcp_stream) option" where
  "read_message st =
     (case read_exact 4 st of
        None \<Rightarrow> None
      | Some (Ok header, st1) \<Rightarrow>
          (let n = from_be_bytes header
           in if n = 0 \<or> n > MAX_WIRE_MESSAGE then Some (Err (), st1)
              else case read_exact n st1 of
                None \<Rightarrow> None
              | Some (Ok bs, st2) \<Rightarrow> Some (Ok (Some bs), st2)
              | Some (Err e, st2) \<Rightarrow> Some (Err (), st2)
              | Some (Panic, st2) \<Rightarrow> Some (Panic, st2))
      | Some (Err e, st1) \<Rightarrow> if e = EndOfFile then Some (Ok None, st1) else Some (Err (), st1)
      | Some (Panic, st1) \<Rightarrow> Some (Panic, st1))"

text \<open>
  The threads of the process, as far as they send: those of the connections, and the sweeper.
  A socket has the octets written to it, how many more the peer's side takes before a write
  blocks, whether writing fails from now on, and the thread that holds the writer's mutex.
\<close>

datatype worker = Conn connection_id | Sweeper

record tcp_socket =
  so_sent :: bytes
  so_window :: nat
  so_failed :: bool
  so_holder :: "worker option"

definition socket_write :: "nat \<Rightarrow> bytes \<Rightarrow> tcp_socket \<Rightarrow> tcp_socket" where
  "socket_write n bs so = so\<lparr>so_sent := so_sent so @ take n bs, so_window := so_window so - n\<rparr>"

text \<open>The octets that \<^verbatim>\<open>send_one\<close> writes for a message.\<close>

definition server_frame :: "codec \<Rightarrow> server_message \<Rightarrow> bytes option" where
  "server_frame C m =
     (case encode_server_message C m of
        Ok bs \<Rightarrow> Some (be_bytes 4 (length bs mod 2 ^ 32) @ bs)
      | _ \<Rightarrow> None)"

section \<open>Threads\<close>

text \<open>
  \<open>PcWaiting\<close> is before the lock of the writer with the octets to write, \<open>PcWriting\<close> holds it with
  the octets that are left.
\<close>

datatype after_send = ThenRead | ThenClose

datatype tcp_pc =
  PcReading
| PcHandling u64 relay_randomness client_message
| PcSending "routed_message list" after_send
| PcWaiting connection_id server_message bytes "routed_message list" after_send
| PcWriting connection_id server_message bytes "routed_message list" after_send
| PcDisconnect
| PcRemove
| PcDone

record tcp_thread =
  tt_stream :: tcp_stream
  tt_peer :: bytes
  tt_pc :: tcp_pc

text \<open>From the top of the loop of \<^verbatim>\<open>serve_connection\<close> to the lock of the service; None while it blocks.\<close>

definition serve_read ::
  "codec \<Rightarrow> connection_id \<Rightarrow> u64 \<Rightarrow> (relay_randomness, unit) result \<Rightarrow> tcp_thread \<Rightarrow> tcp_thread option" where
  "serve_read C connection now randomness th =
     (case read_message (tt_stream th) of
        None \<Rightarrow> None
      | Some (Ok None, st) \<Rightarrow> Some (th\<lparr>tt_stream := st, tt_pc := PcDisconnect\<rparr>)
      | Some (Ok (Some bs), st) \<Rightarrow>
          Some (case decode_client_message C bs of
             Ok message \<Rightarrow>
               (case randomness of
                  Ok values \<Rightarrow> th\<lparr>tt_stream := st, tt_pc := PcHandling now values message\<rparr>
                | _ \<Rightarrow> th\<lparr>tt_stream := st, tt_pc := PcSending [route connection (MsgError 503)] ThenRead\<rparr>)
           | _ \<Rightarrow> th\<lparr>tt_stream := st, tt_pc := PcSending [route connection (MsgError 400)] ThenRead\<rparr>)
      | Some (_, st) \<Rightarrow> Some (th\<lparr>tt_stream := st, tt_pc := PcSending [route connection (MsgError 400)] ThenClose\<rparr>))"

text \<open>
  What happens under the lock: the messages to send and the service, or a panic, which poisons
  the lock. None: the sweep does not end.
\<close>

definition serve_locked ::
  "'s relay_env \<Rightarrow> connection_id \<Rightarrow> bytes \<Rightarrow> u64 \<Rightarrow> relay_randomness \<Rightarrow> client_message \<Rightarrow> 's relay \<Rightarrow>
     (routed_message list option \<times> 's relay) option" where
  "serve_locked E connection peer_address now randomness message r =
     (case relay_sweep E now r of
        None \<Rightarrow> None
      | Some (Panic, r1) \<Rightarrow> Some (None, r1)
      | Some (swept, r1) \<Rightarrow>
          (let expired = (case swept of Ok ms \<Rightarrow> ms | _ \<Rightarrow> [])
           in case handle E connection peer_address now randomness message r1 of
                (Ok replies, r2) \<Rightarrow> Some (Some (expired @ replies), r2)
              | (Err e, r2) \<Rightarrow> Some (Some (expired @ [route connection (MsgError 503)]), r2)
              | (Panic, r2) \<Rightarrow> Some (None, r2)))"

definition sweep_locked :: "'s relay_env \<Rightarrow> u64 \<Rightarrow> 's relay \<Rightarrow> (routed_message list option \<times> 's relay) option" where
  "sweep_locked E now r =
     (case relay_sweep E now r of
        None \<Rightarrow> None
      | Some (Panic, r1) \<Rightarrow> Some (None, r1)
      | Some (Ok ms, r1) \<Rightarrow> Some (Some ms, r1)
      | Some (Err e, r1) \<Rightarrow> Some (Some [], r1))"

text \<open>
  The first half of \<^verbatim>\<open>send_one\<close>: a message without a writer, or without an encoding, is dropped. The
  writer found here stays usable after its removal from the table.
\<close>

definition lookup_writer ::
  "codec \<Rightarrow> connection_id list \<Rightarrow> routed_message \<Rightarrow> routed_message list \<Rightarrow> after_send \<Rightarrow> tcp_pc" where
  "lookup_writer C writers routed rest k =
     (if bs_contains writers (rm_connection routed)
      then (case server_frame C (rm_message routed) of
              Some bs \<Rightarrow> PcWaiting (rm_connection routed) (rm_message routed) bs rest k
            | None \<Rightarrow> PcSending rest k)
      else PcSending rest k)"

fun after_pc :: "after_send \<Rightarrow> tcp_pc" where
  "after_pc ThenRead = PcReading"
| "after_pc ThenClose = PcDisconnect"

text \<open>
  The steps of \<^verbatim>\<open>send_all\<close> and \<^verbatim>\<open>send_one\<close>. A write hands some octets to the socket, at most what the
  peer's side takes; the results of the two \<^verbatim>\<open>write_all\<close> are ignored, so on a failed socket the rest
  is skipped.
\<close>

inductive send_step ::
  "worker \<Rightarrow> codec \<Rightarrow> connection_id list \<Rightarrow> tcp_pc \<times> (connection_id \<Rightarrow> tcp_socket) \<Rightarrow>
     tcp_pc \<times> (connection_id \<Rightarrow> tcp_socket) \<Rightarrow> bool" for w C writers where
  looked_up: "send_step w C writers (PcSending (x # rest) k, so) (lookup_writer C writers x rest k, so)"
| sent_all: "send_step w C writers (PcSending [] k, so) (after_pc k, so)"
| writer_locked: "so_holder (so d) = None \<Longrightarrow>
    send_step w C writers (PcWaiting d m bs rest k, so) (PcWriting d m bs rest k, so(d := (so d)\<lparr>so_holder := Some w\<rparr>))"
| octets_written: "0 < n \<Longrightarrow> n \<le> length bs \<Longrightarrow> n \<le> so_window (so d) \<Longrightarrow> \<not> so_failed (so d) \<Longrightarrow>
    send_step w C writers (PcWriting d m bs rest k, so) (PcWriting d m (drop n bs) rest k, so(d := socket_write n bs (so d)))"
| write_failed: "bs \<noteq> [] \<Longrightarrow> so_failed (so d) \<Longrightarrow>
    send_step w C writers (PcWriting d m bs rest k, so) (PcWriting d m [] rest k, so)"
| writer_unlocked:
    "send_step w C writers (PcWriting d m [] rest k, so) (PcSending rest k, so(d := (so d)\<lparr>so_holder := None\<rparr>))"

inductive_cases send_stepE: "send_step w C writers (pc, so) (pc', so')"

section \<open>The process\<close>

text \<open>
  The sweeper's own thread only sends; its program counter is \<open>PcReading\<close> (sleeping) or one of
  the sending ones. \<open>sh_accepted\<close> counts the accepted connections and \<open>sh_routed\<close> collects what
  each thread was given to send; both are for the statements only.
\<close>

record 's tcp_shell =
  sh_running :: bool
  sh_service :: "'s relay"
  sh_poisoned :: bool
  sh_writers :: "connection_id list"
  sh_sockets :: "connection_id \<Rightarrow> tcp_socket"
  sh_next_connection :: u64
  sh_threads :: "connection_id \<Rightarrow> tcp_thread option"
  sh_sweeper :: tcp_pc
  sh_accepted :: nat
  sh_routed :: "(worker \<times> routed_message) list"

definition worker_pc :: "'s tcp_shell \<Rightarrow> worker \<Rightarrow> tcp_pc option" where
  "worker_pc sh w =
     (case w of Conn c \<Rightarrow> map_option tt_pc (sh_threads sh c) | Sweeper \<Rightarrow> Some (sh_sweeper sh))"

definition set_pc :: "connection_id \<Rightarrow> tcp_thread \<Rightarrow> tcp_pc \<Rightarrow> 's tcp_shell \<Rightarrow> 's tcp_shell" where
  "set_pc c th pc sh = sh\<lparr>sh_threads := (sh_threads sh)(c \<mapsto> th\<lparr>tt_pc := pc\<rparr>)\<rparr>"

definition set_worker :: "worker \<Rightarrow> tcp_pc \<Rightarrow> 's tcp_shell \<Rightarrow> 's tcp_shell" where
  "set_worker w pc sh =
     (case w of
        Conn c \<Rightarrow> (case sh_threads sh c of None \<Rightarrow> sh | Some th \<Rightarrow> set_pc c th pc sh)
      | Sweeper \<Rightarrow> sh\<lparr>sh_sweeper := pc\<rparr>)"

definition set_stream :: "connection_id \<Rightarrow> tcp_thread \<Rightarrow> tcp_stream \<Rightarrow> 's tcp_shell \<Rightarrow> 's tcp_shell" where
  "set_stream c th st sh = sh\<lparr>sh_threads := (sh_threads sh)(c \<mapsto> th\<lparr>tt_stream := st\<rparr>)\<rparr>"

text \<open>
  The accept loop of \<^verbatim>\<open>run\<close>: the identifier is taken, the writer is registered and the thread
  starts. When the socket cannot be duplicated \<^verbatim>\<open>run\<close> returns and the process ends.
\<close>

definition accept_connection :: "bytes \<Rightarrow> nat \<Rightarrow> bool \<Rightarrow> 's tcp_shell \<Rightarrow> 's tcp_shell" where
  "accept_connection peer_address window cloned sh =
     (let c = sh_next_connection sh;
          sh1 = sh\<lparr>sh_next_connection := (c + 1) mod (u64_max + 1), sh_accepted := Suc (sh_accepted sh)\<rparr>
      in if \<not> cloned then sh1\<lparr>sh_running := False\<rparr>
         else sh1\<lparr>sh_writers := bs_insert c (sh_writers sh1),
                  sh_sockets := (sh_sockets sh1)(c :=
                    \<lparr>so_sent = [], so_window = window, so_failed = False, so_holder = None\<rparr>),
                  sh_threads := (sh_threads sh1)(c \<mapsto>
                    \<lparr>tt_stream = \<lparr>ts_bytes = [], ts_end = StillOpen\<rparr>, tt_peer = peer_address, tt_pc = PcReading\<rparr>)\<rparr>)"

text \<open>The replies a thread gives itself before the lock.\<close>

fun own_replies :: "tcp_pc \<Rightarrow> routed_message list" where
  "own_replies (PcSending ms k) = ms"
| "own_replies _ = []"

text \<open>The first four steps are those of the network; the others are the process's own.\<close>

inductive tcp_step :: "'s relay_env \<Rightarrow> codec \<Rightarrow> 's tcp_shell \<Rightarrow> 's tcp_shell \<Rightarrow> bool" for E C where
  peer_sent: "sh_threads sh c = Some th \<Longrightarrow> ts_end (tt_stream th) = StillOpen \<Longrightarrow>
    tcp_step E C sh (set_stream c th ((tt_stream th)\<lparr>ts_bytes := ts_bytes (tt_stream th) @ bs\<rparr>) sh)"
| peer_ended: "sh_threads sh c = Some th \<Longrightarrow> ts_end (tt_stream th) = StillOpen \<Longrightarrow>
    tcp_step E C sh (set_stream c th ((tt_stream th)\<lparr>ts_end := e\<rparr>) sh)"
| peer_took: "tcp_step E C sh (sh\<lparr>sh_sockets := (sh_sockets sh)(c := (sh_sockets sh c)\<lparr>so_window := n\<rparr>)\<rparr>)"
| socket_failed: "tcp_step E C sh (sh\<lparr>sh_sockets := (sh_sockets sh)(c := (sh_sockets sh c)\<lparr>so_failed := True\<rparr>)\<rparr>)"
| accepted: "sh_running sh \<Longrightarrow>
    tcp_step E C sh (accept_connection peer_address window cloned sh)"
| read: "sh_running sh \<Longrightarrow> sh_threads sh c = Some th \<Longrightarrow> tt_pc th = PcReading \<Longrightarrow>
    (\<And>values. randomness = Ok values \<Longrightarrow> length (rr_mailbox_id values) = 32) \<Longrightarrow>
    serve_read C c now randomness th = Some th' \<Longrightarrow>
    tcp_step E C sh (sh\<lparr>sh_threads := (sh_threads sh)(c \<mapsto> th'),
      sh_routed := sh_routed sh @ map (Pair (Conn c)) (own_replies (tt_pc th'))\<rparr>)"
| locked: "sh_running sh \<Longrightarrow> sh_threads sh c = Some th \<Longrightarrow> tt_pc th = PcHandling now values m \<Longrightarrow>
    \<not> sh_poisoned sh \<Longrightarrow>
    serve_locked E c (tt_peer th) now values m (sh_service sh) = Some (Some ms, r) \<Longrightarrow>
    tcp_step E C sh (set_pc c th (PcSending ms ThenRead)
      (sh\<lparr>sh_service := r, sh_routed := sh_routed sh @ map (Pair (Conn c)) ms\<rparr>))"
| locked_panic: "sh_running sh \<Longrightarrow> sh_threads sh c = Some th \<Longrightarrow> tt_pc th = PcHandling now values m \<Longrightarrow>
    \<not> sh_poisoned sh \<Longrightarrow>
    serve_locked E c (tt_peer th) now values m (sh_service sh) = Some (None, r) \<Longrightarrow>
    tcp_step E C sh (set_pc c th PcDone (sh\<lparr>sh_service := r, sh_poisoned := True\<rparr>))"
| lock_poisoned: "sh_running sh \<Longrightarrow> sh_threads sh c = Some th \<Longrightarrow> tt_pc th = PcHandling now values m \<Longrightarrow>
    sh_poisoned sh \<Longrightarrow> tcp_step E C sh (set_pc c th PcDisconnect sh)"
| disconnected: "sh_running sh \<Longrightarrow> sh_threads sh c = Some th \<Longrightarrow> tt_pc th = PcDisconnect \<Longrightarrow>
    tcp_step E C sh (set_pc c th PcRemove
      (if sh_poisoned sh then sh else sh\<lparr>sh_service := disconnect c (sh_service sh)\<rparr>))"
| removed: "sh_running sh \<Longrightarrow> sh_threads sh c = Some th \<Longrightarrow> tt_pc th = PcRemove \<Longrightarrow>
    tcp_step E C sh (set_pc c th PcDone (sh\<lparr>sh_writers := bs_remove c (sh_writers sh)\<rparr>))"
| swept: "sh_running sh \<Longrightarrow> sh_sweeper sh = PcReading \<Longrightarrow> \<not> sh_poisoned sh \<Longrightarrow>
    sweep_locked E now (sh_service sh) = Some (Some ms, r) \<Longrightarrow>
    tcp_step E C sh (sh\<lparr>sh_service := r, sh_sweeper := PcSending ms ThenRead,
      sh_routed := sh_routed sh @ map (Pair Sweeper) ms\<rparr>)"
| sweep_panic: "sh_running sh \<Longrightarrow> sh_sweeper sh = PcReading \<Longrightarrow> \<not> sh_poisoned sh \<Longrightarrow>
    sweep_locked E now (sh_service sh) = Some (None, r) \<Longrightarrow>
    tcp_step E C sh (sh\<lparr>sh_service := r, sh_sweeper := PcDone, sh_poisoned := True\<rparr>)"
| sent: "sh_running sh \<Longrightarrow> worker_pc sh w = Some pc \<Longrightarrow>
    send_step w C (sh_writers sh) (pc, sh_sockets sh) (pc', so) \<Longrightarrow>
    tcp_step E C sh (set_worker w pc' (sh\<lparr>sh_sockets := so\<rparr>))"

text \<open>The process when it starts to listen.\<close>

definition tcp_initial :: "'s relay \<Rightarrow> 's tcp_shell" where
  "tcp_initial r =
     \<lparr>sh_running = True, sh_service = r, sh_poisoned = False, sh_writers = [],
      sh_sockets = (\<lambda>_. \<lparr>so_sent = [], so_window = 0, so_failed = False, so_holder = None\<rparr>), sh_next_connection = 1,
      sh_threads = Map.empty, sh_sweeper = PcReading, sh_accepted = 0, sh_routed = []\<rparr>"

inductive tcp_reach :: "'s relay_env \<Rightarrow> codec \<Rightarrow> 's relay \<Rightarrow> 's tcp_shell \<Rightarrow> bool" for E C r where
  initial: "tcp_reach E C r (tcp_initial r)"
| step: "tcp_reach E C r sh \<Longrightarrow> tcp_step E C sh sh' \<Longrightarrow> tcp_reach E C r sh'"

end
