(* ===== verification/Shell_Service.thy ===== *)
theory Shell_Service
  imports Relay_Props Relay_Shell
begin

text \<open>
  What both relay processes rely on when they hold the service: which connections it knows
  before and after a call, to which connections it routes, and that no call panics.
\<close>

section \<open>The connections a service knows\<close>

definition known :: "'s relay \<Rightarrow> connection_id set" where
  "known r = dom (bt_get (rl_connections r))"

lemma known_same: "rl_connections r' = rl_connections r \<Longrightarrow> known r' = known r"
  by (simp add: known_def)

lemma known_set_session [simp]: "known (set_session c m r) = known r"
  by (auto simp: known_def set_session_def bt_get_insert split: option.split)

lemma known_fields [simp]:
  "known (r\<lparr>rl_routes := routes\<rparr>) = known r" "known (r\<lparr>rl_store := s\<rparr>) = known r"
  "known (r\<lparr>rl_limiter := l\<rparr>) = known r" "known (r\<lparr>rl_mailboxes := ms\<rparr>) = known r"
  "known (r\<lparr>rl_nameplates := ns\<rparr>) = known r" "known (r\<lparr>rl_membership_hashes := hs\<rparr>) = known r"
  "known (r\<lparr>rl_expiries := es\<rparr>) = known r" "known (r\<lparr>rl_queue_bytes := q\<rparr>) = known r"
  "known (r\<lparr>rl_observability := ob\<rparr>) = known r" "known (r\<lparr>rl_last_log := log\<rparr>) = known r"
  by (simp_all add: known_def)

lemma known_drop_route [simp]: "known (drop_route i m r) = known r"
  by (simp add: drop_route_def Let_def split: option.split)

lemma known_attach: "known (attach c m r) = insert c (known r)"
proof -
  have k: "known (r\<lparr>rl_connections := bt_insert c x (rl_connections r)\<rparr>) = insert c (known r)" for x and r :: "'a relay"
    by (auto simp: known_def bt_get_insert)
  show ?thesis unfolding attach_def Let_def by (simp add: k split: option.split)
qed

lemma known_remove_indexes: "remove_mailbox_indexes i mb r = (x, r') \<Longrightarrow> known r' = known r"
  by (auto simp: remove_mailbox_indexes_def Let_def split: option.splits)

lemma known_remove_mailbox:
  assumes "remove_mailbox E i r = (x, r')"
  shows "known r' = known r"
proof -
  obtain y r1 where y: "store_remove E i r = (y, r1)" by fastforce
  then obtain s where s: "r1 = r\<lparr>rl_store := s\<rparr>" using store_fields(2) by blast
  have "known r' = known r1"
  proof (cases "y = Ok ()")
    case True
    with assms y show ?thesis
      by (cases "bt_get (rl_mailboxes r1) i")
        (simp_all add: remove_mailbox_def known_remove_indexes[of i _ _ x r'])
  next
    case False
    with assms y show ?thesis by (cases y) (simp_all add: remove_mailbox_def)
  qed
  then show ?thesis by (simp add: s known_def)
qed

lemma known_commit:
  assumes "commit E i tr r = (x, r')"
  shows "known r' = known r"
proof (cases "tr_state tr")
  case None
  with assms known_remove_mailbox[of E i r x r'] show ?thesis by (auto simp: commit_def split: if_splits)
next
  case (Some mb)
  obtain y r1 where y: "store_put E mb r = (y, r1)" by fastforce
  then obtain s where s: "r1 = r\<lparr>rl_store := s\<rparr>" using store_fields(1) by blast
  show ?thesis
    using assms Some y by (cases y) (auto simp: commit_def s known_def split: option.splits)
qed

text \<open>A client message can only make its own connection known.\<close>

definition known_grows :: "connection_id \<Rightarrow> bytes \<Rightarrow> 's relay \<Rightarrow> 's relay \<Rightarrow> bool" where
  "known_grows c tok r r' \<longleftrightarrow> known r' \<subseteq> insert c (known r)"

interpretation kn: service_relation E known_grows for E :: "'s relay_env"
proof
  fix c :: connection_id and tok i and r r' r1 :: "'s relay" and mb x h st l op out now cmd tr m
  show "known_grows c tok r r" by (auto simp: known_grows_def)
  show "known_grows c tok r (r\<lparr>rl_connections := bt_insert c st (rl_connections r)\<rparr>)"
    by (auto simp: known_grows_def known_def bt_get_insert)
  show "known_grows c tok r r'" if "store_put E mb r = (x, r')"
    using store_fields(1)[OF that] by (auto simp: known_grows_def known_def)
  show "known_grows c tok r (insert_mailbox c mb h r1)" if "store_put E mb r = (Ok (), r1)"
    using store_fields(1)[OF that] by (auto simp: known_grows_def insert_mailbox_def Let_def known_attach)
  show "known_grows c tok r r'" if "commit E i tr r = (x, r')"
    using known_commit[OF that] by (auto simp: known_grows_def)
  show "known_grows c tok r (attach c \<lparr>sm_mailbox_id = i, sm_membership = m\<rparr> r1)" if "commit E i tr r = (Ok (), r1)"
    using known_commit[OF that] by (auto simp: known_grows_def known_attach)
  show "known_grows c tok r r'" if "known_grows c tok (r\<lparr>rl_limiter := l\<rparr>) r'"
    using that by (simp add: known_grows_def known_def)
  show "known_grows c tok r (finish op out r')" if "known_grows c tok r r'"
    using that by (simp add: known_grows_def known_def)
qed

lemma known_sweep_loop:
  assumes ret: "sweep_loop E now msgs r = Some out"
  shows "known (snd out) = known r"
proof (rule sweep_loop.raw_induct [where P = "\<lambda>E now msgs r out. known (snd out) = known r", OF _ ret])
  fix self :: "'s relay_env \<Rightarrow> u64 \<Rightarrow> routed_message list \<Rightarrow> 's relay \<Rightarrow> 's relay_result option"
  fix E :: "'s relay_env" and now msgs and r :: "'s relay" and out
  assume IH: "\<And>E now msgs r out. self E now msgs r = Some out \<Longrightarrow> known (snd out) = known r"
    and eq: "(case bs_first (rl_expiries r) of
        None \<Rightarrow> Some (Ok msgs, r)
      | Some e \<Rightarrow>
          if fst e > now then Some (Ok msgs, r)
          else
            (case remove_mailbox E (snd e) r of
               (Ok u, r1) \<Rightarrow> self E now (msgs @ terminal_routes r (snd e) Expired) r1
             | (Err err, r1) \<Rightarrow> Some (Err err, r1)
             | (Panic, r1) \<Rightarrow> Some (Panic, r1))) = Some out"
  show "known (snd out) = known r"
    using eq known_remove_mailbox[of E _ r]
    by (fastforce split: option.splits if_splits prod.splits result.splits dest: IH)
qed

lemma known_sweep:
  assumes "relay_sweep E now r = Some (x, r')"
  shows "known r' = known r"
proof -
  obtain y r1 where y: "sweep_loop E now [] (r\<lparr>rl_limiter := snd (sweep_if_due (rl_limiter r) now)\<rparr>) = Some (y, r1)"
    "bind_st (y, r1) (\<lambda>messages r2. (Ok messages, refresh_gauges r2)) = (x, r')"
    using assms by (auto simp: relay_sweep_def)
  have "known r1 = known r" using known_sweep_loop[OF y(1)] by (simp add: known_def)
  moreover have "known (refresh_gauges r1) = known r1" by (simp add: refresh_gauges_def)
  ultimately show ?thesis using y(2) by (cases y) auto
qed

lemma known_disconnect: "known (disconnect c r) = known r - {c}"
  by (auto simp: disconnect_def known_def Let_def bt_get_remove split: option.splits)


section \<open>Where messages go\<close>

text \<open>Every message a call returns is for the acting connection or for one that has a route.\<close>

abbreviation routes_of :: "'s relay \<Rightarrow> connection_id set" where
  "routes_of r \<equiv> ran (bt_get (rl_routes r))"

definition routed_to :: "connection_id set \<Rightarrow> 's relay_result \<Rightarrow> bool" where
  "routed_to S out \<longleftrightarrow> (\<forall>ms. fst out = Ok ms \<longrightarrow> rm_connection ` set ms \<subseteq> S)"

lemma routed_to_Ok: "routed_to S (Ok ms, r) \<longleftrightarrow> rm_connection ` set ms \<subseteq> S"
  by (simp add: routed_to_def)

lemma routed_to_simps [simp]:
  "routed_to S (Err e, r)" "routed_to S (Panic, r)" "routed_to S (reply c m r) \<longleftrightarrow> c \<in> S"
  by (simp_all add: routed_to_def reply_def route_def)

lemma terminal_routes_to: "rm_connection ` set (terminal_routes r i reason) \<subseteq> routes_of r"
  by (auto simp: terminal_routes_def List.map_filter_simps route_def intro: ranI split: option.splits)

lemma routes_set_session [simp]: "rl_routes (set_session c m r) = rl_routes r"
  by (simp add: set_session_def split: option.split)

lemma routes_drop: "routes_of (drop_route i m r) \<subseteq> routes_of r"
  by (auto simp: drop_route_def Let_def bt_get_remove ran_def split: option.splits if_splits)

lemma routes_remove_mailbox:
  assumes "remove_mailbox E i r = (x, r')"
  shows "routes_of r' \<subseteq> routes_of r"
proof -
  obtain y r1 where y: "store_remove E i r = (y, r1)" by fastforce
  then obtain s where s: "r1 = r\<lparr>rl_store := s\<rparr>" using store_fields(2) by blast
  have idx: "routes_of r' \<subseteq> routes_of r0" if "remove_mailbox_indexes i mb r0 = (x, r')" for mb and r0 :: "'a relay"
  proof -
    have "routes_of (drop_route i Claimant (drop_route i Allocator q)) \<subseteq> routes_of q" for q :: "'a relay"
      using routes_drop by blast
    note d = this[of "_\<lparr>rl_queue_bytes := _\<rparr>"]
    show ?thesis
      using that d by (auto simp: remove_mailbox_indexes_def Let_def split: option.splits) (fastforce dest!: d[THEN subsetD])+
  qed
  show ?thesis
  proof (cases y)
    case (Ok u)
    with assms y s idx[of _ "r1\<lparr>rl_mailboxes := bt_remove i (rl_mailboxes r1)\<rparr>"] show ?thesis
      by (auto simp: remove_mailbox_def split: option.splits)
  qed (use assms y s in \<open>auto simp: remove_mailbox_def\<close>)
qed

lemma routes_commit:
  assumes "commit E i tr r = (x, r')"
  shows "routes_of r' \<subseteq> routes_of r"
proof (cases "tr_state tr")
  case None
  with assms routes_remove_mailbox[of E i r x r'] show ?thesis by (auto simp: commit_def split: if_splits)
next
  case (Some mb)
  obtain y r1 where y: "store_put E mb r = (y, r1)" by fastforce
  then obtain s where s: "r1 = r\<lparr>rl_store := s\<rparr>" using store_fields(1) by blast
  show ?thesis
    using assms Some y by (cases y) (auto simp: commit_def s split: option.splits)
qed

lemma routed_to_commit:
  assumes "\<And>r1. routes_of r1 \<subseteq> routes_of r \<Longrightarrow> routed_to S (k () r1)"
  shows "routed_to S (bind_st (commit E i tr r) k)"
proof -
  obtain x r1 where x: "commit E i tr r = (x, r1)" by fastforce
  with assms[OF routes_commit[OF x]] show ?thesis by (cases x) simp_all
qed

lemma routed_to_put:
  assumes "\<And>r1. routed_to S (k () r1)"
  shows "routed_to S (bind_st (store_put E mb r) k)"
proof -
  obtain x r1 where "store_put E mb r = (x, r1)" by fastforce
  with assms show ?thesis by (cases x) simp_all
qed

lemma routed_to_transition:
  assumes "\<And>tr. routed_to S (k tr)" and "c \<in> S"
  shows "routed_to S (with_transition c res r k)"
  using assms by (cases res) (simp_all add: with_transition_def)

lemma routed_to_closing:
  assumes "routes_of r1 \<subseteq> S" and "c \<in> S"
  shows "routed_to S (Ok (deduplicate_routes (terminal_routes r1 i reason @ [route c m])), r2)"
  using assms terminal_routes_to[of r1 i reason] by (auto simp: routed_to_Ok set_deduplicate route_def)

lemma effect_messages_to: "rm_connection ` set (effect_messages r i es) \<subseteq> routes_of r"
proof -
  have "rm_connection ` set (case e of
        EffDeliver recipient peer_seq body \<Rightarrow>
          (case bt_get (rl_routes r) (route_key \<lparr>sm_mailbox_id = i, sm_membership = recipient\<rparr>) of
             None \<Rightarrow> []
           | Some connection \<Rightarrow> [route connection (Frame peer_seq body)])
      | EffTerminal reason \<Rightarrow> terminal_routes r i reason
      | _ \<Rightarrow> []) \<subseteq> routes_of r" for e
    using terminal_routes_to[of r i]
    by (cases e) (auto simp: route_def intro: ranI split: option.split)
  then show ?thesis by (fastforce simp: effect_messages_def)
qed

lemma open_deliveries_to: "rm_connection ` set (open_deliveries c es) \<subseteq> {c}"
proof -
  have "rm_connection x = c" if "(case e of EffDeliver _ q b \<Rightarrow> Some (route c (Frame q b)) | _ \<Rightarrow> None) = Some x" for e x
    using that by (cases e) (auto simp: route_def)
  then show ?thesis by (auto simp: open_deliveries_def in_map_filter)
qed

lemma routed_to_opened: "c \<in> S \<Longrightarrow> routed_to S (Ok (open_deliveries c es), r)"
  using open_deliveries_to[of c es] by (auto simp: routed_to_Ok)

lemma routed_to_effects:
  assumes "routes_of r \<subseteq> S" and "c \<in> S"
  shows "routed_to S (Ok (deduplicate_routes (put_acknowledgement c k es @ effect_messages r i es')), r1)"
proof -
  have "rm_connection ` set (put_acknowledgement c k es) \<subseteq> {c}" by (cases k) (auto simp: route_def)
  then show ?thesis
    using assms effect_messages_to[of r i es'] by (auto simp: routed_to_Ok set_deduplicate)
qed

lemma routed_to_dispatch: "routed_to (insert c (routes_of r)) (dispatch E c now rnd m r)"
proof -
  note rules = routed_to_transition routed_to_commit routed_to_closing
  have "routed_to (insert c (routes_of r)) (relay_allocate E c now rnd mode ttl r)" for mode ttl
    unfolding relay_allocate_def Let_def by (simp add: routed_to_put split: result.split)
  moreover have "routed_to (insert c (routes_of r)) (relay_allocate_v2 E c now tok i cm ttl r)" for tok i cm ttl
    unfolding relay_allocate_v2_def Let_def by (simp add: routed_to_put split: result.split)
  moreover have "routed_to (insert c (routes_of r)) (relay_claim E c now tok l r)" for tok l
    unfolding relay_claim_def Let_def by (auto split: option.split intro!: rules)
  moreover have "routed_to (insert c (routes_of r)) (relay_claim_v2 E c now tok i ct r)" for tok i ct
    unfolding relay_claim_v2_def Let_def by (auto split: option.split intro!: rules)
  moreover have "routed_to (insert c (routes_of r)) (relay_open E c now i tok r)" for i tok
    unfolding relay_open_def
    by (auto split: option.split intro!: rules routed_to_opened)
  moreover have "routed_to (insert c (routes_of r)) (member_command E c now k r)" for k
    unfolding member_command_def Let_def
    by (auto split: option.split intro!: rules routed_to_effects)
  ultimately show ?thesis by (cases m) (simp_all add: dispatch_def Let_def)
qed

lemma routed_to_handle: "routed_to (insert c (routes_of r)) (handle E c addr now rnd m r)"
proof -
  obtain d l where ch: "check (env_hmac E) (rl_limiter r) (operation_of m) addr now = (d, l)" by fastforce
  obtain y r1 where dp: "dispatch E c now rnd m (r\<lparr>rl_limiter := l\<rparr>) = (y, r1)" by fastforce
  have "routed_to (insert c (routes_of r)) (y, r1)"
    using routed_to_dispatch[of c "r\<lparr>rl_limiter := l\<rparr>" E now rnd m] dp by simp
  then show ?thesis
    using ch dp by (cases d; cases y) (auto simp: handle_def Let_def route_def routed_to_Ok split: limit_decision.split)
qed

lemma routed_to_sweep_loop:
  assumes ret: "sweep_loop E now msgs r = Some out" and msgs: "rm_connection ` set msgs \<subseteq> S" and r: "routes_of r \<subseteq> S"
  shows "routed_to S out"
proof -
  have "rm_connection ` set msgs \<subseteq> S \<longrightarrow> routes_of r \<subseteq> S \<longrightarrow> routed_to S out"
  proof (rule sweep_loop.raw_induct [where P = "\<lambda>E now msgs r out. rm_connection ` set msgs \<subseteq> S \<longrightarrow> routes_of r \<subseteq> S \<longrightarrow>
      routed_to S out", OF _ ret])
    fix self :: "'s relay_env \<Rightarrow> u64 \<Rightarrow> routed_message list \<Rightarrow> 's relay \<Rightarrow> 's relay_result option"
    fix E :: "'s relay_env" and now msgs and r :: "'s relay" and out
    assume IH: "\<And>E now msgs r out. self E now msgs r = Some out \<Longrightarrow>
        rm_connection ` set msgs \<subseteq> S \<longrightarrow> routes_of r \<subseteq> S \<longrightarrow> routed_to S out"
      and eq: "(case bs_first (rl_expiries r) of
          None \<Rightarrow> Some (Ok msgs, r)
        | Some e \<Rightarrow>
            if fst e > now then Some (Ok msgs, r)
            else
              (case remove_mailbox E (snd e) r of
                 (Ok u, r1) \<Rightarrow> self E now (msgs @ terminal_routes r (snd e) Expired) r1
               | (Err err, r1) \<Rightarrow> Some (Err err, r1)
               | (Panic, r1) \<Rightarrow> Some (Panic, r1))) = Some out"
    show "rm_connection ` set msgs \<subseteq> S \<longrightarrow> routes_of r \<subseteq> S \<longrightarrow> routed_to S out"
    proof (intro impI)
      assume m: "rm_connection ` set msgs \<subseteq> S" and rs: "routes_of r \<subseteq> S"
      have grown: "rm_connection ` set (msgs @ terminal_routes r i Expired) \<subseteq> S" for i
        using m rs terminal_routes_to[of r i Expired] by auto
      have kept: "routes_of r1 \<subseteq> S" if "remove_mailbox E i r = (x, r1)" for i x r1
        using routes_remove_mailbox[OF that] rs by blast
      show "routed_to S out"
      proof (cases "\<exists>e. bs_first (rl_expiries r) = Some e \<and> fst e \<le> now")
        case True
        then obtain e where e: "bs_first (rl_expiries r) = Some e" "fst e \<le> now" by blast
        obtain x r1 where x: "remove_mailbox E (snd e) r = (x, r1)" by fastforce
        show ?thesis
        proof (cases x)
          case (Ok u)
          then have "self E now (msgs @ terminal_routes r (snd e) Expired) r1 = Some out" using eq e x by simp
          with IH grown kept[OF x] show ?thesis by blast
        qed (use eq e x in auto)
      next
        case False
        then have "out = (Ok msgs, r)" using eq by (auto split: option.splits if_splits)
        with m show ?thesis by (simp add: routed_to_Ok)
      qed
    qed
  qed
  with msgs r show ?thesis by blast
qed

lemma routed_to_sweep:
  assumes "relay_sweep E now r = Some out"
  shows "routed_to (routes_of r) out"
proof -
  obtain y r1 where y: "sweep_loop E now [] (r\<lparr>rl_limiter := snd (sweep_if_due (rl_limiter r) now)\<rparr>) = Some (y, r1)"
    "out = bind_st (y, r1) (\<lambda>messages r2. (Ok messages, refresh_gauges r2))"
    using assms by (auto simp: relay_sweep_def)
  have "routed_to (routes_of r) (y, r1)" by (rule routed_to_sweep_loop[OF y(1)]) simp_all
  then show ?thesis by (cases y) (simp_all add: y(2) routed_to_Ok)
qed

text \<open>A route belongs to a known connection.\<close>

lemma routes_known: "relay_inv E records sinv r \<Longrightarrow> routes_of r \<subseteq> known r"
  using relay_invD(4)[of E records sinv r]
  by (auto simp: sessions_wf_def sess_def ran_def known_def bind_eq_Some_conv)

section \<open>Under the lock\<close>

lemma decoded_typed:
  assumes "decode_client_message C bs = Ok m"
  shows "typed_message m"
  using assms
  by (auto simp: decode_client_message_def bind_result_Ok fixed_field_def fixed_bytes_def
      split: if_splits cbor.splits)

text \<open>What both processes do with a client message while they hold the service.\<close>

lemma sweep_ok:
  assumes law: "store_law E records sinv" and I: "relay_inv E records sinv r"
  obtains x r1 where "relay_sweep E now r = Some (x, r1)" "x \<noteq> Panic" "relay_inv E records sinv r1"
    "known r1 = known r" "routed_to (known r) (x, r1)"
proof -
  obtain x r1 where x: "relay_sweep E now r = Some (x, r1)" "relay_inv E records sinv r1" "x \<noteq> Panic"
    using relay_sweep_spec[OF law I, of now] by blast
  have "routed_to (known r) (x, r1)"
    using routed_to_sweep[OF x(1)] routes_known[OF I] by (auto simp: routed_to_def)
  with x known_sweep[OF x(1)] show thesis by (intro that)
qed

lemma sweep_then_handle:
  assumes law: "store_law E records sinv" and I: "relay_inv E records sinv r"
    and typed: "length (rr_mailbox_id values) = 32" "typed_message m"
  obtains x r1 y r2 where "relay_sweep E now r = Some (x, r1)" "x \<noteq> Panic" "routed_to (known r) (x, r1)"
    "handle E c addr now values m r1 = (y, r2)" "y \<noteq> Panic" "routed_to (insert c (known r)) (y, r2)"
    "relay_inv E records sinv r2" "known r2 \<subseteq> insert c (known r)"
proof -
  obtain x r1 where x: "relay_sweep E now r = Some (x, r1)" "x \<noteq> Panic" "relay_inv E records sinv r1"
    "known r1 = known r" "routed_to (known r) (x, r1)" by (rule sweep_ok[OF law I])
  obtain y r2 where y: "handle E c addr now values m r1 = (y, r2)" by fastforce
  have h: "relay_inv E records sinv r2" "y \<noteq> Panic"
    using handle_inv[OF law x(3) typed, of c addr now] y by auto
  have wf: "mailbox_wf (env_sha256 E) mb" if "bt_get (rl_mailboxes r1) i = Some mb" for i mb
    using tables_wfD(5)[OF relay_invD(3)[OF x(3)] that] by blast
  have "known r2 \<subseteq> insert c (known r)"
    using kn.related_handle[OF wf y] x(4) by (simp add: known_grows_def)
  moreover have "routed_to (insert c (known r)) (y, r2)"
    using routed_to_handle[of c r1 E addr now "values" m] routes_known[OF x(3)] x(4)
    by (auto simp: routed_to_def y)
  ultimately show thesis using x y h by (intro that)
qed

lemma started_service:
  assumes "start_ok E records sinv config s" and "with_store E config s = Ok r"
  shows "store_law E records sinv" and "relay_inv E records sinv r" and "known r = {}"
proof -
  show "store_law E records sinv" using assms(1) by (simp add: start_ok_def)
  show "relay_inv E records sinv r" using relay_reach_inv[OF assms(1) relay_reach.start[OF assms(2)]] by blast
  show "known r = {}"
    using with_store_inv[of E records sinv config s r] assms
    by (auto simp: start_ok_def known_def bt_get_def)
qed

section \<open>A codec for concrete runs\<close>

definition demo_wire_codec :: codec where
  "demo_wire_codec = table_codec [(server_value (MsgError 400), [7]), (CText ''type'', [1]), (CText ''code'', [2])]"

lemma demo_wire_encodes: "encode_server_message demo_wire_codec (MsgError 400) = Ok [7]"
  by (simp add: demo_wire_codec_def demo_eval field_eval)

end
