(* ===== verification/Tcp_Shell_Props.thy ===== *)
theory Tcp_Shell_Props
  imports Tcp_Shell Shell_Service "HOL-Library.Sublist"
begin

text \<open>
  The relay process under every interleaving of its threads: the service keeps its invariant, no
  thread panics under the lock, and a finished connection leaves nothing behind.
\<close>

section \<open>Under the lock\<close>

text \<open>The connections that the messages under way to be sent are for.\<close>

definition dests :: "routed_message list \<Rightarrow> connection_id set" where
  "dests ms = rm_connection ` set ms"

lemma dests_simps [simp]:
  "dests [] = {}" "dests (x # xs) = insert (rm_connection x) (dests xs)" "dests (xs @ ys) = dests xs \<union> dests ys"
  by (auto simp: dests_def)

lemma serve_locked_spec:
  assumes "store_law E records sinv" and "relay_inv E records sinv r"
    and "length (rr_mailbox_id values) = 32" "typed_message m"
  shows "\<exists>ms r'. serve_locked E c addr now values m r = Some (Some ms, r') \<and> relay_inv E records sinv r' \<and>
    known r' \<subseteq> insert c (known r) \<and> dests ms \<subseteq> insert c (known r)"
  by (rule sweep_then_handle[OF assms, of now c addr]; rename_tac x r1 y r2; case_tac x; case_tac y)
    (auto simp: serve_locked_def Let_def dests_def routed_to_Ok route_def)

lemma sweep_locked_spec:
  assumes law: "store_law E records sinv" and I: "relay_inv E records sinv r"
  shows "\<exists>ms r'. sweep_locked E now r = Some (Some ms, r') \<and> relay_inv E records sinv r' \<and> known r' = known r \<and>
    dests ms \<subseteq> known r"
  by (rule sweep_ok[OF assms, of now]; rename_tac x r1; case_tac x)
    (auto simp: sweep_locked_def dests_def routed_to_Ok)

section \<open>The invariant of the process\<close>

fun typed_pc :: "tcp_pc \<Rightarrow> bool" where
  "typed_pc (PcHandling now values m) \<longleftrightarrow> length (rr_mailbox_id values) = 32 \<and> typed_message m"
| "typed_pc _ \<longleftrightarrow> True"

text \<open>The sweeper only sends, and goes back to sleep.\<close>

fun sweeper_pc :: "tcp_pc \<Rightarrow> bool" where
  "sweeper_pc PcReading \<longleftrightarrow> True"
| "sweeper_pc (PcSending ms k) \<longleftrightarrow> k = ThenRead"
| "sweeper_pc (PcWaiting d m bs ms k) \<longleftrightarrow> k = ThenRead"
| "sweeper_pc (PcWriting d m bs ms k) \<longleftrightarrow> k = ThenRead"
| "sweeper_pc _ \<longleftrightarrow> False"

definition pc_of :: "'s tcp_shell \<Rightarrow> connection_id \<Rightarrow> tcp_pc option" where
  "pc_of sh c = map_option tt_pc (sh_threads sh c)"

definition tcp_inv ::
  "'s relay_env \<Rightarrow> ('s \<Rightarrow> bytes \<Rightarrow> mailbox option) \<Rightarrow> ('s \<Rightarrow> bool) \<Rightarrow> 's tcp_shell \<Rightarrow> bool" where
  "tcp_inv E records sinv sh \<longleftrightarrow>
     relay_inv E records sinv (sh_service sh) \<and> \<not> sh_poisoned sh \<and> sweeper_pc (sh_sweeper sh) \<and>
     (\<forall>c pc. pc_of sh c = Some pc \<longrightarrow> typed_pc pc)"

text \<open>What the tables say about the threads.\<close>

definition tables_match :: "'s tcp_shell \<Rightarrow> bool" where
  "tables_match sh \<longleftrightarrow>
     (\<forall>c. c \<in> set (sh_writers sh) \<longleftrightarrow> (\<exists>pc. pc_of sh c = Some pc \<and> pc \<noteq> PcDone)) \<and>
     (\<forall>c \<in> known (sh_service sh). \<exists>pc. pc_of sh c = Some pc \<and> pc \<noteq> PcRemove \<and> pc \<noteq> PcDone) \<and>
     (\<forall>c pc. pc_of sh c = Some pc \<longrightarrow> 0 < c \<and> c \<le> sh_accepted sh) \<and>
     sh_next_connection sh = (sh_accepted sh + 1) mod (u64_max + 1)"

lemma pc_of_thread: "sh_threads sh c = Some th \<Longrightarrow> pc_of sh c = Some (tt_pc th)"
  by (simp add: pc_of_def)

lemma set_pc_fields [simp]:
  "sh_service (set_pc c th pc sh) = sh_service sh" "sh_poisoned (set_pc c th pc sh) = sh_poisoned sh"
  "sh_sweeper (set_pc c th pc sh) = sh_sweeper sh" "sh_writers (set_pc c th pc sh) = sh_writers sh"
  "sh_accepted (set_pc c th pc sh) = sh_accepted sh" "sh_sockets (set_pc c th pc sh) = sh_sockets sh"
  "sh_next_connection (set_pc c th pc sh) = sh_next_connection sh" "sh_routed (set_pc c th pc sh) = sh_routed sh"
  "sh_running (set_pc c th pc sh) = sh_running sh" "pc_of (set_pc c th pc sh) = (pc_of sh)(c \<mapsto> pc)"
  by (auto simp: set_pc_def pc_of_def fun_eq_iff)

lemma set_stream_fields:
  assumes "sh_threads sh c = Some th"
  shows "sh_service (set_stream c th st sh) = sh_service sh" "sh_poisoned (set_stream c th st sh) = sh_poisoned sh"
    "sh_sweeper (set_stream c th st sh) = sh_sweeper sh" "sh_writers (set_stream c th st sh) = sh_writers sh"
    "sh_accepted (set_stream c th st sh) = sh_accepted sh" "sh_sockets (set_stream c th st sh) = sh_sockets sh"
    "sh_next_connection (set_stream c th st sh) = sh_next_connection sh" "sh_routed (set_stream c th st sh) = sh_routed sh"
    "sh_running (set_stream c th st sh) = sh_running sh" "pc_of (set_stream c th st sh) = pc_of sh"
  using assms by (auto simp: set_stream_def pc_of_def fun_eq_iff)

lemma set_worker_fields [simp]:
  "sh_service (set_worker w pc sh) = sh_service sh" "sh_poisoned (set_worker w pc sh) = sh_poisoned sh"
  "sh_writers (set_worker w pc sh) = sh_writers sh" "sh_accepted (set_worker w pc sh) = sh_accepted sh"
  "sh_sockets (set_worker w pc sh) = sh_sockets sh" "sh_next_connection (set_worker w pc sh) = sh_next_connection sh"
  "sh_routed (set_worker w pc sh) = sh_routed sh" "sh_running (set_worker w pc sh) = sh_running sh"
  "sh_sweeper (set_worker w pc sh) = (if w = Sweeper then pc else sh_sweeper sh)"
  by (auto simp: set_worker_def split: worker.split option.split)

lemma pc_of_fields [simp]:
  "pc_of (sh\<lparr>sh_service := r\<rparr>) = pc_of sh" "pc_of (sh\<lparr>sh_routed := ms\<rparr>) = pc_of sh"
  "pc_of (sh\<lparr>sh_poisoned := p\<rparr>) = pc_of sh" "pc_of (sh\<lparr>sh_writers := ws\<rparr>) = pc_of sh"
  "pc_of (sh\<lparr>sh_sweeper := q\<rparr>) = pc_of sh" "pc_of (sh\<lparr>sh_running := b\<rparr>) = pc_of sh"
  "pc_of (sh\<lparr>sh_sockets := so\<rparr>) = pc_of sh"
  "pc_of (sh\<lparr>sh_threads := (sh_threads sh)(c \<mapsto> th)\<rparr>) = (pc_of sh)(c \<mapsto> tt_pc th)"
  by (auto simp: pc_of_def fun_eq_iff)

lemma worker_pc_conn: "worker_pc sh (Conn c) = pc_of sh c"
  by (simp add: worker_pc_def pc_of_def)

lemma worker_pc_sweeper [simp]: "worker_pc sh Sweeper = Some (sh_sweeper sh)"
  by (simp add: worker_pc_def)

lemma worker_pc_sockets [simp]: "worker_pc (sh\<lparr>sh_sockets := so\<rparr>) = worker_pc sh"
  by (auto simp: worker_pc_def fun_eq_iff split: worker.split)

lemma pc_of_set_worker:
  assumes "worker_pc sh w = Some pc"
  shows "pc_of (set_worker w pc' sh) = (case w of Conn c \<Rightarrow> (pc_of sh)(c \<mapsto> pc') | Sweeper \<Rightarrow> pc_of sh)"
  using assms by (auto simp: set_worker_def worker_pc_def split: worker.splits option.splits)

lemma typed_serve_read:
  assumes "\<And>values. randomness = Ok values \<Longrightarrow> length (rr_mailbox_id values) = 32"
    and "serve_read C c now randomness th = Some th'"
  shows "typed_pc (tt_pc th') \<and> tt_pc th' \<noteq> PcDone \<and> tt_pc th' \<noteq> PcRemove \<and> tt_pc th' \<noteq> PcReading"
  using assms decoded_typed[of C]
  by (auto simp: serve_read_def split: prod.splits result.splits option.splits)

lemma after_pcs [simp]:
  "typed_pc (after_pc k)" "after_pc k \<noteq> PcDone" "after_pc k \<noteq> PcRemove" "sweeper_pc (after_pc k) \<longleftrightarrow> k = ThenRead"
  by (cases k; simp)+

text \<open>Sending leads from a sending program counter to another one, or back to the loop.\<close>

lemma send_step_pcs:
  assumes "send_step w C ws (pc, so) (pc', so')"
  shows "typed_pc pc' \<and> pc \<noteq> PcDone \<and> pc \<noteq> PcRemove \<and> pc' \<noteq> PcDone \<and> pc' \<noteq> PcRemove \<and>
    (sweeper_pc pc \<longrightarrow> sweeper_pc pc') \<and> pc' \<noteq> pc"
proof -
  have d: "drop n bs \<noteq> bs" if "0 < n" "n \<le> length bs" for n and bs :: bytes
    using that by (metis diff_less length_drop less_irrefl less_le_trans)
  have a: "after_pc k \<noteq> PcSending ms k'" for k k' ms by (cases k) simp_all
  from assms show ?thesis
    by (cases rule: send_stepE) (auto simp: lookup_writer_def d a split: option.splits if_splits)
qed

lemma tcp_inv_step:
  assumes law: "store_law E records sinv" and inv: "tcp_inv E records sinv sh" and st: "tcp_step E C sh sh'"
  shows "tcp_inv E records sinv sh'"
proof -
  have I: "relay_inv E records sinv (sh_service sh)" and np: "\<not> sh_poisoned sh"
    and sw: "sweeper_pc (sh_sweeper sh)" and ty: "\<And>c pc. pc_of sh c = Some pc \<Longrightarrow> typed_pc pc"
    using inv by (auto simp: tcp_inv_def)
  have typed: "length (rr_mailbox_id vals) = 32" "typed_message m"
    if "sh_threads sh c = Some th" "tt_pc th = PcHandling now vals m" for c th now vals m
    using ty[OF pc_of_thread[OF that(1)]] that(2) by auto
  show ?thesis
    using st
  proof cases
    case (peer_sent c th bs)
    then show ?thesis using inv by (simp add: tcp_inv_def set_stream_fields)
  next
    case (peer_ended c th e)
    then show ?thesis using inv by (simp add: tcp_inv_def set_stream_fields)
  next
    case (accepted addr window cloned)
    then show ?thesis
      using inv by (auto simp: tcp_inv_def accept_connection_def Let_def pc_of_def)
  next
    case (read c th randomness now th')
    then show ?thesis using inv typed_serve_read[OF read(5,6)] by (auto simp: tcp_inv_def)
  next
    case (locked c th now vals m ms r)
    then show ?thesis
      using serve_locked_spec[OF law I typed[OF locked(3,4)], of c "tt_peer th" now] sw ty np by (auto simp: tcp_inv_def)
  next
    case (locked_panic c th now vals m r)
    then show ?thesis using serve_locked_spec[OF law I typed[OF locked_panic(3,4)], of c "tt_peer th" now] by auto
  next
    case (disconnected c th)
    then show ?thesis using inv disconnect_inv(1)[OF I] by (auto simp: tcp_inv_def)
  next
    case (swept now ms r)
    then show ?thesis using sweep_locked_spec[OF law I, of now] inv by (auto simp: tcp_inv_def)
  next
    case (sweep_panic now r)
    then show ?thesis using sweep_locked_spec[OF law I, of now] by auto
  next
    case (sent w pc pc' so)
    note pcs = pc_of_set_worker[of "sh\<lparr>sh_sockets := so\<rparr>" w pc pc', unfolded worker_pc_sockets, OF sent(3)]
    from sent(1,3) send_step_pcs[OF sent(4)] sw ty I np pcs show ?thesis
      by (cases w) (auto simp: tcp_inv_def split: if_splits)
  qed (use inv np in \<open>auto simp: tcp_inv_def\<close>)
qed

lemma tcp_inv_reach:
  assumes "store_law E records sinv" and "relay_inv E records sinv r" and "tcp_reach E C r sh"
  shows "tcp_inv E records sinv sh"
  using assms(3)
proof induction
  case initial
  then show ?case using assms(2) by (simp add: tcp_inv_def tcp_initial_def pc_of_def)
next
  case (step sh sh')
  then show ?case using tcp_inv_step[OF assms(1)] by blast
qed

text \<open>A thread that goes on, without leaving a table, keeps the tables right.\<close>

lemma tables_match_update:
  assumes "tables_match sh" and "pc_of sh c = Some pc" and "pc_of sh' = (pc_of sh)(c \<mapsto> pc')"
    and "pc \<noteq> PcDone" "pc' \<noteq> PcDone" "pc' \<noteq> PcRemove"
    and "sh_writers sh' = sh_writers sh" "sh_accepted sh' = sh_accepted sh"
    and "sh_next_connection sh' = sh_next_connection sh"
    and "known (sh_service sh') \<subseteq> insert c (known (sh_service sh))"
  shows "tables_match sh'"
  using assms unfolding tables_match_def by (auto split: if_splits)

lemma tables_match_same:
  assumes "tables_match sh" and "pc_of sh' = pc_of sh"
    and "sh_writers sh' = sh_writers sh" "sh_accepted sh' = sh_accepted sh"
    and "sh_next_connection sh' = sh_next_connection sh"
    and "known (sh_service sh') \<subseteq> known (sh_service sh)"
  shows "tables_match sh'"
  using assms unfolding tables_match_def by auto

lemma tables_match_accept:
  assumes m: "tables_match sh" and fits: "Suc (sh_accepted sh) \<le> u64_max"
  shows "sh_next_connection sh = Suc (sh_accepted sh)" and "pc_of sh (Suc (sh_accepted sh)) = None"
    and "tables_match (accept_connection addr window cloned sh)"
proof -
  show c: "sh_next_connection sh = Suc (sh_accepted sh)" using m fits by (simp add: tables_match_def)
  show new: "pc_of sh (Suc (sh_accepted sh)) = None"
    using m by (cases "pc_of sh (Suc (sh_accepted sh))") (auto simp: tables_match_def)
  have pcs: "pc_of (accept_connection addr window cloned sh) d =
      (if cloned \<and> d = Suc (sh_accepted sh) then Some PcReading else pc_of sh d)" for d
    by (simp add: accept_connection_def Let_def c pc_of_def)
  show "tables_match (accept_connection addr window cloned sh)"
    using m new fits unfolding tables_match_def pcs
    by (auto simp: accept_connection_def Let_def c set_bs_insert)
qed

lemma tables_match_step:
  assumes law: "store_law E records sinv" and inv: "tcp_inv E records sinv sh" and m: "tables_match sh"
    and st: "tcp_step E C sh sh'" and fits: "sh_accepted sh' \<le> u64_max"
  shows "tables_match sh'"
proof -
  have I: "relay_inv E records sinv (sh_service sh)" and np: "\<not> sh_poisoned sh"
    and ty: "\<And>c pc. pc_of sh c = Some pc \<Longrightarrow> typed_pc pc"
    using inv by (auto simp: tcp_inv_def)
  have typed: "length (rr_mailbox_id vals) = 32" "typed_message m"
    if "sh_threads sh c = Some th" "tt_pc th = PcHandling now vals m" for c th now vals m
    using ty[OF pc_of_thread[OF that(1)]] that(2) by auto
  show ?thesis
    using st
  proof cases
    case (peer_sent c th bs)
    show ?thesis by (rule tables_match_same[OF m]) (use peer_sent in \<open>simp_all add: set_stream_fields\<close>)
  next
    case (peer_ended c th e)
    show ?thesis by (rule tables_match_same[OF m]) (use peer_ended in \<open>simp_all add: set_stream_fields\<close>)
  next
    case (accepted addr window cloned)
    then have "sh_accepted sh' = Suc (sh_accepted sh)" by (simp add: accept_connection_def Let_def)
    with accepted show ?thesis using tables_match_accept(3)[OF m] fits by simp
  next
    case (read c th randomness now th')
    show ?thesis
      by (rule tables_match_update[OF m pc_of_thread[OF read(3)]]) (use read typed_serve_read[OF read(5,6)] in auto)
  next
    case (locked c th now vals msg ms r)
    then have "known r \<subseteq> insert c (known (sh_service sh))"
      using serve_locked_spec[OF law I typed[OF locked(3,4)], of c "tt_peer th" now] by auto
    then show ?thesis
      by (intro tables_match_update[OF m pc_of_thread[OF locked(3)]]) (use locked in auto)
  next
    case (locked_panic c th now vals msg r)
    then show ?thesis using serve_locked_spec[OF law I typed[OF locked_panic(3,4)], of c "tt_peer th" now] by auto
  next
    case (sent w pc pc' so)
    note pcs = pc_of_set_worker[of "sh\<lparr>sh_sockets := so\<rparr>" w pc pc', unfolded worker_pc_sockets, OF sent(3)]
    show ?thesis
    proof (cases w)
      case (Conn c)
      with sent(3) have pc: "pc_of sh c = Some pc" by (simp add: worker_pc_conn)
      show ?thesis
        by (rule tables_match_update[OF m pc]) (use sent(1) send_step_pcs[OF sent(4)] Conn pcs in auto)
    next
      case Sweeper
      show ?thesis by (rule tables_match_same[OF m]) (use sent(1) Sweeper pcs in auto)
    qed
  next
    case (disconnected c th)
    have "pc_of sh' = (pc_of sh)(c \<mapsto> PcRemove)" "known (sh_service sh') = known (sh_service sh) - {c}"
      using disconnected(1) np by (auto simp: known_disconnect)
    then show ?thesis
      using m disconnected np pc_of_thread[OF disconnected(3)] by (auto simp: tables_match_def)
  next
    case (removed c th)
    have "c \<notin> known (sh_service sh)"
      using m pc_of_thread[OF removed(3)] removed(4) by (auto simp: tables_match_def)
    then show ?thesis
      using m removed pc_of_thread[OF removed(3)] by (auto simp: tables_match_def)
  next
    case (swept now ms r)
    then have "known r = known (sh_service sh)" using sweep_locked_spec[OF law I, of now] by auto
    then show ?thesis by (intro tables_match_same[OF m]) (use swept in auto)
  next
    case (sweep_panic now r)
    then show ?thesis using sweep_locked_spec[OF law I, of now] by auto
  qed (use m np in \<open>auto intro: tables_match_same\<close>)
qed

lemma accepted_mono: "tcp_step E C sh sh' \<Longrightarrow> sh_accepted sh \<le> sh_accepted sh'"
  by (induction rule: tcp_step.induct) (auto simp: accept_connection_def Let_def set_stream_def)

lemma tables_match_reach:
  assumes "store_law E records sinv" and "relay_inv E records sinv r" and "tcp_reach E C r sh"
    and "known r = {}" and "sh_accepted sh \<le> u64_max"
  shows "tables_match sh"
  using assms(3,5)
proof induction
  case initial
  then show ?case using assms(4) by (auto simp: tables_match_def tcp_initial_def pc_of_def u64_max_def)
next
  case (step sh sh')
  then show ?case
    using tables_match_step[OF assms(1) tcp_inv_reach[OF assms(1,2) step.hyps(1)]] accepted_mono[OF step.hyps(2)]
    by (meson le_trans)
qed


section \<open>Properties\<close>

text \<open>
  C7: Under every interleaving of the connection threads, the sweeper and the accept loop, the
  relay process keeps the service consistent with its store, and no thread ever panics while
  it holds the service, so the lock is never poisoned. As long as fewer than 2 to the 64
  connections were accepted, a connection whose thread has ended has left no writer, no
  connection state and no route behind, and every running thread has its writer registered.
\<close>

theorem tcp_shell_consistent:
  assumes "start_ok E records sinv config s" and "with_store E config s = Ok r" and "tcp_reach E C r sh"
  shows "relay_wf E (sh_service sh) \<and>
    records (rl_store (sh_service sh)) = bt_get (rl_mailboxes (sh_service sh)) \<and> \<not> sh_poisoned sh \<and>
    (sh_accepted sh \<le> u64_max \<longrightarrow>
      (\<forall>c. c \<in> set (sh_writers sh) \<longleftrightarrow> (\<exists>pc. pc_of sh c = Some pc \<and> pc \<noteq> PcDone)) \<and>
      (\<forall>c. pc_of sh c = Some PcDone \<longrightarrow>
         bt_get (rl_connections (sh_service sh)) c = None \<and> c \<notin> ran (bt_get (rl_routes (sh_service sh)))))"
proof -
  note S = started_service[OF assms(1,2)]
  have I: "relay_inv E records sinv (sh_service sh)" and np: "\<not> sh_poisoned sh"
    using tcp_inv_reach[OF S(1,2) assms(3)] by (simp_all add: tcp_inv_def)
  have m: "tables_match sh" if "sh_accepted sh \<le> u64_max"
    using tables_match_reach[OF S(1,2) assms(3) S(3) that] .
  have gone: "bt_get (rl_connections (sh_service sh)) c = None" if "sh_accepted sh \<le> u64_max" "pc_of sh c = Some PcDone" for c
  proof -
    have "c \<notin> known (sh_service sh)" using m[OF that(1)] that(2) by (force simp: tables_match_def)
    then show ?thesis by (auto simp: known_def)
  qed
  have "c \<notin> ran (bt_get (rl_routes (sh_service sh)))" if "bt_get (rl_connections (sh_service sh)) c = None" for c
    using relay_invD(4)[OF I] that by (auto simp: sessions_wf_def sess_def ran_def)
  with I np m gone show ?thesis by (auto simp: relay_inv_def tables_match_def)
qed

section \<open>A run\<close>

text \<open>
  The first connection of the process, with its thread alone. The peer sends a length field of
  zero; the thread answers with an error and leaves.
\<close>

definition demo_thread :: "bytes \<Rightarrow> tcp_pc \<Rightarrow> tcp_thread" where
  "demo_thread bs pc = \<lparr>tt_stream = \<lparr>ts_bytes = bs, ts_end = StillOpen\<rparr>, tt_peer = demo_peer, tt_pc = pc\<rparr>"

definition demo_socket :: "bytes \<Rightarrow> nat \<Rightarrow> worker option \<Rightarrow> tcp_socket" where
  "demo_socket bs n w = \<lparr>so_sent = bs, so_window = n, so_failed = False, so_holder = w\<rparr>"

lemma demo_frame: "server_frame demo_wire_codec (MsgError 400) = Some [0, 0, 0, 1, 7]"
proof -
  have "be_bytes 4 (Suc 0) = [0, 0, 0, 1]" by code_simp
  then show ?thesis by (simp add: server_frame_def demo_wire_encodes)
qed

text \<open>What is known of a state of the run.\<close>

definition demo_at :: "memory_store tcp_shell \<Rightarrow> tcp_thread \<Rightarrow> tcp_socket \<Rightarrow> routed_message list \<Rightarrow> bool" where
  "demo_at sh th so ms \<longleftrightarrow>
     tcp_reach demo_env demo_wire_codec demo_started sh \<and> sh_running sh \<and> sh_threads sh 1 = Some th \<and> sh_sockets sh 1 = so \<and>
     sh_routed sh = map (Pair (Conn 1)) ms \<and> sh_accepted sh = 1 \<and> (tt_pc th \<noteq> PcDone \<longrightarrow> sh_writers sh = [1])"

lemma demo_move:
  assumes "demo_at sh th so ms" and "tcp_step demo_env demo_wire_codec sh sh'"
    and "sh_running sh'" "sh_threads sh' 1 = Some th'" "sh_sockets sh' 1 = so'" "sh_routed sh' = map (Pair (Conn 1)) ms'"
      "sh_accepted sh' = 1" "tt_pc th' \<noteq> PcDone \<longrightarrow> sh_writers sh' = [1]"
  shows "\<exists>sh. demo_at sh th' so' ms'"
  using assms tcp_reach.step[of demo_env demo_wire_codec demo_started sh sh'] by (auto simp: demo_at_def)

lemma demo_accepted: "\<exists>sh. demo_at sh (demo_thread [] PcReading) (demo_socket [] n None) []"
proof -
  let ?sh = "accept_connection demo_peer n True (tcp_initial demo_started)"
  have "tcp_reach demo_env demo_wire_codec demo_started ?sh"
    by (rule tcp_reach.step[OF tcp_reach.initial], rule tcp_step.accepted) (simp add: tcp_initial_def)
  then have "demo_at ?sh (demo_thread [] PcReading) (demo_socket [] n None) []"
    by (simp add: demo_at_def accept_connection_def tcp_initial_def demo_thread_def demo_socket_def u64_max_def)
  then show ?thesis by blast
qed

lemma demo_refused: "\<exists>sh. demo_at sh (demo_thread [] (PcSending [route 1 (MsgError 400)] ThenClose)) (demo_socket [] n None)
    [route 1 (MsgError 400)]"
proof -
  obtain a where a: "demo_at a (demo_thread [] PcReading) (demo_socket [] n None) []" using demo_accepted by blast
  have "\<exists>sh. demo_at sh (demo_thread [0, 0, 0, 0] PcReading) (demo_socket [] n None) []"
    by (rule demo_move[OF a tcp_step.peer_sent[where c = 1 and th = "demo_thread [] PcReading" and bs = "[0, 0, 0, 0]"]])
      (use a in \<open>auto simp: demo_at_def demo_thread_def set_stream_def\<close>)
  then obtain b where b: "demo_at b (demo_thread [0, 0, 0, 0] PcReading) (demo_socket [] n None) []" by blast
  show ?thesis
    by (rule demo_move[OF b tcp_step.read[where c = 1 and th = "demo_thread [0, 0, 0, 0] PcReading" and randomness = "Err ()"
            and now = 0 and th' = "demo_thread [] (PcSending [route 1 (MsgError 400)] ThenClose)"]])
      (use b in \<open>auto simp: demo_at_def demo_thread_def serve_read_def read_message_def read_exact_def from_be_bytes_def\<close>)
qed

lemma demo_send:
  assumes a: "demo_at sh (demo_thread bs pc) so ms"
    and st: "\<And>f. f 1 = so \<Longrightarrow> send_step (Conn 1) demo_wire_codec [1] (pc, f) (pc', f(1 := so'))"
  shows "\<exists>sh. demo_at sh (demo_thread bs pc') so' ms"
proof -
  have "pc \<noteq> PcDone" using send_step_pcs[OF st[of "\<lambda>_. so"]] by simp
  then have s: "sh_running sh" "worker_pc sh (Conn 1) = Some pc" "sh_threads sh 1 = Some (demo_thread bs pc)"
      "send_step (Conn 1) demo_wire_codec (sh_writers sh) (pc, sh_sockets sh) (pc', (sh_sockets sh)(1 := so'))" "sh_writers sh = [1]"
    using a st[of "sh_sockets sh"] by (auto simp: demo_at_def worker_pc_def demo_thread_def)
  show ?thesis
    by (rule demo_move[OF a tcp_step.sent[OF s(1,2,4)]])
      (use a s in \<open>auto simp: demo_at_def set_worker_def set_pc_def demo_thread_def\<close>)
qed

lemma demo_locked: "\<exists>sh. demo_at sh (demo_thread [] (PcWriting 1 (MsgError 400) [0, 0, 0, 1, 7] [] ThenClose))
    (demo_socket [] n (Some (Conn 1))) [route 1 (MsgError 400)]"
proof -
  let ?ms = "[route 1 (MsgError 400)]"
  obtain a where a: "demo_at a (demo_thread [] (PcSending ?ms ThenClose)) (demo_socket [] n None) ?ms" using demo_refused by blast
  have "\<exists>sh. demo_at sh (demo_thread [] (PcWaiting 1 (MsgError 400) [0, 0, 0, 1, 7] [] ThenClose)) (demo_socket [] n None) ?ms"
  proof (rule demo_send[OF a])
    fix f :: "connection_id \<Rightarrow> tcp_socket" assume "f 1 = demo_socket [] n None"
    then have "f(1 := demo_socket [] n None) = f" by auto
    then show "send_step (Conn 1) demo_wire_codec [1] (PcSending ?ms ThenClose, f)
        (PcWaiting 1 (MsgError 400) [0, 0, 0, 1, 7] [] ThenClose, f(1 := demo_socket [] n None))"
      using send_step.looked_up[of "Conn 1" demo_wire_codec "[1]" "route 1 (MsgError 400)" "[]" ThenClose f]
      by (simp add: lookup_writer_def bs_contains_def route_def demo_frame)
  qed
  then obtain b where b: "demo_at b (demo_thread [] (PcWaiting 1 (MsgError 400) [0, 0, 0, 1, 7] [] ThenClose)) (demo_socket [] n None) ?ms"
    by blast
  show ?thesis
  proof (rule demo_send[OF b])
    fix f :: "connection_id \<Rightarrow> tcp_socket" assume "f 1 = demo_socket [] n None"
    then show "send_step (Conn 1) demo_wire_codec [1] (PcWaiting 1 (MsgError 400) [0, 0, 0, 1, 7] [] ThenClose, f)
        (PcWriting 1 (MsgError 400) [0, 0, 0, 1, 7] [] ThenClose, f(1 := demo_socket [] n (Some (Conn 1))))"
      using send_step.writer_locked[of f 1 "Conn 1" demo_wire_codec "[1]" "MsgError 400" "[0, 0, 0, 1, 7]" "[]" ThenClose]
      by (simp add: demo_socket_def)
  qed
qed

lemma demo_written: "\<exists>sh. demo_at sh (demo_thread [] (PcSending [] ThenClose))
    (demo_socket [0, 0, 0, 1, 7] n None) [route 1 (MsgError 400)]"
proof -
  let ?ms = "[route 1 (MsgError 400)]" and ?bs = "[0, 0, 0, 1, 7] :: bytes"
  obtain a where a: "demo_at a (demo_thread [] (PcWriting 1 (MsgError 400) ?bs [] ThenClose)) (demo_socket [] (n + 5) (Some (Conn 1))) ?ms"
    using demo_locked by blast
  have "\<exists>sh. demo_at sh (demo_thread [] (PcWriting 1 (MsgError 400) [] [] ThenClose)) (demo_socket ?bs n (Some (Conn 1))) ?ms"
  proof (rule demo_send[OF a])
    fix f :: "connection_id \<Rightarrow> tcp_socket" assume "f 1 = demo_socket [] (n + 5) (Some (Conn 1))"
    then show "send_step (Conn 1) demo_wire_codec [1] (PcWriting 1 (MsgError 400) ?bs [] ThenClose, f)
        (PcWriting 1 (MsgError 400) [] [] ThenClose, f(1 := demo_socket ?bs n (Some (Conn 1))))"
      using send_step.octets_written[of 5 ?bs f 1 "Conn 1" demo_wire_codec "[1]" "MsgError 400" "[]" ThenClose]
      by (simp add: demo_socket_def socket_write_def)
  qed
  then obtain b where b: "demo_at b (demo_thread [] (PcWriting 1 (MsgError 400) [] [] ThenClose)) (demo_socket ?bs n (Some (Conn 1))) ?ms"
    by blast
  show ?thesis
  proof (rule demo_send[OF b])
    fix f :: "connection_id \<Rightarrow> tcp_socket" assume "f 1 = demo_socket ?bs n (Some (Conn 1))"
    then show "send_step (Conn 1) demo_wire_codec [1] (PcWriting 1 (MsgError 400) [] [] ThenClose, f)
        (PcSending [] ThenClose, f(1 := demo_socket ?bs n None))"
      using send_step.writer_unlocked[of "Conn 1" demo_wire_codec "[1]" 1 "MsgError 400" "[]" ThenClose f]
      by (simp add: demo_socket_def)
  qed
qed

lemma demo_done: "\<exists>sh. demo_at sh (demo_thread [] PcDone) (demo_socket [0, 0, 0, 1, 7] n None) [route 1 (MsgError 400)]"
proof -
  let ?ms = "[route 1 (MsgError 400)]" and ?so = "demo_socket [0, 0, 0, 1, 7] n None"
  obtain a where a: "demo_at a (demo_thread [] (PcSending [] ThenClose)) ?so ?ms" using demo_written by blast
  have "\<exists>sh. demo_at sh (demo_thread [] PcDisconnect) ?so ?ms"
  proof (rule demo_send[OF a])
    fix f :: "connection_id \<Rightarrow> tcp_socket" assume "f 1 = ?so"
    then have "f(1 := ?so) = f" by auto
    then show "send_step (Conn 1) demo_wire_codec [1] (PcSending [] ThenClose, f) (PcDisconnect, f(1 := ?so))"
      using send_step.sent_all[of "Conn 1" demo_wire_codec "[1]" ThenClose f] by simp
  qed
  then obtain b where b: "demo_at b (demo_thread [] PcDisconnect) ?so ?ms" by blast
  have "\<exists>sh. demo_at sh (demo_thread [] PcRemove) ?so ?ms"
    by (rule demo_move[OF b tcp_step.disconnected[where c = 1 and th = "demo_thread [] PcDisconnect"]])
      (use b in \<open>auto simp: demo_at_def demo_thread_def set_pc_def\<close>)
  then obtain c where c: "demo_at c (demo_thread [] PcRemove) ?so ?ms" by blast
  show ?thesis
    by (rule demo_move[OF c tcp_step.removed[where c = 1 and th = "demo_thread [] PcRemove"]])
      (use c in \<open>auto simp: demo_at_def demo_thread_def set_pc_def\<close>)
qed

theorem tcp_shell_consistent_witness:
  "\<exists>sh. tcp_reach demo_env demo_wire_codec demo_started sh \<and> pc_of sh 1 = Some PcDone \<and>
     so_sent (sh_sockets sh 1) = [0, 0, 0, 1, 7] \<and>
     1 \<notin> set (sh_writers sh) \<and> bt_get (rl_connections (sh_service sh)) 1 = None"
proof -
  obtain sh where sh: "tcp_reach demo_env demo_wire_codec demo_started sh" "pc_of sh 1 = Some PcDone" "sh_accepted sh = 1"
    "so_sent (sh_sockets sh 1) = [0, 0, 0, 1, 7]"
    using demo_done[of 0] by (auto simp: demo_at_def pc_of_def demo_thread_def demo_socket_def)
  have "sh_accepted sh \<le> u64_max" using sh(3) by (simp add: u64_max_def)
  with tcp_shell_consistent[OF demo_start_ok demo_started_fields(1) sh(1)] sh show ?thesis by auto
qed

end
