(* ===== verification/Tcp_Delivery.thy ===== *)
theory Tcp_Delivery
  imports Tcp_Shell_Props Channel_Props
begin

text \<open>
  What the sockets of the relay process carry. The writer of a connection is used by one thread
  at a time, so that the octets on it are whole frames one after the other; and each thread's
  messages for a connection reach its socket in the order the thread was given them, none of
  them twice and, while the connection is registered, none of them lost.
\<close>

section \<open>Messages on their way\<close>

text \<open>What a thread has still to send; the message it is just writing counts as sent.\<close>

fun unsent :: "tcp_pc \<Rightarrow> routed_message list" where
  "unsent (PcSending ms k) = ms"
| "unsent (PcWaiting d m bs ms k) = route d m # ms"
| "unsent (PcWriting d m bs ms k) = ms"
| "unsent _ = []"

fun octets_left :: "tcp_pc \<Rightarrow> bytes" where
  "octets_left (PcWriting d m bs ms k) = bs"
| "octets_left _ = []"

text \<open>The connection a thread is writing to, and all those it sends to.\<close>

fun writes_to :: "tcp_pc \<Rightarrow> connection_id option" where
  "writes_to (PcWriting d m bs ms k) = Some d"
| "writes_to _ = None"

definition targets :: "tcp_pc \<Rightarrow> connection_id set" where
  "targets pc = dests (unsent pc) \<union> set_option (writes_to pc)"

fun framed :: "codec \<Rightarrow> tcp_pc \<Rightarrow> bool" where
  "framed C (PcWaiting d m bs ms k) \<longleftrightarrow> server_frame C m = Some bs"
| "framed C _ \<longleftrightarrow> True"

text \<open>The messages for a connection that have an encoding, and what one thread contributed.\<close>

definition deliverable :: "codec \<Rightarrow> connection_id \<Rightarrow> routed_message list \<Rightarrow> server_message list" where
  "deliverable C c xs = map rm_message (filter (\<lambda>x. rm_connection x = c \<and> server_frame C (rm_message x) \<noteq> None) xs)"

definition by_worker :: "worker \<Rightarrow> (worker \<times> 'a) list \<Rightarrow> 'a list" where
  "by_worker w xs = map snd (filter (\<lambda>e. fst e = w) xs)"

lemma deliverable_simps [simp]:
  "deliverable C c [] = []" "deliverable C c (xs @ ys) = deliverable C c xs @ deliverable C c ys"
  "deliverable C c (x # xs) =
     (if rm_connection x = c \<and> server_frame C (rm_message x) \<noteq> None then [rm_message x] else []) @ deliverable C c xs"
  by (simp_all add: deliverable_def)

lemma by_worker_simps [simp]:
  "by_worker w [] = []" "by_worker w (xs @ ys) = by_worker w xs @ by_worker w ys"
  "by_worker w [(v, x)] = (if v = w then [x] else [])"
  by (simp_all add: by_worker_def)

lemma by_worker_given [simp]: "by_worker w (map (Pair v) zs) = (if v = w then zs else [])"
  by (induction zs) (auto simp: by_worker_def)

lemma deliverable_none: "c \<notin> dests xs \<Longrightarrow> deliverable C c xs = []"
  by (induction xs) auto

text \<open>The octets of a list of messages.\<close>

definition frames_of :: "codec \<Rightarrow> server_message list \<Rightarrow> bytes" where
  "frames_of C ms = concat (map (\<lambda>m. case server_frame C m of Some bs \<Rightarrow> bs | None \<Rightarrow> []) ms)"

lemma frames_of_simps [simp]:
  "frames_of C [] = []" "frames_of C (xs @ ys) = frames_of C xs @ frames_of C ys"
  "server_frame C m = Some bs \<Longrightarrow> frames_of C [m] = bs"
  by (simp_all add: frames_of_def)

text \<open>A socket that has not failed holds the frames but for what is left of the last; one that has
  failed holds a first part of them.\<close>

definition octets_ok :: "codec \<Rightarrow> tcp_socket \<Rightarrow> bytes \<Rightarrow> server_message list \<Rightarrow> bool" where
  "octets_ok C so left ms \<longleftrightarrow>
     (if so_failed so then prefix (so_sent so) (frames_of C ms) else so_sent so @ left = frames_of C ms)"

definition waiting_for :: "codec \<Rightarrow> (worker \<Rightarrow> tcp_pc option) \<Rightarrow> connection_id \<Rightarrow> worker \<Rightarrow> server_message list" where
  "waiting_for C pcs c w = (case pcs w of None \<Rightarrow> [] | Some pc \<Rightarrow> deliverable C c (unsent pc))"

definition in_sequence :: "codec \<Rightarrow> (worker \<Rightarrow> tcp_pc option) \<Rightarrow> (worker \<times> routed_message) list \<Rightarrow> connection_id list \<Rightarrow>
     connection_id \<Rightarrow> (worker \<times> server_message) list \<Rightarrow> bool" where
  "in_sequence C pcs routed ws c log \<longleftrightarrow>
     (\<forall>w. subseq (by_worker w log @ waiting_for C pcs c w) (deliverable C c (by_worker w routed)) \<and>
        (c \<in> set ws \<longrightarrow> by_worker w log @ waiting_for C pcs c w = deliverable C c (by_worker w routed)))"

definition left_on :: "(worker \<Rightarrow> tcp_pc option) \<Rightarrow> tcp_socket \<Rightarrow> bytes" where
  "left_on pcs so = (case so_holder so of None \<Rightarrow> [] | Some w \<Rightarrow> (case pcs w of None \<Rightarrow> [] | Some pc \<Rightarrow> octets_left pc))"

definition socket_delivery :: "codec \<Rightarrow> (worker \<Rightarrow> tcp_pc option) \<Rightarrow> (connection_id \<Rightarrow> tcp_socket) \<Rightarrow>
     (worker \<times> routed_message) list \<Rightarrow> connection_id list \<Rightarrow> connection_id set \<Rightarrow> bool" where
  "socket_delivery C pcs so routed ws live \<longleftrightarrow>
     (\<forall>c w. so_holder (so c) = Some w \<longleftrightarrow> (\<exists>pc. pcs w = Some pc \<and> writes_to pc = Some c)) \<and>
     (\<forall>w pc. pcs w = Some pc \<longrightarrow> framed C pc \<and> targets pc \<subseteq> live \<and> (\<forall>c. w = Conn c \<longrightarrow> c \<in> live)) \<and>
     (\<forall>(w, x) \<in> set routed. rm_connection x \<in> live \<and> (\<forall>c. w = Conn c \<longrightarrow> c \<in> live)) \<and>
     (\<forall>c. \<exists>log. octets_ok C (so c) (left_on pcs (so c)) (map snd log) \<and> in_sequence C pcs routed ws c log)"

lemma deliveryD:
  assumes "socket_delivery C pcs so routed ws live"
  shows "so_holder (so c) = Some w \<longleftrightarrow> (\<exists>pc. pcs w = Some pc \<and> writes_to pc = Some c)"
    and "pcs w = Some pc \<Longrightarrow> framed C pc" "pcs w = Some pc \<Longrightarrow> targets pc \<subseteq> live"
    and "pcs (Conn c) = Some pc \<Longrightarrow> c \<in> live"
    and "(v, x) \<in> set routed \<Longrightarrow> rm_connection x \<in> live" "(Conn c, x) \<in> set routed \<Longrightarrow> c \<in> live"
    and "\<exists>log. octets_ok C (so c) (left_on pcs (so c)) (map snd log) \<and> in_sequence C pcs routed ws c log"
proof -
  note U = assms[unfolded socket_delivery_def]
  show "so_holder (so c) = Some w \<longleftrightarrow> (\<exists>pc. pcs w = Some pc \<and> writes_to pc = Some c)" using U by (elim conjE allE)
  show "framed C pc" "targets pc \<subseteq> live" if "pcs w = Some pc" using U that by metis+
  show "c \<in> live" if "pcs (Conn c) = Some pc" using U that by metis
  show "rm_connection x \<in> live" if "(v, x) \<in> set routed" using U that by fast
  show "c \<in> live" if "(Conn c, x) \<in> set routed" using U that by fast
  show "\<exists>log. octets_ok C (so c) (left_on pcs (so c)) (map snd log) \<and> in_sequence C pcs routed ws c log"
    using U by (elim conjE allE)
qed

section \<open>Steps\<close>

lemma in_sequence_cong:
  assumes "in_sequence C pcs routed ws c log"
    and "\<And>w. waiting_for C pcs' c w = waiting_for C pcs c w" and "c \<in> set ws' \<Longrightarrow> c \<in> set ws"
  shows "in_sequence C pcs' routed ws' c log"
  using assms by (simp add: in_sequence_def)

text \<open>A thread that is given messages, possibly none.\<close>

lemma delivery_given:
  assumes d: "socket_delivery C pcs so routed ws live" and w: "pcs w = Some pc" "unsent pc = []" "writes_to pc = None"
    and pc': "unsent pc' = ms" "writes_to pc' = None" "framed C pc'" and ms: "dests ms \<subseteq> live" and ws: "set ws' \<subseteq> set ws"
  shows "socket_delivery C (pcs(w \<mapsto> pc')) so (routed @ map (Pair w) ms) ws' live"
  unfolding socket_delivery_def
proof (intro conjI allI)
  note D = deliveryD[OF d]
  show "so_holder (so c) = Some v \<longleftrightarrow> (\<exists>pc. (pcs(w \<mapsto> pc')) v = Some pc \<and> writes_to pc = Some c)" for c v
    using D(1)[of c v] w pc' by auto
  show "(pcs(w \<mapsto> pc')) v = Some pc \<longrightarrow> framed C pc \<and> targets pc \<subseteq> live \<and> (\<forall>c. v = Conn c \<longrightarrow> c \<in> live)" for v pc
    using D(2)[of v pc] D(3)[of v pc] D(4) w pc' ms by (auto simp: targets_def split: if_splits)
  show "\<forall>(v, x) \<in> set (routed @ map (Pair w) ms). rm_connection x \<in> live \<and> (\<forall>c. v = Conn c \<longrightarrow> c \<in> live)"
    using D(4-6) w ms by (auto simp: dests_def)
  show "\<exists>log. octets_ok C (so c) (left_on (pcs(w \<mapsto> pc')) (so c)) (map snd log) \<and>
      in_sequence C (pcs(w \<mapsto> pc')) (routed @ map (Pair w) ms) ws' c log" for c
  proof -
    obtain log where log: "octets_ok C (so c) (left_on pcs (so c)) (map snd log)" "in_sequence C pcs routed ws c log"
      using D(7) by blast
    have "left_on (pcs(w \<mapsto> pc')) (so c) = left_on pcs (so c)"
      using D(1)[of c w] w by (auto simp: left_on_def split: option.split)
    moreover have "in_sequence C (pcs(w \<mapsto> pc')) (routed @ map (Pair w) ms) ws' c log"
      unfolding in_sequence_def
    proof
      fix v
      have "subseq (by_worker v log @ waiting_for C pcs c v) (deliverable C c (by_worker v routed))"
        "c \<in> set ws \<Longrightarrow> by_worker v log @ waiting_for C pcs c v = deliverable C c (by_worker v routed)"
        using log(2) by (simp_all add: in_sequence_def)
      then show "subseq (by_worker v log @ waiting_for C (pcs(w \<mapsto> pc')) c v) (deliverable C c (by_worker v (routed @ map (Pair w) ms))) \<and>
          (c \<in> set ws' \<longrightarrow> by_worker v log @ waiting_for C (pcs(w \<mapsto> pc')) c v = deliverable C c (by_worker v (routed @ map (Pair w) ms)))"
        using w pc' ws by (auto simp: waiting_for_def)
    qed
    ultimately show ?thesis using log(1) by metis
  qed
qed

text \<open>A new connection: nothing was sent there, and nobody sends there.\<close>

lemma delivery_accepted:
  assumes d: "socket_delivery C pcs so routed ws live" and new: "c \<notin> live" and so': "so_holder so' = None" "so_sent so' = []"
    and ws: "set ws' = insert c (set ws)"
  shows "socket_delivery C (pcs(Conn c \<mapsto> PcReading)) (so(c := so')) routed ws' (insert c live)"
  unfolding socket_delivery_def
proof (intro conjI allI)
  note D = deliveryD[OF d]
  have none: "pcs (Conn c) = None" using D(4)[of c] new by (cases "pcs (Conn c)") auto
  have free: "writes_to pc \<noteq> Some c" "c \<notin> dests (unsent pc)" if "pcs w = Some pc" for w pc
    using D(3)[OF that] new by (auto simp: targets_def)
  show "so_holder ((so(c := so')) e) = Some w \<longleftrightarrow> (\<exists>pc. (pcs(Conn c \<mapsto> PcReading)) w = Some pc \<and> writes_to pc = Some e)" for e w
    using D(1)[of e w] free none so' by auto
  show "(pcs(Conn c \<mapsto> PcReading)) w = Some pc \<longrightarrow>
      framed C pc \<and> targets pc \<subseteq> insert c live \<and> (\<forall>e. w = Conn e \<longrightarrow> e \<in> insert c live)" for w pc
    using D(2)[of w pc] D(3)[of w pc] D(4) by (auto simp: targets_def split: if_splits)
  show "\<forall>(w, x) \<in> set routed. rm_connection x \<in> insert c live \<and> (\<forall>e. w = Conn e \<longrightarrow> e \<in> insert c live)"
    using D(5,6) by blast
  have pend: "waiting_for C (pcs(Conn c \<mapsto> PcReading)) e w = waiting_for C pcs e w" for w e
    using none by (auto simp: waiting_for_def split: option.split)
  show "\<exists>log. octets_ok C ((so(c := so')) e) (left_on (pcs(Conn c \<mapsto> PcReading)) ((so(c := so')) e)) (map snd log) \<and>
      in_sequence C (pcs(Conn c \<mapsto> PcReading)) routed ws' e log" for e
  proof (cases "e = c")
    case True
    have "c \<notin> dests (by_worker w routed)" for w
      using D(5) new by (auto simp: dests_def by_worker_def)
    then have "deliverable C c (by_worker w routed) = []" for w by (rule deliverable_none)
    moreover have "waiting_for C pcs c w = []" for w
      using free(2) by (auto simp: waiting_for_def deliverable_none split: option.split)
    ultimately have "in_sequence C (pcs(Conn c \<mapsto> PcReading)) routed ws' c []"
      by (simp add: in_sequence_def pend)
    moreover have "octets_ok C so' (left_on (pcs(Conn c \<mapsto> PcReading)) so') (map snd [])"
      using so' by (simp add: octets_ok_def left_on_def)
    ultimately show ?thesis using True by (intro exI[of _ "[]"]) simp
  next
    case False
    obtain log where log: "octets_ok C (so e) (left_on pcs (so e)) (map snd log)" "in_sequence C pcs routed ws e log"
      using D(7) by blast
    have "left_on (pcs(Conn c \<mapsto> PcReading)) (so e) = left_on pcs (so e)"
      using D(1)[of e "Conn c"] none by (auto simp: left_on_def split: option.split)
    moreover have "in_sequence C (pcs(Conn c \<mapsto> PcReading)) routed ws' e log"
      by (rule in_sequence_cong[OF log(2) pend]) (use ws False in auto)
    ultimately show ?thesis using log(1) False by auto
  qed
qed

text \<open>A thread that looks up the writer of its next message, or has sent all.\<close>

lemma delivery_moved:
  assumes d: "socket_delivery C pcs so routed ws live" and w: "pcs w = Some pc" "writes_to pc = None"
    and pc': "writes_to pc' = None" "framed C pc'" "targets pc' \<subseteq> targets pc"
    and rest: "\<And>c. subseq (deliverable C c (unsent pc')) (deliverable C c (unsent pc))"
      "\<And>c. c \<in> set ws \<Longrightarrow> deliverable C c (unsent pc') = deliverable C c (unsent pc)"
  shows "socket_delivery C (pcs(w \<mapsto> pc')) so routed ws live"
  unfolding socket_delivery_def
proof (intro conjI allI)
  note D = deliveryD[OF d]
  show "so_holder (so c) = Some v \<longleftrightarrow> (\<exists>pc. (pcs(w \<mapsto> pc')) v = Some pc \<and> writes_to pc = Some c)" for c v
    using D(1)[of c v] w pc' by auto
  show "(pcs(w \<mapsto> pc')) v = Some q \<longrightarrow> framed C q \<and> targets q \<subseteq> live \<and> (\<forall>c. v = Conn c \<longrightarrow> c \<in> live)" for v q
    using D(2)[of v q] D(3)[of v q] D(3)[of w pc] D(4) w pc' by (auto split: if_splits)
  show "\<forall>(v, x) \<in> set routed. rm_connection x \<in> live \<and> (\<forall>c. v = Conn c \<longrightarrow> c \<in> live)"
    using D(5,6) by blast
  show "\<exists>log. octets_ok C (so c) (left_on (pcs(w \<mapsto> pc')) (so c)) (map snd log) \<and>
      in_sequence C (pcs(w \<mapsto> pc')) routed ws c log" for c
  proof -
    obtain log where log: "octets_ok C (so c) (left_on pcs (so c)) (map snd log)" "in_sequence C pcs routed ws c log"
      using D(7) by blast
    have "left_on (pcs(w \<mapsto> pc')) (so c) = left_on pcs (so c)"
      using D(1)[of c w] w by (auto simp: left_on_def split: option.split)
    moreover have "in_sequence C (pcs(w \<mapsto> pc')) routed ws c log"
      unfolding in_sequence_def
    proof
      fix v
      have old: "subseq (by_worker v log @ waiting_for C pcs c v) (deliverable C c (by_worker v routed))"
        "c \<in> set ws \<Longrightarrow> by_worker v log @ waiting_for C pcs c v = deliverable C c (by_worker v routed)"
        using log(2) by (simp_all add: in_sequence_def)
      have "subseq (waiting_for C (pcs(w \<mapsto> pc')) c v) (waiting_for C pcs c v)"
        "c \<in> set ws \<Longrightarrow> waiting_for C (pcs(w \<mapsto> pc')) c v = waiting_for C pcs c v"
        using rest w by (simp_all add: waiting_for_def)
      with old show "subseq (by_worker v log @ waiting_for C (pcs(w \<mapsto> pc')) c v) (deliverable C c (by_worker v routed)) \<and>
          (c \<in> set ws \<longrightarrow> by_worker v log @ waiting_for C (pcs(w \<mapsto> pc')) c v = deliverable C c (by_worker v routed))"
        by (auto intro: subseq_order.trans list_emb_append_mono)
    qed
    ultimately show ?thesis using log(1) by metis
  qed
qed

text \<open>
  A thread that acts on the socket of \<open>e\<close>, which it holds or takes, and enters the messages \<open>new\<close>
  in its log.
\<close>

lemma delivery_socket:
  assumes d: "socket_delivery C pcs so routed ws live" and w: "pcs w = Some pc"
    and holds: "\<And>v. so_holder (so e) = Some v \<Longrightarrow> v = w" "so_holder so' = (if writes_to pc' = None then None else Some w)"
      "writes_to pc \<in> {None, Some e}" "writes_to pc' \<in> {None, Some e}"
    and pc': "framed C pc'" "targets pc' \<subseteq> targets pc"
    and new: "\<And>c. deliverable C c (unsent pc) = (if c = e then new else []) @ deliverable C c (unsent pc')"
    and octets: "\<And>ms. octets_ok C (so e) (left_on pcs (so e)) ms \<Longrightarrow>
      octets_ok C so' (left_on (pcs(w \<mapsto> pc')) so') (ms @ new)"
  shows "socket_delivery C (pcs(w \<mapsto> pc')) (so(e := so')) routed ws live"
  unfolding socket_delivery_def
proof (intro conjI allI)
  note D = deliveryD[OF d]
  show "so_holder ((so(e := so')) c) = Some v \<longleftrightarrow> (\<exists>pc. (pcs(w \<mapsto> pc')) v = Some pc \<and> writes_to pc = Some c)" for c v
    using D(1)[of c v] w holds by (auto split: if_splits)
  show "(pcs(w \<mapsto> pc')) v = Some q \<longrightarrow> framed C q \<and> targets q \<subseteq> live \<and> (\<forall>c. v = Conn c \<longrightarrow> c \<in> live)" for v q
    using D(2)[of v q] D(3)[of v q] D(3)[of w pc] D(4) w pc' by (auto split: if_splits)
  show "\<forall>(v, x) \<in> set routed. rm_connection x \<in> live \<and> (\<forall>c. v = Conn c \<longrightarrow> c \<in> live)"
    using D(5,6) by blast
  have seq: "in_sequence C (pcs(w \<mapsto> pc')) routed ws c (log @ (if c = e then map (Pair w) new else []))"
    if log: "in_sequence C pcs routed ws c log" for c log
    unfolding in_sequence_def
  proof
    fix v
    have "by_worker v (log @ (if c = e then map (Pair w) new else [])) @ waiting_for C (pcs(w \<mapsto> pc')) c v =
        by_worker v log @ waiting_for C pcs c v"
      using new[of c] w by (auto simp: waiting_for_def)
    then show "subseq (by_worker v (log @ (if c = e then map (Pair w) new else [])) @ waiting_for C (pcs(w \<mapsto> pc')) c v)
          (deliverable C c (by_worker v routed)) \<and>
        (c \<in> set ws \<longrightarrow> by_worker v (log @ (if c = e then map (Pair w) new else [])) @ waiting_for C (pcs(w \<mapsto> pc')) c v =
          deliverable C c (by_worker v routed))"
      using log by (simp add: in_sequence_def)
  qed
  show "\<exists>log. octets_ok C ((so(e := so')) c) (left_on (pcs(w \<mapsto> pc')) ((so(e := so')) c)) (map snd log) \<and>
      in_sequence C (pcs(w \<mapsto> pc')) routed ws c log" for c
  proof -
    obtain log where log: "octets_ok C (so c) (left_on pcs (so c)) (map snd log)" "in_sequence C pcs routed ws c log"
      using D(7) by blast
    show ?thesis
    proof (cases "c = e")
      case True
      have "map snd (log @ map (Pair w) new) = map snd log @ new" by (simp add: comp_def)
      with octets[of "map snd log"] log(1) seq[OF log(2)] True show ?thesis
        by (intro exI[of _ "log @ map (Pair w) new"]) simp
    next
      case False
      have "so_holder (so c) \<noteq> Some w" using D(1)[of c w] w holds(3) False by auto
      then have "left_on (pcs(w \<mapsto> pc')) (so c) = left_on pcs (so c)"
        by (auto simp: left_on_def split: option.split)
      with seq[OF log(2)] log(1) False show ?thesis by auto
    qed
  qed
qed

lemma delivery_sent:
  assumes d: "socket_delivery C pcs so routed ws live" and w: "pcs w = Some pc"
    and st: "send_step w C ws (pc, so) (pc', so')"
  shows "socket_delivery C (pcs(w \<mapsto> pc')) so' routed ws live"
  using st
proof cases
  case (looked_up x rest k)
  show ?thesis
    unfolding looked_up(3) by (rule delivery_moved[OF d w])
      (use looked_up in \<open>auto simp: lookup_writer_def targets_def bs_contains_def route_def split: option.splits if_splits\<close>)
next
  case (sent_all k)
  show ?thesis
    unfolding sent_all(3) by (rule delivery_moved[OF d w]; cases k) (use sent_all in \<open>auto simp: targets_def\<close>)
next
  case (writer_locked e m bs rest k)
  have "server_frame C m = Some bs" using deliveryD(2)[OF d w] writer_locked by simp
  then show ?thesis
    unfolding writer_locked(3) by (intro delivery_socket[OF d w, where new = "[m]"])
      (use writer_locked in \<open>auto simp: targets_def route_def left_on_def octets_ok_def\<close>)
next
  case (octets_written n bs e m rest k)
  have h: "so_holder (so e) = Some w" using deliveryD(1)[OF d, of e w] w octets_written by simp
  show ?thesis
    unfolding octets_written(3) by (rule delivery_socket[OF d w, where new = "[]"])
      (use octets_written h w in \<open>auto simp: targets_def left_on_def octets_ok_def socket_write_def\<close>)
next
  case (write_failed bs e m rest k)
  have h: "so_holder (so e) = Some w" using deliveryD(1)[OF d, of e w] w write_failed by simp
  have "socket_delivery C (pcs(w \<mapsto> pc')) (so(e := so e)) routed ws live"
    by (rule delivery_socket[OF d w, where new = "[]"])
      (use write_failed h w in \<open>auto simp: targets_def octets_ok_def\<close>)
  with write_failed show ?thesis by simp
next
  case (writer_unlocked e m rest k)
  have h: "so_holder (so e) = Some w" using deliveryD(1)[OF d, of e w] w writer_unlocked by simp
  show ?thesis
    unfolding writer_unlocked(3) by (rule delivery_socket[OF d w, where new = "[]"])
      (use writer_unlocked h w in \<open>auto simp: targets_def left_on_def octets_ok_def\<close>)
qed

text \<open>What the network does to a socket.\<close>

lemma delivery_network:
  assumes d: "socket_delivery C pcs so routed ws live"
    and so': "so_holder so' = so_holder (so e)" "so_sent so' = so_sent (so e)" "so_failed (so e) \<Longrightarrow> so_failed so'"
  shows "socket_delivery C pcs (so(e := so')) routed ws live"
proof -
  have l: "left_on pcs so' = left_on pcs (so e)" using so' by (simp add: left_on_def)
  have "octets_ok C so' (left_on pcs so') ms" if "octets_ok C (so e) (left_on pcs (so e)) ms" for ms
    using that so' unfolding octets_ok_def l by (metis prefixI)
  then show ?thesis using d so' unfolding socket_delivery_def by (simp add: fun_upd_def) metis
qed

section \<open>The process\<close>

lemma worker_pc_updates [simp]:
  "worker_pc (sh\<lparr>sh_service := r\<rparr>) = worker_pc sh" "worker_pc (sh\<lparr>sh_routed := ms\<rparr>) = worker_pc sh"
  "worker_pc (sh\<lparr>sh_poisoned := p\<rparr>) = worker_pc sh" "worker_pc (sh\<lparr>sh_writers := ws\<rparr>) = worker_pc sh"
  "worker_pc (sh\<lparr>sh_running := b\<rparr>) = worker_pc sh"
  "worker_pc (sh\<lparr>sh_sweeper := pc\<rparr>) = (worker_pc sh)(Sweeper \<mapsto> pc)"
  "worker_pc (set_pc c th pc sh) = (worker_pc sh)(Conn c \<mapsto> pc)"
  "worker_pc (sh\<lparr>sh_threads := (sh_threads sh)(c \<mapsto> th)\<rparr>) = (worker_pc sh)(Conn c \<mapsto> tt_pc th)"
  by (auto simp: worker_pc_def set_pc_def fun_eq_iff split: worker.splits)

lemma worker_pc_set_worker:
  assumes "worker_pc sh w = Some pc"
  shows "worker_pc (set_worker w pc' sh) = (worker_pc sh)(w \<mapsto> pc')"
    and "dom (sh_threads (set_worker w pc' sh)) = dom (sh_threads sh)"
  using assms by (auto simp: set_worker_def worker_pc_def set_pc_def fun_eq_iff split: worker.splits option.splits)

lemma worker_pc_set_stream:
  assumes "sh_threads sh c = Some th"
  shows "worker_pc (set_stream c th st sh) = worker_pc sh" "dom (sh_threads (set_stream c th st sh)) = dom (sh_threads sh)"
  using assms by (auto simp: worker_pc_def set_stream_def fun_eq_iff split: worker.splits)

lemma set_pc_threads: "sh_threads sh c = Some th \<Longrightarrow> dom (sh_threads (set_pc c th pc sh)) = dom (sh_threads sh)"
  by (auto simp: set_pc_def)

definition tcp_delivery :: "codec \<Rightarrow> 's tcp_shell \<Rightarrow> bool" where
  "tcp_delivery C sh \<longleftrightarrow>
     socket_delivery C (worker_pc sh) (sh_sockets sh) (sh_routed sh) (sh_writers sh) (dom (sh_threads sh))"

text \<open>A connection thread outside its sending is given messages for live connections.\<close>

lemma tcp_delivery_given:
  assumes d: "tcp_delivery C sh" and th: "sh_threads sh c = Some th" "unsent (tt_pc th) = []" "writes_to (tt_pc th) = None"
    and pc': "unsent pc' = ms" "writes_to pc' = None" "framed C pc'" and ms: "dests ms \<subseteq> dom (sh_threads sh)"
    and sh': "worker_pc sh' = (worker_pc sh)(Conn c \<mapsto> pc')" "sh_sockets sh' = sh_sockets sh"
      "sh_routed sh' = sh_routed sh @ map (Pair (Conn c)) ms" "set (sh_writers sh') \<subseteq> set (sh_writers sh)"
      "dom (sh_threads sh') = dom (sh_threads sh)"
  shows "tcp_delivery C sh'"
  unfolding tcp_delivery_def sh'(1-3,5)
  by (rule delivery_given[OF d[unfolded tcp_delivery_def] _ th(2,3) pc' ms sh'(4)]) (simp add: worker_pc_def th(1))

lemma serve_read_replies:
  assumes "serve_read C c now randomness th = Some th'"
  shows "unsent (tt_pc th') = own_replies (tt_pc th') \<and> writes_to (tt_pc th') = None \<and> framed C (tt_pc th') \<and>
    dests (own_replies (tt_pc th')) \<subseteq> {c}"
  using assms by (auto simp: serve_read_def route_def split: prod.splits result.splits option.splits)

lemma tcp_delivery_step:
  assumes law: "store_law E records sinv" and inv: "tcp_inv E records sinv sh" and m: "tables_match sh"
    and d: "tcp_delivery C sh" and st: "tcp_step E C sh sh'" and fits: "sh_accepted sh' \<le> u64_max"
  shows "tcp_delivery C sh'"
proof -
  note D = d[unfolded tcp_delivery_def]
  have I: "relay_inv E records sinv (sh_service sh)" using inv by (simp add: tcp_inv_def)
  have known: "known (sh_service sh) \<subseteq> dom (sh_threads sh)"
    using m by (auto simp: tables_match_def pc_of_def)
  have typed: "length (rr_mailbox_id vals) = 32" "typed_message msg"
    if "sh_threads sh c = Some th" "tt_pc th = PcHandling now vals msg" for c th now vals msg
  proof -
    have "typed_pc (tt_pc th)" using inv pc_of_thread[OF that(1)] by (simp add: tcp_inv_def)
    then show "length (rr_mailbox_id vals) = 32" "typed_message msg" by (simp_all add: that(2))
  qed
  show ?thesis
    using st
  proof cases
    case (peer_sent c th bs)
    then show ?thesis using d by (simp add: tcp_delivery_def worker_pc_set_stream set_stream_fields)
  next
    case (peer_ended c th e)
    then show ?thesis using d by (simp add: tcp_delivery_def worker_pc_set_stream set_stream_fields)
  next
    case (peer_took c n)
    show ?thesis
      unfolding tcp_delivery_def peer_took using delivery_network[OF D, of "(sh_sockets sh c)\<lparr>so_window := n\<rparr>" c] by simp
  next
    case (socket_failed c)
    show ?thesis
      unfolding tcp_delivery_def socket_failed using delivery_network[OF D, of "(sh_sockets sh c)\<lparr>so_failed := True\<rparr>" c] by simp
  next
    case (accepted addr window cloned)
    let ?c = "Suc (sh_accepted sh)"
    have "sh_accepted sh' = ?c" unfolding accepted(1) by (simp add: accept_connection_def Let_def)
    then have fits': "?c \<le> u64_max" using fits by simp
    note A = tables_match_accept[OF m fits']
    have "?c \<notin> dom (sh_threads sh)" using A(2) by (auto simp: pc_of_def)
    note new = delivery_accepted[OF D this, where so' = "\<lparr>so_sent = [], so_window = window, so_failed = False, so_holder = None\<rparr>"
        and ws' = "bs_insert ?c (sh_writers sh)"]
    have pcs: "worker_pc (accept_connection addr window True sh) = (worker_pc sh)(Conn ?c \<mapsto> PcReading)"
      by (auto simp: accept_connection_def Let_def A(1) worker_pc_def fun_eq_iff split: worker.splits)
    have refused: "worker_pc (accept_connection addr window False sh) = worker_pc sh"
      by (auto simp: accept_connection_def Let_def worker_pc_def fun_eq_iff split: worker.splits)
    show ?thesis
    proof (cases cloned)
      case True
      then show ?thesis
        using new pcs by (simp add: tcp_delivery_def accepted(1) accept_connection_def Let_def A(1) set_bs_insert)
    next
      case False
      then show ?thesis
        using d refused by (simp add: tcp_delivery_def accepted(1) accept_connection_def Let_def)
    qed
  next
    case (read c th randomness now th')
    note R = serve_read_replies[OF read(6)]
    show ?thesis
      by (rule tcp_delivery_given[OF d read(3), where pc' = "tt_pc th'" and ms = "own_replies (tt_pc th')"])
        (use read R in auto)
  next
    case (locked c th now vals msg ms r)
    have "dests ms \<subseteq> insert c (known (sh_service sh))"
      using serve_locked_spec[OF law I typed[OF locked(3,4)], of c "tt_peer th" now] locked(6) by auto
    with known have "dests ms \<subseteq> dom (sh_threads sh)" using locked(3) by auto
    then show ?thesis
      by (intro tcp_delivery_given[OF d locked(3), where pc' = "PcSending ms ThenRead" and ms = ms])
        (use locked in \<open>auto simp: set_pc_threads\<close>)
  next
    case (locked_panic c th now vals msg r)
    then show ?thesis using serve_locked_spec[OF law I typed[OF locked_panic(3,4)], of c "tt_peer th" now] by auto
  next
    case (lock_poisoned c th now vals msg)
    then show ?thesis using inv by (simp add: tcp_inv_def)
  next
    case (disconnected c th)
    show ?thesis
      by (rule tcp_delivery_given[OF d disconnected(3), where pc' = PcRemove and ms = "[]"])
        (use disconnected in \<open>auto simp: set_pc_threads\<close>)
  next
    case (removed c th)
    show ?thesis
      by (rule tcp_delivery_given[OF d removed(3), where pc' = PcDone and ms = "[]"])
        (use removed in \<open>auto simp: set_pc_threads bs_remove_def\<close>)
  next
    case (swept now ms r)
    have "dests ms \<subseteq> dom (sh_threads sh)"
      using sweep_locked_spec[OF law I, of now] swept(5) known by auto
    with swept show ?thesis
      using delivery_given[OF D, of Sweeper "sh_sweeper sh" "PcSending ms ThenRead" ms "sh_writers sh"]
      by (simp add: tcp_delivery_def)
  next
    case (sweep_panic now r)
    then show ?thesis using sweep_locked_spec[OF law I, of now] by auto
  next
    case (sent w pc pc' so)
    show ?thesis
      using delivery_sent[OF D sent(3,4)] worker_pc_set_worker[of "sh\<lparr>sh_sockets := so\<rparr>" w pc pc'] sent(1,3)
      by (simp add: tcp_delivery_def)
  qed
qed

lemma tcp_delivery_reach:
  assumes "store_law E records sinv" and "relay_inv E records sinv r" and "tcp_reach E C r sh"
    and "known r = {}" and "sh_accepted sh \<le> u64_max"
  shows "tcp_delivery C sh"
  using assms(3,5)
proof induction
  case initial
  have "in_sequence C (worker_pc (tcp_initial r)) [] [] c []" for c
    by (auto simp: in_sequence_def waiting_for_def worker_pc_def tcp_initial_def split: worker.split)
  then show ?case
    unfolding tcp_delivery_def socket_delivery_def
    by (auto simp: tcp_initial_def worker_pc_def octets_ok_def left_on_def targets_def split: worker.splits intro!: exI[of _ "[]"])
next
  case (step sh sh')
  have le: "sh_accepted sh \<le> u64_max" using accepted_mono[OF step.hyps(2)] step.prems by simp
  show ?case
    by (rule tcp_delivery_step[OF assms(1) tcp_inv_reach[OF assms(1,2) step.hyps(1)]
          tables_match_reach[OF assms(1,2) step.hyps(1) assms(4) le] step.IH[OF le] step.hyps(2) step.prems])
qed

section \<open>Properties\<close>

text \<open>Reading back what was written.\<close>

lemma from_be_bytes_append: "from_be_bytes (bs @ [b]) = from_be_bytes bs * 256 + unat b"
  by (simp add: from_be_bytes_def)

lemma from_be_bytes_written: "from_be_bytes (be_bytes k n) = n mod 256 ^ k"
proof (induction k arbitrary: n)
  case 0
  then show ?case by (simp add: from_be_bytes_def)
next
  case (Suc k)
  have "unat (of_nat (n mod 256) :: byte) = n mod 256" by (simp add: unat_of_nat)
  then show ?case
    using Suc.IH[of "n div 256"] mod_mult2_eq[of n 256 "256 ^ k"] by (simp add: from_be_bytes_append)
qed

lemma read_frame:
  assumes "encode_server_message C m = Ok bs" and "0 < length bs" and "length bs \<le> MAX_WIRE_MESSAGE"
    and "server_frame C m = Some octets"
  shows "read_message \<lparr>ts_bytes = octets @ rest, ts_end = e\<rparr> = Some (Ok (Some bs), \<lparr>ts_bytes = rest, ts_end = e\<rparr>)"
proof -
  have "length bs < 2 ^ 32" using assms(3) by (simp add: MAX_WIRE_MESSAGE_def)
  then have len: "from_be_bytes (be_bytes 4 (length bs)) = length bs" and small: "length bs mod 2 ^ 32 = length bs"
    by (simp_all add: from_be_bytes_written)
  have octets: "octets = be_bytes 4 (length bs) @ bs" using assms(1,4) small by (simp add: server_frame_def)
  have "read_exact 4 \<lparr>ts_bytes = octets @ rest, ts_end = e\<rparr> =
      Some (Ok (be_bytes 4 (length bs)), \<lparr>ts_bytes = bs @ rest, ts_end = e\<rparr>)"
    and "read_exact (length bs) \<lparr>ts_bytes = bs @ rest, ts_end = e\<rparr> = Some (Ok bs, \<lparr>ts_bytes = rest, ts_end = e\<rparr>)"
    by (simp_all add: read_exact_def octets)
  with len assms(2,3) show ?thesis by (simp add: read_message_def)
qed

text \<open>
  C16: What the relay writes to a connection is exactly what it routed there, in order. Under every
  interleaving of the threads, and however the writes are cut into pieces: at most one thread at
  a time writes to a connection, and the octets written to its socket are the
  length-prefixed frames of a sequence of messages, whole and one after the other, but for
  what is left of the frame being written (a connection that failed keeps a first part). Of each
  thread this sequence holds, followed by what the thread has still to send there, a
  subsequence of what the service or the thread itself routed there, in that order; and as long
  as the connection is registered exactly that: no message is lost, doubled or reordered, unless
  it has no encoding. A reader using the same framing reads each message back.
\<close>

theorem tcp_socket_carries_routed:
  assumes "start_ok E records sinv config s" and "with_store E config s = Ok r" and "tcp_reach E C r sh"
    and "sh_accepted sh \<le> u64_max"
  shows "(\<exists>log.
      (if so_failed (sh_sockets sh c) then prefix (so_sent (sh_sockets sh c)) (frames_of C (map snd log))
       else so_sent (sh_sockets sh c) @ left_on (worker_pc sh) (sh_sockets sh c) = frames_of C (map snd log)) \<and>
      (\<forall>w. subseq (by_worker w log @ waiting_for C (worker_pc sh) c w) (deliverable C c (by_worker w (sh_routed sh))) \<and>
        (c \<in> set (sh_writers sh) \<longrightarrow>
          by_worker w log @ waiting_for C (worker_pc sh) c w = deliverable C c (by_worker w (sh_routed sh))))) \<and>
    (\<forall>v w m bs ms k m' bs' ms' k'. worker_pc sh v = Some (PcWriting c m bs ms k) \<longrightarrow>
      worker_pc sh w = Some (PcWriting c m' bs' ms' k') \<longrightarrow> v = w) \<and>
    (encode_server_message C m = Ok bs \<longrightarrow> 0 < length bs \<longrightarrow> length bs \<le> MAX_WIRE_MESSAGE \<longrightarrow>
     server_frame C m = Some octets \<longrightarrow>
     read_message \<lparr>ts_bytes = octets @ rest, ts_end = e\<rparr> = Some (Ok (Some bs), \<lparr>ts_bytes = rest, ts_end = e\<rparr>))"
proof -
  note S = started_service[OF assms(1,2)]
  note D = deliveryD[OF tcp_delivery_reach[OF S(1,2) assms(3) S(3) assms(4), unfolded tcp_delivery_def]]
  have "so_holder (sh_sockets sh c) = Some w" if "worker_pc sh w = Some (PcWriting c m bs ms k)" for w m bs ms k
    using D(1)[of c w] that by simp
  then have "v = w" if "worker_pc sh v = Some (PcWriting c m bs ms k)" "worker_pc sh w = Some (PcWriting c m' bs' ms' k')"
    for v w m bs ms k m' bs' ms' k'
    using that by (metis option.inject)
  moreover obtain log where log: "octets_ok C (sh_sockets sh c) (left_on (worker_pc sh) (sh_sockets sh c)) (map snd log)"
    "in_sequence C (worker_pc sh) (sh_routed sh) (sh_writers sh) c log" using D(7)[of c] by blast
  ultimately show ?thesis
    using read_frame[of C m bs octets rest e] log(1)[unfolded octets_ok_def] log(2)[unfolded in_sequence_def]
    by (intro conjI exI[of _ log]) (assumption | blast)+
qed

text \<open>The refusal of the run, as it is on the socket.\<close>

theorem tcp_socket_carries_routed_witness:
  "\<exists>sh log. tcp_reach demo_env demo_wire_codec demo_started sh \<and> so_sent (sh_sockets sh 1) = [0, 0, 0, 1, 7] \<and>
     so_sent (sh_sockets sh 1) = frames_of demo_wire_codec (map snd log) \<and> by_worker (Conn 1) log = [MsgError 400]"
proof -
  obtain sh where sh: "demo_at sh (demo_thread [] (PcSending [] ThenClose)) (demo_socket [0, 0, 0, 1, 7] 0 None) [route 1 (MsgError 400)]"
    using demo_written by blast
  then have reach: "tcp_reach demo_env demo_wire_codec demo_started sh" and few: "sh_accepted sh \<le> u64_max"
    and so: "sh_sockets sh 1 = demo_socket [0, 0, 0, 1, 7] 0 None"
    and ws: "1 \<in> set (sh_writers sh)" and pc: "worker_pc sh (Conn 1) = Some (PcSending [] ThenClose)"
    and routed: "sh_routed sh = map (Pair (Conn 1)) [route 1 (MsgError 400)]"
    by (auto simp: demo_at_def demo_thread_def worker_pc_def u64_max_def)
  have given: "deliverable demo_wire_codec 1 (by_worker (Conn 1) (sh_routed sh)) = [MsgError 400]"
    by (simp only: routed by_worker_given) (simp add: route_def demo_frame)
  have waits: "waiting_for demo_wire_codec (worker_pc sh) 1 (Conn 1) = []"
    unfolding waiting_for_def pc by simp
  have left: "left_on (worker_pc sh) (sh_sockets sh 1) = []"
    unfolding so demo_socket_def left_on_def by simp
  from conjunct1[OF tcp_socket_carries_routed[OF demo_start_ok demo_started_fields(1) reach few, of 1]] obtain log where
    log: "if so_failed (sh_sockets sh 1) then prefix (so_sent (sh_sockets sh 1)) (frames_of demo_wire_codec (map snd log))
      else so_sent (sh_sockets sh 1) @ left_on (worker_pc sh) (sh_sockets sh 1) = frames_of demo_wire_codec (map snd log)"
    and mine: "by_worker (Conn 1) log @ waiting_for demo_wire_codec (worker_pc sh) 1 (Conn 1) =
      deliverable demo_wire_codec 1 (by_worker (Conn 1) (sh_routed sh))"
    using ws by blast
  have "\<not> so_failed (sh_sockets sh 1)" and sent: "so_sent (sh_sockets sh 1) = [0, 0, 0, 1, 7]"
    unfolding so demo_socket_def by simp_all
  with log left have "so_sent (sh_sockets sh 1) = frames_of demo_wire_codec (map snd log)" by (simp only: if_False append_Nil2)
  moreover have "by_worker (Conn 1) log = [MsgError 400]" using mine unfolding waits given by simp
  ultimately show ?thesis using reach sent by blast
qed

end
