(* ===== verification/Tcp_Progress.thy ===== *)
theory Tcp_Progress
  imports Tcp_Delivery
begin

text \<open>
  Whom a thread of the relay process waits for. No thread waits for a lock for ever because of
  another lock: what stops a thread is a peer that sends nothing, or one that takes nothing.
  Every step of its own brings a thread nearer to its end.
\<close>

section \<open>Threads come to their end\<close>

fun pc_rank :: "tcp_pc \<Rightarrow> nat" where
  "pc_rank (PcHandling now vals m) = 6"
| "pc_rank (PcSending ms ThenRead) = 5"
| "pc_rank (PcWaiting d m bs ms ThenRead) = 5"
| "pc_rank (PcWriting d m bs ms ThenRead) = 5"
| "pc_rank PcReading = 4"
| "pc_rank (PcSending ms ThenClose) = 3"
| "pc_rank (PcWaiting d m bs ms ThenClose) = 3"
| "pc_rank (PcWriting d m bs ms ThenClose) = 3"
| "pc_rank PcDisconnect = 2"
| "pc_rank PcRemove = 1"
| "pc_rank PcDone = 0"

fun pc_queue :: "tcp_pc \<Rightarrow> nat" where
  "pc_queue (PcSending ms k) = 3 * length ms"
| "pc_queue (PcWaiting d m bs ms k) = 3 * length ms + 2"
| "pc_queue (PcWriting d m bs ms k) = 3 * length ms + 1"
| "pc_queue _ = 0"

text \<open>
  What is left to do: the octets to read, then the place in the loop, then the messages to send,
  then the octets to write.
\<close>

definition thread_left :: "tcp_thread \<Rightarrow> nat \<times> nat \<times> nat \<times> nat" where
  "thread_left th = (length (ts_bytes (tt_stream th)), pc_rank (tt_pc th), pc_queue (tt_pc th), length (octets_left (tt_pc th)))"

definition left_order :: "((nat \<times> nat \<times> nat \<times> nat) \<times> nat \<times> nat \<times> nat \<times> nat) set" where
  "left_order = less_than <*lex*> less_than <*lex*> less_than <*lex*> less_than"

lemma wf_left_order: "wf left_order"
  by (simp add: left_order_def wf_lex_prod)

lemma read_message_shrinks:
  assumes "read_message st = Some (x, st')"
  shows "length (ts_bytes st') \<le> length (ts_bytes st) \<and>
    (\<forall>bs. x = Ok (Some bs) \<longrightarrow> length (ts_bytes st') < length (ts_bytes st))"
  using assms by (auto simp: read_message_def read_exact_def Let_def split: if_splits)

lemma serve_read_left:
  assumes "tt_pc th = PcReading" and "serve_read C c now randomness th = Some th'"
  shows "(thread_left th', thread_left th) \<in> left_order"
proof -
  obtain x st where x: "read_message (tt_stream th) = Some (x, st)"
    using assms(2) by (auto simp: serve_read_def split: option.splits)
  show ?thesis
    using read_message_shrinks[OF x] assms
    by (cases x rule: result.exhaust)
      (auto simp: serve_read_def x thread_left_def left_order_def split: option.splits result.splits)
qed

lemma send_left:
  assumes "send_step w C ws (tt_pc th, so) (pc', so')"
  shows "(thread_left (th\<lparr>tt_pc := pc'\<rparr>), thread_left th) \<in> left_order"
proof -
  have "(thread_left (th\<lparr>tt_pc := pc'\<rparr>), thread_left (th\<lparr>tt_pc := pc\<rparr>)) \<in> left_order"
    if "send_step w C ws (pc, so) (pc', so')" for pc
    using that
  proof cases
    case (looked_up x rest k)
    then show ?thesis by (cases k) (auto simp: lookup_writer_def thread_left_def left_order_def split: option.split)
  next
    case (sent_all k)
    then show ?thesis by (cases k) (auto simp: thread_left_def left_order_def)
  next
    case (writer_locked e m bs rest k)
    then show ?thesis by (cases k) (auto simp: thread_left_def left_order_def)
  next
    case (octets_written n bs e m rest k)
    then show ?thesis by (cases k) (auto simp: thread_left_def left_order_def)
  next
    case (write_failed bs e m rest k)
    then show ?thesis by (cases k) (auto simp: thread_left_def left_order_def)
  next
    case (writer_unlocked e m rest k)
    then show ?thesis by (cases k) (auto simp: thread_left_def left_order_def)
  qed
  from this[OF assms] show ?thesis by simp
qed

text \<open>What the steps of the process do to one thread.\<close>

definition only_fed :: "tcp_thread \<Rightarrow> tcp_thread \<Rightarrow> bool" where
  "only_fed th th' \<longleftrightarrow> (\<exists>bs e. th' = th\<lparr>tt_stream := \<lparr>ts_bytes = ts_bytes (tt_stream th) @ bs, ts_end = e\<rparr>\<rparr>)"

lemma only_fedI:
  "only_fed th th" "only_fed th (th\<lparr>tt_stream := (tt_stream th)\<lparr>ts_bytes := ts_bytes (tt_stream th) @ bs\<rparr>\<rparr>)"
  "only_fed th (th\<lparr>tt_stream := (tt_stream th)\<lparr>ts_end := e\<rparr>\<rparr>)"
proof -
  show "only_fed th th"
    unfolding only_fed_def by (intro exI[of _ "[]"] exI[of _ "ts_end (tt_stream th)"]) simp
  show "only_fed th (th\<lparr>tt_stream := (tt_stream th)\<lparr>ts_bytes := ts_bytes (tt_stream th) @ bs\<rparr>\<rparr>)"
    unfolding only_fed_def by (intro exI[of _ bs] exI[of _ "ts_end (tt_stream th)"]) simp
  show "only_fed th (th\<lparr>tt_stream := (tt_stream th)\<lparr>ts_end := e\<rparr>\<rparr>)"
    unfolding only_fed_def by (intro exI[of _ "[]"] exI[of _ e]) simp
qed

lemma step_thread:
  assumes st: "tcp_step E C sh sh'" and th: "sh_threads sh c = Some th" and old: "c \<noteq> sh_next_connection sh"
  shows "\<exists>th'. sh_threads sh' c = Some th' \<and> (only_fed th th' \<or> (thread_left th', thread_left th) \<in> left_order)"
  using st
proof cases
  case (peer_sent d th0 bs)
  then show ?thesis using th by (cases "c = d") (auto simp: set_stream_def only_fedI)
next
  case (peer_ended d th0 e)
  then show ?thesis using th by (cases "c = d") (auto simp: set_stream_def only_fedI)
next
  case (accepted addr window cloned)
  then show ?thesis using th old by (simp add: accept_connection_def Let_def only_fedI)
next
  case (read d th0 randomness now th')
  then show ?thesis using th serve_read_left[of th0 C d now randomness th'] by (auto simp: only_fedI)
next
  case (sent w pc pc' so)
  show ?thesis
  proof (cases "w = Conn c")
    case True
    then have "pc = tt_pc th" using sent(3) th by (simp add: worker_pc_def)
    with send_left[of w C "sh_writers sh" th "sh_sockets sh" pc' so] sent True th show ?thesis
      by (simp add: set_worker_def set_pc_def)
  next
    case False
    then have "sh_threads sh' c = sh_threads sh c"
      using sent(1) by (auto simp: set_worker_def set_pc_def split: worker.split option.split)
    with th show ?thesis by (simp add: only_fedI)
  qed
qed (use th in \<open>auto simp: set_pc_def only_fedI thread_left_def left_order_def\<close>)

section \<open>Waiting\<close>

definition can_step :: "'s relay_env \<Rightarrow> codec \<Rightarrow> 's tcp_shell \<Rightarrow> worker \<Rightarrow> bool" where
  "can_step E C sh w \<longleftrightarrow>
     (\<exists>sh'. tcp_step E C sh sh' \<and> sh_accepted sh' = sh_accepted sh \<and> worker_pc sh' w \<noteq> worker_pc sh w)"

text \<open>A peer that takes nothing more from its socket.\<close>

definition stuck_socket :: "tcp_socket \<Rightarrow> bool" where
  "stuck_socket so \<longleftrightarrow> so_window so = 0 \<and> \<not> so_failed so"

lemma can_step_sends:
  assumes "sh_running sh" and "worker_pc sh w = Some pc" and "send_step w C (sh_writers sh) (pc, sh_sockets sh) (pc', so)"
  shows "can_step E C sh w"
proof -
  have "worker_pc (set_worker w pc' (sh\<lparr>sh_sockets := so\<rparr>)) w = Some pc'"
    using worker_pc_set_worker(1)[of "sh\<lparr>sh_sockets := so\<rparr>" w pc pc'] assms(2) by simp
  with tcp_step.sent[OF assms, of E] send_step_pcs[OF assms(3)] assms(2) show ?thesis
    unfolding can_step_def
    by (intro exI[of _ "set_worker w pc' (sh\<lparr>sh_sockets := so\<rparr>)"]) (auto simp: set_worker_def set_pc_def split: worker.split option.split)
qed

text \<open>The holder of a writer never waits for another lock.\<close>

lemma holder_sends:
  assumes "bs = [] \<or> so_failed (so d) \<or> 0 < so_window (so d)"
  shows "\<exists>pc' so'. send_step w C ws (PcWriting d m bs ms k, so) (pc', so')"
proof (cases bs)
  case Nil
  then show ?thesis using send_step.writer_unlocked[of w C ws d m ms k so] by auto
next
  case (Cons b bs')
  show ?thesis
  proof (cases "so_failed (so d)")
    case True
    then show ?thesis using send_step.write_failed[of bs so d w C ws m ms k] Cons by auto
  next
    case False
    with assms Cons have "1 \<le> length bs" "1 \<le> so_window (so d)" by auto
    then show ?thesis using send_step.octets_written[of 1 bs so d w C ws m ms k] False by auto
  qed
qed

lemma holder_steps:
  assumes run: "sh_running sh" and pc: "worker_pc sh w = Some (PcWriting d m bs ms k)"
  shows "can_step E C sh w \<or> stuck_socket (sh_sockets sh d)"
proof (cases "stuck_socket (sh_sockets sh d)")
  case False
  then obtain pc' so' where "send_step w C (sh_writers sh) (PcWriting d m bs ms k, sh_sockets sh) (pc', so')"
    using holder_sends[of bs "sh_sockets sh" d w C "sh_writers sh" m ms k] by (auto simp: stuck_socket_def)
  from can_step_sends[OF run pc this] show ?thesis ..
qed simp

lemma waiting_steps:
  assumes run: "sh_running sh" and d: "tcp_delivery C sh" and pc: "worker_pc sh w = Some (PcWaiting d m bs ms k)"
  shows "can_step E C sh w \<or>
    (\<exists>v. so_holder (sh_sockets sh d) = Some v \<and> (can_step E C sh v \<or> stuck_socket (sh_sockets sh d)))"
proof (cases "so_holder (sh_sockets sh d)")
  case None
  from can_step_sends[OF run pc send_step.writer_locked[of "sh_sockets sh" d w, OF None]] show ?thesis ..
next
  case (Some v)
  then obtain q where q: "worker_pc sh v = Some q" "writes_to q = Some d"
    using deliveryD(1)[OF d[unfolded tcp_delivery_def], of d v] by blast
  then obtain m' bs' ms' k' where "q = PcWriting d m' bs' ms' k'" by (cases q) auto
  with holder_steps[OF run, of v d m' bs' ms' k'] q Some show ?thesis by blast
qed

lemma serve_read_returns:
  assumes "read_message (tt_stream th) \<noteq> None"
  shows "\<exists>th'. serve_read C c now randomness th = Some th'"
proof -
  obtain x st where x: "read_message (tt_stream th) = Some (x, st)" using assms by auto
  show ?thesis by (cases x) (auto simp: serve_read_def x split: option.split)
qed

lemma reading_steps:
  assumes run: "sh_running sh" and th: "sh_threads sh c = Some th" "tt_pc th = PcReading"
    and more: "read_message (tt_stream th) \<noteq> None"
  shows "can_step E C sh (Conn c)"
proof -
  obtain th' where th': "serve_read C c 0 (Err ()) th = Some th'" using serve_read_returns[OF more] by blast
  have "tt_pc th' \<noteq> PcReading" using typed_serve_read[OF _ th'] by simp
  moreover have "tcp_step E C sh (sh\<lparr>sh_threads := (sh_threads sh)(c \<mapsto> th'),
      sh_routed := sh_routed sh @ map (Pair (Conn c)) (own_replies (tt_pc th'))\<rparr>)"
    by (rule tcp_step.read[OF run th _ th']) simp
  ultimately show ?thesis
    unfolding can_step_def using th by (intro exI conjI) (assumption | simp add: worker_pc_def)+
qed

lemma set_pc_steps:
  assumes "tcp_step E C sh (set_pc c th pc sh0)" and "sh_accepted sh0 = sh_accepted sh" and "worker_pc sh (Conn c) \<noteq> Some pc"
  shows "can_step E C sh (Conn c)"
  unfolding can_step_def using assms
  by (intro exI[of _ "set_pc c th pc sh0"]) (simp add: worker_pc_conn not_sym)

text \<open>Whom a thread that is not done waits for, if it has no step.\<close>

lemma thread_waits:
  assumes law: "store_law E records sinv" and inv: "tcp_inv E records sinv sh" and d: "tcp_delivery C sh" and run: "sh_running sh"
    and th: "sh_threads sh c = Some th" and pc: "tt_pc th \<noteq> PcDone"
  shows "can_step E C sh (Conn c) \<or>
    tt_pc th = PcReading \<and> read_message (tt_stream th) = None \<or>
    (\<exists>e v. so_holder (sh_sockets sh e) = Some v \<and> e \<in> targets (tt_pc th) \<and>
       (can_step E C sh v \<or> stuck_socket (sh_sockets sh e)))"
proof -
  have w: "worker_pc sh (Conn c) = Some (tt_pc th)" using th by (simp add: worker_pc_def)
  show ?thesis
  proof (cases "tt_pc th")
    case PcReading
    with reading_steps[OF run th] show ?thesis by blast
  next
    case (PcHandling now vals m)
    have I: "relay_inv E records sinv (sh_service sh)" and np: "\<not> sh_poisoned sh" and ty: "typed_pc (tt_pc th)"
      using inv pc_of_thread[OF th] by (auto simp: tcp_inv_def)
    have ty': "length (rr_mailbox_id vals) = 32" "typed_message m" using ty by (simp_all add: PcHandling)
    obtain ms r where l: "serve_locked E c (tt_peer th) now vals m (sh_service sh) = Some (Some ms, r)"
      using serve_locked_spec[OF law I ty', of c "tt_peer th" now] by blast
    have "can_step E C sh (Conn c)"
      by (rule set_pc_steps[OF tcp_step.locked[OF run th PcHandling np l]]) (simp_all add: w PcHandling)
    then show ?thesis ..
  next
    case (PcSending ms k)
    have "\<exists>pc' so. send_step (Conn c) C (sh_writers sh) (tt_pc th, sh_sockets sh) (pc', so)"
      unfolding PcSending by (cases ms) (auto intro: send_step.sent_all send_step.looked_up)
    then obtain pc' so where "send_step (Conn c) C (sh_writers sh) (tt_pc th, sh_sockets sh) (pc', so)" by blast
    from can_step_sends[OF run w this] show ?thesis ..
  next
    case (PcWaiting e m bs ms k)
    have "e \<in> targets (tt_pc th)" by (simp add: PcWaiting targets_def route_def)
    with waiting_steps[OF run d w[unfolded PcWaiting], where E = E] show ?thesis by blast
  next
    case (PcWriting e m bs ms k)
    have "e \<in> targets (tt_pc th)" "so_holder (sh_sockets sh e) = Some (Conn c)"
      using deliveryD(1)[OF d[unfolded tcp_delivery_def], of e "Conn c"] w by (simp_all add: PcWriting targets_def)
    with holder_steps[OF run w[unfolded PcWriting], where E = E] show ?thesis by blast
  next
    case PcDisconnect
    have "can_step E C sh (Conn c)"
      by (rule set_pc_steps[OF tcp_step.disconnected[OF run th PcDisconnect]]) (simp_all add: w PcDisconnect)
    then show ?thesis ..
  next
    case PcRemove
    have "can_step E C sh (Conn c)"
      by (rule set_pc_steps[OF tcp_step.removed[OF run th PcRemove]]) (simp_all add: w PcRemove)
    then show ?thesis ..
  qed (use pc in simp)
qed

text \<open>
  The wait is real: as long as a peer takes nothing, the thread that writes to it has no step, and
  so has every thread that wants the same writer.
\<close>

lemma blocked_sender:
  assumes "pc = PcWriting d m bs ms k \<and> bs \<noteq> [] \<and> stuck_socket (so d) \<or> pc = PcWaiting d m bs ms k \<and> so_holder (so d) \<noteq> None"
  shows "\<not> send_step w C ws (pc, so) (pc', so')"
  using assms by (auto simp: stuck_socket_def elim: send_stepE)

lemma stuck_writer_waits:
  assumes pc: "worker_pc sh w = Some pc"
    and blocked: "pc = PcWriting d m bs ms k \<and> bs \<noteq> [] \<and> stuck_socket (sh_sockets sh d) \<or>
      pc = PcWaiting d m bs ms k \<and> so_holder (sh_sockets sh d) \<noteq> None"
  shows "\<not> can_step E C sh w"
proof
  assume "can_step E C sh w"
  then obtain sh' where st: "tcp_step E C sh sh'" and acc: "sh_accepted sh' = sh_accepted sh" and ne: "worker_pc sh' w \<noteq> Some pc"
    using pc by (auto simp: can_step_def)
  have pcs: "pc \<noteq> PcReading" "pc \<noteq> PcHandling now vals x" "pc \<noteq> PcDisconnect" "pc \<noteq> PcRemove" for now vals x
    using blocked by auto
  show False
    using st
  proof cases
    case (sent v q q' so)
    have "v \<noteq> w" using sent(3,4) pc blocked_sender[of pc d m bs ms k "sh_sockets sh" w C "sh_writers sh" q' so] blocked by auto
    with sent(1) pc ne show False
      by (auto simp: set_worker_def set_pc_def worker_pc_def split: worker.splits option.splits if_splits)
  qed (use pc ne acc pcs in \<open>auto simp: worker_pc_def set_pc_def set_stream_def accept_connection_def Let_def
      split: worker.splits if_splits\<close>)
qed

section \<open>Properties\<close>

text \<open>
  C17: While the process runs, a thread of a connection waits for a peer only. If the thread is not
  done it has a step of its own, or it reads and its peer has not sent a whole message, or it
  sends to a connection whose writer some thread holds, and that thread has a step of its own or
  the peer of the connection takes no more octets: the lock of the service is never held for
  ever, and the holder of a writer waits for no lock. And every step of the process leaves the
  thread as it is, but for more octets from its peer, or brings it strictly nearer to its end in
  a well-founded order (the octets to read, the place in the loop, the messages to send, the
  octets to write). The wait for a peer is real, since there is no timeout: as long as a peer takes
  nothing, the thread that writes to it has no step, and a thread that wants a held writer has none.
\<close>

theorem tcp_threads_wait_for_peers:
  assumes "start_ok E records sinv config s" and "with_store E config s = Ok r" and "tcp_reach E C r sh"
    and "sh_running sh" and "sh_accepted sh < u64_max"
    and "sh_threads sh c = Some th" and "tt_pc th \<noteq> PcDone"
  shows "(can_step E C sh (Conn c) \<or>
      tt_pc th = PcReading \<and> read_message (tt_stream th) = None \<or>
      (\<exists>e v. so_holder (sh_sockets sh e) = Some v \<and> e \<in> targets (tt_pc th) \<and>
         (can_step E C sh v \<or> stuck_socket (sh_sockets sh e)))) \<and>
    (\<forall>sh'. tcp_step E C sh sh' \<longrightarrow>
      (\<exists>th'. sh_threads sh' c = Some th' \<and> (only_fed th th' \<or> (thread_left th', thread_left th) \<in> left_order))) \<and>
    wf left_order \<and>
    (\<forall>w pc d m bs ms k. worker_pc sh w = Some pc \<longrightarrow>
      pc = PcWriting d m bs ms k \<and> bs \<noteq> [] \<and> stuck_socket (sh_sockets sh d) \<or>
      pc = PcWaiting d m bs ms k \<and> so_holder (sh_sockets sh d) \<noteq> None \<longrightarrow> \<not> can_step E C sh w)"
proof -
  note S = started_service[OF assms(1,2)]
  have few: "sh_accepted sh \<le> u64_max" using assms(5) by simp
  note I = tcp_inv_reach[OF S(1,2) assms(3)] and T = tables_match_reach[OF S(1,2) assms(3) S(3) few]
    and D = tcp_delivery_reach[OF S(1,2) assms(3) S(3) few]
  have "c \<noteq> sh_next_connection sh"
    using T pc_of_thread[OF assms(6)] assms(5) by (auto simp: tables_match_def)
  then have "\<forall>sh'. tcp_step E C sh sh' \<longrightarrow>
      (\<exists>th'. sh_threads sh' c = Some th' \<and> (only_fed th th' \<or> (thread_left th', thread_left th) \<in> left_order))"
    using step_thread[OF _ assms(6)] by blast
  moreover have "\<forall>w pc d m bs ms k. worker_pc sh w = Some pc \<longrightarrow>
      pc = PcWriting d m bs ms k \<and> bs \<noteq> [] \<and> stuck_socket (sh_sockets sh d) \<or>
      pc = PcWaiting d m bs ms k \<and> so_holder (sh_sockets sh d) \<noteq> None \<longrightarrow> \<not> can_step E C sh w"
    by (intro allI impI) (rule stuck_writer_waits)
  ultimately show ?thesis using thread_waits[OF S(1) I D assms(4,6,7)] wf_left_order by (intro conjI) assumption+
qed

text \<open>
  A connection whose message was refused goes on to write the refusal though its peer takes
  nothing; when it writes, it stops there.
\<close>

theorem tcp_threads_wait_for_peers_witness:
  "(\<exists>sh. tcp_reach demo_env demo_wire_codec demo_started sh \<and>
      pc_of sh 1 = Some (PcSending [route 1 (MsgError 400)] ThenClose) \<and> stuck_socket (sh_sockets sh 1) \<and>
      can_step demo_env demo_wire_codec sh (Conn 1)) \<and>
   (\<exists>sh. tcp_reach demo_env demo_wire_codec demo_started sh \<and>
      pc_of sh 1 = Some (PcWriting 1 (MsgError 400) [0, 0, 0, 1, 7] [] ThenClose) \<and> stuck_socket (sh_sockets sh 1) \<and>
      \<not> can_step demo_env demo_wire_codec sh (Conn 1))"
proof
  let ?ms = "[route 1 (MsgError 400)]" and ?pc = "PcSending [route 1 (MsgError 400)] ThenClose"
    and ?pc' = "PcWriting 1 (MsgError 400) [0, 0, 0, 1, 7] [] ThenClose"
  have at: "tcp_reach demo_env demo_wire_codec demo_started sh \<and> sh_running sh \<and> sh_accepted sh < u64_max \<and>
      sh_sockets sh 1 = so \<and> sh_threads sh 1 = Some (demo_thread [] pc) \<and> tt_pc (demo_thread [] pc) = pc \<and> pc_of sh 1 = Some pc"
    if "demo_at sh (demo_thread [] pc) so ?ms" for sh pc so
    using that by (auto simp: demo_at_def u64_max_def demo_thread_def pc_of_def)
  note T = tcp_threads_wait_for_peers[OF demo_start_ok demo_started_fields(1)]
  obtain a where "demo_at a (demo_thread [] ?pc) (demo_socket [] 0 None) ?ms" using demo_refused by blast
  note a = at[OF this]
  have "targets ?pc = {1}" "so_holder (sh_sockets a 1) = None" using a by (simp_all add: targets_def route_def demo_socket_def)
  with a T[of demo_wire_codec a 1 "demo_thread [] ?pc"] have "can_step demo_env demo_wire_codec a (Conn 1)" by auto
  with a show "\<exists>sh. tcp_reach demo_env demo_wire_codec demo_started sh \<and>
      pc_of sh 1 = Some ?pc \<and> stuck_socket (sh_sockets sh 1) \<and> can_step demo_env demo_wire_codec sh (Conn 1)"
    by (intro exI[of _ a]) (simp add: demo_socket_def stuck_socket_def)
  obtain b where "demo_at b (demo_thread [] ?pc') (demo_socket [] 0 (Some (Conn 1))) ?ms" using demo_locked by blast
  note b = at[OF this]
  then have stuck: "stuck_socket (sh_sockets b 1)" and w: "worker_pc b (Conn 1) = Some ?pc'"
    by (simp_all add: demo_socket_def stuck_socket_def worker_pc_conn)
  have "tcp_reach demo_env demo_wire_codec demo_started b" "sh_running b" "sh_accepted b < u64_max"
    "sh_threads b 1 = Some (demo_thread [] ?pc')" "tt_pc (demo_thread [] ?pc') \<noteq> PcDone" using b by auto
  note T[OF this, THEN conjunct2, THEN conjunct2, THEN conjunct2, rule_format, OF w]
  from this[of 1 "MsgError 400" "[0, 0, 0, 1, 7]" "[]" ThenClose] stuck
  have "\<not> can_step demo_env demo_wire_codec b (Conn 1)" by simp
  with b stuck show "\<exists>sh. tcp_reach demo_env demo_wire_codec demo_started sh \<and>
      pc_of sh 1 = Some ?pc' \<and> stuck_socket (sh_sockets sh 1) \<and> \<not> can_step demo_env demo_wire_codec sh (Conn 1)" by blast
qed

end
