(* ===== verification/Ws_Shell.thy ===== *)
theory Ws_Shell
  imports Relay_Shell
begin

text \<open>
  The serving part of \<^verbatim>\<open>src/src/bin/cbcl-pairing-relay-ws.rs\<close>: one thread per connection with a
  channel of its own, a table of senders into these channels, and a sweeper, over one service
  behind a mutex. The WebSocket library is outside: what its \<^verbatim>\<open>read\<close> returns is the list of
  events of the connection, and its \<^verbatim>\<open>send\<close> works as often as the connection says. A step of
  the process is a step of one thread between two lock or channel operations.
\<close>

section \<open>Connections\<close>

text \<open>What \<^verbatim>\<open>WebSocket::read\<close> returns; other errors end the connection.\<close>

datatype ws_event =
  EvBinary bytes | EvText | EvClose | EvControl | EvTimeout | EvTooLong | EvFailure

datatype ws_pc =
  WsHandshake
| WsFlush
| WsRead
| WsHandling u64 relay_randomness client_message
| WsDispatch "routed_message list list"
| WsDisconnect
| WsRemove
| WsDone

text \<open>
  \<open>wt_queue\<close> is the channel, \<open>wt_sent\<close> what was handed to the WebSocket, \<open>wt_sends\<close> how many
  more sends work (None: all of them).
\<close>

record ws_thread =
  wt_events :: "ws_event list"
  wt_peer :: bytes
  wt_queue :: "server_message list"
  wt_sent :: "server_message list"
  wt_sends :: "nat option"
  wt_pc :: ws_pc

definition ws_send :: "codec \<Rightarrow> server_message \<Rightarrow> ws_thread \<Rightarrow> bool \<times> ws_thread" where
  "ws_send C m th =
     (case encode_server_message C m of
        Ok bs \<Rightarrow>
          (case wt_sends th of
             None \<Rightarrow> (True, th\<lparr>wt_sent := wt_sent th @ [m]\<rparr>)
           | Some 0 \<Rightarrow> (False, th)
           | Some (Suc n) \<Rightarrow> (True, th\<lparr>wt_sent := wt_sent th @ [m], wt_sends := Some n\<rparr>))
      | _ \<Rightarrow> (False, th))"

text \<open>One turn of the loop of \<^verbatim>\<open>flush_outbound\<close>.\<close>

definition flush_turn :: "codec \<Rightarrow> ws_thread \<Rightarrow> ws_thread" where
  "flush_turn C th =
     (case wt_queue th of
        [] \<Rightarrow> th\<lparr>wt_pc := WsRead\<rparr>
      | m # rest \<Rightarrow>
          (let (sent, th1) = ws_send C m (th\<lparr>wt_queue := rest\<rparr>)
           in if sent then th1 else th1\<lparr>wt_pc := WsDisconnect\<rparr>))"

definition own_error :: "connection_id \<Rightarrow> u64 \<Rightarrow> ws_pc" where
  "own_error connection code = WsDispatch [[route connection (MsgError code)]]"

text \<open>The match on \<^verbatim>\<open>websocket.read()\<close>, up to the lock of the service; the first event is taken.\<close>

definition ws_read ::
  "codec \<Rightarrow> connection_id \<Rightarrow> u64 \<Rightarrow> (relay_randomness, unit) result \<Rightarrow> ws_thread \<Rightarrow> ws_thread" where
  "ws_read C connection now randomness th =
     (case wt_events th of
        [] \<Rightarrow> th\<lparr>wt_pc := WsDisconnect\<rparr>
      | ev # rest \<Rightarrow>
          (let th1 = th\<lparr>wt_events := rest\<rparr>
           in case ev of
                EvBinary bs \<Rightarrow>
                  (case decode_client_message C bs of
                     Ok message \<Rightarrow>
                       (case randomness of
                          Ok vals \<Rightarrow> th1\<lparr>wt_pc := WsHandling now vals message\<rparr>
                        | _ \<Rightarrow> th1\<lparr>wt_pc := own_error connection 503\<rparr>)
                   | _ \<Rightarrow> th1\<lparr>wt_pc := own_error connection 400\<rparr>)
              | EvText \<Rightarrow> th1\<lparr>wt_pc := own_error connection 400\<rparr>
              | EvControl \<Rightarrow> th1\<lparr>wt_pc := WsFlush\<rparr>
              | EvTimeout \<Rightarrow> th1\<lparr>wt_pc := WsFlush\<rparr>
              | EvTooLong \<Rightarrow> (snd (ws_send C (MsgError 413) th1))\<lparr>wt_pc := WsDisconnect\<rparr>
              | _ \<Rightarrow> th1\<lparr>wt_pc := WsDisconnect\<rparr>))"

definition ws_locked ::
  "'s relay_env \<Rightarrow> connection_id \<Rightarrow> bytes \<Rightarrow> u64 \<Rightarrow> relay_randomness \<Rightarrow> client_message \<Rightarrow> 's relay \<Rightarrow>
     (routed_message list list option \<times> 's relay) option" where
  "ws_locked E connection peer_address now randomness message r =
     (case relay_sweep E now r of
        None \<Rightarrow> None
      | Some (Panic, r1) \<Rightarrow> Some (None, r1)
      | Some (swept, r1) \<Rightarrow>
          (let expired = (case swept of Ok ms \<Rightarrow> ms | _ \<Rightarrow> [])
           in case handle E connection peer_address now randomness message r1 of
                (Ok replies, r2) \<Rightarrow> Some (Some [expired, replies], r2)
              | (Err e, r2) \<Rightarrow> Some (Some [expired, [route connection (MsgError 503)]], r2)
              | (Panic, r2) \<Rightarrow> Some (None, r2)))"

definition ws_sweep_locked ::
  "'s relay_env \<Rightarrow> u64 \<Rightarrow> 's relay \<Rightarrow> (routed_message list option \<times> 's relay) option" where
  "ws_sweep_locked E now r =
     (case relay_sweep E now r of
        None \<Rightarrow> None
      | Some (Panic, r1) \<Rightarrow> Some (None, r1)
      | Some (Ok ms, r1) \<Rightarrow> Some (Some ms, r1)
      | Some (Err e, r1) \<Rightarrow> Some (Some [], r1))"

section \<open>The process\<close>

text \<open>
  The sweeper sleeps (None) or has messages to dispatch. For the statements only: \<open>ws_accepted\<close>
  counts the connections, \<open>ws_produced\<close> lists what the service and the threads gave out to be
  sent, \<open>ws_routed\<close> what entered the channel of a connection.
\<close>

record 's ws_shell =
  ws_service :: "'s relay"
  ws_poisoned :: bool
  ws_senders :: "connection_id list"
  ws_next_connection :: u64
  ws_threads :: "connection_id \<Rightarrow> ws_thread option"
  ws_sweeper :: "routed_message list option"
  ws_sweeper_alive :: bool
  ws_accepted :: nat
  ws_produced :: "routed_message list"
  ws_routed :: "connection_id \<Rightarrow> server_message list"

text \<open>
  \<^verbatim>\<open>dispatch\<close>, under the lock of the table: a message for a connection without a sender is
  dropped, the others enter the channels in order. A channel whose thread has ended has no
  receiver, and the result of \<^verbatim>\<open>send\<close> is ignored.
\<close>

definition dispatch_one :: "routed_message \<Rightarrow> 's ws_shell \<Rightarrow> 's ws_shell" where
  "dispatch_one routed sh =
     (let c = rm_connection routed
      in if \<not> bs_contains (ws_senders sh) c then sh
         else case ws_threads sh c of
           None \<Rightarrow> sh
         | Some th \<Rightarrow> sh\<lparr>ws_threads := (ws_threads sh)(c \<mapsto> th\<lparr>wt_queue := wt_queue th @ [rm_message routed]\<rparr>),
             ws_routed := (ws_routed sh)(c := ws_routed sh c @ [rm_message routed])\<rparr>)"

definition ws_dispatch :: "routed_message list \<Rightarrow> 's ws_shell \<Rightarrow> 's ws_shell" where
  "ws_dispatch messages sh = fold dispatch_one messages sh"

definition ws_accept :: "ws_event list \<Rightarrow> bytes \<Rightarrow> nat option \<Rightarrow> 's ws_shell \<Rightarrow> 's ws_shell" where
  "ws_accept events peer_address sends sh =
     (let c = ws_next_connection sh
      in sh\<lparr>ws_next_connection := (c + 1) mod (u64_max + 1), ws_accepted := Suc (ws_accepted sh),
            ws_threads := (ws_threads sh)(c \<mapsto>
              \<lparr>wt_events = events, wt_peer = peer_address, wt_queue = [], wt_sent = [], wt_sends = sends,
               wt_pc = WsHandshake\<rparr>),
            ws_routed := (ws_routed sh)(c := [])\<rparr>)"

fun pending :: "ws_pc \<Rightarrow> routed_message list" where
  "pending (WsDispatch batches) = concat batches"
| "pending _ = []"

definition ws_set :: "connection_id \<Rightarrow> ws_thread \<Rightarrow> 's ws_shell \<Rightarrow> 's ws_shell" where
  "ws_set c th sh = sh\<lparr>ws_threads := (ws_threads sh)(c \<mapsto> th)\<rparr>"

inductive ws_step :: "'s relay_env \<Rightarrow> codec \<Rightarrow> 's ws_shell \<Rightarrow> 's ws_shell \<Rightarrow> bool" for E C where
  ws_accepted: "ws_step E C sh (ws_accept events peer_address sends sh)"
| ws_opened: "ws_threads sh c = Some th \<Longrightarrow> wt_pc th = WsHandshake \<Longrightarrow>
    ws_step E C sh (ws_set c (th\<lparr>wt_pc := WsFlush\<rparr>) (sh\<lparr>ws_senders := bs_insert c (ws_senders sh)\<rparr>))"
| ws_refused: "ws_threads sh c = Some th \<Longrightarrow> wt_pc th = WsHandshake \<Longrightarrow>
    ws_step E C sh (ws_set c (th\<lparr>wt_pc := WsDone\<rparr>) sh)"
| ws_flushed: "ws_threads sh c = Some th \<Longrightarrow> wt_pc th = WsFlush \<Longrightarrow>
    ws_step E C sh (ws_set c (flush_turn C th) sh)"
| ws_reads: "ws_threads sh c = Some th \<Longrightarrow> wt_pc th = WsRead \<Longrightarrow>
    (\<And>vals. randomness = Ok vals \<Longrightarrow> length (rr_mailbox_id vals) = 32) \<Longrightarrow>
    th' = ws_read C c now randomness th \<Longrightarrow>
    ws_step E C sh (ws_set c th' (sh\<lparr>ws_produced := ws_produced sh @ pending (wt_pc th')\<rparr>))"
| ws_handled: "ws_threads sh c = Some th \<Longrightarrow> wt_pc th = WsHandling now vals m \<Longrightarrow> \<not> ws_poisoned sh \<Longrightarrow>
    ws_locked E c (wt_peer th) now vals m (ws_service sh) = Some (Some batches, r) \<Longrightarrow>
    ws_step E C sh (ws_set c (th\<lparr>wt_pc := WsDispatch batches\<rparr>)
      (sh\<lparr>ws_service := r, ws_produced := ws_produced sh @ concat batches\<rparr>))"
| ws_handle_panic: "ws_threads sh c = Some th \<Longrightarrow> wt_pc th = WsHandling now vals m \<Longrightarrow> \<not> ws_poisoned sh \<Longrightarrow>
    ws_locked E c (wt_peer th) now vals m (ws_service sh) = Some (None, r) \<Longrightarrow>
    ws_step E C sh (ws_set c (th\<lparr>wt_pc := WsDone\<rparr>) (sh\<lparr>ws_service := r, ws_poisoned := True\<rparr>))"
| ws_lock_poisoned: "ws_threads sh c = Some th \<Longrightarrow> wt_pc th = WsHandling now vals m \<Longrightarrow> ws_poisoned sh \<Longrightarrow>
    ws_step E C sh (ws_set c (th\<lparr>wt_pc := WsDisconnect\<rparr>) sh)"
| ws_dispatched: "ws_threads sh c = Some th \<Longrightarrow> wt_pc th = WsDispatch (ms # batches) \<Longrightarrow>
    ws_step E C sh (ws_dispatch ms (ws_set c (th\<lparr>wt_pc := WsDispatch batches\<rparr>) sh))"
| ws_dispatch_done: "ws_threads sh c = Some th \<Longrightarrow> wt_pc th = WsDispatch [] \<Longrightarrow>
    ws_step E C sh (ws_set c (th\<lparr>wt_pc := WsFlush\<rparr>) sh)"
| ws_disconnected: "ws_threads sh c = Some th \<Longrightarrow> wt_pc th = WsDisconnect \<Longrightarrow>
    ws_step E C sh (ws_set c (th\<lparr>wt_pc := WsRemove\<rparr>)
      (if ws_poisoned sh then sh else sh\<lparr>ws_service := disconnect c (ws_service sh)\<rparr>))"
| ws_removed: "ws_threads sh c = Some th \<Longrightarrow> wt_pc th = WsRemove \<Longrightarrow>
    ws_step E C sh (ws_set c (th\<lparr>wt_pc := WsDone\<rparr>) (sh\<lparr>ws_senders := bs_remove c (ws_senders sh)\<rparr>))"
| ws_swept: "ws_sweeper sh = None \<Longrightarrow> ws_sweeper_alive sh \<Longrightarrow> \<not> ws_poisoned sh \<Longrightarrow>
    ws_sweep_locked E now (ws_service sh) = Some (Some ms, r) \<Longrightarrow>
    ws_step E C sh (sh\<lparr>ws_service := r, ws_sweeper := Some ms, ws_produced := ws_produced sh @ ms\<rparr>)"
| ws_sweep_panic: "ws_sweeper sh = None \<Longrightarrow> ws_sweeper_alive sh \<Longrightarrow> \<not> ws_poisoned sh \<Longrightarrow>
    ws_sweep_locked E now (ws_service sh) = Some (None, r) \<Longrightarrow>
    ws_step E C sh (sh\<lparr>ws_service := r, ws_sweeper_alive := False, ws_poisoned := True\<rparr>)"
| ws_sweeper_ends: "ws_sweeper sh = None \<Longrightarrow> ws_sweeper_alive sh \<Longrightarrow> ws_poisoned sh \<Longrightarrow>
    ws_step E C sh (sh\<lparr>ws_sweeper_alive := False\<rparr>)"
| ws_sweep_dispatched: "ws_sweeper sh = Some ms \<Longrightarrow>
    ws_step E C sh (ws_dispatch ms (sh\<lparr>ws_sweeper := None\<rparr>))"

definition ws_initial :: "'s relay \<Rightarrow> 's ws_shell" where
  "ws_initial r =
     \<lparr>ws_service = r, ws_poisoned = False, ws_senders = [], ws_next_connection = 1,
      ws_threads = Map.empty, ws_sweeper = None, ws_sweeper_alive = True, ws_accepted = 0,
      ws_produced = [], ws_routed = (\<lambda>_. [])\<rparr>"

inductive ws_reach :: "'s relay_env \<Rightarrow> codec \<Rightarrow> 's relay \<Rightarrow> 's ws_shell \<Rightarrow> bool" for E C r where
  ws_start: "ws_reach E C r (ws_initial r)"
| ws_next: "ws_reach E C r sh \<Longrightarrow> ws_step E C sh sh' \<Longrightarrow> ws_reach E C r sh'"

end
