(* ===== verification/Ws_Shell_Props.thy ===== *)
theory Ws_Shell_Props
  imports Ws_Shell Shell_Service "HOL-Library.Sublist"
begin

text \<open>
  The WebSocket relay process under every interleaving of its threads: the service keeps its
  invariant, no thread panics under the lock, a finished connection leaves nothing behind, and a
  connection is handed the messages of its channel in order, none lost and none twice.
\<close>

section \<open>Under the lock\<close>

lemma ws_locked_spec:
  assumes "store_law E records sinv" and "relay_inv E records sinv r"
    and "length (rr_mailbox_id values) = 32" "typed_message m"
  shows "\<exists>bs r'. ws_locked E c addr now values m r = Some (Some bs, r') \<and> relay_inv E records sinv r' \<and>
    known r' \<subseteq> insert c (known r)"
  by (rule sweep_then_handle[OF assms, of now c addr]; rename_tac x r1 y r2; case_tac x; case_tac y)
    (auto simp: ws_locked_def Let_def)

lemma ws_sweep_locked_spec:
  assumes "store_law E records sinv" and "relay_inv E records sinv r"
  shows "\<exists>ms r'. ws_sweep_locked E now r = Some (Some ms, r') \<and> relay_inv E records sinv r' \<and> known r' = known r"
  by (rule sweep_ok[OF assms, of now]; rename_tac x r1; case_tac x) (auto simp: ws_sweep_locked_def)

section \<open>Threads and channels\<close>

definition ws_pc_of :: "'s ws_shell \<Rightarrow> connection_id \<Rightarrow> ws_pc option" where
  "ws_pc_of sh c = map_option wt_pc (ws_threads sh c)"

lemma ws_pc_of_thread: "ws_threads sh c = Some th \<Longrightarrow> ws_pc_of sh c = Some (wt_pc th)"
  by (simp add: ws_pc_of_def)

lemma ws_set_fields [simp]:
  "ws_service (ws_set c th sh) = ws_service sh" "ws_poisoned (ws_set c th sh) = ws_poisoned sh"
  "ws_senders (ws_set c th sh) = ws_senders sh" "ws_next_connection (ws_set c th sh) = ws_next_connection sh"
  "ws_sweeper (ws_set c th sh) = ws_sweeper sh" "ws_accepted (ws_set c th sh) = ws_accepted sh"
  "ws_produced (ws_set c th sh) = ws_produced sh" "ws_routed (ws_set c th sh) = ws_routed sh"
  "ws_threads (ws_set c th sh) = (ws_threads sh)(c \<mapsto> th)" "ws_pc_of (ws_set c th sh) = (ws_pc_of sh)(c \<mapsto> wt_pc th)"
  by (auto simp: ws_set_def ws_pc_of_def fun_eq_iff)

lemma ws_pc_of_fields [simp]:
  "ws_pc_of (sh\<lparr>ws_service := r\<rparr>) = ws_pc_of sh" "ws_pc_of (sh\<lparr>ws_produced := ms\<rparr>) = ws_pc_of sh"
  "ws_pc_of (sh\<lparr>ws_poisoned := p\<rparr>) = ws_pc_of sh" "ws_pc_of (sh\<lparr>ws_senders := w\<rparr>) = ws_pc_of sh"
  "ws_pc_of (sh\<lparr>ws_sweeper := q\<rparr>) = ws_pc_of sh" "ws_pc_of (sh\<lparr>ws_sweeper_alive := b\<rparr>) = ws_pc_of sh"
  by (auto simp: ws_pc_of_def fun_eq_iff)

lemma dispatch_one_fields [simp]:
  "ws_service (dispatch_one x sh) = ws_service sh" "ws_poisoned (dispatch_one x sh) = ws_poisoned sh"
  "ws_senders (dispatch_one x sh) = ws_senders sh" "ws_next_connection (dispatch_one x sh) = ws_next_connection sh"
  "ws_sweeper (dispatch_one x sh) = ws_sweeper sh" "ws_accepted (dispatch_one x sh) = ws_accepted sh"
  "ws_produced (dispatch_one x sh) = ws_produced sh" "ws_pc_of (dispatch_one x sh) = ws_pc_of sh"
  by (auto simp: dispatch_one_def ws_pc_of_def fun_eq_iff Let_def split: option.split)

lemma ws_dispatch_fields [simp]:
  "ws_service (ws_dispatch ms sh) = ws_service sh" "ws_poisoned (ws_dispatch ms sh) = ws_poisoned sh"
  "ws_senders (ws_dispatch ms sh) = ws_senders sh" "ws_next_connection (ws_dispatch ms sh) = ws_next_connection sh"
  "ws_sweeper (ws_dispatch ms sh) = ws_sweeper sh" "ws_accepted (ws_dispatch ms sh) = ws_accepted sh"
  "ws_produced (ws_dispatch ms sh) = ws_produced sh" "ws_pc_of (ws_dispatch ms sh) = ws_pc_of sh"
  unfolding ws_dispatch_def by (induction ms arbitrary: sh) simp_all

text \<open>In all steps of a thread that talks to its WebSocket, the process only sees the thread change.\<close>

lemma flush_turn_pc: "wt_pc (flush_turn C th) \<in> {wt_pc th, WsRead, WsDisconnect}"
  by (auto simp: flush_turn_def ws_send_def Let_def split: list.split result.split option.split nat.split)

definition loop_pc :: "ws_pc \<Rightarrow> bool" where
  "loop_pc pc \<longleftrightarrow> pc \<notin> {WsHandshake, WsRemove, WsDone}"

fun ws_typed_pc :: "ws_pc \<Rightarrow> bool" where
  "ws_typed_pc (WsHandling now vals m) \<longleftrightarrow> length (rr_mailbox_id vals) = 32 \<and> typed_message m"
| "ws_typed_pc _ \<longleftrightarrow> True"

lemma ws_read_pc:
  assumes "\<And>vals. randomness = Ok vals \<Longrightarrow> length (rr_mailbox_id vals) = 32"
  shows "ws_typed_pc (wt_pc (ws_read C c now randomness th))" "loop_pc (wt_pc (ws_read C c now randomness th))"
  using assms decoded_typed[of C]
  by (auto simp: ws_read_def own_error_def loop_pc_def Let_def
      split: list.split ws_event.split result.split option.split)

section \<open>The invariant of the process\<close>

definition ws_inv ::
  "'s relay_env \<Rightarrow> ('s \<Rightarrow> bytes \<Rightarrow> mailbox option) \<Rightarrow> ('s \<Rightarrow> bool) \<Rightarrow> 's ws_shell \<Rightarrow> bool" where
  "ws_inv E records sinv sh \<longleftrightarrow>
     relay_inv E records sinv (ws_service sh) \<and> \<not> ws_poisoned sh \<and>
     (\<forall>c pc. ws_pc_of sh c = Some pc \<longrightarrow> ws_typed_pc pc)"

lemma ws_typed_thread:
  assumes "ws_inv E records sinv sh" and "ws_threads sh c = Some th" and "wt_pc th = WsHandling now vals m"
  shows "length (rr_mailbox_id vals) = 32" "typed_message m"
proof -
  have "ws_typed_pc (WsHandling now vals m)"
    using assms(1) ws_pc_of_thread[OF assms(2)] unfolding ws_inv_def by (metis assms(3))
  then show "length (rr_mailbox_id vals) = 32" "typed_message m" by simp_all
qed

lemma ws_inv_step:
  assumes law: "store_law E records sinv" and inv: "ws_inv E records sinv sh" and st: "ws_step E C sh sh'"
  shows "ws_inv E records sinv sh'"
proof -
  have I: "relay_inv E records sinv (ws_service sh)" using inv by (simp add: ws_inv_def)
  show ?thesis
    using st
  proof cases
    case (ws_accepted events addr sends)
    then show ?thesis using inv by (auto simp: ws_inv_def ws_accept_def Let_def ws_pc_of_def)
  next
    case (ws_flushed c th)
    then show ?thesis using inv flush_turn_pc[of C th] by (auto simp: ws_inv_def)
  next
    case (ws_reads c th randomness th' now)
    then have "ws_typed_pc (wt_pc th')" using ws_read_pc(1) by blast
    then show ?thesis using inv ws_reads(1) by (auto simp: ws_inv_def)
  next
    case (ws_handled c th now vals m bs r)
    then show ?thesis
      using ws_locked_spec[OF law I ws_typed_thread[OF inv ws_handled(2,3)], of c "wt_peer th" now] inv
      by (auto simp: ws_inv_def)
  next
    case (ws_handle_panic c th now vals m r)
    then show ?thesis
      using ws_locked_spec[OF law I ws_typed_thread[OF inv ws_handle_panic(2,3)], of c "wt_peer th" now] by auto
  next
    case (ws_disconnected c th)
    then show ?thesis using inv disconnect_inv(1)[OF I] by (auto simp: ws_inv_def)
  next
    case (ws_swept now ms r)
    then show ?thesis using ws_sweep_locked_spec[OF law I, of now] inv by (auto simp: ws_inv_def)
  next
    case (ws_sweep_panic now r)
    then show ?thesis using ws_sweep_locked_spec[OF law I, of now] by auto
  qed (use inv in \<open>auto simp: ws_inv_def\<close>)
qed

lemma ws_inv_reach:
  assumes "store_law E records sinv" and "relay_inv E records sinv r" and "ws_reach E C r sh"
  shows "ws_inv E records sinv sh"
  using assms(3)
proof induction
  case ws_start
  then show ?case using assms(2) by (simp add: ws_inv_def ws_initial_def ws_pc_of_def)
next
  case (ws_next sh sh')
  then show ?case using ws_inv_step[OF assms(1)] by blast
qed

text \<open>What the tables say about the threads: a sender is registered from the end of the handshake to
  the end of the thread, and the service knows only threads that have not yet disconnected.\<close>

definition ws_tables :: "'s ws_shell \<Rightarrow> bool" where
  "ws_tables sh \<longleftrightarrow>
     (\<forall>c. c \<in> set (ws_senders sh) \<longleftrightarrow> (\<exists>pc. ws_pc_of sh c = Some pc \<and> (loop_pc pc \<or> pc = WsRemove))) \<and>
     (\<forall>c \<in> known (ws_service sh). \<exists>pc. ws_pc_of sh c = Some pc \<and> loop_pc pc) \<and>
     (\<forall>c pc. ws_pc_of sh c = Some pc \<longrightarrow> 0 < c \<and> c \<le> ws_accepted sh) \<and>
     ws_next_connection sh = (ws_accepted sh + 1) mod (u64_max + 1)"

lemma ws_tables_update:
  assumes "ws_tables sh" and "ws_pc_of sh c = Some pc" and "ws_pc_of sh' = (ws_pc_of sh)(c \<mapsto> pc')"
    and "loop_pc pc" "loop_pc pc'"
    and "ws_senders sh' = ws_senders sh" "ws_accepted sh' = ws_accepted sh"
    and "ws_next_connection sh' = ws_next_connection sh"
    and "known (ws_service sh') \<subseteq> insert c (known (ws_service sh))"
  shows "ws_tables sh'"
  using assms unfolding ws_tables_def by (auto split: if_splits)

lemma ws_tables_same:
  assumes "ws_tables sh" and "ws_pc_of sh' = ws_pc_of sh"
    and "ws_senders sh' = ws_senders sh" "ws_accepted sh' = ws_accepted sh"
    and "ws_next_connection sh' = ws_next_connection sh"
    and "known (ws_service sh') \<subseteq> known (ws_service sh)"
  shows "ws_tables sh'"
  using assms unfolding ws_tables_def by auto

lemma ws_tables_accept:
  assumes m: "ws_tables sh" and fits: "Suc (ws_accepted sh) \<le> u64_max"
  shows "ws_tables (ws_accept events addr sends sh)"
proof -
  have c: "ws_next_connection sh = Suc (ws_accepted sh)" using m fits by (simp add: ws_tables_def)
  have new: "ws_pc_of sh (Suc (ws_accepted sh)) = None"
    using m by (cases "ws_pc_of sh (Suc (ws_accepted sh))") (auto simp: ws_tables_def)
  have pcs: "ws_pc_of (ws_accept events addr sends sh) d =
      (if d = Suc (ws_accepted sh) then Some WsHandshake else ws_pc_of sh d)" for d
    by (simp add: ws_accept_def Let_def c ws_pc_of_def)
  show ?thesis
    using m new fits unfolding ws_tables_def pcs
    by (auto simp: ws_accept_def Let_def c loop_pc_def)
qed

lemma ws_tables_step:
  assumes law: "store_law E records sinv" and inv: "ws_inv E records sinv sh" and m: "ws_tables sh"
    and st: "ws_step E C sh sh'" and fits: "ws_accepted sh' \<le> u64_max"
  shows "ws_tables sh'"
proof -
  have I: "relay_inv E records sinv (ws_service sh)" and np: "\<not> ws_poisoned sh"
    using inv by (simp_all add: ws_inv_def)
  show ?thesis
    using st
  proof cases
    case (ws_accepted events addr sends)
    then have "ws_accepted sh' = Suc (ws_accepted sh)" by (simp add: ws_accept_def Let_def)
    with ws_accepted show ?thesis using ws_tables_accept[OF m] fits by simp
  next
    case (ws_opened c th)
    then show ?thesis
      using m ws_pc_of_thread[OF ws_opened(2)] by (auto simp: ws_tables_def set_bs_insert loop_pc_def)
  next
    case (ws_refused c th)
    then show ?thesis
      using m ws_pc_of_thread[OF ws_refused(2)] by (auto simp: ws_tables_def loop_pc_def)
  next
    case (ws_flushed c th)
    show ?thesis
      by (rule ws_tables_update[OF m ws_pc_of_thread[OF ws_flushed(2)]])
        (use ws_flushed flush_turn_pc[of C th] in \<open>auto simp: loop_pc_def\<close>)
  next
    case (ws_reads c th randomness th' now)
    then have "loop_pc (wt_pc th')" using ws_read_pc(2) by blast
    then show ?thesis
      by (intro ws_tables_update[OF m ws_pc_of_thread[OF ws_reads(2)]]) (use ws_reads in \<open>auto simp: loop_pc_def\<close>)
  next
    case (ws_handled c th now vals msg bs r)
    then have "known r \<subseteq> insert c (known (ws_service sh))"
      using ws_locked_spec[OF law I ws_typed_thread[OF inv ws_handled(2,3)], of c "wt_peer th" now] by auto
    then show ?thesis
      by (intro ws_tables_update[OF m ws_pc_of_thread[OF ws_handled(2)]]) (use ws_handled in \<open>auto simp: loop_pc_def\<close>)
  next
    case (ws_handle_panic c th now vals msg r)
    then show ?thesis
      using ws_locked_spec[OF law I ws_typed_thread[OF inv ws_handle_panic(2,3)], of c "wt_peer th" now] by auto
  next
    case (ws_dispatched c th ms bs)
    show ?thesis
      by (rule ws_tables_update[OF m ws_pc_of_thread[OF ws_dispatched(2)]]) (use ws_dispatched in \<open>auto simp: loop_pc_def\<close>)
  next
    case (ws_dispatch_done c th)
    show ?thesis
      by (rule ws_tables_update[OF m ws_pc_of_thread[OF ws_dispatch_done(2)]])
        (use ws_dispatch_done in \<open>auto simp: loop_pc_def\<close>)
  next
    case (ws_disconnected c th)
    have "ws_pc_of sh' = (ws_pc_of sh)(c \<mapsto> WsRemove)" "known (ws_service sh') = known (ws_service sh) - {c}"
      using ws_disconnected(1) np by (auto simp: known_disconnect)
    then show ?thesis
      using m ws_disconnected np ws_pc_of_thread[OF ws_disconnected(2)] by (auto simp: ws_tables_def loop_pc_def)
  next
    case (ws_removed c th)
    have "c \<notin> known (ws_service sh)"
      using m ws_pc_of_thread[OF ws_removed(2)] ws_removed(3) by (auto simp: ws_tables_def loop_pc_def)
    then show ?thesis
      using m ws_removed ws_pc_of_thread[OF ws_removed(2)] by (auto simp: ws_tables_def loop_pc_def)
  next
    case (ws_swept now ms r)
    then have "known r = known (ws_service sh)" using ws_sweep_locked_spec[OF law I, of now] by auto
    then show ?thesis by (intro ws_tables_same[OF m]) (use ws_swept in auto)
  next
    case (ws_sweep_panic now r)
    then show ?thesis using ws_sweep_locked_spec[OF law I, of now] by auto
  next
    case (ws_sweep_dispatched ms)
    show ?thesis by (rule ws_tables_same[OF m]) (use ws_sweep_dispatched in auto)
  qed (use m np in \<open>auto intro: ws_tables_same\<close>)
qed

lemma ws_accepted_mono: "ws_step E C sh sh' \<Longrightarrow> ws_accepted sh \<le> ws_accepted sh'"
  by (induction rule: ws_step.induct) (auto simp: ws_accept_def Let_def)

lemma ws_tables_reach:
  assumes "store_law E records sinv" and "relay_inv E records sinv r" and "ws_reach E C r sh"
    and "known r = {}" and "ws_accepted sh \<le> u64_max"
  shows "ws_tables sh"
  using assms(3,5)
proof induction
  case ws_start
  then show ?case using assms(4) by (auto simp: ws_tables_def ws_initial_def ws_pc_of_def u64_max_def)
next
  case (ws_next sh sh')
  then show ?case
    using ws_tables_step[OF assms(1) ws_inv_reach[OF assms(1,2) ws_next.hyps(1)]] ws_accepted_mono[OF ws_next.hyps(2)]
    by (meson le_trans)
qed

section \<open>What a connection is sent\<close>

text \<open>
  While the thread is in its loop, what it handed to the WebSocket and what waits in the channel
  is together what was dispatched to the connection. A thread that left the loop has handed over
  the beginning of that, with at most the refusal of an oversized message behind it.
\<close>

definition in_order :: "ws_thread \<Rightarrow> server_message list \<Rightarrow> bool" where
  "in_order th log \<longleftrightarrow>
     (wt_pc th \<notin> {WsDisconnect, WsRemove, WsDone} \<longrightarrow> wt_sent th @ wt_queue th = log) \<and>
     (prefix (wt_sent th) log \<or> (\<exists>before. wt_sent th = before @ [MsgError 413] \<and> prefix before log))"

definition ws_delivery :: "'s ws_shell \<Rightarrow> bool" where
  "ws_delivery sh \<longleftrightarrow> (\<forall>c th. ws_threads sh c = Some th \<longrightarrow> in_order th (ws_routed sh c))"

lemma ws_deliveryD: "ws_delivery sh \<Longrightarrow> ws_threads sh c = Some th \<Longrightarrow> in_order th (ws_routed sh c)"
  by (simp add: ws_delivery_def)

lemma in_order_loop:
  "wt_pc th \<notin> {WsDisconnect, WsRemove, WsDone} \<Longrightarrow> in_order th log \<longleftrightarrow> wt_sent th @ wt_queue th = log"
  by (auto simp: in_order_def)

lemma in_order_enqueue: "in_order th log \<Longrightarrow> in_order (th\<lparr>wt_queue := wt_queue th @ [m]\<rparr>) (log @ [m])"
  by (auto simp: in_order_def)

lemma in_order_pc:
  assumes "in_order th log" and "wt_pc th \<notin> {WsDisconnect, WsRemove, WsDone} \<or> pc \<in> {WsDisconnect, WsRemove, WsDone}"
  shows "in_order (th\<lparr>wt_pc := pc\<rparr>) log"
  using assms by (auto simp: in_order_def)

lemma in_order_flush:
  assumes "in_order th log" and "wt_pc th = WsFlush"
  shows "in_order (flush_turn C th) log"
proof -
  have log: "log = wt_sent th @ wt_queue th" using assms by (simp add: in_order_def)
  show ?thesis
    using assms(2)
    by (auto simp: flush_turn_def ws_send_def in_order_def log
        split: list.split result.split option.split nat.split)
qed

lemma in_order_read:
  assumes "in_order th log" and "wt_pc th = WsRead"
  shows "in_order (ws_read C c now randomness th) log"
proof -
  have log: "log = wt_sent th @ wt_queue th" using assms by (simp add: in_order_def)
  show ?thesis
    using assms(2)
    by (auto simp: ws_read_def ws_send_def own_error_def in_order_def log Let_def
        split: list.split ws_event.split result.split option.split nat.split)
qed

lemma ws_delivery_dispatch:
  assumes "ws_delivery sh"
  shows "ws_delivery (ws_dispatch ms sh)"
proof -
  have one: "ws_delivery (dispatch_one x sh)" if "ws_delivery sh" for x and sh :: "'a ws_shell"
    using that in_order_enqueue by (auto simp: ws_delivery_def dispatch_one_def Let_def split: option.split)
  show ?thesis
    using assms unfolding ws_dispatch_def by (induction ms arbitrary: sh) (simp_all add: one)
qed

lemma ws_delivery_set:
  assumes "ws_delivery sh" and "in_order th (ws_routed sh c)"
    and "ws_threads sh' = ws_threads sh" "ws_routed sh' = ws_routed sh"
  shows "ws_delivery (ws_set c th sh')"
  using assms by (auto simp: ws_delivery_def)

lemma ws_delivery_step:
  assumes d: "ws_delivery sh" and st: "ws_step E C sh sh'"
  shows "ws_delivery sh'"
  using st
proof cases
  case (ws_accepted events addr sends)
  then show ?thesis using d by (auto simp: ws_delivery_def ws_accept_def Let_def in_order_def)
next
  case (ws_flushed c th)
  show ?thesis
    unfolding ws_flushed(1) by (intro ws_delivery_set[OF d] in_order_flush ws_deliveryD[OF d] ws_flushed(2,3)) auto
next
  case (ws_reads c th randomness th' now)
  show ?thesis
    unfolding ws_reads(1,5) by (intro ws_delivery_set[OF d] in_order_read ws_deliveryD[OF d] ws_reads(2,3)) auto
next
  case (ws_dispatched c th ms bs)
  show ?thesis
    unfolding ws_dispatched(1)
    by (intro ws_delivery_dispatch ws_delivery_set[OF d] in_order_pc ws_deliveryD[OF d] ws_dispatched(2))
      (use ws_dispatched in auto)
next
  case (ws_sweep_dispatched ms)
  have "ws_delivery (sh\<lparr>ws_sweeper := None\<rparr>)" using d by (simp add: ws_delivery_def)
  then show ?thesis unfolding ws_sweep_dispatched(1) by (rule ws_delivery_dispatch)
next
  case (ws_disconnected c th)
  show ?thesis
    unfolding ws_disconnected(1)
    by (intro ws_delivery_set[OF d] in_order_pc ws_deliveryD[OF d] ws_disconnected(2)) (use ws_disconnected in auto)
next
  case (ws_swept now ms r)
  then show ?thesis using d by (simp add: ws_delivery_def)
next
  case (ws_sweep_panic now r)
  then show ?thesis using d by (simp add: ws_delivery_def)
next
  case ws_sweeper_ends
  then show ?thesis using d by (simp add: ws_delivery_def)
qed (simp_all, (intro ws_delivery_set[OF d] in_order_pc ws_deliveryD[OF d]; simp)+)

text \<open>Everything in a channel was produced by the service, or by the thread for its own peer.\<close>

definition ws_origin :: "'s ws_shell \<Rightarrow> bool" where
  "ws_origin sh \<longleftrightarrow>
     (\<forall>c. \<forall>m \<in> set (ws_routed sh c). route c m \<in> set (ws_produced sh)) \<and>
     (\<forall>c pc. ws_pc_of sh c = Some pc \<longrightarrow> set (pending pc) \<subseteq> set (ws_produced sh)) \<and>
     (\<forall>ms. ws_sweeper sh = Some ms \<longrightarrow> set ms \<subseteq> set (ws_produced sh))"

lemma ws_origin_more:
  assumes "ws_origin sh" and "ws_routed sh' = ws_routed sh" and "set (ws_produced sh) \<subseteq> set (ws_produced sh')"
    and "\<And>c pc. ws_pc_of sh' c = Some pc \<Longrightarrow> ws_pc_of sh c = Some pc \<or> set (pending pc) \<subseteq> set (ws_produced sh')"
    and "\<And>ms. ws_sweeper sh' = Some ms \<Longrightarrow> ws_sweeper sh = Some ms \<or> set ms \<subseteq> set (ws_produced sh')"
  shows "ws_origin sh'"
  using assms unfolding ws_origin_def by (simp add: subset_iff) metis

lemma ws_origin_pending:
  "ws_origin sh \<Longrightarrow> ws_threads sh c = Some th \<Longrightarrow> set (pending (wt_pc th)) \<subseteq> set (ws_produced sh)"
  using ws_pc_of_thread by (fastforce simp: ws_origin_def)

lemma ws_origin_dispatch:
  assumes "ws_origin sh" and "set ms \<subseteq> set (ws_produced sh)"
  shows "ws_origin (ws_dispatch ms sh)"
proof -
  have one: "ws_origin (dispatch_one x sh)" if o: "ws_origin sh" and x: "x \<in> set (ws_produced sh)" for x and sh :: "'a ws_shell"
  proof -
    have "route (rm_connection x) (rm_message x) = x" by (simp add: route_def)
    then have "\<forall>m \<in> set (ws_routed (dispatch_one x sh) c). route c m \<in> set (ws_produced sh)" for c
      using o x by (auto simp: ws_origin_def dispatch_one_def Let_def split: option.split)
    then show ?thesis using o by (simp add: ws_origin_def)
  qed
  show ?thesis
    using assms unfolding ws_dispatch_def by (induction ms arbitrary: sh) (simp_all add: one)
qed

lemma ws_origin_step:
  assumes o: "ws_origin sh" and st: "ws_step E C sh sh'"
  shows "ws_origin sh'"
  using st
proof cases
  case (ws_accepted events addr sends)
  then show ?thesis using o by (auto simp: ws_origin_def ws_accept_def Let_def ws_pc_of_def)
next
  case (ws_flushed c th)
  then show ?thesis using o flush_turn_pc[of C th] by (auto simp: ws_origin_def)
next
  case (ws_dispatched c th ms bs)
  have "set ms \<union> set (concat bs) \<subseteq> set (ws_produced sh)"
    using ws_origin_pending[OF o ws_dispatched(2)] by (simp add: ws_dispatched(3))
  moreover from this have "ws_origin (ws_set c (th\<lparr>wt_pc := WsDispatch bs\<rparr>) sh)" using o by (auto simp: ws_origin_def)
  ultimately show ?thesis unfolding ws_dispatched(1) by (intro ws_origin_dispatch) auto
next
  case (ws_sweep_dispatched ms)
  have "ws_origin (sh\<lparr>ws_sweeper := None\<rparr>)" "set ms \<subseteq> set (ws_produced sh)"
    using o ws_sweep_dispatched(2) by (auto simp: ws_origin_def)
  then show ?thesis unfolding ws_sweep_dispatched(1) by (intro ws_origin_dispatch) auto
qed (rule ws_origin_more[OF o]; auto split: if_splits)+

lemma ws_delivery_reach:
  assumes "ws_reach E C r sh"
  shows "ws_delivery sh" "ws_origin sh"
  using assms
proof induction
  case ws_start
  {
    case 1 then show ?case by (simp add: ws_delivery_def ws_initial_def)
  next
    case 2 then show ?case by (simp add: ws_origin_def ws_initial_def ws_pc_of_def)
  }
next
  case (ws_next sh sh')
  {
    case 1 then show ?case using ws_next ws_delivery_step by blast
  next
    case 2 then show ?case using ws_next ws_origin_step by blast
  }
qed

section \<open>Properties\<close>

text \<open>
  C19: Under every interleaving of the threads of the WebSocket relay, the service stays consistent
  with its store and no thread panics while it holds the service, so the lock is never poisoned.
  As long as fewer than 2 to the 64 connections were accepted, exactly the connections between
  the end of their handshake and the end of their thread have a sender in the table, and a
  connection whose thread has ended has left no sender, no connection state and no route behind.
\<close>

theorem ws_shell_consistent:
  assumes "start_ok E records sinv config s" and "with_store E config s = Ok r" and "ws_reach E C r sh"
  shows "relay_wf E (ws_service sh) \<and>
    records (rl_store (ws_service sh)) = bt_get (rl_mailboxes (ws_service sh)) \<and> \<not> ws_poisoned sh \<and>
    (ws_accepted sh \<le> u64_max \<longrightarrow>
      (\<forall>c. c \<in> set (ws_senders sh) \<longleftrightarrow>
         (\<exists>pc. ws_pc_of sh c = Some pc \<and> pc \<noteq> WsHandshake \<and> pc \<noteq> WsDone)) \<and>
      (\<forall>c. ws_pc_of sh c = Some WsDone \<longrightarrow>
         bt_get (rl_connections (ws_service sh)) c = None \<and> c \<notin> ran (bt_get (rl_routes (ws_service sh)))))"
proof -
  note S = started_service[OF assms(1,2)]
  have I: "relay_inv E records sinv (ws_service sh)" and np: "\<not> ws_poisoned sh"
    using ws_inv_reach[OF S(1,2) assms(3)] by (simp_all add: ws_inv_def)
  have m: "ws_tables sh" if "ws_accepted sh \<le> u64_max"
    using ws_tables_reach[OF S(1,2) assms(3) S(3) that] .
  have senders: "c \<in> set (ws_senders sh) \<longleftrightarrow> (\<exists>pc. ws_pc_of sh c = Some pc \<and> pc \<noteq> WsHandshake \<and> pc \<noteq> WsDone)"
    if "ws_accepted sh \<le> u64_max" for c
    using m[OF that] by (auto simp: ws_tables_def loop_pc_def)
  have gone: "bt_get (rl_connections (ws_service sh)) c = None" if "ws_accepted sh \<le> u64_max" "ws_pc_of sh c = Some WsDone" for c
  proof -
    have "c \<notin> known (ws_service sh)" using m[OF that(1)] that(2) by (force simp: ws_tables_def loop_pc_def)
    then show ?thesis by (auto simp: known_def)
  qed
  have "c \<notin> ran (bt_get (rl_routes (ws_service sh)))" if "bt_get (rl_connections (ws_service sh)) c = None" for c
    using relay_invD(4)[OF I] that by (auto simp: sessions_wf_def sess_def ran_def)
  with I np senders gone show ?thesis by (simp add: relay_inv_def)
qed

text \<open>
  C18: The WebSocket relay delivers in order. While the thread of a connection is in its loop,
  the messages it handed to the WebSocket followed by those waiting in its channel are exactly the
  messages dispatched to the connection, in the order of dispatch: none is lost, none is sent
  twice. When the thread has left the loop, it has handed over a first part of them, with at
  most the refusal of an oversized message behind it. And every one of them is a message that
  the service routed to this connection, or that the thread made for its own peer.
\<close>

theorem ws_delivers_in_order:
  assumes "ws_reach E C r sh" and "ws_threads sh c = Some th"
  shows "(wt_pc th \<notin> {WsDisconnect, WsRemove, WsDone} \<longrightarrow> wt_sent th @ wt_queue th = ws_routed sh c) \<and>
    (prefix (wt_sent th) (ws_routed sh c) \<or>
      (\<exists>before. wt_sent th = before @ [MsgError 413] \<and> prefix before (ws_routed sh c))) \<and>
    (\<forall>m \<in> set (ws_routed sh c). route c m \<in> set (ws_produced sh))"
  using ws_deliveryD[OF ws_delivery_reach(1)[OF assms(1)] assms(2)] ws_delivery_reach(2)[OF assms(1)]
  by (auto simp: in_order_def ws_origin_def)

section \<open>Two runs\<close>

text \<open>
  The first connection of the process, followed by its thread alone. One peer sends a text
  message, which is refused, another closes at once.
\<close>

definition demo_ws_thread :: "ws_event list \<Rightarrow> server_message list \<Rightarrow> server_message list \<Rightarrow> ws_pc \<Rightarrow> ws_thread" where
  "demo_ws_thread evs queue sent pc =
     \<lparr>wt_events = evs, wt_peer = demo_peer, wt_queue = queue, wt_sent = sent, wt_sends = None, wt_pc = pc\<rparr>"

text \<open>What is known of a state of such a run.\<close>

definition demo_ws_at :: "memory_store ws_shell \<Rightarrow> server_message list \<Rightarrow> ws_thread \<Rightarrow> bool" where
  "demo_ws_at sh log th \<longleftrightarrow>
     ws_reach demo_env demo_wire_codec demo_started sh \<and> ws_threads sh 1 = Some th \<and> ws_accepted sh = 1 \<and>
     ws_routed sh 1 = log \<and> (loop_pc (wt_pc th) \<longrightarrow> ws_senders sh = [1])"

lemma demo_ws_move:
  assumes "demo_ws_at sh log th" and "ws_step demo_env demo_wire_codec sh sh'"
    and "ws_threads sh' 1 = Some th'" and "ws_accepted sh' = ws_accepted sh"
    and "ws_routed sh' 1 = log'" and "loop_pc (wt_pc th') \<Longrightarrow> ws_senders sh' = [1]"
  shows "\<exists>sh. demo_ws_at sh log' th'"
  using assms ws_reach.ws_next[of demo_env demo_wire_codec demo_started sh sh'] by (auto simp: demo_ws_at_def)

lemma demo_ws_opened: "\<exists>sh. demo_ws_at sh [] (demo_ws_thread evs [] [] WsFlush)"
proof -
  define a where "a = ws_accept evs demo_peer None (ws_initial demo_started)"
  have r: "ws_reach demo_env demo_wire_codec demo_started a"
    unfolding a_def by (rule ws_reach.ws_next[OF ws_reach.ws_start ws_step.ws_accepted])
  have a: "ws_threads a 1 = Some (demo_ws_thread evs [] [] WsHandshake)" "ws_accepted a = 1"
    "ws_routed a 1 = []" "ws_senders a = []"
    by (simp_all add: a_def ws_accept_def ws_initial_def demo_ws_thread_def u64_max_def)
  have "demo_ws_at a [] (demo_ws_thread evs [] [] WsHandshake)"
    using r a by (simp add: demo_ws_at_def loop_pc_def demo_ws_thread_def)
  then show ?thesis
    by (rule demo_ws_move[OF _ ws_step.ws_opened[OF a(1)]]) (simp_all add: a demo_ws_thread_def del: One_nat_def)
qed

lemma demo_ws_flush:
  assumes "demo_ws_at sh log (demo_ws_thread evs queue sent WsFlush)"
    and "flush_turn demo_wire_codec (demo_ws_thread evs queue sent WsFlush) = th'"
  shows "\<exists>sh. demo_ws_at sh log th'"
  by (rule demo_ws_move[OF assms(1) ws_step.ws_flushed[where c = 1 and th = "demo_ws_thread evs queue sent WsFlush"]])
    (use assms in \<open>auto simp: demo_ws_at_def demo_ws_thread_def loop_pc_def\<close>)

lemma demo_ws_read:
  assumes "demo_ws_at sh log (demo_ws_thread evs queue sent WsRead)"
    and "ws_read demo_wire_codec 1 0 (Err ()) (demo_ws_thread evs queue sent WsRead) = th'"
  shows "\<exists>sh. demo_ws_at sh log th'"
  by (rule demo_ws_move[OF assms(1)
        ws_step.ws_reads[where c = 1 and th = "demo_ws_thread evs queue sent WsRead" and now = 0 and randomness = "Err ()" and th' = th']])
    (use assms in \<open>auto simp: demo_ws_at_def demo_ws_thread_def loop_pc_def\<close>)

text \<open>The refusal goes through the channel to the WebSocket.\<close>

lemma demo_ws_answered: "\<exists>sh. demo_ws_at sh [MsgError 400] (demo_ws_thread [] [] [MsgError 400] WsFlush)"
proof -
  let ?th = "\<lambda>queue sent. demo_ws_thread [] queue sent"
  obtain a where "demo_ws_at a [] (demo_ws_thread [EvText] [] [] WsFlush)" using demo_ws_opened by blast
  then obtain b where "demo_ws_at b [] (demo_ws_thread [EvText] [] [] WsRead)"
    using demo_ws_flush by (fastforce simp: flush_turn_def demo_ws_thread_def)
  then obtain c where c: "demo_ws_at c [] (?th [] [] (WsDispatch [[route 1 (MsgError 400)]]))"
    using demo_ws_read by (fastforce simp: ws_read_def own_error_def demo_ws_thread_def)
  have "\<exists>sh. demo_ws_at sh [MsgError 400] (?th [MsgError 400] [] (WsDispatch []))"
    by (rule demo_ws_move[OF c ws_step.ws_dispatched[where c = 1 and th = "?th [] [] (WsDispatch [[route 1 (MsgError 400)]])"
            and ms = "[route 1 (MsgError 400)]" and batches = "[]"]])
      (use c in \<open>auto simp: demo_ws_at_def demo_ws_thread_def loop_pc_def ws_dispatch_def dispatch_one_def route_def bs_contains_def\<close>)
  then obtain d where d: "demo_ws_at d [MsgError 400] (?th [MsgError 400] [] (WsDispatch []))" by blast
  have "\<exists>sh. demo_ws_at sh [MsgError 400] (?th [MsgError 400] [] WsFlush)"
    by (rule demo_ws_move[OF d ws_step.ws_dispatch_done[where c = 1 and th = "?th [MsgError 400] [] (WsDispatch [])"]])
      (use d in \<open>auto simp: demo_ws_at_def demo_ws_thread_def loop_pc_def\<close>)
  then show ?thesis
    using demo_ws_flush by (fastforce simp: flush_turn_def ws_send_def demo_ws_thread_def demo_wire_encodes)
qed

text \<open>A peer that closes leaves, through the disconnection and the removal of its sender.\<close>

lemma demo_ws_left: "\<exists>sh. demo_ws_at sh [] (demo_ws_thread [] [] [] WsDone)"
proof -
  let ?th = "demo_ws_thread [] [] []"
  obtain a where "demo_ws_at a [] (demo_ws_thread [EvClose] [] [] WsFlush)" using demo_ws_opened by blast
  then obtain b where "demo_ws_at b [] (demo_ws_thread [EvClose] [] [] WsRead)"
    using demo_ws_flush by (fastforce simp: flush_turn_def demo_ws_thread_def)
  then obtain c where c: "demo_ws_at c [] (?th WsDisconnect)"
    using demo_ws_read by (fastforce simp: ws_read_def demo_ws_thread_def)
  have "\<exists>sh. demo_ws_at sh [] (?th WsRemove)"
    by (rule demo_ws_move[OF c ws_step.ws_disconnected[where c = 1 and th = "?th WsDisconnect"]])
      (use c in \<open>auto simp: demo_ws_at_def demo_ws_thread_def loop_pc_def\<close>)
  then obtain d where d: "demo_ws_at d [] (?th WsRemove)" by blast
  show ?thesis
    by (rule demo_ws_move[OF d ws_step.ws_removed[where c = 1 and th = "?th WsRemove"]])
      (use d in \<open>auto simp: demo_ws_at_def demo_ws_thread_def loop_pc_def\<close>)
qed

theorem ws_shell_consistent_witness:
  "\<exists>sh. ws_reach demo_env demo_wire_codec demo_started sh \<and> ws_pc_of sh 1 = Some WsDone \<and>
     1 \<notin> set (ws_senders sh) \<and> bt_get (rl_connections (ws_service sh)) 1 = None"
proof -
  obtain sh where sh: "ws_reach demo_env demo_wire_codec demo_started sh" "ws_pc_of sh 1 = Some WsDone" "ws_accepted sh = 1"
    using demo_ws_left by (auto simp: demo_ws_at_def demo_ws_thread_def ws_pc_of_def)
  have "ws_accepted sh \<le> u64_max" using sh(3) by (simp add: u64_max_def)
  with ws_shell_consistent[OF demo_start_ok demo_started_fields(1) sh(1)] sh(1,2) show ?thesis by auto
qed

theorem ws_delivers_in_order_witness:
  "\<exists>sh th. ws_reach demo_env demo_wire_codec demo_started sh \<and> ws_threads sh 1 = Some th \<and>
     wt_sent th = [MsgError 400] \<and> ws_routed sh 1 = [MsgError 400] \<and> route 1 (MsgError 400) \<in> set (ws_produced sh)"
proof -
  obtain sh where sh: "ws_reach demo_env demo_wire_codec demo_started sh"
      "ws_threads sh 1 = Some (demo_ws_thread [] [] [MsgError 400] WsFlush)"
    using demo_ws_answered by (auto simp: demo_ws_at_def)
  have "ws_routed sh 1 = [MsgError 400]" "\<forall>m \<in> set (ws_routed sh 1). route 1 m \<in> set (ws_produced sh)"
    using ws_delivers_in_order[OF sh] by (simp_all add: demo_ws_thread_def)
  with sh show ?thesis by (auto simp: demo_ws_thread_def)
qed

end
