(* ===== verification/Spec2Isabelle.thy ===== *)
theory Spec2Isabelle
  imports Mailbox_Props Limiter_Props Observability Wire_Props Storage_Props Relay_Props
    Channel_Duplex Cpace_Props Profile_Props Cbcl_Props Endpoint_Props V2_Session_Props
    File_Relay_Props Tcp_Progress Ws_Shell_Props
begin

text \<open>
  A verification library for the CBCL pairing crate (the Rust sources under \<^verbatim>\<open>src/src\<close>): the
  blind relay and the endpoints that pair through it.

  \<^bold>\<open>The program.\<close> Two endpoints pair through an application-unaware relay. The relay holds
  mailboxes (\<^verbatim>\<open>mailbox.rs\<close>), admits operations through a keyed sliding-window limiter
  (\<^verbatim>\<open>limiter.rs\<close>), counts outcomes (\<^verbatim>\<open>observability.rs\<close>), persists every mailbox through a
  store (\<^verbatim>\<open>storage.rs\<close>), speaks a closed CBOR language (\<^verbatim>\<open>wire.rs\<close>), and ties these together
  in the service \<^verbatim>\<open>RelayService\<close> (\<^verbatim>\<open>relay.rs\<close>). Two binaries (\<^verbatim>\<open>bin/cbcl-pairing-relay.rs\<close> over TCP,
  \<^verbatim>\<open>bin/cbcl-pairing-relay-ws.rs\<close> over WebSockets) serve it from one thread per connection and a sweeper,
  with the service behind a mutex. An endpoint binds an invitation to one attempt,
  runs CPace over the mailbox (\<^verbatim>\<open>cpace.rs\<close>, with the public inputs of \<^verbatim>\<open>context.rs\<close>), confirms the
  key and opens a counter-mode AEAD channel (\<^verbatim>\<open>channel.rs\<close>). Every step is also a signed CBCL control
  checked by a monitor (\<^verbatim>\<open>cbcl_protocol.rs\<close>). Inside the channel the reducer (\<^verbatim>\<open>endpoint.rs\<close>) shows an
  intent recognised by an application profile (\<^verbatim>\<open>profile.rs\<close>), takes the user's decision and delivers
  at most one authorised grant. A second protocol over the same relay and primitives (\<^verbatim>\<open>credential_v2\<close>)
  transfers a credential: an allocator and a claimant session drive the relay, exchange padded objects
  through a sealed channel, and save sealed checkpoints so that each can resume after a crash.

  \<^bold>\<open>The theories, in dependency order.\<close>

  \<^item> \<open>Pairing_Prelude\<close>: results with a panic value (\<open>Ok\<close>, \<open>Err\<close>, \<open>Panic\<close>), state-passing bind,
    checked and saturating machine arithmetic, and the ordered maps and sets of the standard
    library as sorted lists behind the interfaces \<open>btree_map\<close> and \<open>btree_set\<close>.
  \<^item> \<open>Wire_Types\<close>: the message types of \<^verbatim>\<open>wire.rs\<close>.
  \<^item> \<open>Mailbox\<close>, \<open>Mailbox_Invariant\<close>, \<open>Mailbox_Queue\<close>, \<open>Mailbox_Props\<close>: the pure mailbox of
    \<^verbatim>\<open>mailbox.rs\<close> (allocation, the six commands, reaping, snapshots), its invariant, and its
    refinement to the history of commands.
  \<^item> \<open>Ip_Addr\<close>, \<open>Limiter\<close>, \<open>Limiter_Invariant\<close>, \<open>Limiter_Window\<close>, \<open>Limiter_Props\<close>: the limiter
    with its least-recently-used index, and the sliding-window budget it enforces.
  \<^item> \<open>Observability\<close>: counters and gauges.
  \<^item> \<open>Wire\<close>, \<open>Wire_Props\<close>: recognisers and encoders over a \<open>codec\<close> parameter (the CBOR and
    CDDL libraries are outside the sources, and what a rule of \<^verbatim>\<open>schemas/pairing-v1.cddl\<close> accepts is the
    library's answer, of which nothing is assumed), with the law \<open>reads_back\<close> they rely on.
  \<^item> \<open>Storage\<close>, \<open>Storage_Props\<close>: the record format, the store trait as the locale
    \<open>mailbox_store\<close>, interpreted on the in-memory adapter, and the file names of the directory
    adapter.
  \<^item> \<open>File_System\<close>, \<open>File_Store\<close>, \<open>File_Records\<close>, \<open>File_Store_Props\<close>: the calls of \<^verbatim>\<open>std::fs\<close> that the
    directory adapter \<^verbatim>\<open>FileMailboxStore\<close> makes, over a directory with written and synchronised
    contents, where each call may fail and power may be lost before what was not synchronised is on
    the disk; the adapter itself; and its interpretation of \<open>mailbox_store\<close>, with what a loss of
    power and a failed call leave.
  \<^item> \<open>Relay\<close>: the service, operation by operation, over an injected store.
    \<open>Relay_Invariant\<close> (tables, routes, sessions), \<open>Relay_Safety\<close> (every command keeps the
    invariant), \<open>Relay_Run\<close> (sweep, emergency close, disconnect, loading), \<open>Relay_Restart\<close>
    (construction, the step relation \<open>relay_step\<close> and the reachable states \<open>relay_reach\<close>),
    \<open>Relay_Access\<close> (what each command may grant, deliver or change, through the locales
    \<open>relay_relation\<close> and \<open>service_relation\<close>, and what a failed command leaves, over any store), \<open>Relay_Demo\<close> (a concrete run for the witnesses)
    and \<open>Relay_Props\<close>. \<open>File_Relay_Props\<close> puts the service on the directory adapter and shows that it
    starts again, after a loss of power, with the mailboxes it had.
  \<^item> \<open>Relay_Shell\<close>: what both binaries do up to their listener (arguments, socket addresses, the operator
    key file, random values, opening the store, emergency close, exit codes). \<open>Tcp_Shell\<close> and
    \<open>Ws_Shell\<close>: their threads as step relations \<open>tcp_step\<close> and \<open>ws_step\<close>, one step for each stretch of code
    between two lock, channel or socket operations. Over TCP the peer's octets arrive and are taken at any
    time, reads and writes block, a write hands over any part of its octets, and each writer has its own
    mutex. \<open>Shell_Service\<close>: what the service does for both shells (whom it routes to, that it returns).
    \<open>Tcp_Shell_Props\<close> and \<open>Ws_Shell_Props\<close>: invariants of every reachable state under every interleaving
    (service and store, tables against threads) and, over WebSockets, what a thread is sent and in which
    order. \<open>Tcp_Delivery\<close>: the octets on a socket are whole frames of exactly what was routed there, in the
    order of each thread. \<open>Tcp_Progress\<close>: a thread waits for a peer only, never for a lock that is not
    given back, and each of its steps brings it nearer to its end. The order is that of
    sending or dispatch: a thread sends after it has released the service, so messages that two threads
    have for one connection may be sent in the other order than the service produced them. The connections
    a service knows are followed through \<open>service_relation\<close>, interpreted on \<open>known_grows\<close>.
  \<^item> \<open>Context\<close>, \<open>Channel\<close>, \<open>Channel_Props\<close>, \<open>Channel_Duplex\<close>: the pairing context and the secure
    channel over a record \<open>crypto\<close> of the hash, key derivation, MAC and AEAD functions; counters,
    nonces and refusals; and two confirmed peers with frames in flight, through the locale
    \<open>transport\<close> interpreted on \<open>seal\<close> and \<open>open_sealed\<close>.
  \<^item> \<open>Cpace\<close>, \<open>Cpace_Props\<close>: both protocol steps, the encoding of their hash inputs, and the
    Elligator 2 map over the limb operations of fiat-crypto (record \<open>fiat\<close>), shown to compute the
    map of RFC 9380 over the field of order \<open>2^255 - 19\<close>.
  \<^item> \<open>Profile\<close>, \<open>Profile_Props\<close>: the profile contract (record \<open>profile_ops\<close>), the three profiles, and
    the word carrier. The locale \<open>bound_profile\<close> holds what a profile promises about displayed
    and granted fields, with one interpretation per profile.
  \<^item> \<open>Cbcl_Protocol\<close>, \<open>Cbcl_Props\<close>: signed controls, dialect installation and the bootstrap and
    session monitors over a record \<open>cbcl\<close> of the CBCL engine's functions.
  \<^item> \<open>Endpoint\<close>, \<open>Endpoint_Relation\<close>, \<open>Endpoint_Props\<close>: the invitation record and every method of
    \<^verbatim>\<open>EndpointReducer\<close>. The locale \<open>reducer_relation\<close> contains every method in any relation that
    contains the elementary updates; it is interpreted once for delivery and once for erasure.
  \<^item> \<open>V2_Base\<close> (\<^verbatim>\<open>mod.rs\<close>, \<^verbatim>\<open>object.rs\<close>, \<^verbatim>\<open>frame.rs\<close>), \<open>V2_Text\<close> (\<^verbatim>\<open>display.rs\<close>), \<open>V2_Carrier\<close> (carriers,
    presence codes, context, account selection), \<open>V2_Handoff\<close> (\<^verbatim>\<open>handoff.rs\<close>, \<^verbatim>\<open>manual.rs\<close>): the formats of
    \<^verbatim>\<open>credential_v2\<close> over a record \<open>v2_env\<close> of the outside functions.
  \<^item> \<open>V2_Channel\<close>, \<open>V2_Endpoint\<close>, \<open>V2_Checkpoint\<close>, \<open>V2_Bootstrap\<close>, \<open>V2_Allocator\<close> (with \<^verbatim>\<open>inspection.rs\<close>),
    \<open>V2_Claimant\<close>: the channel, the endpoint reducer over a body verifier, sealed checkpoints, the allocator before
    key confirmation, and the two relay-driven sessions.
  \<^item> \<open>V2_Codec_Props\<close>, \<open>V2_Presence_Props\<close>, \<open>V2_Words_Props\<close>, \<open>V2_Demo\<close>, \<open>V2_Wire_Props\<close>: every recogniser of these
    formats accepts exactly what its encoder writes, from the law \<open>v2_codec\<close> of the CBOR codec.
  \<^item> \<open>V2_Channel_Props\<close>: the locale \<open>counter_channel\<close>, a sublocale of \<open>transport\<close>, interpreted on the second
    channel. \<open>V2_Endpoint_Props\<close>: the conversations an endpoint accepts, as a grammar over the log of a step relation.
    \<open>V2_Checkpoint_Props\<close>: saving and restoring an endpoint. \<open>V2_Gate\<close>: the locale \<open>persistence_gate\<close>, interpreted on
    both sessions; \<open>V2_Session_Props\<close>: their write-ahead discipline.

  \<^bold>\<open>Modelling conventions.\<close> Fixed-width integers that the code only compares, counts and adds
  with checked or saturating operations are naturals with the bound written out; octets are
  8-bit words. A Rust \<^verbatim>\<open>Result\<close> with a possible \<^verbatim>\<open>expect\<close> or subtraction panic is a value of
  \<open>result\<close>; a \<^verbatim>\<open>&mut self\<close> method returns its result and the state it leaves, on error paths
  too. SHA-256, HMAC, the CBOR codec, URL parsing and the store are parameters,
  and so are the AEAD, X25519, fiat-crypto, Ed25519, the CBCL engine, the word list and the
  grant verifier; what a property needs of them is a named hypothesis (\<open>reads_back\<close>,
  \<open>v2_codec\<close>, \<open>base64_law\<close>, \<open>word_list_law\<close>, \<open>verifier_law\<close>, \<open>aead_sound\<close>, \<open>fiat_sound\<close>, \<open>engine_laws\<close>), and cryptographic conclusions are stated as
  \<open>the claim or an explicit collision\<close>, of two octet strings built from the very data the claim is about. Loops without
  a structural measure (\<open>sweep_loop\<close>, \<open>sample_nameplate\<close>) are partial functions into option, and
  that they return is proved; the reducer's retry loop is total because every pass that makes
  progress shortens the held messages.

  \<^bold>\<open>Assumptions on the operating system.\<close> The directory of the store exists on the disk once it was
  opened, a rename replaces the name as a whole, and a synchronised file or directory survives a loss
  of power; everything else that was written may or may not survive. A connection number is used again
  only after 2 to the 64 connections; what the tables say about the threads is stated below that
  number. A TCP peer may send, end or break its stream, take octets or stop taking them at any time; once
  writing to a socket has failed it fails from then on. What the WebSocket library's \<^verbatim>\<open>read\<close> returns is a list of events.

  \<^bold>\<open>Not modelled.\<close> The log lines and the listening socket of the binaries, the inside of the WebSocket
  library (a dependency), and the examples, which serve a demonstration page
  (\<^verbatim>\<open>examples/web_demo.rs\<close>) or feed random input to the recognisers (the fuzz examples) and are no part of the
  crate. Zeroing of memory on drop is not observable in the model; where the code clears a
  field the field is cleared. The word list's binary search is the search for the word's position.
\<close>

end
